(* ===== verification/Tiny_Prelude.thy ===== *)
theory Tiny_Prelude
  imports Main "HOL-Library.Word"
begin

text \<open>
  Shared vocabulary of the TinyServer development: the widths of the C++ integer types,
  the result type of fallible operations with its sequencing operator, and the generic
  facts on lists that the components use (segments, overwriting a segment, concatenations of
  equally long blocks).
\<close>

unbundle bit_operations_syntax

section \<open>Automation collections\<close>

named_theorems result_simps \<open>rules that evaluate the sequencing of fallible operations\<close>
named_theorems block_simps \<open>arithmetic of block-structured lists\<close>

section \<open>Integer types of the source\<close>

type_synonym u8 = "8 word"
type_synonym u16 = "16 word"
type_synonym u32 = "32 word"
type_synonym u64 = "64 word"

lemma unat_of_nat_small: "n < 2 ^ LENGTH('a::len) \<Longrightarrow> unat (of_nat n :: 'a word) = n"
  by (simp add: unat_of_nat take_bit_nat_eq_self)

lemma unat_lt2p: "unat (x :: 'a::len word) < 2 ^ LENGTH('a)"
  by (rule unsigned_less)

section \<open>Results of fallible operations\<close>

text \<open>
  An operation that may throw, dereference a null pointer or run into an assertion
  returns a sum: \<open>Inl\<close> the failure, \<open>Inr\<close> the value. \<open>rbind\<close> runs the
  second operation on the value of the first and stops at the first failure, as an
  exception does.
\<close>

definition rbind :: "'e + 'a \<Rightarrow> ('a \<Rightarrow> 'e + 'b) \<Rightarrow> 'e + 'b" where
  "rbind r f = (case r of Inl e \<Rightarrow> Inl e | Inr x \<Rightarrow> f x)"

lemma rbind_Inl [simp, result_simps]: "rbind (Inl e) f = Inl e"
  by (simp add: rbind_def)

lemma rbind_Inr [simp, result_simps]: "rbind (Inr x) f = f x"
  by (simp add: rbind_def)

lemma rbind_eq_Inr_iff: "rbind r f = Inr y \<longleftrightarrow> (\<exists>x. r = Inr x \<and> f x = Inr y)"
  by (cases r) simp_all

lemma rbind_eq_Inl_iff: "rbind r f = Inl e \<longleftrightarrow> r = Inl e \<or> (\<exists>x. r = Inr x \<and> f x = Inl e)"
  by (cases r) simp_all

lemma rbind_InrE:
  assumes "rbind r f = Inr y"
  obtains x where "r = Inr x" and "f x = Inr y"
  using assms by (auto simp: rbind_eq_Inr_iff)

lemma rbind_assoc: "rbind (rbind r f) g = rbind r (\<lambda>x. rbind (f x) g)"
  by (cases r) simp_all

section \<open>Segments of lists\<close>

text \<open>
  \<open>segment p n xs\<close> are the \<open>n\<close> elements from index \<open>p\<close>;
  \<open>overwrite xs p ys\<close> replaces the elements from index \<open>p\<close> by \<open>ys\<close>, as
  \<^verbatim>\<open>memcpy(xs + p, ys, n)\<close> does.
\<close>

definition segment :: "nat \<Rightarrow> nat \<Rightarrow> 'a list \<Rightarrow> 'a list" where
  "segment p n xs = take n (drop p xs)"

definition overwrite :: "'a list \<Rightarrow> nat \<Rightarrow> 'a list \<Rightarrow> 'a list" where
  "overwrite xs p ys = take p xs @ ys @ drop (p + length ys) xs"

lemma length_segment [simp]: "length (segment p n xs) = min n (length xs - p)"
  by (simp add: segment_def)

lemma length_overwrite [simp]:
  "p + length ys \<le> length xs \<Longrightarrow> length (overwrite xs p ys) = length xs"
  by (simp add: overwrite_def)

lemma overwrite_Nil [simp]: "overwrite xs p [] = xs"
  by (simp add: overwrite_def)

lemma segment_overwrite_same:
  "p + length ys \<le> length xs \<Longrightarrow> segment p (length ys) (overwrite xs p ys) = ys"
  by (simp add: segment_def overwrite_def)

lemma segment_overwrite_before:
  "q + n \<le> p \<Longrightarrow> p + length ys \<le> length xs \<Longrightarrow> segment q n (overwrite xs p ys) = segment q n xs"
  by (rule nth_equalityI) (auto simp: segment_def overwrite_def nth_append)

lemma segment_overwrite_after:
  "p + length ys \<le> q \<Longrightarrow> p + length ys \<le> length xs
    \<Longrightarrow> segment q n (overwrite xs p ys) = segment q n xs"
  by (simp add: segment_def overwrite_def min_def)

lemma overwrite_append:
  "p + length ys + length zs \<le> length xs
    \<Longrightarrow> overwrite xs p (ys @ zs) = overwrite (overwrite xs p ys) (p + length ys) zs"
  by (simp add: overwrite_def add.assoc add.commute [of "length zs"])

lemma segment_append:
  "segment p (m + n) xs = segment p m xs @ segment (p + m) n xs"
  by (simp add: segment_def take_add add.commute)

lemma segment_0 [simp]: "segment p 0 xs = []"
  by (simp add: segment_def)

lemma take_overwrite: "q \<le> p \<Longrightarrow> p \<le> length xs \<Longrightarrow> take q (overwrite xs p ys) = take q xs"
  by (simp add: overwrite_def min_def)

lemma overwrite_append_right:
  "p + length ys \<le> length xs \<Longrightarrow> overwrite (xs @ zs) p ys = overwrite xs p ys @ zs"
  by (simp add: overwrite_def)

section \<open>Concatenations of equally long blocks\<close>

definition uniform :: "nat \<Rightarrow> 'a list list \<Rightarrow> bool" where
  "uniform b xss \<longleftrightarrow> list_all (\<lambda>xs. length xs = b) xss"

lemma uniform_Nil [simp]: "uniform b []"
  by (simp add: uniform_def)

lemma uniform_Cons [simp]: "uniform b (xs # xss) \<longleftrightarrow> length xs = b \<and> uniform b xss"
  by (simp add: uniform_def)

lemma uniform_append [simp]: "uniform b (xss @ yss) \<longleftrightarrow> uniform b xss \<and> uniform b yss"
  by (simp add: uniform_def)

lemma uniform_nth: "uniform b xss \<Longrightarrow> i < length xss \<Longrightarrow> length (xss ! i) = b"
  by (simp add: uniform_def list_all_length)

lemma uniform_update: "uniform b xss \<Longrightarrow> length ys = b \<Longrightarrow> uniform b (xss[i := ys])"
  by (cases "i < length xss") (auto simp: uniform_def list_all_length nth_list_update)

lemma length_concat_uniform [block_simps]:
  "uniform b xss \<Longrightarrow> length (concat xss) = length xss * b"
  by (induction xss) auto

lemma drop_concat_uniform [block_simps]:
  "uniform b xss \<Longrightarrow> drop (k * b) (concat xss) = concat (drop k xss)"
proof (induction k arbitrary: xss)
  case 0
  then show ?case by simp
next
  case (Suc k)
  then show ?case by (cases xss) (simp_all add: drop_append)
qed

lemma take_concat_uniform [block_simps]:
  "uniform b xss \<Longrightarrow> take (k * b) (concat xss) = concat (take k xss)"
proof (induction k arbitrary: xss)
  case 0
  then show ?case by simp
next
  case (Suc k)
  then show ?case by (cases xss) simp_all
qed

lemma concat_split_block:
  assumes "uniform b xss" and "i < length xss"
  shows "concat xss = concat (take i xss) @ xss ! i @ concat (drop (Suc i) xss)"
proof -
  have "concat xss = concat (take i xss @ xss ! i # drop (Suc i) xss)"
    using assms(2) by (simp add: id_take_nth_drop [symmetric])
  then show ?thesis by simp
qed

text \<open>Writing inside one block writes inside the concatenation.\<close>

lemma concat_update_block:
  assumes u: "uniform b xss" and i: "i < length xss" and le: "o' + length ys \<le> b"
  shows "concat (xss[i := overwrite (xss ! i) o' ys]) = overwrite (concat xss) (i * b + o') ys"
proof -
  have len: "length (xss ! i) = b" using u i by (rule uniform_nth)
  have pre: "length (concat (take i xss)) = i * b"
    using i length_concat_uniform [OF u] by (simp add: take_concat_uniform [OF u, symmetric])
  have "concat (xss[i := overwrite (xss ! i) o' ys])
      = concat (take i xss) @ overwrite (xss ! i) o' ys @ concat (drop (Suc i) xss)"
    using i by (simp add: upd_conv_take_nth_drop)
  also have "\<dots> = overwrite (concat (take i xss) @ xss ! i @ concat (drop (Suc i) xss)) (i * b + o') ys"
    using len le pre by (simp add: overwrite_def)
  also have "\<dots> = overwrite (concat xss) (i * b + o') ys"
    using concat_split_block [OF u i] by simp
  finally show ?thesis .
qed

text \<open>Reading inside one block reads inside the concatenation.\<close>

lemma segment_concat_block:
  assumes u: "uniform b xss" and i: "i < length xss" and le: "o' + n \<le> b"
  shows "segment (i * b + o') n (concat xss) = segment o' n (xss ! i)"
proof -
  have len: "length (xss ! i) = b" using u i by (rule uniform_nth)
  have "segment (i * b + o') n (concat xss) = take n (drop o' (drop (i * b) (concat xss)))"
    by (simp add: segment_def add.commute)
  also have "\<dots> = take n (drop o' (xss ! i @ concat (drop (Suc i) xss)))"
    using i by (simp add: drop_concat_uniform [OF u] Cons_nth_drop_Suc [symmetric])
  also have "\<dots> = segment o' n (xss ! i)"
    using le len by (simp add: segment_def)
  finally show ?thesis .
qed

section \<open>Numbers as text\<close>

text \<open>Numbers as an output stream prints them, in base 10 and, after \<^verbatim>\<open>std::hex\<close>, in base 16.\<close>

definition digit_char :: "nat \<Rightarrow> char" where
  "digit_char d = (if d < 10 then char_of (48 + d) else char_of (87 + d))"

function print_nat :: "nat \<Rightarrow> nat \<Rightarrow> string" where
  "print_nat b n = (if b < 2 \<or> n < b then [digit_char n] else print_nat b (n div b) @ [digit_char (n mod b)])"
  by pat_completeness auto
termination
  by (relation "measure snd") (auto simp: not_less intro!: div_less_dividend)

declare print_nat.simps [simp del]

definition print_dec :: "'a::len word \<Rightarrow> string" where
  "print_dec w = print_nat 10 (unat w)"

definition print_hex :: "'a::len word \<Rightarrow> string" where
  "print_hex w = print_nat 16 (unat w)"

lemma digit_char_ne:
  assumes "n < 16"
  shows "digit_char n \<noteq> CHR 0x0D" and "digit_char n \<noteq> CHR 0x0A" and "digit_char n \<noteq> CHR 0x00"
proof -
  have "(of_char (digit_char n) :: nat) \<ge> 48" using assms by (auto simp: digit_char_def of_char_of)
  then show "digit_char n \<noteq> CHR 0x0D" "digit_char n \<noteq> CHR 0x0A" "digit_char n \<noteq> CHR 0x00" by auto
qed

text \<open>A number is printed in at least one digit.\<close>

lemma set_print_nat: "2 \<le> b \<Longrightarrow> set (print_nat b n) \<subseteq> digit_char ` {..<b}"
proof (induction b n rule: print_nat.induct)
  case (1 b n)
  then show ?case by (subst print_nat.simps) (auto simp: not_less)
qed

lemma print_nat_ne: "print_nat b n \<noteq> []"
  by (subst print_nat.simps) simp

section \<open>Conversion to int\<close>

text \<open>A value stored in a 32 bit \<^verbatim>\<open>int\<close>.\<close>

definition int32 :: "int \<Rightarrow> int" where
  "int32 n = sint (word_of_int n :: u32)"

lemma int32_id: "- (2 ^ 31) \<le> n \<Longrightarrow> n < 2 ^ 31 \<Longrightarrow> int32 n = n"
  by (simp add: int32_def int_word_sint)

section \<open>Loops that stop at an exception\<close>

text \<open>All results of a loop whose body can throw: \<open>None\<close> when some iteration does.\<close>

fun cast_all :: "('b \<Rightarrow> 'c option) \<Rightarrow> 'b list \<Rightarrow> 'c list option" where
  "cast_all f [] = Some []"
| "cast_all f (x # xs) = Option.bind (f x) (\<lambda>y. map_option (\<lambda>ys. y # ys) (cast_all f xs))"

lemma cast_all_Some:
  "cast_all f xs = Some ys \<longleftrightarrow> map f xs = map Some ys"
proof (induction xs arbitrary: ys)
  case (Cons x xs)
  then show ?case by (cases ys) (auto simp: bind_eq_Some_conv)
qed auto

lemma cast_all_total: "(\<And>x. x \<in> set xs \<Longrightarrow> \<exists>y. f x = Some y) \<Longrightarrow> \<exists>ys. cast_all f xs = Some ys"
proof (induction xs)
  case (Cons x xs)
  then obtain y ys where "f x = Some y" "cast_all f xs = Some ys" by (metis list.set_intros)
  then show ?case by simp
qed simp

lemma cast_all_set: "cast_all f xs = Some ys \<Longrightarrow> y \<in> set ys \<longleftrightarrow> (\<exists>x\<in>set xs. f x = Some y)"
  unfolding cast_all_Some by (metis (no_types, lifting) ex_map_conv image_iff list.set_map option.inject)

lemma cast_all_map: "cast_all f (map g xs) = cast_all (\<lambda>x. f (g x)) xs"
  by (induction xs) simp_all

lemma cast_all_const: "(\<And>x. x \<in> set xs \<Longrightarrow> f x = Some (g x)) \<Longrightarrow> cast_all f xs = Some (map g xs)"
  by (induction xs) auto

lemma cast_all_each: "cast_all f xs = Some ys \<Longrightarrow> x \<in> set xs \<Longrightarrow> \<exists>y. f x = Some y"
  unfolding cast_all_Some by (metis (no_types, lifting) image_iff list.set_map)

lemma cast_all_concat:
  "cast_all f xs = Some yss \<Longrightarrow> z \<in> set (concat yss) \<longleftrightarrow> (\<exists>x\<in>set xs. \<exists>ys. f x = Some ys \<and> z \<in> set ys)"
  using cast_all_set [of f xs yss] by fastforce

end
