(* ===== verification/Byte_Order.thy ===== *)
theory Byte_Order
  imports Tiny_Prelude
begin

text \<open>
  Model of \<^verbatim>\<open>src/src/myendian.h\<close>: the two byte orders, the memory representation of a
  word on the (little endian) host and the \<^verbatim>\<open>byteswap\<close> templates.
\<close>

section \<open>Byte orders\<close>

datatype endian = TINY_LITTLE_ENDIAN | TINY_BIG_ENDIAN

definition TINY_BYTE_ORDER :: endian where
  "TINY_BYTE_ORDER = TINY_LITTLE_ENDIAN"

section \<open>Memory representation of words\<close>

text \<open>
  \<open>le_bytes n w\<close> are the \<open>n\<close> bytes of a word in memory on a little endian machine,
  what \<^verbatim>\<open>memcpy(buf, &w, sizeof(w))\<close> stores; \<open>of_le_bytes\<close> reads them back.
\<close>

definition le_bytes :: "nat \<Rightarrow> 'a::len word \<Rightarrow> u8 list" where
  "le_bytes n w = map (\<lambda>i. ucast (drop_bit (8 * i) w)) [0..<n]"

fun of_le_bytes :: "u8 list \<Rightarrow> 'a::len word" where
  "of_le_bytes [] = 0"
| "of_le_bytes (b # bs) = ucast b OR push_bit 8 (of_le_bytes bs)"

lemma length_le_bytes [simp]: "length (le_bytes n w) = n"
  by (simp add: le_bytes_def)

lemma bit_of_le_bytes:
  "bit (of_le_bytes bs :: 'a::len word) k \<longleftrightarrow>
     k < LENGTH('a) \<and> k div 8 < length bs \<and> bit (bs ! (k div 8)) (k mod 8)"
proof (induction bs arbitrary: k)
  case Nil
  then show ?case by simp
next
  case (Cons b bs)
  show ?case
  proof (cases "k < 8")
    case True
    then show ?thesis by (auto simp: bit_simps dest: bit_imp_le_length)
  next
    case False
    then obtain m where m: "k = m + 8" by (metis add.commute le_Suc_ex not_less)
    then have "k div 8 = Suc (m div 8)" by simp
    moreover have "\<not> bit b k" using False by (auto dest: bit_imp_le_length)
    ultimately show ?thesis
      using m Cons.IH [of m] by (auto simp: bit_simps)
  qed
qed

lemma bit_le_bytes_nth:
  "i < n \<Longrightarrow> j < 8 \<Longrightarrow> bit (le_bytes n w ! i) j \<longleftrightarrow> bit w (8 * i + j)"
  by (simp add: le_bytes_def bit_simps)

text \<open>Storing a word and loading it gives the word back, when all its bytes are stored.\<close>

lemma of_le_bytes_le_bytes:
  fixes w :: "'a::len word"
  assumes "LENGTH('a) \<le> 8 * n"
  shows "of_le_bytes (le_bytes n w) = w"
proof (rule bit_word_eqI)
  fix k assume "k < LENGTH('a)"
  with assms have "k div 8 < n" by linarith
  then show "bit (of_le_bytes (le_bytes n w) :: 'a word) k = bit w k"
    using \<open>k < LENGTH('a)\<close> by (simp add: bit_of_le_bytes bit_le_bytes_nth)
qed

text \<open>Loading a byte string and storing the word gives the string back.\<close>

lemma le_bytes_of_le_bytes:
  assumes "length bs = n" and "8 * n \<le> LENGTH('a::len)"
  shows "le_bytes n (of_le_bytes bs :: 'a word) = bs"
proof (rule nth_equalityI)
  show "length (le_bytes n (of_le_bytes bs :: 'a word)) = length bs" using assms by simp
next
  fix i assume "i < length (le_bytes n (of_le_bytes bs :: 'a word))"
  then have i: "i < n" by simp
  show "le_bytes n (of_le_bytes bs :: 'a word) ! i = bs ! i"
  proof (rule bit_word_eqI)
    fix j assume "j < LENGTH(8)"
    then have j: "j < 8" by simp
    then show "bit (le_bytes n (of_le_bytes bs :: 'a word) ! i) j = bit (bs ! i) j"
      using i assms by (simp add: bit_le_bytes_nth bit_of_le_bytes)
  qed
qed

section \<open>byteswap\<close>

text \<open>
  The three \<^verbatim>\<open>byteswap\<close> templates select \<^verbatim>\<open>bswap_64\<close>, \<^verbatim>\<open>bswap_32\<close> or
  \<^verbatim>\<open>bswap_16\<close> by the size of the type; all reverse the bytes of the value.
\<close>

definition byteswap :: "'a::len word \<Rightarrow> 'a word" where
  "byteswap w = of_le_bytes (rev (le_bytes (LENGTH('a) div 8) w))"

lemma le_bytes_byteswap:
  fixes w :: "'a::len word"
  assumes "8 dvd LENGTH('a)"
  shows "le_bytes (LENGTH('a) div 8) (byteswap w) = rev (le_bytes (LENGTH('a) div 8) w)"
  using assms by (simp add: byteswap_def le_bytes_of_le_bytes)

text \<open>Swapping twice is the identity, at every width that is a number of bytes.\<close>

lemma byteswap_byteswap:
  fixes w :: "'a::len word"
  assumes "8 dvd LENGTH('a)"
  shows "byteswap (byteswap w) = w"
proof -
  have "byteswap (byteswap w) = of_le_bytes (rev (rev (le_bytes (LENGTH('a) div 8) w)))"
    using le_bytes_byteswap [OF assms, of w] by (simp add: byteswap_def [of "byteswap w"])
  also have "\<dots> = w"
    using assms by (simp add: of_le_bytes_le_bytes)
  finally show ?thesis .
qed

definition byteswapOnLittleEndian :: "'a::len word \<Rightarrow> 'a word" where
  "byteswapOnLittleEndian t = (if TINY_BYTE_ORDER = TINY_BIG_ENDIAN then t else byteswap t)"

definition byteswapOnBigEndian :: "'a::len word \<Rightarrow> 'a word" where
  "byteswapOnBigEndian t = (if TINY_BYTE_ORDER = TINY_BIG_ENDIAN then byteswap t else t)"

lemma byteswapOnLittleEndian_twice [simp]:
  fixes w :: "'a::len word"
  assumes "8 dvd LENGTH('a)"
  shows "byteswapOnLittleEndian (byteswapOnLittleEndian w) = w"
  using assms by (simp add: byteswapOnLittleEndian_def byteswap_byteswap)

end
