(* ===== verification/Byte_Array.thy ===== *)
theory Byte_Array
  imports Byte_Order
begin

text \<open>
  Model of \<^verbatim>\<open>src/src/bytearray.h\<close> and \<^verbatim>\<open>src/src/bytearray.cpp\<close>: a growable byte
  buffer kept as a chain of equally sized nodes with a current position, the block
  operations on it (write, read, seek, grow, gather lists, files) and the typed operations
  built on them (fixed width integers, varints, strings).

  The chain \<^verbatim>\<open>m_root\<close> is the list \<open>m_nodes\<close> of node contents; a node pointer is an index
  into it and \<^verbatim>\<open>nullptr\<close> is \<open>None\<close>. \<open>m_heap\<close> stands for the indeterminate content
  of memory obtained from \<^verbatim>\<open>new char[]\<close> (by offset in the chain); nothing is assumed of it.
  Sizes are natural numbers: the invariant \<open>ba_inv\<close>, kept by every operation, bounds them by
  the memory of the chain, so no subtraction of the source wraps.
\<close>

section \<open>State\<close>

record byte_array =
  m_baseSize :: nat
  m_position :: nat
  m_capacity :: nat
  m_size :: nat
  m_endian :: endian
  m_nodes :: "u8 list list"
  m_cur :: "nat option"
  m_heap :: "nat \<Rightarrow> u8"

text \<open>
  Failures: \<^verbatim>\<open>std::out_of_range\<close>, the dereference of a null node, a division by a zero
  base size, a negative count handed to \<^verbatim>\<open>ofstream::write\<close>, a \<^verbatim>\<open>memcpy\<close> past the end
  of a local variable, a loop that never ends.
\<close>

datatype ba_error =
  Out_Of_Range | Null_Deref | Div_By_Zero | Negative_Count | Stack_Overrun | Diverges

definition Node_new :: "(nat \<Rightarrow> u8) \<Rightarrow> nat \<Rightarrow> nat \<Rightarrow> u8 list" where
  "Node_new heap at s = map (\<lambda>i. heap (at + i)) [0..<s]"

definition Node_next :: "byte_array \<Rightarrow> nat \<Rightarrow> nat option" where
  "Node_next ba c = (if Suc c < length (m_nodes ba) then Some (Suc c) else None)"

definition ByteArray_new :: "(nat \<Rightarrow> u8) \<Rightarrow> nat \<Rightarrow> byte_array" where
  "ByteArray_new heap base_size =
     \<lparr>m_baseSize = base_size, m_position = 0, m_capacity = base_size, m_size = 0,
      m_endian = TINY_BIG_ENDIAN, m_nodes = [Node_new heap 0 base_size], m_cur = Some 0,
      m_heap = heap\<rparr>"

definition ByteArray_isLittleEndian :: "byte_array \<Rightarrow> bool" where
  "ByteArray_isLittleEndian ba \<longleftrightarrow> m_endian ba = TINY_LITTLE_ENDIAN"

definition ByteArray_setIsLittleEndian :: "byte_array \<Rightarrow> bool \<Rightarrow> byte_array" where
  "ByteArray_setIsLittleEndian ba val =
     (if val then ba\<lparr>m_endian := TINY_LITTLE_ENDIAN\<rparr> else ba\<lparr>m_endian := TINY_BIG_ENDIAN\<rparr>)"

definition ByteArray_getCurCapacity :: "byte_array \<Rightarrow> nat" where
  "ByteArray_getCurCapacity ba = m_capacity ba - m_position ba"

definition ByteArray_getReadSize :: "byte_array \<Rightarrow> nat" where
  "ByteArray_getReadSize ba = m_size ba - m_position ba"

section \<open>Block operations\<close>

subsection \<open>addCapacity\<close>

text \<open>The loop that links \<^verbatim>\<open>count\<close> new nodes at the end of the chain.\<close>

fun ByteArray_appendNodes :: "nat \<Rightarrow> byte_array \<Rightarrow> byte_array" where
  "ByteArray_appendNodes 0 ba = ba"
| "ByteArray_appendNodes (Suc i) ba =
     ByteArray_appendNodes i
       (ba\<lparr>m_nodes := m_nodes ba @ [Node_new (m_heap ba) (m_capacity ba) (m_baseSize ba)],
           m_capacity := m_capacity ba + m_baseSize ba\<rparr>)"

definition ByteArray_addCapacity :: "byte_array \<Rightarrow> nat \<Rightarrow> ba_error + byte_array" where
  "ByteArray_addCapacity ba sz =
     (if sz = 0 then Inr ba
      else let old_cap = ByteArray_getCurCapacity ba in
        if old_cap \<ge> sz then Inr ba
        else if m_baseSize ba = 0 then Inl Div_By_Zero
        else let sz' = sz - old_cap;
                 count = sz' div m_baseSize ba + (if sz' mod m_baseSize ba > old_cap then 1 else 0);
                 first = (if count = 0 then None else Some (length (m_nodes ba)));
                 ba' = ByteArray_appendNodes count ba
             in Inr (if old_cap = 0 then ba'\<lparr>m_cur := first\<rparr> else ba'))"

subsection \<open>write\<close>

function ByteArray_writeLoop ::
    "nat \<Rightarrow> nat \<Rightarrow> u8 list \<Rightarrow> byte_array \<Rightarrow> ba_error + byte_array" where
  "ByteArray_writeLoop npos ncap buf ba =
     (if buf = [] then Inr ba
      else case m_cur ba of
        None \<Rightarrow> Inl Null_Deref
      | Some c \<Rightarrow>
          if ncap \<ge> length buf then
            Inr (ba\<lparr>m_nodes := (m_nodes ba)[c := overwrite (m_nodes ba ! c) npos buf],
                    m_cur := (if length (m_nodes ba ! c) = npos + length buf
                              then Node_next ba c else Some c),
                    m_position := m_position ba + length buf\<rparr>)
          else
            (let ba' = ba\<lparr>m_nodes := (m_nodes ba)[c := overwrite (m_nodes ba ! c) npos (take ncap buf)],
                          m_position := m_position ba + ncap,
                          m_cur := Node_next ba c\<rparr>
             in case m_cur ba' of
                  None \<Rightarrow> Inl Null_Deref
                | Some c' \<Rightarrow> ByteArray_writeLoop 0 (length (m_nodes ba' ! c')) (drop ncap buf) ba'))"
  by pat_completeness auto
termination
  by (relation "measure (\<lambda>(npos, ncap, buf, ba).
        case m_cur ba of None \<Rightarrow> 0 | Some c \<Rightarrow> length (m_nodes ba) - c)")
     (auto simp: Node_next_def split: if_splits)

definition ByteArray_write :: "byte_array \<Rightarrow> u8 list \<Rightarrow> ba_error + byte_array" where
  "ByteArray_write ba buf =
     (if buf = [] then Inr ba
      else rbind (ByteArray_addCapacity ba (length buf)) (\<lambda>ba1.
        if m_baseSize ba1 = 0 then Inl Div_By_Zero
        else let npos = m_position ba1 mod m_baseSize ba1 in
          case m_cur ba1 of
            None \<Rightarrow> Inl Null_Deref
          | Some c \<Rightarrow>
              rbind (ByteArray_writeLoop npos (length (m_nodes ba1 ! c) - npos) buf ba1) (\<lambda>ba2.
                Inr (if m_position ba2 > m_size ba2 then ba2\<lparr>m_size := m_position ba2\<rparr> else ba2))))"

subsection \<open>read\<close>

function ByteArray_readLoop ::
    "nat \<Rightarrow> nat \<Rightarrow> nat \<Rightarrow> byte_array \<Rightarrow> ba_error + (u8 list \<times> byte_array)" where
  "ByteArray_readLoop npos ncap sz ba =
     (if sz = 0 then Inr ([], ba)
      else case m_cur ba of
        None \<Rightarrow> Inl Null_Deref
      | Some c \<Rightarrow>
          if ncap \<ge> sz then
            Inr (segment npos sz (m_nodes ba ! c),
                 ba\<lparr>m_cur := (if length (m_nodes ba ! c) = npos + sz
                              then Node_next ba c else Some c),
                    m_position := m_position ba + sz\<rparr>)
          else
            (let ba' = ba\<lparr>m_position := m_position ba + ncap, m_cur := Node_next ba c\<rparr>
             in case m_cur ba' of
                  None \<Rightarrow> Inl Null_Deref
                | Some c' \<Rightarrow>
                    rbind (ByteArray_readLoop 0 (length (m_nodes ba' ! c')) (sz - ncap) ba')
                      (\<lambda>(bs, ba2). Inr (segment npos ncap (m_nodes ba ! c) @ bs, ba2))))"
  by pat_completeness auto
termination
  by (relation "measure (\<lambda>(npos, ncap, sz, ba).
        case m_cur ba of None \<Rightarrow> 0 | Some c \<Rightarrow> length (m_nodes ba) - c)")
     (auto simp: Node_next_def split: if_splits)

definition ByteArray_read :: "byte_array \<Rightarrow> nat \<Rightarrow> ba_error + (u8 list \<times> byte_array)" where
  "ByteArray_read ba sz =
     (if sz > ByteArray_getReadSize ba then Inl Out_Of_Range
      else if m_baseSize ba = 0 then Inl Div_By_Zero
      else let npos = m_position ba mod m_baseSize ba in
        case m_cur ba of
          None \<Rightarrow> Inl Null_Deref
        | Some c \<Rightarrow> ByteArray_readLoop npos (length (m_nodes ba ! c) - npos) sz ba)"

text \<open>
  The \<^verbatim>\<open>const\<close> overload reads from \<^verbatim>\<open>position\<close> through a copy of \<^verbatim>\<open>m_cur\<close>: it starts in
  the current node whatever the position, and leaves the array as it is.
\<close>

definition ByteArray_readAt :: "byte_array \<Rightarrow> nat \<Rightarrow> nat \<Rightarrow> ba_error + u8 list" where
  "ByteArray_readAt ba sz position =
     (if sz > ByteArray_getReadSize ba then Inl Out_Of_Range
      else if m_baseSize ba = 0 then Inl Div_By_Zero
      else let npos = position mod m_baseSize ba in
        case m_cur ba of
          None \<Rightarrow> Inl Null_Deref
        | Some c \<Rightarrow>
            rbind (ByteArray_readLoop npos (length (m_nodes ba ! c) - npos) sz ba)
              (\<lambda>(bs, _). Inr bs))"

subsection \<open>setPosition, clear\<close>

text \<open>The search for the node of a position: the remaining chain, its first index, the offset.\<close>

fun ByteArray_seek :: "u8 list list \<Rightarrow> nat \<Rightarrow> nat \<Rightarrow> ba_error + nat option" where
  "ByteArray_seek [] i pos = Inl Null_Deref"
| "ByteArray_seek (n # ns) i pos =
     (if pos > length n then ByteArray_seek ns (Suc i) (pos - length n)
      else if pos = length n then Inr (if ns = [] then None else Some (Suc i))
      else Inr (Some i))"

definition ByteArray_setPosition :: "byte_array \<Rightarrow> nat \<Rightarrow> ba_error + byte_array" where
  "ByteArray_setPosition ba pos =
     (if pos > m_capacity ba then Inl Out_Of_Range
      else let ba1 = ba\<lparr>m_position := pos\<rparr>;
               ba2 = (if m_position ba1 > m_size ba1 then ba1\<lparr>m_size := m_position ba1\<rparr> else ba1)
           in rbind (ByteArray_seek (m_nodes ba2) 0 pos) (\<lambda>cur. Inr (ba2\<lparr>m_cur := cur\<rparr>)))"

definition ByteArray_clear :: "byte_array \<Rightarrow> byte_array" where
  "ByteArray_clear ba =
     ba\<lparr>m_position := 0, m_size := 0, m_capacity := m_baseSize ba, m_nodes := take 1 (m_nodes ba),
        m_cur := Some 0\<rparr>"

subsection \<open>Gather lists\<close>

text \<open>
  An \<^verbatim>\<open>iovec\<close> points into a node: the node, the offset in it and the length. The three
  gathering operations share this loop over the chain from \<^verbatim>\<open>cur\<close>.
\<close>

record iovec =
  iov_node :: nat
  iov_off :: nat
  iov_len :: nat

function ByteArray_gatherLoop ::
    "byte_array \<Rightarrow> nat option \<Rightarrow> nat \<Rightarrow> nat \<Rightarrow> nat \<Rightarrow> ba_error + iovec list" where
  "ByteArray_gatherLoop ba cur npos ncap len =
     (if len = 0 then Inr []
      else case cur of
        None \<Rightarrow> Inl Null_Deref
      | Some c \<Rightarrow>
          if ncap \<ge> len then Inr [\<lparr>iov_node = c, iov_off = npos, iov_len = len\<rparr>]
          else (case Node_next ba c of
              None \<Rightarrow> Inl Null_Deref
            | Some c' \<Rightarrow>
                rbind (ByteArray_gatherLoop ba (Some c') 0 (length (m_nodes ba ! c')) (len - ncap))
                  (\<lambda>iovs. Inr (\<lparr>iov_node = c, iov_off = npos, iov_len = ncap\<rparr> # iovs))))"
  by pat_completeness auto
termination
  by (relation "measure (\<lambda>(ba, cur, npos, ncap, len).
        case cur of None \<Rightarrow> 0 | Some c \<Rightarrow> length (m_nodes ba) - c)")
     (auto simp: Node_next_def split: if_splits)

declare ByteArray_gatherLoop.simps [simp del]

definition ByteArray_getReadBuffers :: "byte_array \<Rightarrow> nat \<Rightarrow> ba_error + (iovec list \<times> nat)" where
  "ByteArray_getReadBuffers ba len =
     (let len = (if len > ByteArray_getReadSize ba then ByteArray_getReadSize ba else len) in
      if len = 0 then Inr ([], 0)
      else if m_baseSize ba = 0 then Inl Div_By_Zero
      else let npos = m_position ba mod m_baseSize ba in
        case m_cur ba of
          None \<Rightarrow> Inl Null_Deref
        | Some c \<Rightarrow>
            rbind (ByteArray_gatherLoop ba (Some c) npos (length (m_nodes ba ! c) - npos) len)
              (\<lambda>iovs. Inr (iovs, len)))"

text \<open>
  The overload with a position walks from the root to the node of the position, but
  clips the length by the bytes after \<^verbatim>\<open>m_position\<close> and takes the size of the first node
  from \<^verbatim>\<open>m_cur\<close>.
\<close>

fun ByteArray_hop :: "byte_array \<Rightarrow> nat \<Rightarrow> nat option \<Rightarrow> ba_error + nat option" where
  "ByteArray_hop ba 0 cur = Inr cur"
| "ByteArray_hop ba (Suc count) cur =
     (case cur of None \<Rightarrow> Inl Null_Deref | Some c \<Rightarrow> ByteArray_hop ba count (Node_next ba c))"

definition ByteArray_getReadBuffersAt ::
    "byte_array \<Rightarrow> nat \<Rightarrow> nat \<Rightarrow> ba_error + (iovec list \<times> nat)" where
  "ByteArray_getReadBuffersAt ba len position =
     (let len = (if len > ByteArray_getReadSize ba then ByteArray_getReadSize ba else len) in
      if len = 0 then Inr ([], 0)
      else if m_baseSize ba = 0 then Inl Div_By_Zero
      else let npos = position mod m_baseSize ba; count = position div m_baseSize ba in
        rbind (ByteArray_hop ba count (Some 0)) (\<lambda>cur.
          case m_cur ba of
            None \<Rightarrow> Inl Null_Deref
          | Some mc \<Rightarrow>
              rbind (ByteArray_gatherLoop ba cur npos (length (m_nodes ba ! mc) - npos) len)
                (\<lambda>iovs. Inr (iovs, len))))"

definition ByteArray_getWriteBuffers ::
    "byte_array \<Rightarrow> nat \<Rightarrow> ba_error + (iovec list \<times> nat \<times> byte_array)" where
  "ByteArray_getWriteBuffers ba len =
     (if len = 0 then Inr ([], 0, ba)
      else rbind (ByteArray_addCapacity ba len) (\<lambda>ba1.
        if m_baseSize ba1 = 0 then Inl Div_By_Zero
        else let npos = m_position ba1 mod m_baseSize ba1 in
          case m_cur ba1 of
            None \<Rightarrow> Inl Null_Deref
          | Some c \<Rightarrow>
              rbind (ByteArray_gatherLoop ba1 (Some c) npos (length (m_nodes ba1 ! c) - npos) len)
                (\<lambda>iovs. Inr (iovs, len, ba1))))"

subsection \<open>Files\<close>

text \<open>
  The stream operations are modelled by the bytes that reach the file or come from it;
  \<^verbatim>\<open>opened\<close> says whether the stream could be opened. \<^verbatim>\<open>pos\<close>, \<^verbatim>\<open>read_size\<close> and
  \<^verbatim>\<open>len\<close> are signed in the source.
\<close>

function ByteArray_writeToFileLoop ::
    "byte_array \<Rightarrow> nat option \<Rightarrow> int \<Rightarrow> int \<Rightarrow> ba_error + u8 list" where
  "ByteArray_writeToFileLoop ba cur pos read_size =
     (if read_size \<le> 0 then Inr []
      else if m_baseSize ba = 0 then Inl Div_By_Zero
      else let diff = pos mod int (m_baseSize ba);
               len = (if read_size > int (m_baseSize ba) then int (m_baseSize ba) else read_size) - diff
           in case cur of
                None \<Rightarrow> Inl Null_Deref
              | Some c \<Rightarrow>
                  if len < 0 then Inl Negative_Count
                  else rbind (ByteArray_writeToFileLoop ba (Node_next ba c) (pos + len) (read_size - len))
                         (\<lambda>out. Inr (segment (nat diff) (nat len) (m_nodes ba ! c) @ out)))"
  by pat_completeness auto
termination
  by (relation "measure (\<lambda>(ba, cur, pos, rs).
        case cur of None \<Rightarrow> 0 | Some c \<Rightarrow> Suc (length (m_nodes ba) - c))")
     (auto simp: Node_next_def split: if_splits option.splits)

declare ByteArray_writeToFileLoop.simps [simp del]

definition ByteArray_writeToFile :: "byte_array \<Rightarrow> bool \<Rightarrow> ba_error + (bool \<times> u8 list)" where
  "ByteArray_writeToFile ba opened =
     (if \<not> opened then Inr (False, [])
      else rbind (ByteArray_writeToFileLoop ba (m_cur ba) (int (m_position ba))
                    (int (ByteArray_getReadSize ba)))
             (\<lambda>out. Inr (True, out)))"

text \<open>
  Reading in steps of the base size until the stream reports the end of the file, which it
  does when a read comes short.
\<close>

function ByteArray_readFromFileLoop :: "byte_array \<Rightarrow> u8 list \<Rightarrow> ba_error + byte_array" where
  "ByteArray_readFromFileLoop ba content =
     (let b = m_baseSize ba in
      if b = 0 then Inl Diverges
      else rbind (ByteArray_write ba (take b content)) (\<lambda>ba'.
        if length content < b then Inr ba'
        else ByteArray_readFromFileLoop ba' (drop b content)))"
  by pat_completeness auto
termination
  by (relation "measure (\<lambda>(ba, content). length content)") auto

definition ByteArray_readFromFile ::
    "byte_array \<Rightarrow> u8 list option \<Rightarrow> ba_error + (bool \<times> byte_array)" where
  "ByteArray_readFromFile ba file =
     (case file of
        None \<Rightarrow> Inr (False, ba)
      | Some content \<Rightarrow>
          rbind (ByteArray_readFromFileLoop ba content) (\<lambda>ba'. Inr (True, ba')))"

declare ByteArray_readFromFileLoop.simps [simp del]

section \<open>Typed operations\<close>

subsection \<open>Fixed width integers\<close>

text \<open>
  Signed and unsigned values of one width have the same bit patterns, so \<^verbatim>\<open>int16_t\<close> and
  \<^verbatim>\<open>uint16_t\<close> are both \<^typ>\<open>u16\<close>, and so on. The multi-byte writers share one body: swap when
  the configured order is not the host's, then write the bytes of the value. The readers are
  the macro \<^verbatim>\<open>XX\<close>.
\<close>

definition ByteArray_writeFixed :: "byte_array \<Rightarrow> 'a::len word \<Rightarrow> ba_error + byte_array" where
  "ByteArray_writeFixed ba value =
     ByteArray_write ba (le_bytes (LENGTH('a) div 8)
       (if m_endian ba \<noteq> TINY_BYTE_ORDER then byteswap value else value))"

definition ByteArray_readFixed :: "byte_array \<Rightarrow> ba_error + ('a::len word \<times> byte_array)" where
  "ByteArray_readFixed ba =
     rbind (ByteArray_read ba (LENGTH('a) div 8)) (\<lambda>(bs, ba').
       let v = of_le_bytes bs in
       Inr (if m_endian ba = TINY_BYTE_ORDER then v else byteswap v, ba'))"

definition ByteArray_writeFint8 :: "byte_array \<Rightarrow> u8 \<Rightarrow> ba_error + byte_array" where
  "ByteArray_writeFint8 ba value = ByteArray_write ba (le_bytes 1 value)"

definition ByteArray_writeFuint8 :: "byte_array \<Rightarrow> u8 \<Rightarrow> ba_error + byte_array" where
  "ByteArray_writeFuint8 ba value = ByteArray_write ba (le_bytes 1 value)"

definition ByteArray_writeFint16 :: "byte_array \<Rightarrow> u16 \<Rightarrow> ba_error + byte_array" where
  "ByteArray_writeFint16 ba value = ByteArray_writeFixed ba value"

definition ByteArray_writeFuint16 :: "byte_array \<Rightarrow> u16 \<Rightarrow> ba_error + byte_array" where
  "ByteArray_writeFuint16 ba value = ByteArray_writeFixed ba value"

definition ByteArray_writeFint32 :: "byte_array \<Rightarrow> u32 \<Rightarrow> ba_error + byte_array" where
  "ByteArray_writeFint32 ba value = ByteArray_writeFixed ba value"

definition ByteArray_writeFuint32 :: "byte_array \<Rightarrow> u32 \<Rightarrow> ba_error + byte_array" where
  "ByteArray_writeFuint32 ba value = ByteArray_writeFixed ba value"

definition ByteArray_writeFint64 :: "byte_array \<Rightarrow> u64 \<Rightarrow> ba_error + byte_array" where
  "ByteArray_writeFint64 ba value = ByteArray_writeFixed ba value"

definition ByteArray_writeFuint64 :: "byte_array \<Rightarrow> u64 \<Rightarrow> ba_error + byte_array" where
  "ByteArray_writeFuint64 ba value = ByteArray_writeFixed ba value"

definition ByteArray_readFint8 :: "byte_array \<Rightarrow> ba_error + (u8 \<times> byte_array)" where
  "ByteArray_readFint8 ba = rbind (ByteArray_read ba 1) (\<lambda>(bs, ba'). Inr (of_le_bytes bs, ba'))"

definition ByteArray_readFuint8 :: "byte_array \<Rightarrow> ba_error + (u8 \<times> byte_array)" where
  "ByteArray_readFuint8 ba = rbind (ByteArray_read ba 1) (\<lambda>(bs, ba'). Inr (of_le_bytes bs, ba'))"

definition ByteArray_readFint16 :: "byte_array \<Rightarrow> ba_error + (u16 \<times> byte_array)" where
  "ByteArray_readFint16 ba = ByteArray_readFixed ba"

definition ByteArray_readFuint16 :: "byte_array \<Rightarrow> ba_error + (u16 \<times> byte_array)" where
  "ByteArray_readFuint16 ba = ByteArray_readFixed ba"

definition ByteArray_readFint32 :: "byte_array \<Rightarrow> ba_error + (u32 \<times> byte_array)" where
  "ByteArray_readFint32 ba = ByteArray_readFixed ba"

definition ByteArray_readFuint32 :: "byte_array \<Rightarrow> ba_error + (u32 \<times> byte_array)" where
  "ByteArray_readFuint32 ba = ByteArray_readFixed ba"

definition ByteArray_readFint64 :: "byte_array \<Rightarrow> ba_error + (u64 \<times> byte_array)" where
  "ByteArray_readFint64 ba = ByteArray_readFixed ba"

definition ByteArray_readFuint64 :: "byte_array \<Rightarrow> ba_error + (u64 \<times> byte_array)" where
  "ByteArray_readFuint64 ba = ByteArray_readFixed ba"

subsection \<open>Zigzag and varint encodings\<close>

text \<open>
  \<^verbatim>\<open>-value\<close> at the least \<^verbatim>\<open>int32_t\<close> and \<^verbatim>\<open>2 * value\<close> above its half overflow a signed
  type; they are modelled with the two's complement wrap-around of the target machine.
\<close>

definition EncodeZigzag32 :: "u32 \<Rightarrow> u32" where
  "EncodeZigzag32 value = (if sint value < 0 then (- value) * 2 - 1 else 2 * value)"

definition EncodeZigzag64 :: "u64 \<Rightarrow> u64" where
  "EncodeZigzag64 value = (if sint value < 0 then (- value) * 2 - 1 else 2 * value)"

definition DecodeZigzag32 :: "u32 \<Rightarrow> u32" where
  "DecodeZigzag32 value = drop_bit 1 value XOR (- (value AND 1))"

definition DecodeZigzag64 :: "u64 \<Rightarrow> u64" where
  "DecodeZigzag64 value = drop_bit 1 value XOR (- (value AND 1))"

text \<open>The bytes \<^verbatim>\<open>tmp[0..i)\<close> the two writers build before the call of \<^verbatim>\<open>write\<close>.\<close>

function varint32 :: "u32 \<Rightarrow> u8 list" where
  "varint32 value =
     (if value \<ge> 0x80 then (ucast (value AND 0x7F) OR 0x80) # varint32 (drop_bit 7 value)
      else [ucast value])"
  by pat_completeness auto
termination
proof (relation "measure unat")
  fix v :: u32 assume "0x80 \<le> v"
  then have "128 \<le> unat v" by (simp add: word_le_nat_alt)
  then show "(drop_bit 7 v, v) \<in> measure unat"
    by (simp add: drop_bit_eq_div unat_div_distrib)
qed simp

function varint64 :: "u64 \<Rightarrow> u8 list" where
  "varint64 value =
     (if value \<ge> 0x80 then (ucast (value AND 0x7F) OR 0x80) # varint64 (drop_bit 7 value)
      else [ucast value])"
  by pat_completeness auto
termination
proof (relation "measure unat")
  fix v :: u64 assume "0x80 \<le> v"
  then have "128 \<le> unat v" by (simp add: word_le_nat_alt)
  then show "(drop_bit 7 v, v) \<in> measure unat"
    by (simp add: drop_bit_eq_div unat_div_distrib)
qed simp

declare varint32.simps [simp del] varint64.simps [simp del]

definition ByteArray_writeUint32 :: "byte_array \<Rightarrow> u32 \<Rightarrow> ba_error + byte_array" where
  "ByteArray_writeUint32 ba value = ByteArray_write ba (varint32 value)"

definition ByteArray_writeUint64 :: "byte_array \<Rightarrow> u64 \<Rightarrow> ba_error + byte_array" where
  "ByteArray_writeUint64 ba value = ByteArray_write ba (varint64 value)"

definition ByteArray_writeInt32 :: "byte_array \<Rightarrow> u32 \<Rightarrow> ba_error + byte_array" where
  "ByteArray_writeInt32 ba value = ByteArray_writeUint32 ba (EncodeZigzag32 value)"

text \<open>\<^verbatim>\<open>writeInt64\<close> calls the 32 bit encoder: the argument is narrowed, the result widened.\<close>

definition ByteArray_writeInt64 :: "byte_array \<Rightarrow> u64 \<Rightarrow> ba_error + byte_array" where
  "ByteArray_writeInt64 ba value = ByteArray_writeUint64 ba (ucast (EncodeZigzag32 (ucast value)))"

function ByteArray_readUint32Loop ::
    "nat \<Rightarrow> u32 \<Rightarrow> byte_array \<Rightarrow> ba_error + (u32 \<times> byte_array)" where
  "ByteArray_readUint32Loop i result ba =
     (if i < 32 then
        rbind (ByteArray_readFuint8 ba) (\<lambda>(b, ba').
          if b < 0x80 then Inr (result OR push_bit i (ucast b), ba')
          else ByteArray_readUint32Loop (i + 7) (result OR push_bit i (ucast (b AND 0x7F))) ba')
      else Inr (result, ba))"
  by pat_completeness auto
termination
  by (relation "measure (\<lambda>(i, result, ba). 32 - i)") auto

text \<open>In \<^verbatim>\<open>readUint64\<close> the shifts are 64 bits wide but \<^verbatim>\<open>result\<close> is a \<^verbatim>\<open>uint32_t\<close>.\<close>

function ByteArray_readUint64Loop ::
    "nat \<Rightarrow> u32 \<Rightarrow> byte_array \<Rightarrow> ba_error + (u32 \<times> byte_array)" where
  "ByteArray_readUint64Loop i result ba =
     (if i < 64 then
        rbind (ByteArray_readFuint8 ba) (\<lambda>(b, ba').
          if b < 0x80 then Inr (ucast (ucast result OR push_bit i (ucast b :: u64)), ba')
          else ByteArray_readUint64Loop (i + 7)
                 (ucast (ucast result OR push_bit i (ucast (b AND 0x7F) :: u64))) ba')
      else Inr (result, ba))"
  by pat_completeness auto
termination
  by (relation "measure (\<lambda>(i, result, ba). 64 - i)") auto

declare ByteArray_readUint32Loop.simps [simp del] ByteArray_readUint64Loop.simps [simp del]

definition ByteArray_readUint32 :: "byte_array \<Rightarrow> ba_error + (u32 \<times> byte_array)" where
  "ByteArray_readUint32 ba = ByteArray_readUint32Loop 0 0 ba"

definition ByteArray_readUint64 :: "byte_array \<Rightarrow> ba_error + (u64 \<times> byte_array)" where
  "ByteArray_readUint64 ba =
     rbind (ByteArray_readUint64Loop 0 0 ba) (\<lambda>(result, ba'). Inr (ucast result, ba'))"

definition ByteArray_readInt32 :: "byte_array \<Rightarrow> ba_error + (u32 \<times> byte_array)" where
  "ByteArray_readInt32 ba =
     rbind (ByteArray_readUint32 ba) (\<lambda>(v, ba'). Inr (DecodeZigzag32 v, ba'))"

definition ByteArray_readInt64 :: "byte_array \<Rightarrow> ba_error + (u64 \<times> byte_array)" where
  "ByteArray_readInt64 ba =
     rbind (ByteArray_readUint64 ba) (\<lambda>(v, ba'). Inr (DecodeZigzag64 v, ba'))"

subsection \<open>Floating point bit patterns\<close>

text \<open>
  \<^verbatim>\<open>float\<close> and \<^verbatim>\<open>double\<close> are handled as their bit patterns. \<^verbatim>\<open>readDouble\<close> reads a
  32 bit value and copies eight bytes into a four byte \<^verbatim>\<open>float\<close>.
\<close>

definition ByteArray_writeFloat :: "byte_array \<Rightarrow> u32 \<Rightarrow> ba_error + byte_array" where
  "ByteArray_writeFloat ba value = ByteArray_writeFuint32 ba value"

definition ByteArray_writeDouble :: "byte_array \<Rightarrow> u64 \<Rightarrow> ba_error + byte_array" where
  "ByteArray_writeDouble ba value = ByteArray_writeFuint64 ba value"

definition ByteArray_readFloat :: "byte_array \<Rightarrow> ba_error + (u32 \<times> byte_array)" where
  "ByteArray_readFloat ba = ByteArray_readFuint32 ba"

definition ByteArray_readDouble :: "byte_array \<Rightarrow> ba_error + (u64 \<times> byte_array)" where
  "ByteArray_readDouble ba = rbind (ByteArray_readFuint32 ba) (\<lambda>_. Inl Stack_Overrun)"

subsection \<open>Strings\<close>

definition ByteArray_writeStringF16 :: "byte_array \<Rightarrow> u8 list \<Rightarrow> ba_error + byte_array" where
  "ByteArray_writeStringF16 ba value =
     rbind (ByteArray_writeFuint16 ba (of_nat (length value))) (\<lambda>ba'. ByteArray_write ba' value)"

definition ByteArray_writeStringF32 :: "byte_array \<Rightarrow> u8 list \<Rightarrow> ba_error + byte_array" where
  "ByteArray_writeStringF32 ba value =
     rbind (ByteArray_writeFuint32 ba (of_nat (length value))) (\<lambda>ba'. ByteArray_write ba' value)"

definition ByteArray_writeStringF64 :: "byte_array \<Rightarrow> u8 list \<Rightarrow> ba_error + byte_array" where
  "ByteArray_writeStringF64 ba value =
     rbind (ByteArray_writeFuint64 ba (of_nat (length value))) (\<lambda>ba'. ByteArray_write ba' value)"

definition ByteArray_writeStringVint :: "byte_array \<Rightarrow> u8 list \<Rightarrow> ba_error + byte_array" where
  "ByteArray_writeStringVint ba value =
     rbind (ByteArray_writeUint64 ba (of_nat (length value))) (\<lambda>ba'. ByteArray_write ba' value)"

definition ByteArray_writeStringWithoutLength :: "byte_array \<Rightarrow> u8 list \<Rightarrow> ba_error + byte_array" where
  "ByteArray_writeStringWithoutLength ba value = ByteArray_write ba value"

definition ByteArray_readStringF16 :: "byte_array \<Rightarrow> ba_error + (u8 list \<times> byte_array)" where
  "ByteArray_readStringF16 ba =
     rbind (ByteArray_readFuint16 ba) (\<lambda>(len, ba'). ByteArray_read ba' (unat len))"

definition ByteArray_readStringF32 :: "byte_array \<Rightarrow> ba_error + (u8 list \<times> byte_array)" where
  "ByteArray_readStringF32 ba =
     rbind (ByteArray_readFuint32 ba) (\<lambda>(len, ba'). ByteArray_read ba' (unat len))"

definition ByteArray_readStringF64 :: "byte_array \<Rightarrow> ba_error + (u8 list \<times> byte_array)" where
  "ByteArray_readStringF64 ba =
     rbind (ByteArray_readFuint64 ba) (\<lambda>(len, ba'). ByteArray_read ba' (unat len))"

text \<open>The length is written as a varint and read as a fixed 64 bit integer.\<close>

definition ByteArray_readStringVint :: "byte_array \<Rightarrow> ba_error + (u8 list \<times> byte_array)" where
  "ByteArray_readStringVint ba =
     rbind (ByteArray_readFuint64 ba) (\<lambda>(len, ba'). ByteArray_read ba' (unat len))"

definition ByteArray_toString :: "byte_array \<Rightarrow> ba_error + u8 list" where
  "ByteArray_toString ba =
     (if ByteArray_getReadSize ba = 0 then Inr []
      else ByteArray_readAt ba (ByteArray_getReadSize ba) (m_position ba))"

definition hex_digit :: "nat \<Rightarrow> char" where
  "hex_digit n = ''0123456789abcdef'' ! n"

fun toHexString_from :: "nat \<Rightarrow> u8 list \<Rightarrow> string" where
  "toHexString_from i [] = []"
| "toHexString_from i (b # bs) =
     (if i > 0 \<and> i mod 32 = 0 then [CHR 0x0A] else [])
     @ [hex_digit (unat b div 16), hex_digit (unat b mod 16), CHR '' '']
     @ toHexString_from (Suc i) bs"

definition ByteArray_toHexString :: "byte_array \<Rightarrow> ba_error + string" where
  "ByteArray_toHexString ba =
     rbind (ByteArray_toString ba) (\<lambda>str. Inr (toHexString_from 0 str))"

end
