(* ===== verification/Byte_Array_Correct.thy ===== *)
theory Byte_Array_Correct
  imports Byte_Array
begin

text \<open>
  Correctness of the block operations of \<^verbatim>\<open>ByteArray\<close>: the representation invariant, the
  refinement of the chain of nodes to one byte string with a position, and exactly when
  growing the chain suffices for a write.
\<close>

section \<open>Invariant\<close>

text \<open>
  The chain consists of nodes of the base size, the capacity is their total size, the
  position is within the size and the size within the capacity, and \<^verbatim>\<open>m_cur\<close> is the node
  that holds the position: none when the position is at the end of the chain.
\<close>

definition ba_inv :: "byte_array \<Rightarrow> bool" where
  "ba_inv ba \<longleftrightarrow>
     0 < m_baseSize ba \<and> m_nodes ba \<noteq> [] \<and> uniform (m_baseSize ba) (m_nodes ba) \<and>
     m_capacity ba = length (m_nodes ba) * m_baseSize ba \<and>
     m_position ba \<le> m_size ba \<and> m_size ba \<le> m_capacity ba \<and>
     m_cur ba = (if m_position ba < m_capacity ba
                 then Some (m_position ba div m_baseSize ba) else None)"

text \<open>The content of the chain as one string: what the array refines.\<close>

definition flat :: "byte_array \<Rightarrow> u8 list" where
  "flat ba = concat (m_nodes ba)"

lemma length_flat [simp]: "ba_inv ba \<Longrightarrow> length (flat ba) = m_capacity ba"
  by (simp add: ba_inv_def flat_def length_concat_uniform)

lemma length_Node_new [simp]: "length (Node_new heap at s) = s"
  by (simp add: Node_new_def)

lemma ba_inv_new: "0 < b \<Longrightarrow> ba_inv (ByteArray_new heap b)"
  by (simp add: ba_inv_def ByteArray_new_def)

lemma ba_inv_clear: "ba_inv ba \<Longrightarrow> ba_inv (ByteArray_clear ba)"
  by (cases "m_nodes ba") (auto simp: ba_inv_def ByteArray_clear_def)

lemma ba_inv_setIsLittleEndian: "ba_inv ba \<Longrightarrow> ba_inv (ByteArray_setIsLittleEndian ba v)"
  by (simp add: ba_inv_def ByteArray_setIsLittleEndian_def)



section \<open>Growth\<close>

text \<open>The number of nodes \<^verbatim>\<open>addCapacity\<close> links, and when they suffice.\<close>

definition grow_count :: "byte_array \<Rightarrow> nat \<Rightarrow> nat" where
  "grow_count ba n =
     (let old_cap = ByteArray_getCurCapacity ba in
      if n \<le> old_cap then 0
      else (n - old_cap) div m_baseSize ba
           + (if (n - old_cap) mod m_baseSize ba > old_cap then 1 else 0))"

definition will_fit :: "byte_array \<Rightarrow> nat \<Rightarrow> bool" where
  "will_fit ba n \<longleftrightarrow>
     (let old_cap = ByteArray_getCurCapacity ba; r = (n - old_cap) mod m_baseSize ba in
      n \<le> old_cap \<or> r = 0 \<or> r > old_cap)"

lemma appendNodes_frame [simp]:
  "m_baseSize (ByteArray_appendNodes k ba) = m_baseSize ba"
  "m_position (ByteArray_appendNodes k ba) = m_position ba"
  "m_size (ByteArray_appendNodes k ba) = m_size ba"
  "m_endian (ByteArray_appendNodes k ba) = m_endian ba"
  "m_cur (ByteArray_appendNodes k ba) = m_cur ba"
  "m_heap (ByteArray_appendNodes k ba) = m_heap ba"
  "m_capacity (ByteArray_appendNodes k ba) = m_capacity ba + k * m_baseSize ba"
  by (induction k ba rule: ByteArray_appendNodes.induct) simp_all

lemma appendNodes_nodes:
  "\<exists>new. m_nodes (ByteArray_appendNodes k ba) = m_nodes ba @ new \<and> length new = k
         \<and> uniform (m_baseSize ba) new"
proof (induction k ba rule: ByteArray_appendNodes.induct)
  case (1 ba)
  then show ?case by simp
next
  case (2 k ba)
  then obtain new where "m_nodes (ByteArray_appendNodes (Suc k) ba)
      = (m_nodes ba @ [Node_new (m_heap ba) (m_capacity ba) (m_baseSize ba)]) @ new"
    and "length new = k" and "uniform (m_baseSize ba) new"
    by auto
  then show ?case by auto
qed

lemma position_in_last_node:
  assumes "m_position ba < k * b" and "(0::nat) < b"
  shows "m_position ba div b < k"
  using assms by (simp add: less_mult_imp_div_less)

text \<open>Growing keeps the invariant, the position, the size and the bytes already stored.\<close>

lemma addCapacity_spec:
  assumes inv: "ba_inv ba"
  obtains ba' where "ByteArray_addCapacity ba n = Inr ba'" and "ba_inv ba'"
    and "m_position ba' = m_position ba" and "m_size ba' = m_size ba"
    and "m_baseSize ba' = m_baseSize ba" and "m_endian ba' = m_endian ba"
    and "m_capacity ba' = m_capacity ba + grow_count ba n * m_baseSize ba"
    and "\<exists>new. flat ba' = flat ba @ new"
proof -
  let ?old = "ByteArray_getCurCapacity ba"
  let ?k = "grow_count ba n"
  let ?app = "ByteArray_appendNodes ?k ba"
  let ?ba = "if ?old = 0 then ?app\<lparr>m_cur := if ?k = 0 then None else Some (length (m_nodes ba))\<rparr> else ?app"
  obtain new where new: "m_nodes ?app = m_nodes ba @ new" "length new = ?k"
    "uniform (m_baseSize ba) new" using appendNodes_nodes by blast
  show thesis
  proof (cases "n \<le> ?old")
    case True
    then have "ByteArray_addCapacity ba n = Inr ba"
      by (simp add: ByteArray_addCapacity_def)
    then show thesis using that [of ba] inv True by (simp add: grow_count_def)
  next
    case False
    then have eq: "ByteArray_addCapacity ba n = Inr ?ba"
      using inv by (simp add: ByteArray_addCapacity_def grow_count_def ba_inv_def Let_def)
    have "ba_inv ?ba"
    proof (cases "?old = 0")
      case True
      then have "m_position ba = length (m_nodes ba) * m_baseSize ba"
        using inv by (auto simp: ba_inv_def ByteArray_getCurCapacity_def)
      with inv new True show ?thesis by (simp add: ba_inv_def add_mult_distrib)
    next
      case False
      with inv new show ?thesis
        by (simp add: ba_inv_def ByteArray_getCurCapacity_def add_mult_distrib)
    qed
    moreover have "flat ?ba = flat ba @ concat new"
      using new by (simp add: flat_def)
    ultimately show thesis using that [OF eq] by simp
  qed
qed

lemma grow_count_fits_iff:
  assumes "ba_inv ba"
  shows "m_position ba + n \<le> m_capacity ba + grow_count ba n * m_baseSize ba \<longleftrightarrow> will_fit ba n"
proof -
  let ?old = "ByteArray_getCurCapacity ba" and ?b = "m_baseSize ba"
  have b: "0 < ?b" and old: "m_capacity ba = m_position ba + ?old"
    using assms by (auto simp: ba_inv_def ByteArray_getCurCapacity_def)
  define q r where "q = (n - ?old) div ?b * ?b" and "r = (n - ?old) mod ?b"
  have "n - ?old = q + r" by (simp add: q_def r_def)
  moreover have "r < ?b" using b by (simp add: r_def)
  moreover have "grow_count ba n * ?b = (if n \<le> ?old then 0 else q + (if r > ?old then ?b else 0))"
    by (simp add: grow_count_def q_def r_def add_mult_distrib)
  moreover have "will_fit ba n \<longleftrightarrow> n \<le> ?old \<or> r = 0 \<or> r > ?old"
    by (simp add: will_fit_def r_def Let_def)
  ultimately show ?thesis using old by (auto split: if_splits)
qed


section \<open>The copy loops\<close>

text \<open>
  Where the loops stand: in node \<open>c\<close>, at offset \<open>npos\<close> of it, \<open>ncap\<close> bytes before its
  end.
\<close>

definition at_node :: "nat \<Rightarrow> nat \<Rightarrow> byte_array \<Rightarrow> nat \<Rightarrow> bool" where
  "at_node npos ncap ba c \<longleftrightarrow>
     0 < m_baseSize ba \<and> uniform (m_baseSize ba) (m_nodes ba) \<and> m_cur ba = Some c \<and>
     c < length (m_nodes ba) \<and> npos < m_baseSize ba \<and> ncap = m_baseSize ba - npos \<and>
     m_position ba = c * m_baseSize ba + npos"

definition node_of :: "byte_array \<Rightarrow> nat \<Rightarrow> nat option" where
  "node_of ba pos =
     (if pos < length (m_nodes ba) * m_baseSize ba then Some (pos div m_baseSize ba) else None)"

lemma at_nodeD:
  assumes "at_node npos ncap ba c"
  shows "m_cur ba = Some c" and "m_position ba + ncap = Suc c * m_baseSize ba"
    and "Suc c * m_baseSize ba \<le> length (m_nodes ba) * m_baseSize ba"
    and "length (m_nodes ba ! c) = m_baseSize ba"
proof -
  show "m_cur ba = Some c" and "m_position ba + ncap = Suc c * m_baseSize ba"
    and "length (m_nodes ba ! c) = m_baseSize ba"
    using assms by (simp_all add: at_node_def uniform_nth)
  show "Suc c * m_baseSize ba \<le> length (m_nodes ba) * m_baseSize ba"
    using assms by (intro mult_le_mono1) (simp add: at_node_def)
qed

lemma node_of_end:
  assumes "at_node npos ncap ba c" and "0 < k" and "k \<le> ncap"
  shows "node_of ba (m_position ba + k)
       = (if m_baseSize ba = npos + k then Node_next ba c else Some c)"
proof -
  let ?b = "m_baseSize ba"
  note c = at_nodeD(3) [OF assms(1)]
  show ?thesis
  proof (cases "?b = npos + k")
    case True
    then have "m_position ba + k = Suc c * ?b" using assms(1) by (simp add: at_node_def)
    then show ?thesis
      using True assms(1) by (simp add: node_of_def Node_next_def at_node_def del: mult_Suc)
  next
    case False
    then have "npos + k < ?b" using assms by (simp add: at_node_def)
    moreover from this have "(c * ?b + (npos + k)) div ?b = c" by simp
    ultimately show ?thesis
      using False c assms(1) by (simp add: node_of_def at_node_def add.assoc)
  qed
qed

lemma at_node_step:
  assumes "at_node npos ncap ba c" and "Node_next ba c = Some c'"
    and "uniform (m_baseSize ba) N" and "length N = length (m_nodes ba)"
  shows "at_node 0 (length (N ! c'))
           (ba\<lparr>m_nodes := N, m_position := m_position ba + ncap, m_cur := Some c'\<rparr>) c'"
  using assms by (auto simp: at_node_def Node_next_def uniform_nth split: if_splits)

lemma overwrite_node:
  assumes "at_node npos ncap ba c" and "length bs \<le> ncap"
  shows "uniform (m_baseSize ba) ((m_nodes ba)[c := overwrite (m_nodes ba ! c) npos bs])"
    and "concat ((m_nodes ba)[c := overwrite (m_nodes ba ! c) npos bs])
       = overwrite (concat (m_nodes ba)) (m_position ba) bs"
proof -
  have *: "uniform (m_baseSize ba) (m_nodes ba)" "c < length (m_nodes ba)"
    "npos + length bs \<le> m_baseSize ba" "m_position ba = c * m_baseSize ba + npos"
    using assms by (auto simp: at_node_def)
  show "uniform (m_baseSize ba) ((m_nodes ba)[c := overwrite (m_nodes ba ! c) npos bs])"
    using * by (simp add: uniform_update uniform_nth)
  show "concat ((m_nodes ba)[c := overwrite (m_nodes ba ! c) npos bs])
       = overwrite (concat (m_nodes ba)) (m_position ba) bs"
    using * by (simp add: concat_update_block)
qed

lemma writeLoop_spec:
  assumes "at_node npos ncap ba c" and "buf \<noteq> []"
    and "m_position ba + length buf \<le> length (m_nodes ba) * m_baseSize ba"
  shows "\<exists>N. ByteArray_writeLoop npos ncap buf ba
        = Inr (ba\<lparr>m_nodes := N, m_cur := node_of ba (m_position ba + length buf),
                  m_position := m_position ba + length buf\<rparr>)
      \<and> uniform (m_baseSize ba) N \<and> length N = length (m_nodes ba)
      \<and> concat N = overwrite (concat (m_nodes ba)) (m_position ba) buf"
  using assms
proof (induction npos ncap buf ba arbitrary: c rule: ByteArray_writeLoop.induct)
  case (1 npos ncap buf ba)
  let ?b = "m_baseSize ba"
  let ?ns = "m_nodes ba"
  note cur = at_nodeD(1) [OF "1.prems"(1)] and len = at_nodeD(4) [OF "1.prems"(1)]
  show ?case
  proof (cases "length buf \<le> ncap")
    case True
    let ?N = "?ns[c := overwrite (?ns ! c) npos buf]"
    have "ByteArray_writeLoop npos ncap buf ba
        = Inr (ba\<lparr>m_nodes := ?N, m_cur := node_of ba (m_position ba + length buf),
                  m_position := m_position ba + length buf\<rparr>)"
      using True "1.prems" cur len node_of_end [OF "1.prems"(1), of "length buf"] by simp
    then show ?thesis using overwrite_node [OF "1.prems"(1) True] by auto
  next
    case False
    let ?N = "?ns[c := overwrite (?ns ! c) npos (take ncap buf)]"
    let ?ba = "ba\<lparr>m_nodes := ?N, m_position := m_position ba + ncap, m_cur := Node_next ba c\<rparr>"
    have lt: "length (take ncap buf) = ncap" using False by simp
    note N = overwrite_node [OF "1.prems"(1), of "take ncap buf", unfolded lt, OF order_refl]
    have "Suc c * ?b < length ?ns * ?b"
      using "1.prems"(3) False at_nodeD(2) [OF "1.prems"(1)] by simp
    then have "Suc c < length ?ns" by (simp del: mult_Suc)
    then obtain c' where c': "Node_next ba c = Some c'" by (simp add: Node_next_def)
    have at: "at_node 0 (length (m_nodes ?ba ! c')) ?ba c'" and curN: "m_cur ?ba = Some c'"
      using at_node_step [OF "1.prems"(1) c' N(1)] c' by simp_all
    obtain M where M: "ByteArray_writeLoop 0 (length (?N ! c')) (drop ncap buf) ?ba
        = Inr (?ba\<lparr>m_nodes := M, m_cur := node_of ?ba (m_position ?ba + length (drop ncap buf)),
                  m_position := m_position ?ba + length (drop ncap buf)\<rparr>)"
      "uniform ?b M" "length M = length ?N"
      "concat M = overwrite (concat ?N) (m_position ?ba) (drop ncap buf)"
      using "1.IH" [OF "1.prems"(2) cur False refl curN at] False "1.prems"(3) by auto
    have "ByteArray_writeLoop npos ncap buf ba
        = ByteArray_writeLoop 0 (length (?N ! c')) (drop ncap buf) ?ba"
      using False cur "1.prems"(2) c' by (simp add: Let_def)
    moreover have "length (concat ?ns) = length ?ns * ?b"
      using "1.prems"(1) by (simp add: at_node_def length_concat_uniform)
    then have "concat M = overwrite (concat ?ns) (m_position ba) buf"
      using M(4) N(2) overwrite_append [of "m_position ba" "take ncap buf" "drop ncap buf" "concat ?ns"]
        "1.prems"(3) False by simp
    ultimately show ?thesis using M False by (auto simp: node_of_def)
  qed
qed


lemma writeLoop_overrun:
  assumes "at_node npos ncap ba c"
    and "m_position ba + length buf > length (m_nodes ba) * m_baseSize ba"
  shows "ByteArray_writeLoop npos ncap buf ba = Inl Null_Deref"
  using assms
proof (induction npos ncap buf ba arbitrary: c rule: ByteArray_writeLoop.induct)
  case (1 npos ncap buf ba)
  let ?b = "m_baseSize ba" and ?ns = "m_nodes ba"
  let ?N = "?ns[c := overwrite (?ns ! c) npos (take ncap buf)]"
  let ?ba = "ba\<lparr>m_nodes := ?N, m_position := m_position ba + ncap, m_cur := Node_next ba c\<rparr>"
  note cur = at_nodeD(1) [OF "1.prems"(1)]
  have long: "\<not> length buf \<le> ncap" and ne: "buf \<noteq> []"
    using "1.prems"(2) at_nodeD(2,3) [OF "1.prems"(1)] by auto
  show ?case
  proof (cases "Node_next ba c")
    case None
    with long ne cur show ?thesis by (simp add: Let_def)
  next
    case (Some c')
    have lt: "length (take ncap buf) = ncap" using long by simp
    note N = overwrite_node [OF "1.prems"(1), of "take ncap buf", unfolded lt, OF order_refl]
    have at: "at_node 0 (length (m_nodes ?ba ! c')) ?ba c'" and curN: "m_cur ?ba = Some c'"
      using at_node_step [OF "1.prems"(1) Some N(1)] Some by simp_all
    have "ByteArray_writeLoop 0 (length (m_nodes ?ba ! c')) (drop ncap buf) ?ba = Inl Null_Deref"
      using "1.IH" [OF ne cur long refl curN at] "1.prems"(2) long by simp
    with long ne cur Some show ?thesis by (simp add: Let_def)
  qed
qed

lemma segment_node:
  assumes "at_node npos ncap ba c" and "k \<le> ncap"
  shows "segment npos k (m_nodes ba ! c) = segment (m_position ba) k (concat (m_nodes ba))"
proof -
  have "npos + k \<le> m_baseSize ba" using assms by (auto simp: at_node_def)
  with assms(1) show ?thesis by (simp add: at_node_def segment_concat_block)
qed

lemma readLoop_spec:
  assumes "at_node npos ncap ba c" and "0 < n"
    and "m_position ba + n \<le> length (m_nodes ba) * m_baseSize ba"
  shows "ByteArray_readLoop npos ncap n ba
        = Inr (segment (m_position ba) n (concat (m_nodes ba)),
               ba\<lparr>m_cur := node_of ba (m_position ba + n), m_position := m_position ba + n\<rparr>)"
  using assms
proof (induction npos ncap n ba arbitrary: c rule: ByteArray_readLoop.induct)
  case (1 npos ncap n ba)
  let ?b = "m_baseSize ba" and ?ns = "m_nodes ba"
  note cur = at_nodeD(1) [OF "1.prems"(1)] and len = at_nodeD(4) [OF "1.prems"(1)]
  show ?case
  proof (cases "n \<le> ncap")
    case True
    then show ?thesis
      using "1.prems" cur len node_of_end [OF "1.prems"(1), of n] segment_node [OF "1.prems"(1) True]
      by simp
  next
    case False
    let ?ba = "ba\<lparr>m_position := m_position ba + ncap, m_cur := Node_next ba c\<rparr>"
    have "Suc c * ?b < length ?ns * ?b"
      using "1.prems"(3) False at_nodeD(2) [OF "1.prems"(1)] by simp
    then have "Suc c < length ?ns" by (simp del: mult_Suc)
    then obtain c' where c': "Node_next ba c = Some c'" by (simp add: Node_next_def)
    have at: "at_node 0 (length (m_nodes ?ba ! c')) ?ba c'" and curN: "m_cur ?ba = Some c'"
      using at_node_step [OF "1.prems"(1) c', of ?ns] c' "1.prems"(1)
      by (simp_all add: at_node_def)
    have ih: "ByteArray_readLoop 0 (length (m_nodes ?ba ! c')) (n - ncap) ?ba
        = Inr (segment (m_position ?ba) (n - ncap) (concat (m_nodes ?ba)),
               ?ba\<lparr>m_cur := node_of ?ba (m_position ?ba + (n - ncap)),
                   m_position := m_position ?ba + (n - ncap)\<rparr>)"
      using "1.IH" [OF _ cur False refl curN at] "1.prems"(2,3) False by simp
    have "segment npos ncap (?ns ! c) @ segment (m_position ba + ncap) (n - ncap) (concat ?ns)
        = segment (m_position ba) n (concat ?ns)"
      using segment_node [OF "1.prems"(1) order_refl] False
        segment_append [of "m_position ba" ncap "n - ncap" "concat ?ns"] by simp
    then show ?thesis using ih False cur "1.prems"(2) c' by (simp add: Let_def node_of_def)
  qed
qed


declare ByteArray_writeLoop.simps [simp del] ByteArray_readLoop.simps [simp del]

section \<open>Specifications of the block operations\<close>

lemma ba_inv_at_node:
  assumes "ba_inv ba" and "m_position ba < m_capacity ba"
  shows "at_node (m_position ba mod m_baseSize ba)
           (m_baseSize ba - m_position ba mod m_baseSize ba) ba (m_position ba div m_baseSize ba)"
  using assms by (auto simp: ba_inv_def at_node_def less_mult_imp_div_less)

lemma write_spec:
  assumes inv: "ba_inv ba" and fit: "will_fit ba (length buf)"
  obtains ba' where "ByteArray_write ba buf = Inr ba'" and "ba_inv ba'"
    and "m_position ba' = m_position ba + length buf"
    and "m_size ba' = max (m_size ba) (m_position ba + length buf)"
    and "m_baseSize ba' = m_baseSize ba" and "m_endian ba' = m_endian ba"
    and "\<exists>new. flat ba' = overwrite (flat ba @ new) (m_position ba) buf
             \<and> m_position ba + length buf \<le> length (flat ba @ new)"
proof (cases "buf = []")
  case True
  then show thesis using that [of ba] inv by (auto simp: ByteArray_write_def ba_inv_def max_def)
next
  case False
  from addCapacity_spec [OF inv, of "length buf"] obtain ba1 new where
    add: "ByteArray_addCapacity ba (length buf) = Inr ba1" and inv1: "ba_inv ba1"
    and frame: "m_position ba1 = m_position ba" "m_size ba1 = m_size ba"
      "m_baseSize ba1 = m_baseSize ba" "m_endian ba1 = m_endian ba"
      "m_capacity ba1 = m_capacity ba + grow_count ba (length buf) * m_baseSize ba"
    and flat1: "flat ba1 = flat ba @ new" by metis
  have room: "m_position ba1 + length buf \<le> m_capacity ba1"
    using grow_count_fits_iff [OF inv, of "length buf"] fit frame by simp
  then have lt: "m_position ba1 < m_capacity ba1" using False by (cases buf) auto
  note at = ba_inv_at_node [OF inv1 lt]
  let ?c = "m_position ba1 div m_baseSize ba1"
  let ?npos = "m_position ba1 mod m_baseSize ba1"
  obtain N where N: "ByteArray_writeLoop ?npos (m_baseSize ba1 - ?npos) buf ba1
        = Inr (ba1\<lparr>m_nodes := N, m_cur := node_of ba1 (m_position ba1 + length buf),
                  m_position := m_position ba1 + length buf\<rparr>)"
      "uniform (m_baseSize ba1) N" "length N = length (m_nodes ba1)"
      "concat N = overwrite (concat (m_nodes ba1)) (m_position ba1) buf"
    using writeLoop_spec [OF at False] room inv1 by (auto simp: ba_inv_def)
  let ?ba3 = "ba1\<lparr>m_nodes := N, m_cur := node_of ba1 (m_position ba1 + length buf),
                  m_position := m_position ba1 + length buf,
                  m_size := max (m_size ba1) (m_position ba1 + length buf)\<rparr>"
  have "ByteArray_write ba buf = Inr ?ba3"
    using False add N(1) at_nodeD(1,4) [OF at] inv1
    by (cases ba1) (simp add: ByteArray_write_def ba_inv_def max_def)
  moreover have "ba_inv ?ba3"
    using inv1 N room by (auto simp: ba_inv_def node_of_def)
  moreover have "flat ?ba3 = overwrite (flat ba @ new) (m_position ba) buf"
    using N(4) frame flat1 by (simp add: flat_def)
  moreover have "m_position ba + length buf \<le> length (flat ba @ new)"
    using room frame flat1 length_flat [OF inv1] by simp
  ultimately show thesis using frame by (intro that [of ?ba3]) auto
qed

lemma write_overrun:
  assumes inv: "ba_inv ba" and fit: "\<not> will_fit ba (length buf)"
  shows "ByteArray_write ba buf = Inl Null_Deref"
proof -
  have ne: "buf \<noteq> []" using fit by (auto simp: will_fit_def Let_def)
  from addCapacity_spec [OF inv, of "length buf"] obtain ba1 where
    add: "ByteArray_addCapacity ba (length buf) = Inr ba1" and inv1: "ba_inv ba1"
    and frame: "m_position ba1 = m_position ba" "m_baseSize ba1 = m_baseSize ba"
      "m_capacity ba1 = m_capacity ba + grow_count ba (length buf) * m_baseSize ba"
    by metis
  have over: "m_position ba1 + length buf > m_capacity ba1"
    using grow_count_fits_iff [OF inv, of "length buf"] fit frame by simp
  show ?thesis
  proof (cases "m_position ba1 < m_capacity ba1")
    case True
    note at = ba_inv_at_node [OF inv1 True]
    show ?thesis
      using ne add writeLoop_overrun [OF at] over at_nodeD(1,4) [OF at] inv1
      by (simp add: ByteArray_write_def ba_inv_def)
  next
    case False
    then have "m_cur ba1 = None" using inv1 by (simp add: ba_inv_def)
    then show ?thesis using ne add inv1 by (simp add: ByteArray_write_def ba_inv_def)
  qed
qed

lemma read_spec:
  assumes inv: "ba_inv ba" and n: "0 < n" "n \<le> ByteArray_getReadSize ba"
  obtains ba' where "ByteArray_read ba n = Inr (segment (m_position ba) n (flat ba), ba')"
    and "ba_inv ba'" and "m_position ba' = m_position ba + n" and "m_size ba' = m_size ba"
    and "flat ba' = flat ba" and "m_baseSize ba' = m_baseSize ba" and "m_endian ba' = m_endian ba"
proof -
  let ?ba = "ba\<lparr>m_cur := node_of ba (m_position ba + n), m_position := m_position ba + n\<rparr>"
  have le: "m_position ba + n \<le> m_size ba" "m_size ba \<le> m_capacity ba"
    using inv n by (auto simp: ByteArray_getReadSize_def ba_inv_def)
  then have "m_position ba < m_capacity ba" using n by simp
  note at = ba_inv_at_node [OF inv this]
  have "ByteArray_read ba n = Inr (segment (m_position ba) n (flat ba), ?ba)"
    using readLoop_spec [OF at n(1)] le at_nodeD(1,4) [OF at] n inv
    by (simp add: ByteArray_read_def ba_inv_def flat_def)
  moreover have "ba_inv ?ba" using inv le by (auto simp: ba_inv_def node_of_def)
  ultimately show thesis using that [of ?ba] by (simp add: flat_def)
qed

lemma seek_spec:
  assumes "uniform b ns" and "0 < b" and "pos \<le> length ns * b" and "ns \<noteq> []"
  shows "ByteArray_seek ns i pos
       = Inr (if pos < length ns * b then Some (i + pos div b) else None)"
  using assms
proof (induction ns arbitrary: i pos)
  case Nil
  then show ?case by simp
next
  case (Cons n ns)
  then have len: "length n = b" by simp
  consider "pos > b" | "pos = b" | "pos < b" by linarith
  then show ?case
  proof cases
    case 1
    with Cons.prems have "ns \<noteq> []" by auto
    moreover have "pos div b = Suc ((pos - b) div b)" using 1 Cons.prems by (simp add: le_div_geq)
    ultimately show ?thesis using 1 len Cons by auto
  next
    case 2
    then show ?thesis using len Cons.prems by (cases ns) auto
  next
    case 3
    then show ?thesis using len Cons.prems by auto
  qed
qed

lemma setPosition_spec:
  assumes inv: "ba_inv ba" and p: "p \<le> m_capacity ba"
  obtains ba' where "ByteArray_setPosition ba p = Inr ba'" and "ba_inv ba'"
    and "m_position ba' = p" and "m_size ba' = max (m_size ba) p" and "flat ba' = flat ba"
    and "m_baseSize ba' = m_baseSize ba" and "m_endian ba' = m_endian ba"
proof -
  let ?ba1 = "ba\<lparr>m_position := p, m_size := max (m_size ba) p\<rparr>"
  let ?ba = "?ba1\<lparr>m_cur := node_of ba p\<rparr>"
  have "ByteArray_seek (m_nodes ba) 0 p = Inr (node_of ba p)"
    using inv p seek_spec [of "m_baseSize ba" "m_nodes ba" p 0] by (simp add: ba_inv_def node_of_def)
  then have "ByteArray_setPosition ba p = Inr ?ba"
    using p by (simp add: ByteArray_setPosition_def Let_def max_def)
  moreover have "ba_inv ?ba" using inv p by (auto simp: ba_inv_def node_of_def)
  ultimately show thesis using that [of ?ba] by (simp add: flat_def)
qed

section \<open>The logical content\<close>

text \<open>The bytes written so far: the array refines this string with the position in it.\<close>

definition content :: "byte_array \<Rightarrow> u8 list" where
  "content ba = take (m_size ba) (flat ba)"

lemma length_content [simp]: "ba_inv ba \<Longrightarrow> length (content ba) = m_size ba"
  by (simp add: content_def) (simp add: ba_inv_def)

lemma segment_content:
  "p + n \<le> m_size ba \<Longrightarrow> segment p n (flat ba) = segment p n (content ba)"
  by (simp add: content_def segment_def take_drop min_def)

lemma content_of_overwrite:
  assumes "p \<le> z" and "p + length ys \<le> length xs" and "z \<le> length xs"
  shows "take (max z (p + length ys)) (overwrite xs p ys) = overwrite (take z xs) p ys"
  using assms by (auto simp: overwrite_def take_drop min_def max_def)

lemma write_content:
  assumes "ba_inv ba" and "will_fit ba (length buf)"
  obtains ba' where "ByteArray_write ba buf = Inr ba'" and "ba_inv ba'"
    and "content ba' = overwrite (content ba) (m_position ba) buf"
    and "m_position ba' = m_position ba + length buf"
    and "m_size ba' = max (m_size ba) (m_position ba + length buf)"
    and "m_baseSize ba' = m_baseSize ba" and "m_endian ba' = m_endian ba"
proof -
  from write_spec [OF assms] obtain ba' new where
    w: "ByteArray_write ba buf = Inr ba'" "ba_inv ba'" "m_position ba' = m_position ba + length buf"
      "m_size ba' = max (m_size ba) (m_position ba + length buf)"
      "m_baseSize ba' = m_baseSize ba" "m_endian ba' = m_endian ba"
    and f: "flat ba' = overwrite (flat ba @ new) (m_position ba) buf"
    and room: "m_position ba + length buf \<le> length (flat ba @ new)" by metis
  have le: "m_position ba \<le> m_size ba" "m_size ba \<le> length (flat ba)"
    using assms(1) length_flat [OF assms(1)] by (simp_all add: ba_inv_def)
  have "content ba' = overwrite (take (m_size ba) (flat ba @ new)) (m_position ba) buf"
    unfolding content_def w(4) f using le room by (intro content_of_overwrite) auto
  with le have "content ba' = overwrite (content ba) (m_position ba) buf" by (simp add: content_def)
  with w that show thesis by blast
qed

lemma overwrite_chain:
  "p \<le> length xs \<Longrightarrow>
     overwrite (overwrite xs p ys) (p + length ys) zs = overwrite xs p (ys @ zs)"
  by (simp add: overwrite_def add.assoc add.commute [of "length zs"])

section \<open>Gather lists\<close>

definition iov_bytes :: "byte_array \<Rightarrow> iovec \<Rightarrow> u8 list" where
  "iov_bytes ba v = segment (iov_off v) (iov_len v) (m_nodes ba ! iov_node v)"

lemma gatherLoop_spec:
  assumes "uniform b (m_nodes ba)" and "c < length (m_nodes ba)" and "npos < b" and "0 < n"
    and "c * b + npos + n \<le> length (m_nodes ba) * b"
  shows "\<exists>iovs. ByteArray_gatherLoop ba (Some c) npos (b - npos) n = Inr iovs
       \<and> concat (map (iov_bytes ba) iovs) = segment (c * b + npos) n (flat ba)
       \<and> (\<forall>v\<in>set iovs. 0 < iov_len v)"
  using assms
proof (induction "length (m_nodes ba) - c" arbitrary: c npos n)
  case 0
  then show ?case by simp
next
  case (Suc d)
  show ?case
  proof (cases "n \<le> b - npos")
    case True
    then show ?thesis
      using Suc.prems segment_concat_block [OF Suc.prems(1,2), of npos n]
      by (subst ByteArray_gatherLoop.simps) (simp add: iov_bytes_def flat_def)
  next
    case False
    have "Suc c * b < length (m_nodes ba) * b" using Suc.prems(3,5) False by simp
    then have c': "Suc c < length (m_nodes ba)" by (simp del: mult_Suc)
    let ?m = "n - (b - npos)"
    obtain iovs where i: "ByteArray_gatherLoop ba (Some (Suc c)) 0 (b - 0) ?m = Inr iovs"
      "concat (map (iov_bytes ba) iovs) = segment (Suc c * b + 0) ?m (flat ba)"
      "\<forall>v\<in>set iovs. 0 < iov_len v"
    proof -
      have "d = length (m_nodes ba) - Suc c" "0 < b" "0 < ?m"
        "Suc c * b + 0 + ?m \<le> length (m_nodes ba) * b"
        using Suc.hyps(2) Suc.prems False by auto
      then show thesis using Suc.hyps(1) [of "Suc c" 0 ?m] Suc.prems(1) c' that by blast
    qed
    have "segment (c * b + npos) n (flat ba)
        = segment npos (b - npos) (m_nodes ba ! c) @ segment (Suc c * b) ?m (flat ba)"
      using segment_concat_block [OF Suc.prems(1,2), of npos "b - npos"] Suc.prems(3) False
        segment_append [of "c * b + npos" "b - npos" ?m "flat ba"]
      by (simp add: flat_def add.commute)
    then show ?thesis
      using i Suc.prems False c' uniform_nth [OF Suc.prems(1) c']
      by (subst ByteArray_gatherLoop.simps) (simp add: Node_next_def iov_bytes_def)
  qed
qed

lemma getReadBuffers_spec:
  assumes inv: "ba_inv ba"
  shows "\<exists>iovs. ByteArray_getReadBuffers ba n = Inr (iovs, min n (ByteArray_getReadSize ba))
       \<and> concat (map (iov_bytes ba) iovs) = take n (drop (m_position ba) (content ba))"
proof (cases "min n (ByteArray_getReadSize ba) = 0")
  case True
  then have "take n (drop (m_position ba) (content ba)) = []"
    using inv by (auto simp: ByteArray_getReadSize_def)
  moreover have "ByteArray_getReadBuffers ba n = Inr ([], 0)"
    using True by (auto simp: ByteArray_getReadBuffers_def Let_def min_def split: if_splits)
  ultimately show ?thesis using True by (intro exI [of _ "[]"]) (simp only: list.simps concat.simps simp_thms)
next
  case False
  let ?n = "min n (ByteArray_getReadSize ba)" and ?b = "m_baseSize ba" and ?p = "m_position ba"
  have le: "?p + ?n \<le> m_size ba" and lt: "?p < m_capacity ba" and cap: "m_size ba \<le> m_capacity ba"
    using False inv by (auto simp: ByteArray_getReadSize_def ba_inv_def)
  note at = ba_inv_at_node [OF inv lt]
  have "\<exists>iovs. ByteArray_gatherLoop ba (Some (?p div ?b)) (?p mod ?b) (?b - ?p mod ?b) ?n = Inr iovs
       \<and> concat (map (iov_bytes ba) iovs) = segment (?p div ?b * ?b + ?p mod ?b) ?n (flat ba)
       \<and> (\<forall>v\<in>set iovs. 0 < iov_len v)"
    using at False le cap inv by (intro gatherLoop_spec) (auto simp: at_node_def ba_inv_def)
  then obtain iovs where i:
    "ByteArray_gatherLoop ba (Some (?p div ?b)) (?p mod ?b) (?b - ?p mod ?b) ?n = Inr iovs"
    "concat (map (iov_bytes ba) iovs) = segment ?p ?n (flat ba)" by auto
  have clip: "(if n > ByteArray_getReadSize ba then ByteArray_getReadSize ba else n) = ?n" by auto
  have "ByteArray_getReadBuffers ba n = Inr (iovs, ?n)"
    using i(1) at_nodeD(1,4) [OF at] inv
    unfolding ByteArray_getReadBuffers_def clip by (simp add: ba_inv_def Let_def False)
  moreover have "segment ?p ?n (flat ba) = take n (drop ?p (content ba))"
    using segment_content [OF le] inv by (auto simp: segment_def ByteArray_getReadSize_def min_def)
  ultimately show ?thesis using i(2) by auto
qed

section \<open>Files\<close>

lemma writeToFileLoop_step:
  assumes "0 < rs" and "0 < m_baseSize ba" and "pos mod int (m_baseSize ba) = int d"
    and "(if rs > int (m_baseSize ba) then int (m_baseSize ba) else rs) - int d = int k"
  shows "ByteArray_writeToFileLoop ba (Some c) pos rs
       = rbind (ByteArray_writeToFileLoop ba (Node_next ba c) (pos + int k) (rs - int k))
           (\<lambda>out. Inr (segment d k (m_nodes ba ! c) @ out))"
  using assms by (subst ByteArray_writeToFileLoop.simps) (simp add: Let_def)

text \<open>From the start of a node the loop copies whole nodes and then the rest.\<close>

lemma writeToFileLoop_aligned:
  assumes "0 < m_baseSize ba" and "uniform (m_baseSize ba) (m_nodes ba)"
    and "c * m_baseSize ba + n \<le> length (m_nodes ba) * m_baseSize ba"
    and "cur = (if c < length (m_nodes ba) then Some c else None)"
  shows "ByteArray_writeToFileLoop ba cur (int (c * m_baseSize ba)) (int n)
       = Inr (segment (c * m_baseSize ba) n (flat ba))"
  using assms(3,4)
proof (induction "length (m_nodes ba) - c" arbitrary: c n cur)
  case 0
  then have "length (m_nodes ba) * m_baseSize ba \<le> c * m_baseSize ba" by (intro mult_le_mono1) simp
  with "0.prems"(1) have "n = 0" by linarith
  then show ?case by (subst ByteArray_writeToFileLoop.simps) simp
next
  case (Suc d)
  let ?b = "m_baseSize ba"
  let ?k = "min n ?b"
  show ?case
  proof (cases "n = 0")
    case True
    then show ?thesis by (subst ByteArray_writeToFileLoop.simps) simp
  next
    case False
    have c: "c < length (m_nodes ba)" "cur = Some c" using Suc.hyps(2) Suc.prems(2) by auto
    have len: "(if int n > int ?b then int ?b else int n) - 0 = int ?k" by simp
    have rest: "ByteArray_writeToFileLoop ba (Node_next ba c) (int (c * ?b) + int ?k) (int n - int ?k)
        = Inr (segment (c * ?b + ?k) (n - ?k) (flat ba))"
    proof (cases "n \<le> ?b")
      case True
      then show ?thesis by (subst ByteArray_writeToFileLoop.simps) simp
    next
      case False
      moreover have "Suc c * ?b + (n - ?b) \<le> length (m_nodes ba) * ?b"
        using False Suc.prems(1) by simp
      ultimately show ?thesis
        using Suc.hyps(1) [of "Suc c" "n - ?b" "Node_next ba c"] Suc.hyps(2)
        by (simp add: Node_next_def add.commute of_nat_diff)
    qed
    have "segment (c * ?b) n (flat ba)
        = segment 0 ?k (m_nodes ba ! c) @ segment (c * ?b + ?k) (n - ?k) (flat ba)"
      using segment_append [of "c * ?b" ?k "n - ?k" "flat ba"]
        segment_concat_block [OF assms(2) c(1), of 0 ?k] by (simp add: flat_def)
    then show ?thesis
      using rest False c assms(1) len by (subst ByteArray_writeToFileLoop.simps) (simp add: Let_def)
  qed
qed

lemma writeToFile_spec:
  assumes inv: "ba_inv ba"
    and ok: "m_position ba mod m_baseSize ba = 0 \<or> m_baseSize ba < ByteArray_getReadSize ba"
  shows "ByteArray_writeToFile ba True = Inr (True, drop (m_position ba) (content ba))"
proof -
  let ?b = "m_baseSize ba" and ?p = "m_position ba" and ?n = "ByteArray_getReadSize ba"
  let ?c = "?p div ?b" and ?d = "?p mod ?b"
  have n: "?p + ?n = m_size ba" and cap: "m_size ba \<le> length (m_nodes ba) * ?b"
    and b: "0 < ?b" and u: "uniform ?b (m_nodes ba)"
    and cur: "m_cur ba = (if ?c < length (m_nodes ba) then Some ?c else None)"
    using inv by (auto simp: ba_inv_def ByteArray_getReadSize_def div_less_iff_less_mult)
  have "ByteArray_writeToFileLoop ba (m_cur ba) (int ?p) (int ?n) = Inr (segment ?p ?n (flat ba))"
  proof (cases "?d = 0")
    case True
    then have p: "?p = ?c * ?b" by auto
    show ?thesis
      using writeToFileLoop_aligned [OF b u, of ?c ?n "m_cur ba"] n cap cur p by simp
  next
    case False
    then have big: "?b < ?n" using ok by simp
    have p: "?p = ?c * ?b + ?d" by simp
    let ?k = "?b - ?d"
    have dk: "?d < ?b" using b by simp
    have next_p: "?p + ?k = Suc ?c * ?b" using dk p unfolding mult_Suc by linarith
    have c: "?c < length (m_nodes ba)"
      using n cap big b by (auto simp: div_less_iff_less_mult)
    have rest: "ByteArray_writeToFileLoop ba (Node_next ba ?c) (int (Suc ?c * ?b)) (int (?n - ?k))
        = Inr (segment (Suc ?c * ?b) (?n - ?k) (flat ba))"
      using next_p n cap big by (intro writeToFileLoop_aligned [OF b u]) (auto simp: Node_next_def)
    have "int ?p mod int ?b = int ?d" by (rule zmod_int [symmetric])
    moreover have "(if int ?n > int ?b then int ?b else int ?n) - int ?d = int ?k" using big dk by simp
    ultimately have "ByteArray_writeToFileLoop ba (Some ?c) (int ?p) (int ?n)
       = rbind (ByteArray_writeToFileLoop ba (Node_next ba ?c) (int ?p + int ?k) (int ?n - int ?k))
           (\<lambda>out. Inr (segment ?d ?k (m_nodes ba ! ?c) @ out))"
      using big b by (intro writeToFileLoop_step) auto
    moreover have "int ?p + int ?k = int (Suc ?c * ?b)" using next_p by (metis of_nat_add)
    moreover have "int ?n - int ?k = int (?n - ?k)" using big by (intro of_nat_diff [symmetric]) simp
    moreover have "segment ?p ?n (flat ba)
        = segment ?d ?k (m_nodes ba ! ?c) @ segment (Suc ?c * ?b) (?n - ?k) (flat ba)"
      using segment_append [of ?p ?k "?n - ?k" "flat ba"] next_p big
        segment_concat_block [OF u c, of ?d ?k] dk by (simp add: flat_def)
    ultimately show ?thesis using rest cur c by (simp only: if_True rbind_Inr)
  qed
  moreover have "segment ?p ?n (flat ba) = drop ?p (content ba)"
    using segment_content [of ?p ?n ba] n inv by (simp add: segment_def)
  ultimately show ?thesis by (simp add: ByteArray_writeToFile_def)
qed

lemma aligned_fits:
  assumes "ba_inv ba" and "m_position ba mod m_baseSize ba = 0" and "k \<le> m_baseSize ba"
  shows "will_fit ba k"
proof -
  have "m_baseSize ba dvd m_capacity ba - m_position ba"
    using assms by (auto simp: ba_inv_def mod_eq_0_iff_dvd)
  then have "ByteArray_getCurCapacity ba = 0 \<or> m_baseSize ba \<le> ByteArray_getCurCapacity ba"
    unfolding ByteArray_getCurCapacity_def by (metis dvd_imp_le gr0I)
  then show ?thesis using assms(3) by (auto simp: will_fit_def Let_def)
qed

lemma readFromFileLoop_spec:
  assumes "ba_inv ba" and "m_position ba mod m_baseSize ba = 0"
  shows "\<exists>ba'. ByteArray_readFromFileLoop ba bs = Inr ba' \<and> ba_inv ba'
      \<and> content ba' = overwrite (content ba) (m_position ba) bs
      \<and> m_position ba' = m_position ba + length bs \<and> m_baseSize ba' = m_baseSize ba"
  using assms
proof (induction bs arbitrary: ba rule: length_induct)
  case (1 bs)
  let ?b = "m_baseSize ba"
  have b: "0 < ?b" using "1.prems"(1) by (simp add: ba_inv_def)
  have "will_fit ba (length (take ?b bs))" using aligned_fits [OF "1.prems"] by simp
  from write_content [OF "1.prems"(1) this] obtain ba1 where
    w: "ByteArray_write ba (take ?b bs) = Inr ba1" and inv1: "ba_inv ba1"
    and c1: "content ba1 = overwrite (content ba) (m_position ba) (take ?b bs)"
    and p1: "m_position ba1 = m_position ba + length (take ?b bs)"
    and b1: "m_baseSize ba1 = ?b" by metis
  show ?case
  proof (cases "length bs < ?b")
    case True
    then show ?thesis using w inv1 c1 p1 b1 b
      by (subst ByteArray_readFromFileLoop.simps) (simp add: Let_def)
  next
    case False
    then have "m_position ba1 mod m_baseSize ba1 = 0" using p1 b1 "1.prems"(2) by simp
    moreover have "length (drop ?b bs) < length bs" using b False by simp
    ultimately obtain ba2 where r: "ByteArray_readFromFileLoop ba1 (drop ?b bs) = Inr ba2"
      and i2: "ba_inv ba2" and c2: "content ba2 = overwrite (content ba1) (m_position ba1) (drop ?b bs)"
      and p2: "m_position ba2 = m_position ba1 + length (drop ?b bs)" and b2: "m_baseSize ba2 = ?b"
      using "1.IH" inv1 b1 by metis
    have le: "m_position ba \<le> length (content ba)" using "1.prems"(1) by (simp add: ba_inv_def)
    have "content ba2 = overwrite (content ba) (m_position ba) bs"
      using c2 c1 p1 le overwrite_chain [of "m_position ba" "content ba" "take ?b bs" "drop ?b bs"]
      by simp
    then show ?thesis using w r i2 p1 p2 b2 b False
      by (subst ByteArray_readFromFileLoop.simps) (simp add: Let_def)
  qed
qed

end
