(* ===== verification/Byte_Array_Codec.thy ===== *)
theory Byte_Array_Codec
  imports Byte_Array_Correct
begin

text \<open>
  Correctness of the typed operations of \<^verbatim>\<open>ByteArray\<close>: the zigzag and varint encodings, the
  interface a codec needs of a byte store and the round trip of a sequence of typed values,
  proved once for any store and codec and then for \<^verbatim>\<open>ByteArray\<close>.
\<close>

section \<open>Zigzag\<close>

lemma neg_iff_msb32: "sint (v :: u32) < 0 \<longleftrightarrow> bit v 31"
  using bit_last_iff [of v] by simp

lemma neg_iff_msb64: "sint (v :: u64) < 0 \<longleftrightarrow> bit v 63"
  using bit_last_iff [of v] by simp

lemma bit_zigzag_decode:
  fixes x :: "'a::len word"
  assumes "n < LENGTH('a)"
  shows "bit (drop_bit 1 x XOR (- (x AND 1))) n \<longleftrightarrow> (bit x (Suc n) \<noteq> bit x 0)"
proof -
  have "- (x AND 1) = (if bit x 0 then - 1 else 0)"
    by (simp add: and_one_eq bit_0 odd_iff_mod_2_eq_one)
  then show ?thesis using assms by (simp add: bit_simps)
qed

lemma bit_zigzag_encode:
  fixes v :: "'a::len word"
  assumes "n < LENGTH('a)"
  shows "bit (if neg then (- v) * 2 - 1 else 2 * v) n
     \<longleftrightarrow> (if n = 0 then neg else bit v (n - 1) \<noteq> neg)"
proof -
  have "(- v) * 2 - 1 = NOT (2 * v)" by (simp add: not_eq_complement)
  then show ?thesis using assms by (auto simp: bit_not_iff bit_double_iff)
qed

lemma bit_EncodeZigzag32:
  "n < 32 \<Longrightarrow> bit (EncodeZigzag32 v) n \<longleftrightarrow> (if n = 0 then bit v 31 else bit v (n - 1) \<noteq> bit v 31)"
  unfolding EncodeZigzag32_def neg_iff_msb32 by (rule bit_zigzag_encode) simp

lemma bit_EncodeZigzag64:
  "n < 64 \<Longrightarrow> bit (EncodeZigzag64 v) n \<longleftrightarrow> (if n = 0 then bit v 63 else bit v (n - 1) \<noteq> bit v 63)"
  unfolding EncodeZigzag64_def neg_iff_msb64 by (rule bit_zigzag_encode) simp

lemma bit_DecodeZigzag32: "n < 32 \<Longrightarrow> bit (DecodeZigzag32 x) n \<longleftrightarrow> (bit x (Suc n) \<noteq> bit x 0)"
  unfolding DecodeZigzag32_def by (rule bit_zigzag_decode) simp

lemma bit_DecodeZigzag64: "n < 64 \<Longrightarrow> bit (DecodeZigzag64 x) n \<longleftrightarrow> (bit x (Suc n) \<noteq> bit x 0)"
  unfolding DecodeZigzag64_def by (rule bit_zigzag_decode) simp

lemma decode_encode_zigzag32: "DecodeZigzag32 (EncodeZigzag32 v) = v"
proof (rule bit_word_eqI)
  fix n assume "n < LENGTH(32)"
  then consider "n = 31" | "Suc n < 32" by fastforce
  then show "bit (DecodeZigzag32 (EncodeZigzag32 v)) n = bit v n"
    by cases (auto simp: bit_DecodeZigzag32 bit_EncodeZigzag32 dest: bit_imp_le_length)
qed

lemma decode_encode_zigzag64: "DecodeZigzag64 (EncodeZigzag64 v) = v"
proof (rule bit_word_eqI)
  fix n assume "n < LENGTH(64)"
  then consider "n = 63" | "Suc n < 64" by fastforce
  then show "bit (DecodeZigzag64 (EncodeZigzag64 v)) n = bit v n"
    by cases (auto simp: bit_DecodeZigzag64 bit_EncodeZigzag64 dest: bit_imp_le_length)
qed

section \<open>Varint\<close>

lemma varint32_Cons: "value \<ge> 0x80 \<Longrightarrow>
    varint32 value = (ucast (value AND 0x7F) OR 0x80) # varint32 (drop_bit 7 value)"
  by (subst varint32.simps) simp

lemma varint32_single: "\<not> value \<ge> 0x80 \<Longrightarrow> varint32 value = [ucast value]"
  by (subst varint32.simps) simp

lemma varint64_Cons: "value \<ge> 0x80 \<Longrightarrow>
    varint64 value = (ucast (value AND 0x7F) OR 0x80) # varint64 (drop_bit 7 value)"
  by (subst varint64.simps) simp

lemma varint64_single: "\<not> value \<ge> 0x80 \<Longrightarrow> varint64 value = [ucast value]"
  by (subst varint64.simps) simp

lemma unat_drop_7: "unat (drop_bit 7 (v :: 'a::len word)) = unat v div 128"
  unfolding unat_drop_bit_eq by (simp add: drop_bit_eq_div)

lemma length_varint32:
  "unat v < 2 ^ (7 * n) \<Longrightarrow> 0 < n \<Longrightarrow> length (varint32 v) \<le> n"
proof (induction v arbitrary: n rule: varint32.induct)
  case (1 v)
  show ?case
  proof (cases "v \<ge> 0x80")
    case True
    then have big: "128 \<le> unat v" by (simp add: word_le_nat_alt)
    with "1.prems" have "n \<noteq> 1" by auto
    with "1.prems" obtain m where m: "n = Suc m" "0 < m" by (cases n) auto
    have "unat (drop_bit 7 v) < 2 ^ (7 * m)"
      using "1.prems"(1) m(1) by (simp add: unat_drop_7 power_add less_mult_imp_div_less mult.commute)
    then have "length (varint32 (drop_bit 7 v)) \<le> m" using "1.IH" [OF True] m(2) by simp
    then show ?thesis using True m by (simp add: varint32_Cons)
  next
    case False
    then show ?thesis using "1.prems" by (simp add: varint32_single)
  qed
qed

lemma length_varint64:
  "unat v < 2 ^ (7 * n) \<Longrightarrow> 0 < n \<Longrightarrow> length (varint64 v) \<le> n"
proof (induction v arbitrary: n rule: varint64.induct)
  case (1 v)
  show ?case
  proof (cases "v \<ge> 0x80")
    case True
    then have big: "128 \<le> unat v" by (simp add: word_le_nat_alt)
    with "1.prems" have "n \<noteq> 1" by auto
    with "1.prems" obtain m where m: "n = Suc m" "0 < m" by (cases n) auto
    have "unat (drop_bit 7 v) < 2 ^ (7 * m)"
      using "1.prems"(1) m(1) by (simp add: unat_drop_7 power_add less_mult_imp_div_less mult.commute)
    then have "length (varint64 (drop_bit 7 v)) \<le> m" using "1.IH" [OF True] m(2) by simp
    then show ?thesis using True m by (simp add: varint64_Cons)
  next
    case False
    then show ?thesis using "1.prems" by (simp add: varint64_single)
  qed
qed

lemma mask_7F: "(0x7F :: 'a::len word) = mask 7"
  by (simp add: mask_eq_exp_minus_1)

lemma bit_80: "bit (0x80 :: u8) n \<longleftrightarrow> n = 7"
  using bit_exp_iff [of 7 n, where 'a = u8] by (auto dest: bit_imp_le_length)

lemma u8_less_80: "(b :: u8) < 0x80 \<longleftrightarrow> \<not> bit b 7"
proof -
  have "unat b < 2 ^ LENGTH(8)" by (rule unsigned_less)
  moreover have "bit b 7 \<longleftrightarrow> odd (unat b div 128)"
  proof -
    have "bit b 7 \<longleftrightarrow> bit (unat b) 7" by (simp add: bit_unsigned_iff)
    also have "\<dots> \<longleftrightarrow> odd (unat b div 2 ^ 7)" by (rule bit_iff_odd)
    finally show ?thesis by simp
  qed
  moreover have "unat b div 128 = (if unat b < 128 then 0 else 1)"
    using calculation(1) by (auto intro: div_nat_eqI)
  ultimately show ?thesis by (simp add: word_less_nat_alt)
qed

lemma varint_continuation:
  fixes v :: "'a::len word"
  shows "\<not> (ucast (v AND 0x7F) OR (0x80 :: u8)) < 0x80"
    and "(ucast (v AND 0x7F) OR (0x80 :: u8)) AND 0x7F = ucast (v AND 0x7F)"
proof -
  show "\<not> (ucast (v AND 0x7F) OR (0x80 :: u8)) < 0x80"
    by (simp add: u8_less_80 bit_simps bit_80)
  show "(ucast (v AND 0x7F) OR (0x80 :: u8)) AND 0x7F = ucast (v AND 0x7F)"
    unfolding mask_7F
    by (rule bit_word_eqI)
       (simp only: bit_and_iff bit_or_iff bit_80 bit_mask_iff bit_ucast_iff possible_bit_word, auto)
qed

subsection \<open>Reading a varint back\<close>

text \<open>Appending the low seven bits and the rest of a value at a bit position.\<close>

lemma push_bit_split_7:
  fixes v :: "'a::len word"
  shows "push_bit i (v AND 0x7F) OR push_bit (i + 7) (drop_bit 7 v) = push_bit i v"
proof (rule bit_word_eqI)
  fix n assume n: "n < LENGTH('a)"
  show "bit (push_bit i (v AND 0x7F) OR push_bit (i + 7) (drop_bit 7 v)) n = bit (push_bit i v) n"
    unfolding mask_7F using n by (cases "n < i + 7") (auto simp: bit_simps)
qed

lemma ucast_low_7:
  fixes v :: "'a::len word"
  assumes "8 \<le> LENGTH('a)"
  shows "ucast (ucast (v AND 0x7F) :: u8) = v AND 0x7F"
  unfolding mask_7F using assms
  by (intro bit_word_eqI) (auto simp: bit_simps)

lemma ucast_u8_small:
  fixes v :: "'a::len word"
  assumes "\<not> 0x80 \<le> v" and "7 < LENGTH('a)"
  shows "ucast (ucast v :: u8) = v" and "(ucast v :: u8) < 0x80"
proof -
  have "(128::nat) < 2 ^ LENGTH('a)"
    using assms(2) power_strict_increasing [of 7 "LENGTH('a)" "2::nat"] by simp
  then have "unat (0x80 :: 'a word) = 128" by (simp add: unat_numeral take_bit_eq_mod)
  then have v: "unat v < 128" using assms(1) by (simp add: word_le_nat_alt)
  then have u: "unat (ucast v :: u8) = unat v" by (simp add: unsigned_ucast_eq take_bit_eq_mod)
  then show "(ucast v :: u8) < 0x80" using v by (simp add: word_less_nat_alt)
  have "ucast (ucast v :: u8) = take_bit 8 v"
    by (rule bit_word_eqI) (auto simp: bit_simps)
  also have "take_bit 8 v = v"
    using v by (simp add: word_unat_eq_iff unsigned_take_bit_eq take_bit_nat_eq_self)
  finally show "ucast (ucast v :: u8) = v" .
qed

section \<open>Stores and codecs\<close>

text \<open>The interface of a byte store: appending at a position and reading from it.\<close>

locale byte_store =
  fixes put :: "'s \<Rightarrow> u8 list \<Rightarrow> 'e + 's"
    and get :: "'s \<Rightarrow> nat \<Rightarrow> 'e + (u8 list \<times> 's)"
    and pos sz :: "'s \<Rightarrow> nat"
    and bytes :: "'s \<Rightarrow> u8 list"
    and invar :: "'s \<Rightarrow> bool"
  assumes invar_pos: "invar s \<Longrightarrow> pos s \<le> sz s"
    and put_invar: "invar s \<Longrightarrow> put s bs = Inr s' \<Longrightarrow> invar s'"
    and put_pos: "invar s \<Longrightarrow> put s bs = Inr s' \<Longrightarrow> pos s' = pos s + length bs"
    and put_sz: "invar s \<Longrightarrow> put s bs = Inr s' \<Longrightarrow> sz s' = max (sz s) (pos s + length bs)"
    and put_here: "invar s \<Longrightarrow> put s bs = Inr s' \<Longrightarrow> segment (pos s) (length bs) (bytes s') = bs"
    and put_before: "invar s \<Longrightarrow> put s bs = Inr s' \<Longrightarrow> p + n \<le> pos s \<Longrightarrow>
          segment p n (bytes s') = segment p n (bytes s)"
    and get_ok: "invar s \<Longrightarrow> 0 < n \<Longrightarrow> pos s + n \<le> sz s \<Longrightarrow>
          \<exists>s'. get s n = Inr (segment (pos s) n (bytes s), s') \<and> invar s' \<and> pos s' = pos s + n
               \<and> sz s' = sz s \<and> bytes s' = bytes s"
begin

text \<open>The store \<open>s'\<close> holds a string at a position, and \<open>s'\<close> is \<open>s\<close> with it appended.\<close>

definition holds :: "'s \<Rightarrow> nat \<Rightarrow> u8 list \<Rightarrow> bool" where
  "holds s p bs \<longleftrightarrow> p + length bs \<le> sz s \<and> segment p (length bs) (bytes s) = bs"

definition appended :: "'s \<Rightarrow> u8 list \<Rightarrow> 's \<Rightarrow> bool" where
  "appended s bs s' \<longleftrightarrow> invar s' \<and> pos s' = pos s + length bs
     \<and> sz s' = max (sz s) (pos s + length bs) \<and> holds s' (pos s) bs
     \<and> (\<forall>p n. p + n \<le> pos s \<longrightarrow> segment p n (bytes s') = segment p n (bytes s))"

definition consumed :: "'s \<Rightarrow> nat \<Rightarrow> 's \<Rightarrow> bool" where
  "consumed s n s' \<longleftrightarrow> invar s' \<and> pos s' = pos s + n \<and> sz s' = sz s \<and> bytes s' = bytes s"

lemma put_appended: "invar s \<Longrightarrow> put s bs = Inr s' \<Longrightarrow> appended s bs s'"
  using put_invar put_pos put_sz put_here put_before by (auto simp: appended_def holds_def)

lemma holds_append: "holds s p (xs @ ys) \<longleftrightarrow> holds s p xs \<and> holds s (p + length xs) ys"
proof -
  let ?A = "segment p (length xs) (bytes s)" and ?B = "segment (p + length xs) (length ys) (bytes s)"
  have "length (?A @ ?B) = length (xs @ ys) \<Longrightarrow> length ?A = length xs" by auto
  then have "?A @ ?B = xs @ ys \<longleftrightarrow> ?A = xs \<and> ?B = ys"
    by (metis append_eq_append_conv)
  moreover have "segment p (length xs + length ys) (bytes s) = ?A @ ?B"
    by (rule segment_append)
  ultimately show ?thesis by (auto simp: holds_def)
qed

lemma holds_Cons:
  "xs \<noteq> [] \<Longrightarrow> holds s p (x # xs) \<longleftrightarrow> holds s p [x] \<and> holds s (p + 1) xs"
  using holds_append [of s p "[x]" xs] by simp

lemma appended_trans:
  assumes "appended s xs s1" and "appended s1 ys s2"
  shows "appended s (xs @ ys) s2"
proof -
  have p1: "pos s1 = pos s + length xs" and p2: "holds s2 (pos s1) ys"
    and keep: "\<And>p n. p + n \<le> pos s1 \<Longrightarrow> segment p n (bytes s2) = segment p n (bytes s1)"
    and h1: "holds s1 (pos s) xs" and z: "sz s2 = max (sz s1) (pos s1 + length ys)"
    using assms by (auto simp: appended_def)
  have "holds s2 (pos s) xs" using h1 keep [of "pos s" "length xs"] p1 z by (auto simp: holds_def)
  with p1 p2 have "holds s2 (pos s) (xs @ ys)" by (simp add: holds_append)
  with assms show ?thesis by (auto simp: appended_def)
qed

lemma get_consumed:
  assumes "invar s" and "holds s (pos s) bs" and "bs \<noteq> []"
  obtains s' where "get s (length bs) = Inr (bs, s')" and "consumed s (length bs) s'"
  using get_ok [of s "length bs"] assms that by (auto simp: holds_def consumed_def)

lemma consumed_holds [simp]: "consumed s n s' \<Longrightarrow> holds s' p bs = holds s p bs"
  by (simp add: consumed_def holds_def)

lemma consumed_trans: "consumed s m s1 \<Longrightarrow> consumed s1 n s2 \<Longrightarrow> consumed s (m + n) s2"
  by (simp add: consumed_def)

end

text \<open>Writing a sequence of values, and reading a sequence of values of given kinds.\<close>

fun put_all :: "('s \<Rightarrow> 'v \<Rightarrow> 'e + 's) \<Rightarrow> 's \<Rightarrow> 'v list \<Rightarrow> 'e + 's" where
  "put_all wr s [] = Inr s"
| "put_all wr s (v # vs) = rbind (wr s v) (\<lambda>s'. put_all wr s' vs)"

fun get_all :: "('s \<Rightarrow> 'k \<Rightarrow> 'e + ('v \<times> 's)) \<Rightarrow> 's \<Rightarrow> 'k list \<Rightarrow> 'e + ('v list \<times> 's)" where
  "get_all rd s [] = Inr ([], s)"
| "get_all rd s (k # ks) =
     rbind (rd s k) (\<lambda>(v, s'). rbind (get_all rd s' ks) (\<lambda>(vs, s''). Inr (v # vs, s'')))"

text \<open>
  A codec over a store: a writer that appends the encoding of a value and a reader that
  consumes the encoding of a value of the expected kind.
\<close>

locale byte_codec = byte_store put get pos sz bytes invar
  for put :: "'s \<Rightarrow> u8 list \<Rightarrow> 'e + 's" and get :: "'s \<Rightarrow> nat \<Rightarrow> 'e + (u8 list \<times> 's)"
    and pos sz :: "'s \<Rightarrow> nat" and bytes :: "'s \<Rightarrow> u8 list" and invar :: "'s \<Rightarrow> bool" +
  fixes wr :: "'s \<Rightarrow> 'v \<Rightarrow> 'e + 's"
    and rd :: "'s \<Rightarrow> 'k \<Rightarrow> 'e + ('v \<times> 's)"
    and kind :: "'v \<Rightarrow> 'k" and enc :: "'v \<Rightarrow> u8 list" and ok :: "'v \<Rightarrow> bool"
  assumes wr_ok: "invar s \<Longrightarrow> ok v \<Longrightarrow> wr s v = Inr s' \<Longrightarrow> appended s (enc v) s'"
    and rd_ok: "invar s \<Longrightarrow> ok v \<Longrightarrow> holds s (pos s) (enc v) \<Longrightarrow>
          \<exists>s'. rd s (kind v) = Inr (v, s') \<and> consumed s (length (enc v)) s'"
begin

lemma put_all_appended:
  "invar s \<Longrightarrow> \<forall>v\<in>set vs. ok v \<Longrightarrow> put_all wr s vs = Inr s' \<Longrightarrow>
     appended s (concat (map enc vs)) s'"
proof (induction vs arbitrary: s)
  case Nil
  then show ?case using invar_pos [of s] by (auto simp: appended_def holds_def)
next
  case (Cons v vs)
  from Cons.prems obtain s1 where s1: "wr s v = Inr s1" "put_all wr s1 vs = Inr s'"
    by (auto simp: rbind_eq_Inr_iff)
  then have "appended s (enc v) s1" using Cons.prems wr_ok by simp
  moreover from this have "invar s1" by (simp add: appended_def)
  then have "appended s1 (concat (map enc vs)) s'" using Cons.IH [of s1] Cons.prems(2) s1(2) by simp
  ultimately show ?case using appended_trans by simp
qed

lemma get_all_consumed:
  "invar s \<Longrightarrow> \<forall>v\<in>set vs. ok v \<Longrightarrow> holds s (pos s) (concat (map enc vs)) \<Longrightarrow>
     \<exists>s'. get_all rd s (map kind vs) = Inr (vs, s') \<and> consumed s (length (concat (map enc vs))) s'"
proof (induction vs arbitrary: s)
  case Nil
  then show ?case by (simp add: consumed_def)
next
  case (Cons v vs)
  then have here: "holds s (pos s) (enc v)"
    and rest: "holds s (pos s + length (enc v)) (concat (map enc vs))"
    by (simp_all add: holds_append)
  obtain s1 where s1: "rd s (kind v) = Inr (v, s1)" "consumed s (length (enc v)) s1"
    using rd_ok [OF Cons.prems(1) _ here] Cons.prems(2) by auto
  then have "holds s1 (pos s1) (concat (map enc vs))" using rest by (simp add: consumed_def holds_def)
  then obtain s2 where "get_all rd s1 (map kind vs) = Inr (vs, s2)"
    "consumed s1 (length (concat (map enc vs))) s2"
    using Cons.IH [of s1] Cons.prems(2) s1(2) by (auto simp: consumed_def)
  then show ?case using s1 consumed_trans by auto
qed

text \<open>What was written in one order is read back in that order, from the same position.\<close>

theorem roundtrip:
  assumes "invar s" and "\<forall>v\<in>set vs. ok v" and "put_all wr s vs = Inr s1"
    and "invar s2" and "pos s2 = pos s" and "bytes s2 = bytes s1" and "sz s2 = sz s1"
  shows "\<exists>s3. get_all rd s2 (map kind vs) = Inr (vs, s3) \<and> pos s3 = pos s1"
proof -
  have "appended s (concat (map enc vs)) s1" using put_all_appended assms by simp
  then have "holds s2 (pos s2) (concat (map enc vs))"
    and p: "pos s1 = pos s + length (concat (map enc vs))"
    using assms by (simp_all add: appended_def holds_def)
  with assms get_all_consumed [of s2 vs] show ?thesis by (auto simp: consumed_def)
qed

end

section \<open>ByteArray as a store\<close>

lemma write_cases:
  assumes "ba_inv ba" and "ByteArray_write ba bs = Inr ba'"
  shows "ba_inv ba' \<and> m_position ba' = m_position ba + length bs
    \<and> m_size ba' = max (m_size ba) (m_position ba + length bs)
    \<and> m_baseSize ba' = m_baseSize ba \<and> m_endian ba' = m_endian ba
    \<and> segment (m_position ba) (length bs) (flat ba') = bs
    \<and> (\<forall>p n. p + n \<le> m_position ba \<longrightarrow> segment p n (flat ba') = segment p n (flat ba))"
proof -
  have fit: "will_fit ba (length bs)" using write_overrun [OF assms(1)] assms(2) by force
  have le: "m_position ba \<le> length (flat ba)" using assms(1) by (simp add: ba_inv_def)
  from write_spec [OF assms(1) fit] assms(2) obtain new where
    w: "ba_inv ba'" "m_position ba' = m_position ba + length bs"
      "m_size ba' = max (m_size ba) (m_position ba + length bs)"
      "m_baseSize ba' = m_baseSize ba" "m_endian ba' = m_endian ba"
    and f: "flat ba' = overwrite (flat ba @ new) (m_position ba) bs"
    and room: "m_position ba + length bs \<le> length (flat ba @ new)" by (metis Inr_inject)
  have "segment (m_position ba) (length bs) (flat ba') = bs"
    using f room by (simp add: segment_overwrite_same)
  moreover have "segment p n (flat ba') = segment p n (flat ba)" if "p + n \<le> m_position ba" for p n
    using that le f room by (simp add: segment_overwrite_before) (simp add: segment_def)
  ultimately show ?thesis using w by blast
qed

interpretation ba: byte_store ByteArray_write ByteArray_read m_position m_size flat
    "\<lambda>ba. ba_inv ba \<and> m_endian ba = e" for e
proof
  fix ba bs ba' p n
  assume "ba_inv ba \<and> m_endian ba = e" and "ByteArray_write ba bs = Inr ba'"
  note w = write_cases [OF conjunct1 [OF this(1)] this(2)] and inv = this(1)
  from w inv show "ba_inv ba' \<and> m_endian ba' = e" by simp
  from w show "m_position ba' = m_position ba + length bs" by simp
  from w show "m_size ba' = max (m_size ba) (m_position ba + length bs)" by simp
  from w show "segment (m_position ba) (length bs) (flat ba') = bs" by simp
  assume "p + n \<le> m_position ba"
  with w show "segment p n (flat ba') = segment p n (flat ba)" by simp
next
  fix ba n
  assume inv: "ba_inv ba \<and> m_endian ba = e" and n: "0 < n" "m_position ba + n \<le> m_size ba"
  then have "n \<le> ByteArray_getReadSize ba" by (simp add: ByteArray_getReadSize_def)
  with inv n show "\<exists>s'. ByteArray_read ba n = Inr (segment (m_position ba) n (flat ba), s')
       \<and> (ba_inv s' \<and> m_endian s' = e) \<and> m_position s' = m_position ba + n
       \<and> m_size s' = m_size ba \<and> flat s' = flat ba"
    using read_spec [of ba n] by metis
qed (auto simp: ba_inv_def)

lemma varint32_nonempty [simp]: "varint32 v \<noteq> []"
  by (cases "v \<ge> 0x80") (simp_all add: varint32_Cons varint32_single)

lemma varint64_nonempty [simp]: "varint64 v \<noteq> []"
  by (cases "v \<ge> 0x80") (simp_all add: varint64_Cons varint64_single)

lemma readFuint8_consumed:
  assumes "ba_inv ba" and "m_endian ba = e" and "ba.holds ba (m_position ba) [b]"
  shows "\<exists>ba'. ByteArray_readFuint8 ba = Inr (b, ba') \<and> ba.consumed e ba 1 ba'"
proof -
  have "of_le_bytes [b] = b" using of_le_bytes_le_bytes [of 1 b] by (simp add: le_bytes_def)
  moreover obtain ba' where "ByteArray_read ba 1 = Inr ([b], ba')" "ba.consumed e ba 1 ba'"
    using ba.get_consumed [of ba e "[b]"] assms by auto
  ultimately show ?thesis by (simp add: ByteArray_readFuint8_def)
qed

text \<open>A step of the readers: a byte that carries seven bits, then the rest.\<close>

lemma varint_step:
  fixes v :: "'a::len word"
  assumes "0x80 \<le> v" and "unat v < 2 ^ (w - i)" and "7 < LENGTH('a)"
  shows "i + 7 < w" and "unat (drop_bit 7 v) < 2 ^ (w - (i + 7))"
proof -
  have "(128::nat) < 2 ^ LENGTH('a)"
    using assms(3) power_strict_increasing [of 7 "LENGTH('a)" "2::nat"] by simp
  then have "unat (0x80 :: 'a word) = 128" by (simp add: unat_numeral take_bit_eq_mod)
  then have "2 ^ 7 \<le> unat v" using assms(1) by (simp add: word_le_nat_alt)
  then have "(2::nat) ^ 7 < 2 ^ (w - i)" using assms(2) by linarith
  then have lt: "7 < w - i" by (rule power_less_imp_less_exp [rotated]) simp
  then show "i + 7 < w" by simp
  then have "unat v < 2 ^ (7 + (w - (i + 7)))" using assms(2) by simp
  then have "unat v < 2 ^ (w - (i + 7)) * 128" unfolding power_add by simp
  then show "unat (drop_bit 7 v) < 2 ^ (w - (i + 7))"
    by (simp add: unat_drop_7 less_mult_imp_div_less)
qed

lemma readUint32Loop_spec:
  "ba_inv ba \<Longrightarrow> m_endian ba = e \<Longrightarrow> ba.holds ba (m_position ba) (varint32 v) \<Longrightarrow>
   unat v < 2 ^ (32 - i) \<Longrightarrow> i < 32 \<Longrightarrow>
   \<exists>ba'. ByteArray_readUint32Loop i r ba = Inr (r OR push_bit i v, ba')
       \<and> ba.consumed e ba (length (varint32 v)) ba'"
proof (induction v arbitrary: i r ba rule: varint32.induct)
  case (1 v)
  let ?rest = "drop_bit 7 v"
  show ?case
  proof (cases "v \<ge> 0x80")
    case True
    let ?b = "ucast (v AND 0x7F) OR 0x80 :: u8"
    have b: "ba.holds ba (m_position ba) [?b]"
      and h: "ba.holds ba (m_position ba + 1) (varint32 ?rest)"
      using "1.prems"(3) unfolding varint32_Cons [OF True] ba.holds_Cons [OF varint32_nonempty] by simp_all
    obtain ba1 where r1: "ByteArray_readFuint8 ba = Inr (?b, ba1)" and c1: "ba.consumed e ba 1 ba1"
      using readFuint8_consumed [OF "1.prems"(1,2) b] by auto
    then have inv1: "ba_inv ba1" "m_endian ba1 = e" "m_position ba1 = m_position ba + 1"
      by (auto simp: ba.consumed_def)
    have hold: "ba.holds ba1 (m_position ba1) (varint32 ?rest)" using h c1 inv1(3) by simp
    obtain ba2 where r2: "ByteArray_readUint32Loop (i + 7) (r OR push_bit i (v AND 0x7F)) ba1
          = Inr ((r OR push_bit i (v AND 0x7F)) OR push_bit (i + 7) ?rest, ba2)"
        and c2: "ba.consumed e ba1 (length (varint32 ?rest)) ba2"
      using "1.IH" [OF True inv1(1,2) hold, of "i + 7" "r OR push_bit i (v AND 0x7F)"]
        varint_step [OF True "1.prems"(4)] by auto
    have "ByteArray_readUint32Loop i r ba
        = ByteArray_readUint32Loop (i + 7) (r OR push_bit i (v AND 0x7F)) ba1"
      by (subst ByteArray_readUint32Loop.simps)
         (simp add: "1.prems"(5) r1 varint_continuation ucast_low_7)
    moreover have "(r OR push_bit i (v AND 0x7F)) OR push_bit (i + 7) ?rest = r OR push_bit i v"
      by (simp only: or.assoc push_bit_split_7)
    ultimately show ?thesis
      using r2 ba.consumed_trans [OF c1 c2] by (simp add: varint32_Cons [OF True])
  next
    case False
    then have v: "varint32 v = [ucast v]" by (rule varint32_single)
    have small: "ucast (ucast v :: u8) = v" and lt: "(ucast v :: u8) < 0x80"
      using False by (simp_all add: ucast_u8_small)
    obtain ba1 where "ByteArray_readFuint8 ba = Inr (ucast v, ba1)" "ba.consumed e ba 1 ba1"
      using readFuint8_consumed [OF "1.prems"(1,2) "1.prems"(3) [unfolded v]] by auto
    then show ?thesis
      using v small lt "1.prems"(5) by (subst ByteArray_readUint32Loop.simps) simp
  qed
qed


lemma ucast_narrow_or: "ucast (ucast (r :: u32) OR x) = r OR ucast (x :: u64)"
  by (rule bit_word_eqI) (auto simp: bit_simps)

lemma readUint64Loop_spec:
  "ba_inv ba \<Longrightarrow> m_endian ba = e \<Longrightarrow> ba.holds ba (m_position ba) (varint64 v) \<Longrightarrow>
   unat v < 2 ^ (64 - i) \<Longrightarrow> i < 64 \<Longrightarrow>
   \<exists>ba'. ByteArray_readUint64Loop i r ba = Inr (r OR ucast (push_bit i v), ba')
       \<and> ba.consumed e ba (length (varint64 v)) ba'"
proof (induction v arbitrary: i r ba rule: varint64.induct)
  case (1 v)
  let ?rest = "drop_bit 7 v"
  show ?case
  proof (cases "v \<ge> 0x80")
    case True
    let ?b = "ucast (v AND 0x7F) OR 0x80 :: u8"
    have b: "ba.holds ba (m_position ba) [?b]"
      and h: "ba.holds ba (m_position ba + 1) (varint64 ?rest)"
      using "1.prems"(3) unfolding varint64_Cons [OF True] ba.holds_Cons [OF varint64_nonempty] by simp_all
    obtain ba1 where r1: "ByteArray_readFuint8 ba = Inr (?b, ba1)" and c1: "ba.consumed e ba 1 ba1"
      using readFuint8_consumed [OF "1.prems"(1,2) b] by auto
    then have inv1: "ba_inv ba1" "m_endian ba1 = e" "m_position ba1 = m_position ba + 1"
      by (auto simp: ba.consumed_def)
    have hold: "ba.holds ba1 (m_position ba1) (varint64 ?rest)" using h c1 inv1(3) by simp
    obtain ba2 where r2: "ByteArray_readUint64Loop (i + 7) (r OR ucast (push_bit i (v AND 0x7F))) ba1
          = Inr ((r OR ucast (push_bit i (v AND 0x7F))) OR ucast (push_bit (i + 7) ?rest), ba2)"
        and c2: "ba.consumed e ba1 (length (varint64 ?rest)) ba2"
      using "1.IH" [OF True inv1(1,2) hold, of "i + 7" "r OR ucast (push_bit i (v AND 0x7F))"]
        varint_step [OF True "1.prems"(4)] by auto
    have "ByteArray_readUint64Loop i r ba
        = ByteArray_readUint64Loop (i + 7) (r OR ucast (push_bit i (v AND 0x7F))) ba1"
      by (subst ByteArray_readUint64Loop.simps)
         (simp add: "1.prems"(5) r1 varint_continuation ucast_low_7 ucast_narrow_or del: push_bit_and)
    moreover have "(r OR ucast (push_bit i (v AND 0x7F))) OR ucast (push_bit (i + 7) ?rest) = r OR ucast (push_bit i v)"
      by (simp only: or.assoc unsigned_or_eq [symmetric] push_bit_split_7)
    ultimately show ?thesis
      using r2 ba.consumed_trans [OF c1 c2] by (simp add: varint64_Cons [OF True])
  next
    case False
    then have v: "varint64 v = [ucast v]" by (rule varint64_single)
    have small: "ucast (ucast v :: u8) = v" and lt: "(ucast v :: u8) < 0x80"
      using False by (simp_all add: ucast_u8_small)
    obtain ba1 where "ByteArray_readFuint8 ba = Inr (ucast v, ba1)" "ba.consumed e ba 1 ba1"
      using readFuint8_consumed [OF "1.prems"(1,2) "1.prems"(3) [unfolded v]] by auto
    then show ?thesis
      using v small lt "1.prems"(5)
      by (subst ByteArray_readUint64Loop.simps) (simp add: ucast_narrow_or)
  qed
qed

section \<open>ByteArray as a codec\<close>

text \<open>
  The values of the typed operations that have a reader, and their kinds. \<^verbatim>\<open>double\<close> and
  the strings with a varint length are not among them: their readers do not fit their
  writers (see the properties below).
\<close>

datatype ba_kind =
  K_Fint8 | K_Fuint8 | K_Fint16 | K_Fuint16 | K_Fint32 | K_Fuint32 | K_Fint64 | K_Fuint64
| K_Int32 | K_Uint32 | K_Int64 | K_Uint64 | K_Float | K_StringF16 | K_StringF32 | K_StringF64

datatype ba_value =
  V_Fint8 u8 | V_Fuint8 u8 | V_Fint16 u16 | V_Fuint16 u16 | V_Fint32 u32 | V_Fuint32 u32
| V_Fint64 u64 | V_Fuint64 u64 | V_Int32 u32 | V_Uint32 u32 | V_Int64 u64 | V_Uint64 u64
| V_Float u32 | V_StringF16 "u8 list" | V_StringF32 "u8 list" | V_StringF64 "u8 list"

fun ba_kind_of :: "ba_value \<Rightarrow> ba_kind" where
  "ba_kind_of (V_Fint8 _) = K_Fint8"
| "ba_kind_of (V_Fuint8 _) = K_Fuint8"
| "ba_kind_of (V_Fint16 _) = K_Fint16"
| "ba_kind_of (V_Fuint16 _) = K_Fuint16"
| "ba_kind_of (V_Fint32 _) = K_Fint32"
| "ba_kind_of (V_Fuint32 _) = K_Fuint32"
| "ba_kind_of (V_Fint64 _) = K_Fint64"
| "ba_kind_of (V_Fuint64 _) = K_Fuint64"
| "ba_kind_of (V_Int32 _) = K_Int32"
| "ba_kind_of (V_Uint32 _) = K_Uint32"
| "ba_kind_of (V_Int64 _) = K_Int64"
| "ba_kind_of (V_Uint64 _) = K_Uint64"
| "ba_kind_of (V_Float _) = K_Float"
| "ba_kind_of (V_StringF16 _) = K_StringF16"
| "ba_kind_of (V_StringF32 _) = K_StringF32"
| "ba_kind_of (V_StringF64 _) = K_StringF64"

fun ba_put :: "byte_array \<Rightarrow> ba_value \<Rightarrow> ba_error + byte_array" where
  "ba_put ba (V_Fint8 v) = ByteArray_writeFint8 ba v"
| "ba_put ba (V_Fuint8 v) = ByteArray_writeFuint8 ba v"
| "ba_put ba (V_Fint16 v) = ByteArray_writeFint16 ba v"
| "ba_put ba (V_Fuint16 v) = ByteArray_writeFuint16 ba v"
| "ba_put ba (V_Fint32 v) = ByteArray_writeFint32 ba v"
| "ba_put ba (V_Fuint32 v) = ByteArray_writeFuint32 ba v"
| "ba_put ba (V_Fint64 v) = ByteArray_writeFint64 ba v"
| "ba_put ba (V_Fuint64 v) = ByteArray_writeFuint64 ba v"
| "ba_put ba (V_Int32 v) = ByteArray_writeInt32 ba v"
| "ba_put ba (V_Uint32 v) = ByteArray_writeUint32 ba v"
| "ba_put ba (V_Int64 v) = ByteArray_writeInt64 ba v"
| "ba_put ba (V_Uint64 v) = ByteArray_writeUint64 ba v"
| "ba_put ba (V_Float v) = ByteArray_writeFloat ba v"
| "ba_put ba (V_StringF16 v) = ByteArray_writeStringF16 ba v"
| "ba_put ba (V_StringF32 v) = ByteArray_writeStringF32 ba v"
| "ba_put ba (V_StringF64 v) = ByteArray_writeStringF64 ba v"

definition tag :: "('a \<Rightarrow> ba_value) \<Rightarrow> ba_error + ('a \<times> byte_array) \<Rightarrow> ba_error + (ba_value \<times> byte_array)"
  where "tag C r = rbind r (\<lambda>(v, ba). Inr (C v, ba))"

lemma tag_Inr [simp]: "tag C (Inr (v, ba)) = Inr (C v, ba)"
  by (simp add: tag_def)

fun ba_get :: "byte_array \<Rightarrow> ba_kind \<Rightarrow> ba_error + (ba_value \<times> byte_array)" where
  "ba_get ba K_Fint8 = tag V_Fint8 (ByteArray_readFint8 ba)"
| "ba_get ba K_Fuint8 = tag V_Fuint8 (ByteArray_readFuint8 ba)"
| "ba_get ba K_Fint16 = tag V_Fint16 (ByteArray_readFint16 ba)"
| "ba_get ba K_Fuint16 = tag V_Fuint16 (ByteArray_readFuint16 ba)"
| "ba_get ba K_Fint32 = tag V_Fint32 (ByteArray_readFint32 ba)"
| "ba_get ba K_Fuint32 = tag V_Fuint32 (ByteArray_readFuint32 ba)"
| "ba_get ba K_Fint64 = tag V_Fint64 (ByteArray_readFint64 ba)"
| "ba_get ba K_Fuint64 = tag V_Fuint64 (ByteArray_readFuint64 ba)"
| "ba_get ba K_Int32 = tag V_Int32 (ByteArray_readInt32 ba)"
| "ba_get ba K_Uint32 = tag V_Uint32 (ByteArray_readUint32 ba)"
| "ba_get ba K_Int64 = tag V_Int64 (ByteArray_readInt64 ba)"
| "ba_get ba K_Uint64 = tag V_Uint64 (ByteArray_readUint64 ba)"
| "ba_get ba K_Float = tag V_Float (ByteArray_readFloat ba)"
| "ba_get ba K_StringF16 = tag V_StringF16 (ByteArray_readStringF16 ba)"
| "ba_get ba K_StringF32 = tag V_StringF32 (ByteArray_readStringF32 ba)"
| "ba_get ba K_StringF64 = tag V_StringF64 (ByteArray_readStringF64 ba)"

text \<open>
  The values that survive the round trip: 64 bit varints that fit in 32 bits (signed for
  \<^verbatim>\<open>int64_t\<close>), and nonempty strings whose length fits its prefix.
\<close>

fun ba_ok :: "ba_value \<Rightarrow> bool" where
  "ba_ok (V_Uint64 v) \<longleftrightarrow> unat v < 2 ^ 32"
| "ba_ok (V_Int64 v) \<longleftrightarrow> v = scast (ucast v :: u32)"
| "ba_ok (V_StringF16 s) \<longleftrightarrow> s \<noteq> [] \<and> length s < 2 ^ 16"
| "ba_ok (V_StringF32 s) \<longleftrightarrow> s \<noteq> [] \<and> length s < 2 ^ 32"
| "ba_ok (V_StringF64 s) \<longleftrightarrow> s \<noteq> [] \<and> length s < 2 ^ 64"
| "ba_ok _ \<longleftrightarrow> True"

definition fixed_bytes :: "endian \<Rightarrow> 'a::len word \<Rightarrow> u8 list" where
  "fixed_bytes e v = le_bytes (LENGTH('a) div 8) (if e \<noteq> TINY_BYTE_ORDER then byteswap v else v)"

fun ba_enc :: "endian \<Rightarrow> ba_value \<Rightarrow> u8 list" where
  "ba_enc e (V_Fint8 v) = [v]"
| "ba_enc e (V_Fuint8 v) = [v]"
| "ba_enc e (V_Fint16 v) = fixed_bytes e v"
| "ba_enc e (V_Fuint16 v) = fixed_bytes e v"
| "ba_enc e (V_Fint32 v) = fixed_bytes e v"
| "ba_enc e (V_Fuint32 v) = fixed_bytes e v"
| "ba_enc e (V_Fint64 v) = fixed_bytes e v"
| "ba_enc e (V_Fuint64 v) = fixed_bytes e v"
| "ba_enc e (V_Int32 v) = varint32 (EncodeZigzag32 v)"
| "ba_enc e (V_Uint32 v) = varint32 v"
| "ba_enc e (V_Int64 v) = varint64 (ucast (EncodeZigzag32 (ucast v)))"
| "ba_enc e (V_Uint64 v) = varint64 v"
| "ba_enc e (V_Float v) = fixed_bytes e v"
| "ba_enc e (V_StringF16 s) = fixed_bytes e (of_nat (length s) :: u16) @ s"
| "ba_enc e (V_StringF32 s) = fixed_bytes e (of_nat (length s) :: u32) @ s"
| "ba_enc e (V_StringF64 s) = fixed_bytes e (of_nat (length s) :: u64) @ s"

lemma length_fixed_bytes [simp]: "length (fixed_bytes e (v :: 'a::len word)) = LENGTH('a) div 8"
  by (simp add: fixed_bytes_def)

lemma writeFixed_eq: "m_endian ba = e \<Longrightarrow> ByteArray_writeFixed ba v = ByteArray_write ba (fixed_bytes e v)"
  by (simp add: ByteArray_writeFixed_def fixed_bytes_def)

lemma of_fixed_bytes:
  fixes v :: "'a::len word"
  assumes "8 dvd LENGTH('a)"
  shows "(if e = TINY_BYTE_ORDER then of_le_bytes (fixed_bytes e v)
          else byteswap (of_le_bytes (fixed_bytes e v))) = v"
  using assms by (simp add: fixed_bytes_def of_le_bytes_le_bytes byteswap_byteswap)

lemma readFixed_consumed:
  fixes v :: "'a::len word"
  assumes "ba_inv ba" and "m_endian ba = e" and "8 dvd LENGTH('a)"
    and "ba.holds ba (m_position ba) (fixed_bytes e v)"
  shows "\<exists>ba'. ByteArray_readFixed ba = Inr (v, ba') \<and> ba.consumed e ba (LENGTH('a) div 8) ba'"
proof -
  have "0 < LENGTH('a) div 8" using assms(3) len_gt_0 [where 'a = 'a]
    by (auto simp: div_greater_zero_iff intro: dvd_imp_le)
  then have "fixed_bytes e v \<noteq> []" using length_fixed_bytes [of e v] by fastforce
  then obtain ba' where "ByteArray_read ba (LENGTH('a) div 8) = Inr (fixed_bytes e v, ba')"
    "ba.consumed e ba (LENGTH('a) div 8) ba'"
    using ba.get_consumed [of ba e "fixed_bytes e v"] assms by auto
  then show ?thesis using assms(2) of_fixed_bytes [OF assms(3), of e v]
    by (simp add: ByteArray_readFixed_def Let_def)
qed

lemma fixed_tagged:
  fixes v :: "'a::len word"
  assumes "ba_inv ba" and "m_endian ba = e" and "8 dvd LENGTH('a)"
    and "ba.holds ba (m_position ba) (fixed_bytes e v)"
  shows "\<exists>ba'. tag C (ByteArray_readFixed ba) = Inr (C v, ba') \<and> ba.consumed e ba (LENGTH('a) div 8) ba'"
  using readFixed_consumed [OF assms] by auto

lemma string_appended:
  fixes n :: "'a::len word"
  assumes "ba_inv ba" and "m_endian ba = e"
    and "rbind (ByteArray_writeFixed ba n) (\<lambda>ba'. ByteArray_write ba' s) = Inr ba'"
  shows "ba.appended e ba (fixed_bytes e n @ s) ba'"
proof -
  from assms(3) obtain ba1 where "ByteArray_writeFixed ba n = Inr ba1"
    and w: "ByteArray_write ba1 s = Inr ba'" by (auto simp: rbind_eq_Inr_iff)
  then have a1: "ba.appended e ba (fixed_bytes e n) ba1"
    using ba.put_appended [of ba e] assms(1,2) writeFixed_eq [OF assms(2)] by metis
  then have "ba.appended e ba1 s ba'" using ba.put_appended [of ba1 e] w by (auto simp: ba.appended_def)
  with a1 show ?thesis by (rule ba.appended_trans)
qed

lemma string_consumed:
  fixes n :: "'a::len word"
  assumes "ba_inv ba" and "m_endian ba = e" and "8 dvd LENGTH('a)"
    and "ba.holds ba (m_position ba) (fixed_bytes e n @ s)" and "s \<noteq> []" and "unat n = length s"
  shows "\<exists>ba'. rbind (ByteArray_readFixed ba) (\<lambda>(len :: 'a word, ba'). ByteArray_read ba' (unat len))
               = Inr (s, ba') \<and> ba.consumed e ba (LENGTH('a) div 8 + length s) ba'"
proof -
  have h: "ba.holds ba (m_position ba) (fixed_bytes e n)"
    "ba.holds ba (m_position ba + LENGTH('a) div 8) s" using assms(4) by (simp_all add: ba.holds_append)
  obtain ba1 where r1: "ByteArray_readFixed ba = Inr (n, ba1)"
    and c1: "ba.consumed e ba (LENGTH('a) div 8) ba1"
    using readFixed_consumed [OF assms(1-3) h(1)] by auto
  have "ba.holds ba1 (m_position ba1) s" using h(2) c1 by (simp add: ba.consumed_def ba.holds_def)
  then obtain ba2 where "ByteArray_read ba1 (length s) = Inr (s, ba2)" and c2: "ba.consumed e ba1 (length s) ba2"
    using ba.get_consumed [of ba1 e s] c1 assms(5) by (auto simp: ba.consumed_def)
  with r1 assms(6) ba.consumed_trans [OF c1 c2] show ?thesis by simp
qed

lemma le_bytes_u8 [simp]: "le_bytes 1 (v :: u8) = [v]" "le_bytes (Suc 0) (v :: u8) = [v]"
  by (simp_all add: le_bytes_def)

lemma of_le_bytes_u8 [simp]: "(of_le_bytes [v] :: u8) = v"
  using of_le_bytes_le_bytes [of 1 v] by simp

lemmas write_defs =
  ByteArray_writeFint8_def ByteArray_writeFuint8_def ByteArray_writeFint16_def
  ByteArray_writeFuint16_def ByteArray_writeFint32_def ByteArray_writeFuint32_def
  ByteArray_writeFint64_def ByteArray_writeFuint64_def ByteArray_writeInt32_def
  ByteArray_writeUint32_def ByteArray_writeInt64_def ByteArray_writeUint64_def
  ByteArray_writeFloat_def ByteArray_writeStringF16_def ByteArray_writeStringF32_def
  ByteArray_writeStringF64_def

lemmas read_fixed_defs =
  ByteArray_readFint16_def ByteArray_readFuint16_def ByteArray_readFint32_def
  ByteArray_readFuint32_def ByteArray_readFint64_def ByteArray_readFuint64_def
  ByteArray_readFloat_def ByteArray_readStringF16_def ByteArray_readStringF32_def
  ByteArray_readStringF64_def

lemma ba_put_appended:
  assumes "ba_inv ba" and "m_endian ba = e" and "ba_put ba v = Inr ba'"
  shows "ba.appended e ba (ba_enc e v) ba'"
proof -
  have *: "ba_put ba v = ByteArray_write ba (ba_enc e v) \<or>
       (\<exists>s. v = V_StringF16 s \<or> v = V_StringF32 s \<or> v = V_StringF64 s)"
    using assms(2) by (cases v) (simp_all add: write_defs writeFixed_eq)
  show ?thesis
  proof (cases "ba_put ba v = ByteArray_write ba (ba_enc e v)")
    case True
    then show ?thesis using ba.put_appended [of ba e] assms by simp
  next
    case False
    with * obtain s where "v = V_StringF16 s \<or> v = V_StringF32 s \<or> v = V_StringF64 s" by blast
    then show ?thesis
      by (elim disjE; simp only: ba_enc.simps, intro string_appended [OF assms(1,2)])
         (use assms(3) in \<open>simp_all add: write_defs\<close>)
  qed
qed

text \<open>Decoding a widened 32 bit zigzag code gives the sign extension of the value.\<close>

lemma decode64_of_encode32: "DecodeZigzag64 (ucast (EncodeZigzag32 v)) = scast v"
proof (rule bit_word_eqI)
  fix n assume "n < LENGTH(64)"
  then show "bit (DecodeZigzag64 (ucast (EncodeZigzag32 v))) n = bit (scast v :: u64) n"
    by (cases "n < 31")
       (auto simp: bit_DecodeZigzag64 bit_ucast_iff bit_EncodeZigzag32 bit_signed_iff min_def
         dest: bit_imp_le_length)
qed

lemma ucast_down_up: "ucast (ucast (ucast (w :: u32) :: u64) :: u32) = (ucast w :: u64)"
  by (rule bit_word_eqI) (auto simp: bit_simps dest: bit_imp_le_length)

lemma ucast_fits: "unat (w :: u64) < 2 ^ 32 \<Longrightarrow> ucast (ucast w :: u32) = w"
proof -
  assume "unat w < 2 ^ 32"
  moreover have "ucast (ucast w :: u32) = take_bit 32 w" by (rule bit_word_eqI) (auto simp: bit_simps)
  ultimately show ?thesis by (simp add: word_unat_eq_iff unsigned_take_bit_eq take_bit_nat_eq_self)
qed

lemma readUint64_consumed:
  assumes "ba_inv ba" and "m_endian ba = e" and "ba.holds ba (m_position ba) (varint64 v)"
  shows "\<exists>ba'. ByteArray_readUint64 ba = Inr (ucast (ucast v :: u32), ba')
       \<and> ba.consumed e ba (length (varint64 v)) ba'"
proof -
  have "unat v < 2 ^ (64 - 0)" by (rule order_less_le_trans [OF unsigned_less]) simp
  from readUint64Loop_spec [OF assms this, of 0] show ?thesis by (auto simp: ByteArray_readUint64_def)
qed

lemma readUint32_consumed:
  assumes "ba_inv ba" and "m_endian ba = e" and "ba.holds ba (m_position ba) (varint32 v)"
  shows "\<exists>ba'. ByteArray_readUint32 ba = Inr (v, ba')
       \<and> ba.consumed e ba (length (varint32 v)) ba'"
proof -
  have "unat v < 2 ^ (32 - 0)" by (rule order_less_le_trans [OF unsigned_less]) simp
  from readUint32Loop_spec [OF assms this, of 0] show ?thesis by (auto simp: ByteArray_readUint32_def)
qed

lemma ba_get_consumed:
  assumes inv: "ba_inv ba" "m_endian ba = e" and "ba_ok v"
    and "ba.holds ba (m_position ba) (ba_enc e v)"
  shows "\<exists>ba'. ba_get ba (ba_kind_of v) = Inr (v, ba') \<and> ba.consumed e ba (length (ba_enc e v)) ba'"
  using assms(3,4)
proof (cases v)
  case (V_Fint8 w)
  then show ?thesis
    using readFuint8_consumed [OF inv, of w] assms(4)
    by (auto simp: ByteArray_readFint8_def ByteArray_readFuint8_def)
next
  case (V_Fuint8 w)
  then show ?thesis using readFuint8_consumed [OF inv, of w] assms(4) by auto
next
  case (V_Int32 w)
  then show ?thesis using readUint32_consumed [OF inv, of "EncodeZigzag32 w"] assms(4)
    by (auto simp: ByteArray_readInt32_def decode_encode_zigzag32)
next
  case (V_Uint32 w)
  then show ?thesis using readUint32_consumed [OF inv, of w] assms(4) by auto
next
  case (V_Int64 w)
  then show ?thesis
    using readUint64_consumed [OF inv, of "ucast (EncodeZigzag32 (ucast w))"] assms(3,4)
    by (auto simp: ByteArray_readInt64_def ucast_down_up decode64_of_encode32)
next
  case (V_Uint64 w)
  then show ?thesis using readUint64_consumed [OF inv, of w] assms(3,4) by (auto simp: ucast_fits)
next
  case (V_StringF16 s)
  then show ?thesis
    using string_consumed [OF inv, of "of_nat (length s) :: u16" s] assms(3,4)
    by (auto simp: read_fixed_defs unat_of_nat_small)
next
  case (V_StringF32 s)
  then show ?thesis
    using string_consumed [OF inv, of "of_nat (length s) :: u32" s] assms(3,4)
    by (auto simp: read_fixed_defs unat_of_nat_small)
next
  case (V_StringF64 s)
  then show ?thesis
    using string_consumed [OF inv, of "of_nat (length s) :: u64" s] assms(3,4)
    by (auto simp: read_fixed_defs unat_of_nat_small)
next
  case (V_Fint16 w)
  then show ?thesis using fixed_tagged [OF inv, of w V_Fint16] assms(4) by (simp add: read_fixed_defs)
next
  case (V_Fuint16 w)
  then show ?thesis using fixed_tagged [OF inv, of w V_Fuint16] assms(4) by (simp add: read_fixed_defs)
next
  case (V_Fint32 w)
  then show ?thesis using fixed_tagged [OF inv, of w V_Fint32] assms(4) by (simp add: read_fixed_defs)
next
  case (V_Fuint32 w)
  then show ?thesis using fixed_tagged [OF inv, of w V_Fuint32] assms(4) by (simp add: read_fixed_defs)
next
  case (V_Fint64 w)
  then show ?thesis using fixed_tagged [OF inv, of w V_Fint64] assms(4) by (simp add: read_fixed_defs)
next
  case (V_Fuint64 w)
  then show ?thesis using fixed_tagged [OF inv, of w V_Fuint64] assms(4) by (simp add: read_fixed_defs)
next
  case (V_Float w)
  then show ?thesis using fixed_tagged [OF inv, of w V_Float] assms(4) by (simp add: read_fixed_defs)
qed

interpretation ba_codec: byte_codec ByteArray_write ByteArray_read m_position m_size flat
    "\<lambda>ba. ba_inv ba \<and> m_endian ba = e" ba_put ba_get ba_kind_of "ba_enc e" ba_ok for e
  by unfold_locales (use ba_put_appended ba_get_consumed in blast)+

text \<open>After an append, the array can be taken back to where the append started.\<close>

lemma rewind:
  assumes "ba.appended e ba bs ba1" and "ba_inv ba"
  obtains ba2 where "ByteArray_setPosition ba1 (m_position ba) = Inr ba2" and "ba_inv ba2"
    and "m_position ba2 = m_position ba" and "m_size ba2 = m_size ba1" and "flat ba2 = flat ba1"
    and "m_endian ba2 = e"
proof -
  have inv1: "ba_inv ba1" "m_endian ba1 = e" and le: "m_position ba \<le> m_size ba1"
    using assms(1) by (simp_all add: ba.appended_def)
  then have "m_position ba \<le> m_capacity ba1" by (simp add: ba_inv_def)
  from setPosition_spec [OF inv1(1) this] le inv1(2) that show thesis by (metis max.absorb1)
qed

section \<open>Properties\<close>

text \<open>
  (C8) \<^verbatim>\<open>ByteArray::write\<close> refines overwriting the content at the position: it succeeds exactly
  when the nodes linked by \<^verbatim>\<open>addCapacity\<close> suffice, and then the content is the old one with
  the buffer written over it, the position has moved behind the buffer and the invariant
  holds; otherwise it runs into the end of the chain and dereferences a null node.
\<close>

theorem write_refines_overwrite:
  assumes "ba_inv ba"
  shows "case ByteArray_write ba buf of
      Inl err \<Rightarrow> \<not> will_fit ba (length buf) \<and> err = Null_Deref
    | Inr ba' \<Rightarrow> will_fit ba (length buf) \<and> ba_inv ba'
        \<and> content ba' = overwrite (content ba) (m_position ba) buf
        \<and> m_position ba' = m_position ba + length buf \<and> m_endian ba' = m_endian ba"
proof (cases "will_fit ba (length buf)")
  case True
  obtain ba' where "ByteArray_write ba buf = Inr ba'" and "ba_inv ba'"
    and "content ba' = overwrite (content ba) (m_position ba) buf"
    and "m_position ba' = m_position ba + length buf" and "m_endian ba' = m_endian ba"
    using write_content [OF assms True] by metis
  with True show ?thesis by simp
next
  case False
  then show ?thesis using write_overrun [OF assms] by simp
qed

theorem write_refines_overwrite_witness:
  "ba_inv (ByteArray_new (\<lambda>_. 0) 4)
   \<and> ByteArray_write (ByteArray_new (\<lambda>_. 0) 4) [1, 2, 3, 4, 5] = Inl Null_Deref
   \<and> (\<exists>ba'. ByteArray_write (ByteArray_new (\<lambda>_. 0) 4) [1, 2, 3] = Inr ba' \<and> content ba' = [1, 2, 3])"
proof -
  let ?ba = "ByteArray_new (\<lambda>_. 0 :: u8) 4"
  have inv: "ba_inv ?ba" by (simp add: ba_inv_new)
  have f: "\<not> will_fit ?ba 5" "will_fit ?ba 3" "m_position ?ba = 0" "content ?ba = []"
    by (simp_all add: will_fit_def ByteArray_getCurCapacity_def ByteArray_new_def content_def)
  show ?thesis
    using write_refines_overwrite [OF inv, of "[1, 2, 3, 4, 5]"]
      write_refines_overwrite [OF inv, of "[1, 2, 3]"] inv f
    by (auto simp: overwrite_def numeral_eq_Suc split: sum.splits)
qed

text \<open>
  (C9) \<^verbatim>\<open>ByteArray::read\<close> returns exactly the bytes of the content at the position and moves
  behind them, without changing the content; asking for more than is there throws
  \<^verbatim>\<open>out_of_range\<close>; a read of no bytes at the very end of the chain dereferences the null
  current node.
\<close>

theorem read_refines_segment:
  assumes "ba_inv ba"
  shows "ByteArray_read ba n =
      (if n > m_size ba - m_position ba then Inl Out_Of_Range
       else if m_position ba = m_capacity ba then Inl Null_Deref
       else Inr (segment (m_position ba) n (content ba),
                 ba\<lparr>m_cur := (if m_position ba + n < m_capacity ba
                              then Some ((m_position ba + n) div m_baseSize ba) else None),
                    m_position := m_position ba + n\<rparr>))"
proof -
  consider "n > ByteArray_getReadSize ba" | "n \<le> ByteArray_getReadSize ba" "m_position ba = m_capacity ba"
    | "n \<le> ByteArray_getReadSize ba" "m_position ba < m_capacity ba"
    using assms by (fastforce simp: ba_inv_def)
  then show ?thesis
  proof cases
    case 1
    then show ?thesis by (simp add: ByteArray_read_def ByteArray_getReadSize_def)
  next
    case 2
    then show ?thesis using assms by (simp add: ByteArray_read_def ByteArray_getReadSize_def ba_inv_def)
  next
    case 3
    note at = ba_inv_at_node [OF assms 3(2)]
    have "m_position ba \<le> m_size ba" using assms by (simp add: ba_inv_def)
    then have le: "m_position ba + n \<le> m_size ba" "m_size ba \<le> m_capacity ba"
      using 3(1) assms by (simp add: ByteArray_getReadSize_def) (use assms in \<open>simp add: ba_inv_def\<close>)
    show ?thesis
    proof (cases "n = 0")
      case True
      then show ?thesis using 3 at_nodeD(1,4) [OF at] assms
        by (cases ba) (simp add: ByteArray_read_def ByteArray_readLoop.simps ByteArray_getReadSize_def ba_inv_def)
    next
      case False
      then show ?thesis
        using readLoop_spec [OF at, of n] le at_nodeD(1,4) [OF at] 3 assms
          segment_content [of "m_position ba" n ba]
        by (simp add: ByteArray_read_def ba_inv_def ByteArray_getReadSize_def node_of_def flat_def)
    qed
  qed
qed

theorem read_refines_segment_witness:
  "ba_inv (ByteArray_new (\<lambda>_. 0) 4)
   \<and> ByteArray_read (ByteArray_new (\<lambda>_. 0) 4) 1 = Inl Out_Of_Range"
  using read_refines_segment [OF ba_inv_new, of 4 "\<lambda>_. 0" 1]
  by (simp add: ba_inv_new) (simp add: ByteArray_new_def)

text \<open>
  (C10) Round trip: a sequence of typed values (fixed width integers in either byte order,
  zigzag and varint integers, floats, length-prefixed strings) that was written one after the other is
  read back, value by value, after \<^verbatim>\<open>setPosition\<close> to where it started. The values are those of \<open>ba_ok\<close>: varints of 64 bits
  whose value fits 32 bits and strings that are not empty and whose length fits the prefix. Doubles and \<^verbatim>\<open>StringVint\<close> are left out,
  because the code does not read back what it writes for them, nor 64 bit varints beyond 32 bits.
\<close>

theorem typed_values_roundtrip:
  assumes "ba_inv ba" and "\<forall>v\<in>set vs. ba_ok v" and "put_all ba_put ba vs = Inr ba1"
  shows "\<exists>ba2 ba3. ByteArray_setPosition ba1 (m_position ba) = Inr ba2
     \<and> get_all ba_get ba2 (map ba_kind_of vs) = Inr (vs, ba3) \<and> m_position ba3 = m_position ba1"
proof -
  let ?e = "m_endian ba"
  have app: "ba.appended ?e ba (concat (map (ba_enc ?e) vs)) ba1"
    using ba_codec.put_all_appended [of ba ?e] assms by simp
  from rewind [OF this assms(1)] obtain ba2 where
    s: "ByteArray_setPosition ba1 (m_position ba) = Inr ba2" "ba_inv ba2" "m_position ba2 = m_position ba"
      "m_size ba2 = m_size ba1" "flat ba2 = flat ba1" "m_endian ba2 = ?e" by metis
  then obtain ba3 where "get_all ba_get ba2 (map ba_kind_of vs) = Inr (vs, ba3)"
    "m_position ba3 = m_position ba1"
    using ba_codec.roundtrip [of ba ?e vs ba1 ba2] assms by auto
  with s(1) show ?thesis by blast
qed

theorem typed_values_roundtrip_witness:
  "\<exists>ba1 ba2 ba3.
     put_all ba_put (ByteArray_new (\<lambda>_. 0) 4) [V_Fint16 0x1234, V_Uint32 300, V_Int32 (- 5)] = Inr ba1
   \<and> ByteArray_setPosition ba1 0 = Inr ba2
   \<and> get_all ba_get ba2 [K_Fint16, K_Uint32, K_Int32]
       = Inr ([V_Fint16 0x1234, V_Uint32 300, V_Int32 (- 5)], ba3)
   \<and> m_position ba3 = m_position ba1"
proof -
  let ?ba = "ByteArray_new (\<lambda>_. 0 :: u8) 4"
  let ?vs = "[V_Fint16 0x1234, V_Uint32 300, V_Int32 (- 5)]"
  have "\<not> isl (put_all ba_put ?ba ?vs)" by code_simp
  then obtain ba1 where "put_all ba_put ?ba ?vs = Inr ba1" by (cases "put_all ba_put ?ba ?vs") auto
  moreover have "m_position ?ba = 0" by (simp add: ByteArray_new_def)
  ultimately show ?thesis
    using typed_values_roundtrip [OF ba_inv_new, of 4 ?vs "\<lambda>_. 0" ba1] by auto
qed

text \<open>
  \<^verbatim>\<open>setPosition\<close> within the capacity moves the position and keeps the stored bytes and
  the invariant, so that the current node is the node of the new position; beyond the
  capacity it throws \<^verbatim>\<open>out_of_range\<close>.
\<close>

theorem setPosition_moves:
  assumes "ba_inv ba"
  shows "case ByteArray_setPosition ba p of
      Inl err \<Rightarrow> p > m_capacity ba \<and> err = Out_Of_Range
    | Inr ba' \<Rightarrow> p \<le> m_capacity ba \<and> ba_inv ba' \<and> m_position ba' = p
        \<and> m_size ba' = max (m_size ba) p \<and> flat ba' = flat ba"
proof (cases "p \<le> m_capacity ba")
  case True
  obtain ba' where "ByteArray_setPosition ba p = Inr ba'" and "ba_inv ba'" and "m_position ba' = p"
    and "m_size ba' = max (m_size ba) p" and "flat ba' = flat ba"
    using setPosition_spec [OF assms True] by metis
  with True show ?thesis by simp
next
  case False
  then show ?thesis by (simp add: ByteArray_setPosition_def)
qed

theorem setPosition_moves_witness:
  "ba_inv (ByteArray_new (\<lambda>_. 0) 4) \<and> (case ByteArray_setPosition (ByteArray_new (\<lambda>_. 0) 4) 3 of
      Inl err \<Rightarrow> False | Inr ba' \<Rightarrow> ba_inv ba' \<and> m_position ba' = 3 \<and> m_size ba' = 3)"
proof -
  let ?ba = "ByteArray_new (\<lambda>_. 0 :: u8) 4"
  have inv: "ba_inv ?ba" by (simp add: ba_inv_new)
  have "m_size ?ba = 0" "m_capacity ?ba = 4" by (simp_all add: ByteArray_new_def)
  then show ?thesis
    using setPosition_moves [OF inv, of 3] inv by (cases "ByteArray_setPosition ?ba 3") auto
qed

text \<open>
  The varint writers stay within their local arrays \<^verbatim>\<open>tmp[5]\<close> and \<^verbatim>\<open>tmp[10]\<close>, and
  write at least one byte.
\<close>

theorem varint_fits_tmp:
  "varint32 v \<noteq> [] \<and> length (varint32 v) \<le> 5 \<and> varint64 w \<noteq> [] \<and> length (varint64 w) \<le> 10"
proof -
  have "unat v < 2 ^ (7 * 5)" by (rule order_less_le_trans [OF unsigned_less]) simp
  moreover have "unat w < 2 ^ (7 * 10)" by (rule order_less_le_trans [OF unsigned_less]) simp
  ultimately show ?thesis using length_varint32 [of v 5] length_varint64 [of w 10] by simp
qed

lemma varint64_read_back:
  assumes "ba_inv ba" and "ByteArray_write ba (varint64 v) = Inr ba1"
  shows "\<exists>ba2 ba3. ByteArray_setPosition ba1 (m_position ba) = Inr ba2
     \<and> ByteArray_readUint64 ba2 = Inr (ucast (ucast v :: u32), ba3)"
proof -
  let ?e = "m_endian ba"
  have app: "ba.appended ?e ba (varint64 v) ba1" using ba.put_appended [of ba ?e] assms by simp
  from rewind [OF this assms(1)] obtain ba2 where
    s: "ByteArray_setPosition ba1 (m_position ba) = Inr ba2" "ba_inv ba2" "m_position ba2 = m_position ba"
      "m_size ba2 = m_size ba1" "flat ba2 = flat ba1" by metis
  then have "ba.holds ba2 (m_position ba2) (varint64 v)"
    using app by (simp add: ba.appended_def ba.holds_def)
  with s show ?thesis using readUint64_consumed [OF s(2)] by blast
qed

text \<open>
  \<^verbatim>\<open>readUint64\<close> loses the upper half of what \<^verbatim>\<open>writeUint64\<close> wrote, because it
  accumulates in a \<^verbatim>\<open>uint32_t\<close>; \<^verbatim>\<open>writeInt64\<close> encodes only the low half of its argument, so
  \<^verbatim>\<open>readInt64\<close> gives the sign extension of that half.
\<close>

theorem varint64_keeps_low_half:
  assumes "ba_inv ba" and "ByteArray_writeUint64 ba v = Inr ba1"
    and "ByteArray_writeInt64 ba w = Inr bb1"
  shows "\<exists>ba2 ba3 bb2 bb3.
      ByteArray_setPosition ba1 (m_position ba) = Inr ba2
    \<and> ByteArray_readUint64 ba2 = Inr (ucast (ucast v :: u32), ba3)
    \<and> ByteArray_setPosition bb1 (m_position ba) = Inr bb2
    \<and> ByteArray_readInt64 bb2 = Inr (scast (ucast w :: u32), bb3)"
proof -
  let ?enc = "ucast (EncodeZigzag32 (ucast w)) :: u64"
  have w: "ByteArray_write ba (varint64 v) = Inr ba1" "ByteArray_write ba (varint64 ?enc) = Inr bb1"
    using assms(2,3) by (simp_all add: ByteArray_writeUint64_def ByteArray_writeInt64_def)
  obtain ba2 ba3 where "ByteArray_setPosition ba1 (m_position ba) = Inr ba2"
    "ByteArray_readUint64 ba2 = Inr (ucast (ucast v :: u32), ba3)"
    using varint64_read_back [OF assms(1) w(1)] by blast
  moreover obtain bb2 bb3 where "ByteArray_setPosition bb1 (m_position ba) = Inr bb2"
    "ByteArray_readUint64 bb2 = Inr (ucast (ucast ?enc :: u32), bb3)"
    using varint64_read_back [OF assms(1) w(2)] by blast
  moreover from this(2) have "ByteArray_readInt64 bb2 = Inr (scast (ucast w :: u32), bb3)"
    by (simp only: ByteArray_readInt64_def rbind_Inr ucast_down_up decode64_of_encode32 split_conv)
  ultimately show ?thesis by blast
qed

theorem varint64_keeps_low_half_witness:
  "\<exists>ba1 bb1 ba2 ba3 bb2 bb3.
      ByteArray_writeUint64 (ByteArray_new (\<lambda>_. 0) 16) 0x100000007 = Inr ba1
    \<and> ByteArray_writeInt64 (ByteArray_new (\<lambda>_. 0) 16) 0x80000000 = Inr bb1
    \<and> ByteArray_setPosition ba1 0 = Inr ba2 \<and> ByteArray_readUint64 ba2 = Inr (7, ba3)
    \<and> ByteArray_setPosition bb1 0 = Inr bb2 \<and> ByteArray_readInt64 bb2 = Inr (- 0x80000000, bb3)"
proof -
  let ?ba = "ByteArray_new (\<lambda>_. 0 :: u8) 16"
  have "\<not> isl (ByteArray_writeUint64 ?ba 0x100000007)" "\<not> isl (ByteArray_writeInt64 ?ba 0x80000000)"
    by code_simp+
  then obtain ba1 bb1 where b: "ByteArray_writeUint64 ?ba 0x100000007 = Inr ba1"
    "ByteArray_writeInt64 ?ba 0x80000000 = Inr bb1" by (metis isl_def sum.exhaust)
  have "(ucast (ucast (0x100000007 :: u64) :: u32) :: u64) = 7"
    "(scast (ucast (0x80000000 :: u64) :: u32) :: u64) = - 0x80000000" by code_simp+
  moreover have "m_position ?ba = 0" by (simp add: ByteArray_new_def)
  ultimately show ?thesis
    using b varint64_keeps_low_half [OF ba_inv_new b] by auto
qed

text \<open>
  \<^verbatim>\<open>readDouble\<close> never returns a value: whatever the array, it throws or copies eight
  bytes over a four byte variable. (\<^verbatim>\<open>writeDouble\<close> does write the eight bytes.)
\<close>

theorem readDouble_never_returns: "\<exists>err. ByteArray_readDouble ba = Inl err"
  by (cases "ByteArray_readFuint32 ba") (simp_all add: ByteArray_readDouble_def)

text \<open>
  The gather list of \<^verbatim>\<open>getReadBuffers\<close> points at exactly the next bytes of the content, in
  order and clipped to what is there, and the result is their number.
\<close>

theorem getReadBuffers_gathers:
  assumes "ba_inv ba"
  shows "\<exists>iovs. ByteArray_getReadBuffers ba n = Inr (iovs, min n (m_size ba - m_position ba))
       \<and> concat (map (iov_bytes ba) iovs) = take n (drop (m_position ba) (content ba))"
  using getReadBuffers_spec [OF assms, of n] by (simp add: ByteArray_getReadSize_def)

theorem getReadBuffers_gathers_witness:
  "ba_inv (ByteArray_new (\<lambda>_. 0) 4) \<and> ByteArray_getReadBuffers (ByteArray_new (\<lambda>_. 0) 4) 9
     = Inr ([], 0)"
  using getReadBuffers_gathers [OF ba_inv_new, of 4 "\<lambda>_. 0" 9]
  by (simp add: ba_inv_new ByteArray_getReadBuffers_def ByteArray_getReadSize_def)
     (simp add: ByteArray_new_def)

text \<open>
  \<^verbatim>\<open>writeToFile\<close> writes exactly the unread content when the position is at the start of a
  node or more than a node's size is left to read.
\<close>

theorem writeToFile_unread:
  assumes "ba_inv ba" and "m_position ba mod m_baseSize ba = 0 \<or> m_baseSize ba < m_size ba - m_position ba"
  shows "ByteArray_writeToFile ba True = Inr (True, drop (m_position ba) (content ba))"
  using writeToFile_spec [OF assms(1)] assms(2) by (simp add: ByteArray_getReadSize_def)

theorem writeToFile_unread_witness:
  "ba_inv (ByteArray_new (\<lambda>_. 0) 4) \<and> ByteArray_writeToFile (ByteArray_new (\<lambda>_. 0) 4) True = Inr (True, [])"
  using writeToFile_unread [OF ba_inv_new, of 4 "\<lambda>_. 0"]
  by (simp add: ba_inv_new) (simp add: ByteArray_new_def content_def)

text \<open>
  Elsewhere it does not: with two bytes left in the middle of a four byte node, the
  length of the first block is negative when fewer bytes are left than precede the position,
  and too short when not.
\<close>

theorem writeToFile_unaligned:
  assumes "ba_inv ba" and "m_size ba - m_position ba \<le> m_baseSize ba" and "m_position ba < m_size ba"
    and "m_size ba - m_position ba < m_position ba mod m_baseSize ba"
  shows "ByteArray_writeToFile ba True = Inl Negative_Count"
proof -
  let ?b = "m_baseSize ba" and ?p = "m_position ba" and ?n = "ByteArray_getReadSize ba"
  obtain c where c: "m_cur ba = Some c" using assms(1,3) by (auto simp: ba_inv_def)
  have "int ?p mod int ?b = int (?p mod ?b)" by (rule zmod_int [symmetric])
  moreover have "0 < int ?n" "int ?n \<le> int ?b" "int ?n < int (?p mod ?b)" "0 < ?b"
    using assms by (simp_all add: ByteArray_getReadSize_def)
  ultimately have "ByteArray_writeToFileLoop ba (Some c) (int ?p) (int ?n) = Inl Negative_Count"
    by (subst ByteArray_writeToFileLoop.simps) (simp add: Let_def)
  with c show ?thesis by (simp add: ByteArray_writeToFile_def)
qed

theorem writeToFile_unaligned_witness:
  "\<exists>ba. ba_inv ba \<and> m_size ba = 4 \<and> m_position ba = 3 \<and> m_baseSize ba = 4
      \<and> ByteArray_writeToFile ba True = Inl Negative_Count"
proof -
  let ?ba = "\<lparr>m_baseSize = 4, m_position = 3, m_capacity = 4, m_size = 4, m_endian = TINY_BIG_ENDIAN,
      m_nodes = [[1, 2, 3, 4]], m_cur = Some 0, m_heap = \<lambda>_. 0\<rparr> :: byte_array"
  have "ba_inv ?ba" by (simp add: ba_inv_def)
  from writeToFile_unaligned [OF this] show ?thesis using \<open>ba_inv ?ba\<close> by (intro exI [of _ ?ba]) simp
qed

text \<open>
  Round trip through a file: reading a file into a fresh array, moving to its start and
  writing it out gives the content of the file back.
\<close>

theorem file_roundtrip:
  assumes "0 < b"
  shows "\<exists>ba1 ba2. ByteArray_readFromFile (ByteArray_new heap b) (Some bs) = Inr (True, ba1)
     \<and> content ba1 = bs \<and> ByteArray_setPosition ba1 0 = Inr ba2
     \<and> ByteArray_writeToFile ba2 True = Inr (True, bs)"
proof -
  let ?ba = "ByteArray_new heap b"
  have n: "m_position ?ba = 0" "content ?ba = []" by (simp_all add: ByteArray_new_def content_def)
  obtain ba1 where r: "ByteArray_readFromFileLoop ?ba bs = Inr ba1" "ba_inv ba1" "content ba1 = bs"
    using readFromFileLoop_spec [OF ba_inv_new [OF assms], of heap bs] n by (auto simp: overwrite_def)
  obtain ba2 where s: "ByteArray_setPosition ba1 0 = Inr ba2" "ba_inv ba2" "m_position ba2 = 0"
    "m_size ba2 = m_size ba1" "flat ba2 = flat ba1"
    using setPosition_spec [OF r(2), of 0] by (metis max_0R zero_le)
  then have "ByteArray_writeToFile ba2 True = Inr (True, content ba2)"
    using writeToFile_spec [OF s(2)] by simp
  moreover have "content ba2 = bs" using s r(3) by (simp add: content_def)
  ultimately show ?thesis using r s(1) by (simp add: ByteArray_readFromFile_def)
qed

theorem file_roundtrip_witness:
  "\<exists>ba1 ba2. ByteArray_readFromFile (ByteArray_new (\<lambda>_. 0) 2) (Some [1, 2, 3]) = Inr (True, ba1)
     \<and> content ba1 = [1, 2, 3] \<and> ByteArray_setPosition ba1 0 = Inr ba2
     \<and> ByteArray_writeToFile ba2 True = Inr (True, [1, 2, 3])"
  by (rule file_roundtrip) simp

end
