(* ===== verification/Fd_Manager.thy ===== *)
theory Fd_Manager
  imports Tiny_Prelude
begin

text \<open>
  Model of \<^verbatim>\<open>src/src/fd_manager.h\<close> and \<^verbatim>\<open>src/src/fd_manager.cpp\<close>: the table of
  descriptor contexts the hooked system calls consult. The kernel's view of a descriptor (what \<^verbatim>\<open>fstat\<close>
  says and its status flags) is the record \<open>fd_kernel\<close>.
\<close>

unbundle bit_operations_syntax

section \<open>Contexts\<close>

text \<open>\<^verbatim>\<open>fstat\<close> fails, or says whether the descriptor is a socket.\<close>

record fd_kernel =
  k_fstat :: "int \<Rightarrow> bool option"
  k_flags :: "int \<Rightarrow> u32"

definition O_NONBLOCK :: u32 where "O_NONBLOCK = 0x800"

record fd_ctx =
  fc_isInit :: bool
  fc_isSocket :: bool
  fc_sysNonblock :: bool
  fc_userNonblock :: bool
  fc_isClose :: bool
  fc_fd :: int
  fc_recvTimeout :: u64
  fc_sendTimeout :: u64

definition FdCtx_init :: "fd_ctx \<Rightarrow> fd_kernel \<Rightarrow> bool \<times> fd_ctx \<times> fd_kernel" where
  "FdCtx_init c k =
     (if fc_isInit c then (True, c, k)
      else
        let c1 = c\<lparr>fc_recvTimeout := - 1, fc_sendTimeout := - 1\<rparr>;
            c2 = (case k_fstat k (fc_fd c1) of
                    None \<Rightarrow> c1\<lparr>fc_isInit := False, fc_isSocket := False\<rparr>
                  | Some sock \<Rightarrow> c1\<lparr>fc_isInit := True, fc_isSocket := sock\<rparr>);
            (c3, k3) =
              (if fc_isSocket c2 then
                 (let flag = k_flags k (fc_fd c2) in
                  (c2\<lparr>fc_sysNonblock := True\<rparr>,
                   if flag AND O_NONBLOCK = 0
                   then k\<lparr>k_flags := (k_flags k)(fc_fd c2 := flag OR O_NONBLOCK)\<rparr> else k))
               else (c2\<lparr>fc_sysNonblock := False\<rparr>, k));
            c4 = c3\<lparr>fc_userNonblock := False, fc_isClose := False\<rparr>
        in (fc_isInit c4, c4, k3))"

definition FdCtx_new :: "int \<Rightarrow> fd_kernel \<Rightarrow> fd_ctx \<times> fd_kernel" where
  "FdCtx_new fd k =
     snd (FdCtx_init \<lparr>fc_isInit = False, fc_isSocket = False, fc_sysNonblock = False, fc_userNonblock = False,
                      fc_isClose = False, fc_fd = fd, fc_recvTimeout = - 1, fc_sendTimeout = - 1\<rparr> k)"

text \<open>\<^verbatim>\<open>SO_RCVTIMEO\<close> against any other type.\<close>

definition FdCtx_setTimeout :: "bool \<Rightarrow> u64 \<Rightarrow> fd_ctx \<Rightarrow> fd_ctx" where
  "FdCtx_setTimeout is_rcv v c = (if is_rcv then c\<lparr>fc_recvTimeout := v\<rparr> else c\<lparr>fc_sendTimeout := v\<rparr>)"

definition FdCtx_getTimeout :: "bool \<Rightarrow> fd_ctx \<Rightarrow> u64" where
  "FdCtx_getTimeout is_rcv c = (if is_rcv then fc_recvTimeout c else fc_sendTimeout c)"

section \<open>The table\<close>

type_synonym fd_table = "fd_ctx option list"

definition FdManager_new :: fd_table where
  "FdManager_new = replicate 64 None"

datatype fd_error = Fd_Bad_Index

definition table_resize :: "nat \<Rightarrow> fd_table \<Rightarrow> fd_table" where
  "table_resize n t = take n t @ replicate (n - length t) None"

definition FdManager_get ::
    "int \<Rightarrow> bool \<Rightarrow> fd_table \<Rightarrow> fd_kernel \<Rightarrow> fd_error + (fd_ctx option \<times> fd_table \<times> fd_kernel)" where
  "FdManager_get fd auto_create t k =
     (if fd = - 1 then Inr (None, t, k)
      else if int (length t) \<le> fd \<and> \<not> auto_create then Inr (None, t, k)
      else if fd < 0 then Inl Fd_Bad_Index
      else if \<not> int (length t) \<le> fd \<and> (t ! nat fd \<noteq> None \<or> \<not> auto_create) then Inr (t ! nat fd, t, k)
      else
        let (ctx, k') = FdCtx_new fd k;
            t1 = (if fd \<ge> int (length t) then table_resize (nat (fd * 3 div 2)) t else t)
        in if nat fd \<ge> length t1 then Inl Fd_Bad_Index
           else Inr (Some ctx, t1[nat fd := Some ctx], k'))"

definition FdManager_del :: "int \<Rightarrow> fd_table \<Rightarrow> fd_error + fd_table" where
  "FdManager_del fd t =
     (if int (length t) \<le> fd then Inr t
      else if fd < 0 then Inl Fd_Bad_Index
      else Inr (t[nat fd := None]))"

section \<open>The table as a map\<close>

text \<open>What the hooks rely on: a map from descriptors to contexts.\<close>

locale ctx_table =
  fixes look :: "int \<Rightarrow> 't \<Rightarrow> 'c option"
    and make :: "int \<Rightarrow> 't \<Rightarrow> 'k \<Rightarrow> 't \<times> 'k"
    and drop_fd :: "int \<Rightarrow> 't \<Rightarrow> 't"
    and fresh :: "int \<Rightarrow> 'k \<Rightarrow> 'c"
    and invar :: "'t \<Rightarrow> bool"
  assumes look_make: "invar t \<Longrightarrow> 0 \<le> fd \<Longrightarrow> 0 \<le> fd' \<Longrightarrow>
      look fd' (fst (make fd t k)) =
        (if fd' = fd then Some (case look fd t of None \<Rightarrow> fresh fd k | Some c \<Rightarrow> c) else look fd' t)"
    and look_drop: "invar t \<Longrightarrow> 0 \<le> fd \<Longrightarrow> 0 \<le> fd' \<Longrightarrow>
      look fd' (drop_fd fd t) = (if fd' = fd then None else look fd' t)"
    and make_invar: "invar t \<Longrightarrow> 0 \<le> fd \<Longrightarrow> invar (fst (make fd t k))"
    and drop_invar: "invar t \<Longrightarrow> 0 \<le> fd \<Longrightarrow> invar (drop_fd fd t)"
begin

text \<open>A descriptor number that is closed and handed out again gets a fresh context.\<close>

lemma reuse_is_fresh:
  assumes "invar t" and "0 \<le> fd"
  shows "look fd (fst (make fd (drop_fd fd t) k)) = Some (fresh fd k)"
  using assms look_make [of "drop_fd fd t" fd fd k] look_drop [of t fd fd] drop_invar by simp

lemma make_idempotent:
  assumes "invar t" and "0 \<le> fd" and "look fd t = Some c"
  shows "look fd (fst (make fd t k)) = Some c"
  using assms look_make [of t fd fd k] by simp

end

definition fd_look :: "int \<Rightarrow> fd_table \<Rightarrow> fd_ctx option" where
  "fd_look fd t = (if fd < int (length t) then t ! nat fd else None)"

definition fd_make :: "int \<Rightarrow> fd_table \<Rightarrow> fd_kernel \<Rightarrow> fd_table \<times> fd_kernel" where
  "fd_make fd t k = (case FdManager_get fd True t k of Inl _ \<Rightarrow> (t, k) | Inr (_, t', k') \<Rightarrow> (t', k'))"

definition fd_drop :: "int \<Rightarrow> fd_table \<Rightarrow> fd_table" where
  "fd_drop fd t = (case FdManager_del fd t of Inl _ \<Rightarrow> t | Inr t' \<Rightarrow> t')"

lemma nth_table_resize:
  "i < n \<Longrightarrow> length t \<le> n \<Longrightarrow> table_resize n t ! i = (if i < length t then t ! i else None)"
  by (simp add: table_resize_def nth_append)

lemma length_table_resize [simp]: "length t \<le> n \<Longrightarrow> length (table_resize n t) = n"
  by (simp add: table_resize_def)

text \<open>Creating never fails: the grown table has room for the descriptor.\<close>

lemma get_create:
  assumes "64 \<le> length t" and "0 \<le> fd"
  shows "\<exists>t' k'. FdManager_get fd True t k
      = Inr (Some (case fd_look fd t of None \<Rightarrow> fst (FdCtx_new fd k) | Some c \<Rightarrow> c), t', k')
    \<and> length t \<le> length t'
    \<and> (\<forall>fd'\<ge>0. fd_look fd' t' =
         (if fd' = fd then Some (case fd_look fd t of None \<Rightarrow> fst (FdCtx_new fd k) | Some c \<Rightarrow> c) else fd_look fd' t))"
proof (cases "fd < int (length t)")
  case True
  then show ?thesis
    using assms
    by (cases "t ! nat fd")
       (auto simp: FdManager_get_def fd_look_def split_beta nat_less_iff nth_list_update eq_nat_nat_iff)
next
  case False
  let ?n = "nat (fd * 3 div 2)"
  have big: "64 \<le> fd" using False assms(1) by linarith
  then have n: "nat fd < ?n" and le: "length t \<le> ?n" using False by linarith+
  let ?c = "fst (FdCtx_new fd k)"
  let ?t = "(table_resize ?n t)[nat fd := Some ?c]"
  have "FdManager_get fd True t k = Inr (Some ?c, ?t, snd (FdCtx_new fd k))"
    using False big n le by (simp add: FdManager_get_def split_beta)
  moreover have "fd_look fd' ?t = (if fd' = fd then Some ?c else fd_look fd' t)" if "0 \<le> fd'" for fd'
  proof (cases "fd' < int ?n")
    case True
    then have "nat fd' < ?n" using that by linarith
    then show ?thesis
      using that big n le True
      by (auto simp: fd_look_def nth_list_update nth_table_resize eq_nat_nat_iff nat_less_iff)
  next
    case False
    then have ne: "fd' \<noteq> fd" and out: "\<not> fd' < int (length t)" using n le by linarith+
    have "\<not> fd' < int (length ?t)" using False le by simp
    then show ?thesis unfolding fd_look_def using ne out by presburger
  qed
  moreover have "fd_look fd t = None" using False by (simp add: fd_look_def)
  ultimately show ?thesis using le by auto
qed

lemma del_spec:
  assumes "0 \<le> fd"
  shows "\<exists>t'. FdManager_del fd t = Inr t' \<and> length t' = length t
    \<and> (\<forall>fd'\<ge>0. fd_look fd' t' = (if fd' = fd then None else fd_look fd' t))"
  using assms by (auto simp: FdManager_del_def fd_look_def nth_list_update nat_less_iff eq_nat_nat_iff)

interpretation fds: ctx_table fd_look fd_make fd_drop "\<lambda>fd k. fst (FdCtx_new fd k)" "\<lambda>t. 64 \<le> length t"
proof
  fix t :: fd_table and fd fd' :: int and k
  assume inv: "64 \<le> length t" and fd: "0 \<le> fd"
  obtain t' k' where g: "FdManager_get fd True t k
      = Inr (Some (case fd_look fd t of None \<Rightarrow> fst (FdCtx_new fd k) | Some c \<Rightarrow> c), t', k')"
    "length t \<le> length t'"
    "\<forall>fd'\<ge>0. fd_look fd' t' =
         (if fd' = fd then Some (case fd_look fd t of None \<Rightarrow> fst (FdCtx_new fd k) | Some c \<Rightarrow> c) else fd_look fd' t)"
    using get_create [OF inv fd, of k] by blast
  show "64 \<le> length (fst (fd_make fd t k))" using g(1,2) inv by (simp add: fd_make_def)
  obtain t'' where d: "FdManager_del fd t = Inr t''" "length t'' = length t"
    "\<forall>fd'\<ge>0. fd_look fd' t'' = (if fd' = fd then None else fd_look fd' t)"
    using del_spec [OF fd, of t] by blast
  show "64 \<le> length (fd_drop fd t)" using d inv by (simp add: fd_drop_def)
  assume "0 \<le> fd'"
  with g(1,3) show "fd_look fd' (fst (fd_make fd t k)) =
        (if fd' = fd then Some (case fd_look fd t of None \<Rightarrow> fst (FdCtx_new fd k) | Some c \<Rightarrow> c) else fd_look fd' t)"
    by (simp add: fd_make_def)
  from d \<open>0 \<le> fd'\<close> show "fd_look fd' (fd_drop fd t) = (if fd' = fd then None else fd_look fd' t)"
    by (simp add: fd_drop_def)
qed

text \<open>A context of a socket is created non-blocking in the kernel and blocking for the user.\<close>

lemma FdCtx_new_socket:
  assumes "k_fstat k fd = Some True"
  shows "fc_isSocket (fst (FdCtx_new fd k)) \<and> fc_sysNonblock (fst (FdCtx_new fd k))
    \<and> \<not> fc_userNonblock (fst (FdCtx_new fd k)) \<and> \<not> fc_isClose (fst (FdCtx_new fd k))
    \<and> fc_recvTimeout (fst (FdCtx_new fd k)) = - 1 \<and> fc_sendTimeout (fst (FdCtx_new fd k)) = - 1
    \<and> k_flags (snd (FdCtx_new fd k)) fd AND O_NONBLOCK \<noteq> 0"
  using assms by (auto simp: FdCtx_new_def FdCtx_init_def Let_def bit.conj_disj_distrib2 O_NONBLOCK_def)

section \<open>Properties\<close>

text \<open>
  The descriptor table: from a table of at least 64 entries, \<^verbatim>\<open>get\<close> with creation always
  returns a context (growing the table where needed), and a descriptor that was dropped and is created
  again gets a context as new: a socket is non-blocking in the kernel, blocking for the user and
  without timeouts, whatever its predecessor had set.
\<close>

theorem fd_reuse_fresh:
  assumes "64 \<le> length t" and "0 \<le> fd" and "k_fstat k fd = Some True"
  shows "\<exists>t1 c t2 k2. FdManager_del fd t = Inr t1 \<and> FdManager_get fd True t1 k = Inr (Some c, t2, k2)
    \<and> fd_look fd t2 = Some c \<and> fc_isSocket c \<and> fc_sysNonblock c \<and> \<not> fc_userNonblock c
    \<and> fc_recvTimeout c = - 1 \<and> fc_sendTimeout c = - 1
    \<and> (\<forall>fd'\<ge>0. fd' \<noteq> fd \<longrightarrow> fd_look fd' t2 = fd_look fd' t)"
proof -
  let ?c = "fst (FdCtx_new fd k)"
  obtain t1 where d: "FdManager_del fd t = Inr t1" "length t1 = length t"
    and look1: "\<forall>fd'\<ge>0. fd_look fd' t1 = (if fd' = fd then None else fd_look fd' t)"
    using del_spec [OF assms(2), of t] by blast
  have t1: "t1 = fd_drop fd t" using d by (simp add: fd_drop_def)
  obtain t2 k2 where g: "FdManager_get fd True t1 k = Inr (Some ?c, t2, k2)"
    and look2: "\<forall>fd'\<ge>0. fd_look fd' t2 = (if fd' = fd then Some ?c else fd_look fd' t1)"
    using get_create [of t1 fd k] assms d(2) look1 by auto
  have "fd_look fd t2 = Some ?c"
    using fds.reuse_is_fresh [OF assms(1,2), of k] g by (simp add: fd_make_def t1)
  then show ?thesis using d(1) g look1 look2 FdCtx_new_socket [OF assms(3)] by auto
qed

theorem fd_reuse_fresh_witness:
  "\<exists>t1 c t2 k2. FdManager_del 100 FdManager_new = Inr t1
     \<and> FdManager_get 100 True t1 \<lparr>k_fstat = (\<lambda>_. Some True), k_flags = (\<lambda>_. 2)\<rparr> = Inr (Some c, t2, k2)
     \<and> fd_look 100 t2 = Some c \<and> fc_sysNonblock c"
  using fd_reuse_fresh [of FdManager_new 100 "\<lparr>k_fstat = (\<lambda>_. Some True), k_flags = (\<lambda>_. 2)\<rparr>"]
  by (auto simp: FdManager_new_def)

end
