(* ===== verification/Fiber.thy ===== *)
theory Fiber
  imports Tiny_Prelude
begin

text \<open>
  Model of \<^verbatim>\<open>src/src/fiber.h\<close> and \<^verbatim>\<open>src/src/fiber.cpp\<close>: coroutines over
  \<^verbatim>\<open>ucontext\<close>. Fibers live at addresses of a heap shared by all threads; each thread has
  its thread-local variables and the context it executes.

  A \<^verbatim>\<open>swapcontext(a, b)\<close> is the change of the executed context from the fiber of \<open>a\<close> to
  the fiber of \<open>b\<close>: what a user function does between two switches is not part of this model, only
  how it stops (it yields, returns or throws). A failed \<^verbatim>\<open>TINY_ASSERT\<close> is the error
  \<open>Assertion_Failed\<close>; a dereferenced null pointer is \<open>Null_Fiber\<close>.
\<close>

section \<open>State\<close>

datatype fiber_state = Fiber_INIT | Fiber_HOLD | Fiber_EXEC | Fiber_TERM | Fiber_READY | Fiber_EXCEPT

text \<open>
  Where the context of a fiber stands: in a thread's own code, in \<^verbatim>\<open>MainFunc\<close> or \<^verbatim>\<open>CallerMainFunc\<close> (before or inside \<^verbatim>\<open>m_cb()\<close>), or
  behind the last switch of its main function, where only the assertion \<^verbatim>\<open>never reach\<close> is left.
\<close>

datatype fiber_entry = Entry_None | Entry_MainFunc | Entry_CallerMainFunc | Entry_Ended

record 'cb fiber =
  fb_id :: u64
  fb_stacksize :: u32
  fb_state :: fiber_state
  fb_stack :: bool
  fb_entry :: fiber_entry
  fb_cb :: "'cb option"

record 'cb fiber_world =
  fw_heap :: "nat \<Rightarrow> 'cb fiber option"
  s_fiber_id :: u64
  s_fiber_count :: u64

text \<open>
  The thread-local variables: \<^verbatim>\<open>t_fiber\<close> and \<^verbatim>\<open>t_threadFiber\<close> of \<^verbatim>\<open>fiber.cpp\<close>,
  \<^verbatim>\<open>t_fiber\<close> of \<^verbatim>\<open>scheduler.cpp\<close> (\<^verbatim>\<open>Scheduler::GetMainFiber()\<close>), and the fiber whose context the
  thread executes (none before the thread has made its first one).
\<close>

record fiber_thread =
  tl_fiber :: "nat option"
  tl_threadFiber :: "nat option"
  tl_mainFiber :: "nat option"
  tl_context :: "nat option"

text \<open>\<open>Not_A_Main_Function\<close>: a thread's own code has no main function of a fiber that could end.\<close>

datatype fiber_error = Assertion_Failed | Null_Fiber | Not_A_Main_Function

type_synonym 'cb fctx = "'cb fiber_world \<times> fiber_thread"

definition set_state :: "nat \<Rightarrow> fiber_state \<Rightarrow> 'cb fiber_world \<Rightarrow> 'cb fiber_world" where
  "set_state p s w = w\<lparr>fw_heap := (fw_heap w)(p := map_option (fb_state_update (\<lambda>_. s)) (fw_heap w p))\<rparr>"

definition state_of :: "'cb fiber_world \<Rightarrow> nat \<Rightarrow> fiber_state option" where
  "state_of w p = map_option fb_state (fw_heap w p)"

section \<open>Operations\<close>

definition Fiber_SetThis :: "nat option \<Rightarrow> fiber_thread \<Rightarrow> fiber_thread" where
  "Fiber_SetThis f th = th\<lparr>tl_fiber := f\<rparr>"

text \<open>The default constructor makes the fiber of the thread's own context; it has no stack.\<close>

definition Fiber_new_main :: "nat \<Rightarrow> 'cb fctx \<Rightarrow> 'cb fctx" where
  "Fiber_new_main p = (\<lambda>(w, th).
     (w\<lparr>fw_heap := (fw_heap w)(p \<mapsto> \<lparr>fb_id = 0, fb_stacksize = 0, fb_state = Fiber_EXEC, fb_stack = False,
                                      fb_entry = Entry_None, fb_cb = None\<rparr>),
        s_fiber_count := s_fiber_count w + 1\<rparr>,
      (Fiber_SetThis (Some p) th)\<lparr>tl_context := Some p\<rparr>))"

text \<open>
  \<open>config_size\<close> is the value of the configuration \<^verbatim>\<open>fiber.stack.size\<close>. The condition of the
  stack size reads the member, which is still zero, not the argument.
\<close>

definition Fiber_new ::
    "u32 \<Rightarrow> nat \<Rightarrow> 'cb option \<Rightarrow> u32 \<Rightarrow> bool \<Rightarrow> 'cb fiber_world \<Rightarrow> 'cb fiber_world" where
  "Fiber_new config_size p cb stacksize use_call w =
     (let m_stacksize = 0 :: u32;
          size = (if m_stacksize \<noteq> 0 then stacksize else config_size)
      in w\<lparr>s_fiber_id := s_fiber_id w + 1, s_fiber_count := s_fiber_count w + 1,
           fw_heap := (fw_heap w)(p \<mapsto>
             \<lparr>fb_id = s_fiber_id w + 1, fb_stacksize = size, fb_state = Fiber_INIT, fb_stack = True,
              fb_entry = (if use_call then Entry_CallerMainFunc else Entry_MainFunc), fb_cb = cb\<rparr>)\<rparr>)"

definition Fiber_destroy :: "nat \<Rightarrow> 'cb fctx \<Rightarrow> fiber_error + 'cb fctx" where
  "Fiber_destroy p = (\<lambda>(w, th).
     case fw_heap w p of
       None \<Rightarrow> Inl Null_Fiber
     | Some f \<Rightarrow>
         let w' = w\<lparr>s_fiber_count := s_fiber_count w - 1, fw_heap := (fw_heap w)(p := None)\<rparr> in
         if fb_stack f then
           (if fb_state f = Fiber_TERM \<or> fb_state f = Fiber_INIT \<or> fb_state f = Fiber_EXCEPT then Inr (w', th)
            else Inl Assertion_Failed)
         else if fb_cb f \<noteq> None then Inl Assertion_Failed
         else if fb_state f \<noteq> Fiber_EXEC then Inl Assertion_Failed
         else Inr (w', if tl_fiber th = Some p then Fiber_SetThis None th else th))"

definition Fiber_reset :: "nat \<Rightarrow> 'cb option \<Rightarrow> 'cb fiber_world \<Rightarrow> fiber_error + 'cb fiber_world" where
  "Fiber_reset p cb w =
     (case fw_heap w p of
        None \<Rightarrow> Inl Null_Fiber
      | Some f \<Rightarrow>
          if \<not> fb_stack f then Inl Assertion_Failed
          else if \<not> (fb_state f = Fiber_INIT \<or> fb_state f = Fiber_TERM \<or> fb_state f = Fiber_EXCEPT)
          then Inl Assertion_Failed
          else Inr (w\<lparr>fw_heap := (fw_heap w)
                 (p \<mapsto> f\<lparr>fb_cb := cb, fb_entry := Entry_MainFunc, fb_state := Fiber_INIT\<rparr>)\<rparr>))"

text \<open>
  \<^verbatim>\<open>swapcontext(&from->m_context, &to->m_context)\<close>: both pointers must be valid; the thread
  goes on in the context of \<open>to\<close>.
\<close>

definition swapcontext :: "nat option \<Rightarrow> nat option \<Rightarrow> 'cb fctx \<Rightarrow> fiber_error + 'cb fctx" where
  "swapcontext from to = (\<lambda>(w, th).
     if from = None \<or> to = None then Inl Null_Fiber
     else if fw_heap w (the from) = None \<or> fw_heap w (the to) = None then Inl Null_Fiber
     else Inr (w, th\<lparr>tl_context := to\<rparr>))"

definition Fiber_swapIn :: "nat \<Rightarrow> 'cb fctx \<Rightarrow> fiber_error + 'cb fctx" where
  "Fiber_swapIn p = (\<lambda>(w, th).
     let th' = Fiber_SetThis (Some p) th in
     if state_of w p = Some Fiber_EXEC then Inl Assertion_Failed
     else swapcontext (tl_mainFiber th') (Some p) (set_state p Fiber_EXEC w, th'))"

definition Fiber_swapOut :: "nat \<Rightarrow> 'cb fctx \<Rightarrow> fiber_error + 'cb fctx" where
  "Fiber_swapOut p = (\<lambda>(w, th).
     let th' = Fiber_SetThis (tl_mainFiber th) th in swapcontext (Some p) (tl_mainFiber th') (w, th'))"

definition Fiber_call :: "nat \<Rightarrow> 'cb fctx \<Rightarrow> fiber_error + 'cb fctx" where
  "Fiber_call p = (\<lambda>(w, th).
     let th' = Fiber_SetThis (Some p) th
     in swapcontext (tl_threadFiber th') (Some p) (set_state p Fiber_EXEC w, th'))"

definition Fiber_back :: "nat \<Rightarrow> 'cb fctx \<Rightarrow> fiber_error + 'cb fctx" where
  "Fiber_back p = (\<lambda>(w, th).
     let th' = Fiber_SetThis (tl_threadFiber th) th in swapcontext (Some p) (tl_threadFiber th') (w, th'))"

text \<open>\<open>p\<close> is the address the main fiber gets if this is the first call on the thread.\<close>

definition Fiber_GetThis :: "nat \<Rightarrow> 'cb fctx \<Rightarrow> nat \<times> 'cb fctx" where
  "Fiber_GetThis p = (\<lambda>(w, th).
     case tl_fiber th of
       Some f \<Rightarrow> (f, w, th)
     | None \<Rightarrow> (case Fiber_new_main p (w, th) of (w', th') \<Rightarrow> (p, w', th'\<lparr>tl_threadFiber := Some p\<rparr>)))"

definition Fiber_YieldToReady :: "nat \<Rightarrow> 'cb fctx \<Rightarrow> fiber_error + 'cb fctx" where
  "Fiber_YieldToReady p c =
     (case Fiber_GetThis p c of (cur, w, th) \<Rightarrow> Fiber_swapOut cur (set_state cur Fiber_READY w, th))"

text \<open>The assignment of \<^verbatim>\<open>HOLD\<close> is commented out: the fiber leaves in state \<^verbatim>\<open>EXEC\<close>.\<close>

definition Fiber_YieldToHold :: "nat \<Rightarrow> 'cb fctx \<Rightarrow> fiber_error + 'cb fctx" where
  "Fiber_YieldToHold p c =
     (case Fiber_GetThis p c of (cur, w, th) \<Rightarrow>
        if state_of w cur \<noteq> Some Fiber_EXEC then Inl Assertion_Failed else Fiber_swapOut cur (w, th))"

definition Fiber_TotalFibers :: "'cb fiber_world \<Rightarrow> u64" where
  "Fiber_TotalFibers w = s_fiber_count w"

definition Fiber_GetFiberId :: "'cb fctx \<Rightarrow> u64" where
  "Fiber_GetFiberId = (\<lambda>(w, th).
     case tl_fiber th of None \<Rightarrow> 0 | Some f \<Rightarrow> (case fw_heap w f of None \<Rightarrow> 0 | Some fb \<Rightarrow> fb_id fb))"

text \<open>
  The end of a fiber's main function, after \<^verbatim>\<open>m_cb()\<close> has returned (\<open>thrown = False\<close>) or thrown
  a \<^verbatim>\<open>std::exception\<close>: the state is recorded and the thread goes back; the context of the fiber stays in
  front of the final assertion. An empty \<^verbatim>\<open>m_cb\<close> throws \<^verbatim>\<open>bad_function_call\<close>.
\<close>

definition finish_cb :: "nat \<Rightarrow> bool \<Rightarrow> 'cb fiber_world \<Rightarrow> 'cb fiber_world" where
  "finish_cb cur thrown w =
     (case fw_heap w cur of
        None \<Rightarrow> w
      | Some f \<Rightarrow>
          if thrown \<or> fb_cb f = None
          then w\<lparr>fw_heap := (fw_heap w)(cur \<mapsto> f\<lparr>fb_state := Fiber_EXCEPT, fb_entry := Entry_Ended\<rparr>)\<rparr>
          else w\<lparr>fw_heap := (fw_heap w)(cur \<mapsto> f\<lparr>fb_cb := None, fb_state := Fiber_TERM, fb_entry := Entry_Ended\<rparr>)\<rparr>)"

definition Fiber_MainFunc :: "nat \<Rightarrow> bool \<Rightarrow> 'cb fctx \<Rightarrow> fiber_error + 'cb fctx" where
  "Fiber_MainFunc p thrown c =
     (case Fiber_GetThis p c of (cur, w, th) \<Rightarrow> Fiber_swapOut cur (finish_cb cur thrown w, th))"

definition Fiber_CallerMainFunc :: "nat \<Rightarrow> bool \<Rightarrow> 'cb fctx \<Rightarrow> fiber_error + 'cb fctx" where
  "Fiber_CallerMainFunc p thrown c =
     (case Fiber_GetThis p c of (cur, w, th) \<Rightarrow> Fiber_back cur (finish_cb cur thrown w, th))"

section \<open>Switching\<close>

lemma state_of_set_state [simp]:
  "state_of (set_state p s w) q = (if q = p then map_option (\<lambda>_. s) (state_of w p) else state_of w q)"
  by (auto simp: state_of_def set_state_def option.map_comp comp_def)

lemma fw_heap_set_state_None [simp]: "fw_heap (set_state p s w) q = None \<longleftrightarrow> fw_heap w q = None"
  by (auto simp: set_state_def)

text \<open>The thread executes the fiber that \<^verbatim>\<open>t_fiber\<close> says.\<close>

definition in_sync :: "fiber_thread \<Rightarrow> bool" where
  "in_sync th \<longleftrightarrow> tl_context th = tl_fiber th"

lemmas switch_defs = Fiber_swapIn_def Fiber_swapOut_def Fiber_call_def Fiber_back_def swapcontext_def
  Fiber_SetThis_def Let_def in_sync_def

lemma switches_in_sync:
  "Fiber_swapIn p c = Inr (w', th') \<Longrightarrow> in_sync th'"
  "Fiber_swapOut p c = Inr (w', th') \<Longrightarrow> in_sync th'"
  "Fiber_call p c = Inr (w', th') \<Longrightarrow> in_sync th'"
  "Fiber_back p c = Inr (w', th') \<Longrightarrow> in_sync th'"
  by (cases c; auto simp: switch_defs split: if_splits)+

text \<open>
  How the code of a fiber can stop running, once the thread has switched into it: it yields, or its callback returns or throws and
  the main function it was made with ends. A fiber that had ended before runs into the assertion behind the switch.
\<close>

datatype fiber_stop = Stop_Ready | Stop_Hold | Stop_Return | Stop_Throw

definition Fiber_end :: "fiber_entry \<Rightarrow> bool \<Rightarrow> 'cb fctx \<Rightarrow> fiber_error + 'cb fctx" where
  "Fiber_end entry thrown c =
     (case entry of
        Entry_MainFunc \<Rightarrow> Fiber_MainFunc 0 thrown c
      | Entry_CallerMainFunc \<Rightarrow> Fiber_CallerMainFunc 0 thrown c
      | _ \<Rightarrow> Inl Not_A_Main_Function)"

definition Fiber_stop :: "fiber_stop \<Rightarrow> 'cb fctx \<Rightarrow> fiber_error + 'cb fctx" where
  "Fiber_stop s c =
     (case Option.bind (tl_fiber (snd c)) (fw_heap (fst c)) of
        None \<Rightarrow> Inl Null_Fiber
      | Some f \<Rightarrow>
          if fb_entry f = Entry_Ended then Inl Assertion_Failed
          else case s of
              Stop_Ready \<Rightarrow> Fiber_YieldToReady 0 c
            | Stop_Hold \<Rightarrow> Fiber_YieldToHold 0 c
            | Stop_Return \<Rightarrow> Fiber_end (fb_entry f) False c
            | Stop_Throw \<Rightarrow> Fiber_end (fb_entry f) True c)"

fun stop_state :: "fiber_stop \<Rightarrow> 'cb option \<Rightarrow> fiber_state" where
  "stop_state Stop_Ready _ = Fiber_READY"
| "stop_state Stop_Hold _ = Fiber_EXEC"
| "stop_state Stop_Return (Some _) = Fiber_TERM"
| "stop_state Stop_Return None = Fiber_EXCEPT"
| "stop_state Stop_Throw _ = Fiber_EXCEPT"

definition stops_for_good :: "fiber_stop \<Rightarrow> bool" where
  "stops_for_good s \<longleftrightarrow> s = Stop_Return \<or> s = Stop_Throw"

text \<open>
  Where the thread goes on: a yield goes to the scheduler's fiber \<open>m\<close>; so does the end of \<^verbatim>\<open>MainFunc\<close>, while \<^verbatim>\<open>CallerMainFunc\<close> goes back to the
  thread's own fiber \<open>r\<close>.
\<close>

definition stop_target :: "fiber_stop \<Rightarrow> fiber_entry \<Rightarrow> nat \<Rightarrow> nat \<Rightarrow> nat" where
  "stop_target s entry m r = (if stops_for_good s \<and> entry = Entry_CallerMainFunc then r else m)"

lemma swapIn_ok:
  assumes "tl_mainFiber th = Some m" and "fw_heap w m \<noteq> None" and "fw_heap w p = Some f"
    and "fb_state f \<noteq> Fiber_EXEC"
  shows "Fiber_swapIn p (w, th)
       = Inr (set_state p Fiber_EXEC w, th\<lparr>tl_fiber := Some p, tl_context := Some p\<rparr>)"
  using assms by (auto simp: switch_defs state_of_def)

lemmas stop_defs = Fiber_stop_def Fiber_end_def Fiber_YieldToReady_def Fiber_YieldToHold_def Fiber_MainFunc_def Fiber_CallerMainFunc_def
  Fiber_GetThis_def finish_cb_def switch_defs state_of_def set_state_def stop_target_def stops_for_good_def

lemma stop_ok:
  assumes "tl_mainFiber th = Some m" "fw_heap w m \<noteq> None" "tl_threadFiber th = Some r" "fw_heap w r \<noteq> None"
    and "tl_fiber th = Some p" "fw_heap w p = Some f" "fb_state f = Fiber_EXEC"
    and "fb_entry f = Entry_MainFunc \<or> fb_entry f = Entry_CallerMainFunc"
  shows "\<exists>w' f'. Fiber_stop s (w, th) = Inr (w', th\<lparr>tl_fiber := Some (stop_target s (fb_entry f) m r), tl_context := Some (stop_target s (fb_entry f) m r)\<rparr>)
     \<and> fw_heap w' p = Some f' \<and> fb_state f' = stop_state s (fb_cb f)
     \<and> fb_entry f' = (if stops_for_good s then Entry_Ended else fb_entry f) \<and> (\<forall>q. q \<noteq> p \<longrightarrow> fw_heap w' q = fw_heap w q)"
  using assms by (cases s; cases "fb_cb f") (auto simp: stop_defs)

lemma ended_never_reach:
  assumes "tl_mainFiber th = Some m" "fw_heap w m \<noteq> None" "fw_heap w p = Some f" "fb_state f \<noteq> Fiber_EXEC" "fb_entry f = Entry_Ended"
  shows "\<exists>c. Fiber_swapIn p (w, th) = Inr c \<and> Fiber_stop s c = Inl Assertion_Failed"
  using assms swapIn_ok [OF assms(1-4)] by (simp add: Fiber_stop_def set_state_def)

section \<open>Properties\<close>

text \<open>
  (C35) A scheduling round trip. Switching into a fiber that is not running and has not ended, and letting it run until it
  yields, returns or throws: \<^verbatim>\<open>t_fiber\<close> names the executed context all along; a yield and the end of a fiber made for the scheduler
  bring the thread back to the scheduler's fiber, the end of a fiber made with \<^verbatim>\<open>use_call\<close> to the thread's own fiber; the fiber
  is left \<^verbatim>\<open>READY\<close>, still \<^verbatim>\<open>EXEC\<close> (after \<^verbatim>\<open>YieldToHold\<close>), \<^verbatim>\<open>TERM\<close> or \<^verbatim>\<open>EXCEPT\<close>, and no other fiber is touched.
  Switching once more into a fiber that has ended runs into the assertion \<^verbatim>\<open>never reach\<close>.
\<close>

theorem fiber_activation:
  assumes "tl_mainFiber th = Some m" "fw_heap w m \<noteq> None" "tl_threadFiber th = Some r" "fw_heap w r \<noteq> None"
    and "fw_heap w p = Some f" "fb_state f \<noteq> Fiber_EXEC" "p \<noteq> m" "p \<noteq> r"
    and "fb_entry f = Entry_MainFunc \<or> fb_entry f = Entry_CallerMainFunc"
  shows "\<exists>w1 th1 w2 th2. Fiber_swapIn p (w, th) = Inr (w1, th1) \<and> in_sync th1
     \<and> tl_context th1 = Some p \<and> state_of w1 p = Some Fiber_EXEC
     \<and> Fiber_stop s (w1, th1) = Inr (w2, th2) \<and> in_sync th2
     \<and> tl_context th2 = Some (if (s = Stop_Return \<or> s = Stop_Throw) \<and> fb_entry f = Entry_CallerMainFunc then r else m)
     \<and> state_of w2 p = Some (stop_state s (fb_cb f))
     \<and> (\<forall>q. q \<noteq> p \<longrightarrow> fw_heap w2 q = fw_heap w q)
     \<and> (s = Stop_Return \<or> s = Stop_Throw \<longrightarrow>
          (\<forall>s'. \<exists>c. Fiber_swapIn p (w2, th2) = Inr c \<and> Fiber_stop s' c = Inl Assertion_Failed))"
proof -
  let ?w = "set_state p Fiber_EXEC w" and ?th = "th\<lparr>tl_fiber := Some p, tl_context := Some p\<rparr>"
  let ?t = "stop_target s (fb_entry f) m r"
  have f: "fw_heap ?w p = Some (f\<lparr>fb_state := Fiber_EXEC\<rparr>)" using assms(5) by (simp add: set_state_def)
  have keep: "fw_heap ?w q = fw_heap w q" if "q \<noteq> p" for q using that by (simp add: set_state_def)
  obtain w2 f2 where stop: "Fiber_stop s (?w, ?th) = Inr (w2, ?th\<lparr>tl_fiber := Some ?t, tl_context := Some ?t\<rparr>)"
    and f2: "fw_heap w2 p = Some f2" "fb_state f2 = stop_state s (fb_cb f)"
      "fb_entry f2 = (if stops_for_good s then Entry_Ended else fb_entry f)" "\<forall>q. q \<noteq> p \<longrightarrow> fw_heap w2 q = fw_heap ?w q"
    using stop_ok [of ?th m ?w r p "f\<lparr>fb_state := Fiber_EXEC\<rparr>" s] f assms by auto
  have "\<exists>c. Fiber_swapIn p (w2, ?th\<lparr>tl_fiber := Some ?t, tl_context := Some ?t\<rparr>) = Inr c \<and> Fiber_stop s' c = Inl Assertion_Failed"
    if "stops_for_good s" for s'
  proof (rule ended_never_reach [of _ m])
    show "fb_state f2 \<noteq> Fiber_EXEC" using that f2(2) by (cases "fb_cb f") (auto simp: stops_for_good_def)
    show "fw_heap w2 m \<noteq> None" using assms(2,7) f2(4) keep by auto
  qed (use that assms(1) f2 in simp_all)
  moreover have "state_of ?w p = Some Fiber_EXEC" using f by (simp add: state_of_def)
  moreover have "state_of w2 p = Some (stop_state s (fb_cb f))" using f2 by (simp add: state_of_def)
  ultimately show ?thesis using swapIn_ok [OF assms(1,2,5,6)] stop f2(4) keep
    by (simp add: in_sync_def stop_target_def stops_for_good_def)
qed

theorem fiber_activation_witness:
  "\<exists>w1 th1 w2 th2.
     Fiber_swapIn 2 (Fiber_new 65536 2 (Some ()) 0 False (fst (Fiber_new_main 1
         (\<lparr>fw_heap = (\<lambda>_. None), s_fiber_id = 0, s_fiber_count = 0\<rparr>,
          \<lparr>tl_fiber = None, tl_threadFiber = None, tl_mainFiber = Some 1, tl_context = None\<rparr>))),
       \<lparr>tl_fiber = Some 1, tl_threadFiber = Some 1, tl_mainFiber = Some 1, tl_context = Some 1\<rparr>) = Inr (w1, th1)
   \<and> Fiber_stop Stop_Return (w1, th1) = Inr (w2, th2) \<and> state_of w2 2 = Some Fiber_TERM
   \<and> tl_context th2 = Some 1 \<and> (\<exists>c. Fiber_swapIn 2 (w2, th2) = Inr c \<and> Fiber_stop Stop_Hold c = Inl Assertion_Failed)"
proof -
  let ?w = "Fiber_new 65536 2 (Some ()) 0 False (fst (Fiber_new_main 1
         (\<lparr>fw_heap = (\<lambda>_. None), s_fiber_id = 0, s_fiber_count = 0\<rparr>,
          \<lparr>tl_fiber = None, tl_threadFiber = None, tl_mainFiber = Some 1, tl_context = None\<rparr>)))"
  let ?th = "\<lparr>tl_fiber = Some 1, tl_threadFiber = Some 1, tl_mainFiber = Some 1, tl_context = Some 1\<rparr>"
  obtain f where f: "fw_heap ?w 2 = Some f" "fb_state f \<noteq> Fiber_EXEC" "fb_cb f = Some ()" "fb_entry f = Entry_MainFunc"
    by (simp add: Fiber_new_def)
  moreover have "fw_heap ?w 1 \<noteq> None" by (simp add: Fiber_new_def Fiber_new_main_def)
  ultimately show ?thesis using fiber_activation [of ?th 1 ?w 1 2 f Stop_Return] by auto
qed

text \<open>
  The constructor's \<^verbatim>\<open>stacksize\<close> argument has no effect: every fiber gets the configured
  stack size, because the condition reads the member (still zero) instead of the argument.
\<close>

theorem fiber_stacksize_ignored:
  "Fiber_new cfg p cb stacksize use_call w = Fiber_new cfg p cb stacksize' use_call w
   \<and> map_option fb_stacksize (fw_heap (Fiber_new cfg p cb stacksize use_call w) p) = Some cfg"
  by (simp add: Fiber_new_def)

end
