(* ===== verification/Scheduler.thy ===== *)
theory Scheduler
  imports Fiber
begin

text \<open>
  Model of \<^verbatim>\<open>src/src/scheduler.h\<close> and \<^verbatim>\<open>src/src/scheduler.cpp\<close>: worker threads that
  take fibers and callbacks from one queue. \<^verbatim>\<open>Scheduler::run\<close> is cut at the points where another
  thread can interleave: each critical section, each switch into or out of a fiber and
  each access of an atomic counter is a step of its own. The position of a thread in
  \<^verbatim>\<open>run\<close> is its \<open>run_pc\<close>.
\<close>

section \<open>State\<close>

record 'cb task =
  ft_fiber :: "nat option"
  ft_cb :: "'cb option"
  ft_threadId :: int

definition FiberAndThread_new :: "'cb task" where
  "FiberAndThread_new = \<lparr>ft_fiber = None, ft_cb = None, ft_threadId = - 1\<rparr>"

definition FiberAndThread_fiber :: "nat option \<Rightarrow> int \<Rightarrow> 'cb task" where
  "FiberAndThread_fiber f thr = \<lparr>ft_fiber = f, ft_cb = None, ft_threadId = thr\<rparr>"

definition FiberAndThread_cb :: "'cb option \<Rightarrow> int \<Rightarrow> 'cb task" where
  "FiberAndThread_cb cb thr = \<lparr>ft_fiber = None, ft_cb = cb, ft_threadId = thr\<rparr>"

definition FiberAndThread_reset :: "'cb task \<Rightarrow> 'cb task" where
  "FiberAndThread_reset t = t\<lparr>ft_fiber := None, ft_cb := None, ft_threadId := - 1\<rparr>"

text \<open>
  Where a thread is in the loop of \<^verbatim>\<open>run\<close>: at its head; holding a task it has taken; inside a
  fiber (of the queue, or the thread's \<^verbatim>\<open>cb_fiber\<close>); just back from it; after the active count has
  been decremented; without a task; inside the idle fiber; just back from it; out of the
  loop; returned from \<^verbatim>\<open>run\<close>.
\<close>

datatype 'cb run_pc =
  Pc_Loop | Pc_Took "'cb task" | Pc_In nat bool | Pc_Back nat bool | Pc_Post nat bool
| Pc_None | Pc_Idle | Pc_Idle_Back | Pc_Exit | Pc_Returned

record 'cb worker =
  wk_tid :: int
  wk_pc :: "'cb run_pc"
  wk_cb_fiber :: "nat option"
  wk_idle :: nat
  wk_tl :: fiber_thread

record 'cb scheduler =
  sc_fibers :: "'cb task list"
  sc_activateThreadCount :: nat
  sc_idleThreadCount :: nat
  sc_stopping :: bool
  sc_autoStop :: bool
  sc_threadCount :: u64
  sc_rootFiber :: "nat option"
  sc_rootThread :: int
  sc_world :: "'cb fiber_world"
  sc_workers :: "'cb worker list"

section \<open>Scheduling\<close>

definition Scheduler_scheduleNoLock :: "'cb task \<Rightarrow> 'cb scheduler \<Rightarrow> bool \<times> 'cb scheduler" where
  "Scheduler_scheduleNoLock ft s =
     (let need_tickle = (sc_fibers s = []) in
      (need_tickle,
       if ft_fiber ft \<noteq> None \<or> ft_cb ft \<noteq> None then s\<lparr>sc_fibers := sc_fibers s @ [ft]\<rparr> else s))"

text \<open>
  The result says whether \<^verbatim>\<open>tickle\<close> is called: the single version throws the answer of
  \<^verbatim>\<open>scheduleNoLock\<close> away.
\<close>

definition Scheduler_schedule :: "'cb task \<Rightarrow> 'cb scheduler \<Rightarrow> bool \<times> 'cb scheduler" where
  "Scheduler_schedule ft s =
     (let need_tickle = False; s' = snd (Scheduler_scheduleNoLock ft s) in (need_tickle, s'))"

fun Scheduler_schedule_range :: "'cb task list \<Rightarrow> 'cb scheduler \<Rightarrow> bool \<times> 'cb scheduler" where
  "Scheduler_schedule_range [] s = (False, s)"
| "Scheduler_schedule_range (ft # fts) s =
     (let (n, s1) = Scheduler_scheduleNoLock ft s;
          (need_tickle, s2) = Scheduler_schedule_range fts s1
      in (n \<or> need_tickle, s2))"

definition Scheduler_stopping :: "'cb scheduler \<Rightarrow> bool" where
  "Scheduler_stopping s \<longleftrightarrow>
     sc_autoStop s \<and> sc_stopping s \<and> sc_fibers s = [] \<and> sc_activateThreadCount s = 0"

definition Scheduler_hasIdleThreads :: "'cb scheduler \<Rightarrow> bool" where
  "Scheduler_hasIdleThreads s \<longleftrightarrow> sc_idleThreadCount s > 0"

text \<open>
  The constructor. \<open>tid\<close> is the calling thread, \<open>has_scheduler\<close> whether it already has one, \<open>main\<close>
  and \<open>root\<close> the addresses its main fiber and the root fiber get. The number of threads is
  unsigned: with \<^verbatim>\<open>use_call\<close> a count of zero wraps. Callbacks of fibers are opaque, \<open>run_cb\<close> is the bound
  \<^verbatim>\<open>Scheduler::run\<close>.
\<close>

definition Scheduler_new ::
    "u32 \<Rightarrow> int \<Rightarrow> bool \<Rightarrow> nat \<Rightarrow> nat \<Rightarrow> 'cb \<Rightarrow> u64 \<Rightarrow> bool \<Rightarrow> 'cb fctx
      \<Rightarrow> fiber_error + ('cb scheduler \<times> fiber_thread)" where
  "Scheduler_new cfg tid has_scheduler main root run_cb threads use_call c =
     (let s = \<lparr>sc_fibers = [], sc_activateThreadCount = 0, sc_idleThreadCount = 0, sc_stopping = True,
               sc_autoStop = False, sc_threadCount = threads, sc_rootFiber = None, sc_rootThread = - 1,
               sc_world = fst c, sc_workers = []\<rparr>
      in if use_call then
           (case Fiber_GetThis main c of (_, w, th) \<Rightarrow>
              if has_scheduler then Inl Assertion_Failed
              else Inr (s\<lparr>sc_threadCount := threads - 1, sc_rootFiber := Some root, sc_rootThread := tid,
                          sc_world := Fiber_new cfg root (Some run_cb) 0 True w\<rparr>,
                        th\<lparr>tl_mainFiber := Some root\<rparr>))
         else Inr (s, snd c))"

text \<open>
  The beginning of \<^verbatim>\<open>run\<close> on a thread: any thread but the root thread takes its main fiber as the
  scheduler's fiber; then the idle fiber is made. \<open>idle_cb\<close> is the bound \<^verbatim>\<open>idle\<close>.
\<close>

definition Scheduler_run_init ::
    "u32 \<Rightarrow> 'cb \<Rightarrow> int \<Rightarrow> nat \<Rightarrow> nat \<Rightarrow> fiber_thread \<Rightarrow> 'cb scheduler \<Rightarrow> 'cb scheduler" where
  "Scheduler_run_init cfg idle_cb tid main idle th s =
     (let (w1, th1) = (if tid \<noteq> sc_rootThread s
                       then (case Fiber_GetThis main (sc_world s, th) of
                               (f, w, th') \<Rightarrow> (w, th'\<lparr>tl_mainFiber := Some f\<rparr>))
                       else (sc_world s, th))
      in s\<lparr>sc_world := Fiber_new cfg idle (Some idle_cb) 0 False w1,
           sc_workers := sc_workers s @
             [\<lparr>wk_tid = tid, wk_pc = Pc_Loop, wk_cb_fiber = None, wk_idle = idle, wk_tl = th1\<rparr>]\<rparr>)"

text \<open>
  \<^verbatim>\<open>start\<close> makes the threads; each begins \<^verbatim>\<open>run\<close> with fresh thread-local variables. \<open>ids\<close> gives the
  identifier of each new thread and the addresses of its main and idle fiber.
\<close>

definition Scheduler_start ::
    "u32 \<Rightarrow> 'cb \<Rightarrow> (int \<times> nat \<times> nat) list \<Rightarrow> 'cb scheduler \<Rightarrow> fiber_error + 'cb scheduler" where
  "Scheduler_start cfg idle_cb ids s =
     (if \<not> sc_stopping s then Inr s
      else if sc_workers s \<noteq> [] then Inl Assertion_Failed
      else Inr (fold (\<lambda>(tid, main, idle). Scheduler_run_init cfg idle_cb tid main idle
                   \<lparr>tl_fiber = None, tl_threadFiber = None, tl_mainFiber = None, tl_context = None\<rparr>)
                 (take (unat (sc_threadCount s)) ids) (s\<lparr>sc_stopping := False\<rparr>)))"

text \<open>
  \<^verbatim>\<open>stop\<close> up to the point where it waits: it returns at once, runs the root fiber in the calling
  thread, or joins the threads. \<open>is_current\<close> is \<^verbatim>\<open>GetThis() == this\<close>.
\<close>

datatype stop_action = Stop_Returns | Stop_Calls_Root | Stop_Joins

definition Scheduler_stop :: "bool \<Rightarrow> 'cb scheduler \<Rightarrow> fiber_error + (stop_action \<times> 'cb scheduler)" where
  "Scheduler_stop is_current s =
     (let s1 = s\<lparr>sc_autoStop := True\<rparr>;
          alone = (case sc_rootFiber s1 of
                     None \<Rightarrow> False
                   | Some r \<Rightarrow> sc_threadCount s1 = 0 \<and>
                       (state_of (sc_world s1) r = Some Fiber_TERM \<or> state_of (sc_world s1) r = Some Fiber_INIT));
          s2 = (if alone then s1\<lparr>sc_stopping := True\<rparr> else s1)
      in if alone \<and> Scheduler_stopping s2 then Inr (Stop_Returns, s2)
         else if sc_rootThread s2 \<noteq> - 1 \<and> \<not> is_current then Inl Assertion_Failed
         else if sc_rootThread s2 = - 1 \<and> is_current then Inl Assertion_Failed
         else let s3 = s2\<lparr>sc_stopping := True\<rparr>
              in Inr (if sc_rootFiber s3 \<noteq> None \<and> \<not> Scheduler_stopping s3 then Stop_Calls_Root else Stop_Joins,
                      s3))"

text \<open>
  \<^verbatim>\<open>m_rootFiber->call()\<close> in \<^verbatim>\<open>stop\<close>, on the root thread with the thread-local variables \<open>th\<close>: the thread switches into the root fiber, which begins \<^verbatim>\<open>run\<close>
  on it. A root fiber that has run already ends in the assertion \<^verbatim>\<open>never reach\<close>; one that is running cannot be called again here
  (a call of \<^verbatim>\<open>stop\<close> from a fiber of the root thread).
\<close>

definition Scheduler_call_root ::
    "u32 \<Rightarrow> 'cb \<Rightarrow> nat \<Rightarrow> fiber_thread \<Rightarrow> 'cb scheduler \<Rightarrow> fiber_error + 'cb scheduler" where
  "Scheduler_call_root cfg idle_cb idle th s =
     (case sc_rootFiber s of
        None \<Rightarrow> Inl Null_Fiber
      | Some root \<Rightarrow>
          if state_of (sc_world s) root \<noteq> Some Fiber_INIT then Inl Assertion_Failed
          else rbind (Fiber_call root (sc_world s, th)) (\<lambda>(w, th').
            Inr (Scheduler_run_init cfg idle_cb (sc_rootThread s) root idle th' (s\<lparr>sc_world := w\<rparr>))))"

text \<open>
  The end of \<^verbatim>\<open>stop\<close>: it waits for all threads (\<open>None\<close> while one is not done) and has emptied \<^verbatim>\<open>m_threads\<close>. On the root thread it comes here when the root
  fiber has gone back.
\<close>

definition Scheduler_join :: "'cb scheduler \<Rightarrow> 'cb scheduler option" where
  "Scheduler_join s =
     (if list_all (\<lambda>wk. wk_pc wk = Pc_Returned) (sc_workers s) then Some (s\<lparr>sc_workers := []\<rparr>) else None)"

section \<open>The loop of run\<close>

text \<open>
  The scan of the queue under the lock: the flag \<^verbatim>\<open>tickle_me\<close>, the task taken and the queue left.
\<close>

definition pinned_elsewhere :: "int \<Rightarrow> 'cb task \<Rightarrow> bool" where
  "pinned_elsewhere tid t \<longleftrightarrow> ft_threadId t \<noteq> - 1 \<and> ft_threadId t \<noteq> tid"

definition executing :: "'cb fiber_world \<Rightarrow> 'cb task \<Rightarrow> bool" where
  "executing w t \<longleftrightarrow> (\<exists>f. ft_fiber t = Some f \<and> state_of w f = Some Fiber_EXEC)"

lemma executing_code [code]:
  "executing w t = (case ft_fiber t of None \<Rightarrow> False | Some f \<Rightarrow> state_of w f = Some Fiber_EXEC)"
  by (simp add: executing_def split: option.split)

fun Scheduler_scan ::
    "'cb fiber_world \<Rightarrow> int \<Rightarrow> 'cb task list \<Rightarrow> fiber_error + (bool \<times> 'cb task option \<times> 'cb task list)" where
  "Scheduler_scan w tid [] = Inr (False, None, [])"
| "Scheduler_scan w tid (t # ts) =
     (if pinned_elsewhere tid t then
        rbind (Scheduler_scan w tid ts) (\<lambda>(_, r, rest). Inr (True, r, t # rest))
      else if ft_fiber t = None \<and> ft_cb t = None then Inl Assertion_Failed
      else if executing w t then
        rbind (Scheduler_scan w tid ts) (\<lambda>(tickle_me, r, rest). Inr (tickle_me, r, t # rest))
      else Inr (True, Some t, ts))"

definition Scheduler_take :: "nat \<Rightarrow> 'cb scheduler \<Rightarrow> fiber_error + 'cb scheduler" where
  "Scheduler_take i s =
     (let wk = sc_workers s ! i in
      rbind (Scheduler_scan (sc_world s) (wk_tid wk) (sc_fibers s)) (\<lambda>(tickle_me, r, rest).
        case r of
          None \<Rightarrow> Inr (s\<lparr>sc_workers := (sc_workers s)[i := wk\<lparr>wk_pc := Pc_None\<rparr>]\<rparr>)
        | Some t \<Rightarrow> Inr (s\<lparr>sc_fibers := rest, sc_activateThreadCount := sc_activateThreadCount s + 1,
                         sc_workers := (sc_workers s)[i := wk\<lparr>wk_pc := Pc_Took t\<rparr>]\<rparr>)))"

text \<open>Switching into the fiber of the task, or into the thread's callback fiber.\<close>

definition not_done :: "fiber_state option \<Rightarrow> bool" where
  "not_done st \<longleftrightarrow> st \<noteq> Some Fiber_TERM \<and> st \<noteq> Some Fiber_EXCEPT"

definition Scheduler_enter_fiber ::
    "nat \<Rightarrow> nat \<Rightarrow> bool \<Rightarrow> 'cb scheduler \<Rightarrow> fiber_error + 'cb scheduler" where
  "Scheduler_enter_fiber i f from_cb s =
     (let wk = sc_workers s ! i in
      rbind (Fiber_swapIn f (sc_world s, wk_tl wk)) (\<lambda>(w', tl').
        Inr (s\<lparr>sc_world := w',
               sc_workers := (sc_workers s)[i := wk\<lparr>wk_pc := Pc_In f from_cb, wk_tl := tl'\<rparr>]\<rparr>)))"

definition Scheduler_prepare_cb ::
    "u32 \<Rightarrow> nat \<Rightarrow> nat \<Rightarrow> 'cb option \<Rightarrow> 'cb scheduler \<Rightarrow> fiber_error + (nat \<times> 'cb scheduler)" where
  "Scheduler_prepare_cb cfg p i cb s =
     (let wk = sc_workers s ! i in
      case wk_cb_fiber wk of
        Some c \<Rightarrow> rbind (Fiber_reset c cb (sc_world s)) (\<lambda>w'. Inr (c, s\<lparr>sc_world := w'\<rparr>))
      | None \<Rightarrow> Inr (p, s\<lparr>sc_world := Fiber_new cfg p cb 0 False (sc_world s),
                        sc_workers := (sc_workers s)[i := wk\<lparr>wk_cb_fiber := Some p\<rparr>]\<rparr>))"

definition Scheduler_drop :: "nat \<Rightarrow> 'cb scheduler \<Rightarrow> 'cb scheduler" where
  "Scheduler_drop i s =
     s\<lparr>sc_activateThreadCount := sc_activateThreadCount s - 1,
       sc_workers := (sc_workers s)[i := (sc_workers s ! i)\<lparr>wk_pc := Pc_Loop\<rparr>]\<rparr>"

definition Scheduler_enter ::
    "u32 \<Rightarrow> nat \<Rightarrow> nat \<Rightarrow> 'cb task \<Rightarrow> 'cb scheduler \<Rightarrow> fiber_error + 'cb scheduler" where
  "Scheduler_enter cfg p i ft s =
     (case ft_fiber ft of
        Some f \<Rightarrow>
          if not_done (state_of (sc_world s) f) then Scheduler_enter_fiber i f False s
          else if ft_cb ft \<noteq> None then
            rbind (Scheduler_prepare_cb cfg p i (ft_cb ft) s) (\<lambda>(c, s'). Scheduler_enter_fiber i c True s')
          else Inr (Scheduler_drop i s)
      | None \<Rightarrow>
          if ft_cb ft \<noteq> None then
            rbind (Scheduler_prepare_cb cfg p i (ft_cb ft) s) (\<lambda>(c, s'). Scheduler_enter_fiber i c True s')
          else Inr (Scheduler_drop i s))"

text \<open>The fiber stops and the thread is back in \<^verbatim>\<open>run\<close>.\<close>

definition Scheduler_leave ::
    "nat \<Rightarrow> fiber_stop \<Rightarrow> nat \<Rightarrow> bool \<Rightarrow> 'cb scheduler \<Rightarrow> fiber_error + 'cb scheduler" where
  "Scheduler_leave i stop f from_cb s =
     (let wk = sc_workers s ! i in
      rbind (Fiber_stop stop (sc_world s, wk_tl wk)) (\<lambda>(w', tl').
        Inr (s\<lparr>sc_world := w',
               sc_workers := (sc_workers s)[i := wk\<lparr>wk_pc := Pc_Back f from_cb, wk_tl := tl'\<rparr>]\<rparr>)))"

definition Scheduler_decrement :: "nat \<Rightarrow> nat \<Rightarrow> bool \<Rightarrow> 'cb scheduler \<Rightarrow> 'cb scheduler" where
  "Scheduler_decrement i f from_cb s =
     s\<lparr>sc_activateThreadCount := sc_activateThreadCount s - 1,
       sc_workers := (sc_workers s)[i := (sc_workers s ! i)\<lparr>wk_pc := Pc_Post f from_cb\<rparr>]\<rparr>"

text \<open>What is done with the fiber depends on the state it stopped in.\<close>

definition Scheduler_post_fiber :: "nat \<Rightarrow> nat \<Rightarrow> 'cb scheduler \<Rightarrow> 'cb scheduler" where
  "Scheduler_post_fiber i f s =
     (let s1 = (if state_of (sc_world s) f = Some Fiber_READY
                then snd (Scheduler_schedule (FiberAndThread_fiber (Some f) (- 1)) s)
                else if not_done (state_of (sc_world s) f)
                then s\<lparr>sc_world := set_state f Fiber_HOLD (sc_world s)\<rparr> else s)
      in s1\<lparr>sc_workers := (sc_workers s1)[i := (sc_workers s1 ! i)\<lparr>wk_pc := Pc_Loop\<rparr>]\<rparr>)"

definition Scheduler_post_cb :: "nat \<Rightarrow> nat \<Rightarrow> 'cb scheduler \<Rightarrow> fiber_error + 'cb scheduler" where
  "Scheduler_post_cb i c s =
     (let wk = sc_workers s ! i in
      if state_of (sc_world s) c = Some Fiber_READY then
        Inr ((snd (Scheduler_schedule (FiberAndThread_fiber (Some c) (- 1)) s))
               \<lparr>sc_workers := (sc_workers s)[i := wk\<lparr>wk_pc := Pc_Loop, wk_cb_fiber := None\<rparr>]\<rparr>)
      else if \<not> not_done (state_of (sc_world s) c) then
        rbind (Fiber_reset c None (sc_world s)) (\<lambda>w'.
          Inr (s\<lparr>sc_world := w', sc_workers := (sc_workers s)[i := wk\<lparr>wk_pc := Pc_Loop\<rparr>]\<rparr>))
      else
        Inr (s\<lparr>sc_world := set_state c Fiber_HOLD (sc_world s),
               sc_workers := (sc_workers s)[i := wk\<lparr>wk_pc := Pc_Loop, wk_cb_fiber := None\<rparr>]\<rparr>))"

definition Scheduler_post :: "nat \<Rightarrow> nat \<Rightarrow> bool \<Rightarrow> 'cb scheduler \<Rightarrow> fiber_error + 'cb scheduler" where
  "Scheduler_post i f from_cb s =
     (if from_cb then Scheduler_post_cb i f s else Inr (Scheduler_post_fiber i f s))"

text \<open>
  Without a task: leave the loop when the idle fiber has ended, else run it. The base class's
  \<^verbatim>\<open>idle\<close> returns once \<^verbatim>\<open>stopping()\<close> and otherwise yields.
\<close>

definition Scheduler_no_task :: "nat \<Rightarrow> 'cb scheduler \<Rightarrow> fiber_error + 'cb scheduler" where
  "Scheduler_no_task i s =
     (let wk = sc_workers s ! i in
      if state_of (sc_world s) (wk_idle wk) = Some Fiber_TERM
      then Inr (s\<lparr>sc_workers := (sc_workers s)[i := wk\<lparr>wk_pc := Pc_Exit\<rparr>]\<rparr>)
      else rbind (Fiber_swapIn (wk_idle wk) (sc_world s, wk_tl wk)) (\<lambda>(w', tl').
        Inr (s\<lparr>sc_world := w', sc_idleThreadCount := sc_idleThreadCount s + 1,
               sc_workers := (sc_workers s)[i := wk\<lparr>wk_pc := Pc_Idle, wk_tl := tl'\<rparr>]\<rparr>)))"

definition Scheduler_idle :: "nat \<Rightarrow> 'cb scheduler \<Rightarrow> fiber_error + 'cb scheduler" where
  "Scheduler_idle i s =
     (let wk = sc_workers s ! i in
      rbind (Fiber_stop (if Scheduler_stopping s then Stop_Return else Stop_Hold) (sc_world s, wk_tl wk))
        (\<lambda>(w', tl').
          Inr (s\<lparr>sc_world := w',
                 sc_workers := (sc_workers s)[i := wk\<lparr>wk_pc := Pc_Idle_Back, wk_tl := tl'\<rparr>]\<rparr>)))"

definition Scheduler_idle_back :: "nat \<Rightarrow> 'cb scheduler \<Rightarrow> 'cb scheduler" where
  "Scheduler_idle_back i s =
     (let wk = sc_workers s ! i; idle = wk_idle wk in
      s\<lparr>sc_idleThreadCount := sc_idleThreadCount s - 1,
        sc_world := (if not_done (state_of (sc_world s) idle)
                     then set_state idle Fiber_HOLD (sc_world s) else sc_world s),
        sc_workers := (sc_workers s)[i := wk\<lparr>wk_pc := Pc_Loop\<rparr>]\<rparr>)"

text \<open>
  \<^verbatim>\<open>run\<close> returns: a thread ends; on the root thread the main function of the root fiber ends and goes back to \<^verbatim>\<open>stop\<close>.
\<close>

definition Scheduler_return :: "nat \<Rightarrow> 'cb scheduler \<Rightarrow> fiber_error + 'cb scheduler" where
  "Scheduler_return i s =
     (let wk = sc_workers s ! i in
      if wk_tid wk = sc_rootThread s then
        rbind (Fiber_stop Stop_Return (sc_world s, wk_tl wk)) (\<lambda>(w', tl').
          Inr (s\<lparr>sc_world := w', sc_workers := (sc_workers s)[i := wk\<lparr>wk_pc := Pc_Returned, wk_tl := tl'\<rparr>]\<rparr>))
      else Inr (s\<lparr>sc_workers := (sc_workers s)[i := wk\<lparr>wk_pc := Pc_Returned\<rparr>]\<rparr>))"

text \<open>One step of thread \<open>i\<close>; the steps of code outside \<^verbatim>\<open>run\<close> are in the relation below.\<close>

definition Scheduler_run_step ::
    "u32 \<Rightarrow> nat \<Rightarrow> fiber_stop \<Rightarrow> nat \<Rightarrow> 'cb scheduler \<Rightarrow> fiber_error + 'cb scheduler" where
  "Scheduler_run_step cfg p stop i s =
     (case wk_pc (sc_workers s ! i) of
        Pc_Loop \<Rightarrow> Scheduler_take i s
      | Pc_Took t \<Rightarrow> Scheduler_enter cfg p i t s
      | Pc_In f c \<Rightarrow> Scheduler_leave i stop f c s
      | Pc_Back f c \<Rightarrow> Inr (Scheduler_decrement i f c s)
      | Pc_Post f c \<Rightarrow> Scheduler_post i f c s
      | Pc_None \<Rightarrow> Scheduler_no_task i s
      | Pc_Idle \<Rightarrow> Scheduler_idle i s
      | Pc_Idle_Back \<Rightarrow> Inr (Scheduler_idle_back i s)
      | Pc_Exit \<Rightarrow> Scheduler_return i s
      | Pc_Returned \<Rightarrow> Inr s)"

inductive sched_step :: "'cb scheduler \<Rightarrow> 'cb scheduler \<Rightarrow> bool" where
  run: "i < length (sc_workers s) \<Longrightarrow> Scheduler_run_step cfg p stop i s = Inr s' \<Longrightarrow> sched_step s s'"
| schedule: "Scheduler_schedule ft s = (n, s') \<Longrightarrow> sched_step s s'"
| schedule_range: "Scheduler_schedule_range fts s = (n, s') \<Longrightarrow> sched_step s s'"
| stop: "Scheduler_stop is_current s = Inr (a, s') \<Longrightarrow> sched_step s s'"
| call_root: "Scheduler_stop is_current s = Inr (Stop_Calls_Root, s1) \<Longrightarrow> Scheduler_call_root cfg idle_cb idle th s1 = Inr s'
    \<Longrightarrow> sched_step s s'"
| join: "Scheduler_join s = Some s' \<Longrightarrow> sched_step s s'"
| restart: "Scheduler_start cfg idle_cb ids s = Inr s' \<Longrightarrow> sched_step s s'"

inductive sched_reach :: "'cb scheduler \<Rightarrow> 'cb scheduler \<Rightarrow> bool" for s where
  start: "sched_reach s s"
| step: "sched_reach s s1 \<Longrightarrow> sched_step s1 s2 \<Longrightarrow> sched_reach s s2"

section \<open>The counters\<close>

text \<open>
  A thread is active from taking a task to the decrement of the count. It holds the fiber a little longer: until it has put a
  \<^verbatim>\<open>READY\<close> fiber back into the queue.
\<close>

definition is_active :: "'cb worker \<Rightarrow> bool" where
  "is_active wk \<longleftrightarrow> (case wk_pc wk of Pc_Took _ \<Rightarrow> True | Pc_In _ _ \<Rightarrow> True | Pc_Back _ _ \<Rightarrow> True | _ \<Rightarrow> False)"

definition holds_task :: "'cb worker \<Rightarrow> bool" where
  "holds_task wk \<longleftrightarrow> is_active wk \<or> (\<exists>f c. wk_pc wk = Pc_Post f c)"

definition is_idle :: "'cb worker \<Rightarrow> bool" where
  "is_idle wk \<longleftrightarrow> wk_pc wk = Pc_Idle \<or> wk_pc wk = Pc_Idle_Back"

definition count :: "('a \<Rightarrow> bool) \<Rightarrow> 'a list \<Rightarrow> nat" where
  "count P xs = length (filter P xs)"

lemma count_update:
  "i < length xs \<Longrightarrow>
     count P (xs[i := y]) + (if P (xs ! i) then 1 else 0) = count P xs + (if P y then 1 else 0)"
proof (induction xs arbitrary: i)
  case (Cons x xs)
  then show ?case
  proof (cases i)
    case (Suc j)
    then show ?thesis using Cons.IH [of j] Cons.prems by (auto simp: count_def split: if_splits)
  qed (simp add: count_def)
qed simp

definition sched_inv :: "'cb scheduler \<Rightarrow> bool" where
  "sched_inv s \<longleftrightarrow> sc_activateThreadCount s = count is_active (sc_workers s)
     \<and> sc_idleThreadCount s = count is_idle (sc_workers s)
     \<and> (\<forall>t\<in>set (sc_fibers s). ft_fiber t \<noteq> None \<or> ft_cb t \<noteq> None)"

lemmas worker_defs = is_active_def is_idle_def

text \<open>What the scan of a queue of non-empty tasks does: it takes the first task this thread may run.\<close>

definition runnable :: "'cb fiber_world \<Rightarrow> int \<Rightarrow> 'cb task \<Rightarrow> bool" where
  "runnable w tid t \<longleftrightarrow> \<not> pinned_elsewhere tid t \<and> \<not> executing w t"

lemma scan_spec:
  assumes "\<forall>t\<in>set ts. ft_fiber t \<noteq> None \<or> ft_cb t \<noteq> None"
  shows "\<exists>tickle r rest. Scheduler_scan w tid ts = Inr (tickle, r, rest)
    \<and> (tickle \<longleftrightarrow> r \<noteq> None \<or> (\<exists>t\<in>set ts. pinned_elsewhere tid t))
    \<and> (case r of
         None \<Rightarrow> rest = ts \<and> (\<forall>t\<in>set ts. \<not> runnable w tid t)
       | Some t \<Rightarrow> runnable w tid t \<and>
           (\<exists>pre post. ts = pre @ t # post \<and> rest = pre @ post \<and> (\<forall>u\<in>set pre. \<not> runnable w tid u)))"
  using assms
proof (induction ts)
  case Nil
  then show ?case by auto
next
  case (Cons t ts)
  then obtain tickle r rest where ih: "Scheduler_scan w tid ts = Inr (tickle, r, rest)"
    "tickle \<longleftrightarrow> r \<noteq> None \<or> (\<exists>t\<in>set ts. pinned_elsewhere tid t)"
    "case r of
         None \<Rightarrow> rest = ts \<and> (\<forall>t\<in>set ts. \<not> runnable w tid t)
       | Some t \<Rightarrow> runnable w tid t \<and>
           (\<exists>pre post. ts = pre @ t # post \<and> rest = pre @ post \<and> (\<forall>u\<in>set pre. \<not> runnable w tid u))"
    by auto
  have ne: "\<not> (ft_fiber t = None \<and> ft_cb t = None)" using Cons.prems by auto
  show ?case
  proof (cases "runnable w tid t")
    case True
    then have "Scheduler_scan w tid (t # ts) = Inr (True, Some t, ts)"
      using ne by (auto simp: runnable_def)
    then show ?thesis using True by (intro exI [of _ True] exI [of _ "Some t"] exI [of _ ts]) fastforce
  next
    case False
    let ?tk = "pinned_elsewhere tid t \<or> tickle"
    have "Scheduler_scan w tid (t # ts) = Inr (?tk, r, t # rest)"
      using False ne ih(1) by (auto simp: runnable_def)
    moreover have "case r of
         None \<Rightarrow> t # rest = t # ts \<and> (\<forall>u\<in>set (t # ts). \<not> runnable w tid u)
       | Some v \<Rightarrow> runnable w tid v \<and>
           (\<exists>pre post. t # ts = pre @ v # post \<and> t # rest = pre @ post \<and> (\<forall>u\<in>set pre. \<not> runnable w tid u))"
    proof (cases r)
      case (Some v)
      then obtain pre post where "runnable w tid v" "ts = pre @ v # post" "rest = pre @ post"
        "\<forall>u\<in>set pre. \<not> runnable w tid u" using ih(3) by auto
      then have "t # ts = (t # pre) @ v # post \<and> t # rest = (t # pre) @ post
          \<and> (\<forall>u\<in>set (t # pre). \<not> runnable w tid u)" using False by simp
      then show ?thesis using Some \<open>runnable w tid v\<close> by (simp only: option.case) blast
    qed (use ih(3) False in auto)
    ultimately show ?thesis using ih(2)
      by (intro exI [of _ ?tk] exI [of _ r] exI [of _ "t # rest"]) auto
  qed
qed

lemma scan_subset:
  assumes "Scheduler_scan w tid ts = Inr (tickle, r, rest)"
  shows "set rest \<subseteq> set ts"
  using assms by (induction ts arbitrary: tickle r rest) (auto simp: rbind_eq_Inr_iff split: if_splits)

text \<open>
  The invariant follows from how a step changes the thread, the counters and the queue.
\<close>

lemma sched_inv_step:
  assumes "sched_inv s" and "i < length (sc_workers s)"
    and "sc_workers s' = (sc_workers s)[i := wk]"
    and "sc_activateThreadCount s' + (if is_active (sc_workers s ! i) then 1 else 0)
       = sc_activateThreadCount s + (if is_active wk then 1 else 0)"
    and "sc_idleThreadCount s' + (if is_idle (sc_workers s ! i) then 1 else 0)
       = sc_idleThreadCount s + (if is_idle wk then 1 else 0)"
    and "\<forall>t\<in>set (sc_fibers s') - set (sc_fibers s). ft_fiber t \<noteq> None \<or> ft_cb t \<noteq> None"
  shows "sched_inv s'"
  using assms count_update [OF assms(2), of is_active wk] count_update [OF assms(2), of is_idle wk]
  by (auto simp: sched_inv_def)

lemma active_positive:
  assumes "sched_inv s" and "i < length (sc_workers s)"
  shows "is_active (sc_workers s ! i) \<Longrightarrow> 0 < sc_activateThreadCount s"
    and "is_idle (sc_workers s ! i) \<Longrightarrow> 0 < sc_idleThreadCount s"
  using assms by (auto simp: sched_inv_def count_def filter_empty_conv)

lemma schedule_inv: "sched_inv s \<Longrightarrow> sched_inv (snd (Scheduler_schedule ft s))"
  by (auto simp: Scheduler_schedule_def Scheduler_scheduleNoLock_def sched_inv_def Let_def)

lemma schedule_range_inv: "sched_inv s \<Longrightarrow> sched_inv (snd (Scheduler_schedule_range fts s))"
proof (induction fts arbitrary: s)
  case (Cons ft fts)
  have "sched_inv (snd (Scheduler_scheduleNoLock ft s))"
    using schedule_inv [OF Cons.prems, of ft] by (simp add: Scheduler_schedule_def)
  from Cons.IH [OF this] show ?case by (simp add: split_beta Let_def)
qed simp

lemma take_inv:
  assumes "sched_inv s" and "i < length (sc_workers s)" and "wk_pc (sc_workers s ! i) = Pc_Loop"
    and "Scheduler_take i s = Inr s'"
  shows "sched_inv s'"
proof -
  obtain tickle r rest where sc: "Scheduler_scan (sc_world s) (wk_tid (sc_workers s ! i)) (sc_fibers s) = Inr (tickle, r, rest)"
    using assms(4) by (auto simp: Scheduler_take_def Let_def rbind_eq_Inr_iff)
  show ?thesis
  proof (cases r)
    case None
    with sc assms(3,4) show ?thesis
      by (intro sched_inv_step [OF assms(1,2)]) (auto simp: Scheduler_take_def Let_def worker_defs)
  next
    case (Some t)
    with sc assms(3,4) scan_subset [OF sc] show ?thesis
      by (intro sched_inv_step [OF assms(1,2), of _ "(sc_workers s ! i)\<lparr>wk_pc := Pc_Took t\<rparr>"])
         (auto simp: Scheduler_take_def Let_def worker_defs)
  qed
qed

lemma enter_fiber_inv:
  assumes "sched_inv s" and "i < length (sc_workers s)" and "wk_pc (sc_workers s ! i) = Pc_Took t"
    and "Scheduler_enter_fiber i f c s = Inr s'"
  shows "sched_inv s'"
  using assms
  by (auto simp: Scheduler_enter_fiber_def Let_def rbind_eq_Inr_iff worker_defs
      intro!: sched_inv_step [OF assms(1,2)])

lemma prepare_cb_frame:
  assumes "Scheduler_prepare_cb cfg p i cb s = Inr (c, s')" and "sched_inv s" and "i < length (sc_workers s)"
    and "wk_pc (sc_workers s ! i) = Pc_Took t"
  shows "sched_inv s' \<and> i < length (sc_workers s') \<and> wk_pc (sc_workers s' ! i) = Pc_Took t"
proof (cases "wk_cb_fiber (sc_workers s ! i)")
  case None
  let ?wk = "(sc_workers s ! i)\<lparr>wk_cb_fiber := Some p\<rparr>"
  have s': "s' = s\<lparr>sc_world := Fiber_new cfg p cb 0 False (sc_world s), sc_workers := (sc_workers s)[i := ?wk]\<rparr>"
    using assms(1) None by (auto simp: Scheduler_prepare_cb_def Let_def)
  have "sched_inv s'"
    by (rule sched_inv_step [OF assms(2,3), of _ ?wk]) (simp_all add: s' assms(4) worker_defs)
  then show ?thesis using s' assms(3,4) by simp
next
  case (Some d)
  then obtain w' where "s' = s\<lparr>sc_world := w'\<rparr>"
    using assms(1) by (auto simp: Scheduler_prepare_cb_def Let_def rbind_eq_Inr_iff)
  then show ?thesis using assms(2-4) by (simp add: sched_inv_def)
qed

lemma drop_inv:
  assumes "sched_inv s" and "i < length (sc_workers s)" and "wk_pc (sc_workers s ! i) = Pc_Took t"
  shows "sched_inv (Scheduler_drop i s)"
  using active_positive(1) [OF assms(1,2)] assms(3)
  by (intro sched_inv_step [OF assms(1,2), of _ "(sc_workers s ! i)\<lparr>wk_pc := Pc_Loop\<rparr>"])
     (auto simp: Scheduler_drop_def worker_defs)

lemma enter_inv:
  assumes "sched_inv s" and "i < length (sc_workers s)" and "wk_pc (sc_workers s ! i) = Pc_Took t"
    and "Scheduler_enter cfg p i t s = Inr s'"
  shows "sched_inv s'"
proof -
  have cb: "sched_inv s'" if r:
    "rbind (Scheduler_prepare_cb cfg p i (ft_cb t) s) (\<lambda>(c, s'). Scheduler_enter_fiber i c True s') = Inr s'"
  proof -
    obtain c s1 where "Scheduler_prepare_cb cfg p i (ft_cb t) s = Inr (c, s1)"
      and e: "Scheduler_enter_fiber i c True s1 = Inr s'" using r by (auto simp: rbind_eq_Inr_iff)
    with prepare_cb_frame [OF _ assms(1-3)] have "sched_inv s1" "i < length (sc_workers s1)"
      "wk_pc (sc_workers s1 ! i) = Pc_Took t" by blast+
    then show ?thesis using e by (rule enter_fiber_inv)
  qed
  show ?thesis
    using assms(4) cb enter_fiber_inv [OF assms(1-3)] drop_inv [OF assms(1-3)]
    by (auto simp: Scheduler_enter_def split: option.splits if_splits)
qed

lemma decrement_inv:
  assumes "sched_inv s" and "i < length (sc_workers s)" and "wk_pc (sc_workers s ! i) = Pc_Back f c"
  shows "sched_inv (Scheduler_decrement i f c s)"
  using active_positive(1) [OF assms(1,2)] assms(3)
  by (intro sched_inv_step [OF assms(1,2), of _ "(sc_workers s ! i)\<lparr>wk_pc := Pc_Post f c\<rparr>"])
     (auto simp: Scheduler_decrement_def worker_defs)

lemma leave_inv:
  assumes "sched_inv s" and "i < length (sc_workers s)" and "wk_pc (sc_workers s ! i) = Pc_In f c"
    and "Scheduler_leave i stop f c s = Inr s'"
  shows "sched_inv s'"
  using assms
  by (auto simp: Scheduler_leave_def Let_def rbind_eq_Inr_iff worker_defs
      intro!: sched_inv_step [OF assms(1,2)])

lemma schedule_frame:
  "sc_workers (snd (Scheduler_schedule ft s)) = sc_workers s"
  "sc_activateThreadCount (snd (Scheduler_schedule ft s)) = sc_activateThreadCount s"
  "sc_idleThreadCount (snd (Scheduler_schedule ft s)) = sc_idleThreadCount s"
  "sc_world (snd (Scheduler_schedule ft s)) = sc_world s"
  "ft_fiber ft \<noteq> None \<or> ft_cb ft \<noteq> None \<Longrightarrow>
     sc_fibers (snd (Scheduler_schedule ft s)) = sc_fibers s @ [ft]"
  by (simp_all add: Scheduler_schedule_def Scheduler_scheduleNoLock_def Let_def)

lemma post_inv:
  assumes "sched_inv s" and "i < length (sc_workers s)" and "wk_pc (sc_workers s ! i) = Pc_Post f c"
    and "Scheduler_post i f c s = Inr s'"
  shows "sched_inv s'"
proof -
  let ?ft = "FiberAndThread_fiber (Some f) (- 1) :: 'a task"
  have ft: "ft_fiber ?ft \<noteq> None" by (simp add: FiberAndThread_fiber_def)
  obtain wk where "sc_workers s' = (sc_workers s)[i := wk]" and "wk_pc wk = Pc_Loop"
    and "sc_activateThreadCount s' = sc_activateThreadCount s"
    and "sc_idleThreadCount s' = sc_idleThreadCount s"
    and "sc_fibers s' = sc_fibers s \<or> sc_fibers s' = sc_fibers s @ [?ft]"
    using assms(4) ft
    by (cases c)
       (auto simp: Scheduler_post_def Scheduler_post_cb_def Scheduler_post_fiber_def Let_def
        rbind_eq_Inr_iff schedule_frame split: if_splits)
  with assms(3) ft show ?thesis
    by (intro sched_inv_step [OF assms(1,2)]) (auto simp: worker_defs)
qed

lemma idle_steps_inv:
  assumes "sched_inv s" and "i < length (sc_workers s)"
  shows "wk_pc (sc_workers s ! i) = Pc_None \<Longrightarrow> Scheduler_no_task i s = Inr s' \<Longrightarrow> sched_inv s'"
    and "wk_pc (sc_workers s ! i) = Pc_Idle \<Longrightarrow> Scheduler_idle i s = Inr s' \<Longrightarrow> sched_inv s'"
    and "wk_pc (sc_workers s ! i) = Pc_Idle_Back \<Longrightarrow> sched_inv (Scheduler_idle_back i s)"
  using active_positive(2) [OF assms]
  by (auto simp: Scheduler_no_task_def Scheduler_idle_def Scheduler_idle_back_def Let_def rbind_eq_Inr_iff
      worker_defs split: if_splits intro!: sched_inv_step [OF assms])

lemma stop_inv: "sched_inv s \<Longrightarrow> Scheduler_stop cur s = Inr (a, s') \<Longrightarrow> sched_inv s'"
  by (auto simp: Scheduler_stop_def sched_inv_def Let_def split: if_splits option.splits)

lemma run_init_inv: "sched_inv s \<Longrightarrow> sched_inv (Scheduler_run_init cfg cb tid main idle th s)"
  by (auto simp: Scheduler_run_init_def sched_inv_def count_def worker_defs Let_def split: prod.splits)

lemma start_inv:
  assumes "sched_inv s" and "Scheduler_start cfg cb ids s = Inr s'"
  shows "sched_inv s'"
proof -
  have fold: "sched_inv t \<Longrightarrow> sched_inv (fold (\<lambda>(tid, main, idle). Scheduler_run_init cfg cb tid main idle th) xs t)"
    for th xs t by (induction xs arbitrary: t) (auto simp: run_init_inv split: prod.split)
  have "sched_inv (s\<lparr>sc_stopping := False\<rparr>)" using assms(1) by (simp add: sched_inv_def)
  with fold assms show ?thesis by (auto simp: Scheduler_start_def split: if_splits)
qed

lemma call_root_inv: "sched_inv s \<Longrightarrow> Scheduler_call_root cfg cb idle th s = Inr s' \<Longrightarrow> sched_inv s'"
proof -
  assume inv: "sched_inv s" and call: "Scheduler_call_root cfg cb idle th s = Inr s'"
  then obtain root w th' where "s' = Scheduler_run_init cfg cb (sc_rootThread s) root idle th' (s\<lparr>sc_world := w\<rparr>)"
    by (auto simp: Scheduler_call_root_def rbind_eq_Inr_iff split: option.splits if_splits)
  moreover have "sched_inv (s\<lparr>sc_world := w\<rparr>)" using inv by (simp add: sched_inv_def)
  ultimately show ?thesis by (simp add: run_init_inv)
qed

lemma join_inv: "sched_inv s \<Longrightarrow> Scheduler_join s = Some s' \<Longrightarrow> sched_inv s'"
proof -
  assume "sched_inv s" "Scheduler_join s = Some s'"
  moreover from this have "filter is_active (sc_workers s) = []" "filter is_idle (sc_workers s) = []"
    by (auto simp: Scheduler_join_def list_all_iff filter_empty_conv worker_defs split: if_splits)
  ultimately show ?thesis by (auto simp: Scheduler_join_def sched_inv_def count_def split: if_splits)
qed

lemma return_inv:
  assumes "sched_inv s" and "i < length (sc_workers s)" and "wk_pc (sc_workers s ! i) = Pc_Exit" and "Scheduler_return i s = Inr s'"
  shows "sched_inv s'"
  using assms
  by (auto simp: Scheduler_return_def Let_def rbind_eq_Inr_iff worker_defs split: if_splits intro!: sched_inv_step [OF assms(1,2)])

lemma sched_step_inv:
  assumes "sched_step s s'" and "sched_inv s"
  shows "sched_inv s'"
  using assms
proof cases
  case (run i cfg p stop)
  then show ?thesis
    using take_inv [OF assms(2)] enter_inv [OF assms(2)] leave_inv [OF assms(2)]
      decrement_inv [OF assms(2)] post_inv [OF assms(2)] idle_steps_inv [OF assms(2)] return_inv [OF assms(2)] assms(2)
    by (auto simp: Scheduler_run_step_def split: run_pc.splits)
next
  case (schedule ft n)
  then show ?thesis using schedule_inv [OF assms(2), of ft] by simp
next
  case (schedule_range fts n)
  then show ?thesis using schedule_range_inv [OF assms(2), of fts] by simp
next
  case (stop cur a)
  then show ?thesis using stop_inv [OF assms(2)] by simp
next
  case (call_root cur s1 cfg cb idle th)
  show ?thesis using call_root(2) by (rule call_root_inv [OF stop_inv [OF assms(2) call_root(1)]])
next
  case join
  then show ?thesis using join_inv [OF assms(2)] by simp
next
  case (restart cfg cb ids)
  then show ?thesis using start_inv [OF assms(2)] by simp
qed

lemma sched_reach_inv: "sched_reach s s' \<Longrightarrow> sched_inv s \<Longrightarrow> sched_inv s'"
  by (induction rule: sched_reach.induct) (auto intro: sched_step_inv)

lemma new_inv:
  "Scheduler_new cfg tid has main root cb threads use_call c = Inr (s, th) \<Longrightarrow> sched_inv s"
  by (auto simp: Scheduler_new_def sched_inv_def count_def Let_def split: if_splits prod.splits)

lemmas sched_eval = Scheduler_run_step_def Scheduler_take_def Scheduler_enter_def Scheduler_enter_fiber_def
  Scheduler_leave_def Scheduler_decrement_def Scheduler_post_def Scheduler_post_fiber_def Scheduler_schedule_def
  Scheduler_scheduleNoLock_def FiberAndThread_fiber_def pinned_elsewhere_def executing_def not_done_def
  stop_defs

section \<open>Properties\<close>

text \<open>
  (C13) In every state reachable from a started scheduler, the run of the root thread inside \<^verbatim>\<open>stop\<close>, the joining of the threads and later starts included:
  the active count is the number of threads between taking a task and the decrement behind its switch, and the idle count the number of threads
  in their idle fiber (so neither counter is ever decremented at zero). Hence when \<^verbatim>\<open>stopping()\<close> answers true the
  queue is empty, and a thread that still holds a fiber is behind the decrement, where it may yet put the fiber back.
\<close>

theorem scheduler_counters:
  assumes "Scheduler_new cfg tid has main root cb threads use_call c = Inr (s0, th)"
    and "Scheduler_start cfg idle_cb ids s0 = Inr s1" and "sched_reach s1 s"
  shows "sc_activateThreadCount s = count is_active (sc_workers s)
    \<and> sc_idleThreadCount s = count is_idle (sc_workers s)
    \<and> (Scheduler_stopping s \<longrightarrow> sc_fibers s = [] \<and> (\<forall>wk\<in>set (sc_workers s). holds_task wk \<longrightarrow> (\<exists>f c. wk_pc wk = Pc_Post f c)))"
  using sched_reach_inv [OF assms(3) start_inv [OF new_inv [OF assms(1)] assms(2)]]
  by (auto simp: sched_inv_def Scheduler_stopping_def count_def filter_empty_conv holds_task_def)

theorem scheduler_counters_witness:
  "\<exists>s1. Scheduler_start 1024 () [(11, 1, 2), (12, 3, 4)]
       (\<lparr>sc_fibers = [], sc_activateThreadCount = 0, sc_idleThreadCount = 0, sc_stopping = True,
         sc_autoStop = False, sc_threadCount = 2, sc_rootFiber = None, sc_rootThread = - 1,
         sc_world = \<lparr>fw_heap = (\<lambda>_. None), s_fiber_id = 0, s_fiber_count = 0\<rparr>, sc_workers = []\<rparr>) = Inr s1
     \<and> map wk_tid (sc_workers s1) = [11, 12] \<and> sc_activateThreadCount s1 = count is_active (sc_workers s1)"
proof -
  let ?w = "\<lparr>fw_heap = (\<lambda>_. None), s_fiber_id = 0, s_fiber_count = 0\<rparr> :: unit fiber_world"
  let ?th = "\<lparr>tl_fiber = None, tl_threadFiber = None, tl_mainFiber = None, tl_context = None\<rparr>"
  let ?s = "\<lparr>sc_fibers = [], sc_activateThreadCount = 0, sc_idleThreadCount = 0, sc_stopping = True,
         sc_autoStop = False, sc_threadCount = 2, sc_rootFiber = None, sc_rootThread = - 1,
         sc_world = ?w, sc_workers = []\<rparr>"
  have new: "Scheduler_new 1024 10 False 0 0 () 2 False (?w, ?th) = Inr (?s, ?th)"
    by (simp add: Scheduler_new_def)
  obtain s1 where s1: "Scheduler_start 1024 () [(11, 1, 2), (12, 3, 4)] ?s = Inr s1"
    and "map wk_tid (sc_workers s1) = [11, 12]"
    by (simp add: Scheduler_start_def Scheduler_run_init_def Fiber_GetThis_def Fiber_new_main_def
        split_beta)
  moreover have "sc_activateThreadCount s1 = count is_active (sc_workers s1)"
    using scheduler_counters [OF new s1 sched_reach.start] by (rule conjunct1)
  ultimately show ?thesis by (intro exI [of _ s1]) simp
qed

text \<open>
  The scan of the queue never fails its assertion on queues built by \<^verbatim>\<open>schedule\<close>, takes the
  first task that is neither pinned to another thread nor of a fiber in state \<^verbatim>\<open>EXEC\<close>, and
  leaves the other tasks in their order; it asks for a tickle exactly when it took a task or saw one
  pinned to another thread.
\<close>

theorem scan_takes_first_runnable:
  assumes "\<forall>t\<in>set ts. ft_fiber t \<noteq> None \<or> ft_cb t \<noteq> None"
  shows "\<exists>tickle r rest. Scheduler_scan w tid ts = Inr (tickle, r, rest)
    \<and> (tickle \<longleftrightarrow> r \<noteq> None \<or> (\<exists>t\<in>set ts. pinned_elsewhere tid t))
    \<and> (case r of
         None \<Rightarrow> rest = ts \<and> (\<forall>t\<in>set ts. \<not> runnable w tid t)
       | Some t \<Rightarrow> runnable w tid t \<and>
           (\<exists>pre post. ts = pre @ t # post \<and> rest = pre @ post \<and> (\<forall>u\<in>set pre. \<not> runnable w tid u)))"
  using assms by (rule scan_spec)

theorem scan_takes_first_runnable_witness:
  "\<exists>tickle r rest. Scheduler_scan \<lparr>fw_heap = (\<lambda>_. None), s_fiber_id = 0, s_fiber_count = 0\<rparr> 7
       [FiberAndThread_cb (Some CHR ''a'') 8, FiberAndThread_cb (Some CHR ''b'') (- 1)] = Inr (tickle, r, rest)
     \<and> r = Some (FiberAndThread_cb (Some CHR ''b'') (- 1)) \<and> tickle"
proof -
  let ?w = "\<lparr>fw_heap = (\<lambda>_. None), s_fiber_id = 0, s_fiber_count = 0\<rparr>"
  let ?ts = "[FiberAndThread_cb (Some CHR ''a'') 8, FiberAndThread_cb (Some CHR ''b'') (- 1)]"
  have "\<forall>t\<in>set ?ts. ft_fiber t \<noteq> None \<or> ft_cb t \<noteq> None" by (simp add: FiberAndThread_cb_def)
  from scan_takes_first_runnable [OF this, of ?w 7] show ?thesis
    by (auto simp: FiberAndThread_cb_def pinned_elsewhere_def executing_def)
qed

text \<open>
  \<^verbatim>\<open>schedule\<close> of a single task appends it to the queue and never tickles, not even when the
  queue was empty; the version for a range tickles exactly when the queue was empty when one
  of its tasks arrived.
\<close>

theorem schedule_never_tickles:
  "fst (Scheduler_schedule ft s) = False
   \<and> fst (Scheduler_schedule_range (ft # fts) s) = (sc_fibers s = [] \<or>
        fst (Scheduler_schedule_range fts (snd (Scheduler_scheduleNoLock ft s))))"
  by (simp add: Scheduler_schedule_def Scheduler_scheduleNoLock_def split_beta Let_def)

text \<open>
  A fiber queued twice can be taken by two threads before either has switched into it:
  the second one then fails the assertion in \<^verbatim>\<open>swapIn\<close>. The test for \<^verbatim>\<open>EXEC\<close> under the lock does
  not exclude this, because the state is only set after the lock is released.
\<close>

theorem double_take_fails_assertion:
  "\<exists>(s0 :: unit scheduler) s1 s2 s3 cfg p. sched_inv s0
     \<and> sc_fibers s0 = [FiberAndThread_fiber (Some 5) (- 1), FiberAndThread_fiber (Some 5) (- 1)]
     \<and> Scheduler_run_step cfg p Stop_Return 0 s0 = Inr s1 \<and> Scheduler_run_step cfg p Stop_Return 1 s1 = Inr s2
     \<and> Scheduler_run_step cfg p Stop_Return 0 s2 = Inr s3
     \<and> Scheduler_run_step cfg p Stop_Return 1 s3 = Inl Assertion_Failed"
proof -
  let ?main = "\<lparr>fb_id = 0, fb_stacksize = 0, fb_state = Fiber_EXEC, fb_stack = False, fb_entry = Entry_None,
      fb_cb = None\<rparr> :: unit fiber"
  let ?f = "\<lparr>fb_id = 1, fb_stacksize = 64, fb_state = Fiber_HOLD, fb_stack = True, fb_entry = Entry_MainFunc,
      fb_cb = Some ()\<rparr>"
  let ?wk = "\<lambda>tid m. \<lparr>wk_tid = tid, wk_pc = Pc_Loop, wk_cb_fiber = None, wk_idle = 0,
      wk_tl = \<lparr>tl_fiber = Some m, tl_threadFiber = Some m, tl_mainFiber = Some m, tl_context = Some m\<rparr>\<rparr> :: unit worker"
  let ?s = "\<lparr>sc_fibers = [FiberAndThread_fiber (Some 5) (- 1), FiberAndThread_fiber (Some 5) (- 1)],
      sc_activateThreadCount = 0, sc_idleThreadCount = 0, sc_stopping = False, sc_autoStop = False,
      sc_threadCount = 2, sc_rootFiber = None, sc_rootThread = - 1,
      sc_world = \<lparr>fw_heap = [1 \<mapsto> ?main, 2 \<mapsto> ?main, 5 \<mapsto> ?f], s_fiber_id = 1, s_fiber_count = 3\<rparr>,
      sc_workers = [?wk 11 1, ?wk 12 2]\<rparr>"
  have inv: "sched_inv ?s" by (simp add: sched_inv_def count_def worker_defs FiberAndThread_fiber_def)
  show ?thesis
    by (intro exI [of _ ?s] exI conjI, rule inv, simp, (simp add: sched_eval; fail)+)
qed

text \<open>
  \<^verbatim>\<open>stopping()\<close> can answer true although work is still to come: a thread whose fiber yielded
  \<^verbatim>\<open>READY\<close> decrements the active count before it puts the fiber back into the queue, and in
  between the queue is empty and the count zero.
\<close>

theorem stopping_not_stable:
  "\<exists>(s0 :: unit scheduler) s1 s2. sched_inv s0 \<and> sched_reach s0 s1 \<and> Scheduler_stopping s1
     \<and> sched_step s1 s2 \<and> sc_fibers s2 \<noteq> []"
proof -
  let ?main = "\<lparr>fb_id = 0, fb_stacksize = 0, fb_state = Fiber_EXEC, fb_stack = False, fb_entry = Entry_None,
      fb_cb = None\<rparr> :: unit fiber"
  let ?f = "\<lparr>fb_id = 1, fb_stacksize = 64, fb_state = Fiber_HOLD, fb_stack = True, fb_entry = Entry_MainFunc,
      fb_cb = Some ()\<rparr>"
  let ?s = "\<lparr>sc_fibers = [FiberAndThread_fiber (Some 5) (- 1)],
      sc_activateThreadCount = 0, sc_idleThreadCount = 0, sc_stopping = True, sc_autoStop = True,
      sc_threadCount = 1, sc_rootFiber = None, sc_rootThread = - 1,
      sc_world = \<lparr>fw_heap = [1 \<mapsto> ?main, 5 \<mapsto> ?f], s_fiber_id = 1, s_fiber_count = 2\<rparr>,
      sc_workers = [\<lparr>wk_tid = 11, wk_pc = Pc_Loop, wk_cb_fiber = None, wk_idle = 0,
        wk_tl = \<lparr>tl_fiber = Some 1, tl_threadFiber = Some 1, tl_mainFiber = Some 1, tl_context = Some 1\<rparr>\<rparr>]\<rparr>
      :: unit scheduler"
  let ?go = "Scheduler_run_step 64 9 Stop_Ready 0"
  have inv: "sched_inv ?s" by (simp add: sched_inv_def count_def worker_defs FiberAndThread_fiber_def)
  obtain a b c d e where run: "?go ?s = Inr a" "?go a = Inr b" "?go b = Inr c" "?go c = Inr d" "?go d = Inr e"
    and len: "length (sc_workers ?s) = 1" "length (sc_workers a) = 1" "length (sc_workers b) = 1"
      "length (sc_workers c) = 1" "length (sc_workers d) = 1"
    and stop: "Scheduler_stopping d" and "sc_fibers e \<noteq> []"
    by (simp add: sched_eval Scheduler_stopping_def)
  have st: "sched_step x y" if "?go x = Inr y" "length (sc_workers x) = 1" for x y :: "unit scheduler"
    using that by (intro sched_step.run [of 0 x 64 9 Stop_Ready]) simp_all
  have "sched_reach ?s d"
    using st [OF run(1) len(1)] st [OF run(2) len(2)] st [OF run(3) len(3)] st [OF run(4) len(4)]
    by (meson sched_reach.intros)
  then show ?thesis using inv stop st [OF run(5) len(5)] \<open>sc_fibers e \<noteq> []\<close> by blast
qed

end
