(* ===== verification/Timer.thy ===== *)
theory Timer
  imports Tiny_Prelude
begin

text \<open>
  Model of \<^verbatim>\<open>src/src/timer.h\<close> and \<^verbatim>\<open>src/src/timer.cpp\<close>: timers in a
  \<^verbatim>\<open>std::set\<close> ordered by their due time and address, with the operations that add, cancel,
  refresh and reset a timer and that collect the callbacks that are due.

  A \<^verbatim>\<open>Ref<Timer>\<close> is the address of a timer in the heap \<open>tm_heap\<close>; the set is the list of
  its elements in the order of \<^verbatim>\<open>Timer::Compare\<close>. Times are 64 bit words, as in the source: the sum
  of the clock and an interval may wrap. The clock \<^verbatim>\<open>GetCurrentMs()\<close> and the address a
  \<^verbatim>\<open>new Timer\<close> gets are arguments of the operations. Every operation runs under the manager's
  lock and is one atomic step here.
\<close>

section \<open>std::set\<close>

text \<open>The operations of \<^verbatim>\<open>std::set\<close> that are used, on the ordered list of its elements.\<close>

fun set_insert :: "('a \<Rightarrow> 'a \<Rightarrow> bool) \<Rightarrow> 'a \<Rightarrow> 'a list \<Rightarrow> 'a list" where
  "set_insert lt x [] = [x]"
| "set_insert lt x (y # ys) =
     (if lt y x then y # set_insert lt x ys else if lt x y then x # y # ys else y # ys)"

definition set_lower_bound :: "('a \<Rightarrow> bool) \<Rightarrow> 'a list \<Rightarrow> 'a list" where
  "set_lower_bound before xs = dropWhile before xs"

definition set_find :: "('a \<Rightarrow> 'a \<Rightarrow> bool) \<Rightarrow> 'a \<Rightarrow> 'a list \<Rightarrow> 'a option" where
  "set_find lt x xs =
     (case set_lower_bound (\<lambda>y. lt y x) xs of
        [] \<Rightarrow> None
      | y # _ \<Rightarrow> if lt x y then None else Some y)"

definition set_erase :: "'a \<Rightarrow> 'a list \<Rightarrow> 'a list" where
  "set_erase x xs = remove1 x xs"

text \<open>What the operations need of the comparison, and what they then guarantee.\<close>

locale strict_order =
  fixes lt :: "'a \<Rightarrow> 'a \<Rightarrow> bool"
  assumes irrefl: "\<not> lt x x"
    and trans: "lt x y \<Longrightarrow> lt y z \<Longrightarrow> lt x z"
    and total: "x \<noteq> y \<Longrightarrow> lt x y \<or> lt y x"
begin

lemma set_insert_set: "set (set_insert lt x xs) = insert x (set xs)"
  using total by (induction xs) auto

lemma set_insert_sorted: "sorted_wrt lt xs \<Longrightarrow> sorted_wrt lt (set_insert lt x xs)"
proof (induction xs)
  case Nil
  then show ?case by simp
next
  case (Cons y ys)
  then show ?case using trans [of x y] by (auto simp: set_insert_set)
qed

lemma set_insert_hd:
  assumes "sorted_wrt lt xs"
  shows "hd (set_insert lt x xs) = x \<longleftrightarrow> (\<forall>y\<in>set xs. y = x \<or> lt x y)"
proof (cases xs)
  case (Cons y ys)
  have "hd (set_insert lt x xs) = x \<longleftrightarrow> y = x \<or> lt x y"
    using Cons total [of x y] irrefl trans [of x y x] by auto
  moreover have "lt x z" if "y = x \<or> lt x y" "z \<in> set ys" for z
    using that assms Cons trans by auto
  ultimately show ?thesis using Cons by auto
qed simp

lemma sorted_distinct: "sorted_wrt lt xs \<Longrightarrow> distinct xs"
  using irrefl by (induction xs) auto

lemma set_find_iff: "sorted_wrt lt xs \<Longrightarrow> set_find lt x xs = (if x \<in> set xs then Some x else None)"
proof (induction xs)
  case Nil
  then show ?case by (simp add: set_find_def set_lower_bound_def)
next
  case (Cons y ys)
  consider "y = x" | "y \<noteq> x" "lt y x" | "y \<noteq> x" "lt x y" "\<not> lt y x"
    using total irrefl trans by blast
  then show ?case
  proof cases
    case 1
    then show ?thesis by (simp add: set_find_def set_lower_bound_def irrefl)
  next
    case 2
    then show ?thesis using Cons by (simp add: set_find_def set_lower_bound_def)
  next
    case 3
    then have "x \<notin> set ys" using Cons.prems irrefl trans by auto
    with 3 show ?thesis by (simp add: set_find_def set_lower_bound_def)
  qed
qed

lemma set_erase_sorted: "sorted_wrt lt xs \<Longrightarrow> sorted_wrt lt (set_erase x xs)"
proof (induction xs)
  case Nil
  then show ?case by (simp add: set_erase_def)
next
  case (Cons y ys)
  then show ?case using set_remove1_subset [of x ys] by (auto simp: set_erase_def)
qed

lemma set_erase_set: "sorted_wrt lt xs \<Longrightarrow> set (set_erase x xs) = set xs - {x}"
  using sorted_distinct by (simp add: set_erase_def)

end

section \<open>Timers\<close>

record 'cb timer =
  t_ms :: u64
  t_next :: u64
  t_cb :: "'cb option"
  t_recurring :: bool

record 'cb timer_manager =
  tm_heap :: "nat \<Rightarrow> 'cb timer option"
  tm_timers :: "nat list"
  tm_tickled :: bool
  tm_previousTime :: u64

text \<open>
  The due time of the timer at an address; the set holds allocated timers only, so the value
  for other addresses is never used.
\<close>

definition next_of :: "(nat \<Rightarrow> 'cb timer option) \<Rightarrow> nat \<Rightarrow> u64" where
  "next_of h p = (case h p of Some t \<Rightarrow> t_next t | None \<Rightarrow> 0)"

fun Timer_Compare :: "(nat \<Rightarrow> 'cb timer option) \<Rightarrow> nat option \<Rightarrow> nat option \<Rightarrow> bool" where
  "Timer_Compare h None None = False"
| "Timer_Compare h None (Some q) = True"
| "Timer_Compare h (Some p) None = False"
| "Timer_Compare h (Some p) (Some q) =
     (if next_of h p < next_of h q then True
      else if next_of h q < next_of h p then False
      else p < q)"

definition timer_less :: "(nat \<Rightarrow> 'cb timer option) \<Rightarrow> nat \<Rightarrow> nat \<Rightarrow> bool" where
  "timer_less h p q = Timer_Compare h (Some p) (Some q)"

lemma timer_less_iff:
  "timer_less h p q \<longleftrightarrow> next_of h p < next_of h q \<or> next_of h p = next_of h q \<and> p < q"
  by (auto simp: timer_less_def)

interpretation timers: strict_order "timer_less h" for h :: "nat \<Rightarrow> 'cb timer option"
  by unfold_locales (auto simp: timer_less_iff)

definition Timer_new :: "u64 \<Rightarrow> u64 \<Rightarrow> 'cb option \<Rightarrow> bool \<Rightarrow> 'cb timer" where
  "Timer_new now ms cb recurring =
     \<lparr>t_ms = ms, t_next = now + ms, t_cb = cb, t_recurring = recurring\<rparr>"

definition Timer_new_now :: "u64 \<Rightarrow> 'cb timer" where
  "Timer_new_now now_time = \<lparr>t_ms = 0, t_next = now_time, t_cb = None, t_recurring = False\<rparr>"

definition TimerManager_new :: "u64 \<Rightarrow> 'cb timer_manager" where
  "TimerManager_new now =
     \<lparr>tm_heap = (\<lambda>_. None), tm_timers = [], tm_tickled = False, tm_previousTime = now\<rparr>"

section \<open>Operations\<close>

text \<open>
  The locked \<^verbatim>\<open>addTimer\<close>; the second component says whether it calls
  \<^verbatim>\<open>onTimerInsertAtFront\<close>.
\<close>

definition TimerManager_addTimer_locked ::
    "nat \<Rightarrow> 'cb timer_manager \<Rightarrow> 'cb timer_manager \<times> bool" where
  "TimerManager_addTimer_locked p tm =
     (let timers = set_insert (timer_less (tm_heap tm)) p (tm_timers tm);
          at_front = (hd timers = p \<and> \<not> tm_tickled tm)
      in (tm\<lparr>tm_timers := timers, tm_tickled := (if at_front then True else tm_tickled tm)\<rparr>, at_front))"

definition TimerManager_addTimer ::
    "nat \<Rightarrow> u64 \<Rightarrow> u64 \<Rightarrow> 'cb option \<Rightarrow> bool \<Rightarrow> 'cb timer_manager \<Rightarrow> 'cb timer_manager \<times> bool" where
  "TimerManager_addTimer p now ms cb recurring tm =
     TimerManager_addTimer_locked p
       (tm\<lparr>tm_heap := (tm_heap tm)(p \<mapsto> Timer_new now ms cb recurring)\<rparr>)"

text \<open>
  A condition timer's callback runs the user's callback only while its condition object is
  alive; \<open>alive\<close> is the state of the weak pointer when the callback runs.
\<close>

definition OnTimer :: "bool \<Rightarrow> ('s \<Rightarrow> 's) \<Rightarrow> 's \<Rightarrow> 's" where
  "OnTimer alive cb s = (if alive then cb s else s)"

definition TimerManager_addConditionTimer ::
    "nat \<Rightarrow> u64 \<Rightarrow> u64 \<Rightarrow> ('s \<Rightarrow> 's) \<Rightarrow> ('s \<Rightarrow> bool) \<Rightarrow> bool \<Rightarrow> ('s \<Rightarrow> 's) timer_manager
      \<Rightarrow> ('s \<Rightarrow> 's) timer_manager \<times> bool" where
  "TimerManager_addConditionTimer p now ms cb weak_cond recurring tm =
     TimerManager_addTimer p now ms (Some (\<lambda>s. OnTimer (weak_cond s) cb s)) recurring tm"

text \<open>
  \<^verbatim>\<open>cancle\<close> erases what \<^verbatim>\<open>find\<close> returns without looking at it: \<open>None\<close> is the undefined
  \<^verbatim>\<open>erase(end())\<close>.
\<close>

definition Timer_cancle :: "nat \<Rightarrow> 'cb timer_manager \<Rightarrow> (bool \<times> 'cb timer_manager) option" where
  "Timer_cancle p tm =
     (case tm_heap tm p of
        None \<Rightarrow> Some (False, tm)
      | Some t \<Rightarrow>
          if t_cb t \<noteq> None then
            (let tm' = tm\<lparr>tm_heap := (tm_heap tm)(p \<mapsto> t\<lparr>t_cb := None\<rparr>)\<rparr>
             in case set_find (timer_less (tm_heap tm')) p (tm_timers tm') of
                  None \<Rightarrow> None
                | Some q \<Rightarrow> Some (True, tm'\<lparr>tm_timers := set_erase q (tm_timers tm')\<rparr>))
          else Some (False, tm))"

definition Timer_refresh :: "nat \<Rightarrow> u64 \<Rightarrow> 'cb timer_manager \<Rightarrow> bool \<times> 'cb timer_manager" where
  "Timer_refresh p now tm =
     (case tm_heap tm p of
        None \<Rightarrow> (False, tm)
      | Some t \<Rightarrow>
          if t_cb t = None then (False, tm)
          else case set_find (timer_less (tm_heap tm)) p (tm_timers tm) of
                 None \<Rightarrow> (False, tm)
               | Some q \<Rightarrow>
                   let h = (tm_heap tm)(p \<mapsto> t\<lparr>t_next := now + t_ms t\<rparr>)
                   in (True, tm\<lparr>tm_heap := h,
                         tm_timers := set_insert (timer_less h) p (set_erase q (tm_timers tm))\<rparr>))"

definition Timer_reset ::
    "nat \<Rightarrow> u64 \<Rightarrow> u64 \<Rightarrow> bool \<Rightarrow> 'cb timer_manager \<Rightarrow> bool \<times> 'cb timer_manager \<times> bool" where
  "Timer_reset p now ms from_now tm =
     (case tm_heap tm p of
        None \<Rightarrow> (False, tm, False)
      | Some t \<Rightarrow>
          if ms = t_ms t \<and> \<not> from_now then (False, tm, False)
          else if t_cb t = None then (False, tm, False)
          else case set_find (timer_less (tm_heap tm)) p (tm_timers tm) of
                 None \<Rightarrow> (False, tm, False)
               | Some q \<Rightarrow>
                   let start = (if from_now then now else t_next t - t_ms t);
                       tm' = tm\<lparr>tm_heap := (tm_heap tm)(p \<mapsto> t\<lparr>t_ms := ms, t_next := start + ms\<rparr>),
                                tm_timers := set_erase q (tm_timers tm)\<rparr>
                   in (True, TimerManager_addTimer_locked p tm'))"

definition TimerManager_getNextTimer :: "u64 \<Rightarrow> 'cb timer_manager \<Rightarrow> u64 \<times> 'cb timer_manager" where
  "TimerManager_getNextTimer now tm =
     (let tm' = tm\<lparr>tm_tickled := True\<rparr> in
      case tm_timers tm' of
        [] \<Rightarrow> (- 1, tm')
      | p # _ \<Rightarrow> if now > next_of (tm_heap tm') p then (0, tm')
                 else (next_of (tm_heap tm') p - now, tm'))"

definition TimerManager_detectClockRollover ::
    "u64 \<Rightarrow> 'cb timer_manager \<Rightarrow> bool \<times> 'cb timer_manager" where
  "TimerManager_detectClockRollover now_time tm =
     (now_time < tm_previousTime tm \<and> now_time < tm_previousTime tm - 60 * 60 * 1000,
      tm\<lparr>tm_previousTime := now_time\<rparr>)"

text \<open>
  The loop of \<^verbatim>\<open>listExpireCB\<close> over the expired timers. A callback may be empty when the
  timer was added with an empty one.
\<close>

fun expireLoop :: "u64 \<Rightarrow> nat list \<Rightarrow> 'cb timer_manager \<Rightarrow> 'cb option list \<times> 'cb timer_manager" where
  "expireLoop now_time [] tm = ([], tm)"
| "expireLoop now_time (p # ps) tm =
     (case tm_heap tm p of
        None \<Rightarrow> expireLoop now_time ps tm
      | Some t \<Rightarrow>
          let tm' =
            (if t_recurring t then
               (let h = (tm_heap tm)(p \<mapsto> t\<lparr>t_next := now_time + t_ms t\<rparr>)
                in tm\<lparr>tm_heap := h, tm_timers := set_insert (timer_less h) p (tm_timers tm)\<rparr>)
             else tm\<lparr>tm_heap := (tm_heap tm)(p \<mapsto> t\<lparr>t_cb := None\<rparr>)\<rparr>);
              (cbs, tm'') = expireLoop now_time ps tm'
          in (t_cb t # cbs, tm''))"

text \<open>The address \<open>q\<close> is that of the temporary \<^verbatim>\<open>now_timer\<close> the lower bound compares with.\<close>

definition expired_end :: "nat \<Rightarrow> u64 \<Rightarrow> 'cb timer_manager \<Rightarrow> nat list" where
  "expired_end q now_time tm =
     (let h = (tm_heap tm)(q \<mapsto> Timer_new_now now_time)
      in dropWhile (\<lambda>p. next_of (tm_heap tm) p = now_time)
           (set_lower_bound (\<lambda>p. timer_less h p q) (tm_timers tm)))"

definition TimerManager_listExpireCB ::
    "nat \<Rightarrow> u64 \<Rightarrow> 'cb timer_manager \<Rightarrow> 'cb option list \<times> 'cb timer_manager" where
  "TimerManager_listExpireCB q now_time tm =
     (case tm_timers tm of
        [] \<Rightarrow> ([], tm)
      | p # _ \<Rightarrow>
          let (rollover, tm1) = TimerManager_detectClockRollover now_time tm in
          if \<not> rollover \<and> next_of (tm_heap tm1) p > now_time then ([], tm1)
          else let rest = (if rollover then [] else expired_end q now_time tm1);
                   expire = take (length (tm_timers tm1) - length rest) (tm_timers tm1)
               in expireLoop now_time expire (tm1\<lparr>tm_timers := rest\<rparr>))"

definition TimerManager_hasTimer :: "'cb timer_manager \<Rightarrow> bool" where
  "TimerManager_hasTimer tm \<longleftrightarrow> tm_timers tm \<noteq> []"

section \<open>Invariant\<close>

text \<open>
  The timers with a callback are exactly the elements of the set, which is ordered by due
  time and address.
\<close>

definition armed :: "(nat \<Rightarrow> 'cb timer option) \<Rightarrow> nat set" where
  "armed h = {p. \<exists>t. h p = Some t \<and> t_cb t \<noteq> None}"

definition tm_inv :: "'cb timer_manager \<Rightarrow> bool" where
  "tm_inv tm \<longleftrightarrow> sorted_wrt (timer_less (tm_heap tm)) (tm_timers tm)
     \<and> set (tm_timers tm) = armed (tm_heap tm)"

lemma tm_inv_new: "tm_inv (TimerManager_new now)"
  by (simp add: tm_inv_def TimerManager_new_def armed_def)

lemma next_of_upd [simp]: "next_of (h(p \<mapsto> t)) q = (if q = p then t_next t else next_of h q)"
  by (simp add: next_of_def)

lemma sorted_next_cong:
  assumes "\<And>q. q \<in> set xs \<Longrightarrow> next_of h q = next_of h' q"
  shows "sorted_wrt (timer_less h) xs = sorted_wrt (timer_less h') xs"
  by (rule iffI; erule sorted_wrt_mono_rel [rotated]) (simp_all add: timer_less_iff assms)

lemma armed_upd: "armed (h(p \<mapsto> t)) = (if t_cb t \<noteq> None then insert p (armed h) else armed h - {p})"
  by (auto simp: armed_def)

lemma sorted_upd: "p \<notin> set xs \<Longrightarrow>
    sorted_wrt (timer_less (h(p \<mapsto> t))) xs = sorted_wrt (timer_less h) xs"
  by (rule sorted_next_cong) auto

text \<open>Taking a timer out of the set, changing it, and putting it back keeps the invariant.\<close>

lemma reinsert_inv:
  fixes h :: "nat \<Rightarrow> 'cb timer option"
  assumes "sorted_wrt (timer_less h) xs" and "set xs = armed h - {p}" and "t_cb t \<noteq> None"
  shows "sorted_wrt (timer_less (h(p \<mapsto> t))) (set_insert (timer_less (h(p \<mapsto> t))) p xs)"
    and "set (set_insert (timer_less (h(p \<mapsto> t))) p xs) = armed (h(p \<mapsto> t))"
proof -
  have "p \<notin> set xs" using assms(2) by auto
  with assms(1) have "sorted_wrt (timer_less (h(p \<mapsto> t))) xs" by (simp add: sorted_upd)
  then show "sorted_wrt (timer_less (h(p \<mapsto> t))) (set_insert (timer_less (h(p \<mapsto> t))) p xs)"
    by (rule timers.set_insert_sorted)
  show "set (set_insert (timer_less (h(p \<mapsto> t))) p xs) = armed (h(p \<mapsto> t))"
    using assms by (auto simp: timers.set_insert_set armed_upd)
qed

lemma addTimer_locked_frame [simp]:
  "tm_heap (fst (TimerManager_addTimer_locked p tm)) = tm_heap tm"
  "tm_timers (fst (TimerManager_addTimer_locked p tm))
     = set_insert (timer_less (tm_heap tm)) p (tm_timers tm)"
  "tm_tickled (fst (TimerManager_addTimer_locked p tm))
     \<longleftrightarrow> tm_tickled tm \<or> snd (TimerManager_addTimer_locked p tm)"
  by (auto simp: TimerManager_addTimer_locked_def Let_def)

lemma addTimer_inv:
  assumes "tm_inv tm" and "tm_heap tm p = None" and "cb \<noteq> None"
  shows "tm_inv (fst (TimerManager_addTimer p now ms cb recurring tm))"
proof -
  have "p \<notin> armed (tm_heap tm)" using assms(2) by (simp add: armed_def)
  then show ?thesis
    using assms reinsert_inv [of "tm_heap tm" "tm_timers tm" p "Timer_new now ms cb recurring"]
    by (simp add: tm_inv_def TimerManager_addTimer_def Timer_new_def)
qed

lemma find_armed: "tm_inv tm \<Longrightarrow>
    set_find (timer_less (tm_heap tm)) p (tm_timers tm) = (if p \<in> armed (tm_heap tm) then Some p else None)"
  by (simp add: tm_inv_def timers.set_find_iff)

lemma armedI: "tm_heap tm p = Some t \<Longrightarrow> t_cb t \<noteq> None \<Longrightarrow> p \<in> armed (tm_heap tm)"
  by (simp add: armed_def)

lemma cancle_spec:
  assumes "tm_inv tm"
  obtains tm' where "Timer_cancle p tm = Some (p \<in> armed (tm_heap tm), tm')" and "tm_inv tm'"
    and "p \<notin> armed (tm_heap tm')" and "set (tm_timers tm') = set (tm_timers tm) - {p}"
    and "tm_tickled tm' = tm_tickled tm"
proof (cases "p \<in> armed (tm_heap tm)")
  case True
  then obtain t where t: "tm_heap tm p = Some t" "t_cb t \<noteq> None" by (auto simp: armed_def)
  let ?h = "(tm_heap tm)(p \<mapsto> t\<lparr>t_cb := None\<rparr>)"
  let ?tm = "tm\<lparr>tm_heap := ?h, tm_timers := set_erase p (tm_timers tm)\<rparr>"
  have s: "sorted_wrt (timer_less (tm_heap tm)) (tm_timers tm)" and set: "set (tm_timers tm) = armed (tm_heap tm)"
    using assms by (simp_all add: tm_inv_def)
  have sh: "sorted_wrt (timer_less ?h) (tm_timers tm)"
    using s t by (subst sorted_next_cong [of _ _ "tm_heap tm"]) (auto simp: next_of_def)
  then have "set_find (timer_less ?h) p (tm_timers tm) = Some p"
    using True set timers.set_find_iff [OF sh] by simp
  then have "Timer_cancle p tm = Some (True, ?tm)" using t by (simp add: Timer_cancle_def)
  moreover have "tm_inv ?tm"
    using sh set timers.set_erase_sorted [OF sh] timers.set_erase_set [OF sh]
    by (simp add: tm_inv_def armed_upd)
  ultimately show thesis using True set that [of ?tm] timers.set_erase_set [OF sh]
    by (simp add: armed_upd)
next
  case False
  then have "Timer_cancle p tm = Some (False, tm)"
    by (auto simp: Timer_cancle_def armed_def split: option.splits)
  with False assms that [of tm] show thesis by (simp add: tm_inv_def)
qed

text \<open>Both \<^verbatim>\<open>refresh\<close> and \<^verbatim>\<open>reset\<close> change an armed timer and reinsert it.\<close>

lemma rearm_inv:
  assumes "tm_inv tm" and "tm_heap tm p = Some t" and "t_cb t \<noteq> None" and "t_cb t' = t_cb t"
    and "tm_heap tm' = (tm_heap tm)(p \<mapsto> t')"
    and "tm_timers tm' = set_insert (timer_less (tm_heap tm')) p (set_erase p (tm_timers tm))"
  shows "tm_inv tm'"
proof -
  have s: "sorted_wrt (timer_less (tm_heap tm)) (tm_timers tm)" and set: "set (tm_timers tm) = armed (tm_heap tm)"
    using assms by (simp_all add: tm_inv_def)
  show ?thesis
    using reinsert_inv [OF timers.set_erase_sorted [OF s, of p], where t = t' and p = p] assms
      timers.set_erase_set [OF s, of p] set by (simp add: tm_inv_def)
qed

lemma refresh_armed:
  assumes "tm_inv tm" and "tm_heap tm p = Some t" and "t_cb t \<noteq> None"
  shows "Timer_refresh p now tm =
    (let h = (tm_heap tm)(p \<mapsto> t\<lparr>t_next := now + t_ms t\<rparr>)
     in (True, tm\<lparr>tm_heap := h,
           tm_timers := set_insert (timer_less h) p (set_erase p (tm_timers tm))\<rparr>))"
  using assms armedI [OF assms(2,3)] by (auto simp: Timer_refresh_def find_armed)

lemma refresh_idle: "p \<notin> armed (tm_heap tm) \<Longrightarrow> Timer_refresh p now tm = (False, tm)"
  by (auto simp: Timer_refresh_def armed_def split: option.splits)

lemma refresh_inv:
  assumes "tm_inv tm" shows "tm_inv (snd (Timer_refresh p now tm))"
proof (cases "p \<in> armed (tm_heap tm)")
  case True
  then obtain t where t: "tm_heap tm p = Some t" "t_cb t \<noteq> None" by (auto simp: armed_def)
  show ?thesis using rearm_inv [OF assms t, of "t\<lparr>t_next := now + t_ms t\<rparr>"] refresh_armed [OF assms t]
    by (simp add: Let_def)
qed (simp add: assms refresh_idle)

lemma reset_armed:
  assumes "tm_inv tm" and "tm_heap tm p = Some t" and "t_cb t \<noteq> None" and "ms \<noteq> t_ms t \<or> from_now"
  shows "Timer_reset p now ms from_now tm =
    (True, TimerManager_addTimer_locked p
       (tm\<lparr>tm_heap := (tm_heap tm)
              (p \<mapsto> t\<lparr>t_ms := ms, t_next := (if from_now then now else t_next t - t_ms t) + ms\<rparr>),
           tm_timers := set_erase p (tm_timers tm)\<rparr>))"
  using assms armedI [OF assms(2,3)] by (auto simp: Timer_reset_def find_armed)

lemma reset_idle:
  assumes "p \<notin> armed (tm_heap tm) \<or> (\<exists>t. tm_heap tm p = Some t \<and> ms = t_ms t \<and> \<not> from_now)"
  shows "Timer_reset p now ms from_now tm = (False, tm, False)"
  using assms by (auto simp: Timer_reset_def armed_def split: option.splits)

lemma reset_cases:
  assumes "tm_inv tm"
  obtains "Timer_reset p now ms from_now tm = (False, tm, False)"
  | t where "tm_heap tm p = Some t" and "t_cb t \<noteq> None" and "ms \<noteq> t_ms t \<or> from_now"
proof (cases "p \<notin> armed (tm_heap tm) \<or> (\<exists>t. tm_heap tm p = Some t \<and> ms = t_ms t \<and> \<not> from_now)")
  case True
  then show ?thesis using reset_idle that(1) by blast
next
  case False
  then show ?thesis using that(2) by (auto simp: armed_def)
qed

lemma reset_inv:
  assumes "tm_inv tm" shows "tm_inv (fst (snd (Timer_reset p now ms from_now tm)))"
  using assms
proof (cases rule: reset_cases [of tm p now ms from_now])
  case (2 t)
  show ?thesis
    using reset_armed [OF assms 2] rearm_inv [OF assms 2(1,2),
        of "t\<lparr>t_ms := ms, t_next := (if from_now then now else t_next t - t_ms t) + ms\<rparr>"]
    by simp
qed (simp add: assms)

lemma getNextTimer_frame [simp]:
  "tm_heap (snd (TimerManager_getNextTimer now tm)) = tm_heap tm"
  "tm_timers (snd (TimerManager_getNextTimer now tm)) = tm_timers tm"
  "tm_tickled (snd (TimerManager_getNextTimer now tm))"
  by (simp_all add: TimerManager_getNextTimer_def Let_def split: list.split)

lemma getNextTimer_inv: "tm_inv tm \<Longrightarrow> tm_inv (snd (TimerManager_getNextTimer now tm))"
  by (simp add: tm_inv_def)

section \<open>Expiry\<close>

text \<open>A timer after it has fired.\<close>

definition fired :: "u64 \<Rightarrow> 'cb timer \<Rightarrow> 'cb timer" where
  "fired now t = (if t_recurring t then t\<lparr>t_next := now + t_ms t\<rparr> else t\<lparr>t_cb := None\<rparr>)"

lemma expireLoop_spec:
  fixes tm :: "'cb timer_manager"
  assumes "sorted_wrt (timer_less (tm_heap tm)) (tm_timers tm)" and "distinct ps"
    and "set ps \<inter> set (tm_timers tm) = {}" and "set ps \<union> set (tm_timers tm) = armed (tm_heap tm)"
    and "expireLoop now ps tm = (cbs, tm')"
  shows "tm_inv tm' \<and> cbs = map (\<lambda>p. t_cb (the (tm_heap tm p))) ps
    \<and> tm_heap tm' = (\<lambda>p. if p \<in> set ps then map_option (fired now) (tm_heap tm p) else tm_heap tm p)
    \<and> tm_tickled tm' = tm_tickled tm \<and> tm_previousTime tm' = tm_previousTime tm"
  using assms
proof (induction ps arbitrary: tm cbs)
  case Nil
  then show ?case by (auto simp: tm_inv_def)
next
  case (Cons p ps)
  have "p \<in> armed (tm_heap tm)" using Cons.prems(4) by auto
  then obtain t where t: "tm_heap tm p = Some t" "t_cb t \<noteq> None" by (auto simp: armed_def)
  let ?h = "(tm_heap tm)(p \<mapsto> fired now t)"
  let ?ts = "if t_recurring t then set_insert (timer_less ?h) p (tm_timers tm) else tm_timers tm"
  let ?tm = "tm\<lparr>tm_heap := ?h, tm_timers := ?ts\<rparr>"
  obtain cbs' where rest: "expireLoop now ps ?tm = (cbs', tm')" and cbs: "cbs = t_cb t # cbs'"
    using Cons.prems(5) t by (auto simp: Let_def fired_def split: prod.splits if_splits)
  have pts: "p \<notin> set (tm_timers tm)" using Cons.prems(3) by auto
  have s: "sorted_wrt (timer_less ?h) (tm_timers tm)" using Cons.prems(1) pts by (simp add: sorted_upd)
  have s': "sorted_wrt (timer_less ?h) ?ts" using s timers.set_insert_sorted [OF s] by simp
  have set_ts: "set ?ts = (if t_recurring t then insert p (set (tm_timers tm)) else set (tm_timers tm))"
    by (simp add: timers.set_insert_set)
  have arm: "armed ?h = (if t_recurring t then armed (tm_heap tm) else armed (tm_heap tm) - {p})"
    using t \<open>p \<in> armed _\<close> by (auto simp: armed_upd fired_def)
  have a1: "set ps \<inter> set ?ts = {}" and a2: "set ps \<union> set ?ts = armed ?h"
    using Cons.prems(2,3,4) pts unfolding set_ts arm by (auto split: if_splits)
  obtain tm1 where tm1: "tm_heap tm1 = ?h" "tm_timers tm1 = ?ts" "tm_tickled tm1 = tm_tickled tm"
      "tm_previousTime tm1 = tm_previousTime tm" "expireLoop now ps tm1 = (cbs', tm')"
    using rest that [of ?tm] by simp
  have "tm_inv tm' \<and> cbs' = map (\<lambda>p. t_cb (the (tm_heap tm1 p))) ps
    \<and> tm_heap tm' = (\<lambda>p. if p \<in> set ps then map_option (fired now) (tm_heap tm1 p) else tm_heap tm1 p)
    \<and> tm_tickled tm' = tm_tickled tm1 \<and> tm_previousTime tm' = tm_previousTime tm1"
  proof (rule Cons.IH [OF _ _ _ _ tm1(5)])
    show "sorted_wrt (timer_less (tm_heap tm1)) (tm_timers tm1)" unfolding tm1(1,2) by (rule s')
    show "set ps \<inter> set (tm_timers tm1) = {}" unfolding tm1(2) by (rule a1)
    show "set ps \<union> set (tm_timers tm1) = armed (tm_heap tm1)" unfolding tm1(1,2) by (rule a2)
  qed (use Cons.prems(2) in simp)
  then show ?case using Cons.prems(2) t cbs tm1 by (auto simp: fun_eq_iff)
qed

text \<open>
  The end of the expired range does not depend on the address of the temporary: it is the
  first timer due later than now.
\<close>

lemma dropWhile_sorted_next:
  assumes "sorted_wrt (timer_less h) xs"
  shows "dropWhile (\<lambda>p. next_of h p = now) (dropWhile (\<lambda>p. next_of h p < now \<or> next_of h p = now \<and> (p::nat) < q) xs)
       = filter (\<lambda>p. next_of h p > now) xs"
  using assms
proof (induction xs)
  case (Cons x xs)
  have le: "next_of h x \<le> next_of h y" if "y \<in> set xs" for y
    using that Cons.prems by (auto simp: timer_less_iff)
  consider "next_of h x < now" | "next_of h x = now" | "next_of h x > now" by fastforce
  then show ?case
  proof cases
    case 2
    let ?P = "\<lambda>p. next_of h p < now \<or> next_of h p = now \<and> p < q" and ?E = "\<lambda>p. next_of h p = now"
    have ih: "dropWhile ?E (dropWhile ?P xs) = filter (\<lambda>p. next_of h p > now) xs"
      using Cons by simp
    show ?thesis
    proof (cases "x < q")
      case True
      then show ?thesis using ih 2 by simp
    next
      case False
      have "\<not> ?P y" if "y \<in> set xs" for y
      proof -
        have "timer_less h x y" using Cons.prems that by simp
        then have "now < next_of h y \<or> next_of h y = now \<and> x < y" unfolding timer_less_iff 2 by metis
        then show ?thesis using False by (metis less_trans not_less_iff_gr_or_eq)
      qed
      then have "dropWhile ?P xs = xs" by (cases xs) auto
      then show ?thesis using ih 2 False by simp
    qed
  next
    case 3
    then have "filter (\<lambda>p. next_of h p > now) xs = xs" using le by (auto simp: filter_id_conv intro: order_less_le_trans)
    then show ?thesis using 3 by auto
  qed (use Cons in auto)
qed simp

definition due :: "u64 \<Rightarrow> 'cb timer_manager \<Rightarrow> nat list" where
  "due now tm =
     (if fst (TimerManager_detectClockRollover now tm) then tm_timers tm
      else filter (\<lambda>p. next_of (tm_heap tm) p \<le> now) (tm_timers tm))"

lemma take_filter_rest:
  assumes "filter (\<lambda>p. \<not> P p) xs = dropWhile P xs"
  shows "take (length xs - length (dropWhile P xs)) xs = filter P xs"
  using assms
proof (induction xs)
  case (Cons x xs)
  show ?case
  proof (cases "P x")
    case True
    have "length (dropWhile P xs) \<le> length xs" by (rule length_dropWhile_le)
    then show ?thesis using Cons True by (simp add: Suc_diff_le)
  next
    case False
    then have "filter (\<lambda>p. \<not> P p) xs = xs" using Cons.prems by simp
    then have "filter P xs = []" by (metis (mono_tags, lifting) filter_False filter_id_conv)
    with False show ?thesis by simp
  qed
qed simp

lemma dropWhile_le_sorted:
  assumes "sorted_wrt (timer_less h) xs"
  shows "filter (\<lambda>p. \<not> next_of h p \<le> now) xs = dropWhile (\<lambda>p. next_of h p \<le> now) xs"
  using assms
proof (induction xs)
  case (Cons x xs)
  have "next_of h x \<le> next_of h y" if "y \<in> set xs" for y
  proof -
    have "timer_less h x y" using Cons.prems that by simp
    then show ?thesis by (auto simp: timer_less_iff)
  qed
  then have "\<not> next_of h x \<le> now \<Longrightarrow> filter (\<lambda>p. \<not> next_of h p \<le> now) xs = xs"
    by (simp add: filter_id_conv) (meson order_trans not_le)
  then show ?case using Cons by simp
qed simp

lemma expired_end_eq:
  assumes "sorted_wrt (timer_less (tm_heap tm)) (tm_timers tm)" and "q \<notin> set (tm_timers tm)"
  shows "expired_end q now tm = filter (\<lambda>p. \<not> next_of (tm_heap tm) p \<le> now) (tm_timers tm)"
proof -
  let ?h = "tm_heap tm"
  have "set_lower_bound (\<lambda>p. timer_less (?h(q \<mapsto> Timer_new_now now)) p q) (tm_timers tm)
      = dropWhile (\<lambda>p. next_of ?h p < now \<or> next_of ?h p = now \<and> p < q) (tm_timers tm)"
    unfolding set_lower_bound_def using assms(2)
    by (intro dropWhile_cong) (auto simp: timer_less_iff Timer_new_now_def)
  then show ?thesis
    using dropWhile_sorted_next [OF assms(1), of now q]
    by (simp add: expired_end_def Let_def not_le)
qed

lemma detectClockRollover_frame [simp]:
  "tm_heap (snd (TimerManager_detectClockRollover now tm)) = tm_heap tm"
  "tm_timers (snd (TimerManager_detectClockRollover now tm)) = tm_timers tm"
  "tm_tickled (snd (TimerManager_detectClockRollover now tm)) = tm_tickled tm"
  by (simp_all add: TimerManager_detectClockRollover_def)

lemma listExpireCB_spec:
  fixes tm :: "'cb timer_manager"
  assumes inv: "tm_inv tm" and q: "tm_heap tm q = None"
    and run: "TimerManager_listExpireCB q now tm = (cbs, tm')"
  shows "tm_inv tm' \<and> cbs = map (\<lambda>p. t_cb (the (tm_heap tm p))) (due now tm)
    \<and> tm_heap tm' = (\<lambda>p. if p \<in> set (due now tm) then map_option (fired now) (tm_heap tm p) else tm_heap tm p)
    \<and> tm_tickled tm' = tm_tickled tm"
proof -
  have s: "sorted_wrt (timer_less (tm_heap tm)) (tm_timers tm)" and set: "set (tm_timers tm) = armed (tm_heap tm)"
    using inv by (simp_all add: tm_inv_def)
  have qn: "q \<notin> set (tm_timers tm)" using set q by (simp add: armed_def)
  obtain roll tm1 where dc: "TimerManager_detectClockRollover now tm = (roll, tm1)" by fastforce
  have tm1: "tm_heap tm1 = tm_heap tm" "tm_timers tm1 = tm_timers tm" "tm_tickled tm1 = tm_tickled tm"
    using detectClockRollover_frame [of now tm] dc by simp_all
  let ?le = "\<lambda>p. next_of (tm_heap tm) p \<le> now"
  let ?rest = "if roll then [] else expired_end q now tm1"
  have rest: "?rest = (if roll then [] else filter (\<lambda>p. \<not> ?le p) (tm_timers tm))"
    using expired_end_eq [of tm1 q now] s qn tm1 by simp
  have exp: "take (length (tm_timers tm1) - length ?rest) (tm_timers tm1) = due now tm"
    using take_filter_rest [OF dropWhile_le_sorted [OF s, of now]] dropWhile_le_sorted [OF s, of now]
    unfolding rest tm1 due_def dc by simp
  show ?thesis
  proof (cases "tm_timers tm")
    case Nil
    then show ?thesis using run inv by (simp add: TimerManager_listExpireCB_def due_def)
  next
    case (Cons p ps)
    show ?thesis
    proof (cases "\<not> roll \<and> next_of (tm_heap tm) p > now")
      case True
      have "\<not> ?le y" if "y \<in> set ps" for y
      proof -
        have "timer_less (tm_heap tm) p y" using s Cons that by simp
        then show ?thesis using True by (auto simp: timer_less_iff)
      qed
      then have "due now tm = []" using True Cons dc by (auto simp: due_def filter_empty_conv)
      then show ?thesis using run True Cons dc tm1 inv
        by (simp add: TimerManager_listExpireCB_def tm_inv_def)
    next
      case False
      define tm2 where "tm2 = tm1\<lparr>tm_timers := ?rest\<rparr>"
      have tm2: "tm_heap tm2 = tm_heap tm" "tm_timers tm2 = ?rest" "tm_tickled tm2 = tm_tickled tm"
        by (simp_all add: tm2_def tm1)
      have run2: "expireLoop now (due now tm) tm2 = (cbs, tm')"
        using run False Cons dc tm1(1) exp unfolding tm2_def
        by (auto simp: TimerManager_listExpireCB_def Let_def)
      have d: "due now tm = (if roll then tm_timers tm else filter ?le (tm_timers tm))"
        using dc by (simp add: due_def)
      have "set (due now tm) \<inter> set (tm_timers tm2) = {}"
        unfolding tm2(2) rest d by (cases roll) (simp, simp, blast)
      moreover have "set (due now tm) \<union> set (tm_timers tm2) = armed (tm_heap tm)"
        unfolding tm2(2) rest d set [symmetric] by (cases roll) (simp, simp, blast)
      moreover have "distinct (due now tm)"
        using timers.sorted_distinct [OF s] by (simp add: d)
      moreover have "sorted_wrt (timer_less (tm_heap tm)) (tm_timers tm2)"
        using s unfolding tm2(2) rest by (simp add: sorted_wrt_filter)
      ultimately have parts: "set (due now tm) \<inter> set (tm_timers tm2) = {}"
        "set (due now tm) \<union> set (tm_timers tm2) = armed (tm_heap tm)"
        "distinct (due now tm)" "sorted_wrt (timer_less (tm_heap tm)) (tm_timers tm2)" by blast+
      show ?thesis
        using expireLoop_spec [OF _ parts(3) parts(1) _ run2] parts(2,4) unfolding tm2 by simp
    qed
  qed
qed

section \<open>Runs\<close>

text \<open>
  One operation of the manager or of one of its timers, with what it lets the rest of the
  program see: whether \<^verbatim>\<open>onTimerInsertAtFront\<close> was called and the callbacks handed out.
  Callbacks are not empty and new timers get unused addresses.
\<close>

inductive tm_step ::
    "'cb timer_manager \<Rightarrow> bool \<Rightarrow> 'cb option list \<Rightarrow> 'cb timer_manager \<Rightarrow> bool" where
  add: "tm_heap tm p = None \<Longrightarrow> cb \<noteq> None \<Longrightarrow>
     TimerManager_addTimer p now ms cb recurring tm = (tm', front) \<Longrightarrow> tm_step tm front [] tm'"
| cancle: "Timer_cancle p tm = Some (r, tm') \<Longrightarrow> tm_step tm False [] tm'"
| refresh: "Timer_refresh p now tm = (r, tm') \<Longrightarrow> tm_step tm False [] tm'"
| reset: "Timer_reset p now ms from_now tm = (r, tm', front) \<Longrightarrow> tm_step tm front [] tm'"
| get_next: "TimerManager_getNextTimer now tm = (ms, tm') \<Longrightarrow> tm_step tm False [] tm'"
| expire: "tm_heap tm q = None \<Longrightarrow> TimerManager_listExpireCB q now tm = (cbs, tm') \<Longrightarrow>
     tm_step tm False cbs tm'"

inductive_cases tm_stepE: "tm_step tm front cbs tm'"

inductive tm_run :: "'cb timer_manager \<Rightarrow> 'cb timer_manager \<Rightarrow> bool" where
  start: "tm_run tm tm"
| step: "tm_run tm tm1 \<Longrightarrow> tm_step tm1 front cbs tm2 \<Longrightarrow> tm_run tm tm2"

lemma tm_step_inv:
  assumes "tm_step tm front cbs tm'" and "tm_inv tm"
  shows "tm_inv tm'"
  using assms
proof cases
  case (add p cb now ms recurring)
  then show ?thesis using addTimer_inv [OF assms(2) add(2,3), of now ms recurring] by simp
next
  case (cancle p r)
  then show ?thesis using cancle_spec [OF assms(2), of p] by (metis option.inject prod.inject)
next
  case (refresh p now r)
  then show ?thesis using refresh_inv [OF assms(2), of p now] by simp
next
  case (reset p now ms from_now r)
  then show ?thesis using reset_inv [OF assms(2), of p now ms from_now] by simp
next
  case (get_next now ms)
  then show ?thesis using getNextTimer_inv [OF assms(2), of now] by simp
next
  case (expire q now)
  then show ?thesis using listExpireCB_spec [OF assms(2)] by blast
qed

lemma tm_run_inv: "tm_run tm tm' \<Longrightarrow> tm_inv tm \<Longrightarrow> tm_inv tm'"
  by (induction rule: tm_run.induct) (auto intro: tm_step_inv)

text \<open>A timer that has no callback any more never gets one back.\<close>

definition disarmed :: "nat \<Rightarrow> 'cb timer_manager \<Rightarrow> bool" where
  "disarmed p tm \<longleftrightarrow> (\<exists>t. tm_heap tm p = Some t \<and> t_cb t = None)"

lemma cancle_heap:
  assumes "Timer_cancle p tm = Some (r, tm')"
  shows "tm_heap tm' = tm_heap tm
       \<or> (\<exists>t. tm_heap tm p = Some t \<and> tm_heap tm' = (tm_heap tm)(p \<mapsto> t\<lparr>t_cb := None\<rparr>))"
  using assms by (auto simp: Timer_cancle_def Let_def split: option.splits if_splits)

lemma tm_step_disarmed:
  assumes "tm_step tm front cbs tm'" and "tm_inv tm" and "disarmed p tm"
  shows "disarmed p tm'"
proof -
  obtain t where t: "tm_heap tm p = Some t" "t_cb t = None" using assms(3) by (auto simp: disarmed_def)
  have idle: "p \<notin> armed (tm_heap tm)" using t by (simp add: armed_def)
  from assms(1) show ?thesis
  proof cases
    case (add q cb now ms recurring)
    then have "tm_heap tm' = (tm_heap tm)(q \<mapsto> Timer_new now ms cb recurring)"
      using addTimer_locked_frame(1) [of q "tm\<lparr>tm_heap := (tm_heap tm)(q \<mapsto> Timer_new now ms cb recurring)\<rparr>"]
      by (simp add: TimerManager_addTimer_def)
    then show ?thesis using t add(2) by (auto simp: disarmed_def)
  next
    case (cancle q r)
    then show ?thesis using cancle_heap [OF cancle(3)] t by (auto simp: disarmed_def)
  next
    case (refresh q now r)
    show ?thesis
    proof (cases "q \<in> armed (tm_heap tm)")
      case True
      then obtain u where u: "tm_heap tm q = Some u" "t_cb u \<noteq> None" by (auto simp: armed_def)
      then show ?thesis using refresh_armed [OF assms(2) u, of now] refresh(3) t
        by (auto simp: Let_def disarmed_def)
    qed (use refresh refresh_idle [of q tm now] t in \<open>auto simp: disarmed_def\<close>)
  next
    case (reset q now ms from_now r)
    show ?thesis
      using assms(2)
    proof (cases rule: reset_cases [of tm q now ms from_now])
      case (2 u)
      let ?h = "(tm_heap tm)(q \<mapsto> u\<lparr>t_ms := ms,
        t_next := (if from_now then now else t_next u - t_ms u) + ms\<rparr>)"
      let ?tm = "tm\<lparr>tm_heap := ?h, tm_timers := set_erase q (tm_timers tm)\<rparr>"
      have "tm' = fst (TimerManager_addTimer_locked q ?tm)"
        using reset_armed [OF assms(2) 2, of now] reset(2) by (metis fst_conv prod.inject)
      then have "tm_heap tm' = ?h" using addTimer_locked_frame(1) [of q ?tm] by simp
      then show ?thesis using t 2 by (auto simp: disarmed_def)
    qed (use reset assms(3) in simp)
  next
    case (get_next now ms)
    then show ?thesis using getNextTimer_frame(1) [of now tm] t by (simp add: disarmed_def)
  next
    case (expire q now)
    have "due now tm = [] \<or> set (due now tm) \<subseteq> armed (tm_heap tm)"
      using assms(2) by (auto simp: due_def tm_inv_def)
    then show ?thesis
      using listExpireCB_spec [OF assms(2) expire(2,3)] t idle by (auto simp: disarmed_def)
  qed
qed

lemma tm_run_disarmed: "tm_run tm tm' \<Longrightarrow> tm_inv tm \<Longrightarrow> disarmed p tm \<Longrightarrow> disarmed p tm'"
  by (induction rule: tm_run.induct) (auto intro: tm_step_disarmed tm_run_inv)

lemma tm_step_tickled:
  assumes "tm_step tm front cbs tm'" and "tm_inv tm" and "tm_tickled tm"
  shows "tm_tickled tm' \<and> \<not> front"
  using assms
proof cases
  case (cancle p r)
  then show ?thesis using cancle_spec [OF assms(2), of p] assms(3) by (metis option.inject prod.inject)
next
  case (expire q now)
  then show ?thesis using listExpireCB_spec [OF assms(2)] assms(3) by blast
next
  case (get_next now ms)
  then show ?thesis using getNextTimer_frame(3) [of now tm] by simp
next
  case (refresh p now r)
  then show ?thesis using assms(3)
    by (auto simp: Timer_refresh_def Let_def split: option.splits if_splits)
next
  case (reset p now ms from_now r)
  then show ?thesis using assms(3)
    by (auto simp: Timer_reset_def TimerManager_addTimer_locked_def Let_def split: option.splits if_splits)
qed (auto simp: TimerManager_addTimer_def TimerManager_addTimer_locked_def Let_def)

section \<open>Properties\<close>

text \<open>
  (C11) Every reachable state of the manager satisfies the invariant: the set is ordered by
  due time and address and holds exactly the timers that still have a callback. So
  \<^verbatim>\<open>cancle\<close> always finds the timer it erases (it never erases the end iterator) and returns
  true exactly for an armed timer, which it takes out of the set.
\<close>

theorem timer_cancle_correct:
  assumes "tm_run (TimerManager_new now) tm"
  shows "\<exists>tm'. Timer_cancle p tm = Some (p \<in> armed (tm_heap tm), tm') \<and> tm_inv tm'
       \<and> set (tm_timers tm') = set (tm_timers tm) - {p} \<and> p \<notin> armed (tm_heap tm')"
  using cancle_spec [OF tm_run_inv [OF assms tm_inv_new], of p] by metis

theorem timer_cancle_correct_witness:
  "\<exists>(tm :: unit timer_manager) tm'. tm_run (TimerManager_new 100) tm \<and> 7 \<in> armed (tm_heap tm)
     \<and> Timer_cancle 7 tm = Some (True, tm') \<and> tm_timers tm' = []"
proof -
  let ?tm = "fst (TimerManager_addTimer 7 100 50 (Some ()) False (TimerManager_new 100))"
  have "tm_step (TimerManager_new 100) True [] ?tm"
    by (rule tm_step.add [of _ 7 "Some ()" 100 50 False])
       (simp_all add: TimerManager_addTimer_def TimerManager_addTimer_locked_def TimerManager_new_def)
  then have run: "tm_run (TimerManager_new 100) ?tm" using tm_run.intros by blast
  have arm: "7 \<in> armed (tm_heap ?tm)" and ts: "tm_timers ?tm = [7]"
    by (simp_all add: TimerManager_addTimer_def TimerManager_addTimer_locked_def TimerManager_new_def
        armed_def Timer_new_def)
  obtain tm' where "Timer_cancle 7 ?tm = Some (True, tm')" "set (tm_timers tm') = set (tm_timers ?tm) - {7}"
    using timer_cancle_correct [OF run, of 7] arm by auto
  then have "tm_timers tm' = []" using ts by simp
  with run arm \<open>Timer_cancle 7 ?tm = _\<close> show ?thesis by (intro exI [of _ ?tm] exI [of _ tm']) simp
qed

text \<open>
  (C12) \<^verbatim>\<open>listExpireCB\<close> hands out exactly the callbacks of the timers due at or before now (of
  all timers after a clock rollover), in the order of their due times; a recurring timer is
  rearmed one period from now and any other loses its callback; all other timers are
  unchanged.
\<close>

theorem listExpireCB_fires_due:
  assumes "tm_run (TimerManager_new start) tm" and "tm_heap tm q = None"
    and "TimerManager_listExpireCB q now tm = (cbs, tm')"
  shows "tm_inv tm' \<and> cbs = map (\<lambda>p. t_cb (the (tm_heap tm p))) (due now tm)
    \<and> (\<forall>p. tm_heap tm' p =
         (if p \<in> set (due now tm) then map_option (fired now) (tm_heap tm p) else tm_heap tm p))"
  using listExpireCB_spec [OF tm_run_inv [OF assms(1) tm_inv_new] assms(2,3)] by simp

theorem listExpireCB_fires_due_witness:
  "\<exists>tm cbs tm'. tm_run (TimerManager_new 100) tm \<and> TimerManager_listExpireCB 0 200 tm = (cbs, tm')
     \<and> cbs = [Some CHR ''a''] \<and> tm_inv tm'"
proof -
  let ?tm = "fst (TimerManager_addTimer 7 100 50 (Some CHR ''a'') False (TimerManager_new 100))"
  have "tm_step (TimerManager_new 100) True [] ?tm"
    by (rule tm_step.add [of _ 7 "Some CHR ''a''" 100 50 False])
       (simp_all add: TimerManager_addTimer_def TimerManager_addTimer_locked_def TimerManager_new_def)
  then have run: "tm_run (TimerManager_new 100) ?tm" using tm_run.intros by blast
  obtain cbs tm' where e: "TimerManager_listExpireCB 0 200 ?tm = (cbs, tm')" by fastforce
  have heap: "tm_heap ?tm 0 = None" and d: "due 200 ?tm = [7]" and c: "t_cb (the (tm_heap ?tm 7)) = Some CHR ''a''"
    by (simp_all add: TimerManager_addTimer_def TimerManager_addTimer_locked_def TimerManager_new_def
        due_def TimerManager_detectClockRollover_def Timer_new_def)
  then have "cbs = [Some CHR ''a''] \<and> tm_inv tm'" using listExpireCB_fires_due [OF run heap e] by simp
  with run e show ?thesis by blast
qed

text \<open>
  A cancelled (or fired one-shot) timer stays out of the set for ever: in every later
  state it has no callback and is not in the set that \<^verbatim>\<open>listExpireCB\<close> takes callbacks from.
\<close>

theorem cancelled_never_fires:
  assumes "tm_run (TimerManager_new start) tm" and "Timer_cancle p tm = Some (True, tm1)"
    and "tm_run tm1 tm2"
  shows "p \<notin> set (tm_timers tm2) \<and> p \<notin> set (due now tm2)"
proof -
  have inv: "tm_inv tm" using tm_run_inv [OF assms(1) tm_inv_new] .
  obtain t where "tm_heap tm p = Some t" using assms(2) by (auto simp: Timer_cancle_def split: option.splits)
  then have "disarmed p tm1" and inv1: "tm_inv tm1"
    using cancle_heap [OF assms(2)] cancle_spec [OF inv, of p] assms(2)
    by (auto simp: disarmed_def armed_def)
  then have "disarmed p tm2" and "tm_inv tm2" using tm_run_disarmed tm_run_inv assms(3) by blast+
  then have "p \<notin> set (tm_timers tm2)" by (auto simp: tm_inv_def disarmed_def armed_def)
  then show ?thesis by (auto simp: due_def)
qed

theorem cancelled_never_fires_witness:
  "\<exists>tm1. Timer_cancle 7 (fst (TimerManager_addTimer 7 100 50 (Some ()) False (TimerManager_new 100)))
           = Some (True, tm1) \<and> 7 \<notin> set (due 1000 tm1)"
proof -
  let ?tm = "fst (TimerManager_addTimer 7 100 50 (Some ()) False (TimerManager_new 100))"
  have "tm_step (TimerManager_new 100) True [] ?tm"
    by (rule tm_step.add [of _ 7 "Some ()" 100 50 False])
       (simp_all add: TimerManager_addTimer_def TimerManager_addTimer_locked_def TimerManager_new_def)
  then have run: "tm_run (TimerManager_new 100) ?tm" using tm_run.intros by blast
  have "7 \<in> armed (tm_heap ?tm)"
    by (simp add: TimerManager_addTimer_def TimerManager_addTimer_locked_def TimerManager_new_def
        armed_def Timer_new_def)
  then obtain tm1 where c: "Timer_cancle 7 ?tm = Some (True, tm1)"
    using cancle_spec [OF tm_run_inv [OF run tm_inv_new], of 7] by metis
  then show ?thesis using cancelled_never_fires [OF run c tm_run.start, of 1000] by blast
qed

text \<open>
  \<^verbatim>\<open>getNextTimer\<close> returns all ones exactly for an empty set or when the earliest timer is that
  far away, zero when a timer is due, and otherwise the time until the earliest due time: no
  timer is due before it.
\<close>

theorem getNextTimer_earliest:
  assumes "tm_run (TimerManager_new start) tm" and "TimerManager_getNextTimer now tm = (ms, tm')"
  shows "(tm_timers tm = [] \<longrightarrow> ms = - 1)
    \<and> (tm_timers tm \<noteq> [] \<longrightarrow>
         (\<exists>p\<in>set (tm_timers tm). ms = (if next_of (tm_heap tm) p < now then 0 else next_of (tm_heap tm) p - now)
            \<and> (\<forall>r\<in>set (tm_timers tm). next_of (tm_heap tm) p \<le> next_of (tm_heap tm) r)))
    \<and> tm_timers tm' = tm_timers tm"
proof (cases "tm_timers tm")
  case Nil
  then show ?thesis using assms(2) by (auto simp: TimerManager_getNextTimer_def)
next
  case (Cons p ps)
  have "sorted_wrt (timer_less (tm_heap tm)) (p # ps)"
    using tm_run_inv [OF assms(1) tm_inv_new] Cons by (simp add: tm_inv_def)
  then have "\<forall>r\<in>set (tm_timers tm). next_of (tm_heap tm) p \<le> next_of (tm_heap tm) r"
    using Cons by (simp add: timer_less_iff) (metis order.order_iff_strict)
  moreover have "ms = (if next_of (tm_heap tm) p < now then 0 else next_of (tm_heap tm) p - now)"
    "tm_timers tm' = tm_timers tm"
    using assms(2) Cons by (auto simp: TimerManager_getNextTimer_def Let_def split: if_splits)
  ultimately show ?thesis using Cons by auto
qed

theorem getNextTimer_earliest_witness:
  "tm_run (TimerManager_new 0) (TimerManager_new 0 :: unit timer_manager)
   \<and> fst (TimerManager_getNextTimer 5 (TimerManager_new 0 :: unit timer_manager)) = - 1"
proof -
  let ?tm = "TimerManager_new 0 :: unit timer_manager"
  have "tm_run ?tm ?tm" by (rule tm_run.start)
  moreover have "TimerManager_getNextTimer 5 ?tm
      = (fst (TimerManager_getNextTimer 5 ?tm), snd (TimerManager_getNextTimer 5 ?tm))" by simp
  note getNextTimer_earliest [OF calculation this]
  moreover have "tm_timers ?tm = []" by (simp add: TimerManager_new_def)
  ultimately show ?thesis by blast
qed

text \<open>
  \<^verbatim>\<open>m_tickled\<close> is never reset: once it is set, by the first timer at the front or the first
  call of \<^verbatim>\<open>getNextTimer\<close>, no operation calls \<^verbatim>\<open>onTimerInsertAtFront\<close> again, however early
  the timer it adds.
\<close>

theorem no_front_notification_after_first:
  assumes "tm_run (TimerManager_new start) tm" and "tm_tickled tm" and "tm_run tm tm1"
    and "tm_step tm1 front cbs tm2"
  shows "\<not> front"
proof -
  have inv: "tm_inv tm" using tm_run_inv [OF assms(1) tm_inv_new] .
  have "tm_tickled tm1 \<and> tm_inv tm1" using assms(3,2) inv
    by (induction rule: tm_run.induct) (auto dest: tm_step_tickled tm_step_inv)
  then show ?thesis using tm_step_tickled [OF assms(4)] by blast
qed

theorem no_front_notification_after_first_witness:
  "\<exists>tm tm2. tm_tickled tm \<and> tm_step tm False [] tm2 \<and> tm_timers tm2 = [7 :: nat]
     \<and> tm_heap tm2 7 = Some (Timer_new 0 1 (Some ()) False)"
proof -
  let ?init = "TimerManager_new 0 :: unit timer_manager"
  let ?tm = "snd (TimerManager_getNextTimer 0 ?init)"
  let ?r = "TimerManager_addTimer 7 0 1 (Some ()) False ?tm"
  have "TimerManager_getNextTimer 0 ?init = (fst (TimerManager_getNextTimer 0 ?init), ?tm)" by simp
  then have "tm_step ?init False [] ?tm" by (rule tm_step.get_next)
  then have run: "tm_run ?init ?tm" using tm_run.intros by blast
  have st: "tm_step ?tm (snd ?r) [] (fst ?r)"
    by (rule tm_step.add [of _ 7 "Some ()" 0 1 False]) (simp_all add: TimerManager_new_def)
  have "\<not> snd ?r" using no_front_notification_after_first [OF run _ tm_run.start st] by simp
  moreover have "tm_timers (fst ?r) = [7]" "tm_heap (fst ?r) 7 = Some (Timer_new 0 1 (Some ()) False)"
    by (simp_all add: TimerManager_addTimer_def) (simp add: TimerManager_new_def)
  ultimately show ?thesis using st by (intro exI [of _ ?tm] exI [of _ "fst ?r"]) simp
qed

end
