(* ===== verification/IO_Manager.thy ===== *)
theory IO_Manager
  imports Scheduler Timer
begin

text \<open>
  Model of \<^verbatim>\<open>src/src/iomanager.h\<close> and \<^verbatim>\<open>src/src/iomanager.cpp\<close>: the scheduler that waits for
  file descriptors with \<^verbatim>\<open>epoll\<close>. The kernel is outside: the result of each \<^verbatim>\<open>epoll_ctl\<close> and the
  events \<^verbatim>\<open>epoll_wait\<close> reports are arguments of the operations. The table lock and the lock of a
  table entry make each operation one atomic step, with one exception in the code that the step
  relation does not have: \<^verbatim>\<open>addEvent\<close> tests the size of the table under the read lock and grows it
  under a later write lock. \<open>addEvent_table_race\<close> shows what happens when another thread grows the
  table in between. The thread's scheduler and fiber (\<^verbatim>\<open>Scheduler::GetThis()\<close>, \<^verbatim>\<open>Fiber::GetThis()\<close>)
  are arguments too; an event keeps the scheduler it was added with and is handed back to it.
\<close>

section \<open>State\<close>

unbundle bit_operations_syntax

definition EV_NONE :: u32 where "EV_NONE = 0x00"
definition EV_READ :: u32 where "EV_READ = 0x01"
definition EV_WRITE :: u32 where "EV_WRITE = 0x04"
definition EPOLLIN :: u32 where "EPOLLIN = 0x001"
definition EPOLLOUT :: u32 where "EPOLLOUT = 0x004"
definition EPOLLERR :: u32 where "EPOLLERR = 0x008"
definition EPOLLHUP :: u32 where "EPOLLHUP = 0x010"
definition EPOLLET :: u32 where "EPOLLET = 0x80000000"

lemmas ev_consts = EV_NONE_def EV_READ_def EV_WRITE_def EPOLLIN_def EPOLLOUT_def EPOLLERR_def EPOLLHUP_def

record 'cb event =
  ev_scheduler :: "nat option"
  ev_fiber :: "nat option"
  ev_cb :: "'cb option"

definition Event_empty :: "'cb event" where
  "Event_empty = \<lparr>ev_scheduler = None, ev_fiber = None, ev_cb = None\<rparr>"

record 'cb fd_event =
  fe_read :: "'cb event"
  fe_write :: "'cb event"
  fe_fd :: nat
  fe_et :: u32

definition FdEvent_new :: "nat \<Rightarrow> 'cb fd_event" where
  "FdEvent_new fd = \<lparr>fe_read = Event_empty, fe_write = Event_empty, fe_fd = fd, fe_et = EV_NONE\<rparr>"

record 'cb io_manager =
  io_fdEvents :: "'cb fd_event list"
  io_pending :: nat
  io_sched :: "'cb scheduler"
  io_timers :: "'cb timer_manager"
  io_this :: nat
  io_others :: "nat \<Rightarrow> 'cb scheduler"

text \<open>
  The scheduler at an address: an I/O manager is a scheduler itself, at \<open>io_this\<close>, and an event may belong to
  another one.
\<close>

definition sched_at :: "'cb io_manager \<Rightarrow> nat \<Rightarrow> 'cb scheduler" where
  "sched_at io p = (if p = io_this io then io_sched io else io_others io p)"

definition schedule_at :: "nat \<Rightarrow> 'cb task \<Rightarrow> 'cb io_manager \<Rightarrow> 'cb io_manager" where
  "schedule_at p ft io =
     (if p = io_this io then io\<lparr>io_sched := snd (Scheduler_schedule ft (io_sched io))\<rparr>
      else io\<lparr>io_others := (io_others io)(p := snd (Scheduler_schedule ft (io_others io p)))\<rparr>)"

text \<open>A failed assertion, an index outside the table, a call through a null scheduler.\<close>

datatype io_error = Io_Assert | Io_Bad_Index | Io_Null_Scheduler

section \<open>Events of one descriptor\<close>

definition FdEvent_getEvent :: "u32 \<Rightarrow> 'cb fd_event \<Rightarrow> io_error + 'cb event" where
  "FdEvent_getEvent et fe =
     (if et = EV_READ then Inr (fe_read fe) else if et = EV_WRITE then Inr (fe_write fe) else Inl Io_Assert)"

definition setEvent :: "u32 \<Rightarrow> 'cb event \<Rightarrow> 'cb fd_event \<Rightarrow> 'cb fd_event" where
  "setEvent et e fe = (if et = EV_READ then fe\<lparr>fe_read := e\<rparr> else fe\<lparr>fe_write := e\<rparr>)"

text \<open>The event is passed by value: the stored one is left as it is.\<close>

definition FdEvent_resetEvent :: "'cb event \<Rightarrow> 'cb fd_event \<Rightarrow> 'cb fd_event" where
  "FdEvent_resetEvent e fe =
     (let e' = e\<lparr>ev_scheduler := None, ev_fiber := None, ev_cb := None\<rparr> in fe)"

text \<open>
  The callback or the fiber is moved out of the event; with the entry the result is the event's scheduler and the
  task that it is told to schedule.
\<close>

definition FdEvent_triggerEvent :: "u32 \<Rightarrow> 'cb fd_event \<Rightarrow> io_error + ('cb fd_event \<times> nat \<times> 'cb task)" where
  "FdEvent_triggerEvent eventtype fe =
     (if fe_et fe AND eventtype = 0 then Inl Io_Assert
      else let fe1 = fe\<lparr>fe_et := fe_et fe AND NOT eventtype\<rparr> in
        rbind (FdEvent_getEvent eventtype fe1) (\<lambda>event.
          case ev_scheduler event of
            None \<Rightarrow> Inl Io_Null_Scheduler
          | Some sch \<Rightarrow>
              if ev_cb event \<noteq> None then
                Inr (setEvent eventtype (event\<lparr>ev_cb := None, ev_scheduler := None\<rparr>) fe1,
                     sch, FiberAndThread_cb (ev_cb event) (- 1))
              else
                Inr (setEvent eventtype (event\<lparr>ev_fiber := None, ev_scheduler := None\<rparr>) fe1,
                     sch, FiberAndThread_fiber (ev_fiber event) (- 1))))"

section \<open>The table of descriptors\<close>

definition IOManager_eventResize :: "nat \<Rightarrow> 'cb fd_event list \<Rightarrow> 'cb fd_event list" where
  "IOManager_eventResize n fes = take n fes @ map FdEvent_new [length fes..<n]"

definition IOManager_new ::
    "nat \<Rightarrow> (nat \<Rightarrow> 'cb scheduler) \<Rightarrow> 'cb scheduler \<Rightarrow> 'cb timer_manager \<Rightarrow> 'cb io_manager" where
  "IOManager_new this others s t =
     \<lparr>io_fdEvents = IOManager_eventResize 32 [], io_pending = 0, io_sched = s, io_timers = t,
      io_this = this, io_others = others\<rparr>"

text \<open>
  \<open>res\<close> is the result of \<^verbatim>\<open>epoll_ctl\<close>, \<open>cur\<close> the thread's scheduler, \<open>fiber\<close> its fiber and
  \<open>exec\<close> whether that fiber is in state \<^verbatim>\<open>EXEC\<close>.
\<close>

definition addEvent_locked ::
    "int \<Rightarrow> nat option \<Rightarrow> nat \<Rightarrow> bool \<Rightarrow> nat \<Rightarrow> u32 \<Rightarrow> 'cb option \<Rightarrow> 'cb io_manager
      \<Rightarrow> io_error + (int \<times> 'cb io_manager)" where
  "addEvent_locked res cur fiber exec fd et cb io =
     (let fe = io_fdEvents io ! fd in
      if fe_et fe AND et \<noteq> 0 then Inl Io_Assert
      else if res \<noteq> 0 then Inr (- 1, io)
      else let fe1 = fe\<lparr>fe_et := fe_et fe OR et\<rparr> in
        rbind (FdEvent_getEvent et fe1) (\<lambda>event.
          if \<not> (ev_scheduler event = None \<and> ev_fiber event = None \<and> ev_cb event = None) then Inl Io_Assert
          else let event1 = event\<lparr>ev_scheduler := cur\<rparr> in
            if cb \<noteq> None then
              Inr (0, io\<lparr>io_pending := io_pending io + 1,
                         io_fdEvents := (io_fdEvents io)[fd := setEvent et (event1\<lparr>ev_cb := cb\<rparr>) fe1]\<rparr>)
            else if \<not> exec then Inl Io_Assert
            else Inr (0, io\<lparr>io_pending := io_pending io + 1,
                            io_fdEvents := (io_fdEvents io)[fd := setEvent et (event1\<lparr>ev_fiber := Some fiber\<rparr>) fe1]\<rparr>)))"

text \<open>
  The table when the entry is looked up: \<open>fits\<close> is the answer of the test under the read lock, after which the
  lock is given up.
\<close>

definition addEvent_table :: "bool \<Rightarrow> int \<Rightarrow> 'cb io_manager \<Rightarrow> 'cb io_manager" where
  "addEvent_table fits fd io =
     (if fits then io
      else io\<lparr>io_fdEvents := IOManager_eventResize (nat (fd * 3 div 2)) (io_fdEvents io)\<rparr>)"

definition IOManager_addEvent ::
    "int \<Rightarrow> nat option \<Rightarrow> nat \<Rightarrow> bool \<Rightarrow> int \<Rightarrow> u32 \<Rightarrow> 'cb option \<Rightarrow> 'cb io_manager
      \<Rightarrow> io_error + (int \<times> 'cb io_manager)" where
  "IOManager_addEvent res cur fiber exec fd et cb io =
     (let io1 = addEvent_table (int (length (io_fdEvents io)) > fd) fd io
      in if fd < 0 \<or> nat fd \<ge> length (io_fdEvents io1) then Inl Io_Bad_Index
         else addEvent_locked res cur fiber exec (nat fd) et cb io1)"

text \<open>The entry of a descriptor, for the operations that do not grow the table.\<close>

definition with_entry ::
    "int \<Rightarrow> 'cb io_manager \<Rightarrow> ('cb fd_event \<Rightarrow> io_error + (bool \<times> 'cb io_manager))
      \<Rightarrow> io_error + (bool \<times> 'cb io_manager)" where
  "with_entry fd io k =
     (if int (length (io_fdEvents io)) \<le> fd then Inr (False, io)
      else if fd < 0 then Inl Io_Bad_Index
      else k (io_fdEvents io ! nat fd))"

definition IOManager_delEvent ::
    "int \<Rightarrow> int \<Rightarrow> u32 \<Rightarrow> 'cb io_manager \<Rightarrow> io_error + (bool \<times> 'cb io_manager)" where
  "IOManager_delEvent res fd et io = with_entry fd io (\<lambda>fe.
     if fe_et fe AND et = 0 then Inr (False, io)
     else let new_event = fe_et fe AND NOT et in
       if res \<noteq> 0 then Inr (False, io)
       else let fe1 = fe\<lparr>fe_et := new_event\<rparr> in
         rbind (FdEvent_getEvent et fe1) (\<lambda>event.
           Inr (True, io\<lparr>io_pending := io_pending io - 1,
                         io_fdEvents := (io_fdEvents io)[nat fd := FdEvent_resetEvent event fe1]\<rparr>)))"

text \<open>Trigger one registered event of entry \<open>fd\<close> and take it off the pending count.\<close>

definition fire :: "nat \<Rightarrow> u32 \<Rightarrow> 'cb io_manager \<Rightarrow> io_error + 'cb io_manager" where
  "fire fd et io =
     rbind (FdEvent_triggerEvent et (io_fdEvents io ! fd)) (\<lambda>(fe, sch, ft).
       Inr (schedule_at sch ft (io\<lparr>io_pending := io_pending io - 1, io_fdEvents := (io_fdEvents io)[fd := fe]\<rparr>)))"

definition IOManager_cancelEvent ::
    "int \<Rightarrow> int \<Rightarrow> u32 \<Rightarrow> 'cb io_manager \<Rightarrow> io_error + (bool \<times> 'cb io_manager)" where
  "IOManager_cancelEvent res fd et io = with_entry fd io (\<lambda>fe.
     if fe_et fe AND et = 0 then Inr (False, io)
     else if res \<noteq> 0 then Inr (False, io)
     else rbind (fire (nat fd) et io) (\<lambda>io1. Inr (True, io1)))"

definition IOManager_cancelAll ::
    "int \<Rightarrow> int \<Rightarrow> 'cb io_manager \<Rightarrow> io_error + (bool \<times> 'cb io_manager)" where
  "IOManager_cancelAll res fd io = with_entry fd io (\<lambda>fe.
     if fe_et fe = 0 then Inr (False, io)
     else if res \<noteq> 0 then Inr (False, io)
     else rbind (if fe_et fe AND EV_READ \<noteq> 0 then fire (nat fd) EV_READ io else Inr io) (\<lambda>io1.
       rbind (if fe_et (io_fdEvents io1 ! nat fd) AND EV_WRITE \<noteq> 0 then fire (nat fd) EV_WRITE io1 else Inr io1)
         (\<lambda>io2. if fe_et (io_fdEvents io2 ! nat fd) \<noteq> 0 then Inl Io_Assert else Inr (True, io2))))"

section \<open>Waiting\<close>

text \<open>\<^verbatim>\<open>tickle\<close> does nothing: the writes to the pipe are commented out.\<close>

definition IOManager_tickle :: "'cb io_manager \<Rightarrow> 'cb io_manager" where
  "IOManager_tickle io = io"

definition IOManager_onTimerInsertAtFront :: "'cb io_manager \<Rightarrow> 'cb io_manager" where
  "IOManager_onTimerInsertAtFront io = IOManager_tickle io"

definition IOManager_stopping :: "u64 \<Rightarrow> 'cb io_manager \<Rightarrow> bool \<times> u64 \<times> 'cb io_manager" where
  "IOManager_stopping now io =
     (let (time_out, tm) = TimerManager_getNextTimer now (io_timers io);
          io1 = io\<lparr>io_timers := tm\<rparr>
      in (time_out = - 1 \<and> io_pending io1 = 0 \<and> Scheduler_stopping (io_sched io1), time_out, io1))"

text \<open>
  The timeout handed to \<^verbatim>\<open>epoll_wait\<close>: the comparison narrows the 64 bit time to \<^verbatim>\<open>int\<close>, and so
  does the call.
\<close>

definition MAX_TIMEOUT :: int where "MAX_TIMEOUT = 5000"

definition IOManager_wait_timeout :: "u64 \<Rightarrow> u64" where
  "IOManager_wait_timeout next_timeout =
     (if next_timeout \<noteq> - 1
      then (if sint (ucast next_timeout :: u32) < MAX_TIMEOUT then next_timeout else 5000)
      else 5000)"

definition epoll_wait_arg :: "u64 \<Rightarrow> int" where
  "epoll_wait_arg t = sint (ucast t :: u32)"

text \<open>One event reported for entry \<open>fd\<close>; \<open>res\<close> is the result of the \<^verbatim>\<open>epoll_ctl\<close> for it.\<close>

definition IOManager_handle_event ::
    "int \<Rightarrow> nat \<Rightarrow> u32 \<Rightarrow> 'cb io_manager \<Rightarrow> io_error + 'cb io_manager" where
  "IOManager_handle_event res fd events io =
     (let fe = io_fdEvents io ! fd;
          events1 = (if events AND (EPOLLERR OR EPOLLHUP) \<noteq> 0 then events OR (EPOLLIN OR EPOLLOUT) else events);
          real1 = (if events1 AND EPOLLIN \<noteq> 0 then EV_NONE OR EV_READ else EV_NONE);
          real_event_type = (if events1 AND EPOLLOUT \<noteq> 0 then real1 OR EV_WRITE else real1)
      in if real_event_type AND fe_et fe = EV_NONE then Inr io
         else if res \<noteq> 0 then Inr io
         else rbind (if real_event_type AND EV_READ \<noteq> 0 then fire fd EV_READ io else Inr io) (\<lambda>io1.
                if real_event_type AND EV_WRITE \<noteq> 0 then fire fd EV_WRITE io1 else Inr io1))"

fun IOManager_handle_events ::
    "(int \<times> nat \<times> u32) list \<Rightarrow> 'cb io_manager \<Rightarrow> io_error + 'cb io_manager" where
  "IOManager_handle_events [] io = Inr io"
| "IOManager_handle_events ((res, fd, events) # evs) io =
     rbind (IOManager_handle_event res fd events io) (IOManager_handle_events evs)"

text \<open>
  One round of \<^verbatim>\<open>idle\<close>, from the test for stopping to the switch back to \<^verbatim>\<open>run\<close>: \<open>None\<close> when it ends
  the loop. The callbacks of due timers are queued first, then the reported events are handled.
  \<open>now\<close> and \<open>now'\<close> are the clock before and after the wait, \<open>q\<close> the address of the temporary timer.
\<close>

definition IOManager_idle_round ::
    "u64 \<Rightarrow> u64 \<Rightarrow> nat \<Rightarrow> (int \<times> nat \<times> u32) list \<Rightarrow> 'cb io_manager
      \<Rightarrow> io_error + 'cb io_manager option" where
  "IOManager_idle_round now now' q evs io =
     (let (stop, next_timeout, io1) = IOManager_stopping now io in
      if stop then Inr None
      else let (cbs, tm) = TimerManager_listExpireCB q now' (io_timers io1);
               s = (if cbs \<noteq> [] then snd (Scheduler_schedule_range
                                          (map (\<lambda>cb. FiberAndThread_cb cb (- 1)) cbs) (io_sched io1))
                    else io_sched io1)
           in rbind (IOManager_handle_events evs (io1\<lparr>io_timers := tm, io_sched := s\<rparr>)) (\<lambda>io2. Inr (Some io2)))"

section \<open>Invariant\<close>

definition registered :: "u32 \<Rightarrow> 'cb fd_event \<Rightarrow> bool" where
  "registered et fe \<longleftrightarrow> fe_et fe AND et \<noteq> 0"

definition pending_of :: "'cb fd_event \<Rightarrow> nat" where
  "pending_of fe = (if registered EV_READ fe then 1 else 0) + (if registered EV_WRITE fe then 1 else 0)"

definition armed_event :: "'cb event \<Rightarrow> bool" where
  "armed_event e \<longleftrightarrow> ev_scheduler e \<noteq> None \<and> (ev_fiber e \<noteq> None \<or> ev_cb e \<noteq> None)"

definition event_of :: "u32 \<Rightarrow> 'cb fd_event \<Rightarrow> 'cb event" where
  "event_of et fe = (if et = EV_READ then fe_read fe else fe_write fe)"

definition single :: "u32 \<Rightarrow> bool" where
  "single et \<longleftrightarrow> et = EV_READ \<or> et = EV_WRITE"

definition fe_ok :: "'cb fd_event \<Rightarrow> bool" where
  "fe_ok fe \<longleftrightarrow> fe_et fe \<in> {0, 1, 4, 5}
     \<and> (\<forall>et. single et \<and> registered et fe \<longrightarrow> armed_event (event_of et fe))"

text \<open>
  The pending count is the number of registered events, and every registered event has a
  scheduler and something to run.
\<close>

definition io_inv :: "'cb io_manager \<Rightarrow> bool" where
  "io_inv io \<longleftrightarrow> io_pending io = sum_list (map pending_of (io_fdEvents io))
     \<and> list_all fe_ok (io_fdEvents io) \<and> 32 \<le> length (io_fdEvents io)"

lemma fe_ok_new: "fe_ok (FdEvent_new fd)" "pending_of (FdEvent_new fd) = 0"
  by (simp_all add: fe_ok_def FdEvent_new_def registered_def pending_of_def EV_NONE_def)

lemma io_inv_new: "io_inv (IOManager_new this others s t)"
  by (auto simp: io_inv_def IOManager_new_def IOManager_eventResize_def list_all_iff fe_ok_new comp_def)

lemma sum_list_update_add:
  fixes f :: "'a \<Rightarrow> nat"
  shows "i < length xs \<Longrightarrow> sum_list (map f (xs[i := y])) + f (xs ! i) = sum_list (map f xs) + f y"
proof (induction xs arbitrary: i)
  case (Cons x xs)
  then show ?case
  proof (cases i)
    case (Suc j)
    then show ?thesis using Cons.IH [of j] Cons.prems by simp
  qed simp
qed simp

lemma io_inv_upd:
  assumes "io_inv io" and "fd < length (io_fdEvents io)" and "fe_ok fe"
    and "io_fdEvents io' = (io_fdEvents io)[fd := fe]"
    and "io_pending io' + pending_of (io_fdEvents io ! fd) = io_pending io + pending_of fe"
  shows "io_inv io'"
  using assms sum_list_update_add [OF assms(2), of pending_of fe]
  by (auto simp: io_inv_def list_all_length nth_list_update)

lemma io_inv_entry: "io_inv io \<Longrightarrow> fd < length (io_fdEvents io) \<Longrightarrow> fe_ok (io_fdEvents io ! fd)"
  by (simp add: io_inv_def list_all_length)

lemma pending_positive:
  assumes "io_inv io" and "fd < length (io_fdEvents io)" and "0 < pending_of (io_fdEvents io ! fd)"
  shows "0 < io_pending io"
  using assms member_le_sum_list [of "pending_of (io_fdEvents io ! fd)" "map pending_of (io_fdEvents io)"]
  by (force simp: io_inv_def)

text \<open>The four possible registrations, for evaluating the flag operations.\<close>

lemma fe_ok_cases:
  assumes "fe_ok fe"
  obtains "fe_et fe = 0" | "fe_et fe = 1" | "fe_et fe = 4" | "fe_et fe = 5"
  using assms by (auto simp: fe_ok_def)

lemma clear_registered:
  assumes "fe_ok fe" and "single et" and "registered et fe"
  shows "fe_et fe AND NOT et \<in> {0, 1, 4, 5}"
    and "\<And>et'. single et' \<Longrightarrow> (fe_et fe AND NOT et) AND et' \<noteq> 0 \<longleftrightarrow> et' \<noteq> et \<and> registered et' fe"
    and "pending_of fe = Suc (pending_of (fe\<lparr>fe_et := fe_et fe AND NOT et\<rparr>))"
  using assms(2,3)
  by (cases rule: fe_ok_cases [OF assms(1)];
      auto simp: single_def registered_def pending_of_def EV_READ_def EV_WRITE_def)+

lemma set_registered:
  assumes "fe_ok fe" and "single et" and "\<not> registered et fe"
  shows "fe_et fe OR et \<in> {0, 1, 4, 5}"
    and "\<And>et'. single et' \<Longrightarrow> (fe_et fe OR et) AND et' \<noteq> 0 \<longleftrightarrow> et' = et \<or> registered et' fe"
    and "pending_of (fe\<lparr>fe_et := fe_et fe OR et\<rparr>) = Suc (pending_of fe)"
  using assms(2,3)
  by (cases rule: fe_ok_cases [OF assms(1)];
      auto simp: single_def registered_def pending_of_def EV_READ_def EV_WRITE_def)+

lemma fe_et_setEvent [simp]: "fe_et (setEvent et e fe) = fe_et fe"
  by (simp add: setEvent_def)

lemma registered_setEvent [simp]: "registered et' (setEvent et e fe) = registered et' fe"
  by (simp add: registered_def)

lemma pending_of_setEvent [simp]: "pending_of (setEvent et e fe) = pending_of fe"
  by (simp add: pending_of_def)

lemma event_of_setEvent:
  "single et \<Longrightarrow> single et' \<Longrightarrow> event_of et' (setEvent et e fe) = (if et' = et then e else event_of et' fe)"
  by (auto simp: single_def event_of_def setEvent_def EV_READ_def EV_WRITE_def)

lemma getEvent_single: "single et \<Longrightarrow> FdEvent_getEvent et fe = Inr (event_of et fe)"
  by (auto simp: single_def FdEvent_getEvent_def event_of_def EV_READ_def EV_WRITE_def)

lemma event_of_et [simp]: "event_of et (fe\<lparr>fe_et := x\<rparr>) = event_of et fe"
  by (simp add: event_of_def)

definition task_of :: "'cb event \<Rightarrow> 'cb task" where
  "task_of e = (if ev_cb e \<noteq> None then FiberAndThread_cb (ev_cb e) (- 1) else FiberAndThread_fiber (ev_fiber e) (- 1))"

text \<open>What a list of events gives to the scheduler at \<open>sch\<close>.\<close>

definition tasks_for :: "nat \<Rightarrow> 'cb event list \<Rightarrow> 'cb task list" where
  "tasks_for sch es = map task_of (filter (\<lambda>e. ev_scheduler e = Some sch) es)"

lemma tasks_for_simps [simp]:
  "tasks_for sch [] = []"
  "tasks_for sch (e # es) = (if ev_scheduler e = Some sch then [task_of e] else []) @ tasks_for sch es"
  "tasks_for sch (es @ es') = tasks_for sch es @ tasks_for sch es'"
  by (simp_all add: tasks_for_def)

lemma schedule_at_frame [simp]:
  "io_fdEvents (schedule_at p ft io) = io_fdEvents io" "io_pending (schedule_at p ft io) = io_pending io"
  "io_timers (schedule_at p ft io) = io_timers io" "io_this (schedule_at p ft io) = io_this io"
  by (simp_all add: schedule_at_def)

lemma schedule_at_queue:
  "ft_fiber ft \<noteq> None \<or> ft_cb ft \<noteq> None \<Longrightarrow>
   sc_fibers (sched_at (schedule_at p ft io) q) = sc_fibers (sched_at io q) @ (if q = p then [ft] else [])"
  using schedule_frame(5) [of ft] by (auto simp: sched_at_def schedule_at_def)

lemma sched_at_upd [simp]:
  "sched_at (io\<lparr>io_pending := n\<rparr>) p = sched_at io p"
  "sched_at (io\<lparr>io_fdEvents := fes\<rparr>) p = sched_at io p"
  "sched_at (io\<lparr>io_timers := tm\<rparr>) p = sched_at io p"
  by (simp_all add: sched_at_def)

lemma fire_ok:
  assumes inv: "io_inv io" and fd: "fd < length (io_fdEvents io)" and et: "single et"
    and reg: "registered et (io_fdEvents io ! fd)"
  obtains io' where "fire fd et io = Inr io'" and "io_inv io'" and "io_pending io = Suc (io_pending io')"
    and "\<And>p. sc_fibers (sched_at io' p) = sc_fibers (sched_at io p) @ tasks_for p [event_of et (io_fdEvents io ! fd)]"
    and "\<And>et'. single et' \<Longrightarrow> registered et' (io_fdEvents io' ! fd)
           \<longleftrightarrow> et' \<noteq> et \<and> registered et' (io_fdEvents io ! fd)"
    and "length (io_fdEvents io') = length (io_fdEvents io)"
    and "io_timers io' = io_timers io"
proof -
  let ?fe = "io_fdEvents io ! fd"
  let ?e = "event_of et ?fe"
  let ?fe1 = "?fe\<lparr>fe_et := fe_et ?fe AND NOT et\<rparr>"
  note ok = io_inv_entry [OF inv fd]
  note clr = clear_registered [OF ok et reg]
  have arm: "armed_event ?e" using ok et reg by (simp add: fe_ok_def)
  then obtain sch where sch: "ev_scheduler ?e = Some sch" by (auto simp: armed_event_def)
  define e' where "e' = (if ev_cb ?e \<noteq> None then ?e\<lparr>ev_cb := None, ev_scheduler := None\<rparr>
      else ?e\<lparr>ev_fiber := None, ev_scheduler := None\<rparr>)"
  have trig: "FdEvent_triggerEvent et ?fe = Inr (setEvent et e' ?fe1, sch, task_of ?e)"
    using reg sch unfolding e'_def
    by (auto simp: FdEvent_triggerEvent_def getEvent_single [OF et] registered_def task_of_def Let_def)
  define io' where "io' = schedule_at sch (task_of ?e) (io\<lparr>io_pending := io_pending io - 1,
      io_fdEvents := (io_fdEvents io)[fd := setEvent et e' ?fe1]\<rparr>)"
  have ok': "fe_ok (setEvent et e' ?fe1)"
    using clr(1,2) ok et by (auto simp: fe_ok_def registered_def event_of_setEvent)
  have "0 < pending_of ?fe" using clr(3) by simp
  then have pos: "0 < io_pending io" by (rule pending_positive [OF inv fd])
  have task: "ft_fiber (task_of ?e) \<noteq> None \<or> ft_cb (task_of ?e) \<noteq> None"
    using arm by (auto simp: task_of_def armed_event_def FiberAndThread_cb_def FiberAndThread_fiber_def)
  show thesis
  proof (rule that [of io'])
    show "fire fd et io = Inr io'" using trig by (simp add: fire_def io'_def)
    show "io_inv io'" using inv fd ok'
      by (rule io_inv_upd) (use pos clr(3) in \<open>simp_all add: io'_def\<close>)
    show "io_pending io = Suc (io_pending io')" using pos by (simp add: io'_def)
    show "sc_fibers (sched_at io' p) = sc_fibers (sched_at io p) @ tasks_for p [?e]" for p
      using sch by (auto simp: io'_def schedule_at_queue [OF task])
    show "registered et' (io_fdEvents io' ! fd) \<longleftrightarrow> et' \<noteq> et \<and> registered et' ?fe" if "single et'" for et'
      using clr(2) [OF that] fd by (simp add: io'_def registered_def)
    show "length (io_fdEvents io') = length (io_fdEvents io)" by (simp add: io'_def)
    show "io_timers io' = io_timers io" by (simp add: io'_def)
  qed
qed

lemma fire_assert: "\<not> registered et (io_fdEvents io ! fd) \<Longrightarrow> fire fd et io = Inl Io_Assert"
  by (simp add: fire_def FdEvent_triggerEvent_def registered_def)

lemma addEvent_locked_inv:
  assumes inv: "io_inv io" and fd: "fd < length (io_fdEvents io)" and et: "single et"
    and run: "addEvent_locked res (Some sch) fiber exec fd et cb io = Inr (r, io')"
  shows "io_inv io'"
proof (cases "res = 0")
  case False
  then show ?thesis using run inv by (auto simp: addEvent_locked_def Let_def split: if_splits)
next
  case True
  let ?fe = "io_fdEvents io ! fd"
  note ok = io_inv_entry [OF inv fd]
  have nreg: "\<not> registered et ?fe"
    using run by (auto simp: addEvent_locked_def registered_def Let_def split: if_splits)
  note sr = set_registered [OF ok et nreg]
  let ?fe1 = "?fe\<lparr>fe_et := fe_et ?fe OR et\<rparr>"
  obtain e where io': "io' = io\<lparr>io_pending := io_pending io + 1,
      io_fdEvents := (io_fdEvents io)[fd := setEvent et e ?fe1]\<rparr>" and arm: "armed_event e"
    using run True by (auto simp: addEvent_locked_def getEvent_single [OF et] armed_event_def Let_def split: if_splits)
  have "fe_ok (setEvent et e ?fe1)"
    using sr(1,2) ok et arm by (auto simp: fe_ok_def registered_def event_of_setEvent)
  with inv fd show ?thesis
    by (rule io_inv_upd) (use sr(3) in \<open>simp_all add: io'\<close>)
qed

lemma eventResize_inv:
  assumes "io_inv io" and "length (io_fdEvents io) \<le> n"
  shows "io_inv (io\<lparr>io_fdEvents := IOManager_eventResize n (io_fdEvents io)\<rparr>)"
  using assms by (auto simp: io_inv_def IOManager_eventResize_def list_all_iff fe_ok_new comp_def)

text \<open>
  The race of \<^verbatim>\<open>addEvent\<close>: when the table was found too small for \<open>fd\<close> and another thread has grown it further
  before the write lock is taken, \<^verbatim>\<open>eventResize\<close> cuts it back. Entries beyond the new size are lost with their
  events, and the pending count still counts them.
\<close>

lemma addEvent_table_race:
  assumes "io_inv io" and "nat (fd * 3 div 2) \<le> k" and "k < length (io_fdEvents io)"
    and "0 < pending_of (io_fdEvents io ! k)"
  shows "length (io_fdEvents (addEvent_table False fd io)) \<le> k"
    and "sum_list (map pending_of (io_fdEvents (addEvent_table False fd io))) < io_pending (addEvent_table False fd io)"
proof -
  let ?n = "nat (fd * 3 div 2)" and ?fes = "io_fdEvents io"
  have t: "io_fdEvents (addEvent_table False fd io) = take ?n ?fes" "io_pending (addEvent_table False fd io) = io_pending io"
    using assms(2,3) by (simp_all add: addEvent_table_def IOManager_eventResize_def)
  then show "length (io_fdEvents (addEvent_table False fd io)) \<le> k" using assms(2) by simp
  have "?fes ! k \<in> set (drop ?n ?fes)"
    using assms(2,3) nth_mem [of "k - ?n" "drop ?n ?fes"] by simp
  then have "0 < sum_list (map pending_of (drop ?n ?fes))"
    using assms(4) member_le_sum_list [of "pending_of (?fes ! k)" "map pending_of (drop ?n ?fes)"] by simp
  moreover have "io_pending io = sum_list (map pending_of (take ?n ?fes)) + sum_list (map pending_of (drop ?n ?fes))"
    using assms(1) by (simp add: io_inv_def flip: sum_list_append map_append)
  ultimately show "sum_list (map pending_of (io_fdEvents (addEvent_table False fd io))) < io_pending (addEvent_table False fd io)"
    unfolding t by simp
qed

text \<open>The table grows past the descriptor: three halves of it are more than it from 32 on.\<close>

lemma addEvent_in_range:
  assumes "io_inv io" and "0 \<le> fd"
  obtains io1 where "IOManager_addEvent res cur fiber exec fd et cb io
      = addEvent_locked res cur fiber exec (nat fd) et cb io1"
    and "io_inv io1" and "nat fd < length (io_fdEvents io1)" and "\<And>p. sched_at io1 p = sched_at io p"
    and "io_timers io1 = io_timers io"
proof (cases "int (length (io_fdEvents io)) > fd")
  case True
  then show thesis using that [of io] assms by (simp add: IOManager_addEvent_def addEvent_table_def nat_less_iff)
next
  case False
  let ?io = "io\<lparr>io_fdEvents := IOManager_eventResize (nat (fd * 3 div 2)) (io_fdEvents io)\<rparr>"
  have "32 \<le> fd" using False assms(1) by (simp add: io_inv_def)
  then have "nat fd < nat (fd * 3 div 2)" and len: "length (io_fdEvents io) \<le> nat (fd * 3 div 2)"
    using False by linarith+
  then have "nat fd < length (io_fdEvents ?io)" by (simp add: IOManager_eventResize_def)
  then show thesis
    using that [of ?io] False assms(2) eventResize_inv [OF assms(1) len] by (simp add: IOManager_addEvent_def addEvent_table_def)
qed

text \<open>After a successful registration of the running fiber the event is registered for it.\<close>

lemma addEvent_locked_registers:
  assumes inv: "io_inv io" and fd: "fd < length (io_fdEvents io)" and et: "single et"
    and run: "addEvent_locked 0 (Some sch) fiber True fd et None io = Inr (r, io')"
  shows "registered et (io_fdEvents io' ! fd)"
    and "event_of et (io_fdEvents io' ! fd) = \<lparr>ev_scheduler = Some sch, ev_fiber = Some fiber, ev_cb = None\<rparr>"
    and "length (io_fdEvents io') = length (io_fdEvents io)" and "\<And>p. sched_at io' p = sched_at io p"
    and "io_timers io' = io_timers io"
proof -
  let ?fe = "io_fdEvents io ! fd"
  let ?fe1 = "?fe\<lparr>fe_et := fe_et ?fe OR et\<rparr>"
  let ?e = "(event_of et ?fe)\<lparr>ev_scheduler := Some sch, ev_fiber := Some fiber\<rparr>"
  have nreg: "\<not> registered et ?fe"
    using run by (auto simp: addEvent_locked_def registered_def Let_def split: if_splits)
  have io': "io' = io\<lparr>io_pending := io_pending io + 1,
      io_fdEvents := (io_fdEvents io)[fd := setEvent et ?e ?fe1]\<rparr>" and cb: "ev_cb (event_of et ?fe) = None"
    using run by (auto simp: addEvent_locked_def getEvent_single [OF et] Let_def split: if_splits)
  show "registered et (io_fdEvents io' ! fd)"
    using set_registered(2) [OF io_inv_entry [OF inv fd] et nreg et] fd by (simp add: io' registered_def)
  show "event_of et (io_fdEvents io' ! fd) = \<lparr>ev_scheduler = Some sch, ev_fiber = Some fiber, ev_cb = None\<rparr>"
    using fd cb event_of_setEvent [OF et et] by (cases "event_of et ?fe") (simp add: io')
  show "length (io_fdEvents io') = length (io_fdEvents io)" "io_timers io' = io_timers io"
    by (simp_all add: io')
  show "sched_at io' p = sched_at io p" for p by (simp add: io')
qed

lemma with_entryE:
  assumes "with_entry fd io k = Inr (r, io')"
  obtains "io' = io" and "r = False"
  | "0 \<le> fd" and "nat fd < length (io_fdEvents io)" and "k (io_fdEvents io ! nat fd) = Inr (r, io')"
  using assms by (auto simp: with_entry_def nat_less_iff split: if_splits)

lemma delEvent_inv:
  assumes inv: "io_inv io" and et: "single et" and run: "IOManager_delEvent res fd et io = Inr (r, io')"
  shows "io_inv io'"
proof -
  from run [unfolded IOManager_delEvent_def] show ?thesis
  proof (cases rule: with_entryE)
    case 2
    let ?fe = "io_fdEvents io ! nat fd"
    note ok = io_inv_entry [OF inv 2(2)]
    show ?thesis
    proof (cases "registered et ?fe \<and> res = 0")
      case True
      then have reg: "registered et ?fe" by simp
      note clr = clear_registered [OF ok et reg]
      let ?fe1 = "?fe\<lparr>fe_et := fe_et ?fe AND NOT et\<rparr>"
      have io': "io' = io\<lparr>io_pending := io_pending io - 1, io_fdEvents := (io_fdEvents io)[nat fd := ?fe1]\<rparr>"
        using 2(3) True by (auto simp: registered_def getEvent_single [OF et] FdEvent_resetEvent_def Let_def)
      have "0 < io_pending io" using pending_positive [OF inv 2(2)] clr(3) by simp
      moreover have "fe_ok ?fe1" using clr(1,2) ok by (auto simp: fe_ok_def registered_def)
      ultimately show ?thesis
        using clr(3) by (intro io_inv_upd [OF inv 2(2)]) (auto simp: io')
    next
      case False
      then show ?thesis using 2(3) inv by (auto simp: registered_def Let_def split: if_splits)
    qed
  qed (use inv in simp)
qed

lemma cancelEvent_inv:
  assumes inv: "io_inv io" and et: "single et" and run: "IOManager_cancelEvent res fd et io = Inr (r, io')"
  shows "io_inv io'"
proof -
  from run [unfolded IOManager_cancelEvent_def] show ?thesis
  proof (cases rule: with_entryE)
    case 2
    show ?thesis
    proof (cases "registered et (io_fdEvents io ! nat fd) \<and> res = 0")
      case True
      then obtain io1 where "fire (nat fd) et io = Inr io1" "io_inv io1"
        using fire_ok [OF inv 2(2) et] by metis
      then show ?thesis using 2(3) True by (simp add: registered_def)
    next
      case False
      then show ?thesis using 2(3) inv by (auto simp: registered_def split: if_splits)
    qed
  qed (use inv in simp)
qed

lemma single_rw [simp]: "single EV_READ" "single EV_WRITE"
  by (simp_all add: single_def)

lemma EV_distinct [simp]: "EV_READ \<noteq> EV_WRITE" "EV_WRITE \<noteq> EV_READ"
  by (simp_all add: EV_READ_def EV_WRITE_def)

text \<open>Firing the events of a set, as \<^verbatim>\<open>cancelAll\<close> and \<^verbatim>\<open>idle\<close> do: first the read, then the write event.\<close>

definition fire_both :: "bool \<Rightarrow> bool \<Rightarrow> nat \<Rightarrow> 'cb io_manager \<Rightarrow> io_error + 'cb io_manager" where
  "fire_both r w fd io =
     rbind (if r then fire fd EV_READ io else Inr io) (\<lambda>io1. if w then fire fd EV_WRITE io1 else Inr io1)"

definition events_of :: "bool \<Rightarrow> bool \<Rightarrow> 'cb fd_event \<Rightarrow> 'cb event list" where
  "events_of r w fe = (if r then [fe_read fe] else []) @ (if w then [fe_write fe] else [])"

lemma fire_keeps_write:
  assumes "fire fd EV_READ io = Inr io'" and "fd < length (io_fdEvents io)"
  shows "fe_write (io_fdEvents io' ! fd) = fe_write (io_fdEvents io ! fd)"
  using assms
  by (auto simp: fire_def rbind_eq_Inr_iff FdEvent_triggerEvent_def FdEvent_getEvent_def setEvent_def Let_def
      split: if_splits option.splits)

lemma fire_both_ok:
  assumes inv: "io_inv io" and fd: "fd < length (io_fdEvents io)"
    and r: "r \<longrightarrow> registered EV_READ (io_fdEvents io ! fd)"
    and w: "w \<longrightarrow> registered EV_WRITE (io_fdEvents io ! fd)"
  obtains io' where "fire_both r w fd io = Inr io'" and "io_inv io'"
    and "\<And>p. sc_fibers (sched_at io' p) = sc_fibers (sched_at io p) @ tasks_for p (events_of r w (io_fdEvents io ! fd))"
    and "registered EV_READ (io_fdEvents io' ! fd) \<longleftrightarrow> registered EV_READ (io_fdEvents io ! fd) \<and> \<not> r"
    and "registered EV_WRITE (io_fdEvents io' ! fd) \<longleftrightarrow> registered EV_WRITE (io_fdEvents io ! fd) \<and> \<not> w"
    and "length (io_fdEvents io') = length (io_fdEvents io)"
proof -
  let ?fe = "io_fdEvents io ! fd"
  obtain io1 where f1: "(if r then fire fd EV_READ io else Inr io) = Inr io1" and inv1: "io_inv io1"
    and q1: "\<And>p. sc_fibers (sched_at io1 p) = sc_fibers (sched_at io p) @ tasks_for p (if r then [fe_read ?fe] else [])"
    and r1: "registered EV_READ (io_fdEvents io1 ! fd) \<longleftrightarrow> registered EV_READ ?fe \<and> \<not> r"
    and w1: "registered EV_WRITE (io_fdEvents io1 ! fd) \<longleftrightarrow> registered EV_WRITE ?fe"
    and l1: "length (io_fdEvents io1) = length (io_fdEvents io)"
    and e1: "fe_write (io_fdEvents io1 ! fd) = fe_write ?fe"
  proof (cases r)
    case True
    obtain io1 where f: "fire fd EV_READ io = Inr io1" and "io_inv io1"
      and "\<And>p. sc_fibers (sched_at io1 p) = sc_fibers (sched_at io p) @ tasks_for p [event_of EV_READ ?fe]"
      and "\<And>et'. single et' \<Longrightarrow> registered et' (io_fdEvents io1 ! fd) \<longleftrightarrow> et' \<noteq> EV_READ \<and> registered et' ?fe"
      and "length (io_fdEvents io1) = length (io_fdEvents io)"
      using fire_ok [OF inv fd single_rw(1)] r True by metis
    with True that [of io1] fire_keeps_write [OF f fd] show thesis by (simp add: event_of_def)
  next
    case False
    with that [of io] inv show thesis by simp
  qed
  show thesis
  proof (cases w)
    case True
    have fd1: "fd < length (io_fdEvents io1)" using fd l1 by simp
    obtain io2 where "fire fd EV_WRITE io1 = Inr io2" and "io_inv io2"
      and "\<And>p. sc_fibers (sched_at io2 p) = sc_fibers (sched_at io1 p) @ tasks_for p [event_of EV_WRITE (io_fdEvents io1 ! fd)]"
      and "\<And>et'. single et' \<Longrightarrow> registered et' (io_fdEvents io2 ! fd)
             \<longleftrightarrow> et' \<noteq> EV_WRITE \<and> registered et' (io_fdEvents io1 ! fd)"
      and "length (io_fdEvents io2) = length (io_fdEvents io1)"
      using fire_ok [OF inv1 fd1 single_rw(2)] w w1 True by metis
    with True that [of io2] f1 q1 r1 w1 l1 e1 show thesis
      by (simp add: fire_both_def events_of_def event_of_def)
  next
    case False
    with that [of io1] f1 inv1 q1 r1 w1 l1 show thesis by (simp add: fire_both_def events_of_def)
  qed
qed

lemma unregistered_zero:
  "fe_ok fe \<Longrightarrow> \<not> registered EV_READ fe \<Longrightarrow> \<not> registered EV_WRITE fe \<Longrightarrow> fe_et fe = 0"
  by (erule fe_ok_cases) (auto simp: registered_def EV_READ_def EV_WRITE_def)

lemma cancelAll_spec:
  assumes inv: "io_inv io" and fd: "0 \<le> fd" "fd < int (length (io_fdEvents io))"
  defines "fe \<equiv> io_fdEvents io ! nat fd"
  shows "if fe_et fe = 0 \<or> res \<noteq> 0 then IOManager_cancelAll res fd io = Inr (False, io)
     else \<exists>io'. IOManager_cancelAll res fd io = Inr (True, io') \<and> io_inv io'
       \<and> fe_et (io_fdEvents io' ! nat fd) = 0
       \<and> (\<forall>p. sc_fibers (sched_at io' p) = sc_fibers (sched_at io p)
           @ tasks_for p (events_of (registered EV_READ fe) (registered EV_WRITE fe) fe))"
proof (cases "fe_et fe = 0 \<or> res \<noteq> 0")
  case True
  then show ?thesis using fd by (auto simp: IOManager_cancelAll_def with_entry_def fe_def)
next
  case False
  have n: "nat fd < length (io_fdEvents io)" using fd by (simp add: nat_less_iff)
  obtain io' where f: "fire_both (registered EV_READ fe) (registered EV_WRITE fe) (nat fd) io = Inr io'"
    and inv': "io_inv io'"
    and q: "\<And>p. sc_fibers (sched_at io' p) = sc_fibers (sched_at io p)
           @ tasks_for p (events_of (registered EV_READ fe) (registered EV_WRITE fe) fe)"
    and none: "\<not> registered EV_READ (io_fdEvents io' ! nat fd)" "\<not> registered EV_WRITE (io_fdEvents io' ! nat fd)"
    and len: "length (io_fdEvents io') = length (io_fdEvents io)"
    using fire_both_ok [OF inv n, of "registered EV_READ fe" "registered EV_WRITE fe"] unfolding fe_def by blast
  have zero: "fe_et (io_fdEvents io' ! nat fd) = 0"
    using unregistered_zero [OF io_inv_entry [OF inv'] none] n len by simp
  obtain io1 where f1: "(if registered EV_READ fe then fire (nat fd) EV_READ io else Inr io) = Inr io1"
    and f2: "(if registered EV_WRITE fe then fire (nat fd) EV_WRITE io1 else Inr io1) = Inr io'"
    using f by (auto simp: fire_both_def rbind_eq_Inr_iff)
  have w1: "registered EV_WRITE (io_fdEvents io1 ! nat fd) = registered EV_WRITE fe"
  proof (cases "registered EV_READ fe")
    case True
    then show ?thesis using f1 fire_ok [OF inv n single_rw(1)] unfolding fe_def
      by (metis EV_distinct(2) Inr_inject single_rw(2))
  qed (use f1 fe_def in simp)
  have "IOManager_cancelAll res fd io = Inr (True, io')"
    using False fd f1 f2 w1 zero
    by (simp add: IOManager_cancelAll_def with_entry_def fe_def registered_def)
  with False inv' zero q show ?thesis by auto
qed

section \<open>Reported events\<close>

definition ev_failed :: "u32 \<Rightarrow> bool" where
  "ev_failed events \<longleftrightarrow> events AND (EPOLLERR OR EPOLLHUP) \<noteq> 0"

definition ev_in :: "u32 \<Rightarrow> bool" where
  "ev_in events \<longleftrightarrow> ev_failed events \<or> events AND EPOLLIN \<noteq> 0"

definition ev_out :: "u32 \<Rightarrow> bool" where
  "ev_out events \<longleftrightarrow> ev_failed events \<or> events AND EPOLLOUT \<noteq> 0"

lemma and_1_iff: "(x :: u32) AND 1 \<noteq> 0 \<longleftrightarrow> bit x 0"
  using and_exp_eq_0_iff_not_bit [of x 0] by simp

lemma and_4_iff: "(x :: u32) AND 4 \<noteq> 0 \<longleftrightarrow> bit x 2"
  using and_exp_eq_0_iff_not_bit [of x 2] by simp

lemma or_5: "(x OR 5) AND 1 \<noteq> (0 :: u32)" "(x OR 5) AND 4 \<noteq> (0 :: u32)"
proof -
  have "bit (5 :: u32) 0" "bit (5 :: u32) 2" by code_simp+
  then show "(x OR 5) AND 1 \<noteq> (0 :: u32)" "(x OR 5) AND 4 \<noteq> (0 :: u32)"
    by (simp_all only: and_1_iff and_4_iff bit_or_iff simp_thms)
qed

lemma handle_event_eq:
  assumes "fe_ok (io_fdEvents io ! fd)"
  shows "IOManager_handle_event res fd events io =
     (if res \<noteq> 0 \<or> \<not> (ev_in events \<and> registered EV_READ (io_fdEvents io ! fd)
            \<or> ev_out events \<and> registered EV_WRITE (io_fdEvents io ! fd)) then Inr io
      else fire_both (ev_in events) (ev_out events) fd io)"
proof -
  let ?fe = "io_fdEvents io ! fd"
  let ?ev = "if events AND (EPOLLERR OR EPOLLHUP) \<noteq> 0 then events OR (EPOLLIN OR EPOLLOUT) else events"
  have i: "?ev AND EPOLLIN \<noteq> 0 \<longleftrightarrow> ev_in events" and o: "?ev AND EPOLLOUT \<noteq> 0 \<longleftrightarrow> ev_out events"
    using or_5 [of events] by (auto simp: ev_in_def ev_out_def ev_failed_def ev_consts)
  show ?thesis
    unfolding IOManager_handle_event_def Let_def i o
    by (cases rule: fe_ok_cases [OF assms]; cases "ev_in events"; cases "ev_out events")
       (simp_all add: registered_def fire_both_def ev_consts)
qed

section \<open>Runs\<close>

text \<open>
  The operations of the event table, with read and write events added by threads of a
  scheduler, and changes of the queue and the timers by other code.
\<close>

inductive io_step :: "'cb io_manager \<Rightarrow> 'cb io_manager \<Rightarrow> bool" where
  add: "single et \<Longrightarrow> 0 \<le> fd \<Longrightarrow>
     IOManager_addEvent res (Some sch) fiber exec fd et cb io = Inr (r, io') \<Longrightarrow> io_step io io'"
| del: "single et \<Longrightarrow> IOManager_delEvent res fd et io = Inr (b, io') \<Longrightarrow> io_step io io'"
| cancel: "single et \<Longrightarrow> IOManager_cancelEvent res fd et io = Inr (b, io') \<Longrightarrow> io_step io io'"
| cancel_all: "IOManager_cancelAll res fd io = Inr (b, io') \<Longrightarrow> io_step io io'"
| event: "fd < length (io_fdEvents io) \<Longrightarrow> IOManager_handle_event res fd events io = Inr io' \<Longrightarrow> io_step io io'"
| sched: "sched_step (io_sched io) s \<Longrightarrow> io_step io (io\<lparr>io_sched := s\<rparr>)"
| other: "io_step io (io\<lparr>io_others := others\<rparr>)"
| timer: "tm_step (io_timers io) front cbs tm \<Longrightarrow> io_step io (io\<lparr>io_timers := tm\<rparr>)"

inductive io_reach :: "'cb io_manager \<Rightarrow> 'cb io_manager \<Rightarrow> bool" for io where
  start: "io_reach io io"
| step: "io_reach io io1 \<Longrightarrow> io_step io1 io2 \<Longrightarrow> io_reach io io2"

lemma cancelAll_inv:
  assumes "io_inv io" and "IOManager_cancelAll res fd io = Inr (b, io')"
  shows "io_inv io'"
proof (cases "0 \<le> fd \<and> fd < int (length (io_fdEvents io))")
  case True
  then show ?thesis using cancelAll_spec [OF assms(1), of fd res] assms by (auto split: if_splits)
next
  case False
  then show ?thesis using assms by (auto simp: IOManager_cancelAll_def with_entry_def split: if_splits)
qed

lemma handle_event_inv:
  assumes "io_inv io" and "fd < length (io_fdEvents io)" and "IOManager_handle_event res fd events io = Inr io'"
  shows "io_inv io'"
proof -
  let ?fe = "io_fdEvents io ! fd"
  note eq = handle_event_eq [OF io_inv_entry [OF assms(1,2)], of res events]
  show ?thesis
  proof (cases "fire_both (ev_in events) (ev_out events) fd io = Inr io'")
    case True
    have r: "ev_in events \<longrightarrow> registered EV_READ ?fe"
      using True fire_assert [of EV_READ io fd]
      by (cases "registered EV_READ ?fe") (auto simp: fire_both_def)
    have w: "ev_out events \<longrightarrow> registered EV_WRITE ?fe"
    proof
      assume o: "ev_out events"
      show "registered EV_WRITE ?fe"
      proof (cases "ev_in events")
        case True
        then obtain io1 where f: "fire fd EV_READ io = Inr io1"
          and "registered EV_WRITE (io_fdEvents io1 ! fd) \<longleftrightarrow> registered EV_WRITE ?fe"
          using fire_ok [OF assms(1,2) single_rw(1)] r by (metis EV_distinct(2) single_rw(2))
        then show ?thesis
          using \<open>fire_both _ _ fd io = _\<close> True o fire_assert [of EV_WRITE io1 fd]
          by (cases "registered EV_WRITE ?fe") (auto simp: fire_both_def)
      next
        case False
        then show ?thesis using \<open>fire_both _ _ fd io = _\<close> o fire_assert [of EV_WRITE io fd]
          by (cases "registered EV_WRITE ?fe") (auto simp: fire_both_def)
      qed
    qed
    show ?thesis using fire_both_ok [OF assms(1,2) r w] True by (metis Inr_inject)
  next
    case False
    then show ?thesis using eq assms(1,3) by (auto split: if_splits)
  qed
qed

lemma io_step_inv:
  assumes "io_step io io'" and "io_inv io"
  shows "io_inv io'"
  using assms
proof cases
  case (add et fd res sch fiber exec cb r)
  obtain io1 where "IOManager_addEvent res (Some sch) fiber exec fd et cb io
      = addEvent_locked res (Some sch) fiber exec (nat fd) et cb io1"
    and "io_inv io1" and "nat fd < length (io_fdEvents io1)"
    using addEvent_in_range [OF assms(2) add(2)] by metis
  then show ?thesis using addEvent_locked_inv add by metis
next
  case (del et res fd b)
  then show ?thesis using delEvent_inv [OF assms(2)] by blast
next
  case (cancel et res fd b)
  then show ?thesis using cancelEvent_inv [OF assms(2)] by blast
next
  case (cancel_all res fd b)
  then show ?thesis using cancelAll_inv [OF assms(2)] by blast
next
  case (event fd res events)
  then show ?thesis using handle_event_inv [OF assms(2)] by blast
qed (use assms(2) in \<open>simp_all add: io_inv_def\<close>)

lemma io_reach_inv: "io_reach io io' \<Longrightarrow> io_inv io \<Longrightarrow> io_inv io'"
  by (induction rule: io_reach.induct) (auto intro: io_step_inv)

text \<open>The event operations leave the timers and the manager's own address alone.\<close>

lemma fire_frame: "fire fd et io = Inr io' \<Longrightarrow> io_timers io' = io_timers io \<and> io_this io' = io_this io"
  by (auto simp: fire_def rbind_eq_Inr_iff)

lemma with_entry_frame:
  assumes "with_entry fd io k = Inr (b, io')"
    and "\<And>fe b io'. k fe = Inr (b, io') \<Longrightarrow> io_timers io' = io_timers io \<and> io_this io' = io_this io"
  shows "io_timers io' = io_timers io \<and> io_this io' = io_this io"
  using assms by (auto simp: with_entry_def split: if_splits)

lemma event_ops_frame:
  "IOManager_addEvent res cur fiber exec fd et cb io = Inr (r, io') \<Longrightarrow> io_timers io' = io_timers io \<and> io_this io' = io_this io"
  "IOManager_delEvent res fd et io = Inr (b, io') \<Longrightarrow> io_timers io' = io_timers io \<and> io_this io' = io_this io"
  "IOManager_cancelEvent res fd et io = Inr (b, io') \<Longrightarrow> io_timers io' = io_timers io \<and> io_this io' = io_this io"
  "IOManager_cancelAll res fd io = Inr (b, io') \<Longrightarrow> io_timers io' = io_timers io \<and> io_this io' = io_this io"
  "IOManager_handle_event res n events io = Inr io' \<Longrightarrow> io_timers io' = io_timers io \<and> io_this io' = io_this io"
proof -
  assume "IOManager_addEvent res cur fiber exec fd et cb io = Inr (r, io')"
  then show "io_timers io' = io_timers io \<and> io_this io' = io_this io"
    by (auto simp: IOManager_addEvent_def addEvent_table_def addEvent_locked_def rbind_eq_Inr_iff Let_def split: if_splits)
next
  assume "IOManager_delEvent res fd et io = Inr (b, io')"
  then show "io_timers io' = io_timers io \<and> io_this io' = io_this io"
    unfolding IOManager_delEvent_def
    by (rule with_entry_frame) (auto simp: rbind_eq_Inr_iff Let_def split: if_splits)
next
  assume "IOManager_cancelEvent res fd et io = Inr (b, io')"
  then show "io_timers io' = io_timers io \<and> io_this io' = io_this io"
    unfolding IOManager_cancelEvent_def
    by (rule with_entry_frame) (auto simp: rbind_eq_Inr_iff dest: fire_frame split: if_splits)
next
  assume "IOManager_cancelAll res fd io = Inr (b, io')"
  then show "io_timers io' = io_timers io \<and> io_this io' = io_this io"
    unfolding IOManager_cancelAll_def
    by (rule with_entry_frame) (auto simp: rbind_eq_Inr_iff dest!: fire_frame split: if_splits)
next
  assume "IOManager_handle_event res n events io = Inr io'"
  then show "io_timers io' = io_timers io \<and> io_this io' = io_this io"
    by (auto simp: IOManager_handle_event_def rbind_eq_Inr_iff Let_def dest!: fire_frame split: if_splits)
qed

lemma io_step_timers: "io_step io io' \<Longrightarrow> tm_inv (io_timers io) \<Longrightarrow> tm_inv (io_timers io') \<and> io_this io' = io_this io"
  by (induction rule: io_step.induct) (simp_all add: event_ops_frame tm_step_inv)

lemma io_reach_timers:
  "io_reach io io' \<Longrightarrow> tm_inv (io_timers io) \<Longrightarrow> tm_inv (io_timers io') \<and> io_this io' = io_this io"
  by (induction rule: io_reach.induct) (auto dest: io_step_timers)

section \<open>A waiting fiber\<close>

text \<open>The fiber waits for the event on the descriptor, and belongs to the scheduler at \<open>sch\<close>.\<close>

definition waits_for :: "int \<Rightarrow> u32 \<Rightarrow> nat \<Rightarrow> nat \<Rightarrow> 'cb io_manager \<Rightarrow> bool" where
  "waits_for fd et sch fiber io \<longleftrightarrow> nat fd < length (io_fdEvents io) \<and> registered et (io_fdEvents io ! nat fd)
     \<and> event_of et (io_fdEvents io ! nat fd) = \<lparr>ev_scheduler = Some sch, ev_fiber = Some fiber, ev_cb = None\<rparr>"

lemma addEvent_waits:
  assumes "io_inv io" and "0 \<le> fd" and "single et"
    and "IOManager_addEvent 0 (Some sch) fiber True fd et None io = Inr (r, io')"
  shows "waits_for fd et sch fiber io'" and "io_inv io'"
proof -
  obtain io0 where l: "addEvent_locked 0 (Some sch) fiber True (nat fd) et None io0 = Inr (r, io')"
    and inv0: "io_inv io0" and len0: "nat fd < length (io_fdEvents io0)"
    using assms(4) addEvent_in_range [OF assms(1,2)] by metis
  show "waits_for fd et sch fiber io'"
    using addEvent_locked_registers(1-3) [OF inv0 len0 assms(3) l] len0 by (simp add: waits_for_def)
  show "io_inv io'" by (rule addEvent_locked_inv [OF inv0 len0 assms(3) l])
qed

text \<open>Cancelling the event hands the fiber back to its scheduler.\<close>

lemma cancelEvent_wakes:
  assumes "io_inv io" and "0 \<le> fd" and "single et" and "waits_for fd et sch fiber io"
  obtains io' where "IOManager_cancelEvent 0 fd et io = Inr (True, io')"
    and "\<not> registered et (io_fdEvents io' ! nat fd)"
    and "sc_fibers (sched_at io' sch) = sc_fibers (sched_at io sch) @ [FiberAndThread_fiber (Some fiber) (- 1)]"
proof -
  have len: "nat fd < length (io_fdEvents io)" and reg: "registered et (io_fdEvents io ! nat fd)"
    using assms(4) by (simp_all add: waits_for_def)
  obtain io' where f: "fire (nat fd) et io = Inr io'"
    and q: "\<And>p. sc_fibers (sched_at io' p) = sc_fibers (sched_at io p) @ tasks_for p [event_of et (io_fdEvents io ! nat fd)]"
    and n: "\<not> registered et (io_fdEvents io' ! nat fd)"
    using fire_ok [OF assms(1) len assms(3) reg] assms(3) by metis
  have "IOManager_cancelEvent 0 fd et io = Inr (True, io')"
    using f reg len assms(2) by (simp add: IOManager_cancelEvent_def with_entry_def registered_def nat_less_iff)
  moreover have "sc_fibers (sched_at io' sch) = sc_fibers (sched_at io sch) @ [FiberAndThread_fiber (Some fiber) (- 1)]"
    using q [of sch] assms(4) by (simp add: waits_for_def task_of_def)
  ultimately show thesis using that n by blast
qed

text \<open>
  While an event is pending a round of \<^verbatim>\<open>idle\<close> does not end the loop: it queues the callbacks of the due
  timers, in their order.
\<close>

lemma idle_round_queues_due:
  assumes "tm_inv (io_timers io)" and "0 < io_pending io" and "tm_heap (io_timers io) q = None"
  obtains io' where "IOManager_idle_round now now' q [] io = Inr (Some io')"
    and "sc_fibers (io_sched io') = sc_fibers (io_sched io)
        @ map (\<lambda>p. FiberAndThread_cb (t_cb (the (tm_heap (io_timers io) p))) (- 1)) (due now' (io_timers io))"
    and "io_fdEvents io' = io_fdEvents io" and "io_pending io' = io_pending io"
proof -
  define tm1 where "tm1 = snd (TimerManager_getNextTimer now (io_timers io))"
  have tm1: "tm_inv tm1" "tm_heap tm1 = tm_heap (io_timers io)" "due now' tm1 = due now' (io_timers io)"
  proof -
    have "tm1 = (io_timers io)\<lparr>tm_tickled := True\<rparr>"
      by (simp add: tm1_def TimerManager_getNextTimer_def Let_def split: list.splits)
    then show "tm_heap tm1 = tm_heap (io_timers io)" "due now' tm1 = due now' (io_timers io)"
      by (simp_all add: due_def TimerManager_detectClockRollover_def)
    show "tm_inv tm1" using getNextTimer_inv [OF assms(1)] by (simp add: tm1_def)
  qed
  obtain cbs tm2 where l: "TimerManager_listExpireCB q now' tm1 = (cbs, tm2)" by fastforce
  have cbs: "cbs = map (\<lambda>p. t_cb (the (tm_heap (io_timers io) p))) (due now' (io_timers io))"
    using listExpireCB_spec [OF tm1(1) _ l] assms(3) tm1 by simp
  have some: "t_cb (the (tm_heap (io_timers io) p)) \<noteq> None" if "p \<in> set (due now' (io_timers io))" for p
    using that assms(1) by (auto simp: due_def tm_inv_def armed_def split: if_splits)
  have range: "sc_fibers (snd (Scheduler_schedule_range (map (\<lambda>cb. FiberAndThread_cb cb (- 1)) xs) s))
      = sc_fibers s @ map (\<lambda>cb. FiberAndThread_cb cb (- 1)) xs" if "\<forall>x\<in>set xs. \<exists>y. x = Some y" for xs :: "'a option list" and s
    using that
    by (induction xs arbitrary: s) (auto simp: Scheduler_scheduleNoLock_def FiberAndThread_cb_def split_beta Let_def
        split: option.splits)
  let ?s = "if cbs \<noteq> [] then snd (Scheduler_schedule_range (map (\<lambda>cb. FiberAndThread_cb cb (- 1)) cbs) (io_sched io))
    else io_sched io"
  have "\<forall>x\<in>set cbs. \<exists>y. x = Some y" using some by (auto simp: cbs)
  then have s: "sc_fibers ?s = sc_fibers (io_sched io) @ map (\<lambda>cb. FiberAndThread_cb cb (- 1)) cbs"
    using range by simp
  have "IOManager_idle_round now now' q [] io = Inr (Some (io\<lparr>io_timers := tm2, io_sched := ?s\<rparr>))"
    using assms(2) l by (simp add: IOManager_idle_round_def IOManager_stopping_def split_beta Let_def flip: tm1_def)
  then show thesis by (rule that) (use s in \<open>simp_all add: cbs comp_def\<close>)
qed

text \<open>A scheduler without threads or tasks, for the concrete instances below.\<close>

definition idle_scheduler :: "unit scheduler" where
  "idle_scheduler =
     \<lparr>sc_fibers = [], sc_activateThreadCount = 0, sc_idleThreadCount = 0, sc_stopping = True,
      sc_autoStop = False, sc_threadCount = 0, sc_rootFiber = None, sc_rootThread = - 1,
      sc_world = \<lparr>fw_heap = (\<lambda>_. None), s_fiber_id = 0, s_fiber_count = 0\<rparr>, sc_workers = []\<rparr>"

section \<open>Properties\<close>

text \<open>
  (C14) In every reachable state the pending count is the number of registered read and write
  events; so when \<^verbatim>\<open>IOManager::stopping()\<close> answers true no event is registered on any
  descriptor, the timer set is empty or its earliest timer lies at the far end of the clock, and the
  scheduler itself is stopping.
\<close>

theorem io_pending_exact:
  assumes "io_reach (IOManager_new this others s t) io"
  shows "io_pending io = sum_list (map pending_of (io_fdEvents io))
    \<and> (fst (IOManager_stopping now io) \<longrightarrow>
         (\<forall>fe\<in>set (io_fdEvents io). fe_et fe = 0) \<and> Scheduler_stopping (io_sched io)
         \<and> (tm_timers (io_timers io) = [] \<or> fst (TimerManager_getNextTimer now (io_timers io)) = - 1))"
proof -
  have inv: "io_inv io" using io_reach_inv [OF assms io_inv_new] .
  have "fe_et fe = 0" if "io_pending io = 0" "fe \<in> set (io_fdEvents io)" for fe
  proof -
    have "fe_ok fe" "pending_of fe = 0" using that inv by (auto simp: io_inv_def list_all_iff)
    then show ?thesis using unregistered_zero by (auto simp: pending_of_def split: if_splits)
  qed
  then show ?thesis
    using inv by (auto simp: io_inv_def IOManager_stopping_def split_beta Let_def)
qed

theorem io_pending_exact_witness:
  "\<exists>io. io_reach (IOManager_new 0 (\<lambda>_. idle_scheduler) idle_scheduler (TimerManager_new 0)) io \<and> io_pending io = 1
     \<and> sum_list (map pending_of (io_fdEvents io)) = 1"
proof -
  let ?io = "IOManager_new 0 (\<lambda>_. idle_scheduler) idle_scheduler (TimerManager_new 0)"
  obtain io where a: "IOManager_addEvent 0 (Some 0) 7 True 3 EV_READ None ?io = Inr (0, io)" and "io_pending io = 1"
    by (simp add: IOManager_addEvent_def addEvent_table_def addEvent_locked_def IOManager_new_def IOManager_eventResize_def
        FdEvent_new_def FdEvent_getEvent_def Event_empty_def EV_NONE_def EV_READ_def Let_def)
  have "io_step ?io io" using a by (intro io_step.add [of EV_READ 3]) simp_all
  then have r: "io_reach ?io io" by (meson io_reach.intros)
  with io_pending_exact [OF r] \<open>io_pending io = 1\<close> show ?thesis by auto
qed

text \<open>
  \<^verbatim>\<open>cancelAll\<close> on a valid descriptor never fails its assertions: without registered events, or
  when \<^verbatim>\<open>epoll_ctl\<close> fails, it changes nothing and returns false; otherwise it queues the read and
  then the write handler that were registered and leaves the descriptor without events.
\<close>

theorem cancelAll_triggers_all:
  assumes "io_reach (IOManager_new this others s t) io" and "0 \<le> fd" and "fd < int (length (io_fdEvents io))"
    and "fe = io_fdEvents io ! nat fd"
  shows "if fe_et fe = 0 \<or> res \<noteq> 0 then IOManager_cancelAll res fd io = Inr (False, io)
     else \<exists>io'. IOManager_cancelAll res fd io = Inr (True, io') \<and> io_inv io'
       \<and> fe_et (io_fdEvents io' ! nat fd) = 0
       \<and> (\<forall>p. sc_fibers (sched_at io' p) = sc_fibers (sched_at io p)
           @ tasks_for p (events_of (registered EV_READ fe) (registered EV_WRITE fe) fe))"
  unfolding assms(4) by (rule cancelAll_spec [OF io_reach_inv [OF assms(1) io_inv_new] assms(2,3)])

theorem cancelAll_triggers_all_witness:
  "IOManager_cancelAll 0 5 (IOManager_new 0 (\<lambda>_. idle_scheduler) idle_scheduler (TimerManager_new 0)) = Inr (False, IOManager_new 0 (\<lambda>_. idle_scheduler) idle_scheduler (TimerManager_new 0))"
proof -
  have "5 < int (length (io_fdEvents (IOManager_new 0 (\<lambda>_. idle_scheduler) idle_scheduler (TimerManager_new 0))))"
    and z: "fe_et (io_fdEvents (IOManager_new 0 (\<lambda>_. idle_scheduler) idle_scheduler (TimerManager_new 0)) ! nat 5) = 0"
    by (simp_all add: IOManager_new_def IOManager_eventResize_def FdEvent_new_def EV_NONE_def)
  with cancelAll_triggers_all [OF io_reach.start, of 5 0 "\<lambda>_. idle_scheduler" idle_scheduler "TimerManager_new 0" _ 0] show ?thesis by simp
qed

text \<open>
  (C15) What \<^verbatim>\<open>idle\<close> does with one reported event: if the reported directions (both of them after
  \<^verbatim>\<open>EPOLLERR\<close> or \<^verbatim>\<open>EPOLLHUP\<close>) are all registered, their handlers are queued, each by the scheduler it was registered with; if only some are
  registered, the assertion in \<^verbatim>\<open>triggerEvent\<close> fails. So an error on a descriptor that only waits
  for reading aborts the program.
\<close>

theorem handle_event_outcome:
  assumes "io_reach (IOManager_new this others s t) io" and "fd < length (io_fdEvents io)"
    and "r = registered EV_READ (io_fdEvents io ! fd)" and "w = registered EV_WRITE (io_fdEvents io ! fd)"
  shows "if \<not> (ev_in events \<and> r \<or> ev_out events \<and> w) then IOManager_handle_event 0 fd events io = Inr io
     else if (ev_in events \<longrightarrow> r) \<and> (ev_out events \<longrightarrow> w) then
       (\<exists>io'. IOManager_handle_event 0 fd events io = Inr io' \<and> io_inv io'
          \<and> (\<forall>p. sc_fibers (sched_at io' p) = sc_fibers (sched_at io p)
              @ tasks_for p (events_of (ev_in events) (ev_out events) (io_fdEvents io ! fd))))
     else IOManager_handle_event 0 fd events io = Inl Io_Assert"
proof -
  have inv: "io_inv io" using io_reach_inv [OF assms(1) io_inv_new] .
  note eq = handle_event_eq [OF io_inv_entry [OF inv assms(2)], of 0 events, folded assms(3,4)]
  have ok: "\<exists>io'. fire_both (ev_in events) (ev_out events) fd io = Inr io' \<and> io_inv io'
          \<and> (\<forall>p. sc_fibers (sched_at io' p) = sc_fibers (sched_at io p)
              @ tasks_for p (events_of (ev_in events) (ev_out events) (io_fdEvents io ! fd)))"
    if "ev_in events \<longrightarrow> r" "ev_out events \<longrightarrow> w"
    using fire_both_ok [OF inv assms(2) that [unfolded assms(3,4)]] by metis
  have bad: "fire_both (ev_in events) (ev_out events) fd io = Inl Io_Assert"
    if "\<not> ((ev_in events \<longrightarrow> r) \<and> (ev_out events \<longrightarrow> w))"
  proof (cases "ev_in events \<and> \<not> r")
    case True
    then show ?thesis using fire_assert [of EV_READ io fd] assms(3) by (simp add: fire_both_def)
  next
    case False
    with that have o: "ev_out events" "\<not> w" by auto
    show ?thesis
    proof (cases "ev_in events")
      case True
      then obtain io1 where f: "fire fd EV_READ io = Inr io1"
        and "registered EV_WRITE (io_fdEvents io1 ! fd) \<longleftrightarrow> w"
        using fire_ok [OF inv assms(2) single_rw(1)] False assms(3,4) by (metis EV_distinct(2) single_rw(2))
      then show ?thesis using True o fire_assert [of EV_WRITE io1 fd] by (simp add: fire_both_def)
    next
      case False
      then show ?thesis using o fire_assert [of EV_WRITE io fd] assms(4) by (simp add: fire_both_def)
    qed
  qed
  show ?thesis using eq ok bad by auto
qed

theorem handle_event_outcome_witness:
  "\<exists>io. io_reach (IOManager_new 0 (\<lambda>_. idle_scheduler) idle_scheduler (TimerManager_new 0)) io \<and> registered EV_READ (io_fdEvents io ! 3)
     \<and> \<not> registered EV_WRITE (io_fdEvents io ! 3)
     \<and> IOManager_handle_event 0 3 EPOLLERR io = Inl Io_Assert"
proof -
  let ?io = "IOManager_new 0 (\<lambda>_. idle_scheduler) idle_scheduler (TimerManager_new 0)"
  obtain io where a: "IOManager_addEvent 0 (Some 0) 7 True 3 EV_READ None ?io = Inr (0, io)"
    and reg: "registered EV_READ (io_fdEvents io ! 3)" "\<not> registered EV_WRITE (io_fdEvents io ! 3)"
    and len: "3 < length (io_fdEvents io)"
    by (simp add: IOManager_addEvent_def addEvent_table_def addEvent_locked_def IOManager_new_def IOManager_eventResize_def
        FdEvent_new_def FdEvent_getEvent_def Event_empty_def EV_NONE_def EV_READ_def EV_WRITE_def Let_def
        registered_def)
  have "io_step ?io io" using a by (intro io_step.add [of EV_READ 3]) simp_all
  then have r: "io_reach ?io io" by (meson io_reach.intros)
  have "ev_in EPOLLERR" "ev_out EPOLLERR" by (simp_all add: ev_in_def ev_out_def ev_failed_def ev_consts)
  then have "IOManager_handle_event 0 3 EPOLLERR io = Inl Io_Assert"
    using handle_event_outcome [OF r len refl refl, of EPOLLERR] reg by simp
  with r reg show ?thesis by blast
qed

text \<open>
  After a successful \<^verbatim>\<open>delEvent\<close> the same event cannot be added again: \<^verbatim>\<open>resetEvent\<close> clears a
  copy, the stored event keeps its handler and the assertion of \<^verbatim>\<open>addEvent\<close> fails.
\<close>

theorem delEvent_blocks_addEvent:
  assumes "io_reach (IOManager_new this others s t) io" and "single et"
    and "IOManager_delEvent 0 fd et io = Inr (True, io')"
  shows "IOManager_addEvent 0 cur fiber exec fd et cb io' = Inl Io_Assert"
proof -
  have inv: "io_inv io" using io_reach_inv [OF assms(1) io_inv_new] .
  from assms(3) [unfolded IOManager_delEvent_def] show ?thesis
  proof (cases rule: with_entryE)
    case 2
    let ?fe = "io_fdEvents io ! nat fd"
    let ?fe1 = "?fe\<lparr>fe_et := fe_et ?fe AND NOT et\<rparr>"
    note ok = io_inv_entry [OF inv 2(2)]
    have reg: "registered et ?fe" using 2(3) by (auto simp: registered_def split: if_splits)
    then have io': "io' = io\<lparr>io_pending := io_pending io - 1, io_fdEvents := (io_fdEvents io)[nat fd := ?fe1]\<rparr>"
      using 2(3) by (auto simp: registered_def getEvent_single [OF assms(2)] FdEvent_resetEvent_def Let_def)
    have arm: "armed_event (event_of et ?fe)" using ok assms(2) reg by (simp add: fe_ok_def)
    have "(fe_et ?fe AND NOT et) AND et = 0" by (simp add: and.assoc)
    then have "addEvent_locked 0 cur fiber exec (nat fd) et cb io' = Inl Io_Assert"
      using 2(2) arm by (simp add: addEvent_locked_def io' getEvent_single [OF assms(2)] armed_event_def)
    then show ?thesis using 2(1,2) by (simp add: IOManager_addEvent_def addEvent_table_def io' nat_less_iff)
  qed simp
qed

theorem delEvent_blocks_addEvent_witness:
  "\<exists>io io'. io_reach (IOManager_new 0 (\<lambda>_. idle_scheduler) idle_scheduler (TimerManager_new 0)) io \<and> IOManager_delEvent 0 3 EV_READ io = Inr (True, io')
     \<and> IOManager_addEvent 0 (Some 0) 7 True 3 EV_READ None io' = Inl Io_Assert"
proof -
  let ?io = "IOManager_new 0 (\<lambda>_. idle_scheduler) idle_scheduler (TimerManager_new 0)"
  obtain io io' where a: "IOManager_addEvent 0 (Some 0) 7 True 3 EV_READ None ?io = Inr (0, io)"
    and d: "IOManager_delEvent 0 3 EV_READ io = Inr (True, io')"
    by (simp add: IOManager_addEvent_def addEvent_table_def addEvent_locked_def IOManager_new_def IOManager_eventResize_def
        FdEvent_new_def FdEvent_getEvent_def Event_empty_def EV_NONE_def EV_READ_def EV_WRITE_def Let_def
        IOManager_delEvent_def with_entry_def setEvent_def)
  have "io_step ?io io" using a by (intro io_step.add [of EV_READ 3]) simp_all
  then have r: "io_reach ?io io" by (meson io_reach.intros)
  show ?thesis using r d delEvent_blocks_addEvent [OF r single_rw(1) d] by blast
qed

text \<open>
  (C39) The wait of \<^verbatim>\<open>idle\<close> is bounded by \<^verbatim>\<open>MAX_TIMEOUT\<close> when the next timer is less than
  \<open>2 ^ 31\<close> milliseconds away (or there is none); beyond that the narrowing comparison can let a
  negative argument through, with which \<^verbatim>\<open>epoll_wait\<close> has no timeout.
\<close>

theorem idle_wait_bounded:
  "(t = - 1 \<or> unat t < 2 ^ 31 \<longrightarrow>
      0 \<le> epoll_wait_arg (IOManager_wait_timeout t) \<and> epoll_wait_arg (IOManager_wait_timeout t) \<le> 5000)
   \<and> epoll_wait_arg (IOManager_wait_timeout 0x80000000) < 0"
proof -
  have big: "sint (ucast (5000 :: u64) :: u32) = 5000" "sint (ucast (0x80000000 :: u64) :: u32) < 0"
    by code_simp+
  have small: "sint (ucast t :: u32) = uint t" if "unat t < 2 ^ 31"
  proof -
    have "int (unat t) < int (2 ^ 31)" using that by (simp only: of_nat_less_iff)
    then have lt: "uint t < 2 ^ 31" by (simp only: uint_nat of_nat_power of_nat_numeral)
    then have "take_bit 32 (uint t) = uint t"
      by (intro take_bit_int_eq_self uint_ge_0 order_less_trans [OF lt]) simp
    moreover have "- (2 ^ 31) \<le> uint t" by (rule order_trans [OF _ uint_ge_0]) simp
    then have "signed_take_bit 31 (uint t) = uint t" using lt by (intro signed_take_bit_int_eq_self)
    moreover have "sint (ucast t :: u32) = signed_take_bit 31 (take_bit 32 (uint t))"
      by (simp add: sint_uint unsigned_ucast_eq)
    ultimately show ?thesis by (simp only:)
  qed
  have "0 \<le> epoll_wait_arg (IOManager_wait_timeout t) \<and> epoll_wait_arg (IOManager_wait_timeout t) \<le> 5000"
    if "t = - 1 \<or> unat t < 2 ^ 31"
  proof (cases "t \<noteq> - 1 \<and> sint (ucast t :: u32) < MAX_TIMEOUT")
    case True
    then have "IOManager_wait_timeout t = t" by (simp only: IOManager_wait_timeout_def simp_thms if_True)
    moreover have "sint (ucast t :: u32) = uint t" using small that True by blast
    ultimately show ?thesis using True by (simp add: epoll_wait_arg_def MAX_TIMEOUT_def)
  next
    case False
    then have "IOManager_wait_timeout t = 5000"
      unfolding IOManager_wait_timeout_def by (simp only: split: if_split) blast
    then have "epoll_wait_arg (IOManager_wait_timeout t) = 5000"
      using big(1) by (simp only: epoll_wait_arg_def)
    then show ?thesis by simp
  qed
  moreover have "IOManager_wait_timeout 0x80000000 = 0x80000000"
    unfolding IOManager_wait_timeout_def MAX_TIMEOUT_def using big(2) by simp
  then have "epoll_wait_arg (IOManager_wait_timeout 0x80000000) < 0"
    using big(2) by (simp only: epoll_wait_arg_def)
  ultimately show ?thesis by blast
qed

theorem idle_wait_bounded_witness:
  "epoll_wait_arg (IOManager_wait_timeout 100) \<le> 5000"
  using idle_wait_bounded [of 100] by simp

end
