(* ===== verification/Hook.thy ===== *)
theory Hook
  imports Fd_Manager IO_Manager "HOL-Library.Signed_Division"
begin

text \<open>
  Model of \<^verbatim>\<open>src/src/hook.cpp\<close>: the system calls as a fiber sees them. A blocking call on
  a socket becomes a loop of non-blocking calls that waits in the I/O manager in between.

  The original functions (\<^verbatim>\<open>read_f\<close>, \<^verbatim>\<open>connect_f\<close>, ...) belong to the C library: their
  answers are given as a list, consumed one per call; what happens while the fiber waits (the result
  of \<^verbatim>\<open>addEvent\<close>, whether the timeout struck, and the \<^verbatim>\<open>errno\<close> that the calls made meanwhile leave
  behind) is another list. A run that needs more answers
  than it is given has not returned: the value is \<open>None\<close>.
\<close>

section \<open>errno and the answers of the system\<close>

definition EINTR :: int where "EINTR = 4"
definition EBADF :: int where "EBADF = 9"
definition EAGAIN :: int where "EAGAIN = 11"
definition ETIMEDOUT :: int where "ETIMEDOUT = 110"
definition EINPROGRESS :: int where "EINPROGRESS = 115"

lemmas errno_defs = EINTR_def EBADF_def EAGAIN_def ETIMEDOUT_def EINPROGRESS_def

text \<open>A call succeeds with a non-negative value, leaving \<^verbatim>\<open>errno\<close>, or fails and sets \<^verbatim>\<open>errno\<close>.\<close>

datatype io_result = Io_Ok nat | Io_Err int

record io_wait =
  wait_addEvent :: int
  wait_cancelled :: int
  wait_errno :: int

record hook_result =
  hr_ret :: int
  hr_errno :: int
  hr_calls :: "io_result list"
  hr_waits :: "io_wait list"

section \<open>do\_io\<close>

text \<open>
  The loop on \<^verbatim>\<open>EINTR\<close> calls again but keeps the old result \<^verbatim>\<open>n\<close>; only \<^verbatim>\<open>errno\<close> can end it.
\<close>

fun do_io_eintr :: "io_result list \<Rightarrow> int \<Rightarrow> (int \<times> io_result list) option" where
  "do_io_eintr [] errno = (if errno = EINTR then None else Some (errno, []))"
| "do_io_eintr (c # cs) errno =
     (if errno = EINTR then do_io_eintr cs (case c of Io_Ok _ \<Rightarrow> errno | Io_Err e \<Rightarrow> e)
      else Some (errno, c # cs))"

lemma do_io_eintr_length: "do_io_eintr cs e = Some (e', cs') \<Longrightarrow> length cs' \<le> length cs"
  by (induction cs e rule: do_io_eintr.induct) (auto split: if_splits)

function do_io_retry :: "int \<Rightarrow> io_result list \<Rightarrow> io_wait list \<Rightarrow> hook_result option" where
  "do_io_retry errno [] ws = None"
| "do_io_retry errno (Io_Ok n # cs) ws =
     Some \<lparr>hr_ret = int n, hr_errno = errno, hr_calls = cs, hr_waits = ws\<rparr>"
| "do_io_retry errno (Io_Err e # cs) ws =
     (case do_io_eintr cs e of
        None \<Rightarrow> None
      | Some (e', cs') \<Rightarrow>
          if e' = EAGAIN then
            (case ws of
               [] \<Rightarrow> None
             | w # ws' \<Rightarrow>
                 if wait_addEvent w = - 1
                 then Some \<lparr>hr_ret = - 1, hr_errno = wait_errno w, hr_calls = cs', hr_waits = ws'\<rparr>
                 else if wait_cancelled w \<noteq> 0
                 then Some \<lparr>hr_ret = - 1, hr_errno = wait_cancelled w, hr_calls = cs', hr_waits = ws'\<rparr>
                 else do_io_retry (wait_errno w) cs' ws')
          else Some \<lparr>hr_ret = - 1, hr_errno = e', hr_calls = cs', hr_waits = ws\<rparr>)"
  by pat_completeness auto
termination
  by (relation "measure (\<lambda>(errno, cs, ws). length cs)") (auto dest!: do_io_eintr_length)

definition plain_call :: "int \<Rightarrow> io_result list \<Rightarrow> io_wait list \<Rightarrow> hook_result option" where
  "plain_call errno calls waits =
     (case calls of
        [] \<Rightarrow> None
      | Io_Ok n # cs \<Rightarrow> Some \<lparr>hr_ret = int n, hr_errno = errno, hr_calls = cs, hr_waits = waits\<rparr>
      | Io_Err e # cs \<Rightarrow> Some \<lparr>hr_ret = - 1, hr_errno = e, hr_calls = cs, hr_waits = waits\<rparr>)"

definition do_io ::
    "bool \<Rightarrow> fd_ctx option \<Rightarrow> int \<Rightarrow> io_result list \<Rightarrow> io_wait list \<Rightarrow> hook_result option" where
  "do_io hook_enable ctx errno calls waits =
     (if \<not> hook_enable then plain_call errno calls waits
      else case ctx of
        None \<Rightarrow> plain_call errno calls waits
      | Some c \<Rightarrow>
          if fc_isClose c
          then Some \<lparr>hr_ret = - 1, hr_errno = EBADF, hr_calls = calls, hr_waits = waits\<rparr>
          else if \<not> fc_isSocket c \<or> fc_userNonblock c then plain_call errno calls waits
          else do_io_retry errno calls waits)"

text \<open>
  What waiting does to the I/O manager: a timer when the descriptor has a timeout, then the event.
  \<open>timer\<close> is the address the timer gets and \<open>cb\<close> its callback; \<open>res\<close>, \<open>sch\<close> and \<open>fiber\<close> are as
  in \<^verbatim>\<open>addEvent\<close>.
\<close>

definition do_io_wait ::
    "u64 \<Rightarrow> nat \<Rightarrow> u64 \<Rightarrow> 'cb \<Rightarrow> int \<Rightarrow> nat option \<Rightarrow> nat \<Rightarrow> int \<Rightarrow> u32 \<Rightarrow> 'cb io_manager
      \<Rightarrow> io_error + (int \<times> nat option \<times> 'cb io_manager)" where
  "do_io_wait now timer to cb res sch fiber fd event io =
     (let (tinfo, io1) =
        (if to \<noteq> - 1
         then (Some timer, io\<lparr>io_timers := fst (TimerManager_addTimer timer now to (Some cb) False (io_timers io))\<rparr>)
         else (None, io))
      in rbind (IOManager_addEvent res sch fiber True fd event None io1) (\<lambda>(r, io2).
           if r = - 1 then
             (case tinfo of
                None \<Rightarrow> Inr (r, tinfo, io2)
              | Some p \<Rightarrow> (case Timer_cancle p (io_timers io2) of
                    None \<Rightarrow> Inl Io_Assert
                  | Some (_, tm) \<Rightarrow> Inr (r, tinfo, io2\<lparr>io_timers := tm\<rparr>)))
           else Inr (r, tinfo, io2)))"

text \<open>The timer's callback: unless the wait is over it records the timeout and cancels the event.\<close>

definition do_io_timeout_cb ::
    "bool \<Rightarrow> int \<Rightarrow> int \<Rightarrow> int \<Rightarrow> u32 \<Rightarrow> 'cb io_manager \<Rightarrow> io_error + (int \<times> 'cb io_manager)" where
  "do_io_timeout_cb alive cancelled res fd event io =
     (if \<not> alive \<or> cancelled \<noteq> 0 then Inr (cancelled, io)
      else rbind (IOManager_cancelEvent res fd event io) (\<lambda>(_, io'). Inr (ETIMEDOUT, io')))"

text \<open>
  The callbacks that this file hands to the timers: the one of a wait with a timeout, and the one of a sleeping
  fiber. \<open>alive\<close> and \<open>cancelled\<close> are the state of the wait's \<^verbatim>\<open>timer_info\<close> when the callback runs; the result is
  its new \<^verbatim>\<open>cancelled\<close>.
\<close>

datatype hook_cb = Hook_timeout int u32 | Hook_wake nat

fun hook_cb_run :: "bool \<Rightarrow> int \<Rightarrow> int \<Rightarrow> hook_cb \<Rightarrow> hook_cb io_manager \<Rightarrow> io_error + (int \<times> hook_cb io_manager)" where
  "hook_cb_run alive cancelled res (Hook_timeout fd event) io = do_io_timeout_cb alive cancelled res fd event io"
| "hook_cb_run alive cancelled res (Hook_wake fiber) io =
     Inr (cancelled, schedule_at (io_this io) (FiberAndThread_fiber (Some fiber) (- 1)) io)"

section \<open>Sleeping\<close>

text \<open>The interval of the timer the sleeping fiber waits for, at the widths of the source.\<close>

definition hook_sleep_ms :: "u32 \<Rightarrow> u64" where
  "hook_sleep_ms seconds = ucast (seconds * 1000)"

definition hook_usleep_ms :: "u32 \<Rightarrow> u64" where
  "hook_usleep_ms usec = ucast (usec div 1000)"

definition hook_nanosleep_ms :: "u64 \<Rightarrow> u64 \<Rightarrow> u64" where
  "hook_nanosleep_ms tv_sec tv_nsec =
     scast (ucast (tv_sec * 1000 + of_int (sint tv_nsec sdiv 1000 sdiv 1000)) :: u32)"

definition hook_sleep ::
    "nat \<Rightarrow> u64 \<Rightarrow> 'cb \<Rightarrow> u64 \<Rightarrow> 'cb io_manager \<Rightarrow> 'cb io_manager" where
  "hook_sleep timer now cb ms io =
     io\<lparr>io_timers := fst (TimerManager_addTimer timer now ms (Some cb) False (io_timers io))\<rparr>"

section \<open>Sockets\<close>

definition hook_socket ::
    "bool \<Rightarrow> int \<Rightarrow> fd_table \<Rightarrow> fd_kernel \<Rightarrow> fd_error + (int \<times> fd_table \<times> fd_kernel)" where
  "hook_socket hook_enable fd t k =
     (if \<not> hook_enable then Inr (fd, t, k)
      else if fd = - 1 then Inr (fd, t, k)
      else rbind (FdManager_get fd True t k) (\<lambda>(_, t', k'). Inr (fd, t', k')))"

definition hook_accept ::
    "bool \<Rightarrow> fd_ctx option \<Rightarrow> int \<Rightarrow> io_result list \<Rightarrow> io_wait list \<Rightarrow> fd_table \<Rightarrow> fd_kernel
      \<Rightarrow> (fd_error + (hook_result \<times> fd_table \<times> fd_kernel)) option" where
  "hook_accept hook_enable ctx errno calls waits t k =
     (case do_io hook_enable ctx errno calls waits of
        None \<Rightarrow> None
      | Some r \<Rightarrow>
          Some (if hr_ret r \<ge> 0
                then rbind (FdManager_get (hr_ret r) True t k) (\<lambda>(_, t', k'). Inr (r, t', k'))
                else Inr (r, t, k)))"

text \<open>
  \<open>call\<close> answers \<^verbatim>\<open>connect_f\<close>, \<open>wait\<close> the waiting and \<open>so_error\<close> the query of \<^verbatim>\<open>SO_ERROR\<close>
  (\<open>Inl\<close> and \<^verbatim>\<open>errno\<close> when the query fails). The result is the return value and \<^verbatim>\<open>errno\<close>.
\<close>

definition connect_with_timeout ::
    "bool \<Rightarrow> fd_ctx option \<Rightarrow> int \<Rightarrow> io_result \<Rightarrow> io_wait \<Rightarrow> int + int \<Rightarrow> int \<times> int" where
  "connect_with_timeout hook_enable ctx errno call wait so_error =
     (let direct = (case call of Io_Ok n \<Rightarrow> (int n, errno) | Io_Err e \<Rightarrow> (- 1, e)) in
      if \<not> hook_enable then direct
      else case ctx of
        None \<Rightarrow> (- 1, EBADF)
      | Some c \<Rightarrow>
          if fc_isClose c then (- 1, EBADF)
          else if \<not> fc_isSocket c then direct
          else if fc_userNonblock c then direct
          else if fst direct = 0 then (0, snd direct)
          else if fst direct \<noteq> - 1 \<or> snd direct \<noteq> EINPROGRESS then direct
          else if wait_addEvent wait = 0 \<and> wait_cancelled wait \<noteq> 0 then (- 1, wait_cancelled wait)
          else (case so_error of
                  Inl e \<Rightarrow> (- 1, e)
                | Inr err \<Rightarrow> if err = 0 then (0, wait_errno wait) else (- 1, err)))"

definition hook_close ::
    "bool \<Rightarrow> bool \<Rightarrow> int \<Rightarrow> int \<Rightarrow> fd_table \<Rightarrow> fd_kernel \<Rightarrow> 'cb io_manager
      \<Rightarrow> (io_error + fd_error) + (fd_table \<times> 'cb io_manager)" where
  "hook_close hook_enable has_iom res fd t k io =
     (if \<not> hook_enable then Inr (t, io)
      else case FdManager_get fd False t k of
        Inl e \<Rightarrow> Inl (Inr e)
      | Inr (None, _, _) \<Rightarrow> Inr (t, io)
      | Inr (Some ctx, _, _) \<Rightarrow>
          if has_iom then
            (case IOManager_cancelAll res fd io of
               Inl e \<Rightarrow> Inl (Inl e)
             | Inr (_, io') \<Rightarrow>
                 (case FdManager_del fd t of Inl e \<Rightarrow> Inl (Inr e) | Inr t' \<Rightarrow> Inr (t', io')))
          else Inr (t, io))"

section \<open>Reading and writing\<close>

text \<open>
  The calls that are \<^verbatim>\<open>do_io\<close> with an event and a timeout: what such a call answers, and what it does to the I/O manager when it has to wait.
\<close>

datatype io_fun =
  Io_read | Io_readv | Io_recv | Io_recvfrom | Io_recvmsg
| Io_write | Io_writev | Io_send | Io_sendto | Io_sendmsg

definition io_fun_reads :: "io_fun \<Rightarrow> bool" where
  "io_fun_reads f \<longleftrightarrow> f \<in> {Io_read, Io_readv, Io_recv, Io_recvfrom, Io_recvmsg}"

definition io_fun_event :: "io_fun \<Rightarrow> u32" where
  "io_fun_event f = (if io_fun_reads f then EV_READ else EV_WRITE)"

definition hook_io :: "io_fun \<Rightarrow> bool \<Rightarrow> fd_ctx option \<Rightarrow> int \<Rightarrow> io_result list \<Rightarrow> io_wait list \<Rightarrow> hook_result option" where
  "hook_io f = do_io"

definition hook_io_wait ::
    "io_fun \<Rightarrow> u64 \<Rightarrow> nat \<Rightarrow> fd_ctx \<Rightarrow> 'cb \<Rightarrow> int \<Rightarrow> nat option \<Rightarrow> nat \<Rightarrow> int \<Rightarrow> 'cb io_manager
      \<Rightarrow> io_error + (int \<times> nat option \<times> 'cb io_manager)" where
  "hook_io_wait f now timer ctx cb res sch fiber fd io =
     do_io_wait now timer (FdCtx_getTimeout (io_fun_reads f) ctx) cb res sch fiber fd (io_fun_event f) io"

text \<open>The wait of \<^verbatim>\<open>connect_with_timeout\<close> when the connection is in progress: for the socket to become writable.\<close>

definition connect_wait ::
    "u64 \<Rightarrow> nat \<Rightarrow> u64 \<Rightarrow> 'cb \<Rightarrow> int \<Rightarrow> nat option \<Rightarrow> nat \<Rightarrow> int \<Rightarrow> 'cb io_manager
      \<Rightarrow> io_error + (int \<times> nat option \<times> 'cb io_manager)" where
  "connect_wait now timer timeout_ms cb res sch fiber sockfd io =
     do_io_wait now timer timeout_ms cb res sch fiber sockfd EV_WRITE io"

text \<open>The timeout of \<^verbatim>\<open>connect\<close> is an \<^verbatim>\<open>int\<close> of the configuration, stored in 64 bits; a negative one is taken for a huge one, and -1 for none.\<close>

definition s_connect_timeout :: "int \<Rightarrow> u64" where
  "s_connect_timeout tcp_connect_timeout = word_of_int tcp_connect_timeout"

section \<open>Flags\<close>

datatype fcntl_cmd =
  F_DUPFD | F_DUPFD_CLOEXEC | F_SETFD | F_SETFL | F_GETFD | F_GETFL
| F_int nat | F_noarg nat | F_ptr nat | F_other nat

text \<open>
  The original \<^verbatim>\<open>fcntl\<close> is the argument \<open>fcntl_f\<close>: command, descriptor, argument and kernel state to a
  result and a kernel state. The first result is the context with the user's flag recorded.
\<close>

definition hook_fcntl ::
    "(fcntl_cmd \<Rightarrow> int \<Rightarrow> u32 \<Rightarrow> 'k \<Rightarrow> u32 \<times> 'k) \<Rightarrow> fd_ctx option \<Rightarrow> int \<Rightarrow> fcntl_cmd \<Rightarrow> u32 \<Rightarrow> 'k
      \<Rightarrow> fd_ctx option \<times> u32 \<times> 'k" where
  "hook_fcntl fcntl_f ctx fd cmd arg k =
     (let special = (case ctx of None \<Rightarrow> False | Some c \<Rightarrow> \<not> fc_isClose c \<and> fc_isSocket c) in
      case cmd of
        F_GETFD \<Rightarrow> (case fcntl_f cmd fd 0 k of (r, k') \<Rightarrow>
            (ctx, if \<not> special then r
                  else if fc_userNonblock (the ctx) then r OR O_NONBLOCK else r AND NOT O_NONBLOCK, k'))
      | F_GETFL \<Rightarrow> (case fcntl_f cmd fd 0 k of (r, k') \<Rightarrow>
            (ctx, if \<not> special then r
                  else if fc_userNonblock (the ctx) then r OR O_NONBLOCK else r AND NOT O_NONBLOCK, k'))
      | F_int _ \<Rightarrow> (ctx, fcntl_f cmd fd arg k)
      | F_noarg _ \<Rightarrow> (ctx, fcntl_f cmd fd 0 k)
      | F_ptr _ \<Rightarrow> (ctx, fcntl_f cmd fd arg k)
      | F_other _ \<Rightarrow> (ctx, fcntl_f cmd fd 0 k)
      | _ \<Rightarrow>
          if \<not> special then (ctx, fcntl_f cmd fd arg k)
          else let c = (the ctx)\<lparr>fc_userNonblock := (arg AND O_NONBLOCK \<noteq> 0)\<rparr>;
                   arg' = (if fc_sysNonblock c then arg OR O_NONBLOCK else arg AND NOT O_NONBLOCK)
               in (Some c, fcntl_f cmd fd arg' k))"

text \<open>The original \<^verbatim>\<open>ioctl\<close> is called with the user's argument in every case.\<close>

definition hook_ioctl :: "bool \<Rightarrow> bool \<Rightarrow> fd_ctx option \<Rightarrow> fd_ctx option" where
  "hook_ioctl is_fionbio user_nonblock ctx =
     (if is_fionbio then
        (case ctx of
           None \<Rightarrow> None
         | Some c \<Rightarrow> if fc_isClose c \<or> \<not> fc_isSocket c then Some c
                     else Some (c\<lparr>fc_userNonblock := user_nonblock\<rparr>))
      else ctx)"

definition hook_setsockopt ::
    "bool \<Rightarrow> bool \<Rightarrow> bool \<Rightarrow> bool \<Rightarrow> u64 \<Rightarrow> u64 \<Rightarrow> fd_ctx option \<Rightarrow> fd_ctx option" where
  "hook_setsockopt hook_enable is_sol_socket is_rcv is_snd tv_sec tv_usec ctx =
     (if \<not> hook_enable then ctx
      else if is_sol_socket \<and> (is_rcv \<or> is_snd) then
        map_option (FdCtx_setTimeout is_rcv (tv_sec * 1000 + of_int (sint tv_usec sdiv 1000))) ctx
      else ctx)"

section \<open>Properties\<close>

definition blocking_socket :: "fd_ctx \<Rightarrow> bool" where
  "blocking_socket c \<longleftrightarrow> fc_isSocket c \<and> \<not> fc_userNonblock c \<and> \<not> fc_isClose c"

fun ret_of :: "io_result \<Rightarrow> int" where
  "ret_of (Io_Ok n) = int n"
| "ret_of (Io_Err e) = - 1"

definition errno_after :: "int \<Rightarrow> io_wait list \<Rightarrow> int" where
  "errno_after errno ws = (if ws = [] then errno else wait_errno (last ws))"

fun errno_of :: "int \<Rightarrow> io_result \<Rightarrow> int" where
  "errno_of errno (Io_Ok n) = errno"
| "errno_of errno (Io_Err e) = e"

definition woken :: "io_wait \<Rightarrow> bool" where
  "woken w \<longleftrightarrow> wait_addEvent w \<noteq> - 1 \<and> wait_cancelled w = 0"

lemma do_io_eintr_other: "e \<noteq> EINTR \<Longrightarrow> do_io_eintr cs e = Some (e, cs)"
  by (cases cs) simp_all

lemma retry_waits:
  "\<forall>w\<in>set ws. woken w \<Longrightarrow>
   do_io_retry errno (map (\<lambda>_. Io_Err EAGAIN) ws @ cs) (ws @ ws') = do_io_retry (errno_after errno ws) cs ws'"
  by (induction ws arbitrary: errno) (auto simp: errno_after_def woken_def do_io_eintr_other errno_defs)

lemma do_io_wait_timer:
  "do_io_wait now timer to cb res sch fiber fd event io = Inr (r, tinfo, io') \<Longrightarrow> tinfo = (if to = - 1 then None else Some timer)"
  by (cases "to = - 1") (auto simp: do_io_wait_def rbind_eq_Inr_iff split: if_splits option.splits)

text \<open>A successful wait with a timeout leaves the fiber registered and the timer armed.\<close>

lemma do_io_wait_spec:
  assumes "io_inv io" and "tm_inv (io_timers io)" and "0 \<le> fd" and "single event" and "to \<noteq> - 1"
    and "tm_heap (io_timers io) timer = None"
    and "do_io_wait now timer to cb 0 (Some sch) fiber fd event io = Inr (0, tinfo, io1)"
  shows "waits_for fd event sch fiber io1" and "io_inv io1" and "tm_inv (io_timers io1)"
    and "tm_heap (io_timers io1) timer = Some (Timer_new now to (Some cb) False)" and "io_this io1 = io_this io"
proof -
  let ?io = "io\<lparr>io_timers := fst (TimerManager_addTimer timer now to (Some cb) False (io_timers io))\<rparr>"
  have inv: "io_inv ?io" using assms(1) by (simp add: io_inv_def)
  have add: "IOManager_addEvent 0 (Some sch) fiber True fd event None ?io = Inr (0, io1)"
    using assms(5,7) by (auto simp: do_io_wait_def rbind_eq_Inr_iff Let_def split: if_splits option.splits prod.splits)
  show "waits_for fd event sch fiber io1" "io_inv io1"
    using addEvent_waits [OF inv assms(3,4) add] by simp_all
  show "tm_inv (io_timers io1)" "tm_heap (io_timers io1) timer = Some (Timer_new now to (Some cb) False)"
    "io_this io1 = io_this io"
    using event_ops_frame(1) [OF add] addTimer_inv [OF assms(2,6), of "Some cb"]
    by (simp_all add: TimerManager_addTimer_def)
qed

lemma eintr_swallows: "do_io_eintr (map Io_Ok ns) EINTR = None"
  by (induction ns) simp_all

text \<open>
  (C16) On a blocking socket \<^verbatim>\<open>do_io\<close> hides \<^verbatim>\<open>EAGAIN\<close>. After any number of calls that would block, each
  followed by a wait that the event ends: when the next answer is neither \<^verbatim>\<open>EAGAIN\<close> nor \<^verbatim>\<open>EINTR\<close> it is
  returned, having made exactly one more call than waits; when the next call would block and its wait is
  cancelled, \<^verbatim>\<open>do_io\<close> fails with the error of the cancellation (\<^verbatim>\<open>ETIMEDOUT\<close> when the timer struck) and
  does not call again; and when the event cannot be added it fails with the \<^verbatim>\<open>errno\<close> that the attempt
  left.
\<close>

theorem do_io_blocks_until_ready:
  assumes "blocking_socket c" and "\<forall>w\<in>set ws. woken w"
  shows "(r \<noteq> Io_Err EINTR \<longrightarrow> r \<noteq> Io_Err EAGAIN \<longrightarrow>
      do_io True (Some c) errno (map (\<lambda>_. Io_Err EAGAIN) ws @ r # rest) (ws @ ws')
        = Some \<lparr>hr_ret = ret_of r, hr_errno = errno_of (errno_after errno ws) r, hr_calls = rest, hr_waits = ws'\<rparr>)
    \<and> (wait_addEvent t \<noteq> - 1 \<longrightarrow> wait_cancelled t \<noteq> 0 \<longrightarrow>
      do_io True (Some c) errno (map (\<lambda>_. Io_Err EAGAIN) ws @ Io_Err EAGAIN # rest) (ws @ t # ws')
        = Some \<lparr>hr_ret = - 1, hr_errno = wait_cancelled t, hr_calls = rest, hr_waits = ws'\<rparr>)
    \<and> (wait_addEvent t = - 1 \<longrightarrow>
      do_io True (Some c) errno (map (\<lambda>_. Io_Err EAGAIN) ws @ Io_Err EAGAIN # rest) (ws @ t # ws')
        = Some \<lparr>hr_ret = - 1, hr_errno = wait_errno t, hr_calls = rest, hr_waits = ws'\<rparr>)"
proof -
  have io: "do_io True (Some c) errno (map (\<lambda>_. Io_Err EAGAIN) ws @ cs) (ws @ us)
      = do_io_retry (errno_after errno ws) cs us" for cs us
    using assms(1) retry_waits [OF assms(2)] by (simp add: do_io_def blocking_socket_def)
  have "EAGAIN \<noteq> EINTR" by (simp add: errno_defs)
  then show ?thesis unfolding io by (cases r) (simp_all add: do_io_eintr_other)
qed

theorem do_io_blocks_until_ready_witness:
  "do_io True (Some (fst (FdCtx_new 3 \<lparr>k_fstat = (\<lambda>_. Some True), k_flags = (\<lambda>_. 2)\<rparr>))) 0
       [Io_Err EAGAIN, Io_Err EAGAIN, Io_Ok 12]
       [\<lparr>wait_addEvent = 0, wait_cancelled = 0, wait_errno = 5\<rparr>, \<lparr>wait_addEvent = 0, wait_cancelled = 0, wait_errno = 7\<rparr>]
     = Some \<lparr>hr_ret = 12, hr_errno = 7, hr_calls = [], hr_waits = []\<rparr>
   \<and> do_io True (Some (fst (FdCtx_new 3 \<lparr>k_fstat = (\<lambda>_. Some True), k_flags = (\<lambda>_. 2)\<rparr>))) 0
       [Io_Err EAGAIN, Io_Err EAGAIN, Io_Err EAGAIN, Io_Ok 12]
       [\<lparr>wait_addEvent = 0, wait_cancelled = 0, wait_errno = 5\<rparr>, \<lparr>wait_addEvent = 0, wait_cancelled = 0, wait_errno = 7\<rparr>,
        \<lparr>wait_addEvent = 0, wait_cancelled = ETIMEDOUT, wait_errno = 0\<rparr>]
     = Some \<lparr>hr_ret = - 1, hr_errno = ETIMEDOUT, hr_calls = [Io_Ok 12], hr_waits = []\<rparr>"
proof -
  let ?c = "fst (FdCtx_new 3 \<lparr>k_fstat = (\<lambda>_. Some True), k_flags = (\<lambda>_. 2)\<rparr>)"
  let ?w = "\<lambda>e. \<lparr>wait_addEvent = 0, wait_cancelled = 0, wait_errno = e\<rparr> :: io_wait"
  let ?t = "\<lparr>wait_addEvent = 0, wait_cancelled = ETIMEDOUT, wait_errno = 0\<rparr> :: io_wait"
  have c: "blocking_socket ?c" by (simp add: blocking_socket_def FdCtx_new_def FdCtx_init_def Let_def O_NONBLOCK_def)
  have w: "\<forall>w\<in>set [?w 5, ?w 7]. woken w" by (simp add: woken_def)
  have "ETIMEDOUT \<noteq> 0" by (simp add: errno_defs)
  then show ?thesis
    using do_io_blocks_until_ready [OF c w, of "Io_Ok 12" 0 "[]" "[]" ?t]
      do_io_blocks_until_ready [OF c w, of "Io_Ok 12" 0 "[Io_Ok 12]" "[]" ?t]
    by (simp add: errno_after_def)
qed

text \<open>
  (C40) The handling of \<^verbatim>\<open>EINTR\<close> does not end: when the first call on a blocking socket is
  interrupted and the following calls all succeed, \<^verbatim>\<open>do_io\<close> does not return, however many calls
  succeed (and their data is lost), because the loop ignores their results.
\<close>

theorem do_io_eintr_diverges:
  assumes "blocking_socket c"
  shows "do_io True (Some c) errno (Io_Err EINTR # map Io_Ok ns) ws = None"
  using assms eintr_swallows by (simp add: do_io_def blocking_socket_def)

theorem do_io_eintr_diverges_witness:
  "do_io True (Some (fst (FdCtx_new 3 \<lparr>k_fstat = (\<lambda>_. Some True), k_flags = (\<lambda>_. 2)\<rparr>))) 0
     [Io_Err EINTR, Io_Ok 12, Io_Ok 7] [] = None"
proof -
  let ?c = "fst (FdCtx_new 3 \<lparr>k_fstat = (\<lambda>_. Some True), k_flags = (\<lambda>_. 2)\<rparr>)"
  have "blocking_socket ?c" by (simp add: blocking_socket_def FdCtx_new_def FdCtx_init_def Let_def O_NONBLOCK_def)
  from do_io_eintr_diverges [OF this, of 0 "[12, 7]" "[]"] show ?thesis by simp
qed

text \<open>
  \<^verbatim>\<open>fcntl\<close> keeps up two views of a socket: whatever flags the user sets, the kernel is
  handed \<^verbatim>\<open>O_NONBLOCK\<close>, and reading the flags back shows the user's own choice.
\<close>

theorem fcntl_two_views:
  assumes "fc_isSocket c" and "\<not> fc_isClose c" and "fc_sysNonblock c"
    and "hook_fcntl fcntl_f (Some c) fd F_SETFL arg k = (ctx, r, k1)"
    and "hook_fcntl fcntl_f ctx fd F_GETFL 0 k1 = (ctx', flags, k2)"
  shows "(r, k1) = fcntl_f F_SETFL fd (arg OR O_NONBLOCK) k \<and> ctx' = ctx
     \<and> (flags AND O_NONBLOCK \<noteq> 0 \<longleftrightarrow> arg AND O_NONBLOCK \<noteq> 0)"
proof -
  let ?c = "c\<lparr>fc_userNonblock := (arg AND O_NONBLOCK \<noteq> 0)\<rparr>"
  have set: "ctx = Some ?c" "(r, k1) = fcntl_f F_SETFL fd (arg OR O_NONBLOCK) k"
    using assms(1-4) by (simp_all add: hook_fcntl_def)
  obtain raw k3 where raw: "fcntl_f F_GETFL fd 0 k1 = (raw, k3)" by fastforce
  have get: "ctx' = ctx" "flags = (if arg AND O_NONBLOCK \<noteq> 0 then raw OR O_NONBLOCK else raw AND NOT O_NONBLOCK)"
    using assms(1,2,5) raw by (simp_all add: hook_fcntl_def set(1))
  have "(raw OR O_NONBLOCK) AND O_NONBLOCK = O_NONBLOCK" "(raw AND NOT O_NONBLOCK) AND O_NONBLOCK = 0"
    by (simp_all add: bit.conj_disj_distrib2 and.assoc)
  moreover have "O_NONBLOCK \<noteq> 0" by (simp add: O_NONBLOCK_def)
  ultimately show ?thesis using set get by simp
qed

theorem fcntl_two_views_witness:
  "\<exists>ctx r k1 ctx' flags k2.
     hook_fcntl (\<lambda>cmd fd arg k. if cmd = F_SETFL then (0, arg) else (k, k))
       (Some (fst (FdCtx_new 3 \<lparr>k_fstat = (\<lambda>_. Some True), k_flags = (\<lambda>_. 2)\<rparr>))) 3 F_SETFL 2 (0 :: u32) = (ctx, r, k1)
   \<and> hook_fcntl (\<lambda>cmd fd arg k. if cmd = F_SETFL then (0, arg) else (k, k)) ctx 3 F_GETFL 0 k1 = (ctx', flags, k2)
   \<and> k1 = 0x802 \<and> flags AND O_NONBLOCK = 0"
proof -
  let ?f = "\<lambda>cmd (fd :: int) arg k :: u32. if cmd = F_SETFL then (0 :: u32, arg) else (k, k)"
  let ?c = "fst (FdCtx_new 3 \<lparr>k_fstat = (\<lambda>_. Some True), k_flags = (\<lambda>_. 2)\<rparr>)"
  obtain ctx r k1 where a: "hook_fcntl ?f (Some ?c) 3 F_SETFL 2 0 = (ctx, r, k1)" by (rule prod_cases3)
  obtain ctx' flags k2 where b: "hook_fcntl ?f ctx 3 F_GETFL 0 k1 = (ctx', flags, k2)" by (rule prod_cases3)
  have c: "fc_isSocket ?c" "\<not> fc_isClose ?c" "fc_sysNonblock ?c"
    by (simp_all add: FdCtx_new_def FdCtx_init_def Let_def O_NONBLOCK_def)
  have "k1 = 0x802 \<and> flags AND O_NONBLOCK = 0"
    using fcntl_two_views [OF c a b] by (simp add: O_NONBLOCK_def)
  then show ?thesis
    by (intro exI [of _ ctx] exI [of _ r] exI [of _ k1] exI [of _ ctx'] exI [of _ flags] exI [of _ k2] conjI a b)
       simp_all
qed

end
