(* ===== verification/Ordered_Map.thy ===== *)
theory Ordered_Map
  imports Tiny_Prelude "HOL-Library.List_Lexorder" "HOL-Library.Char_ord"
begin

text \<open>
  \<^verbatim>\<open>std::map\<close> with a comparator, as the header, parameter and cookie maps use it: an association
  list sorted by the comparator, in which two keys are the same when neither is less. The laws
  of lookup, assignment and erasure are proved once for every strict weak order.
\<close>

section \<open>Operations\<close>

text \<open>\<open>find\<close>: the entry with an equivalent key.\<close>

fun map_find :: "('k \<Rightarrow> 'k \<Rightarrow> bool) \<Rightarrow> 'k \<Rightarrow> ('k \<times> 'v) list \<Rightarrow> 'v option" where
  "map_find lt k [] = None"
| "map_find lt k ((k', v) # m) =
     (if lt k' k then map_find lt k m else if lt k k' then None else Some v)"

text \<open>\<open>m[k] = v\<close>: an equivalent key keeps its spelling and gets the new value.\<close>

fun map_put :: "('k \<Rightarrow> 'k \<Rightarrow> bool) \<Rightarrow> 'k \<Rightarrow> 'v \<Rightarrow> ('k \<times> 'v) list \<Rightarrow> ('k \<times> 'v) list" where
  "map_put lt k v [] = [(k, v)]"
| "map_put lt k v ((k', v') # m) =
     (if lt k' k then (k', v') # map_put lt k v m
      else if lt k k' then (k, v) # (k', v') # m
      else (k', v) # m)"

fun map_erase :: "('k \<Rightarrow> 'k \<Rightarrow> bool) \<Rightarrow> 'k \<Rightarrow> ('k \<times> 'v) list \<Rightarrow> ('k \<times> 'v) list" where
  "map_erase lt k [] = []"
| "map_erase lt k ((k', v') # m) =
     (if lt k' k then (k', v') # map_erase lt k m
      else if lt k k' then (k', v') # m
      else m)"

definition map_ok :: "('k \<Rightarrow> 'k \<Rightarrow> bool) \<Rightarrow> ('k \<times> 'v) list \<Rightarrow> bool" where
  "map_ok lt m \<longleftrightarrow> sorted_wrt lt (map fst m)"

section \<open>Laws\<close>

text \<open>A strict weak order, in the form of a key function into a linear order.\<close>

locale keyed_order =
  fixes lt :: "'k \<Rightarrow> 'k \<Rightarrow> bool" and key :: "'k \<Rightarrow> 'o::linorder"
  assumes lt_key: "lt a b \<longleftrightarrow> key a < key b"
begin

lemma ok_Nil: "map_ok lt []"
  by (simp add: map_ok_def)

lemma ok_Cons: "map_ok lt ((k, v) # m) \<longleftrightarrow> (\<forall>x\<in>set m. key k < key (fst x)) \<and> map_ok lt m"
  by (auto simp: map_ok_def lt_key)

lemma find_below: "(\<forall>x\<in>set m. key k < key (fst x)) \<Longrightarrow> map_find lt k m = None"
  by (cases m) (auto simp: lt_key)

lemma put_keys: "key ` fst ` set (map_put lt k v m) = insert (key k) (key ` fst ` set m)"
proof (induction m)
  case (Cons e m)
  obtain k' v' where e: "e = (k', v')" by fastforce
  show ?case using Cons by (auto simp: e lt_key [of k' k] lt_key [of k k'])
qed simp

lemma put_ok: "map_ok lt m \<Longrightarrow> map_ok lt (map_put lt k v m)"
proof (induction m)
  case Nil
  then show ?case by (simp add: ok_Cons ok_Nil)
next
  case (Cons e m)
  obtain k' v' where e: "e = (k', v')" by fastforce
  have rest: "\<forall>x\<in>set m. key k' < key (fst x)" and ok: "map_ok lt m"
    using Cons.prems by (simp_all add: e ok_Cons)
  have "\<forall>x\<in>set (map_put lt k v m). key k' < key (fst x)" if "key k' < key k"
  proof
    fix x assume "x \<in> set (map_put lt k v m)"
    then have "key (fst x) \<in> insert (key k) (key ` fst ` set m)" using put_keys [of k v m] by auto
    then show "key k' < key (fst x)" using rest that by auto
  qed
  then show ?case using Cons.IH [OF ok] rest ok by (auto simp: e ok_Cons lt_key [of k' k] lt_key [of k k'])
qed

lemma erase_subset: "set (map_erase lt k m) \<subseteq> set m"
proof (induction m)
  case (Cons e m)
  then show ?case by (cases e) auto
qed simp

lemma erase_ok: "map_ok lt m \<Longrightarrow> map_ok lt (map_erase lt k m)"
proof (induction m)
  case (Cons e m)
  obtain k' v' where e: "e = (k', v')" by fastforce
  then show ?case using Cons erase_subset [of k m] by (auto simp: ok_Cons)
qed (simp add: ok_Nil)

lemma find_put:
  "map_ok lt m \<Longrightarrow> map_find lt k' (map_put lt k v m) = (if key k' = key k then Some v else map_find lt k' m)"
proof (induction m)
  case (Cons e m)
  obtain k1 v1 where e: "e = (k1, v1)" by fastforce
  then have "map_ok lt m" using Cons.prems by (simp add: ok_Cons)
  from Cons.IH [OF this] show ?case
    by (auto simp: e lt_key [of k1 k] lt_key [of k k1] lt_key [of k1 k'] lt_key [of k' k1] lt_key [of k k'] lt_key [of k' k])
qed (auto simp: lt_key)

lemma find_erase:
  "map_ok lt m \<Longrightarrow> map_find lt k' (map_erase lt k m) = (if key k' = key k then None else map_find lt k' m)"
proof (induction m)
  case (Cons e m)
  obtain k1 v1 where e: "e = (k1, v1)" by fastforce
  then have ok: "map_ok lt m" and rest: "\<forall>x\<in>set m. key k1 < key (fst x)"
    using Cons.prems by (simp_all add: ok_Cons)
  have "map_find lt k' m = None" if "key k' \<le> key k1"
    using rest that by (intro find_below) auto
  then show ?case using Cons.IH [OF ok]
    by (auto simp: e lt_key [of k1 k] lt_key [of k k1] lt_key [of k1 k'] lt_key [of k' k1])
qed simp

lemma find_map_of: "map_ok lt m \<Longrightarrow> map_find lt k m = map_of (map (\<lambda>(a, b). (key a, b)) m) (key k)"
proof (induction m)
  case (Cons e m)
  obtain a b where e: "e = (a, b)" by fastforce
  have ok: "\<forall>x\<in>set m. key a < key (fst x)" "map_ok lt m" using Cons.prems by (simp_all add: e ok_Cons)
  have "map_of (map (\<lambda>(a, b). (key a, b)) m) (key k) = None" if "key k < key a"
    using ok(1) that by (auto simp: map_of_eq_None_iff)
  then show ?case using Cons.IH [OF ok(2)] by (auto simp: e lt_key [of a k] lt_key [of k a])
qed simp

lemma fold_put_ok: "map_ok lt m \<Longrightarrow> map_ok lt (fold (\<lambda>(a, b). map_put lt a b) hs m)"
  by (induction hs arbitrary: m) (auto simp: put_ok)

lemma find_fold_put:
  "map_ok lt m \<Longrightarrow> map_find lt k (fold (\<lambda>(a, b). map_put lt a b) hs m)
    = (case map_of (rev (map (\<lambda>(a, b). (key a, b)) hs)) (key k) of None \<Rightarrow> map_find lt k m | Some v \<Rightarrow> Some v)"
proof (induction hs arbitrary: m)
  case (Cons e hs)
  obtain a b where e: "e = (a, b)" by fastforce
  show ?case using Cons.IH [OF put_ok [OF Cons.prems, of a b]] Cons.prems
    by (auto simp: e find_put map_add_def split: option.splits)
qed simp

lemma ok_distinct: "map_ok lt m \<Longrightarrow> distinct (map fst (map (\<lambda>(a, b). (key a, b)) m))"
proof (induction m)
  case (Cons e m)
  then show ?case by (cases e) (fastforce simp: ok_Cons)
qed simp

lemma ok_filter: "map_ok lt m \<Longrightarrow> map_ok lt (filter P m)"
proof (induction m)
  case (Cons e m)
  then show ?case by (cases e) (auto simp: ok_Cons)
qed simp

text \<open>Storing the entries of a map again, over any other map.\<close>

lemma find_fold_put_map:
  assumes "map_ok lt m" "map_ok lt hs"
  shows "map_find lt k (fold (\<lambda>(a, b). map_put lt a b) hs m)
    = (case map_find lt k hs of None \<Rightarrow> map_find lt k m | Some v \<Rightarrow> Some v)"
proof -
  let ?xs = "map (\<lambda>(a, b). (key a, b)) hs"
  have d: "distinct (map fst ?xs)" "distinct (map fst (rev ?xs))"
    using ok_distinct [OF assms(2)] by (simp_all only: rev_map [symmetric] distinct_rev)
  have "map_of (rev ?xs) (key k) = Some v \<longleftrightarrow> map_of ?xs (key k) = Some v" for v
    unfolding map_of_eq_Some_iff [OF d(1)] map_of_eq_Some_iff [OF d(2)] by simp
  then have "map_of (rev ?xs) (key k) = map_of ?xs (key k)" by (metis not_Some_eq)
  then show ?thesis using find_fold_put [OF assms(1)] find_map_of [OF assms(2)] by simp
qed

lemma find_cong: "key k = key k' \<Longrightarrow> map_find lt k m = map_find lt k' m"
  by (induction m) (auto simp: lt_key)

end

section \<open>Case insensitive strings\<close>

definition to_lower :: "char \<Rightarrow> char" where
  "to_lower c = (if 65 \<le> (of_char c :: nat) \<and> (of_char c :: nat) \<le> 90 then char_of (of_char c + 32 :: nat) else c)"

text \<open>
  \<^verbatim>\<open>strcasecmp\<close> on two C strings: the difference of the first pair of lower case characters that
  differ, the terminating zero included.
\<close>

fun strcasecmp :: "string \<Rightarrow> string \<Rightarrow> int" where
  "strcasecmp [] [] = 0"
| "strcasecmp [] (b # bs) = - int (of_char (to_lower b))"
| "strcasecmp (a # as) [] = int (of_char (to_lower a))"
| "strcasecmp (a # as) (b # bs) =
     (if to_lower a = to_lower b then strcasecmp as bs
      else int (of_char (to_lower a)) - int (of_char (to_lower b)))"

definition c_str :: "string \<Rightarrow> string" where
  "c_str s = takeWhile (\<lambda>c. c \<noteq> CHR 0x00) s"

definition CaseInsensitiveLess :: "string \<Rightarrow> string \<Rightarrow> bool" where
  "CaseInsensitiveLess lhs rhs \<longleftrightarrow> strcasecmp (c_str lhs) (c_str rhs) < 0"

definition casefold :: "string \<Rightarrow> string" where
  "casefold s = map to_lower (c_str s)"

lemma less_char_of: "(c :: char) < d \<longleftrightarrow> (of_char c :: nat) < of_char d"
  by (simp add: less_char_def)

lemma to_lower_0: "to_lower c = CHR 0x00 \<longleftrightarrow> c = CHR 0x00"
proof -
  have "char_of (of_char c + 32 :: nat) \<noteq> CHR 0x00" if "65 \<le> (of_char c :: nat)" "(of_char c :: nat) \<le> 90"
  proof
    assume "char_of (of_char c + 32 :: nat) = CHR 0x00"
    then have "(of_char (char_of (of_char c + 32 :: nat)) :: nat) = of_char (CHR 0x00)" by simp
    then show False using that by (simp add: of_char_of)
  qed
  then show ?thesis by (auto simp: to_lower_def)
qed

lemma of_char_pos: "c \<noteq> CHR 0x00 \<Longrightarrow> 0 < (of_char c :: nat)"
  using of_char_eq_iff [where 'a = nat, of c "CHR 0x00"] by auto

lemma strcasecmp_less:
  "CHR 0x00 \<notin> set xs \<Longrightarrow> CHR 0x00 \<notin> set ys \<Longrightarrow> strcasecmp xs ys < 0 \<longleftrightarrow> map to_lower xs < map to_lower ys"
  by (induction xs ys rule: strcasecmp.induct)
    (auto simp: less_char_of of_char_pos to_lower_0)

lemma of_char_to_lower: "CHR 0x00 \<noteq> c \<Longrightarrow> 0 < (of_char (to_lower c) :: nat)"
  using of_char_pos [of "to_lower c"] to_lower_0 [of c] by auto

lemma strcasecmp_eq:
  "CHR 0x00 \<notin> set xs \<Longrightarrow> CHR 0x00 \<notin> set ys \<Longrightarrow> strcasecmp xs ys = 0 \<longleftrightarrow> map to_lower xs = map to_lower ys"
  by (induction xs ys rule: strcasecmp.induct)
    (auto simp: of_char_to_lower)

lemma c_str_no_zero: "CHR 0x00 \<notin> set (c_str s)"
  by (auto simp: c_str_def dest: set_takeWhileD)

text \<open>The comparator of the header maps is the order of the lower case C strings.\<close>

interpretation headers: keyed_order CaseInsensitiveLess casefold
  by unfold_locales (simp add: CaseInsensitiveLess_def casefold_def strcasecmp_less c_str_no_zero)

end
