(* ===== verification/Net_Address.thy ===== *)
theory Net_Address
  imports Byte_Order Ordered_Map
begin

text \<open>
  Model of \<^verbatim>\<open>src/src/address.cpp\<close> and \<^verbatim>\<open>address.h\<close>: socket addresses of the four
  kinds, their memory images (which the comparison operators read), the mask arithmetic of the
  subnet operations, the printing of addresses, and the name lookup. The resolver
  (\<^verbatim>\<open>getaddrinfo\<close>), \<^verbatim>\<open>inet_pton\<close> and \<^verbatim>\<open>getifaddrs\<close> are parameters.
\<close>

section \<open>Failures\<close>

datatype addr_error =
    Undefined_shift      \<comment> \<open>shift count outside \<open>0 .. 31\<close> on an \<^verbatim>\<open>int\<close>\<close>
  | Signed_overflow      \<comment> \<open>\<^verbatim>\<open>int\<close> arithmetic out of range\<close>
  | Addr_out_of_bounds   \<comment> \<open>an access outside an object\<close>
  | Addr_null            \<comment> \<open>a null pointer is dereferenced\<close>
  | Path_too_long        \<comment> \<open>\<^verbatim>\<open>std::logic_error("path too long")\<close>\<close>

section \<open>Bit counting and masks\<close>

text \<open>The loop clears the lowest set bit until none is left.\<close>

lemma unat_clear_lowest_less:
  fixes value' :: "'a::len word"
  assumes "value' \<noteq> 0"
  shows "unat (value' AND (value' - 1)) < unat value'"
proof -
  have "unat (value' AND (value' - 1)) \<le> unat (value' - 1)"
    by (metis word_and_le1 word_le_nat_alt)
  also have "\<dots> < unat value'" using assms by (simp add: unat_minus_one unat_gt_0)
  finally show ?thesis .
qed

function CountBytes_loop :: "'a::len word \<Rightarrow> u32 \<Rightarrow> u32" where
  "CountBytes_loop v result = (if v = 0 then result else CountBytes_loop (v AND (v - 1)) (result + 1))"
  by pat_completeness auto
termination
  by (relation "measure (\<lambda>(v, _). unat v)") (simp_all add: unat_clear_lowest_less)

declare CountBytes_loop.simps [simp del]

definition CountBytes :: "'a::len word \<Rightarrow> u32" where
  "CountBytes v = CountBytes_loop v 0"

text \<open>
  \<^verbatim>\<open>(1 << (sizeof(T) * 8 - bits)) - 1\<close>: the shift count is a 64-bit unsigned value, the
  shifted constant an \<^verbatim>\<open>int\<close>; the result is converted to \<^verbatim>\<open>T\<close>.
\<close>

definition CreateMask :: "u32 \<Rightarrow> addr_error + 'a::len word" where
  "CreateMask bits =
     (let shift = (of_nat LENGTH('a) :: u64) - ucast bits in
      if unat shift \<ge> 32 then Inl Undefined_shift
      else if unat shift = 31 then Inl Signed_overflow
      else Inr (ucast (push_bit (unat shift) (1 :: u32) - 1)))"

section \<open>Socket address structures\<close>

definition AF_UNSPEC :: u16 where "AF_UNSPEC = 0"
definition AF_UNIX :: u16 where "AF_UNIX = 1"
definition AF_INET :: u16 where "AF_INET = 2"
definition AF_INET6 :: u16 where "AF_INET6 = 10"

record sockaddr_in =
  sin_family :: u16
  sin_port :: u16
  sin_addr :: u32
  sin_zero :: "u8 list"

record sockaddr_in6 =
  sin6_family :: u16
  sin6_port :: u16
  sin6_flowinfo :: u32
  sin6_addr :: "u8 list"
  sin6_scope_id :: u32

record sockaddr_un =
  sun_family :: u16
  sun_path :: "u8 list"

record sockaddr =
  sa_family :: u16
  sa_data :: "u8 list"

text \<open>The classes derived from \<^verbatim>\<open>Address\<close>; \<^verbatim>\<open>UnixAddress\<close> also keeps \<^verbatim>\<open>m_length\<close>.\<close>

datatype Address =
    IPv4Address sockaddr_in
  | IPv6Address sockaddr_in6
  | UnixAddress sockaddr_un u32
  | UnknowAddress sockaddr

fun is_IPAddress :: "Address \<Rightarrow> bool" where
  "is_IPAddress (IPv4Address _) = True"
| "is_IPAddress (IPv6Address _) = True"
| "is_IPAddress _ = False"

text \<open>The bytes behind \<^verbatim>\<open>getAddr()\<close> and \<^verbatim>\<open>getAddrLen()\<close>.\<close>

fun Address_getAddr :: "Address \<Rightarrow> u8 list" where
  "Address_getAddr (IPv4Address a) =
     le_bytes 2 (sin_family a) @ le_bytes 2 (sin_port a) @ le_bytes 4 (sin_addr a) @ sin_zero a"
| "Address_getAddr (IPv6Address a) =
     le_bytes 2 (sin6_family a) @ le_bytes 2 (sin6_port a) @ le_bytes 4 (sin6_flowinfo a)
       @ sin6_addr a @ le_bytes 4 (sin6_scope_id a)"
| "Address_getAddr (UnixAddress a _) = le_bytes 2 (sun_family a) @ sun_path a"
| "Address_getAddr (UnknowAddress a) = le_bytes 2 (sa_family a) @ sa_data a"

fun Address_getAddrLen :: "Address \<Rightarrow> u32" where
  "Address_getAddrLen (IPv4Address _) = 16"
| "Address_getAddrLen (IPv6Address _) = 28"
| "Address_getAddrLen (UnixAddress _ m_length) = m_length"
| "Address_getAddrLen (UnknowAddress _) = 16"

text \<open>Array members have their declared sizes, and a Unix address stays inside its structure.\<close>

fun addr_wf :: "Address \<Rightarrow> bool" where
  "addr_wf (IPv4Address a) = (length (sin_zero a) = 8)"
| "addr_wf (IPv6Address a) = (length (sin6_addr a) = 16)"
| "addr_wf (UnixAddress a m_length) = (length (sun_path a) = 108 \<and> unat m_length \<le> 110)"
| "addr_wf (UnknowAddress a) = (length (sa_data a) = 14)"

section \<open>Address: construction and comparison\<close>

text \<open>The casts of a \<^verbatim>\<open>sockaddr*\<close> to the structure of the family, from the memory it points to.\<close>

definition sockaddr_in_of :: "u8 list \<Rightarrow> sockaddr_in" where
  "sockaddr_in_of m = \<lparr>sin_family = of_le_bytes (segment 0 2 m), sin_port = of_le_bytes (segment 2 2 m),
     sin_addr = of_le_bytes (segment 4 4 m), sin_zero = segment 8 8 m\<rparr>"

definition sockaddr_in6_of :: "u8 list \<Rightarrow> sockaddr_in6" where
  "sockaddr_in6_of m = \<lparr>sin6_family = of_le_bytes (segment 0 2 m), sin6_port = of_le_bytes (segment 2 2 m),
     sin6_flowinfo = of_le_bytes (segment 4 4 m), sin6_addr = segment 8 16 m,
     sin6_scope_id = of_le_bytes (segment 24 4 m)\<rparr>"

definition sockaddr_of :: "u8 list \<Rightarrow> sockaddr" where
  "sockaddr_of m = \<lparr>sa_family = of_le_bytes (segment 0 2 m), sa_data = segment 2 14 m\<rparr>"

text \<open>
  \<^verbatim>\<open>Address::Create\<close> on a pointer with the given accessible memory (\<open>None\<close>: null). The
  length argument is not looked at; reading past the memory is a failure.
\<close>

definition Address_Create :: "u8 list option \<Rightarrow> addr_error + Address option" where
  "Address_Create addr =
     (case addr of None \<Rightarrow> Inr None
      | Some m \<Rightarrow>
          if length m < 2 then Inl Addr_out_of_bounds
          else let fam = (of_le_bytes (segment 0 2 m) :: u16) in
            if fam = AF_INET then
              if length m < 16 then Inl Addr_out_of_bounds else Inr (Some (IPv4Address (sockaddr_in_of m)))
            else if fam = AF_INET6 then
              if length m < 28 then Inl Addr_out_of_bounds else Inr (Some (IPv6Address (sockaddr_in6_of m)))
            else
              if length m < 16 then Inl Addr_out_of_bounds else Inr (Some (UnknowAddress (sockaddr_of m))))"

definition Address_getFamily :: "Address \<Rightarrow> u16" where
  "Address_getFamily a = of_le_bytes (segment 0 2 (Address_getAddr a))"

text \<open>\<^verbatim>\<open>memcmp\<close>: the sign of the first difference of two buffers of equal length.\<close>

fun memcmp :: "u8 list \<Rightarrow> u8 list \<Rightarrow> int" where
  "memcmp (x # xs) (y # ys) = (if x < y then - 1 else if y < x then 1 else memcmp xs ys)"
| "memcmp _ _ = 0"

definition Address_less :: "Address \<Rightarrow> Address \<Rightarrow> bool" where
  "Address_less a b =
     (let minLen = unat (min (Address_getAddrLen a) (Address_getAddrLen b));
          res = memcmp (take minLen (Address_getAddr a)) (take minLen (Address_getAddr b)) in
      if res < 0 then True
      else if 0 < res then False
      else if Address_getAddrLen a < Address_getAddrLen b then True
      else False)"

definition Address_eq :: "Address \<Rightarrow> Address \<Rightarrow> bool" where
  "Address_eq a b \<longleftrightarrow> Address_getAddrLen a = Address_getAddrLen b
     \<and> memcmp (take (unat (Address_getAddrLen a)) (Address_getAddr a))
              (take (unat (Address_getAddrLen a)) (Address_getAddr b)) = 0"

definition Address_neq :: "Address \<Rightarrow> Address \<Rightarrow> bool" where
  "Address_neq a b \<longleftrightarrow> \<not> Address_eq a b"

section \<open>IPv4Address\<close>

definition IPv4Address_new :: "u32 \<Rightarrow> u16 \<Rightarrow> sockaddr_in" where
  "IPv4Address_new address port =
     \<lparr>sin_family = AF_INET, sin_port = byteswapOnLittleEndian port,
      sin_addr = byteswapOnLittleEndian address, sin_zero = replicate 8 0\<rparr>"

text \<open>\<open>inet_pton\<close> gives its return value and the four bytes it stored, as a word in memory order.\<close>

definition IPv4Address_Create :: "(string \<Rightarrow> int \<times> u32) \<Rightarrow> string \<Rightarrow> u16 \<Rightarrow> sockaddr_in option" where
  "IPv4Address_Create inet_pton address port =
     (let res = (IPv4Address_new 0 0)\<lparr>sin_port := byteswapOnLittleEndian port\<rparr>;
          (result, s_addr) = inet_pton address in
      if result \<le> 0 then None else Some (res\<lparr>sin_addr := s_addr\<rparr>))"

definition IPv4Address_broadcastAddress :: "u32 \<Rightarrow> sockaddr_in \<Rightarrow> addr_error + sockaddr_in option" where
  "IPv4Address_broadcastAddress prefix_len m_addr =
     (if prefix_len > 32 then Inr None
      else rbind (CreateMask prefix_len) (\<lambda>mask.
        Inr (Some (m_addr\<lparr>sin_addr := sin_addr m_addr OR byteswapOnLittleEndian mask\<rparr>))))"

definition IPv4Address_netWordAddress :: "u32 \<Rightarrow> sockaddr_in \<Rightarrow> addr_error + sockaddr_in option" where
  "IPv4Address_netWordAddress prefix_len m_addr =
     (if prefix_len > 32 then Inr None
      else rbind (CreateMask prefix_len) (\<lambda>mask.
        Inr (Some (m_addr\<lparr>sin_addr := sin_addr m_addr AND byteswapOnLittleEndian mask\<rparr>))))"

definition IPv4Address_subnetMask :: "u32 \<Rightarrow> addr_error + sockaddr_in option" where
  "IPv4Address_subnetMask prefix_len =
     rbind (CreateMask prefix_len) (\<lambda>mask.
       Inr (Some \<lparr>sin_family = AF_INET, sin_port = 0,
                  sin_addr = NOT (byteswapOnLittleEndian mask), sin_zero = replicate 8 0\<rparr>))"

definition IPv4Address_getPort :: "sockaddr_in \<Rightarrow> u32" where
  "IPv4Address_getPort m_addr = ucast (byteswapOnLittleEndian (sin_port m_addr))"

definition IPv4Address_setPort :: "u16 \<Rightarrow> sockaddr_in \<Rightarrow> sockaddr_in" where
  "IPv4Address_setPort port m_addr = m_addr\<lparr>sin_port := byteswapOnLittleEndian port\<rparr>"

section \<open>Printing\<close>

definition IPv4Address_insert :: "sockaddr_in \<Rightarrow> string" where
  "IPv4Address_insert m_addr =
     (let addr = byteswapOnLittleEndian (sin_addr m_addr) in
      print_dec (drop_bit 24 addr AND 0xff) @ ''.''
      @ print_dec (drop_bit 16 addr AND 0xff) @ ''.''
      @ print_dec (drop_bit 8 addr AND 0xff) @ ''.''
      @ print_dec (addr AND 0xff)
      @ '':'' @ print_dec (byteswapOnLittleEndian (sin_port m_addr)))"

section \<open>IPv6Address\<close>

definition IPv6Address_new :: sockaddr_in6 where
  "IPv6Address_new = \<lparr>sin6_family = AF_INET6, sin6_port = 0, sin6_flowinfo = 0,
     sin6_addr = replicate 16 0, sin6_scope_id = 0\<rparr>"

definition IPv6Address_new_bytes :: "u8 list \<Rightarrow> u16 \<Rightarrow> sockaddr_in6" where
  "IPv6Address_new_bytes address port =
     IPv6Address_new\<lparr>sin6_port := byteswapOnLittleEndian port, sin6_addr := take 16 address\<rparr>"

definition IPv6Address_Create :: "(string \<Rightarrow> int \<times> u8 list) \<Rightarrow> string \<Rightarrow> u16 \<Rightarrow> sockaddr_in6 option" where
  "IPv6Address_Create inet_pton address port =
     (let res = IPv6Address_new\<lparr>sin6_port := byteswapOnLittleEndian port\<rparr>;
          (result, s6_addr) = inet_pton address in
      if result \<le> 0 then None else Some (res\<lparr>sin6_addr := s6_addr\<rparr>))"

text \<open>The eight 16-bit words behind \<^verbatim>\<open>(uint16_t*)m_addr.sin6_addr.s6_addr\<close>.\<close>

definition s6_addr16 :: "u8 list \<Rightarrow> u16 list" where
  "s6_addr16 bs = map (\<lambda>i. of_le_bytes (segment (2 * i) 2 bs)) [0..<8]"

text \<open>The loop of \<^verbatim>\<open>insert\<close> from index \<open>i\<close>: the text it prints and the final \<^verbatim>\<open>used_zero\<close>.\<close>

fun IPv6Address_insert_loop :: "u16 list \<Rightarrow> nat list \<Rightarrow> bool \<Rightarrow> string \<times> bool" where
  "IPv6Address_insert_loop addr [] used_zero = ('''', used_zero)"
| "IPv6Address_insert_loop addr (i # is) used_zero =
     (if addr ! i = 0 \<and> \<not> used_zero then IPv6Address_insert_loop addr is used_zero
      else
        let gap = (i \<noteq> 0 \<and> addr ! (i - 1) = 0 \<and> \<not> used_zero);
            used' = (used_zero \<or> gap);
            (rest, u) = IPv6Address_insert_loop addr is used' in
        ((if gap then '':'' else '''') @ (if i \<noteq> 0 then '':'' else '''')
           @ print_hex (byteswapOnLittleEndian (addr ! i)) @ rest, u))"

definition IPv6Address_insert :: "sockaddr_in6 \<Rightarrow> string" where
  "IPv6Address_insert m_addr =
     (let addr = s6_addr16 (sin6_addr m_addr);
          (s, used_zero) = IPv6Address_insert_loop addr [0..<8] False in
      ''['' @ s @ (if \<not> used_zero \<and> addr ! 7 = 0 then ''::'' else '''')
        @ '']:'' @ print_dec (byteswapOnLittleEndian (sin6_port m_addr)))"

definition IPv6Address_broadcastAddress :: "u32 \<Rightarrow> sockaddr_in6 \<Rightarrow> addr_error + sockaddr_in6" where
  "IPv6Address_broadcastAddress prefix_len m_addr =
     (let k = unat prefix_len div 8; bs = sin6_addr m_addr in
      rbind (CreateMask (prefix_len mod 8)) (\<lambda>mask.
        if k \<ge> length bs then Inl Addr_out_of_bounds
        else Inr (m_addr\<lparr>sin6_addr := take k bs @ (bs ! k OR mask) # replicate (16 - Suc k) 0xff\<rparr>)))"

definition IPv6Address_netWordAddress :: "u32 \<Rightarrow> sockaddr_in6 \<Rightarrow> addr_error + sockaddr_in6" where
  "IPv6Address_netWordAddress prefix_len m_addr =
     (let k = unat prefix_len div 8; bs = sin6_addr m_addr in
      rbind (CreateMask (prefix_len mod 8)) (\<lambda>mask.
        if k \<ge> length bs then Inl Addr_out_of_bounds
        else Inr (m_addr\<lparr>sin6_addr := bs[k := bs ! k AND mask]\<rparr>)))"

definition IPv6Address_subnetMask :: "u32 \<Rightarrow> addr_error + sockaddr_in6" where
  "IPv6Address_subnetMask prefix_len =
     (let k = unat prefix_len div 8 in
      rbind (CreateMask (prefix_len mod 8)) (\<lambda>mask.
        if k \<ge> 16 then Inl Addr_out_of_bounds
        else Inr (IPv6Address_new\<lparr>sin6_addr := replicate k 0xff @ NOT mask # replicate (16 - Suc k) 0\<rparr>)))"

definition IPv6Address_getPort :: "sockaddr_in6 \<Rightarrow> u32" where
  "IPv6Address_getPort m_addr = ucast (byteswapOnLittleEndian (sin6_port m_addr))"

definition IPv6Address_setPort :: "u16 \<Rightarrow> sockaddr_in6 \<Rightarrow> sockaddr_in6" where
  "IPv6Address_setPort port m_addr = m_addr\<lparr>sin6_port := byteswapOnLittleEndian port\<rparr>"

section \<open>UnixAddress and UnknowAddress\<close>

definition UnixAddress_new :: Address where
  "UnixAddress_new = UnixAddress \<lparr>sun_family = AF_UNIX, sun_path = replicate 108 0\<rparr> (2 + 107)"

text \<open>A path is its bytes; \<^verbatim>\<open>c_str()\<close> supplies the terminating zero that is copied too.\<close>

definition UnixAddress_new_path :: "u8 list \<Rightarrow> addr_error + Address" where
  "UnixAddress_new_path path =
     (let len1 = (of_nat (length path + 1) :: u32);
          m_length = (if path \<noteq> [] \<and> path ! 0 = 0 then len1 - 1 else len1) in
      if unat m_length > 108 then Inl Path_too_long
      else Inr (UnixAddress
        \<lparr>sun_family = AF_UNIX, sun_path = overwrite (replicate 108 0) 0 (take (unat m_length) (path @ [0]))\<rparr>
        (m_length + 2)))"

fun UnixAddress_setAddrLen :: "u32 \<Rightarrow> Address \<Rightarrow> Address" where
  "UnixAddress_setAddrLen v (UnixAddress a _) = UnixAddress a v"
| "UnixAddress_setAddrLen v a = a"

definition bytes_string :: "u8 list \<Rightarrow> string" where
  "bytes_string = map (\<lambda>b. char_of (unat b))"

definition c_string :: "u8 list \<Rightarrow> string" where
  "c_string bs = bytes_string (takeWhile (\<lambda>b. b \<noteq> 0) bs)"

text \<open>
  \<^verbatim>\<open>std::string(sun_path + 1, n)\<close> copies \<open>n\<close> bytes, and printing \<^verbatim>\<open>sun_path\<close>
  goes up to its first zero; bytes after \<^verbatim>\<open>sun_path\<close> are outside the object.
\<close>

definition UnixAddress_insert :: "sockaddr_un \<Rightarrow> u32 \<Rightarrow> addr_error + string" where
  "UnixAddress_insert m_addr m_length =
     (let path = sun_path m_addr in
      rbind (if 2 < m_length \<and> path ! 0 = 0 then
               if 1 + unat (m_length - 2) > length path then Inl Addr_out_of_bounds
               else Inr ([CHR 0x5C] @ ''0'' @ bytes_string (segment 1 (unat (m_length - 2)) path))
             else Inr '''')
        (\<lambda>s. if 0 \<in> set path then Inr (s @ c_string path) else Inl Addr_out_of_bounds))"

definition UnknowAddress_new :: "u16 \<Rightarrow> Address" where
  "UnknowAddress_new family = UnknowAddress \<lparr>sa_family = family, sa_data = replicate 14 0\<rparr>"

definition UnknowAddress_insert :: "sockaddr \<Rightarrow> string" where
  "UnknowAddress_insert m_addr = ''[UnknownAddress'' @ print_dec (sa_family m_addr) @ '']''"

fun Address_toString :: "Address \<Rightarrow> addr_error + string" where
  "Address_toString (IPv4Address a) = Inr (IPv4Address_insert a)"
| "Address_toString (IPv6Address a) = Inr (IPv6Address_insert a)"
| "Address_toString (UnixAddress a l) = UnixAddress_insert a l"
| "Address_toString (UnknowAddress a) = Inr (UnknowAddress_insert a)"

section \<open>Lookup\<close>

fun index_of :: "'a \<Rightarrow> 'a list \<Rightarrow> nat option" where
  "index_of x [] = None"
| "index_of x (y # ys) = (if x = y then Some 0 else map_option Suc (index_of x ys))"

text \<open>
  The node and the service that \<^verbatim>\<open>Address::Lookup\<close> finds in the host string.
  \<open>index_of\<close> is \<^verbatim>\<open>memchr\<close>; a service is the rest of the string from its pointer.
\<close>

definition Lookup_ipv6 :: "string \<Rightarrow> string \<times> string option" where
  "Lookup_ipv6 host =
     (if host \<noteq> [] \<and> host ! 0 = CHR ''['' then
        case index_of (CHR '']'') (drop 1 host) of
          Some k \<Rightarrow> (take k (drop 1 host),
                     if take 1 (drop (k + 2) host) = '':'' then Some (drop (k + 3) host) else None)
        | None \<Rightarrow> ('''', None)
      else ('''', None))"

definition Lookup_split :: "string \<Rightarrow> string \<times> string option" where
  "Lookup_split host =
     (let (node, service) = Lookup_ipv6 host;
          (node, service) =
            (if node = '''' then
               case index_of (CHR '':'') host of
                 None \<Rightarrow> ('''', None)
               | Some k \<Rightarrow> if index_of (CHR '':'') (drop (k + 1) host) = None
                           then (take k host, Some (drop (k + 1) host))
                           else ('''', Some (drop k host))
             else (node, service)) in
      (if node = '''' then host else node, service))"

fun map_result :: "('a \<Rightarrow> 'e + 'b) \<Rightarrow> 'a list \<Rightarrow> 'e + 'b list" where
  "map_result f [] = Inr []"
| "map_result f (x # xs) = rbind (f x) (\<lambda>y. rbind (map_result f xs) (\<lambda>ys. Inr (y # ys)))"

text \<open>
  \<open>getaddrinfo node service (family, type, protocol)\<close> gives an error code or the memory of the
  \<^verbatim>\<open>ai_addr\<close> of each result. \<open>None\<close> is the \<^verbatim>\<open>return false\<close>.
\<close>

type_synonym resolver = "string \<Rightarrow> string option \<Rightarrow> int \<times> int \<times> int \<Rightarrow> int + u8 list option list"

definition Address_Lookup ::
    "resolver \<Rightarrow> string \<Rightarrow> int \<Rightarrow> int \<Rightarrow> int \<Rightarrow> addr_error + Address option list option" where
  "Address_Lookup getaddrinfo host family type protocol =
     (let (node, service) = Lookup_split host in
      case getaddrinfo (c_str node) (map_option c_str service) (family, type, protocol) of
        Inl err \<Rightarrow> Inr None
      | Inr results \<Rightarrow> rbind (map_result Address_Create results) (\<lambda>as. Inr (Some as)))"

definition Address_LookupAny ::
    "resolver \<Rightarrow> string \<Rightarrow> int \<Rightarrow> int \<Rightarrow> int \<Rightarrow> addr_error + Address option" where
  "Address_LookupAny getaddrinfo host family type protocol =
     rbind (Address_Lookup getaddrinfo host family type protocol) (\<lambda>r.
       case r of None \<Rightarrow> Inr None
       | Some [] \<Rightarrow> Inl Addr_out_of_bounds
       | Some (a # _) \<Rightarrow> Inr a)"

definition Address_LookupIPAddress ::
    "resolver \<Rightarrow> string \<Rightarrow> int \<Rightarrow> int \<Rightarrow> int \<Rightarrow> addr_error + Address option" where
  "Address_LookupIPAddress getaddrinfo host family type protocol =
     rbind (Address_Lookup getaddrinfo host family type protocol) (\<lambda>r.
       case r of None \<Rightarrow> Inr None
       | Some as \<Rightarrow> Inr (case filter (case_option False is_IPAddress) as of [] \<Rightarrow> None | a # _ \<Rightarrow> a))"

fun IPAddress_setPort :: "u16 \<Rightarrow> Address \<Rightarrow> Address" where
  "IPAddress_setPort port (IPv4Address a) = IPv4Address (IPv4Address_setPort port a)"
| "IPAddress_setPort port (IPv6Address a) = IPv6Address (IPv6Address_setPort port a)"
| "IPAddress_setPort port a = a"

fun IPAddress_getPort :: "Address \<Rightarrow> u32" where
  "IPAddress_getPort (IPv4Address a) = IPv4Address_getPort a"
| "IPAddress_getPort (IPv6Address a) = IPv6Address_getPort a"
| "IPAddress_getPort _ = 0"

definition IPAddress_Create :: "resolver \<Rightarrow> string \<Rightarrow> u16 \<Rightarrow> addr_error + Address option" where
  "IPAddress_Create getaddrinfo address port =
     (case getaddrinfo (c_str address) None (uint AF_UNSPEC, 0, 0) of
        Inl err \<Rightarrow> Inr None
      | Inr [] \<Rightarrow> Inl Addr_null
      | Inr (m # _) \<Rightarrow> rbind (Address_Create m) (\<lambda>r.
          Inr (case r of None \<Rightarrow> None
               | Some a \<Rightarrow> if is_IPAddress a then Some (IPAddress_setPort port a) else None)))"

section \<open>Interfaces\<close>

record ifaddrs =
  ifa_name :: string
  ifa_addr :: "u8 list option"
  ifa_netmask :: "u8 list option"

text \<open>\<^verbatim>\<open>std::multimap::insert\<close>: after the entries with the same key.\<close>

fun multimap_insert :: "'k::linorder \<Rightarrow> 'v \<Rightarrow> ('k \<times> 'v) list \<Rightarrow> ('k \<times> 'v) list" where
  "multimap_insert k v [] = [(k, v)]"
| "multimap_insert k v ((k', v') # m) =
     (if k < k' then (k, v) # (k', v') # m else (k', v') # multimap_insert k v m)"

definition equal_range :: "'k \<Rightarrow> ('k \<times> 'v) list \<Rightarrow> 'v list" where
  "equal_range k m = map snd (filter (\<lambda>e. fst e = k) m)"

type_synonym if_map = "(string \<times> Address \<times> u32) list"

definition netmask_prefix :: "u16 \<Rightarrow> u8 list option \<Rightarrow> addr_error + u32" where
  "netmask_prefix fam netmask =
     (case netmask of None \<Rightarrow> Inl Addr_null
      | Some nm \<Rightarrow>
          if fam = AF_INET then
            if length nm < 8 then Inl Addr_out_of_bounds
            else Inr (CountBytes (of_le_bytes (segment 4 4 nm) :: u32))
          else
            if length nm < 24 then Inl Addr_out_of_bounds
            else Inr (fold (\<lambda>b prefix_len. prefix_len + CountBytes b) (segment 8 16 nm) 0))"

text \<open>
  One round of the loop over the interfaces. \<^verbatim>\<open>ifa_addr\<close> is dereferenced without a check,
  by the comparison of the families or by the \<^verbatim>\<open>switch\<close>.
\<close>

definition interface_step :: "u16 \<Rightarrow> ifaddrs \<Rightarrow> if_map \<Rightarrow> addr_error + if_map" where
  "interface_step family e result =
     (case ifa_addr e of
        None \<Rightarrow> Inl Addr_null
      | Some m \<Rightarrow>
          let fam = (of_le_bytes (segment 0 2 m) :: u16) in
          if family \<noteq> AF_UNSPEC \<and> family \<noteq> fam then Inr result
          else if fam = AF_INET \<or> fam = AF_INET6 then
            rbind (Address_Create (Some m)) (\<lambda>addr.
            rbind (netmask_prefix fam (ifa_netmask e)) (\<lambda>prefix_len.
              Inr (case addr of None \<Rightarrow> result
                   | Some a \<Rightarrow> multimap_insert (ifa_name e) (a, prefix_len) result)))
          else Inr result)"

fun interface_loop :: "u16 \<Rightarrow> ifaddrs list \<Rightarrow> if_map \<Rightarrow> addr_error + if_map" where
  "interface_loop family [] result = Inr result"
| "interface_loop family (e # es) result =
     rbind (interface_step family e result) (interface_loop family es)"

text \<open>\<open>getifaddrs\<close> is \<open>None\<close> when the call fails; so is the result of the operation.\<close>

definition GetInterfaceAddress :: "ifaddrs list option \<Rightarrow> u16 \<Rightarrow> if_map \<Rightarrow> addr_error + if_map option" where
  "GetInterfaceAddress getifaddrs family result =
     (case getifaddrs of None \<Rightarrow> Inr None
      | Some results \<Rightarrow> rbind (interface_loop family results result) (\<lambda>m. Inr (Some m)))"

definition GetInterfaceAddress_iface ::
    "ifaddrs list option \<Rightarrow> string \<Rightarrow> u16 \<Rightarrow> (Address \<times> u32) list
       \<Rightarrow> addr_error + (Address \<times> u32) list option" where
  "GetInterfaceAddress_iface getifaddrs iface family result =
     (if iface = '''' \<or> iface = ''*'' then
        Inr (Some (result
          @ (if family = AF_INET \<or> family = AF_UNSPEC then [(IPv4Address (IPv4Address_new 0 0), 0)] else [])
          @ (if family = AF_INET6 \<or> family = AF_UNSPEC then [(IPv6Address IPv6Address_new, 0)] else [])))
      else
        rbind (GetInterfaceAddress getifaddrs family []) (\<lambda>r.
          Inr (case r of None \<Rightarrow> None | Some m \<Rightarrow> Some (result @ equal_range iface m))))"

section \<open>Population count\<close>

definition popcount :: "'a::len word \<Rightarrow> nat" where
  "popcount w = card {i. bit w i}"

lemma finite_bits_word [simp]: "finite {i. bit (w :: 'a::len word) i}"
  by (rule finite_subset [of _ "{..< LENGTH('a)}"]) (auto dest: bit_imp_le_length)

text \<open>Clearing the lowest set bit, on natural numbers.\<close>

lemma clear_lowest_nat:
  fixes n :: nat
  assumes "n > 0"
  shows "\<exists>k. bit n k \<and> (\<forall>i. bit (n AND (n - 1)) i \<longleftrightarrow> bit n i \<and> i \<noteq> k)"
  using assms
proof (induction n rule: nat_bit_induct)
  case zero
  then show ?case by simp
next
  case (even n)
  then obtain k where k: "bit n k" "\<And>i. bit (n AND (n - 1)) i \<longleftrightarrow> bit n i \<and> i \<noteq> k" by auto
  have d: "(2 * n - 1) div 2 = n - 1" using even(1) by arith
  show ?case
  proof (intro exI [of _ "Suc k"] conjI allI)
    show "bit (2 * n) (Suc k)" using k(1) by (simp add: bit_double_iff)
    fix i
    have "bit (n AND (n - 1)) j \<longleftrightarrow> bit n j \<and> bit (n - 1) j" for j by (rule bit_and_iff)
    then have "bit (2 * n) i \<and> bit (2 * n - 1) i \<longleftrightarrow> bit (2 * n) i \<and> i \<noteq> Suc k"
      using k(2) [of "i - 1"] d by (cases i) (simp_all add: bit_0 bit_Suc)
    then show "bit (2 * n AND (2 * n - 1)) i \<longleftrightarrow> bit (2 * n) i \<and> i \<noteq> Suc k"
      by (simp only: bit_and_iff)
  qed
next
  case (odd n)
  show ?case
  proof (intro exI [of _ 0] conjI allI)
    fix i
    have "bit (Suc (2 * n)) i \<and> bit (2 * n) i \<longleftrightarrow> bit (Suc (2 * n)) i \<and> i \<noteq> 0"
      by (cases i) (simp_all add: bit_0 bit_Suc)
    then show "bit (Suc (2 * n) AND (Suc (2 * n) - 1)) i \<longleftrightarrow> bit (Suc (2 * n)) i \<and> i \<noteq> 0"
      by (simp add: bit_and_iff)
  qed (simp add: bit_0)
qed

lemma popcount_clear_lowest:
  fixes w :: "'a::len word"
  assumes "w \<noteq> 0"
  shows "popcount w = Suc (popcount (w AND (w - 1)))"
proof -
  have "unat w > 0" using assms by (simp add: unat_gt_0)
  then obtain k where k: "bit (unat w) k" "\<And>i. bit (unat w AND (unat w - 1)) i \<longleftrightarrow> bit (unat w) i \<and> i \<noteq> k"
    using clear_lowest_nat by blast
  have b: "bit (unat v) i = bit v i" for v :: "'a word" and i
    by (auto simp: bit_unsigned_iff dest: bit_imp_le_length)
  have "bit (w AND (w - 1)) i \<longleftrightarrow> bit w i \<and> i \<noteq> k" for i
    using k(2) [of i] assms b [of w i] b [of "w - 1" i] by (simp add: bit_and_iff unat_minus_one)
  then have "{i. bit (w AND (w - 1)) i} = {i. bit w i} - {k}" by auto
  moreover have "k \<in> {i. bit w i}" using k(1) b by simp
  ultimately show ?thesis
    unfolding popcount_def by (simp only: card.remove finite_bits_word)
qed

lemma CountBytes_loop_popcount: "CountBytes_loop v r = r + of_nat (popcount v)"
proof (induction v r rule: CountBytes_loop.induct)
  case (1 v r)
  show ?case
  proof (cases "v = 0")
    case True
    then show ?thesis by (simp add: CountBytes_loop.simps popcount_def)
  next
    case False
    then show ?thesis
      using 1 popcount_clear_lowest [OF False] by (simp add: CountBytes_loop.simps [of v])
  qed
qed

lemma CountBytes_popcount: "CountBytes v = of_nat (popcount v)"
  by (simp add: CountBytes_def CountBytes_loop_popcount)

section \<open>Masks\<close>

lemma bit_push_mask32: "s < 32 \<Longrightarrow> bit (2 ^ s - 1 :: u32) i \<longleftrightarrow> i < s"
  using bit_mask_iff [where 'a = u32, of s i] by (auto simp: mask_eq_decr_exp possible_bit_def)

lemma CreateMask_in_range:
  assumes "bits \<le> of_nat LENGTH('a::len)" and "LENGTH('a) \<le> 32" and "LENGTH('a) - unat bits < 31"
  shows "CreateMask bits = Inr (mask (LENGTH('a) - unat bits) :: 'a word)"
proof -
  have u: "unat bits \<le> LENGTH('a)"
    using assms(1,2) by (simp add: word_le_nat_alt unat_of_nat take_bit_eq_mod)
  have l: "unat (of_nat LENGTH('a) :: u64) = LENGTH('a)" using assms(2) by (simp add: unat_of_nat take_bit_eq_mod)
  have c: "unat (ucast bits :: u64) = unat bits" by (simp add: unsigned_ucast_eq take_bit_nat_eq_self less_le_trans [OF unsigned_less])
  have "(ucast bits :: u64) \<le> of_nat LENGTH('a)" using u l c by (simp add: word_le_nat_alt)
  then have s: "unat ((of_nat LENGTH('a) :: u64) - ucast bits) = LENGTH('a) - unat bits"
    by (simp add: unat_sub l c)
  have "(ucast (push_bit (LENGTH('a) - unat bits) (1 :: u32) - 1) :: 'a word) = mask (LENGTH('a) - unat bits)"
    using assms(3) by (intro bit_word_eqI) (auto simp: bit_simps bit_push_mask32)
  then show ?thesis using assms(3) by (simp add: CreateMask_def s)
qed

lemma bit_byteswap:
  fixes w :: "'a::len word"
  assumes d: "8 dvd LENGTH('a)"
  shows "bit (byteswap w) k \<longleftrightarrow> k < LENGTH('a) \<and> bit w (8 * (LENGTH('a) div 8 - 1 - k div 8) + k mod 8)"
proof (cases "k < LENGTH('a)")
  case True
  then have "k div 8 < LENGTH('a) div 8" using d by (metis dvd_div_mult_self less_mult_imp_div_less)
  then show ?thesis
    using True by (simp add: byteswap_def bit_of_le_bytes rev_nth bit_le_bytes_nth)
next
  case False
  then show ?thesis by (auto dest: bit_imp_le_length)
qed

lemma byteswap_and: "8 dvd LENGTH('a) \<Longrightarrow> byteswap (v AND w :: 'a::len word) = byteswap v AND byteswap w"
  by (rule bit_word_eqI) (simp add: bit_byteswap bit_and_iff)

lemma byteswap_or: "8 dvd LENGTH('a) \<Longrightarrow> byteswap (v OR w :: 'a::len word) = byteswap v OR byteswap w"
  by (rule bit_word_eqI) (simp add: bit_byteswap bit_or_iff)

lemma byteswap_not:
  fixes w :: "'a::len word"
  assumes d: "8 dvd LENGTH('a)"
  shows "byteswap (NOT w) = NOT (byteswap w)"
proof (rule bit_word_eqI)
  fix k assume k: "k < LENGTH('a)"
  then have "k div 8 < LENGTH('a) div 8" using d by (metis dvd_div_mult_self less_mult_imp_div_less)
  then have "8 * (LENGTH('a) div 8 - 1 - k div 8) + k mod 8 < 8 * (LENGTH('a) div 8)" by arith
  then have "8 * (LENGTH('a) div 8 - 1 - k div 8) + k mod 8 < LENGTH('a)" using d by simp
  then show "bit (byteswap (NOT w)) k = bit (NOT (byteswap w)) k"
    using k d by (simp add: bit_byteswap bit_not_iff)
qed

lemmas swap_simps = byteswapOnLittleEndian_def TINY_BYTE_ORDER_def byteswap_and byteswap_or byteswap_not byteswap_byteswap

text \<open>Swapping permutes the bits, so it keeps their number.\<close>

lemma popcount_byteswap:
  fixes w :: "'a::len word"
  assumes d: "8 dvd LENGTH('a)"
  shows "popcount (byteswap w) = popcount w"
proof -
  let ?n = "LENGTH('a) div 8"
  let ?f = "\<lambda>k. 8 * (?n - 1 - k div 8) + k mod 8"
  have n: "LENGTH('a) = 8 * ?n" using d by simp
  have r: "?f k < LENGTH('a) \<and> ?f (?f k) = k" if "k < LENGTH('a)" for k
  proof -
    have "k div 8 < ?n" using that n by (metis less_mult_imp_div_less mult.commute)
    then show ?thesis by (subst (3) n) auto
  qed
  have "{i. bit w i} = ?f ` {i. bit (byteswap w) i}"
  proof (intro set_eqI iffI)
    fix i assume "i \<in> {i. bit w i}"
    then have "bit w i" "i < LENGTH('a)" by (auto dest: bit_imp_le_length)
    then show "i \<in> ?f ` {i. bit (byteswap w) i}"
      using r [of i] by (intro image_eqI [of _ _ "?f i"]) (simp_all add: bit_byteswap [OF d])
  qed (auto simp: bit_byteswap [OF d])
  moreover have "inj_on ?f {i. bit (byteswap w) i}"
    by (rule inj_on_inverseI [of _ ?f]) (use r in \<open>auto simp: bit_byteswap [OF d]\<close>)
  ultimately show ?thesis by (simp add: popcount_def card_image)
qed

lemma popcount_not_mask:
  assumes "p \<le> LENGTH('a)"
  shows "popcount (NOT (mask (LENGTH('a) - p)) :: 'a::len word) = p"
proof -
  have "{i. bit (NOT (mask (LENGTH('a) - p)) :: 'a word) i} = {LENGTH('a) - p ..< LENGTH('a)}"
    by (auto simp: bit_simps dest: bit_imp_le_length)
  then show ?thesis using assms by (simp add: popcount_def)
qed

section \<open>IPv4 subnets\<close>

lemma CreateMask32:
  fixes p :: u32
  assumes "2 \<le> p" and "p \<le> 32"
  shows "CreateMask p = Inr (mask (32 - unat p) :: u32)"
  using assms by (subst CreateMask_in_range) (auto simp: word_le_nat_alt)

lemma CreateMask32_undefined:
  fixes p :: u32
  assumes "p < 2 \<or> 32 < p"
  shows "\<exists>e. CreateMask p = (Inl e :: addr_error + u32)"
proof -
  have "unat (32 - ucast p :: u64) \<ge> 31"
  proof (cases "p < 2")
    case True
    then have "unat p < 2" by (simp add: word_less_nat_alt)
    then have "unat p = unat (0 :: u32) \<or> unat p = unat (1 :: u32)" by auto
    then have "p = 0 \<or> p = 1" by (simp only: word_unat_eq_iff)
    then show ?thesis by auto
  next
    case False
    then have "32 < unat p" using assms by (simp add: word_less_nat_alt)
    moreover have "unat p < 2 ^ 32" using unsigned_less [of p] by simp
    moreover have "unat (ucast p :: u64) = unat p"
      by (simp add: unsigned_ucast_eq take_bit_nat_eq_self less_le_trans [OF unsigned_less])
    ultimately show ?thesis by (simp add: unat_sub_if')
  qed
  then show ?thesis by (auto simp: CreateMask_def Let_def)
qed

lemma popcount_subnet:
  fixes p :: u32
  assumes "p \<le> 32"
  shows "popcount (NOT (byteswap (mask (32 - unat p) :: u32))) = unat p"
proof -
  have "popcount (NOT (mask (32 - unat p)) :: u32) = unat p"
    using popcount_not_mask [where 'a = 32, of "unat p"] assms by (simp add: word_le_nat_alt)
  then show ?thesis by (simp add: popcount_byteswap flip: byteswap_not)
qed

text \<open>
  The subnet operations of an IPv4 address, for a prefix length from 2 to 32: \<^verbatim>\<open>subnetMask\<close> has
  exactly that many leading ones (the bit count used for interfaces gives the prefix length back),
  the broadcast address sets every host bit, and \<^verbatim>\<open>netWordAddress\<close> keeps the host bits and clears
  the network bits, the opposite of a network address.
\<close>

theorem IPv4_subnet:
  fixes p :: u32
  assumes "2 \<le> p" and "p \<le> 32"
  shows "\<exists>m b n. IPv4Address_subnetMask p = Inr (Some m) \<and> IPv4Address_broadcastAddress p a = Inr (Some b)
     \<and> IPv4Address_netWordAddress p a = Inr (Some n)
     \<and> byteswapOnLittleEndian (sin_addr m) = NOT (mask (32 - unat p))
     \<and> CountBytes (sin_addr m) = p
     \<and> sin_addr b = sin_addr a OR NOT (sin_addr m)
     \<and> sin_addr n = sin_addr a AND NOT (sin_addr m)"
  using assms
  by (simp add: IPv4Address_subnetMask_def IPv4Address_broadcastAddress_def IPv4Address_netWordAddress_def
      CreateMask32 CountBytes_popcount popcount_subnet swap_simps not_less)

theorem IPv4_subnet_witness:
  "\<exists>m b n. IPv4Address_subnetMask 24 = Inr (Some m)
     \<and> IPv4Address_broadcastAddress 24 (IPv4Address_new 0xC0A80117 80) = Inr (Some b)
     \<and> IPv4Address_netWordAddress 24 (IPv4Address_new 0xC0A80117 80) = Inr (Some n)
     \<and> CountBytes (sin_addr m) = 24
     \<and> byteswapOnLittleEndian (sin_addr b) = 0xC0A801FF
     \<and> byteswapOnLittleEndian (sin_addr n) = 0x17"
proof -
  let ?a = "IPv4Address_new 0xC0A80117 80"
  have "(2 :: u32) \<le> 24" and "(24 :: u32) \<le> 32" by simp_all
  from IPv4_subnet [OF this, of ?a] obtain m b n where
    *: "IPv4Address_subnetMask 24 = Inr (Some m)"
      "IPv4Address_broadcastAddress 24 ?a = Inr (Some b)" "IPv4Address_netWordAddress 24 ?a = Inr (Some n)"
      "CountBytes (sin_addr m) = 24"
    and m: "byteswapOnLittleEndian (sin_addr m) = NOT (mask (32 - unat (24 :: u32)))"
    and b: "sin_addr b = sin_addr ?a OR NOT (sin_addr m)" and n: "sin_addr n = sin_addr ?a AND NOT (sin_addr m)"
    by (elim exE conjE)
  have "byteswapOnLittleEndian (sin_addr b) = 0xC0A801FF"
    using m by (simp add: b IPv4Address_new_def swap_simps mask_eq_decr_exp)
  moreover have "byteswapOnLittleEndian (sin_addr n) = 0x17"
    using m by (simp add: n IPv4Address_new_def swap_simps mask_eq_decr_exp)
  ultimately show ?thesis using * by (intro exI [of _ m] exI [of _ b] exI [of _ n] conjI)
qed

section \<open>Comparison\<close>

definition addr_image :: "Address \<Rightarrow> u8 list" where
  "addr_image a = take (unat (Address_getAddrLen a)) (Address_getAddr a)"

lemma length_addr_image: "addr_wf a \<Longrightarrow> length (addr_image a) = unat (Address_getAddrLen a)"
  by (cases a) (auto simp: addr_image_def min_def)

lemma memcmp_eq_0: "length xs = length ys \<Longrightarrow> memcmp xs ys = 0 \<longleftrightarrow> xs = ys"
  by (induction xs ys rule: memcmp.induct) auto

lemma memcmp_less_0: "length xs = length ys \<Longrightarrow> memcmp xs ys < 0 \<longleftrightarrow> xs < ys"
  by (induction xs ys rule: memcmp.induct) auto

lemma lex_less_take:
  fixes xs ys :: "'a::linorder list"
  shows "xs < ys \<longleftrightarrow> take (min (length xs) (length ys)) xs < take (min (length xs) (length ys)) ys
     \<or> take (min (length xs) (length ys)) xs = take (min (length xs) (length ys)) ys \<and> length xs < length ys"
proof (induction xs arbitrary: ys)
  case Nil
  then show ?case by (cases ys) auto
next
  case (Cons x xs)
  then show ?case by (cases ys) auto
qed

lemma Address_less_image:
  assumes "addr_wf a" and "addr_wf b"
  shows "Address_less a b \<longleftrightarrow> addr_image a < addr_image b"
proof -
  define n where "n = unat (min (Address_getAddrLen a) (Address_getAddrLen b))"
  have n: "n = min (length (addr_image a)) (length (addr_image b))"
    using assms by (auto simp: n_def length_addr_image min_def word_le_nat_alt)
  have ta: "take n (Address_getAddr a) = take n (addr_image a)"
    and tb: "take n (Address_getAddr b) = take n (addr_image b)"
    by (auto simp: addr_image_def n_def min_def word_le_nat_alt)
  have l: "length (take n (addr_image a)) = length (take n (addr_image b))" using n by simp
  have "Address_less a b \<longleftrightarrow> take n (addr_image a) < take n (addr_image b)
      \<or> take n (addr_image a) = take n (addr_image b) \<and> length (addr_image a) < length (addr_image b)"
    using memcmp_less_0 [OF l] memcmp_eq_0 [OF l] assms
    by (auto simp: Address_less_def Let_def length_addr_image word_less_nat_alt ta tb simp flip: n_def)
  also have "\<dots> \<longleftrightarrow> addr_image a < addr_image b"
    using lex_less_take [of "addr_image a" "addr_image b"] by (simp add: n)
  finally show ?thesis .
qed

lemma Address_eq_image:
  assumes "addr_wf a" and "addr_wf b"
  shows "Address_eq a b \<longleftrightarrow> addr_image a = addr_image b"
proof (cases "Address_getAddrLen a = Address_getAddrLen b")
  case True
  then have "length (addr_image a) = length (addr_image b)" using assms by (simp add: length_addr_image)
  then show ?thesis using True memcmp_eq_0 by (simp add: Address_eq_def addr_image_def)
next
  case False
  then have "length (addr_image a) \<noteq> length (addr_image b)" using assms by (simp add: length_addr_image word_unat_eq_iff)
  then show ?thesis using False by (auto simp: Address_eq_def)
qed

text \<open>
  (C38) Addresses are ordered by their memory images: \<^verbatim>\<open>operator<\<close> is the lexicographic order of the
  bytes behind \<^verbatim>\<open>getAddr()\<close> (a proper prefix comes first) and \<^verbatim>\<open>operator==\<close> is their equality, so
  any two addresses of whatever kinds are related by exactly one of less, equal and greater, and
  less is transitive: the order a sorted container needs.
\<close>

theorem address_order:
  assumes "addr_wf a" and "addr_wf b" and "addr_wf c"
  shows "(Address_less a b \<longleftrightarrow> addr_image a < addr_image b)
    \<and> (Address_eq a b \<longleftrightarrow> addr_image a = addr_image b)
    \<and> (Address_neq a b \<longleftrightarrow> Address_less a b \<or> Address_less b a)
    \<and> \<not> (Address_less a b \<and> Address_less b a)
    \<and> (Address_less a b \<and> Address_less b c \<longrightarrow> Address_less a c)"
  using assms by (auto simp: Address_less_image Address_eq_image Address_neq_def)

theorem address_order_witness:
  "addr_wf (IPv4Address (IPv4Address_new 1 80)) \<and> addr_wf UnixAddress_new
    \<and> (Address_neq (IPv4Address (IPv4Address_new 1 80)) UnixAddress_new
       \<longleftrightarrow> Address_less (IPv4Address (IPv4Address_new 1 80)) UnixAddress_new
           \<or> Address_less UnixAddress_new (IPv4Address (IPv4Address_new 1 80)))"
proof -
  have w: "addr_wf (IPv4Address (IPv4Address_new 1 80))" "addr_wf UnixAddress_new"
    by (simp_all add: IPv4Address_new_def UnixAddress_new_def)
  show ?thesis using address_order [OF w(1) w(2) w(2)] w by blast
qed

section \<open>Memory images and ports\<close>

lemma segment_le_bytes_app:
  "segment 0 n (le_bytes n w @ xs) = le_bytes n w"
  by (simp add: segment_def)

fun family_matches :: "Address \<Rightarrow> bool" where
  "family_matches (IPv4Address a) = (sin_family a = AF_INET)"
| "family_matches (IPv6Address a) = (sin6_family a = AF_INET6)"
| "family_matches (UnixAddress a l) = False"
| "family_matches (UnknowAddress a) = (sa_family a \<noteq> AF_INET \<and> sa_family a \<noteq> AF_INET6)"

lemma getPort_setPort:
  "is_IPAddress a \<Longrightarrow> IPAddress_getPort (IPAddress_setPort p a) = ucast p"
  by (cases a) (simp_all add: IPv4Address_setPort_def IPv4Address_getPort_def
      IPv6Address_setPort_def IPv6Address_getPort_def swap_simps)

text \<open>
  An address rebuilt by \<^verbatim>\<open>Address::Create\<close> from the memory of an address of a matching family
  (what \<^verbatim>\<open>accept\<close>, \<^verbatim>\<open>getsockname\<close> or the resolver hand back) is that address, and the port set on an
  IP address is the port read from it, whatever the byte order of the host.
\<close>

theorem address_memory_roundtrip:
  assumes "addr_wf a" and "family_matches a"
  shows "Address_Create (Some (Address_getAddr a)) = Inr (Some a)
    \<and> Address_getFamily (IPAddress_setPort p a) = Address_getFamily a
    \<and> (is_IPAddress a \<longrightarrow> IPAddress_getPort (IPAddress_setPort p a) = ucast p)"
  using assms getPort_setPort [of a p]
  by (cases a) (simp_all add: Address_Create_def Address_getFamily_def Let_def segment_def of_le_bytes_le_bytes
      sockaddr_in_of_def sockaddr_in6_of_def sockaddr_of_def AF_INET_def AF_INET6_def IPv4Address_setPort_def IPv6Address_setPort_def)

theorem address_memory_roundtrip_witness:
  "Address_Create (Some (Address_getAddr (IPv6Address IPv6Address_new))) = Inr (Some (IPv6Address IPv6Address_new))
    \<and> IPAddress_getPort (IPAddress_setPort 8080 (IPv6Address IPv6Address_new)) = 8080"
proof -
  have "addr_wf (IPv6Address IPv6Address_new)" "family_matches (IPv6Address IPv6Address_new)"
    by (simp_all add: IPv6Address_new_def)
  from address_memory_roundtrip [OF this, of 8080] show ?thesis by simp
qed

section \<open>Splitting a host string\<close>

lemma index_of_None [simp]: "x \<notin> set xs \<Longrightarrow> index_of x xs = None"
  by (induction xs) auto

lemma index_of_append [simp]: "x \<notin> set xs \<Longrightarrow> index_of x (xs @ x # ys) = Some (length xs)"
  by (induction xs) auto

lemma index_of_mem: "x \<in> set xs \<Longrightarrow> index_of x xs \<noteq> None"
  by (induction xs) auto

lemma Lookup_ipv6_none: "host ! 0 \<noteq> CHR ''['' \<Longrightarrow> Lookup_ipv6 host = ('''', None)"
  by (simp add: Lookup_ipv6_def)

lemma Lookup_split_ipv6:
  assumes "v6 \<noteq> ''''" and "CHR '']'' \<notin> set v6"
  shows "Lookup_split (''['' @ v6 @ '']:'' @ port) = (v6, Some port)"
    and "Lookup_split (''['' @ v6 @ '']'') = (v6, None)"
  using assms index_of_append [of "CHR '']''" v6] by (simp_all add: Lookup_split_def Lookup_ipv6_def eval_nat_numeral)

text \<open>
  \<^verbatim>\<open>Address::Lookup\<close> takes a host string apart as documented for the forms \<^verbatim>\<open>node\<close>,
  \<^verbatim>\<open>node:service\<close>, \<^verbatim>\<open>[ipv6]\<close> and \<^verbatim>\<open>[ipv6]:service\<close>. A string with two colons outside brackets (an
  IPv6 address as such) is looked up as a whole, but with the text from its first colon as the service.
\<close>

theorem Lookup_split_forms:
  assumes "node \<noteq> ''''" and "CHR '':'' \<notin> set node" and "node ! 0 \<noteq> CHR ''[''" and "CHR '':'' \<notin> set port"
    and "v6 \<noteq> ''''" and "CHR '']'' \<notin> set v6"
  shows "Lookup_split node = (node, None)
    \<and> Lookup_split (node @ '':'' @ port) = (node, Some port)
    \<and> Lookup_split (''['' @ v6 @ '']'') = (v6, None)
    \<and> Lookup_split (''['' @ v6 @ '']:'' @ port) = (v6, Some port)
    \<and> Lookup_split (node @ '':'' @ rest @ '':'' @ tail)
        = (node @ '':'' @ rest @ '':'' @ tail, Some ('':'' @ rest @ '':'' @ tail))"
proof -
  have "Lookup_ipv6 node = ('''', None)" "Lookup_ipv6 (node @ xs) = ('''', None)" for xs
    using assms(1,3) by (simp_all add: Lookup_ipv6_none nth_append)
  then have "Lookup_split node = (node, None)" "Lookup_split (node @ '':'' @ port) = (node, Some port)"
    "Lookup_split (node @ '':'' @ rest @ '':'' @ tail)
        = (node @ '':'' @ rest @ '':'' @ tail, Some ('':'' @ rest @ '':'' @ tail))"
    using assms(1,2,4) index_of_mem [of "CHR '':''" "rest @ '':'' @ tail"] by (simp_all add: Lookup_split_def)
  with Lookup_split_ipv6 [OF assms(5,6)] show ?thesis by blast
qed

theorem Lookup_split_forms_witness:
  "Lookup_split ''localhost:80'' = (''localhost'', Some ''80'')
    \<and> Lookup_split ''[::1]:8080'' = (''::1'', Some ''8080'')
    \<and> Lookup_split ''fe80::1'' = (''fe80::1'', Some ''::1'')"
  using Lookup_split_forms [of "''localhost''" "''80''" "''::1''"]
    Lookup_split_forms [of "''fe80''" "''8080''" "''::1''" "''''" "''1''"] by simp

section \<open>Printing of IPv6 addresses\<close>

text \<open>The groups of an address separated by colons.\<close>

fun colon_join :: "u16 list \<Rightarrow> string" where
  "colon_join [] = ''''"
| "colon_join [x] = print_hex x"
| "colon_join (x # xs) = print_hex x @ '':'' @ colon_join xs"

text \<open>The loop of \<^verbatim>\<open>insert\<close> on the list of the remaining groups instead of indices.\<close>

fun insert_groups :: "bool \<Rightarrow> bool \<Rightarrow> u16 list \<Rightarrow> bool \<Rightarrow> string \<times> bool" where
  "insert_groups start prev0 [] used = ('''', used)"
| "insert_groups start prev0 (x # xs) used =
     (if x = 0 \<and> \<not> used then insert_groups False True xs used
      else
        let gap = (\<not> start \<and> prev0 \<and> \<not> used);
            (rest, u) = insert_groups False (x = 0) xs (used \<or> gap) in
        ((if gap then '':'' else '''') @ (if \<not> start then '':'' else '''')
           @ print_hex (byteswapOnLittleEndian x) @ rest, u))"

lemma insert_loop_groups:
  "i \<le> length addr \<Longrightarrow> IPv6Address_insert_loop addr [i..<length addr] used
     = insert_groups (i = 0) (i \<noteq> 0 \<and> addr ! (i - 1) = 0) (drop i addr) used"
proof (induction "length addr - i" arbitrary: i used)
  case 0
  then show ?case by simp
next
  case (Suc n)
  then have i: "i < length addr" by simp
  with Suc have IH: "IPv6Address_insert_loop addr [Suc i..<length addr] u
      = insert_groups False (addr ! i = 0) (drop (Suc i) addr) u" for u by (simp add: Suc.hyps(1))
  show ?case
    using i by (simp add: upt_rec [of i] Cons_nth_drop_Suc [symmetric] IH Let_def split: prod.splits)
qed

definition group_text :: "u16 list \<Rightarrow> string" where
  "group_text xs = concat (map (\<lambda>x. '':'' @ print_hex (byteswapOnLittleEndian x)) xs)"

abbreviation groups :: "u16 list \<Rightarrow> u16 list" where
  "groups \<equiv> map byteswapOnLittleEndian"

lemma group_text_join: "xs \<noteq> [] \<Longrightarrow> group_text xs = '':'' @ colon_join (groups xs)"
proof (induction xs)
  case (Cons x xs)
  then show ?case by (cases xs) (simp_all add: group_text_def)
qed simp

lemma colon_join_groups: "colon_join (groups (x # xs)) = print_hex (byteswapOnLittleEndian x) @ group_text xs"
  using group_text_join [of xs] by (cases xs) (simp_all add: group_text_def)

lemma insert_groups_used: "insert_groups False p xs True = (group_text xs, True)"
  by (induction xs arbitrary: p) (simp_all add: group_text_def)

lemma insert_groups_nonzero:
  "0 \<notin> set pre \<Longrightarrow> insert_groups False False (pre @ zs) False
     = (group_text pre @ fst (insert_groups False False zs False), snd (insert_groups False False zs False))"
  by (induction pre) (auto simp: group_text_def split: prod.splits)

lemma insert_groups_start:
  assumes "0 \<notin> set pre"
  shows "insert_groups True False (pre @ zs) False
     = (colon_join (groups pre) @ fst (insert_groups (pre = []) False zs False),
        snd (insert_groups (pre = []) False zs False))"
proof (cases pre)
  case Nil
  then show ?thesis by simp
next
  case (Cons x xs)
  then have "insert_groups False False (xs @ zs) False
      = (group_text xs @ fst (insert_groups False False zs False), snd (insert_groups False False zs False))"
    using assms by (intro insert_groups_nonzero) simp
  then show ?thesis using Cons assms colon_join_groups [of x xs] by simp
qed

lemma insert_groups_zeros:
  "post = [] \<or> hd post \<noteq> 0 \<Longrightarrow> insert_groups False True (replicate n 0 @ post) False
     = (if post = [] then ('''', False) else (''::'' @ colon_join (groups post), True))"
proof (induction n)
  case 0
  then show ?case
    by (cases post) (simp_all add: insert_groups_used colon_join_groups del: list.map)
qed simp

text \<open>A list is a part without zeros, a run of zeros, and a rest that starts differently.\<close>

lemma split_first_zeros:
  fixes xs :: "'a::zero list"
  obtains pre n post where "xs = pre @ replicate n 0 @ post" and "0 \<notin> set pre"
    and "post = [] \<or> hd post \<noteq> 0" and "n = 0 \<Longrightarrow> post = []"
proof -
  define pre where "pre = takeWhile (\<lambda>x. x \<noteq> 0) xs"
  define r where "r = dropWhile (\<lambda>x. x \<noteq> 0) xs"
  define zs where "zs = takeWhile (\<lambda>x. x = 0) r"
  define post where "post = dropWhile (\<lambda>x. x = 0) r"
  have "zs = replicate (length zs) 0"
    by (rule replicate_eqI) (auto simp: zs_def dest: set_takeWhileD)
  moreover have "xs = pre @ zs @ post" by (simp add: pre_def r_def zs_def post_def)
  ultimately have "xs = pre @ replicate (length zs) 0 @ post" by simp
  moreover have "0 \<notin> set pre" by (auto simp: pre_def dest: set_takeWhileD)
  moreover have "post = [] \<or> hd post \<noteq> 0" using hd_dropWhile [of "\<lambda>x. x = 0" r] by (auto simp: post_def)
  moreover have "post = []" if "length zs = 0"
  proof (cases r)
    case Nil
    then show ?thesis by (simp add: post_def)
  next
    case (Cons y ys)
    then have "y = 0" using hd_dropWhile [of "\<lambda>x. x \<noteq> 0" xs] by (simp add: r_def)
    then show ?thesis using Cons that by (simp add: zs_def)
  qed
  ultimately show ?thesis by (rule that)
qed

lemma byteswap_16_0 [simp]: "byteswapOnLittleEndian (0 :: u16) = 0"
  by (rule bit_word_eqI) (simp add: byteswapOnLittleEndian_def TINY_BYTE_ORDER_def bit_byteswap)

lemma byteswap_16_eq_0 [simp]: "byteswapOnLittleEndian x = (0 :: u16) \<longleftrightarrow> x = 0"
proof -
  have "byteswapOnLittleEndian (byteswapOnLittleEndian x) = x" by simp
  then show ?thesis by (auto simp del: byteswapOnLittleEndian_twice)
qed

lemma insert_body:
  assumes "length addr = 8"
  shows "\<exists>pre n post. groups addr = pre @ replicate n 0 @ post \<and> 0 \<notin> set pre \<and> (post = [] \<or> hd post \<noteq> 0)
     \<and> (n = 0 \<longrightarrow> post = [])
     \<and> (case IPv6Address_insert_loop addr [0..<8] False of (s, used) \<Rightarrow>
          s @ (if \<not> used \<and> addr ! 7 = 0 then ''::'' else ''''))
       = colon_join pre @ (if n = 0 then '''' else ''::'' @ colon_join post)"
proof -
  obtain pre n post where a: "addr = pre @ replicate n 0 @ post" and z: "0 \<notin> set pre"
    and p: "post = [] \<or> hd post \<noteq> 0" and n0: "n = 0 \<Longrightarrow> post = []"
    by (rule split_first_zeros [of addr]) blast
  have l: "IPv6Address_insert_loop addr [0..<8] False = insert_groups True False addr False"
    using insert_loop_groups [of 0 addr False] assms by simp
  have last: "addr ! 7 = last addr" using assms last_conv_nth [of addr] by fastforce
  have "(case insert_groups True False addr False of (s, used) \<Rightarrow>
          s @ (if \<not> used \<and> addr ! 7 = 0 then ''::'' else ''''))
       = colon_join (groups pre) @ (if n = 0 then '''' else ''::'' @ colon_join (groups post))"
  proof (cases n)
    case 0
    then have "addr = pre" using a n0 by simp
    moreover from this have "addr ! 7 \<noteq> 0" using z assms nth_mem [of 7 addr] by (auto simp del: nth_mem)
    ultimately show ?thesis using 0 insert_groups_start [OF z, of "[]"] by simp
  next
    case (Suc k)
    have "insert_groups b False (replicate n 0 @ post) False
        = (if post = [] then ('''', False) else (''::'' @ colon_join (groups post), True))" for b
      using Suc insert_groups_zeros [OF p, of k] by simp
    moreover have "post = [] \<Longrightarrow> addr ! 7 = 0" unfolding last using Suc a by simp
    ultimately show ?thesis using Suc insert_groups_start [OF z, of "replicate n 0 @ post"] a by auto
  qed
  moreover have "groups addr = groups pre @ replicate n 0 @ groups post" using a by simp
  moreover have "0 \<notin> set (groups pre)" "groups post = [] \<or> hd (groups post) \<noteq> 0" using z p by (auto simp: hd_map)
  ultimately show ?thesis using l n0
    by - (rule exI [of _ "groups pre"], rule exI [of _ n], rule exI [of _ "groups post"], auto)
qed

lemma first_zeros_while:
  assumes "0 \<notin> set pre" and "post = [] \<or> hd post \<noteq> 0" and "n = 0 \<longrightarrow> post = []"
  shows "takeWhile (\<lambda>g. g \<noteq> 0) (pre @ replicate n 0 @ post) = pre"
    and "dropWhile (\<lambda>g. g \<noteq> 0) (pre @ replicate n 0 @ post) = replicate n 0 @ post"
    and "dropWhile (\<lambda>g. g = 0) (replicate n 0 @ post) = post"
    and "replicate n 0 @ post = [] \<longleftrightarrow> n = 0"
proof -
  have p: "\<forall>g\<in>set pre. g \<noteq> 0" using assms(1) by metis
  show "takeWhile (\<lambda>g. g \<noteq> 0) (pre @ replicate n 0 @ post) = pre"
    using p assms(2,3) by (cases n; cases post) (auto simp: takeWhile_append2)
  show "dropWhile (\<lambda>g. g \<noteq> 0) (pre @ replicate n 0 @ post) = replicate n 0 @ post"
    using p assms(2,3) by (cases n; cases post) (auto simp: dropWhile_append2)
  show "dropWhile (\<lambda>g. g = 0) (replicate n 0 @ post) = post"
    using assms(2) by (cases post) (auto simp: dropWhile_append)
  show "replicate n 0 @ post = [] \<longleftrightarrow> n = 0" using assms(3) by auto
qed

text \<open>
  \<^verbatim>\<open>IPv6Address::insert\<close> prints the eight groups in network order, in hexadecimal and separated by
  colons, with the first maximal run of zero groups, if there is one, replaced by \<open>::\<close>; no
  other group is dropped.
\<close>

theorem IPv6_insert_compresses_first_zeros:
  "IPv6Address_insert a =
     (let gs = map byteswapOnLittleEndian (s6_addr16 (sin6_addr a));
          rest = dropWhile (\<lambda>g. g \<noteq> 0) gs
      in ''['' @ colon_join (takeWhile (\<lambda>g. g \<noteq> 0) gs)
         @ (if rest = [] then '''' else ''::'' @ colon_join (dropWhile (\<lambda>g. g = 0) rest))
         @ '']:'' @ print_dec (byteswapOnLittleEndian (sin6_port a)))"
proof -
  have "length (s6_addr16 (sin6_addr a)) = 8" by (simp add: s6_addr16_def)
  from insert_body [OF this] obtain pre n post where
    *: "groups (s6_addr16 (sin6_addr a)) = pre @ replicate n 0 @ post" "0 \<notin> set pre" "post = [] \<or> hd post \<noteq> 0"
    "n = 0 \<longrightarrow> post = []"
    "(case IPv6Address_insert_loop (s6_addr16 (sin6_addr a)) [0..<8] False of (s, used) \<Rightarrow>
          s @ (if \<not> used \<and> s6_addr16 (sin6_addr a) ! 7 = 0 then ''::'' else ''''))
       = colon_join pre @ (if n = 0 then '''' else ''::'' @ colon_join post)" by metis
  note w = first_zeros_while [OF *(2-4)]
  obtain s u where "IPv6Address_insert_loop (s6_addr16 (sin6_addr a)) [0..<8] False = (s, u)"
    by fastforce
  with *(5) show ?thesis
    unfolding IPv6Address_insert_def Let_def *(1) w by (simp flip: append_assoc)
qed

section \<open>Unix addresses\<close>

lemma unat_of_nat32: "n < 2 ^ 32 \<Longrightarrow> unat (of_nat n :: u32) = n"
  by (simp add: unat_of_nat take_bit_nat_eq_self)

lemma UnixAddress_new_path_plain:
  assumes "path = [] \<or> path ! 0 \<noteq> 0" and "length path < 2 ^ 32 - 3"
  shows "UnixAddress_new_path path =
     (if length path > 107 then Inl Path_too_long
      else Inr (UnixAddress \<lparr>sun_family = AF_UNIX, sun_path = path @ replicate (108 - length path) 0\<rparr>
        (of_nat (length path + 3))))"
proof -
  have "unat (1 + word_of_nat (length path) :: u32) = Suc (length path)"
    using assms unat_of_nat32 [of "Suc (length path)"] by simp
  moreover have "length path \<le> 107 \<Longrightarrow> replicate (108 - length path) (0 :: u8) = 0 # replicate (107 - length path) 0"
    by (simp add: Suc_diff_le flip: replicate_Suc)
  ultimately show ?thesis using assms(1)
    by (auto simp: UnixAddress_new_path_def overwrite_def)
qed

lemma UnixAddress_new_path_abstract:
  assumes "length name < 2 ^ 32 - 3"
  shows "UnixAddress_new_path (0 # name) =
     (if length name > 107 then Inl Path_too_long
      else Inr (UnixAddress \<lparr>sun_family = AF_UNIX, sun_path = 0 # name @ replicate (107 - length name) 0\<rparr>
        (of_nat (length name + 3))))"
proof -
  have "unat (1 + word_of_nat (length name) :: u32) = Suc (length name)"
    using assms unat_of_nat32 [of "Suc (length name)"] by simp
  moreover have "(2 + word_of_nat (length name) - 1 :: u32) = 1 + word_of_nat (length name)"
    by simp
  ultimately show ?thesis by (auto simp: UnixAddress_new_path_def overwrite_def)
qed

lemma c_string_zero: "0 \<notin> set xs \<Longrightarrow> c_string (xs @ 0 # ys) = bytes_string xs"
  by (simp add: c_string_def takeWhile_append takeWhile_eq_all_conv [THEN iffD2])

lemma unix_len_words:
  assumes "n \<le> 107"
  shows "unat (of_nat (n + 3) - 2 :: u32) = n + 1" and "2 < (of_nat (n + 3) :: u32)"
proof -
  have "(of_nat (n + 3) - 2 :: u32) = of_nat (n + 1)" by simp
  then show "unat (of_nat (n + 3) - 2 :: u32) = n + 1" using assms unat_of_nat32 [of "n + 1"] by simp
  show "2 < (of_nat (n + 3) :: u32)" using assms unat_of_nat32 [of "n + 3"] by (simp only: word_less_nat_alt) simp
qed

lemma UnixAddress_insert_plain:
  assumes "0 \<notin> set name" and "name \<noteq> []" and "length name \<le> 107"
  shows "UnixAddress_insert \<lparr>sun_family = f, sun_path = name @ replicate (108 - length name) 0\<rparr> l
    = Inr (bytes_string name)"
proof -
  have "(name @ replicate (108 - length name) 0) ! 0 \<noteq> 0" using assms(1,2) by (cases name) auto
  moreover have "replicate (108 - length name) (0 :: u8) = 0 # replicate (107 - length name) 0"
    using assms(3) by (simp add: Suc_diff_le flip: replicate_Suc)
  ultimately show ?thesis using assms(1) by (simp add: UnixAddress_insert_def c_string_zero)
qed

lemma UnixAddress_insert_abstract:
  assumes "length name \<le> 107"
  shows "UnixAddress_insert \<lparr>sun_family = f, sun_path = 0 # name @ replicate (107 - length name) 0\<rparr>
      (of_nat (length name + 3))
    = (if length name = 107 then Inl Addr_out_of_bounds
       else Inr ([CHR 0x5C] @ ''0'' @ bytes_string name @ [CHR 0x00]))"
proof -
  have "replicate (107 - length name) (0 :: u8) = 0 # replicate (106 - length name) 0" if "length name \<noteq> 107"
    using that assms by (simp add: Suc_diff_le flip: replicate_Suc)
  then show ?thesis using assms unix_len_words [OF assms]
    by (auto simp: UnixAddress_insert_def segment_def c_string_def bytes_string_def char_of_def simp del: of_nat_add)
qed

text \<open>
  \<^verbatim>\<open>UnixAddress(path)\<close> on every path: a non-empty path without zero bytes of at most 107 bytes is
  stored with its terminator and printed as it is; an abstract name (first byte zero) of at most 107
  bytes with that zero is printed as \<open>\0\<close> and the name, followed by one byte more than the name
  has (a zero); one of exactly 108 bytes makes the printing read past the structure; a longer path
  raises the error.
\<close>

theorem UnixAddress_paths:
  assumes "0 \<notin> set name" and "name \<noteq> []" and "length name < 2 ^ 32 - 3"
  shows "rbind (UnixAddress_new_path name) Address_toString
      = (if length name \<le> 107 then Inr (bytes_string name) else Inl Path_too_long)
    \<and> rbind (UnixAddress_new_path (0 # name)) Address_toString
      = (if length name \<le> 106 then Inr ([CHR 0x5C] @ ''0'' @ bytes_string name @ [CHR 0x00])
         else if length name = 107 then Inl Addr_out_of_bounds else Inl Path_too_long)"
proof -
  have "name ! 0 \<noteq> 0" using assms(1,2) by (cases name) auto
  then have "rbind (UnixAddress_new_path name) Address_toString
      = (if length name \<le> 107 then Inr (bytes_string name) else Inl Path_too_long)"
    using assms by (simp add: UnixAddress_new_path_plain UnixAddress_insert_plain del: of_nat_add)
  moreover have "rbind (UnixAddress_new_path (0 # name)) Address_toString
      = (if length name \<le> 106 then Inr ([CHR 0x5C] @ ''0'' @ bytes_string name @ [CHR 0x00])
         else if length name = 107 then Inl Addr_out_of_bounds else Inl Path_too_long)"
    using assms(3) UnixAddress_insert_abstract [of name]
    by (auto simp: UnixAddress_new_path_abstract simp del: of_nat_add)
  ultimately show ?thesis ..
qed

theorem UnixAddress_paths_witness:
  "rbind (UnixAddress_new_path [0x2F, 0x61]) Address_toString = Inr ''/a''
    \<and> rbind (UnixAddress_new_path [0, 0x61]) Address_toString = Inr [CHR 0x5C, CHR ''0'', CHR ''a'', CHR 0x00]"
  using UnixAddress_paths [of "[0x2F, 0x61]"] UnixAddress_paths [of "[0x61]"]
  by (simp add: bytes_string_def char_of_def bit_0)

section \<open>Prefix lengths of interfaces\<close>

lemma CreateMask8: "CreateMask (p mod 8) = Inr (mask (8 - unat p mod 8) :: u8)"
proof -
  have "unat (p mod 8) = unat p mod 8" by (simp add: unat_mod)
  then show ?thesis by (subst CreateMask_in_range) (auto simp: word_le_nat_alt)
qed

lemma fold_CountBytes: "fold (\<lambda>b n. n + CountBytes b) bs n = n + of_nat (\<Sum>b\<leftarrow>bs. popcount b)"
  by (induction bs arbitrary: n) (simp_all add: CountBytes_popcount)

lemma popcount_0 [simp]: "popcount 0 = 0"
  by (simp add: popcount_def)

lemma popcount_ff [simp]: "popcount (0xff :: u8) = 8"
proof -
  have "(0xff :: u8) = - 1" by simp
  then show ?thesis using popcount_not_mask [where 'a = 8, of 8] by (simp only:) simp
qed

text \<open>
  The prefix length that \<^verbatim>\<open>GetInterfaceAddress\<close> computes from a netmask inverts \<^verbatim>\<open>subnetMask\<close>: for
  the IPv4 prefix lengths 2 to 32 and the IPv6 prefix lengths 0 to 127, counting the ones of the mask
  gives the length back. At 128, the longest IPv6 prefix, \<^verbatim>\<open>subnetMask\<close> and the two other subnet
  operations index past the sixteen bytes of the address.
\<close>

theorem netmask_prefix_inverts_subnetMask:
  fixes p q :: u32
  assumes "2 \<le> p" and "p \<le> 32" and "q < 128" and "length (sin6_addr a) = 16"
  shows "(\<exists>m. IPv4Address_subnetMask p = Inr (Some m)
        \<and> netmask_prefix AF_INET (Some (Address_getAddr (IPv4Address m))) = Inr p)
    \<and> (\<exists>m. IPv6Address_subnetMask q = Inr m
        \<and> netmask_prefix AF_INET6 (Some (Address_getAddr (IPv6Address m))) = Inr q)
    \<and> IPv6Address_subnetMask 128 = Inl Addr_out_of_bounds
    \<and> IPv6Address_broadcastAddress 128 a = Inl Addr_out_of_bounds
    \<and> IPv6Address_netWordAddress 128 a = Inl Addr_out_of_bounds"
proof (intro conjI)
  show "\<exists>m. IPv4Address_subnetMask p = Inr (Some m)
        \<and> netmask_prefix AF_INET (Some (Address_getAddr (IPv4Address m))) = Inr p"
    using assms(1,2) by (simp add: IPv4Address_subnetMask_def CreateMask32 netmask_prefix_def CountBytes_popcount
        popcount_subnet segment_def of_le_bytes_le_bytes byteswapOnLittleEndian_def TINY_BYTE_ORDER_def)
  define k where "k = unat q div 8"
  define r where "r = unat q mod 8"
  have q: "unat q = 8 * k + r" and k: "k < 16"
    using assms(3) by (simp_all add: k_def r_def word_less_nat_alt)
  have "popcount (NOT (mask (8 - r)) :: u8) = r"
    using popcount_not_mask [where 'a = 8, of r] by (simp add: r_def)
  moreover define bs :: "u8 list" where "bs = replicate k 0xff @ NOT (mask (8 - r)) # replicate (16 - Suc k) 0"
  ultimately have sum: "(\<Sum>b\<leftarrow>bs. popcount b) = unat q" and len: "length bs = 16"
    using k by (simp_all add: sum_list_replicate q)
  have "IPv6Address_subnetMask q = Inr (IPv6Address_new\<lparr>sin6_addr := bs\<rparr>)"
    using k by (simp add: IPv6Address_subnetMask_def CreateMask8 k_def r_def Let_def bs_def)
  then show "\<exists>m. IPv6Address_subnetMask q = Inr m
        \<and> netmask_prefix AF_INET6 (Some (Address_getAddr (IPv6Address m))) = Inr q"
    using sum len by (simp add: netmask_prefix_def fold_CountBytes segment_def IPv6Address_new_def AF_INET_def AF_INET6_def)
qed (simp_all add: IPv6Address_subnetMask_def IPv6Address_broadcastAddress_def IPv6Address_netWordAddress_def
    CreateMask8 [of 128, simplified] assms(4))

theorem netmask_prefix_inverts_subnetMask_witness:
  "(\<exists>m. IPv6Address_subnetMask 64 = Inr m
        \<and> netmask_prefix AF_INET6 (Some (Address_getAddr (IPv6Address m))) = Inr 64)
    \<and> IPv6Address_broadcastAddress 128 IPv6Address_new = Inl Addr_out_of_bounds"
  using netmask_prefix_inverts_subnetMask [of 24 64 IPv6Address_new] by (simp add: IPv6Address_new_def)

end
