(* ===== verification/Ragel_Machine.thy ===== *)
theory Ragel_Machine
  imports Tiny_Prelude
begin

text \<open>
  The goto-driven code that Ragel generates (\<^verbatim>\<open>http11_parser.rl.cpp\<close>, \<^verbatim>\<open>httpclient_parser.rl.cpp\<close>,
  \<^verbatim>\<open>uri.cpp\<close>) as data, and its interpreter.

  A block \<^verbatim>\<open>case n:\<close> decides by ranges of the current character which label to go to; a block
  \<^verbatim>\<open>trk:\<close> performs actions and goes to a state; a block \<^verbatim>\<open>stm:\<close> advances \<^verbatim>\<open>p\<close>, stops at \<^verbatim>\<open>pe\<close> with
  \<^verbatim>\<open>cs = m\<close> and otherwise continues with \<^verbatim>\<open>case m:\<close>. \<^verbatim>\<open>st0\<close> sets \<^verbatim>\<open>cs = 0\<close> and leaves \<^verbatim>\<open>p\<close>: ranges that
  lead there are not listed. A character is its code from 0 to 255; the code compares it as a signed
  \<^verbatim>\<open>char\<close>, so the negative values of the source are the codes from 128 on.
\<close>

section \<open>Code as data\<close>

datatype label = St nat | Tr nat

text \<open>A range (inclusive), whether it counts only with \<^verbatim>\<open>uri_relaxed\<close>, and the label.\<close>

type_synonym edge = "nat \<times> nat \<times> bool \<times> label"

datatype 'a block = State nat "edge list" | Trans nat "'a list" nat

fun state_edges :: "'a block list \<Rightarrow> nat \<Rightarrow> edge list" where
  "state_edges [] n = []"
| "state_edges (State m es # bs) n = (if m = n then es else state_edges bs n)"
| "state_edges (Trans _ _ _ # bs) n = state_edges bs n"

fun trans_target :: "'a block list \<Rightarrow> nat \<Rightarrow> ('a list \<times> nat) option" where
  "trans_target [] k = None"
| "trans_target (Trans j acts m # bs) k = (if j = k then Some (acts, m) else trans_target bs k)"
| "trans_target (State _ _ # bs) k = trans_target bs k"

text \<open>
  Looking up a block in code that is the concatenation of parts needs only the numbers of the
  blocks in the parts before it.
\<close>

fun state_nums :: "'a block list \<Rightarrow> nat list" where
  "state_nums [] = []"
| "state_nums (State m es # bs) = m # state_nums bs"
| "state_nums (Trans _ _ _ # bs) = state_nums bs"

fun trans_nums :: "'a block list \<Rightarrow> nat list" where
  "trans_nums [] = []"
| "trans_nums (Trans j _ _ # bs) = j # trans_nums bs"
| "trans_nums (State _ _ # bs) = trans_nums bs"

lemma state_edges_append:
  "state_edges (xs @ ys) n = (if n \<in> set (state_nums xs) then state_edges xs n else state_edges ys n)"
  by (induction xs n rule: state_edges.induct) auto

lemma trans_target_append:
  "trans_target (xs @ ys) k = (if k \<in> set (trans_nums xs) then trans_target xs k else trans_target ys k)"
  by (induction xs k rule: trans_target.induct) auto

fun pick_edge :: "bool \<Rightarrow> edge list \<Rightarrow> nat \<Rightarrow> label option" where
  "pick_edge relaxed [] c = None"
| "pick_edge relaxed ((lo, hi, only_relaxed, l) # es) c =
     (if lo \<le> c \<and> c \<le> hi \<and> (only_relaxed \<longrightarrow> relaxed) then Some l else pick_edge relaxed es c)"

section \<open>Execution\<close>

text \<open>One character in one state: the actions performed and the next state; \<open>None\<close> is \<^verbatim>\<open>goto st0\<close>.\<close>

definition code_step :: "'a block list \<Rightarrow> bool \<Rightarrow> nat \<Rightarrow> char \<Rightarrow> ('a list \<times> nat) option" where
  "code_step code relaxed cs c =
     (case pick_edge relaxed (state_edges code cs) (of_char c) of
        None \<Rightarrow> None
      | Some (St m) \<Rightarrow> Some ([], m)
      | Some (Tr k) \<Rightarrow> trans_target code k)"

text \<open>A class of characters as a list of ranges, and the check that an edge list sends a range to one label.\<close>

definition code_in :: "(nat \<times> nat) list \<Rightarrow> char \<Rightarrow> bool" where
  "code_in rs c \<longleftrightarrow> list_ex (\<lambda>(lo, hi). lo \<le> of_char c \<and> of_char c \<le> hi) rs"

fun covers :: "edge list \<Rightarrow> label \<Rightarrow> nat \<times> nat \<Rightarrow> bool" where
  "covers [] l (lo, hi) = False"
| "covers ((a, b, only_relaxed, l') # es) l (lo, hi) =
     (if b < lo \<or> hi < a then covers es l (lo, hi) else a \<le> lo \<and> hi \<le> b \<and> \<not> only_relaxed \<and> l' = l)"

lemma covers_pick: "covers es l (lo, hi) \<Longrightarrow> lo \<le> n \<Longrightarrow> n \<le> hi \<Longrightarrow> pick_edge relaxed es n = Some l"
  by (induction es l "(lo, hi)" rule: covers.induct) (auto split: if_splits)

lemma code_in_pick:
  assumes "code_in rs c" and "list_all (covers es l) rs"
  shows "pick_edge relaxed es (of_char c) = Some l"
  using assms covers_pick [of es l] by (fastforce simp: code_in_def list_ex_iff list_all_iff)

text \<open>The same with a set of labels: an edge may cover a part of the range.\<close>

fun covers_by :: "edge list \<Rightarrow> (label \<Rightarrow> bool) \<Rightarrow> nat \<times> nat \<Rightarrow> bool" where
  "covers_by [] Q (lo, hi) = (hi < lo)"
| "covers_by ((a, b, only_relaxed, l) # es) Q (lo, hi) =
     (if hi < lo then True
      else if b < lo \<or> hi < a then covers_by es Q (lo, hi)
      else \<not> only_relaxed \<and> Q l \<and> (a \<le> lo \<or> covers_by es Q (lo, a - 1)) \<and> (hi \<le> b \<or> covers_by es Q (b + 1, hi)))"

lemma covers_by_pick: "covers_by es Q (lo, hi) \<Longrightarrow> lo \<le> n \<Longrightarrow> n \<le> hi \<Longrightarrow> \<exists>l. pick_edge relaxed es n = Some l \<and> Q l"
proof (induction es arbitrary: lo hi)
  case (Cons e es)
  obtain a b r l where e: "e = (a, b, r, l)" by (cases e) auto
  consider "b < lo \<or> hi < a" | "\<not> (b < lo \<or> hi < a)" "a \<le> n" "n \<le> b" | "\<not> (b < lo \<or> hi < a)" "n < a"
    | "\<not> (b < lo \<or> hi < a)" "b < n" by linarith
  then show ?case
  proof cases
    case 1
    then show ?thesis using Cons.IH [of lo hi] Cons.prems by (auto simp: e)
  next
    case 2
    then show ?thesis using Cons.prems by (auto simp: e split: if_splits)
  next
    case 3
    then show ?thesis using Cons.IH [of lo "a - 1"] Cons.prems by (auto simp: e split: if_splits)
  next
    case 4
    then show ?thesis using Cons.IH [of "b + 1" hi] Cons.prems by (auto simp: e split: if_splits)
  qed
qed simp

lemma code_in_pick_by:
  assumes "code_in rs c" and "list_all (covers_by es Q) rs"
  shows "\<exists>l. pick_edge relaxed es (of_char c) = Some l \<and> Q l"
  using assms covers_by_pick [of es Q] by (fastforce simp: code_in_def list_ex_iff list_all_iff)

lemma code_step_St:
  assumes "code_in rs c" and "list_all (covers (state_edges code cs) (St m)) rs"
  shows "code_step code relaxed cs c = Some ([], m)"
  using code_in_pick [OF assms] by (simp add: code_step_def)

lemma code_step_Tr:
  assumes "code_in rs c" and "list_all (covers (state_edges code cs) (Tr k)) rs"
  shows "code_step code relaxed cs c = trans_target code k"
  using code_in_pick [OF assms] by (simp add: code_step_def)

lemma code_step_by:
  assumes "code_in rs c"
    and "list_all (covers_by (state_edges code cs) (\<lambda>l. case_label (\<lambda>m. Some ([], m)) (trans_target code) l = Some r)) rs"
  shows "code_step code relaxed cs c = Some r"
proof -
  obtain l where "pick_edge relaxed (state_edges code cs) (of_char c) = Some l"
      "case_label (\<lambda>m. Some ([], m)) (trans_target code) l = Some r"
    using code_in_pick_by [OF assms] by blast
  then show ?thesis by (cases l) (simp_all add: code_step_def)
qed

text \<open>
  The loop over the input: the actions with the position they happen at, the final \<^verbatim>\<open>cs\<close> and the final
  \<^verbatim>\<open>p\<close>. An action that contains \<^verbatim>\<open>fbreak\<close> ends the loop behind the current character.
\<close>

fun code_run ::
    "(nat \<Rightarrow> char \<Rightarrow> ('a list \<times> nat) option) \<Rightarrow> ('a \<Rightarrow> bool) \<Rightarrow> nat \<Rightarrow> nat \<Rightarrow> string \<Rightarrow> ('a \<times> nat) list \<times> nat \<times> nat" where
  "code_run step fbreak cs p [] = ([], cs, p)"
| "code_run step fbreak cs p (c # s) =
     (case step cs c of
        None \<Rightarrow> ([], 0, p)
      | Some (acts, m) \<Rightarrow>
          if list_ex fbreak acts then (map (\<lambda>a. (a, p)) acts, m, p + 1)
          else let (evs, cs', p') = code_run step fbreak m (p + 1) s
               in (map (\<lambda>a. (a, p)) acts @ evs, cs', p'))"

text \<open>\<open>passes step fbreak cs p s evs m\<close>: the input \<open>s\<close> is consumed without an end.\<close>

definition passes ::
    "(nat \<Rightarrow> char \<Rightarrow> ('a list \<times> nat) option) \<Rightarrow> ('a \<Rightarrow> bool) \<Rightarrow> nat \<Rightarrow> nat \<Rightarrow> string \<Rightarrow> ('a \<times> nat) list \<Rightarrow> nat \<Rightarrow> bool" where
  "passes step fbreak cs p s evs m \<longleftrightarrow>
     (\<forall>r. code_run step fbreak cs p (s @ r)
        = (let (evs', cs', p') = code_run step fbreak m (p + length s) r in (evs @ evs', cs', p')))"

lemma passes_Nil: "passes step fbreak cs p [] [] cs"
  by (simp add: passes_def)

lemma passes_append:
  assumes "passes step fbreak cs p s evs m" and "passes step fbreak m (p + length s) t evs' k"
  shows "passes step fbreak cs p (s @ t) (evs @ evs') k"
  using assms by (auto simp: passes_def add.assoc split: prod.splits)

lemma passes_step:
  assumes "step cs c = Some (acts, m)" and "\<not> list_ex fbreak acts"
  shows "passes step fbreak cs p [c] (map (\<lambda>a. (a, p)) acts) m"
  using assms by (simp add: passes_def split: prod.splits)

lemma passes_Cons:
  assumes "step cs c = Some (acts, m)" and "\<not> list_ex fbreak acts"
    and "passes step fbreak m (p + 1) s evs k"
  shows "passes step fbreak cs p (c # s) (map (\<lambda>a. (a, p)) acts @ evs) k"
proof -
  have "passes step fbreak cs p [c] (map (\<lambda>a. (a, p)) acts) m" using assms(1,2) by (rule passes_step)
  from passes_append [OF this, of s evs k] assms(3) show ?thesis by simp
qed

text \<open>A state that a class of characters does not leave passes every string over the class.\<close>

lemma passes_loop:
  assumes "\<And>c. P c \<Longrightarrow> step cs c = Some ([], cs)" and "list_all P s"
  shows "passes step fbreak cs p s [] cs"
  using assms(2)
proof (induction s arbitrary: p)
  case Nil
  then show ?case by (simp add: passes_Nil)
next
  case (Cons c s)
  then show ?case using passes_Cons [of step cs c "[]" cs fbreak p s "[]" cs] assms(1) by simp
qed

lemma passes_run: "passes step fbreak cs p s evs m \<Longrightarrow> code_run step fbreak cs p s = (evs, m, p + length s)"
  unfolding passes_def by (drule spec [of _ "[]"]) simp

lemma passes_stop:
  assumes "passes step fbreak cs p s evs m" and "step m c = Some (acts, k)" and "list_ex fbreak acts"
  shows "code_run step fbreak cs p (s @ c # r)
    = (evs @ map (\<lambda>a. (a, p + length s)) acts, k, p + length s + 1)"
  using assms by (simp add: passes_def)

section \<open>Actions\<close>

text \<open>The actions of a run performed one after the other; an action can fail.\<close>

fun run_acts :: "('a \<Rightarrow> nat \<Rightarrow> 'p \<Rightarrow> 'e + 'p) \<Rightarrow> ('a \<times> nat) list \<Rightarrow> 'p \<Rightarrow> 'e + 'p" where
  "run_acts act [] P = Inr P"
| "run_acts act ((a, fpc) # es) P = rbind (act a fpc P) (run_acts act es)"

lemma run_acts_append: "run_acts act (xs @ ys) P = rbind (run_acts act xs P) (run_acts act ys)"
proof (induction act xs P rule: run_acts.induct)
  case (2 act a fpc es P)
  then show ?case by (cases "act a fpc P") simp_all
qed simp

text \<open>What every action keeps, a run keeps.\<close>

lemma run_acts_inv:
  assumes "\<And>a q P P'. (a, q) \<in> set evs \<Longrightarrow> act a q P = Inr P' \<Longrightarrow> I P \<Longrightarrow> I P'"
    and "run_acts act evs P = Inr P'" and "I P"
  shows "I P'"
  using assms
proof (induction act evs P rule: run_acts.induct)
  case (2 act a fpc es P)
  obtain P1 where P1: "act a fpc P = Inr P1" "run_acts act es P1 = Inr P'"
    using "2.prems"(2) by (auto simp: rbind_eq_Inr_iff)
  have "I P1" using "2.prems"(1,3) P1(1) by auto
  then show ?case using "2.IH" [OF _ P1(2)] "2.prems"(1) by auto
qed simp

text \<open>The position only moves forward and not past the input.\<close>

lemma code_run_pos: "code_run step fbreak cs p s = (evs, cs', p') \<Longrightarrow> p \<le> p' \<and> p' \<le> p + length s"
  by (induction s arbitrary: cs p evs) (fastforce split: option.splits if_splits prod.splits)+

lemma code_run_events: "code_run step fbreak cs p s = (evs, cs', p') \<Longrightarrow> (a, q) \<in> set evs \<Longrightarrow> p \<le> q \<and> q < p'"
proof (induction s arbitrary: cs p evs)
  case (Cons c s)
  obtain acts m where st: "step cs c = Some (acts, m)" using Cons.prems by (auto split: option.splits)
  show ?case
  proof (cases "list_ex fbreak acts")
    case True
    then show ?thesis using Cons.prems st by auto
  next
    case False
    obtain e2 where r: "code_run step fbreak m (p + 1) s = (e2, cs', p')" "evs = map (\<lambda>a. (a, p)) acts @ e2"
      using Cons.prems(1) st False by (auto split: prod.splits)
    then show ?thesis using Cons.IH [OF r(1)] Cons.prems(2) code_run_pos [OF r(1)] by auto
  qed
qed simp


section \<open>Input with its effect\<close>

text \<open>
  \<open>parses step fbreak act pre t post s P Q\<close>: behind \<open>pre\<close> and before \<open>post\<close>, the text \<open>t\<close> is
  consumed from the state \<open>s\<close>, its actions succeed on \<open>P\<close>, and \<open>Q\<close> holds of the state and the object
  reached.
\<close>

definition parses ::
    "(nat \<Rightarrow> char \<Rightarrow> ('a list \<times> nat) option) \<Rightarrow> ('a \<Rightarrow> bool) \<Rightarrow> (string \<Rightarrow> 'a \<Rightarrow> nat \<Rightarrow> 'p \<Rightarrow> 'e + 'p)
      \<Rightarrow> string \<Rightarrow> string \<Rightarrow> string \<Rightarrow> nat \<Rightarrow> 'p \<Rightarrow> (nat \<Rightarrow> 'p \<Rightarrow> bool) \<Rightarrow> bool" where
  "parses step fbreak act pre t post s P Q \<longleftrightarrow>
     (\<exists>evs s' P'. passes step fbreak s (length pre) t evs s' \<and> run_acts (act (pre @ t @ post)) evs P = Inr P' \<and> Q s' P')"

lemma parses_Nil: "Q s P \<Longrightarrow> parses step fbreak act pre [] post s P Q"
  unfolding parses_def by (intro exI [of _ "[]"] exI [of _ s] exI [of _ P]) (simp add: passes_Nil)

lemma parses_append:
  assumes "parses step fbreak act pre t (u @ post) s P R"
    and "\<And>s' P'. R s' P' \<Longrightarrow> parses step fbreak act (pre @ t) u post s' P' Q"
  shows "parses step fbreak act pre (t @ u) post s P Q"
proof -
  obtain evs s1 P1 where 1: "passes step fbreak s (length pre) t evs s1"
      "run_acts (act (pre @ t @ u @ post)) evs P = Inr P1" "R s1 P1"
    using assms(1) unfolding parses_def by blast
  obtain evs' s2 P2 where 2: "passes step fbreak s1 (length (pre @ t)) u evs' s2"
      "run_acts (act (pre @ t @ u @ post)) evs' P1 = Inr P2" "Q s2 P2"
    using assms(2) [OF 1(3)] unfolding parses_def by auto
  show ?thesis
    unfolding parses_def
    using passes_append [OF 1(1)] 1(2) 2
    by (intro exI [of _ "evs @ evs'"] exI [of _ s2] exI [of _ P2]) (simp add: run_acts_append)
qed

lemma parses_seq:
  assumes "parses step fbreak act pre t post' s P R" and "\<And>s' P'. R s' P' \<Longrightarrow> parses step fbreak act pre' u post s' P' Q"
    and "post' = u @ post" and "pre' = pre @ t"
  shows "parses step fbreak act pre (t @ u) post s P Q"
  using parses_append [where R = R] assms by blast

lemma parses_Cons:
  assumes "step s c = Some (acts, m)" and "\<not> list_ex fbreak acts"
    and "run_acts (act (pre @ c # t @ post)) (map (\<lambda>a. (a, length pre)) acts) P = Inr P1"
    and "parses step fbreak act (pre @ [c]) t post m P1 Q"
  shows "parses step fbreak act pre (c # t) post s P Q"
proof -
  have "parses step fbreak act pre [c] (t @ post) s P (\<lambda>s' P'. s' = m \<and> P' = P1)"
    unfolding parses_def using passes_step [of step, OF assms(1,2)] assms(3) by fastforce
  from parses_append [where u = t and Q = Q, OF this] show ?thesis using assms(4) by simp
qed

lemma parses_mono: "parses step fbreak act pre t post s P R \<Longrightarrow> (\<And>s P. R s P \<Longrightarrow> Q s P) \<Longrightarrow> parses step fbreak act pre t post s P Q"
  unfolding parses_def by blast

text \<open>Characters that cause no actions: an invariant of the text consumed so far and the state.\<close>

lemma parses_track:
  assumes "\<And>u s c. I u s \<Longrightarrow> C c \<Longrightarrow> \<exists>m. step s c = Some ([], m) \<and> I (u @ [c]) m" and "I u s" and "list_all C t"
  shows "parses step fbreak act pre t post s P (\<lambda>s' P'. I (u @ t) s' \<and> P' = P)"
  using assms(2,3)
proof (induction t arbitrary: pre u s)
  case (Cons c t)
  then obtain m where "step s c = Some ([], m)" "I (u @ [c]) m" using assms(1) by fastforce
  then show ?case using Cons.IH [of "u @ [c]" m "pre @ [c]"] Cons.prems by (auto intro: parses_Cons)
qed (simp add: parses_Nil)

lemma parses_within:
  assumes "\<And>s c. s \<in> S \<Longrightarrow> C c \<Longrightarrow> \<exists>m\<in>S. step s c = Some ([], m)" and "s \<in> S" and "list_all C t"
  shows "parses step fbreak act pre t post s P (\<lambda>s' P'. s' \<in> S \<and> P' = P)"
  by (rule parses_track [where I = "\<lambda>u s. s \<in> S" and C = C]) (use assms in \<open>auto simp: Bex_def\<close>)

text \<open>The edge that is taken.\<close>

lemma pick_edge_range: "pick_edge relaxed es n = Some l \<Longrightarrow> \<exists>a b r. (a, b, r, l) \<in> set es \<and> a \<le> n \<and> n \<le> b"
  by (induction relaxed es n rule: pick_edge.induct) (auto split: if_splits)

section \<open>Percent encoded texts\<close>

definition is_xdigit :: "char \<Rightarrow> bool" where
  "is_xdigit = code_in [(48, 57), (65, 70), (97, 102)]"

text \<open>
  Texts of URI characters and percent encoded bytes; \<open>k\<close> hexadecimal digits are still to come.
\<close>

fun uri_text :: "(char \<Rightarrow> bool) \<Rightarrow> nat \<Rightarrow> string \<Rightarrow> bool" where
  "uri_text ok k [] \<longleftrightarrow> k = 0"
| "uri_text ok k (c # s) \<longleftrightarrow>
     (if 0 < k then is_xdigit c \<and> uri_text ok (k - 1) s
      else if c = CHR 0x25 then uri_text ok 2 s else ok c \<and> uri_text ok 0 s)"

lemma passes_uri:
  assumes steps: "\<And>c. ok c \<Longrightarrow> step s c = Some ([], s)" "step s (CHR 0x25) = Some ([], s1)"
      "\<And>c. is_xdigit c \<Longrightarrow> step s1 c = Some ([], s2)" "\<And>c. is_xdigit c \<Longrightarrow> step s2 c = Some ([], s)"
    and "uri_text ok k t" and "k \<le> 2"
  shows "passes step fb ([s, s2, s1] ! k) p t [] s"
  using assms(5,6)
proof (induction t arbitrary: k p)
  case Nil
  then show ?case by (simp add: passes_Nil)
next
  case (Cons c t)
  have next_step: "passes step fb cs p (c # t) [] s"
    if "step cs c = Some ([], [s, s2, s1] ! j)" "uri_text ok j t" "j \<le> 2" for cs j
    using passes_Cons [where step = step and cs = cs and c = c and acts = "[]" and m = "[s, s2, s1] ! j"
        and fbreak = fb and p = p and s = t and evs = "[]" and k = s] Cons.IH [OF that(2,3)] that(1) by simp
  consider "k = 0" "c = CHR 0x25" | "k = 0" "c \<noteq> CHR 0x25" | "k = 1" | "k = 2" using Cons.prems(2) by linarith
  then show ?case
    using Cons.prems(1) steps next_step [of "[s, s2, s1] ! k" "if k = 0 then if c = CHR 0x25 then 2 else 0 else k - 1"]
    by cases simp_all
qed

lemma passes_uri_first:
  assumes "\<And>c. ok c \<Longrightarrow> step s c = Some ([], s)" "step s (CHR 0x25) = Some ([], s1)"
      "\<And>c. is_xdigit c \<Longrightarrow> step s1 c = Some ([], s2)" "\<And>c. is_xdigit c \<Longrightarrow> step s2 c = Some ([], s)"
    and t: "t = c # t'" "uri_text ok 0 t"
    and first: "ok c \<Longrightarrow> step s0 c = Some (acts, s)" "step s0 (CHR 0x25) = Some (acts, s1)" "\<not> list_ex fb acts"
  shows "passes step fb s0 p t (map (\<lambda>a. (a, p)) acts) s"
proof -
  define k :: nat where "k = (if c = CHR 0x25 then 2 else 0)"
  have "uri_text ok k t'" "k \<le> 2" and f: "step s0 c = Some (acts, [s, s2, s1] ! k)"
    using t first(1,2) by (auto simp: k_def split: if_splits)
  then have "passes step fb ([s, s2, s1] ! k) (p + 1) t' [] s"
    by (intro passes_uri [where ok = ok]) (simp_all add: assms(1-4))
  from passes_Cons [where step = step, OF f first(3) this] show ?thesis by (simp add: t)
qed

end
