(* ===== verification/Http11_Machine.thy ===== *)
theory Http11_Machine
  imports Ragel_Machine
begin

text \<open>
  The request parser that Ragel generated into \<^verbatim>\<open>src/src/http/http11_parser.rl.cpp\<close>, block by block in
  the order of the file: its 349 states and 45 action blocks. The lookups of the blocks that an
  ordinary request goes through are tabulated at the end.
\<close>

section \<open>Actions\<close>

text \<open>The actions of \<^verbatim>\<open>http11_parser.rl\<close>; \<^verbatim>\<open>start_value\<close> and \<^verbatim>\<open>mark\<close> both set the mark.\<close>

datatype http_action =
    Mark | Start_field | Write_field | Start_value | Write_value | Request_method | Request_uri | Fragment |
    Start_query | Query_string | Http_version | Request_path | Done | Xml | Json

section \<open>Code\<close>

definition http11_code_1 :: "http_action block list" where
  "http11_code_1 = [
    State 1 [(48, 57, False, Tr 0), (60, 60, False, Tr 2), (64, 64, False, Tr 3),
      (65, 90, False, Tr 0)],
    Trans 0 [Mark] 2,
    State 2 [(32, 32, False, Tr 4), (48, 57, False, St 175), (65, 90, False, St 175)],
    Trans 4 [Request_method] 3,
    State 3 [(32, 32, False, Tr 6), (33, 33, False, Tr 7), (35, 35, False, Tr 8),
      (36, 36, False, Tr 7), (37, 37, False, Tr 9), (38, 46, False, Tr 7), (47, 47, False, Tr 10),
      (48, 57, False, Tr 7), (59, 59, False, Tr 7), (61, 61, False, Tr 7), (63, 63, False, Tr 11),
      (64, 64, False, Tr 7), (65, 90, False, Tr 12), (95, 95, False, Tr 7), (97, 122, False, Tr 12),
      (126, 126, False, Tr 7), (94, 94, True, Tr 7), (123, 123, True, Tr 7),
      (125, 125, True, Tr 7)],
    Trans 6 [Mark, Request_path, Request_uri] 4,
    Trans 37 [Request_path, Request_uri] 4,
    Trans 43 [Mark, Fragment] 4,
    Trans 46 [Fragment] 4,
    Trans 53 [Start_query, Query_string, Request_uri] 4]"

definition http11_code_2 :: "http_action block list" where
  "http11_code_2 = [
    Trans 57 [Query_string, Request_uri] 4,
    State 4 [(72, 72, False, Tr 13)],
    Trans 13 [Mark] 5,
    State 5 [(84, 84, False, St 6)],
    State 6 [(84, 84, False, St 7)],
    State 7 [(80, 80, False, St 8)],
    State 8 [(47, 47, False, St 9)],
    State 9 [(49, 49, False, St 10)],
    State 10 [(46, 46, False, St 11)],
    State 11 [(48, 49, False, St 12)],
    State 12 [(10, 10, False, Tr 21), (13, 13, False, Tr 22)],
    Trans 21 [Http_version] 13,
    Trans 30 [Start_value, Write_value] 13,
    Trans 33 [Write_value] 13,
    State 13 [(1, 8, False, Tr 23), (10, 10, False, Tr 24), (11, 12, False, Tr 23),
      (13, 13, False, Tr 25), (14, 31, False, Tr 23), (33, 33, False, Tr 23),
      (35, 39, False, Tr 23), (42, 43, False, Tr 23), (45, 46, False, Tr 23),
      (48, 57, False, Tr 23), (65, 90, False, Tr 23), (94, 122, False, Tr 23),
      (124, 124, False, Tr 23), (126, 126, False, Tr 23)],
    Trans 23 [Start_field] 14]"

definition http11_code_3 :: "http_action block list" where
  "http11_code_3 = [
    State 14 [(1, 8, False, St 14), (10, 31, False, St 14), (33, 33, False, St 14),
      (35, 39, False, St 14), (42, 43, False, St 14), (45, 46, False, St 14),
      (48, 57, False, St 14), (58, 58, False, Tr 27), (65, 90, False, St 14),
      (94, 122, False, St 14), (124, 124, False, St 14), (126, 126, False, St 14)],
    Trans 27 [Write_field] 15,
    Trans 29 [Start_value] 15,
    State 15 [(1, 8, False, Tr 28), (9, 9, False, Tr 29), (10, 10, False, Tr 30),
      (11, 12, False, Tr 28), (13, 13, False, Tr 31), (14, 31, False, Tr 28),
      (32, 32, False, Tr 29), (33, 126, False, Tr 28), (128, 255, False, Tr 28)],
    Trans 28 [Start_value] 16,
    State 16 [(1, 9, False, St 16), (10, 10, False, Tr 33), (11, 12, False, St 16),
      (13, 13, False, Tr 34), (14, 126, False, St 16), (128, 255, False, St 16)],
    Trans 22 [Http_version] 17,
    Trans 31 [Start_value, Write_value] 17,
    Trans 34 [Write_value] 17,
    State 17 [(10, 10, False, St 13)],
    Trans 24 [Start_field, Done] 348,
    Trans 36 [Done] 348]"

definition http11_code_4 :: "http_action block list" where
  "http11_code_4 = [
    State 348 [(1, 8, False, St 14), (10, 31, False, St 14), (33, 33, False, St 14),
      (35, 39, False, St 14), (42, 43, False, St 14), (45, 46, False, St 14),
      (48, 57, False, St 14), (58, 58, False, Tr 27), (65, 90, False, St 14),
      (94, 122, False, St 14), (124, 124, False, St 14), (126, 126, False, St 14)],
    Trans 25 [Start_field] 18,
    State 18 [(1, 8, False, St 14), (10, 10, False, Tr 36), (11, 31, False, St 14),
      (33, 33, False, St 14), (35, 39, False, St 14), (42, 43, False, St 14),
      (45, 46, False, St 14), (48, 57, False, St 14), (58, 58, False, Tr 27),
      (65, 90, False, St 14), (94, 122, False, St 14), (124, 124, False, St 14),
      (126, 126, False, St 14)],
    Trans 7 [Mark] 19,
    State 19 [(32, 32, False, Tr 37), (33, 33, False, St 19), (35, 35, False, Tr 39),
      (36, 36, False, St 19), (37, 37, False, St 24), (38, 46, False, St 19),
      (47, 47, False, St 26), (48, 57, False, St 19), (59, 59, False, St 19),
      (61, 61, False, St 19), (63, 63, False, Tr 42), (64, 90, False, St 19),
      (95, 95, False, St 19), (97, 122, False, St 19), (126, 126, False, St 19),
      (94, 94, True, St 19), (123, 123, True, St 19), (125, 125, True, St 19)],
    Trans 8 [Mark, Request_path, Request_uri] 20]"

definition http11_code_5 :: "http_action block list" where
  "http11_code_5 = [
    Trans 39 [Request_path, Request_uri] 20,
    Trans 55 [Start_query, Query_string, Request_uri] 20,
    Trans 59 [Query_string, Request_uri] 20,
    State 20 [(32, 32, False, Tr 43), (33, 33, False, Tr 44), (36, 36, False, Tr 44),
      (37, 37, False, Tr 45), (38, 59, False, Tr 44), (61, 61, False, Tr 44),
      (63, 90, False, Tr 44), (95, 95, False, Tr 44), (97, 122, False, Tr 44),
      (126, 126, False, Tr 44), (94, 94, True, Tr 44), (123, 123, True, Tr 44),
      (125, 125, True, Tr 44)],
    Trans 44 [Mark] 21,
    State 21 [(32, 32, False, Tr 46), (33, 33, False, St 21), (36, 36, False, St 21),
      (37, 37, False, St 22), (38, 59, False, St 21), (61, 61, False, St 21),
      (63, 90, False, St 21), (95, 95, False, St 21), (97, 122, False, St 21),
      (126, 126, False, St 21), (94, 94, True, St 21), (123, 123, True, St 21),
      (125, 125, True, St 21)],
    Trans 45 [Mark] 22]"

definition http11_code_6 :: "http_action block list" where
  "http11_code_6 = [
    State 22 [(48, 57, False, St 23), (65, 70, False, St 23), (97, 102, False, St 23)],
    State 23 [(48, 57, False, St 21), (65, 70, False, St 21), (97, 102, False, St 21)],
    Trans 9 [Mark] 24,
    State 24 [(48, 57, False, St 25), (65, 70, False, St 25), (97, 102, False, St 25)],
    State 25 [(48, 57, False, St 19), (65, 70, False, St 19), (97, 102, False, St 19)],
    Trans 203 [Mark] 26,
    State 26 [(32, 32, False, Tr 37), (33, 33, False, St 26), (35, 35, False, Tr 39),
      (36, 36, False, St 26), (37, 37, False, St 27), (38, 59, False, St 26),
      (61, 61, False, St 26), (63, 63, False, Tr 42), (64, 90, False, St 26),
      (95, 95, False, St 26), (97, 122, False, St 26), (126, 126, False, St 26),
      (94, 94, True, St 26), (123, 123, True, St 26), (125, 125, True, St 26)],
    Trans 204 [Mark] 27,
    State 27 [(48, 57, False, St 28), (65, 70, False, St 28), (97, 102, False, St 28)],
    State 28 [(48, 57, False, St 26), (65, 70, False, St 26), (97, 102, False, St 26)],
    Trans 11 [Mark, Request_path] 29]"

definition http11_code_7 :: "http_action block list" where
  "http11_code_7 = [
    Trans 42 [Request_path] 29,
    State 29 [(32, 32, False, Tr 53), (33, 33, False, Tr 54), (35, 35, False, Tr 55),
      (36, 36, False, Tr 54), (37, 37, False, Tr 56), (38, 59, False, Tr 54),
      (61, 61, False, Tr 54), (63, 90, False, Tr 54), (95, 95, False, Tr 54),
      (97, 122, False, Tr 54), (126, 126, False, Tr 54), (94, 94, True, Tr 54),
      (123, 123, True, Tr 54), (125, 125, True, Tr 54)],
    Trans 54 [Start_query] 30,
    State 30 [(32, 32, False, Tr 57), (33, 33, False, St 30), (35, 35, False, Tr 59),
      (36, 36, False, St 30), (37, 37, False, St 31), (38, 59, False, St 30),
      (61, 61, False, St 30), (63, 90, False, St 30), (95, 95, False, St 30),
      (97, 122, False, St 30), (126, 126, False, St 30), (94, 94, True, St 30),
      (123, 123, True, St 30), (125, 125, True, St 30)],
    Trans 56 [Start_query] 31,
    State 31 [(48, 57, False, St 32), (65, 70, False, St 32), (97, 102, False, St 32)],
    State 32 [(48, 57, False, St 30), (65, 70, False, St 30), (97, 102, False, St 30)],
    Trans 10 [Mark] 33]"

definition http11_code_8 :: "http_action block list" where
  "http11_code_8 = [
    State 33 [(32, 32, False, Tr 37), (33, 33, False, St 26), (35, 35, False, Tr 39),
      (36, 36, False, St 26), (37, 37, False, St 27), (38, 46, False, St 26),
      (47, 47, False, St 34), (48, 59, False, St 26), (61, 61, False, St 26),
      (63, 63, False, Tr 42), (64, 90, False, St 26), (95, 95, False, St 26),
      (97, 122, False, St 26), (126, 126, False, St 26), (94, 94, True, St 26),
      (123, 123, True, St 26), (125, 125, True, St 26)],
    State 34 [(32, 32, False, Tr 37), (33, 33, False, St 35), (35, 35, False, Tr 39),
      (36, 36, False, St 35), (37, 37, False, St 36), (38, 46, False, St 35),
      (47, 47, False, St 26), (48, 57, False, St 35), (58, 58, False, St 38),
      (59, 59, False, St 35), (61, 61, False, St 35), (63, 63, False, Tr 42),
      (64, 64, False, St 42), (65, 90, False, St 35), (91, 91, False, St 47),
      (95, 95, False, St 35), (97, 122, False, St 35), (126, 126, False, St 35),
      (94, 94, True, St 35), (123, 123, True, St 35), (125, 125, True, St 35)],
    State 35 [(32, 32, False, Tr 37), (33, 33, False, St 35), (35, 35, False, Tr 39),
      (36, 36, False, St 35), (37, 37, False, St 36), (38, 46, False, St 35),
      (47, 47, False, St 26), (48, 57, False, St 35), (58, 58, False, St 38),
      (59, 59, False, St 35), (61, 61, False, St 35), (63, 63, False, Tr 42),
      (64, 64, False, St 42), (65, 90, False, St 35), (95, 95, False, St 35),
      (97, 122, False, St 35), (126, 126, False, St 35), (94, 94, True, St 35),
      (123, 123, True, St 35), (125, 125, True, St 35)]]"

definition http11_code_9 :: "http_action block list" where
  "http11_code_9 = [
    State 36 [(48, 57, False, St 37), (65, 70, False, St 37), (97, 102, False, St 37)],
    State 37 [(48, 57, False, St 35), (65, 70, False, St 35), (97, 102, False, St 35)],
    State 38 [(32, 32, False, Tr 37), (33, 33, False, St 39), (35, 35, False, Tr 39),
      (36, 36, False, St 39), (37, 37, False, St 40), (38, 46, False, St 39),
      (47, 47, False, St 26), (48, 57, False, St 38), (58, 59, False, St 39),
      (61, 61, False, St 39), (63, 63, False, Tr 42), (64, 64, False, St 42),
      (65, 90, False, St 39), (95, 95, False, St 39), (97, 122, False, St 39),
      (126, 126, False, St 39), (94, 94, True, St 39), (123, 123, True, St 39),
      (125, 125, True, St 39)],
    State 39 [(33, 33, False, St 39), (36, 36, False, St 39), (37, 37, False, St 40),
      (38, 46, False, St 39), (48, 59, False, St 39), (61, 61, False, St 39),
      (64, 64, False, St 42), (65, 90, False, St 39), (95, 95, False, St 39),
      (97, 122, False, St 39), (126, 126, False, St 39), (94, 94, True, St 39),
      (123, 123, True, St 39), (125, 125, True, St 39)],
    State 40 [(48, 57, False, St 41), (65, 70, False, St 41), (97, 102, False, St 41)]]"

definition http11_code_10 :: "http_action block list" where
  "http11_code_10 = [
    State 41 [(48, 57, False, St 39), (65, 70, False, St 39), (97, 102, False, St 39)],
    State 42 [(32, 32, False, Tr 37), (33, 33, False, St 43), (35, 35, False, Tr 39),
      (36, 36, False, St 43), (37, 37, False, St 44), (38, 46, False, St 43),
      (47, 47, False, St 26), (48, 57, False, St 43), (58, 58, False, St 46),
      (59, 59, False, St 43), (61, 61, False, St 43), (63, 63, False, Tr 42),
      (65, 90, False, St 43), (91, 91, False, St 47), (95, 95, False, St 43),
      (97, 122, False, St 43), (126, 126, False, St 43), (94, 94, True, St 43),
      (123, 123, True, St 43), (125, 125, True, St 43)],
    State 43 [(32, 32, False, Tr 37), (33, 33, False, St 43), (35, 35, False, Tr 39),
      (36, 36, False, St 43), (37, 37, False, St 44), (38, 46, False, St 43),
      (47, 47, False, St 26), (48, 57, False, St 43), (58, 58, False, St 46),
      (59, 59, False, St 43), (61, 61, False, St 43), (63, 63, False, Tr 42),
      (65, 90, False, St 43), (95, 95, False, St 43), (97, 122, False, St 43),
      (126, 126, False, St 43), (94, 94, True, St 43), (123, 123, True, St 43),
      (125, 125, True, St 43)],
    State 44 [(48, 57, False, St 45), (65, 70, False, St 45), (97, 102, False, St 45)],
    State 45 [(48, 57, False, St 43), (65, 70, False, St 43), (97, 102, False, St 43)],
    State 46 [(32, 32, False, Tr 37), (35, 35, False, Tr 39), (47, 47, False, St 26),
      (48, 57, False, St 46), (63, 63, False, Tr 42)]]"

definition http11_code_11 :: "http_action block list" where
  "http11_code_11 = [
    State 47 [(6, 6, False, St 48), (48, 57, False, St 91), (58, 58, False, St 167),
      (65, 70, False, St 91), (97, 102, False, St 91), (118, 118, False, St 169)],
    State 48 [(48, 57, False, St 49), (65, 70, False, St 49), (97, 102, False, St 49)],
    State 49 [(48, 57, False, St 50), (58, 58, False, St 53), (65, 70, False, St 50),
      (97, 102, False, St 50)],
    State 50 [(48, 57, False, St 51), (58, 58, False, St 53), (65, 70, False, St 51),
      (97, 102, False, St 51)],
    State 51 [(48, 57, False, St 52), (58, 58, False, St 53), (65, 70, False, St 52),
      (97, 102, False, St 52)],
    State 52 [(58, 58, False, St 53)],
    State 53 [(48, 48, False, St 54), (49, 49, False, St 84), (50, 50, False, St 87),
      (51, 57, False, St 54), (65, 70, False, St 90), (97, 102, False, St 90)],
    State 54 [(46, 46, False, St 55), (48, 57, False, St 77), (58, 58, False, St 80),
      (65, 70, False, St 77), (97, 102, False, St 77)],
    State 55 [(48, 48, False, St 56), (49, 49, False, St 72), (50, 50, False, St 74),
      (51, 57, False, St 56)],
    State 56 [(46, 46, False, St 57)],
    State 57 [(48, 48, False, St 58), (49, 49, False, St 67), (50, 50, False, St 69),
      (51, 57, False, St 58)],
    State 58 [(46, 46, False, St 59)]]"

definition http11_code_12 :: "http_action block list" where
  "http11_code_12 = [
    State 59 [(48, 48, False, St 60), (49, 49, False, St 62), (50, 50, False, St 64),
      (51, 57, False, St 60)],
    State 60 [(93, 93, False, St 61)],
    State 61 [(32, 32, False, Tr 37), (35, 35, False, Tr 39), (47, 47, False, St 26),
      (58, 58, False, St 46), (63, 63, False, Tr 42)],
    State 62 [(48, 57, False, St 63), (93, 93, False, St 61)],
    State 63 [(48, 57, False, St 60), (93, 93, False, St 61)],
    State 64 [(48, 48, False, St 65), (53, 53, False, St 66), (93, 93, False, St 61)],
    State 65 [(48, 57, False, St 60)],
    State 66 [(48, 48, False, St 60)],
    State 67 [(46, 46, False, St 59), (48, 57, False, St 68)],
    State 68 [(46, 46, False, St 59), (48, 57, False, St 58)],
    State 69 [(46, 46, False, St 59), (48, 48, False, St 70), (53, 53, False, St 71)],
    State 70 [(48, 57, False, St 58)],
    State 71 [(48, 48, False, St 58)],
    State 72 [(46, 46, False, St 57), (48, 57, False, St 73)],
    State 73 [(46, 46, False, St 57), (48, 57, False, St 56)],
    State 74 [(46, 46, False, St 57), (48, 48, False, St 75), (53, 53, False, St 76)],
    State 75 [(48, 57, False, St 56)]]"

definition http11_code_13 :: "http_action block list" where
  "http11_code_13 = [
    State 76 [(48, 48, False, St 56)],
    State 77 [(48, 57, False, St 78), (58, 58, False, St 80), (65, 70, False, St 78),
      (97, 102, False, St 78)],
    State 78 [(48, 57, False, St 79), (58, 58, False, St 80), (65, 70, False, St 79),
      (97, 102, False, St 79)],
    State 79 [(58, 58, False, St 80)],
    State 80 [(48, 57, False, St 81), (65, 70, False, St 81), (97, 102, False, St 81)],
    State 81 [(48, 57, False, St 82), (65, 70, False, St 82), (93, 93, False, St 61),
      (97, 102, False, St 82)],
    State 82 [(48, 57, False, St 83), (65, 70, False, St 83), (93, 93, False, St 61),
      (97, 102, False, St 83)],
    State 83 [(48, 57, False, St 60), (65, 70, False, St 60), (93, 93, False, St 61),
      (97, 102, False, St 60)],
    State 84 [(46, 46, False, St 55), (48, 57, False, St 85), (58, 58, False, St 80),
      (65, 70, False, St 77), (97, 102, False, St 77)],
    State 85 [(46, 46, False, St 55), (48, 57, False, St 86), (58, 58, False, St 80),
      (65, 70, False, St 78), (97, 102, False, St 78)],
    State 86 [(46, 46, False, St 55), (48, 57, False, St 79), (58, 58, False, St 80),
      (65, 70, False, St 79), (97, 102, False, St 79)]]"

definition http11_code_14 :: "http_action block list" where
  "http11_code_14 = [
    State 87 [(46, 46, False, St 55), (48, 48, False, St 88), (49, 52, False, St 77),
      (53, 53, False, St 89), (54, 57, False, St 77), (58, 58, False, St 80),
      (65, 70, False, St 77), (97, 102, False, St 77)],
    State 88 [(48, 57, False, St 86), (58, 58, False, St 80), (65, 70, False, St 78),
      (97, 102, False, St 78)],
    State 89 [(48, 48, False, St 86), (49, 57, False, St 78), (58, 58, False, St 80),
      (65, 70, False, St 78), (97, 102, False, St 78)],
    State 90 [(48, 57, False, St 77), (58, 58, False, St 80), (65, 70, False, St 77),
      (97, 102, False, St 77)],
    State 91 [(48, 57, False, St 92), (58, 58, False, St 95), (65, 70, False, St 92),
      (97, 102, False, St 92)],
    State 92 [(48, 57, False, St 93), (58, 58, False, St 95), (65, 70, False, St 93),
      (97, 102, False, St 93)],
    State 93 [(48, 57, False, St 94), (58, 58, False, St 95), (65, 70, False, St 94),
      (97, 102, False, St 94)],
    State 94 [(58, 58, False, St 95)],
    State 95 [(48, 57, False, St 96), (58, 58, False, St 166), (65, 70, False, St 96),
      (97, 102, False, St 96)],
    State 96 [(48, 57, False, St 97), (58, 58, False, St 100), (65, 70, False, St 97),
      (97, 102, False, St 97)]]"

definition http11_code_15 :: "http_action block list" where
  "http11_code_15 = [
    State 97 [(48, 57, False, St 98), (58, 58, False, St 100), (65, 70, False, St 98),
      (97, 102, False, St 98)],
    State 98 [(48, 57, False, St 99), (58, 58, False, St 100), (65, 70, False, St 99),
      (97, 102, False, St 99)],
    State 99 [(58, 58, False, St 100)],
    State 100 [(48, 57, False, St 101), (58, 58, False, St 165), (65, 70, False, St 101),
      (97, 102, False, St 101)],
    State 101 [(48, 57, False, St 102), (58, 58, False, St 105), (65, 70, False, St 102),
      (97, 102, False, St 102)],
    State 102 [(48, 57, False, St 103), (58, 58, False, St 105), (65, 70, False, St 103),
      (97, 102, False, St 103)],
    State 103 [(48, 57, False, St 104), (58, 58, False, St 105), (65, 70, False, St 104),
      (97, 102, False, St 104)],
    State 104 [(58, 58, False, St 105)],
    State 105 [(48, 57, False, St 106), (58, 58, False, St 164), (65, 70, False, St 106),
      (97, 102, False, St 106)],
    State 106 [(48, 57, False, St 107), (58, 58, False, St 110), (65, 70, False, St 107),
      (97, 102, False, St 107)],
    State 107 [(48, 57, False, St 108), (58, 58, False, St 110), (65, 70, False, St 108),
      (97, 102, False, St 108)]]"

definition http11_code_16 :: "http_action block list" where
  "http11_code_16 = [
    State 108 [(48, 57, False, St 109), (58, 58, False, St 110), (65, 70, False, St 109),
      (97, 102, False, St 109)],
    State 109 [(58, 58, False, St 110)],
    State 110 [(48, 57, False, St 111), (58, 58, False, St 163), (65, 70, False, St 111),
      (97, 102, False, St 111)],
    State 111 [(48, 57, False, St 112), (58, 58, False, St 115), (65, 70, False, St 112),
      (97, 102, False, St 112)],
    State 112 [(48, 57, False, St 113), (58, 58, False, St 115), (65, 70, False, St 113),
      (97, 102, False, St 113)],
    State 113 [(48, 57, False, St 114), (58, 58, False, St 115), (65, 70, False, St 114),
      (97, 102, False, St 114)],
    State 114 [(58, 58, False, St 115)],
    State 115 [(48, 57, False, St 116), (58, 58, False, St 151), (65, 70, False, St 116),
      (97, 102, False, St 116)],
    State 116 [(48, 57, False, St 117), (58, 58, False, St 120), (65, 70, False, St 117),
      (97, 102, False, St 117)],
    State 117 [(48, 57, False, St 118), (58, 58, False, St 120), (65, 70, False, St 118),
      (97, 102, False, St 118)],
    State 118 [(48, 57, False, St 119), (58, 58, False, St 120), (65, 70, False, St 119),
      (97, 102, False, St 119)]]"

definition http11_code_17 :: "http_action block list" where
  "http11_code_17 = [
    State 119 [(58, 58, False, St 120)],
    State 120 [(48, 57, False, St 121), (58, 58, False, St 150), (65, 70, False, St 121),
      (97, 102, False, St 121)],
    State 121 [(48, 57, False, St 122), (58, 58, False, St 125), (65, 70, False, St 122),
      (97, 102, False, St 122)],
    State 122 [(48, 57, False, St 123), (58, 58, False, St 125), (65, 70, False, St 123),
      (97, 102, False, St 123)],
    State 123 [(48, 57, False, St 124), (58, 58, False, St 125), (65, 70, False, St 124),
      (97, 102, False, St 124)],
    State 124 [(58, 58, False, St 125)],
    State 125 [(48, 57, False, St 121), (58, 58, False, St 126), (65, 70, False, St 121),
      (97, 102, False, St 121)],
    State 126 [(2, 3, False, St 48), (48, 48, False, St 127), (49, 49, False, St 143),
      (50, 50, False, St 146), (51, 57, False, St 127), (65, 70, False, St 149),
      (93, 93, False, St 61), (97, 102, False, St 149)],
    State 127 [(46, 46, False, St 55), (48, 57, False, St 128), (58, 58, False, St 131),
      (65, 70, False, St 128), (93, 93, False, St 61), (97, 102, False, St 128)],
    State 128 [(48, 57, False, St 129), (58, 58, False, St 131), (65, 70, False, St 129),
      (93, 93, False, St 61), (97, 102, False, St 129)]]"

definition http11_code_18 :: "http_action block list" where
  "http11_code_18 = [
    State 129 [(48, 57, False, St 130), (58, 58, False, St 131), (65, 70, False, St 130),
      (93, 93, False, St 61), (97, 102, False, St 130)],
    State 130 [(58, 58, False, St 131), (93, 93, False, St 61)],
    State 131 [(48, 48, False, St 132), (49, 49, False, St 136), (50, 50, False, St 139),
      (51, 57, False, St 132), (65, 70, False, St 142), (97, 102, False, St 142)],
    State 132 [(46, 46, False, St 55), (48, 57, False, St 133), (58, 58, False, St 80),
      (65, 70, False, St 133), (93, 93, False, St 61), (97, 102, False, St 133)],
    State 133 [(48, 57, False, St 134), (58, 58, False, St 80), (65, 70, False, St 134),
      (93, 93, False, St 61), (97, 102, False, St 134)],
    State 134 [(48, 57, False, St 135), (58, 58, False, St 80), (65, 70, False, St 135),
      (93, 93, False, St 61), (97, 102, False, St 135)],
    State 135 [(58, 58, False, St 80), (93, 93, False, St 61)],
    State 136 [(46, 46, False, St 55), (48, 57, False, St 137), (58, 58, False, St 80),
      (65, 70, False, St 133), (93, 93, False, St 61), (97, 102, False, St 133)],
    State 137 [(46, 46, False, St 55), (48, 57, False, St 138), (58, 58, False, St 80),
      (65, 70, False, St 134), (93, 93, False, St 61), (97, 102, False, St 134)]]"

definition http11_code_19 :: "http_action block list" where
  "http11_code_19 = [
    State 138 [(46, 46, False, St 55), (48, 57, False, St 135), (58, 58, False, St 80),
      (65, 70, False, St 135), (93, 93, False, St 61), (97, 102, False, St 135)],
    State 139 [(46, 46, False, St 55), (48, 48, False, St 140), (49, 52, False, St 133),
      (53, 53, False, St 141), (54, 57, False, St 133), (58, 58, False, St 80),
      (65, 70, False, St 133), (93, 93, False, St 61), (97, 102, False, St 133)],
    State 140 [(48, 57, False, St 138), (58, 58, False, St 80), (65, 70, False, St 134),
      (93, 93, False, St 61), (97, 102, False, St 134)],
    State 141 [(48, 48, False, St 138), (49, 57, False, St 134), (58, 58, False, St 80),
      (65, 70, False, St 134), (93, 93, False, St 61), (97, 102, False, St 134)],
    State 142 [(48, 57, False, St 133), (58, 58, False, St 80), (65, 70, False, St 133),
      (93, 93, False, St 61), (97, 102, False, St 133)],
    State 143 [(46, 46, False, St 55), (48, 57, False, St 144), (58, 58, False, St 131),
      (65, 70, False, St 128), (93, 93, False, St 61), (97, 102, False, St 128)],
    State 144 [(46, 46, False, St 55), (48, 57, False, St 145), (58, 58, False, St 131),
      (65, 70, False, St 129), (93, 93, False, St 61), (97, 102, False, St 129)],
    State 145 [(46, 46, False, St 55), (48, 57, False, St 130), (58, 58, False, St 131),
      (65, 70, False, St 130), (93, 93, False, St 61), (97, 102, False, St 130)]]"

definition http11_code_20 :: "http_action block list" where
  "http11_code_20 = [
    State 146 [(46, 46, False, St 55), (48, 48, False, St 147), (49, 52, False, St 128),
      (53, 53, False, St 148), (54, 57, False, St 128), (58, 58, False, St 131),
      (65, 70, False, St 128), (93, 93, False, St 61), (97, 102, False, St 128)],
    State 147 [(48, 57, False, St 145), (58, 58, False, St 131), (65, 70, False, St 129),
      (93, 93, False, St 61), (97, 102, False, St 129)],
    State 148 [(48, 48, False, St 145), (49, 57, False, St 129), (58, 58, False, St 131),
      (65, 70, False, St 129), (93, 93, False, St 61), (97, 102, False, St 129)],
    State 149 [(48, 57, False, St 128), (58, 58, False, St 131), (65, 70, False, St 128),
      (93, 93, False, St 61), (97, 102, False, St 128)],
    State 150 [(2, 3, False, St 48), (48, 48, False, St 127), (49, 49, False, St 143),
      (50, 50, False, St 146), (51, 57, False, St 127), (65, 70, False, St 149),
      (97, 102, False, St 149)],
    State 151 [(2, 3, False, St 48), (48, 48, False, St 152), (49, 49, False, St 156),
      (50, 50, False, St 159), (51, 57, False, St 152), (65, 70, False, St 162),
      (97, 102, False, St 162)],
    State 152 [(46, 46, False, St 55), (48, 57, False, St 153), (58, 58, False, St 131),
      (65, 70, False, St 153), (97, 102, False, St 153)],
    State 153 [(48, 57, False, St 154), (58, 58, False, St 131), (65, 70, False, St 154),
      (97, 102, False, St 154)]]"

definition http11_code_21 :: "http_action block list" where
  "http11_code_21 = [
    State 154 [(48, 57, False, St 155), (58, 58, False, St 131), (65, 70, False, St 155),
      (97, 102, False, St 155)],
    State 155 [(58, 58, False, St 131)],
    State 156 [(46, 46, False, St 55), (48, 57, False, St 157), (58, 58, False, St 131),
      (65, 70, False, St 153), (97, 102, False, St 153)],
    State 157 [(46, 46, False, St 55), (48, 57, False, St 158), (58, 58, False, St 131),
      (65, 70, False, St 154), (97, 102, False, St 154)],
    State 158 [(46, 46, False, St 55), (48, 57, False, St 155), (58, 58, False, St 131),
      (65, 70, False, St 155), (97, 102, False, St 155)],
    State 159 [(46, 46, False, St 55), (48, 48, False, St 160), (49, 52, False, St 153),
      (53, 53, False, St 161), (54, 57, False, St 153), (58, 58, False, St 131),
      (65, 70, False, St 153), (97, 102, False, St 153)],
    State 160 [(48, 57, False, St 158), (58, 58, False, St 131), (65, 70, False, St 154),
      (97, 102, False, St 154)],
    State 161 [(48, 48, False, St 158), (49, 57, False, St 154), (58, 58, False, St 131),
      (65, 70, False, St 154), (97, 102, False, St 154)],
    State 162 [(48, 57, False, St 153), (58, 58, False, St 131), (65, 70, False, St 153),
      (97, 102, False, St 153)]]"

definition http11_code_22 :: "http_action block list" where
  "http11_code_22 = [
    State 163 [(2, 3, False, St 48), (48, 57, False, St 49), (65, 70, False, St 49),
      (97, 102, False, St 49)],
    State 164 [(2, 3, False, St 48)],
    State 165 [(3, 3, False, St 48)],
    State 166 [(4, 4, False, St 48)],
    State 167 [(58, 58, False, St 168)],
    State 168 [(2, 5, False, St 48), (48, 48, False, St 127), (49, 49, False, St 143),
      (50, 50, False, St 146), (51, 57, False, St 127), (65, 70, False, St 149),
      (93, 93, False, St 61), (97, 102, False, St 149)],
    State 169 [(48, 57, False, St 170), (65, 70, False, St 170), (97, 102, False, St 170)],
    State 170 [(46, 46, False, St 171), (48, 57, False, St 170), (65, 70, False, St 170),
      (97, 102, False, St 170)],
    State 171 [(33, 33, False, St 172), (36, 36, False, St 172), (38, 46, False, St 172),
      (48, 59, False, St 172), (61, 61, False, St 172), (65, 90, False, St 172),
      (95, 95, False, St 172), (97, 122, False, St 172), (126, 126, False, St 172),
      (94, 94, True, St 172), (123, 123, True, St 172), (125, 125, True, St 172)]]"

definition http11_code_23 :: "http_action block list" where
  "http11_code_23 = [
    State 172 [(33, 33, False, St 172), (36, 36, False, St 172), (38, 46, False, St 172),
      (48, 59, False, St 172), (61, 61, False, St 172), (65, 90, False, St 172),
      (93, 93, False, St 61), (95, 95, False, St 172), (97, 122, False, St 172),
      (126, 126, False, St 172), (94, 94, True, St 172), (123, 123, True, St 172),
      (125, 125, True, St 172)],
    Trans 12 [Mark] 173,
    State 173 [(32, 32, False, Tr 37), (33, 33, False, St 19), (35, 35, False, Tr 39),
      (36, 36, False, St 19), (37, 37, False, St 24), (38, 42, False, St 19),
      (43, 43, False, St 173), (44, 44, False, St 19), (45, 46, False, St 173),
      (47, 47, False, St 26), (48, 57, False, St 173), (58, 58, False, St 174),
      (59, 59, False, St 19), (61, 61, False, St 19), (63, 63, False, Tr 42),
      (64, 64, False, St 19), (65, 90, False, St 173), (95, 95, False, St 19),
      (97, 122, False, St 173), (126, 126, False, St 19), (94, 94, True, St 19),
      (123, 123, True, St 19), (125, 125, True, St 19)]]"

definition http11_code_24 :: "http_action block list" where
  "http11_code_24 = [
    State 174 [(32, 32, False, Tr 6), (33, 33, False, Tr 203), (35, 35, False, Tr 8),
      (36, 36, False, Tr 203), (37, 37, False, Tr 204), (38, 46, False, Tr 203),
      (47, 47, False, Tr 10), (48, 59, False, Tr 203), (61, 61, False, Tr 203),
      (63, 63, False, Tr 11), (64, 90, False, Tr 203), (95, 95, False, Tr 203),
      (97, 122, False, Tr 203), (126, 126, False, Tr 203), (94, 94, True, Tr 203),
      (123, 123, True, Tr 203), (125, 125, True, Tr 203)],
    State 175 [(32, 32, False, Tr 4), (48, 57, False, St 176), (65, 90, False, St 176)],
    State 176 [(32, 32, False, Tr 4), (48, 57, False, St 177), (65, 90, False, St 177)],
    State 177 [(32, 32, False, Tr 4), (48, 57, False, St 178), (65, 90, False, St 178)],
    State 178 [(32, 32, False, Tr 4), (48, 57, False, St 179), (65, 90, False, St 179)],
    State 179 [(32, 32, False, Tr 4), (48, 57, False, St 180), (65, 90, False, St 180)],
    State 180 [(32, 32, False, Tr 4), (48, 57, False, St 181), (65, 90, False, St 181)],
    State 181 [(32, 32, False, Tr 4), (48, 57, False, St 182), (65, 90, False, St 182)],
    State 182 [(32, 32, False, Tr 4), (48, 57, False, St 183), (65, 90, False, St 183)]]"

definition http11_code_25 :: "http_action block list" where
  "http11_code_25 = [
    State 183 [(32, 32, False, Tr 4), (48, 57, False, St 184), (65, 90, False, St 184)],
    State 184 [(32, 32, False, Tr 4), (48, 57, False, St 185), (65, 90, False, St 185)],
    State 185 [(32, 32, False, Tr 4), (48, 57, False, St 186), (65, 90, False, St 186)],
    State 186 [(32, 32, False, Tr 4), (48, 57, False, St 187), (65, 90, False, St 187)],
    State 187 [(32, 32, False, Tr 4), (48, 57, False, St 188), (65, 90, False, St 188)],
    State 188 [(32, 32, False, Tr 4), (48, 57, False, St 189), (65, 90, False, St 189)],
    State 189 [(32, 32, False, Tr 4), (48, 57, False, St 190), (65, 90, False, St 190)],
    State 190 [(32, 32, False, Tr 4), (48, 57, False, St 191), (65, 90, False, St 191)],
    State 191 [(32, 32, False, Tr 4), (48, 57, False, St 192), (65, 90, False, St 192)],
    State 192 [(32, 32, False, Tr 4), (48, 57, False, St 193), (65, 90, False, St 193)],
    State 193 [(32, 32, False, Tr 4)],
    Trans 2 [Mark] 194,
    State 194 [(45, 46, False, St 195), (48, 57, False, St 195), (65, 90, False, St 195),
      (97, 122, False, St 195)]]"

definition http11_code_26 :: "http_action block list" where
  "http11_code_26 = [
    State 195 [(9, 13, False, Tr 224), (32, 32, False, Tr 224), (45, 46, False, St 195),
      (47, 47, False, Tr 224), (48, 57, False, St 195), (62, 62, False, Tr 224),
      (65, 90, False, St 195), (97, 122, False, St 195)],
    Trans 224 [Request_path] 196,
    State 196 [(0, 61, False, St 196), (62, 62, False, St 197), (63, 255, False, St 196)],
    State 197 [(0, 0, False, Tr 227), (1, 61, False, St 196), (62, 62, False, St 197),
      (63, 255, False, St 196)],
    Trans 227 [Xml, Done] 349,
    Trans 235 [Json, Done] 349,
    State 349 [],
    Trans 3 [Mark] 198,
    State 198 [(32, 32, False, Tr 228), (33, 33, False, St 202), (36, 36, False, St 202),
      (37, 37, False, St 203), (38, 46, False, St 202), (47, 47, False, St 208),
      (48, 57, False, St 202), (59, 59, False, St 202), (61, 61, False, St 202),
      (64, 90, False, St 202), (95, 95, False, St 202), (97, 122, False, St 202),
      (126, 126, False, St 202), (94, 94, True, St 202), (123, 123, True, St 202),
      (125, 125, True, St 202)],
    Trans 228 [Request_path] 199]"

definition http11_code_27 :: "http_action block list" where
  "http11_code_27 = [
    State 199 [(123, 123, False, Tr 232)],
    Trans 232 [Mark] 200,
    State 200 [(0, 124, False, St 200), (125, 125, False, St 201), (126, 255, False, St 200)],
    State 201 [(0, 0, False, Tr 235), (1, 124, False, St 200), (125, 125, False, St 201),
      (126, 255, False, St 200)],
    State 202 [(32, 32, False, Tr 228), (33, 33, False, St 202), (36, 36, False, St 202),
      (37, 37, False, St 203), (38, 46, False, St 202), (47, 47, False, St 205),
      (48, 57, False, St 202), (59, 59, False, St 202), (61, 61, False, St 202),
      (64, 90, False, St 202), (95, 95, False, St 202), (97, 122, False, St 202),
      (126, 126, False, St 202), (94, 94, True, St 202), (123, 123, True, St 202),
      (125, 125, True, St 202)],
    State 203 [(48, 57, False, St 204), (65, 70, False, St 204), (97, 102, False, St 204)],
    State 204 [(48, 57, False, St 202), (65, 70, False, St 202), (97, 102, False, St 202)],
    State 205 [(32, 32, False, Tr 228), (33, 33, False, St 205), (36, 36, False, St 205),
      (37, 37, False, St 206), (38, 59, False, St 205), (61, 61, False, St 205),
      (64, 90, False, St 205), (95, 95, False, St 205), (97, 122, False, St 205),
      (126, 126, False, St 205), (94, 94, True, St 205), (123, 123, True, St 205),
      (125, 125, True, St 205)]]"

definition http11_code_28 :: "http_action block list" where
  "http11_code_28 = [
    State 206 [(48, 57, False, St 207), (65, 70, False, St 207), (97, 102, False, St 207)],
    State 207 [(48, 57, False, St 205), (65, 70, False, St 205), (97, 102, False, St 205)],
    State 208 [(32, 32, False, Tr 228), (33, 33, False, St 205), (36, 36, False, St 205),
      (37, 37, False, St 206), (38, 46, False, St 205), (47, 47, False, St 209),
      (48, 59, False, St 205), (61, 61, False, St 205), (64, 90, False, St 205),
      (95, 95, False, St 205), (97, 122, False, St 205), (126, 126, False, St 205),
      (94, 94, True, St 205), (123, 123, True, St 205), (125, 125, True, St 205)],
    State 209 [(32, 32, False, Tr 228), (33, 33, False, St 210), (36, 36, False, St 210),
      (37, 37, False, St 211), (38, 46, False, St 210), (47, 47, False, St 205),
      (48, 57, False, St 210), (58, 58, False, St 213), (59, 59, False, St 210),
      (61, 61, False, St 210), (64, 64, False, St 217), (65, 90, False, St 210),
      (91, 91, False, St 222), (95, 95, False, St 210), (97, 122, False, St 210),
      (126, 126, False, St 210), (94, 94, True, St 210), (123, 123, True, St 210),
      (125, 125, True, St 210)]]"

definition http11_code_29 :: "http_action block list" where
  "http11_code_29 = [
    State 210 [(32, 32, False, Tr 228), (33, 33, False, St 210), (36, 36, False, St 210),
      (37, 37, False, St 211), (38, 46, False, St 210), (47, 47, False, St 205),
      (48, 57, False, St 210), (58, 58, False, St 213), (59, 59, False, St 210),
      (61, 61, False, St 210), (64, 64, False, St 217), (65, 90, False, St 210),
      (95, 95, False, St 210), (97, 122, False, St 210), (126, 126, False, St 210),
      (94, 94, True, St 210), (123, 123, True, St 210), (125, 125, True, St 210)],
    State 211 [(48, 57, False, St 212), (65, 70, False, St 212), (97, 102, False, St 212)],
    State 212 [(48, 57, False, St 210), (65, 70, False, St 210), (97, 102, False, St 210)],
    State 213 [(32, 32, False, Tr 228), (33, 33, False, St 214), (36, 36, False, St 214),
      (37, 37, False, St 215), (38, 46, False, St 214), (47, 47, False, St 205),
      (48, 57, False, St 213), (58, 59, False, St 214), (61, 61, False, St 214),
      (64, 64, False, St 217), (65, 90, False, St 214), (95, 95, False, St 214),
      (97, 122, False, St 214), (126, 126, False, St 214), (94, 94, True, St 214),
      (123, 123, True, St 214), (125, 125, True, St 214)]]"

definition http11_code_30 :: "http_action block list" where
  "http11_code_30 = [
    State 214 [(33, 33, False, St 214), (36, 36, False, St 214), (37, 37, False, St 215),
      (38, 46, False, St 214), (48, 59, False, St 214), (61, 61, False, St 214),
      (64, 64, False, St 217), (65, 90, False, St 214), (95, 95, False, St 214),
      (97, 122, False, St 214), (126, 126, False, St 214), (94, 94, True, St 214),
      (123, 123, True, St 214), (125, 125, True, St 214)],
    State 215 [(48, 57, False, St 216), (65, 70, False, St 216), (97, 102, False, St 216)],
    State 216 [(48, 57, False, St 214), (65, 70, False, St 214), (97, 102, False, St 214)],
    State 217 [(32, 32, False, Tr 228), (33, 33, False, St 218), (36, 36, False, St 218),
      (37, 37, False, St 219), (38, 46, False, St 218), (47, 47, False, St 205),
      (48, 57, False, St 218), (58, 58, False, St 221), (59, 59, False, St 218),
      (61, 61, False, St 218), (65, 90, False, St 218), (91, 91, False, St 222),
      (95, 95, False, St 218), (97, 122, False, St 218), (126, 126, False, St 218),
      (94, 94, True, St 218), (123, 123, True, St 218), (125, 125, True, St 218)]]"

definition http11_code_31 :: "http_action block list" where
  "http11_code_31 = [
    State 218 [(32, 32, False, Tr 228), (33, 33, False, St 218), (36, 36, False, St 218),
      (37, 37, False, St 219), (38, 46, False, St 218), (47, 47, False, St 205),
      (48, 57, False, St 218), (58, 58, False, St 221), (59, 59, False, St 218),
      (61, 61, False, St 218), (65, 90, False, St 218), (95, 95, False, St 218),
      (97, 122, False, St 218), (126, 126, False, St 218), (94, 94, True, St 218),
      (123, 123, True, St 218), (125, 125, True, St 218)],
    State 219 [(48, 57, False, St 220), (65, 70, False, St 220), (97, 102, False, St 220)],
    State 220 [(48, 57, False, St 218), (65, 70, False, St 218), (97, 102, False, St 218)],
    State 221 [(32, 32, False, Tr 228), (47, 47, False, St 205), (48, 57, False, St 221)],
    State 222 [(6, 6, False, St 223), (48, 57, False, St 266), (58, 58, False, St 342),
      (65, 70, False, St 266), (97, 102, False, St 266), (118, 118, False, St 344)],
    State 223 [(48, 57, False, St 224), (65, 70, False, St 224), (97, 102, False, St 224)],
    State 224 [(48, 57, False, St 225), (58, 58, False, St 228), (65, 70, False, St 225),
      (97, 102, False, St 225)],
    State 225 [(48, 57, False, St 226), (58, 58, False, St 228), (65, 70, False, St 226),
      (97, 102, False, St 226)]]"

definition http11_code_32 :: "http_action block list" where
  "http11_code_32 = [
    State 226 [(48, 57, False, St 227), (58, 58, False, St 228), (65, 70, False, St 227),
      (97, 102, False, St 227)],
    State 227 [(58, 58, False, St 228)],
    State 228 [(48, 48, False, St 229), (49, 49, False, St 259), (50, 50, False, St 262),
      (51, 57, False, St 229), (65, 70, False, St 265), (97, 102, False, St 265)],
    State 229 [(46, 46, False, St 230), (48, 57, False, St 252), (58, 58, False, St 255),
      (65, 70, False, St 252), (97, 102, False, St 252)],
    State 230 [(48, 48, False, St 231), (49, 49, False, St 247), (50, 50, False, St 249),
      (51, 57, False, St 231)],
    State 231 [(46, 46, False, St 232)],
    State 232 [(48, 48, False, St 233), (49, 49, False, St 242), (50, 50, False, St 244),
      (51, 57, False, St 233)],
    State 233 [(46, 46, False, St 234)],
    State 234 [(48, 48, False, St 235), (49, 49, False, St 237), (50, 50, False, St 239),
      (51, 57, False, St 235)],
    State 235 [(93, 93, False, St 236)],
    State 236 [(32, 32, False, Tr 228), (47, 47, False, St 205), (58, 58, False, St 221)],
    State 237 [(48, 57, False, St 238), (93, 93, False, St 236)],
    State 238 [(48, 57, False, St 235), (93, 93, False, St 236)],
    State 239 [(48, 48, False, St 240), (53, 53, False, St 241), (93, 93, False, St 236)]]"

definition http11_code_33 :: "http_action block list" where
  "http11_code_33 = [
    State 240 [(48, 57, False, St 235)],
    State 241 [(48, 48, False, St 235)],
    State 242 [(46, 46, False, St 234), (48, 57, False, St 243)],
    State 243 [(46, 46, False, St 234), (48, 57, False, St 233)],
    State 244 [(46, 46, False, St 234), (48, 48, False, St 245), (53, 53, False, St 246)],
    State 245 [(48, 57, False, St 233)],
    State 246 [(48, 48, False, St 233)],
    State 247 [(46, 46, False, St 232), (48, 57, False, St 248)],
    State 248 [(46, 46, False, St 232), (48, 57, False, St 231)],
    State 249 [(46, 46, False, St 232), (48, 48, False, St 250), (53, 53, False, St 251)],
    State 250 [(48, 57, False, St 231)],
    State 251 [(48, 48, False, St 231)],
    State 252 [(48, 57, False, St 253), (58, 58, False, St 255), (65, 70, False, St 253),
      (97, 102, False, St 253)],
    State 253 [(48, 57, False, St 254), (58, 58, False, St 255), (65, 70, False, St 254),
      (97, 102, False, St 254)],
    State 254 [(58, 58, False, St 255)],
    State 255 [(48, 57, False, St 256), (65, 70, False, St 256), (97, 102, False, St 256)]]"

definition http11_code_34 :: "http_action block list" where
  "http11_code_34 = [
    State 256 [(48, 57, False, St 257), (65, 70, False, St 257), (93, 93, False, St 236),
      (97, 102, False, St 257)],
    State 257 [(48, 57, False, St 258), (65, 70, False, St 258), (93, 93, False, St 236),
      (97, 102, False, St 258)],
    State 258 [(48, 57, False, St 235), (65, 70, False, St 235), (93, 93, False, St 236),
      (97, 102, False, St 235)],
    State 259 [(46, 46, False, St 230), (48, 57, False, St 260), (58, 58, False, St 255),
      (65, 70, False, St 252), (97, 102, False, St 252)],
    State 260 [(46, 46, False, St 230), (48, 57, False, St 261), (58, 58, False, St 255),
      (65, 70, False, St 253), (97, 102, False, St 253)],
    State 261 [(46, 46, False, St 230), (48, 57, False, St 254), (58, 58, False, St 255),
      (65, 70, False, St 254), (97, 102, False, St 254)],
    State 262 [(46, 46, False, St 230), (48, 48, False, St 263), (49, 52, False, St 252),
      (53, 53, False, St 264), (54, 57, False, St 252), (58, 58, False, St 255),
      (65, 70, False, St 252), (97, 102, False, St 252)],
    State 263 [(48, 57, False, St 261), (58, 58, False, St 255), (65, 70, False, St 253),
      (97, 102, False, St 253)],
    State 264 [(48, 48, False, St 261), (49, 57, False, St 253), (58, 58, False, St 255),
      (65, 70, False, St 253), (97, 102, False, St 253)]]"

definition http11_code_35 :: "http_action block list" where
  "http11_code_35 = [
    State 265 [(48, 57, False, St 252), (58, 58, False, St 255), (65, 70, False, St 252),
      (97, 102, False, St 252)],
    State 266 [(48, 57, False, St 267), (58, 58, False, St 270), (65, 70, False, St 267),
      (97, 102, False, St 267)],
    State 267 [(48, 57, False, St 268), (58, 58, False, St 270), (65, 70, False, St 268),
      (97, 102, False, St 268)],
    State 268 [(48, 57, False, St 269), (58, 58, False, St 270), (65, 70, False, St 269),
      (97, 102, False, St 269)],
    State 269 [(58, 58, False, St 270)],
    State 270 [(48, 57, False, St 271), (58, 58, False, St 341), (65, 70, False, St 271),
      (97, 102, False, St 271)],
    State 271 [(48, 57, False, St 272), (58, 58, False, St 275), (65, 70, False, St 272),
      (97, 102, False, St 272)],
    State 272 [(48, 57, False, St 273), (58, 58, False, St 275), (65, 70, False, St 273),
      (97, 102, False, St 273)],
    State 273 [(48, 57, False, St 274), (58, 58, False, St 275), (65, 70, False, St 274),
      (97, 102, False, St 274)],
    State 274 [(58, 58, False, St 275)],
    State 275 [(48, 57, False, St 276), (58, 58, False, St 340), (65, 70, False, St 276),
      (97, 102, False, St 276)]]"

definition http11_code_36 :: "http_action block list" where
  "http11_code_36 = [
    State 276 [(48, 57, False, St 277), (58, 58, False, St 280), (65, 70, False, St 277),
      (97, 102, False, St 277)],
    State 277 [(48, 57, False, St 278), (58, 58, False, St 280), (65, 70, False, St 278),
      (97, 102, False, St 278)],
    State 278 [(48, 57, False, St 279), (58, 58, False, St 280), (65, 70, False, St 279),
      (97, 102, False, St 279)],
    State 279 [(58, 58, False, St 280)],
    State 280 [(48, 57, False, St 281), (58, 58, False, St 339), (65, 70, False, St 281),
      (97, 102, False, St 281)],
    State 281 [(48, 57, False, St 282), (58, 58, False, St 285), (65, 70, False, St 282),
      (97, 102, False, St 282)],
    State 282 [(48, 57, False, St 283), (58, 58, False, St 285), (65, 70, False, St 283),
      (97, 102, False, St 283)],
    State 283 [(48, 57, False, St 284), (58, 58, False, St 285), (65, 70, False, St 284),
      (97, 102, False, St 284)],
    State 284 [(58, 58, False, St 285)],
    State 285 [(48, 57, False, St 286), (58, 58, False, St 338), (65, 70, False, St 286),
      (97, 102, False, St 286)],
    State 286 [(48, 57, False, St 287), (58, 58, False, St 290), (65, 70, False, St 287),
      (97, 102, False, St 287)]]"

definition http11_code_37 :: "http_action block list" where
  "http11_code_37 = [
    State 287 [(48, 57, False, St 288), (58, 58, False, St 290), (65, 70, False, St 288),
      (97, 102, False, St 288)],
    State 288 [(48, 57, False, St 289), (58, 58, False, St 290), (65, 70, False, St 289),
      (97, 102, False, St 289)],
    State 289 [(58, 58, False, St 290)],
    State 290 [(48, 57, False, St 291), (58, 58, False, St 326), (65, 70, False, St 291),
      (97, 102, False, St 291)],
    State 291 [(48, 57, False, St 292), (58, 58, False, St 295), (65, 70, False, St 292),
      (97, 102, False, St 292)],
    State 292 [(48, 57, False, St 293), (58, 58, False, St 295), (65, 70, False, St 293),
      (97, 102, False, St 293)],
    State 293 [(48, 57, False, St 294), (58, 58, False, St 295), (65, 70, False, St 294),
      (97, 102, False, St 294)],
    State 294 [(58, 58, False, St 295)],
    State 295 [(48, 57, False, St 296), (58, 58, False, St 325), (65, 70, False, St 296),
      (97, 102, False, St 296)],
    State 296 [(48, 57, False, St 297), (58, 58, False, St 300), (65, 70, False, St 297),
      (97, 102, False, St 297)],
    State 297 [(48, 57, False, St 298), (58, 58, False, St 300), (65, 70, False, St 298),
      (97, 102, False, St 298)]]"

definition http11_code_38 :: "http_action block list" where
  "http11_code_38 = [
    State 298 [(48, 57, False, St 299), (58, 58, False, St 300), (65, 70, False, St 299),
      (97, 102, False, St 299)],
    State 299 [(58, 58, False, St 300)],
    State 300 [(48, 57, False, St 296), (58, 58, False, St 301), (65, 70, False, St 296),
      (97, 102, False, St 296)],
    State 301 [(2, 3, False, St 223), (48, 48, False, St 302), (49, 49, False, St 318),
      (50, 50, False, St 321), (51, 57, False, St 302), (65, 70, False, St 324),
      (93, 93, False, St 236), (97, 102, False, St 324)],
    State 302 [(46, 46, False, St 230), (48, 57, False, St 303), (58, 58, False, St 306),
      (65, 70, False, St 303), (93, 93, False, St 236), (97, 102, False, St 303)],
    State 303 [(48, 57, False, St 304), (58, 58, False, St 306), (65, 70, False, St 304),
      (93, 93, False, St 236), (97, 102, False, St 304)],
    State 304 [(48, 57, False, St 305), (58, 58, False, St 306), (65, 70, False, St 305),
      (93, 93, False, St 236), (97, 102, False, St 305)],
    State 305 [(58, 58, False, St 306), (93, 93, False, St 236)],
    State 306 [(48, 48, False, St 307), (49, 49, False, St 311), (50, 50, False, St 314),
      (51, 57, False, St 307), (65, 70, False, St 317), (97, 102, False, St 317)]]"

definition http11_code_39 :: "http_action block list" where
  "http11_code_39 = [
    State 307 [(46, 46, False, St 230), (48, 57, False, St 308), (58, 58, False, St 255),
      (65, 70, False, St 308), (93, 93, False, St 236), (97, 102, False, St 308)],
    State 308 [(48, 57, False, St 309), (58, 58, False, St 255), (65, 70, False, St 309),
      (93, 93, False, St 236), (97, 102, False, St 309)],
    State 309 [(48, 57, False, St 310), (58, 58, False, St 255), (65, 70, False, St 310),
      (93, 93, False, St 236), (97, 102, False, St 310)],
    State 310 [(58, 58, False, St 255), (93, 93, False, St 236)],
    State 311 [(46, 46, False, St 230), (48, 57, False, St 312), (58, 58, False, St 255),
      (65, 70, False, St 308), (93, 93, False, St 236), (97, 102, False, St 308)],
    State 312 [(46, 46, False, St 230), (48, 57, False, St 313), (58, 58, False, St 255),
      (65, 70, False, St 309), (93, 93, False, St 236), (97, 102, False, St 309)],
    State 313 [(46, 46, False, St 230), (48, 57, False, St 310), (58, 58, False, St 255),
      (65, 70, False, St 310), (93, 93, False, St 236), (97, 102, False, St 310)],
    State 314 [(46, 46, False, St 230), (48, 48, False, St 315), (49, 52, False, St 308),
      (53, 53, False, St 316), (54, 57, False, St 308), (58, 58, False, St 255),
      (65, 70, False, St 308), (93, 93, False, St 236), (97, 102, False, St 308)],
    State 315 [(48, 57, False, St 313), (58, 58, False, St 255), (65, 70, False, St 309),
      (93, 93, False, St 236), (97, 102, False, St 309)]]"

definition http11_code_40 :: "http_action block list" where
  "http11_code_40 = [
    State 316 [(48, 48, False, St 313), (49, 57, False, St 309), (58, 58, False, St 255),
      (65, 70, False, St 309), (93, 93, False, St 236), (97, 102, False, St 309)],
    State 317 [(48, 57, False, St 308), (58, 58, False, St 255), (65, 70, False, St 308),
      (93, 93, False, St 236), (97, 102, False, St 308)],
    State 318 [(46, 46, False, St 230), (48, 57, False, St 319), (58, 58, False, St 306),
      (65, 70, False, St 303), (93, 93, False, St 236), (97, 102, False, St 303)],
    State 319 [(46, 46, False, St 230), (48, 57, False, St 320), (58, 58, False, St 306),
      (65, 70, False, St 304), (93, 93, False, St 236), (97, 102, False, St 304)],
    State 320 [(46, 46, False, St 230), (48, 57, False, St 305), (58, 58, False, St 306),
      (65, 70, False, St 305), (93, 93, False, St 236), (97, 102, False, St 305)],
    State 321 [(46, 46, False, St 230), (48, 48, False, St 322), (49, 52, False, St 303),
      (53, 53, False, St 323), (54, 57, False, St 303), (58, 58, False, St 306),
      (65, 70, False, St 303), (93, 93, False, St 236), (97, 102, False, St 303)],
    State 322 [(48, 57, False, St 320), (58, 58, False, St 306), (65, 70, False, St 304),
      (93, 93, False, St 236), (97, 102, False, St 304)],
    State 323 [(48, 48, False, St 320), (49, 57, False, St 304), (58, 58, False, St 306),
      (65, 70, False, St 304), (93, 93, False, St 236), (97, 102, False, St 304)]]"

definition http11_code_41 :: "http_action block list" where
  "http11_code_41 = [
    State 324 [(48, 57, False, St 303), (58, 58, False, St 306), (65, 70, False, St 303),
      (93, 93, False, St 236), (97, 102, False, St 303)],
    State 325 [(2, 3, False, St 223), (48, 48, False, St 302), (49, 49, False, St 318),
      (50, 50, False, St 321), (51, 57, False, St 302), (65, 70, False, St 324),
      (97, 102, False, St 324)],
    State 326 [(2, 3, False, St 223), (48, 48, False, St 327), (49, 49, False, St 331),
      (50, 50, False, St 334), (51, 57, False, St 327), (65, 70, False, St 337),
      (97, 102, False, St 337)],
    State 327 [(46, 46, False, St 230), (48, 57, False, St 328), (58, 58, False, St 306),
      (65, 70, False, St 328), (97, 102, False, St 328)],
    State 328 [(48, 57, False, St 329), (58, 58, False, St 306), (65, 70, False, St 329),
      (97, 102, False, St 329)],
    State 329 [(48, 57, False, St 330), (58, 58, False, St 306), (65, 70, False, St 330),
      (97, 102, False, St 330)],
    State 330 [(58, 58, False, St 306)],
    State 331 [(46, 46, False, St 230), (48, 57, False, St 332), (58, 58, False, St 306),
      (65, 70, False, St 328), (97, 102, False, St 328)],
    State 332 [(46, 46, False, St 230), (48, 57, False, St 333), (58, 58, False, St 306),
      (65, 70, False, St 329), (97, 102, False, St 329)]]"

definition http11_code_42 :: "http_action block list" where
  "http11_code_42 = [
    State 333 [(46, 46, False, St 230), (48, 57, False, St 330), (58, 58, False, St 306),
      (65, 70, False, St 330), (97, 102, False, St 330)],
    State 334 [(46, 46, False, St 230), (48, 48, False, St 335), (49, 52, False, St 328),
      (53, 53, False, St 336), (54, 57, False, St 328), (58, 58, False, St 306),
      (65, 70, False, St 328), (97, 102, False, St 328)],
    State 335 [(48, 57, False, St 333), (58, 58, False, St 306), (65, 70, False, St 329),
      (97, 102, False, St 329)],
    State 336 [(48, 48, False, St 333), (49, 57, False, St 329), (58, 58, False, St 306),
      (65, 70, False, St 329), (97, 102, False, St 329)],
    State 337 [(48, 57, False, St 328), (58, 58, False, St 306), (65, 70, False, St 328),
      (97, 102, False, St 328)],
    State 338 [(2, 3, False, St 223), (48, 57, False, St 224), (65, 70, False, St 224),
      (97, 102, False, St 224)],
    State 339 [(2, 3, False, St 223)],
    State 340 [(3, 3, False, St 223)],
    State 341 [(4, 4, False, St 223)],
    State 342 [(58, 58, False, St 343)],
    State 343 [(2, 5, False, St 223), (48, 48, False, St 302), (49, 49, False, St 318),
      (50, 50, False, St 321), (51, 57, False, St 302), (65, 70, False, St 324),
      (93, 93, False, St 236), (97, 102, False, St 324)]]"

definition http11_code_43 :: "http_action block list" where
  "http11_code_43 = [
    State 344 [(48, 57, False, St 345), (65, 70, False, St 345), (97, 102, False, St 345)],
    State 345 [(46, 46, False, St 346), (48, 57, False, St 345), (65, 70, False, St 345),
      (97, 102, False, St 345)],
    State 346 [(33, 33, False, St 347), (36, 36, False, St 347), (38, 46, False, St 347),
      (48, 59, False, St 347), (61, 61, False, St 347), (65, 90, False, St 347),
      (95, 95, False, St 347), (97, 122, False, St 347), (126, 126, False, St 347),
      (94, 94, True, St 347), (123, 123, True, St 347), (125, 125, True, St 347)],
    State 347 [(33, 33, False, St 347), (36, 36, False, St 347), (38, 46, False, St 347),
      (48, 59, False, St 347), (61, 61, False, St 347), (65, 90, False, St 347),
      (93, 93, False, St 236), (95, 95, False, St 347), (97, 122, False, St 347),
      (126, 126, False, St 347), (94, 94, True, St 347), (123, 123, True, St 347),
      (125, 125, True, St 347)]]"

section \<open>The machine\<close>

definition http11_code :: "http_action block list" where
  "http11_code = concat [
    http11_code_1, http11_code_2, http11_code_3, http11_code_4, http11_code_5, http11_code_6,
    http11_code_7, http11_code_8, http11_code_9, http11_code_10, http11_code_11, http11_code_12,
    http11_code_13, http11_code_14, http11_code_15, http11_code_16, http11_code_17, http11_code_18,
    http11_code_19, http11_code_20, http11_code_21, http11_code_22, http11_code_23, http11_code_24,
    http11_code_25, http11_code_26, http11_code_27, http11_code_28, http11_code_29, http11_code_30,
    http11_code_31, http11_code_32, http11_code_33, http11_code_34, http11_code_35, http11_code_36,
    http11_code_37, http11_code_38, http11_code_39, http11_code_40, http11_code_41, http11_code_42,
    http11_code_43]"

lemmas http11_code_defs =
  http11_code_1_def http11_code_2_def http11_code_3_def http11_code_4_def http11_code_5_def
  http11_code_6_def http11_code_7_def http11_code_8_def http11_code_9_def http11_code_10_def
  http11_code_11_def http11_code_12_def http11_code_13_def http11_code_14_def http11_code_15_def
  http11_code_16_def http11_code_17_def http11_code_18_def http11_code_19_def http11_code_20_def
  http11_code_21_def http11_code_22_def http11_code_23_def http11_code_24_def http11_code_25_def
  http11_code_26_def http11_code_27_def http11_code_28_def http11_code_29_def http11_code_30_def
  http11_code_31_def http11_code_32_def http11_code_33_def http11_code_34_def http11_code_35_def
  http11_code_36_def http11_code_37_def http11_code_38_def http11_code_39_def http11_code_40_def
  http11_code_41_def http11_code_42_def http11_code_43_def

lemma http11_state_nums:
  "state_nums http11_code_1 = [1, 2, 3]"
  "state_nums http11_code_2 = [4, 5, 6, 7, 8, 9, 10, 11, 12, 13]"
  "state_nums http11_code_3 = [14, 15, 16, 17]"
  "state_nums http11_code_4 = [348, 18, 19]"
  "state_nums http11_code_5 = [20, 21]"
  "state_nums http11_code_6 = [22, 23, 24, 25, 26, 27, 28]"
  "state_nums http11_code_7 = [29, 30, 31, 32]"
  "state_nums http11_code_8 = [33, 34, 35]"
  "state_nums http11_code_9 = [36, 37, 38, 39, 40]"
  "state_nums http11_code_10 = [41, 42, 43, 44, 45, 46]"
  "state_nums http11_code_11 = [47, 48, 49, 50, 51, 52, 53, 54, 55, 56, 57, 58]"
  "state_nums http11_code_12 = [59, 60, 61, 62, 63, 64, 65, 66, 67, 68, 69, 70, 71, 72, 73, 74, 75]"
  "state_nums http11_code_13 = [76, 77, 78, 79, 80, 81, 82, 83, 84, 85, 86]"
  "state_nums http11_code_14 = [87, 88, 89, 90, 91, 92, 93, 94, 95, 96]"
  "state_nums http11_code_15 = [97, 98, 99, 100, 101, 102, 103, 104, 105, 106, 107]"
  "state_nums http11_code_16 = [108, 109, 110, 111, 112, 113, 114, 115, 116, 117, 118]"
  "state_nums http11_code_17 = [119, 120, 121, 122, 123, 124, 125, 126, 127, 128]"
  "state_nums http11_code_18 = [129, 130, 131, 132, 133, 134, 135, 136, 137]"
  "state_nums http11_code_19 = [138, 139, 140, 141, 142, 143, 144, 145]"
  "state_nums http11_code_20 = [146, 147, 148, 149, 150, 151, 152, 153]"
  "state_nums http11_code_21 = [154, 155, 156, 157, 158, 159, 160, 161, 162]"
  "state_nums http11_code_22 = [163, 164, 165, 166, 167, 168, 169, 170, 171]"
  "state_nums http11_code_23 = [172, 173]"
  "state_nums http11_code_24 = [174, 175, 176, 177, 178, 179, 180, 181, 182]"
  "state_nums http11_code_25 = [183, 184, 185, 186, 187, 188, 189, 190, 191, 192, 193, 194]"
  "state_nums http11_code_26 = [195, 196, 197, 349, 198]"
  "state_nums http11_code_27 = [199, 200, 201, 202, 203, 204, 205]"
  "state_nums http11_code_28 = [206, 207, 208, 209]"
  "state_nums http11_code_29 = [210, 211, 212, 213]"
  "state_nums http11_code_30 = [214, 215, 216, 217]"
  "state_nums http11_code_31 = [218, 219, 220, 221, 222, 223, 224, 225]"
  "state_nums http11_code_32 = [226, 227, 228, 229, 230, 231, 232, 233, 234, 235, 236, 237, 238, 239]"
  "state_nums http11_code_33 = [240, 241, 242, 243, 244, 245, 246, 247, 248, 249, 250, 251, 252, 253, 254, 255]"
  "state_nums http11_code_34 = [256, 257, 258, 259, 260, 261, 262, 263, 264]"
  "state_nums http11_code_35 = [265, 266, 267, 268, 269, 270, 271, 272, 273, 274, 275]"
  "state_nums http11_code_36 = [276, 277, 278, 279, 280, 281, 282, 283, 284, 285, 286]"
  "state_nums http11_code_37 = [287, 288, 289, 290, 291, 292, 293, 294, 295, 296, 297]"
  "state_nums http11_code_38 = [298, 299, 300, 301, 302, 303, 304, 305, 306]"
  "state_nums http11_code_39 = [307, 308, 309, 310, 311, 312, 313, 314, 315]"
  "state_nums http11_code_40 = [316, 317, 318, 319, 320, 321, 322, 323]"
  "state_nums http11_code_41 = [324, 325, 326, 327, 328, 329, 330, 331, 332]"
  "state_nums http11_code_42 = [333, 334, 335, 336, 337, 338, 339, 340, 341, 342, 343]"
  "state_nums http11_code_43 = [344, 345, 346, 347]"
  by (simp_all add: http11_code_defs)

lemma http11_trans_nums:
  "trans_nums http11_code_1 = [0, 4, 6, 37, 43, 46, 53]"
  "trans_nums http11_code_2 = [57, 13, 21, 30, 33, 23]"
  "trans_nums http11_code_3 = [27, 29, 28, 22, 31, 34, 24, 36]"
  "trans_nums http11_code_4 = [25, 7, 8]"
  "trans_nums http11_code_5 = [39, 55, 59, 44, 45]"
  "trans_nums http11_code_6 = [9, 203, 204, 11]"
  "trans_nums http11_code_7 = [42, 54, 56, 10]"
  "trans_nums http11_code_8 = []"
  "trans_nums http11_code_9 = []"
  "trans_nums http11_code_10 = []"
  "trans_nums http11_code_11 = []"
  "trans_nums http11_code_12 = []"
  "trans_nums http11_code_13 = []"
  "trans_nums http11_code_14 = []"
  "trans_nums http11_code_15 = []"
  "trans_nums http11_code_16 = []"
  "trans_nums http11_code_17 = []"
  "trans_nums http11_code_18 = []"
  "trans_nums http11_code_19 = []"
  "trans_nums http11_code_20 = []"
  "trans_nums http11_code_21 = []"
  "trans_nums http11_code_22 = []"
  "trans_nums http11_code_23 = [12]"
  "trans_nums http11_code_24 = []"
  "trans_nums http11_code_25 = [2]"
  "trans_nums http11_code_26 = [224, 227, 235, 3, 228]"
  "trans_nums http11_code_27 = [232]"
  "trans_nums http11_code_28 = []"
  "trans_nums http11_code_29 = []"
  "trans_nums http11_code_30 = []"
  "trans_nums http11_code_31 = []"
  "trans_nums http11_code_32 = []"
  "trans_nums http11_code_33 = []"
  "trans_nums http11_code_34 = []"
  "trans_nums http11_code_35 = []"
  "trans_nums http11_code_36 = []"
  "trans_nums http11_code_37 = []"
  "trans_nums http11_code_38 = []"
  "trans_nums http11_code_39 = []"
  "trans_nums http11_code_40 = []"
  "trans_nums http11_code_41 = []"
  "trans_nums http11_code_42 = []"
  "trans_nums http11_code_43 = []"
  by (simp_all add: http11_code_defs)

definition http_parser_start :: nat where "http_parser_start = 1"
definition http_parser_first_final :: nat where "http_parser_first_final = 348"
definition http_parser_error :: nat where "http_parser_error = 0"

definition http11_step :: "bool \<Rightarrow> nat \<Rightarrow> char \<Rightarrow> (http_action list \<times> nat) option" where
  "http11_step = code_step http11_code"

section \<open>Blocks of an ordinary request\<close>

lemma http11_edges_1:
  "state_edges http11_code 1 = [(48, 57, False, Tr 0), (60, 60, False, Tr 2), (64, 64, False, Tr 3),
      (65, 90, False, Tr 0)]"
  "state_edges http11_code 2 = [(32, 32, False, Tr 4), (48, 57, False, St 175), (65, 90, False, St
      175)]"
  "state_edges http11_code 3 = [(32, 32, False, Tr 6), (33, 33, False, Tr 7), (35, 35, False, Tr 8),
      (36, 36, False, Tr 7), (37, 37, False, Tr 9), (38, 46, False, Tr 7), (47, 47, False, Tr 10),
      (48, 57, False, Tr 7), (59, 59, False, Tr 7), (61, 61, False, Tr 7), (63, 63, False, Tr 11),
      (64, 64, False, Tr 7), (65, 90, False, Tr 12), (95, 95, False, Tr 7), (97, 122, False, Tr 12),
      (126, 126, False, Tr 7), (94, 94, True, Tr 7), (123, 123, True, Tr 7), (125, 125, True, Tr
      7)]"
  by (simp_all add: http11_code_def state_edges_append http11_state_nums) (simp_all add: http11_code_1_def)

lemma http11_edges_2:
  "state_edges http11_code 4 = [(72, 72, False, Tr 13)]"
  "state_edges http11_code 5 = [(84, 84, False, St 6)]"
  "state_edges http11_code 6 = [(84, 84, False, St 7)]"
  "state_edges http11_code 7 = [(80, 80, False, St 8)]"
  "state_edges http11_code 8 = [(47, 47, False, St 9)]"
  "state_edges http11_code 9 = [(49, 49, False, St 10)]"
  "state_edges http11_code 10 = [(46, 46, False, St 11)]"
  "state_edges http11_code 11 = [(48, 49, False, St 12)]"
  "state_edges http11_code 12 = [(10, 10, False, Tr 21), (13, 13, False, Tr 22)]"
  "state_edges http11_code 13 = [(1, 8, False, Tr 23), (10, 10, False, Tr 24), (11, 12, False, Tr
      23), (13, 13, False, Tr 25), (14, 31, False, Tr 23), (33, 33, False, Tr 23), (35, 39, False,
      Tr 23), (42, 43, False, Tr 23), (45, 46, False, Tr 23), (48, 57, False, Tr 23), (65, 90,
      False, Tr 23), (94, 122, False, Tr 23), (124, 124, False, Tr 23), (126, 126, False, Tr 23)]"
  by (simp_all add: http11_code_def state_edges_append http11_state_nums) (simp_all add: http11_code_2_def)

lemma http11_edges_3:
  "state_edges http11_code 14 = [(1, 8, False, St 14), (10, 31, False, St 14), (33, 33, False, St
      14), (35, 39, False, St 14), (42, 43, False, St 14), (45, 46, False, St 14), (48, 57, False,
      St 14), (58, 58, False, Tr 27), (65, 90, False, St 14), (94, 122, False, St 14), (124, 124,
      False, St 14), (126, 126, False, St 14)]"
  "state_edges http11_code 15 = [(1, 8, False, Tr 28), (9, 9, False, Tr 29), (10, 10, False, Tr 30),
      (11, 12, False, Tr 28), (13, 13, False, Tr 31), (14, 31, False, Tr 28), (32, 32, False, Tr
      29), (33, 126, False, Tr 28), (128, 255, False, Tr 28)]"
  "state_edges http11_code 16 = [(1, 9, False, St 16), (10, 10, False, Tr 33), (11, 12, False, St
      16), (13, 13, False, Tr 34), (14, 126, False, St 16), (128, 255, False, St 16)]"
  "state_edges http11_code 17 = [(10, 10, False, St 13)]"
  by (simp_all add: http11_code_def state_edges_append http11_state_nums) (simp_all add: http11_code_3_def)

lemma http11_edges_4:
  "state_edges http11_code 18 = [(1, 8, False, St 14), (10, 10, False, Tr 36), (11, 31, False, St
      14), (33, 33, False, St 14), (35, 39, False, St 14), (42, 43, False, St 14), (45, 46, False,
      St 14), (48, 57, False, St 14), (58, 58, False, Tr 27), (65, 90, False, St 14), (94, 122,
      False, St 14), (124, 124, False, St 14), (126, 126, False, St 14)]"
  by (simp_all add: http11_code_def state_edges_append http11_state_nums) (simp_all add: http11_code_4_def)

lemma http11_edges_5:
  "state_edges http11_code 20 = [(32, 32, False, Tr 43), (33, 33, False, Tr 44), (36, 36, False, Tr
      44), (37, 37, False, Tr 45), (38, 59, False, Tr 44), (61, 61, False, Tr 44), (63, 90, False,
      Tr 44), (95, 95, False, Tr 44), (97, 122, False, Tr 44), (126, 126, False, Tr 44), (94, 94,
      True, Tr 44), (123, 123, True, Tr 44), (125, 125, True, Tr 44)]"
  "state_edges http11_code 21 = [(32, 32, False, Tr 46), (33, 33, False, St 21), (36, 36, False, St
      21), (37, 37, False, St 22), (38, 59, False, St 21), (61, 61, False, St 21), (63, 90, False,
      St 21), (95, 95, False, St 21), (97, 122, False, St 21), (126, 126, False, St 21), (94, 94,
      True, St 21), (123, 123, True, St 21), (125, 125, True, St 21)]"
  by (simp_all add: http11_code_def state_edges_append http11_state_nums) (simp_all add: http11_code_5_def)

lemma http11_edges_6:
  "state_edges http11_code 22 = [(48, 57, False, St 23), (65, 70, False, St 23), (97, 102, False, St
      23)]"
  "state_edges http11_code 23 = [(48, 57, False, St 21), (65, 70, False, St 21), (97, 102, False, St
      21)]"
  "state_edges http11_code 26 = [(32, 32, False, Tr 37), (33, 33, False, St 26), (35, 35, False, Tr
      39), (36, 36, False, St 26), (37, 37, False, St 27), (38, 59, False, St 26), (61, 61, False,
      St 26), (63, 63, False, Tr 42), (64, 90, False, St 26), (95, 95, False, St 26), (97, 122,
      False, St 26), (126, 126, False, St 26), (94, 94, True, St 26), (123, 123, True, St 26), (125,
      125, True, St 26)]"
  "state_edges http11_code 27 = [(48, 57, False, St 28), (65, 70, False, St 28), (97, 102, False, St
      28)]"
  "state_edges http11_code 28 = [(48, 57, False, St 26), (65, 70, False, St 26), (97, 102, False, St
      26)]"
  by (simp_all add: http11_code_def state_edges_append http11_state_nums) (simp_all add: http11_code_6_def)

lemma http11_edges_7:
  "state_edges http11_code 29 = [(32, 32, False, Tr 53), (33, 33, False, Tr 54), (35, 35, False, Tr
      55), (36, 36, False, Tr 54), (37, 37, False, Tr 56), (38, 59, False, Tr 54), (61, 61, False,
      Tr 54), (63, 90, False, Tr 54), (95, 95, False, Tr 54), (97, 122, False, Tr 54), (126, 126,
      False, Tr 54), (94, 94, True, Tr 54), (123, 123, True, Tr 54), (125, 125, True, Tr 54)]"
  "state_edges http11_code 30 = [(32, 32, False, Tr 57), (33, 33, False, St 30), (35, 35, False, Tr
      59), (36, 36, False, St 30), (37, 37, False, St 31), (38, 59, False, St 30), (61, 61, False,
      St 30), (63, 90, False, St 30), (95, 95, False, St 30), (97, 122, False, St 30), (126, 126,
      False, St 30), (94, 94, True, St 30), (123, 123, True, St 30), (125, 125, True, St 30)]"
  "state_edges http11_code 31 = [(48, 57, False, St 32), (65, 70, False, St 32), (97, 102, False, St
      32)]"
  "state_edges http11_code 32 = [(48, 57, False, St 30), (65, 70, False, St 30), (97, 102, False, St
      30)]"
  by (simp_all add: http11_code_def state_edges_append http11_state_nums) (simp_all add: http11_code_7_def)

lemma http11_edges_8:
  "state_edges http11_code 33 = [(32, 32, False, Tr 37), (33, 33, False, St 26), (35, 35, False, Tr
      39), (36, 36, False, St 26), (37, 37, False, St 27), (38, 46, False, St 26), (47, 47, False,
      St 34), (48, 59, False, St 26), (61, 61, False, St 26), (63, 63, False, Tr 42), (64, 90,
      False, St 26), (95, 95, False, St 26), (97, 122, False, St 26), (126, 126, False, St 26), (94,
      94, True, St 26), (123, 123, True, St 26), (125, 125, True, St 26)]"
  by (simp_all add: http11_code_def state_edges_append http11_state_nums) (simp_all add: http11_code_8_def)

lemma http11_edges_24:
  "state_edges http11_code 175 = [(32, 32, False, Tr 4), (48, 57, False, St 176), (65, 90, False, St
      176)]"
  "state_edges http11_code 176 = [(32, 32, False, Tr 4), (48, 57, False, St 177), (65, 90, False, St
      177)]"
  "state_edges http11_code 177 = [(32, 32, False, Tr 4), (48, 57, False, St 178), (65, 90, False, St
      178)]"
  "state_edges http11_code 178 = [(32, 32, False, Tr 4), (48, 57, False, St 179), (65, 90, False, St
      179)]"
  "state_edges http11_code 179 = [(32, 32, False, Tr 4), (48, 57, False, St 180), (65, 90, False, St
      180)]"
  "state_edges http11_code 180 = [(32, 32, False, Tr 4), (48, 57, False, St 181), (65, 90, False, St
      181)]"
  "state_edges http11_code 181 = [(32, 32, False, Tr 4), (48, 57, False, St 182), (65, 90, False, St
      182)]"
  "state_edges http11_code 182 = [(32, 32, False, Tr 4), (48, 57, False, St 183), (65, 90, False, St
      183)]"
  by (simp_all add: http11_code_def state_edges_append http11_state_nums) (simp_all add: http11_code_24_def)

lemma http11_edges_25:
  "state_edges http11_code 183 = [(32, 32, False, Tr 4), (48, 57, False, St 184), (65, 90, False, St
      184)]"
  "state_edges http11_code 184 = [(32, 32, False, Tr 4), (48, 57, False, St 185), (65, 90, False, St
      185)]"
  "state_edges http11_code 185 = [(32, 32, False, Tr 4), (48, 57, False, St 186), (65, 90, False, St
      186)]"
  "state_edges http11_code 186 = [(32, 32, False, Tr 4), (48, 57, False, St 187), (65, 90, False, St
      187)]"
  "state_edges http11_code 187 = [(32, 32, False, Tr 4), (48, 57, False, St 188), (65, 90, False, St
      188)]"
  "state_edges http11_code 188 = [(32, 32, False, Tr 4), (48, 57, False, St 189), (65, 90, False, St
      189)]"
  "state_edges http11_code 189 = [(32, 32, False, Tr 4), (48, 57, False, St 190), (65, 90, False, St
      190)]"
  "state_edges http11_code 190 = [(32, 32, False, Tr 4), (48, 57, False, St 191), (65, 90, False, St
      191)]"
  "state_edges http11_code 191 = [(32, 32, False, Tr 4), (48, 57, False, St 192), (65, 90, False, St
      192)]"
  "state_edges http11_code 192 = [(32, 32, False, Tr 4), (48, 57, False, St 193), (65, 90, False, St
      193)]"
  "state_edges http11_code 193 = [(32, 32, False, Tr 4)]"
  by (simp_all add: http11_code_def state_edges_append http11_state_nums) (simp_all add: http11_code_25_def)

lemma http11_targets_1:
  "trans_target http11_code 0 = Some ([Mark], 2)"
  "trans_target http11_code 4 = Some ([Request_method], 3)"
  "trans_target http11_code 6 = Some ([Mark, Request_path, Request_uri], 4)"
  "trans_target http11_code 37 = Some ([Request_path, Request_uri], 4)"
  "trans_target http11_code 43 = Some ([Mark, Fragment], 4)"
  "trans_target http11_code 46 = Some ([Fragment], 4)"
  "trans_target http11_code 53 = Some ([Start_query, Query_string, Request_uri], 4)"
  by (simp_all add: http11_code_def trans_target_append http11_trans_nums) (simp_all add: http11_code_1_def)

lemma http11_targets_2:
  "trans_target http11_code 13 = Some ([Mark], 5)"
  "trans_target http11_code 21 = Some ([Http_version], 13)"
  "trans_target http11_code 23 = Some ([Start_field], 14)"
  "trans_target http11_code 30 = Some ([Start_value, Write_value], 13)"
  "trans_target http11_code 33 = Some ([Write_value], 13)"
  "trans_target http11_code 57 = Some ([Query_string, Request_uri], 4)"
  by (simp_all add: http11_code_def trans_target_append http11_trans_nums) (simp_all add: http11_code_2_def)

lemma http11_targets_3:
  "trans_target http11_code 22 = Some ([Http_version], 17)"
  "trans_target http11_code 24 = Some ([Start_field, Done], 348)"
  "trans_target http11_code 27 = Some ([Write_field], 15)"
  "trans_target http11_code 28 = Some ([Start_value], 16)"
  "trans_target http11_code 29 = Some ([Start_value], 15)"
  "trans_target http11_code 31 = Some ([Start_value, Write_value], 17)"
  "trans_target http11_code 34 = Some ([Write_value], 17)"
  "trans_target http11_code 36 = Some ([Done], 348)"
  by (simp_all add: http11_code_def trans_target_append http11_trans_nums) (simp_all add: http11_code_3_def)

lemma http11_targets_4:
  "trans_target http11_code 7 = Some ([Mark], 19)"
  "trans_target http11_code 8 = Some ([Mark, Request_path, Request_uri], 20)"
  "trans_target http11_code 25 = Some ([Start_field], 18)"
  by (simp_all add: http11_code_def trans_target_append http11_trans_nums) (simp_all add: http11_code_4_def)

lemma http11_targets_5:
  "trans_target http11_code 39 = Some ([Request_path, Request_uri], 20)"
  "trans_target http11_code 44 = Some ([Mark], 21)"
  "trans_target http11_code 45 = Some ([Mark], 22)"
  "trans_target http11_code 55 = Some ([Start_query, Query_string, Request_uri], 20)"
  "trans_target http11_code 59 = Some ([Query_string, Request_uri], 20)"
  by (simp_all add: http11_code_def trans_target_append http11_trans_nums) (simp_all add: http11_code_5_def)

lemma http11_targets_6:
  "trans_target http11_code 9 = Some ([Mark], 24)"
  "trans_target http11_code 11 = Some ([Mark, Request_path], 29)"
  by (simp_all add: http11_code_def trans_target_append http11_trans_nums) (simp_all add: http11_code_6_def)

lemma http11_targets_7:
  "trans_target http11_code 10 = Some ([Mark], 33)"
  "trans_target http11_code 42 = Some ([Request_path], 29)"
  "trans_target http11_code 54 = Some ([Start_query], 30)"
  "trans_target http11_code 56 = Some ([Start_query], 31)"
  by (simp_all add: http11_code_def trans_target_append http11_trans_nums) (simp_all add: http11_code_7_def)

lemma http11_targets_23:
  "trans_target http11_code 12 = Some ([Mark], 173)"
  by (simp_all add: http11_code_def trans_target_append http11_trans_nums) (simp_all add: http11_code_23_def)

lemma http11_targets_25:
  "trans_target http11_code 2 = Some ([Mark], 194)"
  by (simp_all add: http11_code_def trans_target_append http11_trans_nums) (simp_all add: http11_code_25_def)

lemma http11_targets_26:
  "trans_target http11_code 3 = Some ([Mark], 198)"
  by (simp_all add: http11_code_def trans_target_append http11_trans_nums) (simp_all add: http11_code_26_def)

lemmas http11_table =
  http11_edges_1 http11_edges_2 http11_edges_3 http11_edges_4 http11_edges_5 http11_edges_6
  http11_edges_7 http11_edges_8 http11_edges_24 http11_edges_25 http11_targets_1 http11_targets_2
  http11_targets_3 http11_targets_4 http11_targets_5 http11_targets_6 http11_targets_7
  http11_targets_23 http11_targets_25 http11_targets_26

end
