(* ===== verification/Http_Message.thy ===== *)
theory Http_Message
  imports Ordered_Map
begin

text \<open>
  Model of \<^verbatim>\<open>src/src/http/http.h\<close> and \<^verbatim>\<open>http.cpp\<close>: methods and status codes, the request and
  response objects with their case insensitive maps, and the text they are sent as.
\<close>

section \<open>Methods and status codes\<close>

datatype HttpMethod =
    DELETE | GET | HEAD | POST | PUT | CONNECT | OPTIONS | TRACE | COPY | LOCK | MKCOL | MOVE |
    PROPFIND | PROPPATCH | SEARCH | UNLOCK | BIND | REBIND | UNBIND | ACL | REPORT |
    MKACTIVITY | CHECKOUT | MERGE | MSEARCH | NOTIFY | SUBSCRIBE | UNSUBSCRIBE | PATCH |
    PURGE | MKCALENDAR | LINK | UNLINK | SOURCE | HTTP_METHOD_INVALID

text \<open>\<^verbatim>\<open>HTTP_METHOD_MAP\<close>: the names in the order of their numbers.\<close>

definition HTTP_METHOD_MAP :: "(HttpMethod \<times> string) list" where
  "HTTP_METHOD_MAP =
    [(DELETE, ''DELETE''), (GET, ''GET''), (HEAD, ''HEAD''), (POST, ''POST''), (PUT, ''PUT''),
     (CONNECT, ''CONNECT''), (OPTIONS, ''OPTIONS''), (TRACE, ''TRACE''), (COPY, ''COPY''),
     (LOCK, ''LOCK''), (MKCOL, ''MKCOL''), (MOVE, ''MOVE''), (PROPFIND, ''PROPFIND''),
     (PROPPATCH, ''PROPPATCH''), (SEARCH, ''SEARCH''), (UNLOCK, ''UNLOCK''), (BIND, ''BIND''),
     (REBIND, ''REBIND''), (UNBIND, ''UNBIND''), (ACL, ''ACL''), (REPORT, ''REPORT''),
     (MKACTIVITY, ''MKACTIVITY''), (CHECKOUT, ''CHECKOUT''), (MERGE, ''MERGE''),
     (MSEARCH, ''M-SEARCH''), (NOTIFY, ''NOTIFY''), (SUBSCRIBE, ''SUBSCRIBE''),
     (UNSUBSCRIBE, ''UNSUBSCRIBE''), (PATCH, ''PATCH''), (PURGE, ''PURGE''),
     (MKCALENDAR, ''MKCALENDAR''), (LINK, ''LINK''), (UNLINK, ''UNLINK''), (SOURCE, ''SOURCE'')]"

text \<open>A status is the underlying integer of the enumeration; parsing can produce any value.\<close>

type_synonym HttpStatus = u32

definition HTTP_STATUS_MAP :: "(HttpStatus \<times> string) list" where
  "HTTP_STATUS_MAP =
    [(100, ''Continue''), (101, ''Switching Protocols''), (102, ''Processing''), (200, ''OK''),
     (201, ''Created''), (202, ''Accepted''), (203, ''Non-Authoritative Information''),
     (204, ''No Content''), (205, ''Reset Content''), (206, ''Partial Content''),
     (207, ''Multi-Status''), (208, ''Already Reported''), (226, ''IM Used''),
     (300, ''Multiple Choices''), (301, ''Moved Permanently''), (302, ''Found''),
     (303, ''See Other''), (304, ''Not Modified''), (305, ''Use Proxy''),
     (307, ''Temporary Redirect''), (308, ''Permanent Redirect''), (400, ''Bad Request''),
     (401, ''Unauthorized''), (402, ''Payment Required''), (403, ''Forbidden''),
     (404, ''Not Found''), (405, ''Method Not Allowed''), (406, ''Not Acceptable''),
     (407, ''Proxy Authentication Required''), (408, ''Request Timeout''), (409, ''Conflict''),
     (410, ''Gone''), (411, ''Length Required''), (412, ''Precondition Failed''),
     (413, ''Payload Too Large''), (414, ''URI Too Long''), (415, ''Unsupported Media Type''),
     (416, ''Range Not Satisfiable''), (417, ''Expectation Failed''),
     (421, ''Misdirected Request''), (422, ''Unprocessable Entity''), (423, ''Locked''),
     (424, ''Failed Dependency''), (426, ''Upgrade Required''),
     (428, ''Precondition Required''), (429, ''Too Many Requests''),
     (431, ''Request Header Fields Too Large''), (451, ''Unavailable For Legal Reasons''),
     (500, ''Internal Server Error''), (501, ''Not Implemented''), (502, ''Bad Gateway''),
     (503, ''Service Unavailable''), (504, ''Gateway Timeout''),
     (505, ''HTTP Version Not Supported''), (506, ''Variant Also Negotiates''),
     (507, ''Insufficient Storage''), (508, ''Loop Detected''), (510, ''Not Extended''),
     (511, ''Network Authentication Required'')]"

text \<open>
  In \<^verbatim>\<open>StringToHttpMethod\<close> the line after the macro's body ends in a backslash, so that the use of
  \<^verbatim>\<open>HTTP_METHOD_MAP(XX)\<close> belongs to the definition of \<^verbatim>\<open>XX\<close>: no comparison is compiled.
\<close>

definition StringToHttpMethod :: "string \<Rightarrow> HttpMethod" where
  "StringToHttpMethod n = HTTP_METHOD_INVALID"

text \<open>\<^verbatim>\<open>strncmp(#string, n, strlen(#string)) == 0\<close> for each entry in turn.\<close>

fun first_method :: "(HttpMethod \<times> string) list \<Rightarrow> string \<Rightarrow> HttpMethod" where
  "first_method [] n = HTTP_METHOD_INVALID"
| "first_method ((hm, s) # es) n = (if take (length s) n = s then hm else first_method es n)"

definition CharsToHttpMethod :: "string \<Rightarrow> HttpMethod" where
  "CharsToHttpMethod n = first_method HTTP_METHOD_MAP n"

definition s_method_string :: "string list" where
  "s_method_string = map snd HTTP_METHOD_MAP"

text \<open>\<^verbatim>\<open>(uint32_t)hm\<close>: the entries are numbered from 0, \<^verbatim>\<open>HTTP_METHOD_INVALID\<close> comes last.\<close>

definition method_num :: "HttpMethod \<Rightarrow> nat" where
  "method_num hm = length (takeWhile (\<lambda>e. fst e \<noteq> hm) HTTP_METHOD_MAP)"

definition HttpMethodToString :: "HttpMethod \<Rightarrow> string" where
  "HttpMethodToString hm =
     (let idx = method_num hm in
      if idx \<ge> length s_method_string then ''<unknow method>'' else s_method_string ! idx)"

definition HttpStatusToString :: "HttpStatus \<Rightarrow> string" where
  "HttpStatusToString hs =
     (case map_of HTTP_STATUS_MAP hs of Some msg \<Rightarrow> msg | None \<Rightarrow> ''<unknow status>'')"

section \<open>Lookup with conversion\<close>

type_synonym header_map = "(string \<times> string) list"

text \<open>
  \<open>lexical_cast\<close> stands for \<^verbatim>\<open>boost::lexical_cast<T>\<close>, \<open>None\<close> for the exception. The first
  result of \<open>checkGetAs\<close> is the return value, the second the variable behind \<^verbatim>\<open>val\<close>.
\<close>

definition checkGetAs :: "(string \<Rightarrow> 'a option) \<Rightarrow> header_map \<Rightarrow> string \<Rightarrow> 'a \<Rightarrow> 'a \<Rightarrow> bool \<times> 'a" where
  "checkGetAs lexical_cast m key val def =
     (case map_find CaseInsensitiveLess key m of
        None \<Rightarrow> (False, def)
      | Some s \<Rightarrow> (case lexical_cast s of Some v \<Rightarrow> (True, v) | None \<Rightarrow> (False, val)))"

definition getAs :: "(string \<Rightarrow> 'a option) \<Rightarrow> header_map \<Rightarrow> string \<Rightarrow> 'a \<Rightarrow> 'a" where
  "getAs lexical_cast m key def =
     (case map_find CaseInsensitiveLess key m of
        None \<Rightarrow> def
      | Some s \<Rightarrow> (case lexical_cast s of Some v \<Rightarrow> v | None \<Rightarrow> def))"

section \<open>HttpRequest\<close>

record HttpRequest =
  rq_method :: HttpMethod
  rq_status :: HttpStatus
  rq_version :: u8
  rq_close :: bool
  rq_path :: string
  rq_query :: string
  rq_fragment :: string
  rq_body :: string
  rq_headers :: header_map
  rq_params :: header_map
  rq_cookies :: header_map

text \<open>The constructor leaves \<^verbatim>\<open>m_status\<close> uninitialised: \<open>garbage\<close> is what the memory held.\<close>

definition HttpRequest_new :: "HttpStatus \<Rightarrow> u8 \<Rightarrow> bool \<Rightarrow> HttpRequest" where
  "HttpRequest_new garbage version close =
     \<lparr>rq_method = GET, rq_status = garbage, rq_version = version, rq_close = close, rq_path = ''/'',
      rq_query = '''', rq_fragment = '''', rq_body = '''', rq_headers = [], rq_params = [], rq_cookies = []\<rparr>"

definition find_or :: "header_map \<Rightarrow> string \<Rightarrow> string \<Rightarrow> string" where
  "find_or m key def = (case map_find CaseInsensitiveLess key m of None \<Rightarrow> def | Some v \<Rightarrow> v)"

definition HttpRequest_getHeader :: "HttpRequest \<Rightarrow> string \<Rightarrow> string \<Rightarrow> string" where
  "HttpRequest_getHeader r key def = find_or (rq_headers r) key def"

definition HttpRequest_getParma :: "HttpRequest \<Rightarrow> string \<Rightarrow> string \<Rightarrow> string" where
  "HttpRequest_getParma r key def = find_or (rq_params r) key def"

definition HttpRequest_getCookie :: "HttpRequest \<Rightarrow> string \<Rightarrow> string \<Rightarrow> string" where
  "HttpRequest_getCookie r key def = find_or (rq_cookies r) key def"

definition HttpRequest_setHeader :: "string \<Rightarrow> string \<Rightarrow> HttpRequest \<Rightarrow> HttpRequest" where
  "HttpRequest_setHeader key val r = r\<lparr>rq_headers := map_put CaseInsensitiveLess key val (rq_headers r)\<rparr>"

definition HttpRequest_setParam :: "string \<Rightarrow> string \<Rightarrow> HttpRequest \<Rightarrow> HttpRequest" where
  "HttpRequest_setParam key val r = r\<lparr>rq_params := map_put CaseInsensitiveLess key val (rq_params r)\<rparr>"

definition HttpRequest_setCookie :: "string \<Rightarrow> string \<Rightarrow> HttpRequest \<Rightarrow> HttpRequest" where
  "HttpRequest_setCookie key val r = r\<lparr>rq_cookies := map_put CaseInsensitiveLess key val (rq_cookies r)\<rparr>"

definition HttpRequest_delHeader :: "string \<Rightarrow> HttpRequest \<Rightarrow> HttpRequest" where
  "HttpRequest_delHeader key r = r\<lparr>rq_headers := map_erase CaseInsensitiveLess key (rq_headers r)\<rparr>"

definition HttpRequest_delParam :: "string \<Rightarrow> HttpRequest \<Rightarrow> HttpRequest" where
  "HttpRequest_delParam key r = r\<lparr>rq_params := map_erase CaseInsensitiveLess key (rq_params r)\<rparr>"

definition HttpRequest_delCookie :: "string \<Rightarrow> HttpRequest \<Rightarrow> HttpRequest" where
  "HttpRequest_delCookie key r = r\<lparr>rq_cookies := map_erase CaseInsensitiveLess key (rq_cookies r)\<rparr>"

datatype http_error = Http_null

text \<open>
  \<^verbatim>\<open>hasHeader(key, val)\<close>: \<open>out\<close> tells whether a pointer was passed. The pointer is written through
  whenever the key is found, also when it is the default null pointer. The result is the return
  value and the string stored behind the pointer, if any.
\<close>

definition has_entry :: "header_map \<Rightarrow> string \<Rightarrow> bool \<Rightarrow> http_error + (bool \<times> string option)" where
  "has_entry m key out =
     (case map_find CaseInsensitiveLess key m of
        None \<Rightarrow> Inr (False, None)
      | Some v \<Rightarrow> if out then Inr (True, Some v) else Inl Http_null)"

definition HttpRequest_hasHeader :: "HttpRequest \<Rightarrow> string \<Rightarrow> bool \<Rightarrow> http_error + (bool \<times> string option)" where
  "HttpRequest_hasHeader r key out = has_entry (rq_headers r) key out"

definition HttpRequest_hasParam :: "HttpRequest \<Rightarrow> string \<Rightarrow> bool \<Rightarrow> http_error + (bool \<times> string option)" where
  "HttpRequest_hasParam r key out = has_entry (rq_params r) key out"

definition HttpRequest_hasCookie :: "HttpRequest \<Rightarrow> string \<Rightarrow> bool \<Rightarrow> http_error + (bool \<times> string option)" where
  "HttpRequest_hasCookie r key out = has_entry (rq_cookies r) key out"

text \<open>The conversions for parameters and cookies look into the headers, as the code does.\<close>

definition HttpRequest_getHeaderAs :: "(string \<Rightarrow> 'a option) \<Rightarrow> HttpRequest \<Rightarrow> string \<Rightarrow> 'a \<Rightarrow> 'a" where
  "HttpRequest_getHeaderAs cast r key def = getAs cast (rq_headers r) key def"

definition HttpRequest_getParamAs :: "(string \<Rightarrow> 'a option) \<Rightarrow> HttpRequest \<Rightarrow> string \<Rightarrow> 'a \<Rightarrow> 'a" where
  "HttpRequest_getParamAs cast r key def = getAs cast (rq_headers r) key def"

definition HttpRequest_getCookieAs :: "(string \<Rightarrow> 'a option) \<Rightarrow> HttpRequest \<Rightarrow> string \<Rightarrow> 'a \<Rightarrow> 'a" where
  "HttpRequest_getCookieAs cast r key def = getAs cast (rq_headers r) key def"

definition HttpRequest_checkHeaderAs :: "(string \<Rightarrow> 'a option) \<Rightarrow> HttpRequest \<Rightarrow> string \<Rightarrow> 'a \<Rightarrow> 'a \<Rightarrow> bool \<times> 'a" where
  "HttpRequest_checkHeaderAs cast r key val def = checkGetAs cast (rq_headers r) key val def"

definition HttpRequest_checkParamAs :: "(string \<Rightarrow> 'a option) \<Rightarrow> HttpRequest \<Rightarrow> string \<Rightarrow> 'a \<Rightarrow> 'a \<Rightarrow> bool \<times> 'a" where
  "HttpRequest_checkParamAs cast r key val def = checkGetAs cast (rq_headers r) key val def"

definition HttpRequest_checkCookieAs :: "(string \<Rightarrow> 'a option) \<Rightarrow> HttpRequest \<Rightarrow> string \<Rightarrow> 'a \<Rightarrow> 'a \<Rightarrow> bool \<times> 'a" where
  "HttpRequest_checkCookieAs cast r key val def = checkGetAs cast (rq_headers r) key val def"

definition crlf :: string where
  "crlf = [CHR 0x0D, CHR 0x0A]"

definition dump_version :: "u8 \<Rightarrow> string" where
  "dump_version v = ''HTTP/'' @ print_dec (drop_bit 4 v) @ ''.'' @ print_dec (v AND 0x0F)"

definition is_connection :: "string \<Rightarrow> bool" where
  "is_connection key \<longleftrightarrow> strcasecmp (c_str key) ''connection'' = 0"

definition dump_headers :: "header_map \<Rightarrow> string" where
  "dump_headers m =
     concat (map (\<lambda>(k, v). if is_connection k then '''' else k @ '': '' @ v @ crlf) m)"

definition dump_close :: "bool \<Rightarrow> string" where
  "dump_close close = ''connection: '' @ (if close then ''close'' else ''keep-alive'') @ crlf"

definition dump_body :: "string \<Rightarrow> string" where
  "dump_body body =
     (if body \<noteq> '''' then ''content-length: '' @ print_nat 10 (length body) @ crlf @ crlf @ body else crlf)"

definition HttpRequest_dump :: "HttpRequest \<Rightarrow> string" where
  "HttpRequest_dump r =
     HttpMethodToString (rq_method r) @ '' '' @ rq_path r @ (if rq_query r = '''' then '''' else ''?'')
     @ rq_query r @ (if rq_fragment r = '''' then '''' else ''#'') @ rq_fragment r
     @ '' '' @ dump_version (rq_version r) @ crlf
     @ dump_close (rq_close r) @ dump_headers (rq_headers r) @ dump_body (rq_body r)"

section \<open>HttpResponse\<close>

record HttpResponse =
  rs_status :: HttpStatus
  rs_version :: u8
  rs_close :: bool
  rs_body :: string
  rs_reason :: string
  rs_headers :: header_map

definition HttpResponse_new :: "u8 \<Rightarrow> bool \<Rightarrow> HttpResponse" where
  "HttpResponse_new version close =
     \<lparr>rs_status = 200, rs_version = version, rs_close = close, rs_body = '''', rs_reason = '''', rs_headers = []\<rparr>"

definition HttpResponse_getHeader :: "HttpResponse \<Rightarrow> string \<Rightarrow> string \<Rightarrow> string" where
  "HttpResponse_getHeader r key def = find_or (rs_headers r) key def"

definition HttpResponse_setHeader :: "string \<Rightarrow> string \<Rightarrow> HttpResponse \<Rightarrow> HttpResponse" where
  "HttpResponse_setHeader key val r = r\<lparr>rs_headers := map_put CaseInsensitiveLess key val (rs_headers r)\<rparr>"

definition HttpResponse_delHeader :: "string \<Rightarrow> HttpResponse \<Rightarrow> HttpResponse" where
  "HttpResponse_delHeader key r = r\<lparr>rs_headers := map_erase CaseInsensitiveLess key (rs_headers r)\<rparr>"

definition HttpResponse_getHeaderAs :: "(string \<Rightarrow> 'a option) \<Rightarrow> HttpResponse \<Rightarrow> string \<Rightarrow> 'a \<Rightarrow> 'a" where
  "HttpResponse_getHeaderAs cast r key def = getAs cast (rs_headers r) key def"

definition HttpResponse_dump :: "HttpResponse \<Rightarrow> string" where
  "HttpResponse_dump r =
     dump_version (rs_version r) @ '' '' @ print_dec (rs_status r) @ '' ''
     @ (if rs_reason r = '''' then HttpStatusToString (rs_status r) else rs_reason r) @ crlf
     @ dump_headers (rs_headers r) @ dump_close (rs_close r) @ dump_body (rs_body r)"

section \<open>Methods\<close>

text \<open>
  The name of a method, followed by anything, is recognised as that method: no name is a prefix of
  an earlier one. The other direction of the conversion is missing: \<^verbatim>\<open>StringToHttpMethod\<close> answers
  \<^verbatim>\<open>HTTP_METHOD_INVALID\<close> for every string.
\<close>

theorem method_roundtrip:
  "CharsToHttpMethod (HttpMethodToString hm @ rest) = hm \<and> StringToHttpMethod n = HTTP_METHOD_INVALID"
  by (cases hm) (simp_all add: CharsToHttpMethod_def HttpMethodToString_def method_num_def s_method_string_def
      HTTP_METHOD_MAP_def StringToHttpMethod_def)

section \<open>Header maps\<close>

definition maps_ok :: "HttpRequest \<Rightarrow> bool" where
  "maps_ok r \<longleftrightarrow> map_ok CaseInsensitiveLess (rq_headers r) \<and> map_ok CaseInsensitiveLess (rq_params r)
     \<and> map_ok CaseInsensitiveLess (rq_cookies r)"

lemma maps_ok_new: "maps_ok (HttpRequest_new g v c)"
  by (simp add: maps_ok_def HttpRequest_new_def map_ok_def)

lemma maps_ok_updates:
  assumes "maps_ok r"
  shows "maps_ok (HttpRequest_setHeader k v r)" and "maps_ok (HttpRequest_setParam k v r)"
    and "maps_ok (HttpRequest_setCookie k v r)" and "maps_ok (HttpRequest_delHeader k r)"
    and "maps_ok (HttpRequest_delParam k r)" and "maps_ok (HttpRequest_delCookie k r)"
  using assms by (simp_all add: maps_ok_def headers.put_ok headers.erase_ok HttpRequest_setHeader_def
      HttpRequest_setParam_def HttpRequest_setCookie_def HttpRequest_delHeader_def HttpRequest_delParam_def
      HttpRequest_delCookie_def)

text \<open>
  (C33) Headers are case insensitive: a header set under one spelling is found under every spelling with
  the same lower case form, is gone after a deletion under any such spelling, and no other header,
  parameter or cookie changes; the maps stay sorted and free of duplicates.
\<close>

theorem header_laws:
  assumes "maps_ok r"
  shows "HttpRequest_getHeader (HttpRequest_setHeader k v r) k' def
      = (if casefold k' = casefold k then v else HttpRequest_getHeader r k' def)
    \<and> HttpRequest_getHeader (HttpRequest_delHeader k r) k' def
      = (if casefold k' = casefold k then def else HttpRequest_getHeader r k' def)
    \<and> HttpRequest_getCookie (HttpRequest_setHeader k v r) k' def = HttpRequest_getCookie r k' def
    \<and> HttpRequest_getParma (HttpRequest_setHeader k v r) k' def = HttpRequest_getParma r k' def
    \<and> maps_ok (HttpRequest_setHeader k v r) \<and> maps_ok (HttpRequest_delHeader k r)"
  using assms maps_ok_updates [OF assms]
  by (auto simp: maps_ok_def HttpRequest_getHeader_def HttpRequest_setHeader_def HttpRequest_delHeader_def
      HttpRequest_getCookie_def HttpRequest_getParma_def find_or_def headers.find_put headers.find_erase)

theorem header_laws_witness:
  "HttpRequest_getHeader (HttpRequest_setHeader ''Content-Length'' ''5'' (HttpRequest_new 0 0x11 True))
     ''content-length'' ''0'' = ''5''"
  using header_laws [OF maps_ok_new [of 0 "0x11" True], where k = "''Content-Length''" and v = "''5''"
      and k' = "''content-length''" and def = "''0''"]
  by (simp add: casefold_def c_str_def to_lower_def char_of_def bit_0 bit_Suc)

section \<open>Message texts\<close>

text \<open>
  The reader's side of a message, as the protocol defines it: lines end in carriage return and line
  feed, an empty line ends the head, and the rest is the body.
\<close>

fun split_line :: "string \<Rightarrow> (string \<times> string) option" where
  "split_line [] = None"
| "split_line [c] = None"
| "split_line (c # d # s) =
     (if c = CHR 0x0D \<and> d = CHR 0x0A then Some ('''', s)
      else map_option (\<lambda>(l, r). (c # l, r)) (split_line (d # s)))"

lemma split_line_length: "split_line s = Some (l, r) \<Longrightarrow> length r < length s"
  by (induction s arbitrary: l rule: split_line.induct) (auto split: if_splits)

function head_lines :: "string \<Rightarrow> (string list \<times> string) option" where
  "head_lines s =
     (case split_line s of
        None \<Rightarrow> None
      | Some (l, r) \<Rightarrow> if l = '''' then Some ([], r) else map_option (\<lambda>(ls, b). (l # ls, b)) (head_lines r))"
  by pat_completeness auto
termination
  by (relation "measure length") (auto dest: split_line_length)

declare head_lines.simps [simp del]

definition is_line :: "string \<Rightarrow> bool" where
  "is_line l \<longleftrightarrow> l \<noteq> '''' \<and> CHR 0x0D \<notin> set l"

lemma split_line_crlf: "CHR 0x0D \<notin> set l \<Longrightarrow> split_line (l @ crlf @ r) = Some (l, r)"
proof (induction l)
  case (Cons c l)
  then show ?case by (cases "l @ crlf @ r") (auto simp: crlf_def)
qed (simp add: crlf_def)

lemma head_lines_line: "is_line l \<Longrightarrow> head_lines (l @ crlf @ r) = map_option (\<lambda>(ls, b). (l # ls, b)) (head_lines r)"
  by (subst head_lines.simps) (simp add: is_line_def split_line_crlf)

lemma head_lines_end: "head_lines (crlf @ r) = Some ([], r)"
  using split_line_crlf [of "''''" r] by (subst head_lines.simps) simp

definition header_lines :: "header_map \<Rightarrow> string list" where
  "header_lines m = map (\<lambda>(k, v). k @ '': '' @ v) (filter (\<lambda>(k, v). \<not> is_connection k) m)"

definition body_lines :: "string \<Rightarrow> string list" where
  "body_lines body = (if body = '''' then [] else [''content-length: '' @ print_nat 10 (length body)])"

definition close_line :: "bool \<Rightarrow> string" where
  "close_line close = ''connection: '' @ (if close then ''close'' else ''keep-alive'')"

text \<open>Headers that fit on a line each.\<close>

definition plain_headers :: "header_map \<Rightarrow> bool" where
  "plain_headers m \<longleftrightarrow> list_all (\<lambda>(k, v). CHR 0x0D \<notin> set k \<and> CHR 0x0D \<notin> set v) m"

lemma head_lines_headers:
  "plain_headers m \<Longrightarrow> head_lines (dump_headers m @ r) = map_option (\<lambda>(ls, b). (header_lines m @ ls, b)) (head_lines r)"
proof (induction m)
  case (Cons e m)
  obtain k v where e: "e = (k, v)" by fastforce
  then have "is_line (k @ '': '' @ v)" using Cons.prems by (simp add: is_line_def plain_headers_def)
  from head_lines_line [OF this, of "dump_headers m @ r"] show ?case
    using Cons by (cases "head_lines r") (auto simp: e dump_headers_def header_lines_def plain_headers_def)
qed (cases "head_lines r"; auto simp: dump_headers_def header_lines_def)

lemma no_cr_number: "CHR 0x0D \<notin> set (print_nat 10 n)"
proof
  assume "CHR 0x0D \<in> set (print_nat 10 n)"
  then obtain d where "d < 10" "CHR 0x0D = digit_char d" using set_print_nat [of 10 n] by auto
  then show False using digit_char_ne(1) [of d] by simp
qed

lemma head_lines_close: "head_lines (dump_close c @ r) = map_option (\<lambda>(ls, b). (close_line c # ls, b)) (head_lines r)"
  using head_lines_line [of "close_line c" r] by (simp add: dump_close_def close_line_def is_line_def split: if_splits)

lemma head_lines_body: "head_lines (dump_body body) = Some (body_lines body, body)"
proof (cases "body = ''''")
  case True
  then show ?thesis using head_lines_end [of "''''"] by (simp add: dump_body_def body_lines_def)
next
  case False
  let ?l = "''content-length: '' @ print_nat 10 (length body)"
  have "is_line ?l" using no_cr_number by (simp add: is_line_def)
  from head_lines_line [OF this, of "crlf @ body"] show ?thesis
    using False by (simp add: dump_body_def body_lines_def head_lines_end)
qed

lemma no_cr_version: "CHR 0x0D \<notin> set (dump_version v)"
  using no_cr_number by (simp add: dump_version_def print_dec_def)

definition request_line :: "HttpRequest \<Rightarrow> string" where
  "request_line r = HttpMethodToString (rq_method r) @ '' '' @ rq_path r
     @ (if rq_query r = '''' then '''' else ''?'' @ rq_query r)
     @ (if rq_fragment r = '''' then '''' else ''#'' @ rq_fragment r)
     @ '' '' @ dump_version (rq_version r)"

definition status_line :: "HttpResponse \<Rightarrow> string" where
  "status_line r = dump_version (rs_version r) @ '' '' @ print_dec (rs_status r) @ '' ''
     @ (if rs_reason r = '''' then HttpStatusToString (rs_status r) else rs_reason r)"

text \<open>
  A request or response is sent so that the receiver finds its parts: when no start line, header name or
  value contains a carriage return, reading the text of a message line by line gives the start line, every
  header except \<^verbatim>\<open>connection\<close> once and in the order of the map, one \<^verbatim>\<open>connection\<close> line with the
  \<^verbatim>\<open>m_close\<close> flag, the length of the body when there is one, and then exactly the body, whatever bytes it
  holds.
\<close>

theorem dump_framing:
  assumes "plain_headers (rq_headers rq)" and "CHR 0x0D \<notin> set (request_line rq)"
    and "plain_headers (rs_headers rs)" and "CHR 0x0D \<notin> set (status_line rs)"
  shows "head_lines (HttpRequest_dump rq)
      = Some (request_line rq # close_line (rq_close rq) # header_lines (rq_headers rq) @ body_lines (rq_body rq),
              rq_body rq)
    \<and> head_lines (HttpResponse_dump rs)
      = Some (status_line rs # header_lines (rs_headers rs) @ close_line (rs_close rs) # body_lines (rs_body rs),
              rs_body rs)"
proof
  have "is_line (request_line rq)" using assms(2) by (simp add: is_line_def request_line_def dump_version_def)
  from head_lines_line [OF this] show "head_lines (HttpRequest_dump rq)
      = Some (request_line rq # close_line (rq_close rq) # header_lines (rq_headers rq) @ body_lines (rq_body rq),
              rq_body rq)"
    using assms(1) by (auto simp: HttpRequest_dump_def request_line_def head_lines_close head_lines_headers head_lines_body)
  have "is_line (status_line rs)" using assms(4) by (simp add: is_line_def status_line_def dump_version_def)
  from head_lines_line [OF this] show "head_lines (HttpResponse_dump rs)
      = Some (status_line rs # header_lines (rs_headers rs) @ close_line (rs_close rs) # body_lines (rs_body rs),
              rs_body rs)"
    using assms(3) by (simp add: HttpResponse_dump_def status_line_def head_lines_close head_lines_headers head_lines_body)
qed

theorem dump_framing_witness:
  "head_lines (HttpResponse_dump (HttpResponse_new 0x11 True\<lparr>rs_reason := ''fine'', rs_body := crlf @ crlf\<rparr>))
    = Some ([status_line (HttpResponse_new 0x11 True\<lparr>rs_reason := ''fine'', rs_body := crlf @ crlf\<rparr>),
             ''connection: close'', ''content-length: 4''], crlf @ crlf)"
proof -
  let ?rs = "HttpResponse_new 0x11 True\<lparr>rs_reason := ''fine'', rs_body := crlf @ crlf\<rparr>"
  have "CHR 0x0D \<notin> set (status_line ?rs)" "CHR 0x0D \<notin> set (request_line (HttpRequest_new 0 0x11 True))"
    using no_cr_version no_cr_number
    by (simp_all add: status_line_def request_line_def HttpResponse_new_def HttpRequest_new_def print_dec_def
        HttpMethodToString_def method_num_def s_method_string_def HTTP_METHOD_MAP_def)
  moreover have "plain_headers (rs_headers ?rs)" "plain_headers (rq_headers (HttpRequest_new 0 0x11 True))"
    by (simp_all add: plain_headers_def HttpResponse_new_def HttpRequest_new_def)
  ultimately have "head_lines (HttpResponse_dump ?rs)
      = Some (status_line ?rs # header_lines (rs_headers ?rs) @ close_line (rs_close ?rs) # body_lines (rs_body ?rs),
              rs_body ?rs)"
    using dump_framing by blast
  moreover have "print_nat 10 (Suc (Suc (Suc (Suc 0)))) = ''4''"
    by (simp add: print_nat.simps digit_char_def char_of_def bit_0 bit_Suc)
  ultimately show ?thesis
    by (simp add: HttpResponse_new_def header_lines_def close_line_def body_lines_def crlf_def)
qed

end
