(* ===== verification/Http_Parser.thy ===== *)
theory Http_Parser
  imports Http11_Machine Http_Message
begin

text \<open>
  The request parser around the generated machine: \<^verbatim>\<open>http_parser_init\<close>, \<^verbatim>\<open>http_parser_execute\<close> and
  \<^verbatim>\<open>http_parser_finish\<close> of \<^verbatim>\<open>src/src/http/http11_parser.rl.cpp\<close>, and the class \<^verbatim>\<open>HttpRequestParser\<close> with
  its callbacks (\<^verbatim>\<open>src/src/http/http_parser.cpp\<close>). The positions that the actions of the machine store
  and use are offsets into the buffer of the current call.
\<close>

section \<open>Parser objects\<close>

record http_parser =
  hp_cs :: nat
  hp_body_start :: nat
  hp_content_len :: nat
  hp_nread :: nat
  hp_mark :: nat
  hp_field_start :: nat
  hp_field_len :: nat
  hp_query_start :: nat
  hp_xml_sent :: bool
  hp_json_sent :: bool
  hp_uri_relaxed :: bool

record HttpRequestParser =
  rp_parser :: http_parser
  rp_data :: HttpRequest
  rp_error :: int

text \<open>\<^verbatim>\<open>query_start\<close> and \<^verbatim>\<open>uri_relaxed\<close> keep what the memory held.\<close>

definition http_parser_init :: "http_parser \<Rightarrow> http_parser" where
  "http_parser_init h = h\<lparr>hp_cs := http_parser_start, hp_body_start := 0, hp_content_len := 0, hp_mark := 0,
     hp_nread := 0, hp_field_len := 0, hp_field_start := 0, hp_xml_sent := False, hp_json_sent := False\<rparr>"

definition http_parser_has_error :: "http_parser \<Rightarrow> bool" where
  "http_parser_has_error h \<longleftrightarrow> hp_cs h = http_parser_error"

definition http_parser_is_finished :: "http_parser \<Rightarrow> bool" where
  "http_parser_is_finished h \<longleftrightarrow> hp_cs h \<ge> http_parser_first_final"

definition http_parser_finish :: "http_parser \<Rightarrow> int" where
  "http_parser_finish h = (if http_parser_has_error h then - 1 else if http_parser_is_finished h then 1 else 0)"

section \<open>Callbacks\<close>

text \<open>A string of a negative length (as \<^verbatim>\<open>size_t\<close> it is huge) throws \<^verbatim>\<open>length_error\<close>; assertions abort.\<close>

datatype parse_error = Parse_length | Parse_assert

text \<open>\<^verbatim>\<open>std::string(PTR_TO(AT), LEN(AT, fpc))\<close>\<close>

definition text_at :: "string \<Rightarrow> nat \<Rightarrow> nat \<Rightarrow> parse_error + string" where
  "text_at buffer start fpc = (if start \<le> fpc then Inr (segment start (fpc - start) buffer) else Inl Parse_length)"

definition on_request_method :: "string \<Rightarrow> HttpRequestParser \<Rightarrow> HttpRequestParser" where
  "on_request_method at P =
     (let hm = CharsToHttpMethod at in
      if hm = HTTP_METHOD_INVALID then P\<lparr>rp_error := 1000\<rparr> else P\<lparr>rp_data := rp_data P\<lparr>rq_method := hm\<rparr>\<rparr>)"

definition on_request_fragment :: "string \<Rightarrow> HttpRequestParser \<Rightarrow> HttpRequestParser" where
  "on_request_fragment s P = P\<lparr>rp_data := rp_data P\<lparr>rq_fragment := s\<rparr>\<rparr>"

definition on_request_path :: "string \<Rightarrow> HttpRequestParser \<Rightarrow> HttpRequestParser" where
  "on_request_path s P = P\<lparr>rp_data := rp_data P\<lparr>rq_path := s\<rparr>\<rparr>"

definition on_request_query :: "string \<Rightarrow> HttpRequestParser \<Rightarrow> HttpRequestParser" where
  "on_request_query s P = P\<lparr>rp_data := rp_data P\<lparr>rq_query := s\<rparr>\<rparr>"

text \<open>
  \<^verbatim>\<open>strncmp(at, "HTTP/1.1", length) == 0\<close> for the \<open>length\<close> characters \<open>s\<close> at \<^verbatim>\<open>at\<close>: they agree as far
  as the shorter of \<open>length\<close> and the literal with its terminating zero goes.
\<close>

definition strncmp_eq :: "string \<Rightarrow> string \<Rightarrow> bool" where
  "strncmp_eq s lit \<longleftrightarrow> take (length lit + 1) s = take (length s) (lit @ [CHR 0x00])"

definition on_request_version :: "string \<Rightarrow> HttpRequestParser \<Rightarrow> HttpRequestParser" where
  "on_request_version s P =
     (if strncmp_eq s ''HTTP/1.1'' then P\<lparr>rp_data := rp_data P\<lparr>rq_version := 0x11\<rparr>\<rparr>
      else if strncmp_eq s ''HTTP/1.0'' then P\<lparr>rp_data := rp_data P\<lparr>rq_version := 0x10\<rparr>\<rparr>
      else P\<lparr>rp_error := 1001\<rparr>)"

definition on_request_http_field :: "string \<Rightarrow> string \<Rightarrow> HttpRequestParser \<Rightarrow> HttpRequestParser" where
  "on_request_http_field field val P =
     (if length field = 0 then P else P\<lparr>rp_data := HttpRequest_setHeader field val (rp_data P)\<rparr>)"

section \<open>Actions\<close>

text \<open>
  One action at offset \<open>fpc\<close> of the buffer. \<^verbatim>\<open>on_request_uri\<close> and \<^verbatim>\<open>on_request_header_done\<close> are empty. The
  method callback is given the pointer only: it compares the names with what follows.
\<close>

abbreviation set_parser :: "(http_parser \<Rightarrow> http_parser) \<Rightarrow> HttpRequestParser \<Rightarrow> HttpRequestParser" where
  "set_parser f P \<equiv> P\<lparr>rp_parser := f (rp_parser P)\<rparr>"

fun http_act :: "string \<Rightarrow> http_action \<Rightarrow> nat \<Rightarrow> HttpRequestParser \<Rightarrow> parse_error + HttpRequestParser" where
  "http_act buffer Mark fpc P = Inr (set_parser (hp_mark_update (\<lambda>_. fpc)) P)"
| "http_act buffer Start_field fpc P = Inr (set_parser (hp_field_start_update (\<lambda>_. fpc)) P)"
| "http_act buffer Write_field fpc P =
     Inr (set_parser (hp_field_len_update (\<lambda>_. fpc - hp_field_start (rp_parser P))) P)"
| "http_act buffer Start_value fpc P = Inr (set_parser (hp_mark_update (\<lambda>_. fpc)) P)"
| "http_act buffer Write_value fpc P =
     rbind (text_at buffer (hp_mark (rp_parser P)) fpc) (\<lambda>val.
       Inr (on_request_http_field (segment (hp_field_start (rp_parser P)) (hp_field_len (rp_parser P)) buffer) val P))"
| "http_act buffer Request_method fpc P = Inr (on_request_method (drop (hp_mark (rp_parser P)) buffer) P)"
| "http_act buffer Request_uri fpc P = Inr P"
| "http_act buffer Fragment fpc P =
     rbind (text_at buffer (hp_mark (rp_parser P)) fpc) (\<lambda>s. Inr (on_request_fragment s P))"
| "http_act buffer Start_query fpc P = Inr (set_parser (hp_query_start_update (\<lambda>_. fpc)) P)"
| "http_act buffer Query_string fpc P =
     rbind (text_at buffer (hp_query_start (rp_parser P)) fpc) (\<lambda>s. Inr (on_request_query s P))"
| "http_act buffer Http_version fpc P =
     rbind (text_at buffer (hp_mark (rp_parser P)) fpc) (\<lambda>s. Inr (on_request_version s P))"
| "http_act buffer Request_path fpc P =
     rbind (text_at buffer (hp_mark (rp_parser P)) fpc) (\<lambda>s. Inr (on_request_path s P))"
| "http_act buffer Done fpc P =
     (if hp_xml_sent (rp_parser P) \<or> hp_json_sent (rp_parser P)
      then Inr (set_parser (\<lambda>h. h\<lparr>hp_body_start := hp_mark h, hp_content_len := fpc - hp_mark h + 1\<rparr>) P)
      else Inr (set_parser (hp_body_start_update (\<lambda>_. fpc + 1)) P))"
| "http_act buffer Xml fpc P = Inr (set_parser (hp_xml_sent_update (\<lambda>_. True)) P)"
| "http_act buffer Json fpc P = Inr (set_parser (hp_json_sent_update (\<lambda>_. True)) P)"

abbreviation http_acts ::
    "string \<Rightarrow> (http_action \<times> nat) list \<Rightarrow> HttpRequestParser \<Rightarrow> parse_error + HttpRequestParser" where
  "http_acts buffer \<equiv> run_acts (http_act buffer)"

definition http_fbreak :: "http_action \<Rightarrow> bool" where
  "http_fbreak a \<longleftrightarrow> a = Done"

section \<open>Execution\<close>

text \<open>
  \<^verbatim>\<open>http_parser_execute(parser, buffer, len, 0)\<close> with \<open>len = length buffer\<close>: the number of bytes read.
  The assertions before and behind the machine are kept. The one on the distance of the pointers narrows
  the length to \<^verbatim>\<open>int\<close>, so that it fails on a buffer of \<open>2 ^ 31\<close> bytes or more.
\<close>

definition same_distance :: "nat \<Rightarrow> bool" where
  "same_distance len \<longleftrightarrow> int len = sint (of_nat len :: u32)"

lemma same_distance_iff: "same_distance len \<longleftrightarrow> len < 2 ^ 31"
proof
  assume "same_distance len"
  then show "len < 2 ^ 31" using sint_lt [of "of_nat len :: u32"] by (simp add: same_distance_def)
next
  assume "len < 2 ^ 31"
  then show "same_distance len" using int32_id [of "int len"] by (simp add: same_distance_def int32_def)
qed

definition http_parser_execute :: "string \<Rightarrow> HttpRequestParser \<Rightarrow> parse_error + (nat \<times> HttpRequestParser)" where
  "http_parser_execute buffer P =
     (if buffer = [] then Inr (0, P)
      else if \<not> same_distance (length buffer) then Inl Parse_assert
      else
        let P0 = set_parser (\<lambda>h. h\<lparr>hp_nread := 0, hp_mark := 0, hp_field_len := 0, hp_field_start := 0\<rparr>) P;
            (evs, cs, p) = code_run (http11_step (hp_uri_relaxed (rp_parser P))) http_fbreak
                             (hp_cs (rp_parser P)) 0 buffer
        in rbind (http_acts buffer evs P0) (\<lambda>P1.
          let h = rp_parser P1;
              h1 = (if \<not> http_parser_has_error h then h\<lparr>hp_cs := cs\<rparr> else h)\<lparr>hp_nread := p\<rparr>
          in if p \<le> length buffer \<and> hp_body_start h1 \<le> length buffer \<and> hp_mark h1 < length buffer
                \<and> hp_field_len h1 \<le> length buffer \<and> hp_field_start h1 < length buffer
             then Inr (p, P1\<lparr>rp_parser := h1\<rparr>) else Inl Parse_assert))"

text \<open>\<open>mem\<close> and \<open>garbage\<close> are what the memory of the new object held.\<close>

definition HttpRequestParser_new :: "http_parser \<Rightarrow> HttpStatus \<Rightarrow> HttpRequestParser" where
  "HttpRequestParser_new mem garbage =
     \<lparr>rp_parser = http_parser_init mem, rp_data = HttpRequest_new garbage 0x11 True, rp_error = 0\<rparr>"

text \<open>\<^verbatim>\<open>execute(data, len)\<close>: the bytes read, and the unread bytes that \<^verbatim>\<open>memmove\<close> brings to the front.\<close>

definition HttpRequestParser_execute ::
    "string \<Rightarrow> HttpRequestParser \<Rightarrow> parse_error + (nat \<times> string \<times> HttpRequestParser)" where
  "HttpRequestParser_execute data P =
     rbind (http_parser_execute data P) (\<lambda>(offset, P'). Inr (offset, drop offset data, P'))"

definition HttpRequestParser_isFinished :: "HttpRequestParser \<Rightarrow> int" where
  "HttpRequestParser_isFinished P = http_parser_finish (rp_parser P)"

definition HttpRequestParser_hasError :: "HttpRequestParser \<Rightarrow> bool" where
  "HttpRequestParser_hasError P \<longleftrightarrow> rp_error P \<noteq> 0 \<or> http_parser_has_error (rp_parser P)"

text \<open>\<open>cast\<close> is \<^verbatim>\<open>boost::lexical_cast<uint64_t>\<close>.\<close>

definition HttpRequestParser_getContentLength :: "(string \<Rightarrow> u64 option) \<Rightarrow> HttpRequestParser \<Rightarrow> u64" where
  "HttpRequestParser_getContentLength cast P = HttpRequest_getHeaderAs cast (rp_data P) ''content-length'' 0"

end
