(* ===== verification/Http_Parser_Correct.thy ===== *)
theory Http_Parser_Correct
  imports Http_Parser
begin

text \<open>
  What the request parser does with whole requests: the steps of the machine by classes of characters,
  the pieces of a request (method, target, version, header lines) with the actions they cause, the
  round trip with \<^verbatim>\<open>HttpRequest::dump\<close>, the assertions, and a request that arrives in two pieces.
\<close>

section \<open>Texts of a request\<close>

abbreviation (input) pchar_codes :: "(nat \<times> nat) list" where
  "pchar_codes \<equiv> [(33, 33), (36, 36), (38, 46), (48, 59), (61, 61), (64, 90), (95, 95), (97, 122), (126, 126)]"

definition is_pchar :: "char \<Rightarrow> bool" where
  "is_pchar = code_in pchar_codes"

definition is_path_char :: "char \<Rightarrow> bool" where
  "is_path_char = code_in ((47, 47) # pchar_codes)"

definition is_query_char :: "char \<Rightarrow> bool" where
  "is_query_char = code_in ((47, 47) # (63, 63) # pchar_codes)"

definition is_method_char :: "char \<Rightarrow> bool" where
  "is_method_char = code_in [(48, 57), (65, 90)]"

definition is_token_char :: "char \<Rightarrow> bool" where
  "is_token_char = code_in [(33, 33), (35, 39), (42, 43), (45, 46), (48, 57), (65, 90), (94, 122), (124, 124), (126, 126)]"

definition is_value_start :: "char \<Rightarrow> bool" where
  "is_value_start = code_in [(1, 8), (11, 12), (14, 31), (33, 126), (128, 255)]"

definition is_value_char :: "char \<Rightarrow> bool" where
  "is_value_char = code_in [(1, 8), (9, 9), (11, 12), (14, 31), (32, 32), (33, 126), (128, 255)]"

lemmas class_defs = is_pchar_def is_path_char_def is_query_char_def is_xdigit_def is_method_char_def
  is_token_char_def is_value_start_def is_value_char_def

section \<open>Steps of the machine\<close>

lemma path_steps:
  "is_path_char c \<Longrightarrow> http11_step rel 26 c = Some ([], 26)"
  "is_pchar c \<Longrightarrow> http11_step rel 33 c = Some ([], 26)"
  "is_xdigit c \<Longrightarrow> http11_step rel 27 c = Some ([], 28)"
  "is_xdigit c \<Longrightarrow> http11_step rel 28 c = Some ([], 26)"
  unfolding http11_step_def class_defs by (erule code_step_St, simp add: http11_table)+

lemma query_steps:
  "is_query_char c \<Longrightarrow> http11_step rel 29 c = Some ([Start_query], 30)"
  "is_query_char c \<Longrightarrow> http11_step rel 30 c = Some ([], 30)"
  "is_xdigit c \<Longrightarrow> http11_step rel 31 c = Some ([], 32)"
  "is_xdigit c \<Longrightarrow> http11_step rel 32 c = Some ([], 30)"
  unfolding http11_step_def class_defs
  by (subst code_step_Tr [where k = 54], assumption, simp_all add: http11_table)
    (erule code_step_St, simp add: http11_table)+

lemma fragment_steps:
  "is_query_char c \<Longrightarrow> http11_step rel 20 c = Some ([Mark], 21)"
  "is_query_char c \<Longrightarrow> http11_step rel 21 c = Some ([], 21)"
  "is_xdigit c \<Longrightarrow> http11_step rel 22 c = Some ([], 23)"
  "is_xdigit c \<Longrightarrow> http11_step rel 23 c = Some ([], 21)"
  unfolding http11_step_def class_defs
  by (subst code_step_Tr [where k = 44], assumption, simp_all add: http11_table)
    (erule code_step_St, simp add: http11_table)+

lemma uri_delimiters:
  "http11_step rel 3 (CHR ''/'') = Some ([Mark], 33)"
  "http11_step rel 33 (CHR 0x25) = Some ([], 27)"
  "http11_step rel 33 (CHR '' '') = Some ([Request_path, Request_uri], 4)"
  "http11_step rel 33 (CHR ''?'') = Some ([Request_path], 29)"
  "http11_step rel 33 (CHR ''#'') = Some ([Request_path, Request_uri], 20)"
  "http11_step rel 26 (CHR 0x25) = Some ([], 27)"
  "http11_step rel 26 (CHR '' '') = Some ([Request_path, Request_uri], 4)"
  "http11_step rel 26 (CHR ''?'') = Some ([Request_path], 29)"
  "http11_step rel 26 (CHR ''#'') = Some ([Request_path, Request_uri], 20)"
  "http11_step rel 29 (CHR 0x25) = Some ([Start_query], 31)"
  "http11_step rel 30 (CHR 0x25) = Some ([], 31)"
  "http11_step rel 30 (CHR '' '') = Some ([Query_string, Request_uri], 4)"
  "http11_step rel 30 (CHR ''#'') = Some ([Query_string, Request_uri], 20)"
  "http11_step rel 20 (CHR 0x25) = Some ([Mark], 22)"
  "http11_step rel 21 (CHR 0x25) = Some ([], 22)"
  "http11_step rel 21 (CHR '' '') = Some ([Fragment], 4)"
  by (simp_all add: http11_step_def code_step_def http11_table)

lemma version_steps:
  "http11_step rel 4 (CHR ''H'') = Some ([Mark], 5)"
  "http11_step rel 5 (CHR ''T'') = Some ([], 6)"
  "http11_step rel 6 (CHR ''T'') = Some ([], 7)"
  "http11_step rel 7 (CHR ''P'') = Some ([], 8)"
  "http11_step rel 8 (CHR ''/'') = Some ([], 9)"
  "http11_step rel 9 (CHR ''1'') = Some ([], 10)"
  "http11_step rel 10 (CHR ''.'') = Some ([], 11)"
  "http11_step rel 11 (CHR ''0'') = Some ([], 12)"
  "http11_step rel 11 (CHR ''1'') = Some ([], 12)"
  "http11_step rel 12 (CHR 0x0D) = Some ([Http_version], 17)"
  "http11_step rel 17 (CHR 0x0A) = Some ([], 13)"
  by (simp_all add: http11_step_def code_step_def http11_table)

lemma header_steps:
  "is_token_char c \<Longrightarrow> http11_step rel 13 c = Some ([Start_field], 14)"
  "is_value_start c \<Longrightarrow> http11_step rel 15 c = Some ([Start_value], 16)"
  "is_token_char c \<Longrightarrow> http11_step rel 14 c = Some ([], 14)"
  "is_value_char c \<Longrightarrow> http11_step rel 16 c = Some ([], 16)"
  unfolding http11_step_def class_defs
  by (subst code_step_Tr [where k = 23], assumption, simp_all add: http11_table)
    (subst code_step_Tr [where k = 28], assumption, simp_all add: http11_table,
     (erule code_step_St, simp add: http11_table)+)

lemma header_delimiters:
  "http11_step rel 14 (CHR '':'') = Some ([Write_field], 15)"
  "http11_step rel 15 (CHR '' '') = Some ([Start_value], 15)"
  "http11_step rel 15 (CHR 0x0D) = Some ([Start_value, Write_value], 17)"
  "http11_step rel 16 (CHR 0x0D) = Some ([Write_value], 17)"
  "http11_step rel 13 (CHR 0x0D) = Some ([Start_field], 18)"
  "http11_step rel 18 (CHR 0x0A) = Some ([Done], 348)"
  by (simp_all add: http11_step_def code_step_def http11_table)

section \<open>Pieces of a request\<close>

text \<open>What the actions before the end leave alone.\<close>

definition keeps :: "http_parser \<Rightarrow> http_parser \<Rightarrow> bool" where
  "keeps h h' \<longleftrightarrow> hp_cs h' = hp_cs h \<and> hp_body_start h' = hp_body_start h \<and> hp_xml_sent h' = hp_xml_sent h
     \<and> hp_json_sent h' = hp_json_sent h"

text \<open>
  \<open>reads rel pre t post s P s' D\<close>: behind \<open>pre\<close> and before \<open>post\<close>, the text \<open>t\<close> takes the machine
  from \<open>s\<close> to \<open>s'\<close> and its actions make the request of the parser object \<open>D\<close>.
\<close>

definition reads ::
    "bool \<Rightarrow> string \<Rightarrow> string \<Rightarrow> string \<Rightarrow> nat \<Rightarrow> HttpRequestParser \<Rightarrow> nat \<Rightarrow> HttpRequest \<Rightarrow> bool" where
  "reads rel pre t post s P s' D \<longleftrightarrow>
     (\<exists>evs h. passes (http11_step rel) http_fbreak s (length pre) t evs s' \<and> keeps (rp_parser P) h
       \<and> http_acts (pre @ t @ post) evs P = Inr (P\<lparr>rp_parser := h, rp_data := D\<rparr>))"

lemma reads_I:
  assumes "passes (http11_step rel) http_fbreak s (length pre) t evs s'"
    and "http_acts (pre @ t @ post) evs P = Inr (P\<lparr>rp_parser := h, rp_data := D\<rparr>)" and "keeps (rp_parser P) h"
  shows "reads rel pre t post s P s' D"
  using assms unfolding reads_def by blast

lemma keeps_refl: "keeps h h"
  by (simp add: keeps_def)

lemma keeps_trans: "keeps h h' \<Longrightarrow> keeps h' h'' \<Longrightarrow> keeps h h''"
  by (simp add: keeps_def)

lemma reads_trans:
  assumes "reads rel pre t (u @ post) s P s' D"
    and "\<And>h. keeps (rp_parser P) h \<Longrightarrow> reads rel (pre @ t) u post s' (P\<lparr>rp_parser := h, rp_data := D\<rparr>) s'' D'"
  shows "reads rel pre (t @ u) post s P s'' D'"
proof -
  obtain evs h where 1: "passes (http11_step rel) http_fbreak s (length pre) t evs s'" "keeps (rp_parser P) h"
      "http_acts (pre @ t @ u @ post) evs P = Inr (P\<lparr>rp_parser := h, rp_data := D\<rparr>)"
    using assms(1) unfolding reads_def by blast
  obtain evs' h' where 2: "passes (http11_step rel) http_fbreak s' (length (pre @ t)) u evs' s''" "keeps h h'"
      "http_acts (pre @ t @ u @ post) evs' (P\<lparr>rp_parser := h, rp_data := D\<rparr>) = Inr (P\<lparr>rp_parser := h', rp_data := D'\<rparr>)"
    using assms(2) [OF 1(2)] unfolding reads_def by auto
  show ?thesis
    unfolding reads_def
    using passes_append [OF 1(1)] 2(1) keeps_trans [OF 1(2) 2(2)] 1(3) 2(3)
    by (intro exI [of _ "evs @ evs'"] exI [of _ h']) (simp add: run_acts_append)
qed

lemma text_at_mid: "text_at (pre @ t @ post) (length pre) (length pre + length t) = Inr t"
  by (simp add: text_at_def segment_def)

text \<open>A method: the machine counts its characters.\<close>

definition method_state :: "nat \<Rightarrow> nat" where
  "method_state k = (if k = 1 then 2 else 173 + k)"

lemma method_steps:
  assumes "1 \<le> k" "k \<le> 20"
  shows "http11_step rel (method_state k) (CHR '' '') = Some ([Request_method], 3)"
    and "is_method_char c \<Longrightarrow> k < 20 \<Longrightarrow> http11_step rel (method_state k) c = Some ([], method_state (Suc k))"
proof -
  have k: "k \<in> {1, 2, 3, 4, 5, 6, 7, 8, 9, 10, 11, 12, 13, 14, 15, 16, 17, 18, 19, 20}"
    using assms unfolding insert_iff empty_iff by presburger
  then show "http11_step rel (method_state k) (CHR '' '') = Some ([Request_method], 3)"
    unfolding insert_iff empty_iff
    by (elim disjE) (simp_all add: method_state_def http11_step_def code_step_def http11_table)
  assume c: "is_method_char c" and "k < 20"
  then have "list_all (covers (state_edges http11_code (method_state k)) (St (method_state (Suc k)))) [(48, 57), (65, 90)]"
    using k unfolding insert_iff empty_iff
    by (elim disjE) (simp_all add: method_state_def http11_table)
  with c show "http11_step rel (method_state k) c = Some ([], method_state (Suc k))"
    unfolding http11_step_def is_method_char_def by (rule code_step_St)
qed

lemma passes_method_rest:
  "list_all is_method_char m \<Longrightarrow> 1 \<le> k \<Longrightarrow> k + length m \<le> 20
    \<Longrightarrow> passes (http11_step rel) fb (method_state k) p m [] (method_state (k + length m))"
proof (induction m arbitrary: k p)
  case (Cons c m)
  have "http11_step rel (method_state k) c = Some ([], method_state (Suc k))"
    using Cons.prems by (intro method_steps) auto
  moreover have "passes (http11_step rel) fb (method_state (Suc k)) (p + 1) m [] (method_state (Suc k + length m))"
    using Cons.prems by (intro Cons.IH) auto
  ultimately show ?case
    using passes_Cons [where step = "http11_step rel" and acts = "[]" and evs = "[]"] by fastforce
qed (simp add: passes_Nil)

lemma method_start: "is_method_char c \<Longrightarrow> http11_step rel 1 c = Some ([Mark], method_state 1)"
  unfolding http11_step_def is_method_char_def
  by (subst code_step_Tr [where k = 0], assumption) (simp_all add: http11_table method_state_def del: One_nat_def)

lemma passes_method:
  assumes "list_all is_method_char m" "m \<noteq> []" "length m \<le> 20"
  shows "passes (http11_step rel) http_fbreak 1 p (m @ '' '') [(Mark, p), (Request_method, p + length m)] 3"
proof -
  obtain c m' where m: "m = c # m'" using assms(2) by (cases m) auto
  have r: "passes (http11_step rel) http_fbreak (method_state 1) (p + 1) m' [] (method_state (length m))"
    using passes_method_rest [of m' 1 rel http_fbreak "p + 1"] assms by (simp add: m)
  have "passes (http11_step rel) http_fbreak 1 p m (map (\<lambda>a. (a, p)) [Mark] @ []) (method_state (length m))"
    unfolding m by (rule passes_Cons [where step = "http11_step rel" and acts = "[Mark]"])
      (use assms(1) r in \<open>simp_all add: m method_start http_fbreak_def del: One_nat_def\<close>)
  moreover have "passes (http11_step rel) http_fbreak (method_state (length m)) (p + length m) '' ''
      (map (\<lambda>a. (a, p + length m)) [Request_method]) 3"
    using assms method_steps(1) [of "length m"] by (intro passes_step) (simp_all add: http_fbreak_def Suc_le_eq)
  ultimately show ?thesis using passes_append [where t = "'' ''"] by fastforce
qed

text \<open>The methods whose names the grammar accepts: all but \<^verbatim>\<open>M-SEARCH\<close>.\<close>

lemma method_names:
  assumes "hm \<noteq> HTTP_METHOD_INVALID" "hm \<noteq> MSEARCH"
  shows "list_all is_method_char (HttpMethodToString hm)" "HttpMethodToString hm \<noteq> []"
    "length (HttpMethodToString hm) \<le> 20"
proof -
  have "list_all is_method_char (HttpMethodToString hm) \<and> HttpMethodToString hm \<noteq> []
      \<and> length (HttpMethodToString hm) \<le> 20"
    using assms by (cases hm) (simp_all add: HttpMethodToString_def method_num_def s_method_string_def
        HTTP_METHOD_MAP_def is_method_char_def code_in_def)
  then show "list_all is_method_char (HttpMethodToString hm)" "HttpMethodToString hm \<noteq> []"
    "length (HttpMethodToString hm) \<le> 20" by simp_all
qed

lemma reads_method:
  assumes "hm \<noteq> HTTP_METHOD_INVALID" "hm \<noteq> MSEARCH"
  shows "reads rel pre (HttpMethodToString hm @ '' '') post 1 P 3 (rp_data P\<lparr>rq_method := hm\<rparr>)"
proof -
  have "http_acts (pre @ (HttpMethodToString hm @ '' '') @ post)
      [(Mark, length pre), (Request_method, length pre + length (HttpMethodToString hm))] P
    = Inr (P\<lparr>rp_parser := rp_parser P\<lparr>hp_mark := length pre\<rparr>, rp_data := rp_data P\<lparr>rq_method := hm\<rparr>\<rparr>)"
    using method_roundtrip [of hm] by (simp add: on_request_method_def Let_def assms)
  from reads_I [OF passes_method [OF method_names [OF assms]] this] show ?thesis by (simp add: keeps_def)
qed

text \<open>The target of a request: a path, perhaps a query, perhaps a fragment.\<close>

definition path_text :: "string \<Rightarrow> bool" where
  "path_text s \<longleftrightarrow> (\<exists>t. s = CHR ''/'' # t \<and> uri_text is_path_char 0 t \<and> (t = [] \<or> hd t \<noteq> CHR ''/''))"

definition query_text :: "string \<Rightarrow> bool" where
  "query_text s \<longleftrightarrow> uri_text is_query_char 0 s"

definition path_state :: "string \<Rightarrow> nat" where
  "path_state s = (if tl s = [] then 33 else 26)"

lemma path_char_cases: "is_path_char c \<Longrightarrow> c \<noteq> CHR ''/'' \<Longrightarrow> is_pchar c"
proof -
  assume c: "is_path_char c" "c \<noteq> CHR ''/''"
  have "of_char c \<noteq> (47 :: nat)" using c(2) of_char_eq_iff [where 'a = nat, of c "CHR ''/''"] by auto
  moreover have "code_in ((47, 47) # rs) c \<longleftrightarrow> of_char c = (47 :: nat) \<or> code_in rs c" for rs
    by (auto simp: code_in_def)
  ultimately show "is_pchar c" using c(1) by (simp add: is_path_char_def is_pchar_def)
qed

lemma passes_path:
  assumes "path_text s"
  shows "passes (http11_step rel) http_fbreak 3 p s [(Mark, p)] (path_state s)"
proof -
  obtain t where s: "s = CHR ''/'' # t" "uri_text is_path_char 0 t" "t = [] \<or> hd t \<noteq> CHR ''/''"
    using assms by (auto simp: path_text_def)
  have "passes (http11_step rel) http_fbreak 33 (p + 1) t [] (path_state s)"
  proof (cases t)
    case Nil
    then show ?thesis by (simp add: passes_Nil path_state_def s)
  next
    case (Cons c t')
    from s(3) Cons have c: "c \<noteq> CHR ''/''" by simp
    have "passes (http11_step rel) http_fbreak 33 (p + 1) t (map (\<lambda>a. (a, p + 1)) []) 26"
      by (rule passes_uri_first [where ok = is_path_char and s = 26 and ?s1.0 = 27 and ?s2.0 = 28 and c = c and t' = t'])
        (use c s(2) in \<open>simp_all add: Cons path_steps uri_delimiters path_char_cases\<close>)
    then show ?thesis by (simp add: path_state_def s(1) Cons)
  qed
  moreover have "http11_step rel 3 (CHR ''/'') = Some ([Mark], 33)" by (rule uri_delimiters)
  ultimately show ?thesis
    using passes_Cons [where step = "http11_step rel" and acts = "[Mark]" and fbreak = http_fbreak and p = p
        and cs = 3 and c = "CHR ''/''" and m = 33 and s = t and evs = "[]" and k = "path_state s"]
    by (simp add: s(1) http_fbreak_def)
qed

lemma path_ends:
  "http11_step rel (path_state s) (CHR '' '') = Some ([Request_path, Request_uri], 4)"
  "http11_step rel (path_state s) (CHR ''?'') = Some ([Request_path], 29)"
  "http11_step rel (path_state s) (CHR ''#'') = Some ([Request_path, Request_uri], 20)"
  by (simp_all add: path_state_def uri_delimiters)

lemma passes_query:
  assumes "query_text q" "q \<noteq> []"
  shows "passes (http11_step rel) http_fbreak 29 p q [(Start_query, p)] 30"
    and "passes (http11_step rel) http_fbreak 20 p q [(Mark, p)] 21"
proof -
  obtain c q' where q: "q = c # q'" using assms(2) by (cases q) auto
  show "passes (http11_step rel) http_fbreak 29 p q [(Start_query, p)] 30"
    using passes_uri_first [where ok = is_query_char and step = "http11_step rel" and s = 30 and ?s1.0 = 31 and ?s2.0 = 32
        and c = c and t' = q' and t = q and ?s0.0 = 29 and acts = "[Start_query]" and fb = http_fbreak and p = p]
      assms(1) q by (simp add: query_text_def query_steps uri_delimiters http_fbreak_def)
  show "passes (http11_step rel) http_fbreak 20 p q [(Mark, p)] 21"
    using passes_uri_first [where ok = is_query_char and step = "http11_step rel" and s = 21 and ?s1.0 = 22 and ?s2.0 = 23
        and c = c and t' = q' and t = q and ?s0.0 = 20 and acts = "[Mark]" and fb = http_fbreak and p = p]
      assms(1) q by (simp add: query_text_def fragment_steps uri_delimiters http_fbreak_def)
qed

text \<open>The four forms of a target, with the actions they cause.\<close>

definition target :: "string \<Rightarrow> string \<Rightarrow> string \<Rightarrow> string" where
  "target path q f = path @ (if q = [] then [] else CHR ''?'' # q) @ (if f = [] then [] else CHR ''#'' # f) @ '' ''"

lemma passes_char:
  assumes "http11_step rel s c = Some (acts, m)" and "Done \<notin> set acts"
  shows "passes (http11_step rel) http_fbreak s p [c] (map (\<lambda>a. (a, p)) acts) m"
proof -
  have "\<not> list_ex http_fbreak acts" using assms(2) by (induction acts) (auto simp: http_fbreak_def)
  with assms(1) show ?thesis by (rule passes_step)
qed

lemma passes_append_eq:
  assumes "passes step fb cs p s evs m" and "passes step fb m (p + length s) t evs' k" and "e = evs @ evs'"
  shows "passes step fb cs p (s @ t) e k"
  using passes_append [OF assms(1,2)] assms(3) by simp

lemma passes_query_end:
  assumes "query_text f"
  shows "f \<noteq> [] \<Longrightarrow> passes (http11_step rel) http_fbreak 20 p (f @ '' '') [(Mark, p), (Fragment, p + length f)] 4"
    and "f \<noteq> [] \<Longrightarrow> passes (http11_step rel) http_fbreak 29 p (f @ '' '')
      [(Start_query, p), (Query_string, p + length f), (Request_uri, p + length f)] 4"
    and "f \<noteq> [] \<Longrightarrow> passes (http11_step rel) http_fbreak 29 p (f @ ''#'')
      [(Start_query, p), (Query_string, p + length f), (Request_uri, p + length f)] 20"
  using passes_query [OF assms, of rel p]
  by (auto intro!: passes_append_eq passes_char uri_delimiters)

lemma text_at_in: "B = a @ t @ b \<Longrightarrow> i = length a \<Longrightarrow> j = i + length t \<Longrightarrow> text_at B i j = Inr t"
  using text_at_mid [of a t b] by simp

lemma passes_char_Cons:
  assumes "http11_step rel s c = Some (acts, m)" and "Done \<notin> set acts"
    and "passes (http11_step rel) http_fbreak m (p + 1) t evs k" and "e = map (\<lambda>a. (a, p)) acts @ evs"
  shows "passes (http11_step rel) http_fbreak s p (c # t) e k"
  using passes_append [OF passes_char [OF assms(1,2)], of p t evs k] assms(3,4) by simp

definition target_events :: "nat \<Rightarrow> string \<Rightarrow> string \<Rightarrow> string \<Rightarrow> (http_action \<times> nat) list" where
  "target_events n path q f =
    (let np = n + length path; nq = np + 1 + length q; nf = np + (if q = [] then 0 else 1 + length q) + 1 in
     [(Mark, n), (Request_path, np)]
     @ (if q = [] then [(Request_uri, np)] else [(Start_query, np + 1), (Query_string, nq), (Request_uri, nq)])
     @ (if f = [] then [] else [(Mark, nf), (Fragment, nf + length f)]))"

lemma passes_target:
  assumes "path_text path" "query_text q" "query_text f"
  shows "passes (http11_step rel) http_fbreak 3 n (target path q f) (target_events n path q f) 4"
proof -
  let ?p = "n + length path"
  note p = passes_append_eq [OF passes_path [OF assms(1)]]
  note q = passes_query_end [OF assms(2)] and f = passes_query_end [OF assms(3)]
  consider "q = []" "f = []" | "q = []" "f \<noteq> []" | "q \<noteq> []" "f = []" | "q \<noteq> []" "f \<noteq> []" by blast
  then show ?thesis
  proof cases
    case 1
    show ?thesis unfolding target_def target_events_def Let_def using 1
      by (auto intro!: p passes_char path_ends)
  next
    case 2
    show ?thesis unfolding target_def target_events_def Let_def using 2 f(1) [of rel "?p + 1"]
      by (auto intro!: p passes_char_Cons path_ends)
  next
    case 3
    show ?thesis unfolding target_def target_events_def Let_def using 3 q(2) [of rel "?p + 1"]
      by (auto intro!: p passes_char_Cons path_ends)
  next
    case 4
    have "passes (http11_step rel) http_fbreak 29 (?p + 1) ((q @ ''#'') @ f @ '' '')
      [(Start_query, ?p + 1), (Query_string, ?p + 1 + length q), (Request_uri, ?p + 1 + length q),
       (Mark, ?p + 1 + length q + 1), (Fragment, ?p + 1 + length q + 1 + length f)] 4"
      by (rule passes_append_eq [OF q(3) [OF 4(1)]]) (use f(1) [OF 4(2), of rel "?p + 1 + length q + 1"] in simp_all)
    then show ?thesis unfolding target_def target_events_def Let_def using 4
      by (auto intro!: p passes_char_Cons path_ends)
  qed
qed

lemma reads_target:
  assumes "path_text path" "query_text q" "query_text f"
  shows "reads rel pre (target path q f) post 3 P 4
    (rp_data P\<lparr>rq_path := path, rq_query := if q = [] then rq_query (rp_data P) else q,
       rq_fragment := if f = [] then rq_fragment (rp_data P) else f\<rparr>)"
proof -
  let ?n = "length pre" and ?B = "pre @ target path q f @ post"
  let ?np = "?n + length path" and ?nq = "?n + length path + 1 + length q"
  let ?nf = "?n + length path + (if q = [] then 0 else 1 + length q) + 1"
  let ?D = "rp_data P\<lparr>rq_path := path, rq_query := if q = [] then rq_query (rp_data P) else q,
       rq_fragment := if f = [] then rq_fragment (rp_data P) else f\<rparr>"
  let ?h = "(if q = [] then rp_parser P else rp_parser P\<lparr>hp_query_start := ?np + 1\<rparr>)
      \<lparr>hp_mark := if f = [] then ?n else ?nf\<rparr>"
  have "text_at ?B ?n ?np = Inr path"
    by (rule text_at_in [where a = pre]) (simp_all add: target_def)
  moreover have "text_at ?B (?np + 1) ?nq = Inr q" if "q \<noteq> []"
    by (rule text_at_in [where a = "pre @ path @ ''?''"]) (use that in \<open>simp_all add: target_def\<close>)
  moreover have "text_at ?B ?nf (?nf + length f) = Inr f" if "f \<noteq> []"
    by (rule text_at_in [where a = "pre @ path @ (if q = [] then [] else CHR ''?'' # q) @ ''#''"])
      (use that in \<open>simp_all add: target_def\<close>)
  ultimately have "http_acts ?B (target_events ?n path q f) P = Inr (P\<lparr>rp_parser := ?h, rp_data := ?D\<rparr>)"
    by (cases "q = []"; cases "f = []")
      (simp_all add: target_events_def Let_def on_request_path_def on_request_query_def on_request_fragment_def)
  from reads_I [OF passes_target [OF assms] this] show ?thesis by (simp add: keeps_def)
qed

text \<open>The version and the end of the request line.\<close>

lemma dump_version_texts: "dump_version 0x11 = ''HTTP/1.1''" "dump_version 0x10 = ''HTTP/1.0''"
  by (simp_all add: dump_version_def print_dec_def print_nat.simps digit_char_def char_of_def bit_0 bit_Suc)

lemma passes_version:
  assumes "v = 0x10 \<or> v = 0x11"
  shows "passes (http11_step rel) http_fbreak 4 n (dump_version v @ crlf) [(Mark, n), (Http_version, n + 8)] 13"
  using assms
  by (elim disjE) (simp_all add: dump_version_texts crlf_def passes_def version_steps http_fbreak_def split: prod.split)

lemma reads_version:
  assumes "v = 0x10 \<or> v = 0x11"
  shows "reads rel pre (dump_version v @ crlf) post 4 P 13 (rp_data P\<lparr>rq_version := v\<rparr>)"
proof -
  have "length (dump_version v) = 8" using assms by (auto simp: dump_version_texts)
  then have "text_at (pre @ (dump_version v @ crlf) @ post) (length pre) (length pre + 8) = Inr (dump_version v)"
    by (intro text_at_in [where a = pre]) simp_all
  moreover have "strncmp_eq (dump_version v) ''HTTP/1.1'' \<longleftrightarrow> v = 0x11" "strncmp_eq (dump_version v) ''HTTP/1.0'' \<longleftrightarrow> v = 0x10"
    using assms by (auto simp: dump_version_texts strncmp_eq_def)
  ultimately have "http_acts (pre @ (dump_version v @ crlf) @ post) [(Mark, length pre), (Http_version, length pre + 8)] P
      = Inr (P\<lparr>rp_parser := rp_parser P\<lparr>hp_mark := length pre\<rparr>, rp_data := rp_data P\<lparr>rq_version := v\<rparr>\<rparr>)"
    using assms by (auto simp: on_request_version_def)
  from reads_I [OF passes_version [OF assms] this] show ?thesis by (simp add: keeps_def)
qed

text \<open>One header line.\<close>

definition header_text :: "string \<times> string \<Rightarrow> bool" where
  "header_text = (\<lambda>(k, v). k \<noteq> [] \<and> list_all is_token_char k
     \<and> (v = [] \<or> is_value_start (hd v)) \<and> list_all is_value_char v)"

definition header_line :: "string \<times> string \<Rightarrow> string" where
  "header_line = (\<lambda>(k, v). k @ '': '' @ v @ crlf)"

definition header_events :: "nat \<Rightarrow> string \<times> string \<Rightarrow> (http_action \<times> nat) list" where
  "header_events n = (\<lambda>(k, v). [(Start_field, n), (Write_field, n + length k), (Start_value, n + length k + 1),
     (Start_value, n + length k + 2), (Write_value, n + length k + 2 + length v)])"

lemma passes_header:
  assumes "header_text (k, v)"
  shows "passes (http11_step rel) http_fbreak 13 n (header_line (k, v)) (header_events n (k, v)) 13"
proof -
  let ?i = "n + length k"
  obtain c k' where k: "k = c # k'" "is_token_char c" "list_all is_token_char k'"
    using assms by (cases k) (auto simp: header_text_def)
  have "passes (http11_step rel) http_fbreak 14 (n + 1) k' [] 14"
    by (rule passes_loop [of is_token_char]) (simp_all add: k header_steps)
  then have name: "passes (http11_step rel) http_fbreak 13 n k [(Start_field, n)] 14"
    unfolding k(1) by (rule passes_char_Cons [where acts = "[Start_field]", rotated 2]) (simp_all add: k(2,3) header_steps)
  have lf: "passes (http11_step rel) http_fbreak 17 p [CHR 0x0A] [] 13" for p
    using passes_char [OF version_steps(11), of rel p] by simp
  have "passes (http11_step rel) http_fbreak 15 (?i + 2) (v @ crlf)
      [(Start_value, ?i + 2), (Write_value, ?i + 2 + length v)] 13"
  proof (cases v)
    case Nil
    then show ?thesis unfolding crlf_def
      using passes_char_Cons [OF header_delimiters(3) _ lf] by simp
  next
    case (Cons d v')
    then have v: "is_value_start d" "list_all is_value_char v'" using assms by (simp_all add: header_text_def)
    have "passes (http11_step rel) http_fbreak 16 (?i + 2 + 1) v' [] 16"
      by (rule passes_loop [of is_value_char]) (simp_all add: v header_steps)
    moreover have "passes (http11_step rel) http_fbreak 16 (?i + 2 + 1 + length v') crlf [(Write_value, ?i + 2 + length v)] 13"
      unfolding crlf_def Cons using passes_char_Cons [OF header_delimiters(4) _ lf] by simp
    ultimately have "passes (http11_step rel) http_fbreak 16 (?i + 2 + 1) (v' @ crlf) [(Write_value, ?i + 2 + length v)] 13"
      by (rule passes_append_eq) simp
    then show ?thesis
      unfolding Cons append_Cons
      by (rule passes_char_Cons [where acts = "[Start_value]", rotated 2]) (simp_all add: v header_steps)
  qed
  then have "passes (http11_step rel) http_fbreak 14 ?i ('': '' @ v @ crlf)
     [(Write_field, ?i), (Start_value, ?i + 1), (Start_value, ?i + 2), (Write_value, ?i + 2 + length v)] 13"
    by (auto intro!: passes_char_Cons [OF header_delimiters(1)] passes_char_Cons [OF header_delimiters(2)])
  from passes_append_eq [OF name this] show ?thesis by (simp add: header_line_def header_events_def)
qed

lemma reads_header:
  assumes "header_text (k, v)"
  shows "reads rel pre (header_line (k, v)) post 13 P 13 (HttpRequest_setHeader k v (rp_data P))"
proof -
  let ?n = "length pre" and ?B = "pre @ header_line (k, v) @ post"
  let ?h = "rp_parser P\<lparr>hp_field_start := ?n, hp_field_len := length k, hp_mark := ?n + length k + 2\<rparr>"
  have "text_at ?B (?n + length k + 2) (?n + length k + 2 + length v) = Inr v"
    by (rule text_at_in [where a = "pre @ k @ '': ''"]) (simp_all add: header_line_def)
  moreover have "segment ?n (length k) ?B = k" by (simp add: segment_def header_line_def)
  moreover have "k \<noteq> []" using assms by (simp add: header_text_def)
  ultimately have "http_acts ?B (header_events ?n (k, v)) P
      = Inr (P\<lparr>rp_parser := ?h, rp_data := HttpRequest_setHeader k v (rp_data P)\<rparr>)"
    by (simp add: header_events_def on_request_http_field_def)
  from reads_I [OF passes_header [OF assms] this] show ?thesis by (simp add: keeps_def)
qed

definition store_headers :: "(string \<times> string) list \<Rightarrow> HttpRequest \<Rightarrow> HttpRequest" where
  "store_headers hs D = fold (\<lambda>(k, v). HttpRequest_setHeader k v) hs D"

lemma reads_headers:
  "list_all header_text hs \<Longrightarrow>
    reads rel pre (concat (map header_line hs)) post 13 P 13 (store_headers hs (rp_data P))"
proof (induction hs arbitrary: pre P)
  case Nil
  then show ?case
    by (intro reads_I [where evs = "[]" and h = "rp_parser P"]) (simp_all add: passes_Nil keeps_def store_headers_def)
next
  case (Cons e hs)
  obtain k v where e: "e = (k, v)" by fastforce
  have "reads rel pre (header_line (k, v)) (concat (map header_line hs) @ post) 13 P 13
      (HttpRequest_setHeader k v (rp_data P))"
    using Cons.prems by (intro reads_header) (simp add: e)
  then have "reads rel pre (header_line (k, v) @ concat (map header_line hs)) post 13 P 13
      (store_headers hs (HttpRequest_setHeader k v (rp_data P)))"
  proof (rule reads_trans)
    fix h
    show "reads rel (pre @ header_line (k, v)) (concat (map header_line hs)) post 13
        (P\<lparr>rp_parser := h, rp_data := HttpRequest_setHeader k v (rp_data P)\<rparr>) 13
        (store_headers hs (HttpRequest_setHeader k v (rp_data P)))"
      using Cons.IH [of "pre @ header_line (k, v)" "P\<lparr>rp_parser := h, rp_data := HttpRequest_setHeader k v (rp_data P)\<rparr>"]
        Cons.prems by simp
  qed
  then show ?case by (simp add: e store_headers_def)
qed

section \<open>Assertions\<close>

text \<open>What the assertions at the end of \<^verbatim>\<open>http_parser_execute\<close> ask for.\<close>

definition offsets_ok :: "nat \<Rightarrow> http_parser \<Rightarrow> bool" where
  "offsets_ok n h \<longleftrightarrow> hp_body_start h \<le> n \<and> hp_mark h < n \<and> hp_field_len h \<le> n \<and> hp_field_start h < n"

lemma http_act_offsets:
  assumes "http_act b a q P = Inr P'" "q < n" "offsets_ok n (rp_parser P)"
  shows "offsets_ok n (rp_parser P')"
  using assms by (cases a) (auto simp: offsets_ok_def on_request_method_def on_request_fragment_def on_request_path_def
      on_request_query_def on_request_version_def on_request_http_field_def Let_def rbind_eq_Inr_iff split: if_splits)

lemma http_acts_offsets:
  assumes "http_acts b evs P = Inr P'" "\<forall>(a, q)\<in>set evs. q < n" "offsets_ok n (rp_parser P)"
  shows "offsets_ok n (rp_parser P')"
  by (rule run_acts_inv [where I = "\<lambda>P. offsets_ok n (rp_parser P)", OF _ assms(1,3)])
    (use assms(2) in \<open>auto dest: http_act_offsets\<close>)

lemma http_act_length_error: "http_act b a q P \<noteq> Inl Parse_assert"
  by (cases a) (auto simp: text_at_def)

lemma http_acts_length_error: "http_acts b evs P \<noteq> Inl Parse_assert"
proof (induction evs arbitrary: P)
  case (Cons e es)
  then show ?case using http_act_length_error [of b "fst e" "snd e" P] by (cases e) (auto simp: rbind_eq_Inl_iff)
qed simp

lemma run_offsets:
  assumes "code_run step fb cs 0 buffer = (evs, cs', p)" "http_acts buffer evs P = Inr P'"
    and "offsets_ok (length buffer) (rp_parser P)"
  shows "p \<le> length buffer" "offsets_ok (length buffer) (rp_parser P')"
proof -
  show p: "p \<le> length buffer" using code_run_pos [OF assms(1)] by simp
  have "\<forall>(a, q)\<in>set evs. q < length buffer"
    using code_run_events [OF assms(1)] p by fastforce
  with assms(2,3) show "offsets_ok (length buffer) (rp_parser P')" using http_acts_offsets by blast
qed

section \<open>Whole requests\<close>

definition sent_headers :: "HttpRequest \<Rightarrow> (string \<times> string) list" where
  "sent_headers r = (''connection'', if rq_close r then ''close'' else ''keep-alive'')
     # filter (\<lambda>(k, v). \<not> is_connection k) (rq_headers r)
     @ (if rq_body r = [] then [] else [(''content-length'', print_nat 10 (length (rq_body r)))])"

definition request_head :: "HttpRequest \<Rightarrow> string" where
  "request_head r = (HttpMethodToString (rq_method r) @ '' '') @ target (rq_path r) (rq_query r) (rq_fragment r)
     @ (dump_version (rq_version r) @ crlf) @ concat (map header_line (sent_headers r))"

lemma dump_headers_lines:
  "dump_headers m = concat (map header_line (filter (\<lambda>(k, v). \<not> is_connection k) m))"
  by (induction m) (auto simp: dump_headers_def header_line_def)

lemma dump_is_head_body: "HttpRequest_dump r = request_head r @ crlf @ rq_body r"
  by (simp add: HttpRequest_dump_def request_head_def target_def sent_headers_def dump_headers_lines dump_close_def
      dump_body_def header_line_def)

definition request_ok :: "HttpRequest \<Rightarrow> bool" where
  "request_ok r \<longleftrightarrow> rq_method r \<noteq> HTTP_METHOD_INVALID \<and> rq_method r \<noteq> MSEARCH \<and> path_text (rq_path r)
     \<and> query_text (rq_query r) \<and> query_text (rq_fragment r) \<and> (rq_version r = 0x10 \<or> rq_version r = 0x11)
     \<and> list_all header_text (rq_headers r)"

lemma digit_value: "d < 10 \<Longrightarrow> is_value_start (digit_char d)"
  by (auto simp: is_value_start_def code_in_def digit_char_def)

lemma value_start_char: "is_value_start c \<Longrightarrow> is_value_char c"
  by (auto simp: is_value_start_def is_value_char_def code_in_def)

lemma sent_headers_ok:
  assumes "request_ok r"
  shows "list_all header_text (sent_headers r)"
proof -
  let ?n = "print_nat 10 (length (rq_body r))"
  have n: "\<forall>c\<in>set ?n. is_value_start c" using set_print_nat [of 10] digit_value by auto
  have "header_text (''content-length'', ?n)"
    using n print_nat_ne [of 10 "length (rq_body r)"]
    by (auto simp: header_text_def is_token_char_def code_in_def list_all_iff value_start_char)
  then show ?thesis using assms
    by (auto simp: sent_headers_def request_ok_def list_all_iff header_text_def is_token_char_def code_in_def
        is_value_start_def is_value_char_def)
qed

lemma find_filter:
  assumes "map_ok CaseInsensitiveLess m" and "\<And>a b. P (a, b) \<longleftrightarrow> Q (casefold a)"
  shows "map_find CaseInsensitiveLess k (filter P m) = (if Q (casefold k) then map_find CaseInsensitiveLess k m else None)"
proof -
  have "map_of (map (\<lambda>(a, b). (casefold a, b)) (filter P m)) x = (if Q x then map_of (map (\<lambda>(a, b). (casefold a, b)) m) x else None)" for x
    using assms(2) by (induction m) auto
  then show ?thesis
    using headers.find_map_of [OF assms(1)] headers.find_map_of [OF headers.ok_filter [OF assms(1)]] by simp
qed

definition request_rest :: "HttpRequest \<Rightarrow> string" where
  "request_rest r = target (rq_path r) (rq_query r) (rq_fragment r) @ (dump_version (rq_version r) @ crlf)
     @ concat (map header_line (sent_headers r))"

lemma request_head_split: "request_head r = (HttpMethodToString (rq_method r) @ '' '') @ request_rest r"
  by (simp add: request_head_def request_rest_def)

definition rest_data :: "HttpRequest \<Rightarrow> HttpRequest \<Rightarrow> HttpRequest" where
  "rest_data r D = store_headers (sent_headers r) (D\<lparr>rq_path := rq_path r,
       rq_query := if rq_query r = [] then rq_query D else rq_query r,
       rq_fragment := if rq_fragment r = [] then rq_fragment D else rq_fragment r,
       rq_version := rq_version r\<rparr>)"

lemma reads_rest:
  assumes "request_ok r"
  shows "reads rel pre (request_rest r) post 3 P 13 (rest_data r (rp_data P))"
proof -
  have ok: "path_text (rq_path r)" "query_text (rq_query r)" "query_text (rq_fragment r)"
    "rq_version r = 0x10 \<or> rq_version r = 0x11" using assms by (simp_all add: request_ok_def)
  have version: "reads rel pre (dump_version (rq_version r) @ crlf) post 4 P 13 (D\<lparr>rq_version := rq_version r\<rparr>)"
    if "D = rp_data P" for pre post P D using reads_version [OF ok(4)] that by simp
  have headers: "reads rel pre (concat (map header_line (sent_headers r))) post 13 P 13 (store_headers (sent_headers r) D)"
    if "D = rp_data P" for pre post P D using reads_headers [OF sent_headers_ok [OF assms]] that by simp
  show ?thesis
    unfolding request_rest_def rest_data_def
    by (rule reads_trans, rule reads_target [OF ok(1-3)], rule reads_trans, rule version, simp, rule headers, simp)
qed

lemma reads_request:
  assumes "request_ok r"
  shows "reads rel [] (request_head r) post 1 P 13 (rest_data r (rp_data P\<lparr>rq_method := rq_method r\<rparr>))"
proof -
  have ok: "rq_method r \<noteq> HTTP_METHOD_INVALID" "rq_method r \<noteq> MSEARCH" using assms by (simp_all add: request_ok_def)
  have rest: "reads rel pre (request_rest r) post 3 P 13 (rest_data r D)" if "D = rp_data P" for pre P D
    using reads_rest [OF assms] that by simp
  show ?thesis
    unfolding request_head_split by (rule reads_trans, rule reads_method [OF ok], rule rest, simp)
qed

definition parsed :: "HttpRequest \<Rightarrow> HttpRequest \<Rightarrow> HttpRequest" where
  "parsed r D = store_headers (sent_headers r) (D\<lparr>rq_method := rq_method r, rq_path := rq_path r,
       rq_query := rq_query r, rq_fragment := rq_fragment r, rq_version := rq_version r\<rparr>)"

lemma rest_data_new:
  "rest_data r (HttpRequest_new g v c\<lparr>rq_method := rq_method r\<rparr>) = parsed r (HttpRequest_new g v c)"
  by (simp add: rest_data_def parsed_def HttpRequest_new_def)

text \<open>The blank line ends the head: the machine stops there and leaves the body.\<close>

abbreviation reset_parser :: "HttpRequestParser \<Rightarrow> HttpRequestParser" where
  "reset_parser P \<equiv> set_parser (\<lambda>h. h\<lparr>hp_nread := 0, hp_mark := 0, hp_field_len := 0, hp_field_start := 0\<rparr>) P"

lemma execute_head:
  assumes run: "passes (http11_step (hp_uri_relaxed (rp_parser P))) http_fbreak s 0 head evs 13"
    and acts: "http_acts (head @ crlf @ body) evs (reset_parser P) = Inr P1"
    and h: "keeps (rp_parser P) (rp_parser P1)" "\<not> hp_xml_sent (rp_parser P)" "\<not> hp_json_sent (rp_parser P)"
      "hp_cs (rp_parser P) = s" "s \<noteq> 0" "hp_body_start (rp_parser P) = 0"
    and short: "length (head @ crlf @ body) < 2 ^ 31"
  shows "\<exists>P2. HttpRequestParser_execute (head @ crlf @ body) P = Inr (length head + 2, body, P2)
     \<and> HttpRequestParser_isFinished P2 = 1 \<and> (HttpRequestParser_hasError P2 \<longleftrightarrow> rp_error P1 \<noteq> 0)
     \<and> rp_error P2 = rp_error P1 \<and> rp_data P2 = rp_data P1"
proof -
  let ?B = "head @ crlf @ body" and ?L = "length head" and ?rel = "hp_uri_relaxed (rp_parser P)"
  let ?P2 = "set_parser (\<lambda>h. h\<lparr>hp_field_start := ?L, hp_body_start := ?L + 2\<rparr>) P1"
  let ?evs = "evs @ [(Start_field, ?L), (Done, ?L + 1)]"
  have "passes (http11_step ?rel) http_fbreak s 0 (head @ [CHR 0x0D]) (evs @ [(Start_field, ?L)]) 18"
    using passes_append_eq [OF run passes_char [OF header_delimiters(5)]] by simp
  from passes_stop [OF this header_delimiters(6), of body]
  have r: "code_run (http11_step ?rel) http_fbreak s 0 ?B = (?evs, 348, ?L + 2)"
    by (simp add: crlf_def http_fbreak_def)
  have a: "http_acts ?B ?evs (reset_parser P) = Inr ?P2"
    using acts h by (simp add: run_acts_append keeps_def)
  have "offsets_ok (length ?B) (rp_parser (reset_parser P))"
    using h by (simp add: offsets_ok_def crlf_def)
  note o = run_offsets [OF r a this]
  show ?thesis
    using r a o h short
    by (simp add: HttpRequestParser_execute_def http_parser_execute_def same_distance_iff Let_def offsets_ok_def keeps_def crlf_def
       HttpRequestParser_isFinished_def http_parser_finish_def http_parser_has_error_def http_parser_error_def
       http_parser_is_finished_def http_parser_first_final_def HttpRequestParser_hasError_def)
qed

lemma parser_new:
  "hp_cs (rp_parser (HttpRequestParser_new mem g)) = 1" "\<not> hp_xml_sent (rp_parser (HttpRequestParser_new mem g))"
  "\<not> hp_json_sent (rp_parser (HttpRequestParser_new mem g))" "hp_body_start (rp_parser (HttpRequestParser_new mem g)) = 0"
  "rp_error (HttpRequestParser_new mem g) = 0" "rp_data (HttpRequestParser_new mem g) = HttpRequest_new g 0x11 True"
  by (simp_all add: HttpRequestParser_new_def http_parser_init_def http_parser_start_def)

lemma execute_request:
  assumes "request_ok r" and "length (request_head r @ crlf @ b) < 2 ^ 31"
  shows "\<exists>P. HttpRequestParser_execute (request_head r @ crlf @ b) (HttpRequestParser_new mem g)
       = Inr (length (request_head r) + 2, b, P)
     \<and> HttpRequestParser_isFinished P = 1 \<and> \<not> HttpRequestParser_hasError P
     \<and> rp_data P = parsed r (HttpRequest_new g 0x11 True)"
proof -
  let ?P = "HttpRequestParser_new mem g"
  obtain evs h where run: "passes (http11_step (hp_uri_relaxed (rp_parser ?P))) http_fbreak 1 0 (request_head r) evs 13"
      and h: "keeps (rp_parser (reset_parser ?P)) h"
      and acts: "http_acts (request_head r @ crlf @ b) evs (reset_parser ?P)
        = Inr (reset_parser ?P\<lparr>rp_parser := h, rp_data := parsed r (HttpRequest_new g 0x11 True)\<rparr>)"
    using reads_request [OF assms(1), of "hp_uri_relaxed (rp_parser ?P)" "crlf @ b" "reset_parser ?P"]
    unfolding reads_def by (auto simp: parser_new rest_data_new)
  have k: "keeps (rp_parser ?P) h" using h by (simp add: keeps_def)
  show ?thesis
    using execute_head [OF run acts] k assms(2) by (auto simp: parser_new)
qed

text \<open>The headers that arrive.\<close>

lemma store_headers_eq:
  "store_headers hs D = D\<lparr>rq_headers := fold (\<lambda>(k, v). map_put CaseInsensitiveLess k v) hs (rq_headers D)\<rparr>"
  unfolding store_headers_def
  by (induction hs arbitrary: D) (auto simp: HttpRequest_setHeader_def split: prod.splits)

lemma casefold_names: "casefold ''connection'' = ''connection''" "casefold ''content-length'' = ''content-length''"
  by (simp_all add: casefold_def c_str_def to_lower_def)

lemma is_connection_casefold: "is_connection k \<longleftrightarrow> casefold k = ''connection''"
  using strcasecmp_eq [OF c_str_no_zero c_str_no_zero, of k "''connection''"] casefold_names(1)
  by (simp add: is_connection_def casefold_def c_str_def)

lemma parsed_find:
  assumes "map_ok CaseInsensitiveLess (rq_headers r)" "rq_headers D = []"
  shows "map_find CaseInsensitiveLess k (rq_headers (parsed r D)) =
    (if casefold k = ''connection'' then Some (if rq_close r then ''close'' else ''keep-alive'')
     else if casefold k = ''content-length'' \<and> rq_body r \<noteq> [] then Some (print_nat 10 (length (rq_body r)))
     else map_find CaseInsensitiveLess k (rq_headers r))"
proof -
  let ?lt = CaseInsensitiveLess and ?close = "if rq_close r then ''close'' else ''keep-alive''"
  let ?hs = "filter (\<lambda>(k, v). \<not> is_connection k) (rq_headers r)"
  define c where "c = [(''connection'', ?close)]"
  define m1 where "m1 = fold (\<lambda>(k, v). map_put ?lt k v) ?hs c"
  have c: "map_ok ?lt c" by (simp add: map_ok_def c_def)
  have "map_find ?lt k c = (if casefold k = ''connection'' then Some ?close else None)"
    using headers.find_map_of [OF c, of k] by (simp add: c_def casefold_names)
  moreover have "map_find ?lt k ?hs = (if casefold k = ''connection'' then None else map_find ?lt k (rq_headers r))"
    using find_filter [OF assms(1), where P = "\<lambda>(k, v). \<not> is_connection k" and Q = "\<lambda>k. k \<noteq> ''connection''"]
    by (simp add: is_connection_casefold)
  ultimately have "map_find ?lt k m1 = (if casefold k = ''connection'' then Some ?close else map_find ?lt k (rq_headers r))"
    unfolding m1_def headers.find_fold_put_map [OF c headers.ok_filter [OF assms(1)]] by (auto split: option.split)
  moreover have "map_find ?lt k (map_put ?lt ''content-length'' v m1)
      = (if casefold k = ''content-length'' then Some v else map_find ?lt k m1)" for v
    using headers.find_put [OF headers.fold_put_ok [OF c]] by (simp add: m1_def casefold_names)
  moreover have "rq_headers (parsed r D) = (if rq_body r = [] then m1
      else map_put ?lt ''content-length'' (print_nat 10 (length (rq_body r))) m1)"
    by (simp add: parsed_def store_headers_eq sent_headers_def assms(2) m1_def c_def)
  ultimately show ?thesis by simp
qed

lemma parsed_headers:
  assumes "map_ok CaseInsensitiveLess (rq_headers r)" "rq_headers D = []"
  shows "HttpRequest_getHeader (parsed r D) k def =
    (if casefold k = ''connection'' then if rq_close r then ''close'' else ''keep-alive''
     else if casefold k = ''content-length'' \<and> rq_body r \<noteq> [] then print_nat 10 (length (rq_body r))
     else HttpRequest_getHeader r k def)"
  using parsed_find [OF assms] by (simp add: HttpRequest_getHeader_def find_or_def)

text \<open>
  (C2) A request that is written out by \<^verbatim>\<open>HttpRequest::dump\<close> and given to a new \<^verbatim>\<open>HttpRequestParser\<close> in one
  piece is parsed back: the parser stops exactly at the body, is finished without error, and has the
  method, path, query, fragment and version of the request. Every header is found again under every
  spelling; \<^verbatim>\<open>connection\<close> tells the close flag, and \<^verbatim>\<open>content-length\<close> the length of a non-empty body.
  This holds for all methods but \<^verbatim>\<open>M-SEARCH\<close>, for absolute paths, queries and fragments of URI characters
  and percent encoded bytes, for header names that are tokens and header values that do not start with
  white space and have no line ends, and for requests of less than \<open>2 ^ 31\<close> bytes.
\<close>

theorem request_roundtrip:
  assumes "request_ok r" and "maps_ok r" and "length (HttpRequest_dump r) < 2 ^ 31"
  shows "\<exists>P. HttpRequestParser_execute (HttpRequest_dump r) (HttpRequestParser_new mem g)
        = Inr (length (HttpRequest_dump r) - length (rq_body r), rq_body r, P)
     \<and> HttpRequestParser_isFinished P = 1 \<and> \<not> HttpRequestParser_hasError P
     \<and> rq_method (rp_data P) = rq_method r \<and> rq_path (rp_data P) = rq_path r \<and> rq_query (rp_data P) = rq_query r
     \<and> rq_fragment (rp_data P) = rq_fragment r \<and> rq_version (rp_data P) = rq_version r
     \<and> (\<forall>k def. HttpRequest_getHeader (rp_data P) k def =
          (if casefold k = ''connection'' then if rq_close r then ''close'' else ''keep-alive''
           else if casefold k = ''content-length'' \<and> rq_body r \<noteq> [] then print_nat 10 (length (rq_body r))
           else HttpRequest_getHeader r k def))"
proof -
  let ?D = "HttpRequest_new g 0x11 True"
  obtain P where P: "HttpRequestParser_execute (HttpRequest_dump r) (HttpRequestParser_new mem g)
       = Inr (length (request_head r) + 2, rq_body r, P)" "HttpRequestParser_isFinished P = 1"
    "\<not> HttpRequestParser_hasError P" "rp_data P = parsed r ?D"
    using execute_request [OF assms(1), of "rq_body r"] assms(3) by (auto simp: dump_is_head_body)
  have "length (HttpRequest_dump r) - length (rq_body r) = length (request_head r) + 2"
    by (simp add: dump_is_head_body crlf_def)
  moreover have "rq_method (parsed r ?D) = rq_method r" "rq_path (parsed r ?D) = rq_path r"
    "rq_query (parsed r ?D) = rq_query r" "rq_fragment (parsed r ?D) = rq_fragment r"
    "rq_version (parsed r ?D) = rq_version r"
    by (simp_all add: parsed_def store_headers_eq)
  moreover have "map_ok CaseInsensitiveLess (rq_headers r)" "rq_headers ?D = []"
    using assms(2) by (simp_all add: maps_ok_def HttpRequest_new_def)
  note parsed_headers [OF this]
  ultimately show ?thesis using P by (intro exI [of _ P]) simp
qed

definition sample_request :: "HttpMethod \<Rightarrow> HttpRequest" where
  "sample_request hm = HttpRequest_setHeader ''Host'' ''a.b'' (HttpRequest_new 0 0x11 False)
     \<lparr>rq_method := hm, rq_path := ''/x%20y'', rq_query := ''id=1'', rq_fragment := ''top'', rq_body := ''hello''\<rparr>"

lemma sample_request_ok:
  "hm \<noteq> HTTP_METHOD_INVALID \<Longrightarrow> hm \<noteq> MSEARCH \<Longrightarrow> request_ok (sample_request hm)" "maps_ok (sample_request hm)"
  by (simp_all add: sample_request_def HttpRequest_new_def HttpRequest_setHeader_def request_ok_def path_text_def
      query_text_def header_text_def class_defs code_in_def maps_ok_def map_ok_def numeral_2_eq_2)

lemma sample_request_fields: "rq_body (sample_request hm) = ''hello''" "rq_path (sample_request hm) = ''/x%20y''"
    "rq_method (sample_request hm) = hm"
  by (simp_all add: sample_request_def)

lemma sample_request_short: "length (HttpRequest_dump (sample_request hm)) < 2 ^ 31"
proof -
  have "length (HttpMethodToString hm) \<le> 50"
    by (cases hm) (simp_all add: HttpMethodToString_def method_num_def s_method_string_def HTTP_METHOD_MAP_def)
  then show ?thesis
    by (simp add: HttpRequest_dump_def sample_request_def HttpRequest_new_def HttpRequest_setHeader_def dump_version_def
        dump_close_def dump_headers_def dump_body_def crlf_def is_connection_def print_dec_def print_nat.simps)
qed

theorem request_roundtrip_witness:
  "\<forall>mem g. \<exists>P. HttpRequestParser_execute (HttpRequest_dump (sample_request POST)) (HttpRequestParser_new mem g)
      = Inr (length (HttpRequest_dump (sample_request POST)) - 5, ''hello'', P)
    \<and> rq_path (rp_data P) = ''/x%20y'' \<and> HttpRequest_getHeader (rp_data P) ''HOST'' '''' = ''a.b''"
proof (intro allI)
  fix mem g
  have f: "casefold ''HOST'' = casefold ''Host''" "casefold ''HOST'' = ''host''"
    by (simp_all add: casefold_def c_str_def to_lower_def char_of_def bit_0 bit_Suc)
  have host: "HttpRequest_getHeader (sample_request POST) ''HOST'' '''' = ''a.b''"
    using f headers.lt_key [of "''HOST''" "''Host''"] headers.lt_key [of "''Host''" "''HOST''"]
    by (simp add: sample_request_def HttpRequest_getHeader_def HttpRequest_setHeader_def HttpRequest_new_def find_or_def)
  obtain P where "HttpRequestParser_execute (HttpRequest_dump (sample_request POST)) (HttpRequestParser_new mem g)
      = Inr (length (HttpRequest_dump (sample_request POST)) - length ''hello'', ''hello'', P)"
    "rq_path (rp_data P) = ''/x%20y''" "HttpRequest_getHeader (rp_data P) ''HOST'' '''' = ''a.b''"
    using request_roundtrip [OF sample_request_ok(1) sample_request_ok(2) sample_request_short, of POST mem g] f(2) host
    by (auto simp: sample_request_fields)
  then show "\<exists>P. HttpRequestParser_execute (HttpRequest_dump (sample_request POST)) (HttpRequestParser_new mem g)
      = Inr (length (HttpRequest_dump (sample_request POST)) - 5, ''hello'', P)
    \<and> rq_path (rp_data P) = ''/x%20y'' \<and> HttpRequest_getHeader (rp_data P) ''HOST'' '''' = ''a.b''"
    by (intro exI [of _ P]) simp
qed

section \<open>Flow of the machine\<close>

text \<open>Only the final states are entered with the end of the loop, and no block goes to the error state.\<close>

fun block_flow :: "http_action block \<Rightarrow> bool" where
  "block_flow (State n es) = list_all (\<lambda>(lo, hi, rel, l). case l of St m \<Rightarrow> 0 < m \<and> m < 348 | Tr k \<Rightarrow> True) es"
| "block_flow (Trans k acts m) = (0 < m \<and> (Done \<in> set acts \<longleftrightarrow> 348 \<le> m))"

lemma http11_flow: "list_all block_flow http11_code"
  unfolding http11_code_def concat.simps list_all_append
  by (simp add: http11_code_defs)

lemma state_edges_mem: "state_edges code n = [] \<or> State n (state_edges code n) \<in> set code"
  by (induction code n rule: state_edges.induct) auto

lemma trans_target_mem: "trans_target code k = Some (acts, m) \<Longrightarrow> Trans k acts m \<in> set code"
  by (induction code k rule: trans_target.induct) (auto split: if_splits)

lemma pick_edge_mem: "pick_edge relaxed es c = Some l \<Longrightarrow> l \<in> (\<lambda>(lo, hi, rel, l). l) ` set es"
  by (induction relaxed es c rule: pick_edge.induct) (auto split: if_splits)

lemma http11_step_flow:
  assumes "http11_step rel s c = Some (acts, m)"
  shows "0 < m" "list_ex http_fbreak acts \<longleftrightarrow> 348 \<le> m"
proof -
  obtain l where l: "pick_edge rel (state_edges http11_code s) (of_char c) = Some l"
    using assms by (auto simp: http11_step_def code_step_def split: option.splits)
  have fb: "list_ex http_fbreak acts \<longleftrightarrow> Done \<in> set acts" by (auto simp: list_ex_iff http_fbreak_def)
  have "0 < m \<and> (Done \<in> set acts \<longleftrightarrow> 348 \<le> m)"
  proof (cases l)
    case (St m')
    then have m: "acts = []" "m = m'" using assms l by (simp_all add: http11_step_def code_step_def)
    have "State s (state_edges http11_code s) \<in> set http11_code"
      using l state_edges_mem [of http11_code s] by auto
    then have "block_flow (State s (state_edges http11_code s))" using http11_flow unfolding list_all_iff by blast
    moreover obtain lo hi rl where "(lo, hi, rl, l) \<in> set (state_edges http11_code s)"
      using pick_edge_mem [OF l] by auto
    ultimately show ?thesis using m St by (fastforce simp: list_all_iff)
  next
    case (Tr k)
    then have "trans_target http11_code k = Some (acts, m)" using assms l by (simp add: http11_step_def code_step_def)
    from trans_target_mem [OF this] show ?thesis
      using http11_flow unfolding list_all_iff by fastforce
  qed
  then show "0 < m" "list_ex http_fbreak acts \<longleftrightarrow> 348 \<le> m" by (simp_all add: fb)
qed

lemma http11_run_end:
  "code_run (http11_step rel) http_fbreak cs p s = (evs, cs', p') \<Longrightarrow> cs' \<noteq> 0 \<Longrightarrow> cs < 348
    \<Longrightarrow> cs' \<ge> 348 \<or> p' = p + length s"
proof (induction s arbitrary: cs p evs)
  case (Cons c s)
  obtain acts m where st: "http11_step rel cs c = Some (acts, m)"
    using Cons.prems by (auto split: option.splits)
  show ?case
  proof (cases "list_ex http_fbreak acts")
    case True
    then show ?thesis using Cons.prems st http11_step_flow [OF st] by auto
  next
    case False
    obtain evs2 where r: "code_run (http11_step rel) http_fbreak m (p + 1) s = (evs2, cs', p')"
      using Cons.prems(1) st False by (auto split: prod.splits)
    then show ?thesis using Cons.IH [OF r Cons.prems(2)] http11_step_flow [OF st] False by simp
  qed
qed simp

lemma http11_step_error: "http11_step rel 0 c = None"
proof -
  have "state_edges http11_code 0 = []"
    by (simp add: http11_code_def state_edges_append http11_state_nums) (simp add: http11_code_43_def)
  then show ?thesis by (simp add: http11_step_def code_step_def)
qed

lemma code_run_error: "code_run (http11_step rel) http_fbreak 0 p s = (evs, cs, p') \<Longrightarrow> evs = [] \<and> cs = 0"
  by (cases s) (simp_all add: http11_step_error)

lemma code_run_not_done:
  "code_run (http11_step rel) http_fbreak cs p s = (evs, cs', p') \<Longrightarrow> cs' < 348 \<Longrightarrow> \<forall>(a, q)\<in>set evs. a \<noteq> Done"
proof (induction s arbitrary: cs p evs)
  case (Cons c s)
  show ?case
  proof (cases "http11_step rel cs c")
    case None
    then show ?thesis using Cons.prems(1) by simp
  next
    case (Some x)
    obtain acts m where st: "http11_step rel cs c = Some (acts, m)" using Some by (cases x) simp
    show ?thesis
    proof (cases "list_ex http_fbreak acts")
      case True
      then show ?thesis using Cons.prems st http11_step_flow [OF st] by auto
    next
      case False
      obtain evs2 where r: "code_run (http11_step rel) http_fbreak m (p + 1) s = (evs2, cs', p')"
        and evs: "evs = map (\<lambda>a. (a, p)) acts @ evs2"
        using Cons.prems(1) st False by (auto split: prod.splits)
      have "Done \<notin> set acts" using False by (auto simp: list_ex_iff http_fbreak_def)
      then show ?thesis using Cons.IH [OF r Cons.prems(2)] by (auto simp: evs)
    qed
  qed
qed simp

lemma http_act_frame:
  "http_act b a q P = Inr P' \<Longrightarrow> hp_cs (rp_parser P') = hp_cs (rp_parser P)"
  "http_act b a q P = Inr P' \<Longrightarrow> a \<noteq> Done \<Longrightarrow> hp_body_start (rp_parser P') = hp_body_start (rp_parser P)"
  by (cases a, auto simp: on_request_method_def on_request_fragment_def on_request_path_def
      on_request_query_def on_request_version_def on_request_http_field_def Let_def rbind_eq_Inr_iff split: if_splits)+

lemma http_acts_frame:
  assumes "http_acts b evs P = Inr P'"
  shows "hp_cs (rp_parser P') = hp_cs (rp_parser P)"
    and "\<forall>(a, q)\<in>set evs. a \<noteq> Done \<Longrightarrow> hp_body_start (rp_parser P') = hp_body_start (rp_parser P)"
proof -
  show "hp_cs (rp_parser P') = hp_cs (rp_parser P)"
    by (rule run_acts_inv [where I = "\<lambda>Q. hp_cs (rp_parser Q) = hp_cs (rp_parser P)", OF _ assms refl])
      (auto dest: http_act_frame(1))
  assume "\<forall>(a, q)\<in>set evs. a \<noteq> Done"
  then show "hp_body_start (rp_parser P') = hp_body_start (rp_parser P)"
    by (intro run_acts_inv [where I = "\<lambda>Q. hp_body_start (rp_parser Q) = hp_body_start (rp_parser P)", OF _ assms refl])
      (auto dest: http_act_frame(2))
qed

text \<open>A parser whose head is not complete.\<close>

definition unfinished :: "HttpRequestParser \<Rightarrow> bool" where
  "unfinished P \<longleftrightarrow> hp_cs (rp_parser P) < http_parser_first_final \<and> hp_body_start (rp_parser P) = 0"

lemma execute_unfinished:
  assumes "unfinished P" "HttpRequestParser_execute buffer P = Inr (n, rest, P')" "HttpRequestParser_isFinished P' \<noteq> 1"
  shows "unfinished P'"
proof (cases "buffer = []")
  case True
  then show ?thesis using assms by (simp add: HttpRequestParser_execute_def http_parser_execute_def)
next
  case False
  let ?step = "http11_step (hp_uri_relaxed (rp_parser P))"
  obtain evs cs p where r: "code_run ?step http_fbreak (hp_cs (rp_parser P)) 0 buffer = (evs, cs, p)"
    by (cases "code_run ?step http_fbreak (hp_cs (rp_parser P)) 0 buffer") auto
  obtain P1 where a: "http_acts buffer evs (reset_parser P) = Inr P1"
    and P': "P' = P1\<lparr>rp_parser := (if \<not> http_parser_has_error (rp_parser P1) then (rp_parser P1)\<lparr>hp_cs := cs\<rparr> else rp_parser P1)\<lparr>hp_nread := p\<rparr>\<rparr>"
    using assms(2) False r
    by (auto simp: HttpRequestParser_execute_def http_parser_execute_def Let_def rbind_eq_Inr_iff split: if_splits)
  have cs1: "hp_cs (rp_parser P1) = hp_cs (rp_parser P)" using http_acts_frame(1) [OF a] by simp
  have "cs < 348"
  proof (cases "hp_cs (rp_parser P) = 0")
    case True
    then show ?thesis using code_run_error [of "hp_uri_relaxed (rp_parser P)" 0 buffer evs cs p] r by simp
  next
    case False
    then show ?thesis
      using assms(3) by (auto simp: P' cs1 HttpRequestParser_isFinished_def http_parser_finish_def http_parser_has_error_def
          http_parser_error_def http_parser_is_finished_def http_parser_first_final_def split: if_splits)
  qed
  then have "hp_body_start (rp_parser P1) = 0"
    using http_acts_frame(2) [OF a code_run_not_done [OF r]] assms(1) by (simp add: unfinished_def)
  then show ?thesis using assms(1) cs1 \<open>cs < 348\<close> by (simp add: P' unfinished_def http_parser_first_final_def)
qed

lemma execute_safe:
  assumes "unfinished P"
  shows "(HttpRequestParser_execute buffer P = Inl Parse_assert \<longleftrightarrow> 2 ^ 31 \<le> length buffer)
    \<and> (\<forall>n rest P'. HttpRequestParser_execute buffer P = Inr (n, rest, P') \<longrightarrow>
         n \<le> length buffer \<and> rest = drop n buffer
         \<and> (HttpRequestParser_isFinished P' = 0 \<longrightarrow> n = length buffer \<and> rest = []))"
proof (cases "buffer = [] \<or> 2 ^ 31 \<le> length buffer")
  case True
  then show ?thesis by (auto simp: HttpRequestParser_execute_def http_parser_execute_def same_distance_iff)
next
  case False
  let ?step = "http11_step (hp_uri_relaxed (rp_parser P))"
  obtain evs cs p where r: "code_run ?step http_fbreak (hp_cs (rp_parser P)) 0 buffer = (evs, cs, p)"
    by (cases "code_run ?step http_fbreak (hp_cs (rp_parser P)) 0 buffer") auto
  have o: "offsets_ok (length buffer) (rp_parser (reset_parser P))"
    using assms False by (simp add: offsets_ok_def unfinished_def)
  have e: "cs = 0 \<or> cs \<ge> 348 \<or> p = length buffer"
    using http11_run_end [OF r] assms by (auto simp: http_parser_first_final_def unfinished_def)
  show ?thesis
  proof (cases "http_acts buffer evs (reset_parser P)")
    case (Inl err)
    then show ?thesis
      using r False http_acts_length_error [of buffer evs "reset_parser P"]
      by (simp add: HttpRequestParser_execute_def http_parser_execute_def same_distance_iff Let_def)
  next
    case (Inr P1)
    note ro = run_offsets [OF r Inr o]
    show ?thesis
      using r False Inr ro e
      by (auto simp: HttpRequestParser_execute_def http_parser_execute_def Let_def offsets_ok_def same_distance_iff
          HttpRequestParser_isFinished_def http_parser_finish_def http_parser_has_error_def http_parser_error_def
          http_parser_is_finished_def http_parser_first_final_def rbind_eq_Inr_iff split: if_splits)
  qed
qed

text \<open>A new parser that was given any buffers, one after the other, and has not finished.\<close>

inductive fed :: "http_parser \<Rightarrow> HttpStatus \<Rightarrow> HttpRequestParser \<Rightarrow> bool" for mem g where
  fed_new: "fed mem g (HttpRequestParser_new mem g)"
| fed_execute: "fed mem g P \<Longrightarrow> HttpRequestParser_execute buffer P = Inr (n, rest, P') \<Longrightarrow> HttpRequestParser_isFinished P' \<noteq> 1
    \<Longrightarrow> fed mem g P'"

lemma fed_unfinished: "fed mem g P \<Longrightarrow> unfinished P"
proof (induction rule: fed.induct)
  case fed_new
  show ?case by (simp add: unfinished_def parser_new http_parser_first_final_def)
next
  case (fed_execute P buffer n rest P')
  show ?case by (rule execute_unfinished [OF fed_execute.IH fed_execute.hyps(2,3)])
qed

text \<open>
  (C3) When \<^verbatim>\<open>HttpRequestParser::execute\<close> fails an assertion: on a new parser that was given any buffers before and has not finished, whatever bytes
  arrive next, exactly when the buffer has \<open>2 ^ 31\<close> bytes or more (where the length does not fit an \<^verbatim>\<open>int\<close>). When it returns, the count of bytes read
  is within the buffer; and while the parser is neither in error nor finished it has consumed the whole buffer, so nothing
  of a request that arrived incompletely is kept for the next call.
\<close>

theorem http_parser_execute_safe:
  assumes "fed mem g P"
  shows "(HttpRequestParser_execute buffer P = Inl Parse_assert \<longleftrightarrow> 2 ^ 31 \<le> length buffer)
    \<and> (\<forall>n rest P'. HttpRequestParser_execute buffer P = Inr (n, rest, P') \<longrightarrow>
         n \<le> length buffer \<and> rest = drop n buffer
         \<and> (HttpRequestParser_isFinished P' = 0 \<longrightarrow> n = length buffer \<and> rest = []))"
  by (rule execute_safe [OF fed_unfinished [OF assms]])

theorem http_parser_execute_safe_witness:
  "\<forall>mem g. HttpRequestParser_execute ''GET / HT'' (HttpRequestParser_new mem g) \<noteq> Inl Parse_assert"
proof (intro allI)
  fix mem g
  show "HttpRequestParser_execute ''GET / HT'' (HttpRequestParser_new mem g) \<noteq> Inl Parse_assert"
    using http_parser_execute_safe [OF fed_new, of "''GET / HT''" mem g] by simp
qed

section \<open>Requests in two pieces\<close>

lemma execute_method_prefix:
  assumes "request_ok r" and "0 < i" and "i < length (HttpMethodToString (rq_method r))"
  shows "HttpRequestParser_execute (take i (HttpRequest_dump r)) (HttpRequestParser_new mem g)
    = Inr (i, [], set_parser (\<lambda>h. h\<lparr>hp_cs := method_state i, hp_nread := i\<rparr>) (HttpRequestParser_new mem g))"
proof -
  let ?P = "HttpRequestParser_new mem g" and ?m = "take i (HttpMethodToString (rq_method r))"
  let ?step = "http11_step (hp_uri_relaxed (rp_parser ?P))"
  have ok: "rq_method r \<noteq> HTTP_METHOD_INVALID" "rq_method r \<noteq> MSEARCH" using assms(1) by (simp_all add: request_ok_def)
  note n = method_names [OF ok]
  have m: "take i (HttpRequest_dump r) = ?m" "length ?m = i" using assms(3) by (simp_all add: HttpRequest_dump_def)
  obtain c m' where cm: "?m = c # m'" using assms(2,3) by (cases ?m) auto
  have mc: "list_all is_method_char ?m" using n(1) by (auto simp: list_all_iff dest: in_set_takeD)
  have "passes ?step http_fbreak (method_state 1) 1 m' [] (method_state i)"
    using passes_method_rest [of m' 1 _ http_fbreak 1] mc n(3) m(2) assms(3) by (simp add: cm)
  then have "passes ?step http_fbreak 1 0 ?m [(Mark, 0)] (method_state i)"
    unfolding cm by (intro passes_char_Cons [OF method_start]) (use mc in \<open>simp_all add: cm\<close>)
  from passes_run [OF this] have r: "code_run ?step http_fbreak 1 0 ?m = ([(Mark, 0)], method_state i, i)"
    using m(2) by simp
  show ?thesis
    using r m assms cm n(3)
    by (simp add: HttpRequestParser_execute_def http_parser_execute_def same_distance_iff parser_new Let_def http_parser_has_error_def
        http_parser_error_def HttpRequestParser_new_def http_parser_init_def http_parser_start_def)
qed

text \<open>
  A request that arrives in two pieces is misread, because every call forgets where a token began: when
  the first piece ends inside the method name, the parser takes the rest of the name for the method. Either
  the rest is not the beginning of a method, and a correct request is refused with error 1000; or it is,
  and the request is accepted with the wrong method.
\<close>

theorem split_method_misread:
  assumes "request_ok r" and "0 < i" and "i < length (HttpMethodToString (rq_method r))" and "length (HttpRequest_dump r) < 2 ^ 31"
  shows "\<exists>P1 P2. HttpRequestParser_execute (take i (HttpRequest_dump r)) (HttpRequestParser_new mem g) = Inr (i, [], P1)
     \<and> HttpRequestParser_isFinished P1 = 0 \<and> \<not> HttpRequestParser_hasError P1
     \<and> HttpRequestParser_execute (drop i (HttpRequest_dump r)) P1
       = Inr (length (HttpRequest_dump r) - i - length (rq_body r), rq_body r, P2)
     \<and> (let hm = CharsToHttpMethod (drop i (HttpRequest_dump r)) in
        if hm = HTTP_METHOD_INVALID then rp_error P2 = 1000
        else \<not> HttpRequestParser_hasError P2 \<and> HttpRequestParser_isFinished P2 = 1 \<and> rq_method (rp_data P2) = hm)"
proof -
  let ?N = "HttpRequestParser_new mem g" and ?m = "drop i (HttpMethodToString (rq_method r))"
  let ?P1 = "set_parser (\<lambda>h. h\<lparr>hp_cs := method_state i, hp_nread := i\<rparr>) ?N"
  let ?rel = "hp_uri_relaxed (rp_parser ?P1)"
  let ?B = "((?m @ '' '') @ request_rest r) @ crlf @ rq_body r"
  have ok: "rq_method r \<noteq> HTTP_METHOD_INVALID" "rq_method r \<noteq> MSEARCH" using assms(1) by (simp_all add: request_ok_def)
  note n = method_names [OF ok]
  have B: "drop i (HttpRequest_dump r) = ?B"
    using assms(3) by (simp add: dump_is_head_body request_head_split)
  have mc: "list_all is_method_char ?m" using n(1) by (auto simp: list_all_iff dest: in_set_dropD)
  have "passes (http11_step ?rel) http_fbreak (method_state i) 0 ?m [] (method_state (length (HttpMethodToString (rq_method r))))"
    using passes_method_rest [OF mc, of i ?rel http_fbreak 0] assms n(3) by simp
  from passes_append_eq [OF this passes_char [OF method_steps(1)]]
  have p1: "passes (http11_step ?rel) http_fbreak (method_state i) 0 (?m @ '' '') [(Request_method, length ?m)] 3"
    using assms n(3) by simp
  define P' where "P' = on_request_method ?B (reset_parser ?P1)"
  have P': "rp_parser P' = rp_parser (reset_parser ?P1)" by (simp add: P'_def on_request_method_def Let_def)
  obtain evs h where p2: "passes (http11_step ?rel) http_fbreak 3 (length (?m @ '' '')) (request_rest r) evs 13"
      and k: "keeps (rp_parser P') h"
      and a2: "http_acts ?B evs P' = Inr (P'\<lparr>rp_parser := h, rp_data := rest_data r (rp_data P')\<rparr>)" (is "_ = Inr ?P2")
    using reads_rest [OF assms(1), of ?rel "?m @ '' ''" "crlf @ rq_body r" P'] unfolding reads_def by auto
  have run: "passes (http11_step ?rel) http_fbreak (method_state i) 0 ((?m @ '' '') @ request_rest r) ([(Request_method, length ?m)] @ evs) 13"
    using passes_append_eq [OF p1] p2 by simp
  have acts: "http_acts ?B ([(Request_method, length ?m)] @ evs) (reset_parser ?P1) = Inr ?P2"
    using a2 by (simp add: P'_def)
  have short: "length ?B < 2 ^ 31" using assms(4) unfolding B [symmetric] by simp
  have "method_state i \<noteq> 0" "method_state i < 348" using assms n(3) by (auto simp: method_state_def)
  then obtain P2 where P2: "HttpRequestParser_execute ?B ?P1 = Inr (length ((?m @ '' '') @ request_rest r) + 2, rq_body r, P2)"
     "HttpRequestParser_isFinished P2 = 1" "HttpRequestParser_hasError P2 \<longleftrightarrow> rp_error ?P2 \<noteq> 0"
     "rp_error P2 = rp_error ?P2" "rp_data P2 = rp_data ?P2"
    using execute_head [OF run acts] k P' short by (auto simp: parser_new keeps_def)
  have n2: "length (HttpRequest_dump r) - i - length (rq_body r) = length ((?m @ '' '') @ request_rest r) + 2"
    using assms(3) by (simp add: dump_is_head_body request_head_split crlf_def)
  have hm: "rq_method (rp_data ?P2) = (if CharsToHttpMethod ?B = HTTP_METHOD_INVALID then GET else CharsToHttpMethod ?B)"
    "rp_error ?P2 = (if CharsToHttpMethod ?B = HTTP_METHOD_INVALID then 1000 else 0)"
    by (simp_all add: P'_def on_request_method_def Let_def rest_data_def store_headers_eq parser_new HttpRequest_new_def)
  have "HttpRequestParser_isFinished ?P1 = 0 \<and> \<not> HttpRequestParser_hasError ?P1"
    using \<open>method_state i \<noteq> 0\<close> \<open>method_state i < 348\<close>
    by (simp add: HttpRequestParser_isFinished_def http_parser_finish_def http_parser_has_error_def http_parser_error_def
        http_parser_is_finished_def http_parser_first_final_def HttpRequestParser_hasError_def parser_new)
  with execute_method_prefix [OF assms(1-3), of mem g] P2 hm show ?thesis
    unfolding B Let_def n2 by (intro exI [of _ ?P1] exI [of _ P2]) (simp split: if_splits)
qed

theorem split_method_misread_witness:
  "\<forall>mem g. \<exists>P1 P2. HttpRequestParser_execute ''UN'' (HttpRequestParser_new mem g) = Inr (2, [], P1)
     \<and> HttpRequestParser_execute (drop 2 (HttpRequest_dump (sample_request UNLOCK))) P1
       = Inr (length (HttpRequest_dump (sample_request UNLOCK)) - 7, ''hello'', P2)
     \<and> \<not> HttpRequestParser_hasError P2 \<and> rq_method (rp_data P2) = LOCK"
proof (intro allI)
  fix mem g
  let ?r = "sample_request UNLOCK"
  have name: "HttpMethodToString UNLOCK = ''UNLOCK''"
    by (simp add: HttpMethodToString_def method_num_def s_method_string_def HTTP_METHOD_MAP_def)
  have d: "take 2 (HttpRequest_dump ?r) = ''UN''" "\<exists>t. drop 2 (HttpRequest_dump ?r) = HttpMethodToString LOCK @ t"
    by (simp_all add: HttpRequest_dump_def sample_request_fields name)
      (simp add: HttpMethodToString_def method_num_def s_method_string_def HTTP_METHOD_MAP_def)
  have hm: "CharsToHttpMethod (drop 2 (HttpRequest_dump ?r)) = LOCK" using d(2) method_roundtrip [of LOCK] by auto
  show "\<exists>P1 P2. HttpRequestParser_execute ''UN'' (HttpRequestParser_new mem g) = Inr (2, [], P1)
     \<and> HttpRequestParser_execute (drop 2 (HttpRequest_dump ?r)) P1 = Inr (length (HttpRequest_dump ?r) - 7, ''hello'', P2)
     \<and> \<not> HttpRequestParser_hasError P2 \<and> rq_method (rp_data P2) = LOCK"
    using split_method_misread [OF sample_request_ok(1) _ _ sample_request_short, of UNLOCK 2 mem g]
    by (simp add: sample_request_fields name d(1) hm) blast
qed

end
