(* ===== verification/Socket.thy ===== *)
theory Socket
  imports Net_Address Hook
begin

text \<open>
  Model of \<^verbatim>\<open>src/src/socket.cpp\<close> and \<^verbatim>\<open>socket.h\<close>: the life of a socket object, its cached
  addresses, its options and the guarded send and receive calls. What the kernel answers
  (\<^verbatim>\<open>socket\<close>, \<^verbatim>\<open>bind\<close>, \<^verbatim>\<open>connect\<close>, \<^verbatim>\<open>getpeername\<close>, ...) is an argument of the operation.
\<close>

section \<open>State\<close>

definition SOCK_STREAM :: int where "SOCK_STREAM = 1"
definition SOCK_DGRAM :: int where "SOCK_DGRAM = 2"

record Socket =
  sk_sock :: int
  sk_family :: int
  sk_type :: int
  sk_protocol :: int
  sk_isConnected :: bool
  sk_localAddress :: "Address option"
  sk_remoteAddress :: "Address option"

definition Socket_new :: "int \<Rightarrow> int \<Rightarrow> int \<Rightarrow> Socket" where
  "Socket_new family type protocol =
     \<lparr>sk_sock = - 1, sk_family = family, sk_type = type, sk_protocol = protocol, sk_isConnected = False,
      sk_localAddress = None, sk_remoteAddress = None\<rparr>"

definition Socket_CreateTCP :: "Address \<Rightarrow> Socket" where
  "Socket_CreateTCP address = Socket_new (uint (Address_getFamily address)) SOCK_STREAM 0"

definition Socket_CreateUDP :: "Address \<Rightarrow> Socket" where
  "Socket_CreateUDP address = Socket_new (uint (Address_getFamily address)) SOCK_DGRAM 0"

definition Socket_CreateTCPSocket :: Socket where
  "Socket_CreateTCPSocket = Socket_new (uint AF_INET) SOCK_STREAM 0"

definition Socket_CreateUDPSocket :: Socket where
  "Socket_CreateUDPSocket = Socket_new (uint AF_INET) SOCK_DGRAM 0"

definition Socket_CreateTCPSocket6 :: Socket where
  "Socket_CreateTCPSocket6 = Socket_new (uint AF_INET6) SOCK_STREAM 0"

definition Socket_CreateUDPSocket6 :: Socket where
  "Socket_CreateUDPSocket6 = Socket_new (uint AF_INET6) SOCK_DGRAM 0"

definition Socket_CreateUnixTCPSocket :: Socket where
  "Socket_CreateUnixTCPSocket = Socket_new (uint AF_UNIX) SOCK_STREAM 0"

definition Socket_CreateUnixUDPSocket :: Socket where
  "Socket_CreateUnixUDPSocket = Socket_new (uint AF_UNIX) SOCK_DGRAM 0"

definition Socket_isValid :: "Socket \<Rightarrow> bool" where
  "Socket_isValid s \<longleftrightarrow> sk_sock s \<noteq> - 1"

section \<open>Addresses\<close>

text \<open>The address object of the socket's family that the kernel is asked to fill.\<close>

definition blank_address :: "int \<Rightarrow> Address" where
  "blank_address family =
     (if family = uint AF_INET then IPv4Address (IPv4Address_new 0 0)
      else if family = uint AF_INET6 then IPv6Address IPv6Address_new
      else if family = uint AF_UNIX then UnixAddress_new
      else UnknowAddress_new (word_of_int family))"

text \<open>
  The kernel stores the name it knows, cut to the length of the buffer, over the object; the object
  is what its memory then means. \<open>name\<close> is the full name, whose length is stored in \<^verbatim>\<open>addrLen\<close>.
\<close>

definition stored_name :: "Address \<Rightarrow> u8 list \<Rightarrow> u8 list" where
  "stored_name a name = overwrite (Address_getAddr a) 0 (take (unat (Address_getAddrLen a)) name)"

fun fill_address :: "Address \<Rightarrow> u8 list \<Rightarrow> Address" where
  "fill_address (IPv4Address a) name = IPv4Address (sockaddr_in_of (stored_name (IPv4Address a) name))"
| "fill_address (IPv6Address a) name = IPv6Address (sockaddr_in6_of (stored_name (IPv6Address a) name))"
| "fill_address (UnixAddress a l) name =
     UnixAddress \<lparr>sun_family = of_le_bytes (segment 0 2 (stored_name (UnixAddress a l) name)),
                  sun_path = segment 2 108 (stored_name (UnixAddress a l) name)\<rparr> l"
| "fill_address (UnknowAddress a) name = UnknowAddress (sockaddr_of (stored_name (UnknowAddress a) name))"

definition named_address :: "int \<Rightarrow> u8 list \<Rightarrow> Address" where
  "named_address family name =
     (let result = fill_address (blank_address family) name in
      if family = uint AF_UNIX then UnixAddress_setAddrLen (of_nat (length name)) result else result)"

text \<open>\<open>name\<close> is the answer of \<^verbatim>\<open>getpeername\<close> or \<^verbatim>\<open>getsockname\<close>, \<open>None\<close> for an error.\<close>

definition Socket_getRemoteAddress :: "u8 list option \<Rightarrow> Socket \<Rightarrow> Address \<times> Socket" where
  "Socket_getRemoteAddress name s =
     (case sk_remoteAddress s of
        Some a \<Rightarrow> (a, s)
      | None \<Rightarrow>
          (case name of
             None \<Rightarrow> (UnknowAddress_new (word_of_int (sk_family s)), s)
           | Some bs \<Rightarrow> (named_address (sk_family s) bs,
                         s\<lparr>sk_remoteAddress := Some (named_address (sk_family s) bs)\<rparr>)))"

definition Socket_getLocalAddress :: "u8 list option \<Rightarrow> Socket \<Rightarrow> Address \<times> Socket" where
  "Socket_getLocalAddress name s =
     (case sk_localAddress s of
        Some a \<Rightarrow> (a, s)
      | None \<Rightarrow>
          (case name of
             None \<Rightarrow> (UnknowAddress_new (word_of_int (sk_family s)), s)
           | Some bs \<Rightarrow> (named_address (sk_family s) bs,
                         s\<lparr>sk_localAddress := Some (named_address (sk_family s) bs)\<rparr>)))"

section \<open>Life of a socket\<close>

text \<open>
  \<open>fd\<close> is the answer of \<^verbatim>\<open>::socket\<close>. The options that \<^verbatim>\<open>initSock\<close> sets (\<^verbatim>\<open>SO_REUSEADDR\<close>, and
  \<^verbatim>\<open>TCP_NODELAY\<close> on a stream) do not change the object.
\<close>

definition Socket_newSock :: "int \<Rightarrow> Socket \<Rightarrow> Socket" where
  "Socket_newSock fd s = s\<lparr>sk_sock := fd\<rparr>"

definition Socket_initSock :: "Socket \<Rightarrow> string list" where
  "Socket_initSock s = ''SO_REUSEADDR'' # (if sk_type s = SOCK_STREAM then [''TCP_NODELAY''] else [])"

text \<open>\<^verbatim>\<open>close\<close> gives its return value, the descriptor it closes, if any, and the socket.\<close>

definition Socket_close :: "Socket \<Rightarrow> bool \<times> int option \<times> Socket" where
  "Socket_close s =
     (if \<not> sk_isConnected s \<and> sk_sock s = - 1 then (True, None, s)
      else if sk_sock s \<noteq> - 1
      then (False, Some (sk_sock s), s\<lparr>sk_isConnected := False, sk_sock := - 1\<rparr>)
      else (False, None, s\<lparr>sk_isConnected := False\<rparr>))"

text \<open>\<open>ctx\<close> is the context of the descriptor in the descriptor table.\<close>

definition Socket_init :: "int \<Rightarrow> fd_ctx option \<Rightarrow> u8 list option \<Rightarrow> u8 list option \<Rightarrow> Socket \<Rightarrow> bool \<times> Socket" where
  "Socket_init sock ctx local peer s =
     (case ctx of
        Some c \<Rightarrow>
          if fc_isSocket c \<and> \<not> fc_isClose c then
            (True, snd (Socket_getRemoteAddress peer (snd (Socket_getLocalAddress local
                     (s\<lparr>sk_sock := sock, sk_isConnected := True\<rparr>)))))
          else (False, s)
      | None \<Rightarrow> (False, s))"

text \<open>The result of \<^verbatim>\<open>init\<close> is not looked at by \<^verbatim>\<open>accept\<close>.\<close>

definition Socket_accept ::
    "int \<Rightarrow> fd_ctx option \<Rightarrow> u8 list option \<Rightarrow> u8 list option \<Rightarrow> Socket \<Rightarrow> Socket option" where
  "Socket_accept newsock ctx local peer s =
     (if newsock = - 1 then None
      else Some (snd (Socket_init newsock ctx local peer
             (Socket_new (sk_family s) (sk_type s) (sk_protocol s)))))"

definition Socket_bind :: "int \<Rightarrow> int \<Rightarrow> u8 list option \<Rightarrow> Address \<Rightarrow> Socket \<Rightarrow> bool \<times> Socket" where
  "Socket_bind fd res local addr s =
     (let s1 = (if \<not> Socket_isValid s then Socket_newSock fd s else s) in
      if \<not> Socket_isValid s1 then (False, s1)
      else if uint (Address_getFamily addr) \<noteq> sk_family s1 then (False, s1)
      else if res \<noteq> 0 then (False, s1)
      else (True, snd (Socket_getLocalAddress local s1)))"

text \<open>\<open>res\<close> is the answer of \<^verbatim>\<open>::connect\<close> or, with a timeout, of \<^verbatim>\<open>connect_with_timeout\<close>.\<close>

definition Socket_connect ::
    "int \<Rightarrow> int \<Rightarrow> u8 list option \<Rightarrow> u8 list option \<Rightarrow> Address \<Rightarrow> Socket \<Rightarrow> bool \<times> Socket" where
  "Socket_connect fd res peer local addr s =
     (let s1 = (if \<not> Socket_isValid s then Socket_newSock fd s else s) in
      if \<not> Socket_isValid s1 then (False, s1)
      else if uint (Address_getFamily addr) \<noteq> sk_family s1 then (False, s1)
      else if res \<noteq> 0 then (False, snd (snd (Socket_close s1)))
      else (True, snd (Socket_getLocalAddress local (snd (Socket_getRemoteAddress peer
                    (s1\<lparr>sk_isConnected := True\<rparr>))))))"

definition Socket_listen :: "int \<Rightarrow> Socket \<Rightarrow> bool" where
  "Socket_listen res s = (if \<not> Socket_isValid s then False else if res \<noteq> 0 then False else True)"

section \<open>Sending and receiving\<close>

text \<open>
  The eight transfer functions ask the kernel only on a connected socket. \<open>res\<close> is the answer
  of the system call, converted to \<^verbatim>\<open>int\<close>.
\<close>

definition Socket_transfer :: "int \<Rightarrow> Socket \<Rightarrow> int" where
  "Socket_transfer res s = (if sk_isConnected s then int32 res else - 1)"

section \<open>Options\<close>

definition Socket_timeval :: "u64 \<Rightarrow> u64 \<times> u64" where
  "Socket_timeval v = (scast (ucast (v div 1000) :: u32), scast (ucast (v mod 1000) * 1000 :: u32))"

text \<open>
  \<^verbatim>\<open>setRecvTimeout\<close> and \<^verbatim>\<open>setSendTimeout\<close> go through the hooked \<^verbatim>\<open>setsockopt\<close>, which records the timeout
  in the context of the descriptor; \<^verbatim>\<open>getRecvTimeout\<close> and \<^verbatim>\<open>getSendTimeout\<close> read it there.
\<close>

definition Socket_setTimeout :: "bool \<Rightarrow> bool \<Rightarrow> u64 \<Rightarrow> fd_ctx option \<Rightarrow> fd_ctx option" where
  "Socket_setTimeout hook_enable is_rcv v ctx =
     (let (tv_sec, tv_usec) = Socket_timeval v in
      hook_setsockopt hook_enable True is_rcv (\<not> is_rcv) tv_sec tv_usec ctx)"

definition Socket_getTimeout :: "bool \<Rightarrow> fd_ctx option \<Rightarrow> int" where
  "Socket_getTimeout is_rcv ctx =
     (case ctx of Some c \<Rightarrow> sint (ucast (FdCtx_getTimeout is_rcv c) :: u32) | None \<Rightarrow> - 1)"

definition Socket_getError :: "int \<Rightarrow> int \<Rightarrow> int" where
  "Socket_getError res error = (if res \<noteq> 0 then - 1 else error)"

definition Socket_cancelRead :: "int \<Rightarrow> Socket \<Rightarrow> 'cb io_manager \<Rightarrow> io_error + (bool \<times> 'cb io_manager)" where
  "Socket_cancelRead res s io = IOManager_cancelEvent res (sk_sock s) EV_READ io"

definition Socket_cancelWrite :: "int \<Rightarrow> Socket \<Rightarrow> 'cb io_manager \<Rightarrow> io_error + (bool \<times> 'cb io_manager)" where
  "Socket_cancelWrite res s io = IOManager_cancelEvent res (sk_sock s) EV_WRITE io"

definition Socket_cancelAccept :: "int \<Rightarrow> Socket \<Rightarrow> 'cb io_manager \<Rightarrow> io_error + (bool \<times> 'cb io_manager)" where
  "Socket_cancelAccept res s io = IOManager_cancelEvent res (sk_sock s) EV_READ io"

definition Socket_cancelAll :: "int \<Rightarrow> Socket \<Rightarrow> 'cb io_manager \<Rightarrow> io_error + (bool \<times> 'cb io_manager)" where
  "Socket_cancelAll res s io = IOManager_cancelAll res (sk_sock s) io"

section \<open>Reachable sockets\<close>

text \<open>
  The operations that change a socket object, with arbitrary answers of the kernel; a socket starts
  unconnected, or comes from \<^verbatim>\<open>accept\<close> with a descriptor other than \<open>- 1\<close>.
\<close>

inductive socket_reach :: "Socket \<Rightarrow> bool" where
  create: "socket_reach (Socket_new family type protocol)"
| accept: "socket_reach s \<Longrightarrow> Socket_accept newsock ctx local peer s = Some s' \<Longrightarrow> socket_reach s'"
| bind: "socket_reach s \<Longrightarrow> socket_reach (snd (Socket_bind fd res local addr s))"
| connect: "socket_reach s \<Longrightarrow> socket_reach (snd (Socket_connect fd res peer local addr s))"
| close: "socket_reach s \<Longrightarrow> socket_reach (snd (snd (Socket_close s)))"
| remote: "socket_reach s \<Longrightarrow> socket_reach (snd (Socket_getRemoteAddress peer s))"
| local: "socket_reach s \<Longrightarrow> socket_reach (snd (Socket_getLocalAddress peer s))"

inductive socket_step :: "Socket \<Rightarrow> Socket \<Rightarrow> bool" where
  s_bind: "socket_step s (snd (Socket_bind fd res local addr s))"
| s_connect: "socket_step s (snd (Socket_connect fd res peer local addr s))"
| s_close: "socket_step s (snd (snd (Socket_close s)))"
| s_remote: "socket_step s (snd (Socket_getRemoteAddress peer s))"
| s_local: "socket_step s (snd (Socket_getLocalAddress peer s))"

inductive_cases socket_stepE: "socket_step s s'"

lemma getRemoteAddress_fields [simp]:
  "sk_sock (snd (Socket_getRemoteAddress peer s)) = sk_sock s"
  "sk_isConnected (snd (Socket_getRemoteAddress peer s)) = sk_isConnected s"
  "sk_family (snd (Socket_getRemoteAddress peer s)) = sk_family s"
  "sk_localAddress (snd (Socket_getRemoteAddress peer s)) = sk_localAddress s"
  "sk_remoteAddress s = Some a \<Longrightarrow> sk_remoteAddress (snd (Socket_getRemoteAddress peer s)) = Some a"
  by (simp_all add: Socket_getRemoteAddress_def split: option.split)

lemma getLocalAddress_fields [simp]:
  "sk_sock (snd (Socket_getLocalAddress name s)) = sk_sock s"
  "sk_isConnected (snd (Socket_getLocalAddress name s)) = sk_isConnected s"
  "sk_family (snd (Socket_getLocalAddress name s)) = sk_family s"
  "sk_remoteAddress (snd (Socket_getLocalAddress name s)) = sk_remoteAddress s"
  "sk_localAddress s = Some a \<Longrightarrow> sk_localAddress (snd (Socket_getLocalAddress name s)) = Some a"
  by (simp_all add: Socket_getLocalAddress_def split: option.split)

lemmas socket_defs = Socket_bind_def Socket_connect_def Socket_close_def Socket_newSock_def Socket_isValid_def Let_def

definition socket_inv :: "Socket \<Rightarrow> bool" where
  "socket_inv s \<longleftrightarrow> (sk_isConnected s \<longrightarrow> Socket_isValid s)"

lemma socket_step_inv: "socket_step s s' \<Longrightarrow> socket_inv s \<Longrightarrow> socket_inv s'"
  by (erule socket_stepE) (auto simp: socket_defs socket_inv_def)

lemma socket_step_remote: "socket_step s s' \<Longrightarrow> sk_remoteAddress s = Some a \<Longrightarrow> sk_remoteAddress s' = Some a"
  by (erule socket_stepE) (auto simp: socket_defs)

lemma socket_step_local: "socket_step s s' \<Longrightarrow> sk_localAddress s = Some a \<Longrightarrow> sk_localAddress s' = Some a"
  by (erule socket_stepE) (auto simp: socket_defs)

lemma accept_inv: "Socket_accept newsock ctx local peer s = Some s' \<Longrightarrow> socket_inv s'"
  by (auto simp: Socket_accept_def Socket_init_def Socket_new_def socket_inv_def Socket_isValid_def
      split: if_splits option.splits)

lemma socket_reach_inv: "socket_reach s \<Longrightarrow> socket_inv s"
proof (induction rule: socket_reach.induct)
  case (create family type protocol)
  then show ?case by (simp add: socket_inv_def Socket_new_def)
next
  case (accept s newsock ctx local peer s')
  then show ?case by (blast intro: accept_inv)
qed (blast intro: socket_step_inv socket_step.intros)+

text \<open>
  (C31) The life of a socket: in every reachable state a connected socket has a descriptor. \<^verbatim>\<open>close\<close> gives that
  descriptor back and leaves a socket that is neither connected nor valid, on which every transfer answers
  \<open>- 1\<close> and a second \<^verbatim>\<open>close\<close> closes nothing. The remote and the local address, once read, are kept by every operation,
  \<^verbatim>\<open>close\<close> and a new \<^verbatim>\<open>bind\<close> or \<^verbatim>\<open>connect\<close> included, so a reused socket reports both ends of its first connection.
\<close>

theorem socket_lifecycle:
  assumes "socket_reach s" and "Socket_close s = (r, fd, s1)"
  shows "(sk_isConnected s \<longrightarrow> Socket_isValid s)
    \<and> (fd = (if Socket_isValid s then Some (sk_sock s) else None)) \<and> (r \<longleftrightarrow> \<not> Socket_isValid s)
    \<and> \<not> Socket_isValid s1 \<and> Socket_transfer n s1 = - 1 \<and> Socket_close s1 = (True, None, s1)
    \<and> (socket_step\<^sup>*\<^sup>* s s' \<longrightarrow> socket_inv s'
        \<and> (\<forall>a. sk_remoteAddress s = Some a \<longrightarrow> Socket_getRemoteAddress peer s' = (a, s'))
        \<and> (\<forall>a. sk_localAddress s = Some a \<longrightarrow> Socket_getLocalAddress name s' = (a, s')))"
proof -
  have inv: "socket_inv s" using assms(1) by (rule socket_reach_inv)
  have "socket_inv s' \<and> (\<forall>a. sk_remoteAddress s = Some a \<longrightarrow> sk_remoteAddress s' = Some a)
      \<and> (\<forall>a. sk_localAddress s = Some a \<longrightarrow> sk_localAddress s' = Some a)" if "socket_step\<^sup>*\<^sup>* s s'"
    using that
  proof (induction rule: rtranclp_induct)
    case base
    then show ?case using inv by simp
  next
    case (step y z)
    then show ?case using socket_step_remote socket_step_local socket_step_inv by blast
  qed
  then show ?thesis using inv assms(2)
    by (auto simp: socket_inv_def Socket_close_def Socket_isValid_def Socket_transfer_def Socket_getRemoteAddress_def
        Socket_getLocalAddress_def split: if_splits)
qed

text \<open>Two connections in a row on one socket, to different peers.\<close>

definition sock_a :: Socket where
  "sock_a = snd (Socket_connect 5 0 (Some (Address_getAddr (IPv4Address (IPv4Address_new 1 80)))) (Some (Address_getAddr (IPv4Address (IPv4Address_new 3 81))))
     (IPv4Address (IPv4Address_new 1 80)) Socket_CreateTCPSocket)"

definition sock_b :: Socket where
  "sock_b = snd (Socket_connect 6 0 (Some (Address_getAddr (IPv4Address (IPv4Address_new 2 80)))) None
     (IPv4Address (IPv4Address_new 2 80)) (snd (snd (Socket_close sock_a))))"

lemma sock_a_cached: "\<exists>a. sk_remoteAddress sock_a = Some a" "\<exists>a. sk_localAddress sock_a = Some a"
  by (simp_all add: sock_a_def Socket_connect_def Socket_CreateTCPSocket_def Socket_new_def Socket_newSock_def
      Socket_isValid_def Socket_getRemoteAddress_def Address_getFamily_def segment_def IPv4Address_new_def
      of_le_bytes_le_bytes AF_INET_def Socket_getLocalAddress_def)

theorem socket_lifecycle_witness:
  "\<exists>a l. sk_remoteAddress sock_a = Some a \<and> Socket_getRemoteAddress None sock_b = (a, sock_b)
    \<and> sk_localAddress sock_a = Some l \<and> Socket_getLocalAddress None sock_b = (l, sock_b)
    \<and> Socket_transfer 3 (snd (snd (Socket_close sock_a))) = - 1"
proof -
  obtain a l where a: "sk_remoteAddress sock_a = Some a" "sk_localAddress sock_a = Some l" using sock_a_cached by blast
  have r: "socket_reach sock_a"
    unfolding sock_a_def Socket_CreateTCPSocket_def by (intro socket_reach.connect socket_reach.create)
  have "socket_step sock_a (snd (snd (Socket_close sock_a)))" by (rule s_close)
  moreover have "socket_step (snd (snd (Socket_close sock_a))) sock_b" unfolding sock_b_def by (rule s_connect)
  ultimately have s: "socket_step\<^sup>*\<^sup>* sock_a sock_b" by (meson rtranclp.simps)
  obtain x y z where c: "Socket_close sock_a = (x, y, z)" using prod_cases3 by blast
  show ?thesis using socket_lifecycle [OF r c, of 3 sock_b None None] s a c by auto
qed

section \<open>Timeouts\<close>

lemma sint_small: "n < 2 ^ 31 \<Longrightarrow> sint (of_nat n :: u32) = int n"
  using int32_id [of "int n"] by (simp add: int32_def)

lemma scast_small: "n < 2 ^ 31 \<Longrightarrow> (scast (of_nat n :: u32) :: u64) = of_nat n"
  by (simp only: scast_eq sint_small of_int_of_nat_eq)

lemma timeval_ms:
  assumes "v < 2 ^ 31 * 1000"
  shows "(case Socket_timeval v of (s, us) \<Rightarrow> s * 1000 + of_int (sint us sdiv 1000)) = v"
proof -
  define q where "q = unat v div 1000"
  define r where "r = unat v mod 1000"
  have q: "q < 2 ^ 31" and r: "r < 1000"
    using assms by (simp_all add: q_def r_def word_less_nat_alt less_mult_imp_div_less)
  have "q = unat (v div 1000)" "r = unat (v mod 1000)" by (simp_all add: q_def r_def unat_div unat_mod)
  then have "(ucast (v div 1000) :: u32) = of_nat q" "(ucast (v mod 1000) * 1000 :: u32) = of_nat (r * 1000)"
    by simp_all
  then have "Socket_timeval v = (of_nat q, of_nat (r * 1000))"
    using scast_small [OF q] scast_small [of "r * 1000"] r by (simp only: Socket_timeval_def) simp
  moreover have "sint (of_nat (r * 1000) :: u64) = int (r * 1000)"
    using r by (simp add: signed_of_nat signed_take_bit_int_eq_self del: of_nat_mult)
  moreover have "int (r * 1000) sdiv 1000 = int r"
    by (cases "r = 0") (simp_all add: signed_divide_int_def sgn_if)
  moreover have "(of_nat q * 1000 + of_nat r :: u64) = of_nat (unat v)"
  proof -
    have "unat v = q * 1000 + r" by (simp add: q_def r_def)
    then show ?thesis by (simp only: of_nat_add of_nat_mult of_nat_numeral)
  qed
  ultimately show ?thesis by (simp del: of_nat_mult)
qed

text \<open>
  A timeout set on a socket is the timeout the hooked calls use: through the \<^verbatim>\<open>timeval\<close> that
  \<^verbatim>\<open>setRecvTimeout\<close> builds and the arithmetic of the hooked \<^verbatim>\<open>setsockopt\<close>, a value below \<open>2 ^ 31\<close>
  seconds arrives in the descriptor's context unchanged in milliseconds, for either direction and without
  touching the other one; a value below \<open>2 ^ 31\<close> milliseconds is what \<^verbatim>\<open>getRecvTimeout\<close> answers.
\<close>

theorem socket_timeout_roundtrip:
  assumes "v < 2 ^ 31 * 1000"
  shows "(\<exists>c'. Socket_setTimeout True is_rcv v (Some c) = Some c' \<and> FdCtx_getTimeout is_rcv c' = v
      \<and> FdCtx_getTimeout (\<not> is_rcv) c' = FdCtx_getTimeout (\<not> is_rcv) c
      \<and> (v < 2 ^ 31 \<longrightarrow> Socket_getTimeout is_rcv (Some c') = uint v))
    \<and> Socket_getTimeout is_rcv None = - 1"
proof -
  have "Socket_setTimeout True is_rcv v (Some c) = Some (FdCtx_setTimeout is_rcv v c)"
    using timeval_ms [OF assms] by (auto simp: Socket_setTimeout_def hook_setsockopt_def split: prod.splits)
  moreover have "sint (ucast v :: u32) = uint v" if "v < 2 ^ 31"
    using that sint_small [of "unat v"] by (simp add: word_less_nat_alt)
  ultimately show ?thesis
    by (auto simp: FdCtx_setTimeout_def FdCtx_getTimeout_def Socket_getTimeout_def)
qed

theorem socket_timeout_roundtrip_witness:
  "Socket_getTimeout True (Socket_setTimeout True True 120000
     (Some \<lparr>fc_isInit = True, fc_isSocket = True, fc_sysNonblock = True, fc_userNonblock = False, fc_isClose = False,
            fc_fd = 7, fc_recvTimeout = - 1, fc_sendTimeout = - 1\<rparr>)) = 120000"
proof -
  let ?c = "\<lparr>fc_isInit = True, fc_isSocket = True, fc_sysNonblock = True, fc_userNonblock = False, fc_isClose = False,
            fc_fd = 7, fc_recvTimeout = - 1, fc_sendTimeout = - 1\<rparr>"
  have "(120000 :: u64) < 2 ^ 31 * 1000" and *: "(120000 :: u64) < 2 ^ 31" by simp_all
  from socket_timeout_roundtrip [OF this(1), of True ?c] obtain c' where
    "Socket_setTimeout True True 120000 (Some ?c) = Some c'"
    "(120000 :: u64) < 2 ^ 31 \<longrightarrow> Socket_getTimeout True (Some c') = uint (120000 :: u64)" by blast
  then show ?thesis using * by simp
qed

end
