(* ===== verification/Stream.thy ===== *)
theory Stream
  imports Socket Byte_Array_Correct
begin

text \<open>
  Model of \<^verbatim>\<open>src/src/stream.cpp\<close> and \<^verbatim>\<open>socket_stream.cpp\<close>: the loops that transfer a fixed number of
  bytes over an abstract \<^verbatim>\<open>read\<close> or \<^verbatim>\<open>write\<close>, and the stream over a socket that provides them.
  A call that waits for an answer the peer never gives has the value \<open>None\<close>.
\<close>

section \<open>Stream\<close>

text \<open>
  \<open>rd left s\<close> is \<^verbatim>\<open>read(buffer + offset, left)\<close>: the return value, the bytes it stored and the new
  state. The loop gives the value it returns early with, if any, and the bytes stored so far.
\<close>

partial_function (option) readFixSize_loop ::
    "(u64 \<Rightarrow> 's \<Rightarrow> (int \<times> u8 list \<times> 's) option) \<Rightarrow> u64 \<Rightarrow> u8 list \<Rightarrow> 's
      \<Rightarrow> (int option \<times> u8 list \<times> 's) option" where
  "readFixSize_loop rd left buf s =
     (if left = 0 then Some (None, buf, s)
      else Option.bind (rd left s) (\<lambda>(len, bs, s').
        if len \<le> 0 then Some (Some len, buf, s')
        else readFixSize_loop rd (left - word_of_int len) (buf @ bs) s'))"

definition returned :: "u64 \<Rightarrow> int option \<Rightarrow> int" where
  "returned len r = (case r of Some r \<Rightarrow> r | None \<Rightarrow> int32 (uint len))"

definition Stream_readFixSize ::
    "(u64 \<Rightarrow> 's \<Rightarrow> (int \<times> u8 list \<times> 's) option) \<Rightarrow> u64 \<Rightarrow> 's \<Rightarrow> (int \<times> u8 list \<times> 's) option" where
  "Stream_readFixSize rd len s =
     map_option (\<lambda>(r, buf, s'). (returned len r, buf, s')) (readFixSize_loop rd len [] s)"

text \<open>The loops over a \<^verbatim>\<open>ByteArray\<close> keep their data in the state and can fail in it.\<close>

partial_function (option) fixSize_ba_loop ::
    "(u64 \<Rightarrow> 's \<Rightarrow> ('e + (int \<times> 's)) option) \<Rightarrow> u64 \<Rightarrow> 's \<Rightarrow> ('e + (int option \<times> 's)) option" where
  "fixSize_ba_loop io left s =
     (if left = 0 then Some (Inr (None, s))
      else Option.bind (io left s) (\<lambda>r.
        case r of
          Inl e \<Rightarrow> Some (Inl e)
        | Inr (len, s') \<Rightarrow>
            if len \<le> 0 then Some (Inr (Some len, s')) else fixSize_ba_loop io (left - word_of_int len) s'))"

definition Stream_readFixSize_ba ::
    "(u64 \<Rightarrow> 's \<Rightarrow> ('e + (int \<times> 's)) option) \<Rightarrow> u64 \<Rightarrow> 's \<Rightarrow> ('e + (int \<times> 's)) option" where
  "Stream_readFixSize_ba rd len s =
     map_option (\<lambda>x. rbind x (\<lambda>(r, s'). Inr (returned len r, s'))) (fixSize_ba_loop rd len s)"

text \<open>\<open>wr buf s\<close> is \<^verbatim>\<open>write(buffer + offset, left)\<close> with the bytes that are left.\<close>

partial_function (option) writeFixSize_loop ::
    "(u8 list \<Rightarrow> 's \<Rightarrow> (int \<times> 's) option) \<Rightarrow> u8 list \<Rightarrow> u64 \<Rightarrow> u64 \<Rightarrow> 's \<Rightarrow> (int option \<times> 's) option" where
  "writeFixSize_loop wr buf offset left s =
     (if left = 0 then Some (None, s)
      else Option.bind (wr (segment (unat offset) (unat left) buf) s) (\<lambda>(len, s').
        if len \<le> 0 then Some (Some len, s')
        else writeFixSize_loop wr buf (offset + word_of_int len) (left - word_of_int len) s'))"

definition Stream_writeFixSize ::
    "(u8 list \<Rightarrow> 's \<Rightarrow> (int \<times> 's) option) \<Rightarrow> u8 list \<Rightarrow> u64 \<Rightarrow> 's \<Rightarrow> (int \<times> 's) option" where
  "Stream_writeFixSize wr buf len s =
     map_option (\<lambda>(r, s'). (returned len r, s')) (writeFixSize_loop wr buf 0 len s)"

definition Stream_writeFixSize_ba ::
    "(u64 \<Rightarrow> 's \<Rightarrow> ('e + (int \<times> 's)) option) \<Rightarrow> u64 \<Rightarrow> 's \<Rightarrow> ('e + (int \<times> 's)) option" where
  "Stream_writeFixSize_ba wr len s =
     map_option (\<lambda>x. rbind x (\<lambda>(r, s'). Inr (returned len r, s'))) (fixSize_ba_loop wr len s)"

lemma returned_id:
  assumes "unat n < 2 ^ 31"
  shows "returned n None = int (unat n)"
proof -
  have "int32 (int m) = int m" if "m < 2 ^ 31" for m using that int32_id [of "int m"] by simp
  from this [OF assms] show ?thesis by (simp add: returned_def)
qed

text \<open>What every single read keeps, the loop keeps.\<close>

lemma loop_frame:
  assumes "\<And>n s len bs s'. rd n s = Some (len, bs, s') \<Longrightarrow> f s' = f s"
    and "readFixSize_loop rd n buf s = Some y"
  shows "f (snd (snd y)) = f s"
proof -
  have "rd = rd \<longrightarrow> f (snd (snd y)) = f s"
  proof (rule readFixSize_loop.raw_induct [where P = "\<lambda>rd' n buf s y. rd' = rd \<longrightarrow> f (snd (snd y)) = f s", OF _ assms(2)],
      intro impI)
    fix loop rd' left buf s z
    assume ih: "\<And>rd' n buf s y. loop rd' n buf s = Some y \<Longrightarrow> rd' = rd \<longrightarrow> f (snd (snd y)) = f s"
      and body: "(if left = 0 then Some (None, buf, s)
        else Option.bind (rd' left s) (\<lambda>(len, bs, s'). if len \<le> 0 then Some (Some len, buf, s')
          else loop rd' (left - word_of_int len) (buf @ bs) s')) = Some z"
      and rd: "rd' = rd"
    show "f (snd (snd z)) = f s"
    proof (cases "left = 0")
      case True
      then show ?thesis using body by auto
    next
      case False
      then obtain len bs s' where r: "rd left s = Some (len, bs, s')"
          "(if len \<le> 0 then Some (Some len, buf, s') else loop rd (left - word_of_int len) (buf @ bs) s') = Some z"
        using body unfolding rd by (auto simp: bind_eq_Some_conv)
      have "f (snd (snd z)) = f s'" using r(2) ih by (cases "len \<le> 0") auto
      then show ?thesis using assms(1) [OF r(1)] by simp
    qed
  qed
  then show ?thesis by simp
qed

lemma write_loop_frame:
  assumes "\<And>buf s len s'. wr buf s = Some (len, s') \<Longrightarrow> f s' = f s"
    and "writeFixSize_loop wr buf offset n s = Some y"
  shows "f (snd y) = f s"
proof -
  have "wr = wr \<longrightarrow> f (snd y) = f s"
  proof (rule writeFixSize_loop.raw_induct [where P = "\<lambda>wr' buf offset n s y. wr' = wr \<longrightarrow> f (snd y) = f s", OF _ assms(2)],
      intro impI)
    fix loop wr' buf offset left s z
    assume ih: "\<And>wr' buf offset n s y. loop wr' buf offset n s = Some y \<Longrightarrow> wr' = wr \<longrightarrow> f (snd y) = f s"
      and body: "(if left = 0 then Some (None, s)
        else Option.bind (wr' (segment (unat offset) (unat left) buf) s) (\<lambda>(len, s'). if len \<le> 0 then Some (Some len, s')
          else loop wr' buf (offset + word_of_int len) (left - word_of_int len) s')) = Some z"
      and wr: "wr' = wr"
    show "f (snd z) = f s"
    proof (cases "left = 0")
      case True
      then show ?thesis using body by auto
    next
      case False
      then obtain len s' where r: "wr (segment (unat offset) (unat left) buf) s = Some (len, s')"
          "(if len \<le> 0 then Some (Some len, s') else loop wr buf (offset + word_of_int len) (left - word_of_int len) s') = Some z"
        using body unfolding wr by (auto simp: bind_eq_Some_conv)
      have "f (snd z) = f s'" using r(2) ih by (cases "len \<le> 0") auto
      then show ?thesis using assms(1) [OF r(1)] by simp
    qed
  qed
  then show ?thesis by simp
qed

section \<open>The contract of a stream\<close>

text \<open>
  What a client relies on: \<open>incoming s\<close> are the bytes that arrive before the stream ends or fails.
  A read of at most \<open>2 ^ 31 - 1\<close> bytes gives a non-empty prefix of them, not longer than asked for,
  and stops only when there are none.
\<close>

locale stream_reader =
  fixes rd :: "u64 \<Rightarrow> 's \<Rightarrow> (int \<times> u8 list \<times> 's) option"
    and incoming :: "'s \<Rightarrow> u8 list"
  assumes rd_some: "0 < n \<Longrightarrow> n < 2 ^ 31 \<Longrightarrow> incoming s \<noteq> []
      \<Longrightarrow> \<exists>bs s'. rd n s = Some (int (length bs), bs, s') \<and> bs \<noteq> [] \<and> length bs \<le> unat n
            \<and> incoming s = bs @ incoming s'"
    and rd_end: "rd n s = Some (len, bs, s') \<Longrightarrow> incoming s = [] \<Longrightarrow> len \<le> 0"
begin

lemma unat_minus_len:
  assumes "length bs \<le> unat (n :: u64)"
  shows "unat (n - word_of_int (int (length bs))) = unat n - length bs"
proof -
  have "unat (of_nat (length bs) :: u64) = length bs"
    using assms unat_lt2p [of n] by (intro unat_of_nat_small) simp
  then show ?thesis using assms by (simp add: unat_sub word_le_nat_alt)
qed

text \<open>When enough bytes arrive, the loop ends and has read exactly them.\<close>

lemma loop_complete:
  assumes "unat n \<le> length (incoming s)" and "unat n < 2 ^ 31"
  shows "\<exists>s'. readFixSize_loop rd n buf s = Some (None, buf @ take (unat n) (incoming s), s')
     \<and> incoming s' = drop (unat n) (incoming s)"
  using assms
proof (induction "unat n" arbitrary: n s buf rule: less_induct)
  case less
  show ?case
  proof (cases "n = 0")
    case True
    then show ?thesis by (simp add: readFixSize_loop.simps)
  next
    case False
    then have "0 < n" "0 < unat n" by (simp_all add: word_neq_0_conv unat_gt_0)
    moreover have "incoming s \<noteq> []" "n < 2 ^ 31"
      using less.prems \<open>0 < unat n\<close> by (auto simp: word_less_nat_alt)
    ultimately obtain bs s' where r: "rd n s = Some (int (length bs), bs, s')" "bs \<noteq> []"
      and l: "length bs \<le> unat n" and inc: "incoming s = bs @ incoming s'" using rd_some by blast
    have m: "unat (n - word_of_int (int (length bs))) = unat n - length bs" using l by (rule unat_minus_len)
    then have "unat (n - word_of_int (int (length bs))) < unat n" using r(2) \<open>0 < unat n\<close> by simp
    then obtain s'' where
      "readFixSize_loop rd (n - word_of_int (int (length bs))) (buf @ bs) s'
         = Some (None, (buf @ bs) @ take (unat n - length bs) (incoming s'), s'')"
      "incoming s'' = drop (unat n - length bs) (incoming s')"
      using less.hyps [of "n - word_of_int (int (length bs))" s' "buf @ bs"] less.prems inc
      unfolding m by (auto simp: le_diff_conv)
    moreover have "readFixSize_loop rd n buf s
        = readFixSize_loop rd (n - word_of_int (int (length bs))) (buf @ bs) s'"
      using r False by (subst readFixSize_loop.simps) simp
    ultimately show ?thesis using inc l by auto
  qed
qed

text \<open>When too few arrive, the loop returns early or not at all.\<close>

lemma loop_short:
  assumes "length (incoming s) < unat n" and "unat n < 2 ^ 31"
    and "readFixSize_loop rd n buf s = Some (r, out, s')"
  shows "\<exists>len. r = Some len \<and> len \<le> 0 \<and> out = buf @ incoming s"
  using assms
proof (induction "unat n" arbitrary: n s buf rule: less_induct)
  case less
  have n0: "n \<noteq> 0" using less.prems(1) by auto
  then obtain len bs s1 where r: "rd n s = Some (len, bs, s1)"
    and k: "(if len \<le> 0 then Some (Some len, buf, s1)
        else readFixSize_loop rd (n - word_of_int len) (buf @ bs) s1) = Some (r, out, s')"
    using less.prems(3) by (subst (asm) readFixSize_loop.simps) (auto simp: Option.bind_eq_Some_conv)
  show ?case
  proof (cases "incoming s = []")
    case True
    then show ?thesis using rd_end [OF r] k by auto
  next
    case False
    moreover have "0 < n" "n < 2 ^ 31"
      using n0 less.prems(2) by (simp_all add: word_neq_0_conv word_less_nat_alt)
    ultimately have f: "len = int (length bs)" "bs \<noteq> []" "length bs \<le> unat n" "incoming s = bs @ incoming s1"
      using rd_some [of n s] r by auto
    have m: "unat (n - word_of_int len) = unat n - length bs" using f(1,3) unat_minus_len by simp
    then have "unat (n - word_of_int len) < unat n" using f(2) less.prems(1) by simp
    moreover have "length (incoming s1) < unat (n - word_of_int len)" "unat (n - word_of_int len) < 2 ^ 31"
      using m f less.prems(1,2) by auto
    moreover have "readFixSize_loop rd (n - word_of_int len) (buf @ bs) s1 = Some (r, out, s')"
      using k f(1,2) by simp
    ultimately have "\<exists>len. r = Some len \<and> len \<le> 0 \<and> out = (buf @ bs) @ incoming s1"
      by (intro less.hyps)
    then show ?thesis using f(4) by simp
  qed
qed

lemma readFixSize_complete:
  assumes "unat n \<le> length (incoming s)" and "unat n < 2 ^ 31"
  shows "\<exists>s'. Stream_readFixSize rd n s = Some (int (unat n), take (unat n) (incoming s), s')
     \<and> incoming s' = drop (unat n) (incoming s)"
  using loop_complete [OF assms, of "[]"] returned_id [OF assms(2)] by (auto simp: Stream_readFixSize_def)

lemma readFixSize_short:
  assumes "length (incoming s) < unat n" and "unat n < 2 ^ 31"
    and "Stream_readFixSize rd n s = Some (r, out, s')"
  shows "r \<le> 0 \<and> out = incoming s"
  using loop_short [OF assms(1,2)] assms(3) by (fastforce simp: Stream_readFixSize_def returned_def)

end

text \<open>A write takes a non-empty prefix of the bytes, which joins \<open>outgoing s\<close>, or nothing and stops.\<close>

locale stream_writer =
  fixes wr :: "u8 list \<Rightarrow> 's \<Rightarrow> (int \<times> 's) option"
    and outgoing :: "'s \<Rightarrow> u8 list"
  assumes wr_some: "wr buf s = Some (len, s') \<Longrightarrow> length buf < 2 ^ 31 \<Longrightarrow> 0 < len
      \<Longrightarrow> nat len \<le> length buf \<and> outgoing s' = outgoing s @ take (nat len) buf"
    and wr_stop: "wr buf s = Some (len, s') \<Longrightarrow> length buf < 2 ^ 31 \<Longrightarrow> len \<le> 0 \<Longrightarrow> outgoing s' = outgoing s"
begin

lemma write_loop:
  assumes "unat offset + unat left = length buf" and "length buf < 2 ^ 31"
    and "writeFixSize_loop wr buf offset left s = Some (r, s')"
  shows "\<exists>k \<le> unat left. outgoing s' = outgoing s @ segment (unat offset) k buf
     \<and> (case r of None \<Rightarrow> k = unat left | Some len \<Rightarrow> len \<le> 0)"
  using assms
proof (induction "unat left" arbitrary: left offset s rule: less_induct)
  case less
  show ?case
  proof (cases "left = 0")
    case True
    then show ?thesis using less.prems(3) by (simp add: writeFixSize_loop.simps)
  next
    case False
    then obtain len s1 where w: "wr (segment (unat offset) (unat left) buf) s = Some (len, s1)"
      and k: "(if len \<le> 0 then Some (Some len, s1)
          else writeFixSize_loop wr buf (offset + word_of_int len) (left - word_of_int len) s1) = Some (r, s')"
      using less.prems(3) by (subst (asm) writeFixSize_loop.simps) (auto simp: Option.bind_eq_Some_conv)
    have lb: "length (segment (unat offset) (unat left) buf) = unat left" using less.prems(1) by simp
    then have lt: "length (segment (unat offset) (unat left) buf) < 2 ^ 31" using less.prems(1,2) by simp
    show ?thesis
    proof (cases "len \<le> 0")
      case True
      then show ?thesis using wr_stop [OF w lt] k by (intro exI [of _ 0]) auto
    next
      case pos: False
      define l where "l = nat len"
      have len: "len = int l" "0 < l" using pos by (simp_all add: l_def)
      have out: "l \<le> unat left" "outgoing s1 = outgoing s @ take l (segment (unat offset) (unat left) buf)"
        using wr_some [OF w lt] pos lb by (simp_all add: l_def)
      have ul: "unat (of_nat l :: u64) = l"
        using out(1) unat_lt2p [of left] by (intro unat_of_nat_small) simp
      have a: "unat (left - word_of_int len) = unat left - l"
        using ul out(1) by (simp add: len unat_sub word_le_nat_alt)
      have b: "unat (offset + word_of_int len) = unat offset + l"
        using ul out(1) less.prems(1,2) by (simp add: len unat_word_ariths take_bit_eq_mod)
      have "unat (left - word_of_int len) < unat left" using a len(2) out(1) by simp
      moreover have "unat (offset + word_of_int len) + unat (left - word_of_int len) = length buf"
        using a b out(1) less.prems(1) by simp
      moreover have "writeFixSize_loop wr buf (offset + word_of_int len) (left - word_of_int len) s1 = Some (r, s')"
        using k pos by simp
      ultimately obtain k' where k': "k' \<le> unat left - l"
        "outgoing s' = outgoing s1 @ segment (unat offset + l) k' buf"
        "case r of None \<Rightarrow> k' = unat left - l | Some len \<Rightarrow> len \<le> 0"
        using less.hyps [of "left - word_of_int len" "offset + word_of_int len" s1] less.prems(2)
        unfolding a b by auto
      have "take l (segment (unat offset) (unat left) buf) = segment (unat offset) l buf"
        using out(1) by (simp add: segment_def min_def)
      then have "outgoing s' = outgoing s @ segment (unat offset) (l + k') buf"
        using k'(2) out(2) by (simp add: segment_append)
      then show ?thesis using k' out(1) by (intro exI [of _ "l + k'"]) (auto split: option.splits)
    qed
  qed
qed

lemma writeFixSize_prefix:
  assumes "length buf < 2 ^ 31" and "Stream_writeFixSize wr buf (of_nat (length buf)) s = Some (r, s')"
  shows "\<exists>k \<le> length buf. outgoing s' = outgoing s @ take k buf \<and> (r \<le> 0 \<or> k = length buf \<and> r = int (length buf))"
proof -
  have u: "unat (of_nat (length buf) :: u64) = length buf" using assms(1) by (intro unat_of_nat_small) simp
  obtain r0 where l: "writeFixSize_loop wr buf 0 (of_nat (length buf)) s = Some (r0, s')"
    and r: "r = returned (of_nat (length buf)) r0" using assms(2) by (auto simp: Stream_writeFixSize_def)
  obtain k where k: "k \<le> length buf" "outgoing s' = outgoing s @ take k buf"
    "case r0 of None \<Rightarrow> k = length buf | Some len \<Rightarrow> len \<le> 0"
    using write_loop [OF _ assms(1) l] unfolding u by (auto simp: segment_def)
  have "returned (of_nat (length buf)) None = int (length buf)"
    using assms(1) u returned_id [of "of_nat (length buf)"] by (simp only:)
  then show ?thesis using k r by (intro exI [of _ k]) (auto simp: returned_def split: option.splits)
qed

end

end
