(* ===== verification/Socket_Stream.thy ===== *)
theory Socket_Stream
  imports Stream
begin

text \<open>
  Model of \<^verbatim>\<open>src/src/socket_stream.cpp\<close>: a socket as a stream. The peer and the kernel are the
  data of a connection: what each \<^verbatim>\<open>recv\<close> finds (bytes, the end of the stream as an empty string, or
  an error) and how many bytes each \<^verbatim>\<open>send\<close> takes.
\<close>

section \<open>Connections\<close>

datatype recv_answer = Deliver "u8 list" | Recv_fail
datatype send_answer = Accept nat | Send_fail

record conn =
  cn_socket :: Socket
  cn_in :: "recv_answer list"
  cn_send :: "send_answer list"
  cn_out :: "u8 list"

text \<open>
  \<^verbatim>\<open>::recv\<close> with room for \<open>n\<close> bytes: what does not fit stays for the next call. \<open>None\<close>: it
  waits for ever.
\<close>

definition sys_recv :: "nat \<Rightarrow> conn \<Rightarrow> (int \<times> u8 list \<times> conn) option" where
  "sys_recv n c =
     (case cn_in c of
        [] \<Rightarrow> None
      | Recv_fail # r \<Rightarrow> Some (- 1, [], c\<lparr>cn_in := r\<rparr>)
      | Deliver bs # r \<Rightarrow>
          if length bs \<le> n then Some (int (length bs), bs, c\<lparr>cn_in := r\<rparr>)
          else Some (int n, take n bs, c\<lparr>cn_in := Deliver (drop n bs) # r\<rparr>))"

definition sys_send :: "u8 list \<Rightarrow> conn \<Rightarrow> (int \<times> conn) option" where
  "sys_send buf c =
     (case cn_send c of
        [] \<Rightarrow> None
      | Send_fail # r \<Rightarrow> Some (- 1, c\<lparr>cn_send := r\<rparr>)
      | Accept k # r \<Rightarrow>
          Some (int (min k (length buf)), c\<lparr>cn_send := r, cn_out := cn_out c @ take k buf\<rparr>))"

text \<open>\<^verbatim>\<open>Socket::recv\<close> and \<^verbatim>\<open>Socket::send\<close>: guarded, and the result converted to \<^verbatim>\<open>int\<close>.\<close>

definition Socket_recv :: "nat \<Rightarrow> conn \<Rightarrow> (int \<times> u8 list \<times> conn) option" where
  "Socket_recv n c =
     (if sk_isConnected (cn_socket c)
      then map_option (\<lambda>(r, bs, c'). (int32 r, bs, c')) (sys_recv n c)
      else Some (- 1, [], c))"

definition Socket_send :: "u8 list \<Rightarrow> conn \<Rightarrow> (int \<times> conn) option" where
  "Socket_send buf c =
     (if sk_isConnected (cn_socket c)
      then map_option (\<lambda>(r, c'). (int32 r, c')) (sys_send buf c)
      else Some (- 1, c))"

section \<open>SocketStream\<close>

definition SocketStream_isConnected :: "conn \<Rightarrow> bool" where
  "SocketStream_isConnected c = sk_isConnected (cn_socket c)"

definition SocketStream_read :: "u64 \<Rightarrow> conn \<Rightarrow> (int \<times> u8 list \<times> conn) option" where
  "SocketStream_read n c =
     (if \<not> SocketStream_isConnected c then Some (- 1, [], c) else Socket_recv (unat n) c)"

definition SocketStream_write :: "u8 list \<Rightarrow> conn \<Rightarrow> (int \<times> conn) option" where
  "SocketStream_write buf c =
     (if \<not> SocketStream_isConnected c then Some (- 1, c) else Socket_send buf c)"

definition SocketStream_close :: "conn \<Rightarrow> conn" where
  "SocketStream_close c = c\<lparr>cn_socket := snd (snd (Socket_close (cn_socket c)))\<rparr>"

text \<open>The destructor closes the socket of a stream that owns it.\<close>

definition SocketStream_destroy :: "bool \<Rightarrow> conn \<Rightarrow> conn" where
  "SocketStream_destroy owner c = (if owner then SocketStream_close c else c)"

text \<open>
  \<^verbatim>\<open>recvmsg\<close> stores the received bytes through the buffers in order; \<^verbatim>\<open>sendmsg\<close> sends what they hold.
\<close>

fun scatter :: "iovec list \<Rightarrow> u8 list \<Rightarrow> u8 list list \<Rightarrow> u8 list list" where
  "scatter [] bs nodes = nodes"
| "scatter (v # vs) bs nodes =
     scatter vs (drop (iov_len v) bs)
       (nodes[iov_node v := overwrite (nodes ! iov_node v) (iov_off v) (take (iov_len v) bs)])"

definition SocketStream_read_ba ::
    "u64 \<Rightarrow> byte_array \<times> conn \<Rightarrow> (ba_error + (int \<times> byte_array \<times> conn)) option" where
  "SocketStream_read_ba n = (\<lambda>(ba, c).
     if \<not> SocketStream_isConnected c then Some (Inr (- 1, ba, c))
     else case ByteArray_getWriteBuffers ba (unat n) of
         Inl e \<Rightarrow> Some (Inl e)
       | Inr (iovs, _, ba1) \<Rightarrow>
           map_option (\<lambda>(res, bs, c').
             let ba2 = ba1\<lparr>m_nodes := scatter iovs bs (m_nodes ba1)\<rparr> in
             if res > 0 then rbind (ByteArray_setPosition ba2 (m_position ba2 + nat res)) (\<lambda>ba3. Inr (res, ba3, c'))
             else Inr (res, ba2, c'))
             (Socket_recv (sum_list (map iov_len iovs)) c))"

text \<open>\<^verbatim>\<open>write\<close> asks for \<^verbatim>\<open>iovs.size()\<close> bytes of a vector that is still empty, not for \<^verbatim>\<open>length\<close>.\<close>

definition SocketStream_write_ba ::
    "u64 \<Rightarrow> byte_array \<times> conn \<Rightarrow> (ba_error + (int \<times> byte_array \<times> conn)) option" where
  "SocketStream_write_ba n = (\<lambda>(ba, c).
     if \<not> SocketStream_isConnected c then Some (Inr (- 1, ba, c))
     else case ByteArray_getReadBuffers ba (length ([] :: iovec list)) of
         Inl e \<Rightarrow> Some (Inl e)
       | Inr (iovs, _) \<Rightarrow>
           map_option (\<lambda>(res, c').
             if res > 0 then rbind (ByteArray_setPosition ba (m_position ba + nat res)) (\<lambda>ba1. Inr (res, ba1, c'))
             else Inr (res, ba, c'))
             (Socket_send (concat (map (iov_bytes ba) iovs)) c))"

text \<open>The bytes that arrive before the first end or error.\<close>

fun delivered :: "recv_answer list \<Rightarrow> u8 list" where
  "delivered (Deliver bs # r) = (if bs = [] then [] else bs @ delivered r)"
| "delivered _ = []"

definition arriving :: "conn \<Rightarrow> u8 list" where
  "arriving c = (if SocketStream_isConnected c then delivered (cn_in c) else [])"

lemma SocketStream_read_some:
  assumes "0 < n" and "n < 2 ^ 31" and "arriving c \<noteq> []"
  shows "\<exists>bs c'. SocketStream_read n c = Some (int (length bs), bs, c') \<and> bs \<noteq> [] \<and> length bs \<le> unat n
     \<and> arriving c = bs @ arriving c'"
proof -
  from assms(3) obtain bs r where i: "cn_in c = Deliver bs # r" "bs \<noteq> []" and con: "SocketStream_isConnected c"
    by (cases "cn_in c" rule: delivered.cases) (auto simp: arriving_def split: if_splits)
  have n: "0 < unat n" "unat n < 2 ^ 31" using assms(1,2) by (simp_all add: word_less_nat_alt)
  have small: "int32 (int k) = int k" if "k \<le> unat n" for k using that n(2) int32_id [of "int k"] by simp
  show ?thesis
  proof (cases "length bs \<le> unat n")
    case True
    then show ?thesis
      using i con small by (simp add: SocketStream_read_def Socket_recv_def sys_recv_def arriving_def
          SocketStream_isConnected_def)
  next
    case False
    then have "length (take (unat n) bs) = unat n" "drop (unat n) bs \<noteq> []" by simp_all
    moreover have "SocketStream_read n c
        = Some (int (length (take (unat n) bs)), take (unat n) bs, c\<lparr>cn_in := Deliver (drop (unat n) bs) # r\<rparr>)"
      using i con False small [of "unat n"]
      by (simp add: SocketStream_read_def Socket_recv_def sys_recv_def SocketStream_isConnected_def)
    ultimately show ?thesis
      using i con n(1) by (intro exI [of _ "take (unat n) bs"] exI [of _ "c\<lparr>cn_in := Deliver (drop (unat n) bs) # r\<rparr>"])
        (auto simp: arriving_def SocketStream_isConnected_def)
  qed
qed

lemma SocketStream_read_end:
  assumes "SocketStream_read n c = Some (len, bs, c')" and "arriving c = []"
  shows "len \<le> 0"
proof (cases "SocketStream_isConnected c")
  case True
  then have d: "delivered (cn_in c) = []" using assms(2) by (simp add: arriving_def)
  have z: "int32 0 = 0" "int32 (- 1) = - 1" using int32_id [of 0] int32_id [of "- 1"] by simp_all
  show ?thesis
    using assms(1) True d z
    by (cases "cn_in c" rule: delivered.cases)
      (auto simp: SocketStream_read_def Socket_recv_def sys_recv_def SocketStream_isConnected_def split: if_splits)
next
  case False
  then show ?thesis using assms(1) by (simp add: SocketStream_read_def)
qed

text \<open>A socket keeps the contract of a stream in both directions.\<close>

interpretation sock: stream_reader SocketStream_read arriving
  by unfold_locales (blast intro: SocketStream_read_some, rule SocketStream_read_end)

interpretation sock_out: stream_writer SocketStream_write cn_out
proof unfold_locales
  fix buf :: "u8 list" and s s' :: conn and len :: int
  assume w: "SocketStream_write buf s = Some (len, s')" and l: "length buf < 2 ^ 31"
  have small: "int32 (int k) = int k" if "k \<le> length buf" for k using that l int32_id [of "int k"] by simp
  have m: "int32 (- 1) = - 1" using int32_id [of "- 1"] by simp
  have *: "(len \<le> 0 \<and> cn_out s' = cn_out s)
      \<or> (\<exists>k. len = int (min k (length buf)) \<and> cn_out s' = cn_out s @ take k buf)"
    using w small m
    by (auto simp: SocketStream_write_def Socket_send_def sys_send_def SocketStream_isConnected_def
        split: if_splits list.splits send_answer.splits)
  show "nat len \<le> length buf \<and> cn_out s' = cn_out s @ take (nat len) buf" if "0 < len"
    using * that by (auto simp: min_def)
  show "cn_out s' = cn_out s" if "len \<le> 0" using * that by (auto simp: min_def split: if_splits)
qed

text \<open>
  \<^verbatim>\<open>readFixSize\<close> over a socket: when at least \<open>n\<close> bytes arrive before the end of the stream or an
  error, in pieces of any size, it returns \<open>n\<close> and has stored exactly the first \<open>n\<close> bytes in order,
  and the rest is left for the next read; otherwise its result, if it returns, is not positive.
\<close>

theorem socket_readFixSize:
  assumes "n < 2 ^ 31"
  shows "(unat n \<le> length (arriving c) \<longrightarrow>
      (\<exists>c'. Stream_readFixSize SocketStream_read n c = Some (int (unat n), take (unat n) (arriving c), c')
         \<and> arriving c' = drop (unat n) (arriving c)))
    \<and> (length (arriving c) < unat n \<and> Stream_readFixSize SocketStream_read n c = Some (r, buf, c1)
        \<longrightarrow> r \<le> 0 \<and> buf = arriving c)"
  using assms sock.readFixSize_complete [of n c] sock.readFixSize_short [of c n r buf c1]
  by (auto simp: word_less_nat_alt)

definition demo_conn :: conn where
  "demo_conn = \<lparr>cn_socket = (Socket_new 2 1 0)\<lparr>sk_sock := 5, sk_isConnected := True\<rparr>,
     cn_in = [Deliver [1, 2], Deliver [3, 4, 5], Recv_fail], cn_send = [Accept 1, Accept 9], cn_out = []\<rparr>"

theorem socket_readFixSize_witness:
  "\<exists>c'. Stream_readFixSize SocketStream_read 4 demo_conn = Some (4, [1, 2, 3, 4], c') \<and> arriving c' = [5]"
  using socket_readFixSize [of 4 demo_conn 0 "[]" demo_conn]
  by (simp add: demo_conn_def arriving_def SocketStream_isConnected_def)

section \<open>Writing\<close>

lemma write_step:
  assumes "SocketStream_isConnected c" and "cn_send c = Accept k # r" and "length buf < 2 ^ 31"
  shows "SocketStream_write buf c
    = Some (int (min k (length buf)), c\<lparr>cn_send := r, cn_out := cn_out c @ take k buf\<rparr>)"
  using assms int32_id [of "int (min k (length buf))"]
  by (simp add: SocketStream_write_def SocketStream_isConnected_def Socket_send_def sys_send_def)

lemma write_loop_returns:
  assumes "SocketStream_isConnected c" and "cn_send c = map Accept ks" and "\<forall>k\<in>set ks. 0 < k"
    and "unat left \<le> length ks" and "unat offset + unat left = length buf" and "length buf < 2 ^ 31"
  shows "\<exists>c'. writeFixSize_loop SocketStream_write buf offset left c = Some (None, c')"
  using assms
proof (induction ks arbitrary: c left offset)
  case Nil
  then have "left = 0" by (simp add: unat_eq_0)
  then show ?case by (simp add: writeFixSize_loop.simps)
next
  case (Cons k ks)
  show ?case
  proof (cases "left = 0")
    case True
    then show ?thesis by (simp add: writeFixSize_loop.simps)
  next
    case False
    let ?seg = "segment (unat offset) (unat left) buf" and ?l = "min k (unat left)"
    let ?c = "c\<lparr>cn_send := map Accept ks, cn_out := cn_out c @ take k ?seg\<rparr>"
    have len: "length ?seg = unat left" using Cons.prems(5) by simp
    have w: "SocketStream_write ?seg c = Some (int ?l, ?c)"
      using write_step [of c k "map Accept ks" ?seg] Cons.prems len by simp
    have pos: "0 < ?l" using False Cons.prems(3) by (simp add: unat_gt_0)
    have ul: "unat (of_nat ?l :: u64) = ?l" using unat_lt2p [of left] by (intro unat_of_nat_small) simp
    have a: "unat (left - word_of_int (int ?l)) = unat left - ?l"
      using ul by (simp add: unat_sub word_le_nat_alt)
    have b: "unat (offset + word_of_int (int ?l)) = unat offset + ?l"
      using ul Cons.prems(5,6) by (simp add: unat_word_ariths take_bit_eq_mod)
    have "\<exists>c'. writeFixSize_loop SocketStream_write buf (offset + word_of_int (int ?l)) (left - word_of_int (int ?l)) ?c
        = Some (None, c')"
      using Cons.prems pos a b by (intro Cons.IH) (auto simp: SocketStream_isConnected_def)
    then show ?thesis using False w pos by (subst writeFixSize_loop.simps) simp
  qed
qed

lemma writeFixSize_returns:
  assumes "length buf < 2 ^ 31" and h: "SocketStream_isConnected c" "cn_send c = map Accept ks" "\<forall>k\<in>set ks. 0 < k"
    "length buf \<le> length ks"
  shows "\<exists>c1. Stream_writeFixSize SocketStream_write buf (of_nat (length buf)) c = Some (int (length buf), c1)
    \<and> cn_out c1 = cn_out c @ buf"
proof -
  have u: "unat (of_nat (length buf) :: u64) = length buf" using assms by (intro unat_of_nat_small) simp
  obtain c1 where l: "writeFixSize_loop SocketStream_write buf 0 (of_nat (length buf)) c = Some (None, c1)"
    using h u assms(1) write_loop_returns [of c ks "of_nat (length buf)" 0 buf] by auto
  have "cn_out c1 = cn_out c @ buf"
    using sock_out.write_loop [OF _ assms(1) l] unfolding u by (auto simp: segment_def)
  moreover have "Stream_writeFixSize SocketStream_write buf (of_nat (length buf)) c = Some (int (length buf), c1)"
    using l returned_id [of "of_nat (length buf)"] assms unfolding u by (simp add: Stream_writeFixSize_def)
  ultimately show ?thesis by blast
qed

text \<open>
  (C34) \<^verbatim>\<open>writeFixSize\<close> over a socket never loses, repeats or reorders bytes: what it sent is a prefix of the
  buffer, all of it when the result is positive, and then the result is the length. It returns, with
  everything sent, whenever the kernel takes at least one byte per call for as many calls as there are bytes.
\<close>

theorem socket_writeFixSize:
  assumes "length buf < 2 ^ 31"
  shows "(Stream_writeFixSize SocketStream_write buf (of_nat (length buf)) c = Some (r, c') \<longrightarrow>
      (\<exists>k \<le> length buf. cn_out c' = cn_out c @ take k buf \<and> (r \<le> 0 \<or> k = length buf \<and> r = int (length buf))))
    \<and> (SocketStream_isConnected c \<and> cn_send c = map Accept ks \<and> (\<forall>k\<in>set ks. 0 < k) \<and> length buf \<le> length ks
        \<longrightarrow> (\<exists>c1. Stream_writeFixSize SocketStream_write buf (of_nat (length buf)) c = Some (int (length buf), c1)
              \<and> cn_out c1 = cn_out c @ buf))"
proof (intro conjI impI)
  assume "Stream_writeFixSize SocketStream_write buf (of_nat (length buf)) c = Some (r, c')"
  then show "\<exists>k \<le> length buf. cn_out c' = cn_out c @ take k buf \<and> (r \<le> 0 \<or> k = length buf \<and> r = int (length buf))"
    using assms by (intro sock_out.writeFixSize_prefix)
next
  assume "SocketStream_isConnected c \<and> cn_send c = map Accept ks \<and> (\<forall>k\<in>set ks. 0 < k) \<and> length buf \<le> length ks"
  then show "\<exists>c1. Stream_writeFixSize SocketStream_write buf (of_nat (length buf)) c = Some (int (length buf), c1)
              \<and> cn_out c1 = cn_out c @ buf" using writeFixSize_returns [OF assms] by blast
qed

theorem socket_writeFixSize_witness:
  "\<exists>c1. Stream_writeFixSize SocketStream_write [7, 8] 2 demo_conn = Some (2, c1) \<and> cn_out c1 = [7, 8]"
  using socket_writeFixSize [of "[7, 8]" demo_conn 0 demo_conn "[1, 9]"]
  by (simp add: demo_conn_def SocketStream_isConnected_def)

section \<open>Byte arrays\<close>

text \<open>The buffers the gathering loop finds are written like the consecutive bytes they are.\<close>

lemma scatter_spec:
  assumes "uniform b (m_nodes ba)" and "c < length (m_nodes ba)" and "npos < b" and "0 < n"
    and "c * b + npos + n \<le> length (m_nodes ba) * b"
  shows "\<exists>iovs. ByteArray_gatherLoop ba (Some c) npos (b - npos) n = Inr iovs \<and> sum_list (map iov_len iovs) = n
    \<and> (\<forall>nodes bs. uniform b nodes \<and> length nodes = length (m_nodes ba) \<and> length bs \<le> n \<longrightarrow>
         concat (scatter iovs bs nodes) = overwrite (concat nodes) (c * b + npos) bs
         \<and> uniform b (scatter iovs bs nodes) \<and> length (scatter iovs bs nodes) = length nodes)"
  using assms
proof (induction "length (m_nodes ba) - c" arbitrary: c npos n)
  case 0
  then show ?case by simp
next
  case (Suc d)
  have node: "concat (nodes[c := overwrite (nodes ! c) npos ys]) = overwrite (concat nodes) (c * b + npos) ys
      \<and> uniform b (nodes[c := overwrite (nodes ! c) npos ys])"
    if "uniform b nodes" "length nodes = length (m_nodes ba)" "length ys \<le> b - npos" for nodes and ys :: "u8 list"
  proof -
    have c: "c < length nodes" using that(2) Suc.prems(2) by simp
    have "npos + length ys \<le> b" using that(3) Suc.prems(3) by simp
    then show ?thesis using concat_update_block [OF that(1) c] uniform_nth [OF that(1) c] that(1)
      by (auto intro!: uniform_update)
  qed
  show ?case
  proof (cases "n \<le> b - npos")
    case True
    then show ?thesis
      using Suc.prems(4) node by (subst ByteArray_gatherLoop.simps) auto
  next
    case False
    let ?m = "n - (b - npos)"
    have "Suc c * b < length (m_nodes ba) * b" using Suc.prems(3,5) False by simp
    then have c': "Suc c < length (m_nodes ba)" by (simp del: mult_Suc)
    have "d = length (m_nodes ba) - Suc c" "0 < b" "0 < ?m" "Suc c * b + 0 + ?m \<le> length (m_nodes ba) * b"
      using Suc.hyps(2) Suc.prems False by auto
    then obtain iovs where i: "ByteArray_gatherLoop ba (Some (Suc c)) 0 (b - 0) ?m = Inr iovs"
      "sum_list (map iov_len iovs) = ?m"
      and sc: "\<And>nodes bs. uniform b nodes \<Longrightarrow> length nodes = length (m_nodes ba) \<Longrightarrow> length bs \<le> ?m \<Longrightarrow>
         concat (scatter iovs bs nodes) = overwrite (concat nodes) (Suc c * b + 0) bs
         \<and> uniform b (scatter iovs bs nodes) \<and> length (scatter iovs bs nodes) = length nodes"
      using Suc.hyps(1) [of "Suc c" 0 ?m] Suc.prems(1) c' by blast
    let ?v = "\<lparr>iov_node = c, iov_off = npos, iov_len = b - npos\<rparr>"
    have g: "ByteArray_gatherLoop ba (Some c) npos (b - npos) n = Inr (?v # iovs)"
      using i Suc.prems False c' uniform_nth [OF Suc.prems(1) c']
      by (subst ByteArray_gatherLoop.simps) (simp add: Node_next_def)
    have "concat (scatter (?v # iovs) bs nodes) = overwrite (concat nodes) (c * b + npos) bs
         \<and> uniform b (scatter (?v # iovs) bs nodes) \<and> length (scatter (?v # iovs) bs nodes) = length nodes"
      if u: "uniform b nodes" and l: "length nodes = length (m_nodes ba)" and le: "length bs \<le> n" for nodes bs
    proof -
      let ?ys = "take (b - npos) bs" and ?zs = "drop (b - npos) bs"
      let ?nodes = "nodes[c := overwrite (nodes ! c) npos ?ys]"
      have n1: "concat ?nodes = overwrite (concat nodes) (c * b + npos) ?ys" "uniform b ?nodes"
        using node [OF u l, of ?ys] by auto
      have s: "concat (scatter iovs ?zs ?nodes) = overwrite (concat ?nodes) (Suc c * b + 0) ?zs"
        "uniform b (scatter iovs ?zs ?nodes)" "length (scatter iovs ?zs ?nodes) = length nodes"
        using sc [OF n1(2), of ?zs] l le by auto
      have "overwrite (overwrite (concat nodes) (c * b + npos) ?ys) (Suc c * b) ?zs
          = overwrite (concat nodes) (c * b + npos) (?ys @ ?zs)"
      proof (cases "length bs \<le> b - npos")
        case True
        then show ?thesis by simp
      next
        case False
        then have "Suc c * b = c * b + npos + length ?ys" using Suc.prems(3) by simp
        moreover have "c * b + npos + length ?ys + length ?zs \<le> length (concat nodes)"
          using False le Suc.prems(5) l length_concat_uniform [OF u] by simp
        ultimately show ?thesis by (simp only: overwrite_append)
      qed
      then show ?thesis using s n1(1) by simp
    qed
    then show ?thesis using g i(2) False by (intro exI [of _ "?v # iovs"]) auto
  qed
qed

lemma getWriteBuffers_spec:
  assumes inv: "ba_inv ba" and fit: "will_fit ba n" and n: "0 < n"
  obtains iovs ba1 where "ByteArray_getWriteBuffers ba n = Inr (iovs, n, ba1)"
    and "sum_list (map iov_len iovs) = n" and "ba_inv ba1" and "m_position ba1 = m_position ba"
    and "m_size ba1 = m_size ba" and "m_position ba + n \<le> m_capacity ba1" and "\<exists>new. flat ba1 = flat ba @ new"
    and "\<And>bs. length bs \<le> n \<Longrightarrow>
         concat (scatter iovs bs (m_nodes ba1)) = overwrite (flat ba1) (m_position ba) bs
         \<and> uniform (m_baseSize ba1) (scatter iovs bs (m_nodes ba1))
         \<and> length (scatter iovs bs (m_nodes ba1)) = length (m_nodes ba1)"
proof -
  obtain ba1 where c: "ByteArray_addCapacity ba n = Inr ba1" "ba_inv ba1" "m_position ba1 = m_position ba"
    "m_size ba1 = m_size ba" "m_capacity ba1 = m_capacity ba + grow_count ba n * m_baseSize ba"
    "\<exists>new. flat ba1 = flat ba @ new"
    by (rule addCapacity_spec [OF inv, of n])
  let ?b = "m_baseSize ba1" and ?p = "m_position ba1"
  have cap: "m_position ba + n \<le> m_capacity ba1" using fit c(5) grow_count_fits_iff [OF inv, of n] by simp
  then have lt: "?p < m_capacity ba1" using n c(3) by simp
  note at = ba_inv_at_node [OF c(2) lt]
  have pre: "uniform ?b (m_nodes ba1)" "?p div ?b < length (m_nodes ba1)" "?p mod ?b < ?b"
    "?p div ?b * ?b + ?p mod ?b + n \<le> length (m_nodes ba1) * ?b"
    using at cap c(2,3) by (auto simp: at_node_def ba_inv_def)
  obtain iovs where i: "ByteArray_gatherLoop ba1 (Some (?p div ?b)) (?p mod ?b) (?b - ?p mod ?b) n = Inr iovs"
    "sum_list (map iov_len iovs) = n"
    and sc: "\<forall>nodes bs. uniform ?b nodes \<and> length nodes = length (m_nodes ba1) \<and> length bs \<le> n \<longrightarrow>
         concat (scatter iovs bs nodes) = overwrite (concat nodes) (?p div ?b * ?b + ?p mod ?b) bs
         \<and> uniform ?b (scatter iovs bs nodes) \<and> length (scatter iovs bs nodes) = length nodes"
    using scatter_spec [OF pre(1-3) n pre(4)] by blast
  have "ByteArray_getWriteBuffers ba n = Inr (iovs, n, ba1)"
    using i(1) c(1,2) n at_nodeD(1,4) [OF at] by (simp add: ByteArray_getWriteBuffers_def ba_inv_def Let_def)
  moreover have "concat (scatter iovs bs (m_nodes ba1)) = overwrite (flat ba1) (m_position ba) bs
         \<and> uniform ?b (scatter iovs bs (m_nodes ba1))
         \<and> length (scatter iovs bs (m_nodes ba1)) = length (m_nodes ba1)" if "length bs \<le> n" for bs
    using sc pre(1) that by (simp add: flat_def c(3))
  ultimately show thesis using that i(2) c cap by blast
qed

lemma Socket_recv_read: "SocketStream_isConnected c \<Longrightarrow> Socket_recv (unat n) c = SocketStream_read n c"
  by (simp add: SocketStream_read_def)

text \<open>
  Reading from a socket into a byte array: when the array's growth makes room for \<open>n\<close> bytes and bytes
  arrive, \<^verbatim>\<open>read(ba, n)\<close> stores the bytes it received at the position, across node boundaries, moves the
  position behind them and returns their number; the array then refines the old content with these bytes
  written into it. \<^verbatim>\<open>write(ba, n)\<close> sends nothing, whatever \<open>n\<close> is: it asks the array for the empty
  vector's size.
\<close>

theorem socket_byte_array:
  assumes inv: "ba_inv ba" and fit: "will_fit ba (unat n)" and n: "0 < n" "n < 2 ^ 31" and arr: "arriving c \<noteq> []"
  shows "(\<exists>bs ba' c'. SocketStream_read_ba n (ba, c) = Some (Inr (int (length bs), ba', c'))
      \<and> bs \<noteq> [] \<and> length bs \<le> unat n \<and> arriving c = bs @ arriving c' \<and> ba_inv ba'
      \<and> content ba' = overwrite (content ba) (m_position ba) bs
      \<and> m_position ba' = m_position ba + length bs)
    \<and> (SocketStream_write_ba m (ba, c) = Some (Inr (r, ba1, c1)) \<longrightarrow> r \<le> 0 \<and> ba1 = ba \<and> cn_out c1 = cn_out c)"
proof
  have con: "SocketStream_isConnected c" using arr by (auto simp: arriving_def split: if_splits)
  obtain iovs ba1 where g: "ByteArray_getWriteBuffers ba (unat n) = Inr (iovs, unat n, ba1)"
    "sum_list (map iov_len iovs) = unat n" "ba_inv ba1" "m_position ba1 = m_position ba" "m_size ba1 = m_size ba"
    "m_position ba + unat n \<le> m_capacity ba1" "\<exists>new. flat ba1 = flat ba @ new"
    and sc: "\<And>bs. length bs \<le> unat n \<Longrightarrow>
         concat (scatter iovs bs (m_nodes ba1)) = overwrite (flat ba1) (m_position ba) bs
         \<and> uniform (m_baseSize ba1) (scatter iovs bs (m_nodes ba1))
         \<and> length (scatter iovs bs (m_nodes ba1)) = length (m_nodes ba1)"
    by (rule getWriteBuffers_spec [OF inv fit]) (use n in \<open>simp_all add: unat_gt_0\<close>)
  obtain bs c' where r: "SocketStream_read n c = Some (int (length bs), bs, c')" "bs \<noteq> []" "length bs \<le> unat n"
    "arriving c = bs @ arriving c'" using SocketStream_read_some [OF n arr] by blast
  let ?ba2 = "ba1\<lparr>m_nodes := scatter iovs bs (m_nodes ba1)\<rparr>"
  have inv2: "ba_inv ?ba2" using g(3) sc [OF r(3)] by (auto simp: ba_inv_def)
  have f2: "flat ?ba2 = overwrite (flat ba1) (m_position ba) bs" using sc [OF r(3)] by (simp add: flat_def)
  obtain ba' where p: "ByteArray_setPosition ?ba2 (m_position ?ba2 + length bs) = Inr ba'" "ba_inv ba'"
    "m_position ba' = m_position ba + length bs" "m_size ba' = max (m_size ba) (m_position ba + length bs)"
    "flat ba' = flat ?ba2"
    by (rule setPosition_spec [OF inv2, of "m_position ?ba2 + length bs"]) (use g r in auto)
  have "SocketStream_read_ba n (ba, c) = Some (Inr (int (length bs), ba', c'))"
    using con g(1,2) r(1,2) p(1) by (simp add: SocketStream_read_ba_def Socket_recv_read Let_def)
  moreover have "content ba' = overwrite (content ba) (m_position ba) bs"
  proof -
    obtain new where new: "flat ba1 = flat ba @ new" using g(7) by blast
    have le: "m_position ba \<le> m_size ba" "m_size ba \<le> length (flat ba)"
      using inv length_flat [OF inv] by (simp_all add: ba_inv_def)
    have "m_position ba + length bs \<le> length (flat ba1)" using g(3,6) r(3) by simp
    then have "content ba' = overwrite (take (m_size ba) (flat ba @ new)) (m_position ba) bs"
      unfolding content_def p(4,5) f2 new using le new by (intro content_of_overwrite) auto
    then show ?thesis using le by (simp add: content_def)
  qed
  ultimately show "\<exists>bs ba' c'. SocketStream_read_ba n (ba, c) = Some (Inr (int (length bs), ba', c'))
      \<and> bs \<noteq> [] \<and> length bs \<le> unat n \<and> arriving c = bs @ arriving c' \<and> ba_inv ba'
      \<and> content ba' = overwrite (content ba) (m_position ba) bs
      \<and> m_position ba' = m_position ba + length bs"
    using r p by blast
next
  have "int32 0 = 0" "int32 (- 1) = - 1" using int32_id [of 0] int32_id [of "- 1"] by simp_all
  then show "SocketStream_write_ba m (ba, c) = Some (Inr (r, ba1, c1)) \<longrightarrow> r \<le> 0 \<and> ba1 = ba \<and> cn_out c1 = cn_out c"
    by (auto simp: SocketStream_write_ba_def ByteArray_getReadBuffers_def Socket_send_def sys_send_def
        split: if_splits list.splits send_answer.splits)
qed

theorem socket_byte_array_witness:
  "\<exists>bs ba' c'. SocketStream_read_ba 4 (ByteArray_new (\<lambda>_. 0) 4, demo_conn) = Some (Inr (int (length bs), ba', c'))
    \<and> bs \<noteq> [] \<and> content ba' = bs"
proof -
  let ?ba = "ByteArray_new (\<lambda>_. 0) 4"
  have inv: "ba_inv ?ba" by (rule ba_inv_new) simp
  have fit: "will_fit ?ba (unat (4 :: u64))"
    by (simp add: will_fit_def ByteArray_getCurCapacity_def ByteArray_new_def)
  have arr: "arriving demo_conn \<noteq> []" by (simp add: arriving_def demo_conn_def SocketStream_isConnected_def)
  have "(0 :: u64) < 4" "(4 :: u64) < 2 ^ 31" by simp_all
  from socket_byte_array [OF inv fit this arr] obtain bs ba' c' where
    "SocketStream_read_ba 4 (?ba, demo_conn) = Some (Inr (int (length bs), ba', c'))"
    "bs \<noteq> []" "content ba' = overwrite (content ?ba) (m_position ?ba) bs" by blast
  then show ?thesis
    by (intro exI [of _ bs] exI [of _ ba'] exI [of _ c']) (simp add: content_def ByteArray_new_def overwrite_def)
qed

end
