(* ===== verification/Servlet.thy ===== *)
theory Servlet
  imports Http_Message
begin

text \<open>
  Model of \<^verbatim>\<open>src/src/http/servlet.cpp\<close> and \<^verbatim>\<open>servlet.h\<close>: servlets and their dispatch by path.
  A handler gets the request, the response and the session by reference, so it returns all three;
  the session is a type parameter. \<^verbatim>\<open>fnmatch\<close> of the C library is the argument \<open>fnmatch\<close>
  (pattern, string; zero for a match).
\<close>

section \<open>Servlets\<close>

type_synonym 's exchange = "HttpRequest \<times> HttpResponse \<times> 's"

record 's servlet =
  slt_name :: string
  slt_handle :: "'s exchange \<Rightarrow> int \<times> 's exchange"

definition FunctionServlet :: "('s exchange \<Rightarrow> int \<times> 's exchange) \<Rightarrow> 's servlet" where
  "FunctionServlet cb = \<lparr>slt_name = ''FunctionServlet'', slt_handle = cb\<rparr>"

definition RSP_BODY :: string where
  "RSP_BODY = ''<html><head><title>404 Not Found'' @ ''</title></head><body><center><h1>404 Not Found</h1></center>''
     @ ''<hr><center>TinyServer/1.0.0</center></body></html>''"

fun NotFountServlet_handle :: "'s exchange \<Rightarrow> int \<times> 's exchange" where
  "NotFountServlet_handle (request, response, session) =
     (0, request,
      (HttpResponse_setHeader ''Content-Type'' ''text/html''
        (HttpResponse_setHeader ''Server'' ''TinyServer/1.0.0'' (response\<lparr>rs_status := 404\<rparr>)))
        \<lparr>rs_body := RSP_BODY\<rparr>, session)"

definition NotFountServlet :: "'s servlet" where
  "NotFountServlet = \<lparr>slt_name = ''NotFountServlet'', slt_handle = NotFountServlet_handle\<rparr>"

section \<open>ServletDispatch\<close>

text \<open>A \<^verbatim>\<open>Ref<Servlet>\<close> may be null: it is an option.\<close>

record 's servlet_dispatch =
  sd_datas :: "string \<rightharpoonup> 's servlet option"
  sd_globs :: "(string \<times> 's servlet option) list"
  sd_default :: "'s servlet option"

definition ServletDispatch_new :: "'s servlet_dispatch" where
  "ServletDispatch_new = \<lparr>sd_datas = (\<lambda>_. None), sd_globs = [], sd_default = Some NotFountServlet\<rparr>"

definition ServletDispatch_addServlet :: "string \<Rightarrow> 's servlet option \<Rightarrow> 's servlet_dispatch \<Rightarrow> 's servlet_dispatch" where
  "ServletDispatch_addServlet uri slt d = d\<lparr>sd_datas := (sd_datas d)(uri \<mapsto> slt)\<rparr>"

definition ServletDispatch_addServlet_cb ::
    "string \<Rightarrow> ('s exchange \<Rightarrow> int \<times> 's exchange) \<Rightarrow> 's servlet_dispatch \<Rightarrow> 's servlet_dispatch" where
  "ServletDispatch_addServlet_cb uri cb d = d\<lparr>sd_datas := (sd_datas d)(uri \<mapsto> Some (FunctionServlet cb))\<rparr>"

text \<open>The loop that erases the first entry with the given pattern.\<close>

fun erase_first :: "string \<Rightarrow> (string \<times> 'a) list \<Rightarrow> (string \<times> 'a) list" where
  "erase_first uri [] = []"
| "erase_first uri ((u, s) # gs) = (if u = uri then gs else (u, s) # erase_first uri gs)"

definition ServletDispatch_addGlobServlet ::
    "string \<Rightarrow> 's servlet option \<Rightarrow> 's servlet_dispatch \<Rightarrow> 's servlet_dispatch" where
  "ServletDispatch_addGlobServlet uri slt d = d\<lparr>sd_globs := erase_first uri (sd_globs d) @ [(uri, slt)]\<rparr>"

definition ServletDispatch_addGlobServlet_cb ::
    "string \<Rightarrow> ('s exchange \<Rightarrow> int \<times> 's exchange) \<Rightarrow> 's servlet_dispatch \<Rightarrow> 's servlet_dispatch" where
  "ServletDispatch_addGlobServlet_cb uri cb d = ServletDispatch_addGlobServlet uri (Some (FunctionServlet cb)) d"

definition ServletDispatch_delServlet :: "string \<Rightarrow> 's servlet_dispatch \<Rightarrow> 's servlet_dispatch" where
  "ServletDispatch_delServlet uri d = d\<lparr>sd_datas := (sd_datas d)(uri := None)\<rparr>"

definition ServletDispatch_delGlobServlet :: "string \<Rightarrow> 's servlet_dispatch \<Rightarrow> 's servlet_dispatch" where
  "ServletDispatch_delGlobServlet uri d = d\<lparr>sd_globs := erase_first uri (sd_globs d)\<rparr>"

definition ServletDispatch_getServlet :: "'s servlet_dispatch \<Rightarrow> string \<Rightarrow> 's servlet option" where
  "ServletDispatch_getServlet d uri = (case sd_datas d uri of None \<Rightarrow> None | Some slt \<Rightarrow> slt)"

fun first_glob :: "(string \<Rightarrow> bool) \<Rightarrow> (string \<times> 'a) list \<Rightarrow> 'a option" where
  "first_glob p [] = None"
| "first_glob p ((u, s) # gs) = (if p u then Some s else first_glob p gs)"

definition ServletDispatch_getGlobServlet :: "'s servlet_dispatch \<Rightarrow> string \<Rightarrow> 's servlet option" where
  "ServletDispatch_getGlobServlet d uri =
     (case first_glob (\<lambda>u. u = uri) (sd_globs d) of None \<Rightarrow> None | Some slt \<Rightarrow> slt)"

definition ServletDispatch_setDefault :: "'s servlet option \<Rightarrow> 's servlet_dispatch \<Rightarrow> 's servlet_dispatch" where
  "ServletDispatch_setDefault v d = d\<lparr>sd_default := v\<rparr>"

definition ServletDispatch_getMatchedServlet ::
    "(string \<Rightarrow> string \<Rightarrow> int) \<Rightarrow> 's servlet_dispatch \<Rightarrow> string \<Rightarrow> 's servlet option" where
  "ServletDispatch_getMatchedServlet fnmatch d uri =
     (case sd_datas d uri of
        Some slt \<Rightarrow> slt
      | None \<Rightarrow>
          (case first_glob (\<lambda>u. fnmatch (c_str u) (c_str uri) = 0) (sd_globs d) of
             Some slt \<Rightarrow> slt
           | None \<Rightarrow> sd_default d))"

fun ServletDispatch_handle ::
    "(string \<Rightarrow> string \<Rightarrow> int) \<Rightarrow> 's servlet_dispatch \<Rightarrow> 's exchange \<Rightarrow> int \<times> 's exchange" where
  "ServletDispatch_handle fnmatch d (request, response, session) =
     (case ServletDispatch_getMatchedServlet fnmatch d (rq_path request) of
        Some slt \<Rightarrow> (0, snd (slt_handle slt (request, response, session)))
      | None \<Rightarrow> (0, request, response, session))"

section \<open>Sequences of operations\<close>

datatype 's dispatch_op =
    Add string "'s servlet option"
  | Add_cb string "'s exchange \<Rightarrow> int \<times> 's exchange"
  | Add_glob string "'s servlet option"
  | Add_glob_cb string "'s exchange \<Rightarrow> int \<times> 's exchange"
  | Del string
  | Del_glob string
  | Set_default "'s servlet option"

fun dispatch_step :: "'s dispatch_op \<Rightarrow> 's servlet_dispatch \<Rightarrow> 's servlet_dispatch" where
  "dispatch_step (Add u s) d = ServletDispatch_addServlet u s d"
| "dispatch_step (Add_cb u cb) d = ServletDispatch_addServlet_cb u cb d"
| "dispatch_step (Add_glob u s) d = ServletDispatch_addGlobServlet u s d"
| "dispatch_step (Add_glob_cb u cb) d = ServletDispatch_addGlobServlet_cb u cb d"
| "dispatch_step (Del u) d = ServletDispatch_delServlet u d"
| "dispatch_step (Del_glob u) d = ServletDispatch_delGlobServlet u d"
| "dispatch_step (Set_default s) d = ServletDispatch_setDefault s d"

definition dispatch_run :: "'s dispatch_op list \<Rightarrow> 's servlet_dispatch" where
  "dispatch_run ops = fold dispatch_step ops ServletDispatch_new"

lemmas dispatch_defs = ServletDispatch_addServlet_def ServletDispatch_addServlet_cb_def
  ServletDispatch_addGlobServlet_def ServletDispatch_addGlobServlet_cb_def ServletDispatch_delServlet_def
  ServletDispatch_delGlobServlet_def ServletDispatch_setDefault_def

text \<open>
  What the history says, read from the newest operation on: the servlet of an exact path, the
  patterns with their servlets, newest registration first, and the default.
\<close>

fun exact_history :: "string \<Rightarrow> 's dispatch_op list \<Rightarrow> 's servlet option option" where
  "exact_history u [] = None"
| "exact_history u (Add v s # ops) = (if v = u then Some s else exact_history u ops)"
| "exact_history u (Add_cb v cb # ops) = (if v = u then Some (Some (FunctionServlet cb)) else exact_history u ops)"
| "exact_history u (Del v # ops) = (if v = u then None else exact_history u ops)"
| "exact_history u (_ # ops) = exact_history u ops"

fun glob_history :: "'s dispatch_op list \<Rightarrow> (string \<times> 's servlet option) list" where
  "glob_history [] = []"
| "glob_history (Add_glob v s # ops) = (v, s) # filter (\<lambda>g. fst g \<noteq> v) (glob_history ops)"
| "glob_history (Add_glob_cb v cb # ops) =
     (v, Some (FunctionServlet cb)) # filter (\<lambda>g. fst g \<noteq> v) (glob_history ops)"
| "glob_history (Del_glob v # ops) = filter (\<lambda>g. fst g \<noteq> v) (glob_history ops)"
| "glob_history (_ # ops) = glob_history ops"

fun default_history :: "'s dispatch_op list \<Rightarrow> 's servlet option" where
  "default_history [] = Some NotFountServlet"
| "default_history (Set_default s # ops) = s"
| "default_history (_ # ops) = default_history ops"

lemma erase_first_filter: "distinct (map fst gs) \<Longrightarrow> erase_first u gs = filter (\<lambda>g. fst g \<noteq> u) gs"
proof (induction gs)
  case (Cons g gs)
  then have "fst g \<notin> fst ` set gs" by simp
  then have "filter (\<lambda>h. fst h \<noteq> fst g) gs = gs" by (intro filter_True) (metis image_eqI)
  then show ?case using Cons by (cases g) auto
qed simp

lemma dispatch_run_snoc: "dispatch_run (ops @ [x]) = dispatch_step x (dispatch_run ops)"
  by (simp add: dispatch_run_def)

lemma dispatch_run_state:
  "sd_datas (dispatch_run ops) u = exact_history u (rev ops)
    \<and> sd_globs (dispatch_run ops) = rev (glob_history (rev ops))
    \<and> distinct (map fst (sd_globs (dispatch_run ops)))
    \<and> sd_default (dispatch_run ops) = default_history (rev ops)"
proof (induction ops rule: rev_induct)
  case Nil
  then show ?case by (simp add: dispatch_run_def ServletDispatch_new_def)
next
  case (snoc x ops)
  define gs where "gs = rev (glob_history (rev ops))"
  have g: "sd_globs (dispatch_run ops) = gs" and dst: "distinct (map fst gs)"
    and dat: "sd_datas (dispatch_run ops) u = exact_history u (rev ops)"
    and dfl: "sd_default (dispatch_run ops) = default_history (rev ops)"
    using snoc by (auto simp: gs_def)
  have e: "erase_first v gs = filter (\<lambda>g. fst g \<noteq> v) gs" for v
    using dst by (rule erase_first_filter)
  have d: "distinct (map fst (filter P gs))" for P
    using dst by (rule distinct_map_filter)
  show ?case
    by (cases x) (auto simp: dispatch_run_snoc dispatch_defs g dat dfl e d dst rev_filter simp flip: gs_def)
qed

text \<open>
  (C32) Dispatch after any sequence of registrations and removals: a path goes to the servlet last registered
  for exactly that path and not removed since; otherwise to the pattern that matches it among the
  patterns still registered, each with its newest servlet and ordered by the time of their last
  registration, the earliest first; otherwise to the default. \<^verbatim>\<open>handle\<close> runs that servlet and answers 0.
\<close>

theorem dispatch_matches_history:
  "ServletDispatch_getMatchedServlet fnmatch (dispatch_run ops) uri =
     (case exact_history uri (rev ops) of
        Some slt \<Rightarrow> slt
      | None \<Rightarrow>
          (case [g \<leftarrow> rev (glob_history (rev ops)). fnmatch (c_str (fst g)) (c_str uri) = 0] of
             g # _ \<Rightarrow> snd g
           | [] \<Rightarrow> default_history (rev ops)))
   \<and> ServletDispatch_getServlet (dispatch_run ops) uri = Option.bind (exact_history uri (rev ops)) id
   \<and> fst (ServletDispatch_handle fnmatch (dispatch_run ops) x) = 0"
proof -
  have f: "first_glob p gs = map_option snd (case filter (\<lambda>g. p (fst g)) gs of [] \<Rightarrow> None | g # _ \<Rightarrow> Some g)"
    for p and gs :: "(string \<times> 's servlet option) list"
    by (induction gs) auto
  have "fst (ServletDispatch_handle fnmatch (dispatch_run ops) x) = 0"
    by (cases x) (simp split: option.split)
  then show ?thesis
    using dispatch_run_state [of ops uri]
    by (auto simp: ServletDispatch_getMatchedServlet_def ServletDispatch_getServlet_def f split: option.split list.split)
qed

end
