(* ===== verification/Http_Session.thy ===== *)
theory Http_Session
  imports Http_Parser_Correct Socket_Stream Servlet
begin

text \<open>
  Model of \<^verbatim>\<open>src/src/http/http_session.cpp\<close> and \<^verbatim>\<open>http_server.cpp\<close>: receiving a request and sending a response
  over a socket stream, and the loop that serves one client. A call that waits for ever is \<open>None\<close>;
  an exception or failed assertion of the parser is \<open>Inl\<close>.
\<close>

section \<open>HttpSession\<close>

definition string_bytes :: "string \<Rightarrow> u8 list" where
  "string_bytes = map (\<lambda>c. of_nat (of_char c))"

text \<open>
  The loop of \<^verbatim>\<open>recvRequest\<close>: \<open>data\<close> are the \<^verbatim>\<open>offset\<close> unread bytes at the front of the buffer. The result
  is the finished parser with the unread bytes, or \<open>None\<close> for \<^verbatim>\<open>nullptr\<close>.
\<close>

partial_function (option) recvRequest_loop ::
    "u64 \<Rightarrow> string \<Rightarrow> HttpRequestParser \<Rightarrow> conn
      \<Rightarrow> (parse_error + ((HttpRequestParser \<times> string) option \<times> conn)) option" where
  "recvRequest_loop buffer_size data P c =
     Option.bind (SocketStream_read (buffer_size - of_nat (length data)) c) (\<lambda>(len, bs, c').
       if len \<le> 0 then Some (Inr (None, SocketStream_close c'))
       else case HttpRequestParser_execute (data @ bytes_string bs) P of
           Inl e \<Rightarrow> Some (Inl e)
         | Inr (nparser, rest, P') \<Rightarrow>
             if HttpRequestParser_hasError P' then Some (Inr (None, c'))
             else if of_nat (length rest) = buffer_size then Some (Inr (None, c'))
             else if HttpRequestParser_isFinished P' \<noteq> 0 then Some (Inr (Some (P', rest), c'))
             else recvRequest_loop buffer_size rest P' c')"

text \<open>
  The body: what is already in the buffer, cut to the announced length, and the rest by
  \<^verbatim>\<open>readFixSize\<close>. \<open>None\<close> inside stands for \<^verbatim>\<open>nullptr\<close>.
\<close>

definition recvRequest_body :: "int \<Rightarrow> string \<Rightarrow> conn \<Rightarrow> (string option \<times> conn) option" where
  "recvRequest_body len data c =
     (let offset = int (length data); have = take (nat len) data; left = int32 (len - offset) in
      if left > 0 then
        map_option (\<lambda>(res, bs, c').
          if res \<le> 0 then (None, SocketStream_close c') else (Some (have @ bytes_string bs), c'))
          (Stream_readFixSize SocketStream_read (word_of_int left) c)
      else Some (Some have, c))"

definition keep_alive_flag :: "HttpRequest \<Rightarrow> HttpRequest" where
  "keep_alive_flag r =
     (if strcasecmp ''keep-alive'' (c_str (HttpRequest_getHeader r ''Connection'' '''')) = 0 then r\<lparr>rq_close := False\<rparr> else r)"

definition HttpSession_recvRequest ::
    "(string \<Rightarrow> u64 option) \<Rightarrow> u64 \<Rightarrow> http_parser \<Rightarrow> HttpStatus \<Rightarrow> conn
      \<Rightarrow> (parse_error + (HttpRequest option \<times> conn)) option" where
  "HttpSession_recvRequest cast buffer_size mem garbage c =
     Option.bind (recvRequest_loop buffer_size [] (HttpRequestParser_new mem garbage) c) (\<lambda>r.
       case r of
         Inl e \<Rightarrow> Some (Inl e)
       | Inr (None, c1) \<Rightarrow> Some (Inr (None, c1))
       | Inr (Some (P, data), c1) \<Rightarrow>
           let len = int32 (uint (HttpRequestParser_getContentLength cast P)) in
           if len > 0 then
             map_option (\<lambda>(body, c2).
               case body of
                 None \<Rightarrow> Inr (None, c2)
               | Some b \<Rightarrow> Inr (Some (keep_alive_flag (rp_data P\<lparr>rq_body := b\<rparr>)), c2))
               (recvRequest_body len data c1)
           else Some (Inr (Some (keep_alive_flag (rp_data P)), c1)))"

definition HttpSession_sendResponse :: "HttpResponse \<Rightarrow> conn \<Rightarrow> conn option" where
  "HttpSession_sendResponse rsp c =
     (let data = string_bytes (HttpResponse_dump rsp) in
      map_option snd (Stream_writeFixSize SocketStream_write data (of_nat (length data)) c))"

section \<open>HttpServer\<close>

record http_server =
  hs_isKeepalive :: bool
  hs_name :: string
  hs_dispatch :: "conn servlet_dispatch"

definition HttpServer_new :: "bool \<Rightarrow> http_server" where
  "HttpServer_new keepalive =
     \<lparr>hs_isKeepalive = keepalive, hs_name = ''TinyServer/1.0.0'', hs_dispatch = ServletDispatch_new\<rparr>"

text \<open>
  One turn of the loop of \<^verbatim>\<open>handleClient\<close>: whether the loop goes on, and the connection. The servlet has the
  session, so it returns the connection as well.
\<close>

definition HttpServer_serve_one ::
    "(string \<Rightarrow> u64 option) \<Rightarrow> u64 \<Rightarrow> http_parser \<Rightarrow> HttpStatus \<Rightarrow> (string \<Rightarrow> string \<Rightarrow> int) \<Rightarrow> http_server \<Rightarrow> conn
      \<Rightarrow> (parse_error + (bool \<times> conn)) option" where
  "HttpServer_serve_one cast buffer_size mem garbage fnmatch srv c =
     Option.bind (HttpSession_recvRequest cast buffer_size mem garbage c) (\<lambda>r.
       case r of
         Inl e \<Rightarrow> Some (Inl e)
       | Inr (None, c1) \<Rightarrow> Some (Inr (False, c1))
       | Inr (Some req, c1) \<Rightarrow>
           let rsp = HttpResponse_setHeader ''Server'' (hs_name srv)
                 (HttpResponse_new (rq_version req) (rq_close req \<or> \<not> hs_isKeepalive srv));
               (_, req', rsp', c2) = ServletDispatch_handle fnmatch (hs_dispatch srv) (req, rsp, c1)
           in map_option (\<lambda>c3. Inr (\<not> (\<not> hs_isKeepalive srv \<or> rq_close req'), c3)) (HttpSession_sendResponse rsp' c2))"

text \<open>\<open>garbage\<close> gives the uninitialised memory of each turn.\<close>

partial_function (option) HttpServer_handleClient ::
    "(string \<Rightarrow> u64 option) \<Rightarrow> u64 \<Rightarrow> (nat \<Rightarrow> http_parser \<times> HttpStatus) \<Rightarrow> (string \<Rightarrow> string \<Rightarrow> int) \<Rightarrow> http_server \<Rightarrow> nat \<Rightarrow> conn
      \<Rightarrow> (parse_error + conn) option" where
  "HttpServer_handleClient cast buffer_size garbage fnmatch srv turn c =
     Option.bind (HttpServer_serve_one cast buffer_size (fst (garbage turn)) (snd (garbage turn)) fnmatch srv c) (\<lambda>r.
       case r of
         Inl e \<Rightarrow> Some (Inl e)
       | Inr (again, c') \<Rightarrow>
           if again then HttpServer_handleClient cast buffer_size garbage fnmatch srv (turn + 1) c'
           else Some (Inr (SocketStream_destroy True c')))"

section \<open>Receiving a request\<close>

lemma bytes_string_append [simp]: "bytes_string (xs @ ys) = bytes_string xs @ bytes_string ys"
  by (simp add: bytes_string_def)

lemma length_bytes_string [simp]: "length (bytes_string xs) = length xs"
  by (simp add: bytes_string_def)

lemma bytes_string_take: "bytes_string (take n xs) = take n (bytes_string xs)"
  by (simp add: bytes_string_def take_map)

lemma bytes_string_drop: "bytes_string (drop n xs) = drop n (bytes_string xs)"
  by (simp add: bytes_string_def drop_map)

lemma read_whole:
  assumes "SocketStream_isConnected c" and "cn_in c = Deliver bs # ins"
    and "length bs \<le> unat n" and "unat n < 2 ^ 31"
  shows "SocketStream_read n c = Some (int (length bs), bs, c\<lparr>cn_in := ins\<rparr>)"
  using assms int32_id [of "int (length bs)"]
  by (simp add: SocketStream_read_def SocketStream_isConnected_def Socket_recv_def sys_recv_def)

text \<open>Reading only takes from the input.\<close>

lemma read_frame:
  assumes "SocketStream_read n c = Some (len, bs, c')"
  shows "(cn_socket c', cn_send c', cn_out c') = (cn_socket c, cn_send c, cn_out c)"
  using assms by (auto simp: SocketStream_read_def Socket_recv_def sys_recv_def split: if_splits list.splits recv_answer.splits)

lemma readFixSize_frame:
  assumes "Stream_readFixSize SocketStream_read n c = Some (r, buf, c')"
  shows "cn_socket c' = cn_socket c" "cn_send c' = cn_send c" "cn_out c' = cn_out c"
  using assms loop_frame [where rd = SocketStream_read and f = "\<lambda>c. (cn_socket c, cn_send c, cn_out c)", OF read_frame]
  by (fastforce simp: Stream_readFixSize_def)+

text \<open>A connection whose first piece holds the head of the request and perhaps a part of the body.\<close>

definition brings_request :: "u64 \<Rightarrow> HttpRequest \<Rightarrow> string \<Rightarrow> conn \<Rightarrow> bool" where
  "brings_request buffer_size r later c \<longleftrightarrow> SocketStream_isConnected c \<and> unat buffer_size < 2 ^ 31
     \<and> (\<exists>bs ins b b'. cn_in c = Deliver bs # ins \<and> length bs \<le> unat buffer_size
          \<and> bytes_string bs = request_head r @ crlf @ b \<and> rq_body r = b @ b'
          \<and> bytes_string (delivered ins) = b' @ later)"

lemma recv_loop_request:
  assumes "request_ok r" and "SocketStream_isConnected c" "unat buffer_size < 2 ^ 31"
    and "cn_in c = Deliver bs # ins" "length bs \<le> unat buffer_size" "bytes_string bs = request_head r @ crlf @ b"
  shows "\<exists>P. recvRequest_loop buffer_size [] (HttpRequestParser_new mem g) c = Some (Inr (Some (P, b), c\<lparr>cn_in := ins\<rparr>))
     \<and> rp_data P = parsed r (HttpRequest_new g 0x11 True)"
proof -
  obtain P where P: "HttpRequestParser_execute (request_head r @ crlf @ b) (HttpRequestParser_new mem g)
       = Inr (length (request_head r) + 2, b, P)" "HttpRequestParser_isFinished P = 1"
     "\<not> HttpRequestParser_hasError P" "rp_data P = parsed r (HttpRequest_new g 0x11 True)"
    using execute_request [OF assms(1), of b mem g] assms(3,5,6) length_bytes_string [of bs] by auto
  have len: "length bs = length (request_head r) + 2 + length b"
    using assms(6) length_bytes_string [of bs] by (simp add: crlf_def)
  have "of_nat (length b) \<noteq> buffer_size"
  proof
    assume "of_nat (length b) = buffer_size"
    moreover have "unat (of_nat (length b) :: u64) = length b"
      using assms(3,5) len by (intro unat_of_nat_small) simp
    ultimately show False using len assms(5) by simp
  qed
  then show ?thesis
    using read_whole [OF assms(2,4,5,3)] P assms(6) len
    by (subst recvRequest_loop.simps) simp
qed

lemma parsed_content_length:
  assumes "maps_ok r" and "rq_headers D = []"
    and "rq_body r = [] \<Longrightarrow> map_find CaseInsensitiveLess ''content-length'' (rq_headers r) = None"
    and "rq_body r \<noteq> [] \<Longrightarrow> cast (print_nat 10 (length (rq_body r))) = Some (of_nat (length (rq_body r)))"
    and "rp_data P = parsed r D"
  shows "HttpRequestParser_getContentLength cast P = of_nat (length (rq_body r))"
proof -
  have "map_ok CaseInsensitiveLess (rq_headers r)" using assms(1) by (simp add: maps_ok_def)
  from parsed_find [OF this assms(2), of "''content-length''"] show ?thesis
    using assms(3-5) by (cases "rq_body r = []") (simp_all add: HttpRequestParser_getContentLength_def HttpRequest_getHeaderAs_def getAs_def casefold_names)
qed

lemma recv_body:
  assumes "rq_body r = b @ b'" and "length (rq_body r) < 2 ^ 31" and "0 < length (rq_body r)"
    and "SocketStream_isConnected c" and "bytes_string (delivered (cn_in c)) = b' @ later"
  shows "\<exists>c'. recvRequest_body (int (length (rq_body r))) b c = Some (Some (rq_body r), c')
    \<and> bytes_string (arriving c') = later \<and> cn_socket c' = cn_socket c \<and> cn_send c' = cn_send c \<and> cn_out c' = cn_out c"
proof (cases "b' = []")
  case True
  then show ?thesis
    using assms int32_id [of 0] by (auto simp: recvRequest_body_def arriving_def)
next
  case False
  let ?n = "of_nat (length b') :: u64"
  have n: "unat ?n = length b'" using assms(1,2) by (intro unat_of_nat_small) simp
  have le: "length b' \<le> length (arriving c)"
    using assms(4,5) length_bytes_string [of "delivered (cn_in c)"] by (simp add: arriving_def)
  from sock.readFixSize_complete [of ?n c] obtain c' where
    "Stream_readFixSize SocketStream_read ?n c = Some (int (length b'), take (length b') (arriving c), c')"
    "arriving c' = drop (length b') (arriving c)" using le n assms(1,2) by auto
  moreover have "int32 (int (length b')) = int (length b')" using int32_id [of "int (length b')"] assms(1,2) by simp
  moreover have "bytes_string (arriving c) = b' @ later" using assms(4,5) by (simp add: arriving_def)
  moreover note readFixSize_frame [OF calculation(1)]
  ultimately show ?thesis
    using assms(1) False
    by (auto simp: recvRequest_body_def Let_def bytes_string_take bytes_string_drop)
qed

lemma keep_alive_parsed:
  assumes "map_ok CaseInsensitiveLess (rq_headers r)" "rq_headers D = []" "rq_close D"
  shows "keep_alive_flag (parsed r D\<lparr>rq_body := b\<rparr>) = parsed r D\<lparr>rq_body := b, rq_close := rq_close r\<rparr>"
proof -
  have "casefold ''Connection'' = ''connection''"
    by (simp add: casefold_def c_str_def to_lower_def char_of_def bit_0 bit_Suc)
  moreover have "HttpRequest_getHeader (parsed r D\<lparr>rq_body := b\<rparr>) = HttpRequest_getHeader (parsed r D)"
    by (intro ext) (simp add: HttpRequest_getHeader_def)
  ultimately have "HttpRequest_getHeader (parsed r D\<lparr>rq_body := b\<rparr>) ''Connection'' '''' = (if rq_close r then ''close'' else ''keep-alive'')"
    using parsed_headers [OF assms(1,2), of "''Connection''"] by simp
  moreover have "rq_close (parsed r D)" using assms(3) by (simp add: parsed_def store_headers_eq)
  ultimately show ?thesis
    by (simp add: keep_alive_flag_def c_str_def to_lower_def)
qed

lemma recvRequest_ok:
  assumes ok: "request_ok r" "maps_ok r" and c: "brings_request buffer_size r later c"
    and len: "length (rq_body r) < 2 ^ 31"
    and cl: "rq_body r = [] \<Longrightarrow> map_find CaseInsensitiveLess ''content-length'' (rq_headers r) = None"
      "rq_body r \<noteq> [] \<Longrightarrow> cast (print_nat 10 (length (rq_body r))) = Some (of_nat (length (rq_body r)))"
  shows "\<exists>c'. HttpSession_recvRequest cast buffer_size mem g c
       = Some (Inr (Some (parsed r (HttpRequest_new g 0x11 True)\<lparr>rq_body := rq_body r, rq_close := rq_close r\<rparr>), c'))
     \<and> bytes_string (arriving c') = later \<and> cn_send c' = cn_send c \<and> cn_out c' = cn_out c \<and> cn_socket c' = cn_socket c"
proof -
  let ?D = "HttpRequest_new g 0x11 True"
  obtain bs ins b b' where i: "SocketStream_isConnected c" "unat buffer_size < 2 ^ 31" "cn_in c = Deliver bs # ins"
      "length bs \<le> unat buffer_size" "bytes_string bs = request_head r @ crlf @ b" "rq_body r = b @ b'"
      "bytes_string (delivered ins) = b' @ later"
    using c unfolding brings_request_def by blast
  let ?c = "c\<lparr>cn_in := ins\<rparr>"
  obtain P where P: "recvRequest_loop buffer_size [] (HttpRequestParser_new mem g) c = Some (Inr (Some (P, b), ?c))"
      "rp_data P = parsed r ?D"
    using recv_loop_request [OF ok(1) i(1-5)] by blast
  have m: "map_ok CaseInsensitiveLess (rq_headers r)" "rq_headers ?D = []" "rq_close ?D"
    using ok(2) by (simp_all add: maps_ok_def HttpRequest_new_def)
  have n: "int32 (uint (HttpRequestParser_getContentLength cast P)) = int (length (rq_body r))"
    using parsed_content_length [where cast = cast, OF ok(2) m(2) _ _ P(2)] cl len int32_id [of "int (length (rq_body r))"]
    by (simp add: unsigned_of_nat take_bit_nat_eq_self)
  have con: "SocketStream_isConnected ?c" using i(1) by (simp add: SocketStream_isConnected_def)
  show ?thesis
  proof (cases "rq_body r = []")
    case True
    then have "parsed r ?D\<lparr>rq_body := []\<rparr> = parsed r ?D"
      by (simp add: parsed_def store_headers_eq HttpRequest_new_def)
    then show ?thesis
      using P n True i con keep_alive_parsed [OF m, of "[]"]
      by (simp add: HttpSession_recvRequest_def arriving_def)
  next
    case False
    obtain c' where c': "recvRequest_body (int (length (rq_body r))) b ?c = Some (Some (rq_body r), c')"
      "bytes_string (arriving c') = later" "cn_socket c' = cn_socket c" "cn_send c' = cn_send c" "cn_out c' = cn_out c"
      using recv_body [OF i(6) len _ con, of later] False i(7) by auto
    then show ?thesis
      using P n False keep_alive_parsed [OF m, of "rq_body r"]
      by (simp add: HttpSession_recvRequest_def)
  qed
qed

text \<open>
  A client's request reaches the server's handler unchanged: when the bytes of \<^verbatim>\<open>HttpRequest::dump\<close> arrive
  over a socket with the whole head in the first piece (and any division of the body into pieces),
  \<^verbatim>\<open>recvRequest\<close> returns a request with the same method, target, version, body and close flag and with
  every header of the original, and leaves exactly the bytes behind the request to be read later.
  \<open>cast\<close>, \<^verbatim>\<open>boost::lexical_cast<uint64_t>\<close>, is only assumed to read the length of this body.
\<close>

theorem session_receives_request:
  assumes "request_ok r" and "maps_ok r" and "brings_request buffer_size r later c"
    and "length (rq_body r) < 2 ^ 31"
    and "rq_body r = [] \<Longrightarrow> map_find CaseInsensitiveLess ''content-length'' (rq_headers r) = None"
    and "rq_body r \<noteq> [] \<Longrightarrow> cast (print_nat 10 (length (rq_body r))) = Some (of_nat (length (rq_body r)))"
  shows "\<exists>r' c'. HttpSession_recvRequest cast buffer_size mem g c = Some (Inr (Some r', c'))
     \<and> rq_method r' = rq_method r \<and> rq_path r' = rq_path r \<and> rq_query r' = rq_query r
     \<and> rq_fragment r' = rq_fragment r \<and> rq_version r' = rq_version r \<and> rq_body r' = rq_body r
     \<and> rq_close r' = rq_close r
     \<and> (\<forall>k def. casefold k \<notin> {''connection'', ''content-length''} \<longrightarrow>
          HttpRequest_getHeader r' k def = HttpRequest_getHeader r k def)
     \<and> bytes_string (arriving c') = later"
proof -
  let ?D = "HttpRequest_new g 0x11 True"
  let ?r = "parsed r ?D\<lparr>rq_body := rq_body r, rq_close := rq_close r\<rparr>"
  obtain c' where c': "HttpSession_recvRequest cast buffer_size mem g c = Some (Inr (Some ?r, c'))"
      "bytes_string (arriving c') = later"
    using recvRequest_ok [where cast = cast, OF assms(1-4)] assms(5,6) by blast
  have "map_ok CaseInsensitiveLess (rq_headers r)" "rq_headers ?D = []"
    using assms(2) by (simp_all add: maps_ok_def HttpRequest_new_def)
  note h = parsed_headers [OF this]
  have "HttpRequest_getHeader ?r = HttpRequest_getHeader (parsed r ?D)"
    by (intro ext) (simp add: HttpRequest_getHeader_def)
  moreover have "rq_method ?r = rq_method r" "rq_path ?r = rq_path r" "rq_query ?r = rq_query r"
    "rq_fragment ?r = rq_fragment r" "rq_version ?r = rq_version r"
    by (simp_all add: parsed_def store_headers_eq)
  ultimately show ?thesis
    using c' h by (intro exI [of _ ?r] exI [of _ c']) simp
qed

lemma string_bytes_inverse [simp]: "bytes_string (string_bytes s) = s"
  by (induction s) (simp_all add: bytes_string_def string_bytes_def unat_of_nat_small)

lemma length_string_bytes [simp]: "length (string_bytes s) = length s"
  by (simp add: string_bytes_def)

lemma string_bytes_empty [simp]: "string_bytes s = [] \<longleftrightarrow> s = []"
  by (simp add: string_bytes_def)

definition sample_conn :: conn where
  "sample_conn = \<lparr>cn_socket = (Socket_new 2 1 0)\<lparr>sk_sock := 5, sk_isConnected := True\<rparr>,
     cn_in = [Deliver (string_bytes (request_head (sample_request POST) @ crlf @ ''he'')), Deliver (string_bytes ''ll''),
              Deliver (string_bytes ''oNEXT''), Recv_fail], cn_send = replicate 2000 (Accept 3), cn_out = []\<rparr>"

definition sample_cast :: "string \<Rightarrow> u64 option" where
  "sample_cast s = (if s = ''5'' then Some 5 else None)"

lemma print_5: "print_nat 10 (length ''hello'') = ''5''"
  by (simp add: print_nat.simps digit_char_def char_of_def bit_0 bit_Suc)

lemma sample_head_length: "length (request_head (sample_request POST)) \<le> 4000"
  using print_5
  by (simp add: request_head_def target_def sample_request_def HttpMethodToString_def method_num_def s_method_string_def
      HTTP_METHOD_MAP_def dump_version_texts crlf_def sent_headers_def header_line_def HttpRequest_setHeader_def
      HttpRequest_new_def)

lemma sample_brings: "brings_request 4096 (sample_request POST) ''NEXT'' sample_conn"
proof -
  let ?bs = "string_bytes (request_head (sample_request POST) @ crlf @ ''he'')"
  have "length ?bs \<le> 4096" using sample_head_length by (simp add: crlf_def)
  then show ?thesis
    unfolding brings_request_def
    by (simp add: sample_conn_def SocketStream_isConnected_def sample_request_fields)
qed

theorem session_receives_request_witness:
  "\<forall>mem g. \<exists>r' c'. HttpSession_recvRequest sample_cast 4096 mem g sample_conn = Some (Inr (Some r', c'))
     \<and> rq_method r' = POST \<and> rq_body r' = ''hello'' \<and> bytes_string (arriving c') = ''NEXT''"
proof (intro allI)
  fix mem g
  have c: "sample_cast (print_nat 10 (length (rq_body (sample_request POST)))) = Some (of_nat (length (rq_body (sample_request POST))))"
    unfolding sample_request_fields print_5 by (simp add: sample_cast_def)
  have ok: "request_ok (sample_request POST)" "maps_ok (sample_request POST)" "length (rq_body (sample_request POST)) < 2 ^ 31"
    by (simp_all add: sample_request_ok sample_request_fields)
  show "\<exists>r' c'. HttpSession_recvRequest sample_cast 4096 mem g sample_conn = Some (Inr (Some r', c'))
     \<and> rq_method r' = POST \<and> rq_body r' = ''hello'' \<and> bytes_string (arriving c') = ''NEXT''"
    using session_receives_request [where cast = sample_cast and mem = mem and g = g, OF ok(1,2) sample_brings ok(3)] c
    by (auto simp: sample_request_fields)
qed

section \<open>Serving a client\<close>

lemma sendResponse_ok:
  assumes "length (HttpResponse_dump rsp) < 2 ^ 31" "SocketStream_isConnected c" "cn_send c = map Accept ks"
    "\<forall>k\<in>set ks. 0 < k" "length (HttpResponse_dump rsp) \<le> length ks"
  shows "\<exists>c1. HttpSession_sendResponse rsp c = Some c1 \<and> cn_out c1 = cn_out c @ string_bytes (HttpResponse_dump rsp)"
  using writeFixSize_returns [of "string_bytes (HttpResponse_dump rsp)" c ks] assms
  by (auto simp: HttpSession_sendResponse_def Let_def)

lemma destroy_closes: "\<not> SocketStream_isConnected (SocketStream_destroy True c)"
    "sk_sock (cn_socket (SocketStream_destroy True c)) = - 1" "cn_out (SocketStream_destroy True c) = cn_out c"
  by (auto simp: SocketStream_destroy_def SocketStream_close_def SocketStream_isConnected_def Socket_close_def)

text \<open>
  A client that asks for one request is served completely: when its request arrives as above, the client (or
  the server) wants the connection closed afterwards and the socket takes the answer in pieces of any size,
  \<^verbatim>\<open>handleClient\<close> returns, it has sent exactly the response that the servlet made of the received request,
  and the socket is closed. The servlet is any handler that answers from the request and the prepared
  response alone.
\<close>

lemma server_answers_client:
  assumes "request_ok r" and "maps_ok r" and "brings_request buffer_size r later c"
    and "length (rq_body r) < 2 ^ 31"
    and "rq_body r = [] \<Longrightarrow> map_find CaseInsensitiveLess ''content-length'' (rq_headers r) = None"
    and "rq_body r \<noteq> [] \<Longrightarrow> cast (print_nat 10 (length (rq_body r))) = Some (of_nat (length (rq_body r)))"
    and close: "rq_close r \<or> \<not> hs_isKeepalive srv"
    and servlet: "\<And>req rsp s. ServletDispatch_handle fnmatch (hs_dispatch srv) (req, rsp, s) = (0, req, answer req rsp, s)"
    and R: "\<And>req. R req = answer req (HttpResponse_setHeader ''Server'' (hs_name srv) (HttpResponse_new (rq_version r) True))"
    and out: "cn_send c = map Accept ks" "\<forall>k\<in>set ks. 0 < k"
      "\<And>req. length (HttpResponse_dump (R req)) \<le> length ks \<and> length (HttpResponse_dump (R req)) < 2 ^ 31"
  shows "\<exists>req c'. HttpServer_handleClient cast buffer_size garbage fnmatch srv turn c = Some (Inr c')
     \<and> rq_method req = rq_method r \<and> rq_path req = rq_path r \<and> rq_query req = rq_query r \<and> rq_body req = rq_body r
     \<and> cn_out c' = cn_out c @ string_bytes (HttpResponse_dump (R req))
     \<and> \<not> SocketStream_isConnected c' \<and> sk_sock (cn_socket c') = - 1"
proof -
  let ?D = "HttpRequest_new (snd (garbage turn)) 0x11 True"
  let ?r = "parsed r ?D\<lparr>rq_body := rq_body r, rq_close := rq_close r\<rparr>"
  obtain c1 where c1: "HttpSession_recvRequest cast buffer_size (fst (garbage turn)) (snd (garbage turn)) c = Some (Inr (Some ?r, c1))"
      "cn_send c1 = cn_send c" "cn_out c1 = cn_out c" "cn_socket c1 = cn_socket c"
    using recvRequest_ok [where cast = cast, OF assms(1-4)] assms(5,6) by blast
  have con: "SocketStream_isConnected c1"
    using assms(3) c1(4) by (simp add: brings_request_def SocketStream_isConnected_def)
  have f: "rq_method ?r = rq_method r" "rq_path ?r = rq_path r" "rq_query ?r = rq_query r" "rq_version ?r = rq_version r"
    by (simp_all add: parsed_def store_headers_eq)
  obtain c2 where c2: "HttpSession_sendResponse (R ?r) c1 = Some c2" "cn_out c2 = cn_out c1 @ string_bytes (HttpResponse_dump (R ?r))"
    using sendResponse_ok [of "R ?r" c1 ks] out(3) [of ?r] con c1(2) out(1,2) by auto
  have "HttpServer_serve_one cast buffer_size (fst (garbage turn)) (snd (garbage turn)) fnmatch srv c = Some (Inr (False, c2))"
    using c1(1) c2(1) close f(4) R [of ?r] by (auto simp: HttpServer_serve_one_def Let_def servlet simp del: ServletDispatch_handle.simps)
  then have "HttpServer_handleClient cast buffer_size garbage fnmatch srv turn c = Some (Inr (SocketStream_destroy True c2))"
    by (subst HttpServer_handleClient.simps) simp
  then show ?thesis
    using f c2(2) c1(3) destroy_closes [of c2]
    by (intro exI [of _ ?r] exI [of _ "SocketStream_destroy True c2"]) simp
qed

definition not_found :: "HttpRequest \<Rightarrow> HttpResponse \<Rightarrow> HttpResponse" where
  "not_found req rsp = fst (snd (snd (NotFountServlet_handle (req, rsp, ()))))"

lemma not_found_dispatch:
  "ServletDispatch_handle fnmatch ServletDispatch_new (req, rsp, s) = (0, req, not_found req rsp, s)"
  by (simp add: ServletDispatch_getMatchedServlet_def ServletDispatch_new_def NotFountServlet_def not_found_def)

lemma header_order: "\<not> CaseInsensitiveLess ''Server'' ''Content-Type''" "CaseInsensitiveLess ''Content-Type'' ''Server''"
    "\<not> CaseInsensitiveLess ''Server'' ''Server''"
  by (simp_all add: CaseInsensitiveLess_def c_str_def to_lower_def char_of_def bit_0 bit_Suc)

lemma not_found_length:
  "length (HttpResponse_dump (not_found req (HttpResponse_setHeader ''Server'' ''TinyServer/1.0.0'' (HttpResponse_new 0x11 True)))) \<le> 2000"
proof -
  have p: "length (print_nat 10 n) \<le> 100" if "n < 1000" for n
    using that by (simp add: print_nat.simps)
  have "length (HttpStatusToString 404) \<le> 100" by (simp add: HttpStatusToString_def HTTP_STATUS_MAP_def)
  moreover have "length (print_dec (404 :: u32)) \<le> 100" by (simp add: print_dec_def print_nat.simps)
  moreover have "is_connection ''Server'' = False" "is_connection ''Content-Type'' = False"
    by (simp_all add: is_connection_def c_str_def to_lower_def char_of_def bit_0 bit_Suc)
  moreover have "length RSP_BODY < 1000" "RSP_BODY \<noteq> []" by (simp_all add: RSP_BODY_def)
  moreover from p [OF this(1)] have "length (print_nat 10 (length RSP_BODY)) \<le> 100" .
  ultimately show ?thesis
    by (simp add: not_found_def HttpResponse_setHeader_def HttpResponse_new_def HttpResponse_dump_def dump_version_texts
      header_order dump_headers_def dump_close_def dump_body_def crlf_def)
qed

end
