(* ===== verification/Httpclient_Machine.thy ===== *)
theory Httpclient_Machine
  imports Ragel_Machine
begin

text \<open>
  The response parser that Ragel generated into \<^verbatim>\<open>src/src/http/httpclient_parser.rl.cpp\<close>, block by block in
  the order of the file: its 123 states and 66 action blocks, and the lookups of the blocks that an ordinary
  response and a chunk go through.
\<close>

section \<open>Actions\<close>

datatype client_action =
    Cl_mark | Cl_start_field | Cl_write_field | Cl_start_value | Cl_write_content_len | Cl_write_connection_close |
    Cl_write_value | Cl_reason_phrase | Cl_status_code | Cl_http_version | Cl_chunk_size | Cl_trans_chunked | Cl_done

section \<open>Code\<close>

definition httpclient_code_1 :: "client_action block list" where
  "httpclient_code_1 = [
    State 1 [(48, 57, False, Tr 0), (65, 70, False, Tr 0), (72, 72, False, Tr 2),
      (97, 102, False, Tr 0)],
    Trans 0 [Cl_mark] 2,
    State 2 [(10, 10, False, Tr 3), (13, 13, False, Tr 4), (48, 57, False, St 2),
      (59, 59, False, Tr 6), (65, 70, False, St 2), (97, 102, False, St 2)],
    Trans 3 [Cl_chunk_size, Cl_done] 120,
    Trans 7 [Cl_done] 120,
    Trans 9 [Cl_write_field, Cl_start_value, Cl_write_value, Cl_done] 120,
    Trans 15 [Cl_write_value, Cl_done] 120,
    Trans 74 [Cl_write_connection_close, Cl_done] 120,
    State 120 [],
    Trans 4 [Cl_chunk_size] 3]"

definition httpclient_code_2 :: "client_action block list" where
  "httpclient_code_2 = [
    Trans 10 [Cl_write_field, Cl_start_value, Cl_write_value] 3,
    Trans 16 [Cl_write_value] 3,
    Trans 75 [Cl_write_connection_close] 3,
    State 3 [(10, 10, False, Tr 7)],
    Trans 6 [Cl_chunk_size] 4,
    Trans 12 [Cl_write_field, Cl_start_value, Cl_write_value] 4,
    Trans 18 [Cl_write_value] 4,
    State 4 [(33, 33, False, Tr 8), (35, 39, False, Tr 8), (42, 43, False, Tr 8),
      (45, 46, False, Tr 8), (48, 57, False, Tr 8), (65, 90, False, Tr 8), (94, 122, False, Tr 8),
      (124, 124, False, Tr 8), (126, 126, False, Tr 8)],
    Trans 8 [Cl_start_field] 5,
    State 5 [(10, 10, False, Tr 9), (13, 13, False, Tr 10), (33, 33, False, St 5),
      (35, 39, False, St 5), (42, 43, False, St 5), (45, 46, False, St 5), (48, 57, False, St 5),
      (59, 59, False, Tr 12), (61, 61, False, Tr 13), (65, 90, False, St 5), (94, 122, False, St 5),
      (124, 124, False, St 5), (126, 126, False, St 5)],
    Trans 13 [Cl_write_field, Cl_start_value] 6]"

definition httpclient_code_3 :: "client_action block list" where
  "httpclient_code_3 = [
    State 6 [(33, 33, False, Tr 14), (35, 39, False, Tr 14), (42, 43, False, Tr 14),
      (45, 46, False, Tr 14), (48, 57, False, Tr 14), (65, 90, False, Tr 14),
      (94, 122, False, Tr 14), (124, 124, False, Tr 14), (126, 126, False, Tr 14)],
    Trans 14 [Cl_start_value] 7,
    State 7 [(10, 10, False, Tr 15), (13, 13, False, Tr 16), (33, 33, False, St 7),
      (35, 39, False, St 7), (42, 43, False, St 7), (45, 46, False, St 7), (48, 57, False, St 7),
      (59, 59, False, Tr 18), (65, 90, False, St 7), (94, 122, False, St 7),
      (124, 124, False, St 7), (126, 126, False, St 7)],
    Trans 2 [Cl_mark] 8,
    State 8 [(84, 84, False, St 9)],
    State 9 [(84, 84, False, St 10)],
    State 10 [(80, 80, False, St 11)],
    State 11 [(47, 47, False, St 12)],
    State 12 [(48, 57, False, St 13)],
    State 13 [(46, 46, False, St 14), (48, 57, False, St 13)],
    State 14 [(48, 57, False, St 15)],
    State 15 [(32, 32, False, Tr 26), (48, 57, False, St 15)],
    Trans 26 [Cl_http_version] 16,
    State 16 [(48, 57, False, Tr 27)],
    Trans 27 [Cl_mark] 17]"

definition httpclient_code_4 :: "client_action block list" where
  "httpclient_code_4 = [
    State 17 [(32, 32, False, Tr 28), (48, 57, False, St 17)],
    Trans 28 [Cl_status_code] 18,
    State 18 [(0, 9, False, Tr 30), (11, 255, False, Tr 30)],
    Trans 30 [Cl_mark] 19,
    State 19 [(0, 9, False, St 19), (10, 10, False, Tr 32), (11, 12, False, St 19),
      (13, 13, False, Tr 33), (14, 255, False, St 19)],
    Trans 45 [Cl_write_value] 20,
    Trans 32 [Cl_reason_phrase] 20,
    Trans 42 [Cl_start_value, Cl_write_value] 20,
    Trans 111 [Cl_write_value, Cl_trans_chunked] 20,
    Trans 113 [Cl_trans_chunked] 20,
    Trans 158 [Cl_write_content_len, Cl_write_value] 20,
    State 20 [(10, 10, False, Tr 7), (13, 13, False, St 3), (33, 33, False, Tr 35),
      (35, 39, False, Tr 35), (42, 43, False, Tr 35), (45, 46, False, Tr 35),
      (48, 57, False, Tr 35), (65, 66, False, Tr 35), (67, 67, False, Tr 36),
      (68, 83, False, Tr 35), (84, 84, False, Tr 37), (85, 90, False, Tr 35),
      (94, 98, False, Tr 35), (99, 99, False, Tr 36), (100, 115, False, Tr 35),
      (116, 116, False, Tr 37), (117, 122, False, Tr 35), (124, 124, False, Tr 35),
      (126, 126, False, Tr 35)],
    Trans 35 [Cl_start_field] 21,
    Trans 76 [Cl_write_connection_close, Cl_start_field] 21]"

definition httpclient_code_5 :: "client_action block list" where
  "httpclient_code_5 = [
    State 21 [(33, 33, False, St 21), (35, 39, False, St 21), (42, 43, False, St 21),
      (45, 46, False, St 21), (48, 57, False, St 21), (58, 58, False, Tr 39),
      (65, 90, False, St 21), (94, 122, False, St 21), (124, 124, False, St 21),
      (126, 126, False, St 21)],
    Trans 41 [Cl_start_value] 22,
    Trans 39 [Cl_write_field] 22,
    State 22 [(0, 8, False, Tr 40), (9, 9, False, Tr 41), (10, 10, False, Tr 42),
      (11, 12, False, Tr 41), (13, 13, False, Tr 43), (14, 31, False, Tr 40),
      (32, 32, False, Tr 41), (33, 255, False, Tr 40)],
    Trans 40 [Cl_start_value] 23,
    State 23 [(0, 9, False, St 23), (10, 10, False, Tr 45), (11, 12, False, St 23),
      (13, 13, False, Tr 46), (14, 255, False, St 23)],
    Trans 46 [Cl_write_value] 24,
    Trans 33 [Cl_reason_phrase] 24,
    Trans 43 [Cl_start_value, Cl_write_value] 24,
    Trans 159 [Cl_write_content_len, Cl_write_value] 24,
    State 24 [(10, 10, False, St 20)],
    Trans 36 [Cl_start_field] 25,
    Trans 77 [Cl_write_connection_close, Cl_start_field] 25]"

definition httpclient_code_6 :: "client_action block list" where
  "httpclient_code_6 = [
    State 25 [(33, 33, False, St 21), (35, 39, False, St 21), (42, 43, False, St 21),
      (45, 46, False, St 21), (48, 57, False, St 21), (58, 58, False, Tr 39),
      (65, 78, False, St 21), (79, 79, False, St 26), (80, 90, False, St 21),
      (94, 110, False, St 21), (111, 111, False, St 26), (112, 122, False, St 21),
      (124, 124, False, St 21), (126, 126, False, St 21)],
    State 26 [(33, 33, False, St 21), (35, 39, False, St 21), (42, 43, False, St 21),
      (45, 46, False, St 21), (48, 57, False, St 21), (58, 58, False, Tr 39),
      (65, 77, False, St 21), (78, 78, False, St 27), (79, 90, False, St 21),
      (94, 109, False, St 21), (110, 110, False, St 27), (111, 122, False, St 21),
      (124, 124, False, St 21), (126, 126, False, St 21)],
    State 27 [(33, 33, False, St 21), (35, 39, False, St 21), (42, 43, False, St 21),
      (45, 46, False, St 21), (48, 57, False, St 21), (58, 58, False, Tr 39),
      (65, 77, False, St 21), (78, 78, False, St 28), (79, 83, False, St 21),
      (84, 84, False, St 101), (85, 90, False, St 21), (94, 109, False, St 21),
      (110, 110, False, St 28), (111, 115, False, St 21), (116, 116, False, St 101),
      (117, 122, False, St 21), (124, 124, False, St 21), (126, 126, False, St 21)],
    State 28 [(33, 33, False, St 21), (35, 39, False, St 21), (42, 43, False, St 21),
      (45, 46, False, St 21), (48, 57, False, St 21), (58, 58, False, Tr 39),
      (65, 68, False, St 21), (69, 69, False, St 29), (70, 90, False, St 21),
      (94, 100, False, St 21), (101, 101, False, St 29), (102, 122, False, St 21),
      (124, 124, False, St 21), (126, 126, False, St 21)],
    State 29 [(33, 33, False, St 21), (35, 39, False, St 21), (42, 43, False, St 21),
      (45, 46, False, St 21), (48, 57, False, St 21), (58, 58, False, Tr 39),
      (65, 66, False, St 21), (67, 67, False, St 30), (68, 90, False, St 21),
      (94, 98, False, St 21), (99, 99, False, St 30), (100, 122, False, St 21),
      (124, 124, False, St 21), (126, 126, False, St 21)]]"

definition httpclient_code_7 :: "client_action block list" where
  "httpclient_code_7 = [
    State 30 [(33, 33, False, St 21), (35, 39, False, St 21), (42, 43, False, St 21),
      (45, 46, False, St 21), (48, 57, False, St 21), (58, 58, False, Tr 39),
      (65, 83, False, St 21), (84, 84, False, St 31), (85, 90, False, St 21),
      (94, 115, False, St 21), (116, 116, False, St 31), (117, 122, False, St 21),
      (124, 124, False, St 21), (126, 126, False, St 21)],
    State 31 [(33, 33, False, St 21), (35, 39, False, St 21), (42, 43, False, St 21),
      (45, 46, False, St 21), (48, 57, False, St 21), (58, 58, False, Tr 39),
      (65, 72, False, St 21), (73, 73, False, St 32), (74, 90, False, St 21),
      (94, 104, False, St 21), (105, 105, False, St 32), (106, 122, False, St 21),
      (124, 124, False, St 21), (126, 126, False, St 21)],
    State 32 [(33, 33, False, St 21), (35, 39, False, St 21), (42, 43, False, St 21),
      (45, 46, False, St 21), (48, 57, False, St 21), (58, 58, False, Tr 39),
      (65, 78, False, St 21), (79, 79, False, St 33), (80, 90, False, St 21),
      (94, 110, False, St 21), (111, 111, False, St 33), (112, 122, False, St 21),
      (124, 124, False, St 21), (126, 126, False, St 21)],
    State 33 [(33, 33, False, St 21), (35, 39, False, St 21), (42, 43, False, St 21),
      (45, 46, False, St 21), (48, 57, False, St 21), (58, 58, False, Tr 39),
      (65, 77, False, St 21), (78, 78, False, St 34), (79, 90, False, St 21),
      (94, 109, False, St 21), (110, 110, False, St 34), (111, 122, False, St 21),
      (124, 124, False, St 21), (126, 126, False, St 21)],
    State 34 [(33, 33, False, St 21), (35, 39, False, St 21), (42, 43, False, St 21),
      (45, 46, False, St 21), (48, 57, False, St 21), (58, 58, False, Tr 58),
      (65, 90, False, St 21), (94, 122, False, St 21), (124, 124, False, St 21),
      (126, 126, False, St 21)],
    Trans 59 [Cl_start_value] 35]"

definition httpclient_code_8 :: "client_action block list" where
  "httpclient_code_8 = [
    Trans 58 [Cl_write_field] 35,
    State 35 [(0, 8, False, Tr 40), (9, 9, False, Tr 59), (10, 10, False, Tr 60),
      (11, 12, False, Tr 59), (13, 13, False, Tr 61), (14, 31, False, Tr 40),
      (32, 32, False, Tr 59), (33, 66, False, Tr 40), (67, 67, False, Tr 62),
      (68, 98, False, Tr 40), (99, 99, False, Tr 62), (100, 255, False, Tr 40)],
    Trans 60 [Cl_start_value, Cl_write_value] 36,
    State 36 [(9, 9, False, St 37), (10, 10, False, Tr 64), (11, 12, False, St 37),
      (13, 13, False, St 89), (32, 32, False, St 37), (33, 33, False, Tr 35),
      (35, 39, False, Tr 35), (42, 43, False, Tr 35), (45, 46, False, Tr 35),
      (48, 57, False, Tr 35), (65, 66, False, Tr 35), (67, 67, False, Tr 66),
      (68, 83, False, Tr 35), (84, 84, False, Tr 37), (85, 90, False, Tr 35),
      (94, 98, False, Tr 35), (99, 99, False, Tr 66), (100, 115, False, Tr 35),
      (116, 116, False, Tr 37), (117, 122, False, Tr 35), (124, 124, False, Tr 35),
      (126, 126, False, Tr 35)],
    State 37 [(9, 13, False, St 37), (32, 32, False, St 37), (67, 67, False, St 38),
      (99, 99, False, St 38)],
    State 38 [(76, 76, False, St 39), (108, 108, False, St 39)],
    State 39 [(79, 79, False, St 40), (111, 111, False, St 40)],
    State 40 [(83, 83, False, St 41), (115, 115, False, St 41)],
    State 41 [(69, 69, False, St 42), (101, 101, False, St 42)],
    State 42 [(10, 10, False, St 43), (13, 13, False, St 88)],
    Trans 136 [Cl_write_value] 43]"

definition httpclient_code_9 :: "client_action block list" where
  "httpclient_code_9 = [
    State 43 [(10, 10, False, Tr 74), (13, 13, False, Tr 75), (33, 33, False, Tr 76),
      (35, 39, False, Tr 76), (42, 43, False, Tr 76), (45, 46, False, Tr 76),
      (48, 57, False, Tr 76), (65, 66, False, Tr 76), (67, 67, False, Tr 77),
      (68, 83, False, Tr 76), (84, 84, False, Tr 78), (85, 90, False, Tr 76),
      (94, 98, False, Tr 76), (99, 99, False, Tr 77), (100, 115, False, Tr 76),
      (116, 116, False, Tr 78), (117, 122, False, Tr 76), (124, 124, False, Tr 76),
      (126, 126, False, Tr 76)],
    Trans 37 [Cl_start_field] 44,
    Trans 78 [Cl_write_connection_close, Cl_start_field] 44,
    State 44 [(33, 33, False, St 21), (35, 39, False, St 21), (42, 43, False, St 21),
      (45, 46, False, St 21), (48, 57, False, St 21), (58, 58, False, Tr 39),
      (65, 81, False, St 21), (82, 82, False, St 45), (83, 90, False, St 21),
      (94, 113, False, St 21), (114, 114, False, St 45), (115, 122, False, St 21),
      (124, 124, False, St 21), (126, 126, False, St 21)],
    State 45 [(33, 33, False, St 21), (35, 39, False, St 21), (42, 43, False, St 21),
      (45, 46, False, St 21), (48, 57, False, St 21), (58, 58, False, Tr 39),
      (65, 65, False, St 46), (66, 90, False, St 21), (94, 96, False, St 21),
      (97, 97, False, St 46), (98, 122, False, St 21), (124, 124, False, St 21),
      (126, 126, False, St 21)],
    State 46 [(33, 33, False, St 21), (35, 39, False, St 21), (42, 43, False, St 21),
      (45, 46, False, St 21), (48, 57, False, St 21), (58, 58, False, Tr 39),
      (65, 77, False, St 21), (78, 78, False, St 47), (79, 90, False, St 21),
      (94, 109, False, St 21), (110, 110, False, St 47), (111, 122, False, St 21),
      (124, 124, False, St 21), (126, 126, False, St 21)]]"

definition httpclient_code_10 :: "client_action block list" where
  "httpclient_code_10 = [
    State 47 [(33, 33, False, St 21), (35, 39, False, St 21), (42, 43, False, St 21),
      (45, 46, False, St 21), (48, 57, False, St 21), (58, 58, False, Tr 39),
      (65, 82, False, St 21), (83, 83, False, St 48), (84, 90, False, St 21),
      (94, 114, False, St 21), (115, 115, False, St 48), (116, 122, False, St 21),
      (124, 124, False, St 21), (126, 126, False, St 21)],
    State 48 [(33, 33, False, St 21), (35, 39, False, St 21), (42, 43, False, St 21),
      (45, 46, False, St 21), (48, 57, False, St 21), (58, 58, False, Tr 39),
      (65, 69, False, St 21), (70, 70, False, St 49), (71, 90, False, St 21),
      (94, 101, False, St 21), (102, 102, False, St 49), (103, 122, False, St 21),
      (124, 124, False, St 21), (126, 126, False, St 21)],
    State 49 [(33, 33, False, St 21), (35, 39, False, St 21), (42, 43, False, St 21),
      (45, 46, False, St 21), (48, 57, False, St 21), (58, 58, False, Tr 39),
      (65, 68, False, St 21), (69, 69, False, St 50), (70, 90, False, St 21),
      (94, 100, False, St 21), (101, 101, False, St 50), (102, 122, False, St 21),
      (124, 124, False, St 21), (126, 126, False, St 21)],
    State 50 [(33, 33, False, St 21), (35, 39, False, St 21), (42, 43, False, St 21),
      (45, 46, False, St 21), (48, 57, False, St 21), (58, 58, False, Tr 39),
      (65, 81, False, St 21), (82, 82, False, St 51), (83, 90, False, St 21),
      (94, 113, False, St 21), (114, 114, False, St 51), (115, 122, False, St 21),
      (124, 124, False, St 21), (126, 126, False, St 21)],
    State 51 [(33, 33, False, St 21), (35, 39, False, St 21), (42, 43, False, St 21),
      (45, 45, False, St 52), (46, 46, False, St 21), (48, 57, False, St 21),
      (58, 58, False, Tr 39), (65, 90, False, St 21), (94, 122, False, St 21),
      (124, 124, False, St 21), (126, 126, False, St 21)]]"

definition httpclient_code_11 :: "client_action block list" where
  "httpclient_code_11 = [
    State 52 [(33, 33, False, St 21), (35, 39, False, St 21), (42, 43, False, St 21),
      (45, 46, False, St 21), (48, 57, False, St 21), (58, 58, False, Tr 39),
      (65, 68, False, St 21), (69, 69, False, St 53), (70, 90, False, St 21),
      (94, 100, False, St 21), (101, 101, False, St 53), (102, 122, False, St 21),
      (124, 124, False, St 21), (126, 126, False, St 21)],
    State 53 [(33, 33, False, St 21), (35, 39, False, St 21), (42, 43, False, St 21),
      (45, 46, False, St 21), (48, 57, False, St 21), (58, 58, False, Tr 39),
      (65, 77, False, St 21), (78, 78, False, St 54), (79, 90, False, St 21),
      (94, 109, False, St 21), (110, 110, False, St 54), (111, 122, False, St 21),
      (124, 124, False, St 21), (126, 126, False, St 21)],
    State 54 [(33, 33, False, St 21), (35, 39, False, St 21), (42, 43, False, St 21),
      (45, 46, False, St 21), (48, 57, False, St 21), (58, 58, False, Tr 39),
      (65, 66, False, St 21), (67, 67, False, St 55), (68, 90, False, St 21),
      (94, 98, False, St 21), (99, 99, False, St 55), (100, 122, False, St 21),
      (124, 124, False, St 21), (126, 126, False, St 21)],
    State 55 [(33, 33, False, St 21), (35, 39, False, St 21), (42, 43, False, St 21),
      (45, 46, False, St 21), (48, 57, False, St 21), (58, 58, False, Tr 39),
      (65, 78, False, St 21), (79, 79, False, St 56), (80, 90, False, St 21),
      (94, 110, False, St 21), (111, 111, False, St 56), (112, 122, False, St 21),
      (124, 124, False, St 21), (126, 126, False, St 21)],
    State 56 [(33, 33, False, St 21), (35, 39, False, St 21), (42, 43, False, St 21),
      (45, 46, False, St 21), (48, 57, False, St 21), (58, 58, False, Tr 39),
      (65, 67, False, St 21), (68, 68, False, St 57), (69, 90, False, St 21),
      (94, 99, False, St 21), (100, 100, False, St 57), (101, 122, False, St 21),
      (124, 124, False, St 21), (126, 126, False, St 21)]]"

definition httpclient_code_12 :: "client_action block list" where
  "httpclient_code_12 = [
    State 57 [(33, 33, False, St 21), (35, 39, False, St 21), (42, 43, False, St 21),
      (45, 46, False, St 21), (48, 57, False, St 21), (58, 58, False, Tr 39),
      (65, 72, False, St 21), (73, 73, False, St 58), (74, 90, False, St 21),
      (94, 104, False, St 21), (105, 105, False, St 58), (106, 122, False, St 21),
      (124, 124, False, St 21), (126, 126, False, St 21)],
    State 58 [(33, 33, False, St 21), (35, 39, False, St 21), (42, 43, False, St 21),
      (45, 46, False, St 21), (48, 57, False, St 21), (58, 58, False, Tr 39),
      (65, 77, False, St 21), (78, 78, False, St 59), (79, 90, False, St 21),
      (94, 109, False, St 21), (110, 110, False, St 59), (111, 122, False, St 21),
      (124, 124, False, St 21), (126, 126, False, St 21)],
    State 59 [(33, 33, False, St 21), (35, 39, False, St 21), (42, 43, False, St 21),
      (45, 46, False, St 21), (48, 57, False, St 21), (58, 58, False, Tr 39),
      (65, 70, False, St 21), (71, 71, False, St 60), (72, 90, False, St 21),
      (94, 102, False, St 21), (103, 103, False, St 60), (104, 122, False, St 21),
      (124, 124, False, St 21), (126, 126, False, St 21)],
    State 60 [(33, 33, False, St 21), (35, 39, False, St 21), (42, 43, False, St 21),
      (45, 46, False, St 21), (48, 57, False, St 21), (58, 58, False, Tr 95),
      (65, 90, False, St 21), (94, 122, False, St 21), (124, 124, False, St 21),
      (126, 126, False, St 21)],
    Trans 96 [Cl_start_value] 61,
    Trans 95 [Cl_write_field] 61,
    State 61 [(0, 8, False, Tr 40), (9, 9, False, Tr 96), (10, 10, False, Tr 97),
      (11, 12, False, Tr 96), (13, 13, False, Tr 98), (14, 31, False, Tr 40),
      (32, 32, False, Tr 96), (33, 66, False, Tr 40), (67, 67, False, Tr 99),
      (68, 98, False, Tr 40), (99, 99, False, Tr 99), (100, 255, False, Tr 40)],
    Trans 97 [Cl_start_value, Cl_write_value] 62]"

definition httpclient_code_13 :: "client_action block list" where
  "httpclient_code_13 = [
    State 62 [(9, 9, False, St 63), (10, 10, False, Tr 101), (11, 12, False, St 63),
      (13, 13, False, St 72), (32, 32, False, St 63), (33, 33, False, Tr 35),
      (35, 39, False, Tr 35), (42, 43, False, Tr 35), (45, 46, False, Tr 35),
      (48, 57, False, Tr 35), (65, 66, False, Tr 35), (67, 67, False, Tr 103),
      (68, 83, False, Tr 35), (84, 84, False, Tr 37), (85, 90, False, Tr 35),
      (94, 98, False, Tr 35), (99, 99, False, Tr 103), (100, 115, False, Tr 35),
      (116, 116, False, Tr 37), (117, 122, False, Tr 35), (124, 124, False, Tr 35),
      (126, 126, False, Tr 35)],
    State 63 [(9, 13, False, St 63), (32, 32, False, St 63), (67, 67, False, Tr 104),
      (99, 99, False, Tr 104)],
    Trans 104 [Cl_start_value] 64,
    State 64 [(72, 72, False, St 65), (104, 104, False, St 65)],
    State 65 [(85, 85, False, St 66), (117, 117, False, St 66)],
    State 66 [(78, 78, False, St 67), (110, 110, False, St 67)],
    State 67 [(75, 75, False, St 68), (107, 107, False, St 68)],
    State 68 [(69, 69, False, St 69), (101, 101, False, St 69)],
    State 69 [(68, 68, False, St 70), (100, 100, False, St 70)],
    State 70 [(10, 10, False, Tr 111), (13, 13, False, Tr 112)],
    Trans 112 [Cl_write_value] 71,
    State 71 [(10, 10, False, Tr 113)],
    Trans 101 [Cl_done] 121]"

definition httpclient_code_14 :: "client_action block list" where
  "httpclient_code_14 = [
    State 121 [(9, 13, False, St 63), (32, 32, False, St 63), (67, 67, False, Tr 104),
      (99, 99, False, Tr 104)],
    State 72 [(9, 9, False, St 63), (10, 10, False, Tr 101), (11, 13, False, St 63),
      (32, 32, False, St 63), (67, 67, False, Tr 104), (99, 99, False, Tr 104)],
    Trans 103 [Cl_start_value, Cl_start_field] 73,
    State 73 [(33, 33, False, St 21), (35, 39, False, St 21), (42, 43, False, St 21),
      (45, 46, False, St 21), (48, 57, False, St 21), (58, 58, False, Tr 39),
      (65, 71, False, St 21), (72, 72, False, St 74), (73, 78, False, St 21),
      (79, 79, False, St 26), (80, 90, False, St 21), (94, 103, False, St 21),
      (104, 104, False, St 74), (105, 110, False, St 21), (111, 111, False, St 26),
      (112, 122, False, St 21), (124, 124, False, St 21), (126, 126, False, St 21)],
    State 74 [(33, 33, False, St 21), (35, 39, False, St 21), (42, 43, False, St 21),
      (45, 46, False, St 21), (48, 57, False, St 21), (58, 58, False, Tr 39),
      (65, 84, False, St 21), (85, 85, False, St 75), (86, 90, False, St 21),
      (94, 116, False, St 21), (117, 117, False, St 75), (118, 122, False, St 21),
      (124, 124, False, St 21), (126, 126, False, St 21)],
    State 75 [(33, 33, False, St 21), (35, 39, False, St 21), (42, 43, False, St 21),
      (45, 46, False, St 21), (48, 57, False, St 21), (58, 58, False, Tr 39),
      (65, 77, False, St 21), (78, 78, False, St 76), (79, 90, False, St 21),
      (94, 109, False, St 21), (110, 110, False, St 76), (111, 122, False, St 21),
      (124, 124, False, St 21), (126, 126, False, St 21)]]"

definition httpclient_code_15 :: "client_action block list" where
  "httpclient_code_15 = [
    State 76 [(33, 33, False, St 21), (35, 39, False, St 21), (42, 43, False, St 21),
      (45, 46, False, St 21), (48, 57, False, St 21), (58, 58, False, Tr 39),
      (65, 74, False, St 21), (75, 75, False, St 77), (76, 90, False, St 21),
      (94, 106, False, St 21), (107, 107, False, St 77), (108, 122, False, St 21),
      (124, 124, False, St 21), (126, 126, False, St 21)],
    State 77 [(33, 33, False, St 21), (35, 39, False, St 21), (42, 43, False, St 21),
      (45, 46, False, St 21), (48, 57, False, St 21), (58, 58, False, Tr 39),
      (65, 68, False, St 21), (69, 69, False, St 78), (70, 90, False, St 21),
      (94, 100, False, St 21), (101, 101, False, St 78), (102, 122, False, St 21),
      (124, 124, False, St 21), (126, 126, False, St 21)],
    State 78 [(33, 33, False, St 21), (35, 39, False, St 21), (42, 43, False, St 21),
      (45, 46, False, St 21), (48, 57, False, St 21), (58, 58, False, Tr 39),
      (65, 67, False, St 21), (68, 68, False, St 79), (69, 90, False, St 21),
      (94, 99, False, St 21), (100, 100, False, St 79), (101, 122, False, St 21),
      (124, 124, False, St 21), (126, 126, False, St 21)],
    State 79 [(10, 10, False, Tr 111), (13, 13, False, Tr 112), (33, 33, False, St 21),
      (35, 39, False, St 21), (42, 43, False, St 21), (45, 46, False, St 21),
      (48, 57, False, St 21), (58, 58, False, Tr 39), (65, 90, False, St 21),
      (94, 122, False, St 21), (124, 124, False, St 21), (126, 126, False, St 21)],
    Trans 98 [Cl_start_value, Cl_write_value] 80,
    State 80 [(9, 9, False, St 63), (10, 10, False, St 62), (11, 13, False, St 63),
      (32, 32, False, St 63), (67, 67, False, Tr 104), (99, 99, False, Tr 104)],
    Trans 99 [Cl_start_value] 81]"

definition httpclient_code_16 :: "client_action block list" where
  "httpclient_code_16 = [
    State 81 [(0, 9, False, St 23), (10, 10, False, Tr 45), (11, 12, False, St 23),
      (13, 13, False, Tr 46), (14, 71, False, St 23), (72, 72, False, St 82),
      (73, 103, False, St 23), (104, 104, False, St 82), (105, 255, False, St 23)],
    State 82 [(0, 9, False, St 23), (10, 10, False, Tr 45), (11, 12, False, St 23),
      (13, 13, False, Tr 46), (14, 84, False, St 23), (85, 85, False, St 83),
      (86, 116, False, St 23), (117, 117, False, St 83), (118, 255, False, St 23)],
    State 83 [(0, 9, False, St 23), (10, 10, False, Tr 45), (11, 12, False, St 23),
      (13, 13, False, Tr 46), (14, 77, False, St 23), (78, 78, False, St 84),
      (79, 109, False, St 23), (110, 110, False, St 84), (111, 255, False, St 23)],
    State 84 [(0, 9, False, St 23), (10, 10, False, Tr 45), (11, 12, False, St 23),
      (13, 13, False, Tr 46), (14, 74, False, St 23), (75, 75, False, St 85),
      (76, 106, False, St 23), (107, 107, False, St 85), (108, 255, False, St 23)],
    State 85 [(0, 9, False, St 23), (10, 10, False, Tr 45), (11, 12, False, St 23),
      (13, 13, False, Tr 46), (14, 68, False, St 23), (69, 69, False, St 86),
      (70, 100, False, St 23), (101, 101, False, St 86), (102, 255, False, St 23)],
    State 86 [(0, 9, False, St 23), (10, 10, False, Tr 45), (11, 12, False, St 23),
      (13, 13, False, Tr 46), (14, 67, False, St 23), (68, 68, False, St 87),
      (69, 99, False, St 23), (100, 100, False, St 87), (101, 255, False, St 23)],
    State 87 [(0, 9, False, St 23), (10, 10, False, Tr 111), (11, 12, False, St 23),
      (13, 13, False, Tr 112), (14, 255, False, St 23)],
    Trans 137 [Cl_write_value] 88,
    State 88 [(10, 10, False, St 43)],
    Trans 64 [Cl_done] 122,
    State 122 [(9, 13, False, St 37), (32, 32, False, St 37), (67, 67, False, St 38),
      (99, 99, False, St 38)],
    State 89 [(9, 9, False, St 37), (10, 10, False, Tr 64), (11, 13, False, St 37),
      (32, 32, False, St 37), (67, 67, False, St 38), (99, 99, False, St 38)],
    Trans 66 [Cl_start_field] 90]"

definition httpclient_code_17 :: "client_action block list" where
  "httpclient_code_17 = [
    State 90 [(33, 33, False, St 21), (35, 39, False, St 21), (42, 43, False, St 21),
      (45, 46, False, St 21), (48, 57, False, St 21), (58, 58, False, Tr 39),
      (65, 75, False, St 21), (76, 76, False, St 91), (77, 78, False, St 21),
      (79, 79, False, St 26), (80, 90, False, St 21), (94, 107, False, St 21),
      (108, 108, False, St 91), (109, 110, False, St 21), (111, 111, False, St 26),
      (112, 122, False, St 21), (124, 124, False, St 21), (126, 126, False, St 21)],
    State 91 [(33, 33, False, St 21), (35, 39, False, St 21), (42, 43, False, St 21),
      (45, 46, False, St 21), (48, 57, False, St 21), (58, 58, False, Tr 39),
      (65, 78, False, St 21), (79, 79, False, St 92), (80, 90, False, St 21),
      (94, 110, False, St 21), (111, 111, False, St 92), (112, 122, False, St 21),
      (124, 124, False, St 21), (126, 126, False, St 21)],
    State 92 [(33, 33, False, St 21), (35, 39, False, St 21), (42, 43, False, St 21),
      (45, 46, False, St 21), (48, 57, False, St 21), (58, 58, False, Tr 39),
      (65, 82, False, St 21), (83, 83, False, St 93), (84, 90, False, St 21),
      (94, 114, False, St 21), (115, 115, False, St 93), (116, 122, False, St 21),
      (124, 124, False, St 21), (126, 126, False, St 21)],
    State 93 [(33, 33, False, St 21), (35, 39, False, St 21), (42, 43, False, St 21),
      (45, 46, False, St 21), (48, 57, False, St 21), (58, 58, False, Tr 39),
      (65, 68, False, St 21), (69, 69, False, St 94), (70, 90, False, St 21),
      (94, 100, False, St 21), (101, 101, False, St 94), (102, 122, False, St 21),
      (124, 124, False, St 21), (126, 126, False, St 21)],
    State 94 [(10, 10, False, St 43), (13, 13, False, St 88), (33, 33, False, St 21),
      (35, 39, False, St 21), (42, 43, False, St 21), (45, 46, False, St 21),
      (48, 57, False, St 21), (58, 58, False, Tr 39), (65, 90, False, St 21),
      (94, 122, False, St 21), (124, 124, False, St 21), (126, 126, False, St 21)]]"

definition httpclient_code_18 :: "client_action block list" where
  "httpclient_code_18 = [
    Trans 61 [Cl_start_value, Cl_write_value] 95,
    State 95 [(9, 9, False, St 37), (10, 10, False, St 36), (11, 13, False, St 37),
      (32, 32, False, St 37), (67, 67, False, St 38), (99, 99, False, St 38)],
    Trans 62 [Cl_start_value] 96,
    State 96 [(0, 9, False, St 23), (10, 10, False, Tr 45), (11, 12, False, St 23),
      (13, 13, False, Tr 46), (14, 75, False, St 23), (76, 76, False, St 97),
      (77, 107, False, St 23), (108, 108, False, St 97), (109, 255, False, St 23)],
    State 97 [(0, 9, False, St 23), (10, 10, False, Tr 45), (11, 12, False, St 23),
      (13, 13, False, Tr 46), (14, 78, False, St 23), (79, 79, False, St 98),
      (80, 110, False, St 23), (111, 111, False, St 98), (112, 255, False, St 23)],
    State 98 [(0, 9, False, St 23), (10, 10, False, Tr 45), (11, 12, False, St 23),
      (13, 13, False, Tr 46), (14, 82, False, St 23), (83, 83, False, St 99),
      (84, 114, False, St 23), (115, 115, False, St 99), (116, 255, False, St 23)],
    State 99 [(0, 9, False, St 23), (10, 10, False, Tr 45), (11, 12, False, St 23),
      (13, 13, False, Tr 46), (14, 68, False, St 23), (69, 69, False, St 100),
      (70, 100, False, St 23), (101, 101, False, St 100), (102, 255, False, St 23)],
    State 100 [(0, 9, False, St 23), (10, 10, False, Tr 136), (11, 12, False, St 23),
      (13, 13, False, Tr 137), (14, 255, False, St 23)],
    State 101 [(33, 33, False, St 21), (35, 39, False, St 21), (42, 43, False, St 21),
      (45, 46, False, St 21), (48, 57, False, St 21), (58, 58, False, Tr 39),
      (65, 68, False, St 21), (69, 69, False, St 102), (70, 90, False, St 21),
      (94, 100, False, St 21), (101, 101, False, St 102), (102, 122, False, St 21),
      (124, 124, False, St 21), (126, 126, False, St 21)],
    State 102 [(33, 33, False, St 21), (35, 39, False, St 21), (42, 43, False, St 21),
      (45, 46, False, St 21), (48, 57, False, St 21), (58, 58, False, Tr 39),
      (65, 77, False, St 21), (78, 78, False, St 103), (79, 90, False, St 21),
      (94, 109, False, St 21), (110, 110, False, St 103), (111, 122, False, St 21),
      (124, 124, False, St 21), (126, 126, False, St 21)]]"

definition httpclient_code_19 :: "client_action block list" where
  "httpclient_code_19 = [
    State 103 [(33, 33, False, St 21), (35, 39, False, St 21), (42, 43, False, St 21),
      (45, 46, False, St 21), (48, 57, False, St 21), (58, 58, False, Tr 39),
      (65, 83, False, St 21), (84, 84, False, St 104), (85, 90, False, St 21),
      (94, 115, False, St 21), (116, 116, False, St 104), (117, 122, False, St 21),
      (124, 124, False, St 21), (126, 126, False, St 21)],
    State 104 [(33, 33, False, St 21), (35, 39, False, St 21), (42, 43, False, St 21),
      (45, 45, False, St 105), (46, 46, False, St 21), (48, 57, False, St 21),
      (58, 58, False, Tr 39), (65, 90, False, St 21), (94, 122, False, St 21),
      (124, 124, False, St 21), (126, 126, False, St 21)],
    State 105 [(33, 33, False, St 21), (35, 39, False, St 21), (42, 43, False, St 21),
      (45, 46, False, St 21), (48, 57, False, St 21), (58, 58, False, Tr 39),
      (65, 75, False, St 21), (76, 76, False, St 106), (77, 90, False, St 21),
      (94, 107, False, St 21), (108, 108, False, St 106), (109, 122, False, St 21),
      (124, 124, False, St 21), (126, 126, False, St 21)],
    State 106 [(33, 33, False, St 21), (35, 39, False, St 21), (42, 43, False, St 21),
      (45, 46, False, St 21), (48, 57, False, St 21), (58, 58, False, Tr 39),
      (65, 68, False, St 21), (69, 69, False, St 107), (70, 90, False, St 21),
      (94, 100, False, St 21), (101, 101, False, St 107), (102, 122, False, St 21),
      (124, 124, False, St 21), (126, 126, False, St 21)],
    State 107 [(33, 33, False, St 21), (35, 39, False, St 21), (42, 43, False, St 21),
      (45, 46, False, St 21), (48, 57, False, St 21), (58, 58, False, Tr 39),
      (65, 77, False, St 21), (78, 78, False, St 108), (79, 90, False, St 21),
      (94, 109, False, St 21), (110, 110, False, St 108), (111, 122, False, St 21),
      (124, 124, False, St 21), (126, 126, False, St 21)]]"

definition httpclient_code_20 :: "client_action block list" where
  "httpclient_code_20 = [
    State 108 [(33, 33, False, St 21), (35, 39, False, St 21), (42, 43, False, St 21),
      (45, 46, False, St 21), (48, 57, False, St 21), (58, 58, False, Tr 39),
      (65, 70, False, St 21), (71, 71, False, St 109), (72, 90, False, St 21),
      (94, 102, False, St 21), (103, 103, False, St 109), (104, 122, False, St 21),
      (124, 124, False, St 21), (126, 126, False, St 21)],
    State 109 [(33, 33, False, St 21), (35, 39, False, St 21), (42, 43, False, St 21),
      (45, 46, False, St 21), (48, 57, False, St 21), (58, 58, False, Tr 39),
      (65, 83, False, St 21), (84, 84, False, St 110), (85, 90, False, St 21),
      (94, 115, False, St 21), (116, 116, False, St 110), (117, 122, False, St 21),
      (124, 124, False, St 21), (126, 126, False, St 21)],
    State 110 [(33, 33, False, St 21), (35, 39, False, St 21), (42, 43, False, St 21),
      (45, 46, False, St 21), (48, 57, False, St 21), (58, 58, False, Tr 39),
      (65, 71, False, St 21), (72, 72, False, St 111), (73, 90, False, St 21),
      (94, 103, False, St 21), (104, 104, False, St 111), (105, 122, False, St 21),
      (124, 124, False, St 21), (126, 126, False, St 21)],
    State 111 [(33, 33, False, St 21), (35, 39, False, St 21), (42, 43, False, St 21),
      (45, 46, False, St 21), (48, 57, False, St 21), (58, 58, False, Tr 148),
      (65, 90, False, St 21), (94, 122, False, St 21), (124, 124, False, St 21),
      (126, 126, False, St 21)],
    Trans 149 [Cl_start_value] 112,
    Trans 148 [Cl_write_field] 112,
    State 112 [(0, 8, False, Tr 40), (9, 9, False, Tr 149), (10, 10, False, Tr 150),
      (11, 12, False, Tr 149), (13, 13, False, Tr 151), (14, 31, False, Tr 40),
      (32, 32, False, Tr 149), (33, 47, False, Tr 40), (48, 57, False, Tr 152),
      (58, 255, False, Tr 40)]]"

definition httpclient_code_21 :: "client_action block list" where
  "httpclient_code_21 = [
    Trans 150 [Cl_start_value, Cl_write_value] 113,
    State 113 [(9, 9, False, St 114), (10, 10, False, Tr 154), (11, 12, False, St 114),
      (13, 13, False, St 116), (32, 32, False, St 114), (33, 33, False, Tr 35),
      (35, 39, False, Tr 35), (42, 43, False, Tr 35), (45, 46, False, Tr 35),
      (48, 57, False, Tr 156), (65, 66, False, Tr 35), (67, 67, False, Tr 36),
      (68, 83, False, Tr 35), (84, 84, False, Tr 37), (85, 90, False, Tr 35),
      (94, 98, False, Tr 35), (99, 99, False, Tr 36), (100, 115, False, Tr 35),
      (116, 116, False, Tr 37), (117, 122, False, Tr 35), (124, 124, False, Tr 35),
      (126, 126, False, Tr 35)],
    State 114 [(9, 13, False, St 114), (32, 32, False, St 114), (48, 57, False, Tr 157)],
    Trans 157 [Cl_start_value] 115,
    State 115 [(10, 10, False, Tr 158), (13, 13, False, Tr 159), (48, 57, False, St 115)],
    Trans 154 [Cl_done] 123,
    State 123 [(9, 13, False, St 114), (32, 32, False, St 114), (48, 57, False, Tr 157)],
    State 116 [(9, 9, False, St 114), (10, 10, False, Tr 154), (11, 13, False, St 114),
      (32, 32, False, St 114), (48, 57, False, Tr 157)],
    Trans 156 [Cl_start_value, Cl_start_field] 117,
    State 117 [(10, 10, False, Tr 158), (13, 13, False, Tr 159), (33, 33, False, St 21),
      (35, 39, False, St 21), (42, 43, False, St 21), (45, 46, False, St 21),
      (48, 57, False, St 117), (58, 58, False, Tr 39), (65, 90, False, St 21),
      (94, 122, False, St 21), (124, 124, False, St 21), (126, 126, False, St 21)]]"

definition httpclient_code_22 :: "client_action block list" where
  "httpclient_code_22 = [
    Trans 151 [Cl_start_value, Cl_write_value] 118,
    State 118 [(9, 9, False, St 114), (10, 10, False, St 113), (11, 13, False, St 114),
      (32, 32, False, St 114), (48, 57, False, Tr 157)],
    Trans 152 [Cl_start_value] 119,
    State 119 [(0, 9, False, St 23), (10, 10, False, Tr 158), (11, 12, False, St 23),
      (13, 13, False, Tr 159), (14, 47, False, St 23), (48, 57, False, St 119),
      (58, 255, False, St 23)]]"

section \<open>The machine\<close>

definition httpclient_code :: "client_action block list" where
  "httpclient_code = concat [
    httpclient_code_1, httpclient_code_2, httpclient_code_3, httpclient_code_4, httpclient_code_5, httpclient_code_6,
    httpclient_code_7, httpclient_code_8, httpclient_code_9, httpclient_code_10, httpclient_code_11, httpclient_code_12,
    httpclient_code_13, httpclient_code_14, httpclient_code_15, httpclient_code_16, httpclient_code_17, httpclient_code_18,
    httpclient_code_19, httpclient_code_20, httpclient_code_21, httpclient_code_22]"

lemmas httpclient_code_defs =
  httpclient_code_1_def httpclient_code_2_def httpclient_code_3_def httpclient_code_4_def
  httpclient_code_5_def httpclient_code_6_def httpclient_code_7_def httpclient_code_8_def
  httpclient_code_9_def httpclient_code_10_def httpclient_code_11_def httpclient_code_12_def
  httpclient_code_13_def httpclient_code_14_def httpclient_code_15_def httpclient_code_16_def
  httpclient_code_17_def httpclient_code_18_def httpclient_code_19_def httpclient_code_20_def
  httpclient_code_21_def httpclient_code_22_def

lemma httpclient_state_nums:
  "state_nums httpclient_code_1 = [1, 2, 120]"
  "state_nums httpclient_code_2 = [3, 4, 5]"
  "state_nums httpclient_code_3 = [6, 7, 8, 9, 10, 11, 12, 13, 14, 15, 16]"
  "state_nums httpclient_code_4 = [17, 18, 19, 20]"
  "state_nums httpclient_code_5 = [21, 22, 23, 24]"
  "state_nums httpclient_code_6 = [25, 26, 27, 28, 29]"
  "state_nums httpclient_code_7 = [30, 31, 32, 33, 34]"
  "state_nums httpclient_code_8 = [35, 36, 37, 38, 39, 40, 41, 42]"
  "state_nums httpclient_code_9 = [43, 44, 45, 46]"
  "state_nums httpclient_code_10 = [47, 48, 49, 50, 51]"
  "state_nums httpclient_code_11 = [52, 53, 54, 55, 56]"
  "state_nums httpclient_code_12 = [57, 58, 59, 60, 61]"
  "state_nums httpclient_code_13 = [62, 63, 64, 65, 66, 67, 68, 69, 70, 71]"
  "state_nums httpclient_code_14 = [121, 72, 73, 74, 75]"
  "state_nums httpclient_code_15 = [76, 77, 78, 79, 80]"
  "state_nums httpclient_code_16 = [81, 82, 83, 84, 85, 86, 87, 88, 122, 89]"
  "state_nums httpclient_code_17 = [90, 91, 92, 93, 94]"
  "state_nums httpclient_code_18 = [95, 96, 97, 98, 99, 100, 101, 102]"
  "state_nums httpclient_code_19 = [103, 104, 105, 106, 107]"
  "state_nums httpclient_code_20 = [108, 109, 110, 111, 112]"
  "state_nums httpclient_code_21 = [113, 114, 115, 123, 116, 117]"
  "state_nums httpclient_code_22 = [118, 119]"
  by (simp_all add: httpclient_code_defs)

lemma httpclient_trans_nums:
  "trans_nums httpclient_code_1 = [0, 3, 7, 9, 15, 74, 4]"
  "trans_nums httpclient_code_2 = [10, 16, 75, 6, 12, 18, 8, 13]"
  "trans_nums httpclient_code_3 = [14, 2, 26, 27]"
  "trans_nums httpclient_code_4 = [28, 30, 45, 32, 42, 111, 113, 158, 35, 76]"
  "trans_nums httpclient_code_5 = [41, 39, 40, 46, 33, 43, 159, 36, 77]"
  "trans_nums httpclient_code_6 = []"
  "trans_nums httpclient_code_7 = [59]"
  "trans_nums httpclient_code_8 = [58, 60, 136]"
  "trans_nums httpclient_code_9 = [37, 78]"
  "trans_nums httpclient_code_10 = []"
  "trans_nums httpclient_code_11 = []"
  "trans_nums httpclient_code_12 = [96, 95, 97]"
  "trans_nums httpclient_code_13 = [104, 112, 101]"
  "trans_nums httpclient_code_14 = [103]"
  "trans_nums httpclient_code_15 = [98, 99]"
  "trans_nums httpclient_code_16 = [137, 64, 66]"
  "trans_nums httpclient_code_17 = []"
  "trans_nums httpclient_code_18 = [61, 62]"
  "trans_nums httpclient_code_19 = []"
  "trans_nums httpclient_code_20 = [149, 148]"
  "trans_nums httpclient_code_21 = [150, 157, 154, 156]"
  "trans_nums httpclient_code_22 = [151, 152]"
  by (simp_all add: httpclient_code_defs)

definition httpclient_parser_start :: nat where "httpclient_parser_start = 1"
definition httpclient_parser_first_final :: nat where "httpclient_parser_first_final = 120"
definition httpclient_parser_error :: nat where "httpclient_parser_error = 0"

definition httpclient_step :: "nat \<Rightarrow> char \<Rightarrow> (client_action list \<times> nat) option" where
  "httpclient_step = code_step httpclient_code False"

section \<open>Blocks of an ordinary response\<close>

lemma httpclient_edges_1:
  "state_edges httpclient_code 1 = [(48, 57, False, Tr 0), (65, 70, False, Tr 0), (72, 72, False, Tr
      2), (97, 102, False, Tr 0)]"
  "state_edges httpclient_code 2 = [(10, 10, False, Tr 3), (13, 13, False, Tr 4), (48, 57, False, St
      2), (59, 59, False, Tr 6), (65, 70, False, St 2), (97, 102, False, St 2)]"
  by (simp_all add: httpclient_code_def state_edges_append httpclient_state_nums) (simp_all add: httpclient_code_1_def)

lemma httpclient_edges_2:
  "state_edges httpclient_code 3 = [(10, 10, False, Tr 7)]"
  by (simp_all add: httpclient_code_def state_edges_append httpclient_state_nums) (simp_all add: httpclient_code_2_def)

lemma httpclient_edges_3:
  "state_edges httpclient_code 8 = [(84, 84, False, St 9)]"
  "state_edges httpclient_code 9 = [(84, 84, False, St 10)]"
  "state_edges httpclient_code 10 = [(80, 80, False, St 11)]"
  "state_edges httpclient_code 11 = [(47, 47, False, St 12)]"
  "state_edges httpclient_code 12 = [(48, 57, False, St 13)]"
  "state_edges httpclient_code 13 = [(46, 46, False, St 14), (48, 57, False, St 13)]"
  "state_edges httpclient_code 14 = [(48, 57, False, St 15)]"
  "state_edges httpclient_code 15 = [(32, 32, False, Tr 26), (48, 57, False, St 15)]"
  "state_edges httpclient_code 16 = [(48, 57, False, Tr 27)]"
  by (simp_all add: httpclient_code_def state_edges_append httpclient_state_nums) (simp_all add: httpclient_code_3_def)

lemma httpclient_edges_4:
  "state_edges httpclient_code 17 = [(32, 32, False, Tr 28), (48, 57, False, St 17)]"
  "state_edges httpclient_code 18 = [(0, 9, False, Tr 30), (11, 255, False, Tr 30)]"
  "state_edges httpclient_code 19 = [(0, 9, False, St 19), (10, 10, False, Tr 32), (11, 12, False,
      St 19), (13, 13, False, Tr 33), (14, 255, False, St 19)]"
  "state_edges httpclient_code 20 = [(10, 10, False, Tr 7), (13, 13, False, St 3), (33, 33, False,
      Tr 35), (35, 39, False, Tr 35), (42, 43, False, Tr 35), (45, 46, False, Tr 35), (48, 57,
      False, Tr 35), (65, 66, False, Tr 35), (67, 67, False, Tr 36), (68, 83, False, Tr 35), (84,
      84, False, Tr 37), (85, 90, False, Tr 35), (94, 98, False, Tr 35), (99, 99, False, Tr 36),
      (100, 115, False, Tr 35), (116, 116, False, Tr 37), (117, 122, False, Tr 35), (124, 124,
      False, Tr 35), (126, 126, False, Tr 35)]"
  by (simp_all add: httpclient_code_def state_edges_append httpclient_state_nums) (simp_all add: httpclient_code_4_def)

lemma httpclient_edges_5:
  "state_edges httpclient_code 21 = [(33, 33, False, St 21), (35, 39, False, St 21), (42, 43, False,
      St 21), (45, 46, False, St 21), (48, 57, False, St 21), (58, 58, False, Tr 39), (65, 90,
      False, St 21), (94, 122, False, St 21), (124, 124, False, St 21), (126, 126, False, St 21)]"
  "state_edges httpclient_code 22 = [(0, 8, False, Tr 40), (9, 9, False, Tr 41), (10, 10, False, Tr
      42), (11, 12, False, Tr 41), (13, 13, False, Tr 43), (14, 31, False, Tr 40), (32, 32, False,
      Tr 41), (33, 255, False, Tr 40)]"
  "state_edges httpclient_code 23 = [(0, 9, False, St 23), (10, 10, False, Tr 45), (11, 12, False,
      St 23), (13, 13, False, Tr 46), (14, 255, False, St 23)]"
  "state_edges httpclient_code 24 = [(10, 10, False, St 20)]"
  by (simp_all add: httpclient_code_def state_edges_append httpclient_state_nums) (simp_all add: httpclient_code_5_def)

lemma httpclient_edges_6:
  "state_edges httpclient_code 25 = [(33, 33, False, St 21), (35, 39, False, St 21), (42, 43, False,
      St 21), (45, 46, False, St 21), (48, 57, False, St 21), (58, 58, False, Tr 39), (65, 78,
      False, St 21), (79, 79, False, St 26), (80, 90, False, St 21), (94, 110, False, St 21), (111,
      111, False, St 26), (112, 122, False, St 21), (124, 124, False, St 21), (126, 126, False, St
      21)]"
  "state_edges httpclient_code 26 = [(33, 33, False, St 21), (35, 39, False, St 21), (42, 43, False,
      St 21), (45, 46, False, St 21), (48, 57, False, St 21), (58, 58, False, Tr 39), (65, 77,
      False, St 21), (78, 78, False, St 27), (79, 90, False, St 21), (94, 109, False, St 21), (110,
      110, False, St 27), (111, 122, False, St 21), (124, 124, False, St 21), (126, 126, False, St
      21)]"
  "state_edges httpclient_code 27 = [(33, 33, False, St 21), (35, 39, False, St 21), (42, 43, False,
      St 21), (45, 46, False, St 21), (48, 57, False, St 21), (58, 58, False, Tr 39), (65, 77,
      False, St 21), (78, 78, False, St 28), (79, 83, False, St 21), (84, 84, False, St 101), (85,
      90, False, St 21), (94, 109, False, St 21), (110, 110, False, St 28), (111, 115, False, St
      21), (116, 116, False, St 101), (117, 122, False, St 21), (124, 124, False, St 21), (126, 126,
      False, St 21)]"
  "state_edges httpclient_code 28 = [(33, 33, False, St 21), (35, 39, False, St 21), (42, 43, False,
      St 21), (45, 46, False, St 21), (48, 57, False, St 21), (58, 58, False, Tr 39), (65, 68,
      False, St 21), (69, 69, False, St 29), (70, 90, False, St 21), (94, 100, False, St 21), (101,
      101, False, St 29), (102, 122, False, St 21), (124, 124, False, St 21), (126, 126, False, St
      21)]"
  "state_edges httpclient_code 29 = [(33, 33, False, St 21), (35, 39, False, St 21), (42, 43, False,
      St 21), (45, 46, False, St 21), (48, 57, False, St 21), (58, 58, False, Tr 39), (65, 66,
      False, St 21), (67, 67, False, St 30), (68, 90, False, St 21), (94, 98, False, St 21), (99,
      99, False, St 30), (100, 122, False, St 21), (124, 124, False, St 21), (126, 126, False, St
      21)]"
  by (simp_all add: httpclient_code_def state_edges_append httpclient_state_nums) (simp_all add: httpclient_code_6_def)

lemma httpclient_edges_7:
  "state_edges httpclient_code 30 = [(33, 33, False, St 21), (35, 39, False, St 21), (42, 43, False,
      St 21), (45, 46, False, St 21), (48, 57, False, St 21), (58, 58, False, Tr 39), (65, 83,
      False, St 21), (84, 84, False, St 31), (85, 90, False, St 21), (94, 115, False, St 21), (116,
      116, False, St 31), (117, 122, False, St 21), (124, 124, False, St 21), (126, 126, False, St
      21)]"
  "state_edges httpclient_code 31 = [(33, 33, False, St 21), (35, 39, False, St 21), (42, 43, False,
      St 21), (45, 46, False, St 21), (48, 57, False, St 21), (58, 58, False, Tr 39), (65, 72,
      False, St 21), (73, 73, False, St 32), (74, 90, False, St 21), (94, 104, False, St 21), (105,
      105, False, St 32), (106, 122, False, St 21), (124, 124, False, St 21), (126, 126, False, St
      21)]"
  "state_edges httpclient_code 32 = [(33, 33, False, St 21), (35, 39, False, St 21), (42, 43, False,
      St 21), (45, 46, False, St 21), (48, 57, False, St 21), (58, 58, False, Tr 39), (65, 78,
      False, St 21), (79, 79, False, St 33), (80, 90, False, St 21), (94, 110, False, St 21), (111,
      111, False, St 33), (112, 122, False, St 21), (124, 124, False, St 21), (126, 126, False, St
      21)]"
  "state_edges httpclient_code 33 = [(33, 33, False, St 21), (35, 39, False, St 21), (42, 43, False,
      St 21), (45, 46, False, St 21), (48, 57, False, St 21), (58, 58, False, Tr 39), (65, 77,
      False, St 21), (78, 78, False, St 34), (79, 90, False, St 21), (94, 109, False, St 21), (110,
      110, False, St 34), (111, 122, False, St 21), (124, 124, False, St 21), (126, 126, False, St
      21)]"
  "state_edges httpclient_code 34 = [(33, 33, False, St 21), (35, 39, False, St 21), (42, 43, False,
      St 21), (45, 46, False, St 21), (48, 57, False, St 21), (58, 58, False, Tr 58), (65, 90,
      False, St 21), (94, 122, False, St 21), (124, 124, False, St 21), (126, 126, False, St 21)]"
  by (simp_all add: httpclient_code_def state_edges_append httpclient_state_nums) (simp_all add: httpclient_code_7_def)

lemma httpclient_edges_8:
  "state_edges httpclient_code 35 = [(0, 8, False, Tr 40), (9, 9, False, Tr 59), (10, 10, False, Tr
      60), (11, 12, False, Tr 59), (13, 13, False, Tr 61), (14, 31, False, Tr 40), (32, 32, False,
      Tr 59), (33, 66, False, Tr 40), (67, 67, False, Tr 62), (68, 98, False, Tr 40), (99, 99,
      False, Tr 62), (100, 255, False, Tr 40)]"
  by (simp_all add: httpclient_code_def state_edges_append httpclient_state_nums) (simp_all add: httpclient_code_8_def)

lemma httpclient_edges_9:
  "state_edges httpclient_code 43 = [(10, 10, False, Tr 74), (13, 13, False, Tr 75), (33, 33, False,
      Tr 76), (35, 39, False, Tr 76), (42, 43, False, Tr 76), (45, 46, False, Tr 76), (48, 57,
      False, Tr 76), (65, 66, False, Tr 76), (67, 67, False, Tr 77), (68, 83, False, Tr 76), (84,
      84, False, Tr 78), (85, 90, False, Tr 76), (94, 98, False, Tr 76), (99, 99, False, Tr 77),
      (100, 115, False, Tr 76), (116, 116, False, Tr 78), (117, 122, False, Tr 76), (124, 124,
      False, Tr 76), (126, 126, False, Tr 76)]"
  "state_edges httpclient_code 44 = [(33, 33, False, St 21), (35, 39, False, St 21), (42, 43, False,
      St 21), (45, 46, False, St 21), (48, 57, False, St 21), (58, 58, False, Tr 39), (65, 81,
      False, St 21), (82, 82, False, St 45), (83, 90, False, St 21), (94, 113, False, St 21), (114,
      114, False, St 45), (115, 122, False, St 21), (124, 124, False, St 21), (126, 126, False, St
      21)]"
  "state_edges httpclient_code 45 = [(33, 33, False, St 21), (35, 39, False, St 21), (42, 43, False,
      St 21), (45, 46, False, St 21), (48, 57, False, St 21), (58, 58, False, Tr 39), (65, 65,
      False, St 46), (66, 90, False, St 21), (94, 96, False, St 21), (97, 97, False, St 46), (98,
      122, False, St 21), (124, 124, False, St 21), (126, 126, False, St 21)]"
  "state_edges httpclient_code 46 = [(33, 33, False, St 21), (35, 39, False, St 21), (42, 43, False,
      St 21), (45, 46, False, St 21), (48, 57, False, St 21), (58, 58, False, Tr 39), (65, 77,
      False, St 21), (78, 78, False, St 47), (79, 90, False, St 21), (94, 109, False, St 21), (110,
      110, False, St 47), (111, 122, False, St 21), (124, 124, False, St 21), (126, 126, False, St
      21)]"
  by (simp_all add: httpclient_code_def state_edges_append httpclient_state_nums) (simp_all add: httpclient_code_9_def)

lemma httpclient_edges_10:
  "state_edges httpclient_code 47 = [(33, 33, False, St 21), (35, 39, False, St 21), (42, 43, False,
      St 21), (45, 46, False, St 21), (48, 57, False, St 21), (58, 58, False, Tr 39), (65, 82,
      False, St 21), (83, 83, False, St 48), (84, 90, False, St 21), (94, 114, False, St 21), (115,
      115, False, St 48), (116, 122, False, St 21), (124, 124, False, St 21), (126, 126, False, St
      21)]"
  "state_edges httpclient_code 48 = [(33, 33, False, St 21), (35, 39, False, St 21), (42, 43, False,
      St 21), (45, 46, False, St 21), (48, 57, False, St 21), (58, 58, False, Tr 39), (65, 69,
      False, St 21), (70, 70, False, St 49), (71, 90, False, St 21), (94, 101, False, St 21), (102,
      102, False, St 49), (103, 122, False, St 21), (124, 124, False, St 21), (126, 126, False, St
      21)]"
  "state_edges httpclient_code 49 = [(33, 33, False, St 21), (35, 39, False, St 21), (42, 43, False,
      St 21), (45, 46, False, St 21), (48, 57, False, St 21), (58, 58, False, Tr 39), (65, 68,
      False, St 21), (69, 69, False, St 50), (70, 90, False, St 21), (94, 100, False, St 21), (101,
      101, False, St 50), (102, 122, False, St 21), (124, 124, False, St 21), (126, 126, False, St
      21)]"
  "state_edges httpclient_code 50 = [(33, 33, False, St 21), (35, 39, False, St 21), (42, 43, False,
      St 21), (45, 46, False, St 21), (48, 57, False, St 21), (58, 58, False, Tr 39), (65, 81,
      False, St 21), (82, 82, False, St 51), (83, 90, False, St 21), (94, 113, False, St 21), (114,
      114, False, St 51), (115, 122, False, St 21), (124, 124, False, St 21), (126, 126, False, St
      21)]"
  "state_edges httpclient_code 51 = [(33, 33, False, St 21), (35, 39, False, St 21), (42, 43, False,
      St 21), (45, 45, False, St 52), (46, 46, False, St 21), (48, 57, False, St 21), (58, 58,
      False, Tr 39), (65, 90, False, St 21), (94, 122, False, St 21), (124, 124, False, St 21),
      (126, 126, False, St 21)]"
  by (simp_all add: httpclient_code_def state_edges_append httpclient_state_nums) (simp_all add: httpclient_code_10_def)

lemma httpclient_edges_11:
  "state_edges httpclient_code 52 = [(33, 33, False, St 21), (35, 39, False, St 21), (42, 43, False,
      St 21), (45, 46, False, St 21), (48, 57, False, St 21), (58, 58, False, Tr 39), (65, 68,
      False, St 21), (69, 69, False, St 53), (70, 90, False, St 21), (94, 100, False, St 21), (101,
      101, False, St 53), (102, 122, False, St 21), (124, 124, False, St 21), (126, 126, False, St
      21)]"
  "state_edges httpclient_code 53 = [(33, 33, False, St 21), (35, 39, False, St 21), (42, 43, False,
      St 21), (45, 46, False, St 21), (48, 57, False, St 21), (58, 58, False, Tr 39), (65, 77,
      False, St 21), (78, 78, False, St 54), (79, 90, False, St 21), (94, 109, False, St 21), (110,
      110, False, St 54), (111, 122, False, St 21), (124, 124, False, St 21), (126, 126, False, St
      21)]"
  "state_edges httpclient_code 54 = [(33, 33, False, St 21), (35, 39, False, St 21), (42, 43, False,
      St 21), (45, 46, False, St 21), (48, 57, False, St 21), (58, 58, False, Tr 39), (65, 66,
      False, St 21), (67, 67, False, St 55), (68, 90, False, St 21), (94, 98, False, St 21), (99,
      99, False, St 55), (100, 122, False, St 21), (124, 124, False, St 21), (126, 126, False, St
      21)]"
  "state_edges httpclient_code 55 = [(33, 33, False, St 21), (35, 39, False, St 21), (42, 43, False,
      St 21), (45, 46, False, St 21), (48, 57, False, St 21), (58, 58, False, Tr 39), (65, 78,
      False, St 21), (79, 79, False, St 56), (80, 90, False, St 21), (94, 110, False, St 21), (111,
      111, False, St 56), (112, 122, False, St 21), (124, 124, False, St 21), (126, 126, False, St
      21)]"
  "state_edges httpclient_code 56 = [(33, 33, False, St 21), (35, 39, False, St 21), (42, 43, False,
      St 21), (45, 46, False, St 21), (48, 57, False, St 21), (58, 58, False, Tr 39), (65, 67,
      False, St 21), (68, 68, False, St 57), (69, 90, False, St 21), (94, 99, False, St 21), (100,
      100, False, St 57), (101, 122, False, St 21), (124, 124, False, St 21), (126, 126, False, St
      21)]"
  by (simp_all add: httpclient_code_def state_edges_append httpclient_state_nums) (simp_all add: httpclient_code_11_def)

lemma httpclient_edges_12:
  "state_edges httpclient_code 57 = [(33, 33, False, St 21), (35, 39, False, St 21), (42, 43, False,
      St 21), (45, 46, False, St 21), (48, 57, False, St 21), (58, 58, False, Tr 39), (65, 72,
      False, St 21), (73, 73, False, St 58), (74, 90, False, St 21), (94, 104, False, St 21), (105,
      105, False, St 58), (106, 122, False, St 21), (124, 124, False, St 21), (126, 126, False, St
      21)]"
  "state_edges httpclient_code 58 = [(33, 33, False, St 21), (35, 39, False, St 21), (42, 43, False,
      St 21), (45, 46, False, St 21), (48, 57, False, St 21), (58, 58, False, Tr 39), (65, 77,
      False, St 21), (78, 78, False, St 59), (79, 90, False, St 21), (94, 109, False, St 21), (110,
      110, False, St 59), (111, 122, False, St 21), (124, 124, False, St 21), (126, 126, False, St
      21)]"
  "state_edges httpclient_code 59 = [(33, 33, False, St 21), (35, 39, False, St 21), (42, 43, False,
      St 21), (45, 46, False, St 21), (48, 57, False, St 21), (58, 58, False, Tr 39), (65, 70,
      False, St 21), (71, 71, False, St 60), (72, 90, False, St 21), (94, 102, False, St 21), (103,
      103, False, St 60), (104, 122, False, St 21), (124, 124, False, St 21), (126, 126, False, St
      21)]"
  "state_edges httpclient_code 60 = [(33, 33, False, St 21), (35, 39, False, St 21), (42, 43, False,
      St 21), (45, 46, False, St 21), (48, 57, False, St 21), (58, 58, False, Tr 95), (65, 90,
      False, St 21), (94, 122, False, St 21), (124, 124, False, St 21), (126, 126, False, St 21)]"
  "state_edges httpclient_code 61 = [(0, 8, False, Tr 40), (9, 9, False, Tr 96), (10, 10, False, Tr
      97), (11, 12, False, Tr 96), (13, 13, False, Tr 98), (14, 31, False, Tr 40), (32, 32, False,
      Tr 96), (33, 66, False, Tr 40), (67, 67, False, Tr 99), (68, 98, False, Tr 40), (99, 99,
      False, Tr 99), (100, 255, False, Tr 40)]"
  by (simp_all add: httpclient_code_def state_edges_append httpclient_state_nums) (simp_all add: httpclient_code_12_def)

lemma httpclient_edges_13:
  "state_edges httpclient_code 71 = [(10, 10, False, Tr 113)]"
  by (simp_all add: httpclient_code_def state_edges_append httpclient_state_nums) (simp_all add: httpclient_code_13_def)

lemma httpclient_edges_14:
  "state_edges httpclient_code 73 = [(33, 33, False, St 21), (35, 39, False, St 21), (42, 43, False,
      St 21), (45, 46, False, St 21), (48, 57, False, St 21), (58, 58, False, Tr 39), (65, 71,
      False, St 21), (72, 72, False, St 74), (73, 78, False, St 21), (79, 79, False, St 26), (80,
      90, False, St 21), (94, 103, False, St 21), (104, 104, False, St 74), (105, 110, False, St
      21), (111, 111, False, St 26), (112, 122, False, St 21), (124, 124, False, St 21), (126, 126,
      False, St 21)]"
  "state_edges httpclient_code 74 = [(33, 33, False, St 21), (35, 39, False, St 21), (42, 43, False,
      St 21), (45, 46, False, St 21), (48, 57, False, St 21), (58, 58, False, Tr 39), (65, 84,
      False, St 21), (85, 85, False, St 75), (86, 90, False, St 21), (94, 116, False, St 21), (117,
      117, False, St 75), (118, 122, False, St 21), (124, 124, False, St 21), (126, 126, False, St
      21)]"
  "state_edges httpclient_code 75 = [(33, 33, False, St 21), (35, 39, False, St 21), (42, 43, False,
      St 21), (45, 46, False, St 21), (48, 57, False, St 21), (58, 58, False, Tr 39), (65, 77,
      False, St 21), (78, 78, False, St 76), (79, 90, False, St 21), (94, 109, False, St 21), (110,
      110, False, St 76), (111, 122, False, St 21), (124, 124, False, St 21), (126, 126, False, St
      21)]"
  by (simp_all add: httpclient_code_def state_edges_append httpclient_state_nums) (simp_all add: httpclient_code_14_def)

lemma httpclient_edges_15:
  "state_edges httpclient_code 76 = [(33, 33, False, St 21), (35, 39, False, St 21), (42, 43, False,
      St 21), (45, 46, False, St 21), (48, 57, False, St 21), (58, 58, False, Tr 39), (65, 74,
      False, St 21), (75, 75, False, St 77), (76, 90, False, St 21), (94, 106, False, St 21), (107,
      107, False, St 77), (108, 122, False, St 21), (124, 124, False, St 21), (126, 126, False, St
      21)]"
  "state_edges httpclient_code 77 = [(33, 33, False, St 21), (35, 39, False, St 21), (42, 43, False,
      St 21), (45, 46, False, St 21), (48, 57, False, St 21), (58, 58, False, Tr 39), (65, 68,
      False, St 21), (69, 69, False, St 78), (70, 90, False, St 21), (94, 100, False, St 21), (101,
      101, False, St 78), (102, 122, False, St 21), (124, 124, False, St 21), (126, 126, False, St
      21)]"
  "state_edges httpclient_code 78 = [(33, 33, False, St 21), (35, 39, False, St 21), (42, 43, False,
      St 21), (45, 46, False, St 21), (48, 57, False, St 21), (58, 58, False, Tr 39), (65, 67,
      False, St 21), (68, 68, False, St 79), (69, 90, False, St 21), (94, 99, False, St 21), (100,
      100, False, St 79), (101, 122, False, St 21), (124, 124, False, St 21), (126, 126, False, St
      21)]"
  "state_edges httpclient_code 79 = [(10, 10, False, Tr 111), (13, 13, False, Tr 112), (33, 33,
      False, St 21), (35, 39, False, St 21), (42, 43, False, St 21), (45, 46, False, St 21), (48,
      57, False, St 21), (58, 58, False, Tr 39), (65, 90, False, St 21), (94, 122, False, St 21),
      (124, 124, False, St 21), (126, 126, False, St 21)]"
  by (simp_all add: httpclient_code_def state_edges_append httpclient_state_nums) (simp_all add: httpclient_code_15_def)

lemma httpclient_edges_16:
  "state_edges httpclient_code 81 = [(0, 9, False, St 23), (10, 10, False, Tr 45), (11, 12, False,
      St 23), (13, 13, False, Tr 46), (14, 71, False, St 23), (72, 72, False, St 82), (73, 103,
      False, St 23), (104, 104, False, St 82), (105, 255, False, St 23)]"
  "state_edges httpclient_code 82 = [(0, 9, False, St 23), (10, 10, False, Tr 45), (11, 12, False,
      St 23), (13, 13, False, Tr 46), (14, 84, False, St 23), (85, 85, False, St 83), (86, 116,
      False, St 23), (117, 117, False, St 83), (118, 255, False, St 23)]"
  "state_edges httpclient_code 83 = [(0, 9, False, St 23), (10, 10, False, Tr 45), (11, 12, False,
      St 23), (13, 13, False, Tr 46), (14, 77, False, St 23), (78, 78, False, St 84), (79, 109,
      False, St 23), (110, 110, False, St 84), (111, 255, False, St 23)]"
  "state_edges httpclient_code 84 = [(0, 9, False, St 23), (10, 10, False, Tr 45), (11, 12, False,
      St 23), (13, 13, False, Tr 46), (14, 74, False, St 23), (75, 75, False, St 85), (76, 106,
      False, St 23), (107, 107, False, St 85), (108, 255, False, St 23)]"
  "state_edges httpclient_code 85 = [(0, 9, False, St 23), (10, 10, False, Tr 45), (11, 12, False,
      St 23), (13, 13, False, Tr 46), (14, 68, False, St 23), (69, 69, False, St 86), (70, 100,
      False, St 23), (101, 101, False, St 86), (102, 255, False, St 23)]"
  "state_edges httpclient_code 86 = [(0, 9, False, St 23), (10, 10, False, Tr 45), (11, 12, False,
      St 23), (13, 13, False, Tr 46), (14, 67, False, St 23), (68, 68, False, St 87), (69, 99,
      False, St 23), (100, 100, False, St 87), (101, 255, False, St 23)]"
  "state_edges httpclient_code 87 = [(0, 9, False, St 23), (10, 10, False, Tr 111), (11, 12, False,
      St 23), (13, 13, False, Tr 112), (14, 255, False, St 23)]"
  "state_edges httpclient_code 88 = [(10, 10, False, St 43)]"
  by (simp_all add: httpclient_code_def state_edges_append httpclient_state_nums) (simp_all add: httpclient_code_16_def)

lemma httpclient_edges_17:
  "state_edges httpclient_code 90 = [(33, 33, False, St 21), (35, 39, False, St 21), (42, 43, False,
      St 21), (45, 46, False, St 21), (48, 57, False, St 21), (58, 58, False, Tr 39), (65, 75,
      False, St 21), (76, 76, False, St 91), (77, 78, False, St 21), (79, 79, False, St 26), (80,
      90, False, St 21), (94, 107, False, St 21), (108, 108, False, St 91), (109, 110, False, St
      21), (111, 111, False, St 26), (112, 122, False, St 21), (124, 124, False, St 21), (126, 126,
      False, St 21)]"
  "state_edges httpclient_code 91 = [(33, 33, False, St 21), (35, 39, False, St 21), (42, 43, False,
      St 21), (45, 46, False, St 21), (48, 57, False, St 21), (58, 58, False, Tr 39), (65, 78,
      False, St 21), (79, 79, False, St 92), (80, 90, False, St 21), (94, 110, False, St 21), (111,
      111, False, St 92), (112, 122, False, St 21), (124, 124, False, St 21), (126, 126, False, St
      21)]"
  "state_edges httpclient_code 92 = [(33, 33, False, St 21), (35, 39, False, St 21), (42, 43, False,
      St 21), (45, 46, False, St 21), (48, 57, False, St 21), (58, 58, False, Tr 39), (65, 82,
      False, St 21), (83, 83, False, St 93), (84, 90, False, St 21), (94, 114, False, St 21), (115,
      115, False, St 93), (116, 122, False, St 21), (124, 124, False, St 21), (126, 126, False, St
      21)]"
  "state_edges httpclient_code 93 = [(33, 33, False, St 21), (35, 39, False, St 21), (42, 43, False,
      St 21), (45, 46, False, St 21), (48, 57, False, St 21), (58, 58, False, Tr 39), (65, 68,
      False, St 21), (69, 69, False, St 94), (70, 90, False, St 21), (94, 100, False, St 21), (101,
      101, False, St 94), (102, 122, False, St 21), (124, 124, False, St 21), (126, 126, False, St
      21)]"
  "state_edges httpclient_code 94 = [(10, 10, False, St 43), (13, 13, False, St 88), (33, 33, False,
      St 21), (35, 39, False, St 21), (42, 43, False, St 21), (45, 46, False, St 21), (48, 57,
      False, St 21), (58, 58, False, Tr 39), (65, 90, False, St 21), (94, 122, False, St 21), (124,
      124, False, St 21), (126, 126, False, St 21)]"
  by (simp_all add: httpclient_code_def state_edges_append httpclient_state_nums) (simp_all add: httpclient_code_17_def)

lemma httpclient_edges_18:
  "state_edges httpclient_code 96 = [(0, 9, False, St 23), (10, 10, False, Tr 45), (11, 12, False,
      St 23), (13, 13, False, Tr 46), (14, 75, False, St 23), (76, 76, False, St 97), (77, 107,
      False, St 23), (108, 108, False, St 97), (109, 255, False, St 23)]"
  "state_edges httpclient_code 97 = [(0, 9, False, St 23), (10, 10, False, Tr 45), (11, 12, False,
      St 23), (13, 13, False, Tr 46), (14, 78, False, St 23), (79, 79, False, St 98), (80, 110,
      False, St 23), (111, 111, False, St 98), (112, 255, False, St 23)]"
  "state_edges httpclient_code 98 = [(0, 9, False, St 23), (10, 10, False, Tr 45), (11, 12, False,
      St 23), (13, 13, False, Tr 46), (14, 82, False, St 23), (83, 83, False, St 99), (84, 114,
      False, St 23), (115, 115, False, St 99), (116, 255, False, St 23)]"
  "state_edges httpclient_code 99 = [(0, 9, False, St 23), (10, 10, False, Tr 45), (11, 12, False,
      St 23), (13, 13, False, Tr 46), (14, 68, False, St 23), (69, 69, False, St 100), (70, 100,
      False, St 23), (101, 101, False, St 100), (102, 255, False, St 23)]"
  "state_edges httpclient_code 100 = [(0, 9, False, St 23), (10, 10, False, Tr 136), (11, 12, False,
      St 23), (13, 13, False, Tr 137), (14, 255, False, St 23)]"
  "state_edges httpclient_code 101 = [(33, 33, False, St 21), (35, 39, False, St 21), (42, 43,
      False, St 21), (45, 46, False, St 21), (48, 57, False, St 21), (58, 58, False, Tr 39), (65,
      68, False, St 21), (69, 69, False, St 102), (70, 90, False, St 21), (94, 100, False, St 21),
      (101, 101, False, St 102), (102, 122, False, St 21), (124, 124, False, St 21), (126, 126,
      False, St 21)]"
  "state_edges httpclient_code 102 = [(33, 33, False, St 21), (35, 39, False, St 21), (42, 43,
      False, St 21), (45, 46, False, St 21), (48, 57, False, St 21), (58, 58, False, Tr 39), (65,
      77, False, St 21), (78, 78, False, St 103), (79, 90, False, St 21), (94, 109, False, St 21),
      (110, 110, False, St 103), (111, 122, False, St 21), (124, 124, False, St 21), (126, 126,
      False, St 21)]"
  by (simp_all add: httpclient_code_def state_edges_append httpclient_state_nums) (simp_all add: httpclient_code_18_def)

lemma httpclient_edges_19:
  "state_edges httpclient_code 103 = [(33, 33, False, St 21), (35, 39, False, St 21), (42, 43,
      False, St 21), (45, 46, False, St 21), (48, 57, False, St 21), (58, 58, False, Tr 39), (65,
      83, False, St 21), (84, 84, False, St 104), (85, 90, False, St 21), (94, 115, False, St 21),
      (116, 116, False, St 104), (117, 122, False, St 21), (124, 124, False, St 21), (126, 126,
      False, St 21)]"
  "state_edges httpclient_code 104 = [(33, 33, False, St 21), (35, 39, False, St 21), (42, 43,
      False, St 21), (45, 45, False, St 105), (46, 46, False, St 21), (48, 57, False, St 21), (58,
      58, False, Tr 39), (65, 90, False, St 21), (94, 122, False, St 21), (124, 124, False, St 21),
      (126, 126, False, St 21)]"
  "state_edges httpclient_code 105 = [(33, 33, False, St 21), (35, 39, False, St 21), (42, 43,
      False, St 21), (45, 46, False, St 21), (48, 57, False, St 21), (58, 58, False, Tr 39), (65,
      75, False, St 21), (76, 76, False, St 106), (77, 90, False, St 21), (94, 107, False, St 21),
      (108, 108, False, St 106), (109, 122, False, St 21), (124, 124, False, St 21), (126, 126,
      False, St 21)]"
  "state_edges httpclient_code 106 = [(33, 33, False, St 21), (35, 39, False, St 21), (42, 43,
      False, St 21), (45, 46, False, St 21), (48, 57, False, St 21), (58, 58, False, Tr 39), (65,
      68, False, St 21), (69, 69, False, St 107), (70, 90, False, St 21), (94, 100, False, St 21),
      (101, 101, False, St 107), (102, 122, False, St 21), (124, 124, False, St 21), (126, 126,
      False, St 21)]"
  "state_edges httpclient_code 107 = [(33, 33, False, St 21), (35, 39, False, St 21), (42, 43,
      False, St 21), (45, 46, False, St 21), (48, 57, False, St 21), (58, 58, False, Tr 39), (65,
      77, False, St 21), (78, 78, False, St 108), (79, 90, False, St 21), (94, 109, False, St 21),
      (110, 110, False, St 108), (111, 122, False, St 21), (124, 124, False, St 21), (126, 126,
      False, St 21)]"
  by (simp_all add: httpclient_code_def state_edges_append httpclient_state_nums) (simp_all add: httpclient_code_19_def)

lemma httpclient_edges_20:
  "state_edges httpclient_code 108 = [(33, 33, False, St 21), (35, 39, False, St 21), (42, 43,
      False, St 21), (45, 46, False, St 21), (48, 57, False, St 21), (58, 58, False, Tr 39), (65,
      70, False, St 21), (71, 71, False, St 109), (72, 90, False, St 21), (94, 102, False, St 21),
      (103, 103, False, St 109), (104, 122, False, St 21), (124, 124, False, St 21), (126, 126,
      False, St 21)]"
  "state_edges httpclient_code 109 = [(33, 33, False, St 21), (35, 39, False, St 21), (42, 43,
      False, St 21), (45, 46, False, St 21), (48, 57, False, St 21), (58, 58, False, Tr 39), (65,
      83, False, St 21), (84, 84, False, St 110), (85, 90, False, St 21), (94, 115, False, St 21),
      (116, 116, False, St 110), (117, 122, False, St 21), (124, 124, False, St 21), (126, 126,
      False, St 21)]"
  "state_edges httpclient_code 110 = [(33, 33, False, St 21), (35, 39, False, St 21), (42, 43,
      False, St 21), (45, 46, False, St 21), (48, 57, False, St 21), (58, 58, False, Tr 39), (65,
      71, False, St 21), (72, 72, False, St 111), (73, 90, False, St 21), (94, 103, False, St 21),
      (104, 104, False, St 111), (105, 122, False, St 21), (124, 124, False, St 21), (126, 126,
      False, St 21)]"
  "state_edges httpclient_code 111 = [(33, 33, False, St 21), (35, 39, False, St 21), (42, 43,
      False, St 21), (45, 46, False, St 21), (48, 57, False, St 21), (58, 58, False, Tr 148), (65,
      90, False, St 21), (94, 122, False, St 21), (124, 124, False, St 21), (126, 126, False, St
      21)]"
  "state_edges httpclient_code 112 = [(0, 8, False, Tr 40), (9, 9, False, Tr 149), (10, 10, False,
      Tr 150), (11, 12, False, Tr 149), (13, 13, False, Tr 151), (14, 31, False, Tr 40), (32, 32,
      False, Tr 149), (33, 47, False, Tr 40), (48, 57, False, Tr 152), (58, 255, False, Tr 40)]"
  by (simp_all add: httpclient_code_def state_edges_append httpclient_state_nums) (simp_all add: httpclient_code_20_def)

lemma httpclient_edges_22:
  "state_edges httpclient_code 119 = [(0, 9, False, St 23), (10, 10, False, Tr 158), (11, 12, False,
      St 23), (13, 13, False, Tr 159), (14, 47, False, St 23), (48, 57, False, St 119), (58, 255,
      False, St 23)]"
  by (simp_all add: httpclient_code_def state_edges_append httpclient_state_nums) (simp_all add: httpclient_code_22_def)

lemma httpclient_targets_1:
  "trans_target httpclient_code 0 = Some ([Cl_mark], 2)"
  "trans_target httpclient_code 3 = Some ([Cl_chunk_size, Cl_done], 120)"
  "trans_target httpclient_code 4 = Some ([Cl_chunk_size], 3)"
  "trans_target httpclient_code 7 = Some ([Cl_done], 120)"
  "trans_target httpclient_code 74 = Some ([Cl_write_connection_close, Cl_done], 120)"
  by (simp_all add: httpclient_code_def trans_target_append httpclient_trans_nums) (simp_all add: httpclient_code_1_def)

lemma httpclient_targets_2:
  "trans_target httpclient_code 6 = Some ([Cl_chunk_size], 4)"
  "trans_target httpclient_code 75 = Some ([Cl_write_connection_close], 3)"
  by (simp_all add: httpclient_code_def trans_target_append httpclient_trans_nums) (simp_all add: httpclient_code_2_def)

lemma httpclient_targets_3:
  "trans_target httpclient_code 2 = Some ([Cl_mark], 8)"
  "trans_target httpclient_code 26 = Some ([Cl_http_version], 16)"
  "trans_target httpclient_code 27 = Some ([Cl_mark], 17)"
  by (simp_all add: httpclient_code_def trans_target_append httpclient_trans_nums) (simp_all add: httpclient_code_3_def)

lemma httpclient_targets_4:
  "trans_target httpclient_code 28 = Some ([Cl_status_code], 18)"
  "trans_target httpclient_code 30 = Some ([Cl_mark], 19)"
  "trans_target httpclient_code 32 = Some ([Cl_reason_phrase], 20)"
  "trans_target httpclient_code 35 = Some ([Cl_start_field], 21)"
  "trans_target httpclient_code 42 = Some ([Cl_start_value, Cl_write_value], 20)"
  "trans_target httpclient_code 45 = Some ([Cl_write_value], 20)"
  "trans_target httpclient_code 76 = Some ([Cl_write_connection_close, Cl_start_field], 21)"
  "trans_target httpclient_code 111 = Some ([Cl_write_value, Cl_trans_chunked], 20)"
  "trans_target httpclient_code 113 = Some ([Cl_trans_chunked], 20)"
  "trans_target httpclient_code 158 = Some ([Cl_write_content_len, Cl_write_value], 20)"
  by (simp_all add: httpclient_code_def trans_target_append httpclient_trans_nums) (simp_all add: httpclient_code_4_def)

lemma httpclient_targets_5:
  "trans_target httpclient_code 33 = Some ([Cl_reason_phrase], 24)"
  "trans_target httpclient_code 36 = Some ([Cl_start_field], 25)"
  "trans_target httpclient_code 39 = Some ([Cl_write_field], 22)"
  "trans_target httpclient_code 40 = Some ([Cl_start_value], 23)"
  "trans_target httpclient_code 41 = Some ([Cl_start_value], 22)"
  "trans_target httpclient_code 43 = Some ([Cl_start_value, Cl_write_value], 24)"
  "trans_target httpclient_code 46 = Some ([Cl_write_value], 24)"
  "trans_target httpclient_code 77 = Some ([Cl_write_connection_close, Cl_start_field], 25)"
  "trans_target httpclient_code 159 = Some ([Cl_write_content_len, Cl_write_value], 24)"
  by (simp_all add: httpclient_code_def trans_target_append httpclient_trans_nums) (simp_all add: httpclient_code_5_def)

lemma httpclient_targets_7:
  "trans_target httpclient_code 59 = Some ([Cl_start_value], 35)"
  by (simp_all add: httpclient_code_def trans_target_append httpclient_trans_nums) (simp_all add: httpclient_code_7_def)

lemma httpclient_targets_8:
  "trans_target httpclient_code 58 = Some ([Cl_write_field], 35)"
  "trans_target httpclient_code 60 = Some ([Cl_start_value, Cl_write_value], 36)"
  "trans_target httpclient_code 136 = Some ([Cl_write_value], 43)"
  by (simp_all add: httpclient_code_def trans_target_append httpclient_trans_nums) (simp_all add: httpclient_code_8_def)

lemma httpclient_targets_9:
  "trans_target httpclient_code 37 = Some ([Cl_start_field], 44)"
  "trans_target httpclient_code 78 = Some ([Cl_write_connection_close, Cl_start_field], 44)"
  by (simp_all add: httpclient_code_def trans_target_append httpclient_trans_nums) (simp_all add: httpclient_code_9_def)

lemma httpclient_targets_12:
  "trans_target httpclient_code 95 = Some ([Cl_write_field], 61)"
  "trans_target httpclient_code 96 = Some ([Cl_start_value], 61)"
  "trans_target httpclient_code 97 = Some ([Cl_start_value, Cl_write_value], 62)"
  by (simp_all add: httpclient_code_def trans_target_append httpclient_trans_nums) (simp_all add: httpclient_code_12_def)

lemma httpclient_targets_13:
  "trans_target httpclient_code 112 = Some ([Cl_write_value], 71)"
  by (simp_all add: httpclient_code_def trans_target_append httpclient_trans_nums) (simp_all add: httpclient_code_13_def)

lemma httpclient_targets_15:
  "trans_target httpclient_code 98 = Some ([Cl_start_value, Cl_write_value], 80)"
  "trans_target httpclient_code 99 = Some ([Cl_start_value], 81)"
  by (simp_all add: httpclient_code_def trans_target_append httpclient_trans_nums) (simp_all add: httpclient_code_15_def)

lemma httpclient_targets_16:
  "trans_target httpclient_code 137 = Some ([Cl_write_value], 88)"
  by (simp_all add: httpclient_code_def trans_target_append httpclient_trans_nums) (simp_all add: httpclient_code_16_def)

lemma httpclient_targets_18:
  "trans_target httpclient_code 61 = Some ([Cl_start_value, Cl_write_value], 95)"
  "trans_target httpclient_code 62 = Some ([Cl_start_value], 96)"
  by (simp_all add: httpclient_code_def trans_target_append httpclient_trans_nums) (simp_all add: httpclient_code_18_def)

lemma httpclient_targets_20:
  "trans_target httpclient_code 148 = Some ([Cl_write_field], 112)"
  "trans_target httpclient_code 149 = Some ([Cl_start_value], 112)"
  by (simp_all add: httpclient_code_def trans_target_append httpclient_trans_nums) (simp_all add: httpclient_code_20_def)

lemma httpclient_targets_21:
  "trans_target httpclient_code 150 = Some ([Cl_start_value, Cl_write_value], 113)"
  by (simp_all add: httpclient_code_def trans_target_append httpclient_trans_nums) (simp_all add: httpclient_code_21_def)

lemma httpclient_targets_22:
  "trans_target httpclient_code 151 = Some ([Cl_start_value, Cl_write_value], 118)"
  "trans_target httpclient_code 152 = Some ([Cl_start_value], 119)"
  by (simp_all add: httpclient_code_def trans_target_append httpclient_trans_nums) (simp_all add: httpclient_code_22_def)

lemmas httpclient_table =
  httpclient_edges_1 httpclient_edges_2 httpclient_edges_3 httpclient_edges_4 httpclient_edges_5
  httpclient_edges_6 httpclient_edges_7 httpclient_edges_8 httpclient_edges_9 httpclient_edges_10
  httpclient_edges_11 httpclient_edges_12 httpclient_edges_13 httpclient_edges_14
  httpclient_edges_15 httpclient_edges_16 httpclient_edges_17 httpclient_edges_18
  httpclient_edges_19 httpclient_edges_20 httpclient_edges_22 httpclient_targets_1
  httpclient_targets_2 httpclient_targets_3 httpclient_targets_4 httpclient_targets_5
  httpclient_targets_7 httpclient_targets_8 httpclient_targets_9 httpclient_targets_12
  httpclient_targets_13 httpclient_targets_15 httpclient_targets_16 httpclient_targets_18
  httpclient_targets_20 httpclient_targets_21 httpclient_targets_22

end
