(* ===== verification/C_Number.thy ===== *)
theory C_Number
  imports Ragel_Machine
begin

text \<open>
  How the C library reads numbers (\<^verbatim>\<open>strtol\<close>, \<^verbatim>\<open>atoi\<close>), as the parsers of responses and URIs use it,
  and that it reads back what the streams print.
\<close>

section \<open>Reading\<close>

definition is_space :: "char \<Rightarrow> bool" where
  "is_space = code_in [(9, 13), (32, 32)]"

definition digit_val :: "char \<Rightarrow> nat" where
  "digit_val c =
     (let n = of_char c in
      if 48 \<le> n \<and> n \<le> 57 then n - 48 else if 65 \<le> n \<and> n \<le> 90 then n - 55
      else if 97 \<le> n \<and> n \<le> 122 then n - 87 else 36)"

fun digits_value :: "nat \<Rightarrow> nat \<Rightarrow> string \<Rightarrow> nat" where
  "digits_value b acc [] = acc"
| "digits_value b acc (c # s) = (if digit_val c < b then digits_value b (b * acc + digit_val c) s else acc)"

text \<open>\<^verbatim>\<open>strtol\<close>: white space, a sign, \<^verbatim>\<open>0x\<close> for base 16, digits; out of range it gives the nearest \<^verbatim>\<open>long\<close>.\<close>

definition strtol :: "nat \<Rightarrow> string \<Rightarrow> int" where
  "strtol b s =
     (let s1 = dropWhile is_space s;
          neg = (take 1 s1 = ''-'');
          s2 = (if take 1 s1 = ''-'' \<or> take 1 s1 = ''+'' then drop 1 s1 else s1);
          s3 = (if b = 16 \<and> (take 2 s2 = ''0x'' \<or> take 2 s2 = ''0X'') \<and> drop 2 s2 \<noteq> [] \<and> digit_val (hd (drop 2 s2)) < 16
                then drop 2 s2 else s2);
          v = int (digits_value b 0 s3)
      in if neg then max (- (2 ^ 63)) (- v) else min (2 ^ 63 - 1) v)"

definition atoi :: "string \<Rightarrow> int" where
  "atoi s = int32 (strtol 10 s)"

section \<open>Reading what was printed\<close>

lemma digit_val_char: "d < 16 \<Longrightarrow> digit_val (digit_char d) = d"
  by (auto simp: digit_val_def digit_char_def of_char_of)

lemma digits_value_append:
  "list_all (\<lambda>c. digit_val c < b) s \<Longrightarrow> digits_value b acc (s @ t) = digits_value b (digits_value b acc s) t"
  by (induction s arbitrary: acc) auto

lemma print_nat_digits:
  assumes "2 \<le> b" "b \<le> 16"
  shows "list_all (\<lambda>c. digit_val c < b) (print_nat b n)"
  using set_print_nat [OF assms(1), of n] assms(2) by (auto simp: list_all_iff digit_val_char)

lemma digits_value_print:
  "2 \<le> b \<Longrightarrow> b \<le> 16 \<Longrightarrow> digits_value b 0 (print_nat b n) = n"
proof (induction b n rule: print_nat.induct)
  case (1 b n)
  show ?case
  proof (cases "n < b")
    case True
    then show ?thesis using 1 by (subst print_nat.simps) (simp add: digit_val_char)
  next
    case False
    then have "digits_value b 0 (print_nat b (n div b)) = n div b" using 1 by simp
    moreover have "n mod b < b" using 1 by simp
    moreover from this have "n mod b < 16" using 1 by linarith
    ultimately show ?thesis
      using False 1 print_nat_digits [of b "n div b"] by (subst print_nat.simps) (simp add: digits_value_append digit_val_char)
  qed
qed

lemma digits_value_stop: "(t = [] \<or> \<not> digit_val (hd t) < b) \<Longrightarrow> digits_value b acc t = acc"
  by (cases t) auto

lemma digit_plain:
  assumes "d < 10"
  shows "\<not> is_space (digit_char d)" "digit_char d \<noteq> CHR ''-''" "digit_char d \<noteq> CHR ''+''"
proof -
  have c: "of_char (digit_char d) = 48 + d" using assms by (simp add: digit_char_def of_char_of)
  then show "\<not> is_space (digit_char d)" by (simp add: is_space_def code_in_def)
  show "digit_char d \<noteq> CHR ''-''" "digit_char d \<noteq> CHR ''+''" using c by auto
qed

text \<open>\<^verbatim>\<open>strtol\<close> reads back a printed number, whatever follows that is no digit.\<close>

lemma strtol_print:
  assumes "int n < 2 ^ 63" and "t = [] \<or> \<not> digit_val (hd t) < 10"
  shows "strtol 10 (print_nat 10 n @ t) = int n"
proof -
  obtain c s where c: "print_nat 10 n = c # s" using print_nat_ne by (cases "print_nat 10 n") auto
  then obtain d where d: "d < 10" "c = digit_char d" using set_print_nat [of 10 n] by auto
  have "digits_value 10 0 (print_nat 10 n @ t) = n"
    using digits_value_print [of 10 n] digits_value_stop [OF assms(2)] print_nat_digits [of 10 n]
    by (simp add: digits_value_append)
  then show ?thesis
    using assms(1) digit_plain [OF d(1)] by (simp add: strtol_def c d(2) Let_def)
qed

lemma atoi_status:
  assumes "t = [] \<or> \<not> digit_val (hd t) < 10"
  shows "word_of_int (atoi (print_dec st @ t)) = (st :: u32)"
proof -
  have "int (unat st) < 2 ^ 63" using uint_lt2p [of st] by simp
  from strtol_print [OF this assms] show ?thesis by (simp add: atoi_def print_dec_def int32_def)
qed

end
