(* ===== verification/Http_Response_Parser.thy ===== *)
theory Http_Response_Parser
  imports Httpclient_Machine C_Number Http_Parser
begin

text \<open>
  The response parser around its generated machine: \<^verbatim>\<open>httpclient_parser_init\<close>, \<^verbatim>\<open>httpclient_parser_execute\<close> and
  \<^verbatim>\<open>httpclient_parser_finish\<close> of \<^verbatim>\<open>src/src/http/httpclient_parser.rl.cpp\<close>, and the class \<^verbatim>\<open>HttpResponseParser\<close>
  with its callbacks (\<^verbatim>\<open>src/src/http/http_parser.cpp\<close>).
\<close>

section \<open>Parser objects\<close>

record httpclient_parser =
  hc_cs :: nat
  hc_body_start :: nat
  hc_content_len :: int
  hc_status :: int
  hc_chunked :: bool
  hc_chunks_done :: bool
  hc_close :: bool
  hc_nread :: nat
  hc_mark :: nat
  hc_field_start :: nat
  hc_field_len :: nat

record HttpResponseParser =
  sp_parser :: httpclient_parser
  sp_data :: HttpResponse
  sp_error :: int

text \<open>\<^verbatim>\<open>status\<close> keeps what the memory held.\<close>

definition httpclient_parser_init :: "httpclient_parser \<Rightarrow> httpclient_parser" where
  "httpclient_parser_init h = h\<lparr>hc_cs := httpclient_parser_start, hc_body_start := 0, hc_content_len := - 1,
     hc_chunked := False, hc_chunks_done := False, hc_mark := 0, hc_nread := 0, hc_field_len := 0, hc_field_start := 0,
     hc_close := False\<rparr>"

definition httpclient_parser_has_error :: "httpclient_parser \<Rightarrow> bool" where
  "httpclient_parser_has_error h \<longleftrightarrow> hc_cs h = httpclient_parser_error"

definition httpclient_parser_is_finished :: "httpclient_parser \<Rightarrow> bool" where
  "httpclient_parser_is_finished h \<longleftrightarrow> hc_cs h = httpclient_parser_first_final"

definition httpclient_parser_finish :: "httpclient_parser \<Rightarrow> int" where
  "httpclient_parser_finish h =
     (if httpclient_parser_has_error h then - 1 else if httpclient_parser_is_finished h then 1 else 0)"

section \<open>Callbacks\<close>

definition on_response_reason :: "string \<Rightarrow> HttpResponseParser \<Rightarrow> HttpResponseParser" where
  "on_response_reason s P = P\<lparr>sp_data := sp_data P\<lparr>rs_reason := s\<rparr>\<rparr>"

definition on_response_status :: "string \<Rightarrow> HttpResponseParser \<Rightarrow> HttpResponseParser" where
  "on_response_status at P = P\<lparr>sp_data := sp_data P\<lparr>rs_status := word_of_int (atoi at)\<rparr>\<rparr>"

definition on_response_version :: "string \<Rightarrow> HttpResponseParser \<Rightarrow> HttpResponseParser" where
  "on_response_version s P =
     (if strncmp_eq s ''HTTP/1.0'' then P\<lparr>sp_data := sp_data P\<lparr>rs_version := 0x11\<rparr>\<rparr>
      else if \<not> strncmp_eq s ''HTTP/1.0'' then P\<lparr>sp_data := sp_data P\<lparr>rs_version := 0x10\<rparr>\<rparr>
      else P\<lparr>sp_error := 1001\<rparr>)"

definition on_response_http_field :: "string \<Rightarrow> string \<Rightarrow> HttpResponseParser \<Rightarrow> HttpResponseParser" where
  "on_response_http_field field val P =
     (if length field = 0 then P else P\<lparr>sp_data := HttpResponse_setHeader field val (sp_data P)\<rparr>)"

section \<open>Actions\<close>

text \<open>
  \<^verbatim>\<open>on_response_chunk\<close>, \<^verbatim>\<open>on_reponse_last_chunk\<close> and \<^verbatim>\<open>on_response_header_done\<close> are empty. The buffer is followed by
  a zero byte, which ends the numbers.
\<close>

abbreviation set_client :: "(httpclient_parser \<Rightarrow> httpclient_parser) \<Rightarrow> HttpResponseParser \<Rightarrow> HttpResponseParser" where
  "set_client f P \<equiv> P\<lparr>sp_parser := f (sp_parser P)\<rparr>"

fun client_act :: "string \<Rightarrow> client_action \<Rightarrow> nat \<Rightarrow> HttpResponseParser \<Rightarrow> parse_error + HttpResponseParser" where
  "client_act buffer Cl_mark fpc P = Inr (set_client (hc_mark_update (\<lambda>_. fpc)) P)"
| "client_act buffer Cl_start_field fpc P = Inr (set_client (hc_field_start_update (\<lambda>_. fpc)) P)"
| "client_act buffer Cl_write_field fpc P =
     Inr (set_client (hc_field_len_update (\<lambda>_. fpc - hc_field_start (sp_parser P))) P)"
| "client_act buffer Cl_start_value fpc P = Inr (set_client (hc_mark_update (\<lambda>_. fpc)) P)"
| "client_act buffer Cl_write_content_len fpc P =
     Inr (set_client (\<lambda>h. h\<lparr>hc_content_len := int32 (strtol 10 (drop (hc_mark h) buffer))\<rparr>) P)"
| "client_act buffer Cl_write_connection_close fpc P = Inr (set_client (hc_close_update (\<lambda>_. True)) P)"
| "client_act buffer Cl_write_value fpc P =
     rbind (text_at buffer (hc_mark (sp_parser P)) fpc) (\<lambda>val.
       Inr (on_response_http_field (segment (hc_field_start (sp_parser P)) (hc_field_len (sp_parser P)) buffer) val P))"
| "client_act buffer Cl_reason_phrase fpc P =
     rbind (text_at buffer (hc_mark (sp_parser P)) fpc) (\<lambda>s. Inr (on_response_reason s P))"
| "client_act buffer Cl_status_code fpc P =
     (let at = drop (hc_mark (sp_parser P)) buffer in
      Inr (on_response_status at (set_client (\<lambda>h. h\<lparr>hc_status := int32 (strtol 10 at)\<rparr>) P)))"
| "client_act buffer Cl_http_version fpc P =
     rbind (text_at buffer (hc_mark (sp_parser P)) fpc) (\<lambda>s. Inr (on_response_version s P))"
| "client_act buffer Cl_chunk_size fpc P =
     (let n = int32 (strtol 16 (drop (hc_mark (sp_parser P)) buffer)) in
      Inr (set_client (\<lambda>h. h\<lparr>hc_chunked := True, hc_content_len := n, hc_chunks_done := n \<le> 0\<rparr>) P))"
| "client_act buffer Cl_trans_chunked fpc P = Inr (set_client (hc_chunked_update (\<lambda>_. True)) P)"
| "client_act buffer Cl_done fpc P = Inr (set_client (hc_body_start_update (\<lambda>_. fpc + 1)) P)"

abbreviation client_acts ::
    "string \<Rightarrow> (client_action \<times> nat) list \<Rightarrow> HttpResponseParser \<Rightarrow> parse_error + HttpResponseParser" where
  "client_acts buffer \<equiv> run_acts (client_act buffer)"

definition client_fbreak :: "client_action \<Rightarrow> bool" where
  "client_fbreak a \<longleftrightarrow> a = Cl_done"

section \<open>Execution\<close>

text \<open>
  \<^verbatim>\<open>httpclient_parser_execute(parser, buffer, len, 0)\<close> on the bytes \<open>buffer\<close> with \<open>z\<close> at their end, which it asserts to be
  zero; the second assertion narrows the length to \<^verbatim>\<open>int\<close>. A failed \<^verbatim>\<open>check\<close> makes it return \<open>- 1\<close>, which
  \<^verbatim>\<open>HttpResponseParser::execute\<close> takes for an offset.
\<close>

abbreviation NUL :: char where
  "NUL \<equiv> CHR 0x00"

definition httpclient_parser_execute :: "char \<Rightarrow> string \<Rightarrow> HttpResponseParser \<Rightarrow> parse_error + (int \<times> HttpResponseParser)" where
  "httpclient_parser_execute z buffer P =
     (if z \<noteq> NUL \<or> \<not> same_distance (length buffer) then Inl Parse_assert
      else
      let P0 = set_client (\<lambda>h. h\<lparr>hc_nread := 0, hc_mark := 0, hc_field_len := 0, hc_field_start := 0\<rparr>) P;
          (evs, cs, p) = code_run httpclient_step client_fbreak (hc_cs (sp_parser P)) 0 buffer
      in rbind (client_acts buffer evs P0) (\<lambda>P1.
        let h = (sp_parser P1)\<lparr>hc_cs := cs, hc_nread := p\<rparr>; P2 = P1\<lparr>sp_parser := h\<rparr>
        in if \<not> (p \<le> length buffer \<and> hc_body_start h \<le> length buffer) then Inl Parse_assert
           else if hc_mark h < length buffer \<and> hc_field_len h \<le> length buffer \<and> hc_field_start h < length buffer
           then Inr (int p, P2) else Inr (- 1, P2)))"

definition HttpResponseParser_new :: "httpclient_parser \<Rightarrow> HttpResponseParser" where
  "HttpResponseParser_new mem =
     \<lparr>sp_parser = httpclient_parser_init mem, sp_data = HttpResponse_new 0x11 True, sp_error = 0\<rparr>"

text \<open>An offset of \<open>- 1\<close> is a huge \<^verbatim>\<open>size_t\<close>: \<^verbatim>\<open>memmove\<close> then leaves the buffer.\<close>

definition HttpResponseParser_execute ::
    "char \<Rightarrow> string \<Rightarrow> bool \<Rightarrow> HttpResponseParser \<Rightarrow> parse_error + (nat \<times> string \<times> HttpResponseParser)" where
  "HttpResponseParser_execute z data chunck P =
     rbind (httpclient_parser_execute z data (if chunck then set_client httpclient_parser_init P else P)) (\<lambda>(offset, P').
       if offset < 0 then Inl Parse_length else Inr (nat offset, drop (nat offset) data, P'))"

definition HttpResponseParser_isFinished :: "HttpResponseParser \<Rightarrow> int" where
  "HttpResponseParser_isFinished P = httpclient_parser_finish (sp_parser P)"

definition HttpResponseParser_hasError :: "HttpResponseParser \<Rightarrow> bool" where
  "HttpResponseParser_hasError P \<longleftrightarrow> sp_error P \<noteq> 0 \<or> httpclient_parser_has_error (sp_parser P)"

definition HttpResponseParser_getContentLength :: "(string \<Rightarrow> u64 option) \<Rightarrow> HttpResponseParser \<Rightarrow> u64" where
  "HttpResponseParser_getContentLength cast P = HttpResponse_getHeaderAs cast (sp_data P) ''content-length'' 0"

end
