(* ===== verification/Http_Response_Correct.thy ===== *)
theory Http_Response_Correct
  imports Http_Response_Parser Http_Parser_Correct
begin

text \<open>
  What the response parser does with the text of \<^verbatim>\<open>HttpResponse::dump\<close>: the machine by classes of
  characters, the status line, the header lines and the whole head.
\<close>

section \<open>Names of headers\<close>

abbreviation client_parses ::
    "string \<Rightarrow> string \<Rightarrow> string \<Rightarrow> nat \<Rightarrow> HttpResponseParser \<Rightarrow> (nat \<Rightarrow> HttpResponseParser \<Rightarrow> bool) \<Rightarrow> bool" where
  "client_parses \<equiv> parses httpclient_step client_fbreak client_act"

abbreviation (input) token_codes :: "(nat \<times> nat) list" where
  "token_codes \<equiv> [(33, 33), (35, 39), (42, 43), (45, 46), (48, 57), (65, 90), (94, 122), (124, 124), (126, 126)]"

text \<open>
  The machine follows a name along \<^verbatim>\<open>connection\<close> (states 25 to 34), \<^verbatim>\<open>content-length\<close> (101 to 111),
  \<^verbatim>\<open>transfer-encoding\<close> (44 to 60) or none of them (21).
\<close>

definition name_states :: "nat set" where
  "name_states = {21, 25, 26, 27, 28, 29, 30, 31, 32, 33, 34, 44, 45, 46, 47, 48, 49, 50, 51, 52, 53, 54, 55, 56, 57, 58, 59,
     60, 101, 102, 103, 104, 105, 106, 107, 108, 109, 110, 111}"

definition te_codes :: "nat list" where
  "te_codes = [116, 114, 97, 110, 115, 102, 101, 114, 45, 101, 110, 99, 111, 100, 105, 110, 103]"

text \<open>An edge between states of names goes on in \<^verbatim>\<open>transfer-encoding\<close> only with its next letter.\<close>

definition name_edge :: "nat \<Rightarrow> edge \<Rightarrow> bool" where
  "name_edge s = (\<lambda>(a, b, r, l). case l of
      St m \<Rightarrow> m \<in> name_states \<and> (44 \<le> m \<and> m \<le> 60 \<longrightarrow>
         s + 1 = m \<and> a = b \<and> (a = te_codes ! (m - 44) \<or> 65 \<le> a \<and> a \<le> 90 \<and> a + 32 = te_codes ! (m - 44)))
    | Tr k \<Rightarrow> a = 58 \<and> b = 58)"

lemma name_edges: "s \<in> name_states \<Longrightarrow> list_all (name_edge s) (state_edges httpclient_code s)"
  unfolding name_states_def insert_iff empty_iff
  by (elim disjE) (simp_all add: httpclient_table name_edge_def name_states_def te_codes_def)

lemma name_covers: "s \<in> name_states \<Longrightarrow> list_all (covers_by (state_edges httpclient_code s) (\<lambda>l. \<exists>m. l = St m)) token_codes"
  unfolding name_states_def insert_iff empty_iff
  by (elim disjE) (simp_all add: httpclient_table)

definition name_inv :: "string \<Rightarrow> nat \<Rightarrow> bool" where
  "name_inv u s \<longleftrightarrow> s \<in> name_states \<and> (44 \<le> s \<and> s \<le> 60 \<longrightarrow> map to_lower u = map char_of (take (s - 43) te_codes))"

lemma to_lower_code:
  "of_char c = (n :: nat) \<or> 65 \<le> (of_char c :: nat) \<and> of_char c \<le> (90 :: nat) \<and> of_char c + 32 = n \<Longrightarrow> 97 \<le> n \<or> n = 45 \<Longrightarrow> to_lower c = char_of n"
  by (auto simp: to_lower_def) (metis char_of_char)+

lemma te_letters: "i < 17 \<Longrightarrow> 97 \<le> te_codes ! i \<or> te_codes ! i = 45"
proof -
  assume "i < 17"
  then have "i \<in> {0, 1, 2, 3, 4, 5, 6, 7, 8, 9, 10, 11, 12, 13, 14, 15, 16}" unfolding insert_iff empty_iff by presburger
  then show ?thesis unfolding insert_iff empty_iff by (elim disjE) (simp_all add: te_codes_def)
qed

lemma name_step:
  assumes "name_inv u s" and "is_token_char c"
  shows "\<exists>m. httpclient_step s c = Some ([], m) \<and> name_inv (u @ [c]) m"
proof -
  have s: "s \<in> name_states" using assms(1) by (simp add: name_inv_def)
  from assms(2) [unfolded is_token_char_def] name_covers [OF s]
  obtain m where m: "pick_edge False (state_edges httpclient_code s) (of_char c) = Some (St m)"
    by (blast dest: code_in_pick_by)
  then obtain a b r where "(a, b, r, St m) \<in> set (state_edges httpclient_code s)" "a \<le> of_char c" "of_char c \<le> b"
    using pick_edge_range by blast
  with name_edges [OF s] have e: "m \<in> name_states" "44 \<le> m \<and> m \<le> 60 \<longrightarrow> s + 1 = m \<and>
      (of_char c = te_codes ! (m - 44) \<or> 65 \<le> (of_char c :: nat) \<and> of_char c \<le> (90 :: nat) \<and> of_char c + 32 = te_codes ! (m - 44))"
    by (auto simp: list_all_iff name_edge_def)
  have "map to_lower (u @ [c]) = map char_of (take (m - 43) te_codes)" if l: "44 \<le> m" "m \<le> 60"
  proof -
    have sm: "s + 1 = m" using e(2) l by simp
    then have "s \<noteq> 43" using s by (auto simp: name_states_def)
    then have "44 \<le> s \<and> s \<le> 60" using sm l by simp
    then have u: "map to_lower u = map char_of (take (m - 44) te_codes)" using assms(1) sm by (auto simp: name_inv_def)
    have "m - 43 = Suc (m - 44)" "m - 44 < length te_codes" using l by (simp_all add: te_codes_def)
    moreover have "to_lower c = char_of (te_codes ! (m - 44))"
      using to_lower_code [of c "te_codes ! (m - 44)"] e(2) l te_letters [of "m - 44"] by auto
    ultimately show ?thesis using u by (simp add: take_Suc_conv_app_nth)
  qed
  then show ?thesis using e(1) m by (auto simp: name_inv_def httpclient_step_def code_step_def)
qed

text \<open>The first letter, at the start of a line; state 43 follows a line \<^verbatim>\<open>connection: close\<close>.\<close>

definition start_edge :: "edge \<Rightarrow> bool" where
  "start_edge = (\<lambda>(a, b, r, l). l \<in> {Tr 35, Tr 36, Tr 76, Tr 77} \<or> l \<in> {Tr 37, Tr 78} \<and> a = b \<and> a \<in> {84, 116}
     \<or> a = b \<and> a \<in> {10, 13})"

lemma start_edges: "s \<in> {20, 43} \<Longrightarrow> list_all start_edge (state_edges httpclient_code s)"
  by (auto simp: httpclient_table start_edge_def)

lemma start_covers: "s \<in> {20, 43} \<Longrightarrow> list_all (covers_by (state_edges httpclient_code s)
    (\<lambda>l. l \<in> {Tr 35, Tr 36, Tr 37, Tr 76, Tr 77, Tr 78})) token_codes"
  unfolding insert_iff empty_iff by (elim disjE) (simp_all add: httpclient_table)

lemma name_start:
  assumes "s \<in> {20, 43}" and "is_token_char c"
  shows "\<exists>m acts. httpclient_step s c = Some (acts, m) \<and> name_inv [c] m
    \<and> acts \<in> {[Cl_start_field], [Cl_write_connection_close, Cl_start_field]}"
proof -
  from assms(2) [unfolded is_token_char_def] start_covers [OF assms(1)]
  obtain l where l: "pick_edge False (state_edges httpclient_code s) (of_char c) = Some l"
      "l \<in> {Tr 35, Tr 36, Tr 37, Tr 76, Tr 77, Tr 78}"
    by (blast dest: code_in_pick_by)
  then obtain a b r where "(a, b, r, l) \<in> set (state_edges httpclient_code s)" "a \<le> of_char c" "of_char c \<le> b"
    using pick_edge_range by blast
  moreover have "of_char c \<noteq> (10 :: nat)" "of_char c \<noteq> (13 :: nat)"
    using assms(2) by (auto simp: is_token_char_def code_in_def)
  ultimately have "l \<in> {Tr 37, Tr 78} \<longrightarrow> of_char c \<in> {84, 116 :: nat}"
    using start_edges [OF assms(1)] by (fastforce simp: list_all_iff start_edge_def)
  then have "l \<in> {Tr 37, Tr 78} \<longrightarrow> to_lower c = char_of (116 :: nat)" using to_lower_code [of c 116] by auto
  with l show ?thesis
    by (auto simp: httpclient_step_def code_step_def httpclient_table name_inv_def name_states_def te_codes_def)
qed

section \<open>Header lines\<close>

definition is_client_start :: "char \<Rightarrow> bool" where
  "is_client_start = code_in [(0, 8), (14, 31), (33, 255)]"

definition is_client_value :: "char \<Rightarrow> bool" where
  "is_client_value = code_in [(0, 9), (11, 12), (14, 255)]"

definition response_header :: "string \<times> string \<Rightarrow> bool" where
  "response_header = (\<lambda>(k, v). k \<noteq> [] \<and> list_all is_token_char k \<and> v \<noteq> [] \<and> is_client_start (hd v) \<and> list_all is_client_value v)"

definition is_transfer_encoding :: "string \<Rightarrow> bool" where
  "is_transfer_encoding k \<longleftrightarrow> map to_lower k = ''transfer-encoding''"

abbreviation (input) value_starts :: "nat set" where
  "value_starts \<equiv> {22, 35, 112}"

definition value_states :: "nat set" where
  "value_states = {23, 96, 97, 98, 99, 100, 119}"

lemma te_name: "map char_of te_codes = ''transfer-encoding''"
  by (simp add: te_codes_def char_of_def bit_0 bit_Suc)

lemma name_end:
  assumes "name_inv k s" and "\<not> is_transfer_encoding k"
  shows "\<exists>m\<in>value_starts. httpclient_step s (CHR '':'') = Some ([Cl_write_field], m)"
proof -
  have "s \<noteq> 60" using assms te_name by (auto simp: name_inv_def is_transfer_encoding_def te_codes_def)
  moreover have "s \<in> name_states" using assms by (simp add: name_inv_def)
  ultimately show ?thesis
    unfolding name_states_def insert_iff empty_iff
    by (elim disjE) (simp_all add: httpclient_step_def code_step_def httpclient_table)
qed

lemma value_blank: "s \<in> value_starts \<Longrightarrow> httpclient_step s (CHR '' '') = Some ([Cl_start_value], s)"
  unfolding insert_iff empty_iff by (elim disjE) (simp_all add: httpclient_step_def code_step_def httpclient_table)

lemma step_by:
  assumes "code_in rs c" "list_all (covers_by (state_edges httpclient_code s) Q) rs"
    and "\<And>l. Q l \<Longrightarrow> \<exists>m\<in>S. (case l of St m \<Rightarrow> Some ([], m) | Tr k \<Rightarrow> trans_target httpclient_code k) = Some (acts, m)"
  shows "\<exists>m\<in>S. httpclient_step s c = Some (acts, m)"
proof -
  obtain l where l: "pick_edge False (state_edges httpclient_code s) (of_char c) = Some l" "Q l"
    using code_in_pick_by [OF assms(1,2)] by blast
  from assms(3) [OF l(2)] l(1) show ?thesis by (cases l) (auto simp: httpclient_step_def code_step_def)
qed

lemma value_start:
  assumes "s \<in> value_starts" "is_client_start c"
  shows "\<exists>m\<in>value_states. httpclient_step s c = Some ([Cl_start_value], m)"
proof (rule step_by [OF assms(2) [unfolded is_client_start_def], where Q = "\<lambda>l. l \<in> {Tr 40, Tr 62, Tr 152}"])
  show "list_all (covers_by (state_edges httpclient_code s) (\<lambda>l. l \<in> {Tr 40, Tr 62, Tr 152})) [(0, 8), (14, 31), (33, 255)]"
    using assms(1) unfolding insert_iff empty_iff by (elim disjE) (simp_all add: httpclient_table)
qed (auto simp: httpclient_table value_states_def)

lemma value_step:
  assumes "s \<in> value_states" "is_client_value c"
  shows "\<exists>m\<in>value_states. httpclient_step s c = Some ([], m)"
proof (rule step_by [OF assms(2) [unfolded is_client_value_def], where Q = "\<lambda>l. l \<in> St ` value_states"])
  show "list_all (covers_by (state_edges httpclient_code s) (\<lambda>l. l \<in> St ` value_states)) [(0, 9), (11, 12), (14, 255)]"
    using assms(1) unfolding value_states_def insert_iff empty_iff by (elim disjE) (simp_all add: httpclient_table)
qed auto

lemma value_end:
  assumes "s \<in> value_states"
  shows "\<exists>m acts. httpclient_step s (CHR 0x0D) = Some (acts, m) \<and> acts \<in> {[Cl_write_value], [Cl_write_content_len, Cl_write_value]}
     \<and> (\<exists>n\<in>{20, 43}. httpclient_step m (CHR 0x0A) = Some ([], n))"
  using assms unfolding value_states_def insert_iff empty_iff
  by (elim disjE) (simp_all add: httpclient_step_def code_step_def httpclient_table)

text \<open>What the actions of a line leave alone.\<close>

definition client_keeps :: "HttpResponseParser \<Rightarrow> HttpResponseParser \<Rightarrow> bool" where
  "client_keeps P P' \<longleftrightarrow> hc_cs (sp_parser P') = hc_cs (sp_parser P) \<and> hc_body_start (sp_parser P') = hc_body_start (sp_parser P)
     \<and> hc_chunked (sp_parser P') = hc_chunked (sp_parser P) \<and> sp_error P' = sp_error P"

lemma client_keeps_trans: "client_keeps P P' \<Longrightarrow> client_keeps P' P'' \<Longrightarrow> client_keeps P P''"
  by (simp add: client_keeps_def)

lemma parses_name:
  assumes "k \<noteq> []" "list_all is_token_char k" "s \<in> {20, 43}"
  shows "client_parses pre k post s P (\<lambda>s' P'. name_inv k s' \<and> client_keeps P P' \<and> sp_data P' = sp_data P
     \<and> hc_field_start (sp_parser P') = length pre)"
proof -
  obtain c k' where k: "k = c # k'" "is_token_char c" "list_all is_token_char k'" using assms(1,2) by (cases k) auto
  obtain m acts where m: "httpclient_step s c = Some (acts, m)" "name_inv [c] m"
      "acts \<in> {[Cl_start_field], [Cl_write_connection_close, Cl_start_field]}"
    using name_start [OF assms(3) k(2)] by blast
  from m(3) obtain P1 where "client_acts (pre @ c # k' @ post) (map (\<lambda>a. (a, length pre)) acts) P = Inr P1"
      "\<not> list_ex client_fbreak acts" and P1: "client_keeps P P1 \<and> sp_data P1 = sp_data P \<and> hc_field_start (sp_parser P1) = length pre"
    by (auto simp: client_fbreak_def client_keeps_def)
  moreover have "client_parses (pre @ [c]) k' post m P1 (\<lambda>s' P'. name_inv ([c] @ k') s' \<and> P' = P1)"
    by (rule parses_track [where C = is_token_char]) (simp_all add: name_step m(2) k(3))
  then have "client_parses (pre @ [c]) k' post m P1 (\<lambda>s' P'. name_inv k s' \<and> client_keeps P P' \<and> sp_data P' = sp_data P
     \<and> hc_field_start (sp_parser P') = length pre)"
    by (rule parses_mono) (use P1 k(1) in simp)
  ultimately show ?thesis using m(1) k(1) by (auto intro: parses_Cons)
qed

lemma parses_value:
  assumes "v \<noteq> []" "is_client_start (hd v)" "list_all is_client_value v" "s \<in> value_starts"
  shows "client_parses pre v post s P (\<lambda>s' P'. s' \<in> value_states \<and> P' = set_client (hc_mark_update (\<lambda>_. length pre)) P)"
proof -
  obtain c v' where v: "v = c # v'" "is_client_start c" "list_all is_client_value v'" using assms(1-3) by (cases v) auto
  obtain m where m: "httpclient_step s c = Some ([Cl_start_value], m)" "m \<in> value_states"
    using value_start [OF assms(4) v(2)] by blast
  have "client_parses (pre @ [c]) v' post m P1 (\<lambda>s' P'. s' \<in> value_states \<and> P' = P1)" for P1
    by (rule parses_within [where C = is_client_value]) (simp_all add: value_step m(2) v(3))
  then show ?thesis using m(1) v(1) by (auto intro!: parses_Cons simp: client_fbreak_def)
qed

lemma parses_line_end:
  assumes "s \<in> value_states" and "text_at (pre @ crlf @ post) (hc_mark (sp_parser P)) (length pre) = Inr v"
    and "segment (hc_field_start (sp_parser P)) (hc_field_len (sp_parser P)) (pre @ crlf @ post) = k" and "k \<noteq> []"
  shows "client_parses pre crlf post s P (\<lambda>s' P'. s' \<in> {20, 43} \<and> client_keeps P P' \<and> sp_data P' = HttpResponse_setHeader k v (sp_data P))"
proof -
  obtain m acts n where m: "httpclient_step s (CHR 0x0D) = Some (acts, m)" "httpclient_step m (CHR 0x0A) = Some ([], n)"
      "acts \<in> {[Cl_write_value], [Cl_write_content_len, Cl_write_value]}" "n \<in> {20, 43}"
    using value_end [OF assms(1)] by blast
  have "\<exists>P1. client_acts (pre @ crlf @ post) (map (\<lambda>a. (a, length pre)) acts) P = Inr P1
      \<and> client_keeps P P1 \<and> sp_data P1 = HttpResponse_setHeader k v (sp_data P)"
    using m(3) assms(2-4) by (elim insertE) (simp_all add: client_keeps_def on_response_http_field_def)
  moreover have "\<not> list_ex client_fbreak acts" using m(3) by (auto simp: client_fbreak_def)
  ultimately show ?thesis
    using m(4) unfolding crlf_def
    by (auto intro!: parses_Cons [where step = httpclient_step, OF m(1)] parses_Cons [where step = httpclient_step, OF m(2)] parses_Nil)
qed

lemma parses_header:
  assumes "response_header (k, v)" "\<not> is_transfer_encoding k" "s \<in> {20, 43}"
  shows "client_parses pre (header_line (k, v)) post s P
    (\<lambda>s' P'. s' \<in> {20, 43} \<and> client_keeps P P' \<and> sp_data P' = HttpResponse_setHeader k v (sp_data P))"
proof -
  let ?B = "pre @ k @ '': '' @ v @ crlf @ post" and ?n = "length pre"
  have ok: "k \<noteq> []" "list_all is_token_char k" "v \<noteq> []" "is_client_start (hd v)" "list_all is_client_value v"
    using assms(1) by (auto simp: response_header_def)
  let ?K = "\<lambda>P'. client_keeps P P' \<and> sp_data P' = sp_data P \<and> hc_field_start (sp_parser P') = ?n"
  let ?L = "\<lambda>P'. ?K P' \<and> hc_field_len (sp_parser P') = length k"
  have name: "client_parses pre k ('': '' @ v @ crlf @ post) s P (\<lambda>s' P'. name_inv k s' \<and> ?K P')"
    using parses_name [OF ok(1,2) assms(3)] by simp
  have colon: "client_parses (pre @ k) '': '' (v @ crlf @ post) s1 P1 (\<lambda>s' P'. s' \<in> value_starts \<and> ?L P')"
    if "name_inv k s1 \<and> ?K P1" for s1 P1
  proof -
    obtain m where m: "m \<in> value_starts" "httpclient_step s1 (CHR '':'') = Some ([Cl_write_field], m)"
      using name_end [OF _ assms(2)] \<open>name_inv k s1 \<and> ?K P1\<close> by blast
    show ?thesis
      by (rule parses_Cons [where step = httpclient_step, OF m(2)], simp add: client_fbreak_def, simp,
          rule parses_Cons [where step = httpclient_step, OF value_blank [OF m(1)]], simp add: client_fbreak_def, simp,
          rule parses_Nil)
        (use that m(1) in \<open>simp add: client_keeps_def\<close>)
  qed
  have val: "client_parses (pre @ k @ '': '') v (crlf @ post) s2 P2
      (\<lambda>s' P'. s' \<in> value_states \<and> ?L P' \<and> hc_mark (sp_parser P') = length (pre @ k @ '': ''))"
    if "s2 \<in> value_starts \<and> ?L P2" for s2 P2
    by (rule parses_mono [OF parses_value [OF ok(3-5)]]) (use that in \<open>auto simp: client_keeps_def\<close>)
  have tail: "client_parses (pre @ k @ '': '' @ v) crlf post s3 P3
      (\<lambda>s' P'. s' \<in> {20, 43} \<and> client_keeps P P' \<and> sp_data P' = HttpResponse_setHeader k v (sp_data P))"
    if "s3 \<in> value_states \<and> ?L P3 \<and> hc_mark (sp_parser P3) = length (pre @ k @ '': '')" for s3 P3
    by (rule parses_mono [OF parses_line_end [where k = k and v = v]])
      (use that ok(1) in \<open>auto simp: segment_def client_keeps_def intro: text_at_in [where a = "pre @ k @ '': ''"]\<close>)
  have "client_parses pre (k @ '': '' @ v @ crlf) post s P
      (\<lambda>s' P'. s' \<in> {20, 43} \<and> client_keeps P P' \<and> sp_data P' = HttpResponse_setHeader k v (sp_data P))"
    by (rule parses_seq [OF name], rule parses_seq [OF colon], assumption, rule parses_seq [OF val], assumption,
        rule tail, assumption) simp_all
  then show ?thesis by (simp add: header_line_def)
qed

text \<open>The line that announces a chunked body.\<close>

abbreviation te_chunked :: "string \<times> string" where
  "te_chunked \<equiv> (''Transfer-Encoding'', ''chunked'')"

text \<open>The lines of a head: ordinary ones, or the announcement of chunks.\<close>

definition response_line :: "string \<times> string \<Rightarrow> bool" where
  "response_line e \<longleftrightarrow> response_header e \<and> \<not> is_transfer_encoding (fst e) \<or> e = te_chunked"

definition client_frame :: "HttpResponseParser \<Rightarrow> HttpResponseParser \<Rightarrow> bool" where
  "client_frame P P' \<longleftrightarrow> hc_cs (sp_parser P') = hc_cs (sp_parser P) \<and> hc_body_start (sp_parser P') = hc_body_start (sp_parser P)
     \<and> sp_error P' = sp_error P"

lemma client_keeps_frame: "client_keeps P P' \<longleftrightarrow> client_frame P P' \<and> hc_chunked (sp_parser P') = hc_chunked (sp_parser P)"
  by (auto simp: client_keeps_def client_frame_def)

lemma client_frame_trans: "client_frame P P' \<Longrightarrow> client_frame P' P'' \<Longrightarrow> client_frame P P''"
  by (simp add: client_frame_def)

lemma te_line_steps:
  assumes "s \<in> {20, 43}"
  shows "\<exists>acts. httpclient_step s (CHR ''T'') = Some (acts, 44) \<and> acts \<in> {[Cl_start_field], [Cl_write_connection_close, Cl_start_field]}"
  using assms by (auto simp: httpclient_step_def code_step_def httpclient_table)

lemma passes_te_rest:
  "passes httpclient_step client_fbreak 44 p (''ransfer-Encoding: chunked'' @ crlf)
    [(Cl_write_field, p + 16), (Cl_start_value, p + 17), (Cl_start_value, p + 18), (Cl_write_value, p + 25), (Cl_trans_chunked, p + 26)] 20"
  by (simp add: passes_def crlf_def httpclient_step_def code_step_def httpclient_table client_fbreak_def split: prod.split)

lemma parses_te_line:
  assumes "s \<in> {20, 43}"
  shows "client_parses pre (header_line te_chunked) post s P (\<lambda>s' P'. s' \<in> {20, 43} \<and> client_frame P P' \<and> hc_chunked (sp_parser P')
     \<and> sp_data P' = HttpResponse_setHeader ''Transfer-Encoding'' ''chunked'' (sp_data P))"
proof -
  let ?n = "length pre" and ?r = "''ransfer-Encoding: chunked'' @ crlf"
  let ?B = "pre @ (CHR ''T'' # ?r) @ post"
  obtain acts where a: "httpclient_step s (CHR ''T'') = Some (acts, 44)"
      "acts \<in> {[Cl_start_field], [Cl_write_connection_close, Cl_start_field]}"
    using te_line_steps [OF assms] by blast
  obtain P1 where P1: "client_acts ?B (map (\<lambda>x. (x, ?n)) acts) P = Inr P1" "client_frame P P1" "sp_data P1 = sp_data P"
      "hc_field_start (sp_parser P1) = ?n"
    using a(2) by (auto simp: client_frame_def)
  have v: "text_at ?B (?n + 19) (?n + 26) = Inr ''chunked''"
    by (rule text_at_in [where a = "pre @ ''Transfer-Encoding: ''"]) simp_all
  have k: "segment ?n 17 ?B = ''Transfer-Encoding''" by (simp add: segment_def)
  have "client_parses (pre @ ''T'') ?r post 44 P1 (\<lambda>s' P'. s' \<in> {20, 43} \<and> client_frame P P' \<and> hc_chunked (sp_parser P')
     \<and> sp_data P' = HttpResponse_setHeader ''Transfer-Encoding'' ''chunked'' (sp_data P))"
  proof -
    let ?e = "[(Cl_write_field, ?n + 17), (Cl_start_value, ?n + 18), (Cl_start_value, ?n + 19), (Cl_write_value, ?n + 26),
      (Cl_trans_chunked, ?n + 27)]"
    have "\<exists>P'. client_acts ?B ?e P1 = Inr P' \<and> client_frame P P' \<and> hc_chunked (sp_parser P')
       \<and> sp_data P' = HttpResponse_setHeader ''Transfer-Encoding'' ''chunked'' (sp_data P)"
      using P1(2-4) v k by (simp add: client_frame_def on_response_http_field_def)
    moreover have "passes httpclient_step client_fbreak 44 (length (pre @ ''T'')) ?r ?e 20"
      using passes_te_rest [of "length (pre @ ''T'')"] by (simp add: add.commute)
    ultimately show ?thesis
      unfolding parses_def by (intro exI [of _ ?e] exI [of _ 20]) simp
  qed
  then show ?thesis
    using a P1(1) unfolding header_line_def
    by (auto intro!: parses_Cons [where step = httpclient_step, OF a(1)] simp: client_fbreak_def)
qed

section \<open>The status line\<close>

lemma status_steps:
  "httpclient_step 1 (CHR ''H'') = Some ([Cl_mark], 8)"
  "httpclient_step 8 (CHR ''T'') = Some ([], 9)"
  "httpclient_step 9 (CHR ''T'') = Some ([], 10)"
  "httpclient_step 10 (CHR ''P'') = Some ([], 11)"
  "httpclient_step 11 (CHR ''/'') = Some ([], 12)"
  "httpclient_step 12 (CHR ''1'') = Some ([], 13)"
  "httpclient_step 13 (CHR ''.'') = Some ([], 14)"
  "httpclient_step 14 (CHR ''0'') = Some ([], 15)"
  "httpclient_step 14 (CHR ''1'') = Some ([], 15)"
  "httpclient_step 15 (CHR '' '') = Some ([Cl_http_version], 16)"
  "httpclient_step 17 (CHR '' '') = Some ([Cl_status_code], 18)"
  "httpclient_step 19 (CHR 0x0D) = Some ([Cl_reason_phrase], 24)"
  "httpclient_step 24 (CHR 0x0A) = Some ([], 20)"
  "httpclient_step 20 (CHR 0x0D) = Some ([], 3)"
  "httpclient_step 43 (CHR 0x0D) = Some ([Cl_write_connection_close], 3)"
  "httpclient_step 3 (CHR 0x0A) = Some ([Cl_done], 120)"
  by (simp_all add: httpclient_step_def code_step_def httpclient_table del: One_nat_def)

lemma status_classes:
  "code_in [(48, 57)] c \<Longrightarrow> httpclient_step 16 c = Some ([Cl_mark], 17)"
  "is_client_value c \<Longrightarrow> httpclient_step 18 c = Some ([Cl_mark], 19)"
  "code_in [(48, 57)] c \<Longrightarrow> httpclient_step 17 c = Some ([], 17)"
  "is_client_value c \<Longrightarrow> httpclient_step 19 c = Some ([], 19)"
  unfolding httpclient_step_def is_client_value_def
  by (subst code_step_Tr [where k = 27], assumption, simp_all add: httpclient_table)
    (subst code_step_Tr [where k = 30], assumption, simp_all add: httpclient_table,
     (erule code_step_St, simp add: httpclient_table)+)

text \<open>A text that is marked at its first character.\<close>

lemma parses_marked:
  assumes "\<And>c. C c \<Longrightarrow> httpclient_step s c = Some ([Cl_mark], m)" "\<And>c. C c \<Longrightarrow> httpclient_step m c = Some ([], m)"
    and "list_all C t" "t \<noteq> []"
  shows "client_parses pre t post s P (\<lambda>s' P'. s' = m \<and> P' = set_client (hc_mark_update (\<lambda>_. length pre)) P)"
proof -
  obtain c t' where t: "t = c # t'" "C c" "list_all C t'" using assms(3,4) by (cases t) auto
  have "client_parses (pre @ [c]) t' post m P1 (\<lambda>s' P'. s' \<in> {m} \<and> P' = P1)" for P1
    by (rule parses_within [where C = C]) (use assms(2) t(3) in auto)
  then show ?thesis using assms(1) [OF t(2)] t(1) by (auto intro!: parses_Cons simp: client_fbreak_def)
qed

definition other_version :: "u8 \<Rightarrow> u8" where
  "other_version v = (if v = 0x10 then 0x11 else 0x10)"

lemma parses_version:
  assumes "v = 0x10 \<or> v = 0x11"
  shows "client_parses pre (dump_version v @ '' '') post 1 P
    (\<lambda>s' P'. s' = 16 \<and> client_keeps P P' \<and> sp_data P' = sp_data P\<lparr>rs_version := other_version v\<rparr>)"
proof -
  have "passes httpclient_step client_fbreak 1 (length pre) (dump_version v @ '' '')
      [(Cl_mark, length pre), (Cl_http_version, length pre + 8)] 16"
    using assms by (elim disjE)
      (simp_all add: dump_version_texts passes_def status_steps status_steps(1) [unfolded One_nat_def] client_fbreak_def split: prod.split)
  moreover have "text_at (pre @ (dump_version v @ '' '') @ post) (length pre) (length pre + 8) = Inr (dump_version v)"
    using assms by (intro text_at_in [where a = pre]) (auto simp: dump_version_texts)
  moreover have "strncmp_eq (dump_version v) ''HTTP/1.0'' \<longleftrightarrow> v = 0x10"
    using assms by (auto simp: dump_version_texts strncmp_eq_def)
  ultimately show ?thesis
    unfolding parses_def
    by (intro exI [of _ "[(Cl_mark, length pre), (Cl_http_version, length pre + 8)]"] exI [of _ 16])
      (simp add: on_response_version_def other_version_def client_keeps_def)
qed

lemma parses_status:
  "client_parses pre (print_dec st @ '' '') post 16 P
    (\<lambda>s' P'. s' = 18 \<and> client_keeps P P' \<and> sp_data P' = sp_data P\<lparr>rs_status := st\<rparr>)"
proof -
  have dig: "list_all (code_in [(48, 57)]) (print_dec st)"
    using set_print_nat [of 10 "unat st"] by (auto simp: list_all_iff print_dec_def code_in_def digit_char_def)
  have ne: "print_dec st \<noteq> []" using print_nat_ne by (simp add: print_dec_def)
  have "word_of_int (atoi (print_dec st @ '' '' @ post)) = st"
    by (rule atoi_status) (simp add: digit_val_def)
  then have "client_parses (pre @ print_dec st) '' '' post 17 (set_client (hc_mark_update (\<lambda>_. length pre)) P)
     (\<lambda>s' P'. s' = 18 \<and> client_keeps P P' \<and> sp_data P' = sp_data P\<lparr>rs_status := st\<rparr>)"
    by (intro parses_Cons [where step = httpclient_step, OF status_steps(11)] parses_Nil)
      (auto simp: client_fbreak_def on_response_status_def client_keeps_def)
  then show ?thesis
    using parses_seq [OF parses_marked [where C = "code_in [(48, 57)]" and s = 16 and m = 17, OF status_classes(1,3) dig ne]] by simp
qed

lemma parses_reason:
  assumes "list_all is_client_value t" "t \<noteq> []"
  shows "client_parses pre (t @ crlf) post 18 P
    (\<lambda>s' P'. s' = 20 \<and> client_keeps P P' \<and> sp_data P' = sp_data P\<lparr>rs_reason := t\<rparr>)"
proof -
  have "text_at (pre @ t @ crlf @ post) (length pre) (length pre + length t) = Inr t"
    by (rule text_at_in [where a = pre]) simp_all
  then have "client_parses (pre @ t) crlf post 19 (set_client (hc_mark_update (\<lambda>_. length pre)) P)
     (\<lambda>s' P'. s' = 20 \<and> client_keeps P P' \<and> sp_data P' = sp_data P\<lparr>rs_reason := t\<rparr>)"
    unfolding crlf_def
    by (intro parses_Cons [where step = httpclient_step, OF status_steps(12)]
          parses_Cons [where step = httpclient_step, OF status_steps(13)] parses_Nil)
      (auto simp: client_fbreak_def on_response_reason_def client_keeps_def)
  then show ?thesis
    using parses_seq [OF parses_marked [where C = is_client_value and s = 18 and m = 19, OF status_classes(2,4) assms]] by simp
qed

section \<open>Whole responses\<close>

definition reason_of :: "HttpResponse \<Rightarrow> string" where
  "reason_of r = (if rs_reason r = '''' then HttpStatusToString (rs_status r) else rs_reason r)"

definition response_headers :: "HttpResponse \<Rightarrow> (string \<times> string) list" where
  "response_headers r = filter (\<lambda>(k, v). \<not> is_connection k) (rs_headers r)
     @ (''connection'', if rs_close r then ''close'' else ''keep-alive'')
     # (if rs_body r = [] then [] else [(''content-length'', print_nat 10 (length (rs_body r)))])"

definition response_head :: "HttpResponse \<Rightarrow> string" where
  "response_head r = (dump_version (rs_version r) @ '' '') @ (print_dec (rs_status r) @ '' '') @ (reason_of r @ crlf)
     @ concat (map header_line (response_headers r))"

lemma dump_is_response_head: "HttpResponse_dump r = response_head r @ crlf @ rs_body r"
  by (simp add: HttpResponse_dump_def response_head_def response_headers_def reason_of_def dump_headers_lines dump_close_def
      dump_body_def header_line_def)

text \<open>
  The responses the parser understands: a reason without line ends, header names that are tokens and header
  values without line ends that do not start with white space; a \<^verbatim>\<open>Transfer-Encoding\<close> is \<^verbatim>\<open>chunked\<close>.
\<close>

definition response_ok :: "HttpResponse \<Rightarrow> bool" where
  "response_ok r \<longleftrightarrow> (rs_version r = 0x10 \<or> rs_version r = 0x11) \<and> list_all is_client_value (rs_reason r)
     \<and> list_all response_line (rs_headers r)"

definition store_response :: "(string \<times> string) list \<Rightarrow> HttpResponse \<Rightarrow> HttpResponse" where
  "store_response hs D = fold (\<lambda>(k, v). HttpResponse_setHeader k v) hs D"

lemma parses_line:
  assumes "response_line e" "s \<in> {20, 43}"
  shows "client_parses pre (header_line e) post s P (\<lambda>s' P'. s' \<in> {20, 43} \<and> client_frame P P'
     \<and> (hc_chunked (sp_parser P') \<longleftrightarrow> hc_chunked (sp_parser P) \<or> e = te_chunked)
     \<and> sp_data P' = (case e of (k, v) \<Rightarrow> HttpResponse_setHeader k v (sp_data P)))"
proof (cases "e = te_chunked")
  case True
  show ?thesis unfolding True by (rule parses_mono [OF parses_te_line [OF assms(2)]]) simp
next
  case False
  obtain k v where e: "e = (k, v)" by fastforce
  with False assms(1) have h: "response_header (k, v)" "\<not> is_transfer_encoding k" by (auto simp: response_line_def)
  show ?thesis unfolding e
    by (rule parses_mono [OF parses_header [OF h assms(2)]]) (use False in \<open>auto simp: e client_keeps_frame\<close>)
qed

lemma parses_headers:
  assumes "list_all response_line hs" "s \<in> {20, 43}"
  shows "client_parses pre (concat (map header_line hs)) post s P
    (\<lambda>s' P'. s' \<in> {20, 43} \<and> client_frame P P' \<and> (hc_chunked (sp_parser P') \<longleftrightarrow> hc_chunked (sp_parser P) \<or> te_chunked \<in> set hs)
       \<and> sp_data P' = store_response hs (sp_data P))"
  using assms
proof (induction hs arbitrary: pre s P)
  case Nil
  then show ?case by (auto intro: parses_Nil simp: store_response_def client_frame_def)
next
  case (Cons e hs)
  let ?D = "case e of (k, v) \<Rightarrow> HttpResponse_setHeader k v (sp_data P)"
  have "client_parses pre (header_line e @ concat (map header_line hs)) post s P
      (\<lambda>s' P'. s' \<in> {20, 43} \<and> client_frame P P' \<and> (hc_chunked (sp_parser P') \<longleftrightarrow> hc_chunked (sp_parser P) \<or> te_chunked \<in> set (e # hs))
         \<and> sp_data P' = store_response hs ?D)"
  proof (rule parses_append [OF parses_line])
    fix s1 :: nat and P1 :: HttpResponseParser
    assume P1: "s1 \<in> {20, 43} \<and> client_frame P P1 \<and> (hc_chunked (sp_parser P1) \<longleftrightarrow> hc_chunked (sp_parser P) \<or> e = te_chunked)
       \<and> sp_data P1 = ?D"
    show "client_parses (pre @ header_line e) (concat (map header_line hs)) post s1 P1
      (\<lambda>s' P'. s' \<in> {20, 43} \<and> client_frame P P' \<and> (hc_chunked (sp_parser P') \<longleftrightarrow> hc_chunked (sp_parser P) \<or> te_chunked \<in> set (e # hs))
         \<and> sp_data P' = store_response hs ?D)"
      by (rule parses_mono [OF Cons.IH]) (use P1 Cons.prems(1) client_frame_trans in auto)
  qed (use Cons.prems in auto)
  then show ?case by (simp add: store_response_def split: prod.splits)
qed

definition response_data :: "HttpResponse \<Rightarrow> HttpResponse \<Rightarrow> HttpResponse" where
  "response_data r D = store_response (response_headers r)
     (D\<lparr>rs_version := other_version (rs_version r), rs_status := rs_status r, rs_reason := reason_of r\<rparr>)"

lemma HTTP_STATUS_values: "list_all (\<lambda>(n, msg). list_all is_client_value msg \<and> msg \<noteq> []) HTTP_STATUS_MAP"
  by (simp add: HTTP_STATUS_MAP_def is_client_value_def code_in_def)

lemma status_reason: "list_all is_client_value (HttpStatusToString st)" "HttpStatusToString st \<noteq> []"
proof -
  have "list_all is_client_value (HttpStatusToString st) \<and> HttpStatusToString st \<noteq> []"
    using HTTP_STATUS_values
    by (auto simp: HttpStatusToString_def list_all_iff is_client_value_def code_in_def split: option.split dest!: map_of_SomeD)
  then show "list_all is_client_value (HttpStatusToString st)" "HttpStatusToString st \<noteq> []" by simp_all
qed

lemma client_names:
  "response_header (''connection'', ''close'')" "response_header (''connection'', ''keep-alive'')"
  "response_header (''content-length'', print_nat 10 n)"
  "\<not> is_transfer_encoding ''connection''" "\<not> is_transfer_encoding ''content-length''"
proof -
  have d: "\<forall>c\<in>set (print_nat 10 n). is_client_value c \<and> is_client_start c"
    using set_print_nat [of 10 n] by (auto simp: is_client_value_def is_client_start_def code_in_def digit_char_def)
  then show "response_header (''content-length'', print_nat 10 n)"
    using print_nat_ne [of 10 n] hd_in_set [of "print_nat 10 n"]
    by (simp add: response_header_def list_all_iff is_token_char_def code_in_def)
qed (simp_all add: response_header_def is_token_char_def is_client_value_def is_client_start_def code_in_def
       is_transfer_encoding_def to_lower_def)

lemma response_headers_ok:
  assumes "response_ok r"
  shows "list_all response_line (response_headers r)"
  using assms client_names by (auto simp: response_headers_def response_ok_def list_all_iff response_line_def)

lemma te_in_response_headers: "te_chunked \<in> set (response_headers r) \<longleftrightarrow> te_chunked \<in> set (rs_headers r)"
  by (auto simp: response_headers_def is_connection_def c_str_def to_lower_def char_of_def bit_0 bit_Suc)

lemma parses_response:
  assumes "response_ok r"
  shows "client_parses [] (response_head r) post 1 P
    (\<lambda>s' P'. s' \<in> {20, 43} \<and> client_frame P P' \<and> (hc_chunked (sp_parser P') \<longleftrightarrow> hc_chunked (sp_parser P) \<or> te_chunked \<in> set (rs_headers r))
       \<and> sp_data P' = response_data r (sp_data P))"
proof -
  have ok: "rs_version r = 0x10 \<or> rs_version r = 0x11" "list_all is_client_value (reason_of r)" "reason_of r \<noteq> []"
    using assms status_reason by (auto simp: response_ok_def reason_of_def)
  show ?thesis
    unfolding response_head_def
    by (rule parses_append [OF parses_version [OF ok(1)]], elim conjE, hypsubst, rule parses_append [OF parses_status],
        elim conjE, hypsubst, rule parses_append [OF parses_reason [OF ok(2,3)]], elim conjE, hypsubst,
        rule parses_mono [OF parses_headers [OF response_headers_ok [OF assms]]])
      (auto simp: client_keeps_def client_frame_def response_data_def te_in_response_headers)
qed

section \<open>Execution\<close>

definition client_offsets :: "nat \<Rightarrow> httpclient_parser \<Rightarrow> bool" where
  "client_offsets n h \<longleftrightarrow> hc_body_start h \<le> n \<and> hc_mark h < n \<and> hc_field_len h \<le> n \<and> hc_field_start h < n"

lemma client_act_offsets:
  assumes "client_act b a q P = Inr P'" "q < n" "client_offsets n (sp_parser P)"
  shows "client_offsets n (sp_parser P')"
  using assms by (cases a) (auto simp: client_offsets_def on_response_reason_def on_response_status_def on_response_version_def
      on_response_http_field_def Let_def rbind_eq_Inr_iff split: if_splits)

lemma client_run_offsets:
  assumes "code_run step fb cs 0 buffer = (evs, cs', p)" "client_acts buffer evs P = Inr P'"
    and "client_offsets (length buffer) (sp_parser P)"
  shows "p \<le> length buffer" "client_offsets (length buffer) (sp_parser P')"
proof -
  show p: "p \<le> length buffer" using code_run_pos [OF assms(1)] by simp
  have "\<forall>(a, q)\<in>set evs. q < length buffer" using code_run_events [OF assms(1)] p by fastforce
  then show "client_offsets (length buffer) (sp_parser P')"
    by (intro run_acts_inv [where I = "\<lambda>P. client_offsets (length buffer) (sp_parser P)", OF _ assms(2,3)])
      (auto dest: client_act_offsets)
qed

lemma client_execute_run:
  assumes "code_run httpclient_step client_fbreak (hc_cs (sp_parser P)) 0 buffer = (evs, cs, p)" and "buffer \<noteq> []"
    and "client_acts buffer evs (set_client (\<lambda>h. h\<lparr>hc_nread := 0, hc_mark := 0, hc_field_len := 0, hc_field_start := 0\<rparr>) P) = Inr P1"
    and "hc_body_start (sp_parser P) \<le> length buffer" and "length buffer < 2 ^ 31"
  shows "HttpResponseParser_execute NUL buffer False P
    = Inr (p, drop p buffer, set_client (\<lambda>h. h\<lparr>hc_cs := cs, hc_nread := p\<rparr>) P1)"
proof -
  have "client_offsets (length buffer) (sp_parser
      (set_client (\<lambda>h. h\<lparr>hc_nread := 0, hc_mark := 0, hc_field_len := 0, hc_field_start := 0\<rparr>) P))"
    using assms(2,4) by (simp add: client_offsets_def)
  note o = client_run_offsets [OF assms(1,3) this]
  show ?thesis
    using o assms(1,3,5)
    by (simp add: HttpResponseParser_execute_def httpclient_parser_execute_def same_distance_iff client_offsets_def Let_def)
qed

lemma execute_response:
  assumes "response_ok r" and "length (response_head r @ crlf @ b) < 2 ^ 31"
  shows "\<exists>P. HttpResponseParser_execute NUL (response_head r @ crlf @ b) False (HttpResponseParser_new mem)
       = Inr (length (response_head r) + 2, b, P) \<and> HttpResponseParser_isFinished P = 1 \<and> \<not> HttpResponseParser_hasError P
     \<and> (hc_chunked (sp_parser P) \<longleftrightarrow> te_chunked \<in> set (rs_headers r)) \<and> sp_data P = response_data r (HttpResponse_new 0x11 True)"
proof -
  let ?B = "response_head r @ crlf @ b" and ?L = "length (response_head r)" and ?N = "HttpResponseParser_new mem"
  let ?P0 = "set_client (\<lambda>h. h\<lparr>hc_nread := 0, hc_mark := 0, hc_field_len := 0, hc_field_start := 0\<rparr>) ?N"
  obtain evs s P1 where run: "passes httpclient_step client_fbreak 1 0 (response_head r) evs s"
      "client_acts ?B evs ?P0 = Inr P1" "s \<in> {20, 43}" "client_frame ?P0 P1"
      "hc_chunked (sp_parser P1) \<longleftrightarrow> hc_chunked (sp_parser ?P0) \<or> te_chunked \<in> set (rs_headers r)" "sp_data P1 = response_data r (sp_data ?P0)"
    using parses_response [OF assms(1), of "crlf @ b" ?P0] unfolding parses_def by (auto simp del: One_nat_def)
  obtain acts where a: "httpclient_step s (CHR 0x0D) = Some (acts, 3)" "acts \<in> {[], [Cl_write_connection_close]}"
    using run(3) status_steps(14,15) by auto
  have "\<not> list_ex client_fbreak acts" using a(2) by (auto simp: client_fbreak_def)
  from passes_append [OF run(1)] passes_step [of httpclient_step, OF a(1) this]
  have "passes httpclient_step client_fbreak 1 0 (response_head r @ [CHR 0x0D]) (evs @ map (\<lambda>x. (x, ?L)) acts) 3" by simp
  from passes_stop [OF this status_steps(16), of b]
  have r: "code_run httpclient_step client_fbreak 1 0 ?B = ((evs @ map (\<lambda>x. (x, ?L)) acts) @ [(Cl_done, ?L + 1)], 120, ?L + 2)"
    by (simp add: crlf_def client_fbreak_def)
  obtain P2 where P2: "client_acts ?B ((evs @ map (\<lambda>x. (x, ?L)) acts) @ [(Cl_done, ?L + 1)]) ?P0 = Inr P2"
      "sp_data P2 = sp_data P1" "sp_error P2 = sp_error P1" "hc_chunked (sp_parser P2) = hc_chunked (sp_parser P1)"
    using a(2) run(2) by (auto simp: run_acts_append)
  have "hc_cs (sp_parser ?N) = 1" "hc_body_start (sp_parser ?N) \<le> length ?B" "?B \<noteq> []"
    by (simp_all add: HttpResponseParser_new_def httpclient_parser_init_def httpclient_parser_start_def crlf_def)
  from client_execute_run [where P = ?N, unfolded this(1), OF r this(3) P2(1) this(2) assms(2)]
  show ?thesis
    using P2(2-4) run(4-6)
    by (simp add: client_frame_def HttpResponseParser_new_def httpclient_parser_init_def HttpResponseParser_isFinished_def
        httpclient_parser_finish_def httpclient_parser_has_error_def httpclient_parser_is_finished_def httpclient_parser_error_def
        httpclient_parser_first_final_def HttpResponseParser_hasError_def crlf_def)
qed

text \<open>The headers that arrive.\<close>

lemma store_response_eq:
  "store_response hs D = D\<lparr>rs_headers := fold (\<lambda>(k, v). map_put CaseInsensitiveLess k v) hs (rs_headers D)\<rparr>"
  unfolding store_response_def
  by (induction hs arbitrary: D) (auto simp: HttpResponse_setHeader_def split: prod.splits)

lemma response_find:
  assumes "map_ok CaseInsensitiveLess (rs_headers r)" "rs_headers D = []"
  shows "map_find CaseInsensitiveLess k (rs_headers (response_data r D)) =
    (if casefold k = ''connection'' then Some (if rs_close r then ''close'' else ''keep-alive'')
     else if casefold k = ''content-length'' \<and> rs_body r \<noteq> [] then Some (print_nat 10 (length (rs_body r)))
     else map_find CaseInsensitiveLess k (rs_headers r))"
proof -
  let ?lt = CaseInsensitiveLess and ?close = "if rs_close r then ''close'' else ''keep-alive''"
  let ?hs = "filter (\<lambda>(k, v). \<not> is_connection k) (rs_headers r)"
  define m0 where "m0 = fold (\<lambda>(k, v). map_put ?lt k v) ?hs []"
  define m1 where "m1 = map_put ?lt ''connection'' ?close m0"
  have ok0: "map_ok ?lt []" by (simp add: map_ok_def)
  have ok: "map_ok ?lt m0" unfolding m0_def by (rule headers.fold_put_ok [OF ok0])
  have ok1: "map_ok ?lt m1" unfolding m1_def by (rule headers.put_ok [OF ok])
  have "map_find ?lt k ?hs = (if casefold k = ''connection'' then None else map_find ?lt k (rs_headers r))"
    using find_filter [OF assms(1), where P = "\<lambda>(k, v). \<not> is_connection k" and Q = "\<lambda>k. k \<noteq> ''connection''"]
    by (simp add: is_connection_casefold)
  then have "map_find ?lt k m0 = (if casefold k = ''connection'' then None else map_find ?lt k (rs_headers r))"
    unfolding m0_def headers.find_fold_put_map [OF ok0 headers.ok_filter [OF assms(1)]] by (auto split: option.split)
  moreover have "map_find ?lt k m1 = (if casefold k = ''connection'' then Some ?close else map_find ?lt k m0)"
    using headers.find_put [OF ok] by (simp add: m1_def casefold_names)
  moreover have "map_find ?lt k (map_put ?lt ''content-length'' v m1)
      = (if casefold k = ''content-length'' then Some v else map_find ?lt k m1)" for v
    using headers.find_put [OF ok1] by (simp add: casefold_names)
  moreover have "rs_headers (response_data r D) = (if rs_body r = [] then m1
      else map_put ?lt ''content-length'' (print_nat 10 (length (rs_body r))) m1)"
    by (simp add: response_data_def store_response_eq response_headers_def assms(2) m1_def m0_def)
  ultimately show ?thesis by simp
qed

lemma response_getHeader:
  assumes "map_ok CaseInsensitiveLess (rs_headers r)" "rs_headers D = []"
  shows "HttpResponse_getHeader (response_data r D) k def =
    (if casefold k = ''connection'' then if rs_close r then ''close'' else ''keep-alive''
     else if casefold k = ''content-length'' \<and> rs_body r \<noteq> [] then print_nat 10 (length (rs_body r))
     else HttpResponse_getHeader r k def)"
  using response_find [OF assms] by (simp add: HttpResponse_getHeader_def find_or_def)

lemma response_fields:
  "rs_status (response_data r D) = rs_status r" "rs_reason (response_data r D) = reason_of r"
  "rs_version (response_data r D) = other_version (rs_version r)" "rs_body (response_data r D) = rs_body D"
  "rs_close (response_data r D) = rs_close D"
  by (simp_all add: response_data_def store_response_eq)

text \<open>
  (C4) A response that is written out by \<^verbatim>\<open>HttpResponse::dump\<close> and given to a new \<^verbatim>\<open>HttpResponseParser\<close> in one
  piece is parsed back: the parser stops exactly at the body, is finished without error, expects chunks exactly
  when the head announced them, and has the status and the reason of the response. Every header is found again; \<^verbatim>\<open>connection\<close> tells the
  close flag and \<^verbatim>\<open>content-length\<close> the length of a non-empty body. The version comes back wrong:
  \<^verbatim>\<open>on_response_version\<close> takes 1.0 for 1.1 and everything else for 1.0. The buffer ends with a zero byte and has less
  than \<open>2 ^ 31\<close> bytes, as the assertions of the parser ask.
\<close>

theorem response_roundtrip:
  assumes "response_ok r" and "map_ok CaseInsensitiveLess (rs_headers r)" and "length (HttpResponse_dump r) < 2 ^ 31"
  shows "\<exists>P. HttpResponseParser_execute NUL (HttpResponse_dump r) False (HttpResponseParser_new mem)
        = Inr (length (HttpResponse_dump r) - length (rs_body r), rs_body r, P)
     \<and> HttpResponseParser_isFinished P = 1 \<and> \<not> HttpResponseParser_hasError P
     \<and> (hc_chunked (sp_parser P) \<longleftrightarrow> te_chunked \<in> set (rs_headers r))
     \<and> rs_status (sp_data P) = rs_status r
     \<and> rs_reason (sp_data P) = (if rs_reason r = [] then HttpStatusToString (rs_status r) else rs_reason r)
     \<and> rs_version (sp_data P) = (if rs_version r = 0x10 then 0x11 else 0x10)
     \<and> (\<forall>k def. HttpResponse_getHeader (sp_data P) k def =
          (if casefold k = ''connection'' then if rs_close r then ''close'' else ''keep-alive''
           else if casefold k = ''content-length'' \<and> rs_body r \<noteq> [] then print_nat 10 (length (rs_body r))
           else HttpResponse_getHeader r k def))"
proof -
  let ?D = "HttpResponse_new 0x11 True"
  obtain P where P: "HttpResponseParser_execute NUL (HttpResponse_dump r) False (HttpResponseParser_new mem)
       = Inr (length (response_head r) + 2, rs_body r, P)" "HttpResponseParser_isFinished P = 1"
    "\<not> HttpResponseParser_hasError P" "hc_chunked (sp_parser P) \<longleftrightarrow> te_chunked \<in> set (rs_headers r)" "sp_data P = response_data r ?D"
    using execute_response [OF assms(1), of "rs_body r"] assms(3) by (auto simp: dump_is_response_head)
  have "length (HttpResponse_dump r) - length (rs_body r) = length (response_head r) + 2"
    by (simp add: dump_is_response_head crlf_def)
  moreover have "rs_headers ?D = []" by (simp add: HttpResponse_new_def)
  note response_getHeader [OF assms(2) this]
  ultimately show ?thesis
    using P by (intro exI [of _ P]) (simp add: response_fields reason_of_def other_version_def)
qed

definition sample_response :: HttpResponse where
  "sample_response = HttpResponse_setHeader ''Server'' ''tiny'' (HttpResponse_new 0x11 False)
     \<lparr>rs_status := 404, rs_body := ''hello''\<rparr>"

lemma sample_response_ok: "response_ok sample_response" "map_ok CaseInsensitiveLess (rs_headers sample_response)"
    "rs_body sample_response = ''hello''" "rs_status sample_response = 404" "rs_reason sample_response = ''''"
    "rs_version sample_response = 0x11" "\<not> rs_close sample_response"
  by (simp_all add: sample_response_def HttpResponse_new_def HttpResponse_setHeader_def response_ok_def response_line_def response_header_def
      is_token_char_def is_client_value_def is_client_start_def is_transfer_encoding_def to_lower_def code_in_def map_ok_def)

lemma sample_response_short: "length (HttpResponse_dump sample_response) < 2 ^ 31"
proof -
  have "length (HttpStatusToString 404) \<le> 100" by (simp add: HttpStatusToString_def HTTP_STATUS_MAP_def)
  then show ?thesis
    by (simp add: HttpResponse_dump_def sample_response_def HttpResponse_new_def HttpResponse_setHeader_def dump_version_def
        dump_close_def dump_headers_def dump_body_def crlf_def is_connection_def print_dec_def print_nat.simps)
qed

theorem response_roundtrip_witness:
  "\<forall>mem. \<exists>P. HttpResponseParser_execute NUL (HttpResponse_dump sample_response) False (HttpResponseParser_new mem)
      = Inr (length (HttpResponse_dump sample_response) - 5, ''hello'', P)
    \<and> rs_status (sp_data P) = 404 \<and> rs_reason (sp_data P) = ''Not Found'' \<and> rs_version (sp_data P) = 0x10"
proof (intro allI)
  fix mem
  have "HttpStatusToString 404 = ''Not Found''" by (simp add: HttpStatusToString_def HTTP_STATUS_MAP_def)
  then show "\<exists>P. HttpResponseParser_execute NUL (HttpResponse_dump sample_response) False (HttpResponseParser_new mem)
      = Inr (length (HttpResponse_dump sample_response) - 5, ''hello'', P)
    \<and> rs_status (sp_data P) = 404 \<and> rs_reason (sp_data P) = ''Not Found'' \<and> rs_version (sp_data P) = 0x10"
    using response_roundtrip [OF sample_response_ok(1,2) sample_response_short, of mem] by (auto simp: sample_response_ok)
qed

section \<open>Chunks\<close>

lemma strtol_hex:
  assumes "int n < 2 ^ 63" and "t = [] \<or> \<not> digit_val (hd t) < 16" and "t = [] \<or> hd t \<notin> {CHR ''x'', CHR ''X''}"
  shows "strtol 16 (print_nat 16 n @ t) = int n"
proof -
  obtain c s where c: "print_nat 16 n = c # s" using print_nat_ne by (cases "print_nat 16 n") auto
  have dig: "\<exists>d<16. x = digit_char d" if "x \<in> set (print_nat 16 n)" for x using set_print_nat [of 16 n] that by auto
  have plain: "\<not> is_space x \<and> x \<noteq> CHR ''-'' \<and> x \<noteq> CHR ''+'' \<and> x \<noteq> CHR ''x'' \<and> x \<noteq> CHR ''X''" if x: "x \<in> set (print_nat 16 n)" for x
  proof -
    obtain d where "d < 16" "x = digit_char d" using dig [OF x] by blast
    then have "of_char x = (if d < 10 then 48 + d else 87 + d)" by (auto simp: digit_char_def of_char_of)
    then show ?thesis using \<open>d < 16\<close> by (auto simp: is_space_def code_in_def split: if_splits)
  qed
  have "digits_value 16 0 (print_nat 16 n @ t) = n"
    using digits_value_print [of 16 n] digits_value_stop [OF assms(2)] print_nat_digits [of 16 n]
    by (simp add: digits_value_append)
  moreover have "take 2 (c # s @ t) \<notin> {''0x'', ''0X''}"
    using plain c assms(3) by (cases s; cases t) (auto simp: numeral_2_eq_2)
  ultimately show ?thesis
    using assms(1) plain [of c] by (auto simp: strtol_def c Let_def)
qed

lemma chunk_steps:
  "code_in [(48, 57), (97, 102)] c \<Longrightarrow> httpclient_step 1 c = Some ([Cl_mark], 2)"
  "code_in [(48, 57), (97, 102)] c \<Longrightarrow> httpclient_step 2 c = Some ([], 2)"
  unfolding httpclient_step_def by (erule code_step_by, simp add: httpclient_table del: One_nat_def)+

lemma chunk_end: "httpclient_step 2 (CHR 0x0D) = Some ([Cl_chunk_size], 3)"
  by (simp add: httpclient_step_def code_step_def httpclient_table)

lemma execute_chunk:
  assumes "n < 2 ^ 31" and "length (print_nat 16 n @ crlf @ b) < 2 ^ 31"
  shows "\<exists>P'. HttpResponseParser_execute NUL (print_nat 16 n @ crlf @ b) True P = Inr (length (print_nat 16 n) + 2, b, P')
     \<and> HttpResponseParser_isFinished P' = 1 \<and> (HttpResponseParser_hasError P' \<longleftrightarrow> sp_error P \<noteq> 0) \<and> sp_error P' = sp_error P
     \<and> hc_content_len (sp_parser P') = int n \<and> hc_chunks_done (sp_parser P') = (n = 0) \<and> sp_data P' = sp_data P"
proof -
  let ?d = "print_nat 16 n" and ?B = "print_nat 16 n @ crlf @ b" and ?N = "set_client httpclient_parser_init P"
  let ?L = "length (print_nat 16 n)"
  let ?P0 = "set_client (\<lambda>h. h\<lparr>hc_nread := 0, hc_mark := 0, hc_field_len := 0, hc_field_start := 0\<rparr>) ?N"
  have hex: "list_all (code_in [(48, 57), (97, 102)]) ?d"
    using set_print_nat [of 16 n] by (auto simp: list_all_iff code_in_def digit_char_def)
  have "client_parses [] ?d (crlf @ b) 1 ?P0 (\<lambda>s' P'. s' = 2 \<and> P' = set_client (hc_mark_update (\<lambda>_. length [])) ?P0)"
    using parses_marked [where C = "code_in [(48, 57), (97, 102)]" and s = 1 and m = 2 and pre = "[]" and P = ?P0 and post = "crlf @ b",
        OF chunk_steps hex print_nat_ne] by (simp del: One_nat_def)
  then obtain evs P1 where run: "passes httpclient_step client_fbreak 1 0 ?d evs 2" "client_acts ?B evs ?P0 = Inr P1"
      "P1 = set_client (hc_mark_update (\<lambda>_. 0)) ?P0"
    unfolding parses_def by (auto simp del: One_nat_def)
  have "\<not> list_ex client_fbreak [Cl_chunk_size]" by (simp add: client_fbreak_def)
  from passes_append [OF run(1)] passes_step [of httpclient_step, OF chunk_end this]
  have "passes httpclient_step client_fbreak 1 0 (?d @ [CHR 0x0D]) (evs @ [(Cl_chunk_size, ?L)]) 3" by simp
  from passes_stop [OF this status_steps(16), of b]
  have r: "code_run httpclient_step client_fbreak 1 0 ?B = ((evs @ [(Cl_chunk_size, ?L)]) @ [(Cl_done, ?L + 1)], 120, ?L + 2)"
    by (simp add: crlf_def client_fbreak_def)
  have "int32 (strtol 16 ?B) = int n"
    using strtol_hex [of n "crlf @ b"] assms(1) int32_id [of "int n"] by (simp add: crlf_def digit_val_def)
  then obtain P2 where P2: "client_acts ?B ((evs @ [(Cl_chunk_size, ?L)]) @ [(Cl_done, ?L + 1)]) ?P0 = Inr P2"
      "sp_data P2 = sp_data P" "sp_error P2 = sp_error P" "hc_content_len (sp_parser P2) = int n" "hc_chunks_done (sp_parser P2) = (n = 0)"
    using run(2,3) by (simp add: run_acts_append)
  have "hc_cs (sp_parser ?N) = 1" "hc_body_start (sp_parser ?N) \<le> length ?B" "?B \<noteq> []"
    by (simp_all add: httpclient_parser_init_def httpclient_parser_start_def crlf_def)
  from client_execute_run [where P = ?N, unfolded this(1), OF r this(3) P2(1) this(2) assms(2)]
  show ?thesis
    using P2(2-5)
    by (simp add: HttpResponseParser_execute_def HttpResponseParser_isFinished_def
        httpclient_parser_finish_def httpclient_parser_has_error_def httpclient_parser_is_finished_def httpclient_parser_error_def
        httpclient_parser_first_final_def HttpResponseParser_hasError_def crlf_def)
qed

end
