(* ===== verification/Uri_Machine.thy ===== *)
theory Uri_Machine
  imports Ragel_Machine
begin

text \<open>
  The URI parser that Ragel generated into \<^verbatim>\<open>src/src/uri.cpp\<close>, block by block in the order of the file: its
  560 states and 78 action blocks, the actions at the end of the input, and the lookups of the blocks that
  an ordinary URI goes through.
\<close>

section \<open>Actions\<close>

text \<open>The actions of \<^verbatim>\<open>uri.rl\<close>; \<^verbatim>\<open>marku\<close> and \<^verbatim>\<open>markh\<close> are the same.\<close>

datatype uri_action =
    Uri_mark | Save_scheme | Save_port | Save_userinfo | Save_host | Save_path | Save_query | Save_fragment

section \<open>Code\<close>

definition uri_code_1 :: "uri_action block list" where
  "uri_code_1 = [
    State 451 [(33, 33, False, St 452), (35, 35, False, St 453), (36, 36, False, St 452),
      (37, 37, False, St 3), (38, 46, False, St 452), (47, 47, False, St 458),
      (48, 57, False, St 452), (59, 59, False, St 452), (61, 61, False, St 452),
      (63, 63, False, St 456), (64, 64, False, St 452), (65, 90, False, Tr 461),
      (95, 95, False, St 452), (97, 122, False, Tr 461), (126, 126, False, St 452),
      (128, 255, False, St 452)],
    State 452 [(33, 33, False, St 452), (35, 35, False, St 453), (36, 36, False, St 452),
      (37, 37, False, St 3), (38, 46, False, St 452), (47, 47, False, St 455),
      (48, 57, False, St 452), (59, 59, False, St 452), (61, 61, False, St 452),
      (63, 63, False, St 456), (64, 90, False, St 452), (95, 95, False, St 452),
      (97, 122, False, St 452), (126, 126, False, St 452), (128, 255, False, St 452)],
    Trans 467 [Uri_mark, Save_query] 453,
    Trans 469 [Save_query] 453,
    Trans 474 [Uri_mark, Save_host] 453,
    Trans 485 [Save_host] 453,
    Trans 489 [Uri_mark, Save_port] 453,
    Trans 493 [Save_port] 453,
    Trans 548 [Uri_mark, Save_host, Save_path] 453,
    Trans 559 [Save_host, Uri_mark, Save_path] 453]"

definition uri_code_2 :: "uri_action block list" where
  "uri_code_2 = [
    Trans 563 [Save_path] 453,
    Trans 566 [Uri_mark, Save_port, Save_path] 453,
    Trans 570 [Save_port, Uri_mark, Save_path] 453,
    State 453 [(33, 33, False, Tr 462), (36, 36, False, Tr 462), (37, 37, False, Tr 463),
      (38, 59, False, Tr 462), (61, 61, False, Tr 462), (63, 90, False, Tr 462),
      (95, 95, False, Tr 462), (97, 122, False, Tr 462), (126, 126, False, Tr 462),
      (128, 255, False, Tr 462)],
    Trans 462 [Uri_mark] 454,
    State 454 [(33, 33, False, St 454), (36, 36, False, St 454), (37, 37, False, St 1),
      (38, 59, False, St 454), (61, 61, False, St 454), (63, 90, False, St 454),
      (95, 95, False, St 454), (97, 122, False, St 454), (126, 126, False, St 454),
      (128, 255, False, St 454)],
    Trans 463 [Uri_mark] 1,
    State 1 [(48, 57, False, St 2), (65, 70, False, St 2), (97, 102, False, St 2)],
    State 2 [(48, 57, False, St 454), (65, 70, False, St 454), (97, 102, False, St 454)],
    State 3 [(48, 57, False, St 4), (65, 70, False, St 4), (97, 102, False, St 4)]]"

definition uri_code_3 :: "uri_action block list" where
  "uri_code_3 = [
    State 4 [(48, 57, False, St 452), (65, 70, False, St 452), (97, 102, False, St 452)],
    Trans 476 [Uri_mark, Save_host] 455,
    Trans 486 [Save_host] 455,
    Trans 490 [Uri_mark, Save_port] 455,
    Trans 494 [Save_port] 455,
    State 455 [(33, 33, False, St 455), (35, 35, False, St 453), (36, 36, False, St 455),
      (37, 37, False, St 5), (38, 59, False, St 455), (61, 61, False, St 455),
      (63, 63, False, St 456), (64, 90, False, St 455), (95, 95, False, St 455),
      (97, 122, False, St 455), (126, 126, False, St 455), (128, 255, False, St 455)],
    State 5 [(48, 57, False, St 6), (65, 70, False, St 6), (97, 102, False, St 6)],
    State 6 [(48, 57, False, St 455), (65, 70, False, St 455), (97, 102, False, St 455)],
    Trans 482 [Uri_mark, Save_host] 456,
    Trans 488 [Save_host] 456,
    Trans 492 [Uri_mark, Save_port] 456,
    Trans 496 [Save_port] 456]"

definition uri_code_4 :: "uri_action block list" where
  "uri_code_4 = [
    Trans 556 [Uri_mark, Save_host, Save_path] 456,
    Trans 562 [Save_host, Uri_mark, Save_path] 456,
    Trans 565 [Save_path] 456,
    Trans 569 [Uri_mark, Save_port, Save_path] 456,
    Trans 573 [Save_port, Uri_mark, Save_path] 456,
    State 456 [(33, 33, False, Tr 466), (35, 35, False, Tr 467), (36, 36, False, Tr 466),
      (37, 37, False, Tr 468), (38, 59, False, Tr 466), (61, 61, False, Tr 466),
      (63, 90, False, Tr 466), (95, 95, False, Tr 466), (97, 122, False, Tr 466),
      (126, 126, False, Tr 466), (128, 255, False, Tr 466)],
    Trans 466 [Uri_mark] 457,
    State 457 [(33, 33, False, St 457), (35, 35, False, Tr 469), (36, 36, False, St 457),
      (37, 37, False, St 7), (38, 59, False, St 457), (61, 61, False, St 457),
      (63, 90, False, St 457), (95, 95, False, St 457), (97, 122, False, St 457),
      (126, 126, False, St 457), (128, 255, False, St 457)],
    Trans 468 [Uri_mark] 7,
    State 7 [(48, 57, False, St 8), (65, 70, False, St 8), (97, 102, False, St 8)]]"

definition uri_code_5 :: "uri_action block list" where
  "uri_code_5 = [
    State 8 [(48, 57, False, St 457), (65, 70, False, St 457), (97, 102, False, St 457)],
    State 458 [(33, 33, False, St 455), (35, 35, False, St 453), (36, 36, False, St 455),
      (37, 37, False, St 5), (38, 46, False, St 455), (47, 47, False, St 459),
      (48, 59, False, St 455), (61, 61, False, St 455), (63, 63, False, St 456),
      (64, 90, False, St 455), (95, 95, False, St 455), (97, 122, False, St 455),
      (126, 126, False, St 455), (128, 255, False, St 455)],
    State 459 [(2, 2, False, Tr 472), (33, 33, False, Tr 473), (35, 35, False, Tr 474),
      (36, 36, False, Tr 473), (37, 37, False, Tr 475), (38, 46, False, Tr 473),
      (47, 47, False, Tr 476), (48, 48, False, Tr 477), (49, 49, False, Tr 478),
      (50, 50, False, Tr 479), (51, 57, False, Tr 480), (58, 58, False, Tr 481),
      (59, 59, False, Tr 473), (61, 61, False, Tr 473), (63, 63, False, Tr 482),
      (64, 64, False, Tr 483), (65, 90, False, Tr 473), (91, 91, False, Tr 484),
      (95, 95, False, Tr 473), (97, 122, False, Tr 473), (126, 126, False, Tr 473)],
    Trans 472 [Uri_mark] 9,
    State 9 [(48, 52, False, St 10)],
    State 10 [(48, 57, False, St 11)],
    State 11 [(46, 46, False, St 12)],
    State 12 [(2, 2, False, St 13), (48, 48, False, St 15), (49, 49, False, St 27),
      (50, 50, False, St 29), (51, 57, False, St 28)],
    State 13 [(48, 52, False, St 14)],
    State 14 [(48, 57, False, St 15)],
    State 15 [(46, 46, False, St 16)],
    State 16 [(2, 2, False, St 17), (48, 48, False, St 19), (49, 49, False, St 23),
      (50, 50, False, St 25), (51, 57, False, St 24)],
    State 17 [(48, 52, False, St 18)]]"

definition uri_code_6 :: "uri_action block list" where
  "uri_code_6 = [
    State 18 [(48, 57, False, St 19)],
    State 19 [(46, 46, False, St 20)],
    State 20 [(2, 2, False, St 21), (48, 48, False, St 460), (49, 49, False, St 463),
      (50, 50, False, St 465), (51, 57, False, St 464)],
    State 21 [(48, 52, False, St 22)],
    State 22 [(48, 57, False, St 460)],
    State 460 [(35, 35, False, Tr 485), (47, 47, False, Tr 486), (58, 58, False, Tr 487),
      (63, 63, False, Tr 488)],
    Trans 507 [Uri_mark, Save_host] 461,
    Trans 487 [Save_host] 461,
    State 461 [(35, 35, False, Tr 489), (47, 47, False, Tr 490), (48, 57, False, Tr 491),
      (63, 63, False, Tr 492)],
    Trans 491 [Uri_mark] 462,
    State 462 [(35, 35, False, Tr 493), (47, 47, False, Tr 494), (48, 57, False, St 462),
      (63, 63, False, Tr 496)],
    State 463 [(35, 35, False, Tr 485), (47, 47, False, Tr 486), (48, 57, False, St 464),
      (58, 58, False, Tr 487), (63, 63, False, Tr 488)],
    State 464 [(35, 35, False, Tr 485), (47, 47, False, Tr 486), (48, 57, False, St 460),
      (58, 58, False, Tr 487), (63, 63, False, Tr 488)],
    State 465 [(35, 35, False, Tr 485), (47, 47, False, Tr 486), (48, 52, False, St 460),
      (53, 53, False, St 466), (54, 57, False, St 460), (58, 58, False, Tr 487),
      (63, 63, False, Tr 488)]]"

definition uri_code_7 :: "uri_action block list" where
  "uri_code_7 = [
    State 466 [(35, 35, False, Tr 485), (47, 47, False, Tr 486), (48, 53, False, St 460),
      (58, 58, False, Tr 487), (63, 63, False, Tr 488)],
    State 23 [(46, 46, False, St 20), (48, 57, False, St 24)],
    State 24 [(46, 46, False, St 20), (48, 57, False, St 19)],
    State 25 [(46, 46, False, St 20), (48, 52, False, St 19), (53, 53, False, St 26),
      (54, 57, False, St 19)],
    State 26 [(46, 46, False, St 20), (48, 53, False, St 19)],
    State 27 [(46, 46, False, St 16), (48, 57, False, St 28)],
    State 28 [(46, 46, False, St 16), (48, 57, False, St 15)],
    State 29 [(46, 46, False, St 16), (48, 52, False, St 15), (53, 53, False, St 30),
      (54, 57, False, St 15)],
    State 30 [(46, 46, False, St 16), (48, 53, False, St 15)],
    Trans 473 [Uri_mark] 467,
    State 467 [(33, 33, False, St 467), (35, 35, False, Tr 485), (36, 36, False, St 467),
      (37, 37, False, St 31), (38, 46, False, St 467), (47, 47, False, Tr 486),
      (48, 57, False, St 467), (58, 58, False, Tr 499), (59, 59, False, St 467),
      (61, 61, False, St 467), (63, 63, False, Tr 488), (64, 64, False, Tr 38),
      (65, 90, False, St 467), (95, 95, False, St 467), (97, 122, False, St 467),
      (126, 126, False, St 467)],
    Trans 475 [Uri_mark] 31,
    State 31 [(48, 57, False, St 32), (65, 70, False, St 32), (97, 102, False, St 32)],
    State 32 [(48, 57, False, St 467), (65, 70, False, St 467), (97, 102, False, St 467)]]"

definition uri_code_8 :: "uri_action block list" where
  "uri_code_8 = [
    Trans 481 [Uri_mark, Save_host] 468,
    Trans 499 [Save_host] 468,
    State 468 [(33, 33, False, St 33), (35, 35, False, Tr 489), (36, 36, False, St 33),
      (37, 37, False, St 34), (38, 46, False, St 33), (47, 47, False, Tr 490),
      (48, 57, False, Tr 500), (58, 59, False, St 33), (61, 61, False, St 33),
      (63, 63, False, Tr 492), (64, 64, False, Tr 38), (65, 90, False, St 33),
      (95, 95, False, St 33), (97, 122, False, St 33), (126, 126, False, St 33)],
    State 33 [(33, 33, False, St 33), (36, 36, False, St 33), (37, 37, False, St 34),
      (38, 46, False, St 33), (48, 59, False, St 33), (61, 61, False, St 33),
      (64, 64, False, Tr 38), (65, 90, False, St 33), (95, 95, False, St 33),
      (97, 122, False, St 33), (126, 126, False, St 33)],
    State 34 [(48, 57, False, St 35), (65, 70, False, St 35), (97, 102, False, St 35)],
    State 35 [(48, 57, False, St 33), (65, 70, False, St 33), (97, 102, False, St 33)],
    Trans 38 [Save_userinfo] 469,
    Trans 483 [Uri_mark, Save_userinfo] 469]"

definition uri_code_9 :: "uri_action block list" where
  "uri_code_9 = [
    State 469 [(2, 2, False, Tr 472), (33, 33, False, Tr 501), (35, 35, False, Tr 474),
      (36, 36, False, Tr 501), (37, 37, False, Tr 502), (38, 46, False, Tr 501),
      (47, 47, False, Tr 476), (48, 48, False, Tr 503), (49, 49, False, Tr 504),
      (50, 50, False, Tr 505), (51, 57, False, Tr 506), (58, 58, False, Tr 507),
      (59, 59, False, Tr 501), (61, 61, False, Tr 501), (63, 63, False, Tr 482),
      (65, 90, False, Tr 501), (91, 91, False, Tr 484), (95, 95, False, Tr 501),
      (97, 122, False, Tr 501), (126, 126, False, Tr 501)],
    Trans 501 [Uri_mark] 470,
    State 470 [(33, 33, False, St 470), (35, 35, False, Tr 485), (36, 36, False, St 470),
      (37, 37, False, St 36), (38, 46, False, St 470), (47, 47, False, Tr 486),
      (48, 57, False, St 470), (58, 58, False, Tr 487), (59, 59, False, St 470),
      (61, 61, False, St 470), (63, 63, False, Tr 488), (65, 90, False, St 470),
      (95, 95, False, St 470), (97, 122, False, St 470), (126, 126, False, St 470)],
    Trans 502 [Uri_mark] 36,
    State 36 [(48, 57, False, St 37), (65, 70, False, St 37), (97, 102, False, St 37)],
    State 37 [(48, 57, False, St 470), (65, 70, False, St 470), (97, 102, False, St 470)],
    Trans 503 [Uri_mark] 471,
    State 471 [(33, 33, False, St 470), (35, 35, False, Tr 485), (36, 36, False, St 470),
      (37, 37, False, St 36), (38, 45, False, St 470), (46, 46, False, St 472),
      (47, 47, False, Tr 486), (48, 57, False, St 470), (58, 58, False, Tr 487),
      (59, 59, False, St 470), (61, 61, False, St 470), (63, 63, False, Tr 488),
      (65, 90, False, St 470), (95, 95, False, St 470), (97, 122, False, St 470),
      (126, 126, False, St 470)]]"

definition uri_code_10 :: "uri_action block list" where
  "uri_code_10 = [
    State 472 [(2, 2, False, St 13), (33, 33, False, St 470), (35, 35, False, Tr 485),
      (36, 36, False, St 470), (37, 37, False, St 36), (38, 46, False, St 470),
      (47, 47, False, Tr 486), (48, 48, False, St 473), (49, 49, False, St 481),
      (50, 50, False, St 483), (51, 57, False, St 482), (58, 58, False, Tr 487),
      (59, 59, False, St 470), (61, 61, False, St 470), (63, 63, False, Tr 488),
      (65, 90, False, St 470), (95, 95, False, St 470), (97, 122, False, St 470),
      (126, 126, False, St 470)],
    State 473 [(33, 33, False, St 470), (35, 35, False, Tr 485), (36, 36, False, St 470),
      (37, 37, False, St 36), (38, 45, False, St 470), (46, 46, False, St 474),
      (47, 47, False, Tr 486), (48, 57, False, St 470), (58, 58, False, Tr 487),
      (59, 59, False, St 470), (61, 61, False, St 470), (63, 63, False, Tr 488),
      (65, 90, False, St 470), (95, 95, False, St 470), (97, 122, False, St 470),
      (126, 126, False, St 470)],
    State 474 [(2, 2, False, St 17), (33, 33, False, St 470), (35, 35, False, Tr 485),
      (36, 36, False, St 470), (37, 37, False, St 36), (38, 46, False, St 470),
      (47, 47, False, Tr 486), (48, 48, False, St 475), (49, 49, False, St 477),
      (50, 50, False, St 479), (51, 57, False, St 478), (58, 58, False, Tr 487),
      (59, 59, False, St 470), (61, 61, False, St 470), (63, 63, False, Tr 488),
      (65, 90, False, St 470), (95, 95, False, St 470), (97, 122, False, St 470),
      (126, 126, False, St 470)],
    State 475 [(33, 33, False, St 470), (35, 35, False, Tr 485), (36, 36, False, St 470),
      (37, 37, False, St 36), (38, 45, False, St 470), (46, 46, False, St 476),
      (47, 47, False, Tr 486), (48, 57, False, St 470), (58, 58, False, Tr 487),
      (59, 59, False, St 470), (61, 61, False, St 470), (63, 63, False, Tr 488),
      (65, 90, False, St 470), (95, 95, False, St 470), (97, 122, False, St 470),
      (126, 126, False, St 470)],
    State 476 [(2, 2, False, St 21), (33, 33, False, St 470), (35, 35, False, Tr 485),
      (36, 36, False, St 470), (37, 37, False, St 36), (38, 46, False, St 470),
      (47, 47, False, Tr 486), (48, 57, False, St 470), (58, 58, False, Tr 487),
      (59, 59, False, St 470), (61, 61, False, St 470), (63, 63, False, Tr 488),
      (65, 90, False, St 470), (95, 95, False, St 470), (97, 122, False, St 470),
      (126, 126, False, St 470)]]"

definition uri_code_11 :: "uri_action block list" where
  "uri_code_11 = [
    State 477 [(33, 33, False, St 470), (35, 35, False, Tr 485), (36, 36, False, St 470),
      (37, 37, False, St 36), (38, 45, False, St 470), (46, 46, False, St 476),
      (47, 47, False, Tr 486), (48, 57, False, St 478), (58, 58, False, Tr 487),
      (59, 59, False, St 470), (61, 61, False, St 470), (63, 63, False, Tr 488),
      (65, 90, False, St 470), (95, 95, False, St 470), (97, 122, False, St 470),
      (126, 126, False, St 470)],
    State 478 [(33, 33, False, St 470), (35, 35, False, Tr 485), (36, 36, False, St 470),
      (37, 37, False, St 36), (38, 45, False, St 470), (46, 46, False, St 476),
      (47, 47, False, Tr 486), (48, 57, False, St 475), (58, 58, False, Tr 487),
      (59, 59, False, St 470), (61, 61, False, St 470), (63, 63, False, Tr 488),
      (65, 90, False, St 470), (95, 95, False, St 470), (97, 122, False, St 470),
      (126, 126, False, St 470)],
    State 479 [(33, 33, False, St 470), (35, 35, False, Tr 485), (36, 36, False, St 470),
      (37, 37, False, St 36), (38, 45, False, St 470), (46, 46, False, St 476),
      (47, 47, False, Tr 486), (48, 52, False, St 475), (53, 53, False, St 480),
      (54, 57, False, St 475), (58, 58, False, Tr 487), (59, 59, False, St 470),
      (61, 61, False, St 470), (63, 63, False, Tr 488), (65, 90, False, St 470),
      (95, 95, False, St 470), (97, 122, False, St 470), (126, 126, False, St 470)],
    State 480 [(33, 33, False, St 470), (35, 35, False, Tr 485), (36, 36, False, St 470),
      (37, 37, False, St 36), (38, 45, False, St 470), (46, 46, False, St 476),
      (47, 47, False, Tr 486), (48, 53, False, St 475), (54, 57, False, St 470),
      (58, 58, False, Tr 487), (59, 59, False, St 470), (61, 61, False, St 470),
      (63, 63, False, Tr 488), (65, 90, False, St 470), (95, 95, False, St 470),
      (97, 122, False, St 470), (126, 126, False, St 470)],
    State 481 [(33, 33, False, St 470), (35, 35, False, Tr 485), (36, 36, False, St 470),
      (37, 37, False, St 36), (38, 45, False, St 470), (46, 46, False, St 474),
      (47, 47, False, Tr 486), (48, 57, False, St 482), (58, 58, False, Tr 487),
      (59, 59, False, St 470), (61, 61, False, St 470), (63, 63, False, Tr 488),
      (65, 90, False, St 470), (95, 95, False, St 470), (97, 122, False, St 470),
      (126, 126, False, St 470)]]"

definition uri_code_12 :: "uri_action block list" where
  "uri_code_12 = [
    State 482 [(33, 33, False, St 470), (35, 35, False, Tr 485), (36, 36, False, St 470),
      (37, 37, False, St 36), (38, 45, False, St 470), (46, 46, False, St 474),
      (47, 47, False, Tr 486), (48, 57, False, St 473), (58, 58, False, Tr 487),
      (59, 59, False, St 470), (61, 61, False, St 470), (63, 63, False, Tr 488),
      (65, 90, False, St 470), (95, 95, False, St 470), (97, 122, False, St 470),
      (126, 126, False, St 470)],
    State 483 [(33, 33, False, St 470), (35, 35, False, Tr 485), (36, 36, False, St 470),
      (37, 37, False, St 36), (38, 45, False, St 470), (46, 46, False, St 474),
      (47, 47, False, Tr 486), (48, 52, False, St 473), (53, 53, False, St 484),
      (54, 57, False, St 473), (58, 58, False, Tr 487), (59, 59, False, St 470),
      (61, 61, False, St 470), (63, 63, False, Tr 488), (65, 90, False, St 470),
      (95, 95, False, St 470), (97, 122, False, St 470), (126, 126, False, St 470)],
    State 484 [(33, 33, False, St 470), (35, 35, False, Tr 485), (36, 36, False, St 470),
      (37, 37, False, St 36), (38, 45, False, St 470), (46, 46, False, St 474),
      (47, 47, False, Tr 486), (48, 53, False, St 473), (54, 57, False, St 470),
      (58, 58, False, Tr 487), (59, 59, False, St 470), (61, 61, False, St 470),
      (63, 63, False, Tr 488), (65, 90, False, St 470), (95, 95, False, St 470),
      (97, 122, False, St 470), (126, 126, False, St 470)],
    Trans 504 [Uri_mark] 485,
    State 485 [(33, 33, False, St 470), (35, 35, False, Tr 485), (36, 36, False, St 470),
      (37, 37, False, St 36), (38, 45, False, St 470), (46, 46, False, St 472),
      (47, 47, False, Tr 486), (48, 57, False, St 486), (58, 58, False, Tr 487),
      (59, 59, False, St 470), (61, 61, False, St 470), (63, 63, False, Tr 488),
      (65, 90, False, St 470), (95, 95, False, St 470), (97, 122, False, St 470),
      (126, 126, False, St 470)],
    Trans 506 [Uri_mark] 486]"

definition uri_code_13 :: "uri_action block list" where
  "uri_code_13 = [
    State 486 [(33, 33, False, St 470), (35, 35, False, Tr 485), (36, 36, False, St 470),
      (37, 37, False, St 36), (38, 45, False, St 470), (46, 46, False, St 472),
      (47, 47, False, Tr 486), (48, 57, False, St 471), (58, 58, False, Tr 487),
      (59, 59, False, St 470), (61, 61, False, St 470), (63, 63, False, Tr 488),
      (65, 90, False, St 470), (95, 95, False, St 470), (97, 122, False, St 470),
      (126, 126, False, St 470)],
    Trans 505 [Uri_mark] 487,
    State 487 [(33, 33, False, St 470), (35, 35, False, Tr 485), (36, 36, False, St 470),
      (37, 37, False, St 36), (38, 45, False, St 470), (46, 46, False, St 472),
      (47, 47, False, Tr 486), (48, 52, False, St 471), (53, 53, False, St 488),
      (54, 57, False, St 471), (58, 58, False, Tr 487), (59, 59, False, St 470),
      (61, 61, False, St 470), (63, 63, False, Tr 488), (65, 90, False, St 470),
      (95, 95, False, St 470), (97, 122, False, St 470), (126, 126, False, St 470)],
    State 488 [(33, 33, False, St 470), (35, 35, False, Tr 485), (36, 36, False, St 470),
      (37, 37, False, St 36), (38, 45, False, St 470), (46, 46, False, St 472),
      (47, 47, False, Tr 486), (48, 53, False, St 471), (54, 57, False, St 470),
      (58, 58, False, Tr 487), (59, 59, False, St 470), (61, 61, False, St 470),
      (63, 63, False, Tr 488), (65, 90, False, St 470), (95, 95, False, St 470),
      (97, 122, False, St 470), (126, 126, False, St 470)],
    Trans 484 [Uri_mark] 38,
    State 38 [(48, 57, False, St 39), (58, 58, False, St 146), (65, 70, False, St 39),
      (97, 102, False, St 39), (118, 118, False, St 225)],
    State 39 [(48, 57, False, St 40), (58, 58, False, St 43), (65, 70, False, St 40),
      (97, 102, False, St 40)],
    State 40 [(48, 57, False, St 41), (58, 58, False, St 43), (65, 70, False, St 41),
      (97, 102, False, St 41)]]"

definition uri_code_14 :: "uri_action block list" where
  "uri_code_14 = [
    State 41 [(48, 57, False, St 42), (58, 58, False, St 43), (65, 70, False, St 42),
      (97, 102, False, St 42)],
    State 42 [(58, 58, False, St 43)],
    State 43 [(48, 57, False, St 44), (58, 58, False, St 141), (65, 70, False, St 44),
      (97, 102, False, St 44)],
    State 44 [(48, 57, False, St 45), (58, 58, False, St 48), (65, 70, False, St 45),
      (97, 102, False, St 45)],
    State 45 [(48, 57, False, St 46), (58, 58, False, St 48), (65, 70, False, St 46),
      (97, 102, False, St 46)],
    State 46 [(48, 57, False, St 47), (58, 58, False, St 48), (65, 70, False, St 47),
      (97, 102, False, St 47)],
    State 47 [(58, 58, False, St 48)],
    State 48 [(48, 57, False, St 49), (58, 58, False, St 136), (65, 70, False, St 49),
      (97, 102, False, St 49)],
    State 49 [(48, 57, False, St 50), (58, 58, False, St 53), (65, 70, False, St 50),
      (97, 102, False, St 50)],
    State 50 [(48, 57, False, St 51), (58, 58, False, St 53), (65, 70, False, St 51),
      (97, 102, False, St 51)],
    State 51 [(48, 57, False, St 52), (58, 58, False, St 53), (65, 70, False, St 52),
      (97, 102, False, St 52)]]"

definition uri_code_15 :: "uri_action block list" where
  "uri_code_15 = [
    State 52 [(58, 58, False, St 53)],
    State 53 [(48, 57, False, St 54), (58, 58, False, St 131), (65, 70, False, St 54),
      (97, 102, False, St 54)],
    State 54 [(48, 57, False, St 55), (58, 58, False, St 58), (65, 70, False, St 55),
      (97, 102, False, St 55)],
    State 55 [(48, 57, False, St 56), (58, 58, False, St 58), (65, 70, False, St 56),
      (97, 102, False, St 56)],
    State 56 [(48, 57, False, St 57), (58, 58, False, St 58), (65, 70, False, St 57),
      (97, 102, False, St 57)],
    State 57 [(58, 58, False, St 58)],
    State 58 [(48, 57, False, St 59), (58, 58, False, St 126), (65, 70, False, St 59),
      (97, 102, False, St 59)],
    State 59 [(48, 57, False, St 60), (58, 58, False, St 63), (65, 70, False, St 60),
      (97, 102, False, St 60)],
    State 60 [(48, 57, False, St 61), (58, 58, False, St 63), (65, 70, False, St 61),
      (97, 102, False, St 61)],
    State 61 [(48, 57, False, St 62), (58, 58, False, St 63), (65, 70, False, St 62),
      (97, 102, False, St 62)],
    State 62 [(58, 58, False, St 63)]]"

definition uri_code_16 :: "uri_action block list" where
  "uri_code_16 = [
    State 63 [(48, 57, False, St 64), (58, 58, False, St 113), (65, 70, False, St 64),
      (97, 102, False, St 64)],
    State 64 [(48, 57, False, St 65), (58, 58, False, St 68), (65, 70, False, St 65),
      (97, 102, False, St 65)],
    State 65 [(48, 57, False, St 66), (58, 58, False, St 68), (65, 70, False, St 66),
      (97, 102, False, St 66)],
    State 66 [(48, 57, False, St 67), (58, 58, False, St 68), (65, 70, False, St 67),
      (97, 102, False, St 67)],
    State 67 [(58, 58, False, St 68)],
    State 68 [(2, 2, False, St 69), (48, 48, False, St 96), (49, 49, False, St 104),
      (50, 50, False, St 107), (51, 57, False, St 110), (58, 58, False, St 111),
      (65, 70, False, St 112), (97, 102, False, St 112)],
    State 69 [(48, 52, False, St 70)],
    State 70 [(48, 57, False, St 71)],
    State 71 [(46, 46, False, St 72)],
    State 72 [(2, 2, False, St 73), (48, 48, False, St 75), (49, 49, False, St 92),
      (50, 50, False, St 94), (51, 57, False, St 93)],
    State 73 [(48, 52, False, St 74)],
    State 74 [(48, 57, False, St 75)],
    State 75 [(46, 46, False, St 76)]]"

definition uri_code_17 :: "uri_action block list" where
  "uri_code_17 = [
    State 76 [(2, 2, False, St 77), (48, 48, False, St 79), (49, 49, False, St 88),
      (50, 50, False, St 90), (51, 57, False, St 89)],
    State 77 [(48, 52, False, St 78)],
    State 78 [(48, 57, False, St 79)],
    State 79 [(46, 46, False, St 80)],
    State 80 [(2, 2, False, St 81), (48, 48, False, St 83), (49, 49, False, St 84),
      (50, 50, False, St 86), (51, 57, False, St 85)],
    State 81 [(48, 52, False, St 82)],
    State 82 [(48, 57, False, St 83)],
    State 83 [(93, 93, False, St 460)],
    State 84 [(48, 57, False, St 85), (93, 93, False, St 460)],
    State 85 [(48, 57, False, St 83), (93, 93, False, St 460)],
    State 86 [(48, 52, False, St 83), (53, 53, False, St 87), (54, 57, False, St 83),
      (93, 93, False, St 460)],
    State 87 [(48, 53, False, St 83), (93, 93, False, St 460)],
    State 88 [(46, 46, False, St 80), (48, 57, False, St 89)],
    State 89 [(46, 46, False, St 80), (48, 57, False, St 79)],
    State 90 [(46, 46, False, St 80), (48, 52, False, St 79), (53, 53, False, St 91),
      (54, 57, False, St 79)],
    State 91 [(46, 46, False, St 80), (48, 53, False, St 79)],
    State 92 [(46, 46, False, St 76), (48, 57, False, St 93)]]"

definition uri_code_18 :: "uri_action block list" where
  "uri_code_18 = [
    State 93 [(46, 46, False, St 76), (48, 57, False, St 75)],
    State 94 [(46, 46, False, St 76), (48, 52, False, St 75), (53, 53, False, St 95),
      (54, 57, False, St 75)],
    State 95 [(46, 46, False, St 76), (48, 53, False, St 75)],
    State 96 [(46, 46, False, St 72), (48, 57, False, St 97), (58, 58, False, St 100),
      (65, 70, False, St 97), (97, 102, False, St 97)],
    State 97 [(48, 57, False, St 98), (58, 58, False, St 100), (65, 70, False, St 98),
      (97, 102, False, St 98)],
    State 98 [(48, 57, False, St 99), (58, 58, False, St 100), (65, 70, False, St 99),
      (97, 102, False, St 99)],
    State 99 [(58, 58, False, St 100)],
    State 100 [(48, 57, False, St 101), (58, 58, False, St 83), (65, 70, False, St 101),
      (97, 102, False, St 101)],
    State 101 [(48, 57, False, St 102), (65, 70, False, St 102), (93, 93, False, St 460),
      (97, 102, False, St 102)],
    State 102 [(48, 57, False, St 103), (65, 70, False, St 103), (93, 93, False, St 460),
      (97, 102, False, St 103)],
    State 103 [(48, 57, False, St 83), (65, 70, False, St 83), (93, 93, False, St 460),
      (97, 102, False, St 83)]]"

definition uri_code_19 :: "uri_action block list" where
  "uri_code_19 = [
    State 104 [(46, 46, False, St 72), (48, 57, False, St 105), (58, 58, False, St 100),
      (65, 70, False, St 97), (97, 102, False, St 97)],
    State 105 [(46, 46, False, St 72), (48, 57, False, St 106), (58, 58, False, St 100),
      (65, 70, False, St 98), (97, 102, False, St 98)],
    State 106 [(46, 46, False, St 72), (48, 57, False, St 99), (58, 58, False, St 100),
      (65, 70, False, St 99), (97, 102, False, St 99)],
    State 107 [(46, 46, False, St 72), (48, 52, False, St 108), (53, 53, False, St 109),
      (54, 57, False, St 108), (58, 58, False, St 100), (65, 70, False, St 97),
      (97, 102, False, St 97)],
    State 108 [(46, 46, False, St 72), (48, 57, False, St 98), (58, 58, False, St 100),
      (65, 70, False, St 98), (97, 102, False, St 98)],
    State 109 [(46, 46, False, St 72), (48, 53, False, St 106), (54, 57, False, St 98),
      (58, 58, False, St 100), (65, 70, False, St 98), (97, 102, False, St 98)],
    State 110 [(46, 46, False, St 72), (48, 57, False, St 108), (58, 58, False, St 100),
      (65, 70, False, St 97), (97, 102, False, St 97)],
    State 111 [(48, 57, False, St 101), (65, 70, False, St 101), (97, 102, False, St 101)],
    State 112 [(48, 57, False, St 97), (58, 58, False, St 100), (65, 70, False, St 97),
      (97, 102, False, St 97)]]"

definition uri_code_20 :: "uri_action block list" where
  "uri_code_20 = [
    State 113 [(2, 2, False, St 69), (48, 48, False, St 114), (49, 49, False, St 118),
      (50, 50, False, St 121), (51, 57, False, St 124), (65, 70, False, St 125),
      (97, 102, False, St 125)],
    State 114 [(46, 46, False, St 72), (48, 57, False, St 115), (58, 58, False, St 111),
      (65, 70, False, St 115), (97, 102, False, St 115)],
    State 115 [(48, 57, False, St 116), (58, 58, False, St 111), (65, 70, False, St 116),
      (97, 102, False, St 116)],
    State 116 [(48, 57, False, St 117), (58, 58, False, St 111), (65, 70, False, St 117),
      (97, 102, False, St 117)],
    State 117 [(58, 58, False, St 111)],
    State 118 [(46, 46, False, St 72), (48, 57, False, St 119), (58, 58, False, St 111),
      (65, 70, False, St 115), (97, 102, False, St 115)],
    State 119 [(46, 46, False, St 72), (48, 57, False, St 120), (58, 58, False, St 111),
      (65, 70, False, St 116), (97, 102, False, St 116)],
    State 120 [(46, 46, False, St 72), (48, 57, False, St 117), (58, 58, False, St 111),
      (65, 70, False, St 117), (97, 102, False, St 117)],
    State 121 [(46, 46, False, St 72), (48, 52, False, St 122), (53, 53, False, St 123),
      (54, 57, False, St 122), (58, 58, False, St 111), (65, 70, False, St 115),
      (97, 102, False, St 115)]]"

definition uri_code_21 :: "uri_action block list" where
  "uri_code_21 = [
    State 122 [(46, 46, False, St 72), (48, 57, False, St 116), (58, 58, False, St 111),
      (65, 70, False, St 116), (97, 102, False, St 116)],
    State 123 [(46, 46, False, St 72), (48, 53, False, St 120), (54, 57, False, St 116),
      (58, 58, False, St 111), (65, 70, False, St 116), (97, 102, False, St 116)],
    State 124 [(46, 46, False, St 72), (48, 57, False, St 122), (58, 58, False, St 111),
      (65, 70, False, St 115), (97, 102, False, St 115)],
    State 125 [(48, 57, False, St 115), (58, 58, False, St 111), (65, 70, False, St 115),
      (97, 102, False, St 115)],
    State 126 [(48, 57, False, St 127), (65, 70, False, St 127), (97, 102, False, St 127)],
    State 127 [(48, 57, False, St 128), (58, 58, False, St 113), (65, 70, False, St 128),
      (97, 102, False, St 128)],
    State 128 [(48, 57, False, St 129), (58, 58, False, St 113), (65, 70, False, St 129),
      (97, 102, False, St 129)],
    State 129 [(48, 57, False, St 130), (58, 58, False, St 113), (65, 70, False, St 130),
      (97, 102, False, St 130)],
    State 130 [(58, 58, False, St 113)],
    State 131 [(48, 57, False, St 132), (65, 70, False, St 132), (97, 102, False, St 132)]]"

definition uri_code_22 :: "uri_action block list" where
  "uri_code_22 = [
    State 132 [(48, 57, False, St 133), (58, 58, False, St 126), (65, 70, False, St 133),
      (97, 102, False, St 133)],
    State 133 [(48, 57, False, St 134), (58, 58, False, St 126), (65, 70, False, St 134),
      (97, 102, False, St 134)],
    State 134 [(48, 57, False, St 135), (58, 58, False, St 126), (65, 70, False, St 135),
      (97, 102, False, St 135)],
    State 135 [(58, 58, False, St 126)],
    State 136 [(48, 57, False, St 137), (65, 70, False, St 137), (97, 102, False, St 137)],
    State 137 [(48, 57, False, St 138), (58, 58, False, St 131), (65, 70, False, St 138),
      (97, 102, False, St 138)],
    State 138 [(48, 57, False, St 139), (58, 58, False, St 131), (65, 70, False, St 139),
      (97, 102, False, St 139)],
    State 139 [(48, 57, False, St 140), (58, 58, False, St 131), (65, 70, False, St 140),
      (97, 102, False, St 140)],
    State 140 [(58, 58, False, St 131)],
    State 141 [(48, 57, False, St 142), (65, 70, False, St 142), (97, 102, False, St 142)],
    State 142 [(48, 57, False, St 143), (58, 58, False, St 136), (65, 70, False, St 143),
      (97, 102, False, St 143)]]"

definition uri_code_23 :: "uri_action block list" where
  "uri_code_23 = [
    State 143 [(48, 57, False, St 144), (58, 58, False, St 136), (65, 70, False, St 144),
      (97, 102, False, St 144)],
    State 144 [(48, 57, False, St 145), (58, 58, False, St 136), (65, 70, False, St 145),
      (97, 102, False, St 145)],
    State 145 [(58, 58, False, St 136)],
    State 146 [(58, 58, False, St 147)],
    State 147 [(2, 2, False, St 69), (48, 48, False, St 148), (49, 49, False, St 217),
      (50, 50, False, St 220), (51, 57, False, St 223), (65, 70, False, St 224),
      (93, 93, False, St 460), (97, 102, False, St 224)],
    State 148 [(46, 46, False, St 72), (48, 57, False, St 149), (58, 58, False, St 152),
      (65, 70, False, St 149), (93, 93, False, St 460), (97, 102, False, St 149)],
    State 149 [(48, 57, False, St 150), (58, 58, False, St 152), (65, 70, False, St 150),
      (93, 93, False, St 460), (97, 102, False, St 150)],
    State 150 [(48, 57, False, St 151), (58, 58, False, St 152), (65, 70, False, St 151),
      (93, 93, False, St 460), (97, 102, False, St 151)],
    State 151 [(58, 58, False, St 152), (93, 93, False, St 460)],
    State 152 [(2, 2, False, St 69), (48, 48, False, St 153), (49, 49, False, St 209),
      (50, 50, False, St 212), (51, 57, False, St 215), (65, 70, False, St 216),
      (97, 102, False, St 216)]]"

definition uri_code_24 :: "uri_action block list" where
  "uri_code_24 = [
    State 153 [(46, 46, False, St 72), (48, 57, False, St 154), (58, 58, False, St 157),
      (65, 70, False, St 154), (93, 93, False, St 460), (97, 102, False, St 154)],
    State 154 [(48, 57, False, St 155), (58, 58, False, St 157), (65, 70, False, St 155),
      (93, 93, False, St 460), (97, 102, False, St 155)],
    State 155 [(48, 57, False, St 156), (58, 58, False, St 157), (65, 70, False, St 156),
      (93, 93, False, St 460), (97, 102, False, St 156)],
    State 156 [(58, 58, False, St 157), (93, 93, False, St 460)],
    State 157 [(2, 2, False, St 69), (48, 48, False, St 158), (49, 49, False, St 201),
      (50, 50, False, St 204), (51, 57, False, St 207), (65, 70, False, St 208),
      (97, 102, False, St 208)],
    State 158 [(46, 46, False, St 72), (48, 57, False, St 159), (58, 58, False, St 162),
      (65, 70, False, St 159), (93, 93, False, St 460), (97, 102, False, St 159)],
    State 159 [(48, 57, False, St 160), (58, 58, False, St 162), (65, 70, False, St 160),
      (93, 93, False, St 460), (97, 102, False, St 160)],
    State 160 [(48, 57, False, St 161), (58, 58, False, St 162), (65, 70, False, St 161),
      (93, 93, False, St 460), (97, 102, False, St 161)],
    State 161 [(58, 58, False, St 162), (93, 93, False, St 460)]]"

definition uri_code_25 :: "uri_action block list" where
  "uri_code_25 = [
    State 162 [(2, 2, False, St 69), (48, 48, False, St 163), (49, 49, False, St 193),
      (50, 50, False, St 196), (51, 57, False, St 199), (65, 70, False, St 200),
      (97, 102, False, St 200)],
    State 163 [(46, 46, False, St 72), (48, 57, False, St 164), (58, 58, False, St 167),
      (65, 70, False, St 164), (93, 93, False, St 460), (97, 102, False, St 164)],
    State 164 [(48, 57, False, St 165), (58, 58, False, St 167), (65, 70, False, St 165),
      (93, 93, False, St 460), (97, 102, False, St 165)],
    State 165 [(48, 57, False, St 166), (58, 58, False, St 167), (65, 70, False, St 166),
      (93, 93, False, St 460), (97, 102, False, St 166)],
    State 166 [(58, 58, False, St 167), (93, 93, False, St 460)],
    State 167 [(2, 2, False, St 69), (48, 48, False, St 168), (49, 49, False, St 185),
      (50, 50, False, St 188), (51, 57, False, St 191), (65, 70, False, St 192),
      (97, 102, False, St 192)],
    State 168 [(46, 46, False, St 72), (48, 57, False, St 169), (58, 58, False, St 172),
      (65, 70, False, St 169), (93, 93, False, St 460), (97, 102, False, St 169)],
    State 169 [(48, 57, False, St 170), (58, 58, False, St 172), (65, 70, False, St 170),
      (93, 93, False, St 460), (97, 102, False, St 170)],
    State 170 [(48, 57, False, St 171), (58, 58, False, St 172), (65, 70, False, St 171),
      (93, 93, False, St 460), (97, 102, False, St 171)]]"

definition uri_code_26 :: "uri_action block list" where
  "uri_code_26 = [
    State 171 [(58, 58, False, St 172), (93, 93, False, St 460)],
    State 172 [(2, 2, False, St 69), (48, 48, False, St 173), (49, 49, False, St 177),
      (50, 50, False, St 180), (51, 57, False, St 183), (65, 70, False, St 184),
      (97, 102, False, St 184)],
    State 173 [(46, 46, False, St 72), (48, 57, False, St 174), (58, 58, False, St 111),
      (65, 70, False, St 174), (93, 93, False, St 460), (97, 102, False, St 174)],
    State 174 [(48, 57, False, St 175), (58, 58, False, St 111), (65, 70, False, St 175),
      (93, 93, False, St 460), (97, 102, False, St 175)],
    State 175 [(48, 57, False, St 176), (58, 58, False, St 111), (65, 70, False, St 176),
      (93, 93, False, St 460), (97, 102, False, St 176)],
    State 176 [(58, 58, False, St 111), (93, 93, False, St 460)],
    State 177 [(46, 46, False, St 72), (48, 57, False, St 178), (58, 58, False, St 111),
      (65, 70, False, St 174), (93, 93, False, St 460), (97, 102, False, St 174)],
    State 178 [(46, 46, False, St 72), (48, 57, False, St 179), (58, 58, False, St 111),
      (65, 70, False, St 175), (93, 93, False, St 460), (97, 102, False, St 175)],
    State 179 [(46, 46, False, St 72), (48, 57, False, St 176), (58, 58, False, St 111),
      (65, 70, False, St 176), (93, 93, False, St 460), (97, 102, False, St 176)]]"

definition uri_code_27 :: "uri_action block list" where
  "uri_code_27 = [
    State 180 [(46, 46, False, St 72), (48, 52, False, St 181), (53, 53, False, St 182),
      (54, 57, False, St 181), (58, 58, False, St 111), (65, 70, False, St 174),
      (93, 93, False, St 460), (97, 102, False, St 174)],
    State 181 [(46, 46, False, St 72), (48, 57, False, St 175), (58, 58, False, St 111),
      (65, 70, False, St 175), (93, 93, False, St 460), (97, 102, False, St 175)],
    State 182 [(46, 46, False, St 72), (48, 53, False, St 179), (54, 57, False, St 175),
      (58, 58, False, St 111), (65, 70, False, St 175), (93, 93, False, St 460),
      (97, 102, False, St 175)],
    State 183 [(46, 46, False, St 72), (48, 57, False, St 181), (58, 58, False, St 111),
      (65, 70, False, St 174), (93, 93, False, St 460), (97, 102, False, St 174)],
    State 184 [(48, 57, False, St 174), (58, 58, False, St 111), (65, 70, False, St 174),
      (93, 93, False, St 460), (97, 102, False, St 174)],
    State 185 [(46, 46, False, St 72), (48, 57, False, St 186), (58, 58, False, St 172),
      (65, 70, False, St 169), (93, 93, False, St 460), (97, 102, False, St 169)],
    State 186 [(46, 46, False, St 72), (48, 57, False, St 187), (58, 58, False, St 172),
      (65, 70, False, St 170), (93, 93, False, St 460), (97, 102, False, St 170)],
    State 187 [(46, 46, False, St 72), (48, 57, False, St 171), (58, 58, False, St 172),
      (65, 70, False, St 171), (93, 93, False, St 460), (97, 102, False, St 171)]]"

definition uri_code_28 :: "uri_action block list" where
  "uri_code_28 = [
    State 188 [(46, 46, False, St 72), (48, 52, False, St 189), (53, 53, False, St 190),
      (54, 57, False, St 189), (58, 58, False, St 172), (65, 70, False, St 169),
      (93, 93, False, St 460), (97, 102, False, St 169)],
    State 189 [(46, 46, False, St 72), (48, 57, False, St 170), (58, 58, False, St 172),
      (65, 70, False, St 170), (93, 93, False, St 460), (97, 102, False, St 170)],
    State 190 [(46, 46, False, St 72), (48, 53, False, St 187), (54, 57, False, St 170),
      (58, 58, False, St 172), (65, 70, False, St 170), (93, 93, False, St 460),
      (97, 102, False, St 170)],
    State 191 [(46, 46, False, St 72), (48, 57, False, St 189), (58, 58, False, St 172),
      (65, 70, False, St 169), (93, 93, False, St 460), (97, 102, False, St 169)],
    State 192 [(48, 57, False, St 169), (58, 58, False, St 172), (65, 70, False, St 169),
      (93, 93, False, St 460), (97, 102, False, St 169)],
    State 193 [(46, 46, False, St 72), (48, 57, False, St 194), (58, 58, False, St 167),
      (65, 70, False, St 164), (93, 93, False, St 460), (97, 102, False, St 164)],
    State 194 [(46, 46, False, St 72), (48, 57, False, St 195), (58, 58, False, St 167),
      (65, 70, False, St 165), (93, 93, False, St 460), (97, 102, False, St 165)],
    State 195 [(46, 46, False, St 72), (48, 57, False, St 166), (58, 58, False, St 167),
      (65, 70, False, St 166), (93, 93, False, St 460), (97, 102, False, St 166)]]"

definition uri_code_29 :: "uri_action block list" where
  "uri_code_29 = [
    State 196 [(46, 46, False, St 72), (48, 52, False, St 197), (53, 53, False, St 198),
      (54, 57, False, St 197), (58, 58, False, St 167), (65, 70, False, St 164),
      (93, 93, False, St 460), (97, 102, False, St 164)],
    State 197 [(46, 46, False, St 72), (48, 57, False, St 165), (58, 58, False, St 167),
      (65, 70, False, St 165), (93, 93, False, St 460), (97, 102, False, St 165)],
    State 198 [(46, 46, False, St 72), (48, 53, False, St 195), (54, 57, False, St 165),
      (58, 58, False, St 167), (65, 70, False, St 165), (93, 93, False, St 460),
      (97, 102, False, St 165)],
    State 199 [(46, 46, False, St 72), (48, 57, False, St 197), (58, 58, False, St 167),
      (65, 70, False, St 164), (93, 93, False, St 460), (97, 102, False, St 164)],
    State 200 [(48, 57, False, St 164), (58, 58, False, St 167), (65, 70, False, St 164),
      (93, 93, False, St 460), (97, 102, False, St 164)],
    State 201 [(46, 46, False, St 72), (48, 57, False, St 202), (58, 58, False, St 162),
      (65, 70, False, St 159), (93, 93, False, St 460), (97, 102, False, St 159)],
    State 202 [(46, 46, False, St 72), (48, 57, False, St 203), (58, 58, False, St 162),
      (65, 70, False, St 160), (93, 93, False, St 460), (97, 102, False, St 160)],
    State 203 [(46, 46, False, St 72), (48, 57, False, St 161), (58, 58, False, St 162),
      (65, 70, False, St 161), (93, 93, False, St 460), (97, 102, False, St 161)]]"

definition uri_code_30 :: "uri_action block list" where
  "uri_code_30 = [
    State 204 [(46, 46, False, St 72), (48, 52, False, St 205), (53, 53, False, St 206),
      (54, 57, False, St 205), (58, 58, False, St 162), (65, 70, False, St 159),
      (93, 93, False, St 460), (97, 102, False, St 159)],
    State 205 [(46, 46, False, St 72), (48, 57, False, St 160), (58, 58, False, St 162),
      (65, 70, False, St 160), (93, 93, False, St 460), (97, 102, False, St 160)],
    State 206 [(46, 46, False, St 72), (48, 53, False, St 203), (54, 57, False, St 160),
      (58, 58, False, St 162), (65, 70, False, St 160), (93, 93, False, St 460),
      (97, 102, False, St 160)],
    State 207 [(46, 46, False, St 72), (48, 57, False, St 205), (58, 58, False, St 162),
      (65, 70, False, St 159), (93, 93, False, St 460), (97, 102, False, St 159)],
    State 208 [(48, 57, False, St 159), (58, 58, False, St 162), (65, 70, False, St 159),
      (93, 93, False, St 460), (97, 102, False, St 159)],
    State 209 [(46, 46, False, St 72), (48, 57, False, St 210), (58, 58, False, St 157),
      (65, 70, False, St 154), (93, 93, False, St 460), (97, 102, False, St 154)],
    State 210 [(46, 46, False, St 72), (48, 57, False, St 211), (58, 58, False, St 157),
      (65, 70, False, St 155), (93, 93, False, St 460), (97, 102, False, St 155)],
    State 211 [(46, 46, False, St 72), (48, 57, False, St 156), (58, 58, False, St 157),
      (65, 70, False, St 156), (93, 93, False, St 460), (97, 102, False, St 156)]]"

definition uri_code_31 :: "uri_action block list" where
  "uri_code_31 = [
    State 212 [(46, 46, False, St 72), (48, 52, False, St 213), (53, 53, False, St 214),
      (54, 57, False, St 213), (58, 58, False, St 157), (65, 70, False, St 154),
      (93, 93, False, St 460), (97, 102, False, St 154)],
    State 213 [(46, 46, False, St 72), (48, 57, False, St 155), (58, 58, False, St 157),
      (65, 70, False, St 155), (93, 93, False, St 460), (97, 102, False, St 155)],
    State 214 [(46, 46, False, St 72), (48, 53, False, St 211), (54, 57, False, St 155),
      (58, 58, False, St 157), (65, 70, False, St 155), (93, 93, False, St 460),
      (97, 102, False, St 155)],
    State 215 [(46, 46, False, St 72), (48, 57, False, St 213), (58, 58, False, St 157),
      (65, 70, False, St 154), (93, 93, False, St 460), (97, 102, False, St 154)],
    State 216 [(48, 57, False, St 154), (58, 58, False, St 157), (65, 70, False, St 154),
      (93, 93, False, St 460), (97, 102, False, St 154)],
    State 217 [(46, 46, False, St 72), (48, 57, False, St 218), (58, 58, False, St 152),
      (65, 70, False, St 149), (93, 93, False, St 460), (97, 102, False, St 149)],
    State 218 [(46, 46, False, St 72), (48, 57, False, St 219), (58, 58, False, St 152),
      (65, 70, False, St 150), (93, 93, False, St 460), (97, 102, False, St 150)],
    State 219 [(46, 46, False, St 72), (48, 57, False, St 151), (58, 58, False, St 152),
      (65, 70, False, St 151), (93, 93, False, St 460), (97, 102, False, St 151)]]"

definition uri_code_32 :: "uri_action block list" where
  "uri_code_32 = [
    State 220 [(46, 46, False, St 72), (48, 52, False, St 221), (53, 53, False, St 222),
      (54, 57, False, St 221), (58, 58, False, St 152), (65, 70, False, St 149),
      (93, 93, False, St 460), (97, 102, False, St 149)],
    State 221 [(46, 46, False, St 72), (48, 57, False, St 150), (58, 58, False, St 152),
      (65, 70, False, St 150), (93, 93, False, St 460), (97, 102, False, St 150)],
    State 222 [(46, 46, False, St 72), (48, 53, False, St 219), (54, 57, False, St 150),
      (58, 58, False, St 152), (65, 70, False, St 150), (93, 93, False, St 460),
      (97, 102, False, St 150)],
    State 223 [(46, 46, False, St 72), (48, 57, False, St 221), (58, 58, False, St 152),
      (65, 70, False, St 149), (93, 93, False, St 460), (97, 102, False, St 149)],
    State 224 [(48, 57, False, St 149), (58, 58, False, St 152), (65, 70, False, St 149),
      (93, 93, False, St 460), (97, 102, False, St 149)],
    State 225 [(48, 57, False, St 226), (65, 70, False, St 226), (97, 102, False, St 226)],
    State 226 [(46, 46, False, St 227), (48, 57, False, St 226), (65, 70, False, St 226),
      (97, 102, False, St 226)],
    State 227 [(33, 33, False, St 228), (36, 36, False, St 228), (38, 46, False, St 228),
      (48, 59, False, St 228), (61, 61, False, St 228), (65, 90, False, St 228),
      (95, 95, False, St 228), (97, 122, False, St 228), (126, 126, False, St 228)]]"

definition uri_code_33 :: "uri_action block list" where
  "uri_code_33 = [
    State 228 [(33, 33, False, St 228), (36, 36, False, St 228), (38, 46, False, St 228),
      (48, 59, False, St 228), (61, 61, False, St 228), (65, 90, False, St 228),
      (93, 93, False, St 460), (95, 95, False, St 228), (97, 122, False, St 228),
      (126, 126, False, St 228)],
    Trans 500 [Uri_mark] 489,
    State 489 [(33, 33, False, St 33), (35, 35, False, Tr 493), (36, 36, False, St 33),
      (37, 37, False, St 34), (38, 46, False, St 33), (47, 47, False, Tr 494),
      (48, 57, False, St 489), (58, 59, False, St 33), (61, 61, False, St 33),
      (63, 63, False, Tr 496), (64, 64, False, Tr 38), (65, 90, False, St 33),
      (95, 95, False, St 33), (97, 122, False, St 33), (126, 126, False, St 33)],
    Trans 477 [Uri_mark] 490,
    State 490 [(33, 33, False, St 467), (35, 35, False, Tr 485), (36, 36, False, St 467),
      (37, 37, False, St 31), (38, 45, False, St 467), (46, 46, False, St 491),
      (47, 47, False, Tr 486), (48, 57, False, St 467), (58, 58, False, Tr 499),
      (59, 59, False, St 467), (61, 61, False, St 467), (63, 63, False, Tr 488),
      (64, 64, False, Tr 38), (65, 90, False, St 467), (95, 95, False, St 467),
      (97, 122, False, St 467), (126, 126, False, St 467)],
    State 491 [(2, 2, False, St 13), (33, 33, False, St 467), (35, 35, False, Tr 485),
      (36, 36, False, St 467), (37, 37, False, St 31), (38, 46, False, St 467),
      (47, 47, False, Tr 486), (48, 48, False, St 492), (49, 49, False, St 500),
      (50, 50, False, St 502), (51, 57, False, St 501), (58, 58, False, Tr 499),
      (59, 59, False, St 467), (61, 61, False, St 467), (63, 63, False, Tr 488),
      (64, 64, False, Tr 38), (65, 90, False, St 467), (95, 95, False, St 467),
      (97, 122, False, St 467), (126, 126, False, St 467)],
    State 492 [(33, 33, False, St 467), (35, 35, False, Tr 485), (36, 36, False, St 467),
      (37, 37, False, St 31), (38, 45, False, St 467), (46, 46, False, St 493),
      (47, 47, False, Tr 486), (48, 57, False, St 467), (58, 58, False, Tr 499),
      (59, 59, False, St 467), (61, 61, False, St 467), (63, 63, False, Tr 488),
      (64, 64, False, Tr 38), (65, 90, False, St 467), (95, 95, False, St 467),
      (97, 122, False, St 467), (126, 126, False, St 467)]]"

definition uri_code_34 :: "uri_action block list" where
  "uri_code_34 = [
    State 493 [(2, 2, False, St 17), (33, 33, False, St 467), (35, 35, False, Tr 485),
      (36, 36, False, St 467), (37, 37, False, St 31), (38, 46, False, St 467),
      (47, 47, False, Tr 486), (48, 48, False, St 494), (49, 49, False, St 496),
      (50, 50, False, St 498), (51, 57, False, St 497), (58, 58, False, Tr 499),
      (59, 59, False, St 467), (61, 61, False, St 467), (63, 63, False, Tr 488),
      (64, 64, False, Tr 38), (65, 90, False, St 467), (95, 95, False, St 467),
      (97, 122, False, St 467), (126, 126, False, St 467)],
    State 494 [(33, 33, False, St 467), (35, 35, False, Tr 485), (36, 36, False, St 467),
      (37, 37, False, St 31), (38, 45, False, St 467), (46, 46, False, St 495),
      (47, 47, False, Tr 486), (48, 57, False, St 467), (58, 58, False, Tr 499),
      (59, 59, False, St 467), (61, 61, False, St 467), (63, 63, False, Tr 488),
      (64, 64, False, Tr 38), (65, 90, False, St 467), (95, 95, False, St 467),
      (97, 122, False, St 467), (126, 126, False, St 467)],
    State 495 [(2, 2, False, St 21), (33, 33, False, St 467), (35, 35, False, Tr 485),
      (36, 36, False, St 467), (37, 37, False, St 31), (38, 46, False, St 467),
      (47, 47, False, Tr 486), (48, 57, False, St 467), (58, 58, False, Tr 499),
      (59, 59, False, St 467), (61, 61, False, St 467), (63, 63, False, Tr 488),
      (64, 64, False, Tr 38), (65, 90, False, St 467), (95, 95, False, St 467),
      (97, 122, False, St 467), (126, 126, False, St 467)],
    State 496 [(33, 33, False, St 467), (35, 35, False, Tr 485), (36, 36, False, St 467),
      (37, 37, False, St 31), (38, 45, False, St 467), (46, 46, False, St 495),
      (47, 47, False, Tr 486), (48, 57, False, St 497), (58, 58, False, Tr 499),
      (59, 59, False, St 467), (61, 61, False, St 467), (63, 63, False, Tr 488),
      (64, 64, False, Tr 38), (65, 90, False, St 467), (95, 95, False, St 467),
      (97, 122, False, St 467), (126, 126, False, St 467)],
    State 497 [(33, 33, False, St 467), (35, 35, False, Tr 485), (36, 36, False, St 467),
      (37, 37, False, St 31), (38, 45, False, St 467), (46, 46, False, St 495),
      (47, 47, False, Tr 486), (48, 57, False, St 494), (58, 58, False, Tr 499),
      (59, 59, False, St 467), (61, 61, False, St 467), (63, 63, False, Tr 488),
      (64, 64, False, Tr 38), (65, 90, False, St 467), (95, 95, False, St 467),
      (97, 122, False, St 467), (126, 126, False, St 467)]]"

definition uri_code_35 :: "uri_action block list" where
  "uri_code_35 = [
    State 498 [(33, 33, False, St 467), (35, 35, False, Tr 485), (36, 36, False, St 467),
      (37, 37, False, St 31), (38, 45, False, St 467), (46, 46, False, St 495),
      (47, 47, False, Tr 486), (48, 52, False, St 494), (53, 53, False, St 499),
      (54, 57, False, St 494), (58, 58, False, Tr 499), (59, 59, False, St 467),
      (61, 61, False, St 467), (63, 63, False, Tr 488), (64, 64, False, Tr 38),
      (65, 90, False, St 467), (95, 95, False, St 467), (97, 122, False, St 467),
      (126, 126, False, St 467)],
    State 499 [(33, 33, False, St 467), (35, 35, False, Tr 485), (36, 36, False, St 467),
      (37, 37, False, St 31), (38, 45, False, St 467), (46, 46, False, St 495),
      (47, 47, False, Tr 486), (48, 53, False, St 494), (54, 57, False, St 467),
      (58, 58, False, Tr 499), (59, 59, False, St 467), (61, 61, False, St 467),
      (63, 63, False, Tr 488), (64, 64, False, Tr 38), (65, 90, False, St 467),
      (95, 95, False, St 467), (97, 122, False, St 467), (126, 126, False, St 467)],
    State 500 [(33, 33, False, St 467), (35, 35, False, Tr 485), (36, 36, False, St 467),
      (37, 37, False, St 31), (38, 45, False, St 467), (46, 46, False, St 493),
      (47, 47, False, Tr 486), (48, 57, False, St 501), (58, 58, False, Tr 499),
      (59, 59, False, St 467), (61, 61, False, St 467), (63, 63, False, Tr 488),
      (64, 64, False, Tr 38), (65, 90, False, St 467), (95, 95, False, St 467),
      (97, 122, False, St 467), (126, 126, False, St 467)],
    State 501 [(33, 33, False, St 467), (35, 35, False, Tr 485), (36, 36, False, St 467),
      (37, 37, False, St 31), (38, 45, False, St 467), (46, 46, False, St 493),
      (47, 47, False, Tr 486), (48, 57, False, St 492), (58, 58, False, Tr 499),
      (59, 59, False, St 467), (61, 61, False, St 467), (63, 63, False, Tr 488),
      (64, 64, False, Tr 38), (65, 90, False, St 467), (95, 95, False, St 467),
      (97, 122, False, St 467), (126, 126, False, St 467)]]"

definition uri_code_36 :: "uri_action block list" where
  "uri_code_36 = [
    State 502 [(33, 33, False, St 467), (35, 35, False, Tr 485), (36, 36, False, St 467),
      (37, 37, False, St 31), (38, 45, False, St 467), (46, 46, False, St 493),
      (47, 47, False, Tr 486), (48, 52, False, St 492), (53, 53, False, St 503),
      (54, 57, False, St 492), (58, 58, False, Tr 499), (59, 59, False, St 467),
      (61, 61, False, St 467), (63, 63, False, Tr 488), (64, 64, False, Tr 38),
      (65, 90, False, St 467), (95, 95, False, St 467), (97, 122, False, St 467),
      (126, 126, False, St 467)],
    State 503 [(33, 33, False, St 467), (35, 35, False, Tr 485), (36, 36, False, St 467),
      (37, 37, False, St 31), (38, 45, False, St 467), (46, 46, False, St 493),
      (47, 47, False, Tr 486), (48, 53, False, St 492), (54, 57, False, St 467),
      (58, 58, False, Tr 499), (59, 59, False, St 467), (61, 61, False, St 467),
      (63, 63, False, Tr 488), (64, 64, False, Tr 38), (65, 90, False, St 467),
      (95, 95, False, St 467), (97, 122, False, St 467), (126, 126, False, St 467)],
    Trans 478 [Uri_mark] 504,
    State 504 [(33, 33, False, St 467), (35, 35, False, Tr 485), (36, 36, False, St 467),
      (37, 37, False, St 31), (38, 45, False, St 467), (46, 46, False, St 491),
      (47, 47, False, Tr 486), (48, 57, False, St 505), (58, 58, False, Tr 499),
      (59, 59, False, St 467), (61, 61, False, St 467), (63, 63, False, Tr 488),
      (64, 64, False, Tr 38), (65, 90, False, St 467), (95, 95, False, St 467),
      (97, 122, False, St 467), (126, 126, False, St 467)],
    Trans 480 [Uri_mark] 505,
    State 505 [(33, 33, False, St 467), (35, 35, False, Tr 485), (36, 36, False, St 467),
      (37, 37, False, St 31), (38, 45, False, St 467), (46, 46, False, St 491),
      (47, 47, False, Tr 486), (48, 57, False, St 490), (58, 58, False, Tr 499),
      (59, 59, False, St 467), (61, 61, False, St 467), (63, 63, False, Tr 488),
      (64, 64, False, Tr 38), (65, 90, False, St 467), (95, 95, False, St 467),
      (97, 122, False, St 467), (126, 126, False, St 467)],
    Trans 479 [Uri_mark] 506]"

definition uri_code_37 :: "uri_action block list" where
  "uri_code_37 = [
    State 506 [(33, 33, False, St 467), (35, 35, False, Tr 485), (36, 36, False, St 467),
      (37, 37, False, St 31), (38, 45, False, St 467), (46, 46, False, St 491),
      (47, 47, False, Tr 486), (48, 52, False, St 490), (53, 53, False, St 507),
      (54, 57, False, St 490), (58, 58, False, Tr 499), (59, 59, False, St 467),
      (61, 61, False, St 467), (63, 63, False, Tr 488), (64, 64, False, Tr 38),
      (65, 90, False, St 467), (95, 95, False, St 467), (97, 122, False, St 467),
      (126, 126, False, St 467)],
    State 507 [(33, 33, False, St 467), (35, 35, False, Tr 485), (36, 36, False, St 467),
      (37, 37, False, St 31), (38, 45, False, St 467), (46, 46, False, St 491),
      (47, 47, False, Tr 486), (48, 53, False, St 490), (54, 57, False, St 467),
      (58, 58, False, Tr 499), (59, 59, False, St 467), (61, 61, False, St 467),
      (63, 63, False, Tr 488), (64, 64, False, Tr 38), (65, 90, False, St 467),
      (95, 95, False, St 467), (97, 122, False, St 467), (126, 126, False, St 467)],
    Trans 461 [Uri_mark] 508,
    State 508 [(33, 33, False, St 452), (35, 35, False, St 453), (36, 36, False, St 452),
      (37, 37, False, St 3), (38, 42, False, St 452), (43, 43, False, St 508),
      (44, 44, False, St 452), (45, 46, False, St 508), (47, 47, False, St 455),
      (48, 57, False, St 508), (58, 58, False, Tr 543), (59, 59, False, St 452),
      (61, 61, False, St 452), (63, 63, False, St 456), (64, 64, False, St 452),
      (65, 90, False, St 508), (95, 95, False, St 452), (97, 122, False, St 508),
      (126, 126, False, St 452), (128, 255, False, St 452)],
    Trans 543 [Save_scheme] 509,
    State 509 [(33, 33, False, St 455), (35, 35, False, St 453), (36, 36, False, St 455),
      (37, 37, False, St 5), (38, 46, False, St 455), (47, 47, False, St 510),
      (48, 59, False, St 455), (61, 61, False, St 455), (63, 63, False, St 456),
      (64, 90, False, St 455), (95, 95, False, St 455), (97, 122, False, St 455),
      (126, 126, False, St 455), (128, 255, False, St 455)]]"

definition uri_code_38 :: "uri_action block list" where
  "uri_code_38 = [
    State 510 [(33, 33, False, St 455), (35, 35, False, St 453), (36, 36, False, St 455),
      (37, 37, False, St 5), (38, 46, False, St 455), (47, 47, False, St 511),
      (48, 59, False, St 455), (61, 61, False, St 455), (63, 63, False, St 456),
      (64, 90, False, St 455), (95, 95, False, St 455), (97, 122, False, St 455),
      (126, 126, False, St 455), (128, 255, False, St 455)],
    State 511 [(2, 2, False, Tr 546), (33, 33, False, Tr 547), (35, 35, False, Tr 548),
      (36, 36, False, Tr 547), (37, 37, False, Tr 549), (38, 46, False, Tr 547),
      (47, 47, False, Tr 550), (48, 48, False, Tr 551), (49, 49, False, Tr 552),
      (50, 50, False, Tr 553), (51, 57, False, Tr 554), (58, 58, False, Tr 555),
      (59, 59, False, Tr 547), (61, 61, False, Tr 547), (63, 63, False, Tr 556),
      (64, 64, False, Tr 557), (65, 90, False, Tr 547), (91, 91, False, Tr 558),
      (95, 95, False, Tr 547), (97, 122, False, Tr 547), (126, 126, False, Tr 547)],
    Trans 546 [Uri_mark] 229,
    State 229 [(48, 52, False, St 230)],
    State 230 [(48, 57, False, St 231)],
    State 231 [(46, 46, False, St 232)],
    State 232 [(2, 2, False, St 233), (48, 48, False, St 235), (49, 49, False, St 249),
      (50, 50, False, St 251), (51, 57, False, St 250)],
    State 233 [(48, 52, False, St 234)],
    State 234 [(48, 57, False, St 235)],
    State 235 [(46, 46, False, St 236)],
    State 236 [(2, 2, False, St 237), (48, 48, False, St 239), (49, 49, False, St 245),
      (50, 50, False, St 247), (51, 57, False, St 246)],
    State 237 [(48, 52, False, St 238)],
    State 238 [(48, 57, False, St 239)],
    State 239 [(46, 46, False, St 240)]]"

definition uri_code_39 :: "uri_action block list" where
  "uri_code_39 = [
    State 240 [(2, 2, False, St 241), (48, 48, False, St 512), (49, 49, False, St 516),
      (50, 50, False, St 518), (51, 57, False, St 517)],
    State 241 [(48, 52, False, St 242)],
    State 242 [(48, 57, False, St 512)],
    State 512 [(35, 35, False, Tr 559), (47, 47, False, Tr 560), (58, 58, False, Tr 561),
      (63, 63, False, Tr 562)],
    Trans 550 [Uri_mark, Save_host] 513,
    Trans 567 [Uri_mark, Save_port] 513,
    Trans 560 [Save_host, Uri_mark] 513,
    Trans 571 [Save_port, Uri_mark] 513,
    State 513 [(33, 33, False, St 513), (35, 35, False, Tr 563), (36, 36, False, St 513),
      (37, 37, False, St 243), (38, 59, False, St 513), (61, 61, False, St 513),
      (63, 63, False, Tr 565), (64, 90, False, St 513), (95, 95, False, St 513),
      (97, 122, False, St 513), (126, 126, False, St 513), (128, 255, False, St 513)],
    State 243 [(48, 57, False, St 244), (65, 70, False, St 244), (97, 102, False, St 244)],
    State 244 [(48, 57, False, St 513), (65, 70, False, St 513), (97, 102, False, St 513)],
    Trans 584 [Uri_mark, Save_host] 514,
    Trans 561 [Save_host] 514]"

definition uri_code_40 :: "uri_action block list" where
  "uri_code_40 = [
    State 514 [(35, 35, False, Tr 566), (47, 47, False, Tr 567), (48, 57, False, Tr 568),
      (63, 63, False, Tr 569)],
    Trans 568 [Uri_mark] 515,
    State 515 [(35, 35, False, Tr 570), (47, 47, False, Tr 571), (48, 57, False, St 515),
      (63, 63, False, Tr 573)],
    State 516 [(35, 35, False, Tr 559), (47, 47, False, Tr 560), (48, 57, False, St 517),
      (58, 58, False, Tr 561), (63, 63, False, Tr 562)],
    State 517 [(35, 35, False, Tr 559), (47, 47, False, Tr 560), (48, 57, False, St 512),
      (58, 58, False, Tr 561), (63, 63, False, Tr 562)],
    State 518 [(35, 35, False, Tr 559), (47, 47, False, Tr 560), (48, 52, False, St 512),
      (53, 53, False, St 519), (54, 57, False, St 512), (58, 58, False, Tr 561),
      (63, 63, False, Tr 562)],
    State 519 [(35, 35, False, Tr 559), (47, 47, False, Tr 560), (48, 53, False, St 512),
      (58, 58, False, Tr 561), (63, 63, False, Tr 562)],
    State 245 [(46, 46, False, St 240), (48, 57, False, St 246)],
    State 246 [(46, 46, False, St 240), (48, 57, False, St 239)],
    State 247 [(46, 46, False, St 240), (48, 52, False, St 239), (53, 53, False, St 248),
      (54, 57, False, St 239)],
    State 248 [(46, 46, False, St 240), (48, 53, False, St 239)],
    State 249 [(46, 46, False, St 236), (48, 57, False, St 250)],
    State 250 [(46, 46, False, St 236), (48, 57, False, St 235)],
    State 251 [(46, 46, False, St 236), (48, 52, False, St 235), (53, 53, False, St 252),
      (54, 57, False, St 235)]]"

definition uri_code_41 :: "uri_action block list" where
  "uri_code_41 = [
    State 252 [(46, 46, False, St 236), (48, 53, False, St 235)],
    Trans 547 [Uri_mark] 520,
    State 520 [(33, 33, False, St 520), (35, 35, False, Tr 559), (36, 36, False, St 520),
      (37, 37, False, St 253), (38, 46, False, St 520), (47, 47, False, Tr 560),
      (48, 57, False, St 520), (58, 58, False, Tr 576), (59, 59, False, St 520),
      (61, 61, False, St 520), (63, 63, False, Tr 562), (64, 64, False, Tr 263),
      (65, 90, False, St 520), (95, 95, False, St 520), (97, 122, False, St 520),
      (126, 126, False, St 520)],
    Trans 549 [Uri_mark] 253,
    State 253 [(48, 57, False, St 254), (65, 70, False, St 254), (97, 102, False, St 254)],
    State 254 [(48, 57, False, St 520), (65, 70, False, St 520), (97, 102, False, St 520)],
    Trans 555 [Uri_mark, Save_host] 521,
    Trans 576 [Save_host] 521,
    State 521 [(33, 33, False, St 255), (35, 35, False, Tr 566), (36, 36, False, St 255),
      (37, 37, False, St 256), (38, 46, False, St 255), (47, 47, False, Tr 567),
      (48, 57, False, Tr 577), (58, 59, False, St 255), (61, 61, False, St 255),
      (63, 63, False, Tr 569), (64, 64, False, Tr 263), (65, 90, False, St 255),
      (95, 95, False, St 255), (97, 122, False, St 255), (126, 126, False, St 255)],
    State 255 [(33, 33, False, St 255), (36, 36, False, St 255), (37, 37, False, St 256),
      (38, 46, False, St 255), (48, 59, False, St 255), (61, 61, False, St 255),
      (64, 64, False, Tr 263), (65, 90, False, St 255), (95, 95, False, St 255),
      (97, 122, False, St 255), (126, 126, False, St 255)]]"

definition uri_code_42 :: "uri_action block list" where
  "uri_code_42 = [
    State 256 [(48, 57, False, St 257), (65, 70, False, St 257), (97, 102, False, St 257)],
    State 257 [(48, 57, False, St 255), (65, 70, False, St 255), (97, 102, False, St 255)],
    Trans 263 [Save_userinfo] 522,
    Trans 557 [Uri_mark, Save_userinfo] 522,
    State 522 [(2, 2, False, Tr 546), (33, 33, False, Tr 578), (35, 35, False, Tr 548),
      (36, 36, False, Tr 578), (37, 37, False, Tr 579), (38, 46, False, Tr 578),
      (47, 47, False, Tr 550), (48, 48, False, Tr 580), (49, 49, False, Tr 581),
      (50, 50, False, Tr 582), (51, 57, False, Tr 583), (58, 58, False, Tr 584),
      (59, 59, False, Tr 578), (61, 61, False, Tr 578), (63, 63, False, Tr 556),
      (65, 90, False, Tr 578), (91, 91, False, Tr 558), (95, 95, False, Tr 578),
      (97, 122, False, Tr 578), (126, 126, False, Tr 578)],
    Trans 578 [Uri_mark] 523,
    State 523 [(33, 33, False, St 523), (35, 35, False, Tr 559), (36, 36, False, St 523),
      (37, 37, False, St 258), (38, 46, False, St 523), (47, 47, False, Tr 560),
      (48, 57, False, St 523), (58, 58, False, Tr 561), (59, 59, False, St 523),
      (61, 61, False, St 523), (63, 63, False, Tr 562), (65, 90, False, St 523),
      (95, 95, False, St 523), (97, 122, False, St 523), (126, 126, False, St 523)],
    Trans 579 [Uri_mark] 258,
    State 258 [(48, 57, False, St 259), (65, 70, False, St 259), (97, 102, False, St 259)],
    State 259 [(48, 57, False, St 523), (65, 70, False, St 523), (97, 102, False, St 523)],
    Trans 580 [Uri_mark] 524]"

definition uri_code_43 :: "uri_action block list" where
  "uri_code_43 = [
    State 524 [(33, 33, False, St 523), (35, 35, False, Tr 559), (36, 36, False, St 523),
      (37, 37, False, St 258), (38, 45, False, St 523), (46, 46, False, St 525),
      (47, 47, False, Tr 560), (48, 57, False, St 523), (58, 58, False, Tr 561),
      (59, 59, False, St 523), (61, 61, False, St 523), (63, 63, False, Tr 562),
      (65, 90, False, St 523), (95, 95, False, St 523), (97, 122, False, St 523),
      (126, 126, False, St 523)],
    State 525 [(2, 2, False, St 233), (33, 33, False, St 523), (35, 35, False, Tr 559),
      (36, 36, False, St 523), (37, 37, False, St 258), (38, 46, False, St 523),
      (47, 47, False, Tr 560), (48, 48, False, St 526), (49, 49, False, St 534),
      (50, 50, False, St 536), (51, 57, False, St 535), (58, 58, False, Tr 561),
      (59, 59, False, St 523), (61, 61, False, St 523), (63, 63, False, Tr 562),
      (65, 90, False, St 523), (95, 95, False, St 523), (97, 122, False, St 523),
      (126, 126, False, St 523)],
    State 526 [(33, 33, False, St 523), (35, 35, False, Tr 559), (36, 36, False, St 523),
      (37, 37, False, St 258), (38, 45, False, St 523), (46, 46, False, St 527),
      (47, 47, False, Tr 560), (48, 57, False, St 523), (58, 58, False, Tr 561),
      (59, 59, False, St 523), (61, 61, False, St 523), (63, 63, False, Tr 562),
      (65, 90, False, St 523), (95, 95, False, St 523), (97, 122, False, St 523),
      (126, 126, False, St 523)],
    State 527 [(2, 2, False, St 237), (33, 33, False, St 523), (35, 35, False, Tr 559),
      (36, 36, False, St 523), (37, 37, False, St 258), (38, 46, False, St 523),
      (47, 47, False, Tr 560), (48, 48, False, St 528), (49, 49, False, St 530),
      (50, 50, False, St 532), (51, 57, False, St 531), (58, 58, False, Tr 561),
      (59, 59, False, St 523), (61, 61, False, St 523), (63, 63, False, Tr 562),
      (65, 90, False, St 523), (95, 95, False, St 523), (97, 122, False, St 523),
      (126, 126, False, St 523)],
    State 528 [(33, 33, False, St 523), (35, 35, False, Tr 559), (36, 36, False, St 523),
      (37, 37, False, St 258), (38, 45, False, St 523), (46, 46, False, St 529),
      (47, 47, False, Tr 560), (48, 57, False, St 523), (58, 58, False, Tr 561),
      (59, 59, False, St 523), (61, 61, False, St 523), (63, 63, False, Tr 562),
      (65, 90, False, St 523), (95, 95, False, St 523), (97, 122, False, St 523),
      (126, 126, False, St 523)]]"

definition uri_code_44 :: "uri_action block list" where
  "uri_code_44 = [
    State 529 [(2, 2, False, St 241), (33, 33, False, St 523), (35, 35, False, Tr 559),
      (36, 36, False, St 523), (37, 37, False, St 258), (38, 46, False, St 523),
      (47, 47, False, Tr 560), (48, 57, False, St 523), (58, 58, False, Tr 561),
      (59, 59, False, St 523), (61, 61, False, St 523), (63, 63, False, Tr 562),
      (65, 90, False, St 523), (95, 95, False, St 523), (97, 122, False, St 523),
      (126, 126, False, St 523)],
    State 530 [(33, 33, False, St 523), (35, 35, False, Tr 559), (36, 36, False, St 523),
      (37, 37, False, St 258), (38, 45, False, St 523), (46, 46, False, St 529),
      (47, 47, False, Tr 560), (48, 57, False, St 531), (58, 58, False, Tr 561),
      (59, 59, False, St 523), (61, 61, False, St 523), (63, 63, False, Tr 562),
      (65, 90, False, St 523), (95, 95, False, St 523), (97, 122, False, St 523),
      (126, 126, False, St 523)],
    State 531 [(33, 33, False, St 523), (35, 35, False, Tr 559), (36, 36, False, St 523),
      (37, 37, False, St 258), (38, 45, False, St 523), (46, 46, False, St 529),
      (47, 47, False, Tr 560), (48, 57, False, St 528), (58, 58, False, Tr 561),
      (59, 59, False, St 523), (61, 61, False, St 523), (63, 63, False, Tr 562),
      (65, 90, False, St 523), (95, 95, False, St 523), (97, 122, False, St 523),
      (126, 126, False, St 523)],
    State 532 [(33, 33, False, St 523), (35, 35, False, Tr 559), (36, 36, False, St 523),
      (37, 37, False, St 258), (38, 45, False, St 523), (46, 46, False, St 529),
      (47, 47, False, Tr 560), (48, 52, False, St 528), (53, 53, False, St 533),
      (54, 57, False, St 528), (58, 58, False, Tr 561), (59, 59, False, St 523),
      (61, 61, False, St 523), (63, 63, False, Tr 562), (65, 90, False, St 523),
      (95, 95, False, St 523), (97, 122, False, St 523), (126, 126, False, St 523)],
    State 533 [(33, 33, False, St 523), (35, 35, False, Tr 559), (36, 36, False, St 523),
      (37, 37, False, St 258), (38, 45, False, St 523), (46, 46, False, St 529),
      (47, 47, False, Tr 560), (48, 53, False, St 528), (54, 57, False, St 523),
      (58, 58, False, Tr 561), (59, 59, False, St 523), (61, 61, False, St 523),
      (63, 63, False, Tr 562), (65, 90, False, St 523), (95, 95, False, St 523),
      (97, 122, False, St 523), (126, 126, False, St 523)]]"

definition uri_code_45 :: "uri_action block list" where
  "uri_code_45 = [
    State 534 [(33, 33, False, St 523), (35, 35, False, Tr 559), (36, 36, False, St 523),
      (37, 37, False, St 258), (38, 45, False, St 523), (46, 46, False, St 527),
      (47, 47, False, Tr 560), (48, 57, False, St 535), (58, 58, False, Tr 561),
      (59, 59, False, St 523), (61, 61, False, St 523), (63, 63, False, Tr 562),
      (65, 90, False, St 523), (95, 95, False, St 523), (97, 122, False, St 523),
      (126, 126, False, St 523)],
    State 535 [(33, 33, False, St 523), (35, 35, False, Tr 559), (36, 36, False, St 523),
      (37, 37, False, St 258), (38, 45, False, St 523), (46, 46, False, St 527),
      (47, 47, False, Tr 560), (48, 57, False, St 526), (58, 58, False, Tr 561),
      (59, 59, False, St 523), (61, 61, False, St 523), (63, 63, False, Tr 562),
      (65, 90, False, St 523), (95, 95, False, St 523), (97, 122, False, St 523),
      (126, 126, False, St 523)],
    State 536 [(33, 33, False, St 523), (35, 35, False, Tr 559), (36, 36, False, St 523),
      (37, 37, False, St 258), (38, 45, False, St 523), (46, 46, False, St 527),
      (47, 47, False, Tr 560), (48, 52, False, St 526), (53, 53, False, St 537),
      (54, 57, False, St 526), (58, 58, False, Tr 561), (59, 59, False, St 523),
      (61, 61, False, St 523), (63, 63, False, Tr 562), (65, 90, False, St 523),
      (95, 95, False, St 523), (97, 122, False, St 523), (126, 126, False, St 523)],
    State 537 [(33, 33, False, St 523), (35, 35, False, Tr 559), (36, 36, False, St 523),
      (37, 37, False, St 258), (38, 45, False, St 523), (46, 46, False, St 527),
      (47, 47, False, Tr 560), (48, 53, False, St 526), (54, 57, False, St 523),
      (58, 58, False, Tr 561), (59, 59, False, St 523), (61, 61, False, St 523),
      (63, 63, False, Tr 562), (65, 90, False, St 523), (95, 95, False, St 523),
      (97, 122, False, St 523), (126, 126, False, St 523)],
    Trans 581 [Uri_mark] 538,
    State 538 [(33, 33, False, St 523), (35, 35, False, Tr 559), (36, 36, False, St 523),
      (37, 37, False, St 258), (38, 45, False, St 523), (46, 46, False, St 525),
      (47, 47, False, Tr 560), (48, 57, False, St 539), (58, 58, False, Tr 561),
      (59, 59, False, St 523), (61, 61, False, St 523), (63, 63, False, Tr 562),
      (65, 90, False, St 523), (95, 95, False, St 523), (97, 122, False, St 523),
      (126, 126, False, St 523)]]"

definition uri_code_46 :: "uri_action block list" where
  "uri_code_46 = [
    Trans 583 [Uri_mark] 539,
    State 539 [(33, 33, False, St 523), (35, 35, False, Tr 559), (36, 36, False, St 523),
      (37, 37, False, St 258), (38, 45, False, St 523), (46, 46, False, St 525),
      (47, 47, False, Tr 560), (48, 57, False, St 524), (58, 58, False, Tr 561),
      (59, 59, False, St 523), (61, 61, False, St 523), (63, 63, False, Tr 562),
      (65, 90, False, St 523), (95, 95, False, St 523), (97, 122, False, St 523),
      (126, 126, False, St 523)],
    Trans 582 [Uri_mark] 540,
    State 540 [(33, 33, False, St 523), (35, 35, False, Tr 559), (36, 36, False, St 523),
      (37, 37, False, St 258), (38, 45, False, St 523), (46, 46, False, St 525),
      (47, 47, False, Tr 560), (48, 52, False, St 524), (53, 53, False, St 541),
      (54, 57, False, St 524), (58, 58, False, Tr 561), (59, 59, False, St 523),
      (61, 61, False, St 523), (63, 63, False, Tr 562), (65, 90, False, St 523),
      (95, 95, False, St 523), (97, 122, False, St 523), (126, 126, False, St 523)],
    State 541 [(33, 33, False, St 523), (35, 35, False, Tr 559), (36, 36, False, St 523),
      (37, 37, False, St 258), (38, 45, False, St 523), (46, 46, False, St 525),
      (47, 47, False, Tr 560), (48, 53, False, St 524), (54, 57, False, St 523),
      (58, 58, False, Tr 561), (59, 59, False, St 523), (61, 61, False, St 523),
      (63, 63, False, Tr 562), (65, 90, False, St 523), (95, 95, False, St 523),
      (97, 122, False, St 523), (126, 126, False, St 523)],
    Trans 558 [Uri_mark] 260,
    State 260 [(48, 57, False, St 261), (58, 58, False, St 368), (65, 70, False, St 261),
      (97, 102, False, St 261), (118, 118, False, St 447)],
    State 261 [(48, 57, False, St 262), (58, 58, False, St 265), (65, 70, False, St 262),
      (97, 102, False, St 262)]]"

definition uri_code_47 :: "uri_action block list" where
  "uri_code_47 = [
    State 262 [(48, 57, False, St 263), (58, 58, False, St 265), (65, 70, False, St 263),
      (97, 102, False, St 263)],
    State 263 [(48, 57, False, St 264), (58, 58, False, St 265), (65, 70, False, St 264),
      (97, 102, False, St 264)],
    State 264 [(58, 58, False, St 265)],
    State 265 [(48, 57, False, St 266), (58, 58, False, St 363), (65, 70, False, St 266),
      (97, 102, False, St 266)],
    State 266 [(48, 57, False, St 267), (58, 58, False, St 270), (65, 70, False, St 267),
      (97, 102, False, St 267)],
    State 267 [(48, 57, False, St 268), (58, 58, False, St 270), (65, 70, False, St 268),
      (97, 102, False, St 268)],
    State 268 [(48, 57, False, St 269), (58, 58, False, St 270), (65, 70, False, St 269),
      (97, 102, False, St 269)],
    State 269 [(58, 58, False, St 270)],
    State 270 [(48, 57, False, St 271), (58, 58, False, St 358), (65, 70, False, St 271),
      (97, 102, False, St 271)],
    State 271 [(48, 57, False, St 272), (58, 58, False, St 275), (65, 70, False, St 272),
      (97, 102, False, St 272)],
    State 272 [(48, 57, False, St 273), (58, 58, False, St 275), (65, 70, False, St 273),
      (97, 102, False, St 273)]]"

definition uri_code_48 :: "uri_action block list" where
  "uri_code_48 = [
    State 273 [(48, 57, False, St 274), (58, 58, False, St 275), (65, 70, False, St 274),
      (97, 102, False, St 274)],
    State 274 [(58, 58, False, St 275)],
    State 275 [(48, 57, False, St 276), (58, 58, False, St 353), (65, 70, False, St 276),
      (97, 102, False, St 276)],
    State 276 [(48, 57, False, St 277), (58, 58, False, St 280), (65, 70, False, St 277),
      (97, 102, False, St 277)],
    State 277 [(48, 57, False, St 278), (58, 58, False, St 280), (65, 70, False, St 278),
      (97, 102, False, St 278)],
    State 278 [(48, 57, False, St 279), (58, 58, False, St 280), (65, 70, False, St 279),
      (97, 102, False, St 279)],
    State 279 [(58, 58, False, St 280)],
    State 280 [(48, 57, False, St 281), (58, 58, False, St 348), (65, 70, False, St 281),
      (97, 102, False, St 281)],
    State 281 [(48, 57, False, St 282), (58, 58, False, St 285), (65, 70, False, St 282),
      (97, 102, False, St 282)],
    State 282 [(48, 57, False, St 283), (58, 58, False, St 285), (65, 70, False, St 283),
      (97, 102, False, St 283)],
    State 283 [(48, 57, False, St 284), (58, 58, False, St 285), (65, 70, False, St 284),
      (97, 102, False, St 284)]]"

definition uri_code_49 :: "uri_action block list" where
  "uri_code_49 = [
    State 284 [(58, 58, False, St 285)],
    State 285 [(48, 57, False, St 286), (58, 58, False, St 335), (65, 70, False, St 286),
      (97, 102, False, St 286)],
    State 286 [(48, 57, False, St 287), (58, 58, False, St 290), (65, 70, False, St 287),
      (97, 102, False, St 287)],
    State 287 [(48, 57, False, St 288), (58, 58, False, St 290), (65, 70, False, St 288),
      (97, 102, False, St 288)],
    State 288 [(48, 57, False, St 289), (58, 58, False, St 290), (65, 70, False, St 289),
      (97, 102, False, St 289)],
    State 289 [(58, 58, False, St 290)],
    State 290 [(2, 2, False, St 291), (48, 48, False, St 318), (49, 49, False, St 326),
      (50, 50, False, St 329), (51, 57, False, St 332), (58, 58, False, St 333),
      (65, 70, False, St 334), (97, 102, False, St 334)],
    State 291 [(48, 52, False, St 292)],
    State 292 [(48, 57, False, St 293)],
    State 293 [(46, 46, False, St 294)],
    State 294 [(2, 2, False, St 295), (48, 48, False, St 297), (49, 49, False, St 314),
      (50, 50, False, St 316), (51, 57, False, St 315)],
    State 295 [(48, 52, False, St 296)],
    State 296 [(48, 57, False, St 297)],
    State 297 [(46, 46, False, St 298)]]"

definition uri_code_50 :: "uri_action block list" where
  "uri_code_50 = [
    State 298 [(2, 2, False, St 299), (48, 48, False, St 301), (49, 49, False, St 310),
      (50, 50, False, St 312), (51, 57, False, St 311)],
    State 299 [(48, 52, False, St 300)],
    State 300 [(48, 57, False, St 301)],
    State 301 [(46, 46, False, St 302)],
    State 302 [(2, 2, False, St 303), (48, 48, False, St 305), (49, 49, False, St 306),
      (50, 50, False, St 308), (51, 57, False, St 307)],
    State 303 [(48, 52, False, St 304)],
    State 304 [(48, 57, False, St 305)],
    State 305 [(93, 93, False, St 512)],
    State 306 [(48, 57, False, St 307), (93, 93, False, St 512)],
    State 307 [(48, 57, False, St 305), (93, 93, False, St 512)],
    State 308 [(48, 52, False, St 305), (53, 53, False, St 309), (54, 57, False, St 305),
      (93, 93, False, St 512)],
    State 309 [(48, 53, False, St 305), (93, 93, False, St 512)],
    State 310 [(46, 46, False, St 302), (48, 57, False, St 311)],
    State 311 [(46, 46, False, St 302), (48, 57, False, St 301)],
    State 312 [(46, 46, False, St 302), (48, 52, False, St 301), (53, 53, False, St 313),
      (54, 57, False, St 301)],
    State 313 [(46, 46, False, St 302), (48, 53, False, St 301)],
    State 314 [(46, 46, False, St 298), (48, 57, False, St 315)]]"

definition uri_code_51 :: "uri_action block list" where
  "uri_code_51 = [
    State 315 [(46, 46, False, St 298), (48, 57, False, St 297)],
    State 316 [(46, 46, False, St 298), (48, 52, False, St 297), (53, 53, False, St 317),
      (54, 57, False, St 297)],
    State 317 [(46, 46, False, St 298), (48, 53, False, St 297)],
    State 318 [(46, 46, False, St 294), (48, 57, False, St 319), (58, 58, False, St 322),
      (65, 70, False, St 319), (97, 102, False, St 319)],
    State 319 [(48, 57, False, St 320), (58, 58, False, St 322), (65, 70, False, St 320),
      (97, 102, False, St 320)],
    State 320 [(48, 57, False, St 321), (58, 58, False, St 322), (65, 70, False, St 321),
      (97, 102, False, St 321)],
    State 321 [(58, 58, False, St 322)],
    State 322 [(48, 57, False, St 323), (58, 58, False, St 305), (65, 70, False, St 323),
      (97, 102, False, St 323)],
    State 323 [(48, 57, False, St 324), (65, 70, False, St 324), (93, 93, False, St 512),
      (97, 102, False, St 324)],
    State 324 [(48, 57, False, St 325), (65, 70, False, St 325), (93, 93, False, St 512),
      (97, 102, False, St 325)],
    State 325 [(48, 57, False, St 305), (65, 70, False, St 305), (93, 93, False, St 512),
      (97, 102, False, St 305)]]"

definition uri_code_52 :: "uri_action block list" where
  "uri_code_52 = [
    State 326 [(46, 46, False, St 294), (48, 57, False, St 327), (58, 58, False, St 322),
      (65, 70, False, St 319), (97, 102, False, St 319)],
    State 327 [(46, 46, False, St 294), (48, 57, False, St 328), (58, 58, False, St 322),
      (65, 70, False, St 320), (97, 102, False, St 320)],
    State 328 [(46, 46, False, St 294), (48, 57, False, St 321), (58, 58, False, St 322),
      (65, 70, False, St 321), (97, 102, False, St 321)],
    State 329 [(46, 46, False, St 294), (48, 52, False, St 330), (53, 53, False, St 331),
      (54, 57, False, St 330), (58, 58, False, St 322), (65, 70, False, St 319),
      (97, 102, False, St 319)],
    State 330 [(46, 46, False, St 294), (48, 57, False, St 320), (58, 58, False, St 322),
      (65, 70, False, St 320), (97, 102, False, St 320)],
    State 331 [(46, 46, False, St 294), (48, 53, False, St 328), (54, 57, False, St 320),
      (58, 58, False, St 322), (65, 70, False, St 320), (97, 102, False, St 320)],
    State 332 [(46, 46, False, St 294), (48, 57, False, St 330), (58, 58, False, St 322),
      (65, 70, False, St 319), (97, 102, False, St 319)],
    State 333 [(48, 57, False, St 323), (65, 70, False, St 323), (97, 102, False, St 323)],
    State 334 [(48, 57, False, St 319), (58, 58, False, St 322), (65, 70, False, St 319),
      (97, 102, False, St 319)]]"

definition uri_code_53 :: "uri_action block list" where
  "uri_code_53 = [
    State 335 [(2, 2, False, St 291), (48, 48, False, St 336), (49, 49, False, St 340),
      (50, 50, False, St 343), (51, 57, False, St 346), (65, 70, False, St 347),
      (97, 102, False, St 347)],
    State 336 [(46, 46, False, St 294), (48, 57, False, St 337), (58, 58, False, St 333),
      (65, 70, False, St 337), (97, 102, False, St 337)],
    State 337 [(48, 57, False, St 338), (58, 58, False, St 333), (65, 70, False, St 338),
      (97, 102, False, St 338)],
    State 338 [(48, 57, False, St 339), (58, 58, False, St 333), (65, 70, False, St 339),
      (97, 102, False, St 339)],
    State 339 [(58, 58, False, St 333)],
    State 340 [(46, 46, False, St 294), (48, 57, False, St 341), (58, 58, False, St 333),
      (65, 70, False, St 337), (97, 102, False, St 337)],
    State 341 [(46, 46, False, St 294), (48, 57, False, St 342), (58, 58, False, St 333),
      (65, 70, False, St 338), (97, 102, False, St 338)],
    State 342 [(46, 46, False, St 294), (48, 57, False, St 339), (58, 58, False, St 333),
      (65, 70, False, St 339), (97, 102, False, St 339)],
    State 343 [(46, 46, False, St 294), (48, 52, False, St 344), (53, 53, False, St 345),
      (54, 57, False, St 344), (58, 58, False, St 333), (65, 70, False, St 337),
      (97, 102, False, St 337)]]"

definition uri_code_54 :: "uri_action block list" where
  "uri_code_54 = [
    State 344 [(46, 46, False, St 294), (48, 57, False, St 338), (58, 58, False, St 333),
      (65, 70, False, St 338), (97, 102, False, St 338)],
    State 345 [(46, 46, False, St 294), (48, 53, False, St 342), (54, 57, False, St 338),
      (58, 58, False, St 333), (65, 70, False, St 338), (97, 102, False, St 338)],
    State 346 [(46, 46, False, St 294), (48, 57, False, St 344), (58, 58, False, St 333),
      (65, 70, False, St 337), (97, 102, False, St 337)],
    State 347 [(48, 57, False, St 337), (58, 58, False, St 333), (65, 70, False, St 337),
      (97, 102, False, St 337)],
    State 348 [(48, 57, False, St 349), (65, 70, False, St 349), (97, 102, False, St 349)],
    State 349 [(48, 57, False, St 350), (58, 58, False, St 335), (65, 70, False, St 350),
      (97, 102, False, St 350)],
    State 350 [(48, 57, False, St 351), (58, 58, False, St 335), (65, 70, False, St 351),
      (97, 102, False, St 351)],
    State 351 [(48, 57, False, St 352), (58, 58, False, St 335), (65, 70, False, St 352),
      (97, 102, False, St 352)],
    State 352 [(58, 58, False, St 335)],
    State 353 [(48, 57, False, St 354), (65, 70, False, St 354), (97, 102, False, St 354)]]"

definition uri_code_55 :: "uri_action block list" where
  "uri_code_55 = [
    State 354 [(48, 57, False, St 355), (58, 58, False, St 348), (65, 70, False, St 355),
      (97, 102, False, St 355)],
    State 355 [(48, 57, False, St 356), (58, 58, False, St 348), (65, 70, False, St 356),
      (97, 102, False, St 356)],
    State 356 [(48, 57, False, St 357), (58, 58, False, St 348), (65, 70, False, St 357),
      (97, 102, False, St 357)],
    State 357 [(58, 58, False, St 348)],
    State 358 [(48, 57, False, St 359), (65, 70, False, St 359), (97, 102, False, St 359)],
    State 359 [(48, 57, False, St 360), (58, 58, False, St 353), (65, 70, False, St 360),
      (97, 102, False, St 360)],
    State 360 [(48, 57, False, St 361), (58, 58, False, St 353), (65, 70, False, St 361),
      (97, 102, False, St 361)],
    State 361 [(48, 57, False, St 362), (58, 58, False, St 353), (65, 70, False, St 362),
      (97, 102, False, St 362)],
    State 362 [(58, 58, False, St 353)],
    State 363 [(48, 57, False, St 364), (65, 70, False, St 364), (97, 102, False, St 364)],
    State 364 [(48, 57, False, St 365), (58, 58, False, St 358), (65, 70, False, St 365),
      (97, 102, False, St 365)]]"

definition uri_code_56 :: "uri_action block list" where
  "uri_code_56 = [
    State 365 [(48, 57, False, St 366), (58, 58, False, St 358), (65, 70, False, St 366),
      (97, 102, False, St 366)],
    State 366 [(48, 57, False, St 367), (58, 58, False, St 358), (65, 70, False, St 367),
      (97, 102, False, St 367)],
    State 367 [(58, 58, False, St 358)],
    State 368 [(58, 58, False, St 369)],
    State 369 [(2, 2, False, St 291), (48, 48, False, St 370), (49, 49, False, St 439),
      (50, 50, False, St 442), (51, 57, False, St 445), (65, 70, False, St 446),
      (93, 93, False, St 512), (97, 102, False, St 446)],
    State 370 [(46, 46, False, St 294), (48, 57, False, St 371), (58, 58, False, St 374),
      (65, 70, False, St 371), (93, 93, False, St 512), (97, 102, False, St 371)],
    State 371 [(48, 57, False, St 372), (58, 58, False, St 374), (65, 70, False, St 372),
      (93, 93, False, St 512), (97, 102, False, St 372)],
    State 372 [(48, 57, False, St 373), (58, 58, False, St 374), (65, 70, False, St 373),
      (93, 93, False, St 512), (97, 102, False, St 373)],
    State 373 [(58, 58, False, St 374), (93, 93, False, St 512)],
    State 374 [(2, 2, False, St 291), (48, 48, False, St 375), (49, 49, False, St 431),
      (50, 50, False, St 434), (51, 57, False, St 437), (65, 70, False, St 438),
      (97, 102, False, St 438)]]"

definition uri_code_57 :: "uri_action block list" where
  "uri_code_57 = [
    State 375 [(46, 46, False, St 294), (48, 57, False, St 376), (58, 58, False, St 379),
      (65, 70, False, St 376), (93, 93, False, St 512), (97, 102, False, St 376)],
    State 376 [(48, 57, False, St 377), (58, 58, False, St 379), (65, 70, False, St 377),
      (93, 93, False, St 512), (97, 102, False, St 377)],
    State 377 [(48, 57, False, St 378), (58, 58, False, St 379), (65, 70, False, St 378),
      (93, 93, False, St 512), (97, 102, False, St 378)],
    State 378 [(58, 58, False, St 379), (93, 93, False, St 512)],
    State 379 [(2, 2, False, St 291), (48, 48, False, St 380), (49, 49, False, St 423),
      (50, 50, False, St 426), (51, 57, False, St 429), (65, 70, False, St 430),
      (97, 102, False, St 430)],
    State 380 [(46, 46, False, St 294), (48, 57, False, St 381), (58, 58, False, St 384),
      (65, 70, False, St 381), (93, 93, False, St 512), (97, 102, False, St 381)],
    State 381 [(48, 57, False, St 382), (58, 58, False, St 384), (65, 70, False, St 382),
      (93, 93, False, St 512), (97, 102, False, St 382)],
    State 382 [(48, 57, False, St 383), (58, 58, False, St 384), (65, 70, False, St 383),
      (93, 93, False, St 512), (97, 102, False, St 383)],
    State 383 [(58, 58, False, St 384), (93, 93, False, St 512)]]"

definition uri_code_58 :: "uri_action block list" where
  "uri_code_58 = [
    State 384 [(2, 2, False, St 291), (48, 48, False, St 385), (49, 49, False, St 415),
      (50, 50, False, St 418), (51, 57, False, St 421), (65, 70, False, St 422),
      (97, 102, False, St 422)],
    State 385 [(46, 46, False, St 294), (48, 57, False, St 386), (58, 58, False, St 389),
      (65, 70, False, St 386), (93, 93, False, St 512), (97, 102, False, St 386)],
    State 386 [(48, 57, False, St 387), (58, 58, False, St 389), (65, 70, False, St 387),
      (93, 93, False, St 512), (97, 102, False, St 387)],
    State 387 [(48, 57, False, St 388), (58, 58, False, St 389), (65, 70, False, St 388),
      (93, 93, False, St 512), (97, 102, False, St 388)],
    State 388 [(58, 58, False, St 389), (93, 93, False, St 512)],
    State 389 [(2, 2, False, St 291), (48, 48, False, St 390), (49, 49, False, St 407),
      (50, 50, False, St 410), (51, 57, False, St 413), (65, 70, False, St 414),
      (97, 102, False, St 414)],
    State 390 [(46, 46, False, St 294), (48, 57, False, St 391), (58, 58, False, St 394),
      (65, 70, False, St 391), (93, 93, False, St 512), (97, 102, False, St 391)],
    State 391 [(48, 57, False, St 392), (58, 58, False, St 394), (65, 70, False, St 392),
      (93, 93, False, St 512), (97, 102, False, St 392)],
    State 392 [(48, 57, False, St 393), (58, 58, False, St 394), (65, 70, False, St 393),
      (93, 93, False, St 512), (97, 102, False, St 393)]]"

definition uri_code_59 :: "uri_action block list" where
  "uri_code_59 = [
    State 393 [(58, 58, False, St 394), (93, 93, False, St 512)],
    State 394 [(2, 2, False, St 291), (48, 48, False, St 395), (49, 49, False, St 399),
      (50, 50, False, St 402), (51, 57, False, St 405), (65, 70, False, St 406),
      (97, 102, False, St 406)],
    State 395 [(46, 46, False, St 294), (48, 57, False, St 396), (58, 58, False, St 333),
      (65, 70, False, St 396), (93, 93, False, St 512), (97, 102, False, St 396)],
    State 396 [(48, 57, False, St 397), (58, 58, False, St 333), (65, 70, False, St 397),
      (93, 93, False, St 512), (97, 102, False, St 397)],
    State 397 [(48, 57, False, St 398), (58, 58, False, St 333), (65, 70, False, St 398),
      (93, 93, False, St 512), (97, 102, False, St 398)],
    State 398 [(58, 58, False, St 333), (93, 93, False, St 512)],
    State 399 [(46, 46, False, St 294), (48, 57, False, St 400), (58, 58, False, St 333),
      (65, 70, False, St 396), (93, 93, False, St 512), (97, 102, False, St 396)],
    State 400 [(46, 46, False, St 294), (48, 57, False, St 401), (58, 58, False, St 333),
      (65, 70, False, St 397), (93, 93, False, St 512), (97, 102, False, St 397)],
    State 401 [(46, 46, False, St 294), (48, 57, False, St 398), (58, 58, False, St 333),
      (65, 70, False, St 398), (93, 93, False, St 512), (97, 102, False, St 398)]]"

definition uri_code_60 :: "uri_action block list" where
  "uri_code_60 = [
    State 402 [(46, 46, False, St 294), (48, 52, False, St 403), (53, 53, False, St 404),
      (54, 57, False, St 403), (58, 58, False, St 333), (65, 70, False, St 396),
      (93, 93, False, St 512), (97, 102, False, St 396)],
    State 403 [(46, 46, False, St 294), (48, 57, False, St 397), (58, 58, False, St 333),
      (65, 70, False, St 397), (93, 93, False, St 512), (97, 102, False, St 397)],
    State 404 [(46, 46, False, St 294), (48, 53, False, St 401), (54, 57, False, St 397),
      (58, 58, False, St 333), (65, 70, False, St 397), (93, 93, False, St 512),
      (97, 102, False, St 397)],
    State 405 [(46, 46, False, St 294), (48, 57, False, St 403), (58, 58, False, St 333),
      (65, 70, False, St 396), (93, 93, False, St 512), (97, 102, False, St 396)],
    State 406 [(48, 57, False, St 396), (58, 58, False, St 333), (65, 70, False, St 396),
      (93, 93, False, St 512), (97, 102, False, St 396)],
    State 407 [(46, 46, False, St 294), (48, 57, False, St 408), (58, 58, False, St 394),
      (65, 70, False, St 391), (93, 93, False, St 512), (97, 102, False, St 391)],
    State 408 [(46, 46, False, St 294), (48, 57, False, St 409), (58, 58, False, St 394),
      (65, 70, False, St 392), (93, 93, False, St 512), (97, 102, False, St 392)],
    State 409 [(46, 46, False, St 294), (48, 57, False, St 393), (58, 58, False, St 394),
      (65, 70, False, St 393), (93, 93, False, St 512), (97, 102, False, St 393)]]"

definition uri_code_61 :: "uri_action block list" where
  "uri_code_61 = [
    State 410 [(46, 46, False, St 294), (48, 52, False, St 411), (53, 53, False, St 412),
      (54, 57, False, St 411), (58, 58, False, St 394), (65, 70, False, St 391),
      (93, 93, False, St 512), (97, 102, False, St 391)],
    State 411 [(46, 46, False, St 294), (48, 57, False, St 392), (58, 58, False, St 394),
      (65, 70, False, St 392), (93, 93, False, St 512), (97, 102, False, St 392)],
    State 412 [(46, 46, False, St 294), (48, 53, False, St 409), (54, 57, False, St 392),
      (58, 58, False, St 394), (65, 70, False, St 392), (93, 93, False, St 512),
      (97, 102, False, St 392)],
    State 413 [(46, 46, False, St 294), (48, 57, False, St 411), (58, 58, False, St 394),
      (65, 70, False, St 391), (93, 93, False, St 512), (97, 102, False, St 391)],
    State 414 [(48, 57, False, St 391), (58, 58, False, St 394), (65, 70, False, St 391),
      (93, 93, False, St 512), (97, 102, False, St 391)],
    State 415 [(46, 46, False, St 294), (48, 57, False, St 416), (58, 58, False, St 389),
      (65, 70, False, St 386), (93, 93, False, St 512), (97, 102, False, St 386)],
    State 416 [(46, 46, False, St 294), (48, 57, False, St 417), (58, 58, False, St 389),
      (65, 70, False, St 387), (93, 93, False, St 512), (97, 102, False, St 387)],
    State 417 [(46, 46, False, St 294), (48, 57, False, St 388), (58, 58, False, St 389),
      (65, 70, False, St 388), (93, 93, False, St 512), (97, 102, False, St 388)]]"

definition uri_code_62 :: "uri_action block list" where
  "uri_code_62 = [
    State 418 [(46, 46, False, St 294), (48, 52, False, St 419), (53, 53, False, St 420),
      (54, 57, False, St 419), (58, 58, False, St 389), (65, 70, False, St 386),
      (93, 93, False, St 512), (97, 102, False, St 386)],
    State 419 [(46, 46, False, St 294), (48, 57, False, St 387), (58, 58, False, St 389),
      (65, 70, False, St 387), (93, 93, False, St 512), (97, 102, False, St 387)],
    State 420 [(46, 46, False, St 294), (48, 53, False, St 417), (54, 57, False, St 387),
      (58, 58, False, St 389), (65, 70, False, St 387), (93, 93, False, St 512),
      (97, 102, False, St 387)],
    State 421 [(46, 46, False, St 294), (48, 57, False, St 419), (58, 58, False, St 389),
      (65, 70, False, St 386), (93, 93, False, St 512), (97, 102, False, St 386)],
    State 422 [(48, 57, False, St 386), (58, 58, False, St 389), (65, 70, False, St 386),
      (93, 93, False, St 512), (97, 102, False, St 386)],
    State 423 [(46, 46, False, St 294), (48, 57, False, St 424), (58, 58, False, St 384),
      (65, 70, False, St 381), (93, 93, False, St 512), (97, 102, False, St 381)],
    State 424 [(46, 46, False, St 294), (48, 57, False, St 425), (58, 58, False, St 384),
      (65, 70, False, St 382), (93, 93, False, St 512), (97, 102, False, St 382)],
    State 425 [(46, 46, False, St 294), (48, 57, False, St 383), (58, 58, False, St 384),
      (65, 70, False, St 383), (93, 93, False, St 512), (97, 102, False, St 383)]]"

definition uri_code_63 :: "uri_action block list" where
  "uri_code_63 = [
    State 426 [(46, 46, False, St 294), (48, 52, False, St 427), (53, 53, False, St 428),
      (54, 57, False, St 427), (58, 58, False, St 384), (65, 70, False, St 381),
      (93, 93, False, St 512), (97, 102, False, St 381)],
    State 427 [(46, 46, False, St 294), (48, 57, False, St 382), (58, 58, False, St 384),
      (65, 70, False, St 382), (93, 93, False, St 512), (97, 102, False, St 382)],
    State 428 [(46, 46, False, St 294), (48, 53, False, St 425), (54, 57, False, St 382),
      (58, 58, False, St 384), (65, 70, False, St 382), (93, 93, False, St 512),
      (97, 102, False, St 382)],
    State 429 [(46, 46, False, St 294), (48, 57, False, St 427), (58, 58, False, St 384),
      (65, 70, False, St 381), (93, 93, False, St 512), (97, 102, False, St 381)],
    State 430 [(48, 57, False, St 381), (58, 58, False, St 384), (65, 70, False, St 381),
      (93, 93, False, St 512), (97, 102, False, St 381)],
    State 431 [(46, 46, False, St 294), (48, 57, False, St 432), (58, 58, False, St 379),
      (65, 70, False, St 376), (93, 93, False, St 512), (97, 102, False, St 376)],
    State 432 [(46, 46, False, St 294), (48, 57, False, St 433), (58, 58, False, St 379),
      (65, 70, False, St 377), (93, 93, False, St 512), (97, 102, False, St 377)],
    State 433 [(46, 46, False, St 294), (48, 57, False, St 378), (58, 58, False, St 379),
      (65, 70, False, St 378), (93, 93, False, St 512), (97, 102, False, St 378)]]"

definition uri_code_64 :: "uri_action block list" where
  "uri_code_64 = [
    State 434 [(46, 46, False, St 294), (48, 52, False, St 435), (53, 53, False, St 436),
      (54, 57, False, St 435), (58, 58, False, St 379), (65, 70, False, St 376),
      (93, 93, False, St 512), (97, 102, False, St 376)],
    State 435 [(46, 46, False, St 294), (48, 57, False, St 377), (58, 58, False, St 379),
      (65, 70, False, St 377), (93, 93, False, St 512), (97, 102, False, St 377)],
    State 436 [(46, 46, False, St 294), (48, 53, False, St 433), (54, 57, False, St 377),
      (58, 58, False, St 379), (65, 70, False, St 377), (93, 93, False, St 512),
      (97, 102, False, St 377)],
    State 437 [(46, 46, False, St 294), (48, 57, False, St 435), (58, 58, False, St 379),
      (65, 70, False, St 376), (93, 93, False, St 512), (97, 102, False, St 376)],
    State 438 [(48, 57, False, St 376), (58, 58, False, St 379), (65, 70, False, St 376),
      (93, 93, False, St 512), (97, 102, False, St 376)],
    State 439 [(46, 46, False, St 294), (48, 57, False, St 440), (58, 58, False, St 374),
      (65, 70, False, St 371), (93, 93, False, St 512), (97, 102, False, St 371)],
    State 440 [(46, 46, False, St 294), (48, 57, False, St 441), (58, 58, False, St 374),
      (65, 70, False, St 372), (93, 93, False, St 512), (97, 102, False, St 372)],
    State 441 [(46, 46, False, St 294), (48, 57, False, St 373), (58, 58, False, St 374),
      (65, 70, False, St 373), (93, 93, False, St 512), (97, 102, False, St 373)]]"

definition uri_code_65 :: "uri_action block list" where
  "uri_code_65 = [
    State 442 [(46, 46, False, St 294), (48, 52, False, St 443), (53, 53, False, St 444),
      (54, 57, False, St 443), (58, 58, False, St 374), (65, 70, False, St 371),
      (93, 93, False, St 512), (97, 102, False, St 371)],
    State 443 [(46, 46, False, St 294), (48, 57, False, St 372), (58, 58, False, St 374),
      (65, 70, False, St 372), (93, 93, False, St 512), (97, 102, False, St 372)],
    State 444 [(46, 46, False, St 294), (48, 53, False, St 441), (54, 57, False, St 372),
      (58, 58, False, St 374), (65, 70, False, St 372), (93, 93, False, St 512),
      (97, 102, False, St 372)],
    State 445 [(46, 46, False, St 294), (48, 57, False, St 443), (58, 58, False, St 374),
      (65, 70, False, St 371), (93, 93, False, St 512), (97, 102, False, St 371)],
    State 446 [(48, 57, False, St 371), (58, 58, False, St 374), (65, 70, False, St 371),
      (93, 93, False, St 512), (97, 102, False, St 371)],
    State 447 [(48, 57, False, St 448), (65, 70, False, St 448), (97, 102, False, St 448)],
    State 448 [(46, 46, False, St 449), (48, 57, False, St 448), (65, 70, False, St 448),
      (97, 102, False, St 448)],
    State 449 [(33, 33, False, St 450), (36, 36, False, St 450), (38, 46, False, St 450),
      (48, 59, False, St 450), (61, 61, False, St 450), (65, 90, False, St 450),
      (95, 95, False, St 450), (97, 122, False, St 450), (126, 126, False, St 450)]]"

definition uri_code_66 :: "uri_action block list" where
  "uri_code_66 = [
    State 450 [(33, 33, False, St 450), (36, 36, False, St 450), (38, 46, False, St 450),
      (48, 59, False, St 450), (61, 61, False, St 450), (65, 90, False, St 450),
      (93, 93, False, St 512), (95, 95, False, St 450), (97, 122, False, St 450),
      (126, 126, False, St 450)],
    Trans 577 [Uri_mark] 542,
    State 542 [(33, 33, False, St 255), (35, 35, False, Tr 570), (36, 36, False, St 255),
      (37, 37, False, St 256), (38, 46, False, St 255), (47, 47, False, Tr 571),
      (48, 57, False, St 542), (58, 59, False, St 255), (61, 61, False, St 255),
      (63, 63, False, Tr 573), (64, 64, False, Tr 263), (65, 90, False, St 255),
      (95, 95, False, St 255), (97, 122, False, St 255), (126, 126, False, St 255)],
    Trans 551 [Uri_mark] 543,
    State 543 [(33, 33, False, St 520), (35, 35, False, Tr 559), (36, 36, False, St 520),
      (37, 37, False, St 253), (38, 45, False, St 520), (46, 46, False, St 544),
      (47, 47, False, Tr 560), (48, 57, False, St 520), (58, 58, False, Tr 576),
      (59, 59, False, St 520), (61, 61, False, St 520), (63, 63, False, Tr 562),
      (64, 64, False, Tr 263), (65, 90, False, St 520), (95, 95, False, St 520),
      (97, 122, False, St 520), (126, 126, False, St 520)],
    State 544 [(2, 2, False, St 233), (33, 33, False, St 520), (35, 35, False, Tr 559),
      (36, 36, False, St 520), (37, 37, False, St 253), (38, 46, False, St 520),
      (47, 47, False, Tr 560), (48, 48, False, St 545), (49, 49, False, St 553),
      (50, 50, False, St 555), (51, 57, False, St 554), (58, 58, False, Tr 576),
      (59, 59, False, St 520), (61, 61, False, St 520), (63, 63, False, Tr 562),
      (64, 64, False, Tr 263), (65, 90, False, St 520), (95, 95, False, St 520),
      (97, 122, False, St 520), (126, 126, False, St 520)],
    State 545 [(33, 33, False, St 520), (35, 35, False, Tr 559), (36, 36, False, St 520),
      (37, 37, False, St 253), (38, 45, False, St 520), (46, 46, False, St 546),
      (47, 47, False, Tr 560), (48, 57, False, St 520), (58, 58, False, Tr 576),
      (59, 59, False, St 520), (61, 61, False, St 520), (63, 63, False, Tr 562),
      (64, 64, False, Tr 263), (65, 90, False, St 520), (95, 95, False, St 520),
      (97, 122, False, St 520), (126, 126, False, St 520)]]"

definition uri_code_67 :: "uri_action block list" where
  "uri_code_67 = [
    State 546 [(2, 2, False, St 237), (33, 33, False, St 520), (35, 35, False, Tr 559),
      (36, 36, False, St 520), (37, 37, False, St 253), (38, 46, False, St 520),
      (47, 47, False, Tr 560), (48, 48, False, St 547), (49, 49, False, St 549),
      (50, 50, False, St 551), (51, 57, False, St 550), (58, 58, False, Tr 576),
      (59, 59, False, St 520), (61, 61, False, St 520), (63, 63, False, Tr 562),
      (64, 64, False, Tr 263), (65, 90, False, St 520), (95, 95, False, St 520),
      (97, 122, False, St 520), (126, 126, False, St 520)],
    State 547 [(33, 33, False, St 520), (35, 35, False, Tr 559), (36, 36, False, St 520),
      (37, 37, False, St 253), (38, 45, False, St 520), (46, 46, False, St 548),
      (47, 47, False, Tr 560), (48, 57, False, St 520), (58, 58, False, Tr 576),
      (59, 59, False, St 520), (61, 61, False, St 520), (63, 63, False, Tr 562),
      (64, 64, False, Tr 263), (65, 90, False, St 520), (95, 95, False, St 520),
      (97, 122, False, St 520), (126, 126, False, St 520)],
    State 548 [(2, 2, False, St 241), (33, 33, False, St 520), (35, 35, False, Tr 559),
      (36, 36, False, St 520), (37, 37, False, St 253), (38, 46, False, St 520),
      (47, 47, False, Tr 560), (48, 57, False, St 520), (58, 58, False, Tr 576),
      (59, 59, False, St 520), (61, 61, False, St 520), (63, 63, False, Tr 562),
      (64, 64, False, Tr 263), (65, 90, False, St 520), (95, 95, False, St 520),
      (97, 122, False, St 520), (126, 126, False, St 520)],
    State 549 [(33, 33, False, St 520), (35, 35, False, Tr 559), (36, 36, False, St 520),
      (37, 37, False, St 253), (38, 45, False, St 520), (46, 46, False, St 548),
      (47, 47, False, Tr 560), (48, 57, False, St 550), (58, 58, False, Tr 576),
      (59, 59, False, St 520), (61, 61, False, St 520), (63, 63, False, Tr 562),
      (64, 64, False, Tr 263), (65, 90, False, St 520), (95, 95, False, St 520),
      (97, 122, False, St 520), (126, 126, False, St 520)],
    State 550 [(33, 33, False, St 520), (35, 35, False, Tr 559), (36, 36, False, St 520),
      (37, 37, False, St 253), (38, 45, False, St 520), (46, 46, False, St 548),
      (47, 47, False, Tr 560), (48, 57, False, St 547), (58, 58, False, Tr 576),
      (59, 59, False, St 520), (61, 61, False, St 520), (63, 63, False, Tr 562),
      (64, 64, False, Tr 263), (65, 90, False, St 520), (95, 95, False, St 520),
      (97, 122, False, St 520), (126, 126, False, St 520)]]"

definition uri_code_68 :: "uri_action block list" where
  "uri_code_68 = [
    State 551 [(33, 33, False, St 520), (35, 35, False, Tr 559), (36, 36, False, St 520),
      (37, 37, False, St 253), (38, 45, False, St 520), (46, 46, False, St 548),
      (47, 47, False, Tr 560), (48, 52, False, St 547), (53, 53, False, St 552),
      (54, 57, False, St 547), (58, 58, False, Tr 576), (59, 59, False, St 520),
      (61, 61, False, St 520), (63, 63, False, Tr 562), (64, 64, False, Tr 263),
      (65, 90, False, St 520), (95, 95, False, St 520), (97, 122, False, St 520),
      (126, 126, False, St 520)],
    State 552 [(33, 33, False, St 520), (35, 35, False, Tr 559), (36, 36, False, St 520),
      (37, 37, False, St 253), (38, 45, False, St 520), (46, 46, False, St 548),
      (47, 47, False, Tr 560), (48, 53, False, St 547), (54, 57, False, St 520),
      (58, 58, False, Tr 576), (59, 59, False, St 520), (61, 61, False, St 520),
      (63, 63, False, Tr 562), (64, 64, False, Tr 263), (65, 90, False, St 520),
      (95, 95, False, St 520), (97, 122, False, St 520), (126, 126, False, St 520)],
    State 553 [(33, 33, False, St 520), (35, 35, False, Tr 559), (36, 36, False, St 520),
      (37, 37, False, St 253), (38, 45, False, St 520), (46, 46, False, St 546),
      (47, 47, False, Tr 560), (48, 57, False, St 554), (58, 58, False, Tr 576),
      (59, 59, False, St 520), (61, 61, False, St 520), (63, 63, False, Tr 562),
      (64, 64, False, Tr 263), (65, 90, False, St 520), (95, 95, False, St 520),
      (97, 122, False, St 520), (126, 126, False, St 520)],
    State 554 [(33, 33, False, St 520), (35, 35, False, Tr 559), (36, 36, False, St 520),
      (37, 37, False, St 253), (38, 45, False, St 520), (46, 46, False, St 546),
      (47, 47, False, Tr 560), (48, 57, False, St 545), (58, 58, False, Tr 576),
      (59, 59, False, St 520), (61, 61, False, St 520), (63, 63, False, Tr 562),
      (64, 64, False, Tr 263), (65, 90, False, St 520), (95, 95, False, St 520),
      (97, 122, False, St 520), (126, 126, False, St 520)]]"

definition uri_code_69 :: "uri_action block list" where
  "uri_code_69 = [
    State 555 [(33, 33, False, St 520), (35, 35, False, Tr 559), (36, 36, False, St 520),
      (37, 37, False, St 253), (38, 45, False, St 520), (46, 46, False, St 546),
      (47, 47, False, Tr 560), (48, 52, False, St 545), (53, 53, False, St 556),
      (54, 57, False, St 545), (58, 58, False, Tr 576), (59, 59, False, St 520),
      (61, 61, False, St 520), (63, 63, False, Tr 562), (64, 64, False, Tr 263),
      (65, 90, False, St 520), (95, 95, False, St 520), (97, 122, False, St 520),
      (126, 126, False, St 520)],
    State 556 [(33, 33, False, St 520), (35, 35, False, Tr 559), (36, 36, False, St 520),
      (37, 37, False, St 253), (38, 45, False, St 520), (46, 46, False, St 546),
      (47, 47, False, Tr 560), (48, 53, False, St 545), (54, 57, False, St 520),
      (58, 58, False, Tr 576), (59, 59, False, St 520), (61, 61, False, St 520),
      (63, 63, False, Tr 562), (64, 64, False, Tr 263), (65, 90, False, St 520),
      (95, 95, False, St 520), (97, 122, False, St 520), (126, 126, False, St 520)],
    Trans 552 [Uri_mark] 557,
    State 557 [(33, 33, False, St 520), (35, 35, False, Tr 559), (36, 36, False, St 520),
      (37, 37, False, St 253), (38, 45, False, St 520), (46, 46, False, St 544),
      (47, 47, False, Tr 560), (48, 57, False, St 558), (58, 58, False, Tr 576),
      (59, 59, False, St 520), (61, 61, False, St 520), (63, 63, False, Tr 562),
      (64, 64, False, Tr 263), (65, 90, False, St 520), (95, 95, False, St 520),
      (97, 122, False, St 520), (126, 126, False, St 520)],
    Trans 554 [Uri_mark] 558,
    State 558 [(33, 33, False, St 520), (35, 35, False, Tr 559), (36, 36, False, St 520),
      (37, 37, False, St 253), (38, 45, False, St 520), (46, 46, False, St 544),
      (47, 47, False, Tr 560), (48, 57, False, St 543), (58, 58, False, Tr 576),
      (59, 59, False, St 520), (61, 61, False, St 520), (63, 63, False, Tr 562),
      (64, 64, False, Tr 263), (65, 90, False, St 520), (95, 95, False, St 520),
      (97, 122, False, St 520), (126, 126, False, St 520)],
    Trans 553 [Uri_mark] 559]"

definition uri_code_70 :: "uri_action block list" where
  "uri_code_70 = [
    State 559 [(33, 33, False, St 520), (35, 35, False, Tr 559), (36, 36, False, St 520),
      (37, 37, False, St 253), (38, 45, False, St 520), (46, 46, False, St 544),
      (47, 47, False, Tr 560), (48, 52, False, St 543), (53, 53, False, St 560),
      (54, 57, False, St 543), (58, 58, False, Tr 576), (59, 59, False, St 520),
      (61, 61, False, St 520), (63, 63, False, Tr 562), (64, 64, False, Tr 263),
      (65, 90, False, St 520), (95, 95, False, St 520), (97, 122, False, St 520),
      (126, 126, False, St 520)],
    State 560 [(33, 33, False, St 520), (35, 35, False, Tr 559), (36, 36, False, St 520),
      (37, 37, False, St 253), (38, 45, False, St 520), (46, 46, False, St 544),
      (47, 47, False, Tr 560), (48, 53, False, St 543), (54, 57, False, St 520),
      (58, 58, False, Tr 576), (59, 59, False, St 520), (61, 61, False, St 520),
      (63, 63, False, Tr 562), (64, 64, False, Tr 263), (65, 90, False, St 520),
      (95, 95, False, St 520), (97, 122, False, St 520), (126, 126, False, St 520)]]"

section \<open>The machine\<close>

definition uri_code :: "uri_action block list" where
  "uri_code = concat [
    uri_code_1, uri_code_2, uri_code_3, uri_code_4, uri_code_5, uri_code_6,
    uri_code_7, uri_code_8, uri_code_9, uri_code_10, uri_code_11, uri_code_12,
    uri_code_13, uri_code_14, uri_code_15, uri_code_16, uri_code_17, uri_code_18,
    uri_code_19, uri_code_20, uri_code_21, uri_code_22, uri_code_23, uri_code_24,
    uri_code_25, uri_code_26, uri_code_27, uri_code_28, uri_code_29, uri_code_30,
    uri_code_31, uri_code_32, uri_code_33, uri_code_34, uri_code_35, uri_code_36,
    uri_code_37, uri_code_38, uri_code_39, uri_code_40, uri_code_41, uri_code_42,
    uri_code_43, uri_code_44, uri_code_45, uri_code_46, uri_code_47, uri_code_48,
    uri_code_49, uri_code_50, uri_code_51, uri_code_52, uri_code_53, uri_code_54,
    uri_code_55, uri_code_56, uri_code_57, uri_code_58, uri_code_59, uri_code_60,
    uri_code_61, uri_code_62, uri_code_63, uri_code_64, uri_code_65, uri_code_66,
    uri_code_67, uri_code_68, uri_code_69, uri_code_70]"

lemmas uri_code_defs =
  uri_code_1_def uri_code_2_def uri_code_3_def uri_code_4_def uri_code_5_def uri_code_6_def uri_code_7_def
  uri_code_8_def uri_code_9_def uri_code_10_def uri_code_11_def uri_code_12_def uri_code_13_def
  uri_code_14_def uri_code_15_def uri_code_16_def uri_code_17_def uri_code_18_def uri_code_19_def
  uri_code_20_def uri_code_21_def uri_code_22_def uri_code_23_def uri_code_24_def uri_code_25_def
  uri_code_26_def uri_code_27_def uri_code_28_def uri_code_29_def uri_code_30_def uri_code_31_def
  uri_code_32_def uri_code_33_def uri_code_34_def uri_code_35_def uri_code_36_def uri_code_37_def
  uri_code_38_def uri_code_39_def uri_code_40_def uri_code_41_def uri_code_42_def uri_code_43_def
  uri_code_44_def uri_code_45_def uri_code_46_def uri_code_47_def uri_code_48_def uri_code_49_def
  uri_code_50_def uri_code_51_def uri_code_52_def uri_code_53_def uri_code_54_def uri_code_55_def
  uri_code_56_def uri_code_57_def uri_code_58_def uri_code_59_def uri_code_60_def uri_code_61_def
  uri_code_62_def uri_code_63_def uri_code_64_def uri_code_65_def uri_code_66_def uri_code_67_def
  uri_code_68_def uri_code_69_def uri_code_70_def

lemma uri_state_nums:
  "state_nums uri_code_1 = [451, 452]"
  "state_nums uri_code_2 = [453, 454, 1, 2, 3]"
  "state_nums uri_code_3 = [4, 455, 5, 6]"
  "state_nums uri_code_4 = [456, 457, 7]"
  "state_nums uri_code_5 = [8, 458, 459, 9, 10, 11, 12, 13, 14, 15, 16, 17]"
  "state_nums uri_code_6 = [18, 19, 20, 21, 22, 460, 461, 462, 463, 464, 465]"
  "state_nums uri_code_7 = [466, 23, 24, 25, 26, 27, 28, 29, 30, 467, 31, 32]"
  "state_nums uri_code_8 = [468, 33, 34, 35]"
  "state_nums uri_code_9 = [469, 470, 36, 37, 471]"
  "state_nums uri_code_10 = [472, 473, 474, 475, 476]"
  "state_nums uri_code_11 = [477, 478, 479, 480, 481]"
  "state_nums uri_code_12 = [482, 483, 484, 485]"
  "state_nums uri_code_13 = [486, 487, 488, 38, 39, 40]"
  "state_nums uri_code_14 = [41, 42, 43, 44, 45, 46, 47, 48, 49, 50, 51]"
  "state_nums uri_code_15 = [52, 53, 54, 55, 56, 57, 58, 59, 60, 61, 62]"
  "state_nums uri_code_16 = [63, 64, 65, 66, 67, 68, 69, 70, 71, 72, 73, 74, 75]"
  "state_nums uri_code_17 = [76, 77, 78, 79, 80, 81, 82, 83, 84, 85, 86, 87, 88, 89, 90, 91, 92]"
  "state_nums uri_code_18 = [93, 94, 95, 96, 97, 98, 99, 100, 101, 102, 103]"
  "state_nums uri_code_19 = [104, 105, 106, 107, 108, 109, 110, 111, 112]"
  "state_nums uri_code_20 = [113, 114, 115, 116, 117, 118, 119, 120, 121]"
  "state_nums uri_code_21 = [122, 123, 124, 125, 126, 127, 128, 129, 130, 131]"
  "state_nums uri_code_22 = [132, 133, 134, 135, 136, 137, 138, 139, 140, 141, 142]"
  "state_nums uri_code_23 = [143, 144, 145, 146, 147, 148, 149, 150, 151, 152]"
  "state_nums uri_code_24 = [153, 154, 155, 156, 157, 158, 159, 160, 161]"
  "state_nums uri_code_25 = [162, 163, 164, 165, 166, 167, 168, 169, 170]"
  "state_nums uri_code_26 = [171, 172, 173, 174, 175, 176, 177, 178, 179]"
  "state_nums uri_code_27 = [180, 181, 182, 183, 184, 185, 186, 187]"
  "state_nums uri_code_28 = [188, 189, 190, 191, 192, 193, 194, 195]"
  "state_nums uri_code_29 = [196, 197, 198, 199, 200, 201, 202, 203]"
  "state_nums uri_code_30 = [204, 205, 206, 207, 208, 209, 210, 211]"
  "state_nums uri_code_31 = [212, 213, 214, 215, 216, 217, 218, 219]"
  "state_nums uri_code_32 = [220, 221, 222, 223, 224, 225, 226, 227]"
  "state_nums uri_code_33 = [228, 489, 490, 491, 492]"
  "state_nums uri_code_34 = [493, 494, 495, 496, 497]"
  "state_nums uri_code_35 = [498, 499, 500, 501]"
  "state_nums uri_code_36 = [502, 503, 504, 505]"
  "state_nums uri_code_37 = [506, 507, 508, 509]"
  "state_nums uri_code_38 = [510, 511, 229, 230, 231, 232, 233, 234, 235, 236, 237, 238, 239]"
  "state_nums uri_code_39 = [240, 241, 242, 512, 513, 243, 244]"
  "state_nums uri_code_40 = [514, 515, 516, 517, 518, 519, 245, 246, 247, 248, 249, 250, 251]"
  "state_nums uri_code_41 = [252, 520, 253, 254, 521, 255]"
  "state_nums uri_code_42 = [256, 257, 522, 523, 258, 259]"
  "state_nums uri_code_43 = [524, 525, 526, 527, 528]"
  "state_nums uri_code_44 = [529, 530, 531, 532, 533]"
  "state_nums uri_code_45 = [534, 535, 536, 537, 538]"
  "state_nums uri_code_46 = [539, 540, 541, 260, 261]"
  "state_nums uri_code_47 = [262, 263, 264, 265, 266, 267, 268, 269, 270, 271, 272]"
  "state_nums uri_code_48 = [273, 274, 275, 276, 277, 278, 279, 280, 281, 282, 283]"
  "state_nums uri_code_49 = [284, 285, 286, 287, 288, 289, 290, 291, 292, 293, 294, 295, 296, 297]"
  "state_nums uri_code_50 = [298, 299, 300, 301, 302, 303, 304, 305, 306, 307, 308, 309, 310, 311, 312, 313, 314]"
  "state_nums uri_code_51 = [315, 316, 317, 318, 319, 320, 321, 322, 323, 324, 325]"
  "state_nums uri_code_52 = [326, 327, 328, 329, 330, 331, 332, 333, 334]"
  "state_nums uri_code_53 = [335, 336, 337, 338, 339, 340, 341, 342, 343]"
  "state_nums uri_code_54 = [344, 345, 346, 347, 348, 349, 350, 351, 352, 353]"
  "state_nums uri_code_55 = [354, 355, 356, 357, 358, 359, 360, 361, 362, 363, 364]"
  "state_nums uri_code_56 = [365, 366, 367, 368, 369, 370, 371, 372, 373, 374]"
  "state_nums uri_code_57 = [375, 376, 377, 378, 379, 380, 381, 382, 383]"
  "state_nums uri_code_58 = [384, 385, 386, 387, 388, 389, 390, 391, 392]"
  "state_nums uri_code_59 = [393, 394, 395, 396, 397, 398, 399, 400, 401]"
  "state_nums uri_code_60 = [402, 403, 404, 405, 406, 407, 408, 409]"
  "state_nums uri_code_61 = [410, 411, 412, 413, 414, 415, 416, 417]"
  "state_nums uri_code_62 = [418, 419, 420, 421, 422, 423, 424, 425]"
  "state_nums uri_code_63 = [426, 427, 428, 429, 430, 431, 432, 433]"
  "state_nums uri_code_64 = [434, 435, 436, 437, 438, 439, 440, 441]"
  "state_nums uri_code_65 = [442, 443, 444, 445, 446, 447, 448, 449]"
  "state_nums uri_code_66 = [450, 542, 543, 544, 545]"
  "state_nums uri_code_67 = [546, 547, 548, 549, 550]"
  "state_nums uri_code_68 = [551, 552, 553, 554]"
  "state_nums uri_code_69 = [555, 556, 557, 558]"
  "state_nums uri_code_70 = [559, 560]"
  by (simp_all add: uri_code_defs)

lemma uri_trans_nums:
  "trans_nums uri_code_1 = [467, 469, 474, 485, 489, 493, 548, 559]"
  "trans_nums uri_code_2 = [563, 566, 570, 462, 463]"
  "trans_nums uri_code_3 = [476, 486, 490, 494, 482, 488, 492, 496]"
  "trans_nums uri_code_4 = [556, 562, 565, 569, 573, 466, 468]"
  "trans_nums uri_code_5 = [472]"
  "trans_nums uri_code_6 = [507, 487, 491]"
  "trans_nums uri_code_7 = [473, 475]"
  "trans_nums uri_code_8 = [481, 499, 38, 483]"
  "trans_nums uri_code_9 = [501, 502, 503]"
  "trans_nums uri_code_10 = []"
  "trans_nums uri_code_11 = []"
  "trans_nums uri_code_12 = [504, 506]"
  "trans_nums uri_code_13 = [505, 484]"
  "trans_nums uri_code_14 = []"
  "trans_nums uri_code_15 = []"
  "trans_nums uri_code_16 = []"
  "trans_nums uri_code_17 = []"
  "trans_nums uri_code_18 = []"
  "trans_nums uri_code_19 = []"
  "trans_nums uri_code_20 = []"
  "trans_nums uri_code_21 = []"
  "trans_nums uri_code_22 = []"
  "trans_nums uri_code_23 = []"
  "trans_nums uri_code_24 = []"
  "trans_nums uri_code_25 = []"
  "trans_nums uri_code_26 = []"
  "trans_nums uri_code_27 = []"
  "trans_nums uri_code_28 = []"
  "trans_nums uri_code_29 = []"
  "trans_nums uri_code_30 = []"
  "trans_nums uri_code_31 = []"
  "trans_nums uri_code_32 = []"
  "trans_nums uri_code_33 = [500, 477]"
  "trans_nums uri_code_34 = []"
  "trans_nums uri_code_35 = []"
  "trans_nums uri_code_36 = [478, 480, 479]"
  "trans_nums uri_code_37 = [461, 543]"
  "trans_nums uri_code_38 = [546]"
  "trans_nums uri_code_39 = [550, 567, 560, 571, 584, 561]"
  "trans_nums uri_code_40 = [568]"
  "trans_nums uri_code_41 = [547, 549, 555, 576]"
  "trans_nums uri_code_42 = [263, 557, 578, 579, 580]"
  "trans_nums uri_code_43 = []"
  "trans_nums uri_code_44 = []"
  "trans_nums uri_code_45 = [581]"
  "trans_nums uri_code_46 = [583, 582, 558]"
  "trans_nums uri_code_47 = []"
  "trans_nums uri_code_48 = []"
  "trans_nums uri_code_49 = []"
  "trans_nums uri_code_50 = []"
  "trans_nums uri_code_51 = []"
  "trans_nums uri_code_52 = []"
  "trans_nums uri_code_53 = []"
  "trans_nums uri_code_54 = []"
  "trans_nums uri_code_55 = []"
  "trans_nums uri_code_56 = []"
  "trans_nums uri_code_57 = []"
  "trans_nums uri_code_58 = []"
  "trans_nums uri_code_59 = []"
  "trans_nums uri_code_60 = []"
  "trans_nums uri_code_61 = []"
  "trans_nums uri_code_62 = []"
  "trans_nums uri_code_63 = []"
  "trans_nums uri_code_64 = []"
  "trans_nums uri_code_65 = []"
  "trans_nums uri_code_66 = [577, 551]"
  "trans_nums uri_code_67 = []"
  "trans_nums uri_code_68 = []"
  "trans_nums uri_code_69 = [552, 554, 553]"
  "trans_nums uri_code_70 = []"
  by (simp_all add: uri_code_defs)

definition uri_parser_start :: nat where "uri_parser_start = 451"
definition uri_parser_first_final :: nat where "uri_parser_first_final = 451"
definition uri_parser_error :: nat where "uri_parser_error = 0"

definition uri_step :: "nat \<Rightarrow> char \<Rightarrow> (uri_action list \<times> nat) option" where
  "uri_step = code_step uri_code False"

text \<open>The actions performed when the input ends in a state.\<close>

definition uri_eof :: "nat \<Rightarrow> uri_action list" where
  "uri_eof cs =
    (if cs \<in> {462, 489} then [Save_port]
     else if cs = 460 \<or> 463 \<le> cs \<and> cs \<le> 467 \<or> 470 \<le> cs \<and> cs \<le> 488 \<or> 490 \<le> cs \<and> cs \<le> 507 then [Save_host]
     else if cs = 513 then [Save_path]
     else if cs = 457 then [Save_query]
     else if cs = 454 then [Save_fragment]
     else if cs = 456 then [Uri_mark, Save_query]
     else if cs = 453 then [Uri_mark, Save_fragment]
     else if cs \<in> {461, 468} then [Uri_mark, Save_port]
     else if cs \<in> {459, 469} then [Uri_mark, Save_host]
     else if cs \<in> {514, 521} then [Uri_mark, Save_port, Save_path]
     else if cs \<in> {511, 522} then [Uri_mark, Save_host, Save_path]
     else if cs \<in> {515, 542} then [Save_port, Uri_mark, Save_path]
     else if cs = 512 \<or> 516 \<le> cs \<and> cs \<le> 520 \<or> 523 \<le> cs \<and> cs \<le> 541 \<or> 543 \<le> cs \<and> cs \<le> 560
     then [Save_host, Uri_mark, Save_path]
     else [])"

section \<open>Blocks of an ordinary URI\<close>

lemma uri_edges_1:
  "state_edges uri_code 451 = [(33, 33, False, St 452), (35, 35, False, St 453), (36, 36, False, St
      452), (37, 37, False, St 3), (38, 46, False, St 452), (47, 47, False, St 458), (48, 57, False,
      St 452), (59, 59, False, St 452), (61, 61, False, St 452), (63, 63, False, St 456), (64, 64,
      False, St 452), (65, 90, False, Tr 461), (95, 95, False, St 452), (97, 122, False, Tr 461),
      (126, 126, False, St 452), (128, 255, False, St 452)]"
  by (simp_all add: uri_code_def state_edges_append uri_state_nums) (simp_all add: uri_code_1_def)

lemma uri_edges_2:
  "state_edges uri_code 1 = [(48, 57, False, St 2), (65, 70, False, St 2), (97, 102, False, St 2)]"
  "state_edges uri_code 2 = [(48, 57, False, St 454), (65, 70, False, St 454), (97, 102, False, St
      454)]"
  "state_edges uri_code 453 = [(33, 33, False, Tr 462), (36, 36, False, Tr 462), (37, 37, False, Tr
      463), (38, 59, False, Tr 462), (61, 61, False, Tr 462), (63, 90, False, Tr 462), (95, 95,
      False, Tr 462), (97, 122, False, Tr 462), (126, 126, False, Tr 462), (128, 255, False, Tr
      462)]"
  "state_edges uri_code 454 = [(33, 33, False, St 454), (36, 36, False, St 454), (37, 37, False, St
      1), (38, 59, False, St 454), (61, 61, False, St 454), (63, 90, False, St 454), (95, 95, False,
      St 454), (97, 122, False, St 454), (126, 126, False, St 454), (128, 255, False, St 454)]"
  by (simp_all add: uri_code_def state_edges_append uri_state_nums) (simp_all add: uri_code_2_def)

lemma uri_edges_3:
  "state_edges uri_code 5 = [(48, 57, False, St 6), (65, 70, False, St 6), (97, 102, False, St 6)]"
  "state_edges uri_code 6 = [(48, 57, False, St 455), (65, 70, False, St 455), (97, 102, False, St
      455)]"
  "state_edges uri_code 455 = [(33, 33, False, St 455), (35, 35, False, St 453), (36, 36, False, St
      455), (37, 37, False, St 5), (38, 59, False, St 455), (61, 61, False, St 455), (63, 63, False,
      St 456), (64, 90, False, St 455), (95, 95, False, St 455), (97, 122, False, St 455), (126,
      126, False, St 455), (128, 255, False, St 455)]"
  by (simp_all add: uri_code_def state_edges_append uri_state_nums) (simp_all add: uri_code_3_def)

lemma uri_edges_4:
  "state_edges uri_code 7 = [(48, 57, False, St 8), (65, 70, False, St 8), (97, 102, False, St 8)]"
  "state_edges uri_code 456 = [(33, 33, False, Tr 466), (35, 35, False, Tr 467), (36, 36, False, Tr
      466), (37, 37, False, Tr 468), (38, 59, False, Tr 466), (61, 61, False, Tr 466), (63, 90,
      False, Tr 466), (95, 95, False, Tr 466), (97, 122, False, Tr 466), (126, 126, False, Tr 466),
      (128, 255, False, Tr 466)]"
  "state_edges uri_code 457 = [(33, 33, False, St 457), (35, 35, False, Tr 469), (36, 36, False, St
      457), (37, 37, False, St 7), (38, 59, False, St 457), (61, 61, False, St 457), (63, 90, False,
      St 457), (95, 95, False, St 457), (97, 122, False, St 457), (126, 126, False, St 457), (128,
      255, False, St 457)]"
  by (simp_all add: uri_code_def state_edges_append uri_state_nums) (simp_all add: uri_code_4_def)

lemma uri_edges_5:
  "state_edges uri_code 8 = [(48, 57, False, St 457), (65, 70, False, St 457), (97, 102, False, St
      457)]"
  "state_edges uri_code 458 = [(33, 33, False, St 455), (35, 35, False, St 453), (36, 36, False, St
      455), (37, 37, False, St 5), (38, 46, False, St 455), (47, 47, False, St 459), (48, 59, False,
      St 455), (61, 61, False, St 455), (63, 63, False, St 456), (64, 90, False, St 455), (95, 95,
      False, St 455), (97, 122, False, St 455), (126, 126, False, St 455), (128, 255, False, St
      455)]"
  by (simp_all add: uri_code_def state_edges_append uri_state_nums) (simp_all add: uri_code_5_def)

lemma uri_edges_37:
  "state_edges uri_code 508 = [(33, 33, False, St 452), (35, 35, False, St 453), (36, 36, False, St
      452), (37, 37, False, St 3), (38, 42, False, St 452), (43, 43, False, St 508), (44, 44, False,
      St 452), (45, 46, False, St 508), (47, 47, False, St 455), (48, 57, False, St 508), (58, 58,
      False, Tr 543), (59, 59, False, St 452), (61, 61, False, St 452), (63, 63, False, St 456),
      (64, 64, False, St 452), (65, 90, False, St 508), (95, 95, False, St 452), (97, 122, False, St
      508), (126, 126, False, St 452), (128, 255, False, St 452)]"
  "state_edges uri_code 509 = [(33, 33, False, St 455), (35, 35, False, St 453), (36, 36, False, St
      455), (37, 37, False, St 5), (38, 46, False, St 455), (47, 47, False, St 510), (48, 59, False,
      St 455), (61, 61, False, St 455), (63, 63, False, St 456), (64, 90, False, St 455), (95, 95,
      False, St 455), (97, 122, False, St 455), (126, 126, False, St 455), (128, 255, False, St
      455)]"
  by (simp_all add: uri_code_def state_edges_append uri_state_nums) (simp_all add: uri_code_37_def)

lemma uri_edges_38:
  "state_edges uri_code 510 = [(33, 33, False, St 455), (35, 35, False, St 453), (36, 36, False, St
      455), (37, 37, False, St 5), (38, 46, False, St 455), (47, 47, False, St 511), (48, 59, False,
      St 455), (61, 61, False, St 455), (63, 63, False, St 456), (64, 90, False, St 455), (95, 95,
      False, St 455), (97, 122, False, St 455), (126, 126, False, St 455), (128, 255, False, St
      455)]"
  "state_edges uri_code 511 = [(2, 2, False, Tr 546), (33, 33, False, Tr 547), (35, 35, False, Tr
      548), (36, 36, False, Tr 547), (37, 37, False, Tr 549), (38, 46, False, Tr 547), (47, 47,
      False, Tr 550), (48, 48, False, Tr 551), (49, 49, False, Tr 552), (50, 50, False, Tr 553),
      (51, 57, False, Tr 554), (58, 58, False, Tr 555), (59, 59, False, Tr 547), (61, 61, False, Tr
      547), (63, 63, False, Tr 556), (64, 64, False, Tr 557), (65, 90, False, Tr 547), (91, 91,
      False, Tr 558), (95, 95, False, Tr 547), (97, 122, False, Tr 547), (126, 126, False, Tr 547)]"
  by (simp_all add: uri_code_def state_edges_append uri_state_nums) (simp_all add: uri_code_38_def)

lemma uri_edges_39:
  "state_edges uri_code 243 = [(48, 57, False, St 244), (65, 70, False, St 244), (97, 102, False, St
      244)]"
  "state_edges uri_code 244 = [(48, 57, False, St 513), (65, 70, False, St 513), (97, 102, False, St
      513)]"
  "state_edges uri_code 512 = [(35, 35, False, Tr 559), (47, 47, False, Tr 560), (58, 58, False, Tr
      561), (63, 63, False, Tr 562)]"
  "state_edges uri_code 513 = [(33, 33, False, St 513), (35, 35, False, Tr 563), (36, 36, False, St
      513), (37, 37, False, St 243), (38, 59, False, St 513), (61, 61, False, St 513), (63, 63,
      False, Tr 565), (64, 90, False, St 513), (95, 95, False, St 513), (97, 122, False, St 513),
      (126, 126, False, St 513), (128, 255, False, St 513)]"
  by (simp_all add: uri_code_def state_edges_append uri_state_nums) (simp_all add: uri_code_39_def)

lemma uri_edges_40:
  "state_edges uri_code 514 = [(35, 35, False, Tr 566), (47, 47, False, Tr 567), (48, 57, False, Tr
      568), (63, 63, False, Tr 569)]"
  "state_edges uri_code 515 = [(35, 35, False, Tr 570), (47, 47, False, Tr 571), (48, 57, False, St
      515), (63, 63, False, Tr 573)]"
  by (simp_all add: uri_code_def state_edges_append uri_state_nums) (simp_all add: uri_code_40_def)

lemma uri_edges_41:
  "state_edges uri_code 520 = [(33, 33, False, St 520), (35, 35, False, Tr 559), (36, 36, False, St
      520), (37, 37, False, St 253), (38, 46, False, St 520), (47, 47, False, Tr 560), (48, 57,
      False, St 520), (58, 58, False, Tr 576), (59, 59, False, St 520), (61, 61, False, St 520),
      (63, 63, False, Tr 562), (64, 64, False, Tr 263), (65, 90, False, St 520), (95, 95, False, St
      520), (97, 122, False, St 520), (126, 126, False, St 520)]"
  "state_edges uri_code 521 = [(33, 33, False, St 255), (35, 35, False, Tr 566), (36, 36, False, St
      255), (37, 37, False, St 256), (38, 46, False, St 255), (47, 47, False, Tr 567), (48, 57,
      False, Tr 577), (58, 59, False, St 255), (61, 61, False, St 255), (63, 63, False, Tr 569),
      (64, 64, False, Tr 263), (65, 90, False, St 255), (95, 95, False, St 255), (97, 122, False, St
      255), (126, 126, False, St 255)]"
  by (simp_all add: uri_code_def state_edges_append uri_state_nums) (simp_all add: uri_code_41_def)

lemma uri_edges_42:
  "state_edges uri_code 522 = [(2, 2, False, Tr 546), (33, 33, False, Tr 578), (35, 35, False, Tr
      548), (36, 36, False, Tr 578), (37, 37, False, Tr 579), (38, 46, False, Tr 578), (47, 47,
      False, Tr 550), (48, 48, False, Tr 580), (49, 49, False, Tr 581), (50, 50, False, Tr 582),
      (51, 57, False, Tr 583), (58, 58, False, Tr 584), (59, 59, False, Tr 578), (61, 61, False, Tr
      578), (63, 63, False, Tr 556), (65, 90, False, Tr 578), (91, 91, False, Tr 558), (95, 95,
      False, Tr 578), (97, 122, False, Tr 578), (126, 126, False, Tr 578)]"
  "state_edges uri_code 523 = [(33, 33, False, St 523), (35, 35, False, Tr 559), (36, 36, False, St
      523), (37, 37, False, St 258), (38, 46, False, St 523), (47, 47, False, Tr 560), (48, 57,
      False, St 523), (58, 58, False, Tr 561), (59, 59, False, St 523), (61, 61, False, St 523),
      (63, 63, False, Tr 562), (65, 90, False, St 523), (95, 95, False, St 523), (97, 122, False, St
      523), (126, 126, False, St 523)]"
  by (simp_all add: uri_code_def state_edges_append uri_state_nums) (simp_all add: uri_code_42_def)

lemma uri_edges_43:
  "state_edges uri_code 524 = [(33, 33, False, St 523), (35, 35, False, Tr 559), (36, 36, False, St
      523), (37, 37, False, St 258), (38, 45, False, St 523), (46, 46, False, St 525), (47, 47,
      False, Tr 560), (48, 57, False, St 523), (58, 58, False, Tr 561), (59, 59, False, St 523),
      (61, 61, False, St 523), (63, 63, False, Tr 562), (65, 90, False, St 523), (95, 95, False, St
      523), (97, 122, False, St 523), (126, 126, False, St 523)]"
  "state_edges uri_code 525 = [(2, 2, False, St 233), (33, 33, False, St 523), (35, 35, False, Tr
      559), (36, 36, False, St 523), (37, 37, False, St 258), (38, 46, False, St 523), (47, 47,
      False, Tr 560), (48, 48, False, St 526), (49, 49, False, St 534), (50, 50, False, St 536),
      (51, 57, False, St 535), (58, 58, False, Tr 561), (59, 59, False, St 523), (61, 61, False, St
      523), (63, 63, False, Tr 562), (65, 90, False, St 523), (95, 95, False, St 523), (97, 122,
      False, St 523), (126, 126, False, St 523)]"
  "state_edges uri_code 526 = [(33, 33, False, St 523), (35, 35, False, Tr 559), (36, 36, False, St
      523), (37, 37, False, St 258), (38, 45, False, St 523), (46, 46, False, St 527), (47, 47,
      False, Tr 560), (48, 57, False, St 523), (58, 58, False, Tr 561), (59, 59, False, St 523),
      (61, 61, False, St 523), (63, 63, False, Tr 562), (65, 90, False, St 523), (95, 95, False, St
      523), (97, 122, False, St 523), (126, 126, False, St 523)]"
  "state_edges uri_code 527 = [(2, 2, False, St 237), (33, 33, False, St 523), (35, 35, False, Tr
      559), (36, 36, False, St 523), (37, 37, False, St 258), (38, 46, False, St 523), (47, 47,
      False, Tr 560), (48, 48, False, St 528), (49, 49, False, St 530), (50, 50, False, St 532),
      (51, 57, False, St 531), (58, 58, False, Tr 561), (59, 59, False, St 523), (61, 61, False, St
      523), (63, 63, False, Tr 562), (65, 90, False, St 523), (95, 95, False, St 523), (97, 122,
      False, St 523), (126, 126, False, St 523)]"
  "state_edges uri_code 528 = [(33, 33, False, St 523), (35, 35, False, Tr 559), (36, 36, False, St
      523), (37, 37, False, St 258), (38, 45, False, St 523), (46, 46, False, St 529), (47, 47,
      False, Tr 560), (48, 57, False, St 523), (58, 58, False, Tr 561), (59, 59, False, St 523),
      (61, 61, False, St 523), (63, 63, False, Tr 562), (65, 90, False, St 523), (95, 95, False, St
      523), (97, 122, False, St 523), (126, 126, False, St 523)]"
  by (simp_all add: uri_code_def state_edges_append uri_state_nums) (simp_all add: uri_code_43_def)

lemma uri_edges_44:
  "state_edges uri_code 529 = [(2, 2, False, St 241), (33, 33, False, St 523), (35, 35, False, Tr
      559), (36, 36, False, St 523), (37, 37, False, St 258), (38, 46, False, St 523), (47, 47,
      False, Tr 560), (48, 57, False, St 523), (58, 58, False, Tr 561), (59, 59, False, St 523),
      (61, 61, False, St 523), (63, 63, False, Tr 562), (65, 90, False, St 523), (95, 95, False, St
      523), (97, 122, False, St 523), (126, 126, False, St 523)]"
  "state_edges uri_code 530 = [(33, 33, False, St 523), (35, 35, False, Tr 559), (36, 36, False, St
      523), (37, 37, False, St 258), (38, 45, False, St 523), (46, 46, False, St 529), (47, 47,
      False, Tr 560), (48, 57, False, St 531), (58, 58, False, Tr 561), (59, 59, False, St 523),
      (61, 61, False, St 523), (63, 63, False, Tr 562), (65, 90, False, St 523), (95, 95, False, St
      523), (97, 122, False, St 523), (126, 126, False, St 523)]"
  "state_edges uri_code 531 = [(33, 33, False, St 523), (35, 35, False, Tr 559), (36, 36, False, St
      523), (37, 37, False, St 258), (38, 45, False, St 523), (46, 46, False, St 529), (47, 47,
      False, Tr 560), (48, 57, False, St 528), (58, 58, False, Tr 561), (59, 59, False, St 523),
      (61, 61, False, St 523), (63, 63, False, Tr 562), (65, 90, False, St 523), (95, 95, False, St
      523), (97, 122, False, St 523), (126, 126, False, St 523)]"
  "state_edges uri_code 532 = [(33, 33, False, St 523), (35, 35, False, Tr 559), (36, 36, False, St
      523), (37, 37, False, St 258), (38, 45, False, St 523), (46, 46, False, St 529), (47, 47,
      False, Tr 560), (48, 52, False, St 528), (53, 53, False, St 533), (54, 57, False, St 528),
      (58, 58, False, Tr 561), (59, 59, False, St 523), (61, 61, False, St 523), (63, 63, False, Tr
      562), (65, 90, False, St 523), (95, 95, False, St 523), (97, 122, False, St 523), (126, 126,
      False, St 523)]"
  "state_edges uri_code 533 = [(33, 33, False, St 523), (35, 35, False, Tr 559), (36, 36, False, St
      523), (37, 37, False, St 258), (38, 45, False, St 523), (46, 46, False, St 529), (47, 47,
      False, Tr 560), (48, 53, False, St 528), (54, 57, False, St 523), (58, 58, False, Tr 561),
      (59, 59, False, St 523), (61, 61, False, St 523), (63, 63, False, Tr 562), (65, 90, False, St
      523), (95, 95, False, St 523), (97, 122, False, St 523), (126, 126, False, St 523)]"
  by (simp_all add: uri_code_def state_edges_append uri_state_nums) (simp_all add: uri_code_44_def)

lemma uri_edges_45:
  "state_edges uri_code 534 = [(33, 33, False, St 523), (35, 35, False, Tr 559), (36, 36, False, St
      523), (37, 37, False, St 258), (38, 45, False, St 523), (46, 46, False, St 527), (47, 47,
      False, Tr 560), (48, 57, False, St 535), (58, 58, False, Tr 561), (59, 59, False, St 523),
      (61, 61, False, St 523), (63, 63, False, Tr 562), (65, 90, False, St 523), (95, 95, False, St
      523), (97, 122, False, St 523), (126, 126, False, St 523)]"
  "state_edges uri_code 535 = [(33, 33, False, St 523), (35, 35, False, Tr 559), (36, 36, False, St
      523), (37, 37, False, St 258), (38, 45, False, St 523), (46, 46, False, St 527), (47, 47,
      False, Tr 560), (48, 57, False, St 526), (58, 58, False, Tr 561), (59, 59, False, St 523),
      (61, 61, False, St 523), (63, 63, False, Tr 562), (65, 90, False, St 523), (95, 95, False, St
      523), (97, 122, False, St 523), (126, 126, False, St 523)]"
  "state_edges uri_code 536 = [(33, 33, False, St 523), (35, 35, False, Tr 559), (36, 36, False, St
      523), (37, 37, False, St 258), (38, 45, False, St 523), (46, 46, False, St 527), (47, 47,
      False, Tr 560), (48, 52, False, St 526), (53, 53, False, St 537), (54, 57, False, St 526),
      (58, 58, False, Tr 561), (59, 59, False, St 523), (61, 61, False, St 523), (63, 63, False, Tr
      562), (65, 90, False, St 523), (95, 95, False, St 523), (97, 122, False, St 523), (126, 126,
      False, St 523)]"
  "state_edges uri_code 537 = [(33, 33, False, St 523), (35, 35, False, Tr 559), (36, 36, False, St
      523), (37, 37, False, St 258), (38, 45, False, St 523), (46, 46, False, St 527), (47, 47,
      False, Tr 560), (48, 53, False, St 526), (54, 57, False, St 523), (58, 58, False, Tr 561),
      (59, 59, False, St 523), (61, 61, False, St 523), (63, 63, False, Tr 562), (65, 90, False, St
      523), (95, 95, False, St 523), (97, 122, False, St 523), (126, 126, False, St 523)]"
  "state_edges uri_code 538 = [(33, 33, False, St 523), (35, 35, False, Tr 559), (36, 36, False, St
      523), (37, 37, False, St 258), (38, 45, False, St 523), (46, 46, False, St 525), (47, 47,
      False, Tr 560), (48, 57, False, St 539), (58, 58, False, Tr 561), (59, 59, False, St 523),
      (61, 61, False, St 523), (63, 63, False, Tr 562), (65, 90, False, St 523), (95, 95, False, St
      523), (97, 122, False, St 523), (126, 126, False, St 523)]"
  by (simp_all add: uri_code_def state_edges_append uri_state_nums) (simp_all add: uri_code_45_def)

lemma uri_edges_46:
  "state_edges uri_code 539 = [(33, 33, False, St 523), (35, 35, False, Tr 559), (36, 36, False, St
      523), (37, 37, False, St 258), (38, 45, False, St 523), (46, 46, False, St 525), (47, 47,
      False, Tr 560), (48, 57, False, St 524), (58, 58, False, Tr 561), (59, 59, False, St 523),
      (61, 61, False, St 523), (63, 63, False, Tr 562), (65, 90, False, St 523), (95, 95, False, St
      523), (97, 122, False, St 523), (126, 126, False, St 523)]"
  "state_edges uri_code 540 = [(33, 33, False, St 523), (35, 35, False, Tr 559), (36, 36, False, St
      523), (37, 37, False, St 258), (38, 45, False, St 523), (46, 46, False, St 525), (47, 47,
      False, Tr 560), (48, 52, False, St 524), (53, 53, False, St 541), (54, 57, False, St 524),
      (58, 58, False, Tr 561), (59, 59, False, St 523), (61, 61, False, St 523), (63, 63, False, Tr
      562), (65, 90, False, St 523), (95, 95, False, St 523), (97, 122, False, St 523), (126, 126,
      False, St 523)]"
  "state_edges uri_code 541 = [(33, 33, False, St 523), (35, 35, False, Tr 559), (36, 36, False, St
      523), (37, 37, False, St 258), (38, 45, False, St 523), (46, 46, False, St 525), (47, 47,
      False, Tr 560), (48, 53, False, St 524), (54, 57, False, St 523), (58, 58, False, Tr 561),
      (59, 59, False, St 523), (61, 61, False, St 523), (63, 63, False, Tr 562), (65, 90, False, St
      523), (95, 95, False, St 523), (97, 122, False, St 523), (126, 126, False, St 523)]"
  by (simp_all add: uri_code_def state_edges_append uri_state_nums) (simp_all add: uri_code_46_def)

lemma uri_edges_66:
  "state_edges uri_code 542 = [(33, 33, False, St 255), (35, 35, False, Tr 570), (36, 36, False, St
      255), (37, 37, False, St 256), (38, 46, False, St 255), (47, 47, False, Tr 571), (48, 57,
      False, St 542), (58, 59, False, St 255), (61, 61, False, St 255), (63, 63, False, Tr 573),
      (64, 64, False, Tr 263), (65, 90, False, St 255), (95, 95, False, St 255), (97, 122, False, St
      255), (126, 126, False, St 255)]"
  "state_edges uri_code 543 = [(33, 33, False, St 520), (35, 35, False, Tr 559), (36, 36, False, St
      520), (37, 37, False, St 253), (38, 45, False, St 520), (46, 46, False, St 544), (47, 47,
      False, Tr 560), (48, 57, False, St 520), (58, 58, False, Tr 576), (59, 59, False, St 520),
      (61, 61, False, St 520), (63, 63, False, Tr 562), (64, 64, False, Tr 263), (65, 90, False, St
      520), (95, 95, False, St 520), (97, 122, False, St 520), (126, 126, False, St 520)]"
  "state_edges uri_code 544 = [(2, 2, False, St 233), (33, 33, False, St 520), (35, 35, False, Tr
      559), (36, 36, False, St 520), (37, 37, False, St 253), (38, 46, False, St 520), (47, 47,
      False, Tr 560), (48, 48, False, St 545), (49, 49, False, St 553), (50, 50, False, St 555),
      (51, 57, False, St 554), (58, 58, False, Tr 576), (59, 59, False, St 520), (61, 61, False, St
      520), (63, 63, False, Tr 562), (64, 64, False, Tr 263), (65, 90, False, St 520), (95, 95,
      False, St 520), (97, 122, False, St 520), (126, 126, False, St 520)]"
  "state_edges uri_code 545 = [(33, 33, False, St 520), (35, 35, False, Tr 559), (36, 36, False, St
      520), (37, 37, False, St 253), (38, 45, False, St 520), (46, 46, False, St 546), (47, 47,
      False, Tr 560), (48, 57, False, St 520), (58, 58, False, Tr 576), (59, 59, False, St 520),
      (61, 61, False, St 520), (63, 63, False, Tr 562), (64, 64, False, Tr 263), (65, 90, False, St
      520), (95, 95, False, St 520), (97, 122, False, St 520), (126, 126, False, St 520)]"
  by (simp_all add: uri_code_def state_edges_append uri_state_nums) (simp_all add: uri_code_66_def)

lemma uri_edges_67:
  "state_edges uri_code 546 = [(2, 2, False, St 237), (33, 33, False, St 520), (35, 35, False, Tr
      559), (36, 36, False, St 520), (37, 37, False, St 253), (38, 46, False, St 520), (47, 47,
      False, Tr 560), (48, 48, False, St 547), (49, 49, False, St 549), (50, 50, False, St 551),
      (51, 57, False, St 550), (58, 58, False, Tr 576), (59, 59, False, St 520), (61, 61, False, St
      520), (63, 63, False, Tr 562), (64, 64, False, Tr 263), (65, 90, False, St 520), (95, 95,
      False, St 520), (97, 122, False, St 520), (126, 126, False, St 520)]"
  "state_edges uri_code 547 = [(33, 33, False, St 520), (35, 35, False, Tr 559), (36, 36, False, St
      520), (37, 37, False, St 253), (38, 45, False, St 520), (46, 46, False, St 548), (47, 47,
      False, Tr 560), (48, 57, False, St 520), (58, 58, False, Tr 576), (59, 59, False, St 520),
      (61, 61, False, St 520), (63, 63, False, Tr 562), (64, 64, False, Tr 263), (65, 90, False, St
      520), (95, 95, False, St 520), (97, 122, False, St 520), (126, 126, False, St 520)]"
  "state_edges uri_code 548 = [(2, 2, False, St 241), (33, 33, False, St 520), (35, 35, False, Tr
      559), (36, 36, False, St 520), (37, 37, False, St 253), (38, 46, False, St 520), (47, 47,
      False, Tr 560), (48, 57, False, St 520), (58, 58, False, Tr 576), (59, 59, False, St 520),
      (61, 61, False, St 520), (63, 63, False, Tr 562), (64, 64, False, Tr 263), (65, 90, False, St
      520), (95, 95, False, St 520), (97, 122, False, St 520), (126, 126, False, St 520)]"
  "state_edges uri_code 549 = [(33, 33, False, St 520), (35, 35, False, Tr 559), (36, 36, False, St
      520), (37, 37, False, St 253), (38, 45, False, St 520), (46, 46, False, St 548), (47, 47,
      False, Tr 560), (48, 57, False, St 550), (58, 58, False, Tr 576), (59, 59, False, St 520),
      (61, 61, False, St 520), (63, 63, False, Tr 562), (64, 64, False, Tr 263), (65, 90, False, St
      520), (95, 95, False, St 520), (97, 122, False, St 520), (126, 126, False, St 520)]"
  "state_edges uri_code 550 = [(33, 33, False, St 520), (35, 35, False, Tr 559), (36, 36, False, St
      520), (37, 37, False, St 253), (38, 45, False, St 520), (46, 46, False, St 548), (47, 47,
      False, Tr 560), (48, 57, False, St 547), (58, 58, False, Tr 576), (59, 59, False, St 520),
      (61, 61, False, St 520), (63, 63, False, Tr 562), (64, 64, False, Tr 263), (65, 90, False, St
      520), (95, 95, False, St 520), (97, 122, False, St 520), (126, 126, False, St 520)]"
  by (simp_all add: uri_code_def state_edges_append uri_state_nums) (simp_all add: uri_code_67_def)

lemma uri_edges_68:
  "state_edges uri_code 551 = [(33, 33, False, St 520), (35, 35, False, Tr 559), (36, 36, False, St
      520), (37, 37, False, St 253), (38, 45, False, St 520), (46, 46, False, St 548), (47, 47,
      False, Tr 560), (48, 52, False, St 547), (53, 53, False, St 552), (54, 57, False, St 547),
      (58, 58, False, Tr 576), (59, 59, False, St 520), (61, 61, False, St 520), (63, 63, False, Tr
      562), (64, 64, False, Tr 263), (65, 90, False, St 520), (95, 95, False, St 520), (97, 122,
      False, St 520), (126, 126, False, St 520)]"
  "state_edges uri_code 552 = [(33, 33, False, St 520), (35, 35, False, Tr 559), (36, 36, False, St
      520), (37, 37, False, St 253), (38, 45, False, St 520), (46, 46, False, St 548), (47, 47,
      False, Tr 560), (48, 53, False, St 547), (54, 57, False, St 520), (58, 58, False, Tr 576),
      (59, 59, False, St 520), (61, 61, False, St 520), (63, 63, False, Tr 562), (64, 64, False, Tr
      263), (65, 90, False, St 520), (95, 95, False, St 520), (97, 122, False, St 520), (126, 126,
      False, St 520)]"
  "state_edges uri_code 553 = [(33, 33, False, St 520), (35, 35, False, Tr 559), (36, 36, False, St
      520), (37, 37, False, St 253), (38, 45, False, St 520), (46, 46, False, St 546), (47, 47,
      False, Tr 560), (48, 57, False, St 554), (58, 58, False, Tr 576), (59, 59, False, St 520),
      (61, 61, False, St 520), (63, 63, False, Tr 562), (64, 64, False, Tr 263), (65, 90, False, St
      520), (95, 95, False, St 520), (97, 122, False, St 520), (126, 126, False, St 520)]"
  "state_edges uri_code 554 = [(33, 33, False, St 520), (35, 35, False, Tr 559), (36, 36, False, St
      520), (37, 37, False, St 253), (38, 45, False, St 520), (46, 46, False, St 546), (47, 47,
      False, Tr 560), (48, 57, False, St 545), (58, 58, False, Tr 576), (59, 59, False, St 520),
      (61, 61, False, St 520), (63, 63, False, Tr 562), (64, 64, False, Tr 263), (65, 90, False, St
      520), (95, 95, False, St 520), (97, 122, False, St 520), (126, 126, False, St 520)]"
  by (simp_all add: uri_code_def state_edges_append uri_state_nums) (simp_all add: uri_code_68_def)

lemma uri_edges_69:
  "state_edges uri_code 555 = [(33, 33, False, St 520), (35, 35, False, Tr 559), (36, 36, False, St
      520), (37, 37, False, St 253), (38, 45, False, St 520), (46, 46, False, St 546), (47, 47,
      False, Tr 560), (48, 52, False, St 545), (53, 53, False, St 556), (54, 57, False, St 545),
      (58, 58, False, Tr 576), (59, 59, False, St 520), (61, 61, False, St 520), (63, 63, False, Tr
      562), (64, 64, False, Tr 263), (65, 90, False, St 520), (95, 95, False, St 520), (97, 122,
      False, St 520), (126, 126, False, St 520)]"
  "state_edges uri_code 556 = [(33, 33, False, St 520), (35, 35, False, Tr 559), (36, 36, False, St
      520), (37, 37, False, St 253), (38, 45, False, St 520), (46, 46, False, St 546), (47, 47,
      False, Tr 560), (48, 53, False, St 545), (54, 57, False, St 520), (58, 58, False, Tr 576),
      (59, 59, False, St 520), (61, 61, False, St 520), (63, 63, False, Tr 562), (64, 64, False, Tr
      263), (65, 90, False, St 520), (95, 95, False, St 520), (97, 122, False, St 520), (126, 126,
      False, St 520)]"
  "state_edges uri_code 557 = [(33, 33, False, St 520), (35, 35, False, Tr 559), (36, 36, False, St
      520), (37, 37, False, St 253), (38, 45, False, St 520), (46, 46, False, St 544), (47, 47,
      False, Tr 560), (48, 57, False, St 558), (58, 58, False, Tr 576), (59, 59, False, St 520),
      (61, 61, False, St 520), (63, 63, False, Tr 562), (64, 64, False, Tr 263), (65, 90, False, St
      520), (95, 95, False, St 520), (97, 122, False, St 520), (126, 126, False, St 520)]"
  "state_edges uri_code 558 = [(33, 33, False, St 520), (35, 35, False, Tr 559), (36, 36, False, St
      520), (37, 37, False, St 253), (38, 45, False, St 520), (46, 46, False, St 544), (47, 47,
      False, Tr 560), (48, 57, False, St 543), (58, 58, False, Tr 576), (59, 59, False, St 520),
      (61, 61, False, St 520), (63, 63, False, Tr 562), (64, 64, False, Tr 263), (65, 90, False, St
      520), (95, 95, False, St 520), (97, 122, False, St 520), (126, 126, False, St 520)]"
  by (simp_all add: uri_code_def state_edges_append uri_state_nums) (simp_all add: uri_code_69_def)

lemma uri_edges_70:
  "state_edges uri_code 559 = [(33, 33, False, St 520), (35, 35, False, Tr 559), (36, 36, False, St
      520), (37, 37, False, St 253), (38, 45, False, St 520), (46, 46, False, St 544), (47, 47,
      False, Tr 560), (48, 52, False, St 543), (53, 53, False, St 560), (54, 57, False, St 543),
      (58, 58, False, Tr 576), (59, 59, False, St 520), (61, 61, False, St 520), (63, 63, False, Tr
      562), (64, 64, False, Tr 263), (65, 90, False, St 520), (95, 95, False, St 520), (97, 122,
      False, St 520), (126, 126, False, St 520)]"
  "state_edges uri_code 560 = [(33, 33, False, St 520), (35, 35, False, Tr 559), (36, 36, False, St
      520), (37, 37, False, St 253), (38, 45, False, St 520), (46, 46, False, St 544), (47, 47,
      False, Tr 560), (48, 53, False, St 543), (54, 57, False, St 520), (58, 58, False, Tr 576),
      (59, 59, False, St 520), (61, 61, False, St 520), (63, 63, False, Tr 562), (64, 64, False, Tr
      263), (65, 90, False, St 520), (95, 95, False, St 520), (97, 122, False, St 520), (126, 126,
      False, St 520)]"
  by (simp_all add: uri_code_def state_edges_append uri_state_nums) (simp_all add: uri_code_70_def)

lemma uri_targets_1:
  "trans_target uri_code 467 = Some ([Uri_mark, Save_query], 453)"
  "trans_target uri_code 469 = Some ([Save_query], 453)"
  "trans_target uri_code 548 = Some ([Uri_mark, Save_host, Save_path], 453)"
  "trans_target uri_code 559 = Some ([Save_host, Uri_mark, Save_path], 453)"
  by (simp_all add: uri_code_def trans_target_append uri_trans_nums) (simp_all add: uri_code_1_def)

lemma uri_targets_2:
  "trans_target uri_code 462 = Some ([Uri_mark], 454)"
  "trans_target uri_code 463 = Some ([Uri_mark], 1)"
  "trans_target uri_code 563 = Some ([Save_path], 453)"
  "trans_target uri_code 566 = Some ([Uri_mark, Save_port, Save_path], 453)"
  "trans_target uri_code 570 = Some ([Save_port, Uri_mark, Save_path], 453)"
  by (simp_all add: uri_code_def trans_target_append uri_trans_nums) (simp_all add: uri_code_2_def)

lemma uri_targets_4:
  "trans_target uri_code 466 = Some ([Uri_mark], 457)"
  "trans_target uri_code 468 = Some ([Uri_mark], 7)"
  "trans_target uri_code 556 = Some ([Uri_mark, Save_host, Save_path], 456)"
  "trans_target uri_code 562 = Some ([Save_host, Uri_mark, Save_path], 456)"
  "trans_target uri_code 565 = Some ([Save_path], 456)"
  "trans_target uri_code 569 = Some ([Uri_mark, Save_port, Save_path], 456)"
  "trans_target uri_code 573 = Some ([Save_port, Uri_mark, Save_path], 456)"
  by (simp_all add: uri_code_def trans_target_append uri_trans_nums) (simp_all add: uri_code_4_def)

lemma uri_targets_37:
  "trans_target uri_code 461 = Some ([Uri_mark], 508)"
  "trans_target uri_code 543 = Some ([Save_scheme], 509)"
  by (simp_all add: uri_code_def trans_target_append uri_trans_nums) (simp_all add: uri_code_37_def)

lemma uri_targets_38:
  "trans_target uri_code 546 = Some ([Uri_mark], 229)"
  by (simp_all add: uri_code_def trans_target_append uri_trans_nums) (simp_all add: uri_code_38_def)

lemma uri_targets_39:
  "trans_target uri_code 550 = Some ([Uri_mark, Save_host], 513)"
  "trans_target uri_code 560 = Some ([Save_host, Uri_mark], 513)"
  "trans_target uri_code 561 = Some ([Save_host], 514)"
  "trans_target uri_code 567 = Some ([Uri_mark, Save_port], 513)"
  "trans_target uri_code 571 = Some ([Save_port, Uri_mark], 513)"
  "trans_target uri_code 584 = Some ([Uri_mark, Save_host], 514)"
  by (simp_all add: uri_code_def trans_target_append uri_trans_nums) (simp_all add: uri_code_39_def)

lemma uri_targets_40:
  "trans_target uri_code 568 = Some ([Uri_mark], 515)"
  by (simp_all add: uri_code_def trans_target_append uri_trans_nums) (simp_all add: uri_code_40_def)

lemma uri_targets_41:
  "trans_target uri_code 547 = Some ([Uri_mark], 520)"
  "trans_target uri_code 549 = Some ([Uri_mark], 253)"
  "trans_target uri_code 555 = Some ([Uri_mark, Save_host], 521)"
  "trans_target uri_code 576 = Some ([Save_host], 521)"
  by (simp_all add: uri_code_def trans_target_append uri_trans_nums) (simp_all add: uri_code_41_def)

lemma uri_targets_42:
  "trans_target uri_code 263 = Some ([Save_userinfo], 522)"
  "trans_target uri_code 557 = Some ([Uri_mark, Save_userinfo], 522)"
  "trans_target uri_code 578 = Some ([Uri_mark], 523)"
  "trans_target uri_code 579 = Some ([Uri_mark], 258)"
  "trans_target uri_code 580 = Some ([Uri_mark], 524)"
  by (simp_all add: uri_code_def trans_target_append uri_trans_nums) (simp_all add: uri_code_42_def)

lemma uri_targets_45:
  "trans_target uri_code 581 = Some ([Uri_mark], 538)"
  by (simp_all add: uri_code_def trans_target_append uri_trans_nums) (simp_all add: uri_code_45_def)

lemma uri_targets_46:
  "trans_target uri_code 558 = Some ([Uri_mark], 260)"
  "trans_target uri_code 582 = Some ([Uri_mark], 540)"
  "trans_target uri_code 583 = Some ([Uri_mark], 539)"
  by (simp_all add: uri_code_def trans_target_append uri_trans_nums) (simp_all add: uri_code_46_def)

lemma uri_targets_66:
  "trans_target uri_code 551 = Some ([Uri_mark], 543)"
  "trans_target uri_code 577 = Some ([Uri_mark], 542)"
  by (simp_all add: uri_code_def trans_target_append uri_trans_nums) (simp_all add: uri_code_66_def)

lemma uri_targets_69:
  "trans_target uri_code 552 = Some ([Uri_mark], 557)"
  "trans_target uri_code 553 = Some ([Uri_mark], 559)"
  "trans_target uri_code 554 = Some ([Uri_mark], 558)"
  by (simp_all add: uri_code_def trans_target_append uri_trans_nums) (simp_all add: uri_code_69_def)

lemmas uri_table =
  uri_edges_1 uri_edges_2 uri_edges_3 uri_edges_4 uri_edges_5 uri_edges_37 uri_edges_38 uri_edges_39
  uri_edges_40 uri_edges_41 uri_edges_42 uri_edges_43 uri_edges_44 uri_edges_45 uri_edges_46
  uri_edges_66 uri_edges_67 uri_edges_68 uri_edges_69 uri_edges_70 uri_targets_1 uri_targets_2
  uri_targets_4 uri_targets_37 uri_targets_38 uri_targets_39 uri_targets_40 uri_targets_41
  uri_targets_42 uri_targets_45 uri_targets_46 uri_targets_66 uri_targets_69

end
