(* ===== verification/Uri_Parser.thy ===== *)
theory Uri_Parser
  imports Uri_Machine C_Number Net_Address
begin

text \<open>
  Model of \<^verbatim>\<open>src/src/uri.h\<close> and the hand-written part of \<^verbatim>\<open>src/src/uri.cpp\<close>: the parsed URI, its ports and
  its printing, and \<^verbatim>\<open>Uri::Create\<close> around the generated machine.
\<close>

section \<open>Uri\<close>

record Uri =
  u_scheme :: string
  u_userinfo :: string
  u_host :: string
  u_path :: string
  u_query :: string
  u_fragment :: string
  u_port :: u32

definition Uri_new :: Uri where
  "Uri_new = \<lparr>u_scheme = '''', u_userinfo = '''', u_host = '''', u_path = '''', u_query = '''', u_fragment = '''', u_port = 0\<rparr>"

definition Uri_getPort :: "Uri \<Rightarrow> int" where
  "Uri_getPort u =
     (if u_port u \<noteq> 0 then int32 (uint (u_port u))
      else if u_scheme u = ''http'' then 80 else if u_scheme u = ''https'' then 443 else int32 (uint (u_port u)))"

definition Uri_isDefaultPort :: "Uri \<Rightarrow> bool" where
  "Uri_isDefaultPort u =
     (if u_port u = 0 then True
      else if u_scheme u = ''http'' then u_port u = 80
      else if u_scheme u = ''https'' then u_port u = 443 else False)"

definition Uri_getPath :: "Uri \<Rightarrow> string" where
  "Uri_getPath u = (if u_path u = '''' then ''/'' else u_path u)"

definition Uri_dump :: "Uri \<Rightarrow> string" where
  "Uri_dump u =
     u_scheme u @ ''://'' @ u_userinfo u @ (if u_userinfo u = '''' then '''' else ''@'') @ u_host u
     @ (if Uri_isDefaultPort u then '''' else '':'' @ print_dec (u_port u)) @ ''/'' @ Uri_getPath u
     @ (if u_query u = '''' then '''' else ''?'') @ u_query u @ (if u_fragment u = '''' then '''' else ''#'') @ u_fragment u"

text \<open>\<^verbatim>\<open>setPort\<close> takes a \<^verbatim>\<open>uint16_t\<close>.\<close>

definition Uri_createAddress :: "resolver \<Rightarrow> Uri \<Rightarrow> addr_error + Address option" where
  "Uri_createAddress getaddrinfo u =
     rbind (Address_LookupIPAddress getaddrinfo (u_host u) (uint AF_INET) 0 0) (\<lambda>addr.
       Inr (map_option (IPAddress_setPort (word_of_int (Uri_getPort u))) addr))"

section \<open>Actions\<close>

text \<open>
  \<open>mark\<close> is an offset into the text, \<open>None\<close> for a null pointer. Building a \<^verbatim>\<open>std::string\<close> from a null pointer
  throws \<^verbatim>\<open>std::logic_error\<close>, reading a number from it is a crash: both are \<open>Inl\<close>.
\<close>

datatype uri_error = Uri_null

definition text_from :: "string \<Rightarrow> nat option \<Rightarrow> nat \<Rightarrow> uri_error + string" where
  "text_from s mark p = (case mark of None \<Rightarrow> Inl Uri_null | Some m \<Rightarrow> Inr (segment m (p - m) s))"

fun uri_act :: "string \<Rightarrow> uri_action \<Rightarrow> nat \<Rightarrow> Uri \<times> nat option \<Rightarrow> uri_error + (Uri \<times> nat option)" where
  "uri_act s Uri_mark fpc (u, mark) = Inr (u, Some fpc)"
| "uri_act s Save_scheme fpc (u, mark) = rbind (text_from s mark fpc) (\<lambda>t. Inr (u\<lparr>u_scheme := t\<rparr>, None))"
| "uri_act s Save_port fpc (u, mark) =
     (if mark = Some fpc then Inr (u, None)
      else case mark of None \<Rightarrow> Inl Uri_null | Some m \<Rightarrow> Inr (u\<lparr>u_port := word_of_int (atoi (drop m s))\<rparr>, None))"
| "uri_act s Save_userinfo fpc (u, mark) =
     (if mark = None then Inr (u, None) else rbind (text_from s mark fpc) (\<lambda>t. Inr (u\<lparr>u_userinfo := t\<rparr>, None)))"
| "uri_act s Save_host fpc (u, mark) =
     (if mark = None then Inr (u, mark) else rbind (text_from s mark fpc) (\<lambda>t. Inr (u\<lparr>u_host := t\<rparr>, mark)))"
| "uri_act s Save_path fpc (u, mark) = rbind (text_from s mark fpc) (\<lambda>t. Inr (u\<lparr>u_path := t\<rparr>, None))"
| "uri_act s Save_query fpc (u, mark) = rbind (text_from s mark fpc) (\<lambda>t. Inr (u\<lparr>u_query := t\<rparr>, None))"
| "uri_act s Save_fragment fpc (u, mark) = rbind (text_from s mark fpc) (\<lambda>t. Inr (u\<lparr>u_fragment := t\<rparr>, None))"

section \<open>Create\<close>

text \<open>The actions of the end of input are performed only when the machine has not stopped before.\<close>

definition Uri_Create :: "string \<Rightarrow> uri_error + Uri option" where
  "Uri_Create uri_str =
     (let (evs, cs, p) = code_run uri_step (\<lambda>_. False) uri_parser_start 0 uri_str;
          final = (if p = length uri_str then map (\<lambda>a. (a, p)) (uri_eof cs) else [])
      in rbind (run_acts (uri_act uri_str) (evs @ final) (Uri_new, None)) (\<lambda>(u, mark).
        Inr (if cs = uri_parser_error then None else if cs \<ge> uri_parser_first_final then Some u else None)))"

section \<open>Parts of a URI\<close>

abbreviation uri_parses ::
    "string \<Rightarrow> string \<Rightarrow> string \<Rightarrow> nat \<Rightarrow> Uri \<times> nat option \<Rightarrow> (nat \<Rightarrow> Uri \<times> nat option \<Rightarrow> bool) \<Rightarrow> bool" where
  "uri_parses \<equiv> parses uri_step (\<lambda>_. False) uri_act"

definition is_alpha :: "char \<Rightarrow> bool" where
  "is_alpha = code_in [(65, 90), (97, 122)]"

definition is_scheme_char :: "char \<Rightarrow> bool" where
  "is_scheme_char = code_in [(43, 43), (45, 46), (48, 57), (65, 90), (97, 122)]"

definition is_host_char :: "char \<Rightarrow> bool" where
  "is_host_char = code_in [(33, 33), (36, 36), (38, 46), (48, 57), (59, 59), (61, 61), (65, 90), (95, 95), (97, 122), (126, 126)]"

definition is_segment_char :: "char \<Rightarrow> bool" where
  "is_segment_char = code_in [(33, 33), (36, 36), (38, 59), (61, 61), (64, 90), (95, 95), (97, 122), (126, 126), (128, 255)]"

definition is_tail_char :: "char \<Rightarrow> bool" where
  "is_tail_char = code_in [(33, 33), (36, 36), (38, 59), (61, 61), (63, 90), (95, 95), (97, 122), (126, 126), (128, 255)]"

lemmas uri_classes = is_alpha_def is_scheme_char_def is_host_char_def is_segment_char_def is_tail_char_def is_xdigit_def

lemma tail_steps:
  "is_tail_char c \<Longrightarrow> uri_step 453 c = Some ([Uri_mark], 454)"
  "is_tail_char c \<Longrightarrow> uri_step 456 c = Some ([Uri_mark], 457)"
  "is_tail_char c \<Longrightarrow> uri_step 454 c = Some ([], 454)"
  "is_tail_char c \<Longrightarrow> uri_step 457 c = Some ([], 457)"
  "is_segment_char c \<Longrightarrow> uri_step 513 c = Some ([], 513)"
  "is_xdigit c \<Longrightarrow> uri_step 1 c = Some ([], 2)"
  "is_xdigit c \<Longrightarrow> uri_step 2 c = Some ([], 454)"
  "is_xdigit c \<Longrightarrow> uri_step 7 c = Some ([], 8)"
  "is_xdigit c \<Longrightarrow> uri_step 8 c = Some ([], 457)"
  "is_xdigit c \<Longrightarrow> uri_step 243 c = Some ([], 244)"
  "is_xdigit c \<Longrightarrow> uri_step 244 c = Some ([], 513)"
  unfolding uri_step_def uri_classes
  by (erule code_step_by, simp add: uri_table del: One_nat_def)+

lemma tail_delimiters:
  "uri_step 453 (CHR 0x25) = Some ([Uri_mark], 1)" "uri_step 454 (CHR 0x25) = Some ([], 1)"
  "uri_step 456 (CHR 0x25) = Some ([Uri_mark], 7)" "uri_step 457 (CHR 0x25) = Some ([], 7)"
  "uri_step 513 (CHR 0x25) = Some ([], 243)"
  "uri_step 456 (CHR ''#'') = Some ([Uri_mark, Save_query], 453)" "uri_step 457 (CHR ''#'') = Some ([Save_query], 453)"
  "uri_step 513 (CHR ''#'') = Some ([Save_path], 453)" "uri_step 513 (CHR ''?'') = Some ([Save_path], 456)"
  by (simp_all add: uri_step_def code_step_def uri_table)

text \<open>
  \<open>uri_done s cs um u\<close>: when the text \<open>s\<close> ends in the state \<open>cs\<close> with the object \<open>um\<close>, \<^verbatim>\<open>Create\<close> returns \<open>u\<close>.
\<close>

definition uri_done :: "string \<Rightarrow> nat \<Rightarrow> Uri \<times> nat option \<Rightarrow> Uri \<Rightarrow> bool" where
  "uri_done s cs um u \<longleftrightarrow> 451 \<le> cs \<and> (\<exists>m. run_acts (uri_act s) (map (\<lambda>a. (a, length s)) (uri_eof cs)) um = Inr (u, m))"

lemma Create_done:
  assumes "uri_parses [] s [] 451 (Uri_new, None) (\<lambda>cs um. uri_done s cs um u)"
  shows "Uri_Create s = Inr (Some u)"
proof -
  obtain evs cs um m where "passes uri_step (\<lambda>_. False) 451 0 s evs cs" "run_acts (uri_act s) evs (Uri_new, None) = Inr um"
      "451 \<le> cs" "run_acts (uri_act s) (map (\<lambda>a. (a, length s)) (uri_eof cs)) um = Inr (u, m)"
    using assms by (auto simp: parses_def uri_done_def)
  then show ?thesis
    using passes_run [of uri_step _ 451 0 s]
    by (simp add: Uri_Create_def uri_parser_start_def uri_parser_error_def uri_parser_first_final_def run_acts_append)
qed

text \<open>A query or a fragment behind its delimiter: marked at the first character.\<close>

lemma parses_tail:
  assumes "uri_text is_tail_char 0 t" "t \<noteq> []"
  shows "uri_parses pre t post 453 (u, m) (\<lambda>cs um. cs = 454 \<and> um = (u, Some (length pre)))"
    and "uri_parses pre t post 456 (u, m) (\<lambda>cs um. cs = 457 \<and> um = (u, Some (length pre)))"
proof -
  obtain c t' where t: "t = c # t'" using assms(2) by (cases t) auto
  have "passes uri_step (\<lambda>_. False) 453 (length pre) t (map (\<lambda>a. (a, length pre)) [Uri_mark]) 454"
    by (rule passes_uri_first [where ok = is_tail_char and ?s1.0 = 1 and ?s2.0 = 2, OF _ _ _ _ t assms(1)])
      (simp_all add: tail_steps tail_delimiters del: One_nat_def)
  then show "uri_parses pre t post 453 (u, m) (\<lambda>cs um. cs = 454 \<and> um = (u, Some (length pre)))"
    unfolding parses_def by fastforce
  have "passes uri_step (\<lambda>_. False) 456 (length pre) t (map (\<lambda>a. (a, length pre)) [Uri_mark]) 457"
    by (rule passes_uri_first [where ok = is_tail_char and ?s1.0 = 7 and ?s2.0 = 8, OF _ _ _ _ t assms(1)])
      (simp_all add: tail_steps tail_delimiters)
  then show "uri_parses pre t post 456 (u, m) (\<lambda>cs um. cs = 457 \<and> um = (u, Some (length pre)))"
    unfolding parses_def by fastforce
qed

lemma text_from_mid: "text_from (pre @ t @ post) (Some (length pre)) (length pre + length t) = Inr t"
  by (simp add: text_from_def segment_def)

lemma text_from_end: "text_from (pre @ t) (Some (length pre)) (length pre + length t) = Inr t"
  using text_from_mid [of pre t "[]"] by simp

lemma text_from_empty: "text_from s (Some p) p = Inr []"
  by (simp add: text_from_def segment_def)

lemma parses_fragment:
  assumes "uri_text is_tail_char 0 t"
  shows "uri_parses pre t [] 453 (u, m) (\<lambda>cs um. uri_done (pre @ t) cs um (u\<lparr>u_fragment := t\<rparr>))"
proof (cases "t = []")
  case True
  then show ?thesis by (auto intro!: parses_Nil simp: uri_done_def uri_eof_def text_from_empty)
next
  case False
  show ?thesis
    by (rule parses_mono [OF parses_tail(1) [OF assms False]]) (auto simp: uri_done_def uri_eof_def text_from_end)
qed

text \<open>An optional part behind its delimiter.\<close>

definition part :: "char \<Rightarrow> string option \<Rightarrow> string" where
  "part c = case_option '''' ((#) c)"

abbreviation (input) part_ok :: "string option \<Rightarrow> bool" where
  "part_ok t \<equiv> case_option True (uri_text is_tail_char 0) t"

lemma parses_opt_fragment:
  assumes "part_ok f" and "451 \<le> s" and "uri_step s (CHR ''#'') = Some (acts, 453)" and "uri_eof s = acts"
    and "run_acts (uri_act (pre @ part (CHR ''#'') f)) (map (\<lambda>a. (a, length pre)) acts) um = Inr (u1, m1)"
  shows "uri_parses pre (part (CHR ''#'') f) [] s um
    (\<lambda>cs um. uri_done (pre @ part (CHR ''#'') f) cs um (case_option u1 (\<lambda>t. u1\<lparr>u_fragment := t\<rparr>) f))"
proof (cases f)
  case None
  then show ?thesis using assms(2-5) by (auto intro!: parses_Nil simp: uri_done_def part_def)
next
  case (Some t)
  have "uri_parses (pre @ ''#'') t [] 453 (u1, m1) (\<lambda>cs um. uri_done ((pre @ ''#'') @ t) cs um (u1\<lparr>u_fragment := t\<rparr>))"
    by (rule parses_fragment) (use assms(1) Some in simp)
  then show ?thesis
    using assms(3,5) by (auto intro!: parses_Cons [where step = uri_step, OF assms(3)] simp: Some part_def list_ex_iff)
qed

definition with_parts :: "string option \<Rightarrow> string option \<Rightarrow> Uri \<Rightarrow> Uri" where
  "with_parts q f u = (let u1 = case_option u (\<lambda>t. u\<lparr>u_query := t\<rparr>) q in case_option u1 (\<lambda>t. u1\<lparr>u_fragment := t\<rparr>) f)"

lemma parses_query:
  assumes "uri_text is_tail_char 0 t" and "part_ok f"
  shows "uri_parses pre (t @ part (CHR ''#'') f) [] 456 (u, m)
    (\<lambda>cs um. uri_done (pre @ t @ part (CHR ''#'') f) cs um (with_parts (Some t) f u))"
proof (cases "t = []")
  case True
  then show ?thesis
    using parses_opt_fragment [OF assms(2), of 456 "[Uri_mark, Save_query]" pre "(u, m)" "u\<lparr>u_query := []\<rparr>" None]
    by (simp add: tail_delimiters uri_eof_def text_from_empty with_parts_def Let_def)
next
  case False
  have "uri_parses (pre @ t) (part (CHR ''#'') f) [] 457 (u, Some (length pre))
      (\<lambda>cs um. uri_done ((pre @ t) @ part (CHR ''#'') f) cs um (case_option (u\<lparr>u_query := t\<rparr>) (\<lambda>x. u\<lparr>u_query := t, u_fragment := x\<rparr>) f))"
    using parses_opt_fragment [OF assms(2), of 457 "[Save_query]" "pre @ t" "(u, Some (length pre))" "u\<lparr>u_query := t\<rparr>" None]
    by (simp add: tail_delimiters uri_eof_def text_from_mid)
  from parses_seq [OF parses_tail(2) [OF assms(1) False], where pre' = "pre @ t" and u = "part (CHR ''#'') f" and post = "[]"] this show ?thesis
    by (simp add: with_parts_def Let_def)
qed

lemma parses_parts:
  assumes "part_ok q" "part_ok f" and "451 \<le> s" and "uri_step s (CHR ''?'') = Some (acts, 456)"
    and "uri_step s (CHR ''#'') = Some (acts, 453)" and "uri_eof s = acts"
    and "run_acts (uri_act (pre @ part (CHR ''?'') q @ part (CHR ''#'') f)) (map (\<lambda>a. (a, length pre)) acts) um = Inr (u1, m1)"
  shows "uri_parses pre (part (CHR ''?'') q @ part (CHR ''#'') f) [] s um
    (\<lambda>cs um. uri_done (pre @ part (CHR ''?'') q @ part (CHR ''#'') f) cs um (with_parts q f u1))"
proof (cases q)
  case None
  then show ?thesis
    using parses_opt_fragment [OF assms(2,3,5,6), of pre um u1 m1] assms(7) by (simp add: part_def with_parts_def Let_def)
next
  case (Some t)
  have "uri_parses (pre @ ''?'') (t @ part (CHR ''#'') f) [] 456 (u1, m1)
      (\<lambda>cs um. uri_done ((pre @ ''?'') @ t @ part (CHR ''#'') f) cs um (with_parts (Some t) f u1))"
    by (rule parses_query) (use assms(1,2) Some in simp_all)
  then show ?thesis
    using assms(7) by (auto intro!: parses_Cons [where step = uri_step, OF assms(4)] simp: Some part_def list_ex_iff)
qed

text \<open>The end of the authority: a path, which may be empty, a query and a fragment.\<close>

definition path_ok :: "string \<Rightarrow> bool" where
  "path_ok s \<longleftrightarrow> s = [] \<or> (\<exists>t. s = CHR ''/'' # t \<and> uri_text is_segment_char 0 t)"

definition authority_end :: "nat \<Rightarrow> uri_action \<Rightarrow> bool" where
  "authority_end s X \<longleftrightarrow> 451 \<le> s \<and> uri_eof s = [X, Uri_mark, Save_path] \<and> uri_step s (CHR ''/'') = Some ([X, Uri_mark], 513)
     \<and> uri_step s (CHR ''?'') = Some ([X, Uri_mark, Save_path], 456) \<and> uri_step s (CHR ''#'') = Some ([X, Uri_mark, Save_path], 453)"

abbreviation (input) uri_tail :: "string \<Rightarrow> string option \<Rightarrow> string option \<Rightarrow> string" where
  "uri_tail path q f \<equiv> path @ part (CHR ''?'') q @ part (CHR ''#'') f"

lemma parses_path:
  assumes "path_ok path" "part_ok q" "part_ok f" and "authority_end s X"
    and X: "uri_act (pre @ uri_tail path q f) X (length pre) um = Inr (u1, m1)"
  shows "uri_parses pre (uri_tail path q f) [] s um
    (\<lambda>cs um. uri_done (pre @ uri_tail path q f) cs um (with_parts q f (u1\<lparr>u_path := path\<rparr>)))"
proof (cases "path = []")
  case True
  then show ?thesis
    using parses_parts [OF assms(2,3), of s "[X, Uri_mark, Save_path]" pre um "u1\<lparr>u_path := []\<rparr>" None] assms(4) X
    by (simp add: authority_end_def text_from_empty)
next
  case False
  then obtain t where t: "path = CHR ''/'' # t" "uri_text is_segment_char 0 t" using assms(1) by (auto simp: path_ok_def)
  have "passes uri_step (\<lambda>_. False) ([513, 244, 243] ! 0) (length (pre @ ''/'')) t [] 513"
    by (rule passes_uri [where ok = is_segment_char]) (use t(2) in \<open>simp_all add: tail_steps tail_delimiters\<close>)
  then have loop: "uri_parses (pre @ ''/'') t post 513 um1 (\<lambda>cs um. cs = 513 \<and> um = um1)" for post um1
    unfolding parses_def by (intro exI [of _ "[]"]) simp
  have parts: "uri_parses ((pre @ ''/'') @ t) (part (CHR ''?'') q @ part (CHR ''#'') f) [] 513 (u1, Some (length pre))
      (\<lambda>cs um. uri_done (pre @ uri_tail path q f) cs um (with_parts q f (u1\<lparr>u_path := path\<rparr>)))"
    using parses_parts [OF assms(2,3), of 513 "[Save_path]" "(pre @ ''/'') @ t" "(u1, Some (length pre))" "u1\<lparr>u_path := path\<rparr>" None]
      text_from_mid [of pre path "part (CHR ''?'') q @ part (CHR ''#'') f"]
    by (simp add: tail_delimiters uri_eof_def t(1))
  have "uri_parses (pre @ ''/'') (t @ part (CHR ''?'') q @ part (CHR ''#'') f) [] 513 (u1, Some (length pre))
      (\<lambda>cs um. uri_done (pre @ uri_tail path q f) cs um (with_parts q f (u1\<lparr>u_path := path\<rparr>)))"
    by (rule parses_append [OF loop]) (use parts in simp)
  then show ?thesis
    using assms(4) X
    by (auto intro!: parses_Cons [where step = uri_step and acts = "[X, Uri_mark]"] simp: authority_end_def t(1) list_ex_iff)
qed

section \<open>Authorities\<close>

text \<open>
  The states of a host, before an \<^verbatim>\<open>@\<close> may still come and behind it: the machine follows the numbers of an IPv4
  address along, but treats every character of a host alike.
\<close>

definition host_states :: "nat set" where
  "host_states = {520, 543, 544, 545, 546, 547, 548, 549, 550, 551, 552, 553, 554, 555, 556, 557, 558, 559, 560}"

definition host_states_at :: "nat set" where
  "host_states_at = {523, 524, 525, 526, 527, 528, 529, 530, 531, 532, 533, 534, 535, 536, 537, 538, 539, 540, 541}"

lemma host_loop:
  assumes "s \<in> host_states" "is_host_char c"
  shows "\<exists>m\<in>host_states. uri_step s c = Some ([], m)"
proof -
  have "list_all (covers_by (state_edges uri_code s) (\<lambda>l. l \<in> St ` host_states))
      [(33, 33), (36, 36), (38, 46), (48, 57), (59, 59), (61, 61), (65, 90), (95, 95), (97, 122), (126, 126)]"
    using assms(1) unfolding host_states_def insert_iff empty_iff by (elim disjE) (simp_all add: uri_table)
  from code_in_pick_by [OF assms(2) [unfolded is_host_char_def] this, of False]
  show ?thesis by (auto simp: uri_step_def code_step_def)
qed

lemma host_loop_at:
  assumes "s \<in> host_states_at" "is_host_char c"
  shows "\<exists>m\<in>host_states_at. uri_step s c = Some ([], m)"
proof -
  have "list_all (covers_by (state_edges uri_code s) (\<lambda>l. l \<in> St ` host_states_at))
      [(33, 33), (36, 36), (38, 46), (48, 57), (59, 59), (61, 61), (65, 90), (95, 95), (97, 122), (126, 126)]"
    using assms(1) unfolding host_states_at_def insert_iff empty_iff by (elim disjE) (simp_all add: uri_table)
  from code_in_pick_by [OF assms(2) [unfolded is_host_char_def] this, of False]
  show ?thesis by (auto simp: uri_step_def code_step_def)
qed

lemma host_start:
  assumes "is_host_char c"
  shows "\<exists>m\<in>host_states. uri_step 511 c = Some ([Uri_mark], m)" and "\<exists>m\<in>host_states_at. uri_step 522 c = Some ([Uri_mark], m)"
proof -
  let ?rs = "[(33, 33), (36, 36), (38, 46), (48, 57), (59, 59), (61, 61), (65, 90), (95, 95), (97, 122), (126, 126)]"
  have "list_all (covers_by (state_edges uri_code 511) (\<lambda>l. l \<in> Tr ` {547, 551, 552, 553, 554})) ?rs"
    by (simp add: uri_table)
  from code_in_pick_by [OF assms [unfolded is_host_char_def] this, of False]
  obtain k where "uri_step 511 c = trans_target uri_code k" "k \<in> {547, 551, 552, 553, 554}"
    by (auto simp: uri_step_def code_step_def)
  then show "\<exists>m\<in>host_states. uri_step 511 c = Some ([Uri_mark], m)"
    by (elim insertE emptyE) (simp_all add: uri_table host_states_def)
  have "list_all (covers_by (state_edges uri_code 522) (\<lambda>l. l \<in> Tr ` {578, 580, 581, 582, 583})) ?rs"
    by (simp add: uri_table)
  from code_in_pick_by [OF assms [unfolded is_host_char_def] this, of False]
  obtain k where "uri_step 522 c = trans_target uri_code k" "k \<in> {578, 580, 581, 582, 583}"
    by (auto simp: uri_step_def code_step_def)
  then show "\<exists>m\<in>host_states_at. uri_step 522 c = Some ([Uri_mark], m)"
    by (elim insertE emptyE) (simp_all add: uri_table host_states_at_def)
qed

lemma host_end_eof: "s \<in> host_states \<union> host_states_at \<Longrightarrow> uri_eof s = [Save_host, Uri_mark, Save_path] \<and> 451 \<le> s"
  unfolding host_states_def host_states_at_def by (elim UnE insertE emptyE; simp add: uri_eof_def)

lemma host_end_step:
  "s \<in> host_states \<Longrightarrow> list_all (\<lambda>(c, r). uri_step s c = Some r) [(CHR ''/'', [Save_host, Uri_mark], 513),
     (CHR ''?'', [Save_host, Uri_mark, Save_path], 456), (CHR ''#'', [Save_host, Uri_mark, Save_path], 453),
     (CHR '':'', [Save_host], 521), (CHR ''@'', [Save_userinfo], 522)]"
  "s \<in> host_states_at \<Longrightarrow> list_all (\<lambda>(c, r). uri_step s c = Some r) [(CHR ''/'', [Save_host, Uri_mark], 513),
     (CHR ''?'', [Save_host, Uri_mark, Save_path], 456), (CHR ''#'', [Save_host, Uri_mark, Save_path], 453),
     (CHR '':'', [Save_host], 514)]"
  unfolding host_states_def host_states_at_def
  by (elim insertE emptyE; simp add: uri_step_def code_step_def uri_table)+

lemma host_end:
  "s \<in> host_states \<Longrightarrow> authority_end s Save_host"
  "s \<in> host_states \<Longrightarrow> uri_step s (CHR '':'') = Some ([Save_host], 521)"
  "s \<in> host_states \<Longrightarrow> uri_step s (CHR ''@'') = Some ([Save_userinfo], 522)"
  "s \<in> host_states_at \<Longrightarrow> authority_end s Save_host"
  "s \<in> host_states_at \<Longrightarrow> uri_step s (CHR '':'') = Some ([Save_host], 514)"
  using host_end_step host_end_eof by (auto simp: authority_end_def)

lemma port_steps:
  "code_in [(48, 57)] c \<Longrightarrow> uri_step 521 c = Some ([Uri_mark], 542)"
  "code_in [(48, 57)] c \<Longrightarrow> uri_step 514 c = Some ([Uri_mark], 515)"
  "code_in [(48, 57)] c \<Longrightarrow> uri_step 542 c = Some ([], 542)"
  "code_in [(48, 57)] c \<Longrightarrow> uri_step 515 c = Some ([], 515)"
  unfolding uri_step_def by (erule code_step_by, simp add: uri_table)+

lemma port_end: "authority_end 542 Save_port" "authority_end 515 Save_port"
  by (simp_all add: authority_end_def uri_step_def code_step_def uri_table uri_eof_def)

lemma scheme_steps:
  "is_alpha c \<Longrightarrow> uri_step 451 c = Some ([Uri_mark], 508)"
  "is_scheme_char c \<Longrightarrow> uri_step 508 c = Some ([], 508)"
  unfolding uri_step_def uri_classes by (erule code_step_by, simp add: uri_table)+

lemma scheme_end: "uri_step 508 (CHR '':'') = Some ([Save_scheme], 509)" "uri_step 509 (CHR ''/'') = Some ([], 510)"
    "uri_step 510 (CHR ''/'') = Some ([], 511)"
  by (simp_all add: uri_step_def code_step_def uri_table)

section \<open>Whole URIs\<close>

lemma parses_host:
  assumes "list_all is_host_char h" "h \<noteq> []"
  shows "uri_parses pre h post 511 (u, m) (\<lambda>cs um. cs \<in> host_states \<and> um = (u, Some (length pre)))"
    and "uri_parses pre h post 522 (u, m) (\<lambda>cs um. cs \<in> host_states_at \<and> um = (u, Some (length pre)))"
proof -
  obtain c t where h: "h = c # t" "is_host_char c" "list_all is_host_char t" using assms by (cases h) auto
  have "uri_parses (pre @ [c]) t post s um1 (\<lambda>cs um. cs \<in> host_states \<and> um = um1)" if "s \<in> host_states" for s um1
    by (rule parses_within [where C = is_host_char]) (simp_all add: host_loop that h(3))
  then show "uri_parses pre h post 511 (u, m) (\<lambda>cs um. cs \<in> host_states \<and> um = (u, Some (length pre)))"
    using host_start(1) [OF h(2)] by (auto intro!: parses_Cons simp: h(1) list_ex_iff)
  have "uri_parses (pre @ [c]) t post s um1 (\<lambda>cs um. cs \<in> host_states_at \<and> um = um1)" if "s \<in> host_states_at" for s um1
    by (rule parses_within [where C = is_host_char]) (simp_all add: host_loop_at that h(3))
  then show "uri_parses pre h post 522 (u, m) (\<lambda>cs um. cs \<in> host_states_at \<and> um = (u, Some (length pre)))"
    using host_start(2) [OF h(2)] by (auto intro!: parses_Cons simp: h(1) list_ex_iff)
qed

definition port_part :: "u32 option \<Rightarrow> string" where
  "port_part = case_option '''' (\<lambda>n. CHR '':'' # print_dec n)"

lemma print_dec_digits: "list_all (code_in [(48, 57)]) (print_dec n)" "print_dec n \<noteq> []"
  using set_print_nat [of 10 "unat n"] print_nat_ne
  by (auto simp: list_all_iff print_dec_def code_in_def digit_char_def)

lemma tail_no_digit: "path_ok path \<Longrightarrow> uri_tail path q f = [] \<or> \<not> digit_val (hd (uri_tail path q f)) < 10"
  by (auto simp: path_ok_def part_def digit_val_def split: option.splits)

text \<open>Behind the host, whose start is marked, in a state \<open>s\<close> with the states \<open>ps\<close> and \<open>pd\<close> of the port.\<close>

lemma parses_behind_host:
  assumes s: "authority_end s Save_host" "uri_step s (CHR '':'') = Some ([Save_host], ps)"
      "\<And>c. code_in [(48, 57)] c \<Longrightarrow> uri_step ps c = Some ([Uri_mark], pd)"
      "\<And>c. code_in [(48, 57)] c \<Longrightarrow> uri_step pd c = Some ([], pd)" "authority_end pd Save_port"
    and ok: "path_ok path" "part_ok q" "part_ok f"
    and B: "B = pre @ h @ port_part port @ uri_tail path q f"
  shows "uri_parses (pre @ h) (port_part port @ uri_tail path q f) [] s (u, Some (length pre))
    (\<lambda>cs um. uri_done B cs um (with_parts q f (u\<lparr>u_host := h, u_port := case_option (u_port u) id port, u_path := path\<rparr>)))"
proof (cases port)
  case None
  have "uri_act B Save_host (length (pre @ h)) (u, Some (length pre)) = Inr (u\<lparr>u_host := h\<rparr>, Some (length pre))"
    by (simp add: B text_from_mid)
  with parses_path [OF ok s(1), of "pre @ h" "(u, Some (length pre))" "u\<lparr>u_host := h\<rparr>" "Some (length pre)"] show ?thesis
    by (simp add: None port_part_def B)
next
  case (Some n)
  let ?d = "print_dec n" and ?u = "u\<lparr>u_host := h\<rparr>" and ?pre = "(pre @ h) @ '':''"
  obtain c d where d: "?d = c # d" "code_in [(48, 57)] c" "list_all (code_in [(48, 57)]) d"
    using print_dec_digits [of n] by (cases ?d) auto
  have "uri_parses (?pre @ [c]) d (uri_tail path q f) pd um1 (\<lambda>cs um. cs \<in> {pd} \<and> um = um1)" for um1
    by (rule parses_within [where C = "code_in [(48, 57)]"]) (simp_all add: s(4) d(3))
  then have digits: "uri_parses ?pre ?d (uri_tail path q f) ps (?u, Some (length pre))
      (\<lambda>cs um. cs = pd \<and> um = (?u, Some (length ?pre)))"
    unfolding d(1) by (auto intro!: parses_Cons [where step = uri_step, OF s(3) [OF d(2)]] simp: list_ex_iff)
  have "drop (length ?pre) B = ?d @ uri_tail path q f" by (simp add: B Some port_part_def)
  moreover have "word_of_int (atoi (?d @ uri_tail path q f)) = n" by (rule atoi_status) (rule tail_no_digit [OF ok(1)])
  ultimately have "uri_act ((?pre @ ?d) @ uri_tail path q f) Save_port (length (?pre @ ?d)) (?u, Some (length ?pre)) = Inr (?u\<lparr>u_port := n\<rparr>, None)"
    using d(1) by (simp add: B Some port_part_def)
  from parses_path [OF ok s(5) this]
  have tail: "uri_parses (?pre @ ?d) (uri_tail path q f) [] pd (?u, Some (length ?pre))
      (\<lambda>cs um. uri_done B cs um (with_parts q f (u\<lparr>u_host := h, u_port := n, u_path := path\<rparr>)))"
    by (simp add: B Some port_part_def)
  have "uri_parses ?pre (?d @ uri_tail path q f) [] ps (?u, Some (length pre))
      (\<lambda>cs um. uri_done B cs um (with_parts q f (u\<lparr>u_host := h, u_port := n, u_path := path\<rparr>)))"
    by (rule parses_seq [OF digits]) (use tail in simp_all)
  then show ?thesis
    by (auto intro!: parses_Cons [where step = uri_step, OF s(2)] simp: Some port_part_def list_ex_iff text_from_mid)
qed

definition userinfo_part :: "string option \<Rightarrow> string" where
  "userinfo_part = case_option '''' (\<lambda>i. i @ ''@'')"

definition uri_string :: "string \<Rightarrow> string option \<Rightarrow> string \<Rightarrow> u32 option \<Rightarrow> string \<Rightarrow> string option \<Rightarrow> string option \<Rightarrow> string" where
  "uri_string scheme ui h port path q f = scheme @ ''://'' @ userinfo_part ui @ h @ port_part port @ uri_tail path q f"

lemma parses_after_at:
  assumes h: "list_all is_host_char h" "h \<noteq> []" and ok: "path_ok path" "part_ok q" "part_ok f"
    and B: "B = pre @ h @ port_part port @ uri_tail path q f"
  shows "uri_parses pre (h @ port_part port @ uri_tail path q f) [] 522 (u, m)
    (\<lambda>cs um. uri_done B cs um (with_parts q f (u\<lparr>u_host := h, u_port := case_option (u_port u) id port, u_path := path\<rparr>)))"
proof -
  have "uri_parses (pre @ h) (port_part port @ uri_tail path q f) [] s (u, Some (length pre))
      (\<lambda>cs um. uri_done B cs um (with_parts q f (u\<lparr>u_host := h, u_port := case_option (u_port u) id port, u_path := path\<rparr>)))"
    if "s \<in> host_states_at" for s
    by (rule parses_behind_host [where ps = 514 and pd = 515])
      (use that in \<open>simp_all add: host_end port_steps port_end ok B\<close>)
  then show ?thesis by (intro parses_append [OF parses_host(2) [OF h]]) auto
qed

lemma parses_authority:
  assumes "case_option True (\<lambda>i. list_all is_host_char i \<and> i \<noteq> []) ui" and h: "list_all is_host_char h" "h \<noteq> []"
    and ok: "path_ok path" "part_ok q" "part_ok f"
    and B: "B = pre @ userinfo_part ui @ h @ port_part port @ uri_tail path q f"
  shows "uri_parses pre (userinfo_part ui @ h @ port_part port @ uri_tail path q f) [] 511 (u, None)
    (\<lambda>cs um. uri_done B cs um (with_parts q f (u\<lparr>u_userinfo := case_option (u_userinfo u) id ui, u_host := h,
       u_port := case_option (u_port u) id port, u_path := path\<rparr>)))"
proof (cases ui)
  case None
  have "uri_parses (pre @ h) (port_part port @ uri_tail path q f) [] s (u, Some (length pre))
    (\<lambda>cs um. uri_done B cs um (with_parts q f (u\<lparr>u_host := h, u_port := case_option (u_port u) id port, u_path := path\<rparr>)))"
    if "s \<in> host_states" for s
    by (rule parses_behind_host [where ps = 521 and pd = 542])
      (use that in \<open>simp_all add: host_end port_steps port_end ok B None userinfo_part_def\<close>)
  then have "uri_parses pre (h @ port_part port @ uri_tail path q f) [] 511 (u, None)
      (\<lambda>cs um. uri_done B cs um (with_parts q f (u\<lparr>u_host := h, u_port := case_option (u_port u) id port, u_path := path\<rparr>)))"
    by (intro parses_append [OF parses_host(1) [OF h]]) auto
  then show ?thesis by (simp add: None userinfo_part_def)
next
  case (Some i)
  let ?u = "u\<lparr>u_userinfo := i\<rparr>" and ?pre = "(pre @ i) @ ''@''"
  have i: "list_all is_host_char i" "i \<noteq> []" using assms(1) Some by simp_all
  let ?Q = "\<lambda>cs um. uri_done B cs um (with_parts q f (?u\<lparr>u_host := h, u_port := case_option (u_port u) id port, u_path := path\<rparr>))"
  have "uri_parses ?pre (h @ port_part port @ uri_tail path q f) [] 522 (?u, None) ?Q"
    using parses_after_at [OF h ok, where pre = ?pre and port = port and B = B and u = ?u and m = None]
    by (simp add: B Some userinfo_part_def cong: option.case_cong)
  then have at: "uri_parses (pre @ i) (CHR ''@'' # h @ port_part port @ uri_tail path q f) [] s (u, Some (length pre)) ?Q"
    if "s \<in> host_states" for s
    by (intro parses_Cons [where step = uri_step, OF host_end(3) [OF that]]) (auto simp: list_ex_iff text_from_mid)
  have "uri_parses pre (i @ (CHR ''@'' # h @ port_part port @ uri_tail path q f)) [] 511 (u, None) ?Q"
    by (rule parses_append [OF parses_host(1) [OF i]]) (use at in auto)
  then show ?thesis by (simp add: Some userinfo_part_def)
qed

definition scheme_ok :: "string \<Rightarrow> bool" where
  "scheme_ok s \<longleftrightarrow> s \<noteq> [] \<and> is_alpha (hd s) \<and> list_all is_scheme_char (tl s)"

lemma parses_scheme:
  assumes "scheme_ok scheme" and "uri_parses (scheme @ ''://'') a post 511 (Uri_new\<lparr>u_scheme := scheme\<rparr>, None) Q"
  shows "uri_parses [] (scheme @ ''://'' @ a) post 451 (Uri_new, None) Q"
proof -
  obtain c cs where s: "scheme = c # cs" "is_alpha c" "list_all is_scheme_char cs"
    using assms(1) by (cases scheme) (auto simp: scheme_ok_def)
  have "uri_parses [c] cs (''://'' @ a @ post) 508 um1 (\<lambda>s um. s \<in> {508} \<and> um = um1)" for um1
    by (rule parses_within [where C = is_scheme_char]) (simp_all add: scheme_steps s(3))
  then have sch: "uri_parses [] scheme (''://'' @ a @ post) 451 (Uri_new, None) (\<lambda>s um. s = 508 \<and> um = (Uri_new, Some 0))"
    unfolding s(1) by (auto intro!: parses_Cons [where step = uri_step, OF scheme_steps(1) [OF s(2)]] simp: list_ex_iff)
  have "uri_parses scheme (''://'' @ a) post 508 (Uri_new, Some 0) Q"
    using assms(2) text_from_mid [of "[]" scheme]
    by (auto intro!: parses_Cons [where step = uri_step, OF scheme_end(1)] parses_Cons [where step = uri_step, OF scheme_end(2)]
        parses_Cons [where step = uri_step, OF scheme_end(3)] simp: list_ex_iff)
  then show ?thesis by (intro parses_seq [OF sch]) auto
qed

abbreviation (input) user_ok :: "string option \<Rightarrow> bool" where
  "user_ok ui \<equiv> case_option True (\<lambda>i. list_all is_host_char i \<and> i \<noteq> []) ui"

abbreviation (input) opt_text :: "string option \<Rightarrow> string" where
  "opt_text t \<equiv> case_option '''' id t"

lemma Create_uri_string:
  assumes "scheme_ok scheme" "user_ok ui" "list_all is_host_char h" "h \<noteq> []" "path_ok path" "part_ok q" "part_ok f"
  shows "Uri_Create (uri_string scheme ui h port path q f) = Inr (Some \<lparr>u_scheme = scheme, u_userinfo = opt_text ui, u_host = h,
     u_path = path, u_query = opt_text q, u_fragment = opt_text f, u_port = case_option 0 id port\<rparr>)"
proof -
  let ?s = "uri_string scheme ui h port path q f" and ?u = "Uri_new\<lparr>u_scheme := scheme\<rparr>"
  let ?a = "userinfo_part ui @ h @ port_part port @ uri_tail path q f"
  define v where "v = with_parts q f (?u\<lparr>u_userinfo := case_option (u_userinfo ?u) id ui, u_host := h,
       u_port := case_option (u_port ?u) id port, u_path := path\<rparr>)"
  have "uri_parses (scheme @ ''://'') ?a [] 511 (?u, None) (\<lambda>cs um. uri_done ?s cs um v)"
    unfolding v_def by (rule parses_authority [OF assms(2-7)]) (simp add: uri_string_def)
  from Create_done [OF parses_scheme [OF assms(1) this, folded uri_string_def]] have "Uri_Create ?s = Inr (Some v)" .
  moreover have "v = \<lparr>u_scheme = scheme, u_userinfo = opt_text ui, u_host = h, u_path = path,
           u_query = opt_text q, u_fragment = opt_text f, u_port = case_option 0 id port\<rparr>"
    unfolding v_def by (cases q; cases f) (simp_all add: with_parts_def Uri_new_def cong: option.case_cong)
  ultimately show ?thesis by simp
qed

text \<open>
  (C7) \<^verbatim>\<open>Uri::Create\<close> finds the parts of a URI of the form \<open>scheme://[user@]host[:port][path][?query][#fragment]\<close> (and of no other
  form: see \<open>Uri_forms_misread\<close> for URIs without an authority, users with a colon and empty ports): for every scheme, an optional user without a colon, a host of letters,
  digits, dots and the other characters of a registered name (IPv4 addresses among them), an optional
  port below 2 ^ 32, an optional path, query and fragment with percent encoded or non-ASCII bytes, the
  returned \<^verbatim>\<open>Uri\<close> has exactly these parts. \<^verbatim>\<open>getPort\<close> then gives the port that was written (as a signed
  number), or the default of the scheme.
\<close>

theorem Uri_Create_parts:
  assumes "scheme_ok scheme" and "case_option True (\<lambda>i. list_all is_host_char i \<and> i \<noteq> []) ui"
    and "list_all is_host_char h" "h \<noteq> []"
    and "path_ok path" "case_option True (uri_text is_tail_char 0) q" "case_option True (uri_text is_tail_char 0) f"
  shows "\<exists>u. Uri_Create (uri_string scheme ui h port path q f) = Inr (Some u)
    \<and> u_scheme u = scheme \<and> u_userinfo u = case_option '''' id ui \<and> u_host u = h \<and> u_path u = path
    \<and> u_query u = case_option '''' id q \<and> u_fragment u = case_option '''' id f
    \<and> Uri_getPort u = (if port = None \<or> port = Some 0
         then if scheme = ''http'' then 80 else if scheme = ''https'' then 443 else 0 else sint (the port))"
  unfolding Create_uri_string [OF assms] by (auto simp: Uri_getPort_def int32_def split: option.splits)

theorem Uri_Create_parts_witness:
  "\<exists>u. Uri_Create ''http://me@10.0.0.255:8080/a%20b?x=1#top'' = Inr (Some u)
    \<and> u_scheme u = ''http'' \<and> u_userinfo u = ''me'' \<and> u_host u = ''10.0.0.255'' \<and> u_path u = ''/a%20b'' \<and> u_query u = ''x=1'' \<and> u_fragment u = ''top''
    \<and> Uri_getPort u = 8080"
proof -
  have "uri_string ''http'' (Some ''me'') ''10.0.0.255'' (Some 8080) ''/a%20b'' (Some ''x=1'') (Some ''top'')
      = ''http://me@10.0.0.255:8080/a%20b?x=1#top''"
    by (simp add: uri_string_def userinfo_part_def port_part_def part_def print_dec_def print_nat.simps digit_char_def
        char_of_def bit_0 bit_Suc)
  moreover have "path_ok ''/a%20b''"
    by (simp add: path_ok_def uri_classes code_in_def numeral_2_eq_2)
  ultimately show ?thesis
    using Uri_Create_parts [where scheme = "''http''" and ui = "Some ''me''" and h = "''10.0.0.255''" and port = "Some 8080"
        and path = "''/a%20b''" and q = "Some ''x=1''" and f = "Some ''top''"]
    by (simp add: scheme_ok_def uri_classes code_in_def)
qed

section \<open>Printing\<close>

definition uri_ok :: "Uri \<Rightarrow> bool" where
  "uri_ok u \<longleftrightarrow> scheme_ok (u_scheme u) \<and> list_all is_host_char (u_userinfo u) \<and> list_all is_host_char (u_host u) \<and> u_host u \<noteq> []
     \<and> path_ok (u_path u) \<and> uri_text is_tail_char 0 (u_query u) \<and> uri_text is_tail_char 0 (u_fragment u)"

definition nonempty :: "string \<Rightarrow> string option" where
  "nonempty s = (if s = [] then None else Some s)"

lemma dump_uri_string:
  "Uri_dump u = uri_string (u_scheme u) (nonempty (u_userinfo u)) (u_host u) (if Uri_isDefaultPort u then None else Some (u_port u))
     (CHR ''/'' # Uri_getPath u) (nonempty (u_query u)) (nonempty (u_fragment u))"
  by (simp add: Uri_dump_def uri_string_def userinfo_part_def port_part_def part_def nonempty_def)

lemma slash_segment: "path_ok p \<Longrightarrow> uri_text is_segment_char 0 p"
  by (auto simp: path_ok_def is_segment_char_def code_in_def)

text \<open>
  What \<^verbatim>\<open>toString\<close> prints is parsed back with the same scheme, user, host, query and fragment, and
  \<^verbatim>\<open>getPort\<close> of the result is the same; but the path gets one more slash at its front every time, because
  \<^verbatim>\<open>dump\<close> prints a slash before a path that already starts with one.
\<close>

theorem Uri_dump_reparsed:
  assumes "uri_ok u"
  shows "\<exists>v. Uri_Create (Uri_dump u) = Inr (Some v) \<and> uri_ok v \<and> u_scheme v = u_scheme u \<and> u_userinfo v = u_userinfo u
    \<and> u_host v = u_host u \<and> u_query v = u_query u \<and> u_fragment v = u_fragment u \<and> Uri_getPort v = Uri_getPort u
    \<and> u_path v = CHR ''/'' # Uri_getPath u"
proof -
  have p: "path_ok (CHR ''/'' # Uri_getPath u)"
    using assms slash_segment [of "u_path u"]
    by (auto simp: Uri_getPath_def path_ok_def uri_ok_def is_segment_char_def code_in_def)
  have o: "case_option '''' id (nonempty t) = t" for t by (simp add: nonempty_def)
  let ?v = "\<lparr>u_scheme = u_scheme u, u_userinfo = u_userinfo u, u_host = u_host u, u_path = CHR ''/'' # Uri_getPath u,
    u_query = u_query u, u_fragment = u_fragment u, u_port = if Uri_isDefaultPort u then 0 else u_port u\<rparr>"
  have "Uri_Create (Uri_dump u) = Inr (Some ?v)"
    using Create_uri_string [of "u_scheme u" "nonempty (u_userinfo u)" "u_host u" "CHR ''/'' # Uri_getPath u"
        "nonempty (u_query u)" "nonempty (u_fragment u)" "if Uri_isDefaultPort u then None else Some (u_port u)"] assms p
    unfolding dump_uri_string o by (simp add: uri_ok_def nonempty_def)
  moreover have "uri_ok ?v" using assms p by (simp add: uri_ok_def)
  moreover have "Uri_getPort ?v = Uri_getPort u" by (auto simp: Uri_getPort_def Uri_isDefaultPort_def int32_def)
  ultimately show ?thesis by (intro exI [of _ ?v]) simp
qed

theorem Uri_dump_reparsed_witness:
  "\<exists>v. Uri_Create (Uri_dump \<lparr>u_scheme = ''https'', u_userinfo = '''', u_host = ''h'', u_path = ''/x'', u_query = '''', u_fragment = '''',
       u_port = 443\<rparr>) = Inr (Some v) \<and> u_path v = ''//x'' \<and> Uri_getPort v = 443"
  using Uri_dump_reparsed [of "\<lparr>u_scheme = ''https'', u_userinfo = '''', u_host = ''h'', u_path = ''/x'', u_query = '''',
      u_fragment = '''', u_port = 443\<rparr>"]
  by (auto simp: uri_ok_def scheme_ok_def uri_classes code_in_def path_ok_def Uri_getPath_def Uri_getPort_def int32_def)

section \<open>Forms that are misread\<close>

lemma Create_fails:
  assumes "uri_parses [] t post 451 (Uri_new, None) (\<lambda>cs um. \<exists>acts m.
      (if post = [] then uri_eof cs = acts else uri_step cs (hd post) = Some (acts, m))
      \<and> run_acts (uri_act (t @ post)) (map (\<lambda>a. (a, length t)) acts) um = Inl e)"
  shows "Uri_Create (t @ post) = Inl e"
proof -
  obtain evs cs um acts m where p: "passes uri_step (\<lambda>_. False) 451 0 t evs cs"
      "run_acts (uri_act (t @ post)) evs (Uri_new, None) = Inr um"
      "if post = [] then uri_eof cs = acts else uri_step cs (hd post) = Some (acts, m)"
      "run_acts (uri_act (t @ post)) (map (\<lambda>a. (a, length t)) acts) um = Inl e"
    using assms by (auto simp: parses_def)
  have nf: "list_ex (\<lambda>_. False) acts = False" by (induction acts) auto
  show ?thesis
  proof (cases post)
    case Nil
    then show ?thesis
      using p passes_run [OF p(1)]
      by (simp add: Uri_Create_def uri_parser_start_def run_acts_append)
  next
    case (Cons c r)
    obtain evs' cs' p' where r: "code_run uri_step (\<lambda>_. False) m (length t + 1) r = (evs', cs', p')"
      by (metis prod_cases3)
    have "code_run uri_step (\<lambda>_. False) 451 0 (t @ post) = (evs @ map (\<lambda>a. (a, length t)) acts @ evs', cs', p')"
      using p(1,3) r nf by (simp add: passes_def Cons)
    then show ?thesis
      using p(2,4) by (simp add: Uri_Create_def uri_parser_start_def run_acts_append)
  qed
qed

lemma colon_steps:
  "uri_step 521 (CHR ''/'') = Some ([Uri_mark, Save_port], 513)"
  "uri_step 521 (CHR ''?'') = Some ([Uri_mark, Save_port, Save_path], 456)"
  "uri_step 521 (CHR ''#'') = Some ([Uri_mark, Save_port, Save_path], 453)"
  "uri_step 542 (CHR ''@'') = Some ([Save_userinfo], 522)"
  "uri_step 451 (CHR ''/'') = Some ([], 458)"
  "uri_step 458 (CHR 0x25) = Some ([], 5)" "uri_step 455 (CHR 0x25) = Some ([], 5)"
  by (simp_all add: uri_step_def code_step_def uri_table)

lemma relative_steps:
  "is_segment_char c \<Longrightarrow> uri_step 455 c = Some ([], 455)"
  "code_in [(33, 33), (36, 36), (38, 46), (48, 59), (61, 61), (64, 90), (95, 95), (97, 122), (126, 126), (128, 255)] c
    \<Longrightarrow> uri_step 458 c = Some ([], 455)"
  "is_xdigit c \<Longrightarrow> uri_step 5 c = Some ([], 6)"
  "is_xdigit c \<Longrightarrow> uri_step 6 c = Some ([], 455)"
  unfolding uri_step_def uri_classes by (erule code_step_by, simp add: uri_table)+

text \<open>The host, a colon and nothing that is a port.\<close>

lemma parses_colon:
  assumes "scheme_ok scheme" "list_all is_host_char h" "h \<noteq> []"
  shows "uri_parses [] (scheme @ ''://'' @ h @ '':'') post 451 (Uri_new, None)
    (\<lambda>cs um. cs = 521 \<and> um = (Uri_new\<lparr>u_scheme := scheme, u_host := h\<rparr>, Some (length (scheme @ ''://''))))"
proof (rule parses_scheme [OF assms(1)], rule parses_append [OF parses_host(1) [OF assms(2,3)]], elim conjE)
  fix s um
  assume "s \<in> host_states" "um = (Uri_new\<lparr>u_scheme := scheme\<rparr>, Some (length (scheme @ ''://'')))"
  then show "uri_parses ((scheme @ ''://'') @ h) '':'' post s um
      (\<lambda>cs um. cs = 521 \<and> um = (Uri_new\<lparr>u_scheme := scheme, u_host := h\<rparr>, Some (length (scheme @ ''://''))))"
    using text_from_mid [of "scheme @ ''://''" h "CHR '':'' # post"]
    by (auto intro!: parses_Cons [where step = uri_step, OF host_end(2)] parses_Nil simp: list_ex_iff)
qed

lemma empty_port_throws:
  assumes "scheme_ok scheme" "list_all is_host_char h" "h \<noteq> []" "path_ok path"
  shows "Uri_Create (scheme @ ''://'' @ h @ '':'' @ uri_tail path q f) = Inl Uri_null"
proof (cases "path = []")
  case True
  let ?post = "part (CHR ''?'') q @ part (CHR ''#'') f"
  have "Uri_Create ((scheme @ ''://'' @ h @ '':'') @ ?post) = Inl Uri_null"
    by (rule Create_fails, rule parses_mono [OF parses_colon [OF assms(1-3)]])
      (auto simp: part_def uri_eof_def colon_steps text_from_def split: option.splits)
  then show ?thesis by (simp add: True)
next
  case False
  then obtain t where t: "path = CHR ''/'' # t" "uri_text is_segment_char 0 t" using assms(4) by (auto simp: path_ok_def)
  let ?t = "(scheme @ ''://'' @ h @ '':'') @ path" and ?post = "part (CHR ''?'') q @ part (CHR ''#'') f"
  have "passes uri_step (\<lambda>_. False) ([513, 244, 243] ! 0) n t [] 513" for n
    by (rule passes_uri [where ok = is_segment_char]) (use t(2) in \<open>simp_all add: tail_steps tail_delimiters\<close>)
  then have loop: "uri_parses pre t post 513 um1 (\<lambda>cs um. cs = 513 \<and> um = um1)" for pre post um1
    unfolding parses_def by (intro exI [of _ "[]"]) simp
  have "uri_parses [] ?t ?post 451 (Uri_new, None) (\<lambda>cs um. cs = 513 \<and> (\<exists>u. um = (u, None)))"
    by (rule parses_append [OF parses_colon [OF assms(1-3)]], elim conjE, simp only: t(1),
        rule parses_Cons [where step = uri_step, OF colon_steps(1)], simp_all add: list_ex_iff)
      (rule parses_mono [OF loop], simp)
  then have "Uri_Create (?t @ ?post) = Inl Uri_null"
    by (intro Create_fails, elim parses_mono) (auto simp: part_def uri_eof_def tail_delimiters text_from_def split: option.splits)
  then show ?thesis by simp
qed

lemma relative_path_lost:
  assumes "uri_text is_segment_char 0 t" "t = [] \<or> hd t \<noteq> CHR ''/''"
  shows "Uri_Create (CHR ''/'' # t) = Inr (Some Uri_new)"
proof (rule Create_done, rule parses_Cons [where step = uri_step, OF colon_steps(5)])
  show "uri_parses ([] @ ''/'') t [] 458 (Uri_new, None) (\<lambda>cs um. uri_done (CHR ''/'' # t) cs um Uri_new)"
  proof (cases t)
    case Nil
    then show ?thesis by (auto intro!: parses_Nil simp: uri_done_def uri_eof_def)
  next
    case (Cons c t')
    have "code_in [(33, 33), (36, 36), (38, 46), (48, 59), (61, 61), (64, 90), (95, 95), (97, 122), (126, 126), (128, 255)] c"
      if "is_segment_char c"
    proof -
      have "of_char c \<noteq> (47 :: nat)" using assms(2) of_char_eq_iff [where 'a = nat, of c "CHR ''/''"] by (auto simp: Cons)
      then show ?thesis using that by (auto simp: is_segment_char_def code_in_def)
    qed
    then have "passes uri_step (\<lambda>_. False) 458 1 t (map (\<lambda>a. (a, 1)) []) 455"
      by (intro passes_uri_first [where ok = is_segment_char and ?s1.0 = 5 and ?s2.0 = 6 and c = c and t' = t'])
        (use assms(1) in \<open>simp_all add: Cons relative_steps colon_steps\<close>)
    then have "uri_parses ([] @ ''/'') t [] 458 (Uri_new, None) (\<lambda>cs um. cs = 455 \<and> um = (Uri_new, None))"
      unfolding parses_def by (intro exI [of _ "[]"]) simp
    then show ?thesis by (rule parses_mono) (auto simp: uri_done_def uri_eof_def)
  qed
qed simp_all

lemma numeric_password:
  assumes "scheme_ok scheme" "list_all is_host_char i" "i \<noteq> []" "list_all is_host_char h" "h \<noteq> []" "path_ok path" "part_ok q" "part_ok f"
  shows "\<exists>u. Uri_Create (scheme @ ''://'' @ i @ '':'' @ print_dec n @ ''@'' @ h @ uri_tail path q f) = Inr (Some u)
    \<and> u_userinfo u = print_dec n \<and> u_host u = h \<and> u_path u = path"
proof -
  let ?pre = "scheme @ ''://'' @ i @ '':''" and ?d = "print_dec n" and ?rest = "h @ port_part None @ uri_tail path q f"
  let ?s = "?pre @ ?d @ ''@'' @ ?rest" and ?u = "Uri_new\<lparr>u_scheme := scheme, u_host := i\<rparr>"
  let ?v = "with_parts q f (?u\<lparr>u_userinfo := ?d, u_host := h, u_path := path\<rparr>)"
  obtain c d where d: "?d = c # d" "code_in [(48, 57)] c" "list_all (code_in [(48, 57)]) d"
    using print_dec_digits [of n] by (cases ?d) auto
  have "uri_parses (?pre @ [c]) d post 542 um1 (\<lambda>cs um. cs \<in> {542} \<and> um = um1)" for post um1
    by (rule parses_within [where C = "code_in [(48, 57)]"]) (simp_all add: port_steps d(3))
  then have dig: "uri_parses ?pre ?d post 521 (?u, m) (\<lambda>cs um. cs = 542 \<and> um = (?u, Some (length ?pre)))" for post m
    unfolding d(1) by (auto intro!: parses_Cons [where step = uri_step, OF port_steps(1) [OF d(2)]] simp: list_ex_iff)
  have "uri_parses ((?pre @ ?d) @ ''@'') ?rest [] 522 (?u\<lparr>u_userinfo := ?d\<rparr>, None) (\<lambda>cs um. uri_done ?s cs um ?v)"
    using parses_after_at [OF assms(4-8), where pre = "(?pre @ ?d) @ ''@''" and port = None and B = ?s and u = "?u\<lparr>u_userinfo := ?d\<rparr>"]
    by simp
  then have "uri_parses (?pre @ ?d) (''@'' @ ?rest) [] 542 (?u, Some (length ?pre)) (\<lambda>cs um. uri_done ?s cs um ?v)"
    using text_from_mid [of ?pre ?d "''@'' @ ?rest"]
    by (auto intro!: parses_Cons [where step = uri_step, OF colon_steps(4)] simp: list_ex_iff add.assoc)
  then have tail: "uri_parses ?pre (?d @ ''@'' @ ?rest) [] 521 (?u, m) (\<lambda>cs um. uri_done ?s cs um ?v)" for m
    by (intro parses_seq [OF dig]) auto
  have "uri_parses [] (?pre @ ?d @ ''@'' @ ?rest) [] 451 (Uri_new, None) (\<lambda>cs um. uri_done ?s cs um ?v)"
    by (rule parses_append [OF parses_colon [OF assms(1-3)]]) (use tail in auto)
  from Create_done [OF this] show ?thesis
    by (auto simp: port_part_def with_parts_def Let_def split: option.splits)
qed

text \<open>
  Three forms of URIs are misread. With a host and a colon but no digits behind it (an empty port, which
  RFC 3986 allows) \<^verbatim>\<open>Create\<close> throws, whatever follows: \<^verbatim>\<open>save_port\<close> clears the mark and \<^verbatim>\<open>save_path\<close> builds a
  string from a null pointer. A reference that is only an absolute path is accepted, but its path is
  lost. When the password is a number, the user is lost: the userinfo is the password alone.
\<close>

theorem Uri_forms_misread:
  assumes "scheme_ok scheme" "list_all is_host_char i" "i \<noteq> []" "list_all is_host_char h" "h \<noteq> []" "path_ok path"
    "case_option True (uri_text is_tail_char 0) q" "case_option True (uri_text is_tail_char 0) f"
    and "uri_text is_segment_char 0 t" "t = [] \<or> hd t \<noteq> CHR ''/''"
  shows "Uri_Create (scheme @ ''://'' @ h @ '':'' @ path @ part (CHR ''?'') q @ part (CHR ''#'') f) = Inl Uri_null
    \<and> Uri_Create (CHR ''/'' # t) = Inr (Some Uri_new) \<and> u_path Uri_new = ''''
    \<and> (\<exists>u. Uri_Create (scheme @ ''://'' @ i @ '':'' @ print_dec n @ ''@'' @ h @ path @ part (CHR ''?'') q @ part (CHR ''#'') f)
           = Inr (Some u) \<and> u_userinfo u = print_dec n \<and> u_host u = h \<and> u_path u = path)"
  using empty_port_throws [OF assms(1,4-6)] relative_path_lost [OF assms(9,10)] numeric_password [OF assms(1-8)]
  by (simp add: Uri_new_def)

theorem Uri_forms_misread_witness:
  "Uri_Create ''http://h:/x'' = Inl Uri_null \<and> Uri_Create ''/index.html'' = Inr (Some Uri_new)
    \<and> (\<exists>u. Uri_Create ''http://me:1234@h/x'' = Inr (Some u) \<and> u_userinfo u = ''1234'' \<and> u_host u = ''h'')"
proof -
  have "print_dec (1234 :: u32) = ''1234''"
    by (simp add: print_dec_def print_nat.simps digit_char_def char_of_def bit_0 bit_Suc)
  then show ?thesis
    using Uri_forms_misread [where scheme = "''http''" and i = "''me''" and h = "''h''" and path = "''/x''" and q = None and f = None
        and t = "''index.html''" and n = "1234 :: u32"]
    by (auto simp: scheme_ok_def uri_classes code_in_def path_ok_def part_def)
qed

end
