(* ===== verification/Http_Connection.thy ===== *)
theory Http_Connection
  imports Http_Session Http_Response_Correct Uri_Parser
begin

text \<open>
  Model of \<^verbatim>\<open>src/src/http/http_connection.cpp\<close>: the client's side of a connection (\<^verbatim>\<open>recvResponse\<close>,
  \<^verbatim>\<open>sendRequest\<close>), requests on a fresh connection (\<^verbatim>\<open>DoGet\<close>, \<^verbatim>\<open>DoPost\<close>, \<^verbatim>\<open>DoRequest\<close>). A call that waits for ever is
  \<open>None\<close>; an exception is \<open>Inl\<close>, and the connection it leaves behind is part of the result.
\<close>

section \<open>Receiving a response\<close>

text \<open>
  The first loop: \<open>data\<close> are the \<^verbatim>\<open>offset\<close> unread bytes at the front of the buffer. The result is the
  finished parser with the unread bytes, or \<open>None\<close> for \<^verbatim>\<open>nullptr\<close>.
\<close>

partial_function (option) recvResponse_loop ::
    "u64 \<Rightarrow> string \<Rightarrow> HttpResponseParser \<Rightarrow> conn
      \<Rightarrow> ((parse_error + (HttpResponseParser \<times> string) option) \<times> conn) option" where
  "recvResponse_loop buffer_size data P c =
     Option.bind (SocketStream_read (buffer_size - of_nat (length data)) c) (\<lambda>(len, bs, c').
       if len \<le> 0 then Some (Inr None, SocketStream_close c')
       else case HttpResponseParser_execute NUL (data @ bytes_string bs) False P of
           Inl e \<Rightarrow> Some (Inl e, c')
         | Inr (nparser, rest, P') \<Rightarrow>
             if HttpResponseParser_hasError P' then Some (Inr None, c')
             else if of_nat (length rest) = buffer_size then Some (Inr None, c')
             else if HttpResponseParser_isFinished P' \<noteq> 0 then Some (Inr (Some (P', rest)), c')
             else recvResponse_loop buffer_size rest P' c')"

text \<open>
  The loop that reads the line with the size of a chunk. Every turn starts the machine anew on what is left of
  the buffer.
\<close>

partial_function (option) recvChunk_loop ::
    "u64 \<Rightarrow> string \<Rightarrow> HttpResponseParser \<Rightarrow> conn
      \<Rightarrow> ((parse_error + (HttpResponseParser \<times> string) option) \<times> conn) option" where
  "recvChunk_loop buffer_size data P c =
     Option.bind (SocketStream_read (buffer_size - of_nat (length data)) c) (\<lambda>(res, bs, c').
       if res \<le> 0 then Some (Inr None, SocketStream_close c')
       else case HttpResponseParser_execute NUL (data @ bytes_string bs) True P of
           Inl e \<Rightarrow> Some (Inl e, c')
         | Inr (nparse, rest, P') \<Rightarrow>
             if HttpResponseParser_hasError P' then Some (Inr None, c')
             else if int (length rest) = int32 (uint buffer_size) then Some (Inr None, c')
             else if HttpResponseParser_isFinished P' \<noteq> 0 then Some (Inr (Some (P', rest)), c')
             else recvChunk_loop buffer_size rest P' c')"

text \<open>The rest of a chunk that is not in the buffer; \<open>left\<close> bytes are missing.\<close>

partial_function (option) recvChunk_left ::
    "u64 \<Rightarrow> int \<Rightarrow> string \<Rightarrow> conn \<Rightarrow> (string option \<times> conn) option" where
  "recvChunk_left buffer_size left body c =
     (if left > 0 then
        Option.bind (SocketStream_read (word_of_int (if left > int32 (uint buffer_size) then int32 (uint buffer_size) else left)) c)
          (\<lambda>(res, bs, c').
            if res \<le> 0 then Some (None, SocketStream_close c')
            else recvChunk_left buffer_size (left - res) (body @ bytes_string bs) c')
      else Some (Some body, c))"

text \<open>
  The loop over the chunks. The two bytes that end a chunk are taken off the count of what is in the
  buffer before the count is compared with the size of the chunk. A negative count given to
  \<^verbatim>\<open>std::string::append\<close> is a huge length, for which it throws \<^verbatim>\<open>std::length_error\<close>.
\<close>

partial_function (option) recvChunks ::
    "u64 \<Rightarrow> string \<Rightarrow> string \<Rightarrow> HttpResponseParser \<Rightarrow> conn
      \<Rightarrow> ((parse_error + (HttpResponseParser \<times> string) option) \<times> conn) option" where
  "recvChunks buffer_size data body P c =
     Option.bind (recvChunk_loop buffer_size data P c) (\<lambda>(r, c1).
       case r of
         Inl e \<Rightarrow> Some (Inl e, c1)
       | Inr None \<Rightarrow> Some (Inr None, c1)
       | Inr (Some (P1, rest)) \<Rightarrow>
           let len = int (length rest) - 2; content_len = hc_content_len (sp_parser P1);
               chunks_done = hc_chunks_done (sp_parser P1) in
           if content_len \<le> len then
             if content_len < 0 then Some (Inl Parse_length, c1)
             else
               let n = nat content_len; body' = body @ take n rest; data' = take (nat len - n) (drop n rest) in
               if chunks_done then Some (Inr (Some (P1, body')), c1)
               else recvChunks buffer_size data' body' P1 c1
           else if len < 0 then Some (Inl Parse_length, c1)
           else
             Option.bind (recvChunk_left buffer_size (content_len - len) (body @ take (nat len) rest) c1) (\<lambda>(b, c2).
               case b of
                 None \<Rightarrow> Some (Inr None, c2)
               | Some body' \<Rightarrow>
                   if chunks_done then Some (Inr (Some (P1, body')), c2)
                   else recvChunks buffer_size [] body' P1 c2))"

definition HttpConnection_recvResponse ::
    "(string \<Rightarrow> u64 option) \<Rightarrow> u64 \<Rightarrow> httpclient_parser \<Rightarrow> conn
      \<Rightarrow> ((parse_error + HttpResponse option) \<times> conn) option" where
  "HttpConnection_recvResponse cast buffer_size mem c =
     Option.bind (recvResponse_loop buffer_size [] (HttpResponseParser_new mem) c) (\<lambda>(r, c1).
       case r of
         Inl e \<Rightarrow> Some (Inl e, c1)
       | Inr None \<Rightarrow> Some (Inr None, c1)
       | Inr (Some (P, data)) \<Rightarrow>
           if hc_chunked (sp_parser P) then
             map_option (\<lambda>(r2, c2).
               (case r2 of
                  Inl e \<Rightarrow> Inl e
                | Inr None \<Rightarrow> Inr None
                | Inr (Some (P2, body)) \<Rightarrow> Inr (Some (sp_data P2\<lparr>rs_body := body\<rparr>)), c2))
               (recvChunks buffer_size data [] P c1)
           else
             let len = int32 (uint (HttpResponseParser_getContentLength cast P)) in
             if len > 0 then
               map_option (\<lambda>(body, c2). (Inr (map_option (\<lambda>b. sp_data P\<lparr>rs_body := b\<rparr>) body), c2))
                 (recvRequest_body len data c1)
             else Some (Inr (Some (sp_data P)), c1))"

definition HttpConnection_sendRequest :: "HttpRequest \<Rightarrow> conn \<Rightarrow> (int \<times> conn) option" where
  "HttpConnection_sendRequest req c =
     (let data = string_bytes (HttpRequest_dump req) in
      Stream_writeFixSize SocketStream_write data (of_nat (length data)) c)"

section \<open>Results\<close>

datatype HttpResult_Error =
    OK | INVALID_URI | INVALID_HOST | CREATE_SOCK_ERROR | CONNECT_FAIL | SEND_CLOSED_BY_PEER | SEND_SOCKET_ERROR
  | TIMEOUT | POOL_GET_CONNECT | POOL_INVALID_CONNECT

fun HttpResult_code :: "HttpResult_Error \<Rightarrow> int" where
  "HttpResult_code OK = 0" | "HttpResult_code INVALID_URI = 1" | "HttpResult_code INVALID_HOST = 2"
| "HttpResult_code CREATE_SOCK_ERROR = 3" | "HttpResult_code CONNECT_FAIL = 4"
| "HttpResult_code SEND_CLOSED_BY_PEER = 5" | "HttpResult_code SEND_SOCKET_ERROR = 6"
| "HttpResult_code TIMEOUT = 7" | "HttpResult_code POOL_GET_CONNECT = 8" | "HttpResult_code POOL_INVALID_CONNECT = 9"

record HttpResult =
  hr_result :: int
  hr_response :: "HttpResponse option"
  hr_error :: string

definition HttpResult_new :: "HttpResult_Error \<Rightarrow> HttpResponse option \<Rightarrow> string \<Rightarrow> HttpResult" where
  "HttpResult_new e rsp er = \<lparr>hr_result = HttpResult_code e, hr_response = rsp, hr_error = er\<rparr>"

definition print_int :: "int \<Rightarrow> string" where
  "print_int i = (if i < 0 then ''-'' @ print_nat 10 (nat (- i)) else print_nat 10 (nat i))"

definition HttpResult_toString :: "HttpResult \<Rightarrow> string" where
  "HttpResult_toString r =
     ''[HttpResult result = '' @ print_int (hr_result r) @ '' error = '' @ hr_error r @ '' response = ''
       @ (case hr_response r of Some rsp \<Rightarrow> HttpResponse_dump rsp | None \<Rightarrow> ''nullptr'') @ '']''"

section \<open>Requests on a fresh connection\<close>

text \<open>
  What the system answers during one request: name resolution, \<^verbatim>\<open>socket\<close>, \<^verbatim>\<open>connect\<close>, the names of both ends,
  the peer's bytes, \<^verbatim>\<open>errno\<close> and its text, and the descriptor's context for the hooks.
\<close>

record net =
  nt_getaddrinfo :: resolver
  nt_fd :: int
  nt_connect :: int
  nt_peer :: "u8 list option"
  nt_local :: "u8 list option"
  nt_in :: "recv_answer list"
  nt_send :: "send_answer list"
  nt_errno :: int
  nt_strerror :: "int \<Rightarrow> string"
  nt_hook :: bool
  nt_ctx :: "fd_ctx option"

datatype client_error = Client_uri uri_error | Client_addr addr_error | Client_parse parse_error

text \<open>The message of an error that names an address.\<close>

definition address_result :: "HttpResult_Error \<Rightarrow> string \<Rightarrow> Address \<Rightarrow> string \<Rightarrow> client_error + HttpResult" where
  "address_result e pre a post =
     (case Address_toString a of Inl x \<Rightarrow> Inl (Client_addr x) | Inr s \<Rightarrow> Inr (HttpResult_new e None (pre @ s @ post)))"

definition socket_error_message :: "net \<Rightarrow> string" where
  "socket_error_message w =
     ''send request socket error errno = '' @ print_int (nt_errno w) @ '' errstr = '' @ nt_strerror w (nt_errno w)"

text \<open>
  \<^verbatim>\<open>DoRequest(req, uri, timeout_ms)\<close>. \<^verbatim>\<open>Socket::CreateTCP\<close> never gives a null pointer, so
  \<^verbatim>\<open>CREATE_SOCK_ERROR\<close> is not produced. The result carries the descriptor's context with the receive timeout and
  the connection, which the destructor has closed.
\<close>

definition HttpConnection_DoRequest ::
    "(string \<Rightarrow> u64 option) \<Rightarrow> u64 \<Rightarrow> httpclient_parser \<Rightarrow> net \<Rightarrow> HttpRequest \<Rightarrow> Uri \<Rightarrow> u64
      \<Rightarrow> ((client_error + HttpResult) \<times> (fd_ctx option \<times> conn) option) option" where
  "HttpConnection_DoRequest cast buffer_size mem w req uri timeout_ms =
     (case Uri_createAddress (nt_getaddrinfo w) uri of
        Inl e \<Rightarrow> Some (Inl (Client_addr e), None)
      | Inr None \<Rightarrow> Some (Inr (HttpResult_new INVALID_HOST None (''invalid host: '' @ u_host uri)), None)
      | Inr (Some addr) \<Rightarrow>
          let (connected, sock) = Socket_connect (nt_fd w) (nt_connect w) (nt_peer w) (nt_local w) addr (Socket_CreateTCP addr) in
          if \<not> connected then Some (address_result CONNECT_FAIL ''connect fail: '' addr '''', None)
          else
            let ctx = Socket_setTimeout (nt_hook w) True timeout_ms (nt_ctx w);
                conn = \<lparr>cn_socket = sock, cn_in = nt_in w, cn_send = nt_send w, cn_out = []\<rparr> in
            Option.bind (HttpConnection_sendRequest req conn) (\<lambda>(res, c1).
              if res = 0 then
                Some (address_result SEND_CLOSED_BY_PEER ''send closed by peer: '' addr '''', Some (ctx, SocketStream_destroy True c1))
              else if res < 0 then
                Some (Inr (HttpResult_new SEND_SOCKET_ERROR None (socket_error_message w)), Some (ctx, SocketStream_destroy True c1))
              else map_option (\<lambda>(rsp, c2).
                (case rsp of
                   Inl e \<Rightarrow> Inl (Client_parse e)
                 | Inr None \<Rightarrow> address_result TIMEOUT ''recv response timeout: '' addr ('' timeout_ms = '' @ print_dec timeout_ms)
                 | Inr (Some r) \<Rightarrow> Inr (HttpResult_new OK (Some r) ''ok''), Some (ctx, SocketStream_destroy True c2)))
                (HttpConnection_recvResponse cast buffer_size mem c1)))"

text \<open>
  The loop over the caller's headers, shared by the static functions and the pool: \<^verbatim>\<open>connection\<close> is not
  copied, and a non-empty \<^verbatim>\<open>host\<close> is noticed.
\<close>

fun add_headers :: "(string \<times> string) list \<Rightarrow> bool \<Rightarrow> HttpRequest \<Rightarrow> bool \<times> HttpRequest" where
  "add_headers [] has_host req = (has_host, req)"
| "add_headers ((k, v) # header) has_host req =
     (if strcasecmp (c_str k) ''connection'' = 0 then
        add_headers header has_host (if strcasecmp (c_str v) ''keep-alive'' = 0 then req\<lparr>rq_close := False\<rparr> else req)
      else
        add_headers header (if \<not> has_host \<and> strcasecmp (c_str k) ''host'' = 0 then v \<noteq> '''' else has_host)
          (HttpRequest_setHeader k v req))"

definition build_request ::
    "HttpRequest \<Rightarrow> (string \<times> string) list \<Rightarrow> string \<Rightarrow> string \<Rightarrow> HttpRequest" where
  "build_request req0 header host body =
     (let (has_host, req) = add_headers header False req0 in
      (if \<not> has_host then HttpRequest_setHeader ''Host'' host req else req)\<lparr>rq_body := body\<rparr>)"

definition HttpConnection_DoRequest_uri ::
    "(string \<Rightarrow> u64 option) \<Rightarrow> u64 \<Rightarrow> httpclient_parser \<Rightarrow> HttpStatus \<Rightarrow> net \<Rightarrow> HttpMethod \<Rightarrow> Uri \<Rightarrow> u64
      \<Rightarrow> (string \<times> string) list \<Rightarrow> string \<Rightarrow> ((client_error + HttpResult) \<times> (fd_ctx option \<times> conn) option) option" where
  "HttpConnection_DoRequest_uri cast buffer_size mem g w method uri timeout_ms header body =
     HttpConnection_DoRequest cast buffer_size mem w
       (build_request ((HttpRequest_new g 0x11 True)\<lparr>rq_path := Uri_getPath uri, rq_query := u_query uri,
            rq_fragment := u_fragment uri, rq_method := method\<rparr>) header (u_host uri) body)
       uri timeout_ms"

definition HttpConnection_DoRequest_url ::
    "(string \<Rightarrow> u64 option) \<Rightarrow> u64 \<Rightarrow> httpclient_parser \<Rightarrow> HttpStatus \<Rightarrow> net \<Rightarrow> HttpMethod \<Rightarrow> string \<Rightarrow> u64
      \<Rightarrow> (string \<times> string) list \<Rightarrow> string \<Rightarrow> ((client_error + HttpResult) \<times> (fd_ctx option \<times> conn) option) option" where
  "HttpConnection_DoRequest_url cast buffer_size mem g w method url timeout_ms header body =
     (case Uri_Create url of
        Inl e \<Rightarrow> Some (Inl (Client_uri e), None)
      | Inr None \<Rightarrow> Some (Inr (HttpResult_new INVALID_URI None (''invalid url: '' @ url)), None)
      | Inr (Some uri) \<Rightarrow> HttpConnection_DoRequest_uri cast buffer_size mem g w method uri timeout_ms header body)"

definition HttpConnection_DoGet_uri where
  "HttpConnection_DoGet_uri cast buffer_size mem g w = HttpConnection_DoRequest_uri cast buffer_size mem g w GET"

definition HttpConnection_DoGet where
  "HttpConnection_DoGet cast buffer_size mem g w url timeout_ms header body =
     (case Uri_Create url of
        Inl e \<Rightarrow> Some (Inl (Client_uri e), None)
      | Inr None \<Rightarrow> Some (Inr (HttpResult_new INVALID_URI None (''invalid url: '' @ url)), None)
      | Inr (Some uri) \<Rightarrow> HttpConnection_DoGet_uri cast buffer_size mem g w uri timeout_ms header body)"

definition HttpConnection_DoPost_uri where
  "HttpConnection_DoPost_uri cast buffer_size mem g w = HttpConnection_DoRequest_uri cast buffer_size mem g w POST"

definition HttpConnection_DoPost where
  "HttpConnection_DoPost cast buffer_size mem g w url timeout_ms header body =
     (case Uri_Create url of
        Inl e \<Rightarrow> Some (Inl (Client_uri e), None)
      | Inr None \<Rightarrow> Some (Inr (HttpResult_new INVALID_URI None (''invalid url: '' @ url)), None)
      | Inr (Some uri) \<Rightarrow> HttpConnection_DoPost_uri cast buffer_size mem g w uri timeout_ms header body)"

section \<open>A response with a length\<close>

lemma shorter_than_buffer:
  assumes "m < n" "n \<le> unat (b :: u64)"
  shows "of_nat m \<noteq> b"
proof
  assume "of_nat m = b"
  moreover have "unat (of_nat m :: u64) = m" using assms unat_lt2p [of b] by (intro unat_of_nat_small) simp
  ultimately show False using assms by simp
qed

text \<open>
  A connection that brings \<open>bytes\<close> in pieces of any size, the first of which holds at least \<open>h\<close> of them and
  fits into the buffer.
\<close>

definition carries :: "u64 \<Rightarrow> nat \<Rightarrow> u8 list \<Rightarrow> conn \<Rightarrow> bool" where
  "carries buffer_size h bytes c \<longleftrightarrow> SocketStream_isConnected c \<and> unat buffer_size < 2 ^ 31
     \<and> (\<exists>bs ins. cn_in c = Deliver bs # ins \<and> h \<le> length bs \<and> length bs \<le> unat buffer_size \<and> bytes = bs @ delivered ins)"

lemma carriesE:
  assumes "carries buffer_size (length front) (string_bytes (front @ body)) c"
  obtains bs ins b b' where "cn_in c = Deliver bs # ins" "length bs \<le> unat buffer_size" "bytes_string bs = front @ b"
    "body = b @ b'" "bytes_string (delivered ins) = b'" "SocketStream_isConnected c" "unat buffer_size < 2 ^ 31"
proof -
  obtain bs ins where i: "cn_in c = Deliver bs # ins" "length front \<le> length bs" "length bs \<le> unat buffer_size"
      "string_bytes (front @ body) = bs @ delivered ins" and con: "SocketStream_isConnected c" "unat buffer_size < 2 ^ 31"
    using assms unfolding carries_def by blast
  from i(4) have e: "bytes_string bs @ bytes_string (delivered ins) = front @ body"
    by (metis bytes_string_append string_bytes_inverse)
  moreover have "length front \<le> length (bytes_string bs)" using i(2) by simp
  ultimately have "bytes_string bs = front @ drop (length front) (bytes_string bs)"
      "body = drop (length front) (bytes_string bs) @ bytes_string (delivered ins)"
    by (metis append_eq_append_conv_if append_take_drop_id)+
  with i(1,3) con that show thesis by blast
qed

lemma recv_loop_response:
  assumes "response_ok r" and "SocketStream_isConnected c" "unat buffer_size < 2 ^ 31"
    and "cn_in c = Deliver bs # ins" "length bs \<le> unat buffer_size" "bytes_string bs = response_head r @ crlf @ b"
  shows "\<exists>P. recvResponse_loop buffer_size [] (HttpResponseParser_new mem) c = Some (Inr (Some (P, b)), c\<lparr>cn_in := ins\<rparr>)
     \<and> sp_data P = response_data r (HttpResponse_new 0x11 True) \<and> sp_error P = 0
     \<and> (hc_chunked (sp_parser P) \<longleftrightarrow> te_chunked \<in> set (rs_headers r))"
proof -
  obtain P where P: "HttpResponseParser_execute NUL (response_head r @ crlf @ b) False (HttpResponseParser_new mem)
       = Inr (length (response_head r) + 2, b, P)" "HttpResponseParser_isFinished P = 1" "\<not> HttpResponseParser_hasError P"
     "sp_data P = response_data r (HttpResponse_new 0x11 True)"
     "hc_chunked (sp_parser P) \<longleftrightarrow> te_chunked \<in> set (rs_headers r)"
    using execute_response [OF assms(1), of b mem] assms(3,5,6) length_bytes_string [of bs] by auto
  have len: "length bs = length (response_head r) + 2 + length b"
    using assms(6) length_bytes_string [of bs] by (simp add: crlf_def)
  then have "of_nat (length b) \<noteq> buffer_size" using shorter_than_buffer [OF _ assms(5), of "length b"] by simp
  moreover have "sp_error P = 0" using P(3) by (simp add: HttpResponseParser_hasError_def)
  ultimately show ?thesis
    using read_whole [OF assms(2,4,5,3)] P assms(6) len
    by (subst recvResponse_loop.simps) simp
qed

lemma response_content_length:
  assumes "map_ok CaseInsensitiveLess (rs_headers r)"
    and "rs_body r = [] \<Longrightarrow> map_find CaseInsensitiveLess ''content-length'' (rs_headers r) = None"
    and "rs_body r \<noteq> [] \<Longrightarrow> cast (print_nat 10 (length (rs_body r))) = Some (of_nat (length (rs_body r)))"
    and "sp_data P = response_data r (HttpResponse_new 0x11 True)"
  shows "HttpResponseParser_getContentLength cast P = of_nat (length (rs_body r))"
proof -
  have "rs_headers (HttpResponse_new 0x11 True) = []" by (simp add: HttpResponse_new_def)
  from response_find [OF assms(1) this, of "''content-length''"] show ?thesis
    using assms(2-4)
    by (cases "rs_body r = []") (simp_all add: HttpResponseParser_getContentLength_def HttpResponse_getHeaderAs_def getAs_def casefold_names)
qed

text \<open>The response as the client has it: parsed, with the body.\<close>

definition received_response :: "HttpResponse \<Rightarrow> HttpResponse" where
  "received_response r = response_data r (HttpResponse_new 0x11 True)\<lparr>rs_body := rs_body r\<rparr>"

lemma recvResponse_ok:
  assumes ok: "response_ok r" "map_ok CaseInsensitiveLess (rs_headers r)" "te_chunked \<notin> set (rs_headers r)"
    and c: "carries buffer_size (length (response_head r) + 2) (string_bytes (HttpResponse_dump r)) c"
    and len: "length (rs_body r) < 2 ^ 31"
    and cl: "rs_body r = [] \<Longrightarrow> map_find CaseInsensitiveLess ''content-length'' (rs_headers r) = None"
      "rs_body r \<noteq> [] \<Longrightarrow> cast (print_nat 10 (length (rs_body r))) = Some (of_nat (length (rs_body r)))"
  shows "\<exists>c'. HttpConnection_recvResponse cast buffer_size mem c = Some (Inr (Some (received_response r)), c')
     \<and> arriving c' = [] \<and> cn_socket c' = cn_socket c \<and> cn_out c' = cn_out c"
proof -
  let ?D = "HttpResponse_new 0x11 True"
  have "carries buffer_size (length (response_head r @ crlf)) (string_bytes ((response_head r @ crlf) @ rs_body r)) c"
    using c by (simp add: dump_is_response_head crlf_def)
  from carriesE [OF this] obtain bs ins b b' where
    i: "cn_in c = Deliver bs # ins" "length bs \<le> unat buffer_size" "bytes_string bs = response_head r @ crlf @ b"
    "rs_body r = b @ b'" "bytes_string (delivered ins) = b'" "SocketStream_isConnected c" "unat buffer_size < 2 ^ 31"
    by (metis append_assoc)
  let ?c = "c\<lparr>cn_in := ins\<rparr>"
  obtain P where P: "recvResponse_loop buffer_size [] (HttpResponseParser_new mem) c = Some (Inr (Some (P, b)), ?c)"
      "sp_data P = response_data r ?D" "\<not> hc_chunked (sp_parser P)"
    using recv_loop_response [OF ok(1) i(6,7,1,2,3)] ok(3) by blast
  have n: "int32 (uint (HttpResponseParser_getContentLength cast P)) = int (length (rs_body r))"
    using response_content_length [where cast = cast, OF ok(2) _ _ P(2)] cl len int32_id [of "int (length (rs_body r))"]
    by (simp add: unsigned_of_nat take_bit_nat_eq_self)
  have con: "SocketStream_isConnected ?c" using i(6) by (simp add: SocketStream_isConnected_def)
  show ?thesis
  proof (cases "rs_body r = []")
    case True
    then have "received_response r = response_data r ?D"
      by (simp add: received_response_def response_data_def store_response_eq HttpResponse_new_def)
    moreover have "delivered ins = []" using i(4,5) True length_bytes_string [of "delivered ins"] by simp
    ultimately show ?thesis using P n True con by (simp add: HttpConnection_recvResponse_def arriving_def)
  next
    case False
    let ?q = "(HttpRequest_new 0 0x11 True)\<lparr>rq_body := rs_body r\<rparr>"
    obtain c' where c': "recvRequest_body (int (length (rs_body r))) b ?c = Some (Some (rs_body r), c')"
      "bytes_string (arriving c') = []" "cn_socket c' = cn_socket c" "cn_out c' = cn_out c"
      using recv_body [of ?q b b' ?c "[]"] len False i(4,5) con by auto
    moreover have "arriving c' = []" using c'(2) length_bytes_string [of "arriving c'"] by simp
    ultimately show ?thesis using P n False by (simp add: HttpConnection_recvResponse_def received_response_def)
  qed
qed

section \<open>A request and its answer\<close>

lemma carries_request:
  assumes "carries buffer_size (length (request_head r) + 2) (string_bytes (HttpRequest_dump r)) c"
  shows "brings_request buffer_size r [] c"
proof -
  have "carries buffer_size (length (request_head r @ crlf)) (string_bytes ((request_head r @ crlf) @ rq_body r)) c"
    using assms by (simp add: dump_is_head_body crlf_def)
  from carriesE [OF this] show ?thesis unfolding brings_request_def by (metis append_assoc append_Nil2)
qed

lemma write_frame:
  assumes "SocketStream_write buf c = Some (len, c')"
  shows "(cn_socket c', cn_in c') = (cn_socket c, cn_in c)"
  using assms by (auto simp: SocketStream_write_def Socket_send_def sys_send_def split: if_splits list.splits send_answer.splits)

lemma sendRequest_frame:
  assumes "HttpConnection_sendRequest req c = Some (res, c')"
  shows "cn_socket c' = cn_socket c" "cn_in c' = cn_in c"
  using assms write_loop_frame [where wr = SocketStream_write and f = "\<lambda>c. (cn_socket c, cn_in c)", OF write_frame]
  by (fastforce simp: HttpConnection_sendRequest_def Stream_writeFixSize_def Let_def)+

lemma sendRequest_ok:
  assumes "length (HttpRequest_dump req) < 2 ^ 31" "SocketStream_isConnected c" "cn_send c = map Accept ks"
    "\<forall>k\<in>set ks. 0 < k" "length (HttpRequest_dump req) \<le> length ks"
  shows "\<exists>c1. HttpConnection_sendRequest req c = Some (int (length (HttpRequest_dump req)), c1)
     \<and> cn_out c1 = cn_out c @ string_bytes (HttpRequest_dump req)"
  using writeFixSize_returns [of "string_bytes (HttpRequest_dump req)" c ks] assms
  by (auto simp: HttpConnection_sendRequest_def Let_def)

lemma received_fields:
  assumes "map_ok CaseInsensitiveLess (rs_headers r)"
  shows "rs_status (received_response r) = rs_status r" "rs_body (received_response r) = rs_body r"
    "rs_reason (received_response r) = reason_of r" "rs_version (received_response r) = other_version (rs_version r)"
    "HttpResponse_getHeader (received_response r) k def =
      (if casefold k = ''connection'' then if rs_close r then ''close'' else ''keep-alive''
       else if casefold k = ''content-length'' \<and> rs_body r \<noteq> [] then print_nat 10 (length (rs_body r))
       else HttpResponse_getHeader r k def)"
proof -
  have "rs_headers (HttpResponse_new 0x11 True) = []" by (simp add: HttpResponse_new_def)
  from response_getHeader [OF assms this, of k def]
  show "HttpResponse_getHeader (received_response r) k def =
      (if casefold k = ''connection'' then if rs_close r then ''close'' else ''keep-alive''
       else if casefold k = ''content-length'' \<and> rs_body r \<noteq> [] then print_nat 10 (length (rs_body r))
       else HttpResponse_getHeader r k def)"
    by (simp add: HttpResponse_getHeader_def received_response_def)
qed (simp_all add: received_response_def response_fields)

text \<open>What the client's length field says about the body of a message; \<open>cast\<close> reads it back.\<close>

definition length_readable :: "(string \<Rightarrow> u64 option) \<Rightarrow> string \<Rightarrow> header_map \<Rightarrow> bool" where
  "length_readable cast body headers \<longleftrightarrow> length body < 2 ^ 31
     \<and> (body = [] \<longrightarrow> map_find CaseInsensitiveLess ''content-length'' headers = None)
     \<and> (body \<noteq> [] \<longrightarrow> cast (print_nat 10 (length body)) = Some (of_nat (length body)))"

definition takes_all :: "nat \<Rightarrow> conn \<Rightarrow> bool" where
  "takes_all n c \<longleftrightarrow> SocketStream_isConnected c \<and> n < 2 ^ 31
     \<and> (\<exists>ks. cn_send c = map Accept ks \<and> (\<forall>k\<in>set ks. 0 < k) \<and> n \<le> length ks)"

text \<open>
  (C1) One exchange between this client and this server, end to end, when each side gets the head of the other's message
  whole in its first read, which fits its buffer (\<open>carries\<close>; heads that are cut are refused or misread, see
  \<open>split_method_misread\<close>). The client's \<^verbatim>\<open>sendRequest\<close> returns and has sent
  the text of the request; a server that gets these bytes, the head in the first read and the body cut in any way,
  serves it: \<^verbatim>\<open>handleClient\<close> returns with the socket closed and has sent the answer its servlet made of a request with the method, target
  and body of the client's; and a client that gets those bytes, again with the whole head in the first read,
  receives by \<^verbatim>\<open>recvResponse\<close> a response with the status, the reason, the body and every header of the answer but
  \<^verbatim>\<open>connection\<close> and \<^verbatim>\<open>content-length\<close>. Every send is accepted, the connection is not kept alive, and the answer is not chunked. \<open>cast\<close> is
  \<^verbatim>\<open>boost::lexical_cast<uint64_t>\<close>; the servlet is any handler that answers from the request and the prepared response.
\<close>

theorem http_exchange:
  assumes req: "request_ok r" "maps_ok r" "length_readable cast (rq_body r) (rq_headers r)"
    and client: "takes_all (length (HttpRequest_dump r)) c" "cn_out c = []"
    and close: "rq_close r \<or> \<not> hs_isKeepalive srv"
    and servlet: "\<And>req rsp s. ServletDispatch_handle fnmatch (hs_dispatch srv) (req, rsp, s) = (0, req, answer req rsp, s)"
    and R: "\<And>req. R req = answer req (HttpResponse_setHeader ''Server'' (hs_name srv) (HttpResponse_new (rq_version r) True))"
    and rsp: "\<And>req. response_ok (R req) \<and> map_ok CaseInsensitiveLess (rs_headers (R req)) \<and> te_chunked \<notin> set (rs_headers (R req))
      \<and> length_readable cast (rs_body (R req)) (rs_headers (R req)) \<and> length (HttpResponse_dump (R req)) \<le> N"
  shows "\<exists>c1. HttpConnection_sendRequest r c = Some (int (length (HttpRequest_dump r)), c1)
     \<and> cn_out c1 = string_bytes (HttpRequest_dump r)
     \<and> (\<forall>s. carries bs (length (request_head r) + 2) (cn_out c1) s \<and> takes_all N s \<and> cn_out s = [] \<longrightarrow>
        (\<exists>req s'. HttpServer_handleClient cast bs garbage fnmatch srv turn s = Some (Inr s')
          \<and> rq_method req = rq_method r \<and> rq_path req = rq_path r \<and> rq_query req = rq_query r \<and> rq_body req = rq_body r
          \<and> cn_out s' = string_bytes (HttpResponse_dump (R req)) \<and> sk_sock (cn_socket s') = - 1
          \<and> (\<forall>c2. carries bs' (length (response_head (R req)) + 2) (cn_out s') c2 \<longrightarrow>
               (\<exists>rsp c3. HttpConnection_recvResponse cast bs' mem c2 = Some (Inr (Some rsp), c3) \<and> arriving c3 = []
                 \<and> rs_status rsp = rs_status (R req) \<and> rs_reason rsp = reason_of (R req) \<and> rs_body rsp = rs_body (R req)
                 \<and> (\<forall>k def. casefold k \<notin> {''connection'', ''content-length''} \<longrightarrow>
                      HttpResponse_getHeader rsp k def = HttpResponse_getHeader (R req) k def)))))"
proof -
  obtain c1 where c1: "HttpConnection_sendRequest r c = Some (int (length (HttpRequest_dump r)), c1)"
      "cn_out c1 = string_bytes (HttpRequest_dump r)"
    using sendRequest_ok [of r c] client unfolding takes_all_def by auto
  have server: "\<exists>req s'. HttpServer_handleClient cast bs garbage fnmatch srv turn s = Some (Inr s')
      \<and> rq_method req = rq_method r \<and> rq_path req = rq_path r \<and> rq_query req = rq_query r \<and> rq_body req = rq_body r
      \<and> cn_out s' = cn_out s @ string_bytes (HttpResponse_dump (R req)) \<and> \<not> SocketStream_isConnected s' \<and> sk_sock (cn_socket s') = - 1"
    if s: "carries bs (length (request_head r) + 2) (cn_out c1) s" "takes_all N s" for s
  proof -
    obtain ks where ks: "cn_send s = map Accept ks" "\<forall>k\<in>set ks. 0 < k" "N \<le> length ks" "N < 2 ^ 31"
      using s(2) unfolding takes_all_def by blast
    have "length (HttpResponse_dump (R q)) \<le> length ks \<and> length (HttpResponse_dump (R q)) < 2 ^ 31" for q
      using rsp [of q] ks(3,4) by linarith
    then show ?thesis
      using req(3) by (intro server_answers_client [OF req(1,2) carries_request [OF s(1) [unfolded c1(2)]] _ _ _ close servlet R ks(1,2)])
        (auto simp: length_readable_def)
  qed
  show ?thesis
  proof (intro exI [of _ c1] conjI c1 allI impI, elim conjE)
    fix s assume s: "carries bs (length (request_head r) + 2) (cn_out c1) s" "takes_all N s" "cn_out s = []"
    obtain req s' where s': "HttpServer_handleClient cast bs garbage fnmatch srv turn s = Some (Inr s')"
        "rq_method req = rq_method r" "rq_path req = rq_path r" "rq_query req = rq_query r" "rq_body req = rq_body r"
        "cn_out s' = string_bytes (HttpResponse_dump (R req))" "sk_sock (cn_socket s') = - 1"
      using server [OF s(1,2)] s(3) by auto
    have answered: "\<exists>c3. HttpConnection_recvResponse cast bs' mem c2 = Some (Inr (Some (received_response (R req))), c3) \<and> arriving c3 = []"
      if c2: "carries bs' (length (response_head (R req)) + 2) (cn_out s') c2" for c2
      using recvResponse_ok [of "R req" bs' c2 cast mem] rsp [of req] c2 unfolding s'(6) length_readable_def by blast
    show "\<exists>req s'. HttpServer_handleClient cast bs garbage fnmatch srv turn s = Some (Inr s')
          \<and> rq_method req = rq_method r \<and> rq_path req = rq_path r \<and> rq_query req = rq_query r \<and> rq_body req = rq_body r
          \<and> cn_out s' = string_bytes (HttpResponse_dump (R req)) \<and> sk_sock (cn_socket s') = - 1
          \<and> (\<forall>c2. carries bs' (length (response_head (R req)) + 2) (cn_out s') c2 \<longrightarrow>
               (\<exists>rsp c3. HttpConnection_recvResponse cast bs' mem c2 = Some (Inr (Some rsp), c3) \<and> arriving c3 = []
                 \<and> rs_status rsp = rs_status (R req) \<and> rs_reason rsp = reason_of (R req) \<and> rs_body rsp = rs_body (R req)
                 \<and> (\<forall>k def. casefold k \<notin> {''connection'', ''content-length''} \<longrightarrow>
                      HttpResponse_getHeader rsp k def = HttpResponse_getHeader (R req) k def)))"
      using s' answered received_fields [of "R req"] rsp [of req]
      by (intro exI [of _ req] exI [of _ s']) (fastforce simp: reason_of_def)
  qed
qed

definition decimal_cast :: "string \<Rightarrow> u64 option" where
  "decimal_cast s = Some (of_nat (digits_value 10 0 s))"

text \<open>A connected socket that brings \<open>bytes\<close> in one piece and takes one byte per call.\<close>

definition wire :: "u8 list \<Rightarrow> conn" where
  "wire bytes = \<lparr>cn_socket = (Socket_new 2 1 0)\<lparr>sk_sock := 5, sk_isConnected := True\<rparr>, cn_in = [Deliver bytes],
     cn_send = replicate 5000 (Accept 1), cn_out = []\<rparr>"

lemma wire_carries: "h \<le> length bytes \<Longrightarrow> length bytes \<le> 4096 \<Longrightarrow> carries 4096 h bytes (wire bytes)"
  by (simp add: carries_def wire_def SocketStream_isConnected_def)

lemma wire_takes: "n \<le> 5000 \<Longrightarrow> takes_all n (wire bytes)"
  unfolding takes_all_def
  by (intro conjI exI [of _ "replicate 5000 1"]) (simp_all add: wire_def SocketStream_isConnected_def)

lemma wire_out: "cn_out (wire bytes) = []"
  by (simp add: wire_def)

lemma decimal_readable: "length body < 2 ^ 31 \<Longrightarrow> body \<noteq> [] \<Longrightarrow> length_readable decimal_cast body hs"
  using digits_value_print [of 10 "length body"] by (simp add: length_readable_def decimal_cast_def)

definition sample_answer :: "HttpRequest \<Rightarrow> HttpResponse" where
  "sample_answer req = not_found req (HttpResponse_setHeader ''Server'' ''TinyServer/1.0.0'' (HttpResponse_new 0x11 True))"

lemma sample_answer_ok:
  "response_ok (sample_answer req)" "map_ok CaseInsensitiveLess (rs_headers (sample_answer req))"
  "te_chunked \<notin> set (rs_headers (sample_answer req))" "rs_body (sample_answer req) = RSP_BODY" "rs_status (sample_answer req) = 404"
  by (simp_all add: sample_answer_def not_found_def HttpResponse_setHeader_def HttpResponse_new_def header_order
      response_ok_def response_line_def response_header_def is_token_char_def is_client_value_def is_client_start_def
      is_transfer_encoding_def to_lower_def code_in_def map_ok_def)

theorem http_exchange_witness:
  "\<forall>mem. \<exists>c1 s' rsp c3. HttpConnection_sendRequest (sample_request POST) (wire []) = Some (int (length (HttpRequest_dump (sample_request POST))), c1)
     \<and> HttpServer_handleClient decimal_cast 4096 (\<lambda>_. (undefined, 0)) (\<lambda>_ _. 1) (HttpServer_new False) 0 (wire (cn_out c1)) = Some (Inr s')
     \<and> HttpConnection_recvResponse decimal_cast 4096 mem (wire (cn_out s')) = Some (Inr (Some rsp), c3)
     \<and> rs_status rsp = 404 \<and> rs_body rsp = RSP_BODY"
proof (intro allI)
  fix mem
  let ?r = "sample_request POST" and ?srv = "HttpServer_new False" and ?g = "\<lambda>_. (undefined, 0)"
  have ok: "request_ok ?r" "maps_ok ?r" "rq_body ?r = ''hello''" "rq_version ?r = 0x11"
    by (simp_all add: sample_request_ok sample_request_fields)
      (simp add: sample_request_def HttpRequest_setHeader_def HttpRequest_new_def)
  have len: "length (HttpRequest_dump ?r) \<le> 4096" "length (request_head ?r) + 2 \<le> length (HttpRequest_dump ?r)"
    using sample_head_length by (simp_all add: dump_is_head_body ok(3) crlf_def)
  have body: "length RSP_BODY < 2 ^ 31" "RSP_BODY \<noteq> []" by (simp_all add: RSP_BODY_def)
  have rlen: "length (HttpResponse_dump (sample_answer q)) \<le> 2000" for q
    using not_found_length by (simp add: sample_answer_def)
  have clen: "length (response_head (sample_answer q)) + 2 \<le> length (HttpResponse_dump (sample_answer q))" for q
    by (simp add: dump_is_response_head crlf_def)
  have disp: "ServletDispatch_handle (\<lambda>_ _. 1) (hs_dispatch ?srv) (req, rsp, s) = (0, req, not_found req rsp, s)" for req rsp and s :: conn
    by (simp add: HttpServer_new_def not_found_dispatch del: ServletDispatch_handle.simps)
  have R: "sample_answer req = not_found req (HttpResponse_setHeader ''Server'' (hs_name ?srv) (HttpResponse_new (rq_version ?r) True))" for req
    by (simp add: sample_answer_def HttpServer_new_def ok(4))
  have q: "length_readable decimal_cast (rq_body ?r) (rq_headers ?r)" by (rule decimal_readable) (simp_all add: ok(3))
  have a: "response_ok (sample_answer req) \<and> map_ok CaseInsensitiveLess (rs_headers (sample_answer req))
      \<and> te_chunked \<notin> set (rs_headers (sample_answer req))
      \<and> length_readable decimal_cast (rs_body (sample_answer req)) (rs_headers (sample_answer req))
      \<and> length (HttpResponse_dump (sample_answer req)) \<le> 2000" for req
    using rlen body by (simp add: sample_answer_ok decimal_readable)
  have t: "takes_all (length (HttpRequest_dump ?r)) (wire [])" "cn_out (wire []) = []" "rq_close ?r \<or> \<not> hs_isKeepalive ?srv"
    using wire_takes len(1) by (simp_all add: wire_def HttpServer_new_def)
  from http_exchange [OF ok(1,2) q t disp R a, of 4096 ?g 0 4096 mem]
  obtain c1 where c1: "HttpConnection_sendRequest ?r (wire []) = Some (int (length (HttpRequest_dump ?r)), c1)"
      "cn_out c1 = string_bytes (HttpRequest_dump ?r)"
      and srv: "carries 4096 (length (request_head ?r) + 2) (cn_out c1) (wire (cn_out c1)) \<and> takes_all 2000 (wire (cn_out c1)) \<and> cn_out (wire (cn_out c1)) = [] \<Longrightarrow>
        \<exists>req s'. HttpServer_handleClient decimal_cast 4096 ?g (\<lambda>_ _. 1) ?srv 0 (wire (cn_out c1)) = Some (Inr s')
          \<and> cn_out s' = string_bytes (HttpResponse_dump (sample_answer req))
          \<and> (carries 4096 (length (response_head (sample_answer req)) + 2) (cn_out s') (wire (cn_out s')) \<longrightarrow>
               (\<exists>rsp c3. HttpConnection_recvResponse decimal_cast 4096 mem (wire (cn_out s')) = Some (Inr (Some rsp), c3)
                 \<and> rs_status rsp = rs_status (sample_answer req) \<and> rs_body rsp = rs_body (sample_answer req)))"
    by blast
  have "carries 4096 (length (request_head ?r) + 2) (cn_out c1) (wire (cn_out c1))" "takes_all 2000 (wire (cn_out c1))"
      "cn_out (wire (cn_out c1)) = []"
    using wire_carries wire_takes len c1(2) wire_out by simp_all
  with srv obtain req s' where s': "HttpServer_handleClient decimal_cast 4096 ?g (\<lambda>_ _. 1) ?srv 0 (wire (cn_out c1)) = Some (Inr s')"
      "cn_out s' = string_bytes (HttpResponse_dump (sample_answer req))"
      and cl: "carries 4096 (length (response_head (sample_answer req)) + 2) (cn_out s') (wire (cn_out s')) \<Longrightarrow>
               \<exists>rsp c3. HttpConnection_recvResponse decimal_cast 4096 mem (wire (cn_out s')) = Some (Inr (Some rsp), c3)
                 \<and> rs_status rsp = rs_status (sample_answer req) \<and> rs_body rsp = rs_body (sample_answer req)"
    by blast
  have "carries 4096 (length (response_head (sample_answer req)) + 2) (cn_out s') (wire (cn_out s'))"
    using wire_carries rlen [of req] clen [of req] s'(2) by simp
  from cl [OF this] c1(1) s'(1) sample_answer_ok(4,5) [of req]
  show "\<exists>c1 s' rsp c3. HttpConnection_sendRequest ?r (wire []) = Some (int (length (HttpRequest_dump ?r)), c1)
     \<and> HttpServer_handleClient decimal_cast 4096 ?g (\<lambda>_ _. 1) ?srv 0 (wire (cn_out c1)) = Some (Inr s')
     \<and> HttpConnection_recvResponse decimal_cast 4096 mem (wire (cn_out s')) = Some (Inr (Some rsp), c3)
     \<and> rs_status rsp = 404 \<and> rs_body rsp = RSP_BODY"
    by metis
qed

section \<open>Chunked responses\<close>

text \<open>
  How a chunk may arrive: \<open>(d, [])\<close> as one piece, \<open>(d1, d2)\<close> with \<open>d2\<close> not empty as two pieces, cut
  inside the data. The client takes a chunk in one piece for what it is; of a chunk in two pieces it drops the last two
  bytes before the cut and takes the line end behind the chunk for data.
\<close>

fun chunk_pieces :: "string \<times> string \<Rightarrow> string list" where
  "chunk_pieces (d1, d2) =
     (if d2 = [] then [print_nat 16 (length d1) @ crlf @ d1 @ crlf]
      else [print_nat 16 (length (d1 @ d2)) @ crlf @ d1, d2 @ crlf])"

fun chunk_received :: "string \<times> string \<Rightarrow> string" where
  "chunk_received (d1, d2) = (if d2 = [] then d1 else take (length d1 - 2) d1 @ d2 @ crlf)"

definition chunk_fits :: "u64 \<Rightarrow> string \<times> string \<Rightarrow> bool" where
  "chunk_fits buffer_size ch \<longleftrightarrow> fst ch \<noteq> [] \<and> (snd ch \<noteq> [] \<longrightarrow> 2 \<le> length (fst ch))
     \<and> length (fst ch @ snd ch) < 2 ^ 31 \<and> (\<forall>p\<in>set (chunk_pieces ch). length p \<le> unat buffer_size)"

definition last_chunk :: string where
  "last_chunk = ''0'' @ crlf @ crlf"

lemma int32_buffer:
  assumes "unat (b :: u64) < 2 ^ 31"
  shows "int32 (uint b) = int (unat b)"
proof -
  have "int (unat b) < 2 ^ 31" using assms by (simp del: of_nat_unat)
  moreover have "- (2 ^ 31) \<le> int (unat b)" by (simp del: of_nat_unat)
  ultimately show ?thesis using int32_id by simp
qed

lemma recv_chunk_head:
  assumes "SocketStream_isConnected c" "unat buffer_size < 2 ^ 31" "cn_in c = Deliver bs # ins" "length bs \<le> unat buffer_size"
    "bytes_string bs = print_nat 16 n @ crlf @ b" "n < 2 ^ 31" "sp_error P = 0"
  shows "\<exists>P'. recvChunk_loop buffer_size [] P c = Some (Inr (Some (P', b)), c\<lparr>cn_in := ins\<rparr>)
     \<and> hc_content_len (sp_parser P') = int n \<and> hc_chunks_done (sp_parser P') = (n = 0) \<and> sp_data P' = sp_data P \<and> sp_error P' = 0"
proof -
  obtain P' where P': "HttpResponseParser_execute NUL (print_nat 16 n @ crlf @ b) True P = Inr (length (print_nat 16 n) + 2, b, P')"
     "HttpResponseParser_isFinished P' = 1" "\<not> HttpResponseParser_hasError P'" "sp_error P' = 0"
     "hc_content_len (sp_parser P') = int n" "hc_chunks_done (sp_parser P') = (n = 0)" "sp_data P' = sp_data P"
    using execute_chunk [OF assms(6), of b P] assms(2,4,5,7) length_bytes_string [of bs] by auto
  have len: "length bs = length (print_nat 16 n) + 2 + length b"
    using assms(5) length_bytes_string [of bs] by (simp add: crlf_def)
  then have "int (length b) \<noteq> int32 (uint buffer_size)"
    using assms(4) unfolding int32_buffer [OF assms(2)] by (simp del: of_nat_unat)
  then show ?thesis
    using read_whole [OF assms(1,3,4,2)] P' assms(5) len by (subst recvChunk_loop.simps) simp
qed

lemma recv_chunk_left:
  assumes "SocketStream_isConnected c" "unat buffer_size < 2 ^ 31" "cn_in c = Deliver bs # ins" "length bs \<le> unat buffer_size"
    "bs \<noteq> []"
  shows "recvChunk_left buffer_size (int (length bs)) body c = Some (Some (body @ bytes_string bs), c\<lparr>cn_in := ins\<rparr>)"
proof -
  have u: "unat (of_nat (length bs) :: u64) = length bs" using assms(2,4) by (intro unat_of_nat_small) simp
  have "\<not> int (length bs) > int32 (uint buffer_size)" using assms(4) unfolding int32_buffer [OF assms(2)] by (simp del: of_nat_unat)
  moreover have "recvChunk_left buffer_size 0 (body @ bytes_string bs) (c\<lparr>cn_in := ins\<rparr>) = Some (Some (body @ bytes_string bs), c\<lparr>cn_in := ins\<rparr>)"
    by (subst recvChunk_left.simps) simp
  ultimately show ?thesis
    using read_whole [OF assms(1,3), of "of_nat (length bs)"] u assms(2,4,5) by (subst recvChunk_left.simps) simp
qed

lemma recv_chunk:
  assumes "SocketStream_isConnected c" "unat buffer_size < 2 ^ 31" "chunk_fits buffer_size ch" "sp_error P = 0"
    "cn_in c = map (\<lambda>p. Deliver (string_bytes p)) (chunk_pieces ch) @ ins"
  shows "\<exists>P'. recvChunks buffer_size [] body P c = recvChunks buffer_size [] (body @ chunk_received ch) P' (c\<lparr>cn_in := ins\<rparr>)
     \<and> sp_data P' = sp_data P \<and> sp_error P' = 0"
proof -
  obtain d1 d2 where ch: "ch = (d1, d2)" by fastforce
  let ?n = "length (d1 @ d2)"
  have n: "?n < 2 ^ 31" "0 < ?n" using assms(3) ch by (auto simp: chunk_fits_def)
  show ?thesis
  proof (cases "d2 = []")
    case True
    let ?bs = "string_bytes (print_nat 16 ?n @ crlf @ d1 @ crlf)"
    have i: "cn_in c = Deliver ?bs # ins" "length ?bs \<le> unat buffer_size" "bytes_string ?bs = print_nat 16 ?n @ crlf @ d1 @ crlf"
      using assms(3,5) True by (simp_all add: ch chunk_fits_def)
    from recv_chunk_head [OF assms(1,2) i n(1) assms(4)] show ?thesis
      using n(2) True by (subst recvChunks.simps) (auto simp: ch crlf_def Let_def)
  next
    case False
    let ?bs = "string_bytes (print_nat 16 ?n @ crlf @ d1)" and ?bs2 = "string_bytes (d2 @ crlf)"
    let ?c = "c\<lparr>cn_in := Deliver ?bs2 # ins\<rparr>"
    have i: "cn_in c = Deliver ?bs # Deliver ?bs2 # ins" "length ?bs \<le> unat buffer_size" "bytes_string ?bs = print_nat 16 ?n @ crlf @ d1"
      "length ?bs2 \<le> unat buffer_size" "2 \<le> length d1"
      using assms(3,5) False by (simp_all add: ch chunk_fits_def)
    have con: "SocketStream_isConnected ?c" using assms(1) by (simp add: SocketStream_isConnected_def)
    have "int (length ?bs2) = int ?n - (int (length d1) - 2)" by (simp add: crlf_def)
    with recv_chunk_left [OF con assms(2) _ i(4), of ins "body @ take (length d1 - 2) d1"] False
    have l: "recvChunk_left buffer_size (int ?n - (int (length d1) - 2)) (body @ take (length d1 - 2) d1) ?c
        = Some (Some (body @ take (length d1 - 2) d1 @ d2 @ crlf), c\<lparr>cn_in := ins\<rparr>)" by simp
    have "nat (int (length d1) - 2) = length d1 - 2" "\<not> int ?n \<le> int (length d1) - 2" "\<not> int (length d1) - 2 < 0"
      using i(5) False by auto
    with recv_chunk_head [OF assms(1,2) i(1-3) n(1) assms(4)] l show ?thesis
      using n(2) False by (subst recvChunks.simps) (auto simp: ch Let_def simp del: length_append)
  qed
qed

lemma print_nat_0: "print_nat 16 0 = ''0''"
  by (subst print_nat.simps) (simp add: digit_char_def char_of_def bit_0 bit_Suc)

lemma recv_last_chunk:
  assumes "SocketStream_isConnected c" "unat buffer_size < 2 ^ 31" "length last_chunk \<le> unat buffer_size" "sp_error P = 0"
    "cn_in c = Deliver (string_bytes last_chunk) # ins"
  shows "\<exists>P'. recvChunks buffer_size [] body P c = Some (Inr (Some (P', body)), c\<lparr>cn_in := ins\<rparr>) \<and> sp_data P' = sp_data P"
proof -
  have "bytes_string (string_bytes last_chunk) = print_nat 16 0 @ crlf @ crlf" "length (string_bytes last_chunk) \<le> unat buffer_size"
    using assms(3) by (simp_all add: last_chunk_def print_nat_0)
  from recv_chunk_head [OF assms(1,2,5) this(2,1) _ assms(4)] show ?thesis
    by (subst recvChunks.simps) (auto simp: crlf_def Let_def)
qed

lemma recv_chunks:
  assumes "SocketStream_isConnected c" "unat buffer_size < 2 ^ 31" "list_all (chunk_fits buffer_size) chs" "sp_error P = 0"
    "length last_chunk \<le> unat buffer_size"
    "cn_in c = map (\<lambda>p. Deliver (string_bytes p)) (concat (map chunk_pieces chs) @ [last_chunk]) @ ins"
  shows "\<exists>P'. recvChunks buffer_size [] body P c = Some (Inr (Some (P', body @ concat (map chunk_received chs))), c\<lparr>cn_in := ins\<rparr>)
     \<and> sp_data P' = sp_data P"
  using assms
proof (induction chs arbitrary: c P body)
  case Nil
  then show ?case using recv_last_chunk [of c buffer_size P ins body] by simp
next
  case (Cons ch chs)
  let ?ins = "map (\<lambda>p. Deliver (string_bytes p)) (concat (map chunk_pieces chs) @ [last_chunk]) @ ins"
  obtain P1 where P1: "recvChunks buffer_size [] body P c
        = recvChunks buffer_size [] (body @ chunk_received ch) P1 (c\<lparr>cn_in := ?ins\<rparr>)" "sp_data P1 = sp_data P" "sp_error P1 = 0"
    using recv_chunk [OF Cons.prems(1,2) _ Cons.prems(4), of ch ?ins body] Cons.prems(3,6) by auto
  from Cons.IH [of "c\<lparr>cn_in := ?ins\<rparr>" P1 "body @ chunk_received ch"] P1 Cons.prems show ?case
    by (simp add: SocketStream_isConnected_def)
qed

text \<open>
  (C5) A chunked response whose head arrives alone and whose chunks arrive one by one: \<^verbatim>\<open>recvResponse\<close> returns the
  response, with the status and headers of the head, and stops behind the last chunk. When every chunk arrives in
  one piece the body is the concatenation of the chunks; a chunk that arrives in two pieces, as TCP may deliver it, loses the
  two bytes before the cut and gets its line end added to the body.
\<close>

theorem chunked_response:
  assumes "response_ok r" "map_ok CaseInsensitiveLess (rs_headers r)" "te_chunked \<in> set (rs_headers r)"
    and "SocketStream_isConnected c" "unat buffer_size < 2 ^ 31" "list_all (chunk_fits buffer_size) chs"
    and "length (response_head r) + 5 \<le> unat buffer_size"
    and "cn_in c = Deliver (string_bytes (response_head r @ crlf))
           # map (\<lambda>p. Deliver (string_bytes p)) (concat (map chunk_pieces chs) @ [last_chunk]) @ ins"
  shows "\<exists>rsp. HttpConnection_recvResponse cast buffer_size mem c = Some (Inr (Some rsp), c\<lparr>cn_in := ins\<rparr>)
     \<and> rs_status rsp = rs_status r \<and> rs_reason rsp = reason_of r
     \<and> rs_body rsp = concat (map chunk_received chs)
     \<and> (list_all (\<lambda>ch. snd ch = []) chs \<longrightarrow> rs_body rsp = concat (map fst chs))
     \<and> (\<forall>k def. casefold k \<notin> {''connection'', ''content-length''} \<longrightarrow>
          HttpResponse_getHeader rsp k def = HttpResponse_getHeader r k def)"
proof -
  let ?D = "HttpResponse_new 0x11 True" and ?body = "concat (map chunk_received chs)"
  let ?bs = "string_bytes (response_head r @ crlf)"
  let ?ins = "map (\<lambda>p. Deliver (string_bytes p)) (concat (map chunk_pieces chs) @ [last_chunk]) @ ins" and ?c = "\<lambda>i. c\<lparr>cn_in := i\<rparr>"
  have "length ?bs \<le> unat buffer_size" "bytes_string ?bs = response_head r @ crlf @ []" using assms(7) by (simp_all add: crlf_def)
  from recv_loop_response [OF assms(1,4,5,8) this] obtain P where
    P: "recvResponse_loop buffer_size [] (HttpResponseParser_new mem) c = Some (Inr (Some (P, [])), ?c ?ins)"
      "sp_data P = response_data r ?D" "sp_error P = 0" "hc_chunked (sp_parser P)" using assms(3) by blast
  have "length last_chunk \<le> unat buffer_size" using assms(7) by (simp add: last_chunk_def crlf_def)
  then obtain P' where P': "recvChunks buffer_size [] [] P (?c ?ins) = Some (Inr (Some (P', ?body)), ?c ins)" "sp_data P' = sp_data P"
    using recv_chunks [of "?c ?ins" buffer_size chs P ins "[]"] assms(4-6) P(3) by (auto simp: SocketStream_isConnected_def)
  let ?rsp = "response_data r ?D\<lparr>rs_body := ?body\<rparr>"
  have "rs_headers ?D = []" by (simp add: HttpResponse_new_def)
  note h = response_getHeader [OF assms(2) this]
  have "HttpResponse_getHeader ?rsp = HttpResponse_getHeader (response_data r ?D)"
    by (intro ext) (simp add: HttpResponse_getHeader_def)
  moreover have "chunk_received ch = fst ch" if "snd ch = []" for ch using that by (cases ch) simp
  then have "?body = concat (map fst chs)" if "list_all (\<lambda>ch. snd ch = []) chs"
    using that by (induction chs) auto
  moreover have "HttpConnection_recvResponse cast buffer_size mem c = Some (Inr (Some ?rsp), ?c ins)"
    using P P' by (simp add: HttpConnection_recvResponse_def)
  ultimately show ?thesis using h by (intro exI [of _ ?rsp]) (simp add: response_fields)
qed

definition chunked_head :: HttpResponse where
  "chunked_head = HttpResponse_setHeader ''Transfer-Encoding'' ''chunked'' (HttpResponse_new 0x11 False)"

theorem chunked_response_witness:
  "\<forall>cast mem. \<exists>rsp. HttpConnection_recvResponse cast 4096 mem ((wire [])\<lparr>cn_in := Deliver (string_bytes (response_head chunked_head @ crlf))
       # map (\<lambda>p. Deliver (string_bytes p)) (concat (map chunk_pieces [(''hello'', ''''), (''worl'', ''ds'')]) @ [last_chunk])\<rparr>)
       = Some (Inr (Some rsp), (wire [])\<lparr>cn_in := []\<rparr>)
     \<and> rs_body rsp = ''hellowods'' @ crlf"
proof (intro allI)
  fix cast mem
  let ?chs = "[(''hello'', ''''), (''worl'', ''ds'')]"
  have ok: "response_ok chunked_head" "map_ok CaseInsensitiveLess (rs_headers chunked_head)" "te_chunked \<in> set (rs_headers chunked_head)"
    by (simp_all add: chunked_head_def HttpResponse_new_def HttpResponse_setHeader_def response_ok_def response_line_def map_ok_def)
  have p: "length (print_nat 16 n) \<le> 100" if "n < 10" for n
    using that by (simp add: print_nat.simps)
  have "length (response_head chunked_head) \<le> 1000"
  proof -
    have "length (print_dec (200 :: u32)) \<le> 100" by (simp add: print_dec_def print_nat.simps)
    moreover have "length (HttpStatusToString 200) \<le> 100" by (simp add: HttpStatusToString_def HTTP_STATUS_MAP_def)
    ultimately show ?thesis
      by (simp add: response_head_def chunked_head_def HttpResponse_setHeader_def HttpResponse_new_def reason_of_def
          dump_version_texts response_headers_def header_line_def crlf_def is_connection_def c_str_def to_lower_def char_of_def bit_0 bit_Suc)
  qed
  then have len: "length (response_head chunked_head) + 5 \<le> unat (4096 :: u64)" by simp
  have fit: "list_all (chunk_fits 4096) ?chs"
    using p [of "length ''hello''"] p [of "length (''worl'' @ ''ds'')"] by (simp add: chunk_fits_def crlf_def)
  let ?c = "(wire [])\<lparr>cn_in := Deliver (string_bytes (response_head chunked_head @ crlf))
       # map (\<lambda>p. Deliver (string_bytes p)) (concat (map chunk_pieces ?chs) @ [last_chunk])\<rparr>"
  have "SocketStream_isConnected ?c" by (simp add: wire_def SocketStream_isConnected_def)
  from chunked_response [OF ok this _ fit len, of "[]" cast mem]
  show "\<exists>rsp. HttpConnection_recvResponse cast 4096 mem ((wire [])\<lparr>cn_in := Deliver (string_bytes (response_head chunked_head @ crlf))
       # map (\<lambda>p. Deliver (string_bytes p)) (concat (map chunk_pieces [(''hello'', ''''), (''worl'', ''ds'')]) @ [last_chunk])\<rparr>)
       = Some (Inr (Some rsp), (wire [])\<lparr>cn_in := []\<rparr>)
     \<and> rs_body rsp = ''hellowods'' @ crlf"
    by auto
qed

text \<open>The digits of a size without the line end.\<close>

lemma execute_digits:
  assumes "length (print_nat 16 n) < 2 ^ 31"
  shows "\<exists>P'. HttpResponseParser_execute NUL (print_nat 16 n) True P = Inr (length (print_nat 16 n), [], P')
     \<and> HttpResponseParser_isFinished P' = 0 \<and> (HttpResponseParser_hasError P' \<longleftrightarrow> sp_error P \<noteq> 0) \<and> sp_error P' = sp_error P
     \<and> sp_data P' = sp_data P"
proof -
  let ?d = "print_nat 16 n" and ?N = "set_client httpclient_parser_init P"
  let ?P0 = "set_client (\<lambda>h. h\<lparr>hc_nread := 0, hc_mark := 0, hc_field_len := 0, hc_field_start := 0\<rparr>) ?N"
  have hex: "list_all (code_in [(48, 57), (97, 102)]) ?d"
    using set_print_nat [of 16 n] by (auto simp: list_all_iff code_in_def digit_char_def)
  have "client_parses [] ?d [] 1 ?P0 (\<lambda>s' P'. s' = 2 \<and> P' = set_client (hc_mark_update (\<lambda>_. length [])) ?P0)"
    using parses_marked [where C = "code_in [(48, 57), (97, 102)]" and s = 1 and m = 2 and pre = "[]" and P = ?P0 and post = "[]",
        OF chunk_steps hex print_nat_ne] by (simp del: One_nat_def)
  then obtain evs P1 where run: "passes httpclient_step client_fbreak 1 0 ?d evs 2" "client_acts ?d evs ?P0 = Inr P1"
      "P1 = set_client (hc_mark_update (\<lambda>_. 0)) ?P0"
    unfolding parses_def by (auto simp del: One_nat_def)
  have "hc_cs (sp_parser ?N) = 1" "hc_body_start (sp_parser ?N) \<le> length ?d" "?d \<noteq> []"
    using print_nat_ne [of 16 n] by (simp_all add: httpclient_parser_init_def httpclient_parser_start_def)
  from client_execute_run [where P = ?N, unfolded this(1), OF passes_run [OF run(1)] this(3) run(2) this(2) assms]
  show ?thesis
    using run(3)
    by (simp add: HttpResponseParser_execute_def HttpResponseParser_isFinished_def
        httpclient_parser_finish_def httpclient_parser_has_error_def httpclient_parser_is_finished_def httpclient_parser_error_def
        httpclient_parser_first_final_def HttpResponseParser_hasError_def)
qed

text \<open>
  Two ways in which the same bytes, cut differently by the network, are misread. When the line with a chunk's size
  is cut inside the number, the digits before the cut are forgotten: the size is what the second
  piece says. When the last chunk arrives without the empty line that follows it, \<^verbatim>\<open>recvResponse\<close> does not wait for it but
  throws \<^verbatim>\<open>std::length_error\<close>, because the two bytes of that line are subtracted from an empty buffer.
\<close>

theorem chunk_lines_misread:
  assumes "SocketStream_isConnected c" "unat buffer_size < 2 ^ 31" "sp_error P = 0"
  shows "(m < 2 ^ 31 \<and> length (print_nat 16 n) < unat buffer_size \<and> length (print_nat 16 m @ crlf @ b) \<le> unat buffer_size
      \<and> cn_in c = Deliver (string_bytes (print_nat 16 n)) # Deliver (string_bytes (print_nat 16 m @ crlf @ b)) # ins \<longrightarrow>
      (\<exists>P'. recvChunk_loop buffer_size [] P c = Some (Inr (Some (P', b)), c\<lparr>cn_in := ins\<rparr>) \<and> hc_content_len (sp_parser P') = int m))
    \<and> (3 \<le> unat buffer_size \<and> cn_in c = Deliver (string_bytes (''0'' @ crlf)) # ins \<longrightarrow>
      recvChunks buffer_size [] body P c = Some (Inl Parse_length, c\<lparr>cn_in := ins\<rparr>))"
proof (rule conjI)
  show "m < 2 ^ 31 \<and> length (print_nat 16 n) < unat buffer_size \<and> length (print_nat 16 m @ crlf @ b) \<le> unat buffer_size
      \<and> cn_in c = Deliver (string_bytes (print_nat 16 n)) # Deliver (string_bytes (print_nat 16 m @ crlf @ b)) # ins \<longrightarrow>
      (\<exists>P'. recvChunk_loop buffer_size [] P c = Some (Inr (Some (P', b)), c\<lparr>cn_in := ins\<rparr>) \<and> hc_content_len (sp_parser P') = int m)"
  proof (intro impI, elim conjE)
    let ?n = "print_nat 16 n" and ?m = "print_nat 16 m @ crlf @ b"
    let ?c = "c\<lparr>cn_in := Deliver (string_bytes ?m) # ins\<rparr>"
    assume h: "m < 2 ^ 31" "length ?n < unat buffer_size" "length ?m \<le> unat buffer_size"
      "cn_in c = Deliver (string_bytes ?n) # Deliver (string_bytes ?m) # ins"
    obtain P1 where P1: "HttpResponseParser_execute NUL ?n True P = Inr (length ?n, [], P1)" "HttpResponseParser_isFinished P1 = 0"
        "\<not> HttpResponseParser_hasError P1" "sp_error P1 = 0"
      using execute_digits [of n P] h(2) assms(2,3) by auto
    have "int32 (uint buffer_size) \<noteq> 0" using h(2) unfolding int32_buffer [OF assms(2)] by (simp del: of_nat_unat)
    then have "recvChunk_loop buffer_size [] P c = recvChunk_loop buffer_size [] P1 ?c"
      using read_whole [OF assms(1) h(4), of buffer_size] h(2) assms(2) P1 print_nat_ne [of 16 n] by (subst recvChunk_loop.simps) simp
    moreover have "SocketStream_isConnected ?c" using assms(1) by (simp add: SocketStream_isConnected_def)
    note recv_chunk_head [OF this assms(2), of "string_bytes ?m" ins m b P1]
    ultimately show "\<exists>P'. recvChunk_loop buffer_size [] P c = Some (Inr (Some (P', b)), c\<lparr>cn_in := ins\<rparr>) \<and> hc_content_len (sp_parser P') = int m"
      using h(1,3) P1(4) by auto
  qed
  show "3 \<le> unat buffer_size \<and> cn_in c = Deliver (string_bytes (''0'' @ crlf)) # ins \<longrightarrow>
      recvChunks buffer_size [] body P c = Some (Inl Parse_length, c\<lparr>cn_in := ins\<rparr>)"
    using recv_chunk_head [OF assms(1,2) _ _ _ _ assms(3), of "string_bytes (''0'' @ crlf)" ins 0 "[]"]
    by (subst recvChunks.simps) (auto simp: crlf_def print_nat_0)
qed

theorem chunk_lines_misread_witness:
  "\<forall>mem. \<exists>P'. recvChunk_loop 4096 [] (HttpResponseParser_new mem) ((wire [])\<lparr>cn_in :=
       [Deliver (string_bytes (print_nat 16 1)), Deliver (string_bytes (print_nat 16 0 @ crlf @ ''x''))]\<rparr>)
       = Some (Inr (Some (P', ''x'')), (wire [])\<lparr>cn_in := []\<rparr>) \<and> hc_content_len (sp_parser P') = 0"
proof (intro allI)
  fix mem
  let ?c = "(wire [])\<lparr>cn_in := [Deliver (string_bytes (print_nat 16 1)), Deliver (string_bytes (print_nat 16 0 @ crlf @ ''x''))]\<rparr>"
  have p: "length (print_nat 16 n) \<le> 100" if "n < 10" for n
    using that by (simp add: print_nat.simps)
  have "SocketStream_isConnected ?c" "sp_error (HttpResponseParser_new mem) = 0"
    by (simp_all add: wire_def SocketStream_isConnected_def HttpResponseParser_new_def)
  from chunk_lines_misread [OF this(1) _ this(2), of 4096 0 1 "''x''" "[]"] p [of 1] p [of 0]
  show "\<exists>P'. recvChunk_loop 4096 [] (HttpResponseParser_new mem) ?c
       = Some (Inr (Some (P', ''x'')), (wire [])\<lparr>cn_in := []\<rparr>) \<and> hc_content_len (sp_parser P') = 0"
    by (simp add: crlf_def)
qed

section \<open>Outcomes of a request\<close>

lemma address_result_None: "address_result e pre a post = Inr r \<Longrightarrow> hr_response r = None \<and> hr_result r = HttpResult_code e"
  by (auto simp: address_result_def HttpResult_new_def split: sum.splits)

text \<open>
  Whatever the network does, a request on a fresh connection that returns a result leaves no open socket behind, its
  result code is \<^verbatim>\<open>OK\<close> exactly when it carries a response, and otherwise one of the five codes for an unknown host, a failed
  connect, a closed or failed send and a missing answer.
\<close>

theorem DoRequest_outcome:
  assumes "HttpConnection_DoRequest cast buffer_size mem w req uri timeout_ms = Some (Inr r, left)"
  shows "(hr_result r = 0 \<longleftrightarrow> hr_response r \<noteq> None) \<and> hr_result r \<in> {0, 2, 4, 5, 6, 7}
     \<and> (case left of None \<Rightarrow> hr_response r = None | Some (ctx, c) \<Rightarrow> \<not> SocketStream_isConnected c \<and> sk_sock (cn_socket c) = - 1)"
proof (cases "Uri_createAddress (nt_getaddrinfo w) uri")
  case (Inl e)
  then show ?thesis using assms by (simp add: HttpConnection_DoRequest_def)
next
  case (Inr a)
  show ?thesis
  proof (cases a)
    case None
    then show ?thesis using assms Inr by (auto simp: HttpConnection_DoRequest_def HttpResult_new_def)
  next
    case (Some addr)
    obtain con sock where s: "Socket_connect (nt_fd w) (nt_connect w) (nt_peer w) (nt_local w) addr (Socket_CreateTCP addr) = (con, sock)"
      by fastforce
    show ?thesis
    proof (cases con)
      case False
      then show ?thesis using assms Inr Some s by (auto simp: HttpConnection_DoRequest_def dest: address_result_None)
    next
      case True
      let ?c = "\<lparr>cn_socket = sock, cn_in = nt_in w, cn_send = nt_send w, cn_out = []\<rparr>"
      note do = assms [unfolded HttpConnection_DoRequest_def Inr sum.case Some option.case s Let_def prod.case]
      obtain res c1 where c1: "HttpConnection_sendRequest req ?c = Some (res, c1)"
        using do True by (cases "HttpConnection_sendRequest req ?c") auto
      note do = do c1 \<open>con\<close>
      show ?thesis
      proof (cases "res \<le> 0")
        case True
        then show ?thesis
          using do by (auto simp: HttpResult_new_def destroy_closes split: if_splits dest: address_result_None)
      next
        case False
        then obtain rsp c2 where c2: "HttpConnection_recvResponse cast buffer_size mem c1 = Some (rsp, c2)"
          using do by (cases "HttpConnection_recvResponse cast buffer_size mem c1") auto
        show ?thesis
          using do c2 False
          by (auto simp: HttpResult_new_def destroy_closes split: sum.splits option.splits dest: address_result_None)
      qed
    qed
  qed
qed

section \<open>The request that is sent\<close>

lemma cmp_casefold: "strcasecmp (c_str k) (c_str l) = 0 \<longleftrightarrow> casefold k = casefold l"
  using strcasecmp_eq [OF c_str_no_zero c_str_no_zero, of k l] by (simp add: casefold_def)

lemma header_names: "strcasecmp (c_str k) ''connection'' = 0 \<longleftrightarrow> casefold k = ''connection''"
    "strcasecmp (c_str k) ''host'' = 0 \<longleftrightarrow> casefold k = ''host''" "casefold ''Host'' = ''host''"
  using cmp_casefold [of k "''connection''"] cmp_casefold [of k "''host''"]
  by (simp_all add: casefold_def c_str_def to_lower_def char_of_def bit_0 bit_Suc)

definition same_target :: "HttpRequest \<Rightarrow> HttpRequest \<Rightarrow> bool" where
  "same_target r q \<longleftrightarrow> rq_method r = rq_method q \<and> rq_path r = rq_path q \<and> rq_query r = rq_query q
     \<and> rq_fragment r = rq_fragment q \<and> rq_version r = rq_version q"

lemma add_headers_spec:
  assumes "map_ok CaseInsensitiveLess (rq_headers req)" and "add_headers hs b req = (b', req')"
  shows "map_ok CaseInsensitiveLess (rq_headers req')"
    and "b' \<longleftrightarrow> b \<or> (\<exists>(k, v)\<in>set hs. casefold k = ''host'' \<and> v \<noteq> '''')"
    and "same_target req' req"
proof -
  have "map_ok CaseInsensitiveLess (rq_headers req') \<and> (b' \<longleftrightarrow> b \<or> (\<exists>(k, v)\<in>set hs. casefold k = ''host'' \<and> v \<noteq> ''''))
     \<and> same_target req' req"
    using assms
  proof (induction hs b req rule: add_headers.induct)
    case (1 b req)
    then show ?case by (auto simp: same_target_def)
  next
    case (2 k v hs b req)
    show ?case
    proof (cases "casefold k = ''connection''")
      case True
      let ?r = "if strcasecmp (c_str v) ''keep-alive'' = 0 then req\<lparr>rq_close := False\<rparr> else req"
      have "add_headers hs b ?r = (b', req')" "map_ok CaseInsensitiveLess (rq_headers ?r)"
        using 2(3,4) True by (simp_all add: header_names)
      from 2(1) [unfolded header_names, OF True this(2,1)] show ?thesis
        using True by (auto simp: same_target_def split: if_splits)
    next
      case False
      let ?b = "if \<not> b \<and> casefold k = ''host'' then v \<noteq> '''' else b" and ?r = "HttpRequest_setHeader k v req"
      have "add_headers hs ?b ?r = (b', req')" "map_ok CaseInsensitiveLess (rq_headers ?r)"
        using 2(3,4) False headers.put_ok [of "rq_headers req" k v] by (simp_all add: header_names HttpRequest_setHeader_def)
      from 2(2) [unfolded header_names, OF False this(2,1)] show ?thesis
        by (auto simp: same_target_def HttpRequest_setHeader_def split: if_splits)
    qed
  qed
  then show "map_ok CaseInsensitiveLess (rq_headers req')" "b' \<longleftrightarrow> b \<or> (\<exists>(k, v)\<in>set hs. casefold k = ''host'' \<and> v \<noteq> '''')"
    "same_target req' req" by blast+
qed

lemma build_request_spec:
  assumes "map_ok CaseInsensitiveLess (rq_headers req)"
  shows "map_ok CaseInsensitiveLess (rq_headers (build_request req hs host body))"
    and "same_target (build_request req hs host body) req" "rq_body (build_request req hs host body) = body"
    and "\<not> (\<exists>(k, v)\<in>set hs. casefold k = ''host'' \<and> v \<noteq> '''') \<Longrightarrow>
      map_find CaseInsensitiveLess ''Host'' (rq_headers (build_request req hs host body)) = Some host"
proof -
  obtain b' req' where a: "add_headers hs False req = (b', req')" by fastforce
  note s = add_headers_spec [OF assms a]
  show "map_ok CaseInsensitiveLess (rq_headers (build_request req hs host body))"
    using s(1) headers.put_ok [OF s(1)] by (simp add: build_request_def a HttpRequest_setHeader_def)
  show "same_target (build_request req hs host body) req" "rq_body (build_request req hs host body) = body"
    using s(3) by (auto simp: build_request_def a HttpRequest_setHeader_def same_target_def)
  show "map_find CaseInsensitiveLess ''Host'' (rq_headers (build_request req hs host body)) = Some host"
    if "\<not> (\<exists>(k, v)\<in>set hs. casefold k = ''host'' \<and> v \<noteq> '''')"
  proof -
    have "\<not> b'" using s(2) that by simp
    then show ?thesis using headers.find_put [OF s(1), of "''Host''" "''Host''" host] by (simp add: build_request_def a HttpRequest_setHeader_def)
  qed
qed

lemma connect_ok:
  assumes "Socket_connect fd 0 peer local addr (Socket_CreateTCP addr) = (con, sock)" "fd \<noteq> - 1"
  shows "con" "sk_isConnected sock" "sk_sock sock = fd"
  using assms by (auto simp: Socket_connect_def Socket_CreateTCP_def Socket_new_def Socket_newSock_def Socket_isValid_def Let_def)

text \<open>
  (C6) \<^verbatim>\<open>DoGet\<close> of a URL whose host resolves, when the connection is made, every send is accepted (in parts of any size), and the server answers with
  a response without chunks whose whole head is in the first read, which fits the buffer, while its body is cut in any way: the result is \<^verbatim>\<open>OK\<close> with that response; what was sent is exactly one request, a \<^verbatim>\<open>GET\<close>
  for the path, query and fragment of the URL with the given body, which names the host of the URL unless the
  caller gave a host of his own; and the socket is closed again.
\<close>

theorem DoGet_returns_response:
  assumes uri: "Uri_Create url = Inr (Some u)" "Uri_createAddress (nt_getaddrinfo w) u = Inr (Some addr)"
    and net: "nt_fd w \<noteq> - 1" "nt_connect w = 0" "nt_send w = map Accept ks" "\<forall>k\<in>set ks. 0 < k"
    and q: "q = build_request ((HttpRequest_new g 0x11 True)\<lparr>rq_path := Uri_getPath u, rq_query := u_query u,
        rq_fragment := u_fragment u, rq_method := GET\<rparr>) header (u_host u) body"
    and send: "length (HttpRequest_dump q) \<le> length ks" "length (HttpRequest_dump q) < 2 ^ 31"
    and rsp: "response_ok r" "map_ok CaseInsensitiveLess (rs_headers r)" "te_chunked \<notin> set (rs_headers r)"
      "length_readable cast (rs_body r) (rs_headers r)"
    and answer: "unat buffer_size < 2 ^ 31" "nt_in w = Deliver bs # ins" "length (response_head r) + 2 \<le> length bs"
      "length bs \<le> unat buffer_size" "bs @ delivered ins = string_bytes (HttpResponse_dump r)"
  shows "\<exists>ctx c. HttpConnection_DoGet cast buffer_size mem g w url timeout_ms header body
        = Some (Inr \<lparr>hr_result = 0, hr_response = Some (received_response r), hr_error = ''ok''\<rparr>, Some (ctx, c))
     \<and> cn_out c = string_bytes (HttpRequest_dump q) \<and> sk_sock (cn_socket c) = - 1
     \<and> rq_method q = GET \<and> rq_path q = Uri_getPath u \<and> rq_query q = u_query u \<and> rq_fragment q = u_fragment u \<and> rq_body q = body
     \<and> (\<not> (\<exists>(k, v)\<in>set header. casefold k = ''host'' \<and> v \<noteq> '''') \<longrightarrow> HttpRequest_getHeader q ''Host'' '''' = u_host u)"
proof -
  obtain con sock where s: "Socket_connect (nt_fd w) (nt_connect w) (nt_peer w) (nt_local w) addr (Socket_CreateTCP addr) = (con, sock)"
    by fastforce
  note con = connect_ok [OF s [unfolded net(2)] net(1)]
  let ?c = "\<lparr>cn_socket = sock, cn_in = nt_in w, cn_send = nt_send w, cn_out = []\<rparr>"
  have c: "SocketStream_isConnected ?c" using con(2) by (simp add: SocketStream_isConnected_def)
  obtain c1 where c1: "HttpConnection_sendRequest q ?c = Some (int (length (HttpRequest_dump q)), c1)"
      "cn_out c1 = string_bytes (HttpRequest_dump q)"
    using sendRequest_ok [OF send(2) c] net(3,4) send(1) by auto
  have f: "cn_socket c1 = sock" "cn_in c1 = nt_in w"
    using sendRequest_frame [OF c1(1)] by simp_all
  have "carries buffer_size (length (response_head r) + 2) (string_bytes (HttpResponse_dump r)) c1"
    unfolding carries_def using answer con f by (auto simp: SocketStream_isConnected_def)
  from recvResponse_ok [OF rsp(1-3) this, of cast mem] obtain c2 where
    c2: "HttpConnection_recvResponse cast buffer_size mem c1 = Some (Inr (Some (received_response r)), c2)" "cn_out c2 = cn_out c1"
    using rsp(4) unfolding length_readable_def by blast
  have m: "map_ok CaseInsensitiveLess (rq_headers ((HttpRequest_new g 0x11 True)\<lparr>rq_path := Uri_getPath u, rq_query := u_query u,
        rq_fragment := u_fragment u, rq_method := GET\<rparr>))" by (simp add: HttpRequest_new_def map_ok_def)
  note b = build_request_spec [OF m, of header "u_host u" body, folded q]
  have "rq_method q = GET \<and> rq_path q = Uri_getPath u \<and> rq_query q = u_query u \<and> rq_fragment q = u_fragment u \<and> rq_body q = body"
    using b(2,3) by (simp add: same_target_def)
  moreover have "HttpRequest_dump q \<noteq> []" by (simp add: dump_is_head_body crlf_def)
  then have "HttpConnection_DoGet cast buffer_size mem g w url timeout_ms header body
      = Some (Inr \<lparr>hr_result = 0, hr_response = Some (received_response r), hr_error = ''ok''\<rparr>,
          Some (Socket_setTimeout (nt_hook w) True timeout_ms (nt_ctx w), SocketStream_destroy True c2))"
    using uri s con c1(1) c2(1)
    by (simp add: HttpConnection_DoGet_def HttpConnection_DoGet_uri_def HttpConnection_DoRequest_uri_def q [symmetric]
        HttpConnection_DoRequest_def HttpResult_new_def Let_def)
  moreover note destroy_closes(2,3) [of c2] c2(2) c1(2) b(4)
  ultimately show ?thesis by (auto simp: HttpRequest_getHeader_def find_or_def)
qed

definition sample_net :: net where
  "sample_net = \<lparr>nt_getaddrinfo = \<lambda>_ _ _. Inr [Some (2 # replicate 15 0)], nt_fd = 5, nt_connect = 0, nt_peer = None, nt_local = None,
     nt_in = [Deliver (string_bytes (HttpResponse_dump sample_response))], nt_send = replicate 5000 (Accept 1), nt_errno = 0,
     nt_strerror = \<lambda>_. ''Success'', nt_hook = False, nt_ctx = None\<rparr>"

definition sample_url :: string where
  "sample_url = uri_string ''http'' None ''h'' None ''/x'' None None"

definition sample_uri :: Uri where
  "sample_uri = \<lparr>u_scheme = ''http'', u_userinfo = '''', u_host = ''h'', u_path = ''/x'', u_query = '''', u_fragment = '''', u_port = 0\<rparr>"

lemma sample_url_parts: "Uri_Create sample_url = Inr (Some sample_uri)"
  unfolding sample_url_def sample_uri_def
  by (subst Create_uri_string) (simp_all add: scheme_ok_def uri_classes code_in_def path_ok_def)

lemma sample_address:
  "\<exists>a. Uri_createAddress (nt_getaddrinfo sample_net) sample_uri = Inr (Some a)"
  by (simp add: Uri_createAddress_def sample_net_def sample_uri_def Address_LookupIPAddress_def Address_Lookup_def Lookup_split_def
      Lookup_ipv6_def Address_Create_def segment_def AF_INET_def Let_def)

lemma sample_response_length: "length (HttpResponse_dump sample_response) \<le> 4000"
proof -
  have "length (HttpStatusToString 404) \<le> 100" by (simp add: HttpStatusToString_def HTTP_STATUS_MAP_def)
  moreover have "length (print_dec (404 :: u32)) \<le> 100" by (simp add: print_dec_def print_nat.simps)
  moreover have "length (print_nat 10 (length ''hello'')) \<le> 100" by (simp add: print_nat.simps)
  ultimately show ?thesis
    by (simp add: HttpResponse_dump_def sample_response_def HttpResponse_setHeader_def HttpResponse_new_def dump_version_texts
      dump_headers_def dump_close_def dump_body_def crlf_def is_connection_def c_str_def to_lower_def char_of_def bit_0 bit_Suc)
qed

lemma sample_request_length:
  "length (HttpRequest_dump (build_request ((HttpRequest_new g 0x11 True)\<lparr>rq_path := Uri_getPath sample_uri, rq_query := u_query sample_uri,
     rq_fragment := u_fragment sample_uri, rq_method := GET\<rparr>) [] (u_host sample_uri) '''')) \<le> 4000"
  by (simp add: build_request_def HttpRequest_dump_def HttpRequest_new_def HttpRequest_setHeader_def sample_uri_def Uri_getPath_def
      HttpMethodToString_def method_num_def s_method_string_def HTTP_METHOD_MAP_def dump_version_texts dump_headers_def dump_close_def
      dump_body_def crlf_def is_connection_def c_str_def to_lower_def char_of_def bit_0 bit_Suc)

theorem DoGet_returns_response_witness:
  "\<forall>mem g. \<exists>ctx c. HttpConnection_DoGet decimal_cast 4096 mem g sample_net sample_url 1000 [] ''''
      = Some (Inr \<lparr>hr_result = 0, hr_response = Some (received_response sample_response), hr_error = ''ok''\<rparr>, Some (ctx, c))
    \<and> sk_sock (cn_socket c) = - 1"
proof (intro allI)
  fix mem g
  obtain a where a: "Uri_createAddress (nt_getaddrinfo sample_net) sample_uri = Inr (Some a)" using sample_address by blast
  have n: "nt_fd sample_net \<noteq> - 1" "nt_connect sample_net = 0" "nt_send sample_net = map Accept (replicate 5000 1)"
    "nt_in sample_net = [Deliver (string_bytes (HttpResponse_dump sample_response))]"
    by (simp_all add: sample_net_def)
  have r: "te_chunked \<notin> set (rs_headers sample_response)" "length_readable decimal_cast (rs_body sample_response) (rs_headers sample_response)"
    by (simp_all add: sample_response_ok decimal_readable) (simp add: sample_response_def HttpResponse_setHeader_def HttpResponse_new_def)
  have l: "length (response_head sample_response) + 2 \<le> length (HttpResponse_dump sample_response)"
    by (simp add: dump_is_response_head crlf_def)
  show "\<exists>ctx c. HttpConnection_DoGet decimal_cast 4096 mem g sample_net sample_url 1000 [] ''''
      = Some (Inr \<lparr>hr_result = 0, hr_response = Some (received_response sample_response), hr_error = ''ok''\<rparr>, Some (ctx, c))
    \<and> sk_sock (cn_socket c) = - 1"
    using DoGet_returns_response [OF sample_url_parts a n(1-3) _ refl, where cast = decimal_cast and buffer_size = 4096 and r = sample_response
        and mem = mem and timeout_ms = 1000 and header = "[]" and body = "''''" and g = g and ins = "[]"
        and bs = "string_bytes (HttpResponse_dump sample_response)"]
      n(4) r l sample_response_ok(1,2) sample_response_length sample_request_length [of g] by auto
qed

lemma unknown_host:
  "HttpConnection_DoRequest cast 4096 mem (sample_net\<lparr>nt_getaddrinfo := \<lambda>_ _ _. Inl (- 2)\<rparr>) req sample_uri 1000
    = Some (Inr \<lparr>hr_result = 2, hr_response = None, hr_error = ''invalid host: h''\<rparr>, None)"
  by (simp add: HttpConnection_DoRequest_def Uri_createAddress_def sample_uri_def Address_LookupIPAddress_def Address_Lookup_def
      HttpResult_new_def split: prod.splits)

theorem DoRequest_outcome_witness:
  "\<forall>cast mem req. \<exists>r. HttpConnection_DoRequest cast 4096 mem (sample_net\<lparr>nt_getaddrinfo := \<lambda>_ _ _. Inl (- 2)\<rparr>) req sample_uri 1000
     = Some (Inr r, None) \<and> hr_result r \<in> {0, 2, 4, 5, 6, 7} \<and> hr_response r = None"
proof (intro allI)
  fix cast mem req
  show "\<exists>r. HttpConnection_DoRequest cast 4096 mem (sample_net\<lparr>nt_getaddrinfo := \<lambda>_ _ _. Inl (- 2)\<rparr>) req sample_uri 1000
     = Some (Inr r, None) \<and> hr_result r \<in> {0, 2, 4, 5, 6, 7} \<and> hr_response r = None"
    using DoRequest_outcome [OF unknown_host [of cast mem req]] unknown_host [of cast mem req] by simp
qed

end
