(* ===== verification/Http_Pool.thy ===== *)
theory Http_Pool
  imports Http_Connection
begin

text \<open>
  Model of the class \<^verbatim>\<open>HttpConnectionPool\<close> of \<^verbatim>\<open>src/src/http/http_connection.cpp\<close>: connections to one host that are
  kept for later requests. A connection that is handed out belongs to a shared pointer whose deleter is \<^verbatim>\<open>ReleasePtr\<close>,
  which runs when the request is over, also after an exception.
\<close>

section \<open>State\<close>

record pooled =
  pc_conn :: conn
  pc_createTime :: u64
  pc_request :: u64

record conn_pool =
  cp_host :: string
  cp_vhost :: string
  cp_port :: u32
  cp_maxSize :: u32
  cp_maxAliveTime :: u32
  cp_maxRequest :: u32
  cp_conns :: "pooled list"
  cp_total :: u32

definition HttpConnectionPool_new :: "string \<Rightarrow> string \<Rightarrow> u32 \<Rightarrow> u32 \<Rightarrow> u32 \<Rightarrow> u32 \<Rightarrow> conn_pool" where
  "HttpConnectionPool_new host vhost port maxSize maxAliveTime maxRequest =
     \<lparr>cp_host = host, cp_vhost = vhost, cp_port = port, cp_maxSize = maxSize, cp_maxAliveTime = maxAliveTime,
      cp_maxRequest = maxRequest, cp_conns = [], cp_total = 0\<rparr>"

text \<open>The members that the constructor of \<^verbatim>\<open>HttpConnection\<close> does not set start at zero.\<close>

definition HttpConnection_new :: "conn \<Rightarrow> pooled" where
  "HttpConnection_new c = \<lparr>pc_conn = c, pc_createTime = 0, pc_request = 0\<rparr>"

section \<open>Taking and returning connections\<close>

text \<open>The loop of \<^verbatim>\<open>getConnection\<close>: the connection it stops at, those behind it, and those it throws away.\<close>

fun take_connection :: "u64 \<Rightarrow> pooled list \<Rightarrow> pooled option \<times> pooled list \<times> pooled list" where
  "take_connection currentMS [] = (None, [], [])"
| "take_connection currentMS (conn # conns) =
     (if \<not> SocketStream_isConnected (pc_conn conn) \<or> pc_createTime conn \<ge> currentMS then
        let (ptr, rest, invalid_conns) = take_connection currentMS conns in (ptr, rest, conn # invalid_conns)
      else (Some conn, conns, []))"

text \<open>
  \<^verbatim>\<open>getConnection\<close>. \<^verbatim>\<open>Socket::CreateTCP\<close> never gives a null pointer. The message of a failed connect prints the address.
  It is one step here. The code takes the connection out under the lock and updates \<^verbatim>\<open>m_total\<close> after the unlock; other threads may see the
  total in between, at a time when it still counts the connections that are thrown away and not yet the new one.
\<close>

definition HttpConnectionPool_getConnection :: "net \<Rightarrow> u64 \<Rightarrow> conn_pool \<Rightarrow> (client_error + pooled option) \<times> conn_pool" where
  "HttpConnectionPool_getConnection w currentMS pool =
     (let (ptr, rest, invalid_conns) = take_connection currentMS (cp_conns pool);
          pool1 = pool\<lparr>cp_conns := rest, cp_total := cp_total pool - of_nat (length invalid_conns)\<rparr>
      in case ptr of
           Some conn \<Rightarrow> (Inr (Some conn), pool1)
         | None \<Rightarrow>
             (case Address_LookupIPAddress (nt_getaddrinfo w) (cp_host pool) (uint AF_INET) 0 0 of
                Inl e \<Rightarrow> (Inl (Client_addr e), pool1)
              | Inr None \<Rightarrow> (Inr None, pool1)
              | Inr (Some addr0) \<Rightarrow>
                  let addr = IPAddress_setPort (ucast (cp_port pool)) addr0;
                      (connected, sock) = Socket_connect (nt_fd w) (nt_connect w) (nt_peer w) (nt_local w) addr (Socket_CreateTCP addr)
                  in if \<not> connected then
                       (case Address_toString addr of Inl e \<Rightarrow> Inl (Client_addr e) | Inr _ \<Rightarrow> Inr None, pool1)
                     else (Inr (Some (HttpConnection_new \<lparr>cn_socket = sock, cn_in = nt_in w, cn_send = nt_send w, cn_out = []\<rparr>)),
                           pool1\<lparr>cp_total := cp_total pool1 + 1\<rparr>)))"

text \<open>\<^verbatim>\<open>ReleasePtr\<close>: the connection goes back to the end of the list, or it is deleted, which closes it.\<close>

definition HttpConnectionPool_ReleasePtr :: "u64 \<Rightarrow> pooled \<Rightarrow> conn_pool \<Rightarrow> conn_pool" where
  "HttpConnectionPool_ReleasePtr now ptr0 pool =
     (let ptr = ptr0\<lparr>pc_request := pc_request ptr0 + 1\<rparr> in
      if \<not> SocketStream_isConnected (pc_conn ptr) \<or> pc_createTime ptr + ucast (cp_maxAliveTime pool) \<ge> now
         \<or> pc_request ptr > ucast (cp_maxRequest pool)
      then pool\<lparr>cp_total := cp_total pool - 1\<rparr>
      else pool\<lparr>cp_conns := cp_conns pool @ [ptr]\<rparr>)"

section \<open>Requests through the pool\<close>

text \<open>What the request makes of the connection it was given: the result and the connection.\<close>

definition pool_exchange ::
    "(string \<Rightarrow> u64 option) \<Rightarrow> u64 \<Rightarrow> httpclient_parser \<Rightarrow> net \<Rightarrow> HttpRequest \<Rightarrow> u64 \<Rightarrow> conn
      \<Rightarrow> ((client_error + HttpResult) \<times> conn) option" where
  "pool_exchange cast buffer_size mem w req timeout_ms c =
     Option.bind (HttpConnection_sendRequest req c) (\<lambda>(res, c1).
       let (remote, sock) = Socket_getRemoteAddress (nt_peer w) (cn_socket c1) in
       if res = 0 then Some (address_result SEND_CLOSED_BY_PEER ''send closed by peer: '' remote '''', c1\<lparr>cn_socket := sock\<rparr>)
       else if res < 0 then Some (Inr (HttpResult_new SEND_SOCKET_ERROR None (socket_error_message w)), c1)
       else map_option (\<lambda>(rsp, c2).
         case rsp of
           Inl e \<Rightarrow> (Inl (Client_parse e), c2)
         | Inr None \<Rightarrow>
             let (remote2, sock2) = Socket_getRemoteAddress (nt_peer w) (cn_socket c2) in
             (address_result TIMEOUT ''recv response timeout: '' remote2 ('' timeout_ms = '' @ print_dec timeout_ms),
              c2\<lparr>cn_socket := sock2\<rparr>)
         | Inr (Some r) \<Rightarrow> (Inr (HttpResult_new OK (Some r) ''ok''), c2))
         (HttpConnection_recvResponse cast buffer_size mem c1))"

text \<open>
  \<^verbatim>\<open>doRequest(req, timeout_ms)\<close>; \<open>now\<close> and \<open>later\<close> are the times of \<^verbatim>\<open>getConnection\<close> and \<^verbatim>\<open>ReleasePtr\<close>. A connection always has a
  socket, so \<^verbatim>\<open>POOL_INVALID_CONNECT\<close> is not produced.
\<close>

definition HttpConnectionPool_doRequest ::
    "(string \<Rightarrow> u64 option) \<Rightarrow> u64 \<Rightarrow> httpclient_parser \<Rightarrow> net \<Rightarrow> u64 \<Rightarrow> u64 \<Rightarrow> HttpRequest \<Rightarrow> u64 \<Rightarrow> conn_pool
      \<Rightarrow> ((client_error + HttpResult) \<times> conn_pool) option" where
  "HttpConnectionPool_doRequest cast buffer_size mem w now later req timeout_ms pool =
     (case HttpConnectionPool_getConnection w now pool of
        (Inl e, pool1) \<Rightarrow> Some (Inl e, pool1)
      | (Inr None, pool1) \<Rightarrow>
          Some (Inr (HttpResult_new POOL_GET_CONNECT None (''pool host: '' @ cp_host pool @ '' port = '' @ print_dec (cp_port pool))), pool1)
      | (Inr (Some conn), pool1) \<Rightarrow>
          map_option (\<lambda>(r, c). (r, HttpConnectionPool_ReleasePtr later (conn\<lparr>pc_conn := c\<rparr>) pool1))
            (pool_exchange cast buffer_size mem w req timeout_ms (pc_conn conn)))"

definition HttpConnectionPool_doRequest_url ::
    "(string \<Rightarrow> u64 option) \<Rightarrow> u64 \<Rightarrow> httpclient_parser \<Rightarrow> HttpStatus \<Rightarrow> net \<Rightarrow> u64 \<Rightarrow> u64 \<Rightarrow> HttpMethod \<Rightarrow> string \<Rightarrow> u64
      \<Rightarrow> (string \<times> string) list \<Rightarrow> string \<Rightarrow> conn_pool \<Rightarrow> ((client_error + HttpResult) \<times> conn_pool) option" where
  "HttpConnectionPool_doRequest_url cast buffer_size mem g w now later method url timeout_ms header body pool =
     HttpConnectionPool_doRequest cast buffer_size mem w now later
       (build_request ((HttpRequest_new g 0x11 True)\<lparr>rq_path := url, rq_method := method, rq_close := False\<rparr>) header
         (if cp_vhost pool = '''' then cp_host pool else cp_vhost pool) body)
       timeout_ms pool"

definition pool_target :: "Uri \<Rightarrow> string" where
  "pool_target uri = Uri_getPath uri @ (if u_query uri = '''' then '''' else ''?'') @ u_query uri
     @ (if u_fragment uri = '''' then '''' else ''#'') @ u_fragment uri"

definition HttpConnectionPool_doRequest_uri where
  "HttpConnectionPool_doRequest_uri cast buffer_size mem g w now later method uri timeout_ms header body pool =
     HttpConnectionPool_doRequest_url cast buffer_size mem g w now later method (pool_target uri) timeout_ms header body pool"

definition HttpConnectionPool_doGet where
  "HttpConnectionPool_doGet cast buffer_size mem g w now later url timeout_ms header body pool =
     HttpConnectionPool_doRequest_url cast buffer_size mem g w now later GET url timeout_ms header body pool"

definition HttpConnectionPool_doGet_uri where
  "HttpConnectionPool_doGet_uri cast buffer_size mem g w now later uri timeout_ms header body pool =
     HttpConnectionPool_doGet cast buffer_size mem g w now later (pool_target uri) timeout_ms header body pool"

definition HttpConnectionPool_doPost where
  "HttpConnectionPool_doPost cast buffer_size mem g w now later url timeout_ms header body pool =
     HttpConnectionPool_doRequest_url cast buffer_size mem g w now later POST url timeout_ms header body pool"

definition HttpConnectionPool_doPost_uri where
  "HttpConnectionPool_doPost_uri cast buffer_size mem g w now later uri timeout_ms header body pool =
     HttpConnectionPool_doPost cast buffer_size mem g w now later (pool_target uri) timeout_ms header body pool"

section \<open>Accounting\<close>

text \<open>The states of a pool and of the connections it has handed out; those change in the hands of their users.\<close>

inductive pool_reach :: "conn_pool \<Rightarrow> conn_pool \<Rightarrow> pooled list \<Rightarrow> bool" for p0 where
  p_new: "cp_conns p0 = [] \<Longrightarrow> cp_total p0 = 0 \<Longrightarrow> pool_reach p0 p0 []"
| p_get: "pool_reach p0 pool out \<Longrightarrow> HttpConnectionPool_getConnection w now pool = (Inr (Some conn), pool') \<Longrightarrow>
    pool_reach p0 pool' (conn # out)"
| p_fail: "pool_reach p0 pool out \<Longrightarrow> HttpConnectionPool_getConnection w now pool = (r, pool') \<Longrightarrow>
    \<forall>conn. r \<noteq> Inr (Some conn) \<Longrightarrow> pool_reach p0 pool' out"
| p_use: "pool_reach p0 pool (out1 @ conn # out2) \<Longrightarrow> pool_reach p0 pool (out1 @ conn\<lparr>pc_conn := c\<rparr> # out2)"
| p_release: "pool_reach p0 pool (out1 @ conn # out2) \<Longrightarrow> pool_reach p0 (HttpConnectionPool_ReleasePtr now conn pool) (out1 @ out2)"

definition in_use :: "conn_pool \<Rightarrow> pooled \<Rightarrow> bool" where
  "in_use pool conn \<longleftrightarrow> pc_createTime conn = 0 \<and> unat (pc_request conn) \<le> unat (cp_maxRequest pool)"

definition pool_inv :: "conn_pool \<Rightarrow> conn_pool \<Rightarrow> pooled list \<Rightarrow> bool" where
  "pool_inv p0 pool out \<longleftrightarrow> cp_total pool = of_nat (length (cp_conns pool) + length out)
     \<and> (\<forall>conn\<in>set (cp_conns pool). SocketStream_isConnected (pc_conn conn) \<and> in_use pool conn)
     \<and> (\<forall>conn\<in>set out. in_use pool conn) \<and> cp_maxRequest pool = cp_maxRequest p0 \<and> cp_host pool = cp_host p0"

lemma take_connection_spec:
  "take_connection now conns = (ptr, rest, bad) \<Longrightarrow>
    length conns = length rest + length bad + (if ptr = None then 0 else 1) \<and> set rest \<subseteq> set conns
    \<and> (\<forall>conn. ptr = Some conn \<longrightarrow> conn \<in> set conns \<and> SocketStream_isConnected (pc_conn conn))"
proof (induction conns arbitrary: ptr rest bad)
  case (Cons conn conns)
  obtain p1 r1 b1 where r: "take_connection now conns = (p1, r1, b1)" by (metis prod_cases3)
  from Cons.IH [OF this] Cons.prems r show ?case by (auto split: if_splits)
qed simp

lemma getConnection_cases:
  assumes "HttpConnectionPool_getConnection w now pool = (r, pool')"
  obtains (reuse) conn rest bad where "take_connection now (cp_conns pool) = (Some conn, rest, bad)" "r = Inr (Some conn)"
      "pool' = pool\<lparr>cp_conns := rest, cp_total := cp_total pool - of_nat (length bad)\<rparr>"
    | (fail) rest bad where "take_connection now (cp_conns pool) = (None, rest, bad)" "\<forall>conn. r \<noteq> Inr (Some conn)"
      "pool' = pool\<lparr>cp_conns := rest, cp_total := cp_total pool - of_nat (length bad)\<rparr>"
    | (fresh) c rest bad where "take_connection now (cp_conns pool) = (None, rest, bad)" "r = Inr (Some (HttpConnection_new c))"
      "pool' = pool\<lparr>cp_conns := rest, cp_total := cp_total pool - of_nat (length bad) + 1\<rparr>"
  using assms
  by (auto simp: HttpConnectionPool_getConnection_def Let_def split: prod.splits option.splits sum.splits if_splits)

lemma getConnection_inv:
  assumes "HttpConnectionPool_getConnection w now pool = (r, pool')" "pool_inv p0 pool out"
  shows "pool_inv p0 pool' (case r of Inr (Some conn) \<Rightarrow> conn # out | _ \<Rightarrow> out)"
  using assms(1)
proof (cases rule: getConnection_cases)
  case (reuse conn rest bad)
  note t = take_connection_spec [OF reuse(1)]
  have "in_use pool' conn" "\<forall>x\<in>set rest. SocketStream_isConnected (pc_conn x) \<and> in_use pool' x"
    using t assms(2) by (auto simp: pool_inv_def reuse(3) in_use_def)
  then show ?thesis
    using t assms(2) by (auto simp: pool_inv_def reuse in_use_def)
next
  case (fail rest bad)
  note t = take_connection_spec [OF fail(1)]
  have "(case r of Inr (Some conn) \<Rightarrow> conn # out | _ \<Rightarrow> out) = out" using fail(2) by (auto split: sum.split option.split)
  then show ?thesis using t assms(2) by (auto simp: pool_inv_def fail(3) in_use_def)
next
  case (fresh c rest bad)
  note t = take_connection_spec [OF fresh(1)]
  then show ?thesis using assms(2) by (auto simp: pool_inv_def fresh in_use_def HttpConnection_new_def)
qed

lemma unat_ucast_small: "unat (ucast (x :: u32) :: u64) = unat x"
  by (simp add: unsigned_ucast_eq take_bit_nat_eq_self less_le_trans [OF unsigned_less])

lemma pool_release_inv:
  assumes "pool_inv p0 pool (out1 @ conn # out2)"
  shows "pool_inv p0 (HttpConnectionPool_ReleasePtr now conn pool) (out1 @ out2)"
proof -
  let ?conn = "conn\<lparr>pc_request := pc_request conn + 1\<rparr>"
  have "in_use pool ?conn" if "\<not> pc_request ?conn > ucast (cp_maxRequest pool)"
    using that assms by (simp add: pool_inv_def in_use_def not_less word_le_nat_alt unat_ucast_small)
  then show ?thesis
    using assms by (auto simp: HttpConnectionPool_ReleasePtr_def Let_def pool_inv_def in_use_def)
qed

lemma pool_reach_inv: "pool_reach p0 pool out \<Longrightarrow> pool_inv p0 pool out"
proof (induction rule: pool_reach.induct)
  case p_new
  then show ?case by (simp add: pool_inv_def)
next
  case (p_get pool out w now conn pool')
  then show ?case using getConnection_inv [OF p_get(2,3)] by simp
next
  case (p_fail pool out w now r pool')
  then show ?case using getConnection_inv [OF p_fail(2,4)] by (auto split: sum.splits option.splits)
next
  case (p_use pool out1 conn out2 c)
  then show ?case by (auto simp: pool_inv_def in_use_def)
next
  case (p_release pool out1 conn out2 now)
  then show ?case by (intro pool_release_inv)
qed

text \<open>
  (C27) The bookkeeping of a pool: in every state that taking, using and returning connections in any order can lead to,
  \<^verbatim>\<open>m_total\<close> is the number of connections in the list and in use, and every connection in the list is connected and has served at most
  \<^verbatim>\<open>maxRequest\<close> requests. None of them knows when it was made: \<^verbatim>\<open>m_createTime\<close> is zero.
\<close>

theorem pool_accounts:
  assumes "pool_reach (HttpConnectionPool_new host vhost port maxSize maxAliveTime maxRequest) pool out"
  shows "cp_total pool = of_nat (length (cp_conns pool) + length out)
    \<and> (\<forall>conn\<in>set (cp_conns pool). SocketStream_isConnected (pc_conn conn) \<and> unat (pc_request conn) \<le> unat maxRequest
         \<and> pc_createTime conn = 0)"
  using pool_reach_inv [OF assms] by (auto simp: pool_inv_def in_use_def HttpConnectionPool_new_def)

section \<open>Limits\<close>

lemma sample_lookup:
  "\<exists>a. Address_LookupIPAddress (nt_getaddrinfo sample_net) ''h'' (uint AF_INET) 0 0 = Inr (Some a)"
  by (simp add: sample_net_def Address_LookupIPAddress_def Address_Lookup_def Lookup_split_def
      Lookup_ipv6_def Address_Create_def segment_def AF_INET_def Let_def)

lemma get_fresh:
  assumes "cp_conns pool = []" "cp_host pool = ''h''"
  shows "\<exists>conn. HttpConnectionPool_getConnection sample_net now pool = (Inr (Some conn), pool\<lparr>cp_total := cp_total pool + 1\<rparr>)"
proof -
  obtain a where a: "Address_LookupIPAddress (nt_getaddrinfo sample_net) ''h'' (uint AF_INET) 0 0 = Inr (Some a)"
    using sample_lookup by blast
  let ?a = "IPAddress_setPort (ucast (cp_port pool)) a"
  obtain con sock where s: "Socket_connect 5 0 None None ?a (Socket_CreateTCP ?a) = (con, sock)" by fastforce
  then have "con" using connect_ok(1) [OF s] by simp
  moreover have "nt_fd sample_net = 5" "nt_connect sample_net = 0" "nt_peer sample_net = None" "nt_local sample_net = None"
    by (simp_all add: sample_net_def)
  ultimately show ?thesis
    using a s assms by (simp add: HttpConnectionPool_getConnection_def Let_def)
qed

lemma reach_any_size:
  assumes "cp_conns p0 = []" "cp_total p0 = 0" "cp_host p0 = ''h''"
  shows "\<exists>out. pool_reach p0 (p0\<lparr>cp_total := of_nat n\<rparr>) out \<and> length out = n"
proof (induction n)
  case 0
  have "p0\<lparr>cp_total := 0\<rparr> = p0" using assms(2) by simp
  then show ?case using pool_reach.p_new [OF assms(1,2)] by auto
next
  case (Suc n)
  then obtain out where out: "pool_reach p0 (p0\<lparr>cp_total := of_nat n\<rparr>) out" "length out = n" by blast
  obtain conn where "HttpConnectionPool_getConnection sample_net 1 (p0\<lparr>cp_total := of_nat n\<rparr>)
      = (Inr (Some conn), p0\<lparr>cp_total := of_nat n + 1\<rparr>)"
    using get_fresh [of "p0\<lparr>cp_total := of_nat n\<rparr>" 1] assms by auto
  from pool_reach.p_get [OF out(1) this] out(2) show ?case
    by (intro exI [of _ "conn # out"]) (simp add: add.commute)
qed

text \<open>
  Two limits of a pool have no effect. A pool made for at most \<open>maxSize\<close> connections hands out any number of them. And since a
  connection's time of creation is zero, a connection of any age is taken back, for all times after the first
  seven weeks of 1970: only the number of its requests and its own connected flag decide.
\<close>

theorem pool_limits_ineffective:
  "(\<exists>pool out. pool_reach (HttpConnectionPool_new ''h'' vhost port maxSize maxAliveTime maxRequest) pool out \<and> length out = n)
    \<and> (2 ^ 32 \<le> unat now \<and> pc_createTime conn = 0 \<longrightarrow>
      HttpConnectionPool_ReleasePtr now conn pool =
        (let conn' = conn\<lparr>pc_request := pc_request conn + 1\<rparr> in
         if SocketStream_isConnected (pc_conn conn) \<and> pc_request conn' \<le> ucast (cp_maxRequest pool)
         then pool\<lparr>cp_conns := cp_conns pool @ [conn']\<rparr> else pool\<lparr>cp_total := cp_total pool - 1\<rparr>))"
proof (intro conjI impI)
  show "\<exists>pool out. pool_reach (HttpConnectionPool_new ''h'' vhost port maxSize maxAliveTime maxRequest) pool out \<and> length out = n"
    using reach_any_size [of "HttpConnectionPool_new ''h'' vhost port maxSize maxAliveTime maxRequest" n]
    by (auto simp: HttpConnectionPool_new_def)
next
  assume h: "2 ^ 32 \<le> unat now \<and> pc_createTime conn = 0"
  have "unat (ucast (cp_maxAliveTime pool) :: u64) < 2 ^ 32" using unat_lt2p [of "cp_maxAliveTime pool"] by (simp add: unat_ucast_small)
  then have "\<not> pc_createTime conn + ucast (cp_maxAliveTime pool) \<ge> now" using h by (simp add: word_le_nat_alt)
  then show "HttpConnectionPool_ReleasePtr now conn pool =
        (let conn' = conn\<lparr>pc_request := pc_request conn + 1\<rparr> in
         if SocketStream_isConnected (pc_conn conn) \<and> pc_request conn' \<le> ucast (cp_maxRequest pool)
         then pool\<lparr>cp_conns := cp_conns pool @ [conn']\<rparr> else pool\<lparr>cp_total := cp_total pool - 1\<rparr>)"
    by (auto simp: HttpConnectionPool_ReleasePtr_def Let_def not_less)
qed

definition old_conn :: pooled where
  "old_conn = HttpConnection_new (wire [])"

theorem pool_limits_ineffective_witness:
  "(\<exists>pool out. pool_reach (HttpConnectionPool_new ''h'' [] 80 1 0 5) pool out \<and> length out = 100)
    \<and> cp_conns (HttpConnectionPool_ReleasePtr 0x200000000 old_conn (HttpConnectionPool_new ''h'' [] 80 1 1000 5)) = [old_conn\<lparr>pc_request := 1\<rparr>]"
proof -
  have "SocketStream_isConnected (pc_conn old_conn)" "pc_createTime old_conn = 0" "pc_request old_conn = 0"
    by (simp_all add: old_conn_def HttpConnection_new_def wire_def SocketStream_isConnected_def)
  moreover have "2 ^ 32 \<le> unat (0x200000000 :: u64)" by simp
  ultimately have "HttpConnectionPool_ReleasePtr 0x200000000 old_conn (HttpConnectionPool_new ''h'' [] 80 1 1000 5)
      = (HttpConnectionPool_new ''h'' [] 80 1 1000 5)\<lparr>cp_conns := [] @ [old_conn\<lparr>pc_request := 1\<rparr>]\<rparr>"
    using pool_limits_ineffective [THEN conjunct2, rule_format, of "0x200000000" old_conn "HttpConnectionPool_new ''h'' [] 80 1 1000 5"]
    by (simp add: HttpConnectionPool_new_def Let_def)
  then have "cp_conns (HttpConnectionPool_ReleasePtr 0x200000000 old_conn (HttpConnectionPool_new ''h'' [] 80 1 1000 5)) = [old_conn\<lparr>pc_request := 1\<rparr>]"
    by simp
  with pool_limits_ineffective [THEN conjunct1] show ?thesis by (rule conjI)
qed

theorem pool_accounts_witness:
  "\<exists>pool out. pool_reach (HttpConnectionPool_new ''h'' [] 80 1 0 5) pool out \<and> length out = 3
     \<and> cp_total pool = of_nat (length (cp_conns pool) + length out)"
proof -
  obtain pool out where r: "pool_reach (HttpConnectionPool_new ''h'' [] 80 1 0 5) pool out" and "length out = 3"
    using reach_any_size [of "HttpConnectionPool_new ''h'' [] 80 1 0 5" 3] by (auto simp: HttpConnectionPool_new_def)
  with pool_accounts [OF r] show ?thesis by blast
qed

section \<open>Reuse\<close>

lemma sendRequest_carries:
  assumes "takes_all (length (HttpRequest_dump req)) c"
  obtains c1 where "HttpConnection_sendRequest req c = Some (int (length (HttpRequest_dump req)), c1)"
    "cn_out c1 = cn_out c @ string_bytes (HttpRequest_dump req)" "cn_socket c1 = cn_socket c" "cn_in c1 = cn_in c"
proof -
  obtain c1 where c1: "HttpConnection_sendRequest req c = Some (int (length (HttpRequest_dump req)), c1)"
    "cn_out c1 = cn_out c @ string_bytes (HttpRequest_dump req)"
    using sendRequest_ok [of req c] assms unfolding takes_all_def by auto
  with sendRequest_frame [OF c1(1)] that show thesis by blast
qed

text \<open>
  A request through the pool uses a pooled connection that its own flag calls connected, without looking at the network. When the server still listens, the
  result is \<^verbatim>\<open>OK\<close> with the server's response, no new socket is made, and the connection goes to the end of the list with its requests counted.
  When the server has closed the connection in the meantime, as after an idle timeout or a restart, the request fails with the code for a timeout at
  once, although the host may be reachable; the connection is thrown away.
\<close>

theorem pool_reuses_connection:
  assumes pool: "cp_conns pool = conn # rest" "SocketStream_isConnected (pc_conn conn)" "pc_createTime conn = 0" "0 < now"
      "2 ^ 32 \<le> unat later" "pc_request conn + 1 \<le> ucast (cp_maxRequest pool)"
    and send: "takes_all (length (HttpRequest_dump req)) (pc_conn conn)"
    and named: "sk_remoteAddress (cn_socket (pc_conn conn)) = Some a" "Address_toString a = Inr t"
    and rsp: "response_ok r" "map_ok CaseInsensitiveLess (rs_headers r)" "te_chunked \<notin> set (rs_headers r)"
      "length_readable cast (rs_body r) (rs_headers r)"
  shows "(carries buffer_size (length (response_head r) + 2) (string_bytes (HttpResponse_dump r)) (pc_conn conn) \<longrightarrow>
       (\<exists>c. HttpConnectionPool_doRequest cast buffer_size mem w now later req timeout_ms pool
           = Some (Inr \<lparr>hr_result = 0, hr_response = Some (received_response r), hr_error = ''ok''\<rparr>,
               pool\<lparr>cp_conns := rest @ [conn\<lparr>pc_conn := c, pc_request := pc_request conn + 1\<rparr>]\<rparr>)
         \<and> cn_out c = cn_out (pc_conn conn) @ string_bytes (HttpRequest_dump req)))
    \<and> (cn_in (pc_conn conn) = Deliver [] # ins \<longrightarrow>
       (\<exists>res. HttpConnectionPool_doRequest cast buffer_size mem w now later req timeout_ms pool
           = Some (Inr res, pool\<lparr>cp_conns := rest, cp_total := cp_total pool - 1\<rparr>) \<and> hr_result res = 7 \<and> hr_response res = None))"
proof -
  let ?c = "pc_conn conn"
  have g: "HttpConnectionPool_getConnection w now pool = (Inr (Some conn), pool\<lparr>cp_conns := rest\<rparr>)"
    using pool(1-4) by (auto simp: HttpConnectionPool_getConnection_def)
  obtain c1 where c1: "HttpConnection_sendRequest req ?c = Some (int (length (HttpRequest_dump req)), c1)"
      "cn_out c1 = cn_out ?c @ string_bytes (HttpRequest_dump req)" "cn_socket c1 = cn_socket ?c" "cn_in c1 = cn_in ?c"
    using sendRequest_carries [OF send] .
  have ne: "HttpRequest_dump req \<noteq> []" by (simp add: dump_is_head_body crlf_def)
  have "unat (ucast (cp_maxAliveTime pool) :: u64) < 2 ^ 32" using unat_lt2p [of "cp_maxAliveTime pool"] by (simp add: unat_ucast_small)
  then have age: "\<not> pc_createTime conn + ucast (cp_maxAliveTime pool) \<ge> later" using pool(3,5) by (simp add: word_le_nat_alt)
  show ?thesis
  proof (intro conjI impI)
    assume "carries buffer_size (length (response_head r) + 2) (string_bytes (HttpResponse_dump r)) ?c"
    then have "carries buffer_size (length (response_head r) + 2) (string_bytes (HttpResponse_dump r)) c1"
      using c1(3,4) by (simp add: carries_def SocketStream_isConnected_def)
    from recvResponse_ok [OF rsp(1-3) this, of cast mem] obtain c2 where
      c2: "HttpConnection_recvResponse cast buffer_size mem c1 = Some (Inr (Some (received_response r)), c2)" "cn_out c2 = cn_out c1"
        "cn_socket c2 = cn_socket c1"
      using rsp(4) unfolding length_readable_def by blast
    have "pool_exchange cast buffer_size mem w req timeout_ms ?c
        = Some (Inr \<lparr>hr_result = 0, hr_response = Some (received_response r), hr_error = ''ok''\<rparr>, c2)"
      using c1(1) c2(1) ne by (simp add: pool_exchange_def HttpResult_new_def split: prod.split)
    moreover have "SocketStream_isConnected c2" using pool(2) c2(3) c1(3) by (simp add: SocketStream_isConnected_def)
    ultimately show "\<exists>c. HttpConnectionPool_doRequest cast buffer_size mem w now later req timeout_ms pool
           = Some (Inr \<lparr>hr_result = 0, hr_response = Some (received_response r), hr_error = ''ok''\<rparr>,
               pool\<lparr>cp_conns := rest @ [conn\<lparr>pc_conn := c, pc_request := pc_request conn + 1\<rparr>]\<rparr>)
         \<and> cn_out c = cn_out ?c @ string_bytes (HttpRequest_dump req)"
      using g age pool(3,6) c2(2) c1(2)
      by (intro exI [of _ c2]) (simp add: HttpConnectionPool_doRequest_def HttpConnectionPool_ReleasePtr_def not_less)
  next
    assume i: "cn_in ?c = Deliver [] # ins"
    have con: "SocketStream_isConnected c1" using pool(2) c1(3) by (simp add: SocketStream_isConnected_def)
    have "SocketStream_read buffer_size c1 = Some (0, [], c1\<lparr>cn_in := ins\<rparr>)"
      using con i c1(4) int32_id [of 0] by (simp add: SocketStream_read_def Socket_recv_def sys_recv_def SocketStream_isConnected_def)
    then have "HttpConnection_recvResponse cast buffer_size mem c1 = Some (Inr None, SocketStream_close (c1\<lparr>cn_in := ins\<rparr>))"
      by (simp add: HttpConnection_recvResponse_def recvResponse_loop.simps [of buffer_size "[]"])
    moreover have "sk_remoteAddress (cn_socket (SocketStream_close (c1\<lparr>cn_in := ins\<rparr>))) = Some a"
      using named(1) c1(3) by (simp add: SocketStream_close_def Socket_close_def)
    ultimately obtain res where e: "pool_exchange cast buffer_size mem w req timeout_ms ?c = Some (Inr res, SocketStream_close (c1\<lparr>cn_in := ins\<rparr>))"
        "hr_result res = 7" "hr_response res = None"
      using c1(1) ne named(2)
      by (simp add: pool_exchange_def Socket_getRemoteAddress_def address_result_def HttpResult_new_def split: prod.split)
    have "\<not> SocketStream_isConnected (SocketStream_close (c1\<lparr>cn_in := ins\<rparr>))"
      by (auto simp: SocketStream_close_def SocketStream_isConnected_def Socket_close_def)
    then show "\<exists>res. HttpConnectionPool_doRequest cast buffer_size mem w now later req timeout_ms pool
           = Some (Inr res, pool\<lparr>cp_conns := rest, cp_total := cp_total pool - 1\<rparr>) \<and> hr_result res = 7 \<and> hr_response res = None"
      using g e by (intro exI [of _ res]) (simp add: HttpConnectionPool_doRequest_def HttpConnectionPool_ReleasePtr_def)
  qed
qed

definition idle_conn :: pooled where
  "idle_conn = HttpConnection_new ((wire [])\<lparr>cn_socket := (cn_socket (wire []))\<lparr>sk_remoteAddress := Some (IPv4Address (IPv4Address_new 0 80))\<rparr>,
     cn_in := [Deliver []]\<rparr>)"

theorem pool_reuses_connection_witness:
  "\<forall>mem w. \<exists>res pool'. HttpConnectionPool_doRequest decimal_cast 4096 mem w 1 0x200000000 (sample_request POST) 1000
       ((HttpConnectionPool_new ''h'' [] 80 1 1000 5)\<lparr>cp_conns := [idle_conn], cp_total := 1\<rparr>) = Some (Inr res, pool')
     \<and> hr_result res = 7 \<and> cp_conns pool' = []"
proof (intro allI)
  fix mem w
  let ?p = "(HttpConnectionPool_new ''h'' [] 80 1 1000 5)\<lparr>cp_conns := [idle_conn], cp_total := 1\<rparr>" and ?req = "sample_request POST"
  have f: "SocketStream_isConnected (pc_conn idle_conn)" "pc_createTime idle_conn = 0" "pc_request idle_conn = 0"
      "sk_remoteAddress (cn_socket (pc_conn idle_conn)) = Some (IPv4Address (IPv4Address_new 0 80))" "cn_in (pc_conn idle_conn) = [Deliver []]"
    by (simp_all add: idle_conn_def HttpConnection_new_def wire_def SocketStream_isConnected_def)
  have "length (HttpRequest_dump ?req) \<le> 5000"
    using sample_head_length by (simp add: dump_is_head_body sample_request_fields crlf_def)
  then have t: "takes_all (length (HttpRequest_dump ?req)) (pc_conn idle_conn)"
    using wire_takes [of _ "[]"] f(1) by (simp add: takes_all_def idle_conn_def HttpConnection_new_def)
  have p: "cp_conns ?p = idle_conn # []" "(0 :: u64) < 1" "2 ^ 32 \<le> unat (0x200000000 :: u64)"
      "pc_request idle_conn + 1 \<le> ucast (cp_maxRequest ?p)"
    using f(3) by (simp_all add: HttpConnectionPool_new_def)
  have r: "te_chunked \<notin> set (rs_headers sample_response)" "length_readable decimal_cast (rs_body sample_response) (rs_headers sample_response)"
    by (simp_all add: sample_response_ok decimal_readable) (simp add: sample_response_def HttpResponse_setHeader_def HttpResponse_new_def)
  have a: "Address_toString (IPv4Address (IPv4Address_new 0 80)) = Inr (IPv4Address_insert (IPv4Address_new 0 80))" by simp
  show "\<exists>res pool'. HttpConnectionPool_doRequest decimal_cast 4096 mem w 1 0x200000000 ?req 1000 ?p = Some (Inr res, pool')
     \<and> hr_result res = 7 \<and> cp_conns pool' = []"
    using pool_reuses_connection [OF p(1) f(1,2) p(2-4) t f(4) a sample_response_ok(1,2) r, where buffer_size = 4096 and mem = mem and w = w
        and timeout_ms = 1000, THEN conjunct2, rule_format, OF f(5)] by fastforce
qed

end
