(* ===== verification/Threads.thy ===== *)
theory Threads
  imports Tiny_Prelude "HOL-Library.Multiset"
begin

text \<open>
  Model of \<^verbatim>\<open>src/src/thread.h\<close> and \<^verbatim>\<open>thread.cpp\<close>: the locks, the scoped guards over them, semaphores, and the start of a thread. A call that would
  block gives \<open>None\<close>. A thread is a number. The POSIX locks behave as in the GNU C library: a mutex or spin lock blocks the thread that holds it, and a
  read-write lock knows the thread that writes.
\<close>

section \<open>Locks\<close>

text \<open>
  \<^verbatim>\<open>MutexLock\<close> and \<^verbatim>\<open>SpinLock\<close> wrap a lock that one thread holds or nobody; neither can be taken twice, not even by the thread that holds it.
\<close>

type_synonym mutex = bool

definition MutexLock_lock :: "mutex \<Rightarrow> mutex option" where
  "MutexLock_lock m = (if m then None else Some True)"

definition MutexLock_unlock :: "mutex \<Rightarrow> mutex" where
  "MutexLock_unlock m = False"

definition SpinLock_lock :: "mutex \<Rightarrow> mutex option" where
  "SpinLock_lock m = (if m then None else Some True)"

definition SpinLock_unlock :: "mutex \<Rightarrow> mutex" where
  "SpinLock_unlock m = False"

text \<open>\<^verbatim>\<open>atomic_flag_test_and_set\<close> gives the old flag and sets it; \<^verbatim>\<open>CASLock::lock\<close> repeats it while the flag was set.\<close>

definition test_and_set :: "bool \<Rightarrow> bool \<times> bool" where
  "test_and_set flag = (flag, True)"

definition CASLock_lock :: "mutex \<Rightarrow> mutex option" where
  "CASLock_lock m = (let (old, m') = test_and_set m in if old then None else Some m')"

definition CASLock_unlock :: "mutex \<Rightarrow> mutex" where
  "CASLock_unlock m = False"

definition NullMutexLock_lock :: "unit \<Rightarrow> unit option" where
  "NullMutexLock_lock m = Some m"

definition NullMutexLock_unlock :: "unit \<Rightarrow> unit" where
  "NullMutexLock_unlock m = m"

text \<open>
  The functions of the C library under \<^verbatim>\<open>RWLock\<close> give an error code: the thread that writes is not made to wait for itself but is told \<^verbatim>\<open>EDEADLK\<close>, and the lock
  stays as it is. (The other error of \<^verbatim>\<open>rdlock\<close>, too many readers, needs hundreds of millions of them and is left out.) The members of \<^verbatim>\<open>RWLock\<close> ignore the code.
\<close>

record RWLock =
  rw_readers :: nat
  rw_writer :: "nat option"

definition EDEADLK :: int where "EDEADLK = 35"

definition pthread_rwlock_rdlock :: "nat \<Rightarrow> RWLock \<Rightarrow> (int \<times> RWLock) option" where
  "pthread_rwlock_rdlock t m =
     (if rw_writer m = Some t then Some (EDEADLK, m)
      else if rw_writer m \<noteq> None then None else Some (0, m\<lparr>rw_readers := rw_readers m + 1\<rparr>))"

definition pthread_rwlock_wrlock :: "nat \<Rightarrow> RWLock \<Rightarrow> (int \<times> RWLock) option" where
  "pthread_rwlock_wrlock t m =
     (if rw_writer m = Some t then Some (EDEADLK, m)
      else if rw_writer m \<noteq> None \<or> rw_readers m \<noteq> 0 then None else Some (0, m\<lparr>rw_writer := Some t\<rparr>))"

definition pthread_rwlock_unlock :: "nat \<Rightarrow> RWLock \<Rightarrow> RWLock" where
  "pthread_rwlock_unlock t m =
     (if rw_writer m = Some t then m\<lparr>rw_writer := None\<rparr> else m\<lparr>rw_readers := rw_readers m - 1\<rparr>)"

definition RWLock_new :: RWLock where
  "RWLock_new = \<lparr>rw_readers = 0, rw_writer = None\<rparr>"

definition RWLock_rdlock :: "nat \<Rightarrow> RWLock \<Rightarrow> RWLock option" where
  "RWLock_rdlock t m = map_option snd (pthread_rwlock_rdlock t m)"

definition RWLock_wrlock :: "nat \<Rightarrow> RWLock \<Rightarrow> RWLock option" where
  "RWLock_wrlock t m = map_option snd (pthread_rwlock_wrlock t m)"

definition RWLock_unlock :: "nat \<Rightarrow> RWLock \<Rightarrow> RWLock" where
  "RWLock_unlock t m = pthread_rwlock_unlock t m"

lemmas rwlock_defs = RWLock_rdlock_def RWLock_wrlock_def RWLock_unlock_def pthread_rwlock_rdlock_def pthread_rwlock_wrlock_def
  pthread_rwlock_unlock_def

section \<open>Guards\<close>

text \<open>
  A guard is its \<^verbatim>\<open>m_locked\<close>; \<open>lock\<close> and \<open>unlock\<close> are the members it calls on the lock \<open>m\<close>, which differ between the three templates.
\<close>

definition ScopeLockImp_new :: "('m \<Rightarrow> 'm option) \<Rightarrow> 'm \<Rightarrow> (bool \<times> 'm) option" where
  "ScopeLockImp_new lock m = map_option (\<lambda>m'. (True, m')) (lock m)"

definition ScopeLockImp_lock :: "('m \<Rightarrow> 'm option) \<Rightarrow> bool \<Rightarrow> 'm \<Rightarrow> (bool \<times> 'm) option" where
  "ScopeLockImp_lock lock m_locked m = (if \<not> m_locked then map_option (\<lambda>m'. (True, m')) (lock m) else Some (m_locked, m))"

definition ScopeLockImp_unlock :: "('m \<Rightarrow> 'm) \<Rightarrow> bool \<Rightarrow> 'm \<Rightarrow> bool \<times> 'm" where
  "ScopeLockImp_unlock unlock m_locked m = (if m_locked then (False, unlock m) else (m_locked, m))"

definition ScopeLockImp_destroy :: "('m \<Rightarrow> 'm) \<Rightarrow> bool \<Rightarrow> 'm \<Rightarrow> 'm" where
  "ScopeLockImp_destroy unlock m_locked m = snd (ScopeLockImp_unlock unlock m_locked m)"

text \<open>How a guard holds its lock: \<^verbatim>\<open>ReadScopeLockImp\<close> takes it with \<^verbatim>\<open>rdlock\<close>, \<^verbatim>\<open>WriteScopeLockImp\<close> with \<^verbatim>\<open>wrlock\<close>, \<^verbatim>\<open>ScopeLockImp\<close> with \<^verbatim>\<open>lock\<close>.\<close>

datatype access = Shared | Exclusive

definition rw_access :: "nat \<Rightarrow> access \<Rightarrow> RWLock \<Rightarrow> RWLock option" where
  "rw_access t k = (case k of Shared \<Rightarrow> RWLock_rdlock t | Exclusive \<Rightarrow> RWLock_wrlock t)"

definition mutex_access :: "('m \<Rightarrow> 'm option) \<Rightarrow> nat \<Rightarrow> access \<Rightarrow> 'm \<Rightarrow> 'm option" where
  "mutex_access lock t k = (case k of Shared \<Rightarrow> (\<lambda>_. None) | Exclusive \<Rightarrow> lock)"

definition ReadScopeLockImp_new :: "nat \<Rightarrow> RWLock \<Rightarrow> (bool \<times> RWLock) option" where
  "ReadScopeLockImp_new t = ScopeLockImp_new (RWLock_rdlock t)"

definition ReadScopeLockImp_lock :: "nat \<Rightarrow> bool \<Rightarrow> RWLock \<Rightarrow> (bool \<times> RWLock) option" where
  "ReadScopeLockImp_lock t = ScopeLockImp_lock (RWLock_rdlock t)"

definition ReadScopeLockImp_unlock :: "nat \<Rightarrow> bool \<Rightarrow> RWLock \<Rightarrow> bool \<times> RWLock" where
  "ReadScopeLockImp_unlock t = ScopeLockImp_unlock (RWLock_unlock t)"

definition WriteScopeLockImp_new :: "nat \<Rightarrow> RWLock \<Rightarrow> (bool \<times> RWLock) option" where
  "WriteScopeLockImp_new t = ScopeLockImp_new (RWLock_wrlock t)"

definition WriteScopeLockImp_lock :: "nat \<Rightarrow> bool \<Rightarrow> RWLock \<Rightarrow> (bool \<times> RWLock) option" where
  "WriteScopeLockImp_lock t = ScopeLockImp_lock (RWLock_wrlock t)"

definition WriteScopeLockImp_unlock :: "nat \<Rightarrow> bool \<Rightarrow> RWLock \<Rightarrow> bool \<times> RWLock" where
  "WriteScopeLockImp_unlock t = ScopeLockImp_unlock (RWLock_unlock t)"

text \<open>
  Any number of guards of any threads on one lock, each with the thread that uses it, how it takes the lock and whether it says it holds it. The guards are made,
  locked, unlocked and destroyed in any order; a step that would block is not possible. The label of a step is false when a thread takes a lock that one of
  its own guards holds exclusively.
\<close>

type_synonym guard = "nat \<times> access \<times> bool"

definition careful :: "guard list \<Rightarrow> nat \<Rightarrow> bool" where
  "careful gs t \<longleftrightarrow> (t, Exclusive, True) \<notin> set gs"

inductive guard_step ::
    "(nat \<Rightarrow> access \<Rightarrow> 'm \<Rightarrow> 'm option) \<Rightarrow> (nat \<Rightarrow> 'm \<Rightarrow> 'm) \<Rightarrow> bool \<Rightarrow> 'm \<times> guard list \<Rightarrow> 'm \<times> guard list \<Rightarrow> bool"
  for lock :: "nat \<Rightarrow> access \<Rightarrow> 'm \<Rightarrow> 'm option" and unlock :: "nat \<Rightarrow> 'm \<Rightarrow> 'm" where
  guard_new: "ScopeLockImp_new (lock t k) m = Some (b, m')
    \<Longrightarrow> guard_step lock unlock (careful gs t) (m, gs) (m', gs @ [(t, k, b)])"
| guard_lock: "i < length gs \<Longrightarrow> gs ! i = (t, k, b) \<Longrightarrow> ScopeLockImp_lock (lock t k) b m = Some (b', m')
    \<Longrightarrow> guard_step lock unlock (b \<or> careful gs t) (m, gs) (m', gs[i := (t, k, b')])"
| guard_unlock: "i < length gs \<Longrightarrow> gs ! i = (t, k, b) \<Longrightarrow> ScopeLockImp_unlock (unlock t) b m = (b', m')
    \<Longrightarrow> guard_step lock unlock True (m, gs) (m', gs[i := (t, k, b')])"
| guard_destroy: "i < length gs \<Longrightarrow> gs ! i = (t, k, b)
    \<Longrightarrow> guard_step lock unlock True (m, gs) (ScopeLockImp_destroy (unlock t) b m, take i gs @ drop (Suc i) gs)"

text \<open>The states of the lock and its guards that careful steps reach, and those that any steps reach.\<close>

definition careful_reach ::
    "(nat \<Rightarrow> access \<Rightarrow> 'm \<Rightarrow> 'm option) \<Rightarrow> (nat \<Rightarrow> 'm \<Rightarrow> 'm) \<Rightarrow> 'm \<Rightarrow> 'm \<times> guard list \<Rightarrow> bool" where
  "careful_reach lock unlock m0 s \<longleftrightarrow> (guard_step lock unlock True)\<^sup>*\<^sup>* (m0, []) s"

definition guard_reach ::
    "(nat \<Rightarrow> access \<Rightarrow> 'm \<Rightarrow> 'm option) \<Rightarrow> (nat \<Rightarrow> 'm \<Rightarrow> 'm) \<Rightarrow> 'm \<Rightarrow> 'm \<times> guard list \<Rightarrow> bool" where
  "guard_reach lock unlock m0 s \<longleftrightarrow> (\<lambda>s s'. \<exists>c. guard_step lock unlock c s s')\<^sup>*\<^sup>* (m0, []) s"

section \<open>What a lock promises\<close>

definition admits :: "access \<Rightarrow> access multiset \<Rightarrow> bool" where
  "admits k M \<longleftrightarrow> (case k of Shared \<Rightarrow> Exclusive \<notin># M | Exclusive \<Rightarrow> M = {#})"

definition exclusive :: "access multiset \<Rightarrow> bool" where
  "exclusive M \<longleftrightarrow> (Exclusive \<in># M \<longrightarrow> M = {#Exclusive#})"

lemma exclusive_add: "exclusive M \<Longrightarrow> admits k M \<Longrightarrow> exclusive (add_mset k M)"
  by (cases k) (auto simp: exclusive_def admits_def)

lemma exclusive_diff: "exclusive M \<Longrightarrow> exclusive (M - {#k#})"
  unfolding exclusive_def by (metis diff_single_trivial in_diffD diff_single_eq_union empty_not_add_mset insert_noteq_member set_mset_empty union_single_eq_diff)

text \<open>What the guards of a list hold together.\<close>

definition guards_hold :: "guard list \<Rightarrow> access multiset" where
  "guards_hold gs = image_mset (fst \<circ> snd) (filter_mset (snd \<circ> snd) (mset gs))"

lemma guards_hold_simps [simp]:
  "guards_hold [] = {#}" "guards_hold (gs @ hs) = guards_hold gs + guards_hold hs"
  "guards_hold ((t, k, b) # gs) = (if b then add_mset k (guards_hold gs) else guards_hold gs)"
  by (simp_all add: guards_hold_def)

lemma guards_hold_member: "(t, k, True) \<in> set gs \<Longrightarrow> k \<in># guards_hold gs"
  by (force simp: guards_hold_def)

lemma same_guard: "gs ! i = g \<Longrightarrow> gs[i := g] = gs"
  by (metis list_update_id)

text \<open>One guard of a list replaced by others.\<close>

lemma guards_hold_at:
  assumes "i < length gs" "gs ! i = (t, k, b)"
  shows "guards_hold gs = guards_hold [(t, k, b)] + guards_hold (take i gs @ drop (Suc i) gs)"
    "guards_hold (gs[i := g]) = guards_hold [g] + guards_hold (take i gs @ drop (Suc i) gs)"
    "set gs = {(t, k, b)} \<union> set (take i gs @ drop (Suc i) gs)"
    "set (gs[i := g]) = {g} \<union> set (take i gs @ drop (Suc i) gs)"
proof -
  have split: "gs = take i gs @ [(t, k, b)] @ drop (Suc i) gs" using id_take_nth_drop [OF assms(1)] assms(2) by simp
  then have "guards_hold gs = guards_hold (take i gs @ [(t, k, b)] @ drop (Suc i) gs)" by simp
  then show "guards_hold gs = guards_hold [(t, k, b)] + guards_hold (take i gs @ drop (Suc i) gs)" by simp
  have "set gs = set (take i gs @ [(t, k, b)] @ drop (Suc i) gs)" using split by simp
  then show "set gs = {(t, k, b)} \<union> set (take i gs @ drop (Suc i) gs)" by auto
  have upd: "gs[i := g] = take i gs @ [g] @ drop (Suc i) gs" using assms(1) by (simp add: upd_conv_take_nth_drop)
  then show "guards_hold (gs[i := g]) = guards_hold [g] + guards_hold (take i gs @ drop (Suc i) gs)"
    by (cases g) simp
  show "set (gs[i := g]) = {g} \<union> set (take i gs @ drop (Suc i) gs)" unfolding upd by auto
qed

text \<open>
  The invariant: the lock is held as the guards say, and a thread that the lock records as its writer has a guard that says so.
\<close>

definition guards_ok :: "('m \<Rightarrow> access multiset) \<Rightarrow> ('m \<Rightarrow> nat option) \<Rightarrow> 'm \<times> guard list \<Rightarrow> bool" where
  "guards_ok held owner s \<longleftrightarrow> exclusive (held (fst s)) \<and> held (fst s) = guards_hold (snd s)
     \<and> (\<forall>t. owner (fst s) = Some t \<longrightarrow> (t, Exclusive, True) \<in> set (snd s))"

text \<open>
  The contract of a lock: \<open>held\<close> says how it is held and \<open>owner\<close> which thread it knows to hold it exclusively, if it keeps track. Taking it by another thread adds the
  access, if what is held admits it; giving it back removes one.
\<close>

locale lockable =
  fixes lock :: "nat \<Rightarrow> access \<Rightarrow> 'm \<Rightarrow> 'm option" and unlock :: "nat \<Rightarrow> 'm \<Rightarrow> 'm"
    and held :: "'m \<Rightarrow> access multiset" and owner :: "'m \<Rightarrow> nat option"
  assumes lock_adds: "owner m \<noteq> Some t \<Longrightarrow> lock t k m = Some m' \<Longrightarrow> admits k (held m) \<and> held m' = add_mset k (held m)
      \<and> (owner m' = owner m \<or> k = Exclusive \<and> owner m' = Some t)"
    and unlock_removes: "exclusive (held m) \<Longrightarrow> k \<in># held m \<Longrightarrow> owner m = None \<or> owner m = Some t
      \<Longrightarrow> held (unlock t m) = held m - {#k#} \<and> owner (unlock t m) = None"
begin

lemma acquire_ok:
  assumes "guards_ok held owner (m, gs)" "careful gs t" "lock t k m = Some m'" "guards_hold gs' = add_mset k (guards_hold gs)"
    "{g \<in> set gs. snd (snd g)} \<union> {(t, k, True)} \<subseteq> set gs'"
  shows "guards_ok held owner (m', gs')"
proof -
  have "owner m \<noteq> Some t" using assms(1,2) by (auto simp: guards_ok_def careful_def)
  note a = lock_adds [OF this assms(3)]
  then show ?thesis using assms(1,4,5) exclusive_add [of "held m" k] by (auto simp: guards_ok_def)
qed

lemma release_ok:
  assumes "guards_ok held owner (m, gs)" "guards_hold gs = add_mset k (guards_hold gs')" "(t, k, True) \<in> set gs"
  shows "guards_ok held owner (unlock t m, gs')"
proof -
  have ex: "exclusive (held m)" and h: "held m = add_mset k (guards_hold gs')" using assms(1,2) by (auto simp: guards_ok_def)
  have "owner m = None \<or> owner m = Some t"
  proof (rule ccontr)
    assume "\<not> ?thesis"
    then obtain u where u: "owner m = Some u" "u \<noteq> t" by auto
    then have g: "(u, Exclusive, True) \<in> set gs" using assms(1) by (auto simp: guards_ok_def)
    then have "{#Exclusive#} = guards_hold gs"
      using guards_hold_member [OF g] ex assms(1) by (auto simp: guards_ok_def exclusive_def)
    moreover obtain as bs where "gs = as @ (u, Exclusive, True) # bs" using g by (auto simp: in_set_conv_decomp)
    moreover from this have "(t, k, True) \<in> set (as @ bs)" using assms(3) u(2) by auto
    ultimately show False using guards_hold_member [of t k "as @ bs"] by auto
  qed
  then show ?thesis
    using unlock_removes [OF ex, of k t] h exclusive_diff [OF ex, of k] by (auto simp: guards_ok_def)
qed

lemma guards_ok_step:
  assumes "guard_step lock unlock c s s'" "c" "guards_ok held owner s"
  shows "guards_ok held owner s'"
  using assms
proof (induction rule: guard_step.induct)
  case (guard_new t k m b m' gs)
  then have "b" "lock t k m = Some m'" by (auto simp: ScopeLockImp_new_def)
  then show ?case using acquire_ok [OF guard_new(3,2), of k m' "gs @ [(t, k, b)]"] by auto
next
  case (guard_lock i gs t k b m b' m')
  note at = guards_hold_at [OF guard_lock(1,2)]
  show ?case
  proof (cases b)
    case True
    then have "gs[i := (t, k, b')] = gs" "m' = m" using guard_lock by (auto simp: ScopeLockImp_lock_def intro: same_guard)
    then show ?thesis using guard_lock by simp
  next
    case False
    then have "b'" "lock t k m = Some m'" using guard_lock(3) by (auto simp: ScopeLockImp_lock_def)
    moreover have "careful gs t" using guard_lock(4) False by simp
    moreover have "guards_hold (gs[i := (t, k, b')]) = add_mset k (guards_hold gs)"
      using at(1) at(2) [of "(t, k, b')"] False \<open>b'\<close> by simp
    moreover have "{g \<in> set gs. snd (snd g)} \<union> {(t, k, True)} \<subseteq> set (gs[i := (t, k, b')])"
      using at(3) at(4) [of "(t, k, b')"] False \<open>b'\<close> by auto
    ultimately show ?thesis using acquire_ok [OF guard_lock(5)] by blast
  qed
next
  case (guard_unlock i gs t k b m b' m')
  note at = guards_hold_at [OF guard_unlock(1,2)]
  show ?case
  proof (cases b)
    case True
    then have "\<not> b'" "m' = unlock t m" using guard_unlock(3) by (auto simp: ScopeLockImp_unlock_def)
    then show ?thesis using release_ok [OF guard_unlock(5), of k "gs[i := (t, k, b')]" t] at(1,3) at(2) [of "(t, k, b')"] True by auto
  next
    case False
    then have "gs[i := (t, k, b')] = gs" "m' = m" using guard_unlock by (auto simp: ScopeLockImp_unlock_def intro: same_guard)
    then show ?thesis using guard_unlock by simp
  qed
next
  case (guard_destroy i gs t k b m)
  note at = guards_hold_at(1,3) [OF guard_destroy(1,2)]
  show ?case
  proof (cases b)
    case True
    then show ?thesis using release_ok [OF guard_destroy(4), of k "take i gs @ drop (Suc i) gs" t] at
      by (auto simp: ScopeLockImp_destroy_def ScopeLockImp_unlock_def)
  next
    case False
    then show ?thesis using guard_destroy(4) at
      by (auto simp: guards_ok_def ScopeLockImp_destroy_def ScopeLockImp_unlock_def)
  qed
qed

lemma guards_ok_start: "held m0 = {#} \<Longrightarrow> owner m0 = None \<Longrightarrow> guards_ok held owner (m0, [])"
  by (simp add: guards_ok_def exclusive_def)

lemma guards_ok_exclude:
  assumes "guards_ok held owner (m, gs)"
  shows "held m = guards_hold gs
    \<and> (\<forall>i < length gs. snd (gs ! i) = (Exclusive, True) \<longrightarrow> (\<forall>j < length gs. snd (snd (gs ! j)) \<longrightarrow> j = i))"
proof -
  have ok: "exclusive (guards_hold gs)" "held m = guards_hold gs" using assms by (auto simp: guards_ok_def)
  have "j = i" if i: "i < length gs" "snd (gs ! i) = (Exclusive, True)" and j: "j < length gs" "snd (snd (gs ! j))" for i j
  proof (rule ccontr)
    assume "j \<noteq> i"
    obtain t where t: "gs ! i = (t, Exclusive, True)" using i(2) by (metis prod.collapse)
    let ?gs = "gs[i := (t, Exclusive, False)]"
    obtain u k where k: "gs ! j = (u, k, True)" using j(2) by (metis prod.collapse)
    then have "?gs ! j = (u, k, True)" using \<open>j \<noteq> i\<close> by simp
    then have "k \<in># guards_hold ?gs" using guards_hold_member [of u k ?gs] j(1) by (metis length_list_update nth_mem)
    moreover have "guards_hold gs = add_mset Exclusive (guards_hold ?gs)"
      using guards_hold_at(1) [OF i(1) t] guards_hold_at(2) [OF i(1) t, of "(t, Exclusive, False)"] by simp
    ultimately show False using ok(1) by (auto simp: exclusive_def)
  qed
  then show ?thesis using ok(2) by blast
qed

lemma careful_ok:
  assumes "held m0 = {#}" "owner m0 = None" "careful_reach lock unlock m0 s"
  shows "guards_ok held owner s"
  using assms(3) unfolding careful_reach_def
  by (induction rule: rtranclp_induct) (auto intro: guards_ok_start [OF assms(1,2)] guards_ok_step)

end

text \<open>A lock that does not know its owner makes every thread wait, so that carefulness is not needed.\<close>

locale blocking_lock = lockable +
  assumes owner_none: "owner m = None"
begin

lemma blocking_step:
  assumes "guard_step lock unlock c s s'" "guards_ok held owner s"
  shows "guards_ok held owner s'"
  using assms
proof (induction rule: guard_step.induct)
  case (guard_new t k m b m' gs)
  then have "b" "lock t k m = Some m'" by (auto simp: ScopeLockImp_new_def)
  then show ?case using lock_adds [of m t k m'] guard_new(2) exclusive_add [of "held m" k] by (auto simp: guards_ok_def owner_none)
next
  case (guard_lock i gs t k b m b' m')
  note at = guards_hold_at [OF guard_lock(1,2)]
  show ?case
  proof (cases b)
    case True
    then have "gs[i := (t, k, b')] = gs" "m' = m" using guard_lock by (auto simp: ScopeLockImp_lock_def intro: same_guard)
    then show ?thesis using guard_lock by simp
  next
    case False
    then have "b'" "lock t k m = Some m'" using guard_lock(3) by (auto simp: ScopeLockImp_lock_def)
    then show ?thesis using lock_adds [of m t k m'] guard_lock(4) exclusive_add [of "held m" k] at(1) at(2) [of "(t, k, b')"] False
      by (auto simp: guards_ok_def owner_none)
  qed
next
  case (guard_unlock i gs t k b m b' m')
  then show ?case using guards_ok_step [OF guard_step.guard_unlock [where unlock = unlock and t = t, OF guard_unlock(1-3)]] by simp
next
  case (guard_destroy i gs t k b m)
  then show ?case using guards_ok_step [OF guard_step.guard_destroy [where unlock = unlock and t = t, OF guard_destroy(1,2)]] by simp
qed

lemma blocking_ok:
  assumes "held m0 = {#}" "guard_reach lock unlock m0 s"
  shows "guards_ok held owner s"
  using assms(2) unfolding guard_reach_def
  by (induction rule: rtranclp_induct) (auto intro: guards_ok_start [OF assms(1) owner_none] blocking_step)

end

section \<open>The locks keep the contract\<close>

definition mutex_held :: "mutex \<Rightarrow> access multiset" where
  "mutex_held m = (if m then {#Exclusive#} else {#})"

definition rw_held :: "RWLock \<Rightarrow> access multiset" where
  "rw_held m = replicate_mset (rw_readers m) Shared + (if rw_writer m \<noteq> None then {#Exclusive#} else {#})"

abbreviation no_owner :: "mutex \<Rightarrow> nat option" where
  "no_owner \<equiv> (\<lambda>_. None)"

interpretation mutex_lock: blocking_lock "mutex_access MutexLock_lock" "\<lambda>_. MutexLock_unlock" mutex_held no_owner
  by unfold_locales (auto simp: mutex_access_def MutexLock_lock_def MutexLock_unlock_def mutex_held_def admits_def split: access.splits if_splits)

interpretation spin_lock: blocking_lock "mutex_access SpinLock_lock" "\<lambda>_. SpinLock_unlock" mutex_held no_owner
  by unfold_locales (auto simp: mutex_access_def SpinLock_lock_def SpinLock_unlock_def mutex_held_def admits_def split: access.splits if_splits)

interpretation cas_lock: blocking_lock "mutex_access CASLock_lock" "\<lambda>_. CASLock_unlock" mutex_held no_owner
  by unfold_locales (auto simp: mutex_access_def CASLock_lock_def CASLock_unlock_def test_and_set_def mutex_held_def admits_def split: access.splits if_splits)

lemma rw_held_exclusive: "exclusive (rw_held m) \<longleftrightarrow> (rw_writer m \<noteq> None \<longrightarrow> rw_readers m = 0)"
  by (cases "rw_readers m") (auto simp: exclusive_def rw_held_def)

interpretation rw_lock: lockable rw_access RWLock_unlock rw_held rw_writer
proof (unfold_locales, goal_cases)
  case (1 m t k m')
  then show ?case
    by (cases k) (auto simp: rw_access_def rwlock_defs rw_held_def admits_def split: if_splits)
next
  case (2 m k t)
  then show ?case
    unfolding rw_held_exclusive
    by (cases "rw_readers m") (auto simp: rwlock_defs rw_held_def split: if_splits)
qed

text \<open>
  (C26) The guards exclude each other. With any number of guards of any threads made, locked, unlocked and destroyed in any order on a lock, the lock is held
  exactly as its guards say: while a guard of a \<^verbatim>\<open>MutexLock\<close>, \<^verbatim>\<open>SpinLock\<close> or \<^verbatim>\<open>CASLock\<close>, or a write guard of an \<^verbatim>\<open>RWLock\<close>, holds its lock, no other guard
  does; and a lock none of whose guards holds it is free, so that no guard gives a lock back twice or forgets it. For \<^verbatim>\<open>RWLock\<close> this needs that no thread takes
  the lock while one of its own write guards holds it: then the C library refuses, the code does not look at the answer, the second guard says it
  holds the lock all the same, and its destruction frees the lock under the first.
\<close>

theorem guards_exclude_each_other:
  "(\<forall>m gs. careful_reach rw_access RWLock_unlock RWLock_new (m, gs) \<longrightarrow> rw_held m = guards_hold gs
     \<and> (\<forall>i < length gs. snd (gs ! i) = (Exclusive, True) \<longrightarrow> (\<forall>j < length gs. snd (snd (gs ! j)) \<longrightarrow> j = i))) \<and>
   (\<forall>m t k. rw_writer m = Some t \<longrightarrow> ScopeLockImp_new (rw_access t k) m = Some (True, m)
     \<and> ScopeLockImp_destroy (RWLock_unlock t) True m = m\<lparr>rw_writer := None\<rparr>) \<and>
   (\<forall>m gs. guard_reach (mutex_access MutexLock_lock) (\<lambda>_. MutexLock_unlock) False (m, gs) \<longrightarrow> mutex_held m = guards_hold gs
     \<and> (\<forall>i < length gs. snd (gs ! i) = (Exclusive, True) \<longrightarrow> (\<forall>j < length gs. snd (snd (gs ! j)) \<longrightarrow> j = i))) \<and>
   (\<forall>m gs. guard_reach (mutex_access SpinLock_lock) (\<lambda>_. SpinLock_unlock) False (m, gs) \<longrightarrow> mutex_held m = guards_hold gs
     \<and> (\<forall>i < length gs. snd (gs ! i) = (Exclusive, True) \<longrightarrow> (\<forall>j < length gs. snd (snd (gs ! j)) \<longrightarrow> j = i))) \<and>
   (\<forall>m gs. guard_reach (mutex_access CASLock_lock) (\<lambda>_. CASLock_unlock) False (m, gs) \<longrightarrow> mutex_held m = guards_hold gs
     \<and> (\<forall>i < length gs. snd (gs ! i) = (Exclusive, True) \<longrightarrow> (\<forall>j < length gs. snd (snd (gs ! j)) \<longrightarrow> j = i)))"
proof -
  have free: "rw_held RWLock_new = {#}" "rw_writer RWLock_new = None" "mutex_held False = {#}"
    by (simp_all add: rw_held_def RWLock_new_def mutex_held_def)
  have again: "ScopeLockImp_new (rw_access t k) m = Some (True, m)
      \<and> ScopeLockImp_destroy (RWLock_unlock t) True m = m\<lparr>rw_writer := None\<rparr>" if "rw_writer m = Some t" for m t k
    using that by (cases k)
      (simp_all add: ScopeLockImp_new_def ScopeLockImp_destroy_def ScopeLockImp_unlock_def rw_access_def rwlock_defs)
  show ?thesis
    by (intro conjI [OF _ conjI [OF _ conjI [OF _ conjI]]] allI impI)
      (rule rw_lock.guards_ok_exclude [OF rw_lock.careful_ok [OF free(1,2)]] again mutex_lock.guards_ok_exclude [OF mutex_lock.blocking_ok [OF free(3)]]
        spin_lock.guards_ok_exclude [OF spin_lock.blocking_ok [OF free(3)]] cas_lock.guards_ok_exclude [OF cas_lock.blocking_ok [OF free(3)]], assumption)+
qed

lemma two_readers:
  "careful_reach rw_access RWLock_unlock RWLock_new (\<lparr>rw_readers = 2, rw_writer = None\<rparr>, [(0, Shared, True), (1, Shared, True)])"
proof -
  have "guard_step rw_access RWLock_unlock (careful [] 0) (RWLock_new, []) (\<lparr>rw_readers = 1, rw_writer = None\<rparr>, [] @ [(0, Shared, True)])"
    by (rule guard_new) (simp add: ScopeLockImp_new_def rw_access_def rwlock_defs RWLock_new_def)
  moreover have "guard_step rw_access RWLock_unlock (careful [(0, Shared, True)] 1) (\<lparr>rw_readers = 1, rw_writer = None\<rparr>, [(0, Shared, True)])
      (\<lparr>rw_readers = 2, rw_writer = None\<rparr>, [(0, Shared, True)] @ [(1, Shared, True)])"
    by (rule guard_new) (simp add: ScopeLockImp_new_def rw_access_def rwlock_defs)
  ultimately show ?thesis unfolding careful_reach_def by (simp add: careful_def)
qed

theorem guards_exclude_each_other_witness:
  "careful_reach rw_access RWLock_unlock RWLock_new (\<lparr>rw_readers = 2, rw_writer = None\<rparr>, [(0, Shared, True), (1, Shared, True)]) \<and>
   rw_held \<lparr>rw_readers = 2, rw_writer = None\<rparr> = {#Shared, Shared#} \<and>
   ScopeLockImp_new (rw_access 4 Exclusive) \<lparr>rw_readers = 0, rw_writer = Some 4\<rparr> = Some (True, \<lparr>rw_readers = 0, rw_writer = Some 4\<rparr>)"
proof -
  have "rw_held \<lparr>rw_readers = 2, rw_writer = None\<rparr> = {#Shared, Shared#}"
    using guards_exclude_each_other [THEN conjunct1, rule_format, OF two_readers] by simp
  moreover have "ScopeLockImp_new (rw_access 4 Exclusive) \<lparr>rw_readers = 0, rw_writer = Some 4\<rparr>
      = Some (True, \<lparr>rw_readers = 0, rw_writer = Some 4\<rparr>)"
    using guards_exclude_each_other [THEN conjunct2, THEN conjunct1, rule_format, of "\<lparr>rw_readers = 0, rw_writer = Some 4\<rparr>" 4 Exclusive]
    by simp
  ultimately show ?thesis using two_readers by simp
qed

section \<open>Semaphores\<close>

text \<open>\<open>failed\<close> says that the system call fails.\<close>

datatype thread_error = Thread_logic_error string

definition Semaphore_new :: "bool \<Rightarrow> u32 \<Rightarrow> thread_error + nat" where
  "Semaphore_new failed n = (if failed then Inl (Thread_logic_error ''sem_init error'') else Inr (unat n))"

definition Semaphore_wait :: "bool \<Rightarrow> nat \<Rightarrow> (thread_error + nat) option" where
  "Semaphore_wait failed s =
     (if failed then Some (Inl (Thread_logic_error ''sem_wait error'')) else if s = 0 then None else Some (Inr (s - 1)))"

definition Semaphore_notify :: "bool \<Rightarrow> nat \<Rightarrow> thread_error + nat" where
  "Semaphore_notify failed s = (if failed then Inl (Thread_logic_error ''sem_post error'') else Inr (s + 1))"

section \<open>Threads\<close>

record 'cb Thread =
  th_id :: int
  th_thread :: nat
  th_callBack :: "'cb option"
  th_name :: string
  th_semaphore :: nat

text \<open>The constructor up to the wait; \<open>rt\<close> is the answer of \<^verbatim>\<open>pthread_create\<close>, \<open>handle\<close> what it wrote into \<^verbatim>\<open>m_thread\<close>.\<close>

definition Thread_new :: "int \<Rightarrow> nat \<Rightarrow> 'cb \<Rightarrow> string \<Rightarrow> thread_error + 'cb Thread" where
  "Thread_new rt handle cb name =
     (if rt \<noteq> 0 then Inl (Thread_logic_error ''pthread_create error'')
      else Inr \<lparr>th_id = - 1, th_thread = handle, th_callBack = Some cb, th_name = (if name = [] then ''UNKNOW'' else name), th_semaphore = 0\<rparr>)"

text \<open>
  \<^verbatim>\<open>Thread::run\<close> in the new thread, in the three pieces that the constructor could see in between: the name and the identifier, the callback, the semaphore. The
  first gives the new thread's \<^verbatim>\<open>t_name\<close> and the name the kernel shows.
\<close>

definition Thread_run_id :: "int \<Rightarrow> 'cb Thread \<Rightarrow> string \<times> string \<times> 'cb Thread" where
  "Thread_run_id tid th = (th_name th, take 15 (th_name th), th\<lparr>th_id := tid\<rparr>)"

definition Thread_run_take :: "'cb Thread \<Rightarrow> 'cb option \<times> 'cb Thread" where
  "Thread_run_take th = (th_callBack th, th\<lparr>th_callBack := None\<rparr>)"

definition Thread_run_notify :: "bool \<Rightarrow> 'cb Thread \<Rightarrow> thread_error + 'cb Thread" where
  "Thread_run_notify failed th = rbind (Semaphore_notify failed (th_semaphore th)) (\<lambda>s. Inr (th\<lparr>th_semaphore := s\<rparr>))"

definition Thread_join :: "int \<Rightarrow> 'cb Thread \<Rightarrow> thread_error + 'cb Thread" where
  "Thread_join rt th =
     (if th_thread th \<noteq> 0 then
        if rt \<noteq> 0 then Inl (Thread_logic_error ''pthread_join error'') else Inr (th\<lparr>th_thread := 0\<rparr>)
      else Inr th)"

text \<open>The destructor detaches the thread that was not joined.\<close>

definition Thread_destroy :: "'cb Thread \<Rightarrow> nat option" where
  "Thread_destroy th = (if th_thread th \<noteq> 0 then Some (th_thread th) else None)"

definition Thread_SetName :: "string \<Rightarrow> 'cb Thread option \<Rightarrow> 'cb Thread option \<times> string" where
  "Thread_SetName name t_thread = (map_option (\<lambda>th. th\<lparr>th_name := name\<rparr>) t_thread, name)"

text \<open>
  The start of a thread: the object, how many pieces of \<^verbatim>\<open>run\<close> are done, the callback the new thread holds, and where the constructor is. A failing \<^verbatim>\<open>sem_wait\<close> (a signal
  is enough) makes the constructor throw, and the object is gone while the new thread still uses it: what follows is undefined and has no steps here. A failing
  \<^verbatim>\<open>sem_post\<close> throws out of \<^verbatim>\<open>run\<close>, which terminates the program. Both are possible when \<open>may_fail\<close>.
\<close>

datatype start_status = Start_waiting | Start_returned | Start_threw thread_error | Start_terminated thread_error

record 'cb starting =
  st_thread :: "'cb Thread"
  st_pieces :: nat
  st_cb :: "'cb option"
  st_status :: start_status

inductive start_step :: "int \<Rightarrow> bool \<Rightarrow> 'cb starting \<Rightarrow> 'cb starting \<Rightarrow> bool" for tid :: int and may_fail :: bool where
  start_id: "st_status s = Start_waiting \<Longrightarrow> st_pieces s = 0 \<Longrightarrow> Thread_run_id tid (st_thread s) = (t_name, kernel_name, th)
    \<Longrightarrow> start_step tid may_fail s (s\<lparr>st_thread := th, st_pieces := 1\<rparr>)"
| start_take: "st_status s = Start_waiting \<Longrightarrow> st_pieces s = 1 \<Longrightarrow> Thread_run_take (st_thread s) = (cb, th)
    \<Longrightarrow> start_step tid may_fail s (s\<lparr>st_thread := th, st_cb := cb, st_pieces := 2\<rparr>)"
| start_notify: "st_status s = Start_waiting \<Longrightarrow> st_pieces s = 2 \<Longrightarrow> Thread_run_notify False (st_thread s) = Inr th
    \<Longrightarrow> start_step tid may_fail s (s\<lparr>st_thread := th, st_pieces := 3\<rparr>)"
| start_post_fails: "may_fail \<Longrightarrow> st_status s = Start_waiting \<Longrightarrow> st_pieces s = 2 \<Longrightarrow> Thread_run_notify True (st_thread s) = Inl e
    \<Longrightarrow> start_step tid may_fail s (s\<lparr>st_status := Start_terminated e\<rparr>)"
| start_return: "st_status s = Start_waiting \<Longrightarrow> Semaphore_wait False (th_semaphore (st_thread s)) = Some (Inr n)
    \<Longrightarrow> start_step tid may_fail s (s\<lparr>st_thread := (st_thread s)\<lparr>th_semaphore := n\<rparr>, st_status := Start_returned\<rparr>)"
| start_wait_fails: "may_fail \<Longrightarrow> st_status s = Start_waiting \<Longrightarrow> Semaphore_wait True (th_semaphore (st_thread s)) = Some (Inl e)
    \<Longrightarrow> start_step tid may_fail s (s\<lparr>st_status := Start_threw e\<rparr>)"

definition starting_new :: "'cb Thread \<Rightarrow> 'cb starting" where
  "starting_new th = \<lparr>st_thread = th, st_pieces = 0, st_cb = None, st_status = Start_waiting\<rparr>"

definition starting_inv :: "int \<Rightarrow> bool \<Rightarrow> nat \<Rightarrow> 'cb \<Rightarrow> string \<Rightarrow> 'cb starting \<Rightarrow> bool" where
  "starting_inv tid may_fail handle cb name s \<longleftrightarrow>
     st_pieces s \<le> 3 \<and> th_thread (st_thread s) = handle \<and> th_name (st_thread s) = name \<and>
     th_id (st_thread s) = (if st_pieces s = 0 then - 1 else tid) \<and>
     (if st_pieces s \<le> 1 then th_callBack (st_thread s) = Some cb \<and> st_cb s = None else th_callBack (st_thread s) = None \<and> st_cb s = Some cb) \<and>
     th_semaphore (st_thread s) = (if st_pieces s = 3 \<and> st_status s \<noteq> Start_returned then 1 else 0) \<and>
     (case st_status s of
        Start_waiting \<Rightarrow> True
      | Start_returned \<Rightarrow> st_pieces s = 3
      | Start_threw e \<Rightarrow> may_fail \<and> e = Thread_logic_error ''sem_wait error''
      | Start_terminated e \<Rightarrow> may_fail \<and> e = Thread_logic_error ''sem_post error'')"

lemma starting_inv_step:
  "start_step tid may_fail s s' \<Longrightarrow> starting_inv tid may_fail handle cb name s \<Longrightarrow> starting_inv tid may_fail handle cb name s'"
  by (induction rule: start_step.induct)
    (auto simp: starting_inv_def Thread_run_id_def Thread_run_take_def Thread_run_notify_def Semaphore_notify_def Semaphore_wait_def split: if_splits)

text \<open>Every step counts: the pieces done, and one for the end of the constructor.\<close>

definition start_count :: "'cb starting \<Rightarrow> nat" where
  "start_count s = st_pieces s + (if st_status s = Start_waiting then 0 else 1)"

lemma start_step_count: "start_step tid may_fail s s' \<Longrightarrow> start_count s' = Suc (start_count s)"
  by (induction rule: start_step.induct) (simp_all add: start_count_def)

lemma start_run:
  "(start_step tid may_fail ^^ n) s s' \<Longrightarrow> starting_inv tid may_fail handle cb name s
    \<Longrightarrow> starting_inv tid may_fail handle cb name s' \<and> start_count s' = start_count s + n"
proof (induction n arbitrary: s')
  case (Suc n)
  then obtain t where "(start_step tid may_fail ^^ n) s t" "start_step tid may_fail t s'" by auto
  then show ?case using Suc starting_inv_step start_step_count by fastforce
qed simp

lemma start_progress:
  assumes "starting_inv tid may_fail handle cb name s" "st_status s = Start_waiting"
  shows "\<exists>s'. start_step tid may_fail s s'"
proof -
  consider "st_pieces s = 0" | "st_pieces s = 1" | "st_pieces s = 2" | "st_pieces s = 3" using assms(1) by (force simp: starting_inv_def)
  then show ?thesis
  proof cases
    case 1
    then show ?thesis using start_id [OF assms(2) _ Thread_run_id_def] by blast
  next
    case 2
    then show ?thesis using start_take [OF assms(2) _ Thread_run_take_def] by blast
  next
    case 3
    have "Thread_run_notify False (st_thread s) = Inr ((st_thread s)\<lparr>th_semaphore := th_semaphore (st_thread s) + 1\<rparr>)"
      by (simp add: Thread_run_notify_def Semaphore_notify_def)
    then show ?thesis using start_notify [OF assms(2) 3] by blast
  next
    case 4
    then have "Semaphore_wait False (th_semaphore (st_thread s)) = Some (Inr 0)" using assms by (simp add: starting_inv_def Semaphore_wait_def)
    then show ?thesis using start_return [OF assms(2)] by blast
  qed
qed

text \<open>
  (C36) The start of a thread, in any order of the steps of the creating and the new thread. There are at most four steps, and when no step is left the constructor does
  not wait any more; so when the semaphore calls do not fail it returns after exactly these four. When it has returned the object knows the identifier of the
  running thread, its name is the given one (\<^verbatim>\<open>UNKNOW\<close> when it is empty), and the new thread, and nobody else, holds the callback. When a semaphore call fails it
  throws, or the program is terminated.
\<close>

theorem thread_starts:
  assumes "Thread_new rt handle cb name = Inr th" and "(start_step tid may_fail ^^ n) (starting_new th) s"
  shows "n \<le> 4
    \<and> ((\<forall>s'. \<not> start_step tid may_fail s s') \<longrightarrow> st_status s \<noteq> Start_waiting)
    \<and> (\<not> may_fail \<longrightarrow> st_status s = (if n < 4 then Start_waiting else Start_returned))
    \<and> (st_status s = Start_returned \<longrightarrow> n = 4 \<and> st_cb s = Some cb \<and> st_thread s =
        \<lparr>th_id = tid, th_thread = handle, th_callBack = None, th_name = (if name = [] then ''UNKNOW'' else name), th_semaphore = 0\<rparr>)
    \<and> (\<forall>e. st_status s = Start_threw e \<longrightarrow> e = Thread_logic_error ''sem_wait error'')
    \<and> (\<forall>e. st_status s = Start_terminated e \<longrightarrow> e = Thread_logic_error ''sem_post error'')"
proof -
  have nm: "th_name th = (if name = [] then ''UNKNOW'' else name)" using assms(1) by (auto simp: Thread_new_def split: if_splits)
  have "starting_inv tid may_fail handle cb (th_name th) (starting_new th)"
    using assms(1) by (auto simp: starting_inv_def starting_new_def Thread_new_def split: if_splits)
  from start_run [OF assms(2) this]
  have inv: "starting_inv tid may_fail handle cb (th_name th) s" and n: "start_count s = n"
    by (simp_all add: start_count_def starting_new_def)
  show ?thesis
    using inv n nm start_progress [OF inv]
    by (cases "st_status s") (auto simp: starting_inv_def start_count_def)
qed

theorem thread_starts_witness:
  "\<exists>th s :: unit starting. Thread_new 0 1 () ''io'' = Inr th \<and> (start_step 7 False ^^ 4) (starting_new th) s
     \<and> st_status s = Start_returned \<and> th_id (st_thread s) = 7 \<and> st_cb s = Some ()"
proof -
  obtain th :: "unit Thread" where th: "Thread_new 0 1 () ''io'' = Inr th" by (simp add: Thread_new_def)
  then have "starting_inv 7 False 1 () ''io'' (starting_new th)"
    by (auto simp: starting_inv_def starting_new_def Thread_new_def)
  then have run: "n \<le> 4 \<Longrightarrow> \<exists>s. (start_step 7 False ^^ n) (starting_new th) s" for n
  proof (induction n)
    case (Suc n)
    then obtain s where s: "(start_step 7 False ^^ n) (starting_new th) s" by auto
    then have "starting_inv 7 False 1 () ''io'' s" "start_count s = n"
      using start_run [OF s Suc.prems(2)] by (simp_all add: start_count_def starting_new_def)
    moreover from this have "st_status s = Start_waiting"
      using Suc.prems(1) by (auto simp: starting_inv_def start_count_def split: start_status.splits)
    ultimately obtain s' where "start_step 7 False s s'" using start_progress [of 7 False 1 "()" "''io''" s] by auto
    with s show ?case by auto
  qed simp
  obtain s where s: "(start_step 7 False ^^ 4) (starting_new th) s" using run [of 4] by auto
  from thread_starts [OF th s] have "st_status s = Start_returned" "th_id (st_thread s) = 7" "st_cb s = Some ()" by simp_all
  with th s show ?thesis by blast
qed

end
