(* ===== verification/Log_Format.thy ===== *)
theory Log_Format
  imports Tiny_Prelude
begin

text \<open>
  Model of the levels, events and formatters of \<^verbatim>\<open>src/src/log.cpp\<close> and \<^verbatim>\<open>log.h\<close>: \<^verbatim>\<open>LogLevel\<close>, \<^verbatim>\<open>LogEvent\<close>, the format items
  and the pattern parser \<^verbatim>\<open>LogFormatter::init\<close>.
\<close>

section \<open>Levels\<close>

datatype LogLevel = UNKNOW | DEBUG | INFO | WARN | ERROR | FATAL

fun level_num :: "LogLevel \<Rightarrow> nat" where
  "level_num UNKNOW = 0" | "level_num DEBUG = 1" | "level_num INFO = 2"
| "level_num WARN = 3" | "level_num ERROR = 4" | "level_num FATAL = 5"

lemma level_num_inject: "level_num a = level_num b \<longleftrightarrow> a = b"
  by (cases a; cases b) simp_all

instantiation LogLevel :: linorder
begin

definition less_eq_LogLevel :: "LogLevel \<Rightarrow> LogLevel \<Rightarrow> bool" where
  "less_eq_LogLevel a b \<longleftrightarrow> level_num a \<le> level_num b"

definition less_LogLevel :: "LogLevel \<Rightarrow> LogLevel \<Rightarrow> bool" where
  "less_LogLevel a b \<longleftrightarrow> level_num a < level_num b"

instance
  by standard (auto simp: less_eq_LogLevel_def less_LogLevel_def level_num_inject)

end

fun LogLevel_ToString :: "LogLevel \<Rightarrow> string" where
  "LogLevel_ToString DEBUG = ''DEBUG''"
| "LogLevel_ToString INFO = ''INFO''"
| "LogLevel_ToString WARN = ''WARN''"
| "LogLevel_ToString ERROR = ''ERROR''"
| "LogLevel_ToString FATAL = ''FATAL''"
| "LogLevel_ToString UNKNOW = ''UNKNOW''"

definition LogLevel_FromString :: "string \<Rightarrow> LogLevel" where
  "LogLevel_FromString str =
     (if str = ''debug'' then DEBUG else if str = ''info'' then INFO else if str = ''warn'' then WARN
      else if str = ''error'' then ERROR else if str = ''fatal'' then FATAL
      else if str = ''DEBUG'' then DEBUG else if str = ''INFO'' then INFO else if str = ''WARN'' then WARN
      else if str = ''ERROR'' then ERROR else if str = ''FATAL'' then FATAL
      else UNKNOW)"

section \<open>Events\<close>

text \<open>\<open>le_logger\<close> names the logger object.\<close>

record LogEvent =
  le_logger :: nat
  le_level :: LogLevel
  le_file :: string
  le_line :: u32
  le_elapse :: u32
  le_time :: u32
  le_threadId :: u32
  le_threadName :: string
  le_fiberId :: u32
  le_ss :: string

definition LogEvent_new ::
    "nat \<Rightarrow> LogLevel \<Rightarrow> string \<Rightarrow> u32 \<Rightarrow> u32 \<Rightarrow> u32 \<Rightarrow> u32 \<Rightarrow> string \<Rightarrow> u32 \<Rightarrow> LogEvent" where
  "LogEvent_new logger level file line elapse time threadId threadName fiberId =
     \<lparr>le_logger = logger, le_level = level, le_file = file, le_line = line, le_elapse = elapse, le_time = time,
      le_threadId = threadId, le_threadName = threadName, le_fiberId = fiberId, le_ss = ''''\<rparr>"

text \<open>\<^verbatim>\<open>format\<close>: \<open>text\<close> is what \<^verbatim>\<open>vasprintf\<close> made, \<open>None\<close> when it failed.\<close>

definition LogEvent_format :: "string option \<Rightarrow> LogEvent \<Rightarrow> LogEvent" where
  "LogEvent_format text ev = (case text of Some s \<Rightarrow> ev\<lparr>le_ss := le_ss ev @ s\<rparr> | None \<Rightarrow> ev)"

section \<open>Format items\<close>

datatype FormatItem =
    MessageFormatItem | LevelFormatItem | ElapseFormatItem | LoggerNameFormatItem | ThreadIdFormatItem | ThreadNameFormatItem
  | FiberIdFormatItem | DataTimeFormatItem string | FileNameFormatItem | LineFormatItem | NewLineFormatItem
  | StringFormatItem string | TabFormatItem

definition DataTimeFormatItem_new :: "string \<Rightarrow> FormatItem" where
  "DataTimeFormatItem_new fmt = DataTimeFormatItem (if fmt = '''' then ''%Y-%m-%d %H:%M:%S'' else fmt)"

text \<open>
  \<open>strftime fmt t\<close> is the text the C library makes of the time in the local time zone; \<open>name\<close> gives the names of the loggers.
\<close>

fun FormatItem_format :: "(string \<Rightarrow> u32 \<Rightarrow> string) \<Rightarrow> (nat \<Rightarrow> string) \<Rightarrow> LogLevel \<Rightarrow> LogEvent \<Rightarrow> FormatItem \<Rightarrow> string" where
  "FormatItem_format strftime name level event MessageFormatItem = le_ss event"
| "FormatItem_format strftime name level event LevelFormatItem = LogLevel_ToString level"
| "FormatItem_format strftime name level event ElapseFormatItem = print_dec (le_elapse event)"
| "FormatItem_format strftime name level event LoggerNameFormatItem = name (le_logger event)"
| "FormatItem_format strftime name level event ThreadIdFormatItem = print_dec (le_threadId event)"
| "FormatItem_format strftime name level event ThreadNameFormatItem = le_threadName event"
| "FormatItem_format strftime name level event FiberIdFormatItem = print_dec (le_fiberId event)"
| "FormatItem_format strftime name level event (DataTimeFormatItem fmt) = strftime fmt (le_time event)"
| "FormatItem_format strftime name level event FileNameFormatItem = le_file event"
| "FormatItem_format strftime name level event LineFormatItem = print_dec (le_line event)"
| "FormatItem_format strftime name level event NewLineFormatItem = [CHR 0x0A]"
| "FormatItem_format strftime name level event (StringFormatItem str) = str"
| "FormatItem_format strftime name level event TabFormatItem = [CHR 0x09]"

section \<open>The pattern parser\<close>

definition c_isalpha :: "char \<Rightarrow> bool" where
  "c_isalpha c \<longleftrightarrow> (65 \<le> (of_char c :: nat) \<and> (of_char c :: nat) \<le> 90) \<or> (97 \<le> (of_char c :: nat) \<and> (of_char c :: nat) \<le> 122)"

text \<open>
  The inner loop over \<open>n\<close>: the position behind the directive, \<^verbatim>\<open>fmt_status\<close>, the name and the argument.
\<close>

function init_inner :: "string \<Rightarrow> nat \<Rightarrow> nat \<Rightarrow> bool \<Rightarrow> nat \<Rightarrow> string \<Rightarrow> string \<Rightarrow> nat \<times> bool \<times> string \<times> string" where
  "init_inner p i n fmt_status fmt_begin str fmt =
     (if n < length p then
        if \<not> fmt_status \<and> \<not> c_isalpha (p ! n) \<and> p ! n \<noteq> CHR ''{'' \<and> p ! n \<noteq> CHR ''}''
        then (n, fmt_status, segment (i + 1) (n - i - 1) p, fmt)
        else if \<not> fmt_status \<and> p ! n = CHR ''{''
        then init_inner p i (n + 1) True n (segment (i + 1) (n - i - 1) p) fmt
        else if fmt_status \<and> p ! n = CHR ''}''
        then (n + 1, False, str, segment (fmt_begin + 1) (n - fmt_begin - 1) p)
        else init_inner p i (n + 1) fmt_status fmt_begin
               (if n + 1 = length p \<and> str = '''' then drop (i + 1) p else str) fmt
      else (n, fmt_status, str, fmt))"
  by pat_completeness auto
termination by (relation "measure (\<lambda>(p, i, n, _). length p - n)") auto

declare init_inner.simps [simp del]

lemma init_inner_forward: "n \<le> fst (init_inner p i n st b str fmt)"
proof (induction p i n st b str fmt rule: init_inner.induct)
  case (1 p i n st b str fmt)
  then show ?case by (subst init_inner.simps) force
qed

lemma init_inner_later: "(n, r) = init_inner p i (Suc i) st b str fmt \<Longrightarrow> i < n"
  using init_inner_forward [of "Suc i" p i st b str fmt] by (metis Suc_le_lessD fst_conv)

text \<open>
  The outer loop over \<open>i\<close> gives the list of text, argument and kind, whether there was an error, and what was written
  to the console. A second percent sign is not skipped; after an argument that does not end, the loop goes on behind
  the percent sign.
\<close>

function init_loop :: "string \<Rightarrow> nat \<Rightarrow> string \<Rightarrow> (string \<times> string \<times> bool) list \<Rightarrow> bool \<Rightarrow> string
    \<Rightarrow> (string \<times> string \<times> bool) list \<times> bool \<times> string" where
  "init_loop p i nstr vec err out =
     (if i < length p then
        if p ! i \<noteq> CHR ''%'' then init_loop p (i + 1) (nstr @ [p ! i]) vec err out
        else if i + 1 < length p \<and> p ! (i + 1) = CHR ''%'' then init_loop p (i + 1) (nstr @ ''%'') vec err out
        else case init_inner p i (i + 1) False 0 '''' '''' of (n, fmt_status, str, fmt) \<Rightarrow>
          if \<not> fmt_status
          then init_loop p n '''' (vec @ (if nstr \<noteq> '''' then [(nstr, '''', False)] else []) @ [(str, fmt, True)]) err out
          else init_loop p (i + 1) nstr (vec @ [(''<<pattern_error>>'', fmt, False)]) True
                 (out @ ''pattern parse error: '' @ p @ '' - '' @ drop i p @ [CHR 0x0A])
      else (if nstr \<noteq> '''' then vec @ [(nstr, '''', False)] else vec, err, out))"
  by pat_completeness auto
termination
  by (relation "measure (\<lambda>(p, i, _). length p - i)") (auto dest!: init_inner_later)

declare init_loop.simps [simp del]

text \<open>\<^verbatim>\<open>s_format_items\<close>.\<close>

definition s_format_items :: "string \<Rightarrow> string \<Rightarrow> FormatItem option" where
  "s_format_items str fmt =
     (if str = ''m'' then Some MessageFormatItem else if str = ''p'' then Some LevelFormatItem
      else if str = ''r'' then Some ElapseFormatItem else if str = ''c'' then Some LoggerNameFormatItem
      else if str = ''t'' then Some ThreadIdFormatItem else if str = ''n'' then Some NewLineFormatItem
      else if str = ''d'' then Some (DataTimeFormatItem_new fmt) else if str = ''f'' then Some FileNameFormatItem
      else if str = ''l'' then Some LineFormatItem else if str = ''T'' then Some TabFormatItem
      else if str = ''F'' then Some FiberIdFormatItem else if str = ''N'' then Some ThreadNameFormatItem
      else None)"

text \<open>The item of one entry, and whether it is an error.\<close>

definition vec_item :: "string \<times> string \<times> bool \<Rightarrow> FormatItem \<times> bool" where
  "vec_item v = (case v of (str, fmt, directive) \<Rightarrow>
     if \<not> directive then (StringFormatItem str, False)
     else case s_format_items str fmt of
            None \<Rightarrow> (StringFormatItem (''<<error_format %'' @ str @ ''>>''), True)
          | Some item \<Rightarrow> (item, False))"

record LogFormatter =
  lf_pattern :: string
  lf_items :: "FormatItem list"
  lf_error :: bool

text \<open>A new formatter, and what its constructor writes to the console.\<close>

definition LogFormatter_new :: "string \<Rightarrow> LogFormatter \<times> string" where
  "LogFormatter_new pattern =
     (let (vec, err, out) = init_loop pattern 0 '''' [] False ''''
      in (\<lparr>lf_pattern = pattern, lf_items = map (\<lambda>v. fst (vec_item v)) vec, lf_error = err \<or> list_ex (\<lambda>v. snd (vec_item v)) vec\<rparr>, out))"

definition LogFormatter_format :: "(string \<Rightarrow> u32 \<Rightarrow> string) \<Rightarrow> (nat \<Rightarrow> string) \<Rightarrow> LogLevel \<Rightarrow> LogEvent \<Rightarrow> LogFormatter \<Rightarrow> string" where
  "LogFormatter_format strftime name level event f = concat (map (FormatItem_format strftime name level event) (lf_items f))"

section \<open>Patterns\<close>

text \<open>
  A pattern as its author reads it: literal text, and directives with or without an argument in braces.
\<close>

datatype piece = Literal string | Directive string "string option"

fun piece_text :: "piece \<Rightarrow> string" where
  "piece_text (Literal s) = s"
| "piece_text (Directive d None) = ''%'' @ d"
| "piece_text (Directive d (Some a)) = ''%'' @ d @ ''{'' @ a @ ''}''"

definition pattern_of :: "piece list \<Rightarrow> string" where
  "pattern_of ps = concat (map piece_text ps)"

definition name_char :: "char \<Rightarrow> bool" where
  "name_char c \<longleftrightarrow> c_isalpha c \<or> c = CHR ''{'' \<or> c = CHR ''}''"

fun pieces_ok :: "piece list \<Rightarrow> bool" where
  "pieces_ok [] = True"
| "pieces_ok (Literal s # ps) \<longleftrightarrow> s \<noteq> [] \<and> CHR ''%'' \<notin> set s \<and> (case ps of Literal _ # _ \<Rightarrow> False | _ \<Rightarrow> True) \<and> pieces_ok ps"
| "pieces_ok (Directive d None # ps) \<longleftrightarrow>
     d \<noteq> [] \<and> list_all c_isalpha d \<and> (pattern_of ps = [] \<or> \<not> name_char (hd (pattern_of ps))) \<and> pieces_ok ps"
| "pieces_ok (Directive d (Some a) # ps) \<longleftrightarrow> d \<noteq> [] \<and> list_all c_isalpha d \<and> CHR ''}'' \<notin> set a \<and> pieces_ok ps"

fun piece_vec :: "piece \<Rightarrow> string \<times> string \<times> bool" where
  "piece_vec (Literal s) = (s, '''', False)"
| "piece_vec (Directive d a) = (d, case_option '''' id a, True)"

lemma alpha_not_brace: "c_isalpha c \<Longrightarrow> c \<noteq> CHR ''{'' \<and> c \<noteq> CHR ''}'' \<and> c \<noteq> CHR ''%''"
  by (auto simp: c_isalpha_def)

lemma init_inner_name:
  assumes "list_all c_isalpha d" "post = [] \<or> \<not> name_char (hd post)" "d \<noteq> [] \<or> post \<noteq> []"
  shows "init_inner (pre @ CHR ''%'' # d0 @ d @ post) (length pre) (length pre + 1 + length d0) False b '''' ''''
    = (length pre + 1 + length (d0 @ d), False, d0 @ d, '''')"
  using assms
proof (induction d arbitrary: d0)
  case Nil
  then obtain x xs where "post = x # xs" "\<not> name_char x" by (cases post) auto
  then show ?case
    by (subst init_inner.simps) (simp add: nth_append name_char_def segment_def)
next
  case (Cons c d)
  let ?p = "pre @ CHR ''%'' # d0 @ (c # d) @ post" and ?n = "length pre + 1 + length d0"
  have c: "c_isalpha c" "c \<noteq> CHR ''{''" "c \<noteq> CHR ''}''" using Cons.prems(1) alpha_not_brace by auto
  have n: "?n < length ?p" "?p ! ?n = c" by (simp_all add: nth_append)
  show ?case
  proof (cases "d = [] \<and> post = []")
    case True
    then show ?thesis using c n
      by (subst init_inner.simps) (simp add: nth_append, subst init_inner.simps, simp)
  next
    case False
    have "init_inner ?p (length pre) ?n False b '''' '''' = init_inner ?p (length pre) (?n + 1) False b '''' ''''"
      using c n False by (subst init_inner.simps) (auto simp: nth_append)
    also have "\<dots> = (length pre + 1 + length ((d0 @ [c]) @ d), False, (d0 @ [c]) @ d, '''')"
      using Cons.IH [of "d0 @ [c]"] Cons.prems False by simp
    finally show ?thesis by simp
  qed
qed

lemma init_inner_argument:
  assumes "CHR ''}'' \<notin> set a"
  shows "init_inner (q @ a @ CHR ''}'' # post) i (length q) True b str fmt
    = (length q + length a + 1, False, str, segment (b + 1) (length q + length a - b - 1) (q @ a @ CHR ''}'' # post))"
  using assms
proof (induction a arbitrary: q)
  case Nil
  then show ?case by (subst init_inner.simps) (simp add: nth_append)
next
  case (Cons c a)
  let ?p = "q @ (c # a) @ CHR ''}'' # post"
  have "c \<noteq> CHR ''}''" using Cons.prems by auto
  then have "init_inner ?p i (length q) True b str fmt = init_inner ?p i (length q + 1) True b str fmt"
    by (subst init_inner.simps) (simp add: nth_append)
  then show ?case using Cons.IH [of "q @ [c]"] Cons.prems by simp
qed

lemma init_inner_directive:
  assumes "list_all c_isalpha d" "CHR ''}'' \<notin> set a"
  shows "init_inner (pre @ CHR ''%'' # d @ CHR ''{'' # a @ CHR ''}'' # post) (length pre) (length pre + 1) False 0 '''' ''''
    = (length pre + length d + length a + 3, False, d, a)"
proof -
  let ?p = "pre @ CHR ''%'' # d @ CHR ''{'' # a @ CHR ''}'' # post"
  have name: "init_inner (pre @ CHR ''%'' # d0 @ d1 @ CHR ''{'' # r) (length pre) (length pre + 1 + length d0) False 0 '''' ''''
      = init_inner (pre @ CHR ''%'' # d0 @ d1 @ CHR ''{'' # r) (length pre) (length pre + 1 + length (d0 @ d1)) False 0 '''' ''''"
    if "list_all c_isalpha d1" for d0 d1 r
    using that
  proof (induction d1 arbitrary: d0)
    case (Cons c d1)
    have c: "c_isalpha c" "c \<noteq> CHR ''{''" "c \<noteq> CHR ''}''" using Cons.prems alpha_not_brace by auto
    have "init_inner (pre @ CHR ''%'' # d0 @ (c # d1) @ CHR ''{'' # r) (length pre) (length pre + 1 + length d0) False 0 '''' ''''
        = init_inner (pre @ CHR ''%'' # d0 @ (c # d1) @ CHR ''{'' # r) (length pre) (length pre + 1 + length d0 + 1) False 0 '''' ''''"
      using c by (subst init_inner.simps) (simp add: nth_append)
    then show ?case using Cons.IH [of "d0 @ [c]"] Cons.prems by simp
  qed simp
  let ?q = "pre @ CHR ''%'' # d @ ''{''" and ?n = "length pre + 1 + length d"
  have "init_inner ?p (length pre) ?n False 0 '''' '''' = init_inner ?p (length pre) (length ?q) True ?n d ''''"
    by (subst init_inner.simps) (simp add: nth_append segment_def c_isalpha_def)
  also have "\<dots> = (length ?q + length a + 1, False, d, segment (?n + 1) (length ?q + length a - ?n - 1) ?p)"
    using init_inner_argument [OF assms(2), of ?q post "length pre" ?n d "''''"] by simp
  finally show ?thesis using name [OF assms(1), of "[]" "a @ CHR ''}'' # post"] by (simp add: segment_def)
qed

lemma init_loop_literal:
  assumes "CHR ''%'' \<notin> set s"
  shows "init_loop (pre @ s @ post) (length pre) nstr vec err out = init_loop (pre @ s @ post) (length (pre @ s)) (nstr @ s) vec err out"
  using assms
proof (induction s arbitrary: pre nstr)
  case (Cons c s)
  have "c \<noteq> CHR ''%''" using Cons.prems by auto
  then have "init_loop (pre @ (c # s) @ post) (length pre) nstr vec err out
      = init_loop (pre @ (c # s) @ post) (length pre + 1) (nstr @ [c]) vec err out"
    by (subst init_loop.simps) (simp add: nth_append)
  then show ?case using Cons.IH [of "pre @ [c]" "nstr @ [c]"] Cons.prems by simp
qed simp

abbreviation (input) flush :: "string \<Rightarrow> (string \<times> string \<times> bool) list" where
  "flush nstr \<equiv> if nstr \<noteq> '''' then [(nstr, '''', False)] else []"

lemma init_loop_pieces:
  assumes "pieces_ok ps" and "nstr = [] \<or> (case ps of Literal _ # _ \<Rightarrow> False | _ \<Rightarrow> True)"
  shows "init_loop (pre @ pattern_of ps) (length pre) nstr vec err out = (vec @ flush nstr @ map piece_vec ps, err, out)"
  using assms
proof (induction ps arbitrary: pre nstr vec rule: pieces_ok.induct)
  case 1
  then show ?case by (subst init_loop.simps) (simp add: pattern_of_def)
next
  case (2 s ps)
  have "init_loop (pre @ s @ pattern_of ps) (length pre) '''' vec err out
      = init_loop ((pre @ s) @ pattern_of ps) (length (pre @ s)) s vec err out"
    using init_loop_literal [of s pre "pattern_of ps" "''''"] 2(2) by simp
  also have "\<dots> = (vec @ flush s @ map piece_vec ps, err, out)"
    using 2(2) by (intro 2(1)) (auto split: list.splits piece.splits)
  finally show ?case using 2(2,3) by (simp add: pattern_of_def)
next
  case (3 d ps)
  let ?p = "pre @ CHR ''%'' # d @ pattern_of ps"
  obtain c d' where d: "d = c # d'" "c_isalpha c" using 3(2) by (cases d) auto
  have i: "init_inner ?p (length pre) (length pre + 1) False 0 '''' '''' = (length pre + 1 + length d, False, d, '''')"
    using init_inner_name [of d "pattern_of ps" pre "[]" 0] 3(2) by simp
  have "init_loop ?p (length pre) nstr vec err out
      = init_loop ((pre @ CHR ''%'' # d) @ pattern_of ps) (length (pre @ CHR ''%'' # d)) '''' (vec @ flush nstr @ [(d, '''', True)]) err out"
    using i d alpha_not_brace [of c] by (subst init_loop.simps) (simp add: nth_append)
  also have "\<dots> = ((vec @ flush nstr @ [(d, '''', True)]) @ flush '''' @ map piece_vec ps, err, out)"
    using 3(2) by (intro 3(1)) simp_all
  finally show ?case by (simp add: pattern_of_def)
next
  case (4 d a ps)
  let ?p = "pre @ CHR ''%'' # d @ CHR ''{'' # a @ CHR ''}'' # pattern_of ps" and ?q = "pre @ CHR ''%'' # d @ CHR ''{'' # a @ ''}''"
  obtain c d' where d: "d = c # d'" "c_isalpha c" using 4(2) by (cases d) auto
  have i: "init_inner ?p (length pre) (length pre + 1) False 0 '''' '''' = (length ?q, False, d, a)"
    using init_inner_directive [of d a pre "pattern_of ps"] 4(2) by simp
  have "init_loop ?p (length pre) nstr vec err out
      = init_loop (?q @ pattern_of ps) (length ?q) '''' (vec @ flush nstr @ [(d, a, True)]) err out"
    using i d alpha_not_brace [of c] by (subst init_loop.simps) (simp add: nth_append)
  also have "\<dots> = ((vec @ flush nstr @ [(d, a, True)]) @ flush '''' @ map piece_vec ps, err, out)"
    using 4(2) by (intro 4(1)) simp_all
  finally show ?case by (simp add: pattern_of_def)
qed

text \<open>What a piece becomes in a line.\<close>

fun piece_output :: "(string \<Rightarrow> u32 \<Rightarrow> string) \<Rightarrow> (nat \<Rightarrow> string) \<Rightarrow> LogLevel \<Rightarrow> LogEvent \<Rightarrow> piece \<Rightarrow> string" where
  "piece_output strftime name level event (Literal s) = s"
| "piece_output strftime name level event (Directive d a) =
     (case s_format_items d (case_option '''' id a) of
        Some item \<Rightarrow> FormatItem_format strftime name level event item
      | None \<Rightarrow> ''<<error_format %'' @ d @ ''>>'')"

fun known_piece :: "piece \<Rightarrow> bool" where
  "known_piece (Literal s) = True"
| "known_piece (Directive d a) \<longleftrightarrow> s_format_items d (case_option '''' id a) \<noteq> None"

lemma vec_item_piece:
  "FormatItem_format strftime name level event (fst (vec_item (piece_vec p))) = piece_output strftime name level event p"
  "snd (vec_item (piece_vec p)) \<longleftrightarrow> \<not> known_piece p"
  by (cases p; auto simp: vec_item_def split: option.split)+

lemma LogFormatter_pieces:
  assumes "pieces_ok ps"
  shows "LogFormatter_new (pattern_of ps) =
    (\<lparr>lf_pattern = pattern_of ps, lf_items = map (\<lambda>p. fst (vec_item (piece_vec p))) ps, lf_error = list_ex (\<lambda>p. \<not> known_piece p) ps\<rparr>, '''')"
  using init_loop_pieces [OF assms, of "''''" "''''" "[]" False "''''"]
  by (simp add: LogFormatter_new_def comp_def vec_item_piece list_ex_iff)

text \<open>
  (C21) A pattern is formatted as it reads: a pattern made of literal text without percent signs and directives, with arguments in braces
  or followed by a character that cannot belong to a name, is an error exactly when it uses an unknown directive, prints nothing while it is
  parsed, and formats every event to its literal text with each directive replaced by the message,
  level, time, name or number it stands for.
\<close>

theorem LogFormatter_formats:
  assumes "pieces_ok ps"
  shows "\<exists>f. LogFormatter_new (pattern_of ps) = (f, '''')
    \<and> (lf_error f \<longleftrightarrow> (\<exists>p\<in>set ps. \<not> known_piece p))
    \<and> (\<forall>strftime name level event. LogFormatter_format strftime name level event f
         = concat (map (piece_output strftime name level event) ps))"
  using LogFormatter_pieces [OF assms]
  by (auto simp: LogFormatter_format_def comp_def vec_item_piece list_ex_iff)

definition default_pattern :: string where
  "default_pattern = ''%d{%Y-%m-%d %H:%M:%S}%T%t%T%N%T%F%T[%p]%T[%c]%T%f:%l%T%m%n''"

definition default_pieces :: "piece list" where
  "default_pieces = [Directive ''d'' (Some ''%Y-%m-%d %H:%M:%S''), Directive ''T'' None, Directive ''t'' None, Directive ''T'' None,
     Directive ''N'' None, Directive ''T'' None, Directive ''F'' None, Directive ''T'' None, Literal ''['', Directive ''p'' None,
     Literal '']'', Directive ''T'' None, Literal ''['', Directive ''c'' None, Literal '']'', Directive ''T'' None,
     Directive ''f'' None, Literal '':'', Directive ''l'' None, Directive ''T'' None, Directive ''m'' None, Directive ''n'' None]"

lemma default_pattern_pieces: "pattern_of default_pieces = default_pattern" "pieces_ok default_pieces"
    "list_all known_piece default_pieces"
  by (simp_all add: pattern_of_def default_pieces_def default_pattern_def name_char_def c_isalpha_def s_format_items_def)

theorem LogFormatter_formats_witness:
  "\<exists>f. LogFormatter_new default_pattern = (f, '''') \<and> \<not> lf_error f
    \<and> (\<forall>strftime name. LogFormatter_format strftime name WARN ((LogEvent_new 3 WARN ''a.cpp'' 7 0 99 12 ''main'' 4)\<lparr>le_ss := ''hello''\<rparr>) f
         = strftime ''%Y-%m-%d %H:%M:%S'' 99 @ [CHR 0x09] @ print_dec (12 :: u32) @ [CHR 0x09] @ ''main'' @ [CHR 0x09] @ print_dec (4 :: u32)
           @ [CHR 0x09] @ ''[WARN]'' @ [CHR 0x09] @ ''['' @ name 3 @ '']'' @ [CHR 0x09] @ ''a.cpp:'' @ print_dec (7 :: u32) @ [CHR 0x09]
           @ ''hello'' @ [CHR 0x0A])"
proof -
  obtain f where f: "LogFormatter_new default_pattern = (f, '''')" "lf_error f \<longleftrightarrow> (\<exists>p\<in>set default_pieces. \<not> known_piece p)"
     "\<And>strftime name level event. LogFormatter_format strftime name level event f
         = concat (map (piece_output strftime name level event) default_pieces)"
    using LogFormatter_formats [OF default_pattern_pieces(2)] unfolding default_pattern_pieces(1) by blast
  moreover have "\<not> lf_error f" using f(2) default_pattern_pieces(3) by (auto simp: list_all_iff)
  ultimately show ?thesis
    by (intro exI [of _ f]) (simp add: default_pieces_def s_format_items_def DataTimeFormatItem_new_def LogEvent_new_def)
qed

text \<open>
  The escape \<^verbatim>\<open>%%\<close> does not work: the second percent sign is read again as the start of a directive. At the end of a pattern
  it makes the formatter an error, although the pattern is fine; before letters it turns the escaped text into a directive.
\<close>

lemma init_loop_escape:
  assumes "CHR ''%'' \<notin> set t"
  shows "init_loop (t @ ''%'' @ CHR ''%'' # r) 0 '''' [] False ''''
    = init_loop ((t @ ''%'') @ CHR ''%'' # r) (length (t @ ''%'')) (t @ ''%'') [] False ''''"
proof -
  have "init_loop (t @ ''%'' @ CHR ''%'' # r) 0 '''' [] False '''' = init_loop (t @ ''%'' @ CHR ''%'' # r) (length t) t [] False ''''"
    using init_loop_literal [OF assms, of "''''" "''%'' @ CHR ''%'' # r" "''''" "[]" False "''''"] by simp
  also have "\<dots> = init_loop ((t @ ''%'') @ CHR ''%'' # r) (length (t @ ''%'')) (t @ ''%'') [] False ''''"
    by (subst init_loop.simps) (simp add: nth_append)
  finally show ?thesis .
qed

theorem percent_escape_broken:
  assumes "CHR ''%'' \<notin> set t"
  shows "lf_error (fst (LogFormatter_new (t @ ''%%'')))
     \<and> lf_items (fst (LogFormatter_new (t @ ''%%''))) = [StringFormatItem (t @ ''%''), StringFormatItem ''<<error_format %>>'']
     \<and> (pieces_ok (Directive d None # ps) \<longrightarrow>
          lf_items (fst (LogFormatter_new (t @ ''%'' @ pattern_of (Directive d None # ps))))
          = StringFormatItem (t @ ''%'') # lf_items (fst (LogFormatter_new (pattern_of (Directive d None # ps)))))"
proof -
  have "init_loop (t @ ''%%'') 0 '''' [] False '''' = init_loop (t @ ''%%'') (length t + 1) (t @ ''%'') [] False ''''"
    using init_loop_escape [OF assms, of "''''"] by simp
  also have "\<dots> = ([(t @ ''%'', '''', False), ('''', '''', True)], False, '''')"
    by (subst init_loop.simps, subst init_inner.simps) (simp add: nth_append, subst init_loop.simps, simp)
  finally have e: "init_loop (t @ ''%%'') 0 '''' [] False '''' = ([(t @ ''%'', '''', False), ('''', '''', True)], False, '''')" .
  have "lf_items (fst (LogFormatter_new (t @ ''%'' @ pattern_of (Directive d None # ps))))
      = StringFormatItem (t @ ''%'') # lf_items (fst (LogFormatter_new (pattern_of (Directive d None # ps))))"
    if ok: "pieces_ok (Directive d None # ps)"
  proof -
    let ?r = "d @ pattern_of ps"
    have r: "pattern_of (Directive d None # ps) = CHR ''%'' # ?r" by (simp add: pattern_of_def)
    have "init_loop (t @ ''%'' @ CHR ''%'' # ?r) 0 '''' [] False ''''
        = ([(t @ ''%'', '''', False)] @ map piece_vec (Directive d None # ps), False, '''')"
      using init_loop_pieces [OF ok, of "t @ ''%''" "t @ ''%''" "[]" False "''''"] init_loop_escape [OF assms, of ?r]
      unfolding r by simp
    then have "lf_items (fst (LogFormatter_new (t @ ''%'' @ CHR ''%'' # ?r)))
        = StringFormatItem (t @ ''%'') # map (\<lambda>p. fst (vec_item (piece_vec p))) (Directive d None # ps)"
      by (simp add: LogFormatter_new_def vec_item_def comp_def)
    then show ?thesis using LogFormatter_pieces [OF ok] r by simp
  qed
  then show ?thesis using e by (simp add: LogFormatter_new_def vec_item_def s_format_items_def)
qed

theorem percent_escape_broken_witness:
  "lf_error (fst (LogFormatter_new ''100%%'')) \<and> lf_items (fst (LogFormatter_new ''100%%n'')) = [StringFormatItem ''100%'', NewLineFormatItem]"
proof -
  have ok: "pieces_ok [Directive ''n'' None]" by (simp add: c_isalpha_def pattern_of_def)
  have "pattern_of [Directive ''n'' None] = ''%n''" by (simp add: pattern_of_def)
  moreover have "lf_items (fst (LogFormatter_new ''%n'')) = [NewLineFormatItem]"
    using LogFormatter_pieces [OF ok] by (simp add: pattern_of_def vec_item_def s_format_items_def)
  ultimately show ?thesis
    using percent_escape_broken [of "''100''" "''n''" "[]"] ok by simp
qed

end
