(* ===== verification/Log.thy ===== *)
theory Log
  imports Log_Format Ordered_Map
begin

text \<open>
  Model of the appenders, the loggers and their manager (\<^verbatim>\<open>src/src/log.cpp\<close> and \<^verbatim>\<open>log.h\<close>). Loggers and appenders are shared objects: they
  live in two stores and are named by their index. A null pointer that is dereferenced is a failure.
\<close>

section \<open>State\<close>

datatype log_error = Log_null

datatype appender_kind = ConsoleLog | FileLog string

text \<open>\<open>la_stream\<close> is the position at which the file stream writes next, \<open>None\<close> when the file could not be opened.\<close>

record LogAppender =
  la_kind :: appender_kind
  la_level :: LogLevel
  la_formatter :: "LogFormatter option"
  la_hasFormatter :: bool
  la_lastTime :: u64
  la_stream :: "nat option"

record Logger =
  lg_name :: string
  lg_level :: LogLevel
  lg_formatter :: "LogFormatter option"
  lg_appenders :: "nat list"
  lg_root :: "nat option"

record log_state =
  ls_loggers :: "Logger list"
  ls_appenders :: "LogAppender list"
  ls_names :: "(string \<times> nat) list"
  ls_root :: nat
  ls_console :: string
  ls_files :: "string \<rightharpoonup> string"

text \<open>What the system answers: \<^verbatim>\<open>strftime\<close>, \<^verbatim>\<open>time(0)\<close>, and which files can be opened for writing.\<close>

record log_env =
  en_strftime :: "string \<Rightarrow> u32 \<Rightarrow> string"
  en_now :: u64
  en_open :: "string \<Rightarrow> bool"

abbreviation print_console :: "string \<Rightarrow> log_state \<Rightarrow> log_state" where
  "print_console t s \<equiv> s\<lparr>ls_console := ls_console s @ t\<rparr>"

abbreviation set_appender :: "nat \<Rightarrow> (LogAppender \<Rightarrow> LogAppender) \<Rightarrow> log_state \<Rightarrow> log_state" where
  "set_appender i f s \<equiv> s\<lparr>ls_appenders := (ls_appenders s)[i := f (ls_appenders s ! i)]\<rparr>"

abbreviation set_logger :: "nat \<Rightarrow> (Logger \<Rightarrow> Logger) \<Rightarrow> log_state \<Rightarrow> log_state" where
  "set_logger i f s \<equiv> s\<lparr>ls_loggers := (ls_loggers s)[i := f (ls_loggers s ! i)]\<rparr>"

section \<open>Appenders\<close>

text \<open>A stream writes at its own position; the file grows with zeros up to it when it was cut in the meantime.\<close>

definition file_write :: "nat \<Rightarrow> string \<Rightarrow> string \<Rightarrow> string" where
  "file_write pos t content =
     take pos content @ replicate (pos - length content) (CHR 0x00) @ t @ drop (pos + length t) content"

text \<open>
  \<^verbatim>\<open>FileLog::reopen\<close>: \<^verbatim>\<open>std::ofstream::open\<close> without a mode empties the file. The content is what the file holds when the
  stream's buffer has been written out.
\<close>

definition FileLog_reopen :: "log_env \<Rightarrow> nat \<Rightarrow> log_state \<Rightarrow> bool \<times> log_state" where
  "FileLog_reopen env i s =
     (case la_kind (ls_appenders s ! i) of
        ConsoleLog \<Rightarrow> (False, s)
      | FileLog name \<Rightarrow>
          if en_open env name
          then (True, (set_appender i (\<lambda>a. a\<lparr>la_stream := Some 0\<rparr>) s)\<lparr>ls_files := (ls_files s)(name \<mapsto> '''')\<rparr>)
          else (False, set_appender i (\<lambda>a. a\<lparr>la_stream := None\<rparr>) s))"

text \<open>A new appender of each kind; the result is its index.\<close>

definition new_appender :: "appender_kind \<Rightarrow> LogAppender" where
  "new_appender kind = \<lparr>la_kind = kind, la_level = DEBUG, la_formatter = None, la_hasFormatter = False, la_lastTime = 0, la_stream = None\<rparr>"

definition ConsoleLog_new :: "log_state \<Rightarrow> nat \<times> log_state" where
  "ConsoleLog_new s = (length (ls_appenders s), s\<lparr>ls_appenders := ls_appenders s @ [new_appender ConsoleLog]\<rparr>)"

definition FileLog_new :: "log_env \<Rightarrow> string \<Rightarrow> log_state \<Rightarrow> nat \<times> log_state" where
  "FileLog_new env fileName s =
     (let i = length (ls_appenders s) in
      (i, snd (FileLog_reopen env i (s\<lparr>ls_appenders := ls_appenders s @ [new_appender (FileLog fileName)]\<rparr>))))"

definition LogAppender_setFormatter :: "LogFormatter option \<Rightarrow> nat \<Rightarrow> log_state \<Rightarrow> log_state" where
  "LogAppender_setFormatter f i s = set_appender i (\<lambda>a. a\<lparr>la_formatter := f, la_hasFormatter := f \<noteq> None\<rparr>) s"

definition LogAppender_setLevel :: "LogLevel \<Rightarrow> nat \<Rightarrow> log_state \<Rightarrow> log_state" where
  "LogAppender_setLevel level i s = set_appender i (la_level_update (\<lambda>_. level)) s"

abbreviation logger_name :: "log_state \<Rightarrow> nat \<Rightarrow> string" where
  "logger_name s l \<equiv> lg_name (ls_loggers s ! l)"

definition ConsoleLog_log :: "log_env \<Rightarrow> LogLevel \<Rightarrow> LogEvent \<Rightarrow> nat \<Rightarrow> log_state \<Rightarrow> log_error + log_state" where
  "ConsoleLog_log env level event i s =
     (if la_level (ls_appenders s ! i) \<le> level then
        case la_formatter (ls_appenders s ! i) of
          None \<Rightarrow> Inl Log_null
        | Some f \<Rightarrow> Inr (print_console (LogFormatter_format (en_strftime env) (logger_name s) level event f) s)
      else Inr s)"

text \<open>A stream whose file could not be opened takes nothing.\<close>

definition FileLog_put :: "string \<Rightarrow> string \<Rightarrow> nat \<Rightarrow> log_state \<Rightarrow> log_state" where
  "FileLog_put name t i s =
     (case la_stream (ls_appenders s ! i) of
        None \<Rightarrow> s
      | Some pos \<Rightarrow> (set_appender i (\<lambda>a. a\<lparr>la_stream := Some (pos + length t)\<rparr>) s)
          \<lparr>ls_files := (ls_files s)(name \<mapsto> file_write pos t (case ls_files s name of Some c \<Rightarrow> c | None \<Rightarrow> ''''))\<rparr>)"

definition FileLog_log :: "log_env \<Rightarrow> LogLevel \<Rightarrow> LogEvent \<Rightarrow> string \<Rightarrow> nat \<Rightarrow> log_state \<Rightarrow> log_error + log_state" where
  "FileLog_log env level event name i s =
     (if la_level (ls_appenders s ! i) \<le> level then
        let s1 = (if en_now env \<noteq> la_lastTime (ls_appenders s ! i)
                  then set_appender i (la_lastTime_update (\<lambda>_. en_now env)) (snd (FileLog_reopen env i s)) else s)
        in case la_formatter (ls_appenders s1 ! i) of
             None \<Rightarrow> Inl Log_null
           | Some f \<Rightarrow> Inr (FileLog_put name (LogFormatter_format (en_strftime env) (logger_name s1) level event f) i s1)
      else Inr s)"

definition LogAppender_log :: "log_env \<Rightarrow> LogLevel \<Rightarrow> LogEvent \<Rightarrow> nat \<Rightarrow> log_state \<Rightarrow> log_error + log_state" where
  "LogAppender_log env level event i s =
     (case la_kind (ls_appenders s ! i) of
        ConsoleLog \<Rightarrow> ConsoleLog_log env level event i s
      | FileLog name \<Rightarrow> FileLog_log env level event name i s)"

section \<open>Loggers\<close>

definition new_logger :: "string \<Rightarrow> Logger" where
  "new_logger name = \<lparr>lg_name = name, lg_level = DEBUG, lg_formatter = Some (fst (LogFormatter_new default_pattern)), lg_appenders = [],
     lg_root = None\<rparr>"

definition Logger_new :: "string \<Rightarrow> log_state \<Rightarrow> nat \<times> log_state" where
  "Logger_new name s = (length (ls_loggers s), s\<lparr>ls_loggers := ls_loggers s @ [new_logger name]\<rparr>)"

fun log_each :: "log_env \<Rightarrow> LogLevel \<Rightarrow> LogEvent \<Rightarrow> nat list \<Rightarrow> log_state \<Rightarrow> log_error + log_state" where
  "log_each env level event [] s = Inr s"
| "log_each env level event (i # is) s = rbind (LogAppender_log env level event i s) (log_each env level event is)"

text \<open>\<^verbatim>\<open>Logger::log\<close> hands over to the root logger when it has no appenders; a chain of roots without end would never return.\<close>

partial_function (option) Logger_log :: "log_env \<Rightarrow> LogLevel \<Rightarrow> LogEvent \<Rightarrow> nat \<Rightarrow> log_state \<Rightarrow> (log_error + log_state) option" where
  "Logger_log env level event l s =
     (let g = ls_loggers s ! l in
      if lg_level g \<le> level then
        if lg_appenders g \<noteq> [] then Some (log_each env level event (lg_appenders g) s)
        else case lg_root g of Some r \<Rightarrow> Logger_log env level event r s | None \<Rightarrow> Some (Inr s)
      else Some (Inr s))"

definition Logger_debug where "Logger_debug env = Logger_log env DEBUG"
definition Logger_info where "Logger_info env = Logger_log env INFO"
definition Logger_warn where "Logger_warn env = Logger_log env WARN"
definition Logger_error where "Logger_error env = Logger_log env ERROR"
definition Logger_fatal where "Logger_fatal env = Logger_log env FATAL"

text \<open>\<^verbatim>\<open>LogEventWarp::~LogEventWarp\<close>, and the macro \<^verbatim>\<open>TINY_LOG_LEVEL\<close> with the text that is streamed into the event.\<close>

definition LogEventWarp_destroy :: "log_env \<Rightarrow> LogEvent \<Rightarrow> log_state \<Rightarrow> (log_error + log_state) option" where
  "LogEventWarp_destroy env event s = Logger_log env (le_level event) event (le_logger event) s"

definition TINY_LOG_LEVEL :: "log_env \<Rightarrow> LogEvent \<Rightarrow> string \<Rightarrow> log_state \<Rightarrow> (log_error + log_state) option" where
  "TINY_LOG_LEVEL env event t s =
     (if lg_level (ls_loggers s ! le_logger event) \<le> le_level event
      then LogEventWarp_destroy env (event\<lparr>le_ss := le_ss event @ t\<rparr>) s else Some (Inr s))"

definition Logger_setLevel :: "LogLevel \<Rightarrow> nat \<Rightarrow> log_state \<Rightarrow> log_state" where
  "Logger_setLevel level l s = set_logger l (lg_level_update (\<lambda>_. level)) s"

definition Logger_addAppender :: "nat \<Rightarrow> nat \<Rightarrow> log_state \<Rightarrow> log_state" where
  "Logger_addAppender i l s =
     (let s1 = (if la_formatter (ls_appenders s ! i) = None
                then set_appender i (la_formatter_update (\<lambda>_. lg_formatter (ls_loggers s ! l))) s else s)
      in set_logger l (\<lambda>g. g\<lparr>lg_appenders := lg_appenders g @ [i]\<rparr>) s1)"

definition Logger_removeAppender :: "nat \<Rightarrow> nat \<Rightarrow> log_state \<Rightarrow> log_state" where
  "Logger_removeAppender i l s = set_logger l (\<lambda>g. g\<lparr>lg_appenders := remove1 i (lg_appenders g)\<rparr>) s"

definition Logger_clearAppenders :: "nat \<Rightarrow> log_state \<Rightarrow> log_state" where
  "Logger_clearAppenders l s = set_logger l (lg_appenders_update (\<lambda>_. [])) s"

definition Logger_setFormatter :: "LogFormatter option \<Rightarrow> nat \<Rightarrow> log_state \<Rightarrow> log_state" where
  "Logger_setFormatter val l s =
     fold (\<lambda>i s. if la_hasFormatter (ls_appenders s ! i) then s else set_appender i (la_formatter_update (\<lambda>_. val)) s)
       (lg_appenders (ls_loggers s ! l)) (set_logger l (lg_formatter_update (\<lambda>_. val)) s)"

definition Logger_setFormatter_string :: "string \<Rightarrow> nat \<Rightarrow> log_state \<Rightarrow> log_state" where
  "Logger_setFormatter_string fmt l s =
     (let (new_val, out) = LogFormatter_new fmt; s1 = print_console out s in
      if lf_error new_val
      then print_console (''Logger setFormatter name = '' @ lg_name (ls_loggers s ! l) @ '' value = '' @ fmt @ '' invalid formatter'' @ [CHR 0x0A]) s1
      else Logger_setFormatter (Some new_val) l s1)"

section \<open>The manager\<close>

definition LoggerManager_getLogger :: "string \<Rightarrow> log_state \<Rightarrow> nat \<times> log_state" where
  "LoggerManager_getLogger name s =
     (case map_find (<) name (ls_names s) of
        Some l \<Rightarrow> (l, s)
      | None \<Rightarrow>
          let (l, s1) = Logger_new name s; s2 = set_logger l (lg_root_update (\<lambda>_. Some (ls_root s))) s1
          in (l, s2\<lparr>ls_names := map_put (<) name l (ls_names s)\<rparr>))"

definition LoggerManager_new :: log_state where
  "LoggerManager_new =
     (let s0 = \<lparr>ls_loggers = [], ls_appenders = [], ls_names = [], ls_root = 0, ls_console = '''', ls_files = Map.empty\<rparr>;
          (l, s1) = Logger_new ''root'' s0; (i, s2) = ConsoleLog_new s1; s3 = Logger_addAppender i l s2
      in s3\<lparr>ls_root := l, ls_names := map_put (<) (lg_name (ls_loggers s3 ! l)) l (ls_names s3)\<rparr>)"

section \<open>Changes of the configuration\<close>

record LogAppenderDefine =
  ad_type :: int
  ad_level :: LogLevel
  ad_formatter :: string
  ad_file :: string

record LogDefine =
  ld_name :: string
  ld_level :: LogLevel
  ld_formatter :: string
  ld_appenders :: "LogAppenderDefine list"

definition LogAppenderDefine_eq :: "LogAppenderDefine \<Rightarrow> LogAppenderDefine \<Rightarrow> bool" where
  "LogAppenderDefine_eq a b \<longleftrightarrow>
     ad_type a = ad_type b \<and> ad_level a = ad_level b \<and> ad_formatter a = ad_formatter b \<and> ad_file a = ad_file b"

definition LogDefine_eq :: "LogDefine \<Rightarrow> LogDefine \<Rightarrow> bool" where
  "LogDefine_eq a b \<longleftrightarrow> ld_name a = ld_name b \<and> ld_level a = ld_level b \<and> ld_formatter a = ld_formatter b
     \<and> list_all2 LogAppenderDefine_eq (ld_appenders a) (ld_appenders b)"

text \<open>A \<^verbatim>\<open>std::set\<close> of definitions is ordered by name and finds by name.\<close>

definition LogDefine_less :: "LogDefine \<Rightarrow> LogDefine \<Rightarrow> bool" where
  "LogDefine_less a b \<longleftrightarrow> ld_name a < ld_name b"

definition define_find :: "LogDefine \<Rightarrow> LogDefine list \<Rightarrow> LogDefine option" where
  "define_find d ds = find (\<lambda>x. \<not> LogDefine_less x d \<and> \<not> LogDefine_less d x) ds"

text \<open>One appender of a definition. A type other than file and console leaves the pointer null.\<close>

definition config_appender :: "log_env \<Rightarrow> nat \<Rightarrow> LogAppenderDefine \<Rightarrow> log_state \<Rightarrow> log_error + log_state" where
  "config_appender env l ap s =
     (if ad_type ap = 1 \<or> ad_type ap = 2 then
        let (i, s1) = (if ad_type ap = 1 then FileLog_new env (ad_file ap) s else ConsoleLog_new s);
            s2 = LogAppender_setLevel (ad_level ap) i s1;
            s3 = (if ad_formatter ap \<noteq> '''' then
                    let (fmt, out) = LogFormatter_new (ad_formatter ap); s' = print_console out s2 in
                    if \<not> lf_error fmt then LogAppender_setFormatter (Some fmt) i s'
                    else print_console (''appender type = '' @ (if ad_type ap = 1 then ''1'' else ''2'') @ ''formatter '' @ ad_formatter ap
                           @ '' is invalid'' @ [CHR 0x0A]) s'
                  else s2)
        in Inr (Logger_addAppender i l s3)
      else Inl Log_null)"

fun config_appenders :: "log_env \<Rightarrow> nat \<Rightarrow> LogAppenderDefine list \<Rightarrow> log_state \<Rightarrow> log_error + log_state" where
  "config_appenders env l [] s = Inr s"
| "config_appenders env l (ap # aps) s = rbind (config_appender env l ap s) (config_appenders env l aps)"

text \<open>
  One entry of the new value: an entry that is also in the old value, unchanged, leaves the pointer to the logger null, and the
  next statement dereferences it.
\<close>

definition config_entry :: "log_env \<Rightarrow> LogDefine list \<Rightarrow> LogDefine \<Rightarrow> log_state \<Rightarrow> log_error + log_state" where
  "config_entry env old_value item s =
     (if (case define_find item old_value of Some d \<Rightarrow> LogDefine_eq d item | None \<Rightarrow> False) then Inl Log_null
      else
        let (l, s1) = LoggerManager_getLogger (ld_name item) s;
            s2 = Logger_setLevel (ld_level item) l s1;
            s3 = (if ld_formatter item \<noteq> '''' then Logger_setFormatter_string (ld_formatter item) l s2 else s2)
        in config_appenders env l (ld_appenders item) (Logger_clearAppenders l s3))"

fun config_entries :: "log_env \<Rightarrow> LogDefine list \<Rightarrow> LogDefine list \<Rightarrow> log_state \<Rightarrow> log_error + log_state" where
  "config_entries env old_value [] s = Inr s"
| "config_entries env old_value (item # items) s = rbind (config_entry env old_value item s) (config_entries env old_value items)"

definition config_removed :: "LogDefine \<Rightarrow> log_state \<Rightarrow> log_state" where
  "config_removed item s =
     (let (l, s1) = LoggerManager_getLogger (ld_name item) s in Logger_clearAppenders l (Logger_setLevel UNKNOW l s1))"

text \<open>The callback of \<^verbatim>\<open>LogIniter\<close>; \<open>event\<close> is the event of its message to the root logger.\<close>

definition log_config_changed ::
    "log_env \<Rightarrow> LogEvent \<Rightarrow> LogDefine list \<Rightarrow> LogDefine list \<Rightarrow> log_state \<Rightarrow> (log_error + log_state) option" where
  "log_config_changed env event old_value new_value s =
     map_option (\<lambda>r. rbind r (\<lambda>s1. rbind (config_entries env old_value new_value s1) (\<lambda>s2.
       Inr (fold config_removed (filter (\<lambda>item. define_find item new_value = None) old_value) s2))))
       (TINY_LOG_LEVEL env (event\<lparr>le_logger := ls_root s, le_level := INFO\<rparr>) ''ON Log Config Change Event'' s)"

section \<open>Invariant\<close>

interpretation names: keyed_order "(<)" "\<lambda>s :: string. s"
  by unfold_locales simp

definition appender_ready :: "log_state \<Rightarrow> nat \<Rightarrow> bool" where
  "appender_ready s i \<longleftrightarrow> i < length (ls_appenders s) \<and> la_formatter (ls_appenders s ! i) \<noteq> None"

definition logger_ready :: "log_state \<Rightarrow> Logger \<Rightarrow> bool" where
  "logger_ready s g \<longleftrightarrow> lg_formatter g \<noteq> None \<and> (lg_root g = None \<or> lg_root g = Some (ls_root s))
     \<and> (\<forall>i\<in>set (lg_appenders g). appender_ready s i)"

text \<open>
  The root logger has no root, every other logger has the root logger or none; whatever is attached to a logger exists and has a
  formatter; the manager's map leads to the logger of that name.
\<close>

definition log_inv :: "log_state \<Rightarrow> bool" where
  "log_inv s \<longleftrightarrow> ls_root s < length (ls_loggers s) \<and> lg_root (ls_loggers s ! ls_root s) = None
     \<and> (\<forall>g\<in>set (ls_loggers s). logger_ready s g)
     \<and> map_ok (<) (ls_names s) \<and> (\<forall>(n, l)\<in>set (ls_names s). l < length (ls_loggers s) \<and> lg_name (ls_loggers s ! l) = n)"

text \<open>What a call that only writes leaves as it is.\<close>

definition appender_fixed :: "LogAppender \<Rightarrow> appender_kind \<times> LogLevel \<times> LogFormatter option \<times> bool" where
  "appender_fixed a = (la_kind a, la_level a, la_formatter a, la_hasFormatter a)"

definition log_frame :: "log_state \<Rightarrow> log_state \<Rightarrow> bool" where
  "log_frame s s' \<longleftrightarrow> ls_loggers s' = ls_loggers s \<and> ls_names s' = ls_names s \<and> ls_root s' = ls_root s
     \<and> map appender_fixed (ls_appenders s') = map appender_fixed (ls_appenders s)"

lemma log_frame_refl: "log_frame s s"
  by (simp add: log_frame_def)

lemma log_frame_trans: "log_frame s s1 \<Longrightarrow> log_frame s1 s2 \<Longrightarrow> log_frame s s2"
  by (simp add: log_frame_def)

lemma log_frame_nth:
  assumes "log_frame s s'" and "i < length (ls_appenders s)"
  shows "la_kind (ls_appenders s' ! i) = la_kind (ls_appenders s ! i)" "la_level (ls_appenders s' ! i) = la_level (ls_appenders s ! i)"
    "la_formatter (ls_appenders s' ! i) = la_formatter (ls_appenders s ! i)" "i < length (ls_appenders s')"
proof -
  have m: "map appender_fixed (ls_appenders s') = map appender_fixed (ls_appenders s)" using assms(1) by (simp add: log_frame_def)
  have l: "length (ls_appenders s') = length (ls_appenders s)" using arg_cong [OF m, of length] by simp
  have "appender_fixed (ls_appenders s' ! i) = appender_fixed (ls_appenders s ! i)"
    using arg_cong [OF m, of "\<lambda>xs. xs ! i"] assms(2) l by simp
  then show "la_kind (ls_appenders s' ! i) = la_kind (ls_appenders s ! i)" "la_level (ls_appenders s' ! i) = la_level (ls_appenders s ! i)"
    "la_formatter (ls_appenders s' ! i) = la_formatter (ls_appenders s ! i)" "i < length (ls_appenders s')"
    using assms(2) l by (simp_all add: appender_fixed_def)
qed

lemma log_frame_set_appender:
  assumes "\<And>a. appender_fixed (f a) = appender_fixed a"
  shows "map appender_fixed ((ls_appenders s)[i := f (ls_appenders s ! i)]) = map appender_fixed (ls_appenders s)"
  by (cases "i < length (ls_appenders s)") (simp_all add: map_update assms list_update_beyond, metis list_update_id map_update nth_map)

lemma inv_frame:
  assumes "log_inv s" and "ls_loggers s' = ls_loggers s" "ls_names s' = ls_names s" "ls_root s' = ls_root s"
    and "\<And>i. appender_ready s i \<Longrightarrow> appender_ready s' i"
  shows "log_inv s'"
  using assms by (auto simp: log_inv_def logger_ready_def)

lemma log_frame_inv:
  assumes "log_frame s s'" "log_inv s"
  shows "log_inv s'"
proof (rule inv_frame [OF assms(2)])
  show "appender_ready s i \<Longrightarrow> appender_ready s' i" for i using log_frame_nth [OF assms(1)] by (simp add: appender_ready_def)
qed (use assms(1) in \<open>simp_all add: log_frame_def\<close>)

lemma inv_set_logger:
  assumes "log_inv s" and "l < length (ls_loggers s)" and "logger_ready s (f (ls_loggers s ! l))"
    and "lg_root (f (ls_loggers s ! l)) = lg_root (ls_loggers s ! l)" "lg_name (f (ls_loggers s ! l)) = lg_name (ls_loggers s ! l)"
  shows "log_inv (set_logger l f s)"
proof -
  have "logger_ready (set_logger l f s) g \<longleftrightarrow> logger_ready s g" for g
    by (simp add: logger_ready_def appender_ready_def)
  moreover have "\<forall>g\<in>set ((ls_loggers s)[l := f (ls_loggers s ! l)]). logger_ready s g"
    using assms(1,3) set_update_subset_insert [of "ls_loggers s" l] by (fastforce simp: log_inv_def)
  ultimately show ?thesis
    using assms by (auto simp: log_inv_def nth_list_update split: prod.splits)
qed

section \<open>Logging\<close>

lemma reopen_frame: "log_frame s (snd (FileLog_reopen env i s))"
  by (auto simp: FileLog_reopen_def log_frame_def appender_fixed_def [abs_def] split: appender_kind.split
      intro!: log_frame_set_appender [unfolded appender_fixed_def [abs_def]])

lemma put_frame: "log_frame s (FileLog_put name t i s)"
  by (auto simp: FileLog_put_def log_frame_def appender_fixed_def [abs_def] split: option.split
      intro!: log_frame_set_appender [unfolded appender_fixed_def [abs_def]])

lemma lastTime_frame: "log_frame s (set_appender i (la_lastTime_update (\<lambda>_. t)) s)"
  by (auto simp: log_frame_def appender_fixed_def [abs_def] intro!: log_frame_set_appender [unfolded appender_fixed_def [abs_def]])

lemma appender_log_returns:
  assumes "appender_ready s i"
  shows "\<exists>s'. LogAppender_log env level event i s = Inr s' \<and> log_frame s s'"
proof (cases "la_kind (ls_appenders s ! i)")
  case ConsoleLog
  then show ?thesis
    using assms by (auto simp: LogAppender_log_def ConsoleLog_log_def appender_ready_def log_frame_def)
next
  case (FileLog name)
  let ?s1 = "if en_now env \<noteq> la_lastTime (ls_appenders s ! i)
       then set_appender i (la_lastTime_update (\<lambda>_. en_now env)) (snd (FileLog_reopen env i s)) else s"
  have f: "log_frame s ?s1"
    using log_frame_trans [OF reopen_frame lastTime_frame] log_frame_refl by (simp del: fun_upd_apply)
  obtain g where g: "la_formatter (ls_appenders ?s1 ! i) = Some g"
    using log_frame_nth(3) [OF f] assms unfolding appender_ready_def by (metis not_None_eq)
  show ?thesis
  proof (cases "la_level (ls_appenders s ! i) \<le> level")
    case True
    then have "LogAppender_log env level event i s
        = Inr (FileLog_put name (LogFormatter_format (en_strftime env) (logger_name ?s1) level event g) i ?s1)"
      using FileLog g by (simp add: LogAppender_log_def FileLog_log_def Let_def)
    then show ?thesis using log_frame_trans [OF f put_frame] by blast
  next
    case False
    then show ?thesis using FileLog by (simp add: LogAppender_log_def FileLog_log_def log_frame_refl)
  qed
qed

lemma log_each_returns:
  assumes "\<forall>i\<in>set is. appender_ready s i"
  shows "\<exists>s'. log_each env level event is s = Inr s' \<and> log_frame s s'"
  using assms
proof (induction "is" arbitrary: s)
  case Nil
  then show ?case by (simp add: log_frame_refl)
next
  case (Cons i "is")
  then obtain s1 where s1: "LogAppender_log env level event i s = Inr s1" "log_frame s s1"
    using appender_log_returns by (metis list.set_intros(1))
  have "\<forall>j\<in>set is. appender_ready s1 j"
    using Cons.prems log_frame_nth [OF s1(2)] by (auto simp: appender_ready_def)
  from Cons.IH [OF this] obtain s2 where "log_each env level event is s1 = Inr s2" "log_frame s1 s2" by blast
  then show ?case using s1 log_frame_trans by auto
qed

text \<open>The appenders a message of this level reaches: the logger's own, or those of the root logger.\<close>

definition reached_appenders :: "LogLevel \<Rightarrow> nat \<Rightarrow> log_state \<Rightarrow> nat list" where
  "reached_appenders level l s =
     (let g = ls_loggers s ! l in
      if \<not> lg_level g \<le> level then []
      else if lg_appenders g \<noteq> [] then lg_appenders g
      else case lg_root g of
             None \<Rightarrow> []
           | Some r \<Rightarrow> if lg_level (ls_loggers s ! r) \<le> level then lg_appenders (ls_loggers s ! r) else [])"

lemma Logger_log_each:
  assumes "log_inv s" and "l < length (ls_loggers s)"
  shows "Logger_log env level event l s = Some (log_each env level event (reached_appenders level l s) s)"
proof -
  let ?g = "ls_loggers s ! l"
  have "lg_root ?g = None \<or> lg_root ?g = Some (ls_root s)" using assms by (auto simp: log_inv_def logger_ready_def)
  moreover have "lg_root (ls_loggers s ! ls_root s) = None" using assms(1) by (simp add: log_inv_def)
  then have "Logger_log env level event (ls_root s) s = Some (log_each env level event
      (if lg_level (ls_loggers s ! ls_root s) \<le> level then lg_appenders (ls_loggers s ! ls_root s) else []) s)"
    by (subst Logger_log.simps) (simp add: Let_def)
  ultimately show ?thesis
    by (subst Logger_log.simps) (auto simp: reached_appenders_def Let_def)
qed

lemma reached_ready:
  assumes "log_inv s" and "l < length (ls_loggers s)"
  shows "\<forall>i\<in>set (reached_appenders level l s). appender_ready s i"
proof -
  let ?g = "ls_loggers s ! l" and ?r = "ls_loggers s ! ls_root s"
  have "?g \<in> set (ls_loggers s)" "?r \<in> set (ls_loggers s)" using assms by (simp_all add: log_inv_def)
  then have "logger_ready s ?g" "logger_ready s ?r" using assms(1) by (simp_all add: log_inv_def)
  then show ?thesis by (auto simp: reached_appenders_def Let_def logger_ready_def split: option.splits if_splits)
qed

lemma Logger_log_returns:
  assumes "log_inv s" and "l < length (ls_loggers s)"
  shows "\<exists>s'. Logger_log env level event l s = Some (Inr s') \<and> log_frame s s'"
  using log_each_returns [OF reached_ready [OF assms]] Logger_log_each [OF assms] by metis

section \<open>Reachable states\<close>

lemma ready_set_appender:
  assumes "appender_ready s j" and "\<And>a. la_formatter a \<noteq> None \<Longrightarrow> la_formatter (f a) \<noteq> None"
  shows "appender_ready (set_appender i f s) j"
  using assms by (cases "j = i") (auto simp: appender_ready_def)

lemma inv_set_appender:
  assumes "log_inv s" and "\<And>a. la_formatter a \<noteq> None \<Longrightarrow> la_formatter (f a) \<noteq> None"
  shows "log_inv (set_appender i f s)"
  by (rule inv_frame [OF assms(1)]) (simp_all add: ready_set_appender assms(2))

lemma inv_print: "log_inv s \<Longrightarrow> log_inv (print_console t s)"
  by (rule inv_frame [of s]) (simp_all add: appender_ready_def)

lemma inv_new_appender: "log_inv s \<Longrightarrow> log_inv (s\<lparr>ls_appenders := ls_appenders s @ [a]\<rparr>)"
  by (rule inv_frame [of s]) (auto simp: appender_ready_def nth_append)

lemma ConsoleLog_new_inv: "log_inv s \<Longrightarrow> log_inv (snd (ConsoleLog_new s))"
  by (simp add: ConsoleLog_new_def inv_new_appender)

lemma FileLog_new_inv: "log_inv s \<Longrightarrow> log_inv (snd (FileLog_new env name s))"
  by (simp add: FileLog_new_def Let_def log_frame_inv [OF reopen_frame] inv_new_appender)

lemma FileLog_new_fields:
  "fst (FileLog_new env name s) = length (ls_appenders s)" "ls_loggers (snd (FileLog_new env name s)) = ls_loggers s"
  "length (ls_appenders (snd (FileLog_new env name s))) = Suc (length (ls_appenders s))"
proof -
  let ?t = "s\<lparr>ls_appenders := ls_appenders s @ [new_appender (FileLog name)]\<rparr>"
  have f: "log_frame ?t (snd (FileLog_reopen env (length (ls_appenders s)) ?t))" by (rule reopen_frame)
  then show "fst (FileLog_new env name s) = length (ls_appenders s)" "ls_loggers (snd (FileLog_new env name s)) = ls_loggers s"
    by (simp_all add: FileLog_new_def Let_def log_frame_def)
  from f have "map appender_fixed (ls_appenders (snd (FileLog_new env name s))) = map appender_fixed (ls_appenders ?t)"
    by (simp add: FileLog_new_def Let_def log_frame_def)
  from arg_cong [OF this, of length] show "length (ls_appenders (snd (FileLog_new env name s))) = Suc (length (ls_appenders s))" by simp
qed

lemma appender_set_inv:
  "log_inv s \<Longrightarrow> log_inv (LogAppender_setFormatter (Some f) i s)" "log_inv s \<Longrightarrow> log_inv (LogAppender_setLevel level i s)"
  unfolding LogAppender_setFormatter_def LogAppender_setLevel_def by (rule inv_set_appender, simp_all)+

lemma new_logger_ready: "logger_ready s (new_logger name\<lparr>lg_root := Some (ls_root s)\<rparr>)" "logger_ready s (new_logger name)"
  by (simp_all add: logger_ready_def new_logger_def)

lemma inv_add_logger:
  assumes "log_inv s" "logger_ready s g"
  shows "log_inv (s\<lparr>ls_loggers := ls_loggers s @ [g]\<rparr>)"
proof -
  have "logger_ready (s\<lparr>ls_loggers := ls_loggers s @ [g]\<rparr>) x \<longleftrightarrow> logger_ready s x" for x
    by (simp add: logger_ready_def appender_ready_def)
  then show ?thesis using assms by (fastforce simp: log_inv_def nth_append)
qed

lemma getLogger_inv:
  assumes "log_inv s" and "LoggerManager_getLogger name s = (l, s')"
  shows "log_inv s'" "l < length (ls_loggers s')" "lg_name (ls_loggers s' ! l) = name" "ls_appenders s' = ls_appenders s"
    "length (ls_loggers s) \<le> length (ls_loggers s')"
proof -
  let ?new = "new_logger name\<lparr>lg_root := Some (ls_root s)\<rparr>"
  have ok: "map_ok (<) (ls_names s)" using assms(1) by (simp add: log_inv_def)
  have "log_inv s' \<and> l < length (ls_loggers s') \<and> lg_name (ls_loggers s' ! l) = name \<and> ls_appenders s' = ls_appenders s
    \<and> length (ls_loggers s) \<le> length (ls_loggers s')"
  proof (cases "map_find (<) name (ls_names s)")
    case (Some k)
    then have "(name, k) \<in> set (ls_names s)" using names.find_map_of [OF ok, of name] by (auto dest: map_of_SomeD)
    then show ?thesis using assms Some by (auto simp: LoggerManager_getLogger_def log_inv_def)
  next
    case None
    let ?s1 = "s\<lparr>ls_loggers := ls_loggers s @ [?new]\<rparr>"
    have s': "s' = ?s1\<lparr>ls_names := map_put (<) name (length (ls_loggers s)) (ls_names s)\<rparr>" "l = length (ls_loggers s)"
      using assms(2) None by (auto simp: LoggerManager_getLogger_def Logger_new_def list_update_append)
    have "log_inv ?s1" by (intro inv_add_logger assms(1) new_logger_ready)
    moreover have "set (map_put (<) name k m) \<subseteq> insert (name, k) (set m)" for k :: nat and m
      by (induction m) (auto split: if_splits)
    then have "\<forall>(n, k)\<in>set (ls_names s'). k < length (ls_loggers s') \<and> lg_name (ls_loggers s' ! k) = n"
      using assms(1) by (fastforce simp: s' log_inv_def nth_append new_logger_def)
    ultimately have "log_inv s'" using names.put_ok [OF ok] by (simp add: s' log_inv_def logger_ready_def appender_ready_def)
    then show ?thesis by (simp add: s' new_logger_def)
  qed
  then show "log_inv s'" "l < length (ls_loggers s')" "lg_name (ls_loggers s' ! l) = name" "ls_appenders s' = ls_appenders s"
    "length (ls_loggers s) \<le> length (ls_loggers s')" by simp_all
qed

lemma Logger_addAppender_inv:
  assumes "log_inv s" and "l < length (ls_loggers s)" and "i < length (ls_appenders s)"
  shows "log_inv (Logger_addAppender i l s)"
proof -
  let ?s1 = "if la_formatter (ls_appenders s ! i) = None
      then set_appender i (la_formatter_update (\<lambda>_. lg_formatter (ls_loggers s ! l))) s else s"
  have g: "logger_ready s (ls_loggers s ! l)" using assms(1,2) by (simp add: log_inv_def)
  have inv: "log_inv ?s1" using assms(1) g inv_set_appender [of s "la_formatter_update (\<lambda>_. lg_formatter (ls_loggers s ! l))" i]
    by (simp add: logger_ready_def)
  have i: "appender_ready ?s1 i" using g assms(3) by (auto simp: appender_ready_def logger_ready_def)
  have l: "ls_loggers ?s1 = ls_loggers s" by simp
  have "logger_ready ?s1 (ls_loggers ?s1 ! l)" using inv assms(2) l by (simp add: log_inv_def)
  with i have "logger_ready ?s1 ((ls_loggers ?s1 ! l)\<lparr>lg_appenders := lg_appenders (ls_loggers ?s1 ! l) @ [i]\<rparr>)"
    unfolding logger_ready_def by (simp split del: if_split)
  then show ?thesis unfolding Logger_addAppender_def Let_def using inv assms(2) by (intro inv_set_logger) simp_all
qed

lemma Logger_change_inv:
  assumes "log_inv s" and "l < length (ls_loggers s)"
  shows "log_inv (Logger_removeAppender i l s)" "log_inv (Logger_clearAppenders l s)" "log_inv (Logger_setLevel level l s)"
proof -
  have g: "logger_ready s (ls_loggers s ! l)" using assms by (simp add: log_inv_def)
  then show "log_inv (Logger_removeAppender i l s)" "log_inv (Logger_clearAppenders l s)" "log_inv (Logger_setLevel level l s)"
    unfolding Logger_removeAppender_def Logger_clearAppenders_def Logger_setLevel_def
    by (intro inv_set_logger assms; auto simp: logger_ready_def dest: notin_set_remove1)+
qed

lemma set_formatter_inv: "log_inv t \<Longrightarrow> log_inv (set_appender i (la_formatter_update (\<lambda>_. Some f)) t)"
  by (rule inv_set_appender) simp_all

lemma TINY_LOG_returns:
  assumes "log_inv s" and "le_logger event < length (ls_loggers s)"
  shows "\<exists>s'. TINY_LOG_LEVEL env event t s = Some (Inr s') \<and> log_frame s s'"
  using Logger_log_returns [OF assms, of env "le_level event" "event\<lparr>le_ss := le_ss event @ t\<rparr>"]
  by (auto simp: TINY_LOG_LEVEL_def LogEventWarp_destroy_def log_frame_refl)

lemma Logger_setFormatter_inv:
  assumes "log_inv s" and "l < length (ls_loggers s)"
  shows "log_inv (Logger_setFormatter (Some f) l s)"
proof -
  have "log_inv (set_logger l (lg_formatter_update (\<lambda>_. Some f)) s)"
    using assms by (intro inv_set_logger) (auto simp: log_inv_def logger_ready_def)
  moreover have "log_inv (fold (\<lambda>i s. if la_hasFormatter (ls_appenders s ! i) then s
      else set_appender i (la_formatter_update (\<lambda>_. Some f)) s) is t)" if "log_inv t" for "is" t
    using that by (induction "is" arbitrary: t) (simp_all add: set_formatter_inv)
  ultimately show ?thesis by (simp add: Logger_setFormatter_def)
qed

lemma Logger_setFormatter_string_inv:
  assumes "log_inv s" and "l < length (ls_loggers s)"
  shows "log_inv (Logger_setFormatter_string fmt l s)"
  using assms by (auto simp: Logger_setFormatter_string_def Let_def split: prod.split intro!: inv_print Logger_setFormatter_inv)

lemma setFormatter_lengths:
  "length (ls_loggers (Logger_setFormatter_string fmt l s)) = length (ls_loggers s)"
  "length (ls_appenders (Logger_setFormatter_string fmt l s)) = length (ls_appenders s)"
proof -
  have "length (ls_loggers (fold (\<lambda>i s. if la_hasFormatter (ls_appenders s ! i) then s
      else set_appender i (la_formatter_update (\<lambda>_. v)) s) is t)) = length (ls_loggers t)
    \<and> length (ls_appenders (fold (\<lambda>i s. if la_hasFormatter (ls_appenders s ! i) then s
      else set_appender i (la_formatter_update (\<lambda>_. v)) s) is t)) = length (ls_appenders t)" for v "is" t
    by (induction "is" arbitrary: t) auto
  then show "length (ls_loggers (Logger_setFormatter_string fmt l s)) = length (ls_loggers s)"
    "length (ls_appenders (Logger_setFormatter_string fmt l s)) = length (ls_appenders s)"
    by (auto simp: Logger_setFormatter_string_def Logger_setFormatter_def Let_def split: prod.split)
qed

lemma config_appender_inv:
  assumes "config_appender env l ap s = Inr s'" and "log_inv s" "l < length (ls_loggers s)"
  shows "log_inv s' \<and> length (ls_loggers s') = length (ls_loggers s)"
proof -
  let ?new = "if ad_type ap = 1 then FileLog_new env (ad_file ap) s else ConsoleLog_new s"
  obtain i s1 where n: "?new = (i, s1)" by fastforce
  have s1: "log_inv s1" "ls_loggers s1 = ls_loggers s" "i < length (ls_appenders s1)"
    using FileLog_new_inv [OF assms(2), of env "ad_file ap"] ConsoleLog_new_inv [OF assms(2)] n FileLog_new_fields [of env "ad_file ap" s]
    by (auto simp: ConsoleLog_new_def split: if_splits)
  let ?s2 = "LogAppender_setLevel (ad_level ap) i s1"
  have s2: "log_inv ?s2" "ls_loggers ?s2 = ls_loggers s" "i < length (ls_appenders ?s2)"
    using appender_set_inv(2) [OF s1(1)] s1(2,3) by (simp_all add: LogAppender_setLevel_def)
  obtain fmt out where f: "LogFormatter_new (ad_formatter ap) = (fmt, out)" by fastforce
  define s3 where "s3 = (if ad_formatter ap \<noteq> '''' then
      if \<not> lf_error fmt then LogAppender_setFormatter (Some fmt) i (print_console out ?s2)
      else print_console (''appender type = '' @ (if ad_type ap = 1 then ''1'' else ''2'') @ ''formatter '' @ ad_formatter ap
             @ '' is invalid'' @ [CHR 0x0A]) (print_console out ?s2) else ?s2)"
  have "log_inv s3" "ls_loggers s3 = ls_loggers s" "i < length (ls_appenders s3)"
    using s2 appender_set_inv(1) [OF inv_print [OF s2(1)]] inv_print
    by (simp_all add: s3_def) (simp_all add: LogAppender_setFormatter_def)
  moreover from this have "s' = Logger_addAppender i l s3"
    using assms(1) n f by (auto simp: config_appender_def Let_def s3_def split: if_splits)
  ultimately show ?thesis using Logger_addAppender_inv [of s3 l i] assms(3) by (simp add: Logger_addAppender_def Let_def)
qed

lemma config_appenders_inv:
  "config_appenders env l aps s = Inr s' \<Longrightarrow> log_inv s \<Longrightarrow> l < length (ls_loggers s) \<Longrightarrow>
    log_inv s' \<and> length (ls_loggers s') = length (ls_loggers s)"
  by (induction aps arbitrary: s) (auto simp: rbind_eq_Inr_iff dest: config_appender_inv)

lemma config_entry_inv:
  assumes "config_entry env old item s = Inr s'" and "log_inv s"
  shows "log_inv s' \<and> length (ls_loggers s) \<le> length (ls_loggers s')"
proof -
  obtain l s1 where g: "LoggerManager_getLogger (ld_name item) s = (l, s1)" by fastforce
  note g' = getLogger_inv [OF assms(2) g]
  let ?s2 = "Logger_setLevel (ld_level item) l s1"
  let ?s3 = "if ld_formatter item \<noteq> '''' then Logger_setFormatter_string (ld_formatter item) l ?s2 else ?s2"
  have s2: "log_inv ?s2" "length (ls_loggers ?s2) = length (ls_loggers s1)"
    using Logger_change_inv(3) [OF g'(1,2)] by (simp_all add: Logger_setLevel_def)
  have s3: "log_inv ?s3" "length (ls_loggers ?s3) = length (ls_loggers s1)"
    using s2 Logger_setFormatter_string_inv [OF s2(1)] g'(2) by (simp_all add: setFormatter_lengths)
  have "config_appenders env l (ld_appenders item) (Logger_clearAppenders l ?s3) = Inr s'"
    using assms(1) g by (simp add: config_entry_def Let_def split: if_splits)
  moreover have "log_inv (Logger_clearAppenders l ?s3)" "length (ls_loggers (Logger_clearAppenders l ?s3)) = length (ls_loggers s1)"
    using Logger_change_inv(2) [OF s3(1)] s3(2) g'(2) by (simp_all add: Logger_clearAppenders_def)
  ultimately show ?thesis using config_appenders_inv g'(2,5) by fastforce
qed

lemma config_entries_inv: "config_entries env old items s = Inr s' \<Longrightarrow> log_inv s \<Longrightarrow> log_inv s'"
  by (induction items arbitrary: s) (auto simp: rbind_eq_Inr_iff dest: config_entry_inv)

lemma config_removed_inv: "log_inv s \<Longrightarrow> log_inv (config_removed item s)"
  using getLogger_inv Logger_change_inv by (fastforce simp: config_removed_def Let_def Logger_setLevel_def split: prod.split)

lemma log_config_changed_inv:
  assumes "log_config_changed env event old new s = Some (Inr s')" and "log_inv s"
  shows "log_inv s'"
proof -
  have "ls_root s < length (ls_loggers s)" using assms(2) by (simp add: log_inv_def)
  then obtain s1 where s1: "TINY_LOG_LEVEL env (event\<lparr>le_logger := ls_root s, le_level := INFO\<rparr>) ''ON Log Config Change Event'' s = Some (Inr s1)"
      "log_inv s1"
    using TINY_LOG_returns [OF assms(2), of "event\<lparr>le_logger := ls_root s, le_level := INFO\<rparr>" env "''ON Log Config Change Event''"]
      log_frame_inv [OF _ assms(2)] by auto
  then obtain s2 where s2: "config_entries env old new s1 = Inr s2"
      "s' = fold config_removed (filter (\<lambda>item. define_find item new = None) old) s2"
    using assms(1) by (auto simp: log_config_changed_def rbind_eq_Inr_iff)
  have "log_inv (fold config_removed ds t)" if "log_inv t" for ds t
    using that by (induction ds arbitrary: t) (auto intro: config_removed_inv)
  then show ?thesis using config_entries_inv [OF s2(1) s1(2)] by (simp add: s2(2))
qed

text \<open>
  Everything the program does with loggers: it asks the manager for them, makes loggers and appenders of its own, attaches and detaches
  them, sets levels and formatters, logs, and changes the configuration.
\<close>

inductive log_step :: "log_state \<Rightarrow> log_state \<Rightarrow> bool" where
  l_get: "log_step s (snd (LoggerManager_getLogger name s))"
| l_logger: "log_step s (snd (Logger_new name s))"
| l_console: "log_step s (snd (ConsoleLog_new s))"
| l_file: "log_step s (snd (FileLog_new env name s))"
| l_add: "i < length (ls_appenders s) \<Longrightarrow> l < length (ls_loggers s) \<Longrightarrow> log_step s (Logger_addAppender i l s)"
| l_remove: "l < length (ls_loggers s) \<Longrightarrow> log_step s (Logger_removeAppender i l s)"
| l_clear: "l < length (ls_loggers s) \<Longrightarrow> log_step s (Logger_clearAppenders l s)"
| l_level: "l < length (ls_loggers s) \<Longrightarrow> log_step s (Logger_setLevel level l s)"
| l_appender_level: "log_step s (LogAppender_setLevel level i s)"
| l_appender_formatter: "log_step s (LogAppender_setFormatter (Some f) i s)"
| l_formatter: "l < length (ls_loggers s) \<Longrightarrow> log_step s (Logger_setFormatter (Some f) l s)"
| l_pattern: "l < length (ls_loggers s) \<Longrightarrow> log_step s (Logger_setFormatter_string fmt l s)"
| l_log: "l < length (ls_loggers s) \<Longrightarrow> Logger_log env level event l s = Some (Inr s') \<Longrightarrow> log_step s s'"
| l_config: "log_config_changed env event old new s = Some (Inr s') \<Longrightarrow> log_step s s'"

lemma log_step_inv: "log_step s s' \<Longrightarrow> log_inv s \<Longrightarrow> log_inv s'"
proof (induction rule: log_step.induct)
  case (l_get s name)
  then show ?case using getLogger_inv(1) by (metis prod.collapse)
next
  case (l_logger s name)
  then show ?case by (simp add: Logger_new_def inv_add_logger new_logger_ready)
next
  case (l_log l s env level event s')
  then show ?case using Logger_log_returns [OF l_log(3,1)] log_frame_inv by (metis option.inject sum.inject(2))
qed (simp_all add: ConsoleLog_new_inv FileLog_new_inv Logger_addAppender_inv Logger_change_inv appender_set_inv
       Logger_setFormatter_inv Logger_setFormatter_string_inv log_config_changed_inv)

lemma LoggerManager_new_inv: "log_inv LoggerManager_new"
  by (simp add: LoggerManager_new_def Logger_new_def ConsoleLog_new_def Logger_addAppender_def new_appender_def new_logger_def Let_def
      log_inv_def logger_ready_def appender_ready_def map_ok_def)

lemma log_reach_inv: "log_step\<^sup>*\<^sup>* LoggerManager_new s \<Longrightarrow> log_inv s"
  by (induction rule: rtranclp_induct) (auto simp: LoggerManager_new_inv intro: log_step_inv)

text \<open>What a message becomes on an appender.\<close>

definition appender_line :: "log_env \<Rightarrow> LogLevel \<Rightarrow> LogEvent \<Rightarrow> log_state \<Rightarrow> nat \<Rightarrow> string" where
  "appender_line env level event s i =
     (case la_formatter (ls_appenders s ! i) of
        Some f \<Rightarrow> LogFormatter_format (en_strftime env) (logger_name s) level event f | None \<Rightarrow> '''')"

definition on_console :: "LogLevel \<Rightarrow> log_state \<Rightarrow> nat \<Rightarrow> bool" where
  "on_console level s i \<longleftrightarrow> la_kind (ls_appenders s ! i) = ConsoleLog \<and> la_level (ls_appenders s ! i) \<le> level"

lemma reopen_console: "ls_console (snd (FileLog_reopen env i s)) = ls_console s"
  by (simp add: FileLog_reopen_def split: appender_kind.split)

lemma put_console: "ls_console (FileLog_put name t i s) = ls_console s"
  by (simp add: FileLog_put_def split: option.split)

lemma appender_log_console:
  assumes "LogAppender_log env level event i s = Inr s'" "appender_ready s i"
  shows "ls_console s' = ls_console s @ (if on_console level s i then appender_line env level event s i else '''')"
  using assms
  by (auto simp: LogAppender_log_def ConsoleLog_log_def FileLog_log_def on_console_def appender_line_def Let_def appender_ready_def
      put_console reopen_console split: appender_kind.splits if_splits option.splits)

lemma log_each_console:
  assumes "\<forall>i\<in>set is. appender_ready s i" and "log_each env level event is s = Inr s'"
  shows "ls_console s' = ls_console s @ concat (map (appender_line env level event s) (filter (on_console level s) is))"
  using assms
proof (induction "is" arbitrary: s)
  case (Cons i "is")
  obtain s1 where s1: "LogAppender_log env level event i s = Inr s1" "log_each env level event is s1 = Inr s'"
    using Cons.prems(2) by (auto simp: rbind_eq_Inr_iff)
  have f: "log_frame s s1" using appender_log_returns [of s i env level event] Cons.prems(1) s1(1) by auto
  have j: "appender_ready s1 j" "on_console level s1 j = on_console level s j" "appender_line env level event s1 j = appender_line env level event s j"
    if "j \<in> set is" for j
  proof -
    have r: "appender_ready s j" using that Cons.prems(1) by simp
    then have "j < length (ls_appenders s)" by (simp add: appender_ready_def)
    note n = log_frame_nth [OF f this]
    have "ls_loggers s1 = ls_loggers s" using f by (simp add: log_frame_def)
    then show "appender_ready s1 j" "on_console level s1 j = on_console level s j" "appender_line env level event s1 j = appender_line env level event s j"
      using n r by (simp_all add: appender_ready_def on_console_def appender_line_def cong: option.case_cong)
  qed
  have "filter (on_console level s1) is = filter (on_console level s) is" using j(2) by (intro filter_cong) auto
  moreover have "concat (map (appender_line env level event s1) (filter (on_console level s) is))
      = concat (map (appender_line env level event s) (filter (on_console level s) is))"
    using j(3) by (metis (mono_tags, lifting) filter_is_subset map_eq_conv subsetD)
  ultimately show ?case
    using Cons.IH [of s1] j(1) s1 appender_log_console [OF s1(1)] Cons.prems(1) by auto
qed simp

text \<open>
  (C19) Logging always works. In every state that the operations on loggers can lead to, a call of \<^verbatim>\<open>Logger::log\<close> on an existing logger returns
  and dereferences no null pointer: the chain to the root logger ends and every attached appender has a formatter. The console shows the
  message once for each console appender it reaches whose level admits it, in their order and in their format; it reaches the logger's own
  appenders, or those of the root logger when there are none, provided the levels of the loggers on the way admit it.
\<close>

theorem logging_never_fails:
  assumes "log_step\<^sup>*\<^sup>* LoggerManager_new s" and "l < length (ls_loggers s)"
  shows "\<exists>s'. Logger_log env level event l s = Some (Inr s')
    \<and> ls_console s' = ls_console s
        @ concat (map (appender_line env level event s) (filter (on_console level s) (reached_appenders level l s)))"
proof -
  note inv = log_reach_inv [OF assms(1)]
  obtain s' where "log_each env level event (reached_appenders level l s) s = Inr s'"
    using log_each_returns [OF reached_ready [OF inv assms(2)]] by blast
  then show ?thesis
    using log_each_console [OF reached_ready [OF inv assms(2)]] Logger_log_each [OF inv assms(2)] by auto
qed

theorem logging_never_fails_witness:
  "\<forall>env event. \<exists>s'. Logger_log env DEBUG event 0 LoggerManager_new = Some (Inr s') \<and> ls_console s' = appender_line env DEBUG event LoggerManager_new 0"
proof (intro allI)
  fix env event
  have "length (ls_loggers LoggerManager_new) = 1" "reached_appenders DEBUG 0 LoggerManager_new = [0]" "on_console DEBUG LoggerManager_new 0"
      "ls_console LoggerManager_new = ''''"
    by (simp_all add: LoggerManager_new_def Logger_new_def ConsoleLog_new_def Logger_addAppender_def new_appender_def new_logger_def Let_def
        reached_appenders_def on_console_def)
  then show "\<exists>s'. Logger_log env DEBUG event 0 LoggerManager_new = Some (Inr s') \<and> ls_console s' = appender_line env DEBUG event LoggerManager_new 0"
    using logging_never_fails [of LoggerManager_new 0 env DEBUG event] by simp
qed

section \<open>Files\<close>

lemma file_write_end: "file_write (length c) t c = c @ t"
  by (simp add: file_write_def)

text \<open>
  A file appender keeps only the messages of the last second. When the clock shows another second than at the appender's last message, the
  file is emptied before the message is written; only messages within one second are appended. What was
  logged before is lost, although the file is opened again just to survive its removal.
\<close>

theorem file_log_truncates:
  assumes "appender_ready s i" and "la_kind (ls_appenders s ! i) = FileLog name" and "la_level (ls_appenders s ! i) \<le> level"
    and "en_open env name"
  shows "\<exists>s'. LogAppender_log env level event i s = Inr s'
    \<and> (en_now env \<noteq> la_lastTime (ls_appenders s ! i) \<longrightarrow> ls_files s' name = Some (appender_line env level event s i))
    \<and> (en_now env = la_lastTime (ls_appenders s ! i) \<and> ls_files s name = Some c \<and> la_stream (ls_appenders s ! i) = Some (length c)
        \<longrightarrow> ls_files s' name = Some (c @ appender_line env level event s i))"
proof -
  obtain f where f: "la_formatter (ls_appenders s ! i) = Some f" and i: "i < length (ls_appenders s)"
    using assms(1) by (auto simp: appender_ready_def)
  show ?thesis
  proof (cases "en_now env = la_lastTime (ls_appenders s ! i)")
    case True
    then show ?thesis
      using f i assms(2,3)
      by (auto simp: LogAppender_log_def FileLog_log_def FileLog_put_def appender_line_def file_write_end split: option.split)
  next
    case False
    then show ?thesis
      using f i assms(2-4)
      by (auto simp: LogAppender_log_def FileLog_log_def FileLog_put_def FileLog_reopen_def appender_line_def Let_def file_write_def)
  qed
qed

definition file_state :: log_state where
  "file_state = LoggerManager_new\<lparr>ls_appenders := [(new_appender (FileLog ''x.log''))
     \<lparr>la_formatter := Some \<lparr>lf_pattern = ''%m'', lf_items = [MessageFormatItem], lf_error = False\<rparr>, la_lastTime := 6, la_stream := Some 3\<rparr>],
     ls_files := [''x.log'' \<mapsto> ''old'']\<rparr>"

theorem file_log_truncates_witness:
  "\<exists>s'. LogAppender_log \<lparr>en_strftime = \<lambda>_ _. '''', en_now = 7, en_open = \<lambda>_. True\<rparr> INFO
      ((LogEvent_new 0 INFO ''a.cpp'' 1 0 0 0 ''main'' 0)\<lparr>le_ss := ''new''\<rparr>) 0 file_state = Inr s' \<and> ls_files s' ''x.log'' = Some ''new''"
  using file_log_truncates [of file_state 0 "''x.log''" INFO "\<lparr>en_strftime = \<lambda>_ _. '''', en_now = 7, en_open = \<lambda>_. True\<rparr>"
      "(LogEvent_new 0 INFO ''a.cpp'' 1 0 0 0 ''main'' 0)\<lparr>le_ss := ''new''\<rparr>"]
  by (auto simp: file_state_def new_appender_def appender_ready_def less_eq_LogLevel_def appender_line_def LogFormatter_format_def)

section \<open>Configuration\<close>

lemma config_entry_error: "config_entry env old item s = Inl e \<Longrightarrow> e = Log_null"
  by (cases e) simp

lemma config_unchanged_fails:
  assumes "item \<in> set items" "define_find item old = Some d" "LogDefine_eq d item"
  shows "config_entries env old items s = Inl Log_null"
  using assms(1)
proof (induction items arbitrary: s)
  case (Cons x items)
  show ?case
  proof (cases "x = item")
    case True
    then show ?thesis using assms(2,3) by (simp add: config_entry_def)
  next
    case False
    then have "item \<in> set items" using Cons.prems by simp
    then show ?thesis
      using Cons.IH by (cases "config_entry env old x s") (auto dest: config_entry_error)
  qed
qed simp

text \<open>
  A change of the log configuration that leaves the entry of one logger as it is crashes the program: the callback
  has no logger for an unchanged entry, and dereferences the null pointer.
\<close>

theorem unchanged_logger_crashes:
  assumes "log_step\<^sup>*\<^sup>* LoggerManager_new s" and "item \<in> set new_value" and "define_find item old_value = Some d" and "LogDefine_eq d item"
  shows "log_config_changed env event old_value new_value s = Some (Inl Log_null)"
proof -
  note inv = log_reach_inv [OF assms(1)]
  obtain s1 where "TINY_LOG_LEVEL env (event\<lparr>le_logger := ls_root s, le_level := INFO\<rparr>) ''ON Log Config Change Event'' s = Some (Inr s1)"
    using TINY_LOG_returns [OF inv, of "event\<lparr>le_logger := ls_root s, le_level := INFO\<rparr>" env "''ON Log Config Change Event''"] inv
    by (auto simp: log_inv_def)
  then show ?thesis using config_unchanged_fails [OF assms(2-4)] by (simp add: log_config_changed_def)
qed

definition sample_define :: "string \<Rightarrow> LogDefine" where
  "sample_define name = \<lparr>ld_name = name, ld_level = INFO, ld_formatter = '''', ld_appenders = []\<rparr>"

theorem unchanged_logger_crashes_witness:
  "\<forall>env event. log_config_changed env event [sample_define ''a''] [sample_define ''a'', sample_define ''b''] LoggerManager_new
     = Some (Inl Log_null)"
proof (intro allI)
  fix env event
  have "define_find (sample_define ''a'') [sample_define ''a''] = Some (sample_define ''a'')" "LogDefine_eq (sample_define ''a'') (sample_define ''a'')"
    by (simp_all add: define_find_def LogDefine_less_def LogDefine_eq_def sample_define_def)
  from unchanged_logger_crashes [OF _ _ this, of LoggerManager_new "[sample_define ''a'', sample_define ''b'']" env event]
  show "log_config_changed env event [sample_define ''a''] [sample_define ''a'', sample_define ''b''] LoggerManager_new = Some (Inl Log_null)"
    by simp
qed

text \<open>What one logger's configuration leaves alone: the other loggers and the kinds and levels of existing appenders.\<close>

definition seen :: "log_state \<Rightarrow> nat \<Rightarrow> appender_kind \<times> LogLevel" where
  "seen s i = (la_kind (ls_appenders s ! i), la_level (ls_appenders s ! i))"

definition setup_of :: "log_state \<Rightarrow> nat \<Rightarrow> LogLevel \<times> nat list" where
  "setup_of s l = (lg_level (ls_loggers s ! l), lg_appenders (ls_loggers s ! l))"

definition touches :: "nat set \<Rightarrow> log_state \<Rightarrow> log_state \<Rightarrow> bool" where
  "touches L s s' \<longleftrightarrow> length (ls_loggers s) \<le> length (ls_loggers s') \<and> length (ls_appenders s) \<le> length (ls_appenders s')
     \<and> (\<forall>i<length (ls_appenders s). seen s' i = seen s i) \<and> (\<forall>k<length (ls_loggers s). k \<notin> L \<longrightarrow> setup_of s' k = setup_of s k)"

lemma touches_trans: "touches L s s1 \<Longrightarrow> touches M s1 s2 \<Longrightarrow> L \<union> M \<subseteq> N \<Longrightarrow> touches N s s2"
  unfolding touches_def by (metis (full_types) UnI1 UnI2 order_less_le_trans order_trans subsetD)

lemma touches_refl: "touches L s s"
  by (simp add: touches_def)

lemma touches_setLevel: "touches {l} s (Logger_setLevel v l s)" "touches {l} s (Logger_clearAppenders l s)"
  by (simp_all add: touches_def Logger_setLevel_def Logger_clearAppenders_def seen_def setup_of_def)

lemma touches_set_formatters:
  "touches {} t (fold (\<lambda>i s. if la_hasFormatter (ls_appenders s ! i) then s
      else set_appender i (la_formatter_update (\<lambda>_. v)) s) is t) \<and> ls_names (fold (\<lambda>i s. if la_hasFormatter (ls_appenders s ! i) then s
      else set_appender i (la_formatter_update (\<lambda>_. v)) s) is t) = ls_names t"
proof (induction "is" arbitrary: t)
  case (Cons i "is")
  have "touches {} t (set_appender i (la_formatter_update (\<lambda>_. v)) t)"
    by (cases "i < length (ls_appenders t)") (auto simp: touches_def seen_def setup_of_def nth_list_update list_update_beyond)
  then show ?case
    using Cons.IH [of t] Cons.IH [of "set_appender i (la_formatter_update (\<lambda>_. v)) t"]
      touches_trans [of "{}" t "set_appender i (la_formatter_update (\<lambda>_. v)) t" "{}"] by auto
qed (simp add: touches_refl)

lemma touches_setFormatter: "touches {} s (Logger_setFormatter_string fmt l s) \<and> ls_names (Logger_setFormatter_string fmt l s) = ls_names s"
proof -
  obtain f out where f: "LogFormatter_new fmt = (f, out)" by fastforce
  let ?t = "set_logger l (lg_formatter_update (\<lambda>_. Some f)) (print_console out s)"
  have t: "touches {} s ?t"
    by (cases "l < length (ls_loggers s)") (auto simp: touches_def seen_def setup_of_def nth_list_update list_update_beyond)
  show ?thesis
  proof (cases "lf_error f")
    case True
    then show ?thesis by (simp add: Logger_setFormatter_string_def f touches_def seen_def setup_of_def)
  next
    case False
    then show ?thesis
      using touches_trans [OF t, of "{}" _ "{}"] touches_set_formatters [of ?t "Some f" "lg_appenders (ls_loggers s ! l)"]
      by (simp add: Logger_setFormatter_string_def Logger_setFormatter_def f)
  qed
qed

definition define_kind :: "LogAppenderDefine \<Rightarrow> appender_kind \<times> LogLevel" where
  "define_kind ap = (if ad_type ap = 1 then FileLog (ad_file ap) else ConsoleLog, ad_level ap)"

lemma new_appender_seen:
  assumes "(if ad_type ap = 1 then FileLog_new env (ad_file ap) s else ConsoleLog_new s) = (i, s1)"
  shows "i = length (ls_appenders s)" "length (ls_appenders s1) = Suc i" "ls_loggers s1 = ls_loggers s" "ls_names s1 = ls_names s"
    "fst (seen s1 i) = fst (define_kind ap)" "\<forall>k<i. seen s1 k = seen s k"
proof -
  have "i = length (ls_appenders s) \<and> length (ls_appenders s1) = Suc i \<and> ls_loggers s1 = ls_loggers s \<and> ls_names s1 = ls_names s
    \<and> fst (seen s1 i) = fst (define_kind ap) \<and> (\<forall>k<i. seen s1 k = seen s k)"
    using assms
    by (auto simp: FileLog_new_def ConsoleLog_new_def FileLog_reopen_def new_appender_def Let_def seen_def define_kind_def nth_append
        list_update_append split: if_splits)
  then show "i = length (ls_appenders s)" "length (ls_appenders s1) = Suc i" "ls_loggers s1 = ls_loggers s" "ls_names s1 = ls_names s"
    "fst (seen s1 i) = fst (define_kind ap)" "\<forall>k<i. seen s1 k = seen s k" by blast+
qed

lemma config_appender_spec:
  assumes "config_appender env l ap s = Inr s'" and "l < length (ls_loggers s)"
  shows "touches {l} s s' \<and> ls_names s' = ls_names s \<and> length (ls_loggers s') = length (ls_loggers s)
    \<and> (\<exists>i. setup_of s' l = (fst (setup_of s l), snd (setup_of s l) @ [i]) \<and> i < length (ls_appenders s') \<and> seen s' i = define_kind ap)"
proof -
  obtain i s1 where n: "(if ad_type ap = 1 then FileLog_new env (ad_file ap) s else ConsoleLog_new s) = (i, s1)" by fastforce
  note s1 = new_appender_seen [OF n]
  let ?s2 = "LogAppender_setLevel (ad_level ap) i s1"
  obtain fmt out where f: "LogFormatter_new (ad_formatter ap) = (fmt, out)" by fastforce
  define s3 where "s3 = (if ad_formatter ap \<noteq> '''' then
      if \<not> lf_error fmt then LogAppender_setFormatter (Some fmt) i (print_console out ?s2)
      else print_console (''appender type = '' @ (if ad_type ap = 1 then ''1'' else ''2'') @ ''formatter '' @ ad_formatter ap
             @ '' is invalid'' @ [CHR 0x0A]) (print_console out ?s2) else ?s2)"
  have s': "s' = Logger_addAppender i l s3"
    using assms(1) n f by (auto simp: config_appender_def Let_def s3_def split: if_splits)
  have s3: "ls_loggers s3 = ls_loggers s" "ls_names s3 = ls_names s" "length (ls_appenders s3) = Suc i" "seen s3 i = define_kind ap"
      "\<forall>k<i. seen s3 k = seen s k"
    using s1 by (simp_all add: s3_def LogAppender_setFormatter_def LogAppender_setLevel_def seen_def define_kind_def)
  have "setup_of s' l = (fst (setup_of s l), snd (setup_of s l) @ [i])" "ls_names s' = ls_names s"
      "length (ls_loggers s') = length (ls_loggers s)" "length (ls_appenders s') = Suc i" "seen s' k = seen s3 k"
      "k \<noteq> l \<Longrightarrow> setup_of s' k = setup_of s k" for k
    using s3 assms(2) by (auto simp: s' Logger_addAppender_def setup_of_def seen_def Let_def nth_list_update)
  then show ?thesis using s3 s1(1) by (auto simp: touches_def)
qed

lemma config_appenders_spec:
  assumes "config_appenders env l aps s = Inr s'" and "l < length (ls_loggers s)"
  shows "touches {l} s s' \<and> ls_names s' = ls_names s \<and> length (ls_loggers s') = length (ls_loggers s)
    \<and> (\<exists>is. setup_of s' l = (fst (setup_of s l), snd (setup_of s l) @ is) \<and> (\<forall>i\<in>set is. i < length (ls_appenders s'))
          \<and> map (seen s') is = map define_kind aps)"
  using assms
proof (induction aps arbitrary: s)
  case Nil
  then show ?case by (simp add: touches_refl)
next
  case (Cons ap aps)
  obtain s1 where s1: "config_appender env l ap s = Inr s1" "config_appenders env l aps s1 = Inr s'"
    using Cons.prems(1) by (auto simp: rbind_eq_Inr_iff)
  note one = config_appender_spec [OF s1(1) Cons.prems(2)]
  then obtain i where i: "setup_of s1 l = (fst (setup_of s l), snd (setup_of s l) @ [i])" "i < length (ls_appenders s1)" "seen s1 i = define_kind ap"
    by blast
  have rest: "touches {l} s1 s'" "ls_names s' = ls_names s1" "length (ls_loggers s') = length (ls_loggers s1)"
      "\<exists>is. setup_of s' l = (fst (setup_of s1 l), snd (setup_of s1 l) @ is) \<and> (\<forall>i\<in>set is. i < length (ls_appenders s'))
          \<and> map (seen s') is = map define_kind aps"
    using Cons.IH [OF s1(2)] one Cons.prems(2) by auto
  then obtain "is" where ix: "setup_of s' l = (fst (setup_of s l), snd (setup_of s l) @ i # is)" "\<forall>j\<in>set is. j < length (ls_appenders s')"
      "map (seen s') is = map define_kind aps" using i(1) by auto
  have "i < length (ls_appenders s')" "seen s' i = define_kind ap" using rest(1) i by (auto simp: touches_def)
  moreover have "touches {l} s s'" using touches_trans [of "{l}" s s1 "{l}" s' "{l}"] one rest(1) by simp
  ultimately show ?case using ix one rest(2,3) by (intro conjI exI [of _ "i # is"]) auto
qed

lemma config_appenders_ok: "\<forall>ap\<in>set aps. ad_type ap = 1 \<or> ad_type ap = 2 \<Longrightarrow> \<exists>s'. config_appenders env l aps s = Inr s'"
proof (induction aps arbitrary: s)
  case (Cons ap aps)
  have "\<exists>s1. config_appender env l ap s = Inr s1"
    using Cons.prems by (auto simp: config_appender_def Let_def split: prod.split)
  then show ?case using Cons by auto
qed simp

text \<open>The logger of a name, its level and what is attached to it.\<close>

definition configured :: "log_state \<Rightarrow> string \<Rightarrow> LogLevel \<Rightarrow> (appender_kind \<times> LogLevel) list \<Rightarrow> bool" where
  "configured s name level aps \<longleftrightarrow> (\<exists>l is. map_find (<) name (ls_names s) = Some l \<and> setup_of s l = (level, is) \<and> map (seen s) is = aps)"

lemma getLogger_spec:
  assumes "LoggerManager_getLogger name s = (l, s')" and "log_inv s"
  shows "touches {} s s'" "map_find (<) name (ls_names s') = Some l"
    "map_find (<) n (ls_names s) = Some k \<Longrightarrow> map_find (<) n (ls_names s') = Some k"
proof -
  have ok: "map_ok (<) (ls_names s)" using assms(2) by (simp add: log_inv_def)
  have "touches {} s s' \<and> map_find (<) name (ls_names s') = Some l
    \<and> (map_find (<) n (ls_names s) = Some k \<longrightarrow> map_find (<) n (ls_names s') = Some k)"
  proof (cases "map_find (<) name (ls_names s)")
    case (Some k)
    then show ?thesis using assms(1) by (auto simp: LoggerManager_getLogger_def touches_refl)
  next
    case None
    then show ?thesis
      using assms(1) names.find_put [OF ok]
      by (auto simp: LoggerManager_getLogger_def Logger_new_def touches_def seen_def setup_of_def nth_append list_update_append)
  qed
  then show "touches {} s s'" "map_find (<) name (ls_names s') = Some l"
    "map_find (<) n (ls_names s) = Some k \<Longrightarrow> map_find (<) n (ls_names s') = Some k" by blast+
qed

lemma names_index:
  assumes "log_inv s" "map_find (<) n (ls_names s) = Some k"
  shows "k < length (ls_loggers s) \<and> lg_name (ls_loggers s ! k) = n"
proof -
  have "map_ok (<) (ls_names s)" using assms(1) by (simp add: log_inv_def)
  from names.find_map_of [OF this, of n] assms(2) have "(n, k) \<in> set (ls_names s)" by (auto dest: map_of_SomeD [OF sym])
  then show ?thesis using assms(1) by (auto simp: log_inv_def)
qed

lemma configured_kept:
  assumes "configured s n level aps" "touches {l} s s'" "log_inv s" "map_find (<) name (ls_names s') = Some l" "log_inv s'" "n \<noteq> name"
    and "\<And>k. map_find (<) n (ls_names s) = Some k \<Longrightarrow> map_find (<) n (ls_names s') = Some k"
  shows "configured s' n level aps"
proof -
  obtain k "is" where k: "map_find (<) n (ls_names s) = Some k" "setup_of s k = (level, is)" "map (seen s) is = aps"
    using assms(1) unfolding configured_def by blast
  have "k \<noteq> l" using names_index [OF assms(5) assms(7) [OF k(1)]] names_index [OF assms(5,4)] assms(6) by auto
  moreover have "k < length (ls_loggers s)" using names_index [OF assms(3) k(1)] by simp
  moreover from this have "\<forall>i\<in>set is. i < length (ls_appenders s)"
    using assms(3) k(2) by (auto simp: log_inv_def logger_ready_def appender_ready_def setup_of_def)
  ultimately show ?thesis
    using assms(2,7) k unfolding configured_def touches_def by (intro exI [of _ k] exI [of _ "is"]) auto
qed

lemma config_entry_spec:
  assumes "config_entry env old item s = Inr s'" and "log_inv s"
  shows "configured s' (ld_name item) (ld_level item) (map define_kind (ld_appenders item))"
    and "n \<noteq> ld_name item \<Longrightarrow> configured s n level aps \<Longrightarrow> configured s' n level aps"
proof -
  obtain l s1 where g: "LoggerManager_getLogger (ld_name item) s = (l, s1)" by fastforce
  note g1 = getLogger_spec [OF g assms(2)] and g2 = getLogger_inv [OF assms(2) g]
  let ?s2 = "Logger_setLevel (ld_level item) l s1"
  let ?s3 = "if ld_formatter item \<noteq> '''' then Logger_setFormatter_string (ld_formatter item) l ?s2 else ?s2"
  let ?s4 = "Logger_clearAppenders l ?s3"
  have run: "config_appenders env l (ld_appenders item) ?s4 = Inr s'"
    using assms(1) g by (simp add: config_entry_def Let_def split: if_splits)
  have s3: "touches {} ?s2 ?s3" "ls_names ?s3 = ls_names s1" "length (ls_loggers ?s3) = length (ls_loggers s1)"
    using touches_setFormatter [of ?s2 "ld_formatter item" l] by (auto simp: touches_refl Logger_setLevel_def setFormatter_lengths)
  have l4: "l < length (ls_loggers ?s4)" using g2(2) s3(3) by (simp add: Logger_clearAppenders_def)
  note ap = config_appenders_spec [OF run l4]
  have names: "ls_names s' = ls_names s1" using ap s3(2) by (simp add: Logger_clearAppenders_def)
  have t2: "touches {l} s ?s2" using touches_trans [OF g1(1) touches_setLevel(1)] by simp
  have t3: "touches {l} s ?s3" using touches_trans [OF t2 s3(1)] by simp
  have t4: "touches {l} s ?s4" using touches_trans [OF t3 touches_setLevel(2)] by simp
  have t: "touches {l} s s'" using touches_trans [OF t4, of "{l}" s' "{l}"] ap by simp
  have "setup_of ?s3 l = setup_of ?s2 l" using s3(1) g2(2) by (simp add: touches_def Logger_setLevel_def)
  then have "setup_of ?s4 l = (ld_level item, [])"
    using g2(2) l4 by (simp add: setup_of_def Logger_clearAppenders_def Logger_setLevel_def)
  then show "configured s' (ld_name item) (ld_level item) (map define_kind (ld_appenders item))"
    using ap g1(2) names unfolding configured_def by auto
  show "configured s' n level aps" if "n \<noteq> ld_name item" "configured s n level aps"
    using configured_kept [OF that(2) t assms(2), of "ld_name item"] g1(2,3) names config_entry_inv [OF assms] that(1) by auto
qed

lemma config_entries_spec:
  assumes "log_inv s" and "distinct (map ld_name items)"
    and "\<forall>item\<in>set items. \<not> (\<exists>d. define_find item old = Some d \<and> LogDefine_eq d item)
        \<and> (\<forall>ap\<in>set (ld_appenders item). ad_type ap = 1 \<or> ad_type ap = 2)"
  shows "\<exists>s'. config_entries env old items s = Inr s' \<and> log_inv s'
    \<and> (\<forall>item\<in>set items. configured s' (ld_name item) (ld_level item) (map define_kind (ld_appenders item)))
    \<and> (\<forall>n level aps. n \<notin> ld_name ` set items \<longrightarrow> configured s n level aps \<longrightarrow> configured s' n level aps)"
  using assms
proof (induction items arbitrary: s)
  case (Cons item items)
  obtain s1 where s1: "config_entry env old item s = Inr s1"
  proof -
    have "\<exists>s1. config_entry env old item s = Inr s1"
      using Cons.prems(3) config_appenders_ok by (fastforce simp: config_entry_def Let_def split: prod.split option.split)
    with that show thesis by blast
  qed
  note sp = config_entry_spec [OF s1 Cons.prems(1)]
  have inv: "log_inv s1" using config_entry_inv [OF s1 Cons.prems(1)] by simp
  obtain s' where s': "config_entries env old items s1 = Inr s'" "log_inv s'"
      "\<forall>item\<in>set items. configured s' (ld_name item) (ld_level item) (map define_kind (ld_appenders item))"
      "\<forall>n level aps. n \<notin> ld_name ` set items \<longrightarrow> configured s1 n level aps \<longrightarrow> configured s' n level aps"
    using Cons.IH [OF inv] Cons.prems(2,3) by auto
  have "configured s' (ld_name item) (ld_level item) (map define_kind (ld_appenders item))"
    using s'(4) sp(1) Cons.prems(2) by simp
  then show ?case using s1 s' sp(2) by (intro exI [of _ s']) auto
qed simp

lemma config_removed_spec:
  assumes "log_inv s"
  shows "configured (config_removed d s) (ld_name d) UNKNOW []"
    and "n \<noteq> ld_name d \<Longrightarrow> configured s n level aps \<Longrightarrow> configured (config_removed d s) n level aps"
proof -
  obtain l s1 where g: "LoggerManager_getLogger (ld_name d) s = (l, s1)" by fastforce
  note g1 = getLogger_spec [OF g assms] and g2 = getLogger_inv [OF assms g]
  let ?s2 = "Logger_setLevel UNKNOW l s1" and ?s3 = "Logger_clearAppenders l (Logger_setLevel UNKNOW l s1)"
  have c: "config_removed d s = ?s3" by (simp add: config_removed_def g)
  have n: "ls_names ?s3 = ls_names s1" by (simp add: Logger_clearAppenders_def Logger_setLevel_def)
  have "touches {l} s ?s2" using touches_trans [OF g1(1) touches_setLevel(1)] by simp
  then have t: "touches {l} s ?s3" using touches_trans [OF _ touches_setLevel(2)] by blast
  have "setup_of ?s3 l = (UNKNOW, [])" using g2(2) by (simp add: setup_of_def Logger_clearAppenders_def Logger_setLevel_def)
  then show "configured (config_removed d s) (ld_name d) UNKNOW []" using g1(2) n unfolding configured_def c by auto
  show "configured (config_removed d s) n level aps" if "n \<noteq> ld_name d" "configured s n level aps"
    using configured_kept [OF that(2) t assms, of "ld_name d"] g1(2,3) n config_removed_inv [OF assms, of d] that(1) unfolding c by auto
qed

lemma config_removals:
  assumes "log_inv s"
  shows "(\<forall>d\<in>set ds. configured (fold config_removed ds s) (ld_name d) UNKNOW [])
    \<and> (\<forall>n level aps. n \<notin> ld_name ` set ds \<longrightarrow> configured s n level aps \<longrightarrow> configured (fold config_removed ds s) n level aps)"
  using assms
proof (induction ds arbitrary: s)
  case (Cons d ds)
  note ih = Cons.IH [OF config_removed_inv [OF Cons.prems, of d]] and one = config_removed_spec [OF Cons.prems, where d = d]
  have "configured (fold config_removed ds (config_removed d s)) (ld_name d) UNKNOW []"
  proof (cases "ld_name d \<in> ld_name ` set ds")
    case True
    then obtain d' where "d' \<in> set ds" "ld_name d' = ld_name d" by auto
    then show ?thesis using ih by metis
  next
    case False
    then show ?thesis using ih one(1) by blast
  qed
  then show ?case using ih one(2) by auto
qed simp

lemma define_find_None: "define_find d ds = None \<longleftrightarrow> ld_name d \<notin> ld_name ` set ds"
  by (auto simp: define_find_def find_None_iff LogDefine_less_def)

text \<open>
  (C20) A change of the log configuration in which every entry is new or changed takes effect: the callback returns, every logger of the
  new configuration has the configured level and exactly the configured appenders, in order, with their kinds, files and
  levels; and every logger that is no longer in the configuration has lost its appenders and has the level
  \<^verbatim>\<open>UNKNOW\<close>, below \<^verbatim>\<open>DEBUG\<close>, so that it hands every message to the root logger.
\<close>

theorem log_config_applied:
  assumes "log_step\<^sup>*\<^sup>* LoggerManager_new s" and "distinct (map ld_name new_value)"
    and "\<forall>item\<in>set new_value. \<not> (\<exists>d. define_find item old_value = Some d \<and> LogDefine_eq d item)
        \<and> (\<forall>ap\<in>set (ld_appenders item). ad_type ap = 1 \<or> ad_type ap = 2)"
  shows "\<exists>s'. log_config_changed env event old_value new_value s = Some (Inr s')
    \<and> (\<forall>item\<in>set new_value. configured s' (ld_name item) (ld_level item) (map define_kind (ld_appenders item)))
    \<and> (\<forall>item\<in>set old_value. ld_name item \<notin> ld_name ` set new_value \<longrightarrow> configured s' (ld_name item) UNKNOW [])"
proof -
  note inv = log_reach_inv [OF assms(1)]
  obtain s1 where s1: "TINY_LOG_LEVEL env (event\<lparr>le_logger := ls_root s, le_level := INFO\<rparr>) ''ON Log Config Change Event'' s = Some (Inr s1)"
      "log_frame s s1"
    using TINY_LOG_returns [OF inv, of "event\<lparr>le_logger := ls_root s, le_level := INFO\<rparr>" env "''ON Log Config Change Event''"] inv
    by (auto simp: log_inv_def)
  obtain s2 where s2: "config_entries env old_value new_value s1 = Inr s2" "log_inv s2"
      "\<forall>item\<in>set new_value. configured s2 (ld_name item) (ld_level item) (map define_kind (ld_appenders item))"
    using config_entries_spec [OF log_frame_inv [OF s1(2) inv] assms(2,3)] by blast
  let ?ds = "filter (\<lambda>item. define_find item new_value = None) old_value"
  note r = config_removals [OF s2(2), of ?ds]
  have "ld_name item \<notin> ld_name ` set ?ds" if "item \<in> set new_value" for item
    using that by (auto simp: define_find_None) (metis image_eqI)
  then have "\<forall>item\<in>set new_value. configured (fold config_removed ?ds s2) (ld_name item) (ld_level item) (map define_kind (ld_appenders item))"
    using r s2(3) by blast
  moreover have "\<forall>item\<in>set old_value. ld_name item \<notin> ld_name ` set new_value \<longrightarrow> configured (fold config_removed ?ds s2) (ld_name item) UNKNOW []"
    using r by (simp add: define_find_None)
  ultimately show ?thesis using s1(1) s2(1) by (intro exI [of _ "fold config_removed ?ds s2"]) (simp add: log_config_changed_def)
qed

theorem log_config_applied_witness:
  "\<forall>env event. \<exists>s'. log_config_changed env event [sample_define ''a''] [sample_define ''b''] LoggerManager_new = Some (Inr s')
     \<and> configured s' ''b'' INFO [] \<and> configured s' ''a'' UNKNOW []"
proof (intro allI)
  fix env event
  have "define_find (sample_define ''b'') [sample_define ''a''] = None"
    by (simp add: define_find_None sample_define_def)
  then show "\<exists>s'. log_config_changed env event [sample_define ''a''] [sample_define ''b''] LoggerManager_new = Some (Inr s')
     \<and> configured s' ''b'' INFO [] \<and> configured s' ''a'' UNKNOW []"
    using log_config_applied [of LoggerManager_new "[sample_define ''b'']" "[sample_define ''a'']" env event]
    by (simp add: sample_define_def)
qed

end
