(* ===== verification/Environment.thy ===== *)
theory Environment
  imports Log C_Number
begin

text \<open>
  Model of \<^verbatim>\<open>src/src/env.cpp\<close> and \<^verbatim>\<open>util.cpp\<close>: the command line, the help text, paths and environment variables; clocks, stack traces and the file
  utilities. What the system answers (the path of the executable, directory entries, files) is an argument.
\<close>

section \<open>Env\<close>

record Env =
  en_args :: "(string \<times> string) list"
  en_helps :: "(string \<times> string) list"
  en_program :: string
  en_exe :: string
  en_cwd :: string

definition Env_new :: Env where
  "Env_new = \<lparr>en_args = [], en_helps = [], en_program = [], en_exe = [], en_cwd = []\<rparr>"

definition Env_add :: "string \<Rightarrow> string \<Rightarrow> Env \<Rightarrow> Env" where
  "Env_add k v e = e\<lparr>en_args := map_put (<) k v (en_args e)\<rparr>"

definition Env_has :: "string \<Rightarrow> Env \<Rightarrow> bool" where
  "Env_has k e \<longleftrightarrow> map_find (<) k (en_args e) \<noteq> None"

definition Env_del :: "string \<Rightarrow> Env \<Rightarrow> Env" where
  "Env_del k e = e\<lparr>en_args := map_erase (<) k (en_args e)\<rparr>"

definition Env_get :: "string \<Rightarrow> string \<Rightarrow> Env \<Rightarrow> string" where
  "Env_get k default_value e = (case map_find (<) k (en_args e) of Some v \<Rightarrow> v | None \<Rightarrow> default_value)"

definition Env_removeHelp :: "string \<Rightarrow> Env \<Rightarrow> Env" where
  "Env_removeHelp k e = e\<lparr>en_helps := filter (\<lambda>h. fst h \<noteq> k) (en_helps e)\<rparr>"

definition Env_addHelp :: "string \<Rightarrow> string \<Rightarrow> Env \<Rightarrow> Env" where
  "Env_addHelp k desc e = (let e1 = Env_removeHelp k e in e1\<lparr>en_helps := en_helps e1 @ [(k, desc)]\<rparr>)"

definition newline :: string where
  "newline = [CHR 0x0A]"

definition Env_printHelp :: "Env \<Rightarrow> string" where
  "Env_printHelp e =
     ''Usage: '' @ en_program e @ '' [options]'' @ newline @
     concat (map (\<lambda>(k, desc). ''    -'' @ k @ '' : '' @ desc @ newline) (en_helps e))"

text \<open>
  \<^verbatim>\<open>setenv\<close> answers 0 when it has set the variable and -1 for a name that is empty or has an equals sign; \<^verbatim>\<open>setEnv\<close> returns that number as a truth value.
\<close>

definition Env_setEnv :: "string \<Rightarrow> string \<Rightarrow> (string \<rightharpoonup> string) \<Rightarrow> bool \<times> (string \<rightharpoonup> string)" where
  "Env_setEnv k v environ =
     (let name = c_str k in if name = [] \<or> CHR ''='' \<in> set name then (True, environ) else (False, environ(name \<mapsto> c_str v)))"

definition Env_getEnv :: "string \<Rightarrow> string \<Rightarrow> (string \<rightharpoonup> string) \<Rightarrow> string" where
  "Env_getEnv k default_value environ = (case environ (c_str k) of None \<Rightarrow> default_value | Some v \<Rightarrow> v)"

definition Env_getAbsolutionPath :: "string \<Rightarrow> Env \<Rightarrow> string" where
  "Env_getAbsolutionPath path e =
     (if path = [] then ''/'' else if path ! 0 = CHR ''/'' then path else en_cwd e @ path)"

text \<open>\<open>m_exe.substr(0, m_exe.find_last_of('/'))\<close>: all of it when there is no slash.\<close>

definition exe_dir :: "string \<Rightarrow> string" where
  "exe_dir exe = (if CHR ''/'' \<in> set exe then rev (drop 1 (dropWhile (\<lambda>c. c \<noteq> CHR ''/'') (rev exe))) else exe)"

text \<open>The loop of \<^verbatim>\<open>init\<close> over the arguments behind the program's name.\<close>

definition add_key :: "string option \<Rightarrow> Env \<Rightarrow> Env" where
  "add_key now_key e = (case now_key of Some k \<Rightarrow> Env_add k [] e | None \<Rightarrow> e)"

fun init_args :: "string list \<Rightarrow> string option \<Rightarrow> Env \<Rightarrow> bool \<times> Env" where
  "init_args [] now_key e = (True, add_key now_key e)"
| "init_args (arg # argv) now_key e =
     (if take 1 arg = ''-'' then
        if length arg > 1 then init_args argv (Some (drop 1 arg)) (add_key now_key e) else (False, e)
      else
        case now_key of
          Some k \<Rightarrow> init_args argv None (Env_add k arg e)
        | None \<Rightarrow> (False, e))"

text \<open>\<open>exe\<close> is what \<^verbatim>\<open>readlink\<close> wrote, shorter than the buffer of 1024 bytes.\<close>

definition Env_init :: "string \<Rightarrow> string \<Rightarrow> string list \<Rightarrow> Env \<Rightarrow> bool \<times> Env" where
  "Env_init exe program argv e =
     init_args argv None (e\<lparr>en_exe := exe, en_cwd := exe_dir exe @ ''/'', en_program := program\<rparr>)"

section \<open>Clocks and stack traces\<close>

text \<open>\<open>sec\<close> and \<open>usec\<close> are the fields of the answer of \<^verbatim>\<open>gettimeofday\<close>.\<close>

definition GetCurrentMs :: "int \<Rightarrow> int \<Rightarrow> u64" where
  "GetCurrentMs sec usec = word_of_int sec * 1000 + word_of_int (usec div 1000)"

definition GetCurrentUs :: "int \<Rightarrow> int \<Rightarrow> u64" where
  "GetCurrentUs sec usec = word_of_int sec * 1000 * 1000 + word_of_int usec"

text \<open>\<open>symbols\<close> is the answer of \<^verbatim>\<open>backtrace_symbols\<close>; a negative \<open>skip\<close> is a huge \<^verbatim>\<open>size_t\<close>.\<close>

definition BackTrace :: "string list option \<Rightarrow> int \<Rightarrow> string list \<Rightarrow> string list" where
  "BackTrace symbols skip bt =
     (case symbols of None \<Rightarrow> bt | Some syms \<Rightarrow> if skip < 0 then bt else bt @ drop (nat skip) syms)"

definition BackTraceToString :: "string list option \<Rightarrow> int \<Rightarrow> string \<Rightarrow> string" where
  "BackTraceToString symbols skip prefix = concat (map (\<lambda>item. prefix @ item @ newline) (BackTrace symbols skip []))"

section \<open>Files\<close>

datatype d_type = DT_DIR | DT_REG | DT_OTHER

text \<open>\<open>readdir path\<close> are the entries of a directory, \<open>None\<close> when it is not there or does not open; \<open>fuel\<close> bounds the depth.\<close>

definition has_subfix :: "string \<Rightarrow> string \<Rightarrow> bool" where
  "has_subfix subfix filename \<longleftrightarrow>
     subfix = [] \<or> length subfix \<le> length filename \<and> drop (length filename - length subfix) filename = subfix"

fun ListAllFile :: "nat \<Rightarrow> (string \<Rightarrow> (string \<times> d_type) list option) \<Rightarrow> string \<Rightarrow> string \<Rightarrow> string list option" where
  "ListAllFile 0 readdir path subfix = None"
| "ListAllFile (Suc fuel) readdir path subfix =
     (case readdir path of
        None \<Rightarrow> Some []
      | Some entries \<Rightarrow> map_option concat (cast_all (\<lambda>(name, t).
          case t of
            DT_DIR \<Rightarrow> if name = ''.'' \<or> name = ''..'' then Some [] else ListAllFile fuel readdir (path @ ''/'' @ name) subfix
          | DT_REG \<Rightarrow> Some (if has_subfix subfix name then [path @ ''/'' @ name] else [])
          | DT_OTHER \<Rightarrow> Some []) entries))"

text \<open>
  \<open>acc\<close> and \<open>lst\<close> say whether \<^verbatim>\<open>access\<close> and \<^verbatim>\<open>lstat\<close> find a path in the file system \<open>fs\<close>, \<open>mk\<close> is \<^verbatim>\<open>mkdir\<close>. \<^verbatim>\<open>Mkdir\<close> of an empty
  name that does not exist reads behind the end of its copy, \<open>None\<close>.
\<close>

definition fs_mkdir :: "(string \<Rightarrow> 'fs \<Rightarrow> bool) \<Rightarrow> (string \<Rightarrow> 'fs \<Rightarrow> bool \<times> 'fs) \<Rightarrow> string \<Rightarrow> 'fs \<Rightarrow> bool \<times> 'fs" where
  "fs_mkdir acc mk dirname fs = (if acc dirname fs then (True, fs) else mk dirname fs)"

fun mkdir_each :: "(string \<Rightarrow> 'fs \<Rightarrow> bool) \<Rightarrow> (string \<Rightarrow> 'fs \<Rightarrow> bool \<times> 'fs) \<Rightarrow> string list \<Rightarrow> 'fs \<Rightarrow> bool \<times> 'fs" where
  "mkdir_each acc mk [] fs = (True, fs)"
| "mkdir_each acc mk (p # ps) fs =
     (let (ok, fs1) = fs_mkdir acc mk p fs in if ok then mkdir_each acc mk ps fs1 else (False, fs1))"

definition dir_prefixes :: "string \<Rightarrow> string list" where
  "dir_prefixes path = map (\<lambda>i. take i path) (filter (\<lambda>i. path ! i = CHR ''/'') [1 ..< length path])"

definition FSUtil_Mkdir ::
    "(string \<Rightarrow> 'fs \<Rightarrow> bool) \<Rightarrow> (string \<Rightarrow> 'fs \<Rightarrow> bool) \<Rightarrow> (string \<Rightarrow> 'fs \<Rightarrow> bool \<times> 'fs) \<Rightarrow> string \<Rightarrow> 'fs \<Rightarrow> (bool \<times> 'fs) option" where
  "FSUtil_Mkdir lst acc mk dirname fs =
     (let path = c_str dirname in
      if lst path fs then Some (True, fs)
      else if path = [] then None
      else let (ok, fs1) = mkdir_each acc mk (dir_prefixes path) fs in
           if ok then Some (fs_mkdir acc mk path fs1) else Some (False, fs1))"

text \<open>
  \<open>exists\<close> is the answer of \<^verbatim>\<open>lstat\<close>, \<open>line\<close> the first line of the file (\<open>None\<close> when it does not open or is empty), \<open>kill_ok\<close> that signal 0 can be sent.
\<close>

definition FSUtil_IsRunningPidfile :: "bool \<Rightarrow> string option \<Rightarrow> (int \<Rightarrow> bool) \<Rightarrow> bool" where
  "FSUtil_IsRunningPidfile exists line kill_ok =
     (if \<not> exists then False
      else case line of
             None \<Rightarrow> False
           | Some l \<Rightarrow> if l = [] then False else let pid = atoi (c_str l) in if pid \<le> 1 then False else kill_ok pid)"

text \<open>The functions below are not implemented in the code.\<close>

definition FSUtil_Rm :: "string \<Rightarrow> bool" where
  "FSUtil_Rm path = False"

definition FSUtil_Mv :: "string \<Rightarrow> string \<Rightarrow> bool" where
  "FSUtil_Mv from_path to = False"

definition FSUtil_Realpath :: "string \<Rightarrow> string \<Rightarrow> bool \<times> string" where
  "FSUtil_Realpath path rpath = (False, rpath)"

definition FSUtil_Symlink :: "string \<Rightarrow> string \<Rightarrow> bool" where
  "FSUtil_Symlink frm to = False"

definition FSUtil_Unlink :: "string \<Rightarrow> bool \<Rightarrow> bool" where
  "FSUtil_Unlink filename exist = False"

definition FSUtil_Dirname :: "string \<Rightarrow> string" where
  "FSUtil_Dirname filename = []"

definition FSUtil_Basename :: "string \<Rightarrow> string" where
  "FSUtil_Basename filename = []"

section \<open>The command line\<close>

text \<open>An option on the command line, with or without a value.\<close>

definition render_option :: "string \<times> string option \<Rightarrow> string list" where
  "render_option kv = (''-'' @ fst kv) # (case snd kv of None \<Rightarrow> [] | Some v \<Rightarrow> [v])"

definition option_ok :: "string \<times> string option \<Rightarrow> bool" where
  "option_ok kv \<longleftrightarrow> fst kv \<noteq> [] \<and> (case snd kv of None \<Rightarrow> True | Some v \<Rightarrow> take 1 v \<noteq> ''-'')"

definition option_value :: "string \<times> string option \<Rightarrow> string \<times> string" where
  "option_value kv = (fst kv, case snd kv of None \<Rightarrow> [] | Some v \<Rightarrow> v)"

lemma option_simps [simp]:
  "option_ok (k, None) \<longleftrightarrow> k \<noteq> []" "option_ok (k, Some v) \<longleftrightarrow> k \<noteq> [] \<and> take 1 v \<noteq> ''-''"
  "render_option (k, None) = [''-'' @ k]" "render_option (k, Some v) = [''-'' @ k, v]"
  "option_value (k, None) = (k, [])" "option_value (k, Some v) = (k, v)"
  by (simp_all add: option_ok_def render_option_def option_value_def)

lemma option_values_find:
  "map_of (map option_value opts) k = map_option (\<lambda>v. case v of None \<Rightarrow> [] | Some w \<Rightarrow> w) (map_of opts k)"
  by (induction opts) (auto simp: option_value_def)

lemma init_args_accepts:
  "list_all option_ok opts \<Longrightarrow>
    init_args (concat (map render_option opts)) key e = (True, fold (\<lambda>kv. Env_add (fst kv) (snd kv)) (map option_value opts) (add_key key e))"
proof (induction opts arbitrary: key e)
  case (Cons kv opts)
  obtain k v where kv: "kv = (k, v)" by fastforce
  show ?case
  proof (cases v)
    case None
    then show ?thesis using Cons by (simp add: kv add_key_def [of "Some k"])
  next
    case (Some w)
    then show ?thesis using Cons by (simp add: kv add_key_def [of None])
  qed
qed simp

lemma init_args_sound:
  assumes "fst (init_args argv key e)" "key \<noteq> Some []"
  shows "\<exists>opts. list_all option_ok opts \<and> (case key of None \<Rightarrow> [] | Some k \<Rightarrow> [''-'' @ k]) @ argv = concat (map render_option opts)"
  using assms
proof (induction argv arbitrary: key e)
  case Nil
  show ?case
  proof (cases key)
    case None
    then show ?thesis by (intro exI [of _ "[]"]) simp
  next
    case (Some k)
    then show ?thesis using Nil by (intro exI [of _ "[(k, None)]"]) simp
  qed
next
  case (Cons arg argv)
  show ?case
  proof (cases "take 1 arg = ''-''")
    case True
    then obtain k where k: "arg = ''-'' @ k" by (cases arg) auto
    then have "k \<noteq> []" "fst (init_args argv (Some k) (add_key key e))" using Cons.prems(1) True by (auto split: if_splits)
    with Cons.IH [of "Some k"] obtain opts where opts: "list_all option_ok opts" "arg # argv = concat (map render_option opts)"
      by (auto simp: k)
    show ?thesis
    proof (cases key)
      case None
      then show ?thesis using opts by auto
    next
      case (Some k')
      then show ?thesis using opts Cons.prems(2)
        by (intro exI [of _ "(k', None) # opts"]) simp
    qed
  next
    case False
    then obtain k where k: "key = Some k" "fst (init_args argv None (Env_add k arg e))"
      using Cons.prems(1) by (auto split: option.splits)
    with Cons.IH [of None] obtain opts where opts: "list_all option_ok opts" "argv = concat (map render_option opts)" by auto
    then show ?thesis using k(1) False Cons.prems(2)
      by (intro exI [of _ "(k, Some arg) # opts"]) simp
  qed
qed

lemma add_all_args:
  "en_args (fold (\<lambda>kv. Env_add (fst kv) (snd kv)) kvs e) = fold (\<lambda>(k, v). map_put (<) k v) kvs (en_args e)"
  by (induction kvs arbitrary: e) (auto simp: Env_add_def)

text \<open>
  (C30) \<^verbatim>\<open>Env::init\<close> accepts exactly the command lines that are options with or without a value: names behind a dash, values that do not
  start with one. Then every option can be asked for and has its last value, an empty one when it had none;
  arguments from before stay, and relative paths are taken from the directory of the executable.
\<close>

theorem Env_init_parses:
  assumes "map_ok (<) (en_args e)"
  shows "(fst (Env_init exe program argv e) \<longleftrightarrow> (\<exists>opts. list_all option_ok opts \<and> argv = concat (map render_option opts))) \<and>
    (\<forall>opts. list_all option_ok opts \<and> argv = concat (map render_option opts) \<longrightarrow>
      (let e' = snd (Env_init exe program argv e) in
       (\<forall>k. Env_has k e' \<longleftrightarrow> k \<in> fst ` set opts \<or> Env_has k e) \<and>
       (\<forall>k d. Env_get k d e' = (case map_of (rev opts) k of Some v \<Rightarrow> (case v of None \<Rightarrow> [] | Some w \<Rightarrow> w) | None \<Rightarrow> Env_get k d e)) \<and>
       (\<forall>p. Env_getAbsolutionPath p e' = (if p = [] then ''/'' else if p ! 0 = CHR ''/'' then p else exe_dir exe @ ''/'' @ p))))"
proof (intro conjI allI impI)
  let ?e = "e\<lparr>en_exe := exe, en_cwd := exe_dir exe @ ''/'', en_program := program\<rparr>"
  show "fst (Env_init exe program argv e) \<longleftrightarrow> (\<exists>opts. list_all option_ok opts \<and> argv = concat (map render_option opts))"
    using init_args_sound [of argv None ?e] init_args_accepts [of _ None ?e] by (auto simp: Env_init_def)
  fix opts
  assume opts: "list_all option_ok opts \<and> argv = concat (map render_option opts)"
  let ?all = "fold (\<lambda>kv. Env_add (fst kv) (snd kv)) (map option_value opts) ?e"
  have res: "snd (Env_init exe program argv e) = ?all"
    using opts init_args_accepts [of opts None ?e] by (simp add: Env_init_def add_key_def)
  have cwd: "en_cwd (fold (\<lambda>kv. Env_add (fst kv) (snd kv)) kvs e0) = en_cwd e0" for kvs e0
    by (induction kvs arbitrary: e0) (simp_all add: Env_add_def)
  have last: "map_of (rev (map (\<lambda>(a, b). (a, b)) (map option_value opts))) k =
      map_option (\<lambda>v. case v of None \<Rightarrow> [] | Some w \<Rightarrow> w) (map_of (rev opts) k)" for k
    by (simp add: rev_map option_values_find)
  have find: "map_find (<) k (en_args ?all) =
      (case map_of (rev opts) k of Some v \<Rightarrow> Some (case v of None \<Rightarrow> [] | Some w \<Rightarrow> w) | None \<Rightarrow> map_find (<) k (en_args e))" for k
    unfolding add_all_args using names.find_fold_put [OF assms, of k "map option_value opts"] last [of k]
    by (simp add: case_prod_unfold split: option.splits)
  show "let e' = snd (Env_init exe program argv e) in
       (\<forall>k. Env_has k e' \<longleftrightarrow> k \<in> fst ` set opts \<or> Env_has k e) \<and>
       (\<forall>k d. Env_get k d e' = (case map_of (rev opts) k of Some v \<Rightarrow> (case v of None \<Rightarrow> [] | Some w \<Rightarrow> w) | None \<Rightarrow> Env_get k d e)) \<and>
       (\<forall>p. Env_getAbsolutionPath p e' = (if p = [] then ''/'' else if p ! 0 = CHR ''/'' then p else exe_dir exe @ ''/'' @ p))"
    unfolding res Let_def
  proof (intro conjI allI)
    fix k d p
    have "map_of (rev opts) k = None \<longleftrightarrow> k \<notin> fst ` set opts" by (simp add: map_of_eq_None_iff)
    then show "Env_has k ?all \<longleftrightarrow> k \<in> fst ` set opts \<or> Env_has k e"
      unfolding Env_has_def find by (cases "map_of (rev opts) k") auto
    show "Env_get k d ?all = (case map_of (rev opts) k of Some v \<Rightarrow> (case v of None \<Rightarrow> [] | Some w \<Rightarrow> w) | None \<Rightarrow> Env_get k d e)"
      unfolding Env_get_def find by (cases "map_of (rev opts) k") auto
    show "Env_getAbsolutionPath p ?all = (if p = [] then ''/'' else if p ! 0 = CHR ''/'' then p else exe_dir exe @ ''/'' @ p)"
      by (simp add: Env_getAbsolutionPath_def cwd)
  qed
qed

theorem Env_init_parses_witness:
  "(let e' = snd (Env_init ''/srv/bin/tiny'' ''tiny'' [''-d'', ''-c'', ''conf''] Env_new) in
     Env_has ''d'' e' \<and> Env_get ''c'' ''config'' e' = ''conf'' \<and> Env_getAbsolutionPath ''conf'' e' = ''/srv/bin/conf'') \<and>
   \<not> fst (Env_init ''/srv/bin/tiny'' ''tiny'' [''conf''] Env_new)"
proof -
  have start: "map_ok (<) (en_args Env_new)" by (simp add: Env_new_def names.ok_Nil)
  note laws = Env_init_parses [OF start, of "''/srv/bin/tiny''" "''tiny''"]
  have opts: "list_all option_ok [(''d'', None), (''c'', Some ''conf'')] \<and>
      [''-d'', ''-c'', ''conf''] = concat (map render_option [(''d'', None), (''c'', Some ''conf'')])" by simp
  have dir: "exe_dir ''/srv/bin/tiny'' = ''/srv/bin''" by (simp add: exe_dir_def)
  have none: "\<not> (\<exists>opts. list_all option_ok opts \<and> [''conf''] = concat (map render_option opts))"
  proof
    assume "\<exists>opts. list_all option_ok opts \<and> [''conf''] = concat (map render_option opts)"
    then obtain opts where eq: "[''conf''] = concat (map render_option opts)" by auto
    then show False by (cases opts) (auto simp: render_option_def)
  qed
  from laws [of "[''-d'', ''-c'', ''conf'']", THEN conjunct2, rule_format, OF opts] have
    "let e' = snd (Env_init ''/srv/bin/tiny'' ''tiny'' [''-d'', ''-c'', ''conf''] Env_new) in
     Env_has ''d'' e' \<and> Env_get ''c'' ''config'' e' = ''conf'' \<and> Env_getAbsolutionPath ''conf'' e' = ''/srv/bin/conf''"
    by (simp add: Let_def dir)
  moreover have "\<not> fst (Env_init ''/srv/bin/tiny'' ''tiny'' [''conf''] Env_new)"
    using laws [of "[''conf'']", THEN conjunct1] none by simp
  ultimately show ?thesis ..
qed

text \<open>\<^verbatim>\<open>setEnv\<close> answers the opposite of what its type says.\<close>

lemma setEnv_inverted:
  "fst (Env_setEnv k v environ) \<longleftrightarrow> snd (Env_setEnv k v environ) (c_str k) \<noteq> Some (c_str v) \<or> c_str k = [] \<or> CHR ''='' \<in> set (c_str k)"
  by (simp add: Env_setEnv_def Let_def)

lemma GetCurrentMs_Us:
  assumes "0 \<le> sec" "0 \<le> usec" "usec < 1000000" "sec * 1000000 + usec < 2 ^ 64"
  shows "GetCurrentMs sec usec = GetCurrentUs sec usec div 1000"
proof -
  have "GetCurrentUs sec usec = word_of_int (sec * 1000000 + usec)" by (simp add: GetCurrentUs_def)
  then have us: "uint (GetCurrentUs sec usec) = sec * 1000000 + usec"
    using assms by (simp only: uint_word_of_int) simp
  have "(sec * 1000000 + usec) div 1000 = sec * 1000 + usec div 1000" by linarith
  moreover have "GetCurrentMs sec usec = word_of_int (sec * 1000 + usec div 1000)" by (simp add: GetCurrentMs_def)
  ultimately show ?thesis by (simp add: word_div_def us)
qed

section \<open>Listing files\<close>

text \<open>The regular files with the wanted suffix below \<open>path\<close>.\<close>

inductive listed :: "(string \<Rightarrow> (string \<times> d_type) list option) \<Rightarrow> string \<Rightarrow> string \<Rightarrow> string \<Rightarrow> bool"
  for readdir :: "string \<Rightarrow> (string \<times> d_type) list option" and subfix :: string where
  listed_file: "readdir path = Some entries \<Longrightarrow> (name, DT_REG) \<in> set entries \<Longrightarrow> has_subfix subfix name
    \<Longrightarrow> listed readdir subfix path (path @ ''/'' @ name)"
| listed_dir: "readdir path = Some entries \<Longrightarrow> (name, DT_DIR) \<in> set entries \<Longrightarrow> name \<noteq> ''.'' \<Longrightarrow> name \<noteq> ''..''
    \<Longrightarrow> listed readdir subfix (path @ ''/'' @ name) f \<Longrightarrow> listed readdir subfix path f"

inductive_simps listed_simps: "listed readdir subfix path f"

definition dirs_finite :: "(string \<Rightarrow> (string \<times> d_type) list option) \<Rightarrow> (string \<Rightarrow> nat) \<Rightarrow> bool" where
  "dirs_finite readdir depth \<longleftrightarrow>
     (\<forall>path entries name. readdir path = Some entries \<longrightarrow> (name, DT_DIR) \<in> set entries \<longrightarrow> name \<noteq> ''.'' \<longrightarrow> name \<noteq> ''..''
        \<longrightarrow> depth (path @ ''/'' @ name) < depth path)"

lemma ListAllFile_total:
  assumes "dirs_finite readdir depth" "depth path < fuel"
  shows "\<exists>files. ListAllFile fuel readdir path subfix = Some files"
  using assms(2)
proof (induction fuel arbitrary: path)
  case (Suc fuel)
  show ?case
  proof (cases "readdir path")
    case (Some entries)
    then have "depth (path @ ''/'' @ name) < fuel" if "(name, DT_DIR) \<in> set entries" "name \<noteq> ''.''" "name \<noteq> ''..''" for name
      using assms(1) that Suc.prems unfolding dirs_finite_def by (meson less_trans_Suc not_less_eq order_less_trans)
    then have "\<exists>out. cast_all (\<lambda>(name, t).
          case t of
            DT_DIR \<Rightarrow> if name = ''.'' \<or> name = ''..'' then Some [] else ListAllFile fuel readdir (path @ ''/'' @ name) subfix
          | DT_REG \<Rightarrow> Some (if has_subfix subfix name then [path @ ''/'' @ name] else [])
          | DT_OTHER \<Rightarrow> Some []) entries = Some out"
      using Suc.IH by (intro cast_all_total) (fastforce split: d_type.splits)
    then show ?thesis using Some by auto
  qed simp
qed simp

lemma ListAllFile_listed:
  assumes "ListAllFile fuel readdir path subfix = Some files"
  shows "f \<in> set files \<longleftrightarrow> listed readdir subfix path f"
  using assms
proof (induction fuel arbitrary: path files)
  case (Suc fuel)
  show ?case
  proof (cases "readdir path")
    case None
    then show ?thesis using Suc.prems by (subst listed_simps) simp
  next
    case (Some entries)
    define each where "each = (\<lambda>(name, t).
          case t of
            DT_DIR \<Rightarrow> if name = ''.'' \<or> name = ''..'' then Some [] else ListAllFile fuel readdir (path @ ''/'' @ name) subfix
          | DT_REG \<Rightarrow> Some (if has_subfix subfix name then [path @ ''/'' @ name] else [])
          | DT_OTHER \<Rightarrow> Some [])"
    obtain out where out: "cast_all each entries = Some out" "files = concat out" using Suc.prems Some by (auto simp: each_def)
    have sub: "(\<exists>ys. each (name, t) = Some ys \<and> f \<in> set ys) \<longleftrightarrow>
        (t = DT_REG \<and> has_subfix subfix name \<and> f = path @ ''/'' @ name \<or>
         t = DT_DIR \<and> name \<noteq> ''.'' \<and> name \<noteq> ''..'' \<and> listed readdir subfix (path @ ''/'' @ name) f)"
      if "(name, t) \<in> set entries" for name t
      using cast_all_each [OF out(1) that] Suc.IH [of "path @ ''/'' @ name"] by (cases t) (auto simp: each_def)
    have "f \<in> set files \<longleftrightarrow> (\<exists>name t. (name, t) \<in> set entries \<and> (\<exists>ys. each (name, t) = Some ys \<and> f \<in> set ys))"
      unfolding out(2) cast_all_concat [OF out(1)] by auto
    moreover have "listed readdir subfix path f \<longleftrightarrow> (\<exists>name t. (name, t) \<in> set entries \<and>
        (t = DT_REG \<and> has_subfix subfix name \<and> f = path @ ''/'' @ name \<or>
         t = DT_DIR \<and> name \<noteq> ''.'' \<and> name \<noteq> ''..'' \<and> listed readdir subfix (path @ ''/'' @ name) f))"
      unfolding listed_simps [of readdir subfix path f] using Some by auto
    ultimately show ?thesis using sub by blast
  qed
qed simp

text \<open>On a tree of finite depth, and with more fuel than the depth, \<^verbatim>\<open>ListAllFile\<close> returns exactly the wanted files.\<close>

theorem ListAllFile_files:
  assumes "dirs_finite readdir depth" "depth path < fuel"
  shows "\<exists>files. ListAllFile fuel readdir path subfix = Some files \<and> (\<forall>f. f \<in> set files \<longleftrightarrow> listed readdir subfix path f)"
  using ListAllFile_total [OF assms] ListAllFile_listed by blast

section \<open>Making directories\<close>

lemma mkdir_each_makes:
  assumes "\<And>p fs fs'. mk p fs = (True, fs') \<Longrightarrow> acc p fs' \<and> (\<forall>q. acc q fs \<longrightarrow> acc q fs')"
    and "mkdir_each acc mk ps fs = (True, fs')"
  shows "(\<forall>p\<in>set ps. acc p fs') \<and> (\<forall>q. acc q fs \<longrightarrow> acc q fs')"
  using assms(2)
proof (induction ps arbitrary: fs)
  case (Cons p ps)
  then obtain fs1 where one: "fs_mkdir acc mk p fs = (True, fs1)" "mkdir_each acc mk ps fs1 = (True, fs')"
    by (auto split: prod.splits if_splits)
  then have "acc p fs1 \<and> (\<forall>q. acc q fs \<longrightarrow> acc q fs1)" using assms(1) [of p fs fs1] by (auto simp: fs_mkdir_def split: if_splits)
  then show ?case using Cons.IH [OF one(2)] by auto
qed simp

lemma mkdir_each_succeeds: "(\<forall>p fs. fst (mk p fs)) \<Longrightarrow> fst (mkdir_each acc mk ps fs)"
proof (induction ps arbitrary: fs)
  case (Cons p ps)
  then have "fst (fs_mkdir acc mk p fs)" by (simp add: fs_mkdir_def)
  then show ?case using Cons by (auto split: prod.splits)
qed simp

text \<open>
  \<^verbatim>\<open>Mkdir\<close> of a path that does not exist: when the system creates what it says it creates and removes nothing meanwhile, the result
  is true only if the path and every directory on the way to it exist, and it is true when no \<^verbatim>\<open>mkdir\<close> fails.
\<close>

theorem Mkdir_makes_path:
  assumes "\<And>p fs fs'. mk p fs = (True, fs') \<Longrightarrow> acc p fs' \<and> (\<forall>q. acc q fs \<longrightarrow> acc q fs')"
    and "c_str dirname \<noteq> []" "\<not> lst (c_str dirname) fs"
  shows "\<exists>ok fs'. FSUtil_Mkdir lst acc mk dirname fs = Some (ok, fs') \<and>
    (ok \<longrightarrow> acc (c_str dirname) fs' \<and> (\<forall>p\<in>set (dir_prefixes (c_str dirname)). acc p fs')) \<and>
    ((\<forall>p fs. fst (mk p fs)) \<longrightarrow> ok)"
proof -
  let ?path = "c_str dirname"
  obtain ok1 fs1 where each: "mkdir_each acc mk (dir_prefixes ?path) fs = (ok1, fs1)" by fastforce
  obtain ok2 fs2 where last: "fs_mkdir acc mk ?path fs1 = (ok2, fs2)" by fastforce
  have res: "FSUtil_Mkdir lst acc mk dirname fs = Some (if ok1 then (ok2, fs2) else (False, fs1))"
    using assms(2,3) each last by (simp add: FSUtil_Mkdir_def Let_def)
  have "ok2 \<Longrightarrow> acc ?path fs2 \<and> (\<forall>q. acc q fs1 \<longrightarrow> acc q fs2)"
    using last assms(1) [of ?path fs1 fs2] by (auto simp: fs_mkdir_def split: if_splits)
  moreover have "\<forall>p\<in>set (dir_prefixes ?path). acc p fs1" if ok1
    using mkdir_each_makes [of mk acc "dir_prefixes ?path" fs fs1] assms(1) each that by simp
  ultimately have made: "ok1 \<and> ok2 \<longrightarrow> acc ?path fs2 \<and> (\<forall>p\<in>set (dir_prefixes ?path). acc p fs2)"
    by blast
  have all: "(\<forall>p fs. fst (mk p fs)) \<longrightarrow> ok1 \<and> ok2"
    using mkdir_each_succeeds [of mk acc "dir_prefixes ?path" fs] each last by (auto simp: fs_mkdir_def split: if_splits) (metis fst_conv)
  show ?thesis using res made all by (cases ok1) auto
qed

end
