(* ===== verification/Config.thy ===== *)
theory Config
  imports Environment "HOL-Library.Countable" "HOL-Library.AList"
begin

text \<open>
  Model of \<^verbatim>\<open>src/src/config.h\<close> and \<^verbatim>\<open>config.cpp\<close>: configuration variables with callbacks, the table of all variables, loading them from YAML,
  and the conversions of the log configuration; and \<^verbatim>\<open>toYamlString\<close> of the loggers. The library yaml-cpp is a parameter, a record of the
  operations on nodes that the code calls.
\<close>

section \<open>YAML\<close>

text \<open>
  \<open>None\<close> is an exception: of \<^verbatim>\<open>YAML::Load\<close>, of \<^verbatim>\<open>as<std::string>\<close>, of \<^verbatim>\<open>n[k]\<close> (for a scalar \<^verbatim>\<open>n\<close>), or of the use of \<^verbatim>\<open>iter->first\<close> while iterating over
  a node that is not a map; \<open>y_get n k\<close> is \<open>Some None\<close> when \<^verbatim>\<open>n[k]\<close> is not defined.
\<close>

record 'n yaml =
  y_load :: "string \<Rightarrow> 'n option"
  y_emit :: "'n \<Rightarrow> string"
  y_isMap :: "'n \<Rightarrow> bool"
  y_isScalar :: "'n \<Rightarrow> bool"
  y_scalar :: "'n \<Rightarrow> string"
  y_pairs :: "'n \<Rightarrow> ('n \<times> 'n) list option"
  y_size :: "'n \<Rightarrow> nat"
  y_index :: "'n \<Rightarrow> nat \<Rightarrow> 'n"
  y_get :: "'n \<Rightarrow> string \<Rightarrow> 'n option option"
  y_as :: "'n \<Rightarrow> string option"
  y_null :: 'n
  y_text :: "string \<Rightarrow> 'n"
  y_push :: "'n \<Rightarrow> 'n \<Rightarrow> 'n"
  y_set :: "'n \<Rightarrow> string \<Rightarrow> 'n \<Rightarrow> 'n"

section \<open>Container conversions\<close>

text \<open>
  \<^verbatim>\<open>LexicalCast\<close> from a string to the containers and back; an exception is \<open>None\<close>. The four sequence containers differ in how an element is inserted, the two maps
  in how an entry is.
\<close>

definition LexicalCast_to_seq :: "'n yaml \<Rightarrow> (string \<Rightarrow> 'a option) \<Rightarrow> ('a \<Rightarrow> 's \<Rightarrow> 's) \<Rightarrow> 's \<Rightarrow> string \<Rightarrow> 's option" where
  "LexicalCast_to_seq Y elem ins none val =
     Option.bind (y_load Y val) (\<lambda>node.
       map_option (\<lambda>xs. fold ins xs none)
         (cast_all (\<lambda>i. elem (y_emit Y (y_index Y node i))) [0 ..< y_size Y node]))"

definition LexicalCast_of_seq :: "'n yaml \<Rightarrow> ('a \<Rightarrow> string option) \<Rightarrow> 'a list \<Rightarrow> string option" where
  "LexicalCast_of_seq Y elem val =
     map_option (\<lambda>ns. y_emit Y (fold (\<lambda>n node. y_push Y node n) ns (y_null Y)))
       (cast_all (\<lambda>item. Option.bind (elem item) (y_load Y)) val)"

definition LexicalCast_to_map :: "'n yaml \<Rightarrow> (string \<Rightarrow> 'a option) \<Rightarrow> (string \<Rightarrow> 'a \<Rightarrow> 's \<Rightarrow> 's) \<Rightarrow> 's \<Rightarrow> string \<Rightarrow> 's option" where
  "LexicalCast_to_map Y elem put none val =
     Option.bind (Option.bind (y_load Y val) (y_pairs Y)) (\<lambda>pairs.
       map_option (\<lambda>kvs. fold (\<lambda>(k, v). put k v) kvs none)
         (cast_all (\<lambda>(k, v). map_option (\<lambda>x. (y_scalar Y k, x)) (elem (y_emit Y v))) pairs))"

definition LexicalCast_of_map :: "'n yaml \<Rightarrow> ('a \<Rightarrow> string option) \<Rightarrow> (string \<times> 'a) list \<Rightarrow> string option" where
  "LexicalCast_of_map Y elem val =
     map_option (\<lambda>kns. y_emit Y (fold (\<lambda>(k, n) node. y_set Y node k n) kns (y_null Y)))
       (cast_all (\<lambda>(k, item). map_option (\<lambda>n. (k, n)) (Option.bind (elem item) (y_load Y))) val)"

text \<open>
  The containers of \<^verbatim>\<open>config.h\<close>. A \<^verbatim>\<open>std::set\<close> is its sorted list and a \<^verbatim>\<open>std::map\<close> its list sorted by key; the order in which an unordered container
  is iterated is the argument \<open>order\<close>.
\<close>

definition LexicalCast_to_vector :: "'n yaml \<Rightarrow> (string \<Rightarrow> 'a option) \<Rightarrow> string \<Rightarrow> 'a list option" where
  "LexicalCast_to_vector Y elem = LexicalCast_to_seq Y elem (\<lambda>x vec. vec @ [x]) []"

definition LexicalCast_of_vector :: "'n yaml \<Rightarrow> ('a \<Rightarrow> string option) \<Rightarrow> 'a list \<Rightarrow> string option" where
  "LexicalCast_of_vector = LexicalCast_of_seq"

definition LexicalCast_to_list :: "'n yaml \<Rightarrow> (string \<Rightarrow> 'a option) \<Rightarrow> string \<Rightarrow> 'a list option" where
  "LexicalCast_to_list Y elem = LexicalCast_to_seq Y elem (\<lambda>x vec. vec @ [x]) []"

definition LexicalCast_of_list :: "'n yaml \<Rightarrow> ('a \<Rightarrow> string option) \<Rightarrow> 'a list \<Rightarrow> string option" where
  "LexicalCast_of_list = LexicalCast_of_seq"

definition LexicalCast_to_set :: "'n yaml \<Rightarrow> (string \<Rightarrow> 'a::linorder option) \<Rightarrow> string \<Rightarrow> 'a list option" where
  "LexicalCast_to_set Y elem = LexicalCast_to_seq Y elem insort_insert []"

definition LexicalCast_of_set :: "'n yaml \<Rightarrow> ('a::linorder \<Rightarrow> string option) \<Rightarrow> 'a list \<Rightarrow> string option" where
  "LexicalCast_of_set = LexicalCast_of_seq"

definition LexicalCast_to_unordered_set :: "'n yaml \<Rightarrow> (string \<Rightarrow> 'a option) \<Rightarrow> string \<Rightarrow> 'a set option" where
  "LexicalCast_to_unordered_set Y elem = LexicalCast_to_seq Y elem Set.insert {}"

definition LexicalCast_of_unordered_set :: "('a set \<Rightarrow> 'a list) \<Rightarrow> 'n yaml \<Rightarrow> ('a \<Rightarrow> string option) \<Rightarrow> 'a set \<Rightarrow> string option" where
  "LexicalCast_of_unordered_set order Y elem val = LexicalCast_of_seq Y elem (order val)"

definition LexicalCast_to_ordered_map :: "'n yaml \<Rightarrow> (string \<Rightarrow> 'a option) \<Rightarrow> string \<Rightarrow> (string \<times> 'a) list option" where
  "LexicalCast_to_ordered_map Y elem = LexicalCast_to_map Y elem (map_put (<)) []"

definition LexicalCast_of_ordered_map :: "'n yaml \<Rightarrow> ('a \<Rightarrow> string option) \<Rightarrow> (string \<times> 'a) list \<Rightarrow> string option" where
  "LexicalCast_of_ordered_map = LexicalCast_of_map"

definition LexicalCast_to_unordered_map :: "'n yaml \<Rightarrow> (string \<Rightarrow> 'a option) \<Rightarrow> string \<Rightarrow> (string \<rightharpoonup> 'a) option" where
  "LexicalCast_to_unordered_map Y elem = LexicalCast_to_map Y elem (\<lambda>k v vec. vec(k \<mapsto> v)) Map.empty"

definition LexicalCast_of_unordered_map ::
    "((string \<rightharpoonup> 'a) \<Rightarrow> (string \<times> 'a) list) \<Rightarrow> 'n yaml \<Rightarrow> ('a \<Rightarrow> string option) \<Rightarrow> (string \<rightharpoonup> 'a) \<Rightarrow> string option" where
  "LexicalCast_of_unordered_map order Y elem val = LexicalCast_of_map Y elem (order val)"

section \<open>The log configuration as text\<close>

text \<open>An appender of the YAML text; \<open>Some None\<close> stands for \<^verbatim>\<open>continue\<close>.\<close>

definition read_appender :: "'n yaml \<Rightarrow> 'n \<Rightarrow> LogAppenderDefine option option" where
  "read_appender Y ap =
     Option.bind (y_get Y ap ''type'') (case_option (Some None) (\<lambda>t.
       Option.bind (y_as Y t) (\<lambda>type.
         let lad = \<lparr>ad_type = 0, ad_level = UNKNOW, ad_formatter = '''', ad_file = ''''\<rparr> in
         if type = ''FileLog'' then
           Option.bind (y_get Y ap ''file'') (case_option (Some None) (\<lambda>f.
             Option.bind (y_as Y f) (\<lambda>path.
               let lad1 = lad\<lparr>ad_type := 1, ad_file := path\<rparr> in
               Option.bind (y_get Y ap ''formatter'') (case_option (Some (Some lad1))
                 (\<lambda>n. map_option (\<lambda>fmt. Some (lad1\<lparr>ad_formatter := fmt\<rparr>)) (y_as Y n))))))
         else if type = ''ConsoleLog'' then Some (Some (lad\<lparr>ad_type := 2\<rparr>))
         else Some None)))"

text \<open>A field of a logger's entry that may be missing.\<close>

definition read_optional :: "'n yaml \<Rightarrow> 'n \<Rightarrow> string \<Rightarrow> string option" where
  "read_optional Y n k = Option.bind (y_get Y n k) (case_option (Some '''') (y_as Y))"

definition read_appenders :: "'n yaml \<Rightarrow> 'n \<Rightarrow> LogAppenderDefine list option" where
  "read_appenders Y n =
     Option.bind (y_get Y n ''appenders'') (case_option (Some []) (\<lambda>a.
       map_option (List.map_filter id) (cast_all (\<lambda>i. read_appender Y (y_index Y a i)) [0 ..< y_size Y a])))"

definition read_logger :: "'n yaml \<Rightarrow> 'n \<Rightarrow> LogDefine option option" where
  "read_logger Y n =
     Option.bind (y_get Y n ''name'') (case_option (Some None) (\<lambda>nm.
       Option.bind (y_as Y nm) (\<lambda>name.
       Option.bind (read_optional Y n ''level'') (\<lambda>level.
       Option.bind (read_optional Y n ''formatter'') (\<lambda>formatter.
       map_option (\<lambda>aps. Some \<lparr>ld_name = name, ld_level = LogLevel_FromString level, ld_formatter = formatter, ld_appenders = aps\<rparr>)
         (read_appenders Y n))))))"

text \<open>\<^verbatim>\<open>std::set::insert\<close>, ordered by name: an entry with the same name stays.\<close>

fun define_insert :: "LogDefine \<Rightarrow> LogDefine list \<Rightarrow> LogDefine list" where
  "define_insert d [] = [d]"
| "define_insert d (x # xs) =
     (if LogDefine_less x d then x # define_insert d xs else if LogDefine_less d x then d # x # xs else x # xs)"

definition LexicalCast_to_LogDefines :: "'n yaml \<Rightarrow> string \<Rightarrow> LogDefine list option" where
  "LexicalCast_to_LogDefines Y val =
     Option.bind (y_load Y val) (\<lambda>node.
       map_option (\<lambda>ds. fold define_insert (List.map_filter id ds) [])
         (cast_all (\<lambda>i. read_logger Y (y_index Y node i)) [0 ..< y_size Y node]))"

definition write_appender :: "'n yaml \<Rightarrow> LogAppenderDefine \<Rightarrow> 'n" where
  "write_appender Y i =
     (let na = y_null Y;
          na = (if ad_type i = 1 then y_set Y (y_set Y na ''type'' (y_text Y ''FileLog'')) ''file'' (y_text Y (ad_file i))
                else if ad_type i = 2 then y_set Y na ''type'' (y_text Y ''ConsoleLog'') else na);
          na = (if ad_level i \<noteq> UNKNOW then y_set Y na ''level'' (y_text Y (LogLevel_ToString (ad_level i))) else na)
      in if ad_formatter i \<noteq> '''' then y_set Y na ''formatter'' (y_text Y (ad_formatter i)) else na)"

text \<open>\<^verbatim>\<open>n["appenders"].push_back(na)\<close> makes the entry when it is not there.\<close>

definition push_at :: "'n yaml \<Rightarrow> string \<Rightarrow> 'n \<Rightarrow> 'n \<Rightarrow> 'n" where
  "push_at Y k x n = y_set Y n k (y_push Y (case y_get Y n k of Some (Some m) \<Rightarrow> m | _ \<Rightarrow> y_null Y) x)"

definition write_logger :: "'n yaml \<Rightarrow> LogDefine \<Rightarrow> 'n" where
  "write_logger Y item =
     (let n = y_set Y (y_null Y) ''name'' (y_text Y (ld_name item));
          n = (if ld_level item \<noteq> UNKNOW then y_set Y n ''level'' (y_text Y (LogLevel_ToString (ld_level item))) else n);
          n = (if ld_formatter item \<noteq> '''' then y_set Y n ''formatter'' (y_text Y (ld_formatter item)) else n)
      in fold (\<lambda>i n. push_at Y ''appenders'' (write_appender Y i) n) (ld_appenders item) n)"

definition LexicalCast_of_LogDefines :: "'n yaml \<Rightarrow> LogDefine list \<Rightarrow> string" where
  "LexicalCast_of_LogDefines Y vec =
     y_emit Y (fold (\<lambda>item node. y_push Y node (write_logger Y item)) vec (y_null Y))"

section \<open>Loggers as text\<close>

definition LogAppender_toYamlString :: "'n yaml \<Rightarrow> LogAppender \<Rightarrow> string" where
  "LogAppender_toYamlString Y a =
     (let node = (case la_kind a of
            ConsoleLog \<Rightarrow> y_set Y (y_null Y) ''type'' (y_text Y ''ConsoleLog'')
          | FileLog name \<Rightarrow> y_set Y (y_set Y (y_null Y) ''type'' (y_text Y ''FileLog'')) ''file'' (y_text Y name));
          node = (if la_level a \<noteq> UNKNOW then y_set Y node ''level'' (y_text Y (LogLevel_ToString (la_level a))) else node)
      in y_emit Y (case la_formatter a of
           Some f \<Rightarrow> if la_hasFormatter a then y_set Y node ''fomatter'' (y_text Y (lf_pattern f)) else node
         | None \<Rightarrow> node))"

definition Logger_toYamlString :: "'n yaml \<Rightarrow> nat \<Rightarrow> log_state \<Rightarrow> string option" where
  "Logger_toYamlString Y l s =
     (let g = ls_loggers s ! l;
          node = y_set Y (y_set Y (y_null Y) ''name'' (y_text Y (lg_name g))) ''level'' (y_text Y (LogLevel_ToString (lg_level g)));
          node = (case lg_formatter g of Some f \<Rightarrow> y_set Y node ''formatter'' (y_text Y (lf_pattern f)) | None \<Rightarrow> node)
      in map_option (\<lambda>aps. y_emit Y (fold (\<lambda>a n. push_at Y ''appenders'' a n) aps node))
           (cast_all (\<lambda>i. y_load Y (LogAppender_toYamlString Y (ls_appenders s ! i))) (lg_appenders g)))"

definition LoggerManager_toYamlString :: "'n yaml \<Rightarrow> log_state \<Rightarrow> string option" where
  "LoggerManager_toYamlString Y s =
     map_option (\<lambda>ns. y_emit Y (fold (\<lambda>n node. y_push Y node n) ns (y_null Y)))
       (cast_all (\<lambda>(_, l). Option.bind (Logger_toYamlString Y l s) (y_load Y)) (ls_names s))"

section \<open>Configuration variables\<close>

text \<open>
  The variables of all types in one table: \<open>'v\<close> has the values of every type, \<open>cv_type\<close> is \<^verbatim>\<open>typeid(T).name()\<close>. The
  operations of the types are a parameter: the conversions (\<open>None\<close> for an exception) and equality.
\<close>

record 'v conversions =
  ct_from :: "string \<Rightarrow> string \<Rightarrow> 'v option"
  ct_to :: "string \<Rightarrow> 'v \<Rightarrow> string option"
  ct_eq :: "'v \<Rightarrow> 'v \<Rightarrow> bool"

record ('v, 'cb) config_var =
  cv_name :: string
  cv_description :: string
  cv_type :: string
  cv_val :: 'v
  cv_callbacks :: "(u64 \<times> 'cb) list"

definition lower :: "string \<Rightarrow> string" where
  "lower s = map to_lower s"

definition ConfigVar_new :: "string \<Rightarrow> string \<Rightarrow> 'v \<Rightarrow> string \<Rightarrow> ('v, 'cb) config_var" where
  "ConfigVar_new type name default_value description =
     \<lparr>cv_name = lower name, cv_description = description, cv_type = type, cv_val = default_value, cv_callbacks = []\<rparr>"

text \<open>
  \<open>call\<close> runs one callback on the rest of the program's state: \<open>None\<close> when it does not return (it crashes the program), otherwise the first result is false when the
  callback throws. Then the callbacks after it do not run and the value is not set.
\<close>

fun run_callbacks ::
    "('cb \<Rightarrow> 'v \<Rightarrow> 'v \<Rightarrow> 's \<Rightarrow> (bool \<times> 's) option) \<Rightarrow> 'v \<Rightarrow> 'v \<Rightarrow> (u64 \<times> 'cb) list \<Rightarrow> 's \<Rightarrow> (bool \<times> 's) option" where
  "run_callbacks call old new [] s = Some (True, s)"
| "run_callbacks call old new ((k, cb) # cbs) s =
     Option.bind (call cb old new s) (\<lambda>(ok, s'). if ok then run_callbacks call old new cbs s' else Some (False, s'))"

text \<open>
  \<^verbatim>\<open>setValue\<close> has two locked regions: the callbacks run under the read lock and the assignment is made under a write lock that is taken afterwards. The first part
  answers \<open>None\<close> when the value is the old one. \<open>ConfigVar_setValue\<close> is the call of one thread without another one in between.
\<close>

definition setValue_notify ::
    "'v conversions \<Rightarrow> ('cb \<Rightarrow> 'v \<Rightarrow> 'v \<Rightarrow> 's \<Rightarrow> (bool \<times> 's) option) \<Rightarrow> 'v \<Rightarrow> ('v, 'cb) config_var \<Rightarrow> 's \<Rightarrow> (bool option \<times> 's) option" where
  "setValue_notify T call val var s =
     (if ct_eq T (cv_val var) val then Some (None, s)
      else map_option (\<lambda>(ok, s'). (Some ok, s')) (run_callbacks call (cv_val var) val (cv_callbacks var) s))"

definition setValue_assign :: "'v \<Rightarrow> ('v, 'cb) config_var \<Rightarrow> ('v, 'cb) config_var" where
  "setValue_assign val var = var\<lparr>cv_val := val\<rparr>"

definition ConfigVar_setValue ::
    "'v conversions \<Rightarrow> ('cb \<Rightarrow> 'v \<Rightarrow> 'v \<Rightarrow> 's \<Rightarrow> (bool \<times> 's) option) \<Rightarrow> 'v \<Rightarrow> ('v, 'cb) config_var \<Rightarrow> 's
      \<Rightarrow> (bool \<times> ('v, 'cb) config_var \<times> 's) option" where
  "ConfigVar_setValue T call val var s =
     map_option (\<lambda>(r, s').
       case r of
         None \<Rightarrow> (True, var, s')
       | Some ok \<Rightarrow> (ok, if ok then setValue_assign val var else var, s')) (setValue_notify T call val var s)"

lemmas setValue_defs = ConfigVar_setValue_def setValue_notify_def setValue_assign_def

text \<open>\<^verbatim>\<open>s_init\<close> counts the callbacks of all variables of one type.\<close>

definition ConfigVar_setCallBack :: "'cb \<Rightarrow> u64 \<Rightarrow> ('v, 'cb) config_var \<Rightarrow> u64 \<times> u64 \<times> ('v, 'cb) config_var" where
  "ConfigVar_setCallBack cb s_init var =
     (let k = s_init + 1 in (k, k, var\<lparr>cv_callbacks := map_put (<) k cb (cv_callbacks var)\<rparr>))"

definition ConfigVar_removeCallBack :: "u64 \<Rightarrow> ('v, 'cb) config_var \<Rightarrow> ('v, 'cb) config_var" where
  "ConfigVar_removeCallBack k var = var\<lparr>cv_callbacks := map_erase (<) k (cv_callbacks var)\<rparr>"

definition ConfigVar_clearCallBack :: "('v, 'cb) config_var \<Rightarrow> ('v, 'cb) config_var" where
  "ConfigVar_clearCallBack var = var\<lparr>cv_callbacks := []\<rparr>"

definition ConfigVar_getCallBack :: "u64 \<Rightarrow> ('v, 'cb) config_var \<Rightarrow> 'cb option" where
  "ConfigVar_getCallBack k var = map_find (<) k (cv_callbacks var)"

definition ConfigVar_toString :: "'v conversions \<Rightarrow> ('v, 'cb) config_var \<Rightarrow> string" where
  "ConfigVar_toString T var = (case ct_to T (cv_type var) (cv_val var) of Some s \<Rightarrow> s | None \<Rightarrow> '''')"

text \<open>\<^verbatim>\<open>fromString\<close> catches the exceptions of the conversion and of \<^verbatim>\<open>setValue\<close> and returns false in every case.\<close>

definition ConfigVar_fromString ::
    "'v conversions \<Rightarrow> ('cb \<Rightarrow> 'v \<Rightarrow> 'v \<Rightarrow> 's \<Rightarrow> (bool \<times> 's) option) \<Rightarrow> string \<Rightarrow> ('v, 'cb) config_var \<Rightarrow> 's
      \<Rightarrow> (bool \<times> ('v, 'cb) config_var \<times> 's) option" where
  "ConfigVar_fromString T call val var s =
     (case ct_from T (cv_type var) val of
        None \<Rightarrow> Some (False, var, s)
      | Some v \<Rightarrow> map_option (\<lambda>(_, var', s'). (False, var', s')) (ConfigVar_setValue T call v var s))"

section \<open>The table\<close>

type_synonym ('v, 'cb) config = "(string \<times> ('v, 'cb) config_var) list"

datatype config_error = Config_invalid_argument string

definition valid_chars :: "string" where
  "valid_chars = ''abcdefghijklmnopqrstuvwxyz._0123456789''"

text \<open>\<^verbatim>\<open>Lookup(name, default, description)\<close> gives the name of the variable in the table, or \<open>None\<close> for a null pointer.\<close>

definition Config_Lookup ::
    "string \<Rightarrow> string \<Rightarrow> 'v \<Rightarrow> string \<Rightarrow> ('v, 'cb) config \<Rightarrow> config_error + (string option \<times> ('v, 'cb) config)" where
  "Config_Lookup type n default_value description m =
     (let name = lower n in
      case map_find (<) name m of
        Some var \<Rightarrow> if cv_type var = type then Inr (Some name, m) else Inr (None, m)
      | None \<Rightarrow>
          if \<not> set name \<subseteq> set valid_chars then Inl (Config_invalid_argument name)
          else Inr (Some name, map_put (<) name (ConfigVar_new type name default_value description) m))"

definition Config_Lookup_name :: "string \<Rightarrow> string \<Rightarrow> ('v, 'cb) config \<Rightarrow> ('v, 'cb) config_var option" where
  "Config_Lookup_name type name m =
     (case map_find (<) name m of None \<Rightarrow> None | Some var \<Rightarrow> if cv_type var = type then Some var else None)"

definition Config_LookupBase :: "string \<Rightarrow> ('v, 'cb) config \<Rightarrow> ('v, 'cb) config_var option" where
  "Config_LookupBase name m = map_find (<) name m"

definition Config_Visit :: "(('v, 'cb) config_var \<Rightarrow> 's \<Rightarrow> 's) \<Rightarrow> ('v, 'cb) config \<Rightarrow> 's \<Rightarrow> 's" where
  "Config_Visit cb m = fold (\<lambda>(_, var). cb var) m"

section \<open>Loading\<close>

definition prefix_ok :: "string \<Rightarrow> bool" where
  "prefix_ok p \<longleftrightarrow> set p \<subseteq> set (valid_chars @ ''ABCDEFGHIJKLMNOPQRSTUVWXYZ'')"

definition member_name :: "string \<Rightarrow> string \<Rightarrow> string" where
  "member_name pre k = (if pre = '''' then k else pre @ ''.'' @ k)"

text \<open>
  \<^verbatim>\<open>ListAllMember\<close>; \<open>fuel\<close> bounds the depth of the recursion, \<open>None\<close> is its exhaustion.
\<close>

fun ListAllMember :: "nat \<Rightarrow> 'n yaml \<Rightarrow> string \<Rightarrow> 'n \<Rightarrow> (string \<times> 'n) list option" where
  "ListAllMember 0 Y pre node = None"
| "ListAllMember (Suc fuel) Y pre node =
     (if \<not> prefix_ok pre then Some []
      else if y_isMap Y node then
        map_option (\<lambda>outs. (pre, node) # concat outs)
          (Option.bind (y_pairs Y node) (cast_all (\<lambda>(k, v). ListAllMember fuel Y (member_name pre (y_scalar Y k)) v)))
      else Some [(pre, node)])"

definition node_text :: "'n yaml \<Rightarrow> 'n \<Rightarrow> string" where
  "node_text Y n = (if y_isScalar Y n then y_scalar Y n else y_emit Y n)"

definition load_member ::
    "'n yaml \<Rightarrow> 'v conversions \<Rightarrow> ('cb \<Rightarrow> 'v \<Rightarrow> 'v \<Rightarrow> 's \<Rightarrow> (bool \<times> 's) option) \<Rightarrow> string \<times> 'n \<Rightarrow> ('v, 'cb) config \<times> 's
      \<Rightarrow> (('v, 'cb) config \<times> 's) option" where
  "load_member Y T call item ms =
     (let (m, s) = ms; key = lower (fst item) in
      if fst item = '''' then Some (m, s)
      else case Config_LookupBase key m of
             None \<Rightarrow> Some (m, s)
           | Some var \<Rightarrow>
               map_option (\<lambda>(_, var', s'). (map_put (<) key var' m, s'))
                 (ConfigVar_fromString T call (node_text Y (snd item)) var s))"

fun load_members ::
    "'n yaml \<Rightarrow> 'v conversions \<Rightarrow> ('cb \<Rightarrow> 'v \<Rightarrow> 'v \<Rightarrow> 's \<Rightarrow> (bool \<times> 's) option) \<Rightarrow> (string \<times> 'n) list \<Rightarrow> ('v, 'cb) config \<times> 's
      \<Rightarrow> (('v, 'cb) config \<times> 's) option" where
  "load_members Y T call [] ms = Some ms"
| "load_members Y T call (item # items) ms = Option.bind (load_member Y T call item ms) (load_members Y T call items)"

text \<open>The result is \<open>None\<close> when a callback does not return, or the fuel is exhausted.\<close>

definition Config_LoadFromYaml ::
    "nat \<Rightarrow> 'n yaml \<Rightarrow> 'v conversions \<Rightarrow> ('cb \<Rightarrow> 'v \<Rightarrow> 'v \<Rightarrow> 's \<Rightarrow> (bool \<times> 's) option) \<Rightarrow> 'n \<Rightarrow> ('v, 'cb) config \<times> 's
      \<Rightarrow> (('v, 'cb) config \<times> 's) option" where
  "Config_LoadFromYaml fuel Y T call root ms =
     Option.bind (ListAllMember fuel Y '''' root) (\<lambda>all_nodes. load_members Y T call all_nodes ms)"

text \<open>
  \<^verbatim>\<open>LoadFromConfDir\<close>: \<open>mtime\<close> is the modification time that \<^verbatim>\<open>lstat\<close> gives, \<open>load\<close> is \<^verbatim>\<open>YAML::LoadFile\<close>, \<open>None\<close> when it throws. The table of times
  answers 0 for a file it does not know. \<open>fuel\<close> bounds the depth of the directories and of the trees.
\<close>

fun load_files ::
    "nat \<Rightarrow> 'n yaml \<Rightarrow> 'v conversions \<Rightarrow> ('cb \<Rightarrow> 'v \<Rightarrow> 'v \<Rightarrow> 's \<Rightarrow> (bool \<times> 's) option) \<Rightarrow> (string \<Rightarrow> u64) \<Rightarrow> (string \<Rightarrow> 'n option) \<Rightarrow> string list
      \<Rightarrow> (string \<rightharpoonup> u64) \<Rightarrow> ('v, 'cb) config \<times> 's \<Rightarrow> ((string \<rightharpoonup> u64) \<times> ('v, 'cb) config \<times> 's) option" where
  "load_files fuel Y T call mtime load [] mtimes ms = Some (mtimes, ms)"
| "load_files fuel Y T call mtime load (item # files) mtimes ms =
     (if (case mtimes item of Some t \<Rightarrow> t | None \<Rightarrow> 0) = mtime item
      then load_files fuel Y T call mtime load files (mtimes(item \<mapsto> mtime item)) ms
      else Option.bind (case load item of None \<Rightarrow> Some ms | Some root \<Rightarrow> Config_LoadFromYaml fuel Y T call root ms)
             (load_files fuel Y T call mtime load files (mtimes(item \<mapsto> mtime item))))"

definition Config_LoadFromConfDir ::
    "nat \<Rightarrow> 'n yaml \<Rightarrow> 'v conversions \<Rightarrow> ('cb \<Rightarrow> 'v \<Rightarrow> 'v \<Rightarrow> 's \<Rightarrow> (bool \<times> 's) option) \<Rightarrow> (string \<Rightarrow> u64) \<Rightarrow> (string \<Rightarrow> 'n option)
      \<Rightarrow> (string \<Rightarrow> (string \<times> d_type) list option) \<Rightarrow> Env \<Rightarrow> string \<Rightarrow> (string \<rightharpoonup> u64) \<Rightarrow> ('v, 'cb) config \<times> 's
      \<Rightarrow> ((string \<rightharpoonup> u64) \<times> ('v, 'cb) config \<times> 's) option" where
  "Config_LoadFromConfDir fuel Y T call mtime load readdir env path mtimes ms =
     Option.bind (ListAllFile fuel readdir (Env_getAbsolutionPath path env) ''.yml'') (\<lambda>files.
       load_files fuel Y T call mtime load files mtimes ms)"

section \<open>The invariant of the table\<close>

text \<open>What the program does to a variable it holds a pointer to.\<close>

inductive var_step ::
    "'v conversions \<Rightarrow> ('cb \<Rightarrow> 'v \<Rightarrow> 'v \<Rightarrow> 's \<Rightarrow> (bool \<times> 's) option) \<Rightarrow> ('v, 'cb) config_var \<Rightarrow> ('v, 'cb) config_var \<Rightarrow> bool"
  for T :: "'v conversions" and call :: "'cb \<Rightarrow> 'v \<Rightarrow> 'v \<Rightarrow> 's \<Rightarrow> (bool \<times> 's) option" where
  step_setValue: "ConfigVar_setValue T call v var s = Some (ok, var', s') \<Longrightarrow> var_step T call var var'"
| step_setCallBack: "ConfigVar_setCallBack cb i var = (k, i', var') \<Longrightarrow> var_step T call var var'"
| step_removeCallBack: "var_step T call var (ConfigVar_removeCallBack k var)"
| step_clearCallBack: "var_step T call var (ConfigVar_clearCallBack var)"
| step_fromString: "ConfigVar_fromString T call t var s = Some (r, var', s') \<Longrightarrow> var_step T call var var'"

inductive config_reach ::
    "'v conversions \<Rightarrow> ('cb \<Rightarrow> 'v \<Rightarrow> 'v \<Rightarrow> 's \<Rightarrow> (bool \<times> 's) option) \<Rightarrow> ('v, 'cb) config \<Rightarrow> bool"
  for T :: "'v conversions" and call :: "'cb \<Rightarrow> 'v \<Rightarrow> 'v \<Rightarrow> 's \<Rightarrow> (bool \<times> 's) option" where
  reach_empty: "config_reach T call []"
| reach_Lookup: "config_reach T call m \<Longrightarrow> Config_Lookup ty n d desc m = Inr (r, m') \<Longrightarrow> config_reach T call m'"
| reach_step: "config_reach T call m \<Longrightarrow> Config_LookupBase k m = Some var \<Longrightarrow> var_step T call var var'
    \<Longrightarrow> config_reach T call (map_put (<) k var' m)"

definition entry_ok :: "string \<Rightarrow> ('v, 'cb) config_var \<Rightarrow> bool" where
  "entry_ok k var \<longleftrightarrow> cv_name var = k \<and> lower k = k \<and> set k \<subseteq> set valid_chars"

definition config_ok :: "('v, 'cb) config \<Rightarrow> bool" where
  "config_ok m \<longleftrightarrow> map_ok (<) m \<and> (\<forall>k var. Config_LookupBase k m = Some var \<longrightarrow> entry_ok k var)"

lemmas config_defs = Config_Lookup_def Config_Lookup_name_def Config_LookupBase_def

lemma to_lower_idem [simp]: "to_lower (to_lower c) = to_lower c"
proof (cases "65 \<le> (of_char c :: nat) \<and> (of_char c :: nat) \<le> 90")
  case True
  then have "(of_char (to_lower c) :: nat) = of_char c + 32" by (simp add: to_lower_def)
  then show ?thesis using True by (simp add: to_lower_def [of "to_lower c"])
qed (auto simp: to_lower_def)

lemma lower_idem [simp]: "lower (lower n) = lower n"
  by (simp add: lower_def)

lemma setValue_keeps:
  assumes "ConfigVar_setValue T call v var s = Some (ok, var', s')"
  shows "cv_name var' = cv_name var \<and> cv_type var' = cv_type var"
proof -
  have "var' = var \<or> var' = setValue_assign v var"
    using assms by (auto simp: ConfigVar_setValue_def split: option.split_asm if_split_asm)
  then show ?thesis by (auto simp: setValue_assign_def)
qed

lemma fromString_keeps: "ConfigVar_fromString T call t var s = Some (r, var', s') \<Longrightarrow> cv_name var' = cv_name var \<and> cv_type var' = cv_type var"
  by (cases "ct_from T (cv_type var) t") (auto simp: ConfigVar_fromString_def dest: setValue_keeps)

lemma var_step_keeps: "var_step T call var var' \<Longrightarrow> cv_name var' = cv_name var \<and> cv_type var' = cv_type var"
  by (induction rule: var_step.induct)
    (auto simp: ConfigVar_setCallBack_def ConfigVar_removeCallBack_def ConfigVar_clearCallBack_def Let_def
      dest: setValue_keeps fromString_keeps)

lemma LookupBase_put:
  "map_ok (<) m \<Longrightarrow> Config_LookupBase k' (map_put (<) k var m) = (if k' = k then Some var else Config_LookupBase k' m)"
  by (simp add: Config_LookupBase_def names.find_put)

lemma config_ok_put: "config_ok m \<Longrightarrow> entry_ok k var \<Longrightarrow> config_ok (map_put (<) k var m)"
  by (simp add: config_ok_def LookupBase_put names.put_ok)

lemma config_reach_ok: "config_reach T call m \<Longrightarrow> config_ok m"
proof (induction rule: config_reach.induct)
  case reach_empty
  show ?case by (simp add: config_ok_def names.ok_Nil Config_LookupBase_def)
next
  case (reach_Lookup m ty n d desc r m')
  have "entry_ok (lower n) (ConfigVar_new ty (lower n) d desc)" if "set (lower n) \<subseteq> set valid_chars"
    using that by (simp add: entry_ok_def ConfigVar_new_def)
  then show ?case using reach_Lookup
    by (auto simp: Config_Lookup_def Let_def split: option.splits if_splits intro: config_ok_put)
next
  case (reach_step m k var var')
  then show ?case by (auto dest!: var_step_keeps simp: config_ok_def entry_ok_def LookupBase_put names.put_ok)
qed

lemma Lookup_name_needs_lower: "config_ok m \<Longrightarrow> n \<noteq> lower n \<Longrightarrow> Config_Lookup_name ty n m = None"
  by (auto simp: config_ok_def entry_ok_def config_defs split: option.splits)

lemma Lookup_outcome:
  assumes ok: "config_ok m" and res: "Config_Lookup ty n d desc m = Inr (Some k, m')"
  shows "k = lower n \<and> config_ok m' \<and>
    (\<exists>var. Config_LookupBase k m' = Some var \<and> cv_name var = k \<and> cv_type var = ty \<and>
      Config_LookupBase k m \<in> {None, Some var} \<and> (Config_LookupBase k m = None \<longrightarrow> var = ConfigVar_new ty k d desc)) \<and>
    (\<forall>k'. k' \<noteq> k \<longrightarrow> Config_LookupBase k' m' = Config_LookupBase k' m)"
proof (cases "Config_LookupBase (lower n) m")
  case None
  then have k: "k = lower n" "m' = map_put (<) k (ConfigVar_new ty k d desc) m" "set k \<subseteq> set valid_chars"
    using res by (auto simp: config_defs Let_def split: if_splits)
  have new: "cv_name (ConfigVar_new ty k d desc) = k" "cv_type (ConfigVar_new ty k d desc) = ty"
    by (simp_all add: ConfigVar_new_def k(1))
  have "config_ok m'" unfolding k(2) using ok k(1,3) new by (auto intro!: config_ok_put simp: entry_ok_def)
  moreover have "map_ok (<) m" using ok by (simp add: config_ok_def)
  ultimately show ?thesis using k(1) None new by (simp add: k(2) LookupBase_put)
next
  case (Some var)
  then have "k = lower n" "m' = m" "cv_type var = ty"
    using res by (auto simp: config_defs Let_def split: if_splits)
  then show ?thesis using Some ok by (auto simp: config_ok_def entry_ok_def)
qed

lemma Lookup_found:
  assumes ok: "config_ok m" and res: "Config_Lookup ty n d desc m = Inr (Some k, m')"
  shows "k = lower n \<and>
    (\<exists>var. Config_Lookup_name ty k m' = Some var \<and> cv_name var = k \<and>
       Config_LookupBase k m \<in> {None, Some var} \<and> (Config_LookupBase k m = None \<longrightarrow> var = ConfigVar_new ty k d desc)) \<and>
    (\<forall>k'. k' \<noteq> k \<longrightarrow> Config_LookupBase k' m' = Config_LookupBase k' m) \<and>
    (\<forall>n' d' desc'. lower n' = k \<longrightarrow> Config_Lookup ty n' d' desc' m' = Inr (Some k, m'))"
proof -
  note out = Lookup_outcome [OF ok res]
  then obtain var where var: "Config_LookupBase k m' = Some var" "cv_name var = k" "cv_type var = ty"
    "Config_LookupBase k m \<in> {None, Some var}" "Config_LookupBase k m = None \<longrightarrow> var = ConfigVar_new ty k d desc"
    by (elim conjE exE)
  have "Config_Lookup_name ty k m' = Some var" using var(1,3) by (simp add: config_defs)
  moreover have "\<forall>n' d' desc'. lower n' = k \<longrightarrow> Config_Lookup ty n' d' desc' m' = Inr (Some k, m')"
    using var(1,3) by (intro allI impI) (simp add: config_defs)
  ultimately show ?thesis using out var(2,4,5) by (intro conjI exI [of _ var]) simp_all
qed

text \<open>
  (C23) \<^verbatim>\<open>Config::Lookup\<close> with a default value, on any table the program can have built. It is insensitive to case: a variable is registered once
  under its lower case name, with the first default and type; every later \<^verbatim>\<open>Lookup\<close> of any spelling with the same type gives the same variable and
  changes nothing, other variables stay. It answers a null pointer exactly when the variable has another type, and throws exactly when the name
  is not there and has a character out of \<^verbatim>\<open>[a-z._0-9]\<close> in lower case: bad names are refused. The overload without a default value finds only lower case spellings.
\<close>

theorem config_lookup_laws:
  assumes "config_reach T call m"
  shows "(\<forall>ty n d desc e. Config_Lookup ty n d desc m = Inl e \<longleftrightarrow>
        e = Config_invalid_argument (lower n) \<and> \<not> set (lower n) \<subseteq> set valid_chars \<and> Config_LookupBase (lower n) m = None) \<and>
    (\<forall>ty n d desc m'. Config_Lookup ty n d desc m = Inr (None, m') \<longleftrightarrow>
        m' = m \<and> (\<exists>var. Config_LookupBase (lower n) m = Some var \<and> cv_type var \<noteq> ty)) \<and>
    (\<forall>ty n d desc k m'. Config_Lookup ty n d desc m = Inr (Some k, m') \<longrightarrow>
        k = lower n \<and>
        (\<exists>var. Config_Lookup_name ty k m' = Some var \<and> cv_name var = k \<and>
           Config_LookupBase k m \<in> {None, Some var} \<and> (Config_LookupBase k m = None \<longrightarrow> var = ConfigVar_new ty k d desc)) \<and>
        (\<forall>k'. k' \<noteq> k \<longrightarrow> Config_LookupBase k' m' = Config_LookupBase k' m) \<and>
        (\<forall>n' d' desc'. lower n' = k \<longrightarrow> Config_Lookup ty n' d' desc' m' = Inr (Some k, m'))) \<and>
    (\<forall>ty n. n \<noteq> lower n \<longrightarrow> Config_Lookup_name ty n m = None)"
proof (intro conjI)
  have ok: "config_ok m" using assms by (rule config_reach_ok)
  show "\<forall>ty n d desc e. Config_Lookup ty n d desc m = Inl e \<longleftrightarrow>
        e = Config_invalid_argument (lower n) \<and> \<not> set (lower n) \<subseteq> set valid_chars \<and> Config_LookupBase (lower n) m = None"
    by (auto simp: config_defs Let_def split: option.splits if_splits)
  show "\<forall>ty n d desc m'. Config_Lookup ty n d desc m = Inr (None, m') \<longleftrightarrow>
        m' = m \<and> (\<exists>var. Config_LookupBase (lower n) m = Some var \<and> cv_type var \<noteq> ty)"
    by (auto simp: config_defs Let_def split: option.splits if_splits)
  show "\<forall>ty n. n \<noteq> lower n \<longrightarrow> Config_Lookup_name ty n m = None" using Lookup_name_needs_lower [OF ok] by blast
  show "\<forall>ty n d desc k m'. Config_Lookup ty n d desc m = Inr (Some k, m') \<longrightarrow>
        k = lower n \<and>
        (\<exists>var. Config_Lookup_name ty k m' = Some var \<and> cv_name var = k \<and>
           Config_LookupBase k m \<in> {None, Some var} \<and> (Config_LookupBase k m = None \<longrightarrow> var = ConfigVar_new ty k d desc)) \<and>
        (\<forall>k'. k' \<noteq> k \<longrightarrow> Config_LookupBase k' m' = Config_LookupBase k' m) \<and>
        (\<forall>n' d' desc'. lower n' = k \<longrightarrow> Config_Lookup ty n' d' desc' m' = Inr (Some k, m'))"
    by (intro allI impI) (rule Lookup_found [OF ok])
qed

definition int_text :: "int conversions" where
  "int_text = \<lparr>ct_from = (\<lambda>_ t. if t = ''1'' then Some 1 else if t = ''2'' then Some 2 else None), ct_to = (\<lambda>_ _. None), ct_eq = (=)\<rparr>"

definition no_callback :: "unit \<Rightarrow> int \<Rightarrow> int \<Rightarrow> unit \<Rightarrow> (bool \<times> unit) option" where
  "no_callback _ _ _ s = Some (True, s)"

definition one_var :: "(int, unit) config" where
  "one_var = [(''tcp.port'', ConfigVar_new ''int'' ''tcp.port'' 8080 [])]"

lemma one_var_reach: "config_reach int_text no_callback one_var"
proof -
  have "Config_Lookup ''int'' ''TCP.port'' 8080 [] ([] :: (int, unit) config) = Inr (Some ''tcp.port'', one_var)"
    by code_simp
  then show ?thesis by (rule reach_Lookup [OF reach_empty])
qed

theorem config_lookup_laws_witness:
  "Config_Lookup ''int'' ''Tcp.Port'' 9090 ''again'' one_var = Inr (Some ''tcp.port'', one_var) \<and>
   Config_Lookup_name ''int'' ''Tcp.Port'' one_var = None \<and>
   Config_Lookup ''int'' ''tcp port'' 1 [] one_var = Inl (Config_invalid_argument ''tcp port'')"
proof -
  have low: "lower ''Tcp.Port'' = ''tcp.port''" "lower ''tcp.port'' = ''tcp.port''" by code_simp+
  have first: "Config_Lookup ''int'' ''tcp.port'' 0 [] one_var = Inr (Some ''tcp.port'', one_var)"
    by (simp add: Config_Lookup_def one_var_def low ConfigVar_new_def Let_def)
  note laws = config_lookup_laws [OF one_var_reach]
  have bad: "lower ''tcp port'' = ''tcp port''" "\<not> set ''tcp port'' \<subseteq> set valid_chars" "Config_LookupBase ''tcp port'' one_var = None"
    by code_simp+
  show ?thesis
    using laws [THEN conjunct1, rule_format, of "''int''" "''tcp port''" 1 "[]" "Config_invalid_argument ''tcp port''"] bad
      laws [THEN conjunct2, THEN conjunct2, THEN conjunct1, rule_format, OF first]
      laws [THEN conjunct2, THEN conjunct2, THEN conjunct2, rule_format, of "''Tcp.Port''" "''int''"] low
    by simp
qed

section \<open>Loading a tree\<close>

text \<open>The nodes under \<open>node\<close> with their dotted paths, below prefixes of admitted characters.\<close>

inductive yaml_member :: "'n yaml \<Rightarrow> string \<Rightarrow> 'n \<Rightarrow> string \<Rightarrow> 'n \<Rightarrow> bool" for Y :: "'n yaml" where
  member_self: "prefix_ok pre \<Longrightarrow> yaml_member Y pre node pre node"
| member_down: "prefix_ok pre \<Longrightarrow> y_isMap Y node \<Longrightarrow> y_pairs Y node = Some ps \<Longrightarrow> (k, v) \<in> set ps
    \<Longrightarrow> yaml_member Y (member_name pre (y_scalar Y k)) v p n \<Longrightarrow> yaml_member Y pre node p n"

inductive_simps yaml_member_simps: "yaml_member Y pre node p n"

text \<open>A finite tree: a map gives its pairs, whose values are less deep.\<close>

definition yaml_finite :: "'n yaml \<Rightarrow> ('n \<Rightarrow> nat) \<Rightarrow> bool" where
  "yaml_finite Y depth \<longleftrightarrow> (\<forall>n. y_isMap Y n \<longrightarrow> (\<exists>ps. y_pairs Y n = Some ps \<and> (\<forall>kv\<in>set ps. depth (snd kv) < depth n)))"

lemma ListAllMember_total:
  assumes "yaml_finite Y depth" "depth node < fuel"
  shows "\<exists>out. ListAllMember fuel Y pre node = Some out"
  using assms(2)
proof (induction fuel arbitrary: pre node)
  case (Suc fuel)
  show ?case
  proof (cases "prefix_ok pre \<and> y_isMap Y node")
    case True
    then obtain ps where ps: "y_pairs Y node = Some ps" "\<forall>kv\<in>set ps. depth (snd kv) < depth node"
      using assms(1) by (auto simp: yaml_finite_def)
    have "\<exists>outs. cast_all (\<lambda>(k, v). ListAllMember fuel Y (member_name pre (y_scalar Y k)) v) ps = Some outs"
      using ps(2) Suc by (intro cast_all_total) fastforce
    then show ?thesis using True ps(1) by auto
  qed auto
qed simp

lemma ListAllMember_members:
  assumes "ListAllMember fuel Y pre node = Some out"
  shows "set out = {(p, n). yaml_member Y pre node p n}"
  using assms
proof (induction fuel arbitrary: pre node out)
  case (Suc fuel)
  have down: "yaml_member Y pre node p n \<longleftrightarrow> prefix_ok pre \<and> (p = pre \<and> n = node \<or>
      (\<exists>ps k v. y_isMap Y node \<and> y_pairs Y node = Some ps \<and> (k, v) \<in> set ps \<and> yaml_member Y (member_name pre (y_scalar Y k)) v p n))"
    for p n by (subst yaml_member_simps) auto
  show ?case
  proof (cases "prefix_ok pre \<and> y_isMap Y node")
    case True
    then obtain ps outs where ps: "y_pairs Y node = Some ps" and out: "out = (pre, node) # concat outs"
      and outs: "cast_all (\<lambda>(k, v). ListAllMember fuel Y (member_name pre (y_scalar Y k)) v) ps = Some outs"
      using Suc.prems by (auto simp: bind_eq_Some_conv)
    have "x \<in> set (concat outs) \<longleftrightarrow> (\<exists>k v. (k, v) \<in> set ps \<and> (\<exists>xs. ListAllMember fuel Y (member_name pre (y_scalar Y k)) v = Some xs \<and> x \<in> set xs))" for x
      unfolding cast_all_concat [OF outs] by (simp add: Bex_def split_paired_Ex)
    moreover have "\<exists>xs. ListAllMember fuel Y (member_name pre (y_scalar Y k)) v = Some xs" if "(k, v) \<in> set ps" for k v
      using cast_all_each [OF outs that] by simp
    ultimately have "(p, n) \<in> set (concat outs) \<longleftrightarrow> (\<exists>k v. (k, v) \<in> set ps \<and> yaml_member Y (member_name pre (y_scalar Y k)) v p n)" for p n
      using Suc.IH by fastforce
    then show ?thesis using True ps by (auto simp: out down)
  qed (use Suc.prems in \<open>auto simp: down split: if_splits\<close>)
qed simp

text \<open>One assignment to a variable, when its callbacks return normally.\<close>

definition assigned :: "'v conversions \<Rightarrow> 'v \<Rightarrow> ('v, 'cb) config_var \<Rightarrow> ('v, 'cb) config_var" where
  "assigned T v var = (if ct_eq T (cv_val var) v then var else var\<lparr>cv_val := v\<rparr>)"

text \<open>The values that the members with the name \<open>k\<close> have in the type \<open>ty\<close>, in order; texts that do not convert are left out.\<close>

definition named_values :: "'n yaml \<Rightarrow> 'v conversions \<Rightarrow> string \<Rightarrow> string \<Rightarrow> (string \<times> 'n) list \<Rightarrow> 'v list" where
  "named_values Y T k ty items =
     List.map_filter (\<lambda>(p, n). if p \<noteq> [] \<and> lower p = k then ct_from T ty (node_text Y n) else None) items"

lemma named_values_simps [simp]:
  "named_values Y T k ty [] = []"
  "named_values Y T k ty (item # items) =
     (case if fst item \<noteq> [] \<and> lower (fst item) = k then ct_from T ty (node_text Y (snd item)) else None of
        None \<Rightarrow> named_values Y T k ty items
      | Some v \<Rightarrow> v # named_values Y T k ty items)"
  by (simp_all add: named_values_def List.map_filter_def split: prod.splits option.splits)

lemma assigned_type [simp]: "cv_type (assigned T v var) = cv_type var"
  by (simp add: assigned_def)

lemma run_callbacks_ok:
  assumes "\<forall>cb old new s. \<exists>s'. call cb old new s = Some (True, s')"
  shows "\<exists>s'. run_callbacks call old new cbs s = Some (True, s')"
proof (induction cbs arbitrary: s)
  case (Cons x cbs)
  obtain k cb where x: "x = (k, cb)" by fastforce
  obtain s1 where "call cb old new s = Some (True, s1)" using assms by blast
  then show ?case using Cons [of s1] by (simp add: x)
qed simp

lemma fromString_value:
  assumes "\<forall>cb old new s. \<exists>s'. call cb old new s = Some (True, s')"
  shows "\<exists>s'. ConfigVar_fromString T call t var s =
    Some (False, case ct_from T (cv_type var) t of None \<Rightarrow> var | Some v \<Rightarrow> assigned T v var, s')"
proof (cases "ct_from T (cv_type var) t")
  case None
  then show ?thesis by (simp add: ConfigVar_fromString_def)
next
  case (Some v)
  obtain s' where "run_callbacks call (cv_val var) v (cv_callbacks var) s = Some (True, s')"
    using run_callbacks_ok [OF assms] by blast
  then show ?thesis using Some
    by (cases "ct_eq T (cv_val var) v") (simp_all add: ConfigVar_fromString_def setValue_defs assigned_def)
qed

lemma load_member_finds:
  assumes "\<forall>cb old new s. \<exists>s'. call cb old new s = Some (True, s')" "map_ok (<) m"
  shows "\<exists>m' s'. load_member Y T call item (m, s) = Some (m', s') \<and> map_ok (<) m'
    \<and> (\<forall>k. Config_LookupBase k m' = map_option (\<lambda>var. fold (assigned T) (named_values Y T k (cv_type var) [item]) var) (Config_LookupBase k m))"
proof (cases "fst item = [] \<or> Config_LookupBase (lower (fst item)) m = None")
  case True
  have "map_option (\<lambda>var. fold (assigned T) (named_values Y T k (cv_type var) [item]) var) (Config_LookupBase k m) = Config_LookupBase k m" for k
    using True by (cases "Config_LookupBase k m") auto
  then show ?thesis using True assms(2) by (auto simp: load_member_def Let_def split: option.splits)
next
  case False
  then obtain var where var: "fst item \<noteq> []" "Config_LookupBase (lower (fst item)) m = Some var" by auto
  let ?var = "case ct_from T (cv_type var) (node_text Y (snd item)) of None \<Rightarrow> var | Some v \<Rightarrow> assigned T v var"
  obtain s1 where "ConfigVar_fromString T call (node_text Y (snd item)) var s = Some (False, ?var, s1)"
    using fromString_value [OF assms(1)] by blast
  then have "load_member Y T call item (m, s) = Some (map_put (<) (lower (fst item)) ?var m, s1)"
    using var by (simp add: load_member_def Let_def)
  moreover have "Config_LookupBase k (map_put (<) (lower (fst item)) ?var m) =
      map_option (\<lambda>var. fold (assigned T) (named_values Y T k (cv_type var) [item]) var) (Config_LookupBase k m)" for k
    using var assms(2) by (cases "Config_LookupBase k m") (auto simp: LookupBase_put split: option.splits)
  ultimately show ?thesis using assms(2) names.put_ok by fastforce
qed

lemma fold_assigned_type: "cv_type (fold (assigned T) vs var) = cv_type var"
  by (induction vs arbitrary: var) simp_all

lemma load_members_find:
  assumes "\<forall>cb old new s. \<exists>s'. call cb old new s = Some (True, s')" "map_ok (<) m"
  shows "\<exists>m' s'. load_members Y T call items (m, s) = Some (m', s')
    \<and> (\<forall>k. Config_LookupBase k m' = map_option (\<lambda>var. fold (assigned T) (named_values Y T k (cv_type var) items) var) (Config_LookupBase k m))"
  using assms(2)
proof (induction items arbitrary: m s)
  case Nil
  have "map_option (\<lambda>var. fold (assigned T) (named_values Y T k (cv_type var) []) var) (Config_LookupBase k m) = Config_LookupBase k m" for k
    by (cases "Config_LookupBase k m") simp_all
  then show ?case by simp
next
  case (Cons item items)
  obtain m1 s1 where one: "load_member Y T call item (m, s) = Some (m1, s1)" "map_ok (<) m1"
    "\<forall>k. Config_LookupBase k m1 = map_option (\<lambda>var. fold (assigned T) (named_values Y T k (cv_type var) [item]) var) (Config_LookupBase k m)"
    using load_member_finds [OF assms(1) Cons.prems, of Y T item s] by blast
  obtain m' s' where rest: "load_members Y T call items (m1, s1) = Some (m', s')"
    "\<forall>k. Config_LookupBase k m' = map_option (\<lambda>var. fold (assigned T) (named_values Y T k (cv_type var) items) var) (Config_LookupBase k m1)"
    using Cons.IH [OF one(2), of s1] by blast
  have "Config_LookupBase k m' =
      map_option (\<lambda>var. fold (assigned T) (named_values Y T k (cv_type var) (item # items)) var) (Config_LookupBase k m)" for k
    using rest(2) one(3) by (cases "Config_LookupBase k m") (auto simp: fold_assigned_type split: option.splits)
  then show ?case using one(1) rest(1) by simp
qed

text \<open>
  (C22) \<^verbatim>\<open>Config::LoadFromYaml\<close> on a finite tree, for more fuel than the depth of the tree, when all callbacks return normally: it returns. The nodes of the tree are listed in
  the order of the document. A variable is assigned, one after the other, the values of the nodes that name it (by the lower case of their dotted path) and
  whose text converts to its type; so in the end it has the value of the last of these (or one that counts as equal to it, when that assignment changed
  nothing), and a variable without such a node stays as it is. No variable appears or disappears.
\<close>

theorem LoadFromYaml_sets:
  assumes "config_reach T call m" "yaml_finite Y depth" "depth root < fuel"
    "\<forall>cb old new s. \<exists>s'. call cb old new s = Some (True, s')"
  shows "\<exists>out m' s'. ListAllMember fuel Y [] root = Some out \<and> set out = {(p, n). yaml_member Y [] root p n} \<and>
    Config_LoadFromYaml fuel Y T call root (m, s) = Some (m', s') \<and>
    (\<forall>k. Config_LookupBase k m' =
       map_option (\<lambda>var. fold (assigned T) (named_values Y T k (cv_type var) out) var) (Config_LookupBase k m)) \<and>
    (\<forall>k var. Config_LookupBase k m = Some var \<longrightarrow> named_values Y T k (cv_type var) out \<noteq> [] \<longrightarrow>
       (\<exists>var'. Config_LookupBase k m' = Some var' \<and>
          (cv_val var' = last (named_values Y T k (cv_type var) out) \<or>
           ct_eq T (cv_val var') (last (named_values Y T k (cv_type var) out))))) \<and>
    (\<forall>k var. Config_LookupBase k m = Some var \<longrightarrow> named_values Y T k (cv_type var) out = [] \<longrightarrow>
       Config_LookupBase k m' = Some var)"
proof -
  obtain out where out: "ListAllMember fuel Y [] root = Some out" using ListAllMember_total [OF assms(2,3)] by blast
  have ok: "map_ok (<) m" using config_reach_ok [OF assms(1)] by (simp add: config_ok_def)
  obtain m' s' where res: "load_members Y T call out (m, s) = Some (m', s')" and
    find: "\<forall>k. Config_LookupBase k m' = map_option (\<lambda>var. fold (assigned T) (named_values Y T k (cv_type var) out) var) (Config_LookupBase k m)"
    using load_members_find [OF assms(4) ok] by blast
  have load: "Config_LoadFromYaml fuel Y T call root (m, s) = Some (m', s')" by (simp add: Config_LoadFromYaml_def out res)
  have last: "cv_val (fold (assigned T) vs var) = last vs \<or> ct_eq T (cv_val (fold (assigned T) vs var)) (last vs)" if "vs \<noteq> []" for vs and var :: "('a, 'b) config_var"
    using that by (cases vs rule: rev_cases) (auto simp: assigned_def)
  show ?thesis
    by (rule exI [of _ out], rule exI [of _ m'], rule exI [of _ s'])
       (use out ListAllMember_members [OF out] load find last in \<open>auto simp del: named_values_simps\<close>)
qed

text \<open>A callback that crashes takes the program with it: loading a node that changes its variable does not return.\<close>

lemma LoadFromYaml_crash:
  assumes "Config_LookupBase (lower p) m = Some var" "p \<noteq> []" "ct_from T (cv_type var) (node_text Y n) = Some v"
    "\<not> ct_eq T (cv_val var) v" "cv_callbacks var = (i, cb) # cbs" "call cb (cv_val var) v s = None"
    "ListAllMember fuel Y [] root = Some ((p, n) # rest)"
  shows "Config_LoadFromYaml fuel Y T call root (m, s) = None"
  using assms by (simp add: Config_LoadFromYaml_def load_member_def ConfigVar_fromString_def setValue_defs)

text \<open>A tree that satisfies what is assumed of the library.\<close>

datatype ytree = YNull | YText string | YSeq "ytree list" | YMap "(string \<times> ytree) list"

instance ytree :: countable
  by countable_datatype

fun tree_pairs :: "ytree \<Rightarrow> (ytree \<times> ytree) list option" where
  "tree_pairs (YMap kvs) = Some (map (\<lambda>(k, v). (YText k, v)) kvs)"
| "tree_pairs (YSeq (x # xs)) = None"
| "tree_pairs t = Some []"

definition tree_yaml :: "ytree yaml" where
  "tree_yaml = \<lparr>
     y_load = (\<lambda>s. Some (from_nat (length s))),
     y_emit = (\<lambda>t. replicate (to_nat t) (CHR ''x'')),
     y_isMap = (\<lambda>t. case t of YMap _ \<Rightarrow> True | _ \<Rightarrow> False),
     y_isScalar = (\<lambda>t. case t of YText _ \<Rightarrow> True | _ \<Rightarrow> False),
     y_scalar = (\<lambda>t. case t of YText s \<Rightarrow> s | _ \<Rightarrow> []),
     y_pairs = tree_pairs,
     y_size = (\<lambda>t. case t of YSeq xs \<Rightarrow> length xs | YMap kvs \<Rightarrow> length kvs | _ \<Rightarrow> 0),
     y_index = (\<lambda>t i. case t of YSeq xs \<Rightarrow> xs ! i | _ \<Rightarrow> YNull),
     y_get = (\<lambda>t k. case t of YMap kvs \<Rightarrow> Some (map_of kvs k) | YText _ \<Rightarrow> None | _ \<Rightarrow> Some None),
     y_as = (\<lambda>t. case t of YText s \<Rightarrow> Some s | YNull \<Rightarrow> Some ''null'' | _ \<Rightarrow> None),
     y_null = YNull,
     y_text = YText,
     y_push = (\<lambda>t x. case t of YSeq xs \<Rightarrow> YSeq (xs @ [x]) | _ \<Rightarrow> YSeq [x]),
     y_set = (\<lambda>t k v. case t of YMap kvs \<Rightarrow> YMap (AList.update k v kvs) | _ \<Rightarrow> YMap [(k, v)])\<rparr>"

lemma tree_finite: "yaml_finite tree_yaml size"
proof -
  have "size v < Suc (size_list (size_prod (\<lambda>x. 0) size) kvs)" if "(k, v) \<in> set kvs" for k and v :: ytree and kvs :: "(string \<times> ytree) list"
    using that by (induction kvs) auto
  then show ?thesis by (auto simp: yaml_finite_def tree_yaml_def split: ytree.splits)
qed

lemma tree_map_ops:
  "y_isMap tree_yaml (YMap kvs)" "\<not> y_isMap tree_yaml (YText t)"
  "y_pairs tree_yaml (YMap kvs) = Some (map (\<lambda>(k, v). (YText k, v)) kvs)" "y_scalar tree_yaml (YText t) = t"
  by (simp_all add: tree_yaml_def)

theorem LoadFromYaml_sets_witness:
  "\<exists>m'. Config_LoadFromYaml 100 tree_yaml int_text no_callback
       (YMap [(''TCP'', YMap [(''port'', YText ''2''), (''PORT'', YText ''1''), (''name'', YText ''2'')])]) (one_var, ()) = Some (m', ()) \<and>
     map_option cv_val (Config_LookupBase ''tcp.port'' m') = Some 1"
proof -
  let ?u = "YMap [(''port'', YText ''2''), (''PORT'', YText ''1''), (''name'', YText ''2'')]"
  let ?t = "YMap [(''TCP'', ?u)]"
  have low: "lower ''TCP'' = ''tcp''" "lower ''TCP.port'' = ''tcp.port''" "lower ''TCP.PORT'' = ''tcp.port''" "lower ''TCP.name'' = ''tcp.name''"
    by code_simp+
  have ok: "prefix_ok []" "prefix_ok ''TCP''" "prefix_ok ''TCP.port''" "prefix_ok ''TCP.PORT''" "prefix_ok ''TCP.name''" by code_simp+
  define f where "f = (97 :: nat)"
  have fuel: "100 = Suc (Suc (Suc f))" by (simp add: f_def)
  have members: "ListAllMember 100 tree_yaml [] ?t =
      Some [([], ?t), (''TCP'', ?u), (''TCP.port'', YText ''2''), (''TCP.PORT'', YText ''1''), (''TCP.name'', YText ''2'')]"
    unfolding fuel using ok by (simp add: tree_map_ops member_name_def)
  have var: "Config_LookupBase ''tcp.port'' one_var = Some (ConfigVar_new ''int'' ''tcp.port'' 8080 [])"
    by (simp add: one_var_def Config_LookupBase_def)
  have nt: "node_text tree_yaml (YText x) = x" for x by (simp add: node_text_def tree_yaml_def)
  have vals: "named_values tree_yaml int_text ''tcp.port'' ''int''
      [([], ?t), (''TCP'', ?u), (''TCP.port'', YText ''2''), (''TCP.PORT'', YText ''1''), (''TCP.name'', YText ''2'')] = [2, 1]"
    by (simp add: low nt int_text_def)
  obtain out m' s' where m': "ListAllMember 100 tree_yaml [] ?t = Some out"
    "Config_LoadFromYaml 100 tree_yaml int_text no_callback ?t (one_var, ()) = Some (m', s')"
    "Config_LookupBase ''tcp.port'' m' = map_option (\<lambda>var. fold (assigned int_text) (named_values tree_yaml int_text ''tcp.port'' (cv_type var) out) var)
       (Config_LookupBase ''tcp.port'' one_var)"
    using LoadFromYaml_sets [OF one_var_reach tree_finite, of ?t 100 "()"] by (auto simp: no_callback_def)
  have "Config_LookupBase ''tcp.port'' m' = Some ((ConfigVar_new ''int'' ''tcp.port'' 8080 [])\<lparr>cv_val := 1\<rparr>)"
    using m'(1,3) members var vals by (simp add: ConfigVar_new_def assigned_def int_text_def)
  then show ?thesis using m'(2) by auto
qed

section \<open>The log configuration read back\<close>

definition seq_node :: "'n yaml \<Rightarrow> 'n list \<Rightarrow> 'n" where
  "seq_node Y xs = fold (\<lambda>x node. y_push Y node x) xs (y_null Y)"

text \<open>
  What the round trip relies on: the emitted text of a node loads as that node, a text node gives its text, an assigned key is found
  and other keys stay, and a sequence has the elements pushed onto a null node.
\<close>

definition yaml_laws :: "'n yaml \<Rightarrow> bool" where
  "yaml_laws Y \<longleftrightarrow>
     (\<forall>n. y_load Y (y_emit Y n) = Some n) \<and> (\<forall>t. y_as Y (y_text Y t) = Some t) \<and> (\<forall>k. y_get Y (y_null Y) k = Some None) \<and>
     (\<forall>n k v k' r. y_get Y n k' = Some r \<longrightarrow> y_get Y (y_set Y n k v) k' = Some (if k' = k then Some v else r)) \<and>
     (\<forall>xs. y_size Y (seq_node Y xs) = length xs \<and> (\<forall>i < length xs. y_index Y (seq_node Y xs) i = xs ! i))"

definition kept_appender :: "LogAppenderDefine \<Rightarrow> LogAppenderDefine" where
  "kept_appender a = a\<lparr>ad_level := UNKNOW, ad_formatter := if ad_type a = 1 then ad_formatter a else [], ad_file := if ad_type a = 1 then ad_file a else []\<rparr>"

definition kept_define :: "LogDefine \<Rightarrow> LogDefine" where
  "kept_define d = d\<lparr>ld_appenders := map kept_appender (filter (\<lambda>a. ad_type a \<in> {1, 2}) (ld_appenders d))\<rparr>"

lemma yaml_law_simps:
  assumes "yaml_laws Y"
  shows "y_load Y (y_emit Y n) = Some n" "y_as Y (y_text Y t) = Some t" "y_get Y (y_null Y) k = Some None"
    "y_get Y n k' = Some r \<Longrightarrow> y_get Y (y_set Y n k v) k' = Some (if k' = k then Some v else r)"
    "y_size Y (seq_node Y xs) = length xs" "i < length xs \<Longrightarrow> y_index Y (seq_node Y xs) i = xs ! i"
  using assms by (simp_all add: yaml_laws_def)

lemma cast_all_index:
  assumes "yaml_laws Y"
  shows "cast_all (\<lambda>i. f (y_index Y (seq_node Y xs) i)) [0 ..< y_size Y (seq_node Y xs)] = cast_all f xs"
proof -
  have "map (\<lambda>i. f (y_index Y (seq_node Y xs) i)) [0 ..< length xs] = map f xs"
    by (rule nth_equalityI) (simp_all add: yaml_law_simps [OF assms])
  then have "cast_all (\<lambda>i. f (y_index Y (seq_node Y xs) i)) [0 ..< length xs] = Some ys \<longleftrightarrow> cast_all f xs = Some ys" for ys
    by (simp add: cast_all_Some)
  then show ?thesis by (simp add: yaml_law_simps [OF assms]) (metis not_Some_eq)
qed

lemma read_write_appender:
  assumes "yaml_laws Y"
  shows "read_appender Y (write_appender Y a) = Some (if ad_type a \<in> {1, 2} then Some (kept_appender a) else None)"
  by (cases a) (simp add: read_appender_def write_appender_def kept_appender_def yaml_law_simps [OF assms] Let_def)

lemma seq_node_snoc: "y_push Y (seq_node Y xs) x = seq_node Y (xs @ [x])"
  by (simp add: seq_node_def)

text \<open>Nodes pushed one by one onto the entry \<open>key\<close> of a map.\<close>

lemma get_pushed:
  assumes "yaml_laws Y" "y_get Y n k = Some r" "y_get Y n key = Some (if xs = [] then None else Some (seq_node Y xs))"
  shows "y_get Y (fold (\<lambda>i n. push_at Y key (w i) n) as n) k =
    Some (if k = key then if xs = [] \<and> as = [] then None else Some (seq_node Y (xs @ map w as)) else r)"
  using assms(2,3)
proof (induction as arbitrary: n xs r)
  case (Cons a as)
  let ?n = "push_at Y key (w a) n"
  have node: "?n = y_set Y n key (seq_node Y (xs @ [w a]))"
    using Cons.prems(2) by (simp add: push_at_def seq_node_snoc [symmetric] seq_node_def)
  have "y_get Y ?n key = Some (Some (seq_node Y (xs @ [w a])))"
    unfolding node by (subst yaml_law_simps(4) [OF assms(1) Cons.prems(2)]) simp
  moreover have "y_get Y ?n k = Some (if k = key then Some (seq_node Y (xs @ [w a])) else r)"
    unfolding node by (rule yaml_law_simps(4) [OF assms(1) Cons.prems(1)])
  ultimately show ?case using Cons.IH [of ?n _ "xs @ [w a]"] by simp
qed auto

lemma LogLevel_roundtrip: "LogLevel_FromString (LogLevel_ToString l) = l" "LogLevel_FromString [] = UNKNOW"
  by (cases l) (simp_all add: LogLevel_FromString_def)

lemma read_write_logger:
  assumes "yaml_laws Y"
  shows "read_logger Y (write_logger Y d) = Some (Some (kept_define d))"
proof -
  let ?n0 = "y_set Y (y_null Y) ''name'' (y_text Y (ld_name d))"
  let ?n1 = "if ld_level d \<noteq> UNKNOW then y_set Y ?n0 ''level'' (y_text Y (LogLevel_ToString (ld_level d))) else ?n0"
  define n where "n = (if ld_formatter d \<noteq> [] then y_set Y ?n1 ''formatter'' (y_text Y (ld_formatter d)) else ?n1)"
  have n: "y_get Y n ''name'' = Some (Some (y_text Y (ld_name d)))"
    "y_get Y n ''level'' = Some (if ld_level d \<noteq> UNKNOW then Some (y_text Y (LogLevel_ToString (ld_level d))) else None)"
    "y_get Y n ''formatter'' = Some (if ld_formatter d \<noteq> [] then Some (y_text Y (ld_formatter d)) else None)"
    "y_get Y n ''appenders'' = Some None"
    by (simp_all add: n_def yaml_law_simps [OF assms])
  have w: "write_logger Y d = fold (\<lambda>i n. push_at Y ''appenders'' (write_appender Y i) n) (ld_appenders d) n"
    by (simp add: write_logger_def n_def)
  have get: "y_get Y (write_logger Y d) k =
      Some (if k = ''appenders'' then if ld_appenders d = [] then None else Some (seq_node Y (map (write_appender Y) (ld_appenders d))) else r)"
    if "y_get Y n k = Some r" for k r
    unfolding w using get_pushed [OF assms that, of "''appenders''" "[]" "write_appender Y" "ld_appenders d"] n(4) by simp
  have aps: "cast_all (\<lambda>i. read_appender Y (y_index Y (seq_node Y (map (write_appender Y) as)) i))
        [0 ..< y_size Y (seq_node Y (map (write_appender Y) as))] =
      Some (map (\<lambda>a. if ad_type a \<in> {1, 2} then Some (kept_appender a) else None) as)" for as
    unfolding cast_all_index [OF assms] cast_all_map by (rule cast_all_const) (rule read_write_appender [OF assms])
  have kept: "List.map_filter id (map (\<lambda>a. if ad_type a \<in> {1, 2} then Some (kept_appender a) else None) as) =
      map kept_appender (filter (\<lambda>a. ad_type a \<in> {1, 2}) as)" for as
    by (induction as) (simp_all add: List.map_filter_def)
  have read: "read_appenders Y (write_logger Y d) = Some (map kept_appender (filter (\<lambda>a. ad_type a \<in> {1, 2}) (ld_appenders d)))"
    unfolding read_appenders_def get [OF n(4)] using aps [of "ld_appenders d"] kept [of "ld_appenders d"] by auto
  have "read_optional Y (write_logger Y d) ''level'' = Some (if ld_level d \<noteq> UNKNOW then LogLevel_ToString (ld_level d) else [])"
    "read_optional Y (write_logger Y d) ''formatter'' = Some (ld_formatter d)"
    unfolding read_optional_def get [OF n(2)] get [OF n(3)] by (simp_all add: yaml_law_simps [OF assms])
  then show ?thesis using read
    unfolding read_logger_def get [OF n(1)]
    by (auto simp: yaml_law_simps [OF assms] LogLevel_roundtrip kept_define_def intro!: LogDefine.equality)
qed

lemma define_insert_last: "\<forall>x\<in>set xs. ld_name x < ld_name d \<Longrightarrow> define_insert d xs = xs @ [d]"
  by (induction xs) (auto simp: LogDefine_less_def)

lemma define_insert_sorted:
  "sorted_wrt (<) (map ld_name (xs @ ds)) \<Longrightarrow> fold define_insert ds xs = xs @ ds"
proof (induction ds arbitrary: xs)
  case (Cons d ds)
  then have "define_insert d xs = xs @ [d]" by (intro define_insert_last) (auto simp: sorted_wrt_append)
  then show ?case using Cons by simp
qed simp

lemma seq_roundtrip:
  assumes "yaml_laws Y" "\<forall>x\<in>set xs. \<exists>t n. elem_of x = Some t \<and> y_load Y t = Some n \<and> elem_to (y_emit Y n) = Some x"
  shows "Option.bind (LexicalCast_of_seq Y elem_of xs) (LexicalCast_to_seq Y elem_to ins none) = Some (fold ins xs none)"
proof -
  obtain ns where ns: "cast_all (\<lambda>x. Option.bind (elem_of x) (y_load Y)) xs = Some ns"
    using cast_all_total [of xs "\<lambda>x. Option.bind (elem_of x) (y_load Y)"] assms(2) by fastforce
  have "map (\<lambda>n. elem_to (y_emit Y n)) ns = map Some xs"
    using ns assms(2) unfolding cast_all_Some by (induction xs arbitrary: ns) (auto simp: Cons_eq_map_conv)
  then have "cast_all (\<lambda>n. elem_to (y_emit Y n)) ns = Some xs" by (simp add: cast_all_Some)
  then show ?thesis using cast_all_index [OF assms(1), of "\<lambda>n. elem_to (y_emit Y n)" ns]
    by (simp add: LexicalCast_of_seq_def LexicalCast_to_seq_def ns seq_node_def [symmetric] yaml_law_simps [OF assms(1)])
qed

lemma insort_insert_sorted: "sorted_wrt (<) (xs @ ys) \<Longrightarrow> fold insort_insert ys xs = xs @ (ys :: 'a::linorder list)"
proof (induction ys arbitrary: xs)
  case (Cons y ys)
  have "\<forall>x\<in>set xs. x < y" using Cons.prems by (simp add: sorted_wrt_append)
  then have "insort_insert y xs = xs @ [y]" by (induction xs) (auto simp: insort_insert_key_def)
  then show ?case using Cons by simp
qed simp

text \<open>
  Sequence containers written as YAML and read back: for elements whose text loads and converts back from the text of that node, a vector, a list and a
  sorted set come back as they were, and an unordered set with the same elements whatever the order it is iterated in.
\<close>

theorem containers_roundtrip:
  assumes "yaml_laws Y" "\<And>x. \<exists>t n. elem_of x = Some t \<and> y_load Y t = Some n \<and> elem_to (y_emit Y n) = Some x"
  shows "Option.bind (LexicalCast_of_vector Y elem_of xs) (LexicalCast_to_vector Y elem_to) = Some xs \<and>
    Option.bind (LexicalCast_of_list Y elem_of xs) (LexicalCast_to_list Y elem_to) = Some xs \<and>
    (sorted_wrt (<) xs \<longrightarrow> Option.bind (LexicalCast_of_set Y elem_of xs) (LexicalCast_to_set Y elem_to) = Some xs) \<and>
    (set (order S) = S \<longrightarrow> Option.bind (LexicalCast_of_unordered_set order Y elem_of S) (LexicalCast_to_unordered_set Y elem_to) = Some S)"
proof -
  have "fold (\<lambda>x vec. vec @ [x]) xs ys = ys @ xs" for ys by (induction xs arbitrary: ys) simp_all
  then show ?thesis using insort_insert_sorted [of "[]" xs]
    by (simp add: seq_roundtrip [OF assms(1) ballI [OF assms(2)]] union_set_fold [symmetric] LexicalCast_of_vector_def LexicalCast_to_vector_def LexicalCast_of_list_def LexicalCast_to_list_def LexicalCast_of_set_def
        LexicalCast_to_set_def LexicalCast_of_unordered_set_def LexicalCast_to_unordered_set_def)
qed

text \<open>
  (C25) The set of logger definitions written as YAML and read back, for a library that loads what it emits: the same loggers with
  the same levels, formatters and appenders in order, except that appenders lose their levels, and console appenders their formatters.
\<close>

theorem log_defines_roundtrip:
  assumes "yaml_laws Y" "sorted_wrt (<) (map ld_name ds)"
  shows "LexicalCast_to_LogDefines Y (LexicalCast_of_LogDefines Y ds) = Some (map kept_define ds)"
proof -
  have node: "fold (\<lambda>item node. y_push Y node (write_logger Y item)) ds (y_null Y) = seq_node Y (map (write_logger Y) ds)"
    by (simp add: seq_node_def fold_map comp_def)
  have "cast_all (\<lambda>i. read_logger Y (y_index Y (seq_node Y (map (write_logger Y) ds)) i)) [0 ..< y_size Y (seq_node Y (map (write_logger Y) ds))]
      = Some (map (\<lambda>d. Some (kept_define d)) ds)"
    unfolding cast_all_index [OF assms(1)] cast_all_map by (rule cast_all_const) (rule read_write_logger [OF assms(1)])
  moreover have "List.map_filter id (map (\<lambda>d. Some (kept_define d)) ds) = map kept_define ds"
    by (induction ds) (simp_all add: List.map_filter_def)
  moreover have "sorted_wrt (<) (map ld_name ([] @ map kept_define ds))"
    using assms(2) by (simp add: kept_define_def comp_def)
  then have "fold define_insert (map kept_define ds) [] = map kept_define ds" using define_insert_sorted by fastforce
  ultimately show ?thesis
    by (simp add: LexicalCast_to_LogDefines_def LexicalCast_of_LogDefines_def node yaml_law_simps [OF assms(1)])
qed

lemma tree_seq_node: "seq_node tree_yaml xs = (if xs = [] then YNull else YSeq xs)"
  by (induction xs rule: rev_induct) (auto simp: seq_node_def tree_yaml_def)

lemma tree_laws: "yaml_laws tree_yaml"
  unfolding yaml_laws_def tree_seq_node
  by (auto simp: tree_yaml_def AList.update_conv split: ytree.splits)

theorem containers_roundtrip_witness:
  "Option.bind (LexicalCast_of_vector tree_yaml (\<lambda>w. Some (y_emit tree_yaml (YText w))) [''b'', ''a''])
     (LexicalCast_to_vector tree_yaml (\<lambda>t. Option.bind (y_load tree_yaml t) (y_as tree_yaml))) = Some [''b'', ''a'']"
proof -
  have "\<exists>t n. Some (y_emit tree_yaml (YText w)) = Some t \<and> y_load tree_yaml t = Some n \<and>
      Option.bind (y_load tree_yaml (y_emit tree_yaml n)) (y_as tree_yaml) = Some w" for w
    by (simp add: tree_yaml_def)
  then show ?thesis by (rule containers_roundtrip [OF tree_laws, THEN conjunct1])
qed

theorem log_defines_roundtrip_witness:
  "LexicalCast_to_LogDefines tree_yaml (LexicalCast_of_LogDefines tree_yaml
     [\<lparr>ld_name = ''root'', ld_level = INFO, ld_formatter = [],
       ld_appenders = [\<lparr>ad_type = 2, ad_level = ERROR, ad_formatter = ''%m'', ad_file = []\<rparr>]\<rparr>]) =
   Some [\<lparr>ld_name = ''root'', ld_level = INFO, ld_formatter = [],
       ld_appenders = [\<lparr>ad_type = 2, ad_level = UNKNOW, ad_formatter = [], ad_file = []\<rparr>]\<rparr>]"
  by (subst log_defines_roundtrip [OF tree_laws]) (simp_all add: kept_define_def kept_appender_def)

section \<open>Loading a directory again\<close>

lemma load_files_times:
  "load_files fuel Y T call mtime load files mtimes ms = Some (mtimes', ms')
    \<Longrightarrow> mtimes' = (\<lambda>f. if f \<in> set files then Some (mtime f) else mtimes f)"
proof (induction files arbitrary: mtimes ms)
  case (Cons f files)
  then obtain ms1 where "load_files fuel Y T call mtime load files (mtimes(f \<mapsto> mtime f)) ms1 = Some (mtimes', ms')"
    by (auto simp: bind_eq_Some_conv split: if_splits)
  then show ?case using Cons.IH by fastforce
qed auto

lemma load_files_known:
  "\<forall>f\<in>set files. mtimes f = Some (mtime f) \<Longrightarrow> load_files fuel Y T call mtime load files mtimes ms = Some (mtimes, ms)"
proof (induction files)
  case (Cons f files)
  then have "mtimes(f \<mapsto> mtime f) = mtimes" by (intro map_upd_triv) simp
  then show ?case using Cons by simp
qed simp

text \<open>
  Loading a directory again whose files keep their modification times changes nothing. That includes files that failed to load: the time
  is recorded before the file is read.
\<close>

theorem LoadFromConfDir_again:
  assumes "Config_LoadFromConfDir fuel Y T call mtime load readdir env path mtimes ms = Some (mtimes', ms')"
  shows "Config_LoadFromConfDir fuel Y T call mtime load' readdir env path mtimes' ms' = Some (mtimes', ms')"
proof -
  obtain files where files: "ListAllFile fuel readdir (Env_getAbsolutionPath path env) ''.yml'' = Some files"
    "load_files fuel Y T call mtime load files mtimes ms = Some (mtimes', ms')"
    using assms by (auto simp: Config_LoadFromConfDir_def bind_eq_Some_conv)
  have "load_files fuel Y T call mtime load' files mtimes' ms' = Some (mtimes', ms')"
    using load_files_times [OF files(2)] by (intro load_files_known) simp
  then show ?thesis by (simp add: Config_LoadFromConfDir_def files(1))
qed

end
