(* ===== verification/Settings.thy ===== *)
theory Settings
  imports Config Hook
begin

text \<open>
  Model of the configuration variables that components keep copies of: the sizes of \<^verbatim>\<open>src/src/http/http_parser.cpp\<close> and the connect timeout of
  \<^verbatim>\<open>src/src/hook.cpp\<close>. Static objects register the variables, copy their values and add callbacks that refresh the copies.
\<close>

section \<open>Values and copies\<close>

text \<open>Values of type \<^verbatim>\<open>uint64_t\<close> and \<^verbatim>\<open>int\<close>, by the names \<^verbatim>\<open>typeid\<close> gives them; variables of other types are kept as their text.\<close>

datatype setting = UInt64 u64 | Int32 u32 | Text string

definition type_uint64 :: string where
  "type_uint64 = ''m''"

definition type_int :: string where
  "type_int = ''i''"

text \<open>The two functions are \<^verbatim>\<open>boost::lexical_cast\<close>, \<open>None\<close> when it throws.\<close>

definition setting_conversions :: "(string \<Rightarrow> u64 option) \<Rightarrow> (string \<Rightarrow> u32 option) \<Rightarrow> setting conversions" where
  "setting_conversions to_uint64 to_int =
     \<lparr>ct_from = (\<lambda>ty t. if ty = type_uint64 then map_option UInt64 (to_uint64 t)
                        else if ty = type_int then map_option Int32 (to_int t) else Some (Text t)),
      ct_to = (\<lambda>_ v. Some (case v of UInt64 w \<Rightarrow> print_dec w
                        | Int32 n \<Rightarrow> (if sint n < 0 then ''-'' @ print_dec (- n) else print_dec n) | Text t \<Rightarrow> t)),
      ct_eq = (=)\<rparr>"

record statics =
  s_http_request_buffer_size :: u64
  s_http_response_buffer_size :: u64
  s_http_request_max_body_size :: u64
  s_http_response_max_body_size :: u64
  s_tcp_connect_timeout :: u64

datatype setting_cb = Request_buffer_cb | Request_body_cb | Response_buffer_cb | Response_body_cb | Connect_timeout_cb

text \<open>The callbacks. They do not throw.\<close>

fun refresh :: "setting_cb \<Rightarrow> setting \<Rightarrow> statics \<Rightarrow> statics" where
  "refresh Request_buffer_cb (UInt64 new_value) s = s\<lparr>s_http_request_buffer_size := new_value\<rparr>"
| "refresh Request_body_cb (UInt64 new_value) s = s\<lparr>s_http_request_max_body_size := new_value\<rparr>"
| "refresh Response_buffer_cb (UInt64 new_value) s = s\<lparr>s_http_response_buffer_size := new_value\<rparr>"
| "refresh Response_body_cb (UInt64 new_value) s = s\<lparr>s_http_response_max_body_size := new_value\<rparr>"
| "refresh Connect_timeout_cb (Int32 new_value) s = s\<lparr>s_tcp_connect_timeout := s_connect_timeout (sint new_value)\<rparr>"
| "refresh _ _ s = s"

definition setting_call :: "setting_cb \<Rightarrow> setting \<Rightarrow> setting \<Rightarrow> statics \<Rightarrow> (bool \<times> statics) option" where
  "setting_call cb old_value new_value s = Some (True, refresh cb new_value s)"

section \<open>Static initialisation\<close>

type_synonym settings = "(setting, setting_cb) config"

datatype settings_error = Settings_throws config_error | Settings_null

text \<open>
  A static pointer to a variable. A null pointer is an error here: the initialiser of the same file dereferences it.
\<close>

definition static_variable :: "string \<Rightarrow> string \<Rightarrow> setting \<Rightarrow> string \<Rightarrow> settings \<Rightarrow> settings_error + settings" where
  "static_variable ty n default_value description m =
     (case Config_Lookup ty n default_value description m of
        Inl e \<Rightarrow> Inl (Settings_throws e)
      | Inr (None, _) \<Rightarrow> Inl Settings_null
      | Inr (Some _, m') \<Rightarrow> Inr m')"

definition http_parser_variables :: "settings \<Rightarrow> settings_error + settings" where
  "http_parser_variables m =
     rbind (static_variable type_uint64 ''http.request.buffer_size'' (UInt64 (4 * 1024)) ''http request buffer size'' m) (\<lambda>m.
     rbind (static_variable type_uint64 ''http.response.buffer_size'' (UInt64 (4 * 1024)) ''http response buffer size'' m) (\<lambda>m.
     rbind (static_variable type_uint64 ''http.request.max_body_size'' (UInt64 (64 * 1024 * 1024)) ''http request max body size'' m)
       (static_variable type_uint64 ''http.response.max_body_size'' (UInt64 (64 * 1024 * 1024)) ''http response max body size'')))"

definition ConfigVar_getValue :: "string \<Rightarrow> settings \<Rightarrow> setting option" where
  "ConfigVar_getValue n m = map_option cv_val (Config_LookupBase n m)"

text \<open>The initialiser assigns its copies with the value of the variable, as the callback does.\<close>

definition copy_value :: "setting_cb \<Rightarrow> string \<Rightarrow> settings \<times> statics \<Rightarrow> settings_error + (settings \<times> statics)" where
  "copy_value cb n = (\<lambda>(m, s).
     case ConfigVar_getValue n m of None \<Rightarrow> Inl Settings_null | Some v \<Rightarrow> Inr (m, refresh cb v s))"

definition add_callback :: "setting_cb \<Rightarrow> string \<Rightarrow> u64 \<times> settings \<times> statics \<Rightarrow> settings_error + (u64 \<times> settings \<times> statics)" where
  "add_callback cb n = (\<lambda>(s_init, m, s).
     case Config_LookupBase n m of
       None \<Rightarrow> Inl Settings_null
     | Some var \<Rightarrow> let (_, s_init', var') = ConfigVar_setCallBack cb s_init var in Inr (s_init', map_put (<) n var' m, s))"

definition RequestSizeIniter :: "u64 \<Rightarrow> settings \<times> statics \<Rightarrow> settings_error + (u64 \<times> settings \<times> statics)" where
  "RequestSizeIniter s_init ms =
     rbind (copy_value Request_buffer_cb ''http.request.buffer_size'' ms) (\<lambda>ms.
     rbind (copy_value Response_buffer_cb ''http.response.buffer_size'' ms) (\<lambda>ms.
     rbind (copy_value Request_body_cb ''http.request.max_body_size'' ms) (\<lambda>ms.
     rbind (copy_value Response_body_cb ''http.response.buffer_size'' ms) (\<lambda>ms.
     rbind (add_callback Request_buffer_cb ''http.request.buffer_size'' (s_init, ms)) (\<lambda>ms.
     rbind (add_callback Request_body_cb ''http.request.max_body_size'' ms) (\<lambda>ms.
     rbind (add_callback Response_buffer_cb ''http.response.buffer_size'' ms)
       (add_callback Response_body_cb ''http.response.max_body_size'')))))))"

definition HookIniter :: "u64 \<Rightarrow> settings \<times> statics \<Rightarrow> settings_error + (u64 \<times> settings \<times> statics)" where
  "HookIniter s_init ms =
     rbind (copy_value Connect_timeout_cb ''tcp.connect.timeout'' ms) (\<lambda>ms.
       add_callback Connect_timeout_cb ''tcp.connect.timeout'' (s_init, ms))"

text \<open>
  Both files. Each type has its own \<^verbatim>\<open>s_init\<close>. The order of the two files is not fixed by the language and does not matter: they have
  no variable in common.
\<close>

definition settings_init :: "settings \<times> statics \<Rightarrow> settings_error + (settings \<times> statics)" where
  "settings_init = (\<lambda>(m, s).
     rbind (http_parser_variables m) (\<lambda>m.
     rbind (RequestSizeIniter 0 (m, s)) (\<lambda>(_, m, s).
     rbind (static_variable type_int ''tcp.connect.timeout'' (Int32 5000) ''tcp connect timeout'' m) (\<lambda>m.
     rbind (HookIniter 0 (m, s)) (\<lambda>(_, ms). Inr ms)))))"

text \<open>The copies before the initialisers run.\<close>

definition statics_zero :: statics where
  "statics_zero = \<lparr>s_http_request_buffer_size = 0, s_http_response_buffer_size = 0, s_http_request_max_body_size = 0,
     s_http_response_max_body_size = 0, s_tcp_connect_timeout = - 1\<rparr>"

definition GetHttpRequestBufferSize :: "statics \<Rightarrow> u64" where
  "GetHttpRequestBufferSize s = s_http_request_buffer_size s"

definition GetHttpRequestMaxBodyLength :: "statics \<Rightarrow> u64" where
  "GetHttpRequestMaxBodyLength s = s_http_request_max_body_size s"

definition GetHttpResponseBufferSize :: "statics \<Rightarrow> u64" where
  "GetHttpResponseBufferSize s = s_http_response_buffer_size s"

definition GetHttpResponseMaxBodyLength :: "statics \<Rightarrow> u64" where
  "GetHttpResponseMaxBodyLength s = s_http_response_max_body_size s"

text \<open>\<^verbatim>\<open>connect\<close> waits with the copy of the timeout.\<close>

definition hook_connect_wait ::
    "statics \<Rightarrow> u64 \<Rightarrow> nat \<Rightarrow> 'cb \<Rightarrow> int \<Rightarrow> nat option \<Rightarrow> nat \<Rightarrow> int \<Rightarrow> 'cb io_manager
      \<Rightarrow> io_error + (int \<times> nat option \<times> 'cb io_manager)" where
  "hook_connect_wait s now timer cb res sch fiber sockfd io =
     connect_wait now timer (s_tcp_connect_timeout s) cb res sch fiber sockfd io"

section \<open>The copies follow the variables\<close>

text \<open>What the type of a variable says of its value.\<close>

definition typed :: "string \<Rightarrow> setting \<Rightarrow> bool" where
  "typed ty v \<longleftrightarrow> (ty = type_uint64 \<longrightarrow> (\<exists>w. v = UInt64 w)) \<and> (ty = type_int \<longrightarrow> (\<exists>n. v = Int32 n))"

fun watched_name :: "setting_cb \<Rightarrow> string" where
  "watched_name Request_buffer_cb = ''http.request.buffer_size''"
| "watched_name Request_body_cb = ''http.request.max_body_size''"
| "watched_name Response_buffer_cb = ''http.response.buffer_size''"
| "watched_name Response_body_cb = ''http.response.max_body_size''"
| "watched_name Connect_timeout_cb = ''tcp.connect.timeout''"

definition watched_type :: "setting_cb \<Rightarrow> string" where
  "watched_type cb = (if cb = Connect_timeout_cb then type_int else type_uint64)"

text \<open>
  What the program does to its configuration after the start: it looks variables up, sets their values and loads files.
\<close>

inductive settings_reach ::
    "'n yaml \<Rightarrow> (string \<Rightarrow> u64 option) \<Rightarrow> (string \<Rightarrow> u32 option) \<Rightarrow> settings \<Rightarrow> statics \<Rightarrow> bool"
  for Y :: "'n yaml" and to_uint64 to_int where
  settings_start: "settings_init ([], statics_zero) = Inr (m, s) \<Longrightarrow> settings_reach Y to_uint64 to_int m s"
| settings_Lookup: "settings_reach Y to_uint64 to_int m s \<Longrightarrow> Config_Lookup ty n d desc m = Inr (r, m')
    \<Longrightarrow> settings_reach Y to_uint64 to_int m' s"
| settings_setValue: "settings_reach Y to_uint64 to_int m s \<Longrightarrow> Config_LookupBase k m = Some var \<Longrightarrow> typed (cv_type var) v
    \<Longrightarrow> ConfigVar_setValue (setting_conversions to_uint64 to_int) setting_call v var s = Some (ok, var', s')
    \<Longrightarrow> settings_reach Y to_uint64 to_int (map_put (<) k var' m) s'"
| settings_load: "settings_reach Y to_uint64 to_int m s
    \<Longrightarrow> Config_LoadFromYaml fuel Y (setting_conversions to_uint64 to_int) setting_call root (m, s) = Some (m', s')
    \<Longrightarrow> settings_reach Y to_uint64 to_int m' s'"

text \<open>The copy of a variable is right when refreshing it changes nothing.\<close>

definition copied :: "setting_cb \<Rightarrow> setting \<Rightarrow> statics \<Rightarrow> bool" where
  "copied cb v s \<longleftrightarrow> refresh cb v s = s \<or>
     cb = Response_body_cb \<and> v = UInt64 (64 * 1024 * 1024) \<and> s_http_response_max_body_size s = 4 * 1024"

definition watched :: "setting_cb \<Rightarrow> settings \<Rightarrow> statics \<Rightarrow> bool" where
  "watched cb m s \<longleftrightarrow> (\<exists>var k. Config_LookupBase (watched_name cb) m = Some var \<and> cv_type var = watched_type cb
     \<and> cv_callbacks var = [(k, cb)] \<and> typed (cv_type var) (cv_val var) \<and> copied cb (cv_val var) s)"

definition settings_inv :: "settings \<Rightarrow> statics \<Rightarrow> bool" where
  "settings_inv m s \<longleftrightarrow> map_ok (<) m \<and> (\<forall>cb. watched cb m s)
     \<and> (\<forall>k var. Config_LookupBase k m = Some var \<longrightarrow> cv_callbacks var = [] \<or> k \<in> range watched_name)"

lemma refresh_twice: "refresh cb v (refresh cb v s) = refresh cb v s"
  by (cases cb; cases v) simp_all

lemma refresh_commute: "cb \<noteq> cb' \<Longrightarrow> refresh cb' v' (refresh cb v s) = refresh cb v (refresh cb' v' s)"
  by (cases cb; cases cb'; cases v; cases v') simp_all

lemma refresh_body_other: "cb \<noteq> Response_body_cb \<Longrightarrow> s_http_response_max_body_size (refresh cb v s) = s_http_response_max_body_size s"
  by (cases cb; cases v) simp_all

lemma copied_other: "copied cb' v' s \<Longrightarrow> cb \<noteq> cb' \<Longrightarrow> copied cb' v' (refresh cb v s)"
  unfolding copied_def by (auto simp: refresh_commute refresh_body_other)

lemma watched_name_inject: "watched_name cb = watched_name cb' \<longleftrightarrow> cb = cb'"
  by (cases cb; cases cb') simp_all

lemma settings_inv_same:
  assumes "settings_inv m s" "Config_LookupBase k m = Some var"
  shows "settings_inv (map_put (<) k var m) s"
proof -
  have "Config_LookupBase k' (map_put (<) k var m) = Config_LookupBase k' m" for k'
    using assms by (simp add: settings_inv_def LookupBase_put)
  then show ?thesis using assms(1) by (simp add: settings_inv_def watched_def names.put_ok)
qed

lemma watchedE:
  assumes "settings_inv m s" "Config_LookupBase (watched_name cb) m = Some var"
  obtains i where "cv_type var = watched_type cb" "cv_callbacks var = [(i, cb)]"
    "typed (cv_type var) (cv_val var)" "copied cb (cv_val var) s"
proof -
  have "watched cb m s" using assms(1) by (simp add: settings_inv_def)
  then show ?thesis using assms(2) that by (auto simp: watched_def)
qed

text \<open>One assignment to a variable of the table.\<close>

lemma setValue_settings_inv:
  assumes inv: "settings_inv m s" and var: "Config_LookupBase k m = Some var" and ty: "typed (cv_type var) v"
    and set: "ConfigVar_setValue (setting_conversions to_uint64 to_int) setting_call v var s = Some (ok, var', s')"
  shows "settings_inv (map_put (<) k var' m) s'"
proof -
  have ok: "map_ok (<) m" using inv by (simp add: settings_inv_def)
  note same = settings_inv_same [OF inv var]
  show ?thesis
  proof (cases "cv_val var = v")
    case True
    then show ?thesis using set same by (simp add: setValue_defs setting_conversions_def)
  next
    case False
    then have upd: "var' = var\<lparr>cv_val := v\<rparr> \<and> s' = fold (\<lambda>(_, cb). refresh cb v) (cv_callbacks var) s"
    proof -
      have "run_callbacks setting_call old v cbs s = Some (True, fold (\<lambda>(_, cb). refresh cb v) cbs s)" for old cbs s
        by (induction cbs arbitrary: s) (auto simp: setting_call_def)
      then show ?thesis using set False by (simp add: setValue_defs setting_conversions_def)
    qed
    show ?thesis
    proof (cases "k \<in> range watched_name")
      case True
      then obtain cb where k: "k = watched_name cb" by auto
      then obtain i where i: "cv_type var = watched_type cb" "cv_callbacks var = [(i, cb)]"
        using watchedE [OF inv] var by metis
      have "watched cb' (map_put (<) k var' m) s'" for cb'
      proof (cases "cb' = cb")
        case True
        then show ?thesis using ok upd i ty by (simp add: watched_def k LookupBase_put copied_def refresh_twice)
      next
        case False
        moreover have "watched cb' m s" using inv by (simp add: settings_inv_def)
        ultimately show ?thesis using ok upd i
          by (auto simp: watched_def k LookupBase_put watched_name_inject intro: copied_other)
      qed
      then show ?thesis using inv ok True by (auto simp: settings_inv_def LookupBase_put names.put_ok)
    next
      case False
      then have "cv_callbacks var = []" using inv var by (auto simp: settings_inv_def)
      then show ?thesis using inv ok upd False
        by (auto simp: settings_inv_def watched_def LookupBase_put names.put_ok)
    qed
  qed
qed

lemma Lookup_settings_inv:
  assumes inv: "settings_inv m s" and res: "Config_Lookup ty n d desc m = Inr (r, m')"
  shows "settings_inv m' s"
proof (cases "map_find (<) (lower n) m")
  case None
  then have m': "m' = map_put (<) (lower n) (ConfigVar_new ty (lower n) d desc) m"
    using res by (auto simp: Config_Lookup_def Let_def split: if_splits)
  have "watched_name cb \<noteq> lower n" for cb
  proof -
    have "watched cb m s" using inv by (simp add: settings_inv_def)
    then show ?thesis using None by (auto simp: watched_def Config_LookupBase_def)
  qed
  then show ?thesis using inv
    by (auto simp: m' settings_inv_def watched_def LookupBase_put names.put_ok ConfigVar_new_def)
next
  case (Some var)
  then show ?thesis using inv res by (auto simp: Config_Lookup_def Let_def split: if_splits)
qed

lemma typed_from:
  "ct_from (setting_conversions to_uint64 to_int) ty t = Some v \<Longrightarrow> typed ty v"
  by (auto simp: setting_conversions_def typed_def type_uint64_def type_int_def split: if_splits)

lemma load_member_settings_inv:
  assumes inv: "settings_inv m s"
    and res: "load_member Y (setting_conversions to_uint64 to_int) setting_call item (m, s) = Some (m', s')"
  shows "settings_inv m' s'"
proof (cases "fst item = [] \<or> Config_LookupBase (lower (fst item)) m = None")
  case True
  then show ?thesis using assms by (auto simp: load_member_def Let_def split: option.splits)
next
  case False
  let ?T = "setting_conversions to_uint64 to_int" and ?k = "lower (fst item)" and ?t = "node_text Y (snd item)"
  from False obtain var where var: "fst item \<noteq> []" "Config_LookupBase ?k m = Some var" by auto
  show ?thesis
  proof (cases "ct_from ?T (cv_type var) ?t")
    case None
    then have "m' = map_put (<) ?k var m" "s' = s"
      using res var by (auto simp: load_member_def ConfigVar_fromString_def Let_def)
    then show ?thesis using settings_inv_same [OF inv var(2)] by simp
  next
    case (Some v)
    then obtain ok var' s1 where set: "ConfigVar_setValue ?T setting_call v var s = Some (ok, var', s1)"
      using res var by (auto simp: load_member_def ConfigVar_fromString_def Let_def)
    then have "m' = map_put (<) ?k var' m" "s' = s1"
      using res var Some by (auto simp: load_member_def ConfigVar_fromString_def Let_def)
    then show ?thesis using setValue_settings_inv [OF inv var(2) typed_from [OF Some] set] by simp
  qed
qed

lemma load_members_settings_inv:
  "settings_inv m s \<Longrightarrow> load_members Y (setting_conversions to_uint64 to_int) setting_call items (m, s) = Some (m', s')
    \<Longrightarrow> settings_inv m' s'"
proof (induction items arbitrary: m s)
  case (Cons item items)
  obtain m1 s1 where one: "load_member Y (setting_conversions to_uint64 to_int) setting_call item (m, s) = Some (m1, s1)"
    "load_members Y (setting_conversions to_uint64 to_int) setting_call items (m1, s1) = Some (m', s')"
    using Cons.prems(2) by (auto simp: bind_eq_Some_conv)
  show ?case by (rule Cons.IH [OF load_member_settings_inv [OF Cons.prems(1) one(1)] one(2)])
qed simp

text \<open>The table and the copies after the static initialisation.\<close>

definition watched_var :: "setting_cb \<Rightarrow> setting \<Rightarrow> string \<Rightarrow> u64 \<Rightarrow> string \<times> (setting, setting_cb) config_var" where
  "watched_var cb v desc i = (watched_name cb, \<lparr>cv_name = watched_name cb, cv_description = desc, cv_type = watched_type cb,
     cv_val = v, cv_callbacks = [(i, cb)]\<rparr>)"

definition settings0 :: settings where
  "settings0 =
     [watched_var Request_buffer_cb (UInt64 0x1000) ''http request buffer size'' 1,
      watched_var Request_body_cb (UInt64 0x4000000) ''http request max body size'' 2,
      watched_var Response_buffer_cb (UInt64 0x1000) ''http response buffer size'' 3,
      watched_var Response_body_cb (UInt64 0x4000000) ''http response max body size'' 4,
      watched_var Connect_timeout_cb (Int32 5000) ''tcp connect timeout'' 1]"

definition statics0 :: statics where
  "statics0 = \<lparr>s_http_request_buffer_size = 0x1000, s_http_response_buffer_size = 0x1000,
     s_http_request_max_body_size = 0x4000000, s_http_response_max_body_size = 0x1000, s_tcp_connect_timeout = 5000\<rparr>"

lemma settings_init_ok: "settings_init ([], statics_zero) = Inr (settings0, statics0)"
  by code_simp

lemma settings0_ok: "map_ok (<) settings0"
  by code_simp

lemma watchedI:
  "Config_LookupBase (watched_name cb) m = Some (snd (watched_var cb v desc i)) \<Longrightarrow> typed (watched_type cb) v \<Longrightarrow> copied cb v s
    \<Longrightarrow> watched cb m s"
  by (auto simp: watched_def watched_var_def)

lemma settings0_find:
  "Config_LookupBase (watched_name Request_buffer_cb) settings0 =
     Some (snd (watched_var Request_buffer_cb (UInt64 0x1000) ''http request buffer size'' 1))"
  "Config_LookupBase (watched_name Request_body_cb) settings0 =
     Some (snd (watched_var Request_body_cb (UInt64 0x4000000) ''http request max body size'' 2))"
  "Config_LookupBase (watched_name Response_buffer_cb) settings0 =
     Some (snd (watched_var Response_buffer_cb (UInt64 0x1000) ''http response buffer size'' 3))"
  "Config_LookupBase (watched_name Response_body_cb) settings0 =
     Some (snd (watched_var Response_body_cb (UInt64 0x4000000) ''http response max body size'' 4))"
  "Config_LookupBase (watched_name Connect_timeout_cb) settings0 =
     Some (snd (watched_var Connect_timeout_cb (Int32 5000) ''tcp connect timeout'' 1))"
  by code_simp+

lemma settings0_names: "Config_LookupBase k settings0 = Some var \<Longrightarrow> k \<in> range watched_name"
  by (auto simp: Config_LookupBase_def settings0_def watched_var_def simp del: watched_name.simps split: if_splits)

lemma settings0_watched: "watched cb settings0 statics0"
  by (cases cb)
    (auto intro!: watchedI [OF settings0_find(1)] watchedI [OF settings0_find(2)] watchedI [OF settings0_find(3)]
      watchedI [OF settings0_find(4)] watchedI [OF settings0_find(5)]
      simp: watched_type_def typed_def copied_def statics0_def type_uint64_def type_int_def s_connect_timeout_def)

lemma settings_inv_start: "settings_inv settings0 statics0"
  using settings0_ok settings0_watched settings0_names by (auto simp: settings_inv_def)

lemma settings_reach_inv: "settings_reach Y to_uint64 to_int m s \<Longrightarrow> settings_inv m s"
proof (induction rule: settings_reach.induct)
  case (settings_load m s fuel root m' s')
  then show ?case by (auto simp: Config_LoadFromYaml_def bind_eq_Some_conv intro: load_members_settings_inv)
qed (auto simp: settings_init_ok settings_inv_start intro: Lookup_settings_inv setValue_settings_inv)

lemma copied_value:
  assumes "settings_inv m s"
  shows "\<exists>v. ConfigVar_getValue (watched_name cb) m = Some v \<and> typed (watched_type cb) v \<and> copied cb v s"
proof -
  have "watched cb m s" using assms by (simp add: settings_inv_def)
  then show ?thesis by (auto simp: watched_def ConfigVar_getValue_def)
qed

lemma copied_uint64:
  assumes "settings_inv m s" "cb \<noteq> Connect_timeout_cb"
  shows "\<exists>w. ConfigVar_getValue (watched_name cb) m = Some (UInt64 w) \<and> copied cb (UInt64 w) s"
  using copied_value [OF assms(1), of cb] assms(2) by (auto simp: typed_def watched_type_def)

lemma statics_field:
  "s\<lparr>s_http_request_buffer_size := v\<rparr> = s \<longleftrightarrow> s_http_request_buffer_size s = v"
  "s\<lparr>s_http_response_buffer_size := v\<rparr> = s \<longleftrightarrow> s_http_response_buffer_size s = v"
  "s\<lparr>s_http_request_max_body_size := v\<rparr> = s \<longleftrightarrow> s_http_request_max_body_size s = v"
  "s\<lparr>s_http_response_max_body_size := v\<rparr> = s \<longleftrightarrow> s_http_response_max_body_size s = v"
  "s\<lparr>s_tcp_connect_timeout := v\<rparr> = s \<longleftrightarrow> s_tcp_connect_timeout s = v"
  by (cases s, auto)+

text \<open>A connection in progress waits without a timer exactly when the configured timeout is -1.\<close>

lemma connect_waits_configured:
  assumes "settings_reach Y to_uint64 to_int m s" "ConfigVar_getValue ''tcp.connect.timeout'' m = Some (Int32 n)"
    "hook_connect_wait s now timer cb res sch fiber sockfd io = Inr (r, tinfo, io')"
  shows "tinfo = (if n = - 1 then None else Some timer)"
proof -
  have "copied Connect_timeout_cb (Int32 n) s"
    using copied_value [OF settings_reach_inv [OF assms(1)], of Connect_timeout_cb] assms(2) by auto
  then have "s_tcp_connect_timeout s = s_connect_timeout (sint n)" by (simp add: copied_def statics_field)
  also have "\<dots> = scast n" unfolding s_connect_timeout_def by (rule scast_eq [symmetric])
  finally have "s_tcp_connect_timeout s = scast n" .
  moreover have "(scast n :: u64) = - 1 \<longleftrightarrow> n = - 1"
  proof
    assume "(scast n :: u64) = - 1"
    then have "sint (scast n :: u64) = - 1" by simp
    then have "sint n = - 1" by (subst (asm) sint_up_scast) (simp_all add: is_up)
    then show "n = - 1" by (metis sint_n1 signed_word_eqI)
  qed simp
  ultimately show ?thesis using do_io_wait_timer [OF assms(3) [unfolded hook_connect_wait_def connect_wait_def]] by simp
qed

text \<open>
  (C24) After the static initialisation, which succeeds, and any lookups, assignments and loaded files: the sizes that the request and response
  parsers and the session read, and the timeout of \<^verbatim>\<open>connect\<close>, are the values of their configuration variables. One is not: the greatest length of a
  response body starts with the size of the buffer, 4096, and stays there while the variable has its default of 64 MB.
\<close>

theorem settings_copies:
  assumes "settings_reach Y to_uint64 to_int m s"
  shows "(\<exists>m0 s0. settings_init ([], statics_zero) = Inr (m0, s0) \<and>
       ConfigVar_getValue ''http.response.max_body_size'' m0 = Some (UInt64 (64 * 1024 * 1024)) \<and>
       GetHttpResponseMaxBodyLength s0 = 4 * 1024) \<and>
    ConfigVar_getValue ''http.request.buffer_size'' m = Some (UInt64 (GetHttpRequestBufferSize s)) \<and>
    ConfigVar_getValue ''http.response.buffer_size'' m = Some (UInt64 (GetHttpResponseBufferSize s)) \<and>
    ConfigVar_getValue ''http.request.max_body_size'' m = Some (UInt64 (GetHttpRequestMaxBodyLength s)) \<and>
    (\<exists>v. ConfigVar_getValue ''http.response.max_body_size'' m = Some (UInt64 v) \<and>
       (GetHttpResponseMaxBodyLength s = v \<or> GetHttpResponseMaxBodyLength s = 4 * 1024 \<and> v = 64 * 1024 * 1024)) \<and>
    (\<exists>n. ConfigVar_getValue ''tcp.connect.timeout'' m = Some (Int32 n) \<and>
       s_tcp_connect_timeout s = s_connect_timeout (sint n))"
proof -
  have inv: "settings_inv m s" using assms by (rule settings_reach_inv)
  have "ConfigVar_getValue (watched_name Response_body_cb) settings0 = Some (UInt64 (64 * 1024 * 1024))"
    unfolding ConfigVar_getValue_def settings0_find by (simp add: watched_var_def)
  then show ?thesis
    using copied_uint64 [OF inv, of Request_buffer_cb] copied_uint64 [OF inv, of Response_buffer_cb]
      copied_uint64 [OF inv, of Request_body_cb] copied_uint64 [OF inv, of Response_body_cb]
      copied_value [OF inv, of Connect_timeout_cb]
    by (auto simp: settings_init_ok copied_def statics_field typed_def watched_type_def statics0_def GetHttpRequestBufferSize_def
        GetHttpResponseBufferSize_def GetHttpRequestMaxBodyLength_def GetHttpResponseMaxBodyLength_def)
qed

text \<open>
  That holds for one assignment after the other. Two threads that call \<^verbatim>\<open>setValue\<close> at the same time can both run the callbacks before either assigns: then the copy
  has the value of one and the variable that of the other.
\<close>

lemma concurrent_setters_stale_copy:
  "\<exists>var s1 s2 var'. Config_LookupBase (watched_name Request_buffer_cb) settings0 = Some var
     \<and> setValue_notify (setting_conversions to_uint64 to_int) setting_call (UInt64 1) var statics0 = Some (Some True, s1)
     \<and> setValue_notify (setting_conversions to_uint64 to_int) setting_call (UInt64 2) var s1 = Some (Some True, s2)
     \<and> var' = setValue_assign (UInt64 1) (setValue_assign (UInt64 2) var)
     \<and> cv_val var' = UInt64 1 \<and> GetHttpRequestBufferSize s2 = 2"
  unfolding settings0_find
  by (simp add: setValue_defs setting_conversions_def watched_var_def setting_call_def GetHttpRequestBufferSize_def)

text \<open>A new size, assigned to the variable, reaches the copy.\<close>

theorem settings_copies_witness:
  "\<exists>m s. ConfigVar_getValue ''http.request.buffer_size'' m = Some (UInt64 8192) \<and> GetHttpRequestBufferSize s = 8192
     \<and> settings_reach tree_yaml (\<lambda>_. None) (\<lambda>_. None) m s"
proof -
  let ?T = "setting_conversions (\<lambda>_. None) (\<lambda>_. None)" and ?k = "watched_name Request_buffer_cb"
  define var where "var = snd (watched_var Request_buffer_cb (UInt64 0x1000) ''http request buffer size'' 1)"
  obtain ok var' s' where set: "ConfigVar_setValue ?T setting_call (UInt64 8192) var statics0 = Some (ok, var', s')"
    by (simp add: setValue_defs setting_conversions_def var_def watched_var_def setting_call_def)
  have val: "cv_val var' = UInt64 8192"
    using set by (auto simp: setValue_defs setting_conversions_def var_def watched_var_def setting_call_def)
  have "settings_reach tree_yaml (\<lambda>_. None) (\<lambda>_. None) (map_put (<) ?k var' settings0) s'"
  proof (rule settings_setValue [OF settings_start [OF settings_init_ok] _ _ set])
    show "Config_LookupBase ?k settings0 = Some var" unfolding var_def by (rule settings0_find)
    show "typed (cv_type var) (UInt64 8192)"
      by (simp add: var_def watched_var_def typed_def watched_type_def type_uint64_def type_int_def)
  qed
  moreover have "ConfigVar_getValue ?k (map_put (<) ?k var' settings0) = Some (UInt64 8192)"
    using settings0_ok val by (simp add: ConfigVar_getValue_def LookupBase_put)
  ultimately show ?thesis using settings_copies by fastforce
qed

end
