(* ===== verification/Tcp_Server.thy ===== *)
theory Tcp_Server
  imports Socket
begin

text \<open>
  Model of \<^verbatim>\<open>src/src/tcp_server.cpp\<close>. The listening sockets are objects shared between the server and the fibers that accept
  on them, so they live in a store and are named by their index; a socket that nobody refers to any more is destroyed, which
  closes it, as a shared pointer does. A fiber of \<^verbatim>\<open>startAccept\<close> is at the test of its loop (\<open>ts_accepting\<close>) or blocked in the hooked \<^verbatim>\<open>accept\<close> (\<open>ts_waiting\<close>)
  until the system answers or the socket's events are cancelled. The tasks given to the accepting worker and to the worker are kept in the order in which they were
  scheduled; they run in any order.
\<close>

section \<open>State\<close>

datatype accept_task = Start_accept nat | Stop_all

record tcp_server =
  ts_store :: "Socket list"
  ts_sockets :: "nat list"
  ts_recvTimeout :: u64
  ts_name :: string
  ts_isStop :: bool
  ts_acceptWorker :: "accept_task list"
  ts_accepting :: "nat list"
  ts_waiting :: "nat list"
  ts_worker :: "(Socket \<times> fd_ctx option) list"

definition TCPServer_new :: "u64 \<Rightarrow> tcp_server" where
  "TCPServer_new read_timeout = \<lparr>ts_store = [], ts_sockets = [], ts_recvTimeout = read_timeout, ts_name = ''TinyServer/1.0.0'',
     ts_isStop = True, ts_acceptWorker = [], ts_accepting = [], ts_waiting = [], ts_worker = []\<rparr>"

text \<open>The sockets that are still referred to: by the server, by a scheduled task, or by a fiber that accepts.\<close>

definition task_sockets :: "accept_task list \<Rightarrow> nat set" where
  "task_sockets ts = {i. Start_accept i \<in> set ts}"

definition ts_refs :: "tcp_server \<Rightarrow> nat set" where
  "ts_refs s = set (ts_sockets s) \<union> task_sockets (ts_acceptWorker s) \<union> set (ts_accepting s) \<union> set (ts_waiting s)"

definition close_sock :: "Socket \<Rightarrow> Socket" where
  "close_sock k = snd (snd (Socket_close k))"

definition destroy_unused :: "tcp_server \<Rightarrow> tcp_server" where
  "destroy_unused s =
     s\<lparr>ts_store := map (\<lambda>(i, k). if i \<in> ts_refs s then k else close_sock k) (enumerate 0 (ts_store s))\<rparr>"

section \<open>Binding\<close>

text \<open>What the system answers for one address: the descriptor, \<^verbatim>\<open>bind\<close>, the local name and \<^verbatim>\<open>listen\<close>.\<close>

record bind_answer =
  ba_fd :: int
  ba_bind :: int
  ba_local :: "u8 list option"
  ba_listen :: int

text \<open>One turn of the loop: whether the address failed. The message of a failure prints the address, which may throw.\<close>

definition TCPServer_bind_one :: "Address \<Rightarrow> bind_answer \<Rightarrow> tcp_server \<Rightarrow> addr_error + (bool \<times> tcp_server)" where
  "TCPServer_bind_one item a s =
     (let (bound, sock) = Socket_bind (ba_fd a) (ba_bind a) (ba_local a) item (Socket_CreateTCP item) in
      if \<not> bound \<or> \<not> Socket_listen (ba_listen a) sock
      then rbind (Address_toString item) (\<lambda>_. Inr (False, s\<lparr>ts_store := ts_store s @ [close_sock sock]\<rparr>))
      else Inr (True, s\<lparr>ts_store := ts_store s @ [sock], ts_sockets := ts_sockets s @ [length (ts_store s)]\<rparr>))"

fun TCPServer_bind_loop :: "(Address \<times> bind_answer) list \<Rightarrow> Address list \<Rightarrow> tcp_server \<Rightarrow> addr_error + (Address list \<times> tcp_server)" where
  "TCPServer_bind_loop [] fails s = Inr (fails, s)"
| "TCPServer_bind_loop ((item, a) # addrs) fails s =
     rbind (TCPServer_bind_one item a s) (\<lambda>(ok, s').
       TCPServer_bind_loop addrs (if ok then fails else fails @ [item]) s')"

definition TCPServer_bind_all ::
    "(Address \<times> bind_answer) list \<Rightarrow> Address list \<Rightarrow> tcp_server \<Rightarrow> addr_error + (bool \<times> Address list \<times> tcp_server)" where
  "TCPServer_bind_all addrs fails s =
     rbind (TCPServer_bind_loop addrs fails s) (\<lambda>(fails', s').
       if fails' \<noteq> [] then Inr (False, fails', destroy_unused (s'\<lparr>ts_sockets := []\<rparr>)) else Inr (True, fails', s'))"

definition TCPServer_bind :: "Address \<Rightarrow> bind_answer \<Rightarrow> tcp_server \<Rightarrow> addr_error + (bool \<times> tcp_server)" where
  "TCPServer_bind addr a s = rbind (TCPServer_bind_all [(addr, a)] [] s) (\<lambda>(ok, _, s'). Inr (ok, s'))"

section \<open>Accepting\<close>

text \<open>What the system answers to \<^verbatim>\<open>accept\<close>: the descriptor, its context, and the names of both ends.\<close>

record accept_answer =
  aa_fd :: int
  aa_ctx :: "fd_ctx option"
  aa_local :: "u8 list option"
  aa_peer :: "u8 list option"

text \<open>One turn of the loop of \<^verbatim>\<open>startAccept\<close> on the socket \<open>i\<close>; \<open>hook_enable\<close> is the hook flag of its thread.\<close>

definition TCPServer_accept_one :: "bool \<Rightarrow> nat \<Rightarrow> accept_answer \<Rightarrow> tcp_server \<Rightarrow> tcp_server" where
  "TCPServer_accept_one hook_enable i a s =
     (case Socket_accept (aa_fd a) (aa_ctx a) (aa_local a) (aa_peer a) (ts_store s ! i) of
        Some client \<Rightarrow> s\<lparr>ts_worker := ts_worker s @ [(client, Socket_setTimeout hook_enable True (ts_recvTimeout s) (aa_ctx a))]\<rparr>
      | None \<Rightarrow> s)"

definition TCPServer_start :: "tcp_server \<Rightarrow> bool \<times> tcp_server" where
  "TCPServer_start s =
     (if \<not> ts_isStop s then (True, s)
      else (True, s\<lparr>ts_isStop := False, ts_acceptWorker := ts_acceptWorker s @ map Start_accept (ts_sockets s)\<rparr>))"

definition TCPServer_stop :: "tcp_server \<Rightarrow> tcp_server" where
  "TCPServer_stop s = s\<lparr>ts_isStop := True, ts_acceptWorker := ts_acceptWorker s @ [Stop_all]\<rparr>"

text \<open>
  The task that \<^verbatim>\<open>stop\<close> schedules, as one step: it cancels the events of the server's sockets, which sends the fibers that wait in \<^verbatim>\<open>accept\<close> back to their loop
  (the repeated call fails on the closed socket), closes the sockets and forgets them.
\<close>

definition TCPServer_stop_task :: "tcp_server \<Rightarrow> tcp_server" where
  "TCPServer_stop_task s =
     destroy_unused (s\<lparr>ts_store := map (\<lambda>(i, k). if i \<in> set (ts_sockets s) then close_sock k else k) (enumerate 0 (ts_store s)),
       ts_accepting := filter (\<lambda>i. i \<in> set (ts_sockets s)) (ts_waiting s) @ ts_accepting s,
       ts_waiting := filter (\<lambda>i. i \<notin> set (ts_sockets s)) (ts_waiting s),
       ts_sockets := []\<rparr>)"

text \<open>The destructor runs when neither a task nor a fiber has the server.\<close>

definition TCPServer_destroy :: "tcp_server \<Rightarrow> tcp_server" where
  "TCPServer_destroy s =
     s\<lparr>ts_store := map (\<lambda>(i, k). if i \<in> set (ts_sockets s) then close_sock k else k) (enumerate 0 (ts_store s)), ts_sockets := []\<rparr>"

section \<open>Runs\<close>

text \<open>
  The tasks and fibers of the accepting worker, in any order. A fiber at its loop's test ends when the server is stopped; otherwise \<^verbatim>\<open>accept\<close> answers at once,
  with an error when the socket is closed, or the fiber waits; and a waiting fiber goes back to the test with the answer.
\<close>

inductive task_step :: "tcp_server \<Rightarrow> tcp_server \<Rightarrow> bool" where
  t_task_accept: "Start_accept i \<in> set (ts_acceptWorker s) \<Longrightarrow>
    task_step s (s\<lparr>ts_acceptWorker := remove1 (Start_accept i) (ts_acceptWorker s), ts_accepting := i # ts_accepting s\<rparr>)"
| t_task_stop: "Stop_all \<in> set (ts_acceptWorker s) \<Longrightarrow>
    task_step s (TCPServer_stop_task (s\<lparr>ts_acceptWorker := remove1 Stop_all (ts_acceptWorker s)\<rparr>))"
| t_accept: "i \<in> set (ts_accepting s) \<Longrightarrow> \<not> ts_isStop s \<Longrightarrow>
    (sk_sock (ts_store s ! i) = - 1 \<longrightarrow> aa_fd a = - 1) \<Longrightarrow> task_step s (TCPServer_accept_one hook_enable i a s)"
| t_wait: "i \<in> set (ts_accepting s) \<Longrightarrow> \<not> ts_isStop s \<Longrightarrow> sk_sock (ts_store s ! i) \<noteq> - 1 \<Longrightarrow>
    task_step s (s\<lparr>ts_accepting := remove1 i (ts_accepting s), ts_waiting := i # ts_waiting s\<rparr>)"
| t_wake: "i \<in> set (ts_waiting s) \<Longrightarrow> sk_sock (ts_store s ! i) \<noteq> - 1 \<Longrightarrow>
    task_step s (TCPServer_accept_one hook_enable i a (s\<lparr>ts_waiting := remove1 i (ts_waiting s), ts_accepting := i # ts_accepting s\<rparr>))"
| t_exit: "i \<in> set (ts_accepting s) \<Longrightarrow> ts_isStop s \<Longrightarrow>
    task_step s (destroy_unused (s\<lparr>ts_accepting := remove1 i (ts_accepting s)\<rparr>))"

text \<open>A run of the server: calls from outside, and the steps of the accepting worker.\<close>

inductive tcp_step :: "tcp_server \<Rightarrow> tcp_server \<Rightarrow> bool" where
  t_bind: "TCPServer_bind_all addrs fails s = Inr (ok, fails', s') \<Longrightarrow> tcp_step s s'"
| t_start: "tcp_step s (snd (TCPServer_start s))"
| t_stop: "tcp_step s (TCPServer_stop s)"
| t_task: "task_step s s' \<Longrightarrow> tcp_step s s'"

inductive_cases tcp_stepE: "tcp_step s s'"

definition tcp_reach :: "u64 \<Rightarrow> tcp_server \<Rightarrow> bool" where
  "tcp_reach read_timeout s \<longleftrightarrow> tcp_step\<^sup>*\<^sup>* (TCPServer_new read_timeout) s"

section \<open>No descriptor is lost\<close>

lemma close_sock_closed [simp]: "sk_sock (close_sock k) = - 1"
  by (auto simp: close_sock_def Socket_close_def)

lemma length_destroy_unused [simp]: "length (ts_store (destroy_unused s)) = length (ts_store s)"
  by (simp add: destroy_unused_def)

lemma nth_destroy_unused:
  "i < length (ts_store s) \<Longrightarrow> ts_store (destroy_unused s) ! i = (if i \<in> ts_refs s then ts_store s ! i else close_sock (ts_store s ! i))"
  by (simp add: destroy_unused_def nth_enumerate_eq)

lemma destroy_unused_fields [simp]:
  "ts_sockets (destroy_unused s) = ts_sockets s" "ts_acceptWorker (destroy_unused s) = ts_acceptWorker s"
  "ts_accepting (destroy_unused s) = ts_accepting s" "ts_waiting (destroy_unused s) = ts_waiting s" "ts_worker (destroy_unused s) = ts_worker s"
  "ts_isStop (destroy_unused s) = ts_isStop s" "ts_refs (destroy_unused s) = ts_refs s"
  by (simp_all add: destroy_unused_def ts_refs_def)

text \<open>Every socket somebody refers to exists; every socket nobody refers to is closed.\<close>

definition tcp_inv :: "tcp_server \<Rightarrow> bool" where
  "tcp_inv s \<longleftrightarrow> (\<forall>i\<in>ts_refs s. i < length (ts_store s))
     \<and> (\<forall>i<length (ts_store s). i \<notin> ts_refs s \<longrightarrow> sk_sock (ts_store s ! i) = - 1)"

lemma destroy_unused_inv: "(\<forall>i\<in>ts_refs s. i < length (ts_store s)) \<Longrightarrow> tcp_inv (destroy_unused s)"
  by (auto simp: tcp_inv_def nth_destroy_unused)

lemma bind_one_cases:
  assumes "TCPServer_bind_one item a s = Inr (ok, s')"
  obtains (fail) sock where "\<not> ok" "s' = s\<lparr>ts_store := ts_store s @ [close_sock sock]\<rparr>"
  | (ok) sock where "ok" "s' = s\<lparr>ts_store := ts_store s @ [sock], ts_sockets := ts_sockets s @ [length (ts_store s)]\<rparr>"
  using assms by (auto simp: TCPServer_bind_one_def Let_def rbind_eq_Inr_iff split: prod.splits if_splits)

lemma bind_one_inv:
  assumes "TCPServer_bind_one item a s = Inr (ok, s')" and "tcp_inv s"
  shows "tcp_inv s'"
  using assms(1)
  by (cases rule: bind_one_cases) (use assms(2) in \<open>auto simp: tcp_inv_def ts_refs_def nth_append less_Suc_eq\<close>)

lemma bind_loop_inv: "TCPServer_bind_loop addrs fails s = Inr (fails', s') \<Longrightarrow> tcp_inv s \<Longrightarrow> tcp_inv s'"
  by (induction addrs fails s rule: TCPServer_bind_loop.induct) (auto simp: rbind_eq_Inr_iff dest: bind_one_inv)

lemma task_sockets_remove1:
  assumes "Start_accept i \<in> set ts"
  shows "insert i (task_sockets (remove1 (Start_accept i) ts)) = task_sockets ts"
proof -
  have "j \<in> insert i (task_sockets (remove1 (Start_accept i) ts)) \<longleftrightarrow> j \<in> task_sockets ts" for j
    using assms by (cases "j = i") (simp_all add: task_sockets_def)
  then show ?thesis by blast
qed

lemma remove1_refs: "i \<in> set xs \<Longrightarrow> insert i (set (remove1 i xs)) = set xs"
  by (induction xs) auto

lemma stop_task_refs:
  "ts_refs (TCPServer_stop_task (s\<lparr>ts_acceptWorker := remove1 Stop_all (ts_acceptWorker s)\<rparr>)) \<subseteq> ts_refs s"
  by (auto simp: TCPServer_stop_task_def ts_refs_def task_sockets_def)

lemma accept_one_frame [simp]:
  "ts_store (TCPServer_accept_one h i a s) = ts_store s" "ts_refs (TCPServer_accept_one h i a s) = ts_refs s"
  "ts_sockets (TCPServer_accept_one h i a s) = ts_sockets s" "ts_acceptWorker (TCPServer_accept_one h i a s) = ts_acceptWorker s"
  "ts_accepting (TCPServer_accept_one h i a s) = ts_accepting s" "ts_waiting (TCPServer_accept_one h i a s) = ts_waiting s"
  "ts_isStop (TCPServer_accept_one h i a s) = ts_isStop s"
  by (simp_all add: TCPServer_accept_one_def ts_refs_def split: option.split)

text \<open>A step of the accepting worker adds no references.\<close>

lemma task_step_refs: "task_step s s' \<Longrightarrow> ts_refs s' \<subseteq> ts_refs s"
proof (induction rule: task_step.induct)
  case (t_task_accept i s)
  then show ?case using task_sockets_remove1 [OF t_task_accept] by (auto simp: ts_refs_def)
next
  case (t_task_stop s)
  show ?case by (rule stop_task_refs)
next
  case (t_wait i s)
  then show ?case using remove1_refs [OF t_wait(1)] by (auto simp: ts_refs_def)
next
  case (t_wake i s h a)
  then show ?case using remove1_refs [OF t_wake(1)] by (auto simp: ts_refs_def)
next
  case (t_exit i s)
  then show ?case using set_remove1_subset [of i "ts_accepting s"] by (auto simp: ts_refs_def)
qed simp

lemma task_step_inv:
  assumes "task_step s s'" and "tcp_inv s"
  shows "tcp_inv s'"
  using assms
proof (induction rule: task_step.induct)
  case (t_task_accept i s)
  have "ts_refs (s\<lparr>ts_acceptWorker := remove1 (Start_accept i) (ts_acceptWorker s), ts_accepting := i # ts_accepting s\<rparr>) = ts_refs s"
    using task_sockets_remove1 [OF t_task_accept(1)] by (auto simp: ts_refs_def)
  then show ?case using t_task_accept(2) by (simp add: tcp_inv_def)
next
  case (t_task_stop s)
  then show ?case
    unfolding TCPServer_stop_task_def by (intro destroy_unused_inv) (auto simp: tcp_inv_def ts_refs_def task_sockets_def)
next
  case (t_accept i s a hook_enable)
  then show ?case by (simp add: tcp_inv_def)
next
  case (t_wait i s)
  have "ts_refs (s\<lparr>ts_accepting := remove1 i (ts_accepting s), ts_waiting := i # ts_waiting s\<rparr>) = ts_refs s"
    using remove1_refs [OF t_wait(1)] by (auto simp: ts_refs_def)
  then show ?case using t_wait(4) by (simp add: tcp_inv_def)
next
  case (t_wake i s h a)
  have "ts_refs (s\<lparr>ts_waiting := remove1 i (ts_waiting s), ts_accepting := i # ts_accepting s\<rparr>) = ts_refs s"
    using remove1_refs [OF t_wake(1)] by (auto simp: ts_refs_def)
  then show ?case using t_wake(3) by (simp add: tcp_inv_def)
next
  case (t_exit i s)
  have "set (remove1 i (ts_accepting s)) \<subseteq> set (ts_accepting s)" by (rule set_remove1_subset)
  then show ?case using t_exit(3) by (intro destroy_unused_inv) (auto simp: tcp_inv_def ts_refs_def)
qed

lemma tcp_step_inv:
  assumes "tcp_step s s'" and "tcp_inv s"
  shows "tcp_inv s'"
  using assms
proof (induction rule: tcp_step.induct)
  case (t_bind addrs fails s ok fails' s')
  obtain f1 s1 where l: "TCPServer_bind_loop addrs fails s = Inr (f1, s1)"
      "s' = (if f1 = [] then s1 else destroy_unused (s1\<lparr>ts_sockets := []\<rparr>))"
    using t_bind(1) by (auto simp: TCPServer_bind_all_def rbind_eq_Inr_iff split: if_splits)
  have "tcp_inv s1" using bind_loop_inv [OF l(1) t_bind(2)] .
  moreover from this have "tcp_inv (destroy_unused (s1\<lparr>ts_sockets := []\<rparr>))"
    by (intro destroy_unused_inv) (auto simp: tcp_inv_def ts_refs_def)
  ultimately show ?case by (simp add: l(2))
next
  case (t_start s)
  then show ?case by (auto simp: TCPServer_start_def tcp_inv_def ts_refs_def task_sockets_def)
next
  case (t_stop s)
  then show ?case by (auto simp: TCPServer_stop_def tcp_inv_def ts_refs_def task_sockets_def)
next
  case (t_task s s')
  then show ?case by (rule task_step_inv)
qed

lemma tcp_reach_inv: "tcp_reach t s \<Longrightarrow> tcp_inv s"
  unfolding tcp_reach_def
proof (induction rule: rtranclp_induct)
  case base
  then show ?case by (simp add: TCPServer_new_def tcp_inv_def ts_refs_def task_sockets_def)
next
  case (step y z)
  then show ?case using tcp_step_inv by blast
qed

section \<open>Stopping\<close>

text \<open>What is left to do after \<^verbatim>\<open>stop\<close>: every step of the worker does some of it.\<close>

definition stop_work :: "tcp_server \<Rightarrow> nat" where
  "stop_work s = 2 * length (ts_acceptWorker s) + length (ts_accepting s) + 2 * length (ts_waiting s)"

text \<open>
  Until the task of \<^verbatim>\<open>stop\<close> has run, every socket in use is in the server's list; when it has run, all sockets are closed and no fiber waits.
\<close>

definition winding_down :: "tcp_server \<Rightarrow> bool" where
  "winding_down s \<longleftrightarrow> ts_isStop s \<and> tcp_inv s \<and>
     (Stop_all \<in> set (ts_acceptWorker s) \<and> ts_refs s \<subseteq> set (ts_sockets s)
      \<or> ts_sockets s = [] \<and> ts_waiting s = [] \<and> (\<forall>k\<in>set (ts_store s). sk_sock k = - 1))"

lemma stop_task_closes:
  assumes "tcp_inv s" and "ts_refs s \<subseteq> set (ts_sockets s)"
  shows "ts_sockets (TCPServer_stop_task s) = [] \<and> ts_waiting (TCPServer_stop_task s) = []
    \<and> (\<forall>k\<in>set (ts_store (TCPServer_stop_task s)). sk_sock k = - 1)"
proof -
  have "ts_waiting (TCPServer_stop_task s) = []"
    using assms(2) by (auto simp: TCPServer_stop_task_def filter_empty_conv ts_refs_def)
  moreover have "sk_sock (ts_store (TCPServer_stop_task s) ! i) = - 1" if i: "i < length (ts_store s)" for i
  proof (cases "i \<in> set (ts_sockets s)")
    case True
    then show ?thesis using i unfolding TCPServer_stop_task_def
      by (subst nth_destroy_unused) (simp_all add: nth_enumerate_eq)
  next
    case False
    then have "i \<notin> ts_refs s" using assms(2) by blast
    then have "sk_sock (ts_store s ! i) = - 1" using assms(1) i by (auto simp: tcp_inv_def)
    then show ?thesis using i False unfolding TCPServer_stop_task_def
      by (subst nth_destroy_unused) (simp_all add: nth_enumerate_eq)
  qed
  ultimately show ?thesis by (auto simp: in_set_conv_nth TCPServer_stop_task_def)
qed

lemma set_enumerate_snd: "(i, k) \<in> set (enumerate n ks) \<Longrightarrow> k \<in> set ks"
  by (auto simp: in_set_enumerate_eq)

lemma closed_stop_task:
  assumes "ts_sockets s = []" "ts_waiting s = []" "\<forall>k\<in>set (ts_store s). sk_sock k = - 1"
  shows "ts_sockets (TCPServer_stop_task s) = [] \<and> ts_waiting (TCPServer_stop_task s) = []
    \<and> (\<forall>k\<in>set (ts_store (TCPServer_stop_task s)). sk_sock k = - 1)"
  using assms by (auto simp: TCPServer_stop_task_def destroy_unused_def dest!: set_enumerate_snd)

lemma destroy_unused_closed:
  "\<forall>k\<in>set (ts_store s). sk_sock k = - 1 \<Longrightarrow> \<forall>k\<in>set (ts_store (destroy_unused s)). sk_sock k = - 1"
  by (auto simp: destroy_unused_def dest!: set_enumerate_snd)

lemma stop_task_frame:
  "ts_isStop (TCPServer_stop_task s) = ts_isStop s" "ts_acceptWorker (TCPServer_stop_task s) = ts_acceptWorker s"
  "ts_worker (TCPServer_stop_task s) = ts_worker s"
  "length (ts_accepting (TCPServer_stop_task s)) + length (ts_waiting (TCPServer_stop_task s)) = length (ts_accepting s) + length (ts_waiting s)"
  "length (ts_waiting (TCPServer_stop_task s)) \<le> length (ts_waiting s)"
  using sum_length_filter_compl [of "\<lambda>i. i \<in> set (ts_sockets s)" "ts_waiting s"]
  by (simp_all add: TCPServer_stop_task_def)

lemma winding_down_step:
  assumes "task_step s s'" "winding_down s"
  shows "winding_down s'" and "stop_work s' < stop_work s"
    and "length (ts_worker s') + length (ts_waiting s') \<le> length (ts_worker s) + length (ts_waiting s)"
proof -
  have stop: "ts_isStop s" and inv: "tcp_inv s" using assms(2) by (simp_all add: winding_down_def)
  note inv' = task_step_inv [OF assms(1) inv]
  note refs = task_step_refs [OF assms(1)]
  have "winding_down s' \<and> stop_work s' < stop_work s
    \<and> length (ts_worker s') + length (ts_waiting s') \<le> length (ts_worker s) + length (ts_waiting s)"
    using assms(1)
  proof cases
    case (t_task_accept i)
    obtain l where "length (ts_acceptWorker s) = Suc l" using t_task_accept(2) by (cases "ts_acceptWorker s") auto
    then show ?thesis using assms(2) inv' refs t_task_accept
      by (auto simp: winding_down_def stop_work_def length_remove1)
  next
    case t_task_stop
    let ?s = "s\<lparr>ts_acceptWorker := remove1 Stop_all (ts_acceptWorker s)\<rparr>"
    obtain l where pos: "length (ts_acceptWorker s) = Suc l" using t_task_stop(2) by (cases "ts_acceptWorker s") auto
    have "task_sockets (remove1 Stop_all (ts_acceptWorker s)) = task_sockets (ts_acceptWorker s)"
      by (auto simp: task_sockets_def)
    then have r: "ts_refs ?s = ts_refs s" by (simp add: ts_refs_def)
    then have i: "tcp_inv ?s" using inv by (simp add: tcp_inv_def)
    have "ts_sockets s' = [] \<and> ts_waiting s' = [] \<and> (\<forall>k\<in>set (ts_store s'). sk_sock k = - 1)"
      unfolding t_task_stop(1) using assms(2) stop_task_closes [OF i] closed_stop_task [of ?s] r
      by (auto simp: winding_down_def)
    then have "winding_down s'" using inv' stop stop_task_frame(1) [of ?s] by (simp add: winding_down_def t_task_stop(1))
    then show ?thesis using pos t_task_stop(2) stop_task_frame(2-5) [of ?s]
      by (simp add: stop_work_def length_remove1 t_task_stop(1))
  next
    case (t_wake i h a)
    obtain l where "length (ts_waiting s) = Suc l" using t_wake(2) by (cases "ts_waiting s") auto
    moreover have "length (ts_worker s') \<le> Suc (length (ts_worker s))"
      by (simp add: t_wake(1) TCPServer_accept_one_def split: option.split)
    ultimately show ?thesis using assms(2) inv' refs t_wake
      by (auto simp: winding_down_def stop_work_def length_remove1)
  next
    case (t_exit i)
    obtain l where "length (ts_accepting s) = Suc l" using t_exit(2) by (cases "ts_accepting s") auto
    then show ?thesis
      using assms(2) inv' refs t_exit destroy_unused_closed [of "s\<lparr>ts_accepting := remove1 i (ts_accepting s)\<rparr>"]
      by (auto simp: winding_down_def stop_work_def length_remove1)
  qed (use stop in simp_all)
  then show "winding_down s'" "stop_work s' < stop_work s"
    "length (ts_worker s') + length (ts_waiting s') \<le> length (ts_worker s) + length (ts_waiting s)" by simp_all
qed

lemma winding_down_run:
  "(task_step ^^ n) s s' \<Longrightarrow> winding_down s \<Longrightarrow> winding_down s' \<and> stop_work s' + n \<le> stop_work s
    \<and> length (ts_worker s') + length (ts_waiting s') \<le> length (ts_worker s) + length (ts_waiting s)"
proof (induction n arbitrary: s')
  case (Suc n)
  then obtain t where "(task_step ^^ n) s t" "task_step t s'" by auto
  then show ?case using Suc winding_down_step [of t s'] by fastforce
qed simp

lemma winding_down_stuck:
  assumes "winding_down s" "\<forall>s'. \<not> task_step s s'"
  shows "ts_acceptWorker s = [] \<and> ts_accepting s = [] \<and> ts_waiting s = []"
proof -
  have "x \<notin> set (ts_acceptWorker s)" for x
    using assms(2) t_task_accept [of _ s] t_task_stop [of s] by (cases x) blast+
  then have w: "ts_acceptWorker s = []" by (metis last_in_set)
  have "i \<notin> set (ts_accepting s)" for i
    using assms t_exit [of i s] by (auto simp: winding_down_def)
  then have "ts_accepting s = []" by (metis last_in_set)
  then show ?thesis using w assms(1) by (simp add: winding_down_def)
qed

text \<open>
  (C28) A server stops. Let \<^verbatim>\<open>stop\<close> be called in a state that calls of \<^verbatim>\<open>bind\<close>, \<^verbatim>\<open>start\<close> and \<^verbatim>\<open>stop\<close> and any order of the tasks and fibers can lead to, in which every
  listening socket in use is in the server's list. Whatever order the accepting worker takes after that, it comes to rest after a bounded number of steps
  with no task left and no fiber accepting or waiting; when the task of \<^verbatim>\<open>stop\<close> has run, the server has no sockets and every listening socket ever opened
  is closed; and the clients taken on meanwhile are at most one for each fiber that was waiting.
\<close>

theorem tcp_server_stops:
  assumes "tcp_reach read_timeout s" and "ts_refs s \<subseteq> set (ts_sockets s)" and "(task_step ^^ n) (TCPServer_stop s) s'"
  shows "n \<le> 2 * length (ts_acceptWorker s) + length (ts_accepting s) + 2 * length (ts_waiting s) + 2
    \<and> (Stop_all \<notin> set (ts_acceptWorker s') \<longrightarrow> ts_sockets s' = [] \<and> (\<forall>k\<in>set (ts_store s'). sk_sock k = - 1))
    \<and> ((\<forall>s''. \<not> task_step s' s'') \<longrightarrow> ts_acceptWorker s' = [] \<and> ts_accepting s' = [] \<and> ts_waiting s' = [])
    \<and> length (ts_worker s') \<le> length (ts_worker s) + length (ts_waiting s)"
proof -
  have "tcp_inv s" using tcp_reach_inv [OF assms(1)] .
  then have "winding_down (TCPServer_stop s)"
    using assms(2) by (auto simp: winding_down_def TCPServer_stop_def tcp_inv_def ts_refs_def task_sockets_def)
  note run = winding_down_run [OF assms(3) this]
  then have w: "winding_down s'" by simp
  show ?thesis
  proof (intro conjI impI)
    show "n \<le> 2 * length (ts_acceptWorker s) + length (ts_accepting s) + 2 * length (ts_waiting s) + 2"
      "length (ts_worker s') \<le> length (ts_worker s) + length (ts_waiting s)"
      using run by (simp_all add: stop_work_def TCPServer_stop_def)
    show "ts_sockets s' = []" "\<forall>k\<in>set (ts_store s'). sk_sock k = - 1" if "Stop_all \<notin> set (ts_acceptWorker s')"
      using that w by (simp_all add: winding_down_def)
    show "ts_acceptWorker s' = []" "ts_accepting s' = []" "ts_waiting s' = []" if "\<forall>s''. \<not> task_step s' s''"
      using winding_down_stuck [OF w that] by simp_all
  qed
qed

section \<open>Binding\<close>

text \<open>The answers with which an address is bound and listened on.\<close>

definition bind_succeeds :: "bind_answer \<Rightarrow> bool" where
  "bind_succeeds a \<longleftrightarrow> ba_fd a \<noteq> - 1 \<and> ba_bind a = 0 \<and> ba_listen a = 0"

lemma Socket_bind_fresh:
  "Socket_bind (ba_fd a) (ba_bind a) (ba_local a) item (Socket_CreateTCP item) = (b, sock) \<Longrightarrow>
    (b \<and> Socket_listen (ba_listen a) sock \<longleftrightarrow> bind_succeeds a) \<and> (b \<longrightarrow> sk_sock sock = ba_fd a)"
  by (auto simp: Socket_bind_def Socket_CreateTCP_def Socket_new_def Socket_newSock_def Socket_isValid_def Socket_listen_def
      bind_succeeds_def Let_def split: if_splits)

lemma bind_one_spec:
  assumes "TCPServer_bind_one item a s = Inr (ok, s')"
  shows "ok = bind_succeeds a" and "\<exists>k. ts_store s' = ts_store s @ [k] \<and> sk_sock k = (if ok then ba_fd a else - 1)"
    and "ts_sockets s' = ts_sockets s @ (if ok then [length (ts_store s)] else [])"
    and "ts_acceptWorker s' = ts_acceptWorker s" "ts_accepting s' = ts_accepting s" "ts_waiting s' = ts_waiting s"
  using assms Socket_bind_fresh [of a item]
  by (auto simp: TCPServer_bind_one_def Let_def rbind_eq_Inr_iff split: prod.splits if_splits)

lemma bind_loop_spec:
  assumes "TCPServer_bind_loop addrs fails s = Inr (fails', s')"
  shows "fails' = fails @ map fst (filter (\<lambda>(item, a). \<not> bind_succeeds a) addrs)
    \<and> (\<exists>ks. ts_store s' = ts_store s @ ks \<and> map sk_sock ks = map (\<lambda>(item, a). if bind_succeeds a then ba_fd a else - 1) addrs)
    \<and> (list_all (\<lambda>(item, a). bind_succeeds a) addrs \<longrightarrow>
         ts_sockets s' = ts_sockets s @ [length (ts_store s) ..< length (ts_store s) + length addrs])
    \<and> ts_acceptWorker s' = ts_acceptWorker s \<and> ts_accepting s' = ts_accepting s \<and> ts_waiting s' = ts_waiting s"
  using assms
proof (induction addrs arbitrary: fails s)
  case (Cons x addrs)
  obtain item a where x: "x = (item, a)" by fastforce
  obtain ok s1 where s1: "TCPServer_bind_one item a s = Inr (ok, s1)"
      "TCPServer_bind_loop addrs (if ok then fails else fails @ [item]) s1 = Inr (fails', s')"
    using Cons.prems by (auto simp: x rbind_eq_Inr_iff)
  note one = bind_one_spec [OF s1(1)]
  obtain k where k: "ts_store s1 = ts_store s @ [k]" "sk_sock k = (if ok then ba_fd a else - 1)" using one(2) by blast
  note ih = Cons.IH [OF s1(2)]
  obtain ks where ks: "ts_store s' = ts_store s1 @ ks" "map sk_sock ks = map (\<lambda>(item, a). if bind_succeeds a then ba_fd a else - 1) addrs"
    using ih by blast
  have "ts_store s' = ts_store s @ k # ks" "map sk_sock (k # ks) = map (\<lambda>(item, a). if bind_succeeds a then ba_fd a else - 1) (x # addrs)"
    using k ks one(1) by (simp_all add: x)
  moreover have "[length (ts_store s)] @ [Suc (length (ts_store s)) ..< Suc (length (ts_store s)) + length addrs]
      = [length (ts_store s) ..< length (ts_store s) + length (x # addrs)]"
    by (simp add: upt_conv_Cons del: upt_Suc)
  moreover note ih one(1,3-6) k(1)
  ultimately show ?case by (cases ok) (auto simp: x)
qed simp

text \<open>
  (C29) \<^verbatim>\<open>bind\<close> of a list of addresses either binds all of them or none: it returns true exactly when the system accepted
  every address, and then the server has one open listening socket for each, in order, behind those it had;
  otherwise it reports the addresses that failed, the server has no sockets at all, not even those of earlier calls, and
  every socket opened in this call is closed again.
\<close>

theorem bind_all_or_nothing:
  assumes "TCPServer_bind_all addrs [] s = Inr (ok, fails, s')" and "tcp_reach read_timeout s"
  shows "(ok \<longleftrightarrow> list_all (\<lambda>(item, a). bind_succeeds a) addrs)
    \<and> fails = map fst (filter (\<lambda>(item, a). \<not> bind_succeeds a) addrs)
    \<and> (ok \<longrightarrow> ts_sockets s' = ts_sockets s @ [length (ts_store s) ..< length (ts_store s) + length addrs]
        \<and> map sk_sock (drop (length (ts_store s)) (ts_store s')) = map (\<lambda>(item, a). ba_fd a) addrs)
    \<and> (\<not> ok \<longrightarrow> ts_sockets s' = [] \<and> (\<forall>k\<in>set (drop (length (ts_store s)) (ts_store s')). sk_sock k = - 1))"
proof -
  let ?n = "length (ts_store s)"
  have inv: "tcp_inv s" using tcp_reach_inv [OF assms(2)] .
  obtain s1 where l: "TCPServer_bind_loop addrs [] s = Inr (fails, s1)" "ok \<longleftrightarrow> fails = []"
      "s' = (if ok then s1 else destroy_unused (s1\<lparr>ts_sockets := []\<rparr>))"
    using assms(1) by (auto simp: TCPServer_bind_all_def rbind_eq_Inr_iff split: if_splits)
  note sp = bind_loop_spec [OF l(1)]
  obtain ks where ks: "ts_store s1 = ts_store s @ ks" "map sk_sock ks = map (\<lambda>(item, a). if bind_succeeds a then ba_fd a else - 1) addrs"
    using sp by blast
  have ok: "ok \<longleftrightarrow> list_all (\<lambda>(item, a). bind_succeeds a) addrs"
    using sp l(2) by (auto simp: filter_empty_conv list_all_iff)
  moreover have "map sk_sock (drop ?n (ts_store s')) = map (\<lambda>(item, a). ba_fd a) addrs" if "ok"
    using that ok ks l(3) by (auto simp: list_all_iff)
  moreover have "sk_sock k = - 1" if no: "\<not> ok" "k \<in> set (drop ?n (ts_store s'))" for k
  proof -
    let ?s = "s1\<lparr>ts_sockets := []\<rparr>"
    obtain m where m: "k = drop ?n (ts_store s') ! m" "m < length (ts_store s') - ?n"
      using no(2) by (auto simp: in_set_conv_nth)
    define j where "j = ?n + m"
    have j: "k = ts_store s' ! j" "?n \<le> j" "j < length (ts_store s1)"
      using m no(1) l(3) by (auto simp: j_def)
    have "ts_refs ?s \<subseteq> ts_refs s" using sp by (auto simp: ts_refs_def)
    then have "j \<notin> ts_refs ?s" using inv j(2) by (meson leD subsetD tcp_inv_def)
    then show ?thesis using j no(1) l(3) nth_destroy_unused [of j ?s] by simp
  qed
  ultimately show ?thesis using sp l(3) by simp
qed

section \<open>Stopping and starting again\<close>

text \<open>
  \<^verbatim>\<open>stop\<close> only schedules the closing of the sockets. When a running server is stopped and started again before that task has run, \<^verbatim>\<open>start\<close>
  reports success and schedules fibers for the old sockets; the pending task then closes them. The server believes it runs, but it has no
  sockets, and a fiber that accepts on a closed socket turns for ever: each turn leaves everything as it is and the
  loop does not end.
\<close>

theorem stop_then_start_spins:
  assumes "tcp_reach read_timeout s" and "i \<in> set (ts_sockets s)" and "ts_acceptWorker s = []"
  shows "\<exists>s2. tcp_step\<^sup>*\<^sup>* (TCPServer_stop s) s2 \<and> \<not> ts_isStop s2 \<and> ts_sockets s2 = [] \<and> i \<in> set (ts_accepting s2)
     \<and> sk_sock (ts_store s2 ! i) = - 1
     \<and> (\<forall>h a. aa_fd a = - 1 \<longrightarrow> TCPServer_accept_one h i a s2 = s2)"
proof -
  let ?s1 = "snd (TCPServer_start (TCPServer_stop s))"
  let ?s2 = "?s1\<lparr>ts_acceptWorker := remove1 (Start_accept i) (ts_acceptWorker ?s1), ts_accepting := i # ts_accepting ?s1\<rparr>"
  let ?s3 = "TCPServer_stop_task (?s2\<lparr>ts_acceptWorker := remove1 Stop_all (ts_acceptWorker ?s2)\<rparr>)"
  have w: "ts_acceptWorker ?s1 = Stop_all # map Start_accept (ts_sockets s)" "\<not> ts_isStop ?s1" "ts_sockets ?s1 = ts_sockets s"
      "ts_store ?s1 = ts_store s" "ts_accepting ?s1 = ts_accepting s"
    using assms(3) by (simp_all add: TCPServer_start_def TCPServer_stop_def)
  have "tcp_step (TCPServer_stop s) ?s1" by (rule tcp_step.t_start)
  moreover have "tcp_step ?s1 ?s2" using assms(2) w(1) by (intro tcp_step.t_task task_step.t_task_accept) auto
  moreover have "tcp_step ?s2 ?s3" using w(1) by (intro tcp_step.t_task task_step.t_task_stop) simp
  ultimately have r: "tcp_step\<^sup>*\<^sup>* (TCPServer_stop s) ?s3" by auto
  have i: "i < length (ts_store s)" using tcp_reach_inv [OF assms(1)] assms(2) by (auto simp: tcp_inv_def ts_refs_def)
  then have "sk_sock (ts_store ?s3 ! i) = - 1"
    unfolding TCPServer_stop_task_def using assms(2) w by (subst nth_destroy_unused) (simp_all add: nth_enumerate_eq)
  moreover have "\<not> ts_isStop ?s3" "ts_sockets ?s3 = []" "i \<in> set (ts_accepting ?s3)"
    using w by (simp_all add: TCPServer_stop_task_def)
  moreover have "TCPServer_accept_one h i a ?s3 = ?s3" if "aa_fd a = - 1" for h a
    using that by (simp add: TCPServer_accept_one_def Socket_accept_def)
  ultimately show ?thesis using r by blast
qed

section \<open>An example\<close>

definition good_answer :: bind_answer where
  "good_answer = \<lparr>ba_fd = 5, ba_bind = 0, ba_local = None, ba_listen = 0\<rparr>"

definition sample_addr :: Address where
  "sample_addr = IPv4Address (IPv4Address_new 0 80)"

definition bound_server :: tcp_server where
  "bound_server = (TCPServer_new 1000)\<lparr>ts_store := [snd (Socket_bind 5 0 None sample_addr (Socket_CreateTCP sample_addr))], ts_sockets := [0]\<rparr>"

lemma good_bind: "TCPServer_bind_all [(sample_addr, good_answer)] [] (TCPServer_new 1000) = Inr (True, [], bound_server)"
proof -
  obtain sock where "Socket_bind 5 0 None sample_addr (Socket_CreateTCP sample_addr) = (True, sock)" "Socket_listen 0 sock"
    by (simp add: Socket_bind_def Socket_CreateTCP_def Socket_new_def Socket_newSock_def Socket_isValid_def Socket_listen_def
        Socket_getLocalAddress_def Let_def)
  then show ?thesis
    by (simp add: TCPServer_bind_all_def TCPServer_bind_one_def good_answer_def bound_server_def TCPServer_new_def Let_def)
qed

lemma new_reach: "tcp_reach t (TCPServer_new t)"
  by (simp add: tcp_reach_def)

lemma bound_reach: "tcp_reach 1000 bound_server"
  using tcp_step.t_bind [OF good_bind] by (simp add: tcp_reach_def r_into_rtranclp)

text \<open>The same server after \<^verbatim>\<open>start\<close>, with its fiber waiting in \<^verbatim>\<open>accept\<close>.\<close>

definition waiting_server :: tcp_server where
  "waiting_server = bound_server\<lparr>ts_isStop := False, ts_waiting := [0]\<rparr>"

lemma bound_fields:
  "ts_sockets bound_server = [0]" "ts_isStop bound_server" "ts_acceptWorker bound_server = []" "ts_accepting bound_server = []"
  "ts_waiting bound_server = []" "ts_worker bound_server = []" "length (ts_store bound_server) = 1" "sk_sock (ts_store bound_server ! 0) = 5"
  by (simp_all add: bound_server_def TCPServer_new_def Socket_bind_def Socket_CreateTCP_def Socket_new_def Socket_newSock_def
      Socket_isValid_def Let_def)

lemma waiting_reach: "tcp_reach 1000 waiting_server"
proof -
  let ?s1 = "snd (TCPServer_start bound_server)"
  let ?s2 = "?s1\<lparr>ts_acceptWorker := remove1 (Start_accept 0) (ts_acceptWorker ?s1), ts_accepting := 0 # ts_accepting ?s1\<rparr>"
  have s1: "?s1 = bound_server\<lparr>ts_isStop := False, ts_acceptWorker := [Start_accept 0]\<rparr>"
    by (simp add: TCPServer_start_def bound_fields)
  have "tcp_step bound_server ?s1" by (rule tcp_step.t_start)
  moreover have "tcp_step ?s1 ?s2" by (intro tcp_step.t_task task_step.t_task_accept) (simp add: s1)
  moreover have "tcp_step ?s2 (?s2\<lparr>ts_accepting := remove1 0 (ts_accepting ?s2), ts_waiting := 0 # ts_waiting ?s2\<rparr>)"
    by (intro tcp_step.t_task task_step.t_wait) (simp_all add: s1 bound_fields)
  moreover have "?s2\<lparr>ts_accepting := remove1 0 (ts_accepting ?s2), ts_waiting := 0 # ts_waiting ?s2\<rparr> = waiting_server"
    unfolding s1 by (simp add: waiting_server_def bound_server_def TCPServer_new_def)
  ultimately show ?thesis using bound_reach unfolding tcp_reach_def by (metis rtranclp.rtrancl_into_rtrancl)
qed

theorem tcp_server_stops_witness:
  "\<exists>s'. (task_step ^^ 1) (TCPServer_stop waiting_server) s' \<and> ts_sockets s' = [] \<and> (\<forall>k\<in>set (ts_store s'). sk_sock k = - 1)
     \<and> ts_waiting s' = [] \<and> ts_accepting s' = [0]"
proof -
  let ?s = "TCPServer_stop waiting_server"
  let ?s' = "TCPServer_stop_task (?s\<lparr>ts_acceptWorker := remove1 Stop_all (ts_acceptWorker ?s)\<rparr>)"
  have "task_step ?s ?s'" by (rule task_step.t_task_stop) (simp add: TCPServer_stop_def)
  then have run: "(task_step ^^ 1) ?s ?s'" by (metis relpowp_1)
  have refs: "ts_refs waiting_server \<subseteq> set (ts_sockets waiting_server)"
    by (simp add: ts_refs_def task_sockets_def waiting_server_def bound_fields)
  have f: "ts_acceptWorker ?s' = []" "ts_waiting ?s' = []" "ts_accepting ?s' = [0]"
    by (simp_all add: TCPServer_stop_task_def TCPServer_stop_def waiting_server_def bound_fields)
  then have "ts_sockets ?s' = []" "\<forall>k\<in>set (ts_store ?s'). sk_sock k = - 1"
    using tcp_server_stops [OF waiting_reach refs run] by simp_all
  then show ?thesis using f run by (intro exI [of _ ?s'] conjI)
qed

theorem bind_all_or_nothing_witness:
  "ts_sockets bound_server = [0] \<and> map sk_sock (ts_store bound_server) = [5]"
  using bind_all_or_nothing [OF good_bind new_reach]
  by (simp add: TCPServer_new_def good_answer_def)

theorem stop_then_start_spins_witness:
  "\<exists>s2. tcp_step\<^sup>*\<^sup>* (TCPServer_stop bound_server) s2 \<and> \<not> ts_isStop s2 \<and> ts_sockets s2 = [] \<and> 0 \<in> set (ts_accepting s2)
     \<and> sk_sock (ts_store s2 ! 0) = - 1"
  using stop_then_start_spins [OF bound_reach, of 0] by (auto simp: bound_server_def TCPServer_new_def)

end
