(* ===== verification/Server_Application.thy ===== *)
theory Server_Application
  imports Config Tcp_Server Http_Connection
begin

text \<open>
  Model of \<^verbatim>\<open>src/src/daemon.cpp\<close> and \<^verbatim>\<open>application.cpp\<close>: the process that restarts its child, the configuration of the servers, and the
  start of the application on the models of its parts.
\<close>

section \<open>Daemon\<close>

record ProcessInfo =
  pi_parent_id :: int
  pi_main_id :: int
  pi_parent_start_time :: u64
  pi_main_start_time :: u64
  pi_restart_count :: u32

definition ProcessInfo_toString :: "(u64 \<Rightarrow> string) \<Rightarrow> ProcessInfo \<Rightarrow> string" where
  "ProcessInfo_toString TimeToStr p =
     ''[ProcessInfo parent_id = '' @ print_int (pi_parent_id p) @ '' main_id = '' @ print_int (pi_main_id p)
     @ '' parent_start_timr = '' @ TimeToStr (pi_parent_start_time p) @ '' main_start_time = '' @ TimeToStr (pi_main_start_time p)
     @ '' restart_count = '' @ print_dec (pi_restart_count p) @ '']''"

text \<open>
  What one round of the loop meets: \<^verbatim>\<open>fork\<close> fails, the process is the child (its identifier and the time), or it is the parent and \<^verbatim>\<open>waitpid\<close> has
  left a status. The parent goes on with the rest of the rounds; without more rounds it still waits.
\<close>

datatype fork_answer = Fork_failed | In_child int u64 | In_parent int

datatype daemon_end = Daemon_returns int ProcessInfo | Daemon_child ProcessInfo | Daemon_waits ProcessInfo

fun daemon_loop :: "fork_answer list \<Rightarrow> ProcessInfo \<Rightarrow> daemon_end" where
  "daemon_loop [] p = Daemon_waits p"
| "daemon_loop (Fork_failed # as) p = Daemon_returns (- 1) p"
| "daemon_loop (In_child pid now # as) p = Daemon_child (p\<lparr>pi_main_id := pid, pi_main_start_time := now\<rparr>)"
| "daemon_loop (In_parent status # as) p =
     (if status \<noteq> 0 then daemon_loop as (p\<lparr>pi_restart_count := pi_restart_count p + 1\<rparr>) else Daemon_returns 0 p)"

definition real_daemon :: "int \<Rightarrow> u64 \<Rightarrow> fork_answer list \<Rightarrow> ProcessInfo \<Rightarrow> daemon_end" where
  "real_daemon pid now as p = daemon_loop as (p\<lparr>pi_parent_id := pid, pi_parent_start_time := now\<rparr>)"

text \<open>The result of \<^verbatim>\<open>start_daemon\<close>, \<open>None\<close> while the parent waits; the child returns what \<open>main_cb\<close> does.\<close>

definition start_daemon :: "int \<Rightarrow> u64 \<Rightarrow> fork_answer list \<Rightarrow> bool \<Rightarrow> (ProcessInfo \<Rightarrow> int) \<Rightarrow> ProcessInfo \<Rightarrow> int option" where
  "start_daemon pid now as is_daemon main_cb p =
     (if \<not> is_daemon then Some (main_cb p)
      else case real_daemon pid now as p of
             Daemon_returns r _ \<Rightarrow> Some r
           | Daemon_child p' \<Rightarrow> Some (main_cb p')
           | Daemon_waits _ \<Rightarrow> None)"

definition Application_run :: "int \<Rightarrow> u64 \<Rightarrow> fork_answer list \<Rightarrow> (ProcessInfo \<Rightarrow> int) \<Rightarrow> Env \<Rightarrow> ProcessInfo \<Rightarrow> bool option" where
  "Application_run pid now as main env p = map_option (\<lambda>r. r \<noteq> 0) (start_daemon pid now as (Env_has ''d'' env) main p)"

section \<open>The configuration of a server\<close>

record HttpServerConf =
  sc_address :: "string list"
  sc_keepalive :: int
  sc_timeout :: int
  sc_name :: string

definition HttpServerConf_new :: HttpServerConf where
  "HttpServerConf_new = \<lparr>sc_address = [], sc_keepalive = 0, sc_timeout = 1000 * 2 * 60, sc_name = []\<rparr>"

definition HttpServerConf_isValid :: "HttpServerConf \<Rightarrow> bool" where
  "HttpServerConf_isValid conf \<longleftrightarrow> sc_address conf \<noteq> []"

definition HttpServerConf_eq :: "HttpServerConf \<Rightarrow> HttpServerConf \<Rightarrow> bool" where
  "HttpServerConf_eq a b \<longleftrightarrow>
     sc_address a = sc_address b \<and> sc_keepalive a = sc_keepalive b \<and> sc_timeout a = sc_timeout b \<and> sc_name a = sc_name b"

text \<open>\<open>as_int\<close> and \<open>as_string\<close> are \<^verbatim>\<open>as<int>(fallback)\<close> and \<^verbatim>\<open>as<std::string>(fallback)\<close> of yaml-cpp on a node that may be undefined.\<close>

definition LexicalCast_to_HttpServerConf ::
    "'n yaml \<Rightarrow> ('n option \<Rightarrow> int \<Rightarrow> int) \<Rightarrow> ('n option \<Rightarrow> string \<Rightarrow> string) \<Rightarrow> string \<Rightarrow> HttpServerConf option" where
  "LexicalCast_to_HttpServerConf Y as_int as_string v =
     (let conf = HttpServerConf_new in
      Option.bind (y_load Y v) (\<lambda>node.
      Option.bind (y_get Y node ''keepalive'') (\<lambda>keepalive.
      Option.bind (y_get Y node ''timeout'') (\<lambda>timeout.
      Option.bind (y_get Y node ''name'') (\<lambda>name.
      Option.bind (y_get Y node ''address'') (\<lambda>address.
      map_option (\<lambda>as. \<lparr>sc_address = as, sc_keepalive = as_int keepalive (sc_keepalive conf), sc_timeout = as_int timeout (sc_timeout conf),
          sc_name = as_string name (sc_name conf)\<rparr>)
        (case address of None \<Rightarrow> Some [] | Some a \<Rightarrow> cast_all (\<lambda>i. y_as Y (y_index Y a i)) [0 ..< y_size Y a])))))))"

definition LexicalCast_of_HttpServerConf :: "'n yaml \<Rightarrow> HttpServerConf \<Rightarrow> string" where
  "LexicalCast_of_HttpServerConf Y conf =
     (let node = y_set Y (y_null Y) ''name'' (y_text Y (sc_name conf));
          node = y_set Y node ''keepalive'' (y_text Y (print_int (sc_keepalive conf)));
          node = y_set Y node ''timeout'' (y_text Y (print_int (sc_timeout conf)))
      in y_emit Y (fold (\<lambda>item n. push_at Y ''address'' (y_text Y item) n) (sc_address conf) node))"

section \<open>Starting\<close>

text \<open>
  The answers of the system: the executable's path, directories, modification times and files for the configuration, the pid file, and the
  calls that make directories in a file system \<open>'fs\<close>.
\<close>

record ('n, 'fs) app_sys =
  sy_exe :: string
  sy_readdir :: "string \<Rightarrow> (string \<times> d_type) list option"
  sy_mtime :: "string \<Rightarrow> u64"
  sy_loadfile :: "string \<Rightarrow> 'n option"
  sy_exists :: "string \<Rightarrow> bool"
  sy_line :: "string \<Rightarrow> string option"
  sy_kill :: "int \<Rightarrow> bool"
  sy_lstat :: "string \<Rightarrow> 'fs \<Rightarrow> bool"
  sy_access :: "string \<Rightarrow> 'fs \<Rightarrow> bool"
  sy_mkdir :: "string \<Rightarrow> 'fs \<Rightarrow> bool \<times> 'fs"

record ('v, 'cb, 's, 'fs) app =
  ap_env :: Env
  ap_mtimes :: "string \<rightharpoonup> u64"
  ap_config :: "('v, 'cb) config \<times> 's"
  ap_fs :: 'fs
  ap_output :: string

text \<open>\<open>str\<close> reads a value of type \<^verbatim>\<open>std::string\<close>; the two variables are registered before \<^verbatim>\<open>main\<close>.\<close>

definition config_string :: "('v \<Rightarrow> string) \<Rightarrow> string \<Rightarrow> ('v, 'cb) config \<Rightarrow> string" where
  "config_string str name m = (case Config_LookupBase name m of Some var \<Rightarrow> str (cv_val var) | None \<Rightarrow> [])"

definition server_pidfile :: "('v \<Rightarrow> string) \<Rightarrow> ('v, 'cb) config \<Rightarrow> string" where
  "server_pidfile str m = config_string str ''server.work.path'' m @ ''/'' @ config_string str ''server.pid.file'' m"

definition help_texts :: "Env \<Rightarrow> Env" where
  "help_texts e = Env_addHelp ''p'' ''print help'' (Env_addHelp ''c'' ''config path default: ./config''
     (Env_addHelp ''d'' ''run as a daemon'' (Env_addHelp ''s'' ''start with terminal'' e)))"

definition Application_init ::
    "nat \<Rightarrow> 'n yaml \<Rightarrow> 'v conversions \<Rightarrow> ('cb \<Rightarrow> 'v \<Rightarrow> 'v \<Rightarrow> 's \<Rightarrow> (bool \<times> 's) option) \<Rightarrow> ('v \<Rightarrow> string) \<Rightarrow> ('n, 'fs) app_sys
      \<Rightarrow> string \<Rightarrow> string list \<Rightarrow> ('v, 'cb, 's, 'fs) app \<Rightarrow> (bool \<times> ('v, 'cb, 's, 'fs) app) option" where
  "Application_init fuel Y T call str sys program argv a =
     (let (ok, env) = Env_init (sy_exe sys) program argv (help_texts (ap_env a)); a = a\<lparr>ap_env := env\<rparr>;
          pidfile = server_pidfile str (fst (ap_config a)) in
      if \<not> ok \<or> Env_has ''p'' env \<or> (\<not> Env_has ''s'' env \<and> \<not> Env_has ''d'' env)
      then Some (False, a\<lparr>ap_output := ap_output a @ Env_printHelp env\<rparr>)
      else if FSUtil_IsRunningPidfile (sy_exists sys pidfile) (sy_line sys pidfile) (sy_kill sys) then Some (False, a)
      else
        Option.bind (Config_LoadFromConfDir fuel Y T call (sy_mtime sys) (sy_loadfile sys) (sy_readdir sys) env
            (Env_getAbsolutionPath (Env_get ''c'' ''config'' env) env) (ap_mtimes a) (ap_config a)) (\<lambda>(mtimes, ms).
          map_option (\<lambda>(made, fs). (made, a\<lparr>ap_mtimes := mtimes, ap_config := ms, ap_fs := fs\<rparr>))
            (FSUtil_Mkdir (sy_lstat sys) (sy_access sys) (sy_mkdir sys) (config_string str ''server.work.path'' (fst ms)) (ap_fs a))))"

text \<open>
  \<^verbatim>\<open>main\<close>: its result, and what the pid file holds while the server runs and after \<^verbatim>\<open>main\<close> has returned. The number stays in the buffer of the
  stream, which is not flushed before its destructor runs. The server itself runs in the I/O manager as \<^verbatim>\<open>run_fiber\<close>.
\<close>

definition Application_main :: "bool \<Rightarrow> int \<Rightarrow> int \<times> string option \<times> string option" where
  "Application_main opened pid = (if \<not> opened then (0, None, None) else (1, Some [], Some (print_int pid)))"

section \<open>The servers\<close>

text \<open>
  The addresses of one entry. An address that is not an IP address would be a null pointer, which \<^verbatim>\<open>bind\<close> dereferences.
\<close>

definition interface_address :: "u16 \<Rightarrow> Address \<times> u32 \<Rightarrow> addr_error + Address" where
  "interface_address port x = (if is_IPAddress (fst x) then Inr (IPAddress_setPort port (fst x)) else Inl Addr_null)"

definition resolve_address :: "resolver \<Rightarrow> ifaddrs list option \<Rightarrow> string \<Rightarrow> addr_error + Address list" where
  "resolve_address getaddrinfo getifaddrs i =
     (case index_of (CHR '':'') i of
        None \<Rightarrow> Inr []
      | Some pos \<Rightarrow>
          rbind (Address_LookupAny getaddrinfo i (uint AF_INET) 0 0) (\<lambda>addr.
            case addr of
              Some a \<Rightarrow> Inr [a]
            | None \<Rightarrow>
                rbind (GetInterfaceAddress_iface getifaddrs (take pos i) AF_INET []) (\<lambda>result.
                  case result of
                    None \<Rightarrow> Inr []
                  | Some xs \<Rightarrow> map_result (interface_address (word_of_int (atoi (c_str (drop (pos + 1) i))))) xs)))"

fun resolve_addresses :: "resolver \<Rightarrow> ifaddrs list option \<Rightarrow> string list \<Rightarrow> addr_error + Address list" where
  "resolve_addresses getaddrinfo getifaddrs [] = Inr []"
| "resolve_addresses getaddrinfo getifaddrs (i # is) =
     rbind (resolve_address getaddrinfo getifaddrs i) (\<lambda>as.
       rbind (resolve_addresses getaddrinfo getifaddrs is) (\<lambda>rest. Inr (as @ rest)))"

text \<open>
  \<^verbatim>\<open>run_fiber\<close>: whether it called \<^verbatim>\<open>exit\<close>, and the servers started so far, each an HTTP server with its TCP server. \<open>answer\<close> is what the system answers when an
  address is bound. A failed address was printed before without an exception.
\<close>

fun run_fiber ::
    "resolver \<Rightarrow> ifaddrs list option \<Rightarrow> (Address \<Rightarrow> bind_answer) \<Rightarrow> u64 \<Rightarrow> HttpServerConf list \<Rightarrow> (http_server \<times> tcp_server) list
      \<Rightarrow> addr_error + (bool \<times> (http_server \<times> tcp_server) list)" where
  "run_fiber getaddrinfo getifaddrs answer read_timeout [] servers = Inr (False, servers)"
| "run_fiber getaddrinfo getifaddrs answer read_timeout (item # confs) servers =
     rbind (resolve_addresses getaddrinfo getifaddrs (sc_address item)) (\<lambda>addrs.
     rbind (TCPServer_bind_all (map (\<lambda>a. (a, answer a)) addrs) [] (TCPServer_new read_timeout)) (\<lambda>(ok, fails, tcp).
       if \<not> ok then Inr (True, servers)
       else run_fiber getaddrinfo getifaddrs answer read_timeout confs
              (servers @ [(HttpServer_new (sc_keepalive item \<noteq> 0), snd (TCPServer_start tcp))])))"

section \<open>Restarting\<close>

lemma daemon_loop_crashes:
  "list_all (\<lambda>st. st \<noteq> 0) crashes \<Longrightarrow>
    daemon_loop (map In_parent crashes @ as) p = daemon_loop as (p\<lparr>pi_restart_count := pi_restart_count p + of_nat (length crashes)\<rparr>)"
  by (induction crashes arbitrary: p) (simp_all add: add.commute add.left_commute)

text \<open>
  (C37) The daemon starts its child again as often as it crashes, and counts: after any number of children that ended with a status other than 0 the next child is
  started with that count; the daemon ends with 0 when a child ends with status 0 and with -1 when it cannot fork, and waits as long as neither happens. \<^verbatim>\<open>Application::run\<close>
  makes a truth value of that number, so that it answers false after the regular end and true when the fork failed.
\<close>

theorem daemon_restarts_child:
  assumes "list_all (\<lambda>st. st \<noteq> 0) crashes"
    and "q = p\<lparr>pi_parent_id := pid, pi_parent_start_time := now, pi_restart_count := pi_restart_count p + of_nat (length crashes)\<rparr>"
  shows "real_daemon pid now (map In_parent crashes @ In_child c t # as) p = Daemon_child (q\<lparr>pi_main_id := c, pi_main_start_time := t\<rparr>) \<and>
    real_daemon pid now (map In_parent crashes @ In_parent 0 # as) p = Daemon_returns 0 q \<and>
    real_daemon pid now (map In_parent crashes @ Fork_failed # as) p = Daemon_returns (- 1) q \<and>
    real_daemon pid now (map In_parent crashes) p = Daemon_waits q \<and>
    (Env_has ''d'' env \<longrightarrow>
      Application_run pid now (map In_parent crashes @ In_parent 0 # as) main env p = Some False \<and>
      Application_run pid now (map In_parent crashes @ Fork_failed # as) main env p = Some True \<and>
      Application_run pid now (map In_parent crashes) main env p = None)"
proof -
  note loop = daemon_loop_crashes [OF assms(1)]
  show ?thesis unfolding assms(2) Application_run_def start_daemon_def real_daemon_def using loop [of "[]"] by (simp add: loop)
qed

definition no_process :: ProcessInfo where
  "no_process = \<lparr>pi_parent_id = 0, pi_main_id = 0, pi_parent_start_time = 0, pi_main_start_time = 0, pi_restart_count = 0\<rparr>"

theorem daemon_restarts_child_witness:
  "(\<exists>q. real_daemon 10 5 [In_parent 139, In_parent 139, In_child 13 9] no_process = Daemon_child q \<and> pi_restart_count q = 2) \<and>
   Application_run 10 5 [In_parent 139, In_parent 139, In_parent 0] (\<lambda>_. 1) (Env_add ''d'' [] Env_new) no_process = Some False"
proof -
  have crashes: "list_all (\<lambda>st. st \<noteq> 0) [139, 139 :: int]" by simp
  have d: "Env_has ''d'' (Env_add ''d'' [] Env_new)" by (simp add: Env_has_def Env_add_def Env_new_def)
  note laws = daemon_restarts_child [OF crashes refl, where p = no_process and pid = 10 and now = 5]
  show ?thesis
    using laws [where c = 13 and t = 9 and as = "[]", THEN conjunct1]
      laws [where as = "[]" and env = "Env_add ''d'' [] Env_new" and main = "\<lambda>_. 1", THEN conjunct2, THEN conjunct2, THEN conjunct2, THEN conjunct2] d
    by (simp add: no_process_def)
qed

section \<open>The pid file\<close>

text \<open>What \<^verbatim>\<open>std::getline\<close> reads from a file that exists and opens.\<close>

definition first_line :: "string \<Rightarrow> string option" where
  "first_line text = (if text = [] then None else Some (takeWhile (\<lambda>c. c \<noteq> CHR 0x0A) text))"

text \<open>
  The guard against a second instance works the wrong way round. While the server runs, its pid file is empty and a second instance is
  not refused; when it has ended, the file names its old process, and a start is refused when any process has that number.
\<close>

theorem pidfile_inverted:
  assumes "1 < pid" "pid < 2 ^ 31" "Application_main True pid = (r, Some running, Some ended)"
  shows "\<not> FSUtil_IsRunningPidfile True (first_line running) kill_ok \<and>
    (FSUtil_IsRunningPidfile True (first_line ended) kill_ok \<longleftrightarrow> kill_ok pid)"
proof -
  have files: "running = []" "ended = print_nat 10 (nat pid)" using assms by (auto simp: Application_main_def print_int_def)
  have digits: "list_all (\<lambda>c. digit_val c < 10) ended" "ended \<noteq> []" using print_nat_digits [of 10 "nat pid"] print_nat_ne by (auto simp: files)
  have plain: "c \<noteq> CHR 0x0A \<and> c \<noteq> CHR 0x00" if "c \<in> set ended" for c
  proof -
    have "digit_val c < 10" using digits(1) that by (simp add: list_all_iff)
    then show ?thesis by (auto simp: digit_val_def)
  qed
  have line: "first_line ended = Some ended" "c_str ended = ended"
    using plain digits(2) by (simp_all add: first_line_def takeWhile_eq_all_conv c_str_def)
  have "strtol 10 (print_nat 10 (nat pid) @ []) = int (nat pid)" using assms by (intro strtol_print) auto
  then have "atoi ended = pid" using assms(1,2) by (simp add: atoi_def files int32_id)
  then show ?thesis using assms(1) line digits(2) by (simp add: FSUtil_IsRunningPidfile_def first_line_def [of "[]"] files(1))
qed

section \<open>The servers of the configuration\<close>

lemma bind_one_succeeds:
  assumes "bind_succeeds a"
  shows "\<exists>s'. TCPServer_bind_one item a s = Inr (True, s') \<and> ts_isStop s' = ts_isStop s"
proof -
  obtain b sock where "Socket_bind (ba_fd a) (ba_bind a) (ba_local a) item (Socket_CreateTCP item) = (b, sock)" by fastforce
  with Socket_bind_fresh [OF this] assms show ?thesis by (auto simp: TCPServer_bind_one_def)
qed

lemma bind_loop_succeeds:
  "list_all (\<lambda>(item, a). bind_succeeds a) addrs \<Longrightarrow> \<exists>s'. TCPServer_bind_loop addrs fails s = Inr (fails, s') \<and> ts_isStop s' = ts_isStop s"
proof (induction addrs arbitrary: s)
  case (Cons x addrs)
  obtain item a where x: "x = (item, a)" by fastforce
  obtain s1 where "TCPServer_bind_one item a s = Inr (True, s1)" "ts_isStop s1 = ts_isStop s"
    using bind_one_succeeds [of a item s] Cons.prems by (auto simp: x)
  then show ?case using Cons by (auto simp: x)
qed simp

text \<open>A started server with one open socket for each address.\<close>

definition serves :: "(Address \<Rightarrow> bind_answer) \<Rightarrow> Address list \<Rightarrow> tcp_server \<Rightarrow> bool" where
  "serves answer addrs t \<longleftrightarrow> \<not> ts_isStop t \<and> map (\<lambda>i. sk_sock (ts_store t ! i)) (ts_sockets t) = map (\<lambda>a. ba_fd (answer a)) addrs \<and>
     ts_acceptWorker t = map Start_accept (ts_sockets t)"

lemma bind_start_serves:
  assumes "\<forall>a\<in>set addrs. bind_succeeds (answer a)"
  shows "\<exists>t. TCPServer_bind_all (map (\<lambda>a. (a, answer a)) addrs) [] (TCPServer_new read_timeout) = Inr (True, [], t) \<and>
    serves answer addrs (snd (TCPServer_start t))"
proof -
  let ?addrs = "map (\<lambda>a. (a, answer a)) addrs"
  have all: "list_all (\<lambda>(item, a). bind_succeeds a) ?addrs" using assms by (simp add: list_all_iff)
  obtain t where t: "TCPServer_bind_loop ?addrs [] (TCPServer_new read_timeout) = Inr ([], t)" "ts_isStop t"
    using bind_loop_succeeds [OF all, of "[]" "TCPServer_new read_timeout"] by (auto simp: TCPServer_new_def)
  note sp = bind_loop_spec [OF t(1)]
  have fds: "map (\<lambda>(item, a). if bind_succeeds a then ba_fd a else - 1) ?addrs = map (\<lambda>a. ba_fd (answer a)) addrs"
    using assms by simp
  have store: "map sk_sock (ts_store t) = map (\<lambda>a. ba_fd (answer a)) addrs" and sockets: "ts_sockets t = [0 ..< length addrs]"
    and rest: "ts_acceptWorker t = []"
    using sp all unfolding fds by (auto simp: TCPServer_new_def)
  have "length (ts_store t) = length addrs" using arg_cong [OF store, of length] by simp
  then have "map (\<lambda>i. sk_sock (ts_store t ! i)) [0 ..< length addrs] = map sk_sock (ts_store t)"
    by (intro nth_equalityI) simp_all
  then have "serves answer addrs (snd (TCPServer_start t))"
    using t(2) store sockets rest by (simp add: serves_def TCPServer_start_def)
  then show ?thesis using t(1) by (simp add: TCPServer_bind_all_def)
qed

text \<open>An address of the configuration that names at least one address, all of which the system accepts.\<close>

definition usable_address :: "resolver \<Rightarrow> ifaddrs list option \<Rightarrow> (Address \<Rightarrow> bind_answer) \<Rightarrow> string \<Rightarrow> bool" where
  "usable_address getaddrinfo getifaddrs answer i \<longleftrightarrow>
     (case resolve_address getaddrinfo getifaddrs i of
        Inl e \<Rightarrow> False
      | Inr as \<Rightarrow> as \<noteq> [] \<and> list_all (\<lambda>a. bind_succeeds (answer a)) as)"

lemma resolve_addresses_usable:
  assumes "\<forall>i\<in>set is. usable_address getaddrinfo getifaddrs answer i"
  shows "\<exists>ass. resolve_addresses getaddrinfo getifaddrs is = Inr (concat ass)
    \<and> list_all2 (\<lambda>i as. resolve_address getaddrinfo getifaddrs i = Inr as \<and> as \<noteq> []) is ass
    \<and> (\<forall>a\<in>set (concat ass). bind_succeeds (answer a))"
  using assms
proof (induction "is")
  case Nil
  then show ?case by (intro exI [of _ "[]"]) simp
next
  case (Cons i "is")
  then obtain ass where ih: "resolve_addresses getaddrinfo getifaddrs is = Inr (concat ass)"
    "list_all2 (\<lambda>i as. resolve_address getaddrinfo getifaddrs i = Inr as \<and> as \<noteq> []) is ass"
    "\<forall>a\<in>set (concat ass). bind_succeeds (answer a)" by auto
  obtain as where "resolve_address getaddrinfo getifaddrs i = Inr as" "as \<noteq> []" "\<forall>a\<in>set as. bind_succeeds (answer a)"
    using Cons.prems by (auto simp: usable_address_def list_all_iff split: sum.splits)
  with ih show ?case by (intro exI [of _ "as # ass"]) auto
qed

text \<open>
  (C18) \<^verbatim>\<open>run_fiber\<close> starts the configured servers. When every address in the configuration resolves to at least one address (by name, or as the name of an
  interface) and the system accepts all of these, it returns without ending the process, and for every entry, in order, there is a running HTTP
  server with the keep-alive of the entry, at least one open listening socket for each of its configured addresses (one for each address that it resolves to, in
  order), and a scheduled accept loop for each socket. The timeout and the name of an entry have no part in it.
\<close>

theorem run_fiber_serves:
  assumes "\<forall>conf\<in>set confs. \<forall>i\<in>set (sc_address conf). usable_address getaddrinfo getifaddrs answer i"
  shows "\<exists>started. run_fiber getaddrinfo getifaddrs answer read_timeout confs servers = Inr (False, servers @ started) \<and>
    list_all2 (\<lambda>conf (http, tcp). http = HttpServer_new (sc_keepalive conf \<noteq> 0) \<and>
      (\<exists>ass. list_all2 (\<lambda>i as. resolve_address getaddrinfo getifaddrs i = Inr as \<and> as \<noteq> []) (sc_address conf) ass \<and>
        serves answer (concat ass) tcp)) confs started"
  using assms
proof (induction confs arbitrary: servers)
  case (Cons conf confs)
  obtain ass where ass: "resolve_addresses getaddrinfo getifaddrs (sc_address conf) = Inr (concat ass)"
    "list_all2 (\<lambda>i as. resolve_address getaddrinfo getifaddrs i = Inr as \<and> as \<noteq> []) (sc_address conf) ass"
    "\<forall>a\<in>set (concat ass). bind_succeeds (answer a)"
    using resolve_addresses_usable [of "sc_address conf" getaddrinfo getifaddrs answer] Cons.prems by auto
  obtain t where t: "TCPServer_bind_all (map (\<lambda>a. (a, answer a)) (concat ass)) [] (TCPServer_new read_timeout) = Inr (True, [], t)"
    "serves answer (concat ass) (snd (TCPServer_start t))"
    using bind_start_serves [OF ass(3)] by blast
  let ?one = "(HttpServer_new (sc_keepalive conf \<noteq> 0), snd (TCPServer_start t))"
  obtain started where st: "run_fiber getaddrinfo getifaddrs answer read_timeout confs (servers @ [?one]) = Inr (False, (servers @ [?one]) @ started)"
    "list_all2 (\<lambda>conf (http, tcp). http = HttpServer_new (sc_keepalive conf \<noteq> 0) \<and>
      (\<exists>ass. list_all2 (\<lambda>i as. resolve_address getaddrinfo getifaddrs i = Inr as \<and> as \<noteq> []) (sc_address conf) ass \<and>
        serves answer (concat ass) tcp)) confs started"
    using Cons.IH [of "servers @ [?one]"] Cons.prems by auto
  have "run_fiber getaddrinfo getifaddrs answer read_timeout (conf # confs) servers = Inr (False, servers @ ?one # started)"
    using ass(1) t(1) st(1) by simp
  moreover have "list_all2 (\<lambda>conf (http, tcp). http = HttpServer_new (sc_keepalive conf \<noteq> 0) \<and>
      (\<exists>ass. list_all2 (\<lambda>i as. resolve_address getaddrinfo getifaddrs i = Inr as \<and> as \<noteq> []) (sc_address conf) ass \<and>
        serves answer (concat ass) tcp)) (conf # confs) (?one # started)"
    using st(2) ass(2) t(2) by auto
  ultimately show ?case by blast
qed simp

text \<open>An address without a colon, or one that does not resolve, is only reported: an entry of such addresses starts a server without sockets.\<close>

lemma run_fiber_drops:
  assumes "resolve_address getaddrinfo getifaddrs i = Inr []"
  shows "\<exists>tcp. run_fiber getaddrinfo getifaddrs answer read_timeout [conf\<lparr>sc_address := [i]\<rparr>] [] =
      Inr (False, [(HttpServer_new (sc_keepalive conf \<noteq> 0), tcp)]) \<and> ts_sockets tcp = []"
  using assms by (simp add: TCPServer_bind_all_def TCPServer_new_def TCPServer_start_def)

definition test_answer :: "Address \<Rightarrow> bind_answer" where
  "test_answer _ = \<lparr>ba_fd = 5, ba_bind = 0, ba_local = None, ba_listen = 0\<rparr>"

definition no_resolver :: resolver where
  "no_resolver _ _ _ = Inl 0"

theorem run_fiber_serves_witness:
  "\<exists>http tcp addrs. run_fiber no_resolver None test_answer 0 [\<lparr>sc_address = [''*:80''], sc_keepalive = 1, sc_timeout = 0, sc_name = []\<rparr>] [] = Inr (False, [(http, tcp)]) \<and>
     http = HttpServer_new True \<and> length addrs = 1 \<and> serves test_answer addrs tcp"
proof -
  let ?conf = "\<lparr>sc_address = [''*:80''], sc_keepalive = 1, sc_timeout = 0, sc_name = []\<rparr>"
  have any: "Address_LookupAny no_resolver ''*:80'' 2 0 0 = Inr None"
    by (simp add: Address_LookupAny_def Address_Lookup_def no_resolver_def split: prod.splits)
  have addrs: "\<exists>a. resolve_addresses no_resolver None (sc_address ?conf) = Inr [a]"
    by (simp add: resolve_address_def any GetInterfaceAddress_iface_def interface_address_def AF_UNSPEC_def AF_INET_def AF_INET6_def)
  then obtain a where a: "resolve_addresses no_resolver None (sc_address ?conf) = Inr [a]" ..
  then have one: "resolve_address no_resolver None ''*:80'' = Inr [a]"
    by (cases "resolve_address no_resolver None ''*:80''") simp_all
  then have "\<forall>conf\<in>set [?conf]. \<forall>i\<in>set (sc_address conf). usable_address no_resolver None test_answer i"
    by (simp add: usable_address_def bind_succeeds_def test_answer_def)
  from run_fiber_serves [OF this, of 0 "[]"] obtain started where st:
    "run_fiber no_resolver None test_answer 0 [?conf] [] = Inr (False, started)"
    "list_all2 (\<lambda>conf (http, tcp). http = HttpServer_new (sc_keepalive conf \<noteq> 0) \<and>
      (\<exists>ass. list_all2 (\<lambda>i as. resolve_address no_resolver None i = Inr as \<and> as \<noteq> []) (sc_address conf) ass \<and>
        serves test_answer (concat ass) tcp)) [?conf] started"
    by auto
  from st(2) obtain http tcp where s: "started = [(http, tcp)]" "http = HttpServer_new True" "serves test_answer [a] tcp"
    using one by (auto simp: list_all2_Cons1)
  show ?thesis using st(1) s by (intro exI [of _ http] exI [of _ tcp] exI [of _ "[a]"]) simp
qed

section \<open>Reading back the configuration of a server\<close>

text \<open>
  The configuration of a server written as YAML and read back is the same, for a library that loads what it emits and reads the numbers and
  texts it was given.
\<close>

theorem server_conf_roundtrip:
  assumes "yaml_laws Y" "\<And>n d. as_int (Some (y_text Y (print_int n))) d = n" "\<And>t d. as_string (Some (y_text Y t)) d = t"
  shows "LexicalCast_to_HttpServerConf Y as_int as_string (LexicalCast_of_HttpServerConf Y conf) = Some conf"
proof -
  define n where "n = y_set Y (y_set Y (y_set Y (y_null Y) ''name'' (y_text Y (sc_name conf))) ''keepalive'' (y_text Y (print_int (sc_keepalive conf))))
     ''timeout'' (y_text Y (print_int (sc_timeout conf)))"
  define m where "m = fold (\<lambda>item n. push_at Y ''address'' (y_text Y item) n) (sc_address conf) n"
  have n: "y_get Y n ''name'' = Some (Some (y_text Y (sc_name conf)))" "y_get Y n ''keepalive'' = Some (Some (y_text Y (print_int (sc_keepalive conf))))"
    "y_get Y n ''timeout'' = Some (Some (y_text Y (print_int (sc_timeout conf))))" "y_get Y n ''address'' = Some None"
    by (simp_all add: n_def yaml_law_simps [OF assms(1)])
  have get: "y_get Y m k = Some (if k = ''address'' then if sc_address conf = [] then None else Some (seq_node Y (map (y_text Y) (sc_address conf))) else r)"
    if "y_get Y n k = Some r" for k r
    unfolding m_def using get_pushed [OF assms(1) that, of "''address''" "[]" "y_text Y" "sc_address conf"] n(4) by simp
  have as: "cast_all (\<lambda>i. y_as Y (y_index Y (seq_node Y (map (y_text Y) as)) i)) [0 ..< y_size Y (seq_node Y (map (y_text Y) as))] = Some as" for as
    unfolding cast_all_index [OF assms(1)] cast_all_map using cast_all_const [of as _ "\<lambda>t. t"] by (simp add: yaml_law_simps [OF assms(1)])
  have of: "LexicalCast_of_HttpServerConf Y conf = y_emit Y m" by (simp add: LexicalCast_of_HttpServerConf_def m_def n_def)
  show ?thesis
    unfolding LexicalCast_to_HttpServerConf_def of Let_def yaml_law_simps(1) [OF assms(1)] bind.bind_lunit
      get [OF n(1)] get [OF n(2)] get [OF n(3)] get [OF n(4)]
    using as [of "sc_address conf"] by (auto simp: assms(2,3) intro!: HttpServerConf.equality)
qed

section \<open>Initialisation\<close>

text \<open>
  \<^verbatim>\<open>Application::init\<close> answers true only for a valid command line that asks for a start and not for help, when the pid file names no running process and
  the work path is there; help is printed exactly when the command line is at fault or asks for it, and then nothing else happens.
\<close>

theorem Application_init_outcome:
  assumes "Application_init fuel Y T call str sys program argv a = Some (ok, a')"
    and "\<And>p fs fs'. sy_mkdir sys p fs = (True, fs') \<Longrightarrow> sy_access sys p fs' \<and> (\<forall>q. sy_access sys q fs \<longrightarrow> sy_access sys q fs')"
  shows "let (valid, env) = Env_init (sy_exe sys) program argv (help_texts (ap_env a));
      help = (\<not> valid \<or> Env_has ''p'' env \<or> (\<not> Env_has ''s'' env \<and> \<not> Env_has ''d'' env));
      pidfile = server_pidfile str (fst (ap_config a)); path = c_str (config_string str ''server.work.path'' (fst (ap_config a'))) in
    ap_env a' = env \<and> (help \<longrightarrow> \<not> ok \<and> a' = a\<lparr>ap_env := env, ap_output := ap_output a @ Env_printHelp env\<rparr>) \<and>
    (ok \<longrightarrow> \<not> help \<and> \<not> FSUtil_IsRunningPidfile (sy_exists sys pidfile) (sy_line sys pidfile) (sy_kill sys) \<and>
      ap_output a' = ap_output a \<and> (sy_lstat sys path (ap_fs a') \<or> sy_access sys path (ap_fs a')))"
proof -
  obtain valid env where env: "Env_init (sy_exe sys) program argv (help_texts (ap_env a)) = (valid, env)" by fastforce
  have made: "sy_lstat sys (c_str d) fs' \<or> sy_access sys (c_str d) fs'"
    if "FSUtil_Mkdir (sy_lstat sys) (sy_access sys) (sy_mkdir sys) d fs = Some (True, fs')" for d fs fs'
    using Mkdir_makes_path [of "sy_mkdir sys" "sy_access sys" d "sy_lstat sys" fs] assms(2) that
    by (cases "sy_lstat sys (c_str d) fs"; cases "c_str d = []") (auto simp: FSUtil_Mkdir_def Let_def)
  show ?thesis
    using assms(1) unfolding Application_init_def env
    by (auto simp: Let_def bind_eq_Some_conv split: if_splits intro!: made)
qed

end
