(* ===== verification/Spec2Isabelle.thy ===== *)
theory Spec2Isabelle
  imports Byte_Array_Codec Hook Net_Address Http_Pool Threads Settings Server_Application
begin

text \<open>
  Verification of TinyServer, an asynchronous C++ network server: a fiber scheduler over epoll,
  hooked system calls, an HTTP/1.1 server and client, and the services (log, configuration,
  command line, daemon) around them. The sources are under \<^verbatim>\<open>src/src/\<close>.

  \<^bold>\<open>How the program is put together.\<close>
  \<^verbatim>\<open>Application\<close> reads the command line (\<^verbatim>\<open>Env\<close>), loads the YAML files (\<^verbatim>\<open>Config\<close>, whose
  callbacks rebuild the loggers of \<^verbatim>\<open>Log\<close>) and starts, under an \<^verbatim>\<open>IOManager\<close>, a fiber that creates one
  \<^verbatim>\<open>HttpServer\<close> per configured server. A \<^verbatim>\<open>TCPServer\<close> binds listening \<^verbatim>\<open>Socket\<close>s on resolved \<^verbatim>\<open>Address\<close>es
  and schedules an accepting fiber for each. The \<^verbatim>\<open>Scheduler\<close> hands queued fibers and callbacks to
  its threads; \<^verbatim>\<open>IOManager::idle\<close> waits in epoll for events and for the next \<^verbatim>\<open>Timer\<close>. A blocking call on a
  socket goes through the hooks: it registers its event, yields the fiber and is resumed by the
  event or by the timer of its timeout. On a connection a \<^verbatim>\<open>HttpSession\<close> reads through a
  \<^verbatim>\<open>SocketStream\<close>, runs the Ragel generated parser, dispatches the request to a \<^verbatim>\<open>Servlet\<close> and writes the
  answer; \<^verbatim>\<open>HttpConnection\<close> and its pool are the client side. \<^verbatim>\<open>ByteArray\<close> is the serialisation buffer.

  \<^bold>\<open>Theories and sources.\<close>
  \<^item> \<^verbatim>\<open>Tiny_Prelude\<close>: the result type (\<^verbatim>\<open>error + value\<close>, with \<^verbatim>\<open>rbind\<close>), segments and overwriting of lists,
    decimal and hexadecimal printing, conversions over lists. \<^verbatim>\<open>Ordered_Map\<close>: \<^verbatim>\<open>std::map\<close> as a sorted
    association list for a comparison that is given by a key.
  \<^item> \<^verbatim>\<open>Byte_Order\<close> (\<^verbatim>\<open>myendian.h\<close>), \<^verbatim>\<open>Byte_Array\<close>, \<^verbatim>\<open>Byte_Array_Correct\<close>, \<^verbatim>\<open>Byte_Array_Codec\<close>
    (\<^verbatim>\<open>bytearray.h/.cpp\<close>): the chain of blocks as a list of blocks with the current block as an index, every
    read and write with its loop, the fixed and variable length integers at their width, floats by
    their bits, strings, files, and the gather lists.
  \<^item> \<^verbatim>\<open>Timer\<close> (\<^verbatim>\<open>timer.*\<close>), \<^verbatim>\<open>Fiber\<close> (\<^verbatim>\<open>fiber.*\<close>), \<^verbatim>\<open>Scheduler\<close> (\<^verbatim>\<open>scheduler.*\<close>), \<^verbatim>\<open>IO_Manager\<close>
    (\<^verbatim>\<open>iomanager.*\<close>), \<^verbatim>\<open>Fd_Manager\<close> (\<^verbatim>\<open>fd_manager.*\<close>), \<^verbatim>\<open>Hook\<close> (\<^verbatim>\<open>hook.*\<close>), \<^verbatim>\<open>Threads\<close> (\<^verbatim>\<open>thread.*\<close>): the runtime.
  \<^item> \<^verbatim>\<open>Net_Address\<close> (\<^verbatim>\<open>address.*\<close>), \<^verbatim>\<open>Socket\<close> (\<^verbatim>\<open>socket.*\<close>), \<^verbatim>\<open>Stream\<close> (\<^verbatim>\<open>stream.*\<close>), \<^verbatim>\<open>Socket_Stream\<close>
    (\<^verbatim>\<open>socket_stream.*\<close>), \<^verbatim>\<open>Tcp_Server\<close> (\<^verbatim>\<open>tcp_server.*\<close>): the network.
  \<^item> \<^verbatim>\<open>Ragel_Machine\<close>: what the generated state machines share (a state is a list of edges on bytes, an edge
    names the actions it runs and the next state). \<^verbatim>\<open>Http11_Machine\<close>, \<^verbatim>\<open>Httpclient_Machine\<close> and
    \<^verbatim>\<open>Uri_Machine\<close> are the switch statements of \<^verbatim>\<open>http11_parser.rl.cpp\<close>, \<^verbatim>\<open>httpclient_parser.rl.cpp\<close> and
    \<^verbatim>\<open>uri.cpp\<close>, block by block; \<^verbatim>\<open>C_Number\<close> is \<^verbatim>\<open>strtol\<close> and \<^verbatim>\<open>atoi\<close>.
  \<^item> \<^verbatim>\<open>Http_Message\<close> (\<^verbatim>\<open>http/http.*\<close>), \<^verbatim>\<open>Http_Parser\<close>, \<^verbatim>\<open>Http_Parser_Correct\<close>,
    \<^verbatim>\<open>Http_Response_Parser\<close>, \<^verbatim>\<open>Http_Response_Correct\<close> (\<^verbatim>\<open>http/http_parser.*\<close> with the actions of the machines),
    \<^verbatim>\<open>Uri_Parser\<close> (\<^verbatim>\<open>uri.*\<close>), \<^verbatim>\<open>Servlet\<close> (\<^verbatim>\<open>http/servlet.*\<close>), \<^verbatim>\<open>Http_Session\<close> (\<^verbatim>\<open>http/http_session.*\<close> and
    \<^verbatim>\<open>http/http_server.*\<close>), \<^verbatim>\<open>Http_Connection\<close> and \<^verbatim>\<open>Http_Pool\<close> (\<^verbatim>\<open>http/http_connection.*\<close>): HTTP.
  \<^item> \<^verbatim>\<open>Log_Format\<close>, \<^verbatim>\<open>Log\<close> (\<^verbatim>\<open>log.*\<close>), \<^verbatim>\<open>Environment\<close> (\<^verbatim>\<open>env.*\<close>, \<^verbatim>\<open>util.*\<close>), \<^verbatim>\<open>Config\<close> (\<^verbatim>\<open>config.*\<close> and the log
    conversions), \<^verbatim>\<open>Settings\<close> (the copies of configuration variables in \<^verbatim>\<open>http/http_parser.cpp\<close> and
    \<^verbatim>\<open>hook.cpp\<close>), \<^verbatim>\<open>Server_Application\<close> (\<^verbatim>\<open>daemon.*\<close>, \<^verbatim>\<open>application.*\<close>): the services.

  Classes are records with the source's members, enumerations are datatypes, machine integers are
  words where their width matters and integers with the wrap-around written out elsewhere. A method
  takes the state and returns it updated; exceptions, failed assertions and null dereferences are
  values \<^verbatim>\<open>Inl e\<close> of each component's error type. Objects that are shared through pointers (timers,
  loggers, appenders, sockets, fibers) live in an explicit store. Answers of the kernel are
  arguments, one per call or a list that the calls consume.

  \<^bold>\<open>Interfaces.\<close> Each locale is interpreted on the model's own operations:
  \<^verbatim>\<open>byte_store\<close> (writing overwrites and reading returns a segment) and its extension \<^verbatim>\<open>byte_codec\<close> (typed
  values) on \<^verbatim>\<open>ByteArray\<close>; \<^verbatim>\<open>ctx_table\<close> on the descriptor table; \<^verbatim>\<open>keyed_order\<close> on the case insensitive
  headers and on logger names; \<^verbatim>\<open>strict_order\<close> on the timer comparator; \<^verbatim>\<open>stream_reader\<close> and
  \<^verbatim>\<open>stream_writer\<close> on \<^verbatim>\<open>SocketStream\<close>; \<^verbatim>\<open>lockable\<close> on \<^verbatim>\<open>RWLock\<close> and its extension \<^verbatim>\<open>blocking_lock\<close> on the three
  exclusive locks.

  \<^bold>\<open>What is shown.\<close>
  \<^item> HTTP end to end: client and server understand each other when the head of a message arrives in one read (one exchange, chunked
    answers, \<^verbatim>\<open>DoGet\<close>), the parsers invert the printers of requests and responses, the assertions of the request parser fail
    only on a buffer of \<open>2 ^ 31\<close> bytes or more, and a URI with an authority is split into its parts.
  \<^item> \<^verbatim>\<open>ByteArray\<close>: the block operations refine overwriting and reading of one flat list, with the exact
    cases in which the code fails, and typed values survive a round trip (but those that the code does not read back).
  \<^item> The runtime, by rule induction over step relations: the timer set stays sorted and exact, the
    scheduler's counters (the run of the root thread inside \<^verbatim>\<open>stop\<close> included) and the number of pending events are exact, which
    tells what \<^verbatim>\<open>stopping()\<close> means; an event is handed to the scheduler it was registered with; a hooked call waits until its call
    is answered or its timeout strikes, whose timer fires and wakes its fiber; a fiber's states and where it goes back to;
    guards exclude each other on a lock (of an \<^verbatim>\<open>RWLock\<close> unless a thread takes it again while it writes); a thread's start comes to its end.
  \<^item> The network: sockets are opened and closed once, a server that is stopped comes to rest with its sockets closed, binding is all or
    nothing, addresses are ordered, fixed size writes keep the bytes in order, the connection pool
    counts its connections.
  \<^item> The services: patterns format as they read, logging does not fail in reachable states, a log
    configuration takes effect, configuration variables are found again, bad names refused, and values loaded from YAML, the
    copies that components keep of them follow, and their conversions are round trips, options of the command line are read back, servers of the
    configuration are started, a crashing child is restarted.
  \<^item> Where the code departs from what its comments or its callers expect, the theorem states the
    behaviour of the code exactly (for example the two bytes lost of a chunk that arrives in
    pieces, the retry of an interrupted call that does not end, the null pointer that an unchanged
    logger of a new configuration causes).

  \<^bold>\<open>Loops.\<close> Loops over data terminate by a measure. Loops that may run for ever on the answers they
  get are partial functions into \<^verbatim>\<open>option\<close>, where \<^verbatim>\<open>None\<close> is not returning (\<^verbatim>\<open>readFixSize_loop\<close>,
  \<^verbatim>\<open>fixSize_ba_loop\<close>, \<^verbatim>\<open>writeFixSize_loop\<close>, \<^verbatim>\<open>recvRequest_loop\<close>, \<^verbatim>\<open>HttpServer_handleClient\<close>, \<^verbatim>\<open>recvResponse_loop\<close>, the chunk
  loops, \<^verbatim>\<open>Logger_log\<close>, which follows the root of a logger); that they return is proved where it is
  used. Only the walks over a YAML tree and over directories take a bound on the depth, and
  \<^verbatim>\<open>ListAllMember_total\<close> and \<^verbatim>\<open>ListAllFile_total\<close> show that a bound above the depth is enough.

  \<^bold>\<open>Parameters.\<close> Code that is not in the repository is an argument: yaml-cpp (a record of its functions
  with the laws used of them as hypotheses, instantiated on trees), \<^verbatim>\<open>boost::lexical_cast\<close>, \<^verbatim>\<open>getaddrinfo\<close>,
  \<^verbatim>\<open>getifaddrs\<close>, \<^verbatim>\<open>inet_pton\<close>, \<^verbatim>\<open>fnmatch\<close>, \<^verbatim>\<open>strftime\<close>, the clocks, \<^verbatim>\<open>fork\<close> and \<^verbatim>\<open>waitpid\<close>, and the file system. The \<^verbatim>\<open>pthread_rwlock\<close>
  functions are those of the C library: a thread that holds the lock for writing is refused with \<^verbatim>\<open>EDEADLK\<close>, every other one waits.

  \<^bold>\<open>Not modelled.\<close> The lookup of the original functions with \<^verbatim>\<open>dlsym\<close> (\<^verbatim>\<open>hook_init\<close>), \<^verbatim>\<open>TimeToStr\<close> (one call of
  \<^verbatim>\<open>strftime\<close>), \<^verbatim>\<open>Socket::dump\<close> (printing only), log messages written by other components, destructors that
  only release memory, the idioms of \<^verbatim>\<open>Singleton.h\<close>, \<^verbatim>\<open>noncoptable.h\<close> and \<^verbatim>\<open>macro.h\<close>, the test programs and the example, and
  the files CMake generated under \<^verbatim>\<open>src/build/\<close>. Data races on unlocked members are left out. Context switches are changes of the running fiber, not of machine registers.

  \<^bold>\<open>Atomic steps.\<close> An operation under a lock is one step. Some operations take two locks one after the other, or go on after the
  unlock, and are one step here all the same, so that what other threads do in between is not in the step relations:
  \<^item> \<^verbatim>\<open>TimerManager::listExpireCB\<close> (an empty set is tested under a read lock before the write lock);
  \<^item> \<^verbatim>\<open>IOManager::addEvent\<close> (the table is tested under the read lock and grown under the write lock; \<open>addEvent_table_race\<close> shows what goes
    wrong between them);
  \<^item> \<^verbatim>\<open>ConfigVar::setValue\<close> (the callbacks run under the read lock, the assignment under the write lock; \<open>setValue_notify\<close> and
    \<open>setValue_assign\<close> are the two parts, and \<open>concurrent_setters_stale_copy\<close> shows what two setters can leave);
  \<^item> \<^verbatim>\<open>HttpConnectionPool::getConnection\<close> (\<^verbatim>\<open>m_total\<close> is an atomic that is updated after the unlock);
  \<^item> the task that \<^verbatim>\<open>TCPServer::stop\<close> schedules (a loop over the sockets).
  The steps of \<^verbatim>\<open>Scheduler::run\<close> are finer: taking a task, switching, the decrement and what follows it are steps of their own.
\<close>

section \<open>Timeouts of hooked calls\<close>

text \<open>A scheduler without threads or tasks, for the concrete instance.\<close>

definition quiet_scheduler :: "hook_cb scheduler" where
  "quiet_scheduler =
     \<lparr>sc_fibers = [], sc_activateThreadCount = 0, sc_idleThreadCount = 0, sc_stopping = True,
      sc_autoStop = False, sc_threadCount = 0, sc_rootFiber = None, sc_rootThread = - 1,
      sc_world = \<lparr>fw_heap = (\<lambda>_. None), s_fiber_id = 0, s_fiber_count = 0\<rparr>, sc_workers = []\<rparr>"

lemma reachable_timers:
  assumes "io_reach (IOManager_new this others s (TimerManager_new start)) io"
  shows "io_inv io" and "tm_inv (io_timers io)"
proof -
  have "tm_inv (io_timers (IOManager_new this others s (TimerManager_new start)))"
    by (simp add: IOManager_new_def tm_inv_new)
  then show "tm_inv (io_timers io)" using io_reach_timers [OF assms] by simp
  show "io_inv io" using assms io_inv_new by (rule io_reach_inv)
qed

text \<open>
  (C17) A hooked call whose wait times out is woken and fails with \<^verbatim>\<open>ETIMEDOUT\<close>. In a reachable I/O manager, let
  the call's wait with a timeout succeed. Then the fiber is registered for its event and its timer is armed.
  Whatever other code does after that, as long as the fiber still waits and the timer has not fired: the next
  round of \<^verbatim>\<open>idle\<close> at or after the due time in which epoll reports no event queues the timer's callback. And whenever the callback runs while
  the fiber still waits, it takes the event back, queues the fiber and records \<^verbatim>\<open>ETIMEDOUT\<close>, with which the
  resumed \<^verbatim>\<open>do_io\<close> fails without calling the function again.
\<close>

theorem hooked_timeout_wakes_fiber:
  assumes "io_reach (IOManager_new this others s (TimerManager_new start)) io" and "single event" and "0 \<le> fd"
    and "to \<noteq> - 1" and "tm_heap (io_timers io) timer = None"
    and "do_io_wait now timer to (Hook_timeout fd event) 0 (Some this) fiber fd event io = Inr (0, tinfo, io1)"
  shows "waits_for fd event this fiber io1
    \<and> tm_heap (io_timers io1) timer = Some (Timer_new now to (Some (Hook_timeout fd event)) False)
    \<and> (\<forall>io2 now1 now2 q. io_reach io1 io2 \<longrightarrow> waits_for fd event this fiber io2 \<longrightarrow>
         tm_heap (io_timers io2) timer = tm_heap (io_timers io1) timer \<longrightarrow>
         tm_heap (io_timers io2) q = None \<longrightarrow> now + to \<le> now2 \<longrightarrow>
         (\<exists>io3 cbs. IOManager_idle_round now1 now2 q [] io2 = Inr (Some io3)
            \<and> sc_fibers (io_sched io3) = sc_fibers (io_sched io2) @ cbs
            \<and> FiberAndThread_cb (Some (Hook_timeout fd event)) (- 1) \<in> set cbs
            \<and> waits_for fd event this fiber io3))
    \<and> (\<forall>io3. io_reach io1 io3 \<longrightarrow> waits_for fd event this fiber io3 \<longrightarrow>
         (\<exists>c io4. hook_cb_run True 0 0 (Hook_timeout fd event) io3 = Inr (c, io4)
            \<and> \<not> registered event (io_fdEvents io4 ! nat fd)
            \<and> sc_fibers (sched_at io4 this) = sc_fibers (sched_at io3 this) @ [FiberAndThread_fiber (Some fiber) (- 1)]
            \<and> (\<forall>ctx w errno calls waits. blocking_socket ctx \<longrightarrow> wait_addEvent w = 0 \<longrightarrow> wait_cancelled w = c \<longrightarrow>
                 do_io True (Some ctx) errno (Io_Err EAGAIN # calls) (w # waits)
                   = Some \<lparr>hr_ret = - 1, hr_errno = ETIMEDOUT, hr_calls = calls, hr_waits = waits\<rparr>)))"
proof (intro conjI allI impI)
  have inv: "io_inv io" and tm: "tm_inv (io_timers io)"
    using reachable_timers [OF assms(1)] by simp_all
  note w = do_io_wait_spec [OF inv tm assms(3,2,4,5,6)]
  show "waits_for fd event this fiber io1"
    "tm_heap (io_timers io1) timer = Some (Timer_new now to (Some (Hook_timeout fd event)) False)" by (fact w)+
  fix io2 now1 now2 q
  assume r: "io_reach io1 io2" and wait: "waits_for fd event this fiber io2"
    and t: "tm_heap (io_timers io2) timer = tm_heap (io_timers io1) timer"
    and q: "tm_heap (io_timers io2) q = None" and due: "now + to \<le> now2"
  have tm2: "tm_inv (io_timers io2)" using io_reach_timers [OF r w(3)] ..
  have pend: "0 < io_pending io2"
    using pending_positive [OF io_reach_inv [OF r w(2)]] wait assms(2)
    by (auto simp: waits_for_def pending_of_def single_def)
  have "timer \<in> set (tm_timers (io_timers io2))"
    using tm2 t w(4) by (simp add: tm_inv_def armed_def Timer_new_def)
  then have "timer \<in> set (due now2 (io_timers io2))"
    using t w(4) due by (simp add: due_def next_of_def Timer_new_def)
  then have m: "FiberAndThread_cb (Some (Hook_timeout fd event)) (- 1)
      \<in> set (map (\<lambda>p. FiberAndThread_cb (t_cb (the (tm_heap (io_timers io2) p))) (- 1)) (due now2 (io_timers io2)))"
    using t w(4) by (force simp: Timer_new_def)
  obtain io3 where "IOManager_idle_round now1 now2 q [] io2 = Inr (Some io3)"
    "sc_fibers (io_sched io3) = sc_fibers (io_sched io2)
        @ map (\<lambda>p. FiberAndThread_cb (t_cb (the (tm_heap (io_timers io2) p))) (- 1)) (due now2 (io_timers io2))"
    "io_fdEvents io3 = io_fdEvents io2"
    using idle_round_queues_due [OF tm2 pend q] by metis
  with m wait show "\<exists>io3 cbs. IOManager_idle_round now1 now2 q [] io2 = Inr (Some io3)
      \<and> sc_fibers (io_sched io3) = sc_fibers (io_sched io2) @ cbs
      \<and> FiberAndThread_cb (Some (Hook_timeout fd event)) (- 1) \<in> set cbs
      \<and> waits_for fd event this fiber io3" by (auto simp: waits_for_def)
next
  fix io3
  assume r: "io_reach io1 io3" and wait: "waits_for fd event this fiber io3"
  have inv: "io_inv io" and tm: "tm_inv (io_timers io)"
    using reachable_timers [OF assms(1)] by simp_all
  note inv3 = io_reach_inv [OF r do_io_wait_spec(2) [OF inv tm assms(3,2,4,5,6)]]
  have d: "do_io True (Some ctx) errno (Io_Err EAGAIN # calls) (w # waits)
      = Some \<lparr>hr_ret = - 1, hr_errno = ETIMEDOUT, hr_calls = calls, hr_waits = waits\<rparr>"
    if "blocking_socket ctx" "wait_addEvent w = 0" "wait_cancelled w = ETIMEDOUT" for ctx w errno calls waits
    using that by (simp add: do_io_def blocking_socket_def do_io_eintr_other errno_defs)
  obtain io4 where "IOManager_cancelEvent 0 fd event io3 = Inr (True, io4)"
    "\<not> registered event (io_fdEvents io4 ! nat fd)"
    "sc_fibers (sched_at io4 this) = sc_fibers (sched_at io3 this) @ [FiberAndThread_fiber (Some fiber) (- 1)]"
    by (rule cancelEvent_wakes [OF inv3 assms(3,2) wait])
  with d show "\<exists>c io4. hook_cb_run True 0 0 (Hook_timeout fd event) io3 = Inr (c, io4)
      \<and> \<not> registered event (io_fdEvents io4 ! nat fd)
      \<and> sc_fibers (sched_at io4 this) = sc_fibers (sched_at io3 this) @ [FiberAndThread_fiber (Some fiber) (- 1)]
      \<and> (\<forall>ctx w errno calls waits. blocking_socket ctx \<longrightarrow> wait_addEvent w = 0 \<longrightarrow> wait_cancelled w = c \<longrightarrow>
           do_io True (Some ctx) errno (Io_Err EAGAIN # calls) (w # waits)
             = Some \<lparr>hr_ret = - 1, hr_errno = ETIMEDOUT, hr_calls = calls, hr_waits = waits\<rparr>)"
    by (simp add: do_io_timeout_cb_def)
qed

theorem hooked_timeout_wakes_fiber_witness:
  "\<exists>tinfo io1 io3 cbs c io4.
     do_io_wait 100 7 50 (Hook_timeout 3 EV_READ) 0 (Some 0) 9 3 EV_READ
       (IOManager_new 0 (\<lambda>_. quiet_scheduler) quiet_scheduler (TimerManager_new 0)) = Inr (0, tinfo, io1)
     \<and> IOManager_idle_round 120 150 8 [] io1 = Inr (Some io3)
     \<and> sc_fibers (io_sched io3) = sc_fibers (io_sched io1) @ cbs
     \<and> FiberAndThread_cb (Some (Hook_timeout 3 EV_READ)) (- 1) \<in> set cbs
     \<and> hook_cb_run True 0 0 (Hook_timeout 3 EV_READ) io1 = Inr (c, io4)
     \<and> sc_fibers (sched_at io4 0) = sc_fibers (sched_at io1 0) @ [FiberAndThread_fiber (Some 9) (- 1)]"
proof -
  let ?io = "IOManager_new 0 (\<lambda>_. quiet_scheduler) quiet_scheduler (TimerManager_new 0)"
  have fresh: "tm_heap (io_timers ?io) 7 = None" by (simp add: IOManager_new_def TimerManager_new_def)
  have e: "single EV_READ" by simp
  obtain tinfo io1 where w: "do_io_wait 100 7 50 (Hook_timeout 3 EV_READ) 0 (Some 0) 9 3 EV_READ ?io = Inr (0, tinfo, io1)"
    and q: "tm_heap (io_timers io1) 8 = None"
    by (simp add: do_io_wait_def IOManager_addEvent_def addEvent_table_def addEvent_locked_def IOManager_new_def
        IOManager_eventResize_def FdEvent_new_def FdEvent_getEvent_def Event_empty_def EV_NONE_def EV_READ_def
        TimerManager_new_def TimerManager_addTimer_def TimerManager_addTimer_locked_def Let_def)
  have p: "(0 :: int) \<le> 3" "(50 :: u64) \<noteq> - 1" by simp_all
  note r = hooked_timeout_wakes_fiber [OF io_reach.start e p fresh w]
  note wait = r [THEN conjunct1]
  have due: "100 + 50 \<le> (150 :: u64)" by simp
  obtain io3 cbs where a: "IOManager_idle_round 120 150 8 [] io1 = Inr (Some io3)"
    "sc_fibers (io_sched io3) = sc_fibers (io_sched io1) @ cbs"
    "FiberAndThread_cb (Some (Hook_timeout 3 EV_READ)) (- 1) \<in> set cbs"
    using r [THEN conjunct2, THEN conjunct2, THEN conjunct1, rule_format, OF io_reach.start wait refl q due] by blast
  obtain c io4 where "hook_cb_run True 0 0 (Hook_timeout 3 EV_READ) io1 = Inr (c, io4)"
    "sc_fibers (sched_at io4 0) = sc_fibers (sched_at io1 0) @ [FiberAndThread_fiber (Some 9) (- 1)]"
    using r [THEN conjunct2, THEN conjunct2, THEN conjunct2, rule_format, OF io_reach.start wait] by blast
  with w a show ?thesis by blast
qed

end
